(* ===== verification/Prelude.thy ===== *)
theory Prelude
  imports Main "HOL-Library.Multiset" "HOL-Library.Product_Lexorder"
begin

text \<open>
  Shared vocabulary of the development: the JavaScript conventions the code relies on (truthiness
  of \<open>string | null\<close>, the stable \<open>Array.prototype.sort\<close>, \<open>Math.round\<close> of a quotient), the table
  operations that stand for the Prisma calls (\<open>findFirst\<close>, \<open>updateMany\<close>, \<open>count\<close>), the rule
  that a \<open>$transaction\<close> callback which throws leaves the database as it was, and the contract
  \<open>status_machine\<close> shared by every table whose rows carry a status column.
\<close>

named_theorems js "facts on the JavaScript conventions"
named_theorems tbl "facts on table reads and writes"

type_synonym id = string
type_synonym instant = int \<comment> \<open>a \<open>Date\<close>: milliseconds since the epoch\<close>

section \<open>JavaScript conventions\<close>

text \<open>A value of type \<open>string | null | undefined\<close> is truthy when it is a non-empty string.\<close>

definition truthy :: "string option \<Rightarrow> bool" where
  "truthy v = (case v of None \<Rightarrow> False | Some s \<Rightarrow> s \<noteq> [])"

lemma truthy_simps [simp, js]: "\<not> truthy None" "truthy (Some s) \<longleftrightarrow> s \<noteq> []"
  by (simp_all add: truthy_def)

lemma truthyE [elim]: "truthy v \<Longrightarrow> (\<And>s. v = Some s \<Longrightarrow> s \<noteq> [] \<Longrightarrow> P) \<Longrightarrow> P"
  by (cases v) auto

text \<open>The operator \<open>??\<close> on an optional value and the operator \<open>||\<close> on comparator results.\<close>

definition orElse :: "'a option \<Rightarrow> 'a \<Rightarrow> 'a" where
  "orElse v d = (case v of None \<Rightarrow> d | Some x \<Rightarrow> x)"

lemma orElse_simps [simp, js]: "orElse None d = d" "orElse (Some x) d = x"
  by (simp_all add: orElse_def)

definition orElse_opt :: "'a option \<Rightarrow> 'a option \<Rightarrow> 'a option" where
  "orElse_opt v d = (case v of None \<Rightarrow> d | Some x \<Rightarrow> Some x)"

lemma orElse_opt_simps [simp, js]: "orElse_opt None d = d" "orElse_opt (Some x) d = Some x"
  by (simp_all add: orElse_opt_def)

definition cmp_or :: "int \<Rightarrow> int \<Rightarrow> int" where
  "cmp_or a b = (if a \<noteq> 0 then a else b)"

text \<open>\<open>Math.round (a / b)\<close> for \<open>b > 0\<close>: halves round up.\<close>

definition round_div :: "int \<Rightarrow> int \<Rightarrow> int" where
  "round_div a b = (2 * a + b) div (2 * b)"

lemma round_div_mono: "0 < b \<Longrightarrow> a \<le> a' \<Longrightarrow> round_div a b \<le> round_div a' b"
  unfolding round_div_def by (intro zdiv_mono1) auto

text \<open>Decimal digits of a non-negative integer, as a template literal prints it.\<close>

fun nat_str :: "nat \<Rightarrow> string" where
  "nat_str n = (if n < 10 then [char_of (48 + n)] else nat_str (n div 10) @ [char_of (48 + n mod 10)])"

declare nat_str.simps [simp del]

text \<open>\<open>trim\<close>, \<open>toLowerCase\<close>, \<open>toUpperCase\<close> and \<open>includes\<close> on strings of Latin characters.\<close>

definition js_space :: "char \<Rightarrow> bool" where
  "js_space c \<longleftrightarrow> of_char c \<in> {9, 10, 11, 12, 13, 32, 160 :: nat}"

definition js_trim :: "string \<Rightarrow> string" where
  "js_trim s = rev (dropWhile js_space (rev (dropWhile js_space s)))"

definition lower_char :: "char \<Rightarrow> char" where
  "lower_char c =
    (let n = of_char c :: nat in if 65 \<le> n \<and> n \<le> 90 then char_of (n + 32) else c)"

definition upper_char :: "char \<Rightarrow> char" where
  "upper_char c = (let n = of_char c :: nat in if 97 \<le> n \<and> n \<le> 122 then char_of (n - 32) else c)"

fun contains :: "string \<Rightarrow> string \<Rightarrow> bool" where
  "contains sub s =
    (take (length sub) s = sub \<or> (case s of [] \<Rightarrow> False | _ # rest \<Rightarrow> contains sub rest))"

declare contains.simps [simp del]

text \<open>The stable sort of \<open>Array.prototype.sort\<close>, by a comparator returning a signed number.\<close>

primrec js_insert :: "('a \<Rightarrow> 'a \<Rightarrow> int) \<Rightarrow> 'a \<Rightarrow> 'a list \<Rightarrow> 'a list" where
  "js_insert cmp x [] = [x]"
| "js_insert cmp x (y # ys) = (if cmp x y \<le> 0 then x # y # ys else y # js_insert cmp x ys)"

definition js_sort :: "('a \<Rightarrow> 'a \<Rightarrow> int) \<Rightarrow> 'a list \<Rightarrow> 'a list" where
  "js_sort cmp xs = foldr (js_insert cmp) xs []"

lemma js_sort_simps [simp, js]:
  "js_sort cmp [] = []" "js_sort cmp (x # xs) = js_insert cmp x (js_sort cmp xs)"
  by (simp_all add: js_sort_def)

lemma mset_js_insert [simp]: "mset (js_insert cmp x ys) = add_mset x (mset ys)"
  by (induction ys) auto

lemma set_js_insert [simp, js]: "set (js_insert cmp x ys) = insert x (set ys)"
  by (metis mset_js_insert set_mset_add_mset_insert set_mset_mset)

lemma mset_js_sort [simp]: "mset (js_sort cmp xs) = mset xs"
  by (induction xs) auto

lemma set_js_sort [simp, js]: "set (js_sort cmp xs) = set xs"
  by (metis mset_js_sort set_mset_mset)

lemma length_js_sort [simp, js]: "length (js_sort cmp xs) = length xs"
  by (metis mset_js_sort size_mset)

text \<open>
  A comparator that refines a key sorts by that key, whatever it answers on equal keys. The tie
  break of the code is \<open>localeCompare\<close>, whose collation is not in the repository.
\<close>

definition refines_key :: "('a \<Rightarrow> 'a \<Rightarrow> int) \<Rightarrow> ('a \<Rightarrow> 'k::linorder) \<Rightarrow> bool" where
  "refines_key cmp k \<longleftrightarrow> (\<forall>x y. (k x < k y \<longrightarrow> cmp x y \<le> 0) \<and> (k y < k x \<longrightarrow> \<not> cmp x y \<le> 0))"

lemma sorted_js_insert:
  assumes "refines_key cmp k" "sorted (map k ys)"
  shows "sorted (map k (js_insert cmp x ys))"
  using assms(2)
proof (induction ys)
  case Nil
  then show ?case by simp
next
  case (Cons y ys)
  have set: "set (js_insert cmp x ys) = insert x (set ys)"
    by (rule set_js_insert)
  have le: "cmp x y \<le> 0 \<Longrightarrow> k x \<le> k y" and ge: "\<not> cmp x y \<le> 0 \<Longrightarrow> k y \<le> k x"
    using assms(1) unfolding refines_key_def by (meson linorder_not_le)+
  show ?case
  proof (cases "cmp x y \<le> 0")
    case True
    with le Cons.prems show ?thesis by (auto intro: order_trans)
  next
    case False
    with ge Cons set show ?thesis by auto
  qed
qed

lemma sorted_js_sort:
  "refines_key cmp k \<Longrightarrow> sorted (map k (js_sort cmp xs))"
  by (induction xs) (auto intro: sorted_js_insert)

lemma find_sorted_least:
  "sorted (map k xs) \<Longrightarrow> find P xs = Some x \<Longrightarrow> y \<in> set xs \<Longrightarrow> P y \<Longrightarrow> k x \<le> k y"
  by (induction xs) (auto split: if_splits)

lemma find_js_sort_least:
  assumes "refines_key cmp k" "find P (js_sort cmp xs) = Some x" "y \<in> set xs" "P y"
  shows "k x \<le> k y"
  using find_sorted_least [OF sorted_js_sort [OF assms(1)] assms(2), of y] assms(3,4) by simp

lemma find_Some_D: "find P xs = Some x \<Longrightarrow> x \<in> set xs \<and> P x"
  by (induction xs) (auto split: if_splits)

lemma find_None_D: "find P xs = None \<Longrightarrow> y \<in> set xs \<Longrightarrow> \<not> P y"
  by (simp add: find_None_iff)

text \<open>The default order of \<open>Array.prototype.sort\<close> on strings.\<close>

fun code_cmp :: "string \<Rightarrow> string \<Rightarrow> int" where
  "code_cmp [] [] = 0"
| "code_cmp [] (b # bs) = -1"
| "code_cmp (a # as) [] = 1"
| "code_cmp (a # as) (b # bs) =
    (if a = b then code_cmp as bs
     else if (of_char a :: nat) < of_char b then -1 else 1)"

text \<open>The elements of a \<open>Set\<close>, in the order of their first insertion.\<close>

definition js_set :: "'a list \<Rightarrow> 'a list" where
  "js_set xs = rev (remdups (rev xs))"

lemma set_js_set [simp, js]: "set (js_set xs) = set xs"
  by (simp add: js_set_def)

lemma distinct_js_set [simp, js]: "distinct (js_set xs)"
  by (simp add: js_set_def)

section \<open>Tables\<close>

text \<open>
  A table is the list of its rows, in insertion order. \<open>updateMany\<close> rewrites the rows that match
  and reports how many did; \<open>find\<close> of the list library is \<open>findFirst\<close>.
\<close>

definition upd_where :: "('r \<Rightarrow> bool) \<Rightarrow> ('r \<Rightarrow> 'r) \<Rightarrow> 'r list \<Rightarrow> 'r list" where
  "upd_where p f rows = map (\<lambda>r. if p r then f r else r) rows"

definition count_where :: "('r \<Rightarrow> bool) \<Rightarrow> 'r list \<Rightarrow> nat" where
  "count_where p rows = length (filter p rows)"

lemma upd_where_simps [simp, tbl]:
  "upd_where p f [] = []"
  "upd_where p f (r # rows) = (if p r then f r else r) # upd_where p f rows"
  "upd_where p f (rows @ rows') = upd_where p f rows @ upd_where p f rows'"
  by (simp_all add: upd_where_def)

lemma length_upd_where [simp, tbl]: "length (upd_where p f rows) = length rows"
  by (simp add: upd_where_def)

lemma count_where_simps [simp, tbl]:
  "count_where p [] = 0"
  "count_where p (r # rows) = (if p r then Suc (count_where p rows) else count_where p rows)"
  "count_where p (rows @ rows') = count_where p rows + count_where p rows'"
  by (simp_all add: count_where_def)

lemma count_where_0_iff [tbl]: "count_where p rows = 0 \<longleftrightarrow> (\<forall>r \<in> set rows. \<not> p r)"
  by (auto simp: count_where_def filter_empty_conv)

lemma set_upd_where [tbl]: "set (upd_where p f rows) = (\<lambda>r. if p r then f r else r) ` set rows"
  by (simp add: upd_where_def)

lemma upd_where_none [tbl]: "(\<And>r. r \<in> set rows \<Longrightarrow> \<not> p r) \<Longrightarrow> upd_where p f rows = rows"
  by (induction rows) auto

lemma map_upd_where_same [tbl]:
  "(\<And>r. p r \<Longrightarrow> g (f r) = g r) \<Longrightarrow> map g (upd_where p f rows) = map g rows"
  by (induction rows) auto

text \<open>Reading one row back by its key after an update that keeps the keys.\<close>

lemma find_upd_where [tbl]:
  assumes "\<And>r. p r \<Longrightarrow> key (f r) = key r"
  shows "find (\<lambda>r. key r = k) (upd_where p f rows)
    = map_option (\<lambda>r. if p r then f r else r) (find (\<lambda>r. key r = k) rows)"
  using assms by (induction rows) auto

lemma find_append [tbl]:
  "find p (xs @ ys) = (case find p xs of None \<Rightarrow> find p ys | Some x \<Rightarrow> Some x)"
  by (induction xs) auto

text \<open>A row identified by its key is the only one an update by key touches.\<close>

lemma find_distinct_key:
  "distinct (map key rows) \<Longrightarrow> r \<in> set rows \<Longrightarrow> find (\<lambda>x. key x = key r) rows = Some r"
  by (induction rows) auto

lemma count_where_key [tbl]:
  "distinct (map key rows) \<Longrightarrow> r \<in> set rows \<Longrightarrow> q r \<Longrightarrow>
   count_where (\<lambda>x. key x = key r \<and> q x) rows = 1"
proof (induction rows)
  case (Cons y rows)
  show ?case
  proof (cases "key y = key r")
    case True
    then have "count_where (\<lambda>x. key x = key r \<and> q x) rows = 0"
      using Cons.prems(1) unfolding count_where_0_iff by (metis distinct.simps(2) image_eqI list.set_map list.simps(9))
    moreover have "y = r"
      using True Cons.prems(1,2) by auto
    ultimately show ?thesis using True Cons.prems(3) by simp
  next
    case False
    with Cons show ?thesis by auto
  qed
qed simp

lemma count_where_pos [tbl]: "count_where p rows = Suc n \<Longrightarrow> \<exists>r \<in> set rows. p r"
  using count_where_0_iff [of p rows] by auto

section \<open>Transactions\<close>

text \<open>
  The callback of \<open>prisma.$transaction\<close> either returns a new database with a result, or throws,
  and then every write it made is rolled back.
\<close>

definition in_tx :: "('d \<Rightarrow> 'e + 'd \<times> 'a) \<Rightarrow> 'd \<Rightarrow> 'd \<times> ('e + 'a)" where
  "in_tx body d = (case body d of Inl e \<Rightarrow> (d, Inl e) | Inr (d', a) \<Rightarrow> (d', Inr a))"

lemma in_tx_simps [simp, tbl]:
  "body d = Inl e \<Longrightarrow> in_tx body d = (d, Inl e)"
  "body d = Inr (d', a) \<Longrightarrow> in_tx body d = (d', Inr a)"
  by (simp_all add: in_tx_def)

lemma in_tx_error: "in_tx body d = (d', Inl e) \<Longrightarrow> d' = d"
  by (auto simp: in_tx_def split: sum.splits)

lemma in_tx_ok: "in_tx body d = (d', Inr a) \<longleftrightarrow> body d = Inr (d', a)"
  by (auto simp: in_tx_def split: sum.splits)

text \<open>A callback that writes the state \<open>d\<close> and then throws: the state is dropped.\<close>

definition write_then_throw :: "'d \<Rightarrow> 'e \<Rightarrow> 'e + 'd \<times> 'a" where
  "write_then_throw d e = Inl e"

text \<open>Sequencing of steps that may throw.\<close>

definition ebind :: "'e + 'a \<Rightarrow> ('a \<Rightarrow> 'e + 'b) \<Rightarrow> 'e + 'b" where
  "ebind m f = (case m of Inl e \<Rightarrow> Inl e | Inr a \<Rightarrow> f a)"

lemma ebind_simps [simp, tbl]: "ebind (Inl e) f = Inl e" "ebind (Inr a) f = f a"
  by (simp_all add: ebind_def)

lemma ebind_InrE:
  "ebind m f = Inr b \<Longrightarrow> (\<And>a. m = Inr a \<Longrightarrow> f a = Inr b \<Longrightarrow> P) \<Longrightarrow> P"
  by (cases m) auto

definition guard :: "bool \<Rightarrow> 'e \<Rightarrow> 'e + unit" where
  "guard ok e = (if ok then Inr () else Inl e)"

lemma guard_simps [simp, tbl]:
  "guard ok e = Inr u \<longleftrightarrow> ok" "guard ok e = Inl e' \<longleftrightarrow> \<not> ok \<and> e' = e"
  by (auto simp: guard_def)

section \<open>Rows under a constraint\<close>

text \<open>
  A unique index or an exclusion constraint says that no two rows conflict. \<open>table_ok\<close> is what the
  database keeps true of a table; the locale proves, once for every constraint, that the writes the
  database accepts keep it.
\<close>

definition table_ok :: "('r \<Rightarrow> 'k) \<Rightarrow> ('r \<Rightarrow> 'r \<Rightarrow> bool) \<Rightarrow> 'r list \<Rightarrow> bool" where
  "table_ok key conflict rows \<longleftrightarrow>
     distinct (map key rows) \<and>
     (\<forall>r \<in> set rows. \<forall>r' \<in> set rows. key r \<noteq> key r' \<longrightarrow> \<not> conflict r r')"

lemma table_ok_unique:
  "table_ok key conflict rows \<Longrightarrow> r \<in> set rows \<Longrightarrow> r' \<in> set rows \<Longrightarrow> key r = key r' \<Longrightarrow> r = r'"
  by (auto simp: table_ok_def distinct_map dest: inj_onD)

lemma table_ok_find:
  "table_ok key conflict rows \<Longrightarrow> r \<in> set rows \<Longrightarrow> find (\<lambda>x. key x = key r) rows = Some r"
  by (simp add: table_ok_def find_distinct_key)

locale constrained_table =
  fixes key :: "'r \<Rightarrow> 'k"
    and conflict :: "'r \<Rightarrow> 'r \<Rightarrow> bool"
  assumes conflict_sym: "conflict r r' \<Longrightarrow> conflict r' r"
begin

lemma insert_ok:
  assumes "table_ok key conflict rows"
    and "\<And>r'. r' \<in> set rows \<Longrightarrow> key r \<noteq> key r' \<and> \<not> conflict r r'"
  shows "table_ok key conflict (rows @ [r])"
proof -
  have "key r \<notin> key ` set rows" using assms(2) by blast
  then have "distinct (map key (rows @ [r]))"
    using assms(1) by (simp add: table_ok_def)
  moreover have "\<not> conflict x y"
    if "x \<in> set (rows @ [r])" "y \<in> set (rows @ [r])" "key x \<noteq> key y" for x y
  proof (cases "x = r \<or> y = r")
    case True
    with that assms(2) show ?thesis by (auto dest: conflict_sym)
  next
    case False
    with that assms(1) show ?thesis by (simp add: table_ok_def)
  qed
  ultimately show ?thesis unfolding table_ok_def by blast
qed

text \<open>An update that leaves every touched row without conflicts keeps the constraint.\<close>

lemma update_ok:
  assumes ok: "table_ok key conflict rows"
    and key: "\<And>r. p r \<Longrightarrow> key (f r) = key r"
    and free: "\<And>r r'. r \<in> set rows \<Longrightarrow> p r \<Longrightarrow> r' \<in> set rows \<Longrightarrow> key r' \<noteq> key r \<Longrightarrow>
      \<not> conflict (f r) r' \<and> (p r' \<longrightarrow> \<not> conflict (f r) (f r'))"
  shows "table_ok key conflict (upd_where p f rows)"
proof -
  let ?g = "\<lambda>r. if p r then f r else r"
  have ids: "map key (upd_where p f rows) = map key rows"
    by (rule map_upd_where_same) (simp add: key)
  have kg: "key (?g r) = key r" for r by (simp add: key)
  have "\<not> conflict (?g r) (?g r')"
    if "r \<in> set rows" "r' \<in> set rows" "key r \<noteq> key r'" for r r'
  proof -
    have base: "\<not> conflict r r'" using ok that by (simp add: table_ok_def)
    have "p r \<Longrightarrow> \<not> conflict (f r) r' \<and> (p r' \<longrightarrow> \<not> conflict (f r) (f r'))"
      using free that by metis
    moreover have "p r' \<Longrightarrow> \<not> conflict (f r') r"
      using free that by metis
    ultimately show ?thesis using base by (auto dest: conflict_sym)
  qed
  then have "\<forall>x \<in> ?g ` set rows. \<forall>y \<in> ?g ` set rows. key x \<noteq> key y \<longrightarrow> \<not> conflict x y"
    unfolding ball_simps(9) kg by blast
  then show ?thesis
    using ok ids unfolding table_ok_def set_upd_where by simp
qed

text \<open>In particular when the touched rows leave the scope of the constraint.\<close>

lemma retire_ok:
  assumes "table_ok key conflict rows"
    and "\<And>r. p r \<Longrightarrow> key (f r) = key r"
    and "\<And>r r'. p r \<Longrightarrow> \<not> conflict (f r) r'"
  shows "table_ok key conflict (upd_where p f rows)"
  using assms by (intro update_ok) auto

lemma frame_ok:
  assumes "table_ok key conflict rows"
    and "\<And>r. p r \<Longrightarrow> key (f r) = key r"
    and "\<And>r r'. conflict (f r) r' = conflict r r'" "\<And>r r'. conflict r (f r') = conflict r r'"
  shows "table_ok key conflict (upd_where p f rows)"
  using assms by (intro update_ok) (auto simp: table_ok_def)

end

section \<open>Rows with a status column\<close>

text \<open>
  The contract of every table whose rows move along a fixed graph of statuses: a step of the
  component leaves each row at its status or moves it along an edge, and never drops it.
\<close>

locale status_machine =
  fixes edge :: "'s \<Rightarrow> 's \<Rightarrow> bool"
    and status :: "'d \<Rightarrow> 'k \<Rightarrow> 's option"
    and step :: "'d \<Rightarrow> 'd \<Rightarrow> bool"
  assumes step_edge:
    "step d d' \<Longrightarrow> status d k = Some s \<Longrightarrow> \<exists>s'. status d' k = Some s' \<and> edge\<^sup>*\<^sup>* s s'"
begin

lemma run_edge:
  assumes "step\<^sup>*\<^sup>* d d'" "status d k = Some s"
  shows "\<exists>s'. status d' k = Some s' \<and> edge\<^sup>*\<^sup>* s s'"
  using assms
proof (induction rule: rtranclp_induct)
  case base
  then show ?case by blast
next
  case (step d1 d2)
  then show ?case by (meson rtranclp_trans step_edge)
qed

lemma terminal_absorbing:
  assumes "step\<^sup>*\<^sup>* d d'" "status d k = Some s" "\<And>s'. \<not> edge s s'"
  shows "status d' k = Some s"
proof -
  obtain s' where s': "status d' k = Some s'" "edge\<^sup>*\<^sup>* s s'"
    using run_edge [OF assms(1,2)] by blast
  from s'(2) have "s' = s"
    by (rule converse_rtranclpE) (use assms(3) in auto)
  with s'(1) show ?thesis by simp
qed

end

text \<open>The status of a row found by its key, after an update of the rows that match.\<close>

lemma status_after_update:
  assumes "map_option st (find (\<lambda>x. key x = k) rows) = Some s"
    and "\<And>r. p r \<Longrightarrow> key (f r) = key r"
    and "\<And>r. find (\<lambda>x. key x = k) rows = Some r \<Longrightarrow> p r \<Longrightarrow> edge (st r) (st (f r))"
  shows "\<exists>s'. map_option st (find (\<lambda>x. key x = k) (upd_where p f rows)) = Some s' \<and> edge\<^sup>*\<^sup>* s s'"
proof -
  obtain r where r: "find (\<lambda>x. key x = k) rows = Some r" "st r = s" using assms(1) by auto
  then have "map_option st (find (\<lambda>x. key x = k) (upd_where p f rows)) = Some (if p r then st (f r) else s)"
    by (simp add: find_upd_where [where key = key, OF assms(2)])
  with r assms(3) [OF r(1)] show ?thesis by auto
qed

end
