(* ===== verification/Domain.thy ===== *)
theory Domain
  imports Prelude
begin

text \<open>
  The enumerations of \<open>schema.prisma\<close> and of the service modules, and the one type of errors the
  operations throw. Each constructor of \<open>err\<close> stands for one exception class of the code (with
  the fields that tell two throws apart); the messages themselves, in French and shown to staff,
  are not part of the model.
\<close>

section \<open>Enumerations\<close>

datatype reservation_state =
  PENDING | CONFIRMED | SEATED | HONORED | CANCELLED | NO_SHOW | FAILED | EXPIRED

datatype reservation_status =
  St_CONFIRMED | St_SEATED | St_CANCELLED | St_NO_SHOW

datatype channel = PHONE | WEB | MCP | OPENAI_RESERVE | ADMIN | API

datatype hold_type = HOLD | QUOTE

datatype hold_status = H_ACTIVE | H_CONSUMED | H_RELEASED | H_EXPIRED

datatype waiting_status = W_PENDING | W_PROMOTED | W_CANCELLED | W_EXPIRED

datatype capacity_effect = Reserved | Released | Unchanged

section \<open>Errors\<close>

datatype table_error_code =
  RESERVATION_NOT_FOUND | TABLE_NOT_FOUND | TABLE_RESTAURANT_MISMATCH | TABLE_NOT_ACTIVE
| TABLE_CAPACITY_TOO_SMALL | TABLE_MIN_CAPACITY_TOO_HIGH | RESERVATION_TIMES_MISSING
| TABLE_NOT_AVAILABLE

datatype policy_error_code =
  INVALID_MAX_PARTY_SIZE | INVALID_MIN_LEAD_TIME | INVALID_QUOTE_TTL | INVALID_HOLD_TTL
| INVALID_TTL_ORDER | INVALID_NO_SHOW_POLICY | INVALID_PARTY_SIZE | PARTY_SIZE_EXCEEDS_MAX
| INSUFFICIENT_LEAD_TIME

datatype invariant_error =
  SeatedRequiresTable | RequiresPastStart reservation_state | ReservationAlreadyEnded

datatype db_error =
  P2002 \<comment> \<open>unique index violated\<close>
| P2025 \<comment> \<open>\<open>findUniqueOrThrow\<close> or \<open>update\<close> on a missing row\<close>
| P2028 \<comment> \<open>no connection from the pool, or transaction time-out\<close>
| EXCLUSION \<comment> \<open>the overlap exclusion constraint on \<open>reservations\<close>\<close>
| OTHER_DB_ERROR

datatype err =
  InvalidStateTransitionError reservation_state reservation_state
| InvalidStateInvariantError invariant_error
| AlreadyInStateError reservation_state
| ReservationNotFoundError id
| ReservationSlotUnavailableError id instant int
| ReservationModificationNotAllowedError
| ReservationAlreadyExistsError string
| HoldConflictError id instant int
| HoldNotFoundError
| HoldAlreadyConsumedError id
| TableAllocationError table_error_code
| PolicyValidationError policy_error_code
| IdempotencyConflictError string string
| IdempotencyPendingError string string
| WaitingListDisabledError
| WaitingListSlotFullError id instant int
| WaitingListAlreadyExistsError id instant
| WaitingListEntryNotFoundError id
| WaitingListAlreadyPromotedError id
| OutboxFieldError string
| OutboxForbiddenFieldError string
| OutboxKeyConflictError string
| DbError db_error

end
