(* ===== verification/Reservation_State.thy ===== *)
theory Reservation_State
  imports Domain
begin

text \<open>
  The pure modules under \<open>apps/api/src/shared/reservations\<close>: the state machine common to every
  reservation path (\<open>reservation-state-machine.ts\<close>), the projection between the eight-valued
  \<open>state\<close> and the historical four-valued \<open>status\<close> (\<open>reservation-state.ts\<close>), the capacity rules
  (\<open>capacity.ts\<close>) and the lead-time rule (\<open>lead-time.ts\<close>), with the effect of a transition on
  capacity (\<open>reservationCapacityEffect\<close> of \<open>shared/observability/reservation-contract.ts\<close>).
\<close>

section \<open>The state machine\<close>

text \<open>\<open>VALID_TRANSITIONS\<close>: each set as the list of its elements in insertion order.\<close>

fun VALID_TRANSITIONS :: "reservation_state \<Rightarrow> reservation_state list" where
  "VALID_TRANSITIONS PENDING = [CONFIRMED, CANCELLED, EXPIRED, FAILED]"
| "VALID_TRANSITIONS CONFIRMED = [SEATED, CANCELLED, NO_SHOW, EXPIRED, FAILED]"
| "VALID_TRANSITIONS SEATED = [HONORED, NO_SHOW]"
| "VALID_TRANSITIONS HONORED = []"
| "VALID_TRANSITIONS CANCELLED = []"
| "VALID_TRANSITIONS NO_SHOW = []"
| "VALID_TRANSITIONS FAILED = []"
| "VALID_TRANSITIONS EXPIRED = []"

record state_context =
  ctx_tableId :: "id option"
  ctx_startsAt :: "instant option"
  ctx_endsAt :: "instant option"

definition isTerminalState :: "reservation_state \<Rightarrow> bool" where
  "isTerminalState s = (length (VALID_TRANSITIONS s) = 0)"

definition canTransition :: "reservation_state \<Rightarrow> reservation_state \<Rightarrow> bool" where
  "canTransition from to = (to \<in> set (VALID_TRANSITIONS from))"

definition listAllowedTransitions :: "reservation_state \<Rightarrow> reservation_state list" where
  "listAllowedTransitions from = VALID_TRANSITIONS from"

definition validateStateInvariants ::
    "reservation_state \<Rightarrow> state_context option \<Rightarrow> instant \<Rightarrow> err + unit" where
  "validateStateInvariants to context now =
    (case context of
       None \<Rightarrow> Inr ()
     | Some c \<Rightarrow>
         if to = SEATED \<and> \<not> truthy (ctx_tableId c)
         then Inl (InvalidStateInvariantError SeatedRequiresTable)
         else if (to = HONORED \<or> to = NO_SHOW) \<and>
                 (case ctx_startsAt c of None \<Rightarrow> True | Some s \<Rightarrow> now < s)
         then Inl (InvalidStateInvariantError (RequiresPastStart to))
         else Inr ())"

definition assertCanTransition ::
    "reservation_state \<Rightarrow> reservation_state \<Rightarrow> state_context option \<Rightarrow> instant \<Rightarrow> err + unit" where
  "assertCanTransition from to context now =
    (if \<not> canTransition from to then Inl (InvalidStateTransitionError from to)
     else validateStateInvariants to context now)"

text \<open>External channels, which must give an idempotency key.\<close>

definition AGENTIC_CHANNELS :: "channel list" where
  "AGENTIC_CHANNELS = [API, MCP, OPENAI_RESERVE]"

definition isAgenticChannel :: "channel \<Rightarrow> bool" where
  "isAgenticChannel c = (c \<in> set AGENTIC_CHANNELS)"

lemma canTransition_simps [simp]:
  "canTransition PENDING t \<longleftrightarrow> t \<in> {CONFIRMED, CANCELLED, EXPIRED, FAILED}"
  "canTransition CONFIRMED t \<longleftrightarrow> t \<in> {SEATED, CANCELLED, NO_SHOW, EXPIRED, FAILED}"
  "canTransition SEATED t \<longleftrightarrow> t \<in> {HONORED, NO_SHOW}"
  "\<not> canTransition HONORED t" "\<not> canTransition CANCELLED t" "\<not> canTransition NO_SHOW t"
  "\<not> canTransition FAILED t" "\<not> canTransition EXPIRED t"
  by (simp_all add: canTransition_def)

lemma isTerminalState_iff: "isTerminalState s \<longleftrightarrow> (\<forall>t. \<not> canTransition s t)"
  by (cases s) (auto simp: isTerminalState_def canTransition_def)

lemma canTransition_irrefl [simp]: "\<not> canTransition s s"
  by (cases s) auto

text \<open>A rank that every transition raises: no reservation ever comes back to a state it left.\<close>

fun state_rank :: "reservation_state \<Rightarrow> nat" where
  "state_rank PENDING = 0"
| "state_rank CONFIRMED = 1"
| "state_rank SEATED = 2"
| "state_rank s = 3"

lemma canTransition_rank: "canTransition s t \<Longrightarrow> state_rank s < state_rank t"
  by (cases s) auto

lemma transitions_rank:
  "canTransition\<^sup>*\<^sup>* s t \<Longrightarrow> state_rank s \<le> state_rank t \<and> (s \<noteq> t \<longrightarrow> state_rank s < state_rank t)"
proof (induction rule: rtranclp_induct)
  case base
  then show ?case by simp
next
  case (step t u)
  then show ?case using canTransition_rank [of t u] by (cases "s = t") auto
qed

lemma assertCanTransition_ok:
  "assertCanTransition s t (Some c) now = Inr () \<longleftrightarrow>
    canTransition s t \<and> (t = SEATED \<longrightarrow> truthy (ctx_tableId c)) \<and>
    (t = HONORED \<or> t = NO_SHOW \<longrightarrow> (\<exists>x. ctx_startsAt c = Some x \<and> x \<le> now))"
  by (auto simp: assertCanTransition_def validateStateInvariants_def not_less
      split: option.splits if_splits)

section \<open>State and status\<close>

definition COUNTED_RESERVATION_STATES :: "reservation_state list" where
  "COUNTED_RESERVATION_STATES = [CONFIRMED, SEATED, HONORED]"

fun statusForState :: "reservation_state \<Rightarrow> reservation_status option" where
  "statusForState PENDING = None"
| "statusForState CONFIRMED = Some St_CONFIRMED"
| "statusForState SEATED = Some St_SEATED"
| "statusForState CANCELLED = Some St_CANCELLED"
| "statusForState NO_SHOW = Some St_NO_SHOW"
| "statusForState HONORED = None"
| "statusForState FAILED = None"
| "statusForState EXPIRED = None"

fun stateForStatus :: "reservation_status \<Rightarrow> reservation_state" where
  "stateForStatus St_CONFIRMED = CONFIRMED"
| "stateForStatus St_SEATED = SEATED"
| "stateForStatus St_CANCELLED = CANCELLED"
| "stateForStatus St_NO_SHOW = NO_SHOW"

definition isConfirmedReservation :: "reservation_status option \<Rightarrow> reservation_state option \<Rightarrow> bool" where
  "isConfirmedReservation status state = (status = Some St_CONFIRMED \<and> state = Some CONFIRMED)"

text \<open>
  \<open>creationProjection\<close> takes one of the three creatable states (a type in the source); the
  projection writes both columns.
\<close>

definition creationProjection :: "reservation_state \<Rightarrow> reservation_state \<times> reservation_status" where
  "creationProjection state = (state, orElse (statusForState state) St_CONFIRMED)"

definition transitionProjection ::
    "reservation_state \<Rightarrow> reservation_status \<Rightarrow> reservation_state \<times> reservation_status" where
  "transitionProjection toState previousStatus =
     (toState, orElse (statusForState toState) previousStatus)"

lemma statusForState_stateForStatus: "statusForState (stateForStatus st) = Some st"
  by (cases st) auto

text \<open>The agreement of the two columns that both projections keep.\<close>

fun columns_agree :: "reservation_state \<Rightarrow> reservation_status \<Rightarrow> bool" where
  "columns_agree PENDING st = (st = St_CONFIRMED)"
| "columns_agree CONFIRMED st = (st = St_CONFIRMED)"
| "columns_agree SEATED st = (st = St_SEATED)"
| "columns_agree HONORED st = (st = St_SEATED)"
| "columns_agree CANCELLED st = (st = St_CANCELLED)"
| "columns_agree NO_SHOW st = (st = St_NO_SHOW)"
| "columns_agree FAILED st = (st = St_CONFIRMED)"
| "columns_agree EXPIRED st = (st = St_CONFIRMED)"

lemma columns_agree_transition:
  "columns_agree s st \<Longrightarrow> canTransition s t \<Longrightarrow>
   columns_agree t (snd (transitionProjection t st))"
  by (cases s) (auto simp: transitionProjection_def)

lemma columns_agree_creation:
  "s \<in> {PENDING, CONFIRMED, SEATED} \<Longrightarrow> columns_agree s (snd (creationProjection s))"
  by (auto simp: creationProjection_def)

section \<open>Capacity\<close>

definition ACTIVE_RESERVATION_STATES :: "reservation_state list" where
  "ACTIVE_RESERVATION_STATES = [PENDING, CONFIRMED, SEATED]"

definition isActiveReservationState :: "reservation_state option \<Rightarrow> bool" where
  "isActiveReservationState state =
     (case state of None \<Rightarrow> False | Some s \<Rightarrow> s \<in> set ACTIVE_RESERVATION_STATES)"

definition intervalsOverlap :: "instant \<Rightarrow> instant \<Rightarrow> instant \<Rightarrow> instant \<Rightarrow> bool" where
  "intervalsOverlap aStart aEnd bStart bEnd = (aStart < bEnd \<and> bStart < aEnd)"

lemma intervalsOverlap_sym: "intervalsOverlap a b c d \<longleftrightarrow> intervalsOverlap c d a b"
  by (auto simp: intervalsOverlap_def)

text \<open>
  \<open>reservationOverlapWhere\<close> is the disjunction it hands to Prisma, read on the three date columns of
  a row: a missing end is completed by the service duration, a missing start by \<open>reservedAt\<close>.
\<close>

definition reservationOverlapWhere ::
    "instant \<Rightarrow> instant \<Rightarrow> int \<Rightarrow> instant option \<Rightarrow> instant option \<Rightarrow> instant \<Rightarrow> bool" where
  "reservationOverlapWhere startsAt endsAt durationMinutes rowStart rowEnd reservedAt =
    (let earliest = startsAt - durationMinutes * 60000 in
       (case (rowStart, rowEnd) of
          (Some s, Some e) \<Rightarrow> s < endsAt \<and> startsAt < e
        | (Some s, None) \<Rightarrow> earliest < s \<and> s < endsAt
        | (None, Some e) \<Rightarrow> reservedAt < endsAt \<and> startsAt < e
        | (None, None) \<Rightarrow> earliest < reservedAt \<and> reservedAt < endsAt))"

text \<open>The four clauses are one overlap test on the completed interval of the row.\<close>

definition row_start :: "instant option \<Rightarrow> instant \<Rightarrow> instant" where
  "row_start rowStart reservedAt = orElse rowStart reservedAt"

definition row_end :: "instant option \<Rightarrow> instant option \<Rightarrow> instant \<Rightarrow> int \<Rightarrow> instant" where
  "row_end rowStart rowEnd reservedAt d = orElse rowEnd (row_start rowStart reservedAt + d * 60000)"

lemma reservationOverlapWhere_iff:
  "reservationOverlapWhere s e d rs re ra \<longleftrightarrow>
     intervalsOverlap (row_start rs ra) (row_end rs re ra d) s e"
  by (auto simp: reservationOverlapWhere_def intervalsOverlap_def row_start_def row_end_def Let_def
      split: option.splits)

definition reservationCapacityEffect ::
    "reservation_state option \<Rightarrow> reservation_state option \<Rightarrow> capacity_effect" where
  "reservationCapacityEffect fromState toState =
    (if fromState = None \<or> toState = None then Unchanged
     else let wasBlocking = isActiveReservationState fromState;
              isBlocking = isActiveReservationState toState
          in if \<not> wasBlocking \<and> isBlocking then Reserved
             else if wasBlocking \<and> \<not> isBlocking then Released
             else Unchanged)"

lemma active_iff [simp]:
  "isActiveReservationState (Some s) \<longleftrightarrow> s = PENDING \<or> s = CONFIRMED \<or> s = SEATED"
  "\<not> isActiveReservationState None"
  by (auto simp: isActiveReservationState_def ACTIVE_RESERVATION_STATES_def)

text \<open>No transition ever takes capacity back: a dead reservation stays out of the plan.\<close>

lemma transition_never_reserves:
  "canTransition s t \<Longrightarrow> reservationCapacityEffect (Some s) (Some t) \<noteq> Reserved"
  by (cases s) (auto simp: reservationCapacityEffect_def Let_def)

section \<open>Lead time\<close>

definition DEFAULT_ONLINE_MIN_LEAD_TIME_MINUTES :: int where
  "DEFAULT_ONLINE_MIN_LEAD_TIME_MINUTES = 30"

definition isSlotStartPast :: "instant \<Rightarrow> instant \<Rightarrow> bool" where
  "isSlotStartPast slotStart now = (slotStart \<le> now)"

text \<open>
  The lead time reaches the function as a number; \<open>None\<close> stands for one that is not finite.
\<close>

definition finite_lead :: "int option \<Rightarrow> int" where
  "finite_lead minLeadTimeMinutes = (case minLeadTimeMinutes of None \<Rightarrow> 0 | Some m \<Rightarrow> max 0 m)"

definition isSlotTooSoon :: "instant \<Rightarrow> int option \<Rightarrow> instant \<Rightarrow> bool" where
  "isSlotTooSoon slotStart minLeadTimeMinutes now =
    (if isSlotStartPast slotStart now then True
     else slotStart < now + finite_lead minLeadTimeMinutes * 60000)"

lemma isSlotTooSoon_iff:
  "isSlotTooSoon s m now \<longleftrightarrow> s \<le> now \<or> s < now + finite_lead m * 60000"
  by (simp add: isSlotTooSoon_def isSlotStartPast_def)

lemma finite_lead_nonneg [simp]: "0 \<le> finite_lead m"
  by (simp add: finite_lead_def split: option.splits)

text \<open>Time only makes a slot less bookable.\<close>

lemma isSlotTooSoon_mono: "isSlotTooSoon s m now \<Longrightarrow> now \<le> now' \<Longrightarrow> isSlotTooSoon s m now'"
  by (auto simp: isSlotTooSoon_iff)

definition formatLeadTime :: "int \<Rightarrow> string" where
  "formatLeadTime minutes =
    (let total = max 0 minutes in
     if total < 60 then nat_str (nat total) @ '' min''
     else let hours = total div 60; rest = total mod 60 in
       if rest = 0 then nat_str (nat hours) @ '' h''
       else nat_str (nat hours) @ '' h '' @ nat_str (nat rest))"

definition loadMinLeadTimeMinutes :: "int option option \<Rightarrow> int" where
  "loadMinLeadTimeMinutes settings =
     (case settings of None \<Rightarrow> DEFAULT_ONLINE_MIN_LEAD_TIME_MINUTES
      | Some m \<Rightarrow> orElse m DEFAULT_ONLINE_MIN_LEAD_TIME_MINUTES)"

end
