(* ===== verification/Restaurant_Time.thy ===== *)
theory Restaurant_Time
  imports Reservation_State
begin

text \<open>
  The reservation time contract of \<open>apps/api/src/shared/timezone/restaurant-time.ts\<close>. A date
  \<open>YYYY-MM-DD\<close> is its day number since the epoch, a time \<open>HH:MM\<close> its number of minutes since
  midnight, an instant its milliseconds. The time zone database behind \<open>Intl.DateTimeFormat\<close> is a
  parameter \<open>off\<close>: \<open>off t\<close> is what the restaurant's local clock is ahead of UTC at the instant \<open>t\<close>,
  in milliseconds. Also here: the rounding of \<open>modules/floor-plan/customer-facing-time.ts\<close>.
\<close>

type_synonym zone = "instant \<Rightarrow> int"

abbreviation DAY_MS :: int where "DAY_MS \<equiv> 86400000"
abbreviation MINUTE_MS :: int where "MINUTE_MS \<equiv> 60000"

definition naive_utc :: "int \<Rightarrow> int \<Rightarrow> instant" where
  "naive_utc date minutes = date * DAY_MS + minutes * MINUTE_MS"

text \<open>
  \<open>formatToParts\<close> shows the local clock truncated to the minute; \<open>localAsUtc\<close> reads those parts as
  UTC again.
\<close>

definition localAsUtc :: "zone \<Rightarrow> instant \<Rightarrow> instant" where
  "localAsUtc off t = (t + off t) div MINUTE_MS * MINUTE_MS"

definition zonedTimeToUtc :: "zone \<Rightarrow> int \<Rightarrow> int \<Rightarrow> instant" where
  "zonedTimeToUtc off date minutes =
    (let naive = naive_utc date minutes;
         offsetMs = localAsUtc off naive - naive
     in naive - offsetMs)"

definition utcToZonedParts :: "zone \<Rightarrow> instant \<Rightarrow> int \<times> int" where
  "utcToZonedParts off t =
    (localAsUtc off t div DAY_MS, localAsUtc off t mod DAY_MS div MINUTE_MS)"

definition isSlotPast :: "zone \<Rightarrow> int \<Rightarrow> int \<Rightarrow> instant \<Rightarrow> bool" where
  "isSlotPast off date minutes now = isSlotStartPast (zonedTimeToUtc off date minutes) now"

definition isSlotTooSoonAt :: "zone \<Rightarrow> int \<Rightarrow> int \<Rightarrow> int option \<Rightarrow> instant \<Rightarrow> bool" where
  "isSlotTooSoonAt off date minutes minLeadTimeMinutes now =
     isSlotTooSoon (zonedTimeToUtc off date minutes) minLeadTimeMinutes now"

text \<open>
  An offset counted in whole minutes, as every zone in use has, makes the conversion subtract the
  offset read at the naive instant.
\<close>

definition minute_offset :: "zone \<Rightarrow> bool" where
  "minute_offset off \<longleftrightarrow> (\<forall>t. off t mod MINUTE_MS = 0)"

lemma naive_utc_minutes: "naive_utc date m mod MINUTE_MS = 0"
  by (simp add: naive_utc_def)

lemma localAsUtc_minutes:
  "minute_offset off \<Longrightarrow> t mod MINUTE_MS = 0 \<Longrightarrow> localAsUtc off t = t + off t"
  by (simp add: localAsUtc_def minute_offset_def flip: dvd_eq_mod_eq_0)

lemma zonedTimeToUtc_eq:
  "minute_offset off \<Longrightarrow>
   zonedTimeToUtc off date m = naive_utc date m - off (naive_utc date m)"
  by (simp add: zonedTimeToUtc_def Let_def localAsUtc_minutes naive_utc_minutes)

lemma utcToZonedParts_shift:
  assumes "minute_offset off" "0 \<le> m" "m < 1440"
    and same: "off (zonedTimeToUtc off date m) = off (naive_utc date m)"
  shows "utcToZonedParts off (zonedTimeToUtc off date m) = (date, m)"
proof -
  let ?n = "naive_utc date m"
  have mod0: "(?n - off ?n) mod MINUTE_MS = 0"
    using naive_utc_minutes [of date m] assms(1)
    by (simp add: minute_offset_def flip: dvd_eq_mod_eq_0)
  have "localAsUtc off (?n - off ?n) = ?n"
    using localAsUtc_minutes [OF assms(1) mod0] same zonedTimeToUtc_eq [OF assms(1)] by simp
  moreover have "?n div DAY_MS = date" "?n mod DAY_MS div MINUTE_MS = m"
    using assms(2,3) by (simp_all add: naive_utc_def)
  ultimately show ?thesis
    using zonedTimeToUtc_eq [OF assms(1)] by (simp add: utcToZonedParts_def)
qed

lemma naive_utc_parts:
  assumes "0 \<le> m" "m < 1440"
  shows "naive_utc date m div DAY_MS = date" "naive_utc date m mod DAY_MS div MINUTE_MS = m"
  using assms by (simp_all add: naive_utc_def)

lemma naive_utc_of_parts:
  "t mod MINUTE_MS = 0 \<Longrightarrow> naive_utc (t div DAY_MS) (t mod DAY_MS div MINUTE_MS) = t"
proof -
  assume "t mod MINUTE_MS = 0"
  hence "t mod DAY_MS mod MINUTE_MS = 0" by (simp add: mod_mod_cancel)
  hence "t mod DAY_MS div MINUTE_MS * MINUTE_MS = t mod DAY_MS" by (simp add: mod_0_imp_dvd)
  thus ?thesis by (simp add: naive_utc_def)
qed

lemma minute_offset_add:
  "minute_offset off \<Longrightarrow> t mod MINUTE_MS = 0 \<Longrightarrow> (t + off t') mod MINUTE_MS = 0"
  by (simp add: minute_offset_def flip: dvd_eq_mod_eq_0)

lemma zonedTimeToUtc_minutes: "minute_offset off \<Longrightarrow> zonedTimeToUtc off date m mod MINUTE_MS = 0"
  using minute_offset_add [of "\<lambda>t. - off t" "naive_utc date m" "naive_utc date m"]
  by (simp add: zonedTimeToUtc_eq naive_utc_minutes minute_offset_def flip: dvd_eq_mod_eq_0)

lemma localAsUtc_zonedTimeToUtc:
  "minute_offset off \<Longrightarrow>
   localAsUtc off (zonedTimeToUtc off date m) =
     naive_utc date m + (off (zonedTimeToUtc off date m) - off (naive_utc date m))"
  using localAsUtc_minutes [where off = off, OF _ zonedTimeToUtc_minutes [where off = off and date = date and m = m]]
  by (simp add: zonedTimeToUtc_eq [where off = off and date = date and m = m])

lemma utcToZonedParts_iff:
  assumes "0 \<le> m" "m < 1440" "localAsUtc off t mod MINUTE_MS = 0"
  shows "utcToZonedParts off t = (date, m) \<longleftrightarrow> localAsUtc off t = naive_utc date m"
  using naive_utc_of_parts [OF assms(3)] naive_utc_parts [OF assms(1,2), of date]
  by (auto simp: utcToZonedParts_def)

text \<open>
  The two conversions of the time contract are inverse exactly away from a clock change. A local
  date and time stored as an instant is shown again as the same date and time if and only if the zone
  has the same offset at the instant as at the naive reading of the local time; an instant (of a whole
  minute) shown as local parts is stored again as the same instant if and only if its offset is the
  one at its local reading. Otherwise what comes back is off by exactly the difference of the offsets.
\<close>

lemma local_time_roundtrip:
  assumes "minute_offset off" "0 \<le> m" "m < 1440" "t mod MINUTE_MS = 0"
  shows "(utcToZonedParts off (zonedTimeToUtc off date m) = (date, m) \<longleftrightarrow>
            off (zonedTimeToUtc off date m) = off (naive_utc date m)) \<and>
         localAsUtc off (zonedTimeToUtc off date m) =
            naive_utc date m + (off (zonedTimeToUtc off date m) - off (naive_utc date m)) \<and>
         (case utcToZonedParts off t of
            (d, m') \<Rightarrow> zonedTimeToUtc off d m' = t + (off t - off (t + off t)))"
proof (intro conjI)
  show shown: "localAsUtc off (zonedTimeToUtc off date m) =
      naive_utc date m + (off (zonedTimeToUtc off date m) - off (naive_utc date m))"
    by (rule localAsUtc_zonedTimeToUtc [OF assms(1)])
  have "localAsUtc off (zonedTimeToUtc off date m) mod MINUTE_MS = 0" by (simp add: localAsUtc_def)
  from utcToZonedParts_iff [OF assms(2,3) this, of date]
  show "utcToZonedParts off (zonedTimeToUtc off date m) = (date, m) \<longleftrightarrow>
      off (zonedTimeToUtc off date m) = off (naive_utc date m)"
    using shown by simp
  show "case utcToZonedParts off t of
      (d, m') \<Rightarrow> zonedTimeToUtc off d m' = t + (off t - off (t + off t))"
    using localAsUtc_minutes [OF assms(1,4)] naive_utc_of_parts [OF minute_offset_add [OF assms(1,4)]]
    by (simp add: utcToZonedParts_def zonedTimeToUtc_eq [OF assms(1)])
qed

text \<open>
  Paris on 29 March 2026 (day 20541): the clock goes from UTC+1 to UTC+2 at 01:00 UTC. Midday survives
  the round trip; 01:30, half an hour before the change, comes back as 00:30.
\<close>

definition paris_spring :: zone where
  "paris_spring t = (if t < naive_utc 20541 60 then 3600000 else 7200000)"

lemma paris_spring_minutes: "minute_offset paris_spring"
  by (simp add: minute_offset_def paris_spring_def)

lemma local_time_roundtrip_witness:
  "utcToZonedParts paris_spring (zonedTimeToUtc paris_spring 20541 720) = (20541, 720) \<and>
   zonedTimeToUtc paris_spring 20541 720 = naive_utc 20541 600"
proof -
  have "(0 :: int) mod MINUTE_MS = 0" by simp
  note rt = local_time_roundtrip [OF paris_spring_minutes _ _ this, of 720 20541]
  have "zonedTimeToUtc paris_spring 20541 720 = naive_utc 20541 600" by code_simp
  moreover have "paris_spring (naive_utc 20541 600) = paris_spring (naive_utc 20541 720)" by code_simp
  ultimately show ?thesis using rt by simp
qed

lemma clock_change_shifts_by_an_hour:
  "utcToZonedParts paris_spring (zonedTimeToUtc paris_spring 20541 90) = (20541, 30)"
  by code_simp

section \<open>Times shown to a customer\<close>

definition toCustomerFacingTime :: "instant \<Rightarrow> int \<Rightarrow> instant" where
  "toCustomerFacingTime date incrementMinutes =
    (let incrementMs = incrementMinutes * 60000 in - ((- date) div incrementMs) * incrementMs)"

lemma toCustomerFacingTime_bounds:
  assumes "0 < inc"
  shows "date \<le> toCustomerFacingTime date inc"
    and "toCustomerFacingTime date inc < date + inc * 60000"
    and "toCustomerFacingTime date inc mod (inc * 60000) = 0"
proof -
  let ?c = "inc * 60000"
  have c: "0 < ?c" using assms by simp
  have split: "(- date) div ?c * ?c + (- date) mod ?c = - date" by (rule div_mult_mod_eq)
  have bounds: "0 \<le> (- date) mod ?c" "(- date) mod ?c < ?c" using c by simp_all
  have eq: "toCustomerFacingTime date inc = date + (- date) mod ?c"
    using split unfolding toCustomerFacingTime_def Let_def by linarith
  show "date \<le> toCustomerFacingTime date inc" using eq bounds by simp
  show "toCustomerFacingTime date inc < date + inc * 60000" using eq bounds by simp
  show "toCustomerFacingTime date inc mod (inc * 60000) = 0"
    by (simp add: toCustomerFacingTime_def Let_def)
qed

end
