(* ===== verification/Db.thy ===== *)
theory Db
  imports Restaurant_Time Complex_Main
begin

text \<open>
  The database the services share: one record per Prisma model they read or write (with the columns
  the modelled code uses), the tables as lists of rows in insertion order, the partial unique indexes
  and the exclusion constraint that the migrations declare, the append-only audit log, the Redis
  version counters of the availability cache and the delayed jobs handed to the queues. Foreign keys
  are not modelled, and of the free-form \<open>metadata\<close> of an audit row only its identifying columns are
  kept.
\<close>

section \<open>JSON columns\<close>

text \<open>JSON values; the numbers stored in the columns read here are integers.\<close>

datatype json =
  JNull | JBool bool | JNum int | JStr string | JArr "json list" | JObj "(string \<times> json) list"

definition json_field :: "string \<Rightarrow> json \<Rightarrow> json" where
  "json_field k v = (case v of JObj fs \<Rightarrow> orElse (map_of fs k) JNull | _ \<Rightarrow> JNull)"

definition DEFAULT_SERVICE_DURATION_MINUTES :: int where
  "DEFAULT_SERVICE_DURATION_MINUTES = 120"

definition positive_number :: "json \<Rightarrow> int option" where
  "positive_number v = (case v of JNum n \<Rightarrow> if 0 < n then Some n else None | _ \<Rightarrow> None)"

definition resolveServiceDurationMinutes :: "json \<Rightarrow> int" where
  "resolveServiceDurationMinutes specials =
    (case specials of
       JObj fs \<Rightarrow>
         (case positive_number (json_field ''serviceDurationMinutes'' specials) of
            Some n \<Rightarrow> n
          | None \<Rightarrow>
              (case positive_number (json_field ''defaultServiceDurationMinutes'' specials) of
                 Some n \<Rightarrow> n
               | None \<Rightarrow> DEFAULT_SERVICE_DURATION_MINUTES))
     | _ \<Rightarrow> DEFAULT_SERVICE_DURATION_MINUTES)"

lemma positive_number_pos: "positive_number v = Some n \<Longrightarrow> 0 < n"
  by (auto simp: positive_number_def split: json.splits if_splits)

lemma resolveServiceDurationMinutes_pos [simp]: "0 < resolveServiceDurationMinutes specials"
  by (auto simp: resolveServiceDurationMinutes_def DEFAULT_SERVICE_DURATION_MINUTES_def
      dest: positive_number_pos split: json.splits option.splits)

section \<open>The environment of the services\<close>

text \<open>
  What the runtime provides and the repository does not: the time zone database, the collation of
  \<open>localeCompare\<close> and of the database's \<open>ORDER BY\<close>, the rows that \<open>FOR UPDATE SKIP LOCKED\<close> finds locked by another transaction, the
  form in which Postgres gives back a \<open>jsonb\<close> value (it reorders the keys), and SHA-256.
\<close>

record runtime =
  tzdb :: "string \<Rightarrow> zone"
  localeCompare :: "string \<Rightarrow> string \<Rightarrow> int"
  rowLocked :: "id \<Rightarrow> bool"
  dbCollate :: "string \<Rightarrow> string \<Rightarrow> int"
  jsonb :: "json \<Rightarrow> json"
  sha256 :: "string \<Rightarrow> string"

definition utc_runtime :: runtime where
  "utc_runtime = \<lparr>tzdb = (\<lambda>_ _. 0), localeCompare = (\<lambda>_ _. 0), rowLocked = (\<lambda>_. False), dbCollate = (\<lambda>_ _. 0),
     jsonb = (\<lambda>v. v), sha256 = (\<lambda>s. s)\<rparr>"

definition DEFAULT_RESTAURANT_TIMEZONE :: string where
  "DEFAULT_RESTAURANT_TIMEZONE = ''Europe/Paris''"

section \<open>Rows\<close>

record restaurant_row =
  rs_id :: id
  rs_timezone :: string
  rs_smsConfirmEnabled :: bool
  rs_openingHours :: json

record settings_row =
  es_restaurantId :: id
  es_capacitySpecials :: json
  es_minLeadTimeMinutes :: int

record floor_plan_row =
  fp_id :: id
  fp_restaurantId :: id
  fp_isActive :: bool
  fp_isDefault :: bool

record table_row =
  t_id :: id
  t_floorPlanId :: id
  t_sectionId :: "id option"
  t_name :: string
  t_capacity :: int
  t_minCapacity :: int
  t_isActive :: bool

datatype payment_status = ASSOCIATED | COMPLEMENT_REQUIRED | PARTIAL | FULLY_COVERED

text \<open>The JSON snapshot a gift card leaves on a reservation.\<close>

record gift_snap =
  gs_giftCardId :: id
  gs_reservationId :: id
  gs_appliedAmount :: rat
  gs_remainingAmount :: rat
  gs_paymentStatus :: payment_status
  gs_complementAmount :: rat
  gs_requestedAmount :: "rat option"

record reservation_row =
  r_id :: id
  r_restaurantId :: id
  r_customerId :: "id option"
  r_customerName :: string
  r_customerPhone :: "string option"
  r_customerEmail :: "string option"
  r_partySize :: int
  r_reservedAt :: instant
  r_startsAt :: "instant option"
  r_endsAt :: "instant option"
  r_tableId :: "id option"
  r_state :: reservation_state
  r_status :: reservation_status
  r_channel :: channel
  r_isTest :: bool
  r_source :: "string option"
  r_createdByClient :: "string option"
  r_specialRequests :: "string option"
  r_idempotencyScope :: "string option"
  r_idempotencyKey :: "string option"
  r_consumedHoldId :: "id option"
  r_createdAt :: instant
  r_giftCardSnap :: "gift_snap option"
  r_giftCardComplementAmount :: "rat option"

record hold_row =
  h_id :: id
  h_restaurantId :: id
  h_type :: hold_type
  h_partySize :: int
  h_slotStart :: instant
  h_slotEnd :: instant
  h_channel :: channel
  h_quoteToken :: "string option"
  h_holdToken :: "string option"
  h_expiresAt :: instant
  h_consumedAt :: "instant option"
  h_status :: hold_status
  h_policyVersion :: string
  h_reservationId :: "id option"
  h_createdAt :: instant
  h_tableId :: "id option"

record waiting_row =
  w_id :: id
  w_restaurantId :: id
  w_partySize :: int
  w_customerFirstName :: string
  w_customerLastName :: "string option"
  w_customerPhone :: string
  w_customerPhoneNormalized :: string
  w_customerEmail :: "string option"
  w_source :: string
  w_slotStart :: instant
  w_slotEnd :: instant
  w_preferredSectionId :: "id option"
  w_status :: waiting_status
  w_position :: nat
  w_actionTokenHash :: string
  w_promotedReservationId :: "id option"
  w_expiresAt :: instant
  w_promotedAt :: "instant option"
  w_cancelledAt :: "instant option"
  w_createdAt :: instant

record audit_row =
  a_event :: string
  a_reservationId :: "id option"
  a_holdId :: "id option"
  a_actor :: string
  a_fromState :: "reservation_state option"
  a_toState :: "reservation_state option"

datatype outbox_status = O_PENDING | O_DISPATCHING | O_DISPATCHED

record outbox_row =
  o_id :: id
  o_restaurantId :: "id option"
  o_topic :: string
  o_aggregateType :: string
  o_aggregateId :: string
  o_eventType :: string
  o_schemaVersion :: int
  o_payload :: json
  o_idempotencyKey :: string
  o_status :: outbox_status
  o_attempts :: nat
  o_availableAt :: instant
  o_lockedAt :: "instant option"
  o_dispatchedAt :: "instant option"
  o_lastErrorCode :: "string option"
  o_createdAt :: instant

datatype idem_status = pending | completed | failed

record idem_row =
  i_scope :: string
  i_key :: string
  i_payloadHash :: string
  i_reservationId :: "id option"
  i_status :: idem_status
  i_expiresAt :: instant

datatype job =
  ExpireHoldJob id instant
| ExpireQuoteJob id instant
| ExpireWaitingListJob id instant
| PromotionNotifyJob id id string \<comment> \<open>entry, reservation, \<open>sms\<close> or \<open>email\<close>\<close>

section \<open>The database\<close>

record db =
  restaurants :: "restaurant_row list"
  settings :: "settings_row list"
  floorPlans :: "floor_plan_row list"
  tables :: "table_row list"
  reservations :: "reservation_row list"
  holds :: "hold_row list"
  waiting :: "waiting_row list"
  audit :: "audit_row list"
  outbox :: "outbox_row list"
  idem :: "idem_row list"
  availVersion :: "id \<Rightarrow> nat"
  jobs :: "job list"

definition empty_db :: db where
  "empty_db = \<lparr>restaurants = [], settings = [], floorPlans = [], tables = [], reservations = [],
     holds = [], waiting = [], audit = [], outbox = [], idem = [], availVersion = (\<lambda>_. 0), jobs = []\<rparr>"

text \<open>Rows for concrete instances.\<close>

definition sample_reservation :: reservation_row where
  "sample_reservation =
     \<lparr>r_id = ''b1'', r_restaurantId = ''r'', r_customerId = Some ''c1'', r_customerName = ''Ada'',
      r_customerPhone = Some ''+33600000001'', r_customerEmail = None, r_partySize = 2,
      r_reservedAt = 7200000, r_startsAt = Some 7200000, r_endsAt = Some 14400000, r_tableId = None,
      r_state = CONFIRMED, r_status = St_CONFIRMED, r_channel = WEB, r_isTest = False,
      r_source = None, r_createdByClient = None, r_specialRequests = None,
      r_idempotencyScope = None, r_idempotencyKey = None, r_consumedHoldId = None, r_createdAt = 0,
      r_giftCardSnap = None, r_giftCardComplementAmount = None\<rparr>"

definition findRestaurant :: "db \<Rightarrow> id \<Rightarrow> restaurant_row option" where
  "findRestaurant d rid = find (\<lambda>r. rs_id r = rid) (restaurants d)"

definition findSettings :: "db \<Rightarrow> id \<Rightarrow> settings_row option" where
  "findSettings d rid = find (\<lambda>s. es_restaurantId s = rid) (settings d)"

text \<open>\<open>settings?.capacitySpecials\<close>, resolved to a duration.\<close>

definition service_duration :: "db \<Rightarrow> id \<Rightarrow> int" where
  "service_duration d rid =
     resolveServiceDurationMinutes
       (case findSettings d rid of None \<Rightarrow> JNull | Some s \<Rightarrow> es_capacitySpecials s)"

definition floorPlan_of :: "db \<Rightarrow> table_row \<Rightarrow> floor_plan_row option" where
  "floorPlan_of d t = find (\<lambda>p. fp_id p = t_floorPlanId t) (floorPlans d)"

definition findReservation :: "db \<Rightarrow> id \<Rightarrow> reservation_row option" where
  "findReservation d rid = find (\<lambda>r. r_id r = rid) (reservations d)"

definition findHold :: "db \<Rightarrow> id \<Rightarrow> hold_row option" where
  "findHold d hid = find (\<lambda>h. h_id h = hid) (holds d)"

definition findEntry :: "db \<Rightarrow> id \<Rightarrow> waiting_row option" where
  "findEntry d wid = find (\<lambda>w. w_id w = wid) (waiting d)"

text \<open>\<open>reservationAuditLog.create\<close>: the log only ever grows at its end.\<close>

definition log_audit :: "audit_row \<Rightarrow> db \<Rightarrow> db" where
  "log_audit a d = d\<lparr>audit := audit d @ [a]\<rparr>"

text \<open>\<open>CapacityAwareAvailabilityService.invalidateAvailability\<close>: the version key is incremented.\<close>

definition invalidateAvailability :: "id \<Rightarrow> db \<Rightarrow> db" where
  "invalidateAvailability rid d = d\<lparr>availVersion := (availVersion d)(rid := Suc (availVersion d rid))\<rparr>"

definition add_job :: "job \<Rightarrow> db \<Rightarrow> db" where
  "add_job j d = d\<lparr>jobs := jobs d @ [j]\<rparr>"

lemma log_audit_simps [simp, tbl]:
  "restaurants (log_audit a d) = restaurants d" "settings (log_audit a d) = settings d"
  "floorPlans (log_audit a d) = floorPlans d" "tables (log_audit a d) = tables d"
  "reservations (log_audit a d) = reservations d" "holds (log_audit a d) = holds d"
  "waiting (log_audit a d) = waiting d" "audit (log_audit a d) = audit d @ [a]"
  "outbox (log_audit a d) = outbox d" "idem (log_audit a d) = idem d"
  "availVersion (log_audit a d) = availVersion d" "jobs (log_audit a d) = jobs d"
  by (simp_all add: log_audit_def)

lemma invalidateAvailability_simps [simp, tbl]:
  "restaurants (invalidateAvailability x d) = restaurants d"
  "settings (invalidateAvailability x d) = settings d"
  "floorPlans (invalidateAvailability x d) = floorPlans d"
  "tables (invalidateAvailability x d) = tables d"
  "reservations (invalidateAvailability x d) = reservations d"
  "holds (invalidateAvailability x d) = holds d"
  "waiting (invalidateAvailability x d) = waiting d"
  "audit (invalidateAvailability x d) = audit d" "outbox (invalidateAvailability x d) = outbox d"
  "idem (invalidateAvailability x d) = idem d" "jobs (invalidateAvailability x d) = jobs d"
  "availVersion (invalidateAvailability x d) = (availVersion d)(x := Suc (availVersion d x))"
  by (simp_all add: invalidateAvailability_def)

lemma add_job_simps [simp, tbl]:
  "restaurants (add_job j d) = restaurants d" "settings (add_job j d) = settings d"
  "floorPlans (add_job j d) = floorPlans d" "tables (add_job j d) = tables d"
  "reservations (add_job j d) = reservations d" "holds (add_job j d) = holds d"
  "waiting (add_job j d) = waiting d" "audit (add_job j d) = audit d"
  "outbox (add_job j d) = outbox d" "idem (add_job j d) = idem d"
  "availVersion (add_job j d) = availVersion d" "jobs (add_job j d) = jobs d @ [j]"
  by (simp_all add: add_job_def)

section \<open>Constraints\<close>

text \<open>
  Migration \<open>20261018120000_agentic_hold_per_table\<close>: an active hold is alone on its table and start,
  or, without a table, alone for its restaurant, start and party size.
\<close>

definition active_hold :: "hold_row \<Rightarrow> bool" where
  "active_hold h \<longleftrightarrow> h_status h = H_ACTIVE \<and> h_type h = HOLD"

definition hold_index_conflict :: "hold_row \<Rightarrow> hold_row \<Rightarrow> bool" where
  "hold_index_conflict h h' \<longleftrightarrow>
     active_hold h \<and> active_hold h' \<and> h_slotStart h = h_slotStart h' \<and>
     (case (h_tableId h, h_tableId h') of
        (Some t, Some t') \<Rightarrow> t = t'
      | (None, None) \<Rightarrow> h_restaurantId h = h_restaurantId h' \<and> h_partySize h = h_partySize h'
      | _ \<Rightarrow> False)"

definition same_some :: "'a option \<Rightarrow> 'a option \<Rightarrow> bool" where
  "same_some a b \<longleftrightarrow> a \<noteq> None \<and> a = b"

definition hold_unique_conflict :: "hold_row \<Rightarrow> hold_row \<Rightarrow> bool" where
  "hold_unique_conflict h h' \<longleftrightarrow>
     h_id h = h_id h' \<or> same_some (h_holdToken h) (h_holdToken h') \<or>
     same_some (h_quoteToken h) (h_quoteToken h') \<or> hold_index_conflict h h'"

definition insertHoldRow :: "hold_row \<Rightarrow> db \<Rightarrow> err + db" where
  "insertHoldRow h d =
     (if \<exists>h' \<in> set (holds d). hold_unique_conflict h h' then Inl (DbError P2002)
      else Inr (d\<lparr>holds := holds d @ [h]\<rparr>))"

text \<open>
  Migrations \<open>20260723000001\<close> and \<open>20261023180000\<close>: two active reservations with a table and both
  ends, neither a test, do not share the table over a common instant. \<open>&&\<close> on two ranges asks for a
  non-empty intersection.
\<close>

definition tsrange_overlap :: "instant \<Rightarrow> instant \<Rightarrow> instant \<Rightarrow> instant \<Rightarrow> bool" where
  "tsrange_overlap a b c d = (max a c < min b d)"

lemma tsrange_overlap_iff:
  "a < b \<Longrightarrow> c < d \<Longrightarrow> tsrange_overlap a b c d \<longleftrightarrow> intervalsOverlap a b c d"
  by (auto simp: tsrange_overlap_def intervalsOverlap_def)

lemma tsrange_overlap_sym: "tsrange_overlap a b c d \<longleftrightarrow> tsrange_overlap c d a b"
  by (auto simp: tsrange_overlap_def max.commute min.commute)

definition seats_table :: "reservation_row \<Rightarrow> bool" where
  "seats_table r \<longleftrightarrow> isActiveReservationState (Some (r_state r)) \<and> \<not> r_isTest r"

definition exclusion_conflict :: "reservation_row \<Rightarrow> reservation_row \<Rightarrow> bool" where
  "exclusion_conflict r r' \<longleftrightarrow>
     seats_table r \<and> seats_table r' \<and> same_some (r_tableId r) (r_tableId r') \<and>
     (case (r_startsAt r, r_endsAt r, r_startsAt r', r_endsAt r') of
        (Some a, Some b, Some c, Some d) \<Rightarrow> tsrange_overlap a b c d
      | _ \<Rightarrow> False)"

definition reservation_unique_conflict :: "reservation_row \<Rightarrow> reservation_row \<Rightarrow> bool" where
  "reservation_unique_conflict r r' \<longleftrightarrow>
     r_id r = r_id r' \<or> same_some (r_consumedHoldId r) (r_consumedHoldId r') \<or>
     (same_some (r_idempotencyScope r) (r_idempotencyScope r') \<and>
      same_some (r_idempotencyKey r) (r_idempotencyKey r'))"

definition insertReservation :: "reservation_row \<Rightarrow> db \<Rightarrow> err + db" where
  "insertReservation r d =
     (if \<exists>r' \<in> set (reservations d). reservation_unique_conflict r r' then Inl (DbError P2002)
      else if \<exists>r' \<in> set (reservations d). exclusion_conflict r r' then Inl (DbError EXCLUSION)
      else Inr (d\<lparr>reservations := reservations d @ [r]\<rparr>))"

text \<open>
  \<open>reservation.update\<close> by id and tenant: the row must exist, and its new version must respect the
  exclusion constraint against every other row.
\<close>

definition updateReservation ::
    "id \<Rightarrow> id \<Rightarrow> (reservation_row \<Rightarrow> reservation_row) \<Rightarrow> db \<Rightarrow> err + db \<times> reservation_row" where
  "updateReservation rid restaurantId f d =
     (case find (\<lambda>r. r_id r = rid \<and> r_restaurantId r = restaurantId) (reservations d) of
        None \<Rightarrow> Inl (DbError P2025)
      | Some r \<Rightarrow>
          if \<exists>r' \<in> set (reservations d). r_id r' \<noteq> rid \<and> exclusion_conflict (f r) r'
          then Inl (DbError EXCLUSION)
          else Inr (d\<lparr>reservations :=
                 upd_where (\<lambda>x. r_id x = rid \<and> r_restaurantId x = restaurantId) f (reservations d)\<rparr>,
               f r))"

lemma insertHoldRow_ok:
  "insertHoldRow h d = Inr d' \<longleftrightarrow>
     (\<forall>h' \<in> set (holds d). \<not> hold_unique_conflict h h') \<and> d' = d\<lparr>holds := holds d @ [h]\<rparr>"
  by (auto simp: insertHoldRow_def)

lemma insertReservation_ok:
  "insertReservation r d = Inr d' \<longleftrightarrow>
     (\<forall>r' \<in> set (reservations d). \<not> reservation_unique_conflict r r' \<and> \<not> exclusion_conflict r r') \<and>
     d' = d\<lparr>reservations := reservations d @ [r]\<rparr>"
  by (auto simp: insertReservation_def)

section \<open>What the constraints keep true\<close>

abbreviation holds_ok :: "hold_row list \<Rightarrow> bool" where
  "holds_ok \<equiv> table_ok h_id hold_index_conflict"

abbreviation reservations_ok :: "reservation_row list \<Rightarrow> bool" where
  "reservations_ok \<equiv> table_ok r_id exclusion_conflict"

lemma same_some_sym: "same_some a b \<longleftrightarrow> same_some b a"
  by (auto simp: same_some_def)

lemma hold_index_conflict_sym: "hold_index_conflict h h' \<Longrightarrow> hold_index_conflict h' h"
  by (auto simp: hold_index_conflict_def split: option.splits)

lemma exclusion_conflict_sym: "exclusion_conflict r r' \<Longrightarrow> exclusion_conflict r' r"
  by (auto simp: exclusion_conflict_def same_some_def tsrange_overlap_sym split: option.splits)

interpretation hold_table: constrained_table h_id hold_index_conflict
  by unfold_locales (rule hold_index_conflict_sym)

interpretation reservation_table: constrained_table r_id exclusion_conflict
  by unfold_locales (rule exclusion_conflict_sym)

lemma holds_ok_insert:
  assumes "holds_ok (holds d)" "insertHoldRow h d = Inr d'"
  shows "holds_ok (holds d')"
proof -
  have free: "\<not> hold_unique_conflict h h'" if "h' \<in> set (holds d)" for h'
    using assms(2) that by (simp add: insertHoldRow_ok)
  have "holds_ok (holds d @ [h])"
    by (rule hold_table.insert_ok [OF assms(1)])
      (drule free, simp add: hold_unique_conflict_def)
  then show ?thesis using assms(2) by (simp add: insertHoldRow_ok)
qed

lemma reservations_ok_insert:
  assumes "reservations_ok (reservations d)" "insertReservation r d = Inr d'"
  shows "reservations_ok (reservations d')"
proof -
  have free: "\<not> reservation_unique_conflict r r' \<and> \<not> exclusion_conflict r r'"
    if "r' \<in> set (reservations d)" for r'
    using assms(2) that by (simp add: insertReservation_ok)
  have "reservations_ok (reservations d @ [r])"
    by (rule reservation_table.insert_ok [OF assms(1)])
      (drule free, simp add: reservation_unique_conflict_def)
  then show ?thesis using assms(2) by (simp add: insertReservation_ok)
qed

text \<open>Taking holds out of the active state cannot create an index conflict.\<close>

lemma holds_ok_deactivate:
  assumes "holds_ok hs" "\<And>h. p h \<Longrightarrow> h_id (f h) = h_id h \<and> \<not> active_hold (f h)"
  shows "holds_ok (upd_where p f hs)"
  by (rule hold_table.retire_ok [OF assms(1)]) (simp_all add: assms(2) hold_index_conflict_def)

lemma updateReservation_okE:
  assumes "updateReservation i rid f d = Inr (d', r')"
  obtains r where "r \<in> set (reservations d)" "r_id r = i" "r_restaurantId r = rid" "r' = f r"
    "\<forall>x \<in> set (reservations d). r_id x \<noteq> i \<longrightarrow> \<not> exclusion_conflict r' x"
    "d' = d\<lparr>reservations := upd_where (\<lambda>x. r_id x = i \<and> r_restaurantId x = rid) f (reservations d)\<rparr>"
  using assms unfolding updateReservation_def
  by (auto split: option.splits if_splits dest: find_Some_D)

lemma reservations_ok_update:
  assumes ok: "reservations_ok (reservations d)"
    and upd: "updateReservation i rid f d = Inr (d', r')"
    and key: "\<And>r. r_id (f r) = r_id r"
  shows "reservations_ok (reservations d')"
proof -
  let ?p = "\<lambda>x. r_id x = i \<and> r_restaurantId x = rid"
  obtain r where r: "r \<in> set (reservations d)" "r_id r = i" "r' = f r"
    and free: "\<forall>x \<in> set (reservations d). r_id x \<noteq> i \<longrightarrow> \<not> exclusion_conflict r' x"
    and d': "d' = d\<lparr>reservations := upd_where ?p f (reservations d)\<rparr>"
    using upd by (rule updateReservation_okE)
  have uniq: "x = r" if "x \<in> set (reservations d)" "r_id x = i" for x
    using table_ok_unique [OF ok that(1) r(1)] that r(2) by simp
  have "reservations_ok (upd_where ?p f (reservations d))"
  proof (rule reservation_table.update_ok [OF ok])
    fix x y
    assume xy: "x \<in> set (reservations d)" "?p x" "y \<in> set (reservations d)" "r_id y \<noteq> r_id x"
    then have "x = r" using uniq by simp
    with xy free r show "\<not> exclusion_conflict (f x) y \<and> (?p y \<longrightarrow> \<not> exclusion_conflict (f x) (f y))"
      by auto
  qed (simp add: key)
  then show ?thesis by (simp add: d')
qed

end
