(* ===== verification/Seating.thy ===== *)
theory Seating
  imports Db
begin

text \<open>
  Virtual seating of reservations and holds without a table:
  \<open>apps/api/src/modules/floor-plan/unassigned-seating.ts\<close>. \<open>planUnassignedSeating\<close> is the pure planner,
  \<open>loadSeatingTables\<close> and \<open>loadSeatingItems\<close> its two readers, \<open>findUnassignedSeatingConflict\<close> the
  verdict that creation, modification and allocation ask for. The lemmas give the planner's
  contract: what it places never overlaps, nothing is lost, the smallest free compatible table is
  taken, and the verdict for one more group is the verdict of planning that group last.
\<close>

section \<open>The planner\<close>

record seating_table =
  st_id :: id
  st_sectionId :: "id option"
  st_capacity :: int
  st_minCapacity :: int

record seating_item =
  it_partySize :: int
  it_start :: instant
  it_end :: instant
  it_tableId :: "id option"

type_synonym interval = "instant \<times> instant"

record seating_plan =
  busyByTable :: "id \<rightharpoonup> interval list"
  blocked :: "interval list"

definition fitsParty :: "seating_table \<Rightarrow> int \<Rightarrow> bool" where
  "fitsParty t partySize = (st_capacity t \<ge> partySize \<and> st_minCapacity t \<le> partySize)"

definition isFree :: "interval list option \<Rightarrow> instant \<Rightarrow> instant \<Rightarrow> bool" where
  "isFree busy start end =
     (\<not> list_ex (\<lambda>b. intervalsOverlap (fst b) (snd b) start end) (orElse busy []))"

definition occupy :: "(id \<rightharpoonup> interval list) \<Rightarrow> id \<Rightarrow> interval \<Rightarrow> (id \<rightharpoonup> interval list)" where
  "occupy busy tableId iv = busy(tableId \<mapsto> orElse (busy tableId) [] @ [iv])"

abbreviation it_interval :: "seating_item \<Rightarrow> interval" where
  "it_interval it \<equiv> (it_start it, it_end it)"

fun occupy_fixed :: "seating_item list \<Rightarrow> (id \<rightharpoonup> interval list) \<Rightarrow> (id \<rightharpoonup> interval list)" where
  "occupy_fixed [] busy = busy"
| "occupy_fixed (it # items) busy =
     occupy_fixed items
       (if truthy (it_tableId it) then occupy busy (the (it_tableId it)) (it_interval it) else busy)"

definition by_size :: "(string \<Rightarrow> string \<Rightarrow> int) \<Rightarrow> seating_table \<Rightarrow> seating_table \<Rightarrow> int" where
  "by_size lc a b =
     cmp_or (cmp_or (st_capacity a - st_capacity b) (st_minCapacity a - st_minCapacity b))
       (lc (st_id a) (st_id b))"

definition pick_table ::
    "seating_table list \<Rightarrow> (id \<rightharpoonup> interval list) \<Rightarrow> seating_item \<Rightarrow> seating_table option" where
  "pick_table bySize busy it =
     find (\<lambda>t. fitsParty t (it_partySize it) \<and> isFree (busy (st_id t)) (it_start it) (it_end it)) bySize"

fun place_items :: "seating_table list \<Rightarrow> seating_item list \<Rightarrow> seating_plan \<Rightarrow> seating_plan" where
  "place_items bySize [] plan = plan"
| "place_items bySize (it # items) plan =
     (if truthy (it_tableId it) then place_items bySize items plan
      else case pick_table bySize (busyByTable plan) it of
             Some t \<Rightarrow>
               place_items bySize items
                 (plan\<lparr>busyByTable := occupy (busyByTable plan) (st_id t) (it_interval it)\<rparr>)
           | None \<Rightarrow>
               place_items bySize items (plan\<lparr>blocked := blocked plan @ [it_interval it]\<rparr>))"

definition planUnassignedSeating ::
    "(string \<Rightarrow> string \<Rightarrow> int) \<Rightarrow> seating_table list \<Rightarrow> seating_item list \<Rightarrow> seating_plan" where
  "planUnassignedSeating lc tbls items =
     place_items (js_sort (by_size lc) tbls) items
       \<lparr>busyByTable = occupy_fixed items Map.empty, blocked = []\<rparr>"

definition isWindowBlocked :: "seating_plan \<Rightarrow> instant \<Rightarrow> instant \<Rightarrow> bool" where
  "isWindowBlocked plan start end =
     list_ex (\<lambda>b. intervalsOverlap (fst b) (snd b) start end) (blocked plan)"

text \<open>The candidate: party size, window, and a preferred section or none.\<close>

definition hasSeatFor ::
    "seating_plan \<Rightarrow> seating_table list \<Rightarrow> int \<Rightarrow> instant \<Rightarrow> instant \<Rightarrow> id option \<Rightarrow> bool" where
  "hasSeatFor plan tbls partySize start end sectionId =
     list_ex (\<lambda>t. (\<not> truthy sectionId \<or> st_sectionId t = sectionId) \<and> fitsParty t partySize \<and>
                  isFree (busyByTable plan (st_id t)) start end) tbls"

section \<open>The readers\<close>

definition to_seating_table :: "table_row \<Rightarrow> seating_table" where
  "to_seating_table t =
     \<lparr>st_id = t_id t, st_sectionId = t_sectionId t, st_capacity = t_capacity t,
      st_minCapacity = t_minCapacity t\<rparr>"

definition loadSeatingTables :: "db \<Rightarrow> id \<Rightarrow> bool \<Rightarrow> seating_table list" where
  "loadSeatingTables d restaurantId defaultFloorOnly =
     map to_seating_table
       (filter (\<lambda>t. t_isActive t \<and>
          (case floorPlan_of d t of
             None \<Rightarrow> False
           | Some p \<Rightarrow> fp_restaurantId p = restaurantId \<and> fp_isActive p \<and>
               (defaultFloorOnly \<longrightarrow> fp_isDefault p)))
        (tables d))"

text \<open>An arrived item, with the columns that order the arrivals.\<close>

record arrival =
  ar_id :: id
  ar_createdAt :: instant
  ar_item :: seating_item

definition reservation_arrival :: "int \<Rightarrow> reservation_row \<Rightarrow> arrival" where
  "reservation_arrival duration r =
     (let start = orElse (r_startsAt r) (r_reservedAt r);
          endd = orElse (r_endsAt r) (start + duration * 60000)
      in \<lparr>ar_id = r_id r, ar_createdAt = r_createdAt r,
          ar_item = \<lparr>it_partySize = r_partySize r, it_start = start, it_end = endd,
                     it_tableId = r_tableId r\<rparr>\<rparr>)"

definition hold_arrival :: "hold_row \<Rightarrow> arrival" where
  "hold_arrival h =
     \<lparr>ar_id = h_id h, ar_createdAt = h_createdAt h,
      ar_item = \<lparr>it_partySize = h_partySize h, it_start = h_slotStart h, it_end = h_slotEnd h,
                 it_tableId = h_tableId h\<rparr>\<rparr>"

definition by_arrival :: "(string \<Rightarrow> string \<Rightarrow> int) \<Rightarrow> arrival \<Rightarrow> arrival \<Rightarrow> int" where
  "by_arrival lc a b = cmp_or (ar_createdAt a - ar_createdAt b) (lc (ar_id a) (ar_id b))"

text \<open>The two rows filters of the day, then of the conflict test.\<close>

definition reservation_in_day ::
    "id \<Rightarrow> instant \<Rightarrow> instant \<Rightarrow> int \<Rightarrow> id option \<Rightarrow> reservation_row \<Rightarrow> bool" where
  "reservation_in_day restaurantId from to duration excludeReservationId r \<longleftrightarrow>
     r_restaurantId r = restaurantId \<and> \<not> r_isTest r \<and>
     r_state r \<in> set ACTIVE_RESERVATION_STATES \<and>
     (truthy excludeReservationId \<longrightarrow> Some (r_id r) \<noteq> excludeReservationId) \<and>
     reservationOverlapWhere from to duration (r_startsAt r) (r_endsAt r) (r_reservedAt r)"

definition hold_in_day :: "id \<Rightarrow> instant \<Rightarrow> instant \<Rightarrow> instant \<Rightarrow> id option \<Rightarrow> hold_row \<Rightarrow> bool" where
  "hold_in_day restaurantId from to now excludeHoldId h \<longleftrightarrow>
     h_restaurantId h = restaurantId \<and> h_type h = HOLD \<and> h_status h = H_ACTIVE \<and>
     now < h_expiresAt h \<and> (truthy excludeHoldId \<longrightarrow> Some (h_id h) \<noteq> excludeHoldId) \<and>
     h_slotStart h < to \<and> from < h_slotEnd h"

text \<open>
  The end of the day is read from \<open>'23:59:59.999'\<close>, of which \<open>zonedTimeToUtc\<close> keeps hours and
  minutes only.
\<close>

definition seating_from :: "zone \<Rightarrow> int \<Rightarrow> instant" where
  "seating_from off date = zonedTimeToUtc off date 0"

definition seating_to :: "zone \<Rightarrow> int \<Rightarrow> instant" where
  "seating_to off date = (zonedTimeToUtc off date (23 * 60 + 59) + 1) + 24 * 60 * 60 * 1000"

definition loadSeatingItems ::
    "runtime \<Rightarrow> db \<Rightarrow> id \<Rightarrow> int \<Rightarrow> zone \<Rightarrow> int \<Rightarrow> instant \<Rightarrow> id option \<Rightarrow> id option \<Rightarrow> seating_item list" where
  "loadSeatingItems rt d restaurantId date off duration now excludeReservationId excludeHoldId =
    (let from = seating_from off date;
         to = seating_to off date;
         rs = filter (reservation_in_day restaurantId from to duration excludeReservationId) (reservations d);
         hs = filter (hold_in_day restaurantId from to now excludeHoldId) (holds d);
         arrived = map (reservation_arrival duration) rs @ map hold_arrival hs
     in map ar_item (js_sort (by_arrival (localeCompare rt)) arrived))"

definition restaurant_zone :: "runtime \<Rightarrow> db \<Rightarrow> id \<Rightarrow> zone" where
  "restaurant_zone rt d restaurantId =
     tzdb rt (case findRestaurant d restaurantId of
                None \<Rightarrow> DEFAULT_RESTAURANT_TIMEZONE | Some r \<Rightarrow> rs_timezone r)"

record seating_query =
  sq_restaurantId :: id
  sq_partySize :: int
  sq_startsAt :: instant
  sq_endsAt :: instant
  sq_tableId :: "id option"
  sq_now :: instant
  sq_excludeReservationId :: "id option"
  sq_excludeHoldId :: "id option"

record seating_verdict =
  conflict :: bool
  hasTables :: bool

text \<open>The items the verdict is computed from: those of the local day the window starts on.\<close>

definition query_items :: "runtime \<Rightarrow> db \<Rightarrow> seating_query \<Rightarrow> seating_item list" where
  "query_items rt d q =
    (let off = restaurant_zone rt d (sq_restaurantId q)
     in loadSeatingItems rt d (sq_restaurantId q) (fst (utcToZonedParts off (sq_startsAt q))) off
          (service_duration d (sq_restaurantId q)) (sq_now q)
          (sq_excludeReservationId q) (sq_excludeHoldId q))"

definition findUnassignedSeatingConflict :: "runtime \<Rightarrow> db \<Rightarrow> seating_query \<Rightarrow> seating_verdict" where
  "findUnassignedSeatingConflict rt d q =
    (let tbls = loadSeatingTables d (sq_restaurantId q) False;
         items = query_items rt d q;
         lc = localeCompare rt;
         has = (length tbls > 0)
     in if truthy (sq_tableId q) then
          let fixed = \<lparr>it_partySize = sq_partySize q, it_start = sq_startsAt q,
                       it_end = sq_endsAt q, it_tableId = sq_tableId q\<rparr>;
              plan = planUnassignedSeating lc tbls (items @ [fixed])
          in \<lparr>conflict = isWindowBlocked plan (sq_startsAt q) (sq_endsAt q), hasTables = has\<rparr>
        else
          let plan = planUnassignedSeating lc tbls items
          in \<lparr>conflict = isWindowBlocked plan (sq_startsAt q) (sq_endsAt q) \<or>
                (has \<and> \<not> hasSeatFor plan tbls (sq_partySize q) (sq_startsAt q) (sq_endsAt q) None),
              hasTables = has\<rparr>)"

section \<open>Contract of the planner\<close>

definition busy_at :: "(id \<rightharpoonup> interval list) \<Rightarrow> id \<Rightarrow> interval list" where
  "busy_at busy t = orElse (busy t) []"

abbreviation ov :: "interval \<Rightarrow> interval \<Rightarrow> bool" where
  "ov b b' \<equiv> intervalsOverlap (fst b) (snd b) (fst b') (snd b')"

text \<open>From position \<open>n\<close> on, each interval is clear of all those before it.\<close>

definition later_free :: "nat \<Rightarrow> interval list \<Rightarrow> bool" where
  "later_free n ivs \<longleftrightarrow> (\<forall>j < length ivs. n \<le> j \<longrightarrow> (\<forall>i < j. \<not> ov (ivs ! i) (ivs ! j)))"

definition fixed_on :: "seating_item list \<Rightarrow> id \<Rightarrow> interval list" where
  "fixed_on items t =
     map it_interval (filter (\<lambda>it. truthy (it_tableId it) \<and> it_tableId it = Some t) items)"

definition unassigned :: "seating_item list \<Rightarrow> interval list" where
  "unassigned items = map it_interval (filter (\<lambda>it. \<not> truthy (it_tableId it)) items)"

lemma busy_at_occupy [simp]:
  "busy_at (occupy busy t iv) u = busy_at busy u @ (if u = t then [iv] else [])"
  by (simp add: busy_at_def occupy_def)

lemma isFree_iff: "isFree (busy t) s e \<longleftrightarrow> (\<forall>b \<in> set (busy_at busy t). \<not> ov b (s, e))"
  by (simp add: isFree_def busy_at_def list_ex_iff)

lemma busy_at_occupy_fixed: "busy_at (occupy_fixed items busy) t = busy_at busy t @ fixed_on items t"
  by (induction items arbitrary: busy) (auto simp: fixed_on_def)

lemma later_free_snoc:
  "later_free n ivs \<Longrightarrow> \<forall>b \<in> set ivs. \<not> ov b iv \<Longrightarrow> later_free n (ivs @ [iv])"
  by (auto simp: later_free_def nth_append less_Suc_eq)

lemma later_free_refl: "later_free (length ivs) ivs"
  by (simp add: later_free_def)

lemma pick_table_SomeD:
  "pick_table bs busy it = Some t \<Longrightarrow>
   t \<in> set bs \<and> fitsParty t (it_partySize it) \<and> isFree (busy (st_id t)) (it_start it) (it_end it)"
  unfolding pick_table_def by (drule find_Some_D) simp

lemma place_items_later_free:
  assumes "\<And>t. later_free (n t) (busy_at (busyByTable plan) t)"
  shows "later_free (n t) (busy_at (busyByTable (place_items bs items plan)) t)"
  using assms
proof (induction bs items plan rule: place_items.induct)
  case (1 bs plan)
  then show ?case by simp
next
  case (2 bs it items plan)
  show ?case
  proof (cases "truthy (it_tableId it)")
    case True
    with 2 show ?thesis by simp
  next
    case unass: False
    show ?thesis
    proof (cases "pick_table bs (busyByTable plan) it")
      case None
      with 2 unass show ?thesis by simp
    next
      case (Some u)
      have "later_free (n v) (busy_at (occupy (busyByTable plan) (st_id u) (it_interval it)) v)" for v
        using pick_table_SomeD [OF Some] 2(4) [of v] later_free_snoc [of "n v"]
        by (auto simp: isFree_iff)
      then show ?thesis using 2(3) [OF unass Some] unass Some by simp
    qed
  qed
qed

lemma place_items_prefix:
  "\<exists>ext. busy_at (busyByTable (place_items bs items plan)) t = busy_at (busyByTable plan) t @ ext"
proof (induction bs items plan rule: place_items.induct)
  case (2 bs it items plan)
  then show ?case
    by (cases "truthy (it_tableId it)"; cases "pick_table bs (busyByTable plan) it") fastforce+
qed simp

lemma sum_mset_occupy:
  assumes "finite A" "u \<in> A"
  shows "(\<Sum>t\<in>A. mset (busy_at (occupy busy u iv) t)) = add_mset iv (\<Sum>t\<in>A. mset (busy_at busy t))"
proof -
  have "(\<Sum>t\<in>A. mset (busy_at (occupy busy u iv) t))
      = (\<Sum>t\<in>A. mset (busy_at busy t) + (if t = u then {#iv#} else {#}))"
    by (intro sum.cong) auto
  also have "\<dots> = (\<Sum>t\<in>A. mset (busy_at busy t)) + {#iv#}"
    using assms by (simp add: sum.distrib sum.delta)
  finally show ?thesis by simp
qed

lemma place_items_conserves:
  assumes "finite A" "st_id ` set bs \<subseteq> A"
  shows "(\<Sum>t\<in>A. mset (busy_at (busyByTable (place_items bs items plan)) t))
       + mset (blocked (place_items bs items plan))
     = (\<Sum>t\<in>A. mset (busy_at (busyByTable plan) t)) + mset (blocked plan) + mset (unassigned items)"
  using assms
proof (induction bs items plan rule: place_items.induct)
  case (1 bs plan)
  then show ?case by (simp add: unassigned_def)
next
  case (2 bs it items plan)
  show ?case
  proof (cases "truthy (it_tableId it)")
    case True
    with 2 show ?thesis by (simp add: unassigned_def)
  next
    case unass: False
    then have un: "unassigned (it # items) = it_interval it # unassigned items"
      by (simp add: unassigned_def)
    show ?thesis
    proof (cases "pick_table bs (busyByTable plan) it")
      case None
      with 2(2) [OF unass None 2(4,5)] unass un show ?thesis by simp
    next
      case (Some u)
      then have "st_id u \<in> A" using pick_table_SomeD 2(5) by blast
      with 2(3) [OF unass Some 2(4,5)] unass un Some show ?thesis
        by (simp add: sum_mset_occupy [OF 2(4)] del: busy_at_occupy)
    qed
  qed
qed

lemma place_items_append:
  "place_items bs (items @ items') plan = place_items bs items' (place_items bs items plan)"
  by (induction bs items plan rule: place_items.induct) (auto split: option.splits)

lemma occupy_fixed_append:
  "occupy_fixed (items @ items') busy = occupy_fixed items' (occupy_fixed items busy)"
  by (induction items arbitrary: busy) auto

lemma refines_by_size: "refines_key (by_size lc) (\<lambda>t. (st_capacity t, st_minCapacity t))"
  by (auto simp: refines_key_def by_size_def cmp_or_def less_prod_def')

lemma pick_table_None_iff:
  "pick_table (js_sort cmp tbls) busy it = None \<longleftrightarrow>
   \<not> list_ex (\<lambda>t. fitsParty t (it_partySize it) \<and> isFree (busy (st_id t)) (it_start it) (it_end it)) tbls"
  by (auto simp: pick_table_def find_None_iff list_ex_iff)

lemma plan_append_unassigned:
  assumes "\<not> truthy (it_tableId it)"
  shows "planUnassignedSeating lc tbls (items @ [it]) =
    (let plan = planUnassignedSeating lc tbls items in
     case pick_table (js_sort (by_size lc) tbls) (busyByTable plan) it of
       Some t \<Rightarrow> plan\<lparr>busyByTable := occupy (busyByTable plan) (st_id t) (it_interval it)\<rparr>
     | None \<Rightarrow> plan\<lparr>blocked := blocked plan @ [it_interval it]\<rparr>)"
  using assms
  by (simp add: planUnassignedSeating_def place_items_append occupy_fixed_append Let_def
      split: option.split)

section \<open>Properties\<close>

text \<open>
  C9. The planner never double-books a table by itself: on every table the fixed items come first,
  in order, and every interval placed virtually after them overlaps none of the intervals before it
  (fixed or virtual).
\<close>

theorem seating_placements_never_overlap:
  "let busy = busy_at (busyByTable (planUnassignedSeating lc tbls items)) t;
       fixed = fixed_on items t
   in take (length fixed) busy = fixed \<and> later_free (length fixed) busy"
proof -
  let ?p0 = "\<lparr>busyByTable = occupy_fixed items Map.empty, blocked = []\<rparr>"
  have start: "busy_at (busyByTable ?p0) u = fixed_on items u" for u
    by (simp add: busy_at_occupy_fixed) (simp add: busy_at_def)
  have lf: "later_free (length (fixed_on items t))
      (busy_at (busyByTable (planUnassignedSeating lc tbls items)) t)"
    unfolding planUnassignedSeating_def
    by (rule place_items_later_free [where n = "\<lambda>u. length (fixed_on items u)"])
      (simp only: start later_free_refl)
  moreover obtain ext where
    "busy_at (busyByTable (planUnassignedSeating lc tbls items)) t = fixed_on items t @ ext"
    using place_items_prefix [of "js_sort (by_size lc) tbls" items ?p0 t] start
    unfolding planUnassignedSeating_def by auto
  ultimately show ?thesis by (simp add: Let_def)
qed

text \<open>
  No arrival is lost or counted twice: over the tables of the plan, the intervals on the tables
  and the blocked ones are together exactly the fixed intervals of those tables and the intervals of
  all items without a table.
\<close>

lemma seating_conserves_items:
  "(\<Sum>t \<in> st_id ` set tbls. mset (busy_at (busyByTable (planUnassignedSeating lc tbls items)) t))
     + mset (blocked (planUnassignedSeating lc tbls items))
   = (\<Sum>t \<in> st_id ` set tbls. mset (fixed_on items t)) + mset (unassigned items)"
proof -
  have "busy_at (occupy_fixed items Map.empty) t = fixed_on items t" for t
    by (simp add: busy_at_occupy_fixed) (simp add: busy_at_def)
  then show ?thesis
    using place_items_conserves [of "st_id ` set tbls" "js_sort (by_size lc) tbls" items
        "\<lparr>busyByTable = occupy_fixed items Map.empty, blocked = []\<rparr>"]
    by (simp add: planUnassignedSeating_def)
qed

text \<open>
  Best fit, and refusal only when it is due: the planner takes a compatible free table that no
  other compatible free table beats on (capacity, minimum capacity), and takes none exactly when no
  table of the plan is compatible and free.
\<close>

lemma seating_best_fit:
  "case pick_table (js_sort (by_size lc) tbls) busy it of
     None \<Rightarrow> \<forall>t \<in> set tbls. fitsParty t (it_partySize it) \<longrightarrow>
               \<not> isFree (busy (st_id t)) (it_start it) (it_end it)
   | Some t \<Rightarrow> t \<in> set tbls \<and> fitsParty t (it_partySize it) \<and>
       isFree (busy (st_id t)) (it_start it) (it_end it) \<and>
       (\<forall>t' \<in> set tbls. fitsParty t' (it_partySize it) \<and>
          isFree (busy (st_id t')) (it_start it) (it_end it) \<longrightarrow>
          (st_capacity t, st_minCapacity t) \<le> (st_capacity t', st_minCapacity t'))"
proof (cases "pick_table (js_sort (by_size lc) tbls) busy it")
  case None
  then have "\<forall>t \<in> set tbls. fitsParty t (it_partySize it) \<longrightarrow>
      \<not> isFree (busy (st_id t)) (it_start it) (it_end it)"
    by (simp add: pick_table_None_iff list_ex_iff)
  with None show ?thesis by simp
next
  case (Some t)
  have "(st_capacity t, st_minCapacity t) \<le> (st_capacity t', st_minCapacity t')"
    if "t' \<in> set tbls" "fitsParty t' (it_partySize it)"
      "isFree (busy (st_id t')) (it_start it) (it_end it)" for t'
    using find_js_sort_least [OF refines_by_size [of lc] Some [unfolded pick_table_def]] that by simp
  with pick_table_SomeD [OF Some] Some show ?thesis by simp
qed

lemma seating_best_fit_witness:
  "pick_table (js_sort (by_size (\<lambda>_ _. 0))
     [\<lparr>st_id = ''b'', st_sectionId = None, st_capacity = 6, st_minCapacity = 1\<rparr>,
      \<lparr>st_id = ''a'', st_sectionId = None, st_capacity = 4, st_minCapacity = 2\<rparr>]) Map.empty
     \<lparr>it_partySize = 3, it_start = 0, it_end = 10, it_tableId = None\<rparr>
   = Some \<lparr>st_id = ''a'', st_sectionId = None, st_capacity = 4, st_minCapacity = 2\<rparr> \<and>
   ((4::int), (2::int)) \<le> (6, 1)"
proof -
  let ?b = "\<lparr>st_id = ''b'', st_sectionId = None, st_capacity = 6, st_minCapacity = 1\<rparr>"
  let ?a = "\<lparr>st_id = ''a'', st_sectionId = None, st_capacity = 4, st_minCapacity = 2\<rparr>"
  let ?it = "\<lparr>it_partySize = 3, it_start = 0, it_end = 10, it_tableId = None\<rparr>"
  have pick: "pick_table (js_sort (by_size (\<lambda>_ _. 0)) [?b, ?a]) Map.empty ?it = Some ?a"
    by (simp add: pick_table_def by_size_def cmp_or_def fitsParty_def isFree_def)
  show ?thesis
    using seating_best_fit [where lc = "\<lambda>_ _. 0" and tbls = "[?b, ?a]" and busy = Map.empty
        and it = ?it] pick
    by (simp add: fitsParty_def isFree_def)
qed

text \<open>
  One rule for every verdict: over a restaurant with tables and a window that does not end before
  it starts, the verdict for a group (fixed on a table or not) is whether the window is blocked once
  the group itself has been planned last.
\<close>

lemma verdict_is_planning_the_group_last:
  assumes "sq_startsAt q < sq_endsAt q"
    and "loadSeatingTables d (sq_restaurantId q) False \<noteq> []"
  shows "conflict (findUnassignedSeatingConflict rt d q) =
    isWindowBlocked
      (planUnassignedSeating (localeCompare rt) (loadSeatingTables d (sq_restaurantId q) False)
        (query_items rt d q @ [\<lparr>it_partySize = sq_partySize q, it_start = sq_startsAt q,
                                it_end = sq_endsAt q, it_tableId = sq_tableId q\<rparr>]))
      (sq_startsAt q) (sq_endsAt q)"
proof (cases "truthy (sq_tableId q)")
  case True
  then show ?thesis by (simp add: findUnassignedSeatingConflict_def Let_def)
next
  case False
  let ?tbls = "loadSeatingTables d (sq_restaurantId q) False"
  let ?it = "\<lparr>it_partySize = sq_partySize q, it_start = sq_startsAt q,
              it_end = sq_endsAt q, it_tableId = sq_tableId q\<rparr>"
  let ?plan = "planUnassignedSeating (localeCompare rt) ?tbls (query_items rt d q)"
  have self: "ov (sq_startsAt q, sq_endsAt q) (sq_startsAt q, sq_endsAt q)"
    using assms(1) by (simp add: intervalsOverlap_def)
  have seat: "hasSeatFor ?plan ?tbls (sq_partySize q) (sq_startsAt q) (sq_endsAt q) None \<longleftrightarrow>
      pick_table (js_sort (by_size (localeCompare rt)) ?tbls) (busyByTable ?plan) ?it \<noteq> None"
    by (simp add: pick_table_None_iff hasSeatFor_def)
  show ?thesis
    using False assms(2) self seat
    by (simp add: findUnassignedSeatingConflict_def Let_def plan_append_unassigned isWindowBlocked_def
        split: option.split)
qed

definition plan_of_one_table :: db where
  "plan_of_one_table = empty_db\<lparr>
     floorPlans := [\<lparr>fp_id = ''f'', fp_restaurantId = ''r'', fp_isActive = True, fp_isDefault = True\<rparr>],
     tables := [\<lparr>t_id = ''t'', t_floorPlanId = ''f'', t_sectionId = None, t_name = ''1'',
                 t_capacity = 4, t_minCapacity = 1, t_isActive = True\<rparr>]\<rparr>"

lemma verdict_is_planning_the_group_last_witness:
  "\<exists>q. sq_startsAt q < sq_endsAt q \<and>
     loadSeatingTables plan_of_one_table (sq_restaurantId q) False \<noteq> [] \<and>
     conflict (findUnassignedSeatingConflict utc_runtime plan_of_one_table q) =
       isWindowBlocked
         (planUnassignedSeating (localeCompare utc_runtime)
           (loadSeatingTables plan_of_one_table (sq_restaurantId q) False)
           (query_items utc_runtime plan_of_one_table q @
             [\<lparr>it_partySize = sq_partySize q, it_start = sq_startsAt q, it_end = sq_endsAt q,
               it_tableId = sq_tableId q\<rparr>]))
         (sq_startsAt q) (sq_endsAt q)"
proof -
  let ?q = "\<lparr>sq_restaurantId = ''r'', sq_partySize = 2, sq_startsAt = 0, sq_endsAt = 7200000,
    sq_tableId = None, sq_now = 0, sq_excludeReservationId = None, sq_excludeHoldId = None\<rparr>"
  have q: "sq_startsAt ?q < sq_endsAt ?q" by simp
  have tbls: "loadSeatingTables plan_of_one_table (sq_restaurantId ?q) False \<noteq> []"
    by (simp add: loadSeatingTables_def plan_of_one_table_def empty_db_def floorPlan_of_def)
  show ?thesis
    using q tbls verdict_is_planning_the_group_last [OF q tbls, of utc_runtime] by blast
qed

end
