(* ===== verification/Opening_Hours.thy ===== *)
theory Opening_Hours
  imports Db
begin

text \<open>
  Opening hours and the booking slots they give: \<open>packages/shared/src/utils/opening-hours.ts\<close>. Times
  are \<open>HH:MM\<close> strings, as in the JSON column; the loop of \<open>bookingSlotsOf\<close> has no bound of its own
  and is a partial function, shown to end for a positive step. The shape of the column is open: a
  call of \<open>toLowerCase\<close> on a day that is not a string throws, which is the result \<open>None\<close>. JavaScript
  also turns an array such as \<open>["10:00"]\<close> into a string before it matches a time; values other than
  strings are read here as not matching.
\<close>

section \<open>Times of day\<close>

definition digit_val :: "char \<Rightarrow> int option" where
  "digit_val c = (let n = of_char c :: nat in if 48 \<le> n \<and> n \<le> 57 then Some (int n - 48) else None)"

definition two_digits :: "char \<Rightarrow> char \<Rightarrow> int option" where
  "two_digits a b =
    (case (digit_val a, digit_val b) of (Some x, Some y) \<Rightarrow> Some (10 * x + y) | _ \<Rightarrow> None)"

definition parseTime :: "string \<Rightarrow> int option" where
  "parseTime value =
    (case value of
       [a, b, c, d, e] \<Rightarrow>
         if c = CHR '':'' then
           (case (two_digits a b, two_digits d e) of
              (Some hours, Some minutes) \<Rightarrow>
                if hours > 23 \<or> minutes > 59 then None else Some (hours * 60 + minutes)
            | _ \<Rightarrow> None)
         else None
     | _ \<Rightarrow> None)"

definition padStart2 :: "string \<Rightarrow> string" where
  "padStart2 s = replicate (2 - length s) (CHR ''0'') @ s"

definition formatTime :: "int \<Rightarrow> string" where
  "formatTime totalMinutes =
     padStart2 (nat_str (nat (totalMinutes div 60))) @ '':'' @
     padStart2 (nat_str (nat (totalMinutes mod 60)))"

section \<open>Normalisation\<close>

text \<open>\<open>lastBooking\<close>: \<open>None\<close> when absent, \<open>Some None\<close> for \<open>null\<close> (not bookable).\<close>

record period =
  pe_dayIndex :: int
  pe_open :: string
  pe_close :: string
  pe_lastBooking :: "string option option"

definition DAY_TO_INDEX :: "string \<Rightarrow> int option" where
  "DAY_TO_INDEX = map_of
     [(''sunday'', 0), (''sun'', 0), (''monday'', 1), (''mon'', 1), (''tuesday'', 2), (''tue'', 2),
      (''wednesday'', 3), (''wed'', 3), (''thursday'', 4), (''thu'', 4), (''friday'', 5),
      (''fri'', 5), (''saturday'', 6), (''sat'', 6)]"

definition text_of :: "json \<Rightarrow> string option" where
  "text_of v = (case v of JStr s \<Rightarrow> Some s | _ \<Rightarrow> None)"

definition normalizePeriod :: "int \<Rightarrow> string \<Rightarrow> string \<Rightarrow> json \<Rightarrow> period list" where
  "normalizePeriod dayIndex opn close rawLastBooking =
    (case (parseTime opn, parseTime close) of
       (Some openTime, Some closeTime) \<Rightarrow>
         let lastBooking =
           (case text_of rawLastBooking of
              None \<Rightarrow> None | Some s \<Rightarrow> if parseTime s \<noteq> None then Some s else None)
         in if closeTime > openTime then
              [\<lparr>pe_dayIndex = dayIndex, pe_open = opn, pe_close = close,
                pe_lastBooking = map_option Some lastBooking\<rparr>]
            else if closeTime < openTime \<and> closeTime \<le> 6 * 60 then
              (let afterMidnight =
                 (case lastBooking of None \<Rightarrow> False | Some s \<Rightarrow> the (parseTime s) < openTime)
               in \<lparr>pe_dayIndex = dayIndex, pe_open = opn, pe_close = ''24:00'',
                   pe_lastBooking = (if afterMidnight then None else map_option Some lastBooking)\<rparr> #
                  (if closeTime > 0 then
                     [\<lparr>pe_dayIndex = (dayIndex + 1) mod 7, pe_open = ''00:00'', pe_close = close,
                       pe_lastBooking =
                         (case lastBooking of
                            None \<Rightarrow> None
                          | Some s \<Rightarrow> Some (if afterMidnight then Some s else None))\<rparr>]
                   else []))
            else []
     | _ \<Rightarrow> [])"

text \<open>A field that is a non-empty string, as the tests \<open>!entry.opens\<close> ask.\<close>

definition nonempty_text :: "json \<Rightarrow> string option" where
  "nonempty_text v = (case v of JStr s \<Rightarrow> if s = [] then None else Some s | _ \<Rightarrow> None)"

definition period_of_texts :: "int \<Rightarrow> json \<Rightarrow> json \<Rightarrow> json \<Rightarrow> period list" where
  "period_of_texts dayIndex opn close rawLastBooking =
    (case (nonempty_text opn, nonempty_text close) of
       (Some o', Some c) \<Rightarrow> normalizePeriod dayIndex o' c rawLastBooking
     | _ \<Rightarrow> [])"

text \<open>An entry of the schema.org array.\<close>

definition array_entry :: "json \<Rightarrow> period list option" where
  "array_entry entry =
    (case entry of
       JNull \<Rightarrow> None
     | JObj fs \<Rightarrow>
         (case json_field ''dayOfWeek'' entry of
            JNull \<Rightarrow> Some []
          | JStr s \<Rightarrow>
              (case DAY_TO_INDEX (map lower_char s) of
                 None \<Rightarrow> Some []
               | Some dayIndex \<Rightarrow>
                   Some (period_of_texts dayIndex (json_field ''opens'' entry)
                     (json_field ''closes'' entry) JNull))
          | _ \<Rightarrow> None)
     | _ \<Rightarrow> Some [])"

fun array_entries :: "json list \<Rightarrow> period list option" where
  "array_entries [] = Some []"
| "array_entries (e # es) =
    (case array_entry e of
       None \<Rightarrow> None
     | Some ps \<Rightarrow> (case array_entries es of None \<Rightarrow> None | Some qs \<Rightarrow> Some (ps @ qs)))"

definition nullish :: "json \<Rightarrow> json \<Rightarrow> json" where
  "nullish v w = (case v of JNull \<Rightarrow> w | _ \<Rightarrow> v)"

text \<open>A day of the object form; \<open>slots\<close> first when it is a non-empty array, else \<open>services\<close>.\<close>

definition object_day :: "string \<times> json \<Rightarrow> period list" where
  "object_day kv =
    (case (DAY_TO_INDEX (map lower_char (fst kv)), snd kv) of
       (Some dayIndex, JObj fs) \<Rightarrow>
         let v = JObj fs;
             periods = (case json_field ''slots'' v of
                          JArr (x # xs) \<Rightarrow> JArr (x # xs) | _ \<Rightarrow> json_field ''services'' v);
             normalized = (case periods of
                             JArr services \<Rightarrow>
                               concat (map (\<lambda>s. period_of_texts dayIndex (json_field ''open'' s)
                                  (json_field ''close'' s) (json_field ''lastBooking'' s)) services)
                           | _ \<Rightarrow> [])
         in if normalized \<noteq> [] then normalized
            else period_of_texts dayIndex
                   (nullish (json_field ''open'' v) (json_field ''opens'' v))
                   (nullish (json_field ''close'' v) (json_field ''closes'' v))
                   (json_field ''lastBooking'' v)
     | _ \<Rightarrow> [])"

definition normalizeOpeningHours :: "runtime \<Rightarrow> json \<Rightarrow> period list option" where
  "normalizeOpeningHours rt raw =
    (case raw of
       JArr entries \<Rightarrow>
         map_option (js_sort (\<lambda>a b. pe_dayIndex a - pe_dayIndex b)) (array_entries entries)
     | JObj fs \<Rightarrow>
         Some (js_sort (\<lambda>a b. cmp_or (pe_dayIndex a - pe_dayIndex b)
                                (localeCompare rt (pe_open a) (pe_open b)))
                (concat (map object_day fs)))
     | _ \<Rightarrow> Some [])"

section \<open>Booking slots\<close>

definition slot_fits :: "int \<Rightarrow> int option \<Rightarrow> int \<Rightarrow> int \<Rightarrow> bool" where
  "slot_fits close lastM stepMinutes current =
    (case lastM of
       None \<Rightarrow> current + stepMinutes \<le> close
     | Some l \<Rightarrow> current \<le> l \<and> current < close)"

partial_function (option) slot_loop ::
    "int \<Rightarrow> int option \<Rightarrow> int \<Rightarrow> int \<Rightarrow> string list \<Rightarrow> string list option" where
  "slot_loop close lastM stepMinutes current slots =
    (if slot_fits close lastM stepMinutes current
     then slot_loop close lastM stepMinutes (current + stepMinutes) (slots @ [formatTime current])
     else Some slots)"

declare slot_loop.simps [code]

definition close_minutes :: "string \<Rightarrow> int option" where
  "close_minutes close = (if close = ''24:00'' then Some (24 * 60) else parseTime close)"

definition last_minutes :: "string option option \<Rightarrow> int option" where
  "last_minutes lastBooking =
    (case lastBooking of Some (Some s) \<Rightarrow> parseTime s | _ \<Rightarrow> None)"

definition bookingSlotsOf :: "period \<Rightarrow> int \<Rightarrow> string list option" where
  "bookingSlotsOf p stepMinutes =
    (if pe_lastBooking p = Some None then Some []
     else (case (parseTime (pe_open p), close_minutes (pe_close p)) of
             (Some opn, Some close) \<Rightarrow>
               slot_loop close (last_minutes (pe_lastBooking p)) stepMinutes opn []
           | _ \<Rightarrow> Some []))"

definition lastBookingOf :: "period \<Rightarrow> int \<Rightarrow> string option option" where
  "lastBookingOf p stepMinutes =
     map_option (\<lambda>slots. if slots = [] then None else Some (last slots)) (bookingSlotsOf p stepMinutes)"

section \<open>Lemmas\<close>

lemma two_digit_str:
  assumes "n < 100"
  shows "padStart2 (nat_str n) = [char_of (48 + n div 10), char_of (48 + n mod 10)]"
proof (cases "n < 10")
  case True
  then have "nat_str n = [char_of (48 + n)]" by (simp add: nat_str.simps)
  moreover have "CHR ''0'' = char_of (48 :: nat)" by code_simp
  ultimately show ?thesis using True by (simp add: padStart2_def)
next
  case False
  with assms have "nat_str n = nat_str (n div 10) @ [char_of (48 + n mod 10)]"
    by (simp add: nat_str.simps [of n])
  moreover have "nat_str (n div 10) = [char_of (48 + n div 10)]"
  proof -
    have "n div 10 < 10" using assms by (simp add: less_mult_imp_div_less)
    then show ?thesis by (simp add: nat_str.simps [of "n div 10"])
  qed
  ultimately show ?thesis by (simp add: padStart2_def)
qed

lemma digit_val_char: "k < 10 \<Longrightarrow> digit_val (char_of (48 + k :: nat)) = Some (int k)"
  by (simp add: digit_val_def Let_def)

lemma two_digits_str:
  assumes "n < 100"
  shows "two_digits (char_of (48 + n div 10)) (char_of (48 + n mod 10)) = Some (int n)"
proof -
  have "int n = int (10 * (n div 10) + n mod 10)" by (simp only: mult_div_mod_eq)
  then have "int n = 10 * int (n div 10) + int (n mod 10)"
    by (simp only: of_nat_add of_nat_mult of_nat_numeral)
  then show ?thesis
    using assms by (simp add: two_digits_def digit_val_char)
qed

lemma formatTime_chars:
  assumes "0 \<le> m" "m < 1440"
  obtains h k where "formatTime m =
      [char_of (48 + h div 10), char_of (48 + h mod 10), CHR '':'',
       char_of (48 + k div 10), char_of (48 + k mod 10 :: nat)]"
    "h < 24" "k < 60" "m = int h * 60 + int k"
proof
  let ?h = "nat (m div 60)" and ?k = "nat (m mod 60)"
  show hk: "?h < 24" "?k < 60" using assms by (simp_all add: nat_less_iff)
  show "formatTime m =
      [char_of (48 + ?h div 10), char_of (48 + ?h mod 10), CHR '':'',
       char_of (48 + ?k div 10), char_of (48 + ?k mod 10 :: nat)]"
    using hk by (simp add: formatTime_def two_digit_str)
  have "0 \<le> m div 60" using assms by (simp add: pos_imp_zdiv_nonneg_iff)
  then show "m = int ?h * 60 + int ?k" by simp
qed

lemma parseTime_formatTime:
  assumes "0 \<le> m" "m < 1440"
  shows "parseTime (formatTime m) = Some m"
proof -
  obtain h k where f: "formatTime m =
      [char_of (48 + h div 10), char_of (48 + h mod 10), CHR '':'',
       char_of (48 + k div 10), char_of (48 + k mod 10 :: nat)]"
    and hk: "h < 24" "k < 60" "m = int h * 60 + int k"
    using assms by (rule formatTime_chars)
  have "two_digits (char_of (48 + h div 10)) (char_of (48 + h mod 10)) = Some (int h)"
    "two_digits (char_of (48 + k div 10)) (char_of (48 + k mod 10)) = Some (int k)"
    using two_digits_str [of h] two_digits_str [of k] hk by simp_all
  then show ?thesis unfolding f parseTime_def using hk by simp
qed

lemma two_digits_bounds: "two_digits a b = Some n \<Longrightarrow> 0 \<le> n"
  by (auto simp: two_digits_def digit_val_def Let_def split: option.splits if_splits)

lemma parseTime_bounds:
  assumes "parseTime s = Some m"
  shows "0 \<le> m \<and> m < 1440"
proof -
  obtain x y where "two_digits (s ! 0) (s ! 1) = Some x" "two_digits (s ! 3) (s ! 4) = Some y"
      "m = x * 60 + y" "x \<le> 23" "y \<le> 59"
    using assms by (auto simp: parseTime_def split: list.splits if_splits option.splits)
  moreover from this have "0 \<le> x" "0 \<le> y" by (auto dest: two_digits_bounds)
  ultimately show ?thesis by simp
qed

text \<open>The loop runs while the current time is at most a bound, so it counts a quotient.\<close>

definition slot_bound :: "int \<Rightarrow> int option \<Rightarrow> int \<Rightarrow> int" where
  "slot_bound close lastM stepMinutes =
     (case lastM of None \<Rightarrow> close - stepMinutes | Some l \<Rightarrow> min l (close - 1))"

definition slot_count :: "int \<Rightarrow> int option \<Rightarrow> int \<Rightarrow> int \<Rightarrow> nat" where
  "slot_count close lastM stepMinutes current =
     nat ((slot_bound close lastM stepMinutes - current) div stepMinutes + 1)"

lemma slot_fits_iff: "slot_fits close lastM stp cur \<longleftrightarrow> cur \<le> slot_bound close lastM stp"
  by (auto simp: slot_fits_def slot_bound_def split: option.split)

lemma slot_loop_eq:
  assumes "0 < stp"
  shows "slot_loop close lastM stp cur acc =
    Some (acc @ map (\<lambda>i. formatTime (cur + stp * int i)) [0..<slot_count close lastM stp cur])"
proof (induction "slot_count close lastM stp cur" arbitrary: cur acc)
  case 0
  then have "(slot_bound close lastM stp - cur) div stp < 0"
    by (simp add: slot_count_def)
  then have "slot_bound close lastM stp < cur"
    using assms by (simp add: neg_imp_zdiv_neg_iff pos_imp_zdiv_neg_iff)
  then show ?case using 0 by (simp add: slot_loop.simps [of close] slot_fits_iff)
next
  case (Suc n)
  let ?b = "slot_bound close lastM stp"
  have shift: "(?b - (cur + stp)) div stp = (?b - cur) div stp - 1"
    using assms div_add_self2 [of stp "?b - (cur + stp)"] by (simp add: algebra_simps)
  have fits: "cur \<le> ?b"
  proof (rule ccontr)
    assume "\<not> cur \<le> ?b"
    then have "(?b - cur) div stp < 0" using assms by (simp add: pos_imp_zdiv_neg_iff)
    then show False using Suc.hyps(2) by (simp add: slot_count_def)
  qed
  have n: "n = slot_count close lastM stp (cur + stp)"
    using Suc.hyps(2) shift by (simp add: slot_count_def)
  have "slot_loop close lastM stp cur acc =
      slot_loop close lastM stp (cur + stp) (acc @ [formatTime cur])"
    using fits by (simp add: slot_loop.simps [of close] slot_fits_iff)
  also have "\<dots> = Some (acc @ formatTime cur # map (\<lambda>i. formatTime (cur + stp + stp * int i)) [0..<n])"
    using Suc.hyps(1) [OF n] n by simp
  also have "\<dots> = Some (acc @ map (\<lambda>i. formatTime (cur + stp * int i)) [0..<Suc n])"
    by (simp add: upt_conv_Cons map_Suc_upt [symmetric] algebra_simps del: upt_Suc)
  finally show ?case using Suc.hyps(2) by simp
qed

lemma slot_count_mem:
  assumes "0 < stp" "i < slot_count close lastM stp cur"
  shows "cur + stp * int i \<le> slot_bound close lastM stp"
proof -
  let ?b = "slot_bound close lastM stp"
  have "int i \<le> (?b - cur) div stp" using assms(2) by (simp add: slot_count_def)
  then have "stp * int i \<le> stp * ((?b - cur) div stp)" using assms(1) by simp
  also have "\<dots> \<le> ?b - cur"
    using pos_mod_sign [OF assms(1), of "?b - cur"] mult_div_mod_eq [of stp "?b - cur"] by linarith
  finally show ?thesis by simp
qed

lemma zle_zdiv_iff:
  assumes "(0 :: int) < n"
  shows "k \<le> m div n \<longleftrightarrow> k * n \<le> m"
proof
  assume "k \<le> m div n"
  then have "k * n \<le> m div n * n" using assms by simp
  also have "\<dots> \<le> m" using div_mult_mod_eq [of m n] pos_mod_sign [OF assms, of m] by linarith
  finally show "k * n \<le> m" .
next
  assume "k * n \<le> m"
  then have "k * n div n \<le> m div n" using assms by (intro zdiv_mono1) auto
  then show "k \<le> m div n" using assms by simp
qed

text \<open>What a normalised period looks like.\<close>

definition period_ok :: "period \<Rightarrow> bool" where
  "period_ok p \<longleftrightarrow> 0 \<le> pe_dayIndex p \<and> pe_dayIndex p < 7 \<and>
     (case (parseTime (pe_open p), close_minutes (pe_close p)) of
        (Some o', Some c) \<Rightarrow> o' < c \<and> c \<le> 24 * 60 | _ \<Rightarrow> False)"

definition period_length :: "period \<Rightarrow> int" where
  "period_length p =
     (case (parseTime (pe_open p), close_minutes (pe_close p)) of
        (Some o', Some c) \<Rightarrow> c - o' | _ \<Rightarrow> 0)"

lemma parse_24_00: "parseTime ''24:00'' = None" "parseTime ''00:00'' = Some 0"
  by code_simp+

lemma close_minutes_parse: "parseTime s = Some m \<Longrightarrow> close_minutes s = Some m"
  using parse_24_00 by (auto simp: close_minutes_def)

lemma normalizePeriod_ok:
  assumes "0 \<le> dayIndex" "dayIndex < 7"
  shows "list_all period_ok (normalizePeriod dayIndex opn close raw)"
  using assms parse_24_00
  by (auto simp: normalizePeriod_def period_ok_def Let_def close_minutes_parse close_minutes_def
      dest: parseTime_bounds split: option.splits if_splits)

text \<open>The minutes of the service are kept, also when it runs past midnight and is split in two.\<close>

lemma normalizePeriod_minutes:
  assumes "parseTime opn = Some ot" "parseTime close = Some ct"
    and "ct > ot \<or> (ct < ot \<and> ct \<le> 360)"
  shows "sum_list (map period_length (normalizePeriod dayIndex opn close raw)) = (ct - ot) mod 1440"
proof -
  have b: "0 \<le> ot" "ot < 1440" "0 \<le> ct" "ct < 1440"
    using assms(1,2) by (auto dest: parseTime_bounds)
  show ?thesis
  proof (cases "ct > ot")
    case True
    then have "(ct - ot) mod 1440 = ct - ot" using b by simp
    with True assms(1,2) show ?thesis
      by (simp add: normalizePeriod_def period_length_def close_minutes_parse Let_def)
  next
    case False
    then have "(ct - ot) mod 1440 = ct - ot + 1440"
      using b assms(3) mod_add_self2 [of "ct - ot" 1440]
        mod_pos_pos_trivial [of "ct - ot + 1440" 1440] by auto
    with False assms b parse_24_00 show ?thesis
      by (auto simp: normalizePeriod_def period_length_def close_minutes_parse close_minutes_def Let_def)
  qed
qed

lemma period_of_texts_ok:
  "0 \<le> i \<Longrightarrow> i < 7 \<Longrightarrow> list_all period_ok (period_of_texts i a b c)"
  by (auto simp: period_of_texts_def normalizePeriod_ok split: option.split)

lemma DAY_TO_INDEX_bounds: "DAY_TO_INDEX k = Some i \<Longrightarrow> 0 \<le> i \<and> i < 7"
  by (auto simp: DAY_TO_INDEX_def split: if_splits)

lemma array_entries_ok: "array_entries es = Some ps \<Longrightarrow> list_all period_ok ps"
proof (induction es arbitrary: ps)
  case (Cons e es)
  then show ?case
    by (auto simp: array_entry_def split: option.splits json.splits
        dest!: DAY_TO_INDEX_bounds intro: period_of_texts_ok)
qed simp

lemma object_day_ok: "list_all period_ok (object_day kv)"
proof -
  have all: "list_all period_ok (concat (map (\<lambda>s. period_of_texts i (f s) (g s) (h s)) xs))"
    if "0 \<le> i" "i < 7" for i f g h and xs :: "json list"
    using that by (induction xs) (auto simp: period_of_texts_ok)
  show ?thesis
    unfolding object_day_def Let_def
    by (auto split: option.splits json.splits list.splits
        dest!: DAY_TO_INDEX_bounds simp: period_of_texts_ok all simp del: map_concat concat.simps list.map)
qed

section \<open>Properties\<close>

text \<open>
  The slots of a service, exactly: for a positive step the loop ends, and the slots are all the
  times reached from the opening by steps that still fit (before the last booking and strictly before
  closing, or, without a last booking, with a whole step left before closing), in order.
\<close>

lemma booking_slots_exact:
  assumes "0 < stp" "parseTime (pe_open p) = Some opn" "close_minutes (pe_close p) = Some close"
    and "pe_lastBooking p \<noteq> Some None"
  shows "bookingSlotsOf p stp = Some (map (\<lambda>i. formatTime (opn + stp * int i))
      [0..<slot_count close (last_minutes (pe_lastBooking p)) stp opn])
    \<and> (\<forall>i. i < slot_count close (last_minutes (pe_lastBooking p)) stp opn \<longleftrightarrow>
          slot_fits close (last_minutes (pe_lastBooking p)) stp (opn + stp * int i))"
proof (intro conjI allI)
  show "bookingSlotsOf p stp = Some (map (\<lambda>i. formatTime (opn + stp * int i))
      [0..<slot_count close (last_minutes (pe_lastBooking p)) stp opn])"
    using assms by (simp add: bookingSlotsOf_def slot_loop_eq)
  fix i
  let ?b = "slot_bound close (last_minutes (pe_lastBooking p)) stp"
  have "i < slot_count close (last_minutes (pe_lastBooking p)) stp opn \<longleftrightarrow> int i \<le> (?b - opn) div stp"
    by (auto simp: slot_count_def)
  also have "\<dots> \<longleftrightarrow> int i * stp \<le> ?b - opn"
    by (rule zle_zdiv_iff [OF assms(1)])
  finally show "i < slot_count close (last_minutes (pe_lastBooking p)) stp opn \<longleftrightarrow>
      slot_fits close (last_minutes (pe_lastBooking p)) stp (opn + stp * int i)"
    by (auto simp: slot_fits_iff mult.commute)
qed

lemma booking_slots_exact_witness:
  "bookingSlotsOf \<lparr>pe_dayIndex = 5, pe_open = ''19:00'', pe_close = ''24:00'',
     pe_lastBooking = Some (Some ''20:15'')\<rparr> 30 = Some [''19:00'', ''19:30'', ''20:00'']"
proof -
  let ?p = "\<lparr>pe_dayIndex = 5, pe_open = ''19:00'', pe_close = ''24:00'',
     pe_lastBooking = Some (Some ''20:15'')\<rparr>"
  have o': "parseTime (pe_open ?p) = Some 1140" by code_simp
  have c: "close_minutes (pe_close ?p) = Some 1440" by code_simp
  have s: "map (\<lambda>i. formatTime (1140 + 30 * int i))
      [0..<slot_count 1440 (last_minutes (pe_lastBooking ?p)) 30 1140] = [''19:00'', ''19:30'', ''20:00'']"
    by code_simp
  show ?thesis using booking_slots_exact [OF _ o' c, of 30] s by simp
qed

text \<open>
  Normalised opening hours are usable as they are: whatever the JSON column holds, every period
  has a day between 0 and 6, a parsable opening strictly before its closing, and ends at midnight at
  the latest; and a service whose closing is past midnight keeps its length once split over two days.
\<close>

lemma opening_hours_well_formed:
  "(case normalizeOpeningHours rt raw of None \<Rightarrow> True | Some ps \<Rightarrow> list_all period_ok ps)
   \<and> (case (parseTime opn, parseTime close) of
        (Some ot, Some ct) \<Rightarrow>
          sum_list (map period_length (normalizePeriod dayIndex opn close rawLast)) =
            (if ct > ot \<or> (ct < ot \<and> ct \<le> 360) then (ct - ot) mod 1440 else 0)
      | _ \<Rightarrow> True)"
proof (rule conjI)
  have days: "list_all period_ok (concat (map object_day fs))" for fs
    by (induction fs) (simp_all add: object_day_ok)
  then show "case normalizeOpeningHours rt raw of None \<Rightarrow> True | Some ps \<Rightarrow> list_all period_ok ps"
    by (auto simp: normalizeOpeningHours_def list_all_iff split: json.splits option.splits
        dest!: array_entries_ok)
  have "normalizePeriod dayIndex opn close rawLast = []"
    if "parseTime opn = Some ot" "parseTime close = Some ct" "\<not> (ct > ot \<or> (ct < ot \<and> ct \<le> 360))" for ot ct
    using that by (auto simp: normalizePeriod_def Let_def)
  then show "case (parseTime opn, parseTime close) of
        (Some ot, Some ct) \<Rightarrow>
          sum_list (map period_length (normalizePeriod dayIndex opn close rawLast)) =
            (if ct > ot \<or> (ct < ot \<and> ct \<le> 360) then (ct - ot) mod 1440 else 0)
      | _ \<Rightarrow> True"
    by (auto simp: normalizePeriod_minutes split: option.split)
qed

end
