(* ===== verification/Availability.thy ===== *)
theory Availability
  imports Seating Opening_Hours
begin

text \<open>
  The availability engine: \<open>modules/floor-plan/availability-capacity-aware.service.ts\<close>. A date is its
  day number, a slot time an \<open>HH:MM\<close> string; the Redis cache is an explicit store of versioned
  entries with their expiry. A date is taken to be valid (the code answers an invalid one unchanged).
  Redis failures, which the code treats as a cache miss, are not modelled.
\<close>

section \<open>Slots and their marking\<close>

record slot =
  sl_time :: string
  sl_available :: bool
  sl_past :: "bool option"

record availability_dto =
  dto_restaurantId :: id
  dto_date :: int
  dto_partySize :: int
  dto_slots :: "slot list"

definition SLOT_MINUTES :: int where "SLOT_MINUTES = 30"
definition AVAILABILITY_CACHE_TTL_SECONDS :: int where "AVAILABILITY_CACHE_TTL_SECONDS = 30"
definition AVAILABILITY_VERSION_TTL_SECONDS :: int where "AVAILABILITY_VERSION_TTL_SECONDS = 120"
definition MAX_UTC_OFFSET_AHEAD_MS :: int where "MAX_UTC_OFFSET_AHEAD_MS = 14 * 60 * 60 * 1000"
definition MAX_UTC_OFFSET_BEHIND_MS :: int where "MAX_UTC_OFFSET_BEHIND_MS = 12 * 60 * 60 * 1000"

text \<open>The minutes of a slot time; every slot of the engine is an \<open>HH:MM\<close> time.\<close>

definition slot_minutes :: "string \<Rightarrow> int" where
  "slot_minutes time = orElse (parseTime time) 0"

definition mark_slot :: "zone \<Rightarrow> int \<Rightarrow> instant \<Rightarrow> int \<Rightarrow> bool \<Rightarrow> bool \<Rightarrow> slot \<Rightarrow> slot" where
  "mark_slot off date now lead includePast allTooSoon s =
    (let past = (includePast \<and> zonedTimeToUtc off date (slot_minutes (sl_time s)) \<le> now);
         tooSoon = (allTooSoon \<or> isSlotTooSoonAt off date (slot_minutes (sl_time s)) (Some lead) now);
         s1 = (if sl_available s \<and> (tooSoon \<or> past) then s\<lparr>sl_available := False\<rparr> else s)
     in if includePast then s1\<lparr>sl_past := Some past\<rparr> else s1)"

definition markTooSoonSlotsUnavailable ::
    "availability_dto \<Rightarrow> zone \<Rightarrow> instant \<Rightarrow> int option \<Rightarrow> bool \<Rightarrow> availability_dto" where
  "markTooSoonSlotsUnavailable dto off now minLeadTimeMinutes includePast =
    (let dayStart = dto_date dto * DAY_MS;
         lead = finite_lead minLeadTimeMinutes;
         earliestBookableMs = now + lead * 60000;
         earliestStartMs = dayStart - MAX_UTC_OFFSET_AHEAD_MS
     in if \<not> includePast \<and> now < earliestStartMs \<and> earliestBookableMs \<le> earliestStartMs then dto
        else
          let allTooSoon = (earliestBookableMs \<ge> dayStart + DAY_MS + MAX_UTC_OFFSET_BEHIND_MS)
          in dto\<lparr>dto_slots := map (mark_slot off (dto_date dto) now lead includePast allTooSoon)
                 (dto_slots dto)\<rparr>)"

section \<open>The cache\<close>

record cache_key =
  ck_restaurantId :: id
  ck_date :: int
  ck_partySize :: int
  ck_section :: "id option"
  ck_version :: nat

record cached =
  ca_timeZone :: string
  ca_dto :: availability_dto

record redis_cache =
  rc_versions :: "id \<rightharpoonup> nat \<times> instant"
  rc_entries :: "cache_key \<rightharpoonup> cached \<times> instant"

definition redis_get :: "('k \<rightharpoonup> 'v \<times> instant) \<Rightarrow> instant \<Rightarrow> 'k \<Rightarrow> 'v option" where
  "redis_get m t k = (case m k of None \<Rightarrow> None | Some (v, expiry) \<Rightarrow> if t < expiry then Some v else None)"

definition getVersion :: "redis_cache \<Rightarrow> instant \<Rightarrow> id \<Rightarrow> nat" where
  "getVersion c t restaurantId = orElse (redis_get (rc_versions c) t restaurantId) 0"

text \<open>\<open>INCR\<close> then \<open>EXPIRE\<close> on the version key.\<close>

definition invalidateCache :: "id \<Rightarrow> instant \<Rightarrow> redis_cache \<Rightarrow> redis_cache" where
  "invalidateCache restaurantId t c =
     c\<lparr>rc_versions := (rc_versions c)(restaurantId \<mapsto>
         (Suc (getVersion c t restaurantId), t + AVAILABILITY_VERSION_TTL_SECONDS * 1000))\<rparr>"

record avail_args =
  av_restaurantId :: id
  av_date :: int
  av_partySize :: int
  av_preferredSectionId :: "id option"
  av_now :: "instant option"
  av_excludeReservationId :: "id option"
  av_defaultFloorOnly :: bool
  av_allowWithoutTables :: bool
  av_includePast :: bool
  av_minLeadTimeMinutes :: "int option"

definition cacheKey :: "avail_args \<Rightarrow> nat \<Rightarrow> cache_key" where
  "cacheKey args version =
     \<lparr>ck_restaurantId = av_restaurantId args, ck_date = av_date args,
      ck_partySize = av_partySize args,
      ck_section = (if truthy (av_preferredSectionId args) then av_preferredSectionId args else None),
      ck_version = version\<rparr>"

definition cacheSet :: "cache_key \<Rightarrow> cached \<Rightarrow> instant \<Rightarrow> redis_cache \<Rightarrow> redis_cache" where
  "cacheSet k v t c =
     c\<lparr>rc_entries := (rc_entries c)(k \<mapsto> (v, t + AVAILABILITY_CACHE_TTL_SECONDS * 1000))\<rparr>"

section \<open>The engine\<close>

definition computeDayOfWeek :: "int \<Rightarrow> int" where
  "computeDayOfWeek date = (date + 4) mod 7"

definition emptyAvailability :: "avail_args \<Rightarrow> availability_dto" where
  "emptyAvailability args =
     \<lparr>dto_restaurantId = av_restaurantId args, dto_date = av_date args,
      dto_partySize = av_partySize args, dto_slots = []\<rparr>"

definition day_slots :: "period list \<Rightarrow> int \<Rightarrow> string list" where
  "day_slots openingHours date =
     js_sort code_cmp (js_set (concat
       (map (\<lambda>p. orElse (bookingSlotsOf p SLOT_MINUTES) [])
         (filter (\<lambda>p. pe_dayIndex p = computeDayOfWeek date) openingHours))))"

definition has_active_table :: "db \<Rightarrow> id \<Rightarrow> bool" where
  "has_active_table d restaurantId = (loadSeatingTables d restaurantId False \<noteq> [])"

text \<open>One slot: not blocked, and a seat for the candidate (or no table at all, if allowed).\<close>

definition slot_available ::
    "seating_plan \<Rightarrow> seating_table list \<Rightarrow> avail_args \<Rightarrow> bool \<Rightarrow> zone \<Rightarrow> int \<Rightarrow> string \<Rightarrow> bool" where
  "slot_available plan tbls args noActiveTables off duration time =
    (let slotStart = zonedTimeToUtc off (av_date args) (slot_minutes time);
         slotEnd = slotStart + duration * 60000
     in \<not> isWindowBlocked plan slotStart slotEnd \<and>
        (hasSeatFor plan tbls (av_partySize args) slotStart slotEnd (av_preferredSectionId args) \<or>
         noActiveTables))"

definition day_plan ::
    "runtime \<Rightarrow> db \<Rightarrow> avail_args \<Rightarrow> instant \<Rightarrow> seating_plan" where
  "day_plan rt d args loadAt =
    (let rid = av_restaurantId args in
     planUnassignedSeating (localeCompare rt)
       (loadSeatingTables d rid (av_defaultFloorOnly args))
       (loadSeatingItems rt d rid (av_date args) (restaurant_zone rt d rid) (service_duration d rid)
          loadAt (av_excludeReservationId args) None))"

definition raw_availability ::
    "runtime \<Rightarrow> db \<Rightarrow> avail_args \<Rightarrow> instant \<Rightarrow> string list \<Rightarrow> availability_dto" where
  "raw_availability rt d args loadAt allSlots =
    (let rid = av_restaurantId args;
         tbls = loadSeatingTables d rid (av_defaultFloorOnly args);
         noActiveTables = (av_allowWithoutTables args \<and> \<not> has_active_table d rid)
     in (emptyAvailability args)\<lparr>dto_slots :=
          map (\<lambda>time. \<lparr>sl_time = time,
                 sl_available = slot_available (day_plan rt d args loadAt) tbls args noActiveTables
                   (restaurant_zone rt d rid) (service_duration d rid) time,
                 sl_past = None\<rparr>) allSlots\<rparr>)"

definition privatePreview :: "avail_args \<Rightarrow> bool \<Rightarrow> bool" where
  "privatePreview args inTx \<longleftrightarrow>
     truthy (av_excludeReservationId args) \<or> inTx \<or> av_defaultFloorOnly args \<or>
     av_allowWithoutTables args"

text \<open>
  \<open>readAt\<close> is the clock at the call (and of the Redis reads), \<open>loadAt\<close> the clock of the database
  reads and of the cache write. The result is \<open>None\<close> when the opening hours throw.
\<close>

definition getAvailability ::
    "runtime \<Rightarrow> db \<Rightarrow> bool \<Rightarrow> avail_args \<Rightarrow> instant \<Rightarrow> instant \<Rightarrow> redis_cache \<Rightarrow>
     availability_dto option \<times> redis_cache" where
  "getAvailability rt d inTx args readAt loadAt c =
    (let private = privatePreview args inTx;
         now = orElse (av_now args) readAt;
         mark = (\<lambda>dto tz. markTooSoonSlotsUnavailable dto (tzdb rt tz) now
                   (av_minLeadTimeMinutes args) (av_includePast args));
         version = (if private then 0 else getVersion c readAt (av_restaurantId args));
         hit = (if private then None else redis_get (rc_entries c) readAt (cacheKey args version))
     in case hit of
          Some h \<Rightarrow> (Some (mark (ca_dto h) (ca_timeZone h)), c)
        | None \<Rightarrow>
            (case findRestaurant d (av_restaurantId args) of
               None \<Rightarrow> (Some (emptyAvailability args), c)
             | Some r \<Rightarrow>
                 (case normalizeOpeningHours rt (rs_openingHours r) of
                    None \<Rightarrow> (None, c)
                  | Some openingHours \<Rightarrow>
                      let allSlots = day_slots openingHours (av_date args) in
                      if allSlots = [] then (Some (emptyAvailability args), c)
                      else
                        let dto = raw_availability rt d args loadAt allSlots
                        in (Some (mark dto (rs_timezone r)),
                            if private then c
                            else cacheSet (cacheKey args version)
                                   \<lparr>ca_timeZone = rs_timezone r, ca_dto = dto\<rparr> loadAt c))))"

section \<open>Lemmas\<close>

text \<open>The zones in use: the local clock is at most 12 hours behind UTC and 14 hours ahead.\<close>

definition offsets_in_use :: "zone \<Rightarrow> bool" where
  "offsets_in_use off \<longleftrightarrow>
     (\<forall>t. - MAX_UTC_OFFSET_BEHIND_MS \<le> off t \<and> off t \<le> MAX_UTC_OFFSET_AHEAD_MS)"

lemma zonedTimeToUtc_offset:
  assumes "offsets_in_use off"
  shows "naive_utc date m - MAX_UTC_OFFSET_AHEAD_MS \<le> zonedTimeToUtc off date m"
    "zonedTimeToUtc off date m \<le> naive_utc date m + MAX_UTC_OFFSET_BEHIND_MS"
proof -
  let ?n = "naive_utc date m"
  have loc: "localAsUtc off ?n = ?n + off ?n - (?n + off ?n) mod 60000"
    by (simp add: localAsUtc_def minus_mod_eq_div_mult [symmetric])
  have md: "(?n + off ?n) mod 60000 = off ?n mod 60000"
    using naive_utc_minutes [of date m] mod_add_left_eq [of ?n 60000 "off ?n"] by simp
  have b: "- (12 * 60 * 60 * 1000) \<le> off ?n" "off ?n \<le> 14 * 60 * 60 * 1000"
    using assms by (simp_all add: offsets_in_use_def MAX_UTC_OFFSET_AHEAD_MS_def MAX_UTC_OFFSET_BEHIND_MS_def)
  have "- (12 * 60) \<le> off ?n div 60000"
    using zdiv_mono1 [OF b(1), of 60000] by simp
  then have "- (12 * 60 * 60 * 1000) \<le> off ?n - off ?n mod 60000"
    using minus_mod_eq_div_mult [of "off ?n" 60000] by linarith
  moreover have "0 \<le> off ?n mod 60000" by simp
  ultimately show "?n - MAX_UTC_OFFSET_AHEAD_MS \<le> zonedTimeToUtc off date m"
    "zonedTimeToUtc off date m \<le> ?n + MAX_UTC_OFFSET_BEHIND_MS"
    using b by (auto simp: zonedTimeToUtc_def Let_def loc md MAX_UTC_OFFSET_AHEAD_MS_def
        MAX_UTC_OFFSET_BEHIND_MS_def)
qed

lemma slot_minutes_bounds: "0 \<le> slot_minutes time \<and> slot_minutes time < 1440"
  by (cases "parseTime time") (auto simp: slot_minutes_def dest: parseTime_bounds)

lemma slot_start_bounds:
  assumes "offsets_in_use off"
  shows "date * DAY_MS - MAX_UTC_OFFSET_AHEAD_MS \<le> zonedTimeToUtc off date (slot_minutes time)"
    "zonedTimeToUtc off date (slot_minutes time) < date * DAY_MS + DAY_MS + MAX_UTC_OFFSET_BEHIND_MS"
  using zonedTimeToUtc_offset [OF assms, where date = date and m = "slot_minutes time"]
    slot_minutes_bounds [of time]
  by (simp_all add: naive_utc_def)

text \<open>The rule slot by slot, without the two shortcuts.\<close>

definition mark_each :: "availability_dto \<Rightarrow> zone \<Rightarrow> instant \<Rightarrow> int option \<Rightarrow> bool \<Rightarrow> availability_dto" where
  "mark_each dto off now lead includePast =
     dto\<lparr>dto_slots := map (\<lambda>s.
       let start = zonedTimeToUtc off (dto_date dto) (slot_minutes (sl_time s)) in
       s\<lparr>sl_available := sl_available s \<and> \<not> isSlotTooSoon start lead now,
         sl_past := (if includePast then Some (start \<le> now) else sl_past s)\<rparr>) (dto_slots dto)\<rparr>"

lemma finite_lead_twice: "finite_lead (Some (finite_lead m)) = finite_lead m"
  by (cases m) (simp_all add: finite_lead_def)

lemma mark_slot_eq:
  assumes "allTooSoon \<Longrightarrow> zonedTimeToUtc off date (slot_minutes (sl_time s)) < now + finite_lead m * 60000"
  shows "mark_slot off date now (finite_lead m) includePast allTooSoon s =
    (let start = zonedTimeToUtc off date (slot_minutes (sl_time s)) in
     s\<lparr>sl_available := sl_available s \<and> \<not> isSlotTooSoon start m now,
       sl_past := (if includePast then Some (start \<le> now) else sl_past s)\<rparr>)"
proof -
  let ?start = "zonedTimeToUtc off date (slot_minutes (sl_time s))"
  have soon: "allTooSoon \<or> isSlotTooSoonAt off date (slot_minutes (sl_time s)) (Some (finite_lead m)) now
      \<longleftrightarrow> isSlotTooSoon ?start m now"
    using assms by (auto simp: isSlotTooSoonAt_def isSlotTooSoon_iff finite_lead_twice)
  have past: "?start \<le> now \<Longrightarrow> isSlotTooSoon ?start m now" by (simp add: isSlotTooSoon_iff)
  show ?thesis
    unfolding mark_slot_def Let_def soon using past by (cases s) auto
qed

section \<open>Properties\<close>

text \<open>
  The shortcuts of the marking change nothing: for every zone in use, marking a day at once is
  marking each of its slots by the lead time rule (and by the past, when asked).
\<close>

lemma marking_is_slotwise:
  assumes "offsets_in_use off"
  shows "markTooSoonSlotsUnavailable dto off now minLead includePast = mark_each dto off now minLead includePast"
proof (cases "\<not> includePast \<and> now < dto_date dto * DAY_MS - MAX_UTC_OFFSET_AHEAD_MS \<and>
    now + finite_lead minLead * 60000 \<le> dto_date dto * DAY_MS - MAX_UTC_OFFSET_AHEAD_MS")
  case True
  have "\<not> isSlotTooSoon (zonedTimeToUtc off (dto_date dto) (slot_minutes time)) minLead now" for time
    using True slot_start_bounds(1) [OF assms, of "dto_date dto" time] by (auto simp: isSlotTooSoon_iff)
  with True show ?thesis
    by (simp add: markTooSoonSlotsUnavailable_def mark_each_def Let_def map_idI)
next
  case False
  let ?all = "now + finite_lead minLead * 60000 \<ge> dto_date dto * DAY_MS + DAY_MS + MAX_UTC_OFFSET_BEHIND_MS"
  have each: "mark_slot off (dto_date dto) now (finite_lead minLead) includePast ?all =
    (\<lambda>s. let start = zonedTimeToUtc off (dto_date dto) (slot_minutes (sl_time s)) in
       s\<lparr>sl_available := sl_available s \<and> \<not> isSlotTooSoon start minLead now,
         sl_past := (if includePast then Some (start \<le> now) else sl_past s)\<rparr>)"
  proof
    fix s
    show "mark_slot off (dto_date dto) now (finite_lead minLead) includePast ?all s =
      (let start = zonedTimeToUtc off (dto_date dto) (slot_minutes (sl_time s)) in
       s\<lparr>sl_available := sl_available s \<and> \<not> isSlotTooSoon start minLead now,
         sl_past := (if includePast then Some (start \<le> now) else sl_past s)\<rparr>)"
      using slot_start_bounds(2) [OF assms, of "dto_date dto" "sl_time s"]
      by (intro mark_slot_eq) linarith
  qed
  show ?thesis
    unfolding markTooSoonSlotsUnavailable_def mark_each_def Let_def if_not_P [OF False]
    using each by (simp add: Let_def)
qed

lemma marking_is_slotwise_witness:
  "dto_slots (markTooSoonSlotsUnavailable
     \<lparr>dto_restaurantId = ''r'', dto_date = 0, dto_partySize = 2,
      dto_slots = [\<lparr>sl_time = ''12:00'', sl_available = True, sl_past = None\<rparr>,
                   \<lparr>sl_time = ''12:30'', sl_available = True, sl_past = None\<rparr>]\<rparr>
     (\<lambda>_. 0) (12 * 60 * 60000) (Some 30) False)
   = [\<lparr>sl_time = ''12:00'', sl_available = False, sl_past = None\<rparr>,
      \<lparr>sl_time = ''12:30'', sl_available = True, sl_past = None\<rparr>]"
proof -
  have off: "offsets_in_use (\<lambda>_. 0)"
    by (simp add: offsets_in_use_def MAX_UTC_OFFSET_AHEAD_MS_def MAX_UTC_OFFSET_BEHIND_MS_def)
  have m: "slot_minutes ''12:00'' = 720" "slot_minutes ''12:30'' = 750" by code_simp+
  show ?thesis
    by (simp add: marking_is_slotwise [OF off] mark_each_def m zonedTimeToUtc_def naive_utc_def
        localAsUtc_def Let_def isSlotTooSoon_iff finite_lead_def)
qed

text \<open>The query that creation makes for the window of a slot.\<close>

definition slot_query :: "runtime \<Rightarrow> db \<Rightarrow> avail_args \<Rightarrow> instant \<Rightarrow> string \<Rightarrow> seating_query" where
  "slot_query rt d args loadAt time =
    (let start = zonedTimeToUtc (restaurant_zone rt d (av_restaurantId args)) (av_date args) (slot_minutes time)
     in \<lparr>sq_restaurantId = av_restaurantId args, sq_partySize = av_partySize args, sq_startsAt = start,
         sq_endsAt = start + service_duration d (av_restaurantId args) * 60000, sq_tableId = None,
         sq_now = loadAt, sq_excludeReservationId = av_excludeReservationId args,
         sq_excludeHoldId = None\<rparr>)"

lemma raw_slot_verdict:
  assumes "s \<in> set (dto_slots (raw_availability rt d args loadAt allSlots))"
    and plain: "\<not> av_defaultFloorOnly args" "\<not> av_allowWithoutTables args"
      "\<not> truthy (av_preferredSectionId args)"
    and tbls: "loadSeatingTables d (av_restaurantId args) False \<noteq> []"
    and day: "fst (utcToZonedParts (restaurant_zone rt d (av_restaurantId args))
      (sq_startsAt (slot_query rt d args loadAt (sl_time s)))) = av_date args"
  shows "sl_available s \<longleftrightarrow>
    \<not> conflict (findUnassignedSeatingConflict rt d (slot_query rt d args loadAt (sl_time s)))"
proof -
  let ?q = "slot_query rt d args loadAt (sl_time s)"
  have items: "query_items rt d ?q =
      loadSeatingItems rt d (av_restaurantId args) (av_date args) (restaurant_zone rt d (av_restaurantId args))
        (service_duration d (av_restaurantId args)) loadAt (av_excludeReservationId args) None"
    using day by (simp add: query_items_def slot_query_def Let_def)
  have "hasSeatFor plan tbls n a b (av_preferredSectionId args) = hasSeatFor plan tbls n a b None"
    for plan tbls n a b
    using plain(3) by (simp add: hasSeatFor_def)
  then show ?thesis
    using assms(1) plain tbls items
    by (auto simp: raw_availability_def slot_available_def day_plan_def Let_def
        findUnassignedSeatingConflict_def slot_query_def)
qed

lemma raw_availability_date [simp]:
  "dto_date (raw_availability rt d args loadAt allSlots) = av_date args"
  by (simp add: raw_availability_def emptyAvailability_def Let_def)


definition thursday_db :: db where
  "thursday_db = plan_of_one_table\<lparr>restaurants :=
     [\<lparr>rs_id = ''r'', rs_timezone = ''UTC'', rs_smsConfirmEnabled = True,
       rs_openingHours = JObj [(''thu'', JObj [(''open'', JStr ''19:00''), (''close'', JStr ''20:30'')])]\<rparr>]\<rparr>"

definition thursday_args :: avail_args where
  "thursday_args = \<lparr>av_restaurantId = ''r'', av_date = 0, av_partySize = 2,
     av_preferredSectionId = None, av_now = None, av_excludeReservationId = None,
     av_defaultFloorOnly = False, av_allowWithoutTables = False, av_includePast = False,
     av_minLeadTimeMinutes = Some 0\<rparr>"

lemma utc_zone: "restaurant_zone utc_runtime d rid = (\<lambda>_. 0)"
  by (simp add: restaurant_zone_def utc_runtime_def)

lemma utc_day: "0 \<le> m \<Longrightarrow> m < 1440 \<Longrightarrow> fst (utcToZonedParts (\<lambda>_. 0) (zonedTimeToUtc (\<lambda>_. 0) date m)) = date"
  by (simp add: utcToZonedParts_shift minute_offset_def)

lemma utc_in_use: "offsets_in_use (\<lambda>_. 0)"
  by (simp add: offsets_in_use_def MAX_UTC_OFFSET_AHEAD_MS_def MAX_UTC_OFFSET_BEHIND_MS_def)


text \<open>
  The version key of a restaurant lives 120 seconds and a later \<open>INCR\<close> starts again at 1, so a version
  number comes back. An entry written under version 1 just before the key expires is then read again
  after the next mutation: a slot that is taken is still displayed.
\<close>

definition taken_db :: db where
  "taken_db = thursday_db\<lparr>reservations := [sample_reservation\<lparr>
     r_startsAt := Some 68400000, r_endsAt := Some 75600000, r_tableId := Some ''t''\<rparr>]\<rparr>"

definition cache_after_read :: redis_cache where
  "cache_after_read =
     snd (getAvailability utc_runtime thursday_db False thursday_args 119000 119000
       (invalidateCache ''r'' 0 \<lparr>rc_versions = Map.empty, rc_entries = Map.empty\<rparr>))"

lemma stale_availability_after_invalidation:
  "let shown = (\<lambda>inTx. map_option (\<lambda>dto. map sl_available (dto_slots dto))
     (fst (getAvailability utc_runtime taken_db inTx thursday_args 122000 122000
        (invalidateCache ''r'' 121000 cache_after_read))))
   in shown False = Some [True, True, True] \<and> shown True = Some [False, False, False]"
  by code_simp

end
