(* ===== verification/Table_Allocation.thy ===== *)
theory Table_Allocation
  imports Seating
begin

text \<open>
  \<open>TableAllocationService\<close> of \<open>apps/api/src/modules/floor-plan/table-allocation.service.ts\<close>: the best
  fit allocation of a physical table, the two SQL overlap tests, the reassignment and the release of
  a table. Advisory locks only order transactions and leave no trace in the state; the row locks of
  other transactions are the parameter \<open>rowLocked\<close>. \<open>now\<close> is the clock of the process, \<open>dbNow\<close> the
  \<open>NOW()\<close> of the database. The French reasons of a suggestion are not modelled.
\<close>

section \<open>Availability of one table\<close>

record alloc_input =
  ai_restaurantId :: id
  ai_partySize :: int
  ai_startsAt :: instant
  ai_endsAt :: instant
  ai_preferredSectionId :: "id option"
  ai_excludeTableIds :: "id list"
  ai_excludeReservationId :: "id option"

record table_check =
  tc_tableId :: id
  tc_startsAt :: instant
  tc_endsAt :: instant
  tc_excludeReservationId :: "id option"
  tc_excludeHoldId :: "id option"

definition hasConflictingReservation :: "db \<Rightarrow> table_check \<Rightarrow> bool" where
  "hasConflictingReservation d c =
    list_ex (\<lambda>r.
      r_tableId r = Some (tc_tableId c) \<and> \<not> r_isTest r \<and>
      r_state r \<in> {PENDING, CONFIRMED, SEATED} \<and>
      (let s = orElse (r_startsAt r) (r_reservedAt r);
           e = orElse (r_endsAt r) (s + 60000 * service_duration d (r_restaurantId r))
       in tsrange_overlap s e (tc_startsAt c) (tc_endsAt c)) \<and>
      (truthy (tc_excludeReservationId c) \<longrightarrow> Some (r_id r) \<noteq> tc_excludeReservationId c))
    (reservations d)"

definition hasConflictingHold :: "db \<Rightarrow> instant \<Rightarrow> table_check \<Rightarrow> bool" where
  "hasConflictingHold d dbNow c =
    list_ex (\<lambda>h.
      h_tableId h = Some (tc_tableId c) \<and> h_status h = H_ACTIVE \<and> dbNow < h_expiresAt h \<and>
      tsrange_overlap (h_slotStart h) (h_slotEnd h) (tc_startsAt c) (tc_endsAt c) \<and>
      (truthy (tc_excludeHoldId c) \<longrightarrow> Some (h_id h) \<noteq> tc_excludeHoldId c))
    (holds d)"

definition isTableAvailable :: "db \<Rightarrow> instant \<Rightarrow> table_check \<Rightarrow> bool" where
  "isTableAvailable d dbNow c = (\<not> hasConflictingReservation d c \<and> \<not> hasConflictingHold d dbNow c)"

definition hasGlobalCapacityConflict ::
    "runtime \<Rightarrow> db \<Rightarrow> alloc_input \<Rightarrow> id option \<Rightarrow> instant \<Rightarrow> id option \<Rightarrow> bool" where
  "hasGlobalCapacityConflict rt d inp tableId now excludeHoldId =
     conflict (findUnassignedSeatingConflict rt d
       \<lparr>sq_restaurantId = ai_restaurantId inp, sq_partySize = ai_partySize inp,
        sq_startsAt = ai_startsAt inp, sq_endsAt = ai_endsAt inp, sq_tableId = tableId,
        sq_now = now, sq_excludeReservationId = ai_excludeReservationId inp,
        sq_excludeHoldId = excludeHoldId\<rparr>)"

section \<open>Candidates\<close>

definition capacityFilter :: "alloc_input \<Rightarrow> table_row \<Rightarrow> bool" where
  "capacityFilter inp t \<longleftrightarrow>
     t_isActive t \<and> ai_partySize inp \<le> t_capacity t \<and> t_minCapacity t \<le> ai_partySize inp \<and>
     t_id t \<notin> set (ai_excludeTableIds inp)"

definition by_fit :: "runtime \<Rightarrow> table_row \<Rightarrow> table_row \<Rightarrow> int" where
  "by_fit rt a b =
     cmp_or (cmp_or (t_capacity a - t_capacity b) (t_minCapacity a - t_minCapacity b))
       (dbCollate rt (t_name a) (t_name b))"

definition defaultFloorPlan :: "db \<Rightarrow> id \<Rightarrow> floor_plan_row option" where
  "defaultFloorPlan d restaurantId =
     find (\<lambda>p. fp_restaurantId p = restaurantId \<and> fp_isActive p \<and> fp_isDefault p) (floorPlans d)"

definition preferred_tables :: "runtime \<Rightarrow> db \<Rightarrow> alloc_input \<Rightarrow> table_row list" where
  "preferred_tables rt d inp =
     js_sort (by_fit rt)
       (filter (\<lambda>t. t_sectionId t = ai_preferredSectionId inp \<and>
          (case floorPlan_of d t of
             None \<Rightarrow> False
           | Some p \<Rightarrow> fp_restaurantId p = ai_restaurantId inp \<and> fp_isActive p) \<and>
          capacityFilter inp t) (tables d))"

definition findCandidateTables :: "runtime \<Rightarrow> db \<Rightarrow> alloc_input \<Rightarrow> table_row list" where
  "findCandidateTables rt d inp =
    (if truthy (ai_preferredSectionId inp) then
       let preferred = preferred_tables rt d inp in
       (case defaultFloorPlan d (ai_restaurantId inp) of
          None \<Rightarrow> preferred
        | Some p \<Rightarrow>
            preferred @ js_sort (by_fit rt)
              (filter (\<lambda>t. t_floorPlanId t = fp_id p \<and> capacityFilter inp t \<and>
                           t_id t \<notin> t_id ` set preferred) (tables d)))
     else
       (case defaultFloorPlan d (ai_restaurantId inp) of
          None \<Rightarrow> []
        | Some p \<Rightarrow>
            js_sort (by_fit rt)
              (filter (\<lambda>t. t_floorPlanId t = fp_id p \<and> capacityFilter inp t) (tables d))))"

definition input_check :: "alloc_input \<Rightarrow> id \<Rightarrow> table_check" where
  "input_check inp tableId =
     \<lparr>tc_tableId = tableId, tc_startsAt = ai_startsAt inp, tc_endsAt = ai_endsAt inp,
      tc_excludeReservationId = ai_excludeReservationId inp, tc_excludeHoldId = None\<rparr>"

definition allocate ::
    "runtime \<Rightarrow> db \<Rightarrow> alloc_input \<Rightarrow> bool \<Rightarrow> instant \<Rightarrow> instant \<Rightarrow> table_row option" where
  "allocate rt d inp readOnly now dbNow =
    (if hasGlobalCapacityConflict rt d inp None now None then None
     else find (\<lambda>t. (readOnly \<or> \<not> rowLocked rt (t_id t)) \<and>
                     isTableAvailable d dbNow (input_check inp (t_id t)))
            (findCandidateTables rt d inp))"

definition scoreCandidate :: "alloc_input \<Rightarrow> table_row \<Rightarrow> int" where
  "scoreCandidate inp t =
    (let score = 100 - (t_capacity t - ai_partySize inp) * 10 in
     if truthy (ai_preferredSectionId inp) \<and> t_sectionId t = ai_preferredSectionId inp
     then score + 15 else score)"

text \<open>The loop of \<open>suggest\<close> stops as soon as \<open>limit\<close> suggestions are there, after each push.\<close>

definition suggest ::
    "runtime \<Rightarrow> db \<Rightarrow> alloc_input \<Rightarrow> nat \<Rightarrow> instant \<Rightarrow> (table_row \<times> int) list" where
  "suggest rt d inp limit dbNow =
     js_sort (\<lambda>a b. snd b - snd a)
       (take (max 1 limit)
         (map (\<lambda>t. (t, scoreCandidate inp t))
           (filter (\<lambda>t. isTableAvailable d dbNow
                ((input_check inp (t_id t))\<lparr>tc_excludeReservationId := None\<rparr>))
             (findCandidateTables rt d inp))))"

section \<open>Release and reassignment\<close>

definition table_audit :: "string \<Rightarrow> reservation_row \<Rightarrow> audit_row" where
  "table_audit event r =
     \<lparr>a_event = event, a_reservationId = Some (r_id r), a_holdId = None,
      a_actor = ''dashboard:table-allocation'', a_fromState = Some (r_state r),
      a_toState = Some (r_state r)\<rparr>"

definition releaseTable :: "id \<Rightarrow> db \<Rightarrow> db \<times> (err + unit)" where
  "releaseTable reservationId d =
    (case in_tx (\<lambda>d. case findReservation d reservationId of
                        None \<Rightarrow> Inl (DbError P2025)
                      | Some r \<Rightarrow>
                          if \<not> truthy (r_tableId r) then Inr (d, (r, False))
                          else (case updateReservation (r_id r) (r_restaurantId r)
                                       (\<lambda>x. x\<lparr>r_tableId := None\<rparr>) d of
                                  Inl e \<Rightarrow> Inl e
                                | Inr (d', r') \<Rightarrow>
                                    Inr (log_audit (table_audit ''reservation_table_released'' r) d',
                                         (r', True)))) d of
       (d', Inl e) \<Rightarrow> (d', Inl e)
     | (d', Inr (r, hadTable)) \<Rightarrow>
         (if hadTable then invalidateAvailability (r_restaurantId r) d' else d', Inr ()))"

definition lockTable :: "db \<Rightarrow> id \<Rightarrow> bool" where
  "lockTable d tableId = list_ex (\<lambda>t. t_id t = tableId) (tables d)"

definition findTable :: "db \<Rightarrow> id \<Rightarrow> table_row option" where
  "findTable d tid = find (\<lambda>t. t_id t = tid) (tables d)"

definition reservation_input :: "reservation_row \<Rightarrow> instant \<Rightarrow> instant \<Rightarrow> alloc_input" where
  "reservation_input r startsAt endsAt =
     \<lparr>ai_restaurantId = r_restaurantId r, ai_partySize = r_partySize r, ai_startsAt = startsAt,
      ai_endsAt = endsAt, ai_preferredSectionId = None, ai_excludeTableIds = [],
      ai_excludeReservationId = Some (r_id r)\<rparr>"

text \<open>
  The reservation and the table are read before the transaction, in the database \<open>seen\<close>; the
  transaction runs on \<open>d\<close>.
\<close>

definition reallocate_tx ::
    "runtime \<Rightarrow> reservation_row \<Rightarrow> id \<Rightarrow> instant \<Rightarrow> instant \<Rightarrow> instant \<Rightarrow> instant \<Rightarrow> db \<Rightarrow>
     err + db \<times> reservation_row" where
  "reallocate_tx rt r newTableId startsAt endsAt now dbNow d =
    (let inp = reservation_input r startsAt endsAt in
     if hasGlobalCapacityConflict rt d inp (Some newTableId) now None
     then Inl (TableAllocationError TABLE_NOT_AVAILABLE)
     else if \<not> lockTable d newTableId then Inl (TableAllocationError TABLE_NOT_AVAILABLE)
     else if \<not> isTableAvailable d dbNow (input_check inp newTableId)
     then Inl (TableAllocationError TABLE_NOT_AVAILABLE)
     else (case updateReservation (r_id r) (r_restaurantId r)
                  (\<lambda>x. x\<lparr>r_tableId := Some newTableId\<rparr>) d of
             Inl e \<Rightarrow> Inl e
           | Inr (d', r') \<Rightarrow>
               Inr (log_audit (table_audit ''reservation_table_reallocated'' r) d', r')))"

definition reallocate ::
    "runtime \<Rightarrow> id \<Rightarrow> id \<Rightarrow> id \<Rightarrow> instant \<Rightarrow> instant \<Rightarrow> db \<Rightarrow> db \<Rightarrow> db \<times> (err + reservation_row)" where
  "reallocate rt restaurantId reservationId newTableId now dbNow seen d =
    (case findReservation seen reservationId of
       None \<Rightarrow> (d, Inl (DbError P2025))
     | Some r \<Rightarrow>
         if r_restaurantId r \<noteq> restaurantId
         then (d, Inl (TableAllocationError RESERVATION_NOT_FOUND))
         else (case findTable seen newTableId of
                 None \<Rightarrow> (d, Inl (DbError P2025))
               | Some t \<Rightarrow>
                   let owner = map_option fp_restaurantId (floorPlan_of seen t) in
                   if owner \<noteq> Some restaurantId then (d, Inl (TableAllocationError TABLE_NOT_FOUND))
                   else if owner \<noteq> Some (r_restaurantId r)
                   then (d, Inl (TableAllocationError TABLE_RESTAURANT_MISMATCH))
                   else if \<not> t_isActive t then (d, Inl (TableAllocationError TABLE_NOT_ACTIVE))
                   else if t_capacity t < r_partySize r
                   then (d, Inl (TableAllocationError TABLE_CAPACITY_TOO_SMALL))
                   else if t_minCapacity t > r_partySize r
                   then (d, Inl (TableAllocationError TABLE_MIN_CAPACITY_TOO_HIGH))
                   else (case (r_startsAt r, r_endsAt r) of
                           (Some s, Some e) \<Rightarrow>
                             (case in_tx (reallocate_tx rt r newTableId s e now dbNow) d of
                                (d', Inl err) \<Rightarrow> (d', Inl err)
                              | (d', Inr r') \<Rightarrow> (invalidateAvailability (r_restaurantId r) d', Inr r'))
                         | _ \<Rightarrow> (d, Inl (TableAllocationError RESERVATION_TIMES_MISSING)))))"

text \<open>The check before a customer is seated; it only reads.\<close>

definition assertTableAvailableForSeating ::
    "runtime \<Rightarrow> db \<Rightarrow> alloc_input \<Rightarrow> id \<Rightarrow> instant \<Rightarrow> instant \<Rightarrow> err + unit" where
  "assertTableAvailableForSeating rt d inp tableId now dbNow =
    (if hasGlobalCapacityConflict rt d inp (Some tableId) now None
     then Inl (TableAllocationError TABLE_NOT_AVAILABLE)
     else (case find (\<lambda>t. t_id t = tableId \<and>
                  map_option fp_restaurantId (floorPlan_of d t) = Some (ai_restaurantId inp)) (tables d) of
             None \<Rightarrow> Inl (TableAllocationError TABLE_NOT_FOUND)
           | Some t \<Rightarrow>
               if \<not> t_isActive t then Inl (TableAllocationError TABLE_NOT_ACTIVE)
               else if t_capacity t < ai_partySize inp
               then Inl (TableAllocationError TABLE_CAPACITY_TOO_SMALL)
               else if t_minCapacity t > ai_partySize inp
               then Inl (TableAllocationError TABLE_MIN_CAPACITY_TOO_HIGH)
               else if \<not> lockTable d tableId
               then Inl (TableAllocationError TABLE_NOT_AVAILABLE)
               else if \<not> isTableAvailable d dbNow (input_check inp tableId)
               then Inl (TableAllocationError TABLE_NOT_AVAILABLE)
               else Inr ()))"

section \<open>Lemmas\<close>

text \<open>The test of the application is at least as strict as the exclusion constraint of the table.\<close>

lemma available_no_exclusion:
  assumes free: "isTableAvailable d dbNow c"
    and r': "r' \<in> set (reservations d)" "truthy (tc_excludeReservationId c) \<longrightarrow> Some (r_id r') \<noteq> tc_excludeReservationId c"
    and x: "r_tableId x = Some (tc_tableId c)" "r_startsAt x = Some (tc_startsAt c)"
      "r_endsAt x = Some (tc_endsAt c)"
  shows "\<not> exclusion_conflict x r'"
proof
  assume conf: "exclusion_conflict x r'"
  then obtain s e where se: "r_startsAt r' = Some s" "r_endsAt r' = Some e"
      "tsrange_overlap (tc_startsAt c) (tc_endsAt c) s e" "seats_table r'"
      "r_tableId r' = Some (tc_tableId c)"
    using x by (auto simp: exclusion_conflict_def same_some_def split: option.splits)
  then have "hasConflictingReservation d c"
    using r' unfolding hasConflictingReservation_def list_ex_iff
    by (intro bexI [of _ r'])
      (auto simp: seats_table_def tsrange_overlap_sym)
  then show False using free by (simp add: isTableAvailable_def)
qed

lemma allocate_SomeD:
  "allocate rt d inp readOnly now dbNow = Some t \<Longrightarrow>
   t \<in> set (findCandidateTables rt d inp) \<and> isTableAvailable d dbNow (input_check inp (t_id t))"
  by (auto simp: allocate_def split: if_splits dest!: find_Some_D)

lemma candidate_in_plan:
  assumes "t \<in> set (findCandidateTables rt d inp)"
  shows "t \<in> set (tables d)" "capacityFilter inp t"
    "\<exists>p \<in> set (floorPlans d). fp_id p = t_floorPlanId t \<and>
       fp_restaurantId p = ai_restaurantId inp \<and> fp_isActive p"
proof -
  have def: "defaultFloorPlan d rid = Some p \<Longrightarrow>
      p \<in> set (floorPlans d) \<and> fp_restaurantId p = rid \<and> fp_isActive p" for rid p
    unfolding defaultFloorPlan_def by (drule find_Some_D) simp
  have own: "floorPlan_of d t = Some p \<Longrightarrow> p \<in> set (floorPlans d) \<and> fp_id p = t_floorPlanId t" for p
    unfolding floorPlan_of_def by (drule find_Some_D) simp
  show "t \<in> set (tables d)" "capacityFilter inp t"
    "\<exists>p \<in> set (floorPlans d). fp_id p = t_floorPlanId t \<and>
       fp_restaurantId p = ai_restaurantId inp \<and> fp_isActive p"
    using assms
    by (auto simp: findCandidateTables_def preferred_tables_def Let_def
        split: if_splits option.splits dest: def def [OF sym] own)
qed

lemma refines_by_fit: "refines_key (by_fit rt) (\<lambda>t. (t_capacity t, t_minCapacity t))"
  by (auto simp: refines_key_def by_fit_def cmp_or_def less_prod_def')

text \<open>Without a preferred section the candidates are one sorted list, so the first fit is the best.\<close>

lemma candidates_sorted:
  "\<not> truthy (ai_preferredSectionId inp) \<Longrightarrow>
   sorted (map (\<lambda>t. (t_capacity t, t_minCapacity t)) (findCandidateTables rt d inp))"
  by (auto simp: findCandidateTables_def split: option.split
      intro: sorted_js_sort [OF refines_by_fit])

lemma updateReservation_succeeds:
  assumes "find (\<lambda>x. r_id x = i \<and> r_restaurantId x = rid) (reservations d) = Some r"
    and "\<And>r'. r' \<in> set (reservations d) \<Longrightarrow> r_id r' \<noteq> i \<Longrightarrow> \<not> exclusion_conflict (f r) r'"
  shows "updateReservation i rid f d =
    Inr (d\<lparr>reservations := upd_where (\<lambda>x. r_id x = i \<and> r_restaurantId x = rid) f (reservations d)\<rparr>, f r)"
  using assms by (auto simp: updateReservation_def)

lemma find_id_tenant:
  "distinct (map r_id rs) \<Longrightarrow> r \<in> set rs \<Longrightarrow>
   find (\<lambda>x. r_id x = r_id r \<and> r_restaurantId x = r_restaurantId r) rs = Some r"
  by (induction rs) auto

lemma find_by_id_and_tenant:
  assumes "reservations_ok (reservations d)" "r \<in> set (reservations d)"
  shows "find (\<lambda>x. r_id x = r_id r \<and> r_restaurantId x = r_restaurantId r) (reservations d) = Some r"
proof -
  have "distinct (map r_id (reservations d))" using assms(1) by (simp add: table_ok_def)
  then show ?thesis using assms(2) by (rule find_id_tenant)
qed

section \<open>Properties\<close>

text \<open>
  Allocation answers a table the restaurant can give: active, of the right size, on an active
  floor plan of that same restaurant, not excluded, not locked by another transaction (unless the
  caller only looks), free of reservations and holds over the window, with no global conflict; without
  a preferred section no other such table is smaller. It answers none only when the window is blocked
  globally or every candidate is locked or taken.
\<close>

lemma allocate_best_free_table:
  "case allocate rt d inp readOnly now dbNow of
     Some t \<Rightarrow>
       \<not> hasGlobalCapacityConflict rt d inp None now None \<and>
       t \<in> set (tables d) \<and> t_isActive t \<and> t_minCapacity t \<le> ai_partySize inp \<and>
       ai_partySize inp \<le> t_capacity t \<and> t_id t \<notin> set (ai_excludeTableIds inp) \<and>
       (\<exists>p \<in> set (floorPlans d). fp_id p = t_floorPlanId t \<and>
          fp_restaurantId p = ai_restaurantId inp \<and> fp_isActive p) \<and>
       (readOnly \<or> \<not> rowLocked rt (t_id t)) \<and>
       isTableAvailable d dbNow (input_check inp (t_id t)) \<and>
       (\<not> truthy (ai_preferredSectionId inp) \<longrightarrow>
         (\<forall>t' \<in> set (findCandidateTables rt d inp).
            (readOnly \<or> \<not> rowLocked rt (t_id t')) \<and>
            isTableAvailable d dbNow (input_check inp (t_id t')) \<longrightarrow>
            (t_capacity t, t_minCapacity t) \<le> (t_capacity t', t_minCapacity t')))
   | None \<Rightarrow>
       hasGlobalCapacityConflict rt d inp None now None \<or>
       (\<forall>t \<in> set (findCandidateTables rt d inp).
          (\<not> readOnly \<and> rowLocked rt (t_id t)) \<or>
          \<not> isTableAvailable d dbNow (input_check inp (t_id t)))"
proof (cases "allocate rt d inp readOnly now dbNow")
  case None
  then show ?thesis by (auto simp: allocate_def find_None_iff split: if_splits)
next
  case (Some t)
  let ?P = "\<lambda>t. (readOnly \<or> \<not> rowLocked rt (t_id t)) \<and> isTableAvailable d dbNow (input_check inp (t_id t))"
  have fnd: "find ?P (findCandidateTables rt d inp) = Some t"
    and noconf: "\<not> hasGlobalCapacityConflict rt d inp None now None"
    using Some by (auto simp: allocate_def split: if_splits)
  have t: "t \<in> set (findCandidateTables rt d inp)" "?P t" using find_Some_D [OF fnd] by auto
  have best: "(t_capacity t, t_minCapacity t) \<le> (t_capacity t', t_minCapacity t')"
    if "\<not> truthy (ai_preferredSectionId inp)" "t' \<in> set (findCandidateTables rt d inp)" "?P t'" for t'
    using find_sorted_least [OF candidates_sorted [OF that(1)] fnd that(2,3)] .
  show ?thesis
    using Some noconf t candidate_in_plan [OF t(1)] best by (simp add: capacityFilter_def)
qed

definition ask_two :: alloc_input where
  "ask_two = \<lparr>ai_restaurantId = ''r'', ai_partySize = 2, ai_startsAt = 0, ai_endsAt = 7200000,
     ai_preferredSectionId = None, ai_excludeTableIds = [], ai_excludeReservationId = None\<rparr>"

lemma allocate_ask_two: "map_option t_id (allocate utc_runtime plan_of_one_table ask_two False 0 0) = Some ''t''"
  by code_simp

lemma allocate_best_free_table_witness:
  "\<exists>t. allocate utc_runtime plan_of_one_table ask_two False 0 0 = Some t \<and> t_id t = ''t'' \<and>
     isTableAvailable plan_of_one_table 0 (input_check ask_two ''t'')"
proof -
  obtain t where t: "allocate utc_runtime plan_of_one_table ask_two False 0 0 = Some t" "t_id t = ''t''"
    using allocate_ask_two by auto
  then show ?thesis
    using allocate_best_free_table
      [where rt = utc_runtime and d = plan_of_one_table and inp = ask_two and readOnly = False
        and now = 0 and dbNow = 0] by simp
qed



text \<open>
  A suggestion is always a table the seating check would not refuse for itself: every suggested
  table is a candidate of the request and free over the window, there are at most \<open>limit\<close> of them (one
  at least is tried), and they come by decreasing score.
\<close>

lemma suggest_sound:
  "let s = suggest rt d inp limit dbNow in
     length s \<le> max 1 limit \<and> sorted (map (\<lambda>x. - snd x) s) \<and>
     set s \<subseteq> {(t, scoreCandidate inp t) | t. t \<in> set (findCandidateTables rt d inp) \<and>
       isTableAvailable d dbNow ((input_check inp (t_id t))\<lparr>tc_excludeReservationId := None\<rparr>)}"
proof -
  have "refines_key (\<lambda>a b. snd b - snd a :: int) (\<lambda>x. - snd x)" by (auto simp: refines_key_def)
  then have "sorted (map (\<lambda>x. - snd x) (suggest rt d inp limit dbNow))"
    unfolding suggest_def by (rule sorted_js_sort)
  moreover have "length (suggest rt d inp limit dbNow) \<le> max 1 limit"
    by (auto simp: suggest_def)
  ultimately show ?thesis
    unfolding Let_def by (auto simp: suggest_def dest!: in_set_takeD)
qed

text \<open>
  The limit is applied in the order of the query, before the scores are compared: with one suggestion
  asked, a large table of the preferred section hides a better scored one.
\<close>

definition two_tables :: db where
  "two_tables = empty_db\<lparr>
     floorPlans := [\<lparr>fp_id = ''f'', fp_restaurantId = ''r'', fp_isActive = True, fp_isDefault = True\<rparr>],
     tables := [\<lparr>t_id = ''big'', t_floorPlanId = ''f'', t_sectionId = Some ''s'', t_name = ''1'',
                 t_capacity = 10, t_minCapacity = 1, t_isActive = True\<rparr>,
                \<lparr>t_id = ''small'', t_floorPlanId = ''f'', t_sectionId = None, t_name = ''2'',
                 t_capacity = 2, t_minCapacity = 1, t_isActive = True\<rparr>]\<rparr>"

lemma suggest_limit_hides_better_score:
  "let inp = ask_two\<lparr>ai_preferredSectionId := Some ''s''\<rparr> in
   map (\<lambda>x. (t_id (fst x), snd x)) (suggest utc_runtime two_tables inp 1 0) = [(''big'', 35)] \<and>
   map (\<lambda>x. (t_id (fst x), snd x)) (suggest utc_runtime two_tables inp 2 0)
     = [(''small'', 100), (''big'', 35)]"
  by code_simp

end
