(* ===== verification/Js_Text.thy ===== *)
theory Js_Text
  imports Complex_Main Prelude
begin

text \<open>
  What the services that validate forms share: the character classes of their regular expressions, the
  replacement of white space, splitting, phone numbers, \<open>Number.isInteger\<close> on a rational, fields given or left out, and the three-valued
  logic of the \<open>CHECK\<close> constraints.
\<close>

section \<open>Texts\<close>

definition control_char :: "char \<Rightarrow> bool" where
  "control_char c \<longleftrightarrow> (of_char c :: nat) \<le> 31 \<or> of_char c = (127 :: nat)"

text \<open>\<open>replace (/\s+/g, ' ')\<close> and \<open>replace (/\s+/g, '')\<close>.\<close>

fun collapse_spaces :: "string \<Rightarrow> string" where
  "collapse_spaces [] = []"
| "collapse_spaces [c] = [if js_space c then CHR '' '' else c]"
| "collapse_spaces (c # d # cs) =
     (if js_space c then (if js_space d then collapse_spaces (d # cs) else CHR '' '' # collapse_spaces (d # cs))
      else c # collapse_spaces (d # cs))"

definition strip_spaces :: "string \<Rightarrow> string" where
  "strip_spaces s = filter (\<lambda>c. \<not> js_space c) s"

definition between :: "char \<Rightarrow> char \<Rightarrow> char \<Rightarrow> bool" where
  "between a b c \<longleftrightarrow> (of_char a :: nat) \<le> of_char c \<and> (of_char c :: nat) \<le> of_char b"

text \<open>\<open>split\<close> at a character.\<close>

fun js_split :: "char \<Rightarrow> string \<Rightarrow> string list" where
  "js_split x [] = [[]]"
| "js_split x (c # cs) =
     (case js_split x cs of
        [] \<Rightarrow> [[c]]
      | w # ws \<Rightarrow> if c = x then [] # w # ws else (c # w) # ws)"

section \<open>Phones\<close>

text \<open>\<open>normalizePhone\<close> of \<open>packages/shared/src/phone/normalize.ts\<close>, and what the customer records accept.\<close>

definition keep_digit :: "char \<Rightarrow> bool" where
  "keep_digit c \<longleftrightarrow> (48 \<le> (of_char c :: nat) \<and> of_char c \<le> (57 :: nat)) \<or> c = CHR ''+''"

definition normalizePhone :: "string \<Rightarrow> string" where
  "normalizePhone raw =
    (let digits = filter keep_digit raw in
     if take 1 digits = ''+'' then digits
     else if take 2 digits = ''00'' then ''+'' @ drop 2 digits
     else if take 1 digits = ''0'' \<and> length digits = 10 then ''+33'' @ drop 1 digits
     else digits)"

definition safe_phone_pattern :: "string \<Rightarrow> bool" where
  "safe_phone_pattern s =
    (let digits = (if take 1 s = ''+'' then drop 1 s else s) in
     7 \<le> length digits \<and> length digits \<le> 15 \<and> list_all (between CHR ''0'' CHR ''9'') digits)"

definition normalizeCustomerPhone :: "string \<Rightarrow> string option" where
  "normalizeCustomerPhone value =
    (let trimmed = js_trim value in
     if trimmed = [] \<or> list_ex (\<lambda>c. \<not> (between CHR ''0'' CHR ''9'' c \<or> js_space c \<or> c \<in> set ''+().-'')) trimmed then None
     else let normalized = normalizePhone trimmed in
       if safe_phone_pattern normalized then Some normalized else None)"

section \<open>Numbers and fields\<close>

definition isInteger :: "rat \<Rightarrow> bool" where
  "isInteger x \<longleftrightarrow> of_int \<lfloor>x\<rfloor> = x"

lemma isInteger_floor: "isInteger x \<Longrightarrow> of_int \<lfloor>x\<rfloor> = x"
  by (simp add: isInteger_def)

text \<open>\<open>if (input.f !== undefined) data.f = normalize (input.f)\<close>.\<close>

definition when_given :: "'a option \<Rightarrow> ('a \<Rightarrow> 'e + 'b) \<Rightarrow> 'e + 'b option" where
  "when_given v f = (case v of None \<Rightarrow> Inr None | Some x \<Rightarrow> ebind (f x) (\<lambda>y. Inr (Some y)))"

lemma orElse_ok: "(v = None \<Longrightarrow> P x) \<Longrightarrow> (\<And>y. v = Some y \<Longrightarrow> P y) \<Longrightarrow> P (orElse v x)"
  by (cases v) auto

lemma when_given_ok:
  "when_given v f = Inr w \<Longrightarrow> (\<And>x y. f x = Inr y \<Longrightarrow> P y) \<Longrightarrow> P z \<Longrightarrow> P (orElse w z)"
  by (auto simp: when_given_def split: option.splits elim!: ebind_InrE)

section \<open>Three-valued logic\<close>

text \<open>
  \<open>None\<close> is SQL's unknown, and only \<open>Some False\<close> refuses a row. A comparison with a missing value is
  unknown.
\<close>

definition sql_and :: "bool option \<Rightarrow> bool option \<Rightarrow> bool option" where
  "sql_and a b = (if a = Some False \<or> b = Some False then Some False
     else if a = Some True \<and> b = Some True then Some True else None)"

definition sql_or :: "bool option \<Rightarrow> bool option \<Rightarrow> bool option" where
  "sql_or a b = (if a = Some True \<or> b = Some True then Some True
     else if a = Some False \<and> b = Some False then Some False else None)"

definition sql_between :: "int option \<Rightarrow> int \<Rightarrow> int \<Rightarrow> bool option" where
  "sql_between v a b = map_option (\<lambda>x. a \<le> x \<and> x \<le> b) v"

end
