(* ===== verification/Waiting_List.thy ===== *)
theory Waiting_List
  imports Table_Allocation Js_Text
begin

text \<open>
  The waiting list of a restaurant: \<open>WaitingListService\<close> of
  \<open>modules/agentic-reservations/core/waiting-list.service.ts\<close> with the jobs it hands to the queues
  (\<open>workers/queues.ts\<close>). The random token and the ids of the new rows are arguments. The advisory lock of \<open>join\<close> and the row locks order the transactions
  of this service one after the other, so an operation is one step. The consents of an entry, the
  metadata of the audit rows and the metrics are not modelled. Of a job the list \<open>jobs\<close> records that it
  was handed to the queue; BullMQ drops one whose \<open>jobId\<close> it still holds.
\<close>

section \<open>The table\<close>

text \<open>Migration \<open>20260722000000_waiting_list\<close>: a phone waits once for a slot.\<close>

definition waiting_index_conflict :: "waiting_row \<Rightarrow> waiting_row \<Rightarrow> bool" where
  "waiting_index_conflict w w' \<longleftrightarrow>
     w_status w = W_PENDING \<and> w_status w' = W_PENDING \<and> w_restaurantId w = w_restaurantId w' \<and>
     w_customerPhoneNormalized w = w_customerPhoneNormalized w' \<and> w_slotStart w = w_slotStart w'"

definition waiting_unique_conflict :: "waiting_row \<Rightarrow> waiting_row \<Rightarrow> bool" where
  "waiting_unique_conflict w w' \<longleftrightarrow>
     w_id w = w_id w' \<or> w_actionTokenHash w = w_actionTokenHash w' \<or>
     same_some (w_promotedReservationId w) (w_promotedReservationId w') \<or> waiting_index_conflict w w'"

definition insertEntry :: "waiting_row \<Rightarrow> db \<Rightarrow> err + db" where
  "insertEntry w d =
     (if \<exists>w' \<in> set (waiting d). waiting_unique_conflict w w' then Inl (DbError P2002)
      else Inr (d\<lparr>waiting := waiting d @ [w]\<rparr>))"

section \<open>Joining\<close>

record join_args =
  ja_restaurantId :: id
  ja_partySize :: int
  ja_customerFirstName :: string
  ja_customerLastName :: "string option"
  ja_customerPhone :: string
  ja_customerEmail :: "string option"
  ja_slotStart :: instant
  ja_preferredSectionId :: "id option"
  ja_source :: string
  ja_waitingListEnabled :: bool
  ja_waitingListMaxEntriesPerSlot :: int
  ja_serviceDurationMinutes :: "int option"

definition hashActionToken :: "runtime \<Rightarrow> string \<Rightarrow> string" where
  "hashActionToken rt token = sha256 rt token"

definition ja_slotEnd :: "join_args \<Rightarrow> instant" where
  "ja_slotEnd a =
    (let serviceDurationMinutes = resolveServiceDurationMinutes
       (case ja_serviceDurationMinutes a of
          Some n \<Rightarrow> JObj [(''serviceDurationMinutes'', JNum n)]
        | None \<Rightarrow> JObj [])
     in ja_slotStart a + serviceDurationMinutes * 60000)"

definition live_pending :: "id \<Rightarrow> instant \<Rightarrow> instant \<Rightarrow> waiting_row \<Rightarrow> bool" where
  "live_pending restaurantId slotStart now w \<longleftrightarrow>
     w_restaurantId w = restaurantId \<and> w_slotStart w = slotStart \<and> w_status w = W_PENDING \<and>
     now < w_expiresAt w"

definition pendingCount :: "id \<Rightarrow> instant \<Rightarrow> instant \<Rightarrow> db \<Rightarrow> nat" where
  "pendingCount restaurantId slotStart now d =
     count_where (live_pending restaurantId slotStart now) (waiting d)"

definition waiting_audit :: "string \<Rightarrow> id option \<Rightarrow> string \<Rightarrow> audit_row" where
  "waiting_audit event reservationId actor =
     \<lparr>a_event = event, a_reservationId = reservationId, a_holdId = None, a_actor = actor,
      a_fromState = None, a_toState = None\<rparr>"

definition new_entry :: "runtime \<Rightarrow> join_args \<Rightarrow> id \<Rightarrow> string \<Rightarrow> instant \<Rightarrow> nat \<Rightarrow> waiting_row" where
  "new_entry rt a newId actionToken now position =
     \<lparr>w_id = newId, w_restaurantId = ja_restaurantId a, w_partySize = ja_partySize a,
      w_customerFirstName = ja_customerFirstName a, w_customerLastName = ja_customerLastName a,
      w_customerPhone = ja_customerPhone a,
      w_customerPhoneNormalized = normalizePhone (ja_customerPhone a),
      w_customerEmail = ja_customerEmail a, w_source = ja_source a, w_slotStart = ja_slotStart a,
      w_slotEnd = ja_slotEnd a, w_preferredSectionId = ja_preferredSectionId a,
      w_status = W_PENDING, w_position = position, w_actionTokenHash = hashActionToken rt actionToken,
      w_promotedReservationId = None, w_expiresAt = ja_slotStart a, w_promotedAt = None,
      w_cancelledAt = None, w_createdAt = now\<rparr>"

definition join_tx ::
    "runtime \<Rightarrow> join_args \<Rightarrow> id \<Rightarrow> string \<Rightarrow> instant \<Rightarrow> db \<Rightarrow> err + db \<times> waiting_row" where
  "join_tx rt a newId actionToken now d =
    (let n = pendingCount (ja_restaurantId a) (ja_slotStart a) now d in
     if ja_waitingListMaxEntriesPerSlot a \<le> int n
     then Inl (WaitingListSlotFullError (ja_restaurantId a) (ja_slotStart a)
                 (ja_waitingListMaxEntriesPerSlot a))
     else
       let created = new_entry rt a newId actionToken now (n + 1) in
       case insertEntry created d of
         Inl e \<Rightarrow> Inl e
       | Inr d1 \<Rightarrow>
           Inr (log_audit (waiting_audit ''waiting_list_created'' None
                  (if ja_source a \<noteq> [] then ''waiting-list:'' @ ja_source a else ''waiting-list'')) d1,
                created))"

definition scheduleWaitingListExpiration :: "id \<Rightarrow> instant \<Rightarrow> db \<Rightarrow> db" where
  "scheduleWaitingListExpiration entryId expiresAt d = add_job (ExpireWaitingListJob entryId expiresAt) d"

definition join_list ::
    "runtime \<Rightarrow> join_args \<Rightarrow> id \<Rightarrow> string \<Rightarrow> instant \<Rightarrow> db \<Rightarrow> db \<times> (err + waiting_row \<times> string)" where
  "join_list rt a newId actionToken now d =
    (if \<not> ja_waitingListEnabled a then (d, Inl WaitingListDisabledError)
     else
       case in_tx (join_tx rt a newId actionToken now) d of
         (d1, Inr entry) \<Rightarrow>
           (scheduleWaitingListExpiration (w_id entry) (w_expiresAt entry) d1, Inr (entry, actionToken))
       | (d1, Inl e) \<Rightarrow>
           (d1, Inl (if e = DbError P2002
                     then WaitingListAlreadyExistsError (ja_restaurantId a) (ja_slotStart a) else e)))"

section \<open>Cancelling\<close>

definition update_entry :: "id \<Rightarrow> (waiting_row \<Rightarrow> waiting_row) \<Rightarrow> db \<Rightarrow> db" where
  "update_entry wid f d = d\<lparr>waiting := upd_where (\<lambda>w. w_id w = wid) f (waiting d)\<rparr>"

definition cancel_row :: "instant \<Rightarrow> waiting_row \<Rightarrow> waiting_row" where
  "cancel_row now w = w\<lparr>w_status := W_CANCELLED, w_cancelledAt := Some now\<rparr>"

definition entry_or_throw :: "id \<Rightarrow> db \<Rightarrow> err + db \<times> waiting_row" where
  "entry_or_throw wid d = (case findEntry d wid of None \<Rightarrow> Inl (DbError P2025) | Some w \<Rightarrow> Inr (d, w))"

definition cancelByToken ::
    "runtime \<Rightarrow> id \<Rightarrow> string \<Rightarrow> id \<Rightarrow> instant \<Rightarrow> db \<Rightarrow> db \<times> (err + waiting_row)" where
  "cancelByToken rt entryId actionToken restaurantId now d =
    in_tx (\<lambda>d.
      case findEntry d entryId of
        None \<Rightarrow> Inl (WaitingListEntryNotFoundError entryId)
      | Some entry \<Rightarrow>
          if w_restaurantId entry \<noteq> restaurantId
             \<or> w_actionTokenHash entry \<noteq> hashActionToken rt actionToken
          then Inl (WaitingListEntryNotFoundError entryId)
          else if w_status entry = W_CANCELLED \<or> w_status entry = W_EXPIRED then Inr (d, entry)
          else if w_status entry = W_PROMOTED then Inl (WaitingListAlreadyPromotedError (w_id entry))
          else entry_or_throw (w_id entry)
                 (log_audit (waiting_audit ''waiting_list_cancelled'' None ''system:waiting-list'')
                   (update_entry (w_id entry) (cancel_row now) d))) d"

definition cancelByStaff :: "id \<Rightarrow> id \<Rightarrow> instant \<Rightarrow> db \<Rightarrow> db \<times> (err + waiting_row)" where
  "cancelByStaff entryId restaurantId now d =
    in_tx (\<lambda>d.
      case findEntry d entryId of
        None \<Rightarrow> Inl (WaitingListEntryNotFoundError entryId)
      | Some entry \<Rightarrow>
          if w_restaurantId entry \<noteq> restaurantId then Inl (WaitingListEntryNotFoundError entryId)
          else if w_status entry = W_CANCELLED \<or> w_status entry = W_EXPIRED then Inr (d, entry)
          else entry_or_throw (w_id entry)
                 (log_audit (waiting_audit ''waiting_list_cancelled_by_staff''
                    (w_promotedReservationId entry) ''staff:dashboard'')
                   (update_entry (w_id entry) (cancel_row now) d))) d"

section \<open>Promoting\<close>

definition entry_input :: "waiting_row \<Rightarrow> alloc_input" where
  "entry_input w =
     \<lparr>ai_restaurantId = w_restaurantId w, ai_partySize = w_partySize w, ai_startsAt = w_slotStart w,
      ai_endsAt = w_slotEnd w, ai_preferredSectionId = w_preferredSectionId w,
      ai_excludeTableIds = [], ai_excludeReservationId = None\<rparr>"

definition promoted_reservation :: "waiting_row \<Rightarrow> table_row \<Rightarrow> id \<Rightarrow> instant \<Rightarrow> reservation_row" where
  "promoted_reservation w t newId now =
     \<lparr>r_id = newId, r_restaurantId = w_restaurantId w, r_customerId = None,
      r_customerName = js_trim (w_customerFirstName w @ '' '' @ orElse (w_customerLastName w) []),
      r_customerPhone = Some (w_customerPhone w), r_customerEmail = w_customerEmail w,
      r_partySize = w_partySize w, r_reservedAt = now, r_startsAt = Some (w_slotStart w),
      r_endsAt = Some (w_slotEnd w), r_tableId = Some (t_id t),
      r_state = fst (creationProjection CONFIRMED), r_status = snd (creationProjection CONFIRMED),
      r_channel = WEB, r_isTest = False, r_source = Some ''waiting_list'', r_createdByClient = None,
      r_specialRequests = None, r_idempotencyScope = None, r_idempotencyKey = None,
      r_consumedHoldId = None, r_createdAt = now, r_giftCardSnap = None,
      r_giftCardComplementAmount = None\<rparr>"

definition promote_row :: "id \<Rightarrow> instant \<Rightarrow> waiting_row \<Rightarrow> waiting_row" where
  "promote_row reservationId now w =
     w\<lparr>w_status := W_PROMOTED, w_promotedReservationId := Some reservationId, w_promotedAt := Some now\<rparr>"

definition doPromote ::
    "runtime \<Rightarrow> id \<Rightarrow> id \<Rightarrow> instant \<Rightarrow> instant \<Rightarrow> db \<Rightarrow> err + db \<times> reservation_row option" where
  "doPromote rt entryId newId now dbNow d =
    (case findEntry d entryId of
       None \<Rightarrow> Inr (d, None)
     | Some entry \<Rightarrow>
         if w_status entry = W_PROMOTED \<and> truthy (w_promotedReservationId entry)
         then Inr (d, findReservation d (the (w_promotedReservationId entry)))
         else if w_status entry \<noteq> W_PENDING \<or> w_expiresAt entry \<le> now then Inr (d, None)
         else
           case allocate rt d (entry_input entry) False now dbNow of
             None \<Rightarrow> Inr (d, None)
           | Some table \<Rightarrow>
               let reservation = promoted_reservation entry table newId now in
               case insertReservation reservation d of
                 Inl e \<Rightarrow> Inl e
               | Inr d1 \<Rightarrow>
                   Inr (log_audit (waiting_audit ''waiting_list_promoted'' (Some newId)
                          ''system:waiting-list'')
                          (update_entry (w_id entry) (promote_row newId now) d1),
                        Some reservation))"

definition scheduleWaitingListPromotionNotification :: "id \<Rightarrow> id \<Rightarrow> db \<Rightarrow> db" where
  "scheduleWaitingListPromotionNotification entryId reservationId d =
     foldl (\<lambda>d channel. add_job (PromotionNotifyJob entryId reservationId channel) d) d
       [''sms'', ''email'']"

definition promoteEntry ::
    "runtime \<Rightarrow> id \<Rightarrow> id \<Rightarrow> instant \<Rightarrow> instant \<Rightarrow> db \<Rightarrow> db \<times> (err + reservation_row option)" where
  "promoteEntry rt entryId newId now dbNow d =
    (case in_tx (doPromote rt entryId newId now dbNow) d of
       (d1, Inr (Some reservation)) \<Rightarrow>
         (scheduleWaitingListPromotionNotification entryId (r_id reservation) d1, Inr (Some reservation))
     | (d1, out) \<Rightarrow> (d1, out))"

section \<open>Expiring and reading\<close>

definition expireEntry :: "id \<Rightarrow> instant \<Rightarrow> db \<Rightarrow> db" where
  "expireEntry entryId now d =
     d\<lparr>waiting := upd_where (\<lambda>w. w_id w = entryId \<and> w_expiresAt w \<le> now \<and> w_status w = W_PENDING)
         (\<lambda>w. w\<lparr>w_status := W_EXPIRED\<rparr>) (waiting d)\<rparr>"

definition cleanupExpired :: "instant \<Rightarrow> db \<Rightarrow> db \<times> nat" where
  "cleanupExpired now d =
    (let p = (\<lambda>w. w_status w = W_PENDING \<and> w_expiresAt w \<le> now) in
     (d\<lparr>waiting := upd_where p (\<lambda>w. w\<lparr>w_status := W_EXPIRED\<rparr>) (waiting d)\<rparr>, count_where p (waiting d)))"

definition by_slot :: "waiting_row \<Rightarrow> waiting_row \<Rightarrow> int" where
  "by_slot a b = cmp_or (w_slotStart a - w_slotStart b) (w_createdAt a - w_createdAt b)"

text \<open>\<open>date\<close> is a day number; \<open>23:59\<close> is minute 1439 of it.\<close>

definition list_entries ::
    "runtime \<Rightarrow> db \<Rightarrow> id \<Rightarrow> int option \<Rightarrow> waiting_status option \<Rightarrow> string option \<Rightarrow> waiting_row list" where
  "list_entries rt d restaurantId date status timeZone =
    (let zone = tzdb rt (orElse timeZone ''Europe/Paris'');
         in_day = (\<lambda>w. case date of
             None \<Rightarrow> True
           | Some day \<Rightarrow>
               zonedTimeToUtc zone day 0 \<le> w_slotStart w \<and>
               w_slotStart w < zonedTimeToUtc zone day (23 * 60 + 59) + 59999)
     in js_sort by_slot
          (filter (\<lambda>w. w_restaurantId w = restaurantId \<and>
                       (case status of None \<Rightarrow> True | Some s \<Rightarrow> w_status w = s) \<and> in_day w)
             (waiting d)))"

definition candidate :: "runtime \<Rightarrow> db \<Rightarrow> instant \<Rightarrow> instant \<Rightarrow> waiting_row \<Rightarrow>
    waiting_row \<times> bool \<times> (id \<times> string \<times> int) option" where
  "candidate rt d now dbNow entry =
    (case allocate rt d (entry_input entry) True now dbNow of
       Some t \<Rightarrow> (entry, True, Some (t_id t, t_name t, t_capacity t))
     | None \<Rightarrow> (entry, False, None))"

definition findCompatibleCandidates ::
    "runtime \<Rightarrow> db \<Rightarrow> id \<Rightarrow> instant \<Rightarrow> nat \<Rightarrow> instant \<Rightarrow> instant \<Rightarrow>
     (waiting_row \<times> bool \<times> (id \<times> string \<times> int) option) list" where
  "findCompatibleCandidates rt d restaurantId slotStart limit now dbNow =
    (let entries = take limit (js_sort (\<lambda>a b. w_createdAt a - w_createdAt b)
                     (filter (live_pending restaurantId slotStart now) (waiting d)))
     in map (candidate rt d now dbNow) entries)"

section \<open>The index and the statuses\<close>

abbreviation waiting_ok :: "waiting_row list \<Rightarrow> bool" where
  "waiting_ok \<equiv> table_ok w_id waiting_index_conflict"

interpretation waiting_table: constrained_table w_id waiting_index_conflict
  by unfold_locales (auto simp: waiting_index_conflict_def)

inductive waiting_edge :: "waiting_status \<Rightarrow> waiting_status \<Rightarrow> bool" where
  "waiting_edge W_PENDING W_PROMOTED"
| "waiting_edge W_PENDING W_CANCELLED"
| "waiting_edge W_PENDING W_EXPIRED"
| "waiting_edge W_PROMOTED W_CANCELLED"

inductive_simps waiting_edge_simps: "waiting_edge a b"

definition entry_status :: "db \<Rightarrow> id \<Rightarrow> waiting_status option" where
  "entry_status d k = map_option w_status (findEntry d k)"

definition waiting_le :: "db \<Rightarrow> db \<Rightarrow> bool" where
  "waiting_le d d' \<longleftrightarrow>
     (\<forall>k s. entry_status d k = Some s \<longrightarrow> (\<exists>s'. entry_status d' k = Some s' \<and> waiting_edge\<^sup>*\<^sup>* s s')) \<and>
     (waiting_ok (waiting d) \<longrightarrow> waiting_ok (waiting d'))"

lemma waiting_le_same: "waiting d' = waiting d \<Longrightarrow> waiting_le d d'"
  by (simp add: waiting_le_def entry_status_def findEntry_def) blast

text \<open>Every write of the service on existing entries is of this form.\<close>

lemma waiting_le_retire:
  assumes "waiting d' = upd_where p f (waiting d)"
    and "\<And>w. p w \<Longrightarrow> w_id (f w) = w_id w \<and> w_status (f w) \<noteq> W_PENDING"
    and "\<And>w. findEntry d (w_id w) = Some w \<Longrightarrow> p w \<Longrightarrow> waiting_edge (w_status w) (w_status (f w))"
  shows "waiting_le d d'"
proof -
  have "\<exists>s'. entry_status d' k = Some s' \<and> waiting_edge\<^sup>*\<^sup>* s s'" if "entry_status d k = Some s" for k s
    unfolding entry_status_def findEntry_def assms(1)
  proof (rule status_after_update [where key = w_id])
    show "map_option w_status (find (\<lambda>x. w_id x = k) (waiting d)) = Some s"
      using that by (simp add: entry_status_def findEntry_def)
    show "w_id (f w) = w_id w" if "p w" for w using assms(2) that by blast
    show "waiting_edge (w_status w) (w_status (f w))"
      if "find (\<lambda>x. w_id x = k) (waiting d) = Some w" "p w" for w
      using assms(3) that find_Some_D [OF that(1)] by (simp add: findEntry_def)
  qed
  moreover have "waiting_ok (waiting d) \<Longrightarrow> waiting_ok (waiting d')"
    unfolding assms(1) by (rule waiting_table.retire_ok)
      (simp_all add: assms(2) waiting_index_conflict_def)
  ultimately show ?thesis by (simp add: waiting_le_def)
qed

lemma insertEntry_ok:
  "insertEntry w d = Inr d' \<longleftrightarrow>
     (\<forall>w' \<in> set (waiting d). \<not> waiting_unique_conflict w w') \<and> d' = d\<lparr>waiting := waiting d @ [w]\<rparr>"
  by (auto simp: insertEntry_def)

lemma waiting_le_insert:
  assumes "waiting d' = waiting d @ [w]" "\<forall>w' \<in> set (waiting d). \<not> waiting_unique_conflict w w'"
  shows "waiting_le d d'"
proof -
  have "waiting_ok (waiting d) \<Longrightarrow> waiting_ok (waiting d @ [w])"
    by (rule waiting_table.insert_ok) (use assms(2) in \<open>auto simp: waiting_unique_conflict_def\<close>)
  then show ?thesis
    by (auto simp: waiting_le_def entry_status_def findEntry_def assms(1) find_append)
qed

lemma update_entry_simps [simp, tbl]:
  "waiting (update_entry i f d) = upd_where (\<lambda>w. w_id w = i) f (waiting d)"
  "reservations (update_entry i f d) = reservations d" "jobs (update_entry i f d) = jobs d"
  "audit (update_entry i f d) = audit d" "holds (update_entry i f d) = holds d"
  by (simp_all add: update_entry_def)

lemma findEntry_id: "findEntry d i = Some w \<Longrightarrow> w_id w = i \<and> w \<in> set (waiting d)"
  unfolding findEntry_def by (auto dest: find_Some_D)

lemma join_list_cases:
  assumes "join_list rt a newId token now d = (d', out)"
  obtains
    (refused) e where "out = Inl e" "d' = d"
  | (joined) w where "out = Inr (w, token)"
      "w = new_entry rt a newId token now (pendingCount (ja_restaurantId a) (ja_slotStart a) now d + 1)"
      "int (pendingCount (ja_restaurantId a) (ja_slotStart a) now d) < ja_waitingListMaxEntriesPerSlot a"
      "waiting d' = waiting d @ [w]" "\<forall>w' \<in> set (waiting d). \<not> waiting_unique_conflict w w'"
      "reservations d' = reservations d"
      "jobs d' = jobs d @ [ExpireWaitingListJob newId (ja_slotStart a)]"
proof (cases "ja_waitingListEnabled a")
  case False
  then show ?thesis using assms by (intro refused [of WaitingListDisabledError]) (auto simp: join_list_def)
next
  case True
  show ?thesis
  proof (cases "join_tx rt a newId token now d")
    case (Inl e)
    then show ?thesis using assms True by (intro refused) (auto simp: join_list_def)
  next
    case (Inr r)
    define w where "w = new_entry rt a newId token now
      (pendingCount (ja_restaurantId a) (ja_slotStart a) now d + 1)"
    have sel: "w_id w = newId" "w_expiresAt w = ja_slotStart a"
      by (simp_all add: w_def new_entry_def)
    from Inr obtain d1 where tx: "insertEntry w d = Inr d1" "snd r = w" "waiting (fst r) = waiting d1"
        "reservations (fst r) = reservations d1" "jobs (fst r) = jobs d1"
      and free: "int (pendingCount (ja_restaurantId a) (ja_slotStart a) now d)
        < ja_waitingListMaxEntriesPerSlot a"
      by (auto simp: join_tx_def Let_def w_def split: if_splits sum.splits)
    have "d' = scheduleWaitingListExpiration (w_id w) (w_expiresAt w) (fst r)" "out = Inr (w, token)"
      using assms True Inr tx(2) by (cases r; simp add: join_list_def in_tx_def)+
    then show ?thesis
      using tx free unfolding insertEntry_ok sel
      by (intro joined [of w]) (auto simp: w_def scheduleWaitingListExpiration_def)
  qed
qed

lemma promoteEntry_cases:
  assumes "promoteEntry rt entryId newId now dbNow d = (d', out)"
  obtains
    (refused) e where "out = Inl e" "d' = d"
  | (nothing) "out = Inr None" "d' = d"
  | (replayed) w r where "findEntry d entryId = Some w" "w_status w = W_PROMOTED"
      "out = Inr (Some r)" "findReservation d (the (w_promotedReservationId w)) = Some r"
      "d' = scheduleWaitingListPromotionNotification entryId (r_id r) d"
  | (promoted) w t where "findEntry d entryId = Some w" "w_status w = W_PENDING" "now < w_expiresAt w"
      "allocate rt d (entry_input w) False now dbNow = Some t"
      "out = Inr (Some (promoted_reservation w t newId now))"
      "insertReservation (promoted_reservation w t newId now) d
         = Inr (d\<lparr>reservations := reservations d @ [promoted_reservation w t newId now]\<rparr>)"
      "reservations d' = reservations d @ [promoted_reservation w t newId now]"
      "waiting d' = upd_where (\<lambda>x. w_id x = entryId) (promote_row newId now) (waiting d)"
      "jobs d' = jobs d @ [PromotionNotifyJob entryId newId ''sms'', PromotionNotifyJob entryId newId ''email'']"
proof (cases "doPromote rt entryId newId now dbNow d")
  case (Inl e)
  then show ?thesis using assms by (intro refused) (auto simp: promoteEntry_def)
next
  case (Inr r)
  obtain d1 o1 where r: "r = (d1, o1)" by fastforce
  show ?thesis
  proof (cases o1)
    case None
    then have "d1 = d"
      using Inr r unfolding doPromote_def Let_def
      by (auto split: option.splits if_splits sum.splits)
    then have "out = Inr None" "d' = d"
      using assms Inr r None by (auto simp: promoteEntry_def)
    then show ?thesis by (rule nothing)
  next
    case (Some res)
    have d': "d' = scheduleWaitingListPromotionNotification entryId (r_id res) d1" "out = Inr (Some res)"
      using assms Inr r Some by (auto simp: promoteEntry_def)
    obtain w where w: "findEntry d entryId = Some w"
      using Inr r Some by (auto simp: doPromote_def split: option.splits)
    show ?thesis
    proof (cases "w_status w = W_PROMOTED \<and> truthy (w_promotedReservationId w)")
      case True
      then show ?thesis
        using Inr r Some w d' by (intro replayed [of w res]) (auto simp: doPromote_def)
    next
      case False
      then obtain t where pend: "w_status w = W_PENDING" "now < w_expiresAt w"
        and t: "allocate rt d (entry_input w) False now dbNow = Some t"
        using Inr r Some w by (auto simp: doPromote_def split: if_splits option.splits)
      define x where "x = promoted_reservation w t newId now"
      have "insertReservation x d = Inr (d\<lparr>reservations := reservations d @ [x]\<rparr>)" "res = x"
        "d1 = log_audit (waiting_audit ''waiting_list_promoted'' (Some newId) ''system:waiting-list'')
           (update_entry entryId (promote_row newId now) (d\<lparr>reservations := reservations d @ [x]\<rparr>))"
        using Inr r Some w pend t findEntry_id [OF w]
        by (auto simp: doPromote_def Let_def x_def [symmetric] insertReservation_ok split: sum.splits)
      moreover have "r_id x = newId" by (simp add: x_def promoted_reservation_def)
      ultimately show ?thesis
        using w pend t d'
        by (intro promoted [of w t])
          (simp_all add: x_def [symmetric] scheduleWaitingListPromotionNotification_def)
    qed
  qed
qed

inductive waiting_write :: "db \<Rightarrow> db \<Rightarrow> bool" where
  ww_join: "join_list rt a newId token now d = (d', out) \<Longrightarrow> waiting_write d d'"
| ww_token: "cancelByToken rt i token rid now d = (d', out') \<Longrightarrow> waiting_write d d'"
| ww_staff: "cancelByStaff i rid now d = (d', out') \<Longrightarrow> waiting_write d d'"
| ww_promote: "promoteEntry rt i newId now dbNow d = (d', out'') \<Longrightarrow> waiting_write d d'"
| ww_expire: "waiting_write d (expireEntry i now d)"
| ww_cleanup: "cleanupExpired now d = (d', n) \<Longrightarrow> waiting_write d d'"

text \<open>A cancellation either leaves the database as it was or cancels one live entry.\<close>

lemma cancel_cases:
  assumes "cancelByToken rt i token rid now d = (d', out) \<or> cancelByStaff i rid now d = (d', out)"
  shows "d' = d \<or> (\<exists>w. findEntry d i = Some w \<and> w_status w \<in> {W_PENDING, W_PROMOTED} \<and>
    waiting d' = upd_where (\<lambda>x. w_id x = i) (cancel_row now) (waiting d))"
proof (cases "d' = d")
  case False
  then show ?thesis
    using assms findEntry_id [of d i]
    by (cases "findEntry d i"; cases "w_status (the (findEntry d i))")
      (auto simp: cancelByToken_def cancelByStaff_def in_tx_def entry_or_throw_def
        split: option.splits if_splits)
qed simp

lemma waiting_le_cancel:
  assumes "d' = d \<or> (\<exists>w. findEntry d i = Some w \<and> w_status w \<in> {W_PENDING, W_PROMOTED} \<and>
    waiting d' = upd_where (\<lambda>x. w_id x = i) (cancel_row now) (waiting d))"
  shows "waiting_le d d'"
  using assms
proof (elim disjE exE conjE)
  fix w
  assume w: "findEntry d i = Some w" "w_status w \<in> {W_PENDING, W_PROMOTED}"
    and d': "waiting d' = upd_where (\<lambda>x. w_id x = i) (cancel_row now) (waiting d)"
  show "waiting_le d d'"
    by (rule waiting_le_retire [OF d']) (use w in \<open>auto simp: cancel_row_def waiting_edge_simps\<close>)
qed (simp add: waiting_le_same)

lemma waiting_write_le: "waiting_write d d' \<Longrightarrow> waiting_le d d'"
proof (induction rule: waiting_write.induct)
  case (ww_join rt a newId token now d d' out)
  then show ?case
    by (rule join_list_cases) (auto intro: waiting_le_same waiting_le_insert)
next
  case (ww_token rt i token rid now d d' out')
  then show ?case by (intro waiting_le_cancel [OF cancel_cases]) blast
next
  case (ww_staff i rid now d d' out')
  then show ?case by (intro waiting_le_cancel [OF cancel_cases]) blast
next
  case (ww_promote rt i newId now dbNow d d' out'')
  then show ?case
  proof (cases rule: promoteEntry_cases)
    case (replayed w r)
    then show ?thesis by (intro waiting_le_same) (simp add: scheduleWaitingListPromotionNotification_def)
  next
    case (promoted w t)
    show ?thesis
      by (rule waiting_le_retire [OF promoted(8)])
        (use promoted(1,2) in \<open>auto simp: promote_row_def waiting_edge_simps dest: findEntry_id\<close>)
  qed (auto intro: waiting_le_same)
next
  case (ww_expire d i now)
  show ?case
    by (rule waiting_le_retire [where f = "\<lambda>w. w\<lparr>w_status := W_EXPIRED\<rparr>"
          and p = "\<lambda>w. w_id w = i \<and> w_expiresAt w \<le> now \<and> w_status w = W_PENDING"])
      (auto simp: expireEntry_def waiting_edge_simps)
next
  case (ww_cleanup now d d' n)
  show ?case
    by (rule waiting_le_retire [where f = "\<lambda>w. w\<lparr>w_status := W_EXPIRED\<rparr>"
          and p = "\<lambda>w. w_status w = W_PENDING \<and> w_expiresAt w \<le> now"])
      (use ww_cleanup in \<open>auto simp: cleanupExpired_def Let_def waiting_edge_simps\<close>)
qed

interpretation waiting_machine: status_machine waiting_edge entry_status waiting_write
  by unfold_locales (use waiting_write_le in \<open>unfold waiting_le_def, blast\<close>)

lemma waiting_run_ok:
  "waiting_write\<^sup>*\<^sup>* d d' \<Longrightarrow> waiting_ok (waiting d) \<Longrightarrow> waiting_ok (waiting d')"
  by (induction rule: rtranclp_induct) (use waiting_write_le in \<open>auto simp: waiting_le_def\<close>)

text \<open>
  Over any run of the service, a phone waits at most once for a slot of a restaurant, and an entry
  that was cancelled or expired stays so; a promoted one can only be cancelled, never promoted again.
\<close>

lemma waiting_runs_keep_index:
  assumes "waiting_write\<^sup>*\<^sup>* d d'" "waiting_ok (waiting d)"
  shows "waiting_ok (waiting d') \<and>
    (entry_status d k \<in> {Some W_CANCELLED, Some W_EXPIRED} \<longrightarrow> entry_status d' k = entry_status d k) \<and>
    (entry_status d k = Some W_PROMOTED \<longrightarrow> entry_status d' k \<in> {Some W_PROMOTED, Some W_CANCELLED})"
proof -
  have final: "waiting_edge\<^sup>*\<^sup>* W_CANCELLED s \<Longrightarrow> s = W_CANCELLED" for s
    by (erule converse_rtranclpE) (auto simp: waiting_edge_simps)
  have "s' \<in> {W_PROMOTED, W_CANCELLED}" if "waiting_edge\<^sup>*\<^sup>* W_PROMOTED s'" for s'
    using that by (rule converse_rtranclpE) (auto simp: waiting_edge_simps dest: final)
  moreover have "entry_status d' k = Some s" if "entry_status d k = Some s" "s = W_CANCELLED \<or> s = W_EXPIRED" for s
    using waiting_machine.terminal_absorbing [OF assms(1) that(1)] that(2)
    by (auto simp: waiting_edge_simps)
  ultimately show ?thesis
    using waiting_run_ok [OF assms] waiting_machine.run_edge [OF assms(1), of k W_PROMOTED] by fastforce
qed

definition ask_join :: join_args where
  "ask_join = \<lparr>ja_restaurantId = ''r'', ja_partySize = 2, ja_customerFirstName = ''Ada'',
     ja_customerLastName = None, ja_customerPhone = ''06 00 00 00 01'', ja_customerEmail = None,
     ja_slotStart = 7200000, ja_preferredSectionId = None, ja_source = ''web'',
     ja_waitingListEnabled = True, ja_waitingListMaxEntriesPerSlot = 3,
     ja_serviceDurationMinutes = None\<rparr>"

lemma joined_one:
  obtains d' w where "join_list utc_runtime ask_join ''w1'' ''tok'' 0 plan_of_one_table = (d', Inr (w, ''tok''))"
    "waiting d' = [w]" "w_id w = ''w1''" "w_status w = W_PENDING" "w_expiresAt w = 7200000"
    "reservations d' = []"
proof -
  obtain d' out where run: "join_list utc_runtime ask_join ''w1'' ''tok'' 0 plan_of_one_table = (d', out)"
    by fastforce
  have "case join_list utc_runtime ask_join ''w1'' ''tok'' 0 plan_of_one_table of (d', Inl e) \<Rightarrow> False
     | (d', Inr (w, tk)) \<Rightarrow> waiting d' = [w] \<and> w_id w = ''w1'' \<and> w_status w = W_PENDING \<and>
         w_expiresAt w = 7200000 \<and> reservations d' = [] \<and> tk = ''tok''"
    by code_simp
  with run that show thesis by (cases out) auto
qed

lemma waiting_runs_keep_index_witness:
  "\<exists>d2. waiting_write\<^sup>*\<^sup>* plan_of_one_table d2 \<and> waiting_ok (waiting d2) \<and> entry_status d2 ''w1'' = Some W_EXPIRED"
proof -
  obtain d1 w where run: "join_list utc_runtime ask_join ''w1'' ''tok'' 0 plan_of_one_table = (d1, Inr (w, ''tok''))"
    and w: "waiting d1 = [w]" "w_id w = ''w1''" "w_status w = W_PENDING" "w_expiresAt w = 7200000"
    by (rule joined_one)
  define d2 where "d2 = expireEntry ''w1'' 7200000 d1"
  have steps: "waiting_write\<^sup>*\<^sup>* plan_of_one_table d2"
    unfolding d2_def by (rule rtranclp.rtrancl_into_rtrancl [OF r_into_rtranclp [where r = waiting_write, OF ww_join [OF run]] ww_expire])
  have st: "entry_status d2 ''w1'' = Some W_EXPIRED"
    by (simp add: d2_def entry_status_def findEntry_def expireEntry_def w)
  have "waiting_ok (waiting plan_of_one_table)" by code_simp
  from waiting_runs_keep_index [OF steps this] have "waiting_ok (waiting d2)" by blast
  with steps st show ?thesis by blast
qed

section \<open>Promotion\<close>

text \<open>
  C5. A promotion of a waiting entry creates a confirmed reservation of the same party and window on a
  table that is free, large enough and in no conflict with another reservation, closes the entry with
  the id of that reservation, and hands out the two notifications. Promoting the entry again, at any
  later time, answers the same reservation and creates none. In every other case nothing is written.
\<close>

theorem promotion_exact:
  assumes "promoteEntry rt entryId newId now dbNow d = (d', out)"
    "findReservation d newId = None" "newId \<noteq> []"
  shows "case out of
      Inr (Some r) \<Rightarrow>
        (waiting d' = waiting d \<and> reservations d' = reservations d \<and> r \<in> set (reservations d)) \<or>
        (\<exists>w t. findEntry d entryId = Some w \<and> w_status w = W_PENDING \<and> now < w_expiresAt w \<and>
           r = promoted_reservation w t newId now \<and> reservations d' = reservations d @ [r] \<and>
           columns_agree (r_state r) (r_status r) \<and> w_partySize w \<le> t_capacity t \<and>
           isTableAvailable d dbNow (input_check (entry_input w) (t_id t)) \<and>
           (\<forall>r' \<in> set (reservations d). \<not> exclusion_conflict r r') \<and>
           findEntry d' entryId = Some (promote_row newId now w) \<and>
           (\<forall>newId' now' dbNow'.
              waiting (fst (promoteEntry rt entryId newId' now' dbNow' d')) = waiting d' \<and>
              reservations (fst (promoteEntry rt entryId newId' now' dbNow' d')) = reservations d' \<and>
              snd (promoteEntry rt entryId newId' now' dbNow' d') = Inr (Some r)))
    | _ \<Rightarrow> d' = d"
  using assms(1)
proof (cases rule: promoteEntry_cases)
  case (replayed w r)
  then show ?thesis
    by (auto simp: scheduleWaitingListPromotionNotification_def findReservation_def dest: find_Some_D)
next
  case (promoted w t)
  define r where "r = promoted_reservation w t newId now"
  have rid: "r_id r = newId" by (simp add: r_def promoted_reservation_def)
  have avail: "isTableAvailable d dbNow (input_check (entry_input w) (t_id t))"
    and cap: "w_partySize w \<le> t_capacity t"
    using allocate_SomeD [OF promoted(4)]
      candidate_in_plan(2) [OF allocate_SomeD [OF promoted(4), THEN conjunct1]]
    by (simp_all add: capacityFilter_def entry_input_def)
  have free: "\<forall>r' \<in> set (reservations d). \<not> exclusion_conflict r r'"
    using promoted(6) by (simp add: insertReservation_ok r_def)
  have e: "findEntry d' entryId = Some (promote_row newId now w)"
    using promoted(1) findEntry_id [OF promoted(1)] unfolding findEntry_def promoted(8)
    by (subst find_upd_where [where key = w_id]) (auto simp: promote_row_def)
  have fr: "findReservation d' newId = Some r"
    using assms(2) rid promoted(7) by (simp add: findReservation_def find_append r_def [symmetric])
  have "promoteEntry rt entryId newId' now' dbNow' d'
      = (scheduleWaitingListPromotionNotification entryId newId d', Inr (Some r))" for newId' now' dbNow'
    using e fr assms(3) rid by (simp add: promoteEntry_def doPromote_def promote_row_def in_tx_def)
  then show ?thesis
    using promoted(1-3,5,7) avail cap free e columns_agree_creation [of CONFIRMED]
    by (auto simp: r_def [symmetric] scheduleWaitingListPromotionNotification_def)
      (auto simp: r_def promoted_reservation_def creationProjection_def)
qed auto

theorem promotion_exact_witness:
  "\<exists>d d' r. promoteEntry utc_runtime ''w1'' ''b9'' 0 0 d = (d', Inr (Some r)) \<and>
     r_tableId r = Some ''t'' \<and> reservations d' = [r] \<and>
     snd (promoteEntry utc_runtime ''w1'' ''b10'' 1 1 d') = Inr (Some r)"
proof -
  obtain d w where run: "join_list utc_runtime ask_join ''w1'' ''tok'' 0 plan_of_one_table = (d, Inr (w, ''tok''))"
    and w: "waiting d = [w]" "reservations d = []"
    by (rule joined_one)
  obtain d' out where pr: "promoteEntry utc_runtime ''w1'' ''b9'' 0 0 d = (d', out)" by fastforce
  have "case promoteEntry utc_runtime ''w1'' ''b9'' 0 0
      (fst (join_list utc_runtime ask_join ''w1'' ''tok'' 0 plan_of_one_table)) of
      (d', Inr (Some r)) \<Rightarrow> reservations d' = [r] \<and> r_tableId r = Some ''t''
    | _ \<Rightarrow> False"
    by code_simp
  then obtain r where r: "out = Inr (Some r)" "reservations d' = [r]" "r_tableId r = Some ''t''"
    using run pr by (auto split: sum.splits option.splits)
  have "findReservation d ''b9'' = None" by (simp add: findReservation_def w)
  from promotion_exact [OF pr this] have "snd (promoteEntry utc_runtime ''w1'' ''b10'' 1 1 d') = Inr (Some r)"
    using r w by auto
  with pr r show ?thesis by blast
qed

section \<open>The size of a waiting list\<close>

text \<open>A run with its clock: every \<open>join\<close> is given a limit of at most \<open>M\<close> entries per slot.\<close>

inductive clocked :: "int \<Rightarrow> instant \<times> db \<Rightarrow> instant \<times> db \<Rightarrow> bool" for M where
  cl_join: "t \<le> now \<Longrightarrow> ja_waitingListMaxEntriesPerSlot a \<le> M \<Longrightarrow>
    join_list rt a newId token now d = (d', out) \<Longrightarrow> clocked M (t, d) (now, d')"
| cl_token: "t \<le> now \<Longrightarrow> cancelByToken rt i token rid now d = (d', out') \<Longrightarrow> clocked M (t, d) (now, d')"
| cl_staff: "t \<le> now \<Longrightarrow> cancelByStaff i rid now d = (d', out') \<Longrightarrow> clocked M (t, d) (now, d')"
| cl_promote: "t \<le> now \<Longrightarrow> promoteEntry rt i newId now dbNow d = (d', out'') \<Longrightarrow> clocked M (t, d) (now, d')"
| cl_expire: "t \<le> now \<Longrightarrow> clocked M (t, d) (now, expireEntry i now d)"
| cl_cleanup: "t \<le> now \<Longrightarrow> cleanupExpired now d = (d', n) \<Longrightarrow> clocked M (t, d) (now, d')"

definition full_at_most :: "int \<Rightarrow> instant \<times> db \<Rightarrow> bool" where
  "full_at_most M s \<longleftrightarrow> (\<forall>rid st. int (pendingCount rid st (fst s) (snd s)) \<le> M)"

lemma count_where_mono: "(\<And>x. x \<in> set xs \<Longrightarrow> p x \<Longrightarrow> q x) \<Longrightarrow> count_where p xs \<le> count_where q xs"
  by (induction xs) (auto simp: le_SucI)

lemma pendingCount_later: "t \<le> t' \<Longrightarrow> pendingCount rid st t' d \<le> pendingCount rid st t d"
  unfolding pendingCount_def by (rule count_where_mono) (auto simp: live_pending_def)

lemma pendingCount_retire:
  "waiting d' = upd_where p f (waiting d) \<Longrightarrow> (\<And>w. p w \<Longrightarrow> w_status (f w) \<noteq> W_PENDING) \<Longrightarrow>
   pendingCount rid st t d' \<le> pendingCount rid st t d"
  unfolding pendingCount_def
proof (simp, induction "waiting d" arbitrary: d d')
  case Nil
  then show ?case by simp
next
  case (Cons w ws)
  have "count_where (live_pending rid st t) (upd_where p f ws) \<le> count_where (live_pending rid st t) ws"
    using Cons(1) [of "d\<lparr>waiting := ws\<rparr>" "d\<lparr>waiting := upd_where p f ws\<rparr>"] Cons(4) by simp
  with Cons(4) show ?case by (auto simp: Cons(2) [symmetric] live_pending_def)
qed

lemma pendingCount_same: "waiting d' = waiting d \<Longrightarrow> pendingCount rid st t d' = pendingCount rid st t d"
  by (simp add: pendingCount_def)

lemma pendingCount_join:
  assumes "join_list rt a newId token now d = (d', out)" "ja_waitingListMaxEntriesPerSlot a \<le> M"
    "int (pendingCount rid st now d) \<le> M"
  shows "int (pendingCount rid st now d') \<le> M"
  using assms(1)
proof (cases rule: join_list_cases)
  case (joined w)
  show ?thesis
  proof (cases "live_pending rid st now w")
    case True
    then have "rid = ja_restaurantId a" "st = ja_slotStart a"
      by (auto simp: joined(2) live_pending_def new_entry_def)
    with joined(3,4) assms(2) show ?thesis by (auto simp: pendingCount_def)
  next
    case False
    with joined(4) assms(3) show ?thesis by (simp add: pendingCount_def)
  qed
qed (use assms in simp)

lemma pendingCount_cancel:
  assumes "cancelByToken rt i token rid now d = (d', out) \<or> cancelByStaff i rid now d = (d', out)"
  shows "pendingCount rid' st t d' \<le> pendingCount rid' st t d"
  using cancel_cases [OF assms]
proof (elim disjE exE conjE)
  fix w
  assume "waiting d' = upd_where (\<lambda>x. w_id x = i) (cancel_row now) (waiting d)"
  then show ?thesis by (rule pendingCount_retire) (simp add: cancel_row_def)
qed simp

lemma pendingCount_promote:
  assumes "promoteEntry rt i newId now dbNow d = (d', out)"
  shows "pendingCount rid st t d' \<le> pendingCount rid st t d"
  using assms
proof (cases rule: promoteEntry_cases)
  case (promoted w tb)
  from promoted(8) show ?thesis by (rule pendingCount_retire) (simp add: promote_row_def)
next
  case (replayed w r)
  then show ?thesis
    by (simp add: pendingCount_def scheduleWaitingListPromotionNotification_def)
qed (use assms in auto)

lemma full_at_most_later:
  assumes "full_at_most M (t, d)" "t \<le> now"
    and "\<And>rid st. pendingCount rid st now d' \<le> pendingCount rid st now d"
  shows "full_at_most M (now, d')"
  unfolding full_at_most_def
proof (intro allI, simp)
  fix rid st
  have "pendingCount rid st now d' \<le> pendingCount rid st t d"
    using assms(3) pendingCount_later [OF assms(2)] by (rule order_trans)
  then show "int (pendingCount rid st now d') \<le> M"
    using assms(1) unfolding full_at_most_def by (metis fst_conv snd_conv of_nat_le_iff order_trans)
qed

lemma clocked_bound: "clocked M s s' \<Longrightarrow> full_at_most M s \<Longrightarrow> full_at_most M s'"
proof (induction rule: clocked.induct)
  case (cl_join t now a rt newId token d d' out)
  have "full_at_most M (now, d)"
    by (rule full_at_most_later [OF cl_join(4,1)]) simp
  then show ?case
    using pendingCount_join [OF cl_join(3,2)] by (simp add: full_at_most_def)
next
  case (cl_token t now rt i token rid d d' out')
  show ?case
    by (rule full_at_most_later [OF cl_token(3,1)]) (rule pendingCount_cancel, rule disjI1, rule cl_token(2))
next
  case (cl_staff t now i rid d d' out')
  show ?case
    by (rule full_at_most_later [OF cl_staff(3,1)]) (rule pendingCount_cancel, rule disjI2, rule cl_staff(2))
next
  case (cl_promote t now rt i newId dbNow d d' out'')
  show ?case
    by (rule full_at_most_later [OF cl_promote(3,1)]) (rule pendingCount_promote [OF cl_promote(2)])
next
  case (cl_expire t now d i)
  show ?case
    by (rule full_at_most_later [OF cl_expire(2,1)],
        rule pendingCount_retire [where f = "\<lambda>w. w\<lparr>w_status := W_EXPIRED\<rparr>"
          and p = "\<lambda>w. w_id w = i \<and> w_expiresAt w \<le> now \<and> w_status w = W_PENDING"])
      (simp_all add: expireEntry_def)
next
  case (cl_cleanup t now d d' n)
  show ?case
    by (rule full_at_most_later [OF cl_cleanup(3,1)],
        rule pendingCount_retire [where f = "\<lambda>w. w\<lparr>w_status := W_EXPIRED\<rparr>"
          and p = "\<lambda>w. w_status w = W_PENDING \<and> w_expiresAt w \<le> now"])
      (use cl_cleanup(2) in \<open>auto simp: cleanupExpired_def Let_def\<close>)
qed

text \<open>
  The configured limit holds: as long as every \<open>join\<close> is given a limit of at most \<open>M\<close>, no slot of
  any restaurant ever has more than \<open>M\<close> live entries, over any run of the service with its clock.
\<close>

lemma waiting_list_bounded:
  assumes "(clocked M)\<^sup>*\<^sup>* s s'" "full_at_most M s"
  shows "full_at_most M s'"
  using assms by (induction rule: rtranclp_induct) (auto intro: clocked_bound)

lemma waiting_list_bounded_witness:
  "\<exists>d. (clocked 3)\<^sup>*\<^sup>* (0, plan_of_one_table) (0, d) \<and> pendingCount ''r'' 7200000 0 d = 1 \<and> full_at_most 3 (0, d)"
proof -
  obtain d w where run: "join_list utc_runtime ask_join ''w1'' ''tok'' 0 plan_of_one_table = (d, Inr (w, ''tok''))"
    by (rule joined_one)
  have step: "(clocked 3)\<^sup>*\<^sup>* (0, plan_of_one_table) (0, d)"
    by (rule r_into_rtranclp [where r = "clocked 3", OF cl_join [OF _ _ run]]) (simp_all add: ask_join_def)
  have "waiting plan_of_one_table = []" by code_simp
  then have "full_at_most 3 (0, plan_of_one_table)" by (simp add: full_at_most_def pendingCount_def)
  from waiting_list_bounded [OF step this] have full: "full_at_most 3 (0, d)" .
  have "pendingCount ''r'' 7200000 0 (fst (join_list utc_runtime ask_join ''w1'' ''tok'' 0 plan_of_one_table)) = 1"
    by code_simp
  with run step full show ?thesis by auto
qed

text \<open>
  The stored position is the number of live entries plus one at the time of joining, so two entries
  that wait together can carry the same position.
\<close>

lemma positions_can_repeat:
  "let j = (\<lambda>i p d. fst (join_list (utc_runtime\<lparr>sha256 := \<lambda>s. s\<rparr>) (ask_join\<lparr>ja_customerPhone := p\<rparr>) i i 0 d));
       d1 = j ''w2'' ''0600000002'' (j ''w1'' ''0600000001'' plan_of_one_table);
       d2 = j ''w3'' ''0600000003'' (fst (cancelByStaff ''w1'' ''r'' 1 d1))
   in map (\<lambda>w. (w_id w, w_position w, w_status w)) (waiting d2)
      = [(''w1'', 1, W_CANCELLED), (''w2'', 2, W_PENDING), (''w3'', 2, W_PENDING)]"
  by code_simp

end
