(* ===== verification/Outbox.thy ===== *)
theory Outbox
  imports Db
begin

text \<open>
  The transactional outbox: \<open>apps/api/src/shared/outbox/outbox.service.ts\<close> (enqueue, claim, dispatch
  marks, lease recovery), \<open>reservation-confirmation.ts\<close>, and the dispatch job of
  \<open>shared/queue/workers/outbox-dispatcher.worker.ts\<close>. The retry of failed BullMQ jobs at the end of
  that job only talks to the queue and is left out.
\<close>

section \<open>Normalising the input\<close>

definition requireText :: "string \<Rightarrow> string \<Rightarrow> nat \<Rightarrow> err + string" where
  "requireText value field maxLength =
    (let normalized = js_trim value in
     if normalized = [] \<or> length normalized > maxLength then Inl (OutboxFieldError field)
     else Inr normalized)"

definition FORBIDDEN_FIELDS :: "string list" where
  "FORBIDDEN_FIELDS =
     [''phone'', ''email'', ''customername'', ''fullname'', ''transcript'', ''messagebody'',
      ''secret'', ''token'']"

definition forbidden_key :: "string \<Rightarrow> bool" where
  "forbidden_key k = list_ex (\<lambda>w. contains w (map lower_char k)) FORBIDDEN_FIELDS"

text \<open>
  The visit of \<open>assertPiiFreePayload\<close>: the first forbidden key, a key being tested before the value
  under it. The keys of an array are its indices, which the pattern never matches.
\<close>

fun first_forbidden :: "json \<Rightarrow> string option"
  and first_forbidden_in :: "(string \<times> json) list \<Rightarrow> string option"
  and first_forbidden_of :: "json list \<Rightarrow> string option"
  where
  "first_forbidden (JObj fs) = first_forbidden_in fs"
| "first_forbidden (JArr vs) = first_forbidden_of vs"
| "first_forbidden v = None"
| "first_forbidden_in [] = None"
| "first_forbidden_in ((k, v) # fs) =
    (if forbidden_key k then Some k
     else case first_forbidden v of Some k' \<Rightarrow> Some k' | None \<Rightarrow> first_forbidden_in fs)"
| "first_forbidden_of [] = None"
| "first_forbidden_of (v # vs) =
    (case first_forbidden v of Some k' \<Rightarrow> Some k' | None \<Rightarrow> first_forbidden_of vs)"

definition assertPiiFreePayload :: "json \<Rightarrow> err + unit" where
  "assertPiiFreePayload payload =
    (case first_forbidden payload of
       Some k \<Rightarrow> Inl (OutboxForbiddenFieldError k) | None \<Rightarrow> Inr ())"

record outbox_input =
  oi_restaurantId :: "id option"
  oi_topic :: string
  oi_aggregateType :: string
  oi_aggregateId :: string
  oi_eventType :: string
  oi_schemaVersion :: "int option"
  oi_payload :: json
  oi_idempotencyKey :: string
  oi_availableAt :: "instant option"

definition normalizeInput :: "outbox_input \<Rightarrow> instant \<Rightarrow> err + outbox_input" where
  "normalizeInput inp now =
    (case assertPiiFreePayload (oi_payload inp) of
       Inl e \<Rightarrow> Inl e
     | Inr _ \<Rightarrow>
    (case requireText (oi_topic inp) ''topic'' 64 of
       Inl e \<Rightarrow> Inl e
     | Inr topic \<Rightarrow>
    (case requireText (oi_aggregateType inp) ''aggregateType'' 64 of
       Inl e \<Rightarrow> Inl e
     | Inr aggregateType \<Rightarrow>
    (case requireText (oi_aggregateId inp) ''aggregateId'' 191 of
       Inl e \<Rightarrow> Inl e
     | Inr aggregateId \<Rightarrow>
    (case requireText (oi_eventType inp) ''eventType'' 128 of
       Inl e \<Rightarrow> Inl e
     | Inr eventType \<Rightarrow>
    (case requireText (oi_idempotencyKey inp) ''idempotencyKey'' 255 of
       Inl e \<Rightarrow> Inl e
     | Inr idempotencyKey \<Rightarrow>
       Inr \<lparr>oi_restaurantId = oi_restaurantId inp, oi_topic = topic,
            oi_aggregateType = aggregateType, oi_aggregateId = aggregateId,
            oi_eventType = eventType, oi_schemaVersion = Some (orElse (oi_schemaVersion inp) 1),
            oi_payload = oi_payload inp, oi_idempotencyKey = idempotencyKey,
            oi_availableAt = Some (orElse (oi_availableAt inp) now)\<rparr>))))))"

definition sameEvent :: "outbox_row \<Rightarrow> outbox_input \<Rightarrow> bool" where
  "sameEvent existing inp \<longleftrightarrow>
     o_restaurantId existing = oi_restaurantId inp \<and>
     o_topic existing = oi_topic inp \<and>
     o_aggregateType existing = oi_aggregateType inp \<and>
     o_aggregateId existing = oi_aggregateId inp \<and>
     o_eventType existing = oi_eventType inp \<and>
     o_schemaVersion existing = orElse (oi_schemaVersion inp) 1 \<and>
     o_payload existing = oi_payload inp"

section \<open>Enqueue\<close>

definition findEvent :: "string \<Rightarrow> db \<Rightarrow> outbox_row option" where
  "findEvent k d = find (\<lambda>o'. o_idempotencyKey o' = k) (outbox d)"

definition new_event :: "runtime \<Rightarrow> id \<Rightarrow> instant \<Rightarrow> outbox_input \<Rightarrow> outbox_row" where
  "new_event rt newId now n =
     \<lparr>o_id = newId, o_restaurantId = oi_restaurantId n, o_topic = oi_topic n,
      o_aggregateType = oi_aggregateType n, o_aggregateId = oi_aggregateId n,
      o_eventType = oi_eventType n, o_schemaVersion = orElse (oi_schemaVersion n) 1,
      o_payload = jsonb rt (oi_payload n), o_idempotencyKey = oi_idempotencyKey n,
      o_status = O_PENDING, o_attempts = 0, o_availableAt = orElse (oi_availableAt n) now,
      o_lockedAt = None, o_dispatchedAt = None, o_lastErrorCode = None, o_createdAt = now\<rparr>"

text \<open>
  \<open>raced\<close> are the rows other writers commit between the lookup and the insert. A unique violation
  inside an interactive transaction aborts it, so the second lookup of the \<open>catch\<close> branch only
  works outside one (\<open>inTransaction = False\<close>, as in \<open>enqueueOnDatabase\<close>).
\<close>

definition enqueue ::
    "runtime \<Rightarrow> bool \<Rightarrow> outbox_row list \<Rightarrow> outbox_input \<Rightarrow> id \<Rightarrow> instant \<Rightarrow> db \<Rightarrow>
     err + db \<times> outbox_row \<times> bool" where
  "enqueue rt inTransaction raced inp newId now d =
    (case normalizeInput inp now of
       Inl e \<Rightarrow> Inl e
     | Inr n \<Rightarrow>
       (case findEvent (oi_idempotencyKey n) d of
          Some existing \<Rightarrow>
            if \<not> sameEvent existing n then Inl (OutboxKeyConflictError (oi_idempotencyKey n))
            else Inr (d, existing, False)
        | None \<Rightarrow>
            let d' = d\<lparr>outbox := outbox d @ raced\<rparr> in
            (case findEvent (oi_idempotencyKey n) d' of
               None \<Rightarrow>
                 let event = new_event rt newId now n
                 in Inr (d'\<lparr>outbox := outbox d' @ [event]\<rparr>, event, True)
             | Some racer \<Rightarrow>
                 if inTransaction then Inl (DbError OTHER_DB_ERROR)
                 else if \<not> sameEvent racer n
                 then Inl (OutboxKeyConflictError (oi_idempotencyKey n))
                 else Inr (d', racer, False))))"

section \<open>Claim, dispatch, release\<close>

definition OUTBOX_LEASE_MS :: int where "OUTBOX_LEASE_MS = 5 * 60 * 1000"
definition MAX_BATCH_SIZE :: int where "MAX_BATCH_SIZE = 100"

definition claimable :: "runtime \<Rightarrow> instant \<Rightarrow> outbox_row \<Rightarrow> bool" where
  "claimable rt now e \<longleftrightarrow>
     o_status e = O_PENDING \<and> o_availableAt e \<le> now \<and> \<not> rowLocked rt (o_id e)"

definition by_created :: "outbox_row \<Rightarrow> outbox_row \<Rightarrow> int" where
  "by_created a b = o_createdAt a - o_createdAt b"

definition boundedLimit :: "int option \<Rightarrow> int" where
  "boundedLimit limit =
     max 1 (min (case limit of None \<Rightarrow> MAX_BATCH_SIZE | Some n \<Rightarrow> n) MAX_BATCH_SIZE)"

text \<open>
  Rows created at the same millisecond come in the order of the table; \<open>limit\<close> is \<open>None\<close> when the
  number is not finite.
\<close>

definition candidates :: "runtime \<Rightarrow> int option \<Rightarrow> instant \<Rightarrow> db \<Rightarrow> outbox_row list" where
  "candidates rt limit now d =
     take (nat (boundedLimit limit)) (js_sort by_created (filter (claimable rt now) (outbox d)))"

definition lease :: "instant \<Rightarrow> outbox_row \<Rightarrow> outbox_row" where
  "lease now e = e\<lparr>o_status := O_DISPATCHING, o_lockedAt := Some now, o_attempts := o_attempts e + 1\<rparr>"

definition claimPending :: "runtime \<Rightarrow> int option \<Rightarrow> instant \<Rightarrow> db \<Rightarrow> db \<times> outbox_row list" where
  "claimPending rt limit now d =
    (let ids = map o_id (candidates rt limit now d);
         d' = d\<lparr>outbox := upd_where (\<lambda>e. o_id e \<in> set ids) (lease now) (outbox d)\<rparr>
     in if ids = [] then (d', [])
        else (d', js_sort by_created (filter (\<lambda>e. o_id e \<in> set ids) (outbox d'))))"

definition dispatching :: "id \<Rightarrow> outbox_row \<Rightarrow> bool" where
  "dispatching eventId e \<longleftrightarrow> o_id e = eventId \<and> o_status e = O_DISPATCHING"

definition markDispatched :: "id \<Rightarrow> instant \<Rightarrow> db \<Rightarrow> db" where
  "markDispatched eventId dispatchedAt d =
     d\<lparr>outbox := upd_where (dispatching eventId)
        (\<lambda>e. e\<lparr>o_status := O_DISPATCHED, o_lockedAt := None, o_dispatchedAt := Some dispatchedAt,
               o_lastErrorCode := None\<rparr>) (outbox d)\<rparr>"

definition releaseForRetry :: "id \<Rightarrow> string \<Rightarrow> instant \<Rightarrow> db \<Rightarrow> err + db" where
  "releaseForRetry eventId errorCode availableAt d =
    (case requireText errorCode ''errorCode'' 128 of
       Inl e \<Rightarrow> Inl e
     | Inr code \<Rightarrow>
         Inr (d\<lparr>outbox := upd_where (dispatching eventId)
                (\<lambda>e. e\<lparr>o_status := O_PENDING, o_availableAt := availableAt, o_lockedAt := None,
                       o_lastErrorCode := Some code\<rparr>) (outbox d)\<rparr>))"

definition lease_expired :: "instant \<Rightarrow> outbox_row \<Rightarrow> bool" where
  "lease_expired now e \<longleftrightarrow>
     o_status e = O_DISPATCHING \<and>
     (case o_lockedAt e of None \<Rightarrow> False | Some t \<Rightarrow> t < now - OUTBOX_LEASE_MS)"

definition recoverExpiredLeases :: "instant \<Rightarrow> db \<Rightarrow> db \<times> nat" where
  "recoverExpiredLeases now d =
     (d\<lparr>outbox := upd_where (lease_expired now)
         (\<lambda>e. e\<lparr>o_status := O_PENDING, o_availableAt := now, o_lockedAt := None,
                o_lastErrorCode := Some ''LEASE_EXPIRED''\<rparr>) (outbox d)\<rparr>,
      count_where (lease_expired now) (outbox d))"

section \<open>The dispatch job\<close>

text \<open>
  \<open>queueAnswer eventId\<close> is what \<open>outboxDelivery.add\<close> does with the event: \<open>None\<close> when it accepts
  the job, the name of the error otherwise. \<open>clock eventId\<close> is the time at which the event is
  handled. The loop returns the database, the events handed to the queue and how many failed; it
  stops on an error that \<open>releaseForRetry\<close> throws out of the \<open>catch\<close> branch.
\<close>

fun dispatch_loop ::
    "(id \<Rightarrow> string option) \<Rightarrow> (id \<Rightarrow> instant) \<Rightarrow> outbox_row list \<Rightarrow> db \<Rightarrow> db \<times> id list \<times> (err + nat)" where
  "dispatch_loop queueAnswer clock [] d = (d, [], Inr 0)"
| "dispatch_loop queueAnswer clock (e # es) d =
    (case queueAnswer (o_id e) of
       None \<Rightarrow>
         let (d', delivered, res) =
           dispatch_loop queueAnswer clock es (markDispatched (o_id e) (clock (o_id e)) d)
         in (d', o_id e # delivered, res)
     | Some name \<Rightarrow>
         (case releaseForRetry (o_id e) name (clock (o_id e) + 30000) d of
            Inl err \<Rightarrow> (d, [], Inl err)
          | Inr d1 \<Rightarrow>
              let (d', delivered, res) = dispatch_loop queueAnswer clock es d1
              in (d', delivered, map_sum id Suc res)))"

definition processOutboxDispatchJob ::
    "runtime \<Rightarrow> (id \<Rightarrow> string option) \<Rightarrow> (id \<Rightarrow> instant) \<Rightarrow> int option \<Rightarrow> instant \<Rightarrow> instant \<Rightarrow> db \<Rightarrow>
     db \<times> id list \<times> (err + nat)" where
  "processOutboxDispatchJob rt queueAnswer clock limit recoverAt claimAt d =
    (let (d1, _) = recoverExpiredLeases recoverAt d;
         (d2, events) = claimPending rt (case limit of None \<Rightarrow> Some MAX_BATCH_SIZE | Some n \<Rightarrow> Some n) claimAt d1
     in dispatch_loop queueAnswer clock events d2)"

section \<open>Reservation confirmations\<close>

definition confirmation_input :: "string \<Rightarrow> string \<Rightarrow> string \<Rightarrow> reservation_row \<Rightarrow> outbox_input" where
  "confirmation_input topic eventType keyPrefix r =
     \<lparr>oi_restaurantId = Some (r_restaurantId r), oi_topic = topic, oi_aggregateType = ''reservation'',
      oi_aggregateId = r_id r, oi_eventType = eventType, oi_schemaVersion = None,
      oi_payload = JObj [(''reservationId'', JStr (r_id r))],
      oi_idempotencyKey = keyPrefix @ r_id r, oi_availableAt = None\<rparr>"

definition enqueueReservationConfirmation ::
    "runtime \<Rightarrow> reservation_row \<Rightarrow> id \<times> id \<Rightarrow> instant \<Rightarrow> db \<Rightarrow> err + db \<times> bool" where
  "enqueueReservationConfirmation rt r newIds now d =
    (let confirmationChannel = (r_channel r = WEB \<or> r_channel r = ADMIN);
         emailed =
           (if confirmationChannel \<and> r_state r = CONFIRMED \<and> truthy (r_customerEmail r) \<and> \<not> r_isTest r
            then (case enqueue rt True []
                    (confirmation_input ''reservation-confirmation-email''
                       ''reservation.confirmation_email.requested''
                       ''reservation-confirmation-email:'' r) (fst newIds) now d of
                    Inl e \<Rightarrow> Inl e | Inr (d', _) \<Rightarrow> Inr d')
            else Inr d)
     in case emailed of
          Inl e \<Rightarrow> Inl e
        | Inr d1 \<Rightarrow>
            if \<not> confirmationChannel \<or> r_state r \<noteq> CONFIRMED \<or> \<not> truthy (r_customerPhone r)
            then Inr (d1, False)
            else if (case findRestaurant d1 (r_restaurantId r) of
                       None \<Rightarrow> True | Some x \<Rightarrow> \<not> rs_smsConfirmEnabled x)
            then Inr (d1, False)
            else (case enqueue rt True []
                    (confirmation_input ''reservation-confirmation''
                       ''reservation.confirmation.requested'' ''reservation-confirmation:'' r)
                    (snd newIds) now d1 of
                    Inl e \<Rightarrow> Inl e | Inr (d2, _) \<Rightarrow> Inr (d2, True)))"

section \<open>What the operations do to the table\<close>

abbreviation outbox_keys_ok :: "db \<Rightarrow> bool" where
  "outbox_keys_ok d \<equiv> distinct (map o_idempotencyKey (outbox d))"

abbreviation outbox_ids_ok :: "db \<Rightarrow> bool" where
  "outbox_ids_ok d \<equiv> distinct (map o_id (outbox d))"

lemma normalizeInput_keeps:
  assumes "normalizeInput inp now = Inr n"
  shows "oi_payload n = oi_payload inp" "oi_restaurantId n = oi_restaurantId inp"
    "oi_idempotencyKey n = js_trim (oi_idempotencyKey inp)" "oi_topic n = js_trim (oi_topic inp)"
    "oi_schemaVersion n = Some (orElse (oi_schemaVersion inp) 1)"
    "first_forbidden (oi_payload inp) = None"
  using assms
  by (auto simp: normalizeInput_def assertPiiFreePayload_def requireText_def Let_def
      split: sum.splits if_splits option.splits)

lemma normalizeInput_clock:
  "normalizeInput inp now = Inr n \<Longrightarrow> \<exists>n'. normalizeInput inp now' = Inr n' \<and>
     oi_idempotencyKey n' = oi_idempotencyKey n \<and> (\<forall>e. sameEvent e n' = sameEvent e n)"
  by (auto simp: normalizeInput_def sameEvent_def split: sum.splits)

lemma find_key_appended:
  "find (\<lambda>x. key x = k) xs = None \<Longrightarrow> key y = k \<Longrightarrow>
   find (\<lambda>x. key x = k) (xs @ [y]) = Some y"
  by (simp add: find_append)

text \<open>The event that \<open>enqueue\<close> answers is in the table, matches the input, and is found by its key.\<close>

lemma enqueue_result:
  assumes "enqueue rt tx raced inp newId now d = Inr (d', e, created)"
    and "jsonb rt (oi_payload inp) = oi_payload inp"
  obtains n where "normalizeInput inp now = Inr n" "findEvent (oi_idempotencyKey n) d' = Some e"
    "sameEvent e n" "oi_payload n = oi_payload inp"
proof -
  obtain n where n: "normalizeInput inp now = Inr n"
    using assms(1) by (auto simp: enqueue_def split: sum.splits)
  have pay: "oi_payload n = oi_payload inp" by (rule normalizeInput_keeps [OF n])
  have new: "sameEvent (new_event rt newId now n) n"
    using assms(2) pay by (simp add: sameEvent_def new_event_def)
  have key: "o_idempotencyKey (new_event rt newId now n) = oi_idempotencyKey n"
    by (simp add: new_event_def)
  have "findEvent (oi_idempotencyKey n) d' = Some e \<and> sameEvent e n"
    using assms(1) n new key
    by (auto simp: enqueue_def Let_def findEvent_def find_append
        split: option.splits if_splits)
  with n pay that show thesis by blast
qed

lemma enqueue_appends:
  assumes "enqueue rt tx raced inp newId now d = Inr (d', e, created)"
  shows "\<exists>ext. d' = d\<lparr>outbox := outbox d @ ext\<rparr>"
    and "set (outbox d') \<subseteq> insert e (set (outbox d) \<union> set raced)"
  using assms
  by (auto simp: enqueue_def Let_def split: sum.splits option.splits if_splits
      intro: exI [of _ "[]"])

text \<open>The errors of an enqueue are its own.\<close>

definition outbox_error :: "err \<Rightarrow> bool" where
  "outbox_error e \<longleftrightarrow>
    (case e of OutboxFieldError _ \<Rightarrow> True | OutboxForbiddenFieldError _ \<Rightarrow> True
     | OutboxKeyConflictError _ \<Rightarrow> True | DbError x \<Rightarrow> x = OTHER_DB_ERROR | _ \<Rightarrow> False)"

lemma requireText_error: "requireText v f n = Inl e \<Longrightarrow> outbox_error e"
  by (auto simp: requireText_def outbox_error_def Let_def split: if_splits)

lemma normalizeInput_error: "normalizeInput inp now = Inl e \<Longrightarrow> outbox_error e"
  unfolding normalizeInput_def
  by (auto split: sum.splits dest: requireText_error)
    (auto simp: assertPiiFreePayload_def outbox_error_def split: option.splits)

lemma enqueue_error: "enqueue rt tx raced inp newId now d = Inl e \<Longrightarrow> outbox_error e"
  unfolding enqueue_def Let_def
  by (auto split: sum.splits option.splits if_splits dest: normalizeInput_error)
    (auto simp: outbox_error_def)

lemma confirmation_error: "enqueueReservationConfirmation rt r newIds now d = Inl e \<Longrightarrow> outbox_error e"
  unfolding enqueueReservationConfirmation_def Let_def
  by (auto split: sum.splits if_splits option.splits dest: enqueue_error)

text \<open>Writers of the outbox inside a transaction only append events.\<close>

definition appends_events :: "db \<Rightarrow> db \<Rightarrow> bool" where
  "appends_events d d' \<longleftrightarrow> (\<exists>ext. d' = d\<lparr>outbox := outbox d @ ext\<rparr>)"

lemma appends_events_refl [simp, intro]: "appends_events d d"
  unfolding appends_events_def by (rule exI [of _ "[]"]) simp

lemma appends_events_trans:
  assumes "appends_events d d1" "appends_events d1 d2"
  shows "appends_events d d2"
proof -
  obtain x y where "d1 = d\<lparr>outbox := outbox d @ x\<rparr>" "d2 = d1\<lparr>outbox := outbox d1 @ y\<rparr>"
    using assms unfolding appends_events_def by blast
  then have "d2 = d\<lparr>outbox := outbox d @ (x @ y)\<rparr>" by simp
  then show ?thesis unfolding appends_events_def by blast
qed

lemma appends_events_frame:
  assumes "appends_events d d'"
  shows "reservations d' = reservations d" "holds d' = holds d" "audit d' = audit d"
    "waiting d' = waiting d" "idem d' = idem d" "jobs d' = jobs d" "tables d' = tables d"
    "availVersion d' = availVersion d" "restaurants d' = restaurants d" "settings d' = settings d"
    "floorPlans d' = floorPlans d"
  using assms by (auto simp: appends_events_def)

lemma enqueue_frame:
  "enqueue rt tx raced inp newId now d = Inr (d', e, created) \<Longrightarrow> appends_events d d'"
  unfolding appends_events_def by (rule enqueue_appends(1))

lemma confirmation_frame:
  assumes "enqueueReservationConfirmation rt r newIds now d = Inr (d', sent)"
  shows "appends_events d d'"
  using assms unfolding enqueueReservationConfirmation_def Let_def
  by (auto split: sum.splits if_splits option.splits dest!: enqueue_frame intro: appends_events_trans)

text \<open>The settlement of one leased event by the dispatch loop.\<close>

definition settle :: "(id \<Rightarrow> string option) \<Rightarrow> (id \<Rightarrow> instant) \<Rightarrow> outbox_row \<Rightarrow> outbox_row" where
  "settle queueAnswer clock e =
    (case queueAnswer (o_id e) of
       None \<Rightarrow> e\<lparr>o_status := O_DISPATCHED, o_lockedAt := None,
                 o_dispatchedAt := Some (clock (o_id e)), o_lastErrorCode := None\<rparr>
     | Some name \<Rightarrow> e\<lparr>o_status := O_PENDING, o_availableAt := clock (o_id e) + 30000,
                 o_lockedAt := None, o_lastErrorCode := Some (js_trim name)\<rparr>)"

lemma settle_simps [simp]:
  "o_id (settle qa clock e) = o_id e" "o_status (settle qa clock e) \<noteq> O_DISPATCHING"
  "o_attempts (settle qa clock e) = o_attempts e"
  by (auto simp: settle_def split: option.split)

lemma dispatch_step:
  "qa i = None \<Longrightarrow> outbox (markDispatched i (clock i) d) = upd_where (dispatching i) (settle qa clock) (outbox d)"
  "qa i = Some name \<Longrightarrow> releaseForRetry i name (clock i + 30000) d = Inr d' \<Longrightarrow>
   outbox d' = upd_where (dispatching i) (settle qa clock) (outbox d)"
  by (auto simp: markDispatched_def releaseForRetry_def requireText_def settle_def dispatching_def
      upd_where_def Let_def split: sum.splits if_splits)

lemma upd_where_twice:
  assumes "\<And>e. p e \<Longrightarrow> \<not> q (f e)"
  shows "upd_where q f (upd_where p f rows) = upd_where (\<lambda>e. p e \<or> q e) f rows"
  using assms by (induction rows) auto

lemma dispatch_loop_settles:
  "dispatch_loop qa clock es d = (d', delivered, Inr n) \<Longrightarrow>
     outbox d' = upd_where (\<lambda>e. o_id e \<in> o_id ` set es \<and> o_status e = O_DISPATCHING)
                   (settle qa clock) (outbox d) \<and>
     delivered = filter (\<lambda>i. qa i = None) (map o_id es) \<and>
     n = length (filter (\<lambda>i. qa i \<noteq> None) (map o_id es))"
proof (induction es arbitrary: d d' delivered n)
  case Nil
  then show ?case by (simp add: upd_where_def)
next
  case (Cons e es)
  have step: "\<exists>d1 dl k. dispatch_loop qa clock es d1 = (d', dl, Inr k) \<and>
      outbox d1 = upd_where (dispatching (o_id e)) (settle qa clock) (outbox d) \<and>
      delivered = (if qa (o_id e) = None then o_id e # dl else dl) \<and>
      n = (if qa (o_id e) = None then k else Suc k)"
  proof (cases "qa (o_id e)")
    case None
    with Cons.prems dispatch_step(1) [of qa "o_id e" clock d, OF None] show ?thesis
      by (force split: prod.splits)
  next
    case (Some name)
    obtain d1 where d1: "releaseForRetry (o_id e) name (clock (o_id e) + 30000) d = Inr d1"
      using Cons.prems Some by (auto split: sum.splits)
    obtain dl res where rest: "dispatch_loop qa clock es d1 = (d', dl, res)"
      "delivered = dl" "Inr n = map_sum id Suc res"
      using Cons.prems Some d1 by (auto split: prod.splits)
    then obtain k where "res = Inr k" "n = Suc k" by (cases res) auto
    with rest Some dispatch_step(2) [of qa "o_id e" name clock, OF Some d1] show ?thesis by auto
  qed
  then obtain d1 dl k where
    rec: "dispatch_loop qa clock es d1 = (d', dl, Inr k)"
    and d1: "outbox d1 = upd_where (dispatching (o_id e)) (settle qa clock) (outbox d)"
    and out: "delivered = (if qa (o_id e) = None then o_id e # dl else dl)"
      "n = (if qa (o_id e) = None then k else Suc k)"
    by blast
  have "outbox d' = upd_where (\<lambda>x. dispatching (o_id e) x \<or>
      (o_id x \<in> o_id ` set es \<and> o_status x = O_DISPATCHING)) (settle qa clock) (outbox d)"
    using Cons.IH [OF rec] d1 by (simp add: upd_where_twice)
  moreover have "(\<lambda>x. dispatching (o_id e) x \<or> (o_id x \<in> o_id ` set es \<and> o_status x = O_DISPATCHING))
      = (\<lambda>x. o_id x \<in> o_id ` set (e # es) \<and> o_status x = O_DISPATCHING)"
    by (auto simp: dispatching_def fun_eq_iff)
  ultimately show ?case using Cons.IH [OF rec] out by simp
qed

section \<open>The life of an event\<close>

fun outbox_edge :: "outbox_status \<Rightarrow> outbox_status \<Rightarrow> bool" where
  "outbox_edge O_PENDING t = (t = O_DISPATCHING)"
| "outbox_edge O_DISPATCHING t = (t = O_DISPATCHED \<or> t = O_PENDING)"
| "outbox_edge O_DISPATCHED t = False"

definition outbox_status_of :: "db \<Rightarrow> id \<Rightarrow> outbox_status option" where
  "outbox_status_of d i = map_option o_status (find (\<lambda>e. o_id e = i) (outbox d))"

text \<open>Every write of the service to the table, by any process.\<close>

inductive outbox_step :: "db \<Rightarrow> db \<Rightarrow> bool" where
  step_enqueue: "enqueue rt tx raced inp newId now d = Inr (d', e, created) \<Longrightarrow> outbox_step d d'"
| step_claim: "claimPending rt limit now d = (d', es) \<Longrightarrow> outbox_step d d'"
| step_dispatched: "outbox_step d (markDispatched i now d)"
| step_release: "releaseForRetry i code retryAt d = Inr d' \<Longrightarrow> outbox_step d d'"
| step_recover: "recoverExpiredLeases now d = (d', n) \<Longrightarrow> outbox_step d d'"

lemma claimPending_outbox:
  "claimPending rt limit now d = (d', es) \<Longrightarrow>
   outbox d' = upd_where (\<lambda>e. o_id e \<in> o_id ` set (candidates rt limit now d)) (lease now) (outbox d)"
  by (auto simp: claimPending_def Let_def split: if_splits)

lemma candidates_claimable:
  "e \<in> set (candidates rt limit now d) \<Longrightarrow> e \<in> set (outbox d) \<and> claimable rt now e"
  by (auto simp: candidates_def dest!: in_set_takeD)

text \<open>
  A step keeps the row of every event that is found, up to one move along an edge. Identifiers are
  the primary key, so a claimed identifier denotes a claimable row.
\<close>

lemma status_upd_where:
  assumes "find (\<lambda>e. o_id e = i) (outbox d) = Some e0"
    and "outbox d' = upd_where p f (outbox d)"
    and "\<And>e. p e \<Longrightarrow> o_id (f e) = o_id e"
    and "p e0 \<Longrightarrow> outbox_edge (o_status e0) (o_status (f e0))"
  shows "\<exists>s'. outbox_status_of d' i = Some s' \<and> outbox_edge\<^sup>*\<^sup>* (o_status e0) s'"
proof -
  have "find (\<lambda>e. o_id e = i) (outbox d') = Some (if p e0 then f e0 else e0)"
    using assms(1) by (simp add: assms(2) find_upd_where [where key = o_id, OF assms(3)])
  then show ?thesis using assms(4) by (auto simp: outbox_status_of_def)
qed

lemma sorted_take_least:
  "sorted (map k xs) \<Longrightarrow> x \<in> set (take n xs) \<Longrightarrow> y \<in> set xs \<Longrightarrow> y \<notin> set (take n xs) \<Longrightarrow> k x \<le> k y"
proof (induction xs arbitrary: n)
  case (Cons a xs)
  then show ?case by (cases n) auto
qed simp

lemma candidates_oldest:
  assumes "e \<in> set (candidates rt limit now d)" "e' \<in> set (outbox d)" "claimable rt now e'"
    "e' \<notin> set (candidates rt limit now d)"
  shows "o_createdAt e \<le> o_createdAt e'"
proof -
  have "refines_key by_created o_createdAt" by (auto simp: refines_key_def by_created_def)
  then show ?thesis
    using assms unfolding candidates_def
    by (intro sorted_take_least [OF sorted_js_sort]) auto
qed

definition outbox_write :: "db \<Rightarrow> db \<Rightarrow> bool" where
  "outbox_write d d' \<longleftrightarrow> outbox_ids_ok d \<and> outbox_step d d'"

lemma outbox_write_edge:
  assumes "outbox_write d d'" "outbox_status_of d i = Some s"
  shows "\<exists>s'. outbox_status_of d' i = Some s' \<and> outbox_edge\<^sup>*\<^sup>* s s'"
proof -
  obtain e0 where e0: "find (\<lambda>e. o_id e = i) (outbox d) = Some e0" "s = o_status e0"
    using assms(2) by (auto simp: outbox_status_of_def)
  have uniq: "o_id e = o_id e0 \<Longrightarrow> e = e0" if "e \<in> set (outbox d)" for e
    using assms(1) that find_Some_D [OF e0(1)] by (auto simp: outbox_write_def distinct_map dest: inj_onD)
  from assms(1) have "outbox_step d d'" by (simp add: outbox_write_def)
  then show ?thesis
  proof cases
    case (step_enqueue rt tx raced inp newId now e created)
    then obtain ext where "d' = d\<lparr>outbox := outbox d @ ext\<rparr>" using enqueue_appends by blast
    then show ?thesis using e0 by (auto simp: outbox_status_of_def find_append)
  next
    case (step_claim rt limit now es)
    show ?thesis unfolding e0(2)
      by (rule status_upd_where [OF e0(1) claimPending_outbox [OF step_claim]])
        (use candidates_claimable uniq in \<open>fastforce simp: lease_def claimable_def\<close>)+
  next
    case (step_dispatched j now)
    show ?thesis unfolding e0(2)
      by (rule status_upd_where [OF e0(1), where p = "dispatching j"])
        (auto simp: step_dispatched markDispatched_def dispatching_def)
  next
    case (step_release j code retryAt)
    then obtain c where "outbox d' = upd_where (dispatching j)
        (\<lambda>e. e\<lparr>o_status := O_PENDING, o_availableAt := retryAt, o_lockedAt := None,
               o_lastErrorCode := Some c\<rparr>) (outbox d)"
      by (auto simp: releaseForRetry_def split: sum.splits)
    then show ?thesis unfolding e0(2)
      by (rule status_upd_where [OF e0(1)]) (auto simp: dispatching_def)
  next
    case (step_recover now n)
    have "outbox d' = upd_where (lease_expired now)
        (\<lambda>e. e\<lparr>o_status := O_PENDING, o_availableAt := now, o_lockedAt := None,
               o_lastErrorCode := Some ''LEASE_EXPIRED''\<rparr>) (outbox d)"
      using step_recover by (auto simp: recoverExpiredLeases_def)
    then show ?thesis unfolding e0(2)
      by (rule status_upd_where [OF e0(1)]) (auto simp: lease_expired_def)
  qed
qed

interpretation outbox_machine: status_machine outbox_edge outbox_status_of outbox_write
  by unfold_locales (rule outbox_write_edge)

section \<open>Properties\<close>

text \<open>
  Idempotent publication. After a successful \<open>enqueue\<close>, the same input (whatever the later time
  and the identifier proposed) answers the same event and leaves the database as it is, provided the
  payload comes back from the \<open>jsonb\<close> column as it was written.
\<close>

lemma outbox_enqueue_idempotent:
  assumes "enqueue rt tx raced inp newId now d = Inr (d', e, created)"
    and "jsonb rt (oi_payload inp) = oi_payload inp"
  shows "enqueue rt tx' raced' inp newId' now' d' = Inr (d', e, False)"
proof -
  obtain n where n: "normalizeInput inp now = Inr n"
    "findEvent (oi_idempotencyKey n) d' = Some e" "sameEvent e n"
    using enqueue_result [OF assms] by blast
  obtain n' where n': "normalizeInput inp now' = Inr n'"
    "oi_idempotencyKey n' = oi_idempotencyKey n" "sameEvent e n' = sameEvent e n"
    using normalizeInput_clock [OF n(1), of now'] by blast
  show ?thesis using n n' by (simp add: enqueue_def)
qed

definition booking_event :: outbox_input where
  "booking_event = \<lparr>oi_restaurantId = Some ''r'', oi_topic = '' reservation'',
     oi_aggregateType = ''reservation'', oi_aggregateId = ''7'', oi_eventType = ''confirmed'',
     oi_schemaVersion = None, oi_payload = JObj [(''reservationId'', JStr ''7'')],
     oi_idempotencyKey = ''k:7'', oi_availableAt = None\<rparr>"

lemma enqueue_booking_event:
  "case enqueue utc_runtime True [] booking_event ''e1'' 5 empty_db of
     Inl _ \<Rightarrow> False
   | Inr (d', e, created) \<Rightarrow> created \<and> o_topic e = ''reservation'' \<and> length (outbox d') = 1"
  by code_simp

lemma outbox_enqueue_idempotent_witness:
  "\<exists>d' e. enqueue utc_runtime True [] booking_event ''e1'' 5 empty_db = Inr (d', e, True) \<and>
     o_topic e = ''reservation'' \<and> length (outbox d') = 1 \<and>
     enqueue utc_runtime False [] booking_event ''e2'' 9 d' = Inr (d', e, False)"
proof -
  obtain d' e where first: "enqueue utc_runtime True [] booking_event ''e1'' 5 empty_db = Inr (d', e, True)"
    "o_topic e = ''reservation''" "length (outbox d') = 1"
    using enqueue_booking_event by (auto split: sum.splits)
  then show ?thesis
    using outbox_enqueue_idempotent [OF first(1)] by (auto simp: utc_runtime_def)
qed

text \<open>
  No event is lost in a claim. After \<open>claimPending\<close> at most a hundred rows (and at least one, if
  any is due and free) are leased, every other row is as before, and each leased row was due,
  unlocked and pending, now counts one more attempt, and is not younger than a due row left behind.
\<close>

lemma outbox_claim_oldest_first:
  assumes "outbox_ids_ok d" "claimPending rt limit now d = (d', es)"
  shows "outbox d' = upd_where (\<lambda>e. e \<in> set (candidates rt limit now d)) (lease now) (outbox d)
    \<and> set es = lease now ` set (candidates rt limit now d)
    \<and> length (candidates rt limit now d) \<le> 100
    \<and> (candidates rt limit now d = [] \<longleftrightarrow> \<not> list_ex (claimable rt now) (outbox d))
    \<and> (\<forall>e \<in> set (candidates rt limit now d). claimable rt now e
        \<and> (\<forall>e' \<in> set (outbox d). claimable rt now e' \<and> e' \<notin> set (candidates rt limit now d)
              \<longrightarrow> o_createdAt e \<le> o_createdAt e'))"
proof (intro conjI)
  let ?c = "candidates rt limit now d"
  have uniq: "o_id e \<in> o_id ` set ?c \<longleftrightarrow> e \<in> set ?c" if "e \<in> set (outbox d)" for e
    using assms(1) that candidates_claimable by (fastforce simp: distinct_map dest: inj_onD)
  have rows: "outbox d' = upd_where (\<lambda>e. o_id e \<in> o_id ` set ?c) (lease now) (outbox d)"
    by (rule claimPending_outbox [OF assms(2)])
  then show "outbox d' = upd_where (\<lambda>e. e \<in> set ?c) (lease now) (outbox d)"
    unfolding upd_where_def using uniq by simp
  then have leased: "set (filter (\<lambda>e. o_id e \<in> o_id ` set ?c) (outbox d')) = lease now ` set ?c"
    using uniq candidates_claimable by (auto simp: set_upd_where lease_def image_iff)
  show "set es = lease now ` set ?c"
    using assms(2) leased by (auto simp: claimPending_def Let_def split: if_splits)
  have bound: "1 \<le> boundedLimit limit" "boundedLimit limit \<le> 100"
    by (auto simp: boundedLimit_def MAX_BATCH_SIZE_def)
  show "length ?c \<le> 100" using bound by (auto simp: candidates_def)
  have "?c = [] \<longleftrightarrow> js_sort by_created (filter (claimable rt now) (outbox d)) = []"
    using bound by (simp add: candidates_def)
  also have "\<dots> \<longleftrightarrow> filter (claimable rt now) (outbox d) = []"
    by (metis length_0_conv length_js_sort)
  finally show "?c = [] \<longleftrightarrow> \<not> list_ex (claimable rt now) (outbox d)"
    by (auto simp: filter_empty_conv list_ex_iff)
  show "\<forall>e \<in> set ?c. claimable rt now e
      \<and> (\<forall>e' \<in> set (outbox d). claimable rt now e' \<and> e' \<notin> set ?c \<longrightarrow> o_createdAt e \<le> o_createdAt e')"
    using candidates_claimable candidates_oldest by blast
qed

lemma outbox_claim_oldest_first_witness:
  "\<exists>d d' es. outbox_ids_ok d \<and> claimPending utc_runtime None 9 d = (d', es) \<and> length es = 1 \<and>
     set es = lease 9 ` set (candidates utc_runtime None 9 d)"
proof -
  let ?d = "empty_db\<lparr>outbox := [new_event utc_runtime ''e1'' 5 booking_event]\<rparr>"
  have ids: "outbox_ids_ok ?d" by simp
  obtain d' es where c: "claimPending utc_runtime None 9 ?d = (d', es)" by fastforce
  moreover have "length (snd (claimPending utc_runtime None 9 ?d)) = 1" by code_simp
  ultimately show ?thesis using outbox_claim_oldest_first [OF ids c] ids by auto
qed

text \<open>
  The dispatch job settles what it leases: when it runs to its end, every event it claimed is
  either handed to the queue and \<open>DISPATCHED\<close>, or \<open>PENDING\<close> again for thirty seconds later with the
  queue's error; exactly the accepted events were handed over, and the failures are counted.
\<close>

lemma outbox_dispatch_settles:
  assumes "processOutboxDispatchJob rt qa clock limit recoverAt claimAt d = (d', delivered, Inr n)"
    and "claimPending rt (Some (orElse limit MAX_BATCH_SIZE)) claimAt
           (fst (recoverExpiredLeases recoverAt d)) = (d1, batch)"
  shows "outbox d' = upd_where (\<lambda>e. o_id e \<in> o_id ` set batch \<and> o_status e = O_DISPATCHING)
           (settle qa clock) (outbox d1)
    \<and> delivered = filter (\<lambda>i. qa i = None) (map o_id batch)
    \<and> n = length (filter (\<lambda>i. qa i \<noteq> None) (map o_id batch))
    \<and> \<not> list_ex (\<lambda>e. o_id e \<in> o_id ` set batch \<and> o_status e = O_DISPATCHING) (outbox d')"
proof -
  have run: "dispatch_loop qa clock batch d1 = (d', delivered, Inr n)"
    using assms by (cases limit)
      (auto simp: processOutboxDispatchJob_def split: prod.splits)
  show ?thesis
    using dispatch_loop_settles [OF run] by (auto simp: list_ex_iff set_upd_where)
qed

lemma outbox_dispatch_settles_witness:
  "\<exists>d d1 d' delivered batch.
     processOutboxDispatchJob utc_runtime (\<lambda>_. None) (\<lambda>_. 10) None 8 9 d = (d', delivered, Inr 0) \<and>
     batch \<noteq> [] \<and> delivered = map o_id batch \<and>
     claimPending utc_runtime (Some (orElse None MAX_BATCH_SIZE)) 9
       (fst (recoverExpiredLeases 8 d)) = (d1, batch)"
proof -
  define d where "d = empty_db\<lparr>outbox := [new_event utc_runtime ''e1'' 5 booking_event]\<rparr>"
  obtain d' delivered res where job:
      "processOutboxDispatchJob utc_runtime (\<lambda>_. None) (\<lambda>_. 10) None 8 9 d = (d', delivered, res)"
    by (metis prod.collapse)
  obtain d1 batch where claim:
      "claimPending utc_runtime (Some (orElse None MAX_BATCH_SIZE)) 9 (fst (recoverExpiredLeases 8 d)) = (d1, batch)"
    by fastforce
  have "snd (snd (processOutboxDispatchJob utc_runtime (\<lambda>_. None) (\<lambda>_. 10) None 8 9 d)) = Inr 0"
    unfolding d_def by code_simp
  then have res: "res = Inr 0" using job by simp
  have "snd (claimPending utc_runtime (Some (orElse None MAX_BATCH_SIZE)) 9 (fst (recoverExpiredLeases 8 d))) \<noteq> []"
    unfolding d_def by code_simp
  then have "batch \<noteq> []" using claim by simp
  moreover have "delivered = map o_id batch"
    using outbox_dispatch_settles [OF job [unfolded res] claim] by simp
  ultimately show ?thesis using job claim res by blast
qed

text \<open>
  A dispatched event stays dispatched: whatever sequence of writes the service makes, it is never
  leased, released or recovered again.
\<close>

lemma outbox_dispatched_is_final:
  assumes "outbox_write\<^sup>*\<^sup>* d d'" "outbox_status_of d i = Some O_DISPATCHED"
  shows "outbox_status_of d' i = Some O_DISPATCHED"
  by (rule outbox_machine.terminal_absorbing [OF assms]) simp

lemma outbox_dispatched_is_final_witness:
  "\<exists>d d'. outbox_write d d' \<and> d \<noteq> d' \<and> outbox_status_of d ''e1'' = Some O_DISPATCHED \<and>
     outbox_status_of d' ''e1'' = Some O_DISPATCHED"
proof -
  define d where "d = empty_db\<lparr>outbox :=
    [(new_event utc_runtime ''e1'' 5 booking_event)\<lparr>o_status := O_DISPATCHED\<rparr>,
     (new_event utc_runtime ''e2'' 6 booking_event)\<lparr>o_status := O_DISPATCHING\<rparr>]\<rparr>"
  define d' where "d' = markDispatched ''e2'' 7 d"
  have w: "outbox_write d d'"
    by (simp add: outbox_write_def d_def d'_def new_event_def step_dispatched)
  have e1: "outbox_status_of d ''e1'' = Some O_DISPATCHED"
    by (simp add: outbox_status_of_def new_event_def d_def)
  have "map o_status (outbox d') \<noteq> map o_status (outbox d)" unfolding d_def d'_def by code_simp
  then have "d \<noteq> d'" by metis
  moreover have "outbox_write\<^sup>*\<^sup>* d d'" using w by blast
  ultimately show ?thesis using outbox_dispatched_is_final [of d d' "''e1''"] w e1 by blast
qed

end
