(* ===== verification/Lifecycle.thy ===== *)
theory Lifecycle
  imports Table_Allocation Outbox
begin

text \<open>
  \<open>ReservationLifecycleService\<close> of \<open>modules/reservations/reservation-lifecycle.service.ts\<close>: the one
  writer of state transitions. The row is read inside the transaction (the snapshot of the code only
  serves test doubles). \<open>additionalData\<close> is a function on the row, absent when the object has no key
  left; the metadata of the audit rows and the metrics are not modelled.
\<close>

section \<open>The transition\<close>

record lifecycle_args =
  la_reservationId :: id
  la_restaurantId :: id
  la_toState :: reservation_state
  la_actor :: string
  la_changedFields :: "string list"
  la_auditEvent :: "string option"
  la_additionalData :: "(reservation_row \<Rightarrow> reservation_row) option"
  la_allowAlreadyInTarget :: bool
  la_onlyIfFromState :: "reservation_state option"
  la_auditConsumedHoldRelease :: bool

record lifecycle_result =
  lr_reservation :: reservation_row
  lr_previous :: reservation_row
  lr_fromState :: reservation_state
  lr_toState :: reservation_state
  lr_capacity :: capacity_effect
  lr_mutated :: bool

definition eventForTransition :: "reservation_state \<Rightarrow> string" where
  "eventForTransition toState =
    (case toState of
       SEATED \<Rightarrow> ''reservation_seated''
     | HONORED \<Rightarrow> ''reservation_honored''
     | NO_SHOW \<Rightarrow> ''reservation_no_show''
     | CANCELLED \<Rightarrow> ''reservation_cancelled''
     | FAILED \<Rightarrow> ''reservation_failed''
     | EXPIRED \<Rightarrow> ''hold_expired''
     | _ \<Rightarrow> ''state_transition'')"

definition findTenantReservation :: "db \<Rightarrow> id \<Rightarrow> id \<Rightarrow> reservation_row option" where
  "findTenantReservation d rid restaurantId =
     find (\<lambda>r. r_id r = rid \<and> r_restaurantId r = restaurantId) (reservations d)"

definition unmutated :: "lifecycle_args \<Rightarrow> reservation_row \<Rightarrow> lifecycle_result" where
  "unmutated a previous =
     \<lparr>lr_reservation = previous, lr_previous = previous, lr_fromState = r_state previous,
      lr_toState = la_toState a, lr_capacity = Unchanged, lr_mutated = False\<rparr>"

definition seating_check ::
    "runtime \<Rightarrow> lifecycle_args \<Rightarrow> reservation_row \<Rightarrow> instant \<Rightarrow> instant \<Rightarrow> db \<Rightarrow> err + unit" where
  "seating_check rt a previous now dbNow d =
    (if \<not> truthy (r_tableId previous) then Inl (InvalidStateInvariantError SeatedRequiresTable)
     else if (case r_endsAt previous of None \<Rightarrow> False | Some e \<Rightarrow> e \<le> now)
     then Inl (InvalidStateInvariantError ReservationAlreadyEnded)
     else
       assertTableAvailableForSeating rt d
         \<lparr>ai_restaurantId = la_restaurantId a, ai_partySize = r_partySize previous,
          ai_startsAt = now, ai_endsAt = orElse (r_endsAt previous) (now + 2 * 60 * 60 * 1000),
          ai_preferredSectionId = None, ai_excludeTableIds = [],
          ai_excludeReservationId = Some (r_id previous)\<rparr>
         (the (r_tableId previous)) now dbNow)"

definition transition_update :: "lifecycle_args \<Rightarrow> reservation_row \<Rightarrow> reservation_row \<Rightarrow> reservation_row" where
  "transition_update a previous r =
    (let (s, st) = transitionProjection (la_toState a) (r_status previous);
         r1 = (case la_additionalData a of None \<Rightarrow> r | Some f \<Rightarrow> f r)
     in r1\<lparr>r_state := s, r_status := st\<rparr>)"

definition feedback_input :: "reservation_row \<Rightarrow> instant \<Rightarrow> outbox_input" where
  "feedback_input r now =
     (confirmation_input ''reputation-feedback-email'' ''reputation.feedback_email.requested''
        ''reputation-feedback-email:'' r)\<lparr>oi_availableAt := Some (now + 24 * 60 * 60 * 1000)\<rparr>"

text \<open>The events a transition publishes, in the transaction of the caller.\<close>

definition transition_events ::
    "runtime \<Rightarrow> reservation_state \<Rightarrow> reservation_row \<Rightarrow> id \<times> id \<Rightarrow> instant \<Rightarrow> db \<Rightarrow> err + db" where
  "transition_events rt toState r newIds now d =
    (if toState = CONFIRMED then
       (case enqueueReservationConfirmation rt r newIds now d of
          Inl e \<Rightarrow> Inl e | Inr (d', _) \<Rightarrow> Inr d')
     else if toState = HONORED \<and> truthy (r_customerEmail r) \<and> truthy (r_customerId r) \<and> \<not> r_isTest r then
       (case enqueue rt True [] (feedback_input r now) (fst newIds) now d of
          Inl e \<Rightarrow> Inl e | Inr (d', _) \<Rightarrow> Inr d')
     else Inr d)"

definition transition_audit :: "lifecycle_args \<Rightarrow> reservation_row \<Rightarrow> string \<Rightarrow> audit_row" where
  "transition_audit a previous event =
     \<lparr>a_event = event, a_reservationId = Some (r_id previous), a_holdId = None,
      a_actor = la_actor a, a_fromState = Some (r_state previous), a_toState = Some (la_toState a)\<rparr>"

definition log_hold_release :: "lifecycle_args \<Rightarrow> reservation_row \<Rightarrow> db \<Rightarrow> db" where
  "log_hold_release a previous d =
    (if la_auditConsumedHoldRelease a \<and> la_toState a = CANCELLED \<and> truthy (r_consumedHoldId previous) then
       (case findHold d (the (r_consumedHoldId previous)) of
          None \<Rightarrow> d
        | Some h \<Rightarrow>
            if h_status h = H_CONSUMED then
              log_audit \<lparr>a_event = ''hold_released'', a_reservationId = Some (r_id previous),
                a_holdId = Some (h_id h), a_actor = la_actor a, a_fromState = None, a_toState = None\<rparr> d
            else d)
     else d)"

definition transitionInTransaction ::
    "runtime \<Rightarrow> lifecycle_args \<Rightarrow> id \<times> id \<Rightarrow> instant \<Rightarrow> instant \<Rightarrow> db \<Rightarrow> err + db \<times> lifecycle_result" where
  "transitionInTransaction rt a newIds now dbNow d =
    (case findTenantReservation d (la_reservationId a) (la_restaurantId a) of
       None \<Rightarrow> Inl (ReservationNotFoundError (la_reservationId a))
     | Some previous \<Rightarrow>
         let fromState = r_state previous;
             sameState = (fromState = la_toState a);
             ctx = \<lparr>ctx_tableId = r_tableId previous,
                    ctx_startsAt = Some (orElse (r_startsAt previous) (r_reservedAt previous)),
                    ctx_endsAt = r_endsAt previous\<rparr>
         in if la_onlyIfFromState a \<noteq> None \<and> la_onlyIfFromState a \<noteq> Some fromState
            then Inr (d, unmutated a previous)
            else if sameState \<and> \<not> la_allowAlreadyInTarget a then Inl (AlreadyInStateError (la_toState a))
            else (case (if sameState then Inr () else assertCanTransition fromState (la_toState a) (Some ctx) now) of
                    Inl e \<Rightarrow> Inl e
                  | Inr _ \<Rightarrow>
                 (case (if la_toState a = SEATED \<and> \<not> sameState
                        then seating_check rt a previous now dbNow d else Inr ()) of
                    Inl e \<Rightarrow> Inl e
                  | Inr _ \<Rightarrow>
                      if sameState \<and> la_additionalData a = None then Inr (d, unmutated a previous)
                      else (case updateReservation (la_reservationId a) (la_restaurantId a)
                                   (transition_update a previous) d of
                              Inl e \<Rightarrow> Inl e
                            | Inr (d1, r) \<Rightarrow>
                           (case (if sameState then Inr d1
                                  else transition_events rt (la_toState a) r newIds now d1) of
                              Inl e \<Rightarrow> Inl e
                            | Inr d2 \<Rightarrow>
                                Inr (if \<not> sameState then
                                       log_audit (transition_audit a previous
                                           (orElse (la_auditEvent a) (eventForTransition (la_toState a))))
                                         (log_hold_release a previous d2)
                                     else if la_changedFields a \<noteq> [] then
                                       log_audit (transition_audit a previous ''reservation_fields_changed'') d2
                                     else d2,
                                     \<lparr>lr_reservation = r, lr_previous = previous,
                                      lr_fromState = fromState, lr_toState = la_toState a,
                                      lr_capacity =
                                        reservationCapacityEffect (Some fromState) (Some (la_toState a)),
                                      lr_mutated = True\<rparr>))))))"

definition finalizeTransition :: "lifecycle_args \<Rightarrow> lifecycle_result \<Rightarrow> db \<Rightarrow> db" where
  "finalizeTransition a res d =
     (if lr_capacity res \<noteq> Unchanged then invalidateAvailability (la_restaurantId a) d else d)"

definition transition ::
    "runtime \<Rightarrow> lifecycle_args \<Rightarrow> id \<times> id \<Rightarrow> instant \<Rightarrow> instant \<Rightarrow> db \<Rightarrow> db \<times> (err + lifecycle_result)" where
  "transition rt a newIds now dbNow d =
    (case in_tx (transitionInTransaction rt a newIds now dbNow) d of
       (d', Inl e) \<Rightarrow> (d', Inl e)
     | (d', Inr res) \<Rightarrow> (finalizeTransition a res d', Inr res))"

section \<open>Lemmas\<close>

lemma transition_events_frame:
  assumes "transition_events rt toState r newIds now d = Inr d'"
  shows "appends_events d d'"
  using assms unfolding transition_events_def
  by (auto split: sum.splits if_splits dest: enqueue_frame confirmation_frame)

lemma log_hold_release_simps [simp]:
  "reservations (log_hold_release a p d) = reservations d"
  "holds (log_hold_release a p d) = holds d" "waiting (log_hold_release a p d) = waiting d"
  "availVersion (log_hold_release a p d) = availVersion d" "idem (log_hold_release a p d) = idem d"
  "outbox (log_hold_release a p d) = outbox d" "jobs (log_hold_release a p d) = jobs d"
  by (auto simp: log_hold_release_def split: option.split)

lemma log_hold_release_audit:
  "\<exists>hs. audit (log_hold_release a p d) = audit d @ hs \<and> length hs \<le> 1 \<and>
     (\<forall>x \<in> set hs. a_event x = ''hold_released'' \<and> a_reservationId x = Some (r_id p))"
  by (auto simp: log_hold_release_def split: option.split)

lemma transition_update_cols [simp]:
  "r_state (transition_update a p r) = la_toState a"
  "r_status (transition_update a p r) = snd (transitionProjection (la_toState a) (r_status p))"
  by (simp_all add: transition_update_def transitionProjection_def)

text \<open>A caller's additional data never touches the identity of the row.\<close>

definition keeps_identity :: "lifecycle_args \<Rightarrow> bool" where
  "keeps_identity a \<longleftrightarrow>
     (case la_additionalData a of None \<Rightarrow> True
      | Some f \<Rightarrow> \<forall>r. r_id (f r) = r_id r \<and> r_restaurantId (f r) = r_restaurantId r)"

lemma transition_update_id:
  "keeps_identity a \<Longrightarrow> r_id (transition_update a p r) = r_id r"
  by (auto simp: transition_update_def keeps_identity_def transitionProjection_def split: option.splits)

text \<open>What a transition that wrote has checked and done.\<close>

lemma transition_mutatedE:
  assumes "transitionInTransaction rt a newIds now dbNow d = Inr (d', res)" "lr_mutated res"
  obtains previous d1 where
    "findTenantReservation d (la_reservationId a) (la_restaurantId a) = Some previous"
    "lr_previous res = previous" "lr_fromState res = r_state previous" "lr_toState res = la_toState a"
    "lr_capacity res = reservationCapacityEffect (Some (r_state previous)) (Some (la_toState a))"
    "updateReservation (la_reservationId a) (la_restaurantId a) (transition_update a previous) d
       = Inr (d1, lr_reservation res)"
    "reservations d' = reservations d1" "holds d' = holds d" "availVersion d' = availVersion d"
    "la_toState a \<noteq> r_state previous \<Longrightarrow> canTransition (r_state previous) (la_toState a)"
    "la_toState a \<noteq> r_state previous \<Longrightarrow> la_toState a = SEATED \<Longrightarrow>
       seating_check rt a previous now dbNow d = Inr ()"
    "la_toState a \<noteq> r_state previous \<Longrightarrow> la_toState a \<in> {HONORED, NO_SHOW} \<Longrightarrow>
       orElse (r_startsAt previous) (r_reservedAt previous) \<le> now"
    "la_toState a \<noteq> r_state previous \<Longrightarrow> \<exists>hs. length hs \<le> 1 \<and>
       (\<forall>x \<in> set hs. a_event x = ''hold_released'') \<and>
       audit d' = audit d @ hs @ [transition_audit a previous
         (orElse (la_auditEvent a) (eventForTransition (la_toState a)))]"
    "la_toState a = r_state previous \<Longrightarrow> length (audit d') \<le> Suc (length (audit d))"
proof -
  obtain previous where prev: "findTenantReservation d (la_reservationId a) (la_restaurantId a) = Some previous"
    using assms(1) by (auto simp: transitionInTransaction_def split: option.splits)
  show thesis
  proof (cases "r_state previous = la_toState a")
    case True
    obtain d1 r where upd: "updateReservation (la_reservationId a) (la_restaurantId a)
        (transition_update a previous) d = Inr (d1, r)"
      using assms prev True by (auto simp: transitionInTransaction_def Let_def unmutated_def
          split: if_splits sum.splits)
    then obtain r0 where "d1 = d\<lparr>reservations := upd_where (\<lambda>x. r_id x = la_reservationId a \<and>
        r_restaurantId x = la_restaurantId a) (transition_update a previous) (reservations d)\<rparr>"
      by (elim updateReservation_okE) blast
    then show thesis
      using assms prev True upd that [OF prev]
      by (auto simp: transitionInTransaction_def Let_def unmutated_def split: if_splits)
  next
    case False
    have chk: "assertCanTransition (r_state previous) (la_toState a)
        (Some \<lparr>ctx_tableId = r_tableId previous,
               ctx_startsAt = Some (orElse (r_startsAt previous) (r_reservedAt previous)),
               ctx_endsAt = r_endsAt previous\<rparr>) now = Inr ()"
      and seat: "la_toState a = SEATED \<Longrightarrow> seating_check rt a previous now dbNow d = Inr ()"
      using assms prev False
      by (auto simp: transitionInTransaction_def Let_def unmutated_def split: if_splits sum.splits)
    obtain d1 r where upd: "updateReservation (la_reservationId a) (la_restaurantId a)
        (transition_update a previous) d = Inr (d1, r)"
      using assms prev False chk seat
      by (auto simp: transitionInTransaction_def Let_def unmutated_def split: if_splits sum.splits)
    obtain d2 where ev: "transition_events rt (la_toState a) r newIds now d1 = Inr d2"
      using assms prev False chk seat upd
      by (auto simp: transitionInTransaction_def Let_def unmutated_def split: if_splits sum.splits)
    have d': "d' = log_audit (transition_audit a previous
          (orElse (la_auditEvent a) (eventForTransition (la_toState a)))) (log_hold_release a previous d2)"
      and res: "res = \<lparr>lr_reservation = r, lr_previous = previous, lr_fromState = r_state previous,
          lr_toState = la_toState a,
          lr_capacity = reservationCapacityEffect (Some (r_state previous)) (Some (la_toState a)),
          lr_mutated = True\<rparr>"
      using assms prev False chk seat upd ev
      by (auto simp: transitionInTransaction_def Let_def unmutated_def split: if_splits sum.splits)
    obtain r0 where d1: "d1 = d\<lparr>reservations := upd_where (\<lambda>x. r_id x = la_reservationId a \<and>
        r_restaurantId x = la_restaurantId a) (transition_update a previous) (reservations d)\<rparr>"
      using upd by (elim updateReservation_okE) blast
    note fr = appends_events_frame [OF transition_events_frame [OF ev]]
    obtain hs where hs: "audit (log_hold_release a previous d2) = audit d2 @ hs" "length hs \<le> 1"
        "\<forall>x \<in> set hs. a_event x = ''hold_released''"
      using log_hold_release_audit by blast
    have ok: "canTransition (r_state previous) (la_toState a)"
      "la_toState a \<in> {HONORED, NO_SHOW} \<Longrightarrow> orElse (r_startsAt previous) (r_reservedAt previous) \<le> now"
      using chk unfolding assertCanTransition_ok by auto
    show thesis
      by (rule that [OF prev]) (use upd d' res d1 fr hs ok seat False in auto)
  qed
qed

lemma finalize_simps [simp]:
  "reservations (finalizeTransition a res d) = reservations d"
  "audit (finalizeTransition a res d) = audit d" "holds (finalizeTransition a res d) = holds d"
  by (simp_all add: finalizeTransition_def)

lemma transition_InrE:
  assumes "transition rt a newIds now dbNow d = (d', Inr res)"
  obtains d1 where "transitionInTransaction rt a newIds now dbNow d = Inr (d1, res)"
    "d' = finalizeTransition a res d1"
  using assms by (auto simp: transition_def in_tx_def split: sum.splits)

lemma transition_Inl:
  "transition rt a newIds now dbNow d = (d', Inl e) \<Longrightarrow>
   d' = d \<and> transitionInTransaction rt a newIds now dbNow d = Inl e"
  by (auto simp: transition_def in_tx_def split: sum.splits)

lemma unmutated_same:
  assumes "transitionInTransaction rt a newIds now dbNow d = Inr (d', res)" "\<not> lr_mutated res"
  shows "d' = d"
  using assms
  by (auto simp: transitionInTransaction_def Let_def unmutated_def split: option.splits if_splits sum.splits)

section \<open>The states of a reservation over time\<close>

definition reservation_state_of :: "db \<Rightarrow> id \<Rightarrow> reservation_state option" where
  "reservation_state_of d i = map_option r_state (find (\<lambda>r. r_id r = i) (reservations d))"

definition lifecycle_step :: "db \<Rightarrow> db \<Rightarrow> bool" where
  "lifecycle_step d d' \<longleftrightarrow> distinct (map r_id (reservations d)) \<and>
     (\<exists>rt a newIds now dbNow res. keeps_identity a \<and> transition rt a newIds now dbNow d = (d', res))"

lemma state_after_update:
  assumes dist: "distinct (map r_id (reservations d))" and ident: "keeps_identity a"
    and upd: "updateReservation (la_reservationId a) (la_restaurantId a) (transition_update a p) d = Inr (d1, r)"
    and p: "findTenantReservation d (la_reservationId a) (la_restaurantId a) = Some p"
    and s: "reservation_state_of d i = Some s"
  shows "reservation_state_of d1 i = Some (if i = la_reservationId a then la_toState a else s)"
    and "i = la_reservationId a \<Longrightarrow> r_state p = s"
proof -
  let ?p = "\<lambda>x. r_id x = la_reservationId a \<and> r_restaurantId x = la_restaurantId a"
  obtain r0 where r0: "find (\<lambda>r. r_id r = i) (reservations d) = Some r0" "r_state r0 = s"
    using s by (auto simp: reservation_state_of_def)
  have pm: "p \<in> set (reservations d)" "?p p"
    using find_Some_D [OF p [unfolded findTenantReservation_def]] by auto
  have same: "i = la_reservationId a \<Longrightarrow> r0 = p"
    using find_distinct_key [OF dist pm(1)] pm(2) r0(1) by simp
  then show "i = la_reservationId a \<Longrightarrow> r_state p = s" using r0(2) by simp
  have "find (\<lambda>r. r_id r = i) (reservations d1) = Some (if ?p r0 then transition_update a p r0 else r0)"
    using upd r0(1) transition_update_id [OF ident]
    by (elim updateReservation_okE) (simp add: find_upd_where)
  then show "reservation_state_of d1 i = Some (if i = la_reservationId a then la_toState a else s)"
    using same pm(2) r0 find_Some_D [OF r0(1)] by (auto simp: reservation_state_of_def)
qed

lemma lifecycle_step_edge:
  assumes "lifecycle_step d d'" "reservation_state_of d i = Some s"
  shows "\<exists>s'. reservation_state_of d' i = Some s' \<and> canTransition\<^sup>*\<^sup>* s s'"
proof -
  obtain rt a newIds now dbNow res where dist: "distinct (map r_id (reservations d))"
    and ident: "keeps_identity a" and run: "transition rt a newIds now dbNow d = (d', res)"
    using assms(1) by (auto simp: lifecycle_step_def)
  show ?thesis
  proof (cases res)
    case (Inl e)
    with run assms(2) show ?thesis by (auto dest: transition_Inl)
  next
    case (Inr x)
    obtain d1 where d1: "transitionInTransaction rt a newIds now dbNow d = Inr (d1, x)"
        "d' = finalizeTransition a x d1"
      using transition_InrE run Inr by blast
    show ?thesis
    proof (cases "lr_mutated x")
      case False
      have "d1 = d" by (rule unmutated_same [OF d1(1) False])
      then have "reservation_state_of d' i = Some s"
        using d1(2) assms(2) by (simp add: reservation_state_of_def)
      then show ?thesis by blast
    next
      case True
      obtain p d2 where p: "findTenantReservation d (la_reservationId a) (la_restaurantId a) = Some p"
        and upd: "updateReservation (la_reservationId a) (la_restaurantId a) (transition_update a p) d
          = Inr (d2, lr_reservation x)"
        and rows: "reservations d1 = reservations d2"
        and edge: "la_toState a \<noteq> r_state p \<Longrightarrow> canTransition (r_state p) (la_toState a)"
        using transition_mutatedE [OF d1(1) True] by metis
      note st = state_after_update [OF dist ident upd p assms(2)]
      have "canTransition\<^sup>*\<^sup>* s (if i = la_reservationId a then la_toState a else s)"
        using st(2) edge by (cases "la_toState a = s") auto
      moreover have "reservation_state_of d' i = reservation_state_of d2 i"
        using d1(2) rows by (simp add: reservation_state_of_def)
      ultimately show ?thesis using st(1) by simp
    qed
  qed
qed

interpretation reservation_machine: status_machine canTransition reservation_state_of lifecycle_step
  by unfold_locales (rule lifecycle_step_edge)

text \<open>A transition to an active state starts from an active state, so it frees no table test.\<close>

lemma active_transition_from_active:
  "canTransition s t \<Longrightarrow> isActiveReservationState (Some t) \<Longrightarrow> isActiveReservationState (Some s)"
  by (cases s) auto

lemma plain_transition_no_conflict:
  assumes ok: "reservations_ok (reservations d)" and p: "p \<in> set (reservations d)"
    and plain: "la_additionalData a = None"
    and edge: "canTransition (r_state p) (la_toState a)"
    and r': "r' \<in> set (reservations d)" "r_id r' \<noteq> r_id p"
  shows "\<not> exclusion_conflict (transition_update a p p) r'"
proof
  assume c: "exclusion_conflict (transition_update a p p) r'"
  then have "exclusion_conflict p r'"
    using plain active_transition_from_active [OF edge]
    by (auto simp: exclusion_conflict_def seats_table_def transition_update_def transitionProjection_def)
  then show False using ok p r' unfolding table_ok_def by (metis r'(2))
qed

lemma find_tenant_member:
  "findTenantReservation d i rid = Some p \<Longrightarrow> p \<in> set (reservations d) \<and> r_id p = i \<and> r_restaurantId p = rid"
  unfolding findTenantReservation_def by (drule find_Some_D) auto

definition seat_db :: db where
  "seat_db = plan_of_one_table\<lparr>reservations := [sample_reservation\<lparr>r_tableId := Some ''t''\<rparr>]\<rparr>"

definition seat_args :: lifecycle_args where
  "seat_args = \<lparr>la_reservationId = ''b1'', la_restaurantId = ''r'', la_toState = SEATED,
     la_actor = ''staff'', la_changedFields = [], la_auditEvent = None, la_additionalData = None,
     la_allowAlreadyInTarget = False, la_onlyIfFromState = None, la_auditConsumedHoldRelease = False\<rparr>"

lemma seat_db_ok: "reservations_ok (reservations seat_db)"
  by (simp add: seat_db_def table_ok_def)

lemma seat_args_ok: "keeps_identity seat_args"
  by (simp add: seat_args_def keeps_identity_def)

lemma seat_run:
  obtains d' res where "transition utc_runtime seat_args (''e1'', ''e2'') 7200000 7200000 seat_db = (d', Inr res)"
    "lr_mutated res" "lr_fromState res = CONFIRMED" "lr_toState res = SEATED"
proof -
  obtain d' out where run: "transition utc_runtime seat_args (''e1'', ''e2'') 7200000 7200000 seat_db = (d', out)"
    by fastforce
  have "case snd (transition utc_runtime seat_args (''e1'', ''e2'') 7200000 7200000 seat_db) of
      Inl _ \<Rightarrow> False
    | Inr res \<Rightarrow> lr_mutated res \<and> lr_fromState res = CONFIRMED \<and> lr_toState res = SEATED"
    by code_simp
  then show thesis using run that by (cases out) auto
qed

section \<open>Properties\<close>



text \<open>
  A customer is only seated at a table that is theirs to take: a transition to \<open>SEATED\<close> that writes
  found the reservation's own table active, in the restaurant, of the right capacity, free of other
  reservations and holds from now to the end of the booking, with no global conflict and the booking
  not yet over.
\<close>

lemma seated_only_at_a_free_table:
  assumes "transition rt a newIds now dbNow d = (d', Inr res)" "lr_mutated res"
    and "la_toState a = SEATED" "lr_fromState res \<noteq> SEATED"
  shows "\<exists>t tid. r_tableId (lr_previous res) = Some tid \<and> t \<in> set (tables d) \<and> t_id t = tid \<and>
    map_option fp_restaurantId (floorPlan_of d t) = Some (la_restaurantId a) \<and>
    t_isActive t \<and> t_minCapacity t \<le> r_partySize (lr_previous res) \<and>
    r_partySize (lr_previous res) \<le> t_capacity t \<and>
    now < orElse (r_endsAt (lr_previous res)) (now + 7200000) \<and>
    isTableAvailable d dbNow
      \<lparr>tc_tableId = tid, tc_startsAt = now, tc_endsAt = orElse (r_endsAt (lr_previous res)) (now + 7200000),
       tc_excludeReservationId = Some (r_id (lr_previous res)), tc_excludeHoldId = None\<rparr>"
proof -
  obtain d1 where d1: "transitionInTransaction rt a newIds now dbNow d = Inr (d1, res)"
    using transition_InrE assms(1) by blast
  obtain p where p: "lr_previous res = p" "lr_fromState res = r_state p"
    and chk: "la_toState a \<noteq> r_state p \<Longrightarrow> la_toState a = SEATED \<Longrightarrow>
       seating_check rt a p now dbNow d = Inr ()"
    using transition_mutatedE [OF d1 assms(2)] by metis
  have seat: "seating_check rt a p now dbNow d = Inr ()" using chk assms(3,4) p by simp
  then obtain tid where tid: "r_tableId p = Some tid" "tid \<noteq> []"
    by (auto simp: seating_check_def split: if_splits elim: truthyE)
  have future: "now < orElse (r_endsAt p) (now + 7200000)"
    using seat tid by (auto simp: seating_check_def split: if_splits option.splits)
  obtain t where t: "find (\<lambda>t. t_id t = tid \<and>
        map_option fp_restaurantId (floorPlan_of d t) = Some (la_restaurantId a)) (tables d) = Some t"
    "t_isActive t" "t_minCapacity t \<le> r_partySize p" "r_partySize p \<le> t_capacity t"
    "isTableAvailable d dbNow
      \<lparr>tc_tableId = tid, tc_startsAt = now, tc_endsAt = orElse (r_endsAt p) (now + 7200000),
       tc_excludeReservationId = Some (r_id p), tc_excludeHoldId = None\<rparr>"
    using seat tid
    by (auto simp: seating_check_def assertTableAvailableForSeating_def input_check_def
        split: if_splits option.splits)
  then show ?thesis using find_Some_D [OF t(1)] p(1) tid(1) future by auto
qed

lemma seated_only_at_a_free_table_witness:
  "\<exists>d' res. transition utc_runtime seat_args (''e1'', ''e2'') 7200000 7200000 seat_db = (d', Inr res) \<and>
     lr_mutated res \<and> (\<exists>t \<in> set (tables seat_db). r_tableId (lr_previous res) = Some (t_id t) \<and> t_isActive t)"
proof -
  obtain d' res where run: "transition utc_runtime seat_args (''e1'', ''e2'') 7200000 7200000 seat_db = (d', Inr res)"
    "lr_mutated res" "lr_fromState res = CONFIRMED" by (rule seat_run)
  have "la_toState seat_args = SEATED" "lr_fromState res \<noteq> SEATED" using run(3) by (simp_all add: seat_args_def)
  from seated_only_at_a_free_table [OF run(1,2) this] run show ?thesis by auto
qed

text \<open>
  A reservation never comes back. Over any sequence of transitions, whatever their order, actors and
  arguments, a reservation only moves along the state machine: its rank never decreases, and once it is
  \<open>CANCELLED\<close>, \<open>HONORED\<close>, \<open>NO_SHOW\<close>, \<open>FAILED\<close> or \<open>EXPIRED\<close> it stays so.
\<close>

lemma reservation_never_comes_back:
  assumes "lifecycle_step\<^sup>*\<^sup>* d d'" "reservation_state_of d i = Some s"
  shows "\<exists>s'. reservation_state_of d' i = Some s' \<and> state_rank s \<le> state_rank s' \<and>
    (isTerminalState s \<longrightarrow> s' = s)"
proof (cases "isTerminalState s")
  case True
  then have "\<And>t. \<not> canTransition s t" by (simp add: isTerminalState_iff)
  from reservation_machine.terminal_absorbing [OF assms this] show ?thesis by simp
next
  case False
  then show ?thesis using reservation_machine.run_edge [OF assms] transitions_rank by blast
qed

lemma reservation_never_comes_back_witness:
  "\<exists>d'. lifecycle_step seat_db d' \<and> reservation_state_of seat_db ''b1'' = Some CONFIRMED \<and>
     (\<exists>s'. reservation_state_of d' ''b1'' = Some s' \<and> 1 \<le> state_rank s')"
proof -
  obtain d' res where run: "transition utc_runtime seat_args (''e1'', ''e2'') 7200000 7200000 seat_db = (d', Inr res)"
    by (rule seat_run)
  have dist: "distinct (map r_id (reservations seat_db))" by (simp add: seat_db_def)
  have step: "lifecycle_step seat_db d'"
    unfolding lifecycle_step_def using dist seat_args_ok run by blast
  have s: "reservation_state_of seat_db ''b1'' = Some CONFIRMED" by code_simp
  from reservation_never_comes_back [OF r_into_rtranclp [where r = lifecycle_step, OF step] s] step s
  show ?thesis by auto
qed

text \<open>
  The exclusion constraint never gets in the way of the state machine: on consistent reservations a
  transition without additional data is not refused by the database for an overlap.
\<close>

lemma transition_not_refused_for_overlap:
  assumes "reservations_ok (reservations d)" "la_additionalData a = None"
  shows "snd (transition rt a newIds now dbNow d) \<noteq> Inl (DbError EXCLUSION)"
proof
  assume "snd (transition rt a newIds now dbNow d) = Inl (DbError EXCLUSION)"
  then have err: "transitionInTransaction rt a newIds now dbNow d = Inl (DbError EXCLUSION)"
    using transition_Inl [of rt a newIds now dbNow d "fst (transition rt a newIds now dbNow d)" "DbError EXCLUSION"]
    by (metis prod.collapse)
  obtain p where p: "findTenantReservation d (la_reservationId a) (la_restaurantId a) = Some p"
    using err by (auto simp: transitionInTransaction_def split: option.splits)
  note mem = find_tenant_member [OF p]
  have upd: "updateReservation (la_reservationId a) (la_restaurantId a) (transition_update a p) d =
      Inr (d\<lparr>reservations := upd_where (\<lambda>x. r_id x = la_reservationId a \<and> r_restaurantId x = la_restaurantId a)
             (transition_update a p) (reservations d)\<rparr>, transition_update a p p)"
    if "canTransition (r_state p) (la_toState a)"
    by (rule updateReservation_succeeds [OF p [unfolded findTenantReservation_def]])
      (use plain_transition_no_conflict [OF assms(1) _ assms(2) that] mem in auto)
  have events: "transition_events rt s r ids now dd = Inl e \<Longrightarrow> outbox_error e" for s r ids dd e
    by (auto simp: transition_events_def split: sum.splits if_splits
        dest: enqueue_error confirmation_error)
  have other: "\<not> outbox_error (DbError EXCLUSION)" by (simp add: outbox_error_def)
  have seat: "seating_check rt a p now dbNow d \<noteq> Inl (DbError EXCLUSION)"
    by (auto simp: seating_check_def assertTableAvailableForSeating_def split: option.splits)
  show False
    using err p upd events other seat assms(2)
    by (auto simp: transitionInTransaction_def Let_def assertCanTransition_def validateStateInvariants_def
        split: if_splits sum.splits option.splits)
qed

lemma transition_not_refused_for_overlap_witness:
  "\<exists>res. snd (transition utc_runtime seat_args (''e1'', ''e2'') 7200000 7200000 seat_db) = Inr res \<and>
     snd (transition utc_runtime seat_args (''e1'', ''e2'') 7200000 7200000 seat_db) \<noteq> Inl (DbError EXCLUSION)"
proof -
  have plain: "la_additionalData seat_args = None" by (simp add: seat_args_def)
  obtain d' res where run: "transition utc_runtime seat_args (''e1'', ''e2'') 7200000 7200000 seat_db = (d', Inr res)"
    by (rule seat_run)
  show ?thesis using transition_not_refused_for_overlap [OF seat_db_ok plain] run by auto
qed

end
