(* ===== verification/Policies.thy ===== *)
theory Policies
  imports Db
begin

text \<open>
  Restaurant policies: \<open>modules/agentic-reservations/core/policies.service.ts\<close> (validation of the
  settings, the snapshot frozen on a booking, validation of a request, the expiry of quotes and holds)
  and \<open>shared/reservations/cancellation-policy.ts\<close>. Numbers are integers; \<open>null\<close> and \<open>undefined\<close> are
  \<open>None\<close>.
\<close>

section \<open>Constants\<close>

definition DEFAULT_QUOTE_TTL_SECONDS :: int where "DEFAULT_QUOTE_TTL_SECONDS = 300"
definition DEFAULT_HOLD_TTL_SECONDS :: int where "DEFAULT_HOLD_TTL_SECONDS = 420"
definition MAX_PARTY_SIZE_HARD_LIMIT :: int where "MAX_PARTY_SIZE_HARD_LIMIT = 50"
definition MAX_LEAD_TIME_MINUTES :: int where "MAX_LEAD_TIME_MINUTES = 24 * 60"
definition MAX_QUOTE_TTL_SECONDS :: int where "MAX_QUOTE_TTL_SECONDS = 3600"
definition MAX_HOLD_TTL_SECONDS :: int where "MAX_HOLD_TTL_SECONDS = 3600"
definition DEFAULT_MAX_PARTY_SIZE :: int where "DEFAULT_MAX_PARTY_SIZE = 7"
definition DEFAULT_NOSHOW_WARNING_THRESHOLD :: int where "DEFAULT_NOSHOW_WARNING_THRESHOLD = 2"

section \<open>Cancellation policy\<close>

record cancellation_snap =
  cs_freeUntilMinutesBefore :: int
  cs_feeCurrency :: string
  cs_version :: string
  cs_source :: string
  cs_selfService :: string
  cs_terms :: string

definition preset_text :: "int \<Rightarrow> string" where
  "preset_text hours =
     ''Annulation gratuite jusqu'' @ [CHR 0x27, CHR 0xE0] @ '' '' @ nat_str (nat hours) @
     '' heures avant le service.''"

definition default_terms :: string where
  "default_terms =
     ''Conditions '' @ [CHR 0xE0] @ '' v'' @ [CHR 0xE9] @ ''rifier aupr'' @ [CHR 0xE8] @ ''s du restaurant.''"

definition snapshotCancellationPolicy :: "json \<Rightarrow> string \<Rightarrow> cancellation_snap" where
  "snapshotCancellationPolicy specials version =
    (let settings = (case specials of JObj fs \<Rightarrow> JObj fs | _ \<Rightarrow> JObj []);
         text = (case json_field ''cancellationPolicy'' settings of
                   JStr s \<Rightarrow> take 280 (js_trim s) | _ \<Rightarrow> []);
         hours = find (\<lambda>v. text = preset_text v) [2, 24, 48]
     in \<lparr>cs_freeUntilMinutesBefore = (case hours of None \<Rightarrow> 120 | Some h \<Rightarrow> h * 60),
         cs_feeCurrency = ''EUR'', cs_version = version, cs_source = ''onboarding-v1'',
         cs_selfService =
           (if hours \<noteq> None \<and> json_field ''depositRequired'' settings \<noteq> JBool True
            then ''free_before_deadline'' else ''contact''),
         cs_terms = (if text = [] then default_terms else text)\<rparr>)"

section \<open>Settings\<close>

record exposure_input =
  ex_maxPartySize :: "int option"
  ex_minLeadTimeMinutes :: "int option"
  ex_quoteTtlSeconds :: "int option"
  ex_holdTtlSeconds :: "int option"
  ex_noShowPolicy :: "string option"

definition outside :: "int option \<Rightarrow> int \<Rightarrow> int \<Rightarrow> bool" where
  "outside v lo hi = (case v of None \<Rightarrow> False | Some x \<Rightarrow> x < lo \<or> x > hi)"

definition isNoShowPolicyKind :: "string option \<Rightarrow> bool" where
  "isNoShowPolicyKind v \<longleftrightarrow> v \<in> {Some ''warning'', Some ''fee'', Some ''block''}"

definition validateExposureSettings :: "exposure_input \<Rightarrow> err + unit" where
  "validateExposureSettings i =
    (if outside (ex_maxPartySize i) 1 MAX_PARTY_SIZE_HARD_LIMIT
     then Inl (PolicyValidationError INVALID_MAX_PARTY_SIZE)
     else if outside (ex_minLeadTimeMinutes i) 0 MAX_LEAD_TIME_MINUTES
     then Inl (PolicyValidationError INVALID_MIN_LEAD_TIME)
     else if outside (ex_quoteTtlSeconds i) 30 MAX_QUOTE_TTL_SECONDS
     then Inl (PolicyValidationError INVALID_QUOTE_TTL)
     else if outside (ex_holdTtlSeconds i) 60 MAX_HOLD_TTL_SECONDS
     then Inl (PolicyValidationError INVALID_HOLD_TTL)
     else if (case (ex_holdTtlSeconds i, ex_quoteTtlSeconds i) of
                (Some h, Some q) \<Rightarrow> h \<le> q | _ \<Rightarrow> False)
     then Inl (PolicyValidationError INVALID_TTL_ORDER)
     else if ex_noShowPolicy i \<noteq> None \<and> \<not> isNoShowPolicyKind (ex_noShowPolicy i)
     then Inl (PolicyValidationError INVALID_NO_SHOW_POLICY)
     else Inr ())"

section \<open>The snapshot\<close>

record policy_input =
  pi_policyVersion :: string
  pi_settings :: exposure_input
  pi_requireManualValidation :: "bool option"
  pi_notificationChannels :: "string list"
  pi_capacitySpecials :: json

record policy_snapshot =
  ps_cancellation :: cancellation_snap
  ps_noShowKind :: string
  ps_noShowWarningThreshold :: int
  ps_maxPartySize :: int
  ps_minLeadTimeMinutes :: int
  ps_requireManualValidation :: bool
  ps_quoteTtlSeconds :: int
  ps_holdTtlSeconds :: int
  ps_notificationChannels :: "string list"
  ps_policyVersion :: string

definition buildPolicySnapshot :: "policy_input \<Rightarrow> policy_snapshot" where
  "buildPolicySnapshot i =
     \<lparr>ps_cancellation = snapshotCancellationPolicy (pi_capacitySpecials i) (pi_policyVersion i),
      ps_noShowKind = (if isNoShowPolicyKind (ex_noShowPolicy (pi_settings i))
                       then the (ex_noShowPolicy (pi_settings i)) else ''warning''),
      ps_noShowWarningThreshold = DEFAULT_NOSHOW_WARNING_THRESHOLD,
      ps_maxPartySize = orElse (ex_maxPartySize (pi_settings i)) DEFAULT_MAX_PARTY_SIZE,
      ps_minLeadTimeMinutes =
        orElse (ex_minLeadTimeMinutes (pi_settings i)) DEFAULT_ONLINE_MIN_LEAD_TIME_MINUTES,
      ps_requireManualValidation = orElse (pi_requireManualValidation i) False,
      ps_quoteTtlSeconds = orElse (ex_quoteTtlSeconds (pi_settings i)) DEFAULT_QUOTE_TTL_SECONDS,
      ps_holdTtlSeconds = orElse (ex_holdTtlSeconds (pi_settings i)) DEFAULT_HOLD_TTL_SECONDS,
      ps_notificationChannels =
        (if length (pi_notificationChannels i) > 0 then pi_notificationChannels i
         else [''sms'', ''email'']),
      ps_policyVersion = pi_policyVersion i\<rparr>"

definition validateReservationAgainstPolicy ::
    "policy_snapshot \<Rightarrow> int \<Rightarrow> instant \<Rightarrow> instant \<Rightarrow> err + unit" where
  "validateReservationAgainstPolicy snap partySize startsAt now =
    (if partySize < 1 then Inl (PolicyValidationError INVALID_PARTY_SIZE)
     else if partySize > ps_maxPartySize snap then Inl (PolicyValidationError PARTY_SIZE_EXCEEDS_MAX)
     else if isSlotTooSoon startsAt (Some (ps_minLeadTimeMinutes snap)) now
     then Inl (PolicyValidationError INSUFFICIENT_LEAD_TIME)
     else Inr ())"

definition computeQuoteExpiresAt :: "policy_snapshot \<Rightarrow> instant \<Rightarrow> instant" where
  "computeQuoteExpiresAt snap now = now + ps_quoteTtlSeconds snap * 1000"

definition computeHoldExpiresAt :: "policy_snapshot \<Rightarrow> instant \<Rightarrow> instant" where
  "computeHoldExpiresAt snap now = now + ps_holdTtlSeconds snap * 1000"

section \<open>Properties\<close>

text \<open>
  Settings that pass validation give a policy that holds together: with every setting given, as the
  admin service validates them, the snapshot keeps them, a quote lives between 30 seconds and an hour and
  always expires before a hold taken at the same time, and a request the policy accepts is for 1 to 50
  guests, strictly in the future and at least the lead time ahead.
\<close>

lemma validated_policy_is_consistent:
  assumes "validateExposureSettings i = Inr ()"
    and "\<exists>m l q h. i = \<lparr>ex_maxPartySize = Some m, ex_minLeadTimeMinutes = Some l,
       ex_quoteTtlSeconds = Some q, ex_holdTtlSeconds = Some h, ex_noShowPolicy = n\<rparr>"
    and "snap = buildPolicySnapshot
      \<lparr>pi_policyVersion = v, pi_settings = i, pi_requireManualValidation = manual,
       pi_notificationChannels = chans, pi_capacitySpecials = specials\<rparr>"
  shows "now + 30000 \<le> computeQuoteExpiresAt snap now \<and>
    computeQuoteExpiresAt snap now < computeHoldExpiresAt snap now \<and>
    computeHoldExpiresAt snap now \<le> now + 3600000 \<and>
    (validateReservationAgainstPolicy snap party startsAt now = Inr () \<longrightarrow>
      1 \<le> party \<and> party \<le> 50 \<and> now < startsAt \<and>
      now + ps_minLeadTimeMinutes snap * 60000 \<le> startsAt)"
  using assms
  by (auto simp: validateExposureSettings_def outside_def buildPolicySnapshot_def
      computeQuoteExpiresAt_def computeHoldExpiresAt_def validateReservationAgainstPolicy_def
      MAX_PARTY_SIZE_HARD_LIMIT_def MAX_LEAD_TIME_MINUTES_def MAX_QUOTE_TTL_SECONDS_def
      MAX_HOLD_TTL_SECONDS_def isSlotTooSoon_iff finite_lead_def not_le not_less
      split: if_splits option.splits)

definition default_settings :: exposure_input where
  "default_settings = \<lparr>ex_maxPartySize = Some 7, ex_minLeadTimeMinutes = Some 30,
     ex_quoteTtlSeconds = Some 300, ex_holdTtlSeconds = Some 420, ex_noShowPolicy = Some ''warning''\<rparr>"

definition default_policy :: policy_snapshot where
  "default_policy = buildPolicySnapshot
     \<lparr>pi_policyVersion = ''v1'', pi_settings = default_settings, pi_requireManualValidation = None,
      pi_notificationChannels = [], pi_capacitySpecials = JNull\<rparr>"

lemma validated_policy_is_consistent_witness:
  "validateExposureSettings default_settings = Inr () \<and>
   validateReservationAgainstPolicy default_policy 2 3600000 0 = Inr () \<and>
   computeQuoteExpiresAt default_policy 0 < computeHoldExpiresAt default_policy 0"
proof -
  have v: "validateExposureSettings default_settings = Inr ()" by code_simp
  have r: "validateReservationAgainstPolicy default_policy 2 3600000 0 = Inr ()" by code_simp
  have i: "\<exists>m l q h. default_settings = \<lparr>ex_maxPartySize = Some m, ex_minLeadTimeMinutes = Some l,
       ex_quoteTtlSeconds = Some q, ex_holdTtlSeconds = Some h, ex_noShowPolicy = Some ''warning''\<rparr>"
    by (simp add: default_settings_def)
  show ?thesis
    using validated_policy_is_consistent [OF v i default_policy_def, of 0] v r by simp
qed

text \<open>
  The terms of a cancellation never authorise a self-service free cancellation unless they are one of
  the three presets, word for word, with no deposit.
\<close>

lemma self_service_needs_preset:
  "cs_selfService (snapshotCancellationPolicy specials v) = ''free_before_deadline'' \<longleftrightarrow>
    (\<exists>fs s h. specials = JObj fs \<and> json_field ''cancellationPolicy'' specials = JStr s \<and>
       h \<in> {2, 24, 48} \<and> take 280 (js_trim s) = preset_text h \<and>
       json_field ''depositRequired'' specials \<noteq> JBool True)"
proof -
  have ne: "preset_text h \<noteq> []" "[] \<noteq> preset_text h" for h by (simp_all add: preset_text_def)
  show ?thesis
    unfolding snapshotCancellationPolicy_def Let_def
    by (cases specials; cases "json_field ''cancellationPolicy'' specials")
      (auto simp: ne json_field_def split: if_splits)
qed

end
