(* ===== verification/Holds.thy ===== *)
theory Holds
  imports Table_Allocation Policies
begin

text \<open>
  Quotes and holds: \<open>HoldService\<close> of \<open>modules/agentic-reservations/core/hold.service.ts\<close>, with the
  expiry jobs it schedules (\<open>workers/queues.ts\<close>). The concurrency the service defends against is
  explicit: an attempt of \<open>createHold\<close> is given what other transactions commit before it
  (\<open>ae_others\<close>) and between its reads and its insert (\<open>ae_race\<close>), and the database error that stops
  the transaction before its callback, if any; \<open>consumeHold\<close> is given what they commit between its
  read and its conditional update.
\<close>

section \<open>Creation\<close>

record hold_args =
  ha_restaurantId :: id
  ha_partySize :: int
  ha_slotStart :: instant
  ha_slotEnd :: instant
  ha_channel :: channel
  ha_policy :: policy_snapshot
  ha_actor :: string
  ha_tableId :: "id option"
  ha_preferredSectionId :: "id option"

definition hold_audit :: "string \<Rightarrow> id \<Rightarrow> id option \<Rightarrow> string \<Rightarrow> audit_row" where
  "hold_audit event holdId reservationId actor =
     \<lparr>a_event = event, a_reservationId = reservationId, a_holdId = Some holdId, a_actor = actor,
      a_fromState = None, a_toState = None\<rparr>"

definition new_hold ::
    "hold_args \<Rightarrow> hold_type \<Rightarrow> id \<Rightarrow> string \<Rightarrow> instant \<Rightarrow> id option \<Rightarrow> instant \<Rightarrow> hold_row" where
  "new_hold a type newId token expiresAt tableId now =
     \<lparr>h_id = newId, h_restaurantId = ha_restaurantId a, h_type = type,
      h_partySize = ha_partySize a, h_slotStart = ha_slotStart a, h_slotEnd = ha_slotEnd a,
      h_channel = ha_channel a,
      h_quoteToken = (if type = QUOTE then Some token else None),
      h_holdToken = (if type = HOLD then Some token else None),
      h_expiresAt = expiresAt, h_consumedAt = None, h_status = H_ACTIVE,
      h_policyVersion = ps_policyVersion (ha_policy a), h_reservationId = None, h_createdAt = now,
      h_tableId = tableId\<rparr>"

definition createQuote :: "hold_args \<Rightarrow> id \<Rightarrow> string \<Rightarrow> instant \<Rightarrow> db \<Rightarrow> db \<times> (err + hold_row)" where
  "createQuote a newId token now d =
    (let expiresAt = computeQuoteExpiresAt (ha_policy a) now;
         q = new_hold a QUOTE newId token expiresAt None now
     in case in_tx (\<lambda>d. case insertHoldRow q d of
                          Inl e \<Rightarrow> Inl e
                        | Inr d1 \<Rightarrow> Inr (log_audit (hold_audit ''quote_created'' newId None (ha_actor a)) d1, q)) d of
          (d', Inl e) \<Rightarrow> (d', Inl e)
        | (d', Inr h) \<Rightarrow> (add_job (ExpireQuoteJob (h_id h) expiresAt) d', Inr h))"

definition hold_input :: "hold_args \<Rightarrow> id option \<Rightarrow> alloc_input" where
  "hold_input a sectionId =
     \<lparr>ai_restaurantId = ha_restaurantId a, ai_partySize = ha_partySize a,
      ai_startsAt = ha_slotStart a, ai_endsAt = ha_slotEnd a, ai_preferredSectionId = sectionId,
      ai_excludeTableIds = [], ai_excludeReservationId = None\<rparr>"

definition hold_conflict :: "hold_args \<Rightarrow> err" where
  "hold_conflict a = HoldConflictError (ha_restaurantId a) (ha_slotStart a) (ha_partySize a)"

record attempt_env =
  ae_others :: "db \<Rightarrow> db"
  ae_race :: "db \<Rightarrow> db"
  ae_fault :: "db_error option"
  ae_now :: instant
  ae_dbNow :: instant
  ae_catchNow :: instant
  ae_newId :: id
  ae_token :: string

text \<open>The table of the hold: allocated, or the caller's after the same check as for seating.\<close>

definition hold_table_choice :: "runtime \<Rightarrow> hold_args \<Rightarrow> attempt_env \<Rightarrow> db \<Rightarrow> err + id" where
  "hold_table_choice rt a e d =
    (if \<not> truthy (ha_tableId a) then
       (case allocate rt d (hold_input a (ha_preferredSectionId a)) False (ae_now e) (ae_dbNow e) of
          None \<Rightarrow> Inl (hold_conflict a)
        | Some t \<Rightarrow> Inr (t_id t))
     else
       (case assertTableAvailableForSeating rt d (hold_input a None) (the (ha_tableId a))
               (ae_now e) (ae_dbNow e) of
          Inl (TableAllocationError code) \<Rightarrow> Inl (hold_conflict a)
        | Inl err \<Rightarrow> Inl err
        | Inr _ \<Rightarrow> Inr (the (ha_tableId a))))"

definition same_slot_hold :: "hold_args \<Rightarrow> id option \<Rightarrow> hold_row \<Rightarrow> bool" where
  "same_slot_hold a tableId h \<longleftrightarrow>
     h_restaurantId h = ha_restaurantId a \<and> h_slotStart h = ha_slotStart a \<and> h_type h = HOLD \<and>
     h_status h = H_ACTIVE \<and>
     (if truthy tableId then h_tableId h = tableId
      else h_partySize h = ha_partySize a \<and> h_tableId h = None)"

text \<open>
  One run of the transaction on the committed state \<open>d\<close>: the state it leaves, its outcome, and the
  table that was attempted, when it got that far with an allocation.
\<close>

definition hold_tx ::
    "runtime \<Rightarrow> hold_args \<Rightarrow> attempt_env \<Rightarrow> instant \<Rightarrow> db \<Rightarrow> db \<times> (err + hold_row) \<times> id option" where
  "hold_tx rt a e expiresAt d =
    (case ae_fault e of
       Some err \<Rightarrow> (d, Inl (DbError err), None)
     | None \<Rightarrow>
       (case hold_table_choice rt a e d of
          Inl err \<Rightarrow> (d, Inl err, None)
        | Inr tableId \<Rightarrow>
            let attempted = (if truthy (ha_tableId a) then None else Some tableId) in
            if list_ex (same_slot_hold a (Some tableId)) (holds d)
            then (d, Inl (hold_conflict a), attempted)
            else
              let h = new_hold a HOLD (ae_newId e) (ae_token e) expiresAt (Some tableId) (ae_now e);
                  d1 = ae_race e d
              in (case insertHoldRow h d1 of
                    Inl err \<Rightarrow> (d1, Inl err, attempted)
                  | Inr d2 \<Rightarrow>
                      (log_audit (hold_audit ''hold_created'' (h_id h) None (ha_actor a)) d2,
                       Inr h, attempted))))"

section \<open>Expiry\<close>

definition overdue :: "instant \<Rightarrow> hold_row \<Rightarrow> bool" where
  "overdue now h \<longleftrightarrow> h_status h = H_ACTIVE \<and> h_expiresAt h < now"

definition expire_row :: "hold_row \<Rightarrow> hold_row" where
  "expire_row h = h\<lparr>h_status := H_EXPIRED\<rparr>"

text \<open>The loop shared by the sweeps: a conditional update per row, an audit row when it took.\<close>

fun expire_rows :: "(hold_row \<Rightarrow> audit_row) \<Rightarrow> instant \<Rightarrow> hold_row list \<Rightarrow> db \<Rightarrow> db \<times> hold_row list" where
  "expire_rows entry now [] d = (d, [])"
| "expire_rows entry now (h # hs) d =
    (let p = (\<lambda>x. h_id x = h_id h \<and> overdue now x);
         n = count_where p (holds d);
         d1 = d\<lparr>holds := upd_where p expire_row (holds d)\<rparr>
     in if n \<noteq> 1 then expire_rows entry now hs d1
        else let (d', swept) = expire_rows entry now hs (log_audit (entry h) d1) in (d', h # swept))"

definition expiry_event :: "hold_row \<Rightarrow> string" where
  "expiry_event h = (if h_type h = QUOTE then ''quote_expired'' else ''hold_expired'')"

definition expireOverdue :: "instant \<Rightarrow> db \<Rightarrow> db \<times> nat" where
  "expireOverdue now d =
    (let (d1, swept) = expire_rows (\<lambda>h. hold_audit (expiry_event h) (h_id h) None ''system:expire-worker'')
           now (filter (overdue now) (holds d)) d
     in (fold invalidateAvailability (js_set (map h_restaurantId swept)) d1, length swept))"

definition expireOverdueForSlot :: "id \<Rightarrow> instant \<Rightarrow> instant \<Rightarrow> db \<Rightarrow> db" where
  "expireOverdueForSlot restaurantId slotStart now d =
     fst (expire_rows (\<lambda>h. hold_audit ''hold_expired'' (h_id h) None ''system:hold-service'') now
       (filter (\<lambda>h. h_restaurantId h = restaurantId \<and> h_slotStart h = slotStart \<and> h_type h = HOLD \<and>
                    overdue now h) (holds d)) d)"

definition expireOne :: "id \<Rightarrow> hold_type option \<Rightarrow> instant \<Rightarrow> string option \<Rightarrow> db \<Rightarrow> db \<times> bool" where
  "expireOne holdId expectedType now actor d =
    (case findHold d holdId of
       None \<Rightarrow> (d, False)
     | Some h \<Rightarrow>
         if expectedType \<noteq> None \<and> expectedType \<noteq> Some (h_type h) then (d, False)
         else if h_status h \<noteq> H_ACTIVE \<or> h_expiresAt h \<ge> now then (d, False)
         else
           let (d1, swept) = expire_rows (\<lambda>h. hold_audit (expiry_event h) (h_id h) None
                 (orElse actor ''system:expire-worker'')) now [h] d
           in if swept = [] then (d1, False)
              else (invalidateAvailability (h_restaurantId h) d1, True))"

section \<open>The attempts of \<open>createHold\<close>\<close>

definition attempted_scope :: "id option \<Rightarrow> hold_args \<Rightarrow> hold_row \<Rightarrow> bool" where
  "attempted_scope attempted a h \<longleftrightarrow> same_slot_hold a attempted h"

text \<open>
  \<open>n\<close> attempts are left; the last argument but one is the variable \<open>attemptedTableId\<close>. The environment
  of an attempt is looked up by its number.
\<close>

fun createHold_loop ::
    "runtime \<Rightarrow> hold_args \<Rightarrow> instant \<Rightarrow> (nat \<Rightarrow> attempt_env) \<Rightarrow> nat \<Rightarrow> nat \<Rightarrow> id option \<Rightarrow> db \<Rightarrow>
     db \<times> (err + hold_row)" where
  "createHold_loop rt a expiresAt env k 0 attempted d = (d, Inl (hold_conflict a))"
| "createHold_loop rt a expiresAt env k (Suc n) attempted d =
    (let e = env k;
         (d1, out, att) = hold_tx rt a e expiresAt (ae_others e d);
         attempted' = (case att of None \<Rightarrow> attempted | Some t \<Rightarrow> Some t)
     in case out of
          Inr h \<Rightarrow>
            (invalidateAvailability (ha_restaurantId a) (add_job (ExpireHoldJob (h_id h) expiresAt) d1), Inr h)
        | Inl err \<Rightarrow>
            if err = DbError P2002 then
              (if list_ex (\<lambda>h. attempted_scope attempted' a h \<and> h_expiresAt h < ae_catchNow e) (holds d1)
               then createHold_loop rt a expiresAt env (Suc k) n attempted'
                      (expireOverdueForSlot (ha_restaurantId a) (ha_slotStart a) (ae_catchNow e) d1)
               else if \<not> truthy (ha_tableId a) \<and> n > 0
               then createHold_loop rt a expiresAt env (Suc k) n attempted' d1
               else (d1, Inl (hold_conflict a)))
            else if err = DbError P2028 then
              (if list_ex (\<lambda>h. attempted_scope attempted' a h \<and> ae_catchNow e < h_expiresAt h) (holds d1)
               then (d1, Inl (hold_conflict a))
               else if \<not> truthy attempted' \<and>
                       allocate rt d1 (hold_input a (ha_preferredSectionId a)) True (ae_catchNow e) (ae_dbNow e) = None
               then (d1, Inl (hold_conflict a))
               else (d1, Inl err))
            else (d1, Inl err))"

definition createHold ::
    "runtime \<Rightarrow> hold_args \<Rightarrow> (nat \<Rightarrow> attempt_env) \<Rightarrow> instant \<Rightarrow> db \<Rightarrow> db \<times> (err + hold_row)" where
  "createHold rt a env now d =
     createHold_loop rt a (computeHoldExpiresAt (ha_policy a) now) env 0
       (if truthy (ha_tableId a) then 2 else 4) (ha_tableId a) d"

section \<open>Lookup, consumption, release\<close>

definition findActiveByToken :: "string \<Rightarrow> instant \<Rightarrow> db \<Rightarrow> hold_row option" where
  "findActiveByToken token now d =
     find (\<lambda>h. (h_holdToken h = Some token \<or> h_quoteToken h = Some token) \<and>
               h_status h = H_ACTIVE \<and> now < h_expiresAt h) (holds d)"

text \<open>The clock is read three times: \<open>checkAt\<close>, \<open>guardAt\<close> and \<open>consumedAt\<close>.\<close>

record consume_args =
  co_holdId :: id
  co_reservationId :: id
  co_actor :: string
  co_checkAt :: instant
  co_guardAt :: instant
  co_consumedAt :: instant

definition consumable :: "consume_args \<Rightarrow> hold_row \<Rightarrow> bool" where
  "consumable c h \<longleftrightarrow>
     h_id h = co_holdId c \<and> h_type h = HOLD \<and> h_status h = H_ACTIVE \<and> co_guardAt c < h_expiresAt h"

definition consume_row :: "consume_args \<Rightarrow> hold_row \<Rightarrow> hold_row" where
  "consume_row c h =
     h\<lparr>h_status := H_CONSUMED, h_consumedAt := Some (co_consumedAt c),
       h_reservationId := Some (co_reservationId c)\<rparr>"

text \<open>
  The branch on an expired hold writes \<open>EXPIRED\<close> and throws inside the same transaction, which
  discards the write: the state it leaves is \<open>d\<close>.
\<close>

definition consumeHold :: "consume_args \<Rightarrow> (db \<Rightarrow> db) \<Rightarrow> db \<Rightarrow> db \<times> (err + hold_row)" where
  "consumeHold c race d =
    (case findHold d (co_holdId c) of
       None \<Rightarrow> (d, Inl HoldNotFoundError)
     | Some h \<Rightarrow>
         if h_status h = H_CONSUMED then (d, Inl (HoldAlreadyConsumedError (h_id h)))
         else if h_type h \<noteq> HOLD then (d, Inl HoldNotFoundError)
         else if h_status h = H_EXPIRED \<or> h_expiresAt h < co_checkAt c
         then in_tx (\<lambda>d. write_then_throw
                (d\<lparr>holds := upd_where (\<lambda>x. h_id x = h_id h \<and> overdue (co_guardAt c) x)
                                expire_row (holds d)\<rparr>) HoldNotFoundError) d
         else
           let d1 = race d;
               d2 = d1\<lparr>holds := upd_where (consumable c) (consume_row c) (holds d1)\<rparr>
           in if count_where (consumable c) (holds d1) \<noteq> 1 then
                (d1, Inl (case findHold d1 (h_id h) of
                            Some l \<Rightarrow> if h_status l = H_CONSUMED then HoldAlreadyConsumedError (h_id h)
                                      else HoldNotFoundError
                          | None \<Rightarrow> HoldNotFoundError))
              else (case findHold d2 (h_id h) of
                      None \<Rightarrow> (d1, Inl (DbError P2025))
                    | Some updated \<Rightarrow>
                        (invalidateAvailability (h_restaurantId updated)
                           (log_audit (hold_audit ''hold_consumed'' (h_id h) (Some (co_reservationId c)) (co_actor c)) d2),
                         Inr updated)))"

definition releaseHold :: "id \<Rightarrow> string \<Rightarrow> db \<Rightarrow> db" where
  "releaseHold holdId actor d =
    (case findHold d holdId of
       None \<Rightarrow> d
     | Some h \<Rightarrow>
         if h_status h \<noteq> H_ACTIVE then d
         else invalidateAvailability (h_restaurantId h)
                (log_audit (hold_audit ''hold_released'' (h_id h) None actor)
                  (d\<lparr>holds := upd_where (\<lambda>x. h_id x = h_id h) (\<lambda>x. x\<lparr>h_status := H_RELEASED\<rparr>) (holds d)\<rparr>)))"

section \<open>The life of a hold\<close>

fun hold_edge :: "hold_status \<Rightarrow> hold_status \<Rightarrow> bool" where
  "hold_edge H_ACTIVE t = (t \<noteq> H_ACTIVE)"
| "hold_edge _ t = False"

definition hold_status_of :: "db \<Rightarrow> id \<Rightarrow> hold_status option" where
  "hold_status_of d i = map_option h_status (find (\<lambda>h. h_id h = i) (holds d))"

text \<open>
  One state evolves to another when the index of active holds is still respected and every hold is
  still there, at its status or moved along an edge.
\<close>

definition hold_le :: "db \<Rightarrow> db \<Rightarrow> bool" where
  "hold_le d d' \<longleftrightarrow> (holds_ok (holds d) \<longrightarrow> holds_ok (holds d')) \<and>
     (\<forall>i s. hold_status_of d i = Some s \<longrightarrow>
        (\<exists>s'. hold_status_of d' i = Some s' \<and> hold_edge\<^sup>*\<^sup>* s s'))"

lemma hold_le_same: "holds d' = holds d \<Longrightarrow> hold_le d d'"
  by (auto simp: hold_le_def hold_status_of_def)

lemma hold_le_refl [simp, intro]: "hold_le d d"
  by (simp add: hold_le_same)

lemma hold_le_trans: "hold_le d d1 \<Longrightarrow> hold_le d1 d2 \<Longrightarrow> hold_le d d2"
  unfolding hold_le_def by (meson rtranclp_trans)

lemma hold_le_frame [simp]:
  "hold_le d (log_audit a d') \<longleftrightarrow> hold_le d d'" "hold_le (log_audit a d) d' \<longleftrightarrow> hold_le d d'"
  "hold_le d (invalidateAvailability r d') \<longleftrightarrow> hold_le d d'" "hold_le d (add_job j d') \<longleftrightarrow> hold_le d d'"
  by (simp_all add: hold_le_def hold_status_of_def)

lemma hold_le_insert: "insertHoldRow h d = Inr d' \<Longrightarrow> hold_le d d'"
  using holds_ok_insert [of d h d']
  by (auto simp: hold_le_def insertHoldRow_ok hold_status_of_def find_append split: option.splits)

lemma hold_le_update:
  assumes "holds d' = upd_where p f (holds d)"
    and "\<And>h. p h \<Longrightarrow> h_id (f h) = h_id h \<and> h_status (f h) \<noteq> H_ACTIVE"
    and "\<And>h i. find (\<lambda>x. h_id x = i) (holds d) = Some h \<Longrightarrow> p h \<Longrightarrow> h_status h = H_ACTIVE"
  shows "hold_le d d'"
  unfolding hold_le_def
proof (intro conjI allI impI)
  show "holds_ok (holds d) \<Longrightarrow> holds_ok (holds d')"
    unfolding assms(1) by (rule holds_ok_deactivate) (use assms(2) in \<open>auto simp: active_hold_def\<close>)
  fix i s
  assume "hold_status_of d i = Some s"
  then show "\<exists>s'. hold_status_of d' i = Some s' \<and> hold_edge\<^sup>*\<^sup>* s s'"
    unfolding hold_status_of_def assms(1)
    by (rule status_after_update) (use assms(2,3) in auto)
qed

lemma invalidate_holds [simp]: "holds (fold invalidateAvailability rs d) = holds d"
  by (induction rs arbitrary: d) simp_all

lemma hold_le_expire_rows: "expire_rows entry now hs d = (d', swept) \<Longrightarrow> hold_le d d'"
proof (induction hs arbitrary: d d' swept)
  case (Cons h hs)
  let ?p = "\<lambda>x. h_id x = h_id h \<and> overdue now x"
  let ?d1 = "d\<lparr>holds := upd_where ?p expire_row (holds d)\<rparr>"
  have step: "hold_le d ?d1"
    by (rule hold_le_update [where p = ?p and f = expire_row])
      (auto simp: expire_row_def overdue_def)
  have "hold_le ?d1 d'"
  proof (cases "count_where ?p (holds d) = 1")
    case True
    then obtain swept' where "expire_rows entry now hs (log_audit (entry h) ?d1) = (d', swept')"
      using Cons.prems by (auto simp: Let_def split: prod.splits)
    from Cons.IH [OF this] show ?thesis by simp
  next
    case False
    then have "expire_rows entry now hs ?d1 = (d', swept)"
      using Cons.prems by (simp add: Let_def)
    from Cons.IH [OF this] show ?thesis .
  qed
  with step show ?case by (rule hold_le_trans)
qed simp

definition calm :: "attempt_env \<Rightarrow> bool" where
  "calm e \<longleftrightarrow> (\<forall>d. hold_le d (ae_others e d) \<and> hold_le d (ae_race e d))"

lemma hold_le_tx:
  assumes "calm e" "hold_tx rt a e expiresAt d = (d', out, att)"
  shows "hold_le d d'"
proof -
  have race: "hold_le d (ae_race e d)" using assms(1) by (simp add: calm_def)
  moreover have "insertHoldRow h (ae_race e d) = Inr d2 \<Longrightarrow> hold_le d d2" for h d2
    by (rule hold_le_trans [OF race hold_le_insert])
  ultimately show ?thesis
    using assms(2) unfolding hold_tx_def Let_def
    by (auto split: option.splits sum.splits if_splits)
qed

lemma hold_le_expireOverdueForSlot: "hold_le d (expireOverdueForSlot rid st now d)"
  unfolding expireOverdueForSlot_def by (rule hold_le_expire_rows [OF prod.collapse [symmetric]])

lemma hold_le_createHold_loop:
  assumes "\<And>k. calm (env k)"
  shows "createHold_loop rt a expiresAt env k n attempted d = (d', out) \<Longrightarrow> hold_le d d'"
proof (induction n arbitrary: k attempted d)
  case (Suc n)
  obtain d1 res att where tx: "hold_tx rt a (env k) expiresAt (ae_others (env k) d) = (d1, res, att)"
    by (metis prod_cases3)
  have "hold_le d (ae_others (env k) d)" using assms by (simp add: calm_def)
  then have d1: "hold_le d d1" using hold_le_tx [OF assms tx] by (rule hold_le_trans)
  have again: "createHold_loop rt a expiresAt env (Suc k) n att' d1 = (d', out) \<Longrightarrow> hold_le d d'" for att'
    by (rule hold_le_trans [OF d1 Suc.IH])
  have swept: "createHold_loop rt a expiresAt env (Suc k) n att'
      (expireOverdueForSlot rid st t d1) = (d', out) \<Longrightarrow> hold_le d d'" for att' rid st t
    by (rule hold_le_trans [OF hold_le_trans [OF d1 hold_le_expireOverdueForSlot] Suc.IH])
  show ?case
  proof (cases res)
    case (Inr h)
    then show ?thesis using Suc.prems tx d1 by (auto simp: Let_def)
  next
    case (Inl err)
    then show ?thesis
      using Suc.prems tx d1 by (auto simp: Let_def split: if_splits dest: again swept)
  qed
qed simp

text \<open>Every write of the service, by any process, against a background that evolves as holds do.\<close>

inductive hold_write :: "db \<Rightarrow> db \<Rightarrow> bool" where
  hw_quote: "createQuote a newId token now d = (d', out) \<Longrightarrow> hold_write d d'"
| hw_hold: "createHold rt a env now d = (d', out') \<Longrightarrow> (\<And>k. calm (env k)) \<Longrightarrow> hold_write d d'"
| hw_expire: "expireOverdue now d = (d', n) \<Longrightarrow> hold_write d d'"
| hw_expire_one: "expireOne i ty now actor d = (d', b) \<Longrightarrow> hold_write d d'"
| hw_consume: "consumeHold c race d = (d', res) \<Longrightarrow> (\<And>d. hold_le d (race d)) \<Longrightarrow> hold_write d d'"
| hw_release: "hold_write d (releaseHold i actor d)"

lemma hold_le_consume:
  assumes "consumeHold c race d = (d', res)" "\<And>d. hold_le d (race d)"
  shows "hold_le d d'"
proof -
  have upd: "hold_le (race d) ((race d)\<lparr>holds := upd_where (consumable c) (consume_row c) (holds (race d))\<rparr>)"
    by (rule hold_le_update [where p = "consumable c" and f = "consume_row c"])
      (auto simp: consumable_def consume_row_def)
  note upd' = hold_le_trans [OF assms(2) upd]
  show ?thesis
    using assms(1) upd' assms(2)
    by (auto simp: consumeHold_def Let_def in_tx_def write_then_throw_def
        split: option.splits if_splits)
qed

lemma hold_le_release: "hold_le d (releaseHold i actor d)"
proof (cases "findHold d i")
  case (Some h)
  have hid: "h_id h = i" using find_Some_D [OF Some [unfolded findHold_def]] by simp
  have "hold_le d (d\<lparr>holds := upd_where (\<lambda>x. h_id x = h_id h) (\<lambda>x. x\<lparr>h_status := H_RELEASED\<rparr>) (holds d)\<rparr>)"
    if "h_status h = H_ACTIVE"
  proof (rule hold_le_update [where p = "\<lambda>x. h_id x = h_id h" and f = "\<lambda>x. x\<lparr>h_status := H_RELEASED\<rparr>"])
    fix x j
    assume "find (\<lambda>x. h_id x = j) (holds d) = Some x" "h_id x = h_id h"
    then have "findHold d i = Some x" using hid find_Some_D by (fastforce simp: findHold_def)
    with Some that show "h_status x = H_ACTIVE" by simp
  qed auto
  then show ?thesis using Some by (simp add: releaseHold_def)
qed (simp add: releaseHold_def)

lemma hold_write_le: "hold_write d d' \<Longrightarrow> hold_le d d'"
proof (induction rule: hold_write.induct)
  case (hw_quote a newId token now d d' out)
  show ?case
  proof (cases "insertHoldRow (new_hold a QUOTE newId token (computeQuoteExpiresAt (ha_policy a) now) None now) d")
    case (Inl e)
    with hw_quote show ?thesis by (simp add: createQuote_def Let_def in_tx_def)
  next
    case (Inr d1)
    from hold_le_insert [OF Inr] hw_quote Inr show ?thesis
      by (auto simp: createQuote_def Let_def in_tx_def)
  qed
next
  case (hw_hold rt a env now d d' out')
  then show ?case unfolding createHold_def using hold_le_createHold_loop by blast
next
  case (hw_expire now d d' n)
  obtain d1 swept where sw: "expire_rows (\<lambda>h. hold_audit (expiry_event h) (h_id h) None ''system:expire-worker'')
      now (filter (overdue now) (holds d)) d = (d1, swept)" by fastforce
  then have "holds d' = holds d1" using hw_expire by (auto simp: expireOverdue_def)
  then show ?case using hold_le_expire_rows [OF sw] by (simp add: hold_le_def hold_status_of_def)
next
  case (hw_expire_one i ty now actor d d' b)
  then show ?case
    by (auto simp: expireOne_def simp del: expire_rows.simps
        split: option.splits if_splits prod.splits dest!: hold_le_expire_rows)
next
  case (hw_consume c race d d' res)
  then show ?case by (rule hold_le_consume)
next
  case (hw_release d i actor)
  show ?case by (rule hold_le_release)
qed

interpretation hold_machine: status_machine hold_edge hold_status_of hold_write
  by unfold_locales (use hold_write_le in \<open>unfold hold_le_def, blast\<close>)

text \<open>What the sweep does, in one update.\<close>

lemma expire_rows_all:
  assumes "distinct (map h_id (holds d))" "distinct (map h_id hs)"
    and "\<And>h. h \<in> set hs \<Longrightarrow> \<exists>x \<in> set (holds d). h_id x = h_id h \<and> overdue now x"
  shows "expire_rows entry now hs d =
    (d\<lparr>holds := upd_where (\<lambda>x. h_id x \<in> h_id ` set hs \<and> overdue now x) expire_row (holds d),
       audit := audit d @ map entry hs\<rparr>, hs)"
  using assms
proof (induction hs arbitrary: d)
  case Nil
  then show ?case by (simp add: upd_where_def)
next
  case (Cons h hs)
  let ?p = "\<lambda>x. h_id x = h_id h \<and> overdue now x"
  let ?d1 = "d\<lparr>holds := upd_where ?p expire_row (holds d)\<rparr>"
  obtain x where x: "x \<in> set (holds d)" "h_id x = h_id h" "overdue now x"
    using Cons.prems(3) [of h] by auto
  have one: "count_where ?p (holds d) = 1"
    using count_where_key [OF Cons.prems(1) x(1), of "overdue now"] x(2,3) by simp
  have ids: "map h_id (upd_where ?p expire_row (holds d)) = map h_id (holds d)"
    by (rule map_upd_where_same) (simp add: expire_row_def)
  have rest: "expire_rows entry now hs (log_audit (entry h) ?d1) =
    ((log_audit (entry h) ?d1)\<lparr>
       holds := upd_where (\<lambda>x. h_id x \<in> h_id ` set hs \<and> overdue now x) expire_row (holds ?d1),
       audit := audit (log_audit (entry h) ?d1) @ map entry hs\<rparr>, hs)"
  proof (subst Cons.IH)
    show "distinct (map h_id (holds (log_audit (entry h) ?d1)))" using Cons.prems(1) ids by simp
    show "distinct (map h_id hs)" using Cons.prems(2) by simp
    fix y assume y: "y \<in> set hs"
    obtain z where z: "z \<in> set (holds d)" "h_id z = h_id y" "overdue now z"
      using Cons.prems(3) [of y] y by auto
    have "h_id y \<in> h_id ` set hs" "h_id h \<notin> h_id ` set hs" using Cons.prems(2) y by simp_all
    then have "\<not> ?p z" using z(2) by metis
    then have "z \<in> set (upd_where ?p expire_row (holds d))"
      using z(1) unfolding set_upd_where by force
    then show "\<exists>x \<in> set (holds (log_audit (entry h) ?d1)). h_id x = h_id y \<and> overdue now x"
      using z by auto
  qed simp
  have merge: "upd_where (\<lambda>x. h_id x \<in> h_id ` set hs \<and> overdue now x) expire_row
      (upd_where ?p expire_row (holds d))
    = upd_where (\<lambda>x. h_id x \<in> h_id ` set (h # hs) \<and> overdue now x) expire_row (holds d)"
    unfolding upd_where_def map_map o_def
    by (rule map_cong [OF refl]) (auto simp: expire_row_def overdue_def)
  have d': "(log_audit (entry h) ?d1)\<lparr>
       holds := upd_where (\<lambda>x. h_id x \<in> h_id ` set hs \<and> overdue now x) expire_row (holds ?d1),
       audit := audit (log_audit (entry h) ?d1) @ map entry hs\<rparr>
    = d\<lparr>holds := upd_where (\<lambda>x. h_id x \<in> h_id ` set (h # hs) \<and> overdue now x) expire_row (holds d),
       audit := audit d @ map entry (h # hs)\<rparr>"
    using merge by (simp add: log_audit_def)
  show ?case
    unfolding expire_rows.simps Let_def one using rest unfolding d' by simp
qed

lemma consumed_row:
  assumes ok: "holds_ok (holds d)" and race: "\<And>d. hold_le d (race d)"
    and run: "consumeHold c race d = (d1, Inr h)"
  shows "findHold d1 (co_holdId c) = Some h \<and> h_id h = co_holdId c \<and> h_status h = H_CONSUMED \<and>
    h_reservationId h = Some (co_reservationId c)"
proof -
  let ?r = "race d"
  let ?hs = "upd_where (consumable c) (consume_row c) (holds ?r)"
  obtain h0 where h0: "findHold d (co_holdId c) = Some h0" "h_id h0 = co_holdId c"
    and one: "count_where (consumable c) (holds ?r) = 1"
    and found: "find (\<lambda>x. h_id x = co_holdId c) ?hs = Some h" and d1: "holds d1 = ?hs"
  proof -
    obtain h0 where f: "findHold d (co_holdId c) = Some h0"
      using run by (auto simp: consumeHold_def split: option.splits)
    moreover have "h_id h0 = co_holdId c" using find_Some_D [OF f [unfolded findHold_def]] by simp
    ultimately show thesis
      using run that
      by (auto simp: consumeHold_def Let_def in_tx_def write_then_throw_def findHold_def
          split: if_splits option.splits)
  qed
  have "holds_ok (holds ?r)" using ok race [of d] by (simp add: hold_le_def)
  then have dist: "distinct (map h_id (holds ?r))" by (simp add: table_ok_def)
  obtain x where x: "x \<in> set (holds ?r)" "consumable c x"
    using one count_where_pos [of "consumable c" "holds ?r" 0] by auto
  have xid: "h_id x = co_holdId c" using x(2) by (simp add: consumable_def)
  have "find (\<lambda>y. h_id y = co_holdId c) (holds ?r) = Some x"
    using find_distinct_key [OF dist x(1)] xid by simp
  then have "find (\<lambda>y. h_id y = co_holdId c) ?hs = Some (consume_row c x)"
    using x(2) by (subst find_upd_where) (auto simp: consume_row_def)
  with found have "h = consume_row c x" by simp
  then show ?thesis using found d1 xid by (simp add: findHold_def consume_row_def)
qed

lemma createHold_loop_ok:
  assumes "\<And>k d. ae_race (env k) d = d"
  shows "createHold_loop rt a expiresAt env k n attempted d = (d', Inr h) \<Longrightarrow>
    \<exists>j dj tableId. hold_table_choice rt a (env j) dj = Inr tableId \<and>
      h = new_hold a HOLD (ae_newId (env j)) (ae_token (env j)) expiresAt (Some tableId) (ae_now (env j)) \<and>
      holds d' = holds dj @ [h] \<and> reservations d' = reservations dj \<and> settings d' = settings dj \<and>
      jobs d' = jobs dj @ [ExpireHoldJob (h_id h) expiresAt]"
proof (induction n arbitrary: k attempted d)
  case (Suc n)
  obtain d1 res att where tx: "hold_tx rt a (env k) expiresAt (ae_others (env k) d) = (d1, res, att)"
    by (metis prod_cases3)
  show ?case
  proof (cases res)
    case (Inl err)
    with Suc.prems tx show ?thesis
      by (auto simp: Let_def split: if_splits dest: Suc.IH)
  next
    case (Inr h1)
    let ?d0 = "ae_others (env k) d"
    obtain tableId d2 where t: "hold_table_choice rt a (env k) ?d0 = Inr tableId"
      and h1: "h1 = new_hold a HOLD (ae_newId (env k)) (ae_token (env k)) expiresAt (Some tableId) (ae_now (env k))"
      and ins: "insertHoldRow h1 ?d0 = Inr d2"
      and d1: "d1 = log_audit (hold_audit ''hold_created'' (h_id h1) None (ha_actor a)) d2"
      using tx Inr assms by (auto simp: hold_tx_def Let_def split: option.splits sum.splits if_splits)
    have "d2 = ?d0\<lparr>holds := holds ?d0 @ [h1]\<rparr>" using ins by (simp add: insertHoldRow_ok)
    moreover have "h = h1" "d' = invalidateAvailability (ha_restaurantId a) (add_job (ExpireHoldJob (h_id h) expiresAt) d1)"
      using Suc.prems tx Inr by (auto simp: Let_def)
    ultimately show ?thesis using t h1 d1 by (intro exI [of _ k] exI [of _ ?d0] exI [of _ tableId]) simp
  qed
qed simp

lemma table_choice_free:
  assumes "hold_table_choice rt a e d = Inr tableId"
  shows "isTableAvailable d (ae_dbNow e) (input_check (hold_input a None) tableId)"
proof -
  have same: "input_check (hold_input a s) t = input_check (hold_input a None) t" for s t
    by (simp add: input_check_def hold_input_def)
  show ?thesis
  proof (cases "truthy (ha_tableId a)")
    case True
    then show ?thesis
      using assms same by (auto simp: hold_table_choice_def assertTableAvailableForSeating_def
          split: sum.splits err.splits option.splits if_splits)
  next
    case False
    then obtain t where "allocate rt d (hold_input a (ha_preferredSectionId a)) False (ae_now e) (ae_dbNow e) = Some t"
        "tableId = t_id t"
      using assms by (auto simp: hold_table_choice_def split: option.splits)
    then show ?thesis
      using same [of "ha_preferredSectionId a"]
      by (auto simp: allocate_def split: if_splits dest!: find_Some_D)
  qed
qed

section \<open>A concrete run\<close>

definition ask_hold :: hold_args where
  "ask_hold = \<lparr>ha_restaurantId = ''r'', ha_partySize = 2, ha_slotStart = 7200000, ha_slotEnd = 14400000,
     ha_channel = MCP, ha_policy = default_policy, ha_actor = ''agent:x'', ha_tableId = None,
     ha_preferredSectionId = None\<rparr>"

definition quiet_env :: "nat \<Rightarrow> attempt_env" where
  "quiet_env k = \<lparr>ae_others = (\<lambda>d. d), ae_race = (\<lambda>d. d), ae_fault = None, ae_now = 0, ae_dbNow = 0,
     ae_catchNow = 0, ae_newId = ''h'' @ nat_str k, ae_token = ''tok'' @ nat_str k\<rparr>"

lemma quiet_calm: "calm (quiet_env k)"
  by (simp add: calm_def quiet_env_def)

lemma ask_hold_run:
  obtains d' h where "createHold utc_runtime ask_hold quiet_env 0 plan_of_one_table = (d', Inr h)"
    "h_id h = ''h0''" "h_tableId h = Some ''t''" "holds d' = [h]"
proof -
  obtain d' out where run: "createHold utc_runtime ask_hold quiet_env 0 plan_of_one_table = (d', out)"
    by fastforce
  have "case createHold utc_runtime ask_hold quiet_env 0 plan_of_one_table of
      (_, Inl _) \<Rightarrow> False
    | (d', Inr h) \<Rightarrow> h_id h = ''h0'' \<and> h_tableId h = Some ''t'' \<and> holds d' = [h]" by code_simp
  then show thesis using run that by (cases out) auto
qed

definition use_hold :: consume_args where
  "use_hold = \<lparr>co_holdId = ''h0'', co_reservationId = ''b1'', co_actor = ''agent:x'', co_checkAt = 1,
     co_guardAt = 1, co_consumedAt = 1\<rparr>"

definition held_db :: db where
  "held_db = fst (createHold utc_runtime ask_hold quiet_env 0 plan_of_one_table)"

lemma held_db_ok: "holds_ok (holds held_db)"
proof -
  obtain d' h where "createHold utc_runtime ask_hold quiet_env 0 plan_of_one_table = (d', Inr h)" "holds d' = [h]"
    by (rule ask_hold_run)
  then show ?thesis by (simp add: held_db_def table_ok_def)
qed

section \<open>Properties\<close>



text \<open>
  The partial index of active holds is respected and a closed hold stays closed, over any run of
  the service with any other process that respects the same: two active holds never share a table and a
  start, and a consumed, released or expired hold never changes status again.
\<close>

lemma hold_runs_keep_index:
  assumes "hold_write\<^sup>*\<^sup>* d d'" "holds_ok (holds d)"
  shows "holds_ok (holds d') \<and>
    (\<forall>i s. hold_status_of d i = Some s \<and> s \<noteq> H_ACTIVE \<longrightarrow> hold_status_of d' i = Some s)"
proof -
  have "holds_ok (holds d')"
    using assms by (induction rule: rtranclp_induct) (auto dest: hold_write_le simp: hold_le_def)
  moreover have "hold_status_of d' i = Some s" if "hold_status_of d i = Some s" "s \<noteq> H_ACTIVE" for i s
    by (rule hold_machine.terminal_absorbing [OF assms(1) that(1)]) (use that(2) in \<open>cases s, auto\<close>)
  ultimately show ?thesis by blast
qed

lemma hold_runs_keep_index_witness:
  "\<exists>d' h. hold_write plan_of_one_table d' \<and> holds d' = [h] \<and> holds_ok (holds d')"
proof -
  obtain d' h where run: "createHold utc_runtime ask_hold quiet_env 0 plan_of_one_table = (d', Inr h)"
    "holds d' = [h]" by (rule ask_hold_run)
  have w: "hold_write plan_of_one_table d'" by (rule hw_hold [OF run(1) quiet_calm])
  have ok: "holds_ok (holds plan_of_one_table)"
    by (simp add: plan_of_one_table_def empty_db_def table_ok_def)
  show ?thesis using hold_runs_keep_index [OF r_into_rtranclp [where r = hold_write, OF w] ok] w run(2) by blast
qed

text \<open>
  A new hold is alone on its table: when \<open>createHold\<close> succeeds (no commit between its reads and its
  insert, any commits between its attempts), the hold is recorded active with the expiry of the policy
  and an expiry job, its table carries no reservation over the window, and no other active hold that had
  not expired overlaps it there.
\<close>

lemma created_hold_is_alone_on_its_table:
  assumes "\<And>k d. ae_race (env k) d = d" and "createHold rt a env now d = (d', Inr h)"
  shows "\<exists>k t hs. holds d' = hs @ [h] \<and> h_tableId h = Some t \<and> h_status h = H_ACTIVE \<and>
    h_expiresAt h = computeHoldExpiresAt (ha_policy a) now \<and>
    ExpireHoldJob (h_id h) (h_expiresAt h) \<in> set (jobs d') \<and>
    \<not> hasConflictingReservation d' (input_check (hold_input a None) t) \<and>
    \<not> list_ex (\<lambda>x. h_tableId x = Some t \<and> h_status x = H_ACTIVE \<and> ae_dbNow (env k) < h_expiresAt x \<and>
        tsrange_overlap (h_slotStart x) (h_slotEnd x) (h_slotStart h) (h_slotEnd h)) hs"
proof -
  obtain k dk t where t: "hold_table_choice rt a (env k) dk = Inr t"
    and h: "h = new_hold a HOLD (ae_newId (env k)) (ae_token (env k)) (computeHoldExpiresAt (ha_policy a) now)
        (Some t) (ae_now (env k))"
    and d': "holds d' = holds dk @ [h]" "reservations d' = reservations dk" "settings d' = settings dk"
      "jobs d' = jobs dk @ [ExpireHoldJob (h_id h) (computeHoldExpiresAt (ha_policy a) now)]"
    using createHold_loop_ok [OF assms(1) assms(2) [unfolded createHold_def]] by blast
  note free = table_choice_free [OF t]
  have dur: "service_duration d' = service_duration dk"
    using d'(3) by (simp add: service_duration_def findSettings_def fun_eq_iff)
  have "\<not> hasConflictingReservation d' (input_check (hold_input a None) t)"
    using free d'(2) dur by (simp add: isTableAvailable_def hasConflictingReservation_def)
  moreover have "\<not> list_ex (\<lambda>x. h_tableId x = Some t \<and> h_status x = H_ACTIVE \<and> ae_dbNow (env k) < h_expiresAt x \<and>
        tsrange_overlap (h_slotStart x) (h_slotEnd x) (h_slotStart h) (h_slotEnd h)) (holds dk)"
    using free h by (auto simp: isTableAvailable_def hasConflictingHold_def list_ex_iff input_check_def
        hold_input_def new_hold_def)
  ultimately show ?thesis using h d' by (intro exI [of _ k] exI [of _ t] exI [of _ "holds dk"])
      (simp add: new_hold_def)
qed

lemma created_hold_is_alone_on_its_table_witness:
  "\<exists>d' h hs. createHold utc_runtime ask_hold quiet_env 0 plan_of_one_table = (d', Inr h) \<and>
     holds d' = hs @ [h] \<and> h_tableId h = Some ''t'' \<and> h_expiresAt h = 420000 \<and>
     \<not> hasConflictingReservation d' (input_check (hold_input ask_hold None) ''t'')"
proof -
  obtain d' h where run: "createHold utc_runtime ask_hold quiet_env 0 plan_of_one_table = (d', Inr h)"
    "h_tableId h = Some ''t''" by (rule ask_hold_run)
  have quiet: "ae_race (quiet_env k) d = d" for k d by (simp add: quiet_env_def)
  have ttl: "computeHoldExpiresAt (ha_policy ask_hold) 0 = 420000" by code_simp
  show ?thesis
    using created_hold_is_alone_on_its_table [OF quiet run(1)] run ttl by auto
qed

text \<open>
  The sweep is complete and exact: afterwards no active hold or quote is past its expiry, exactly the
  overdue ones were closed, each with its own audit row, their number is returned, and the availability
  of exactly the restaurants concerned is invalidated, once each.
\<close>

lemma expire_overdue_exact:
  assumes "distinct (map h_id (holds d))"
  shows "let od = filter (overdue now) (holds d); (d', n) = expireOverdue now d in
    holds d' = upd_where (overdue now) expire_row (holds d) \<and>
    \<not> list_ex (overdue now) (holds d') \<and> n = length od \<and>
    audit d' = audit d @ map (\<lambda>h. hold_audit (expiry_event h) (h_id h) None ''system:expire-worker'') od \<and>
    availVersion d' = (\<lambda>r. if r \<in> h_restaurantId ` set od then Suc (availVersion d r) else availVersion d r)"
proof -
  let ?od = "filter (overdue now) (holds d)"
  let ?entry = "\<lambda>h. hold_audit (expiry_event h) (h_id h) None ''system:expire-worker''"
  have dist: "distinct (map h_id ?od)"
    using assms by (simp add: distinct_map inj_on_def)
  have run: "expire_rows ?entry now ?od d =
    (d\<lparr>holds := upd_where (\<lambda>x. h_id x \<in> h_id ` set ?od \<and> overdue now x) expire_row (holds d),
       audit := audit d @ map ?entry ?od\<rparr>, ?od)"
    by (rule expire_rows_all [OF assms dist]) auto
  have rows: "upd_where (\<lambda>x. h_id x \<in> h_id ` set ?od \<and> overdue now x) expire_row (holds d)
      = upd_where (overdue now) expire_row (holds d)"
    unfolding upd_where_def by (rule map_cong [OF refl]) auto
  have fold_v: "availVersion (fold invalidateAvailability rs d0) =
      (\<lambda>r. if r \<in> set rs then Suc (availVersion d0 r) else availVersion d0 r)" if "distinct rs" for rs d0
    using that by (induction rs arbitrary: d0) (auto simp: fun_eq_iff)
  have fold_a: "audit (fold invalidateAvailability rs d0) = audit d0" for rs d0
    by (induction rs arbitrary: d0) simp_all
  show ?thesis
    unfolding expireOverdue_def run rows Let_def
    by (auto simp: fold_v fold_a list_ex_iff set_upd_where overdue_def expire_row_def fun_eq_iff)
qed

lemma expire_overdue_exact_witness:
  "distinct (map h_id (holds held_db)) \<and> snd (expireOverdue 420001 held_db) = 1 \<and>
   \<not> list_ex (overdue 420001) (holds (fst (expireOverdue 420001 held_db)))"
proof -
  have dist: "distinct (map h_id (holds held_db))" using held_db_ok by (simp add: table_ok_def)
  have n: "snd (expireOverdue 420001 held_db) = 1" unfolding held_db_def by code_simp
  show ?thesis
    using expire_overdue_exact [OF dist, of 420001] dist n by (auto simp: Let_def split: prod.splits)
qed

section \<open>Two defects\<close>

text \<open>
  The forced expiry of \<open>consumeHold\<close> is rolled back by the exception that follows it: an active hold
  past its expiry is refused, and is still active afterwards.
\<close>

lemma forced_expiry_is_rolled_back:
  assumes "findHold d (co_holdId c) = Some h" "h_type h = HOLD" "h_status h = H_ACTIVE"
    and "h_expiresAt h < co_checkAt c"
  shows "consumeHold c race d = (d, Inl HoldNotFoundError)"
  using assms by (simp add: consumeHold_def in_tx_def write_then_throw_def)

text \<open>
  A hold that has expired but was not swept yet does not make its table unavailable, so allocation picks
  the table; the check on active holds that follows does not look at the expiry and refuses.
\<close>

definition late_env :: "nat \<Rightarrow> attempt_env" where
  "late_env k = (quiet_env (k + 7))\<lparr>ae_now := 500000, ae_dbNow := 500000, ae_catchNow := 500000\<rparr>"

lemma expired_hold_still_blocks_creation:
  "map_option t_id (allocate utc_runtime held_db (hold_input ask_hold None) False 500000 500000) = Some ''t'' \<and>
   snd (createHold utc_runtime ask_hold late_env 500000 held_db) = Inl (hold_conflict ask_hold)"
  unfolding held_db_def by code_simp

end
