(* ===== verification/Idempotency.thy ===== *)
theory Idempotency
  imports Db "HOL-Library.List_Lexorder"
begin

text \<open>
  Idempotent requests: \<open>modules/agentic-reservations/core/idempotency.service.ts\<close> over the Postgres
  store of \<open>prisma-store.ts\<close>. No caller of the program passes the optional cache; what it would
  answer is the argument \<open>cached\<close> of \<open>lookup\<close>. The time is read once per call. SHA-256 is a
  parameter.
\<close>

section \<open>Scope and payload hash\<close>

fun channel_name :: "channel \<Rightarrow> string" where
  "channel_name PHONE = ''PHONE''"
| "channel_name WEB = ''WEB''"
| "channel_name MCP = ''MCP''"
| "channel_name OPENAI_RESERVE = ''OPENAI_RESERVE''"
| "channel_name ADMIN = ''ADMIN''"
| "channel_name API = ''API''"

definition computeIdempotencyScope :: "id \<Rightarrow> channel \<Rightarrow> string option \<Rightarrow> string" where
  "computeIdempotencyScope restaurantId channel clientId =
    (let client = (if truthy clientId then the clientId else ''unknown'')
     in ''v1:restaurant:'' @ restaurantId @ '':channel:'' @ channel_name channel @ '':client:'' @ client)"

text \<open>\<open>JSON.stringify\<close> on a string and on an integer.\<close>

definition hex_digit :: "nat \<Rightarrow> char" where
  "hex_digit n = (if n < 10 then char_of (48 + n) else char_of (87 + n))"

definition json_escape :: "char \<Rightarrow> string" where
  "json_escape c =
    (let n = of_char c :: nat in
     if n = 34 then [CHR 0x5C, CHR 0x22]
     else if n = 92 then [CHR 0x5C, CHR 0x5C]
     else if n = 8 then [CHR 0x5C, CHR ''b'']
     else if n = 9 then [CHR 0x5C, CHR ''t'']
     else if n = 10 then [CHR 0x5C, CHR ''n'']
     else if n = 12 then [CHR 0x5C, CHR ''f'']
     else if n = 13 then [CHR 0x5C, CHR ''r'']
     else if n < 32 then [CHR 0x5C, CHR ''u'', CHR ''0'', CHR ''0'', hex_digit (n div 16), hex_digit (n mod 16)]
     else [c])"

definition json_quote :: "string \<Rightarrow> string" where
  "json_quote s = [CHR 0x22] @ concat (map json_escape s) @ [CHR 0x22]"

definition int_str :: "int \<Rightarrow> string" where
  "int_str n = (if n < 0 then ''-'' @ nat_str (nat (- n)) else nat_str (nat n))"

fun join :: "string \<Rightarrow> string list \<Rightarrow> string" where
  "join sep [] = []"
| "join sep [x] = x"
| "join sep (x # y # xs) = x @ sep @ join sep (y # xs)"

text \<open>The values of an object are rendered, then the entries are put in the order of their keys.\<close>

fun canonicalize :: "json \<Rightarrow> string"
  and canonical_fields :: "(string \<times> json) list \<Rightarrow> (string \<times> string) list"
  and canonical_items :: "json list \<Rightarrow> string list"
  where
  "canonicalize JNull = ''null''"
| "canonicalize (JBool b) = (if b then ''true'' else ''false'')"
| "canonicalize (JNum n) = int_str n"
| "canonicalize (JStr s) = json_quote s"
| "canonicalize (JArr vs) = ''['' @ join '','' (canonical_items vs) @ '']''"
| "canonicalize (JObj fs) =
    ''{'' @ join '','' (map snd (js_sort (\<lambda>a b. code_cmp (fst a) (fst b)) (canonical_fields fs))) @ ''}''"
| "canonical_fields [] = []"
| "canonical_fields ((k, v) # fs) = (k, json_quote k @ '':'' @ canonicalize v) # canonical_fields fs"
| "canonical_items [] = []"
| "canonical_items (v # vs) = canonicalize v # canonical_items vs"

definition hashPayload :: "runtime \<Rightarrow> json \<Rightarrow> string" where
  "hashPayload rt payload = sha256 rt (canonicalize payload)"

section \<open>The store\<close>

type_synonym idem_key = "string \<times> string"

definition row_key :: "idem_row \<Rightarrow> idem_key" where
  "row_key r = (i_scope r, i_key r)"

definition store_get :: "idem_row list \<Rightarrow> idem_key \<Rightarrow> idem_row option" where
  "store_get rows k = find (\<lambda>r. row_key r = k) rows"

text \<open>\<open>create\<close> under the composite primary key: \<open>None\<close> stands for the unique violation.\<close>

definition store_insert :: "idem_row \<Rightarrow> idem_row list \<Rightarrow> idem_row list option" where
  "store_insert r rows = (if store_get rows (row_key r) \<noteq> None then None else Some (rows @ [r]))"

definition pending_row :: "idem_key \<Rightarrow> string \<Rightarrow> instant \<Rightarrow> idem_row" where
  "pending_row k payloadHash expiresAt =
     \<lparr>i_scope = fst k, i_key = snd k, i_payloadHash = payloadHash, i_reservationId = None,
      i_status = pending, i_expiresAt = expiresAt\<rparr>"

definition insertPending :: "idem_key \<Rightarrow> string \<Rightarrow> instant \<Rightarrow> db \<Rightarrow> err + db" where
  "insertPending k payloadHash expiresAt d =
    (case store_insert (pending_row k payloadHash expiresAt) (idem d) of
       None \<Rightarrow> Inl (DbError P2002)
     | Some rows \<Rightarrow> Inr (d\<lparr>idem := rows\<rparr>))"

definition markCompleted :: "idem_key \<Rightarrow> id \<Rightarrow> db \<Rightarrow> err + db" where
  "markCompleted k reservationId d =
    (case store_get (idem d) k of
       None \<Rightarrow> Inl (DbError P2025)
     | Some _ \<Rightarrow>
         Inr (d\<lparr>idem := upd_where (\<lambda>r. row_key r = k)
            (\<lambda>r. r\<lparr>i_status := completed, i_reservationId := Some reservationId\<rparr>) (idem d)\<rparr>))"

definition markFailed :: "idem_key \<Rightarrow> instant \<Rightarrow> db \<Rightarrow> db" where
  "markFailed k now d =
    (case store_get (idem d) k of
       None \<Rightarrow> d\<lparr>idem := idem d @ [\<lparr>i_scope = fst k, i_key = snd k, i_payloadHash = ''unknown'',
                 i_reservationId = None, i_status = failed, i_expiresAt = now + 24 * 60 * 60 * 1000\<rparr>]\<rparr>
     | Some _ \<Rightarrow> d\<lparr>idem := upd_where (\<lambda>r. row_key r = k) (\<lambda>r. r\<lparr>i_status := failed\<rparr>) (idem d)\<rparr>)"

definition purgeExpired :: "instant \<Rightarrow> db \<Rightarrow> db \<times> nat" where
  "purgeExpired now d =
     (d\<lparr>idem := filter (\<lambda>r. \<not> i_expiresAt r < now) (idem d)\<rparr>,
      count_where (\<lambda>r. i_expiresAt r < now) (idem d))"

section \<open>The service\<close>

datatype idem_lookup = Miss | Hit id | Conflict string

definition lookup ::
    "(id \<times> string) option \<Rightarrow> idem_key \<Rightarrow> string \<Rightarrow> instant \<Rightarrow> db \<Rightarrow> idem_lookup" where
  "lookup cached k payloadHash now d =
    (case cached of
       Some (reservationId, h) \<Rightarrow> if h \<noteq> payloadHash then Conflict h else Hit reservationId
     | None \<Rightarrow>
         (case store_get (idem d) k of
            None \<Rightarrow> Miss
          | Some r \<Rightarrow>
              if i_expiresAt r \<le> now then Miss
              else if i_payloadHash r \<noteq> payloadHash then Conflict (i_payloadHash r)
              else if \<not> truthy (i_reservationId r) then Miss
              else Hit (the (i_reservationId r))))"

datatype reserve_outcome = ReservedKey | ReusedKey

text \<open>
  \<open>race\<close> is what other requests commit between the lookup and the insert, \<open>race2\<close> what they commit
  between a refused insert and the second read.
\<close>

definition reserve ::
    "idem_key \<Rightarrow> string \<Rightarrow> int \<Rightarrow> instant \<Rightarrow> (db \<Rightarrow> db) \<Rightarrow> (db \<Rightarrow> db) \<Rightarrow> db \<Rightarrow> db \<times> (err + reserve_outcome)" where
  "reserve k payloadHash ttlSeconds now race race2 d =
    (case lookup None k payloadHash now d of
       Hit _ \<Rightarrow> (d, Inr ReusedKey)
     | Conflict _ \<Rightarrow> (d, Inl (IdempotencyConflictError (fst k) (snd k)))
     | Miss \<Rightarrow>
         let expiresAt = now + ttlSeconds * 1000;
             d1 = race (fst (purgeExpired now d))
         in (case insertPending k payloadHash expiresAt d1 of
               Inr d2 \<Rightarrow> (d2, Inr ReservedKey)
             | Inl _ \<Rightarrow>
                 let d2 = race2 d1; concurrent = store_get (idem d2) k in
                 if concurrent = None \<or> i_expiresAt (the concurrent) \<le> now then
                   let d3 = fst (purgeExpired now d2) in
                   (case insertPending k payloadHash expiresAt d3 of
                      Inl e \<Rightarrow> (d3, Inl e)
                    | Inr d4 \<Rightarrow> (d4, Inr ReservedKey))
                 else if i_payloadHash (the concurrent) \<noteq> payloadHash
                 then (d2, Inl (IdempotencyConflictError (fst k) (snd k)))
                 else if i_status (the concurrent) = failed
                 then (d2, Inl (IdempotencyConflictError (fst k) (snd k)))
                 else (d2, Inr ReusedKey)))"

definition complete :: "idem_key \<Rightarrow> id \<Rightarrow> db \<Rightarrow> err + db" where
  "complete k reservationId d = markCompleted k reservationId d"

definition fail_key :: "idem_key \<Rightarrow> instant \<Rightarrow> db \<Rightarrow> db" where
  "fail_key k now d = markFailed k now d"

section \<open>Equivalent payloads hash alike\<close>

text \<open>Two payloads are the same when one is obtained from the other by reordering the keys of objects.\<close>

inductive same_json :: "json \<Rightarrow> json \<Rightarrow> bool" where
  same: "same_json v v"
| chain: "same_json u v \<Longrightarrow> same_json v w \<Longrightarrow> same_json u w"
| reorder: "distinct (map fst fs) \<Longrightarrow> mset fs = mset gs \<Longrightarrow> same_json (JObj fs) (JObj gs)"
| in_field: "same_json v w \<Longrightarrow> same_json (JObj (fs @ (k, v) # gs)) (JObj (fs @ (k, w) # gs))"
| in_item: "same_json v w \<Longrightarrow> same_json (JArr (us @ v # vs)) (JArr (us @ w # vs))"

lemma code_cmp_le:
  "code_cmp a b \<le> 0 \<longleftrightarrow> map (of_char :: char \<Rightarrow> nat) a \<le> map of_char b"
  by (induction a b rule: code_cmp.induct) auto

lemma js_sort_distinct_unique:
  fixes key :: "'a \<Rightarrow> 'k::linorder"
  assumes cmp: "\<And>x y. cmp x y \<le> 0 \<longleftrightarrow> key x \<le> key y"
    and "distinct (map key xs)" "mset xs = mset ys"
  shows "js_sort cmp xs = js_sort cmp ys"
proof -
  have ref: "refines_key cmp key"
    unfolding refines_key_def cmp by auto
  have sets: "set xs = set ys" using assms(3) by (metis set_mset_mset)
  have dist: "distinct (map key (js_sort cmp zs))" if "mset zs = mset xs" for zs
  proof -
    have "mset (map key (js_sort cmp zs)) = mset (map key xs)" using that by simp
    then show ?thesis using assms(2) mset_eq_imp_distinct_iff by blast
  qed
  have "inj_on key (set xs)" using assms(2) by (simp add: distinct_map)
  then show ?thesis
    using sorted_js_sort [OF ref] dist [of xs] dist [of ys] assms(3) sets
    by (intro map_sorted_distinct_set_unique [where f = key]) auto
qed

lemma canonical_fields_map:
  "canonical_fields fs = map (\<lambda>(k, v). (k, json_quote k @ '':'' @ canonicalize v)) fs"
  by (induction fs) auto

lemma canonical_items_map: "canonical_items vs = map canonicalize vs"
  by (induction vs) auto

lemma canonicalize_same: "same_json v w \<Longrightarrow> canonicalize v = canonicalize w"
proof (induction rule: same_json.induct)
  case (reorder fs gs)
  have keys: "map fst (canonical_fields fs) = map fst fs" for fs
    by (simp add: canonical_fields_map case_prod_beta)
  have "distinct (map (\<lambda>p. map (of_char :: char \<Rightarrow> nat) (fst p)) (canonical_fields fs))"
  proof -
    have "inj (map (of_char :: char \<Rightarrow> nat))" by (simp add: inj_of_char)
    then have "distinct (map (map (of_char :: char \<Rightarrow> nat)) (map fst (canonical_fields fs)))"
      using reorder(1) unfolding keys by (metis distinct_map inj_on_subset subset_UNIV)
    then show ?thesis by (simp add: comp_def)
  qed
  then have "js_sort (\<lambda>a b. code_cmp (fst a) (fst b)) (canonical_fields fs)
      = js_sort (\<lambda>a b. code_cmp (fst a) (fst b)) (canonical_fields gs)"
    using reorder(2)
    by (intro js_sort_distinct_unique [where key = "\<lambda>p. map of_char (fst p)"])
      (simp_all add: code_cmp_le canonical_fields_map)
  then show ?case by simp
qed (simp_all add: canonical_fields_map canonical_items_map)

text \<open>
  Two payloads that differ only in the order of the keys of their objects, at any depth, have the
  same hash, whatever the hash function is: such a retry is recognised as the same request.
\<close>

lemma equal_payloads_hash_alike:
  "same_json v w \<Longrightarrow> hashPayload rt v = hashPayload rt w"
  by (simp add: hashPayload_def canonicalize_same)

lemma equal_payloads_hash_alike_witness:
  "hashPayload utc_runtime (JArr [JObj [(''b'', JNum 1), (''a'', JStr ''x'')]])
     = hashPayload utc_runtime (JArr [JObj [(''a'', JStr ''x''), (''b'', JNum 1)]])"
proof (rule equal_payloads_hash_alike)
  have "same_json (JObj [(''b'', JNum 1), (''a'', JStr ''x'')]) (JObj [(''a'', JStr ''x''), (''b'', JNum 1)])"
    by (rule same_json.reorder) simp_all
  from same_json.in_item [OF this, of "[]" "[]"]
  show "same_json (JArr [JObj [(''b'', JNum 1), (''a'', JStr ''x'')]])
     (JArr [JObj [(''a'', JStr ''x''), (''b'', JNum 1)]])"
    by simp
qed

section \<open>A key is reserved by one request\<close>

text \<open>What the service asks of its store: a read sees the last write, and a taken key is refused.\<close>

locale exclusive_store =
  fixes get :: "'s \<Rightarrow> 'k \<Rightarrow> 'r option"
    and put :: "'r \<Rightarrow> 's \<Rightarrow> 's option"
    and key :: "'r \<Rightarrow> 'k"
  assumes put_taken: "put r s = None \<longleftrightarrow> get s (key r) \<noteq> None"
    and get_put: "put r s = Some s' \<Longrightarrow> get s' k = (if k = key r then Some r else get s k)"
begin

lemma put_free: "put r s = Some s' \<Longrightarrow> get s (key r) = None"
  using put_taken [of r s] by auto

lemma put_keeps: "put r s = Some s' \<Longrightarrow> get s k = Some x \<Longrightarrow> get s' k = Some x"
  using put_free [of r s s'] by (auto simp: get_put)

lemma put_excludes: "put r s = Some s' \<Longrightarrow> key r' = key r \<Longrightarrow> put r' s' = None"
  by (simp add: put_taken get_put)

end

interpretation idem_store: exclusive_store store_get store_insert row_key
  by unfold_locales (auto simp: store_insert_def store_get_def find_append dest: find_Some_D
      split: option.splits if_splits)

lemma insertPending_Inr:
  assumes "insertPending k h e d = Inr d'"
  shows "store_insert (pending_row k h e) (idem d) = Some (idem d')"
  using assms by (auto simp: insertPending_def split: option.splits)

lemma row_key_pending [simp]: "row_key (pending_row k h e) = k"
  by (simp add: row_key_def pending_row_def)

lemma row_key_update [simp]:
  "row_key (r\<lparr>i_status := st\<rparr>) = row_key r" "row_key (r\<lparr>i_reservationId := v\<rparr>) = row_key r"
  by (simp_all add: row_key_def)

lemma find_filter_same:
  "find p xs = Some x \<Longrightarrow> q x \<Longrightarrow> find p (filter q xs) = Some x"
  by (induction xs) (auto split: if_splits)

text \<open>\<open>held T h k d\<close>: the key is taken until \<open>T\<close> by a request whose payload hashes to \<open>h\<close>.\<close>

definition held :: "instant \<Rightarrow> string \<Rightarrow> idem_key \<Rightarrow> db \<Rightarrow> bool" where
  "held T h k d \<longleftrightarrow>
     (case store_get (idem d) k of None \<Rightarrow> False | Some r \<Rightarrow> i_expiresAt r = T \<and> i_payloadHash r = h)"

text \<open>What any request may do to the store while the clock is before \<open>T\<close>.\<close>

inductive store_step :: "instant \<Rightarrow> db \<Rightarrow> db \<Rightarrow> bool" for T where
  ins: "insertPending k h e d = Inr d' \<Longrightarrow> store_step T d d'"
| cmpl: "markCompleted k rid d = Inr d' \<Longrightarrow> store_step T d d'"
| fl: "store_step T d (markFailed k now d)"
| purge: "now < T \<Longrightarrow> store_step T d (fst (purgeExpired now d))"
| other: "idem d' = idem d \<Longrightarrow> store_step T d d'"

lemma store_get_key: "store_get rows k = Some r \<Longrightarrow> row_key r = k"
  by (auto simp: store_get_def dest: find_Some_D)

lemma store_get_upd:
  "(\<And>r. row_key (f r) = row_key r) \<Longrightarrow>
   store_get (upd_where (\<lambda>r. row_key r = k) f rows) k'
     = map_option (\<lambda>r. if row_key r = k then f r else r) (store_get rows k')"
  unfolding store_get_def by (rule find_upd_where)

lemma held_markCompleted: "markCompleted k' rid d = Inr d' \<Longrightarrow> held T h k d \<Longrightarrow> held T h k d'"
  by (auto simp: markCompleted_def held_def store_get_upd split: option.splits)

lemma held_markFailed: "held T h k d \<Longrightarrow> held T h k (markFailed k' now d)"
  by (cases "store_get (idem d) k'"; cases "k = k'")
    (auto simp: markFailed_def held_def store_get_upd, auto simp: store_get_def find_append split: option.splits)

lemma held_purge: "now < T \<Longrightarrow> held T h k d \<Longrightarrow> held T h k (fst (purgeExpired now d))"
  by (auto simp: purgeExpired_def held_def store_get_def find_filter_same split: option.splits)

lemma held_step: "store_step T d d' \<Longrightarrow> held T h k d \<Longrightarrow> held T h k d'"
proof (induction rule: store_step.induct)
  case (ins k' h' e d d')
  then show ?case
    using idem_store.put_keeps [OF insertPending_Inr] by (auto simp: held_def split: option.splits)
next
  case (other d' d)
  then show ?case by (simp add: held_def)
qed (blast intro: held_markCompleted held_markFailed held_purge)+

lemma held_run: "(store_step T)\<^sup>*\<^sup>* d d' \<Longrightarrow> held T h k d \<Longrightarrow> held T h k d'"
  by (induction rule: rtranclp_induct) (auto intro: held_step)

lemma held_insert_refused: "held T h k d \<Longrightarrow> \<exists>e. insertPending k h' e' d = Inl e"
  by (auto simp: held_def insertPending_def store_insert_def split: option.splits)

lemma insert_held: "insertPending k h e d = Inr d' \<Longrightarrow> held e h k d'"
  using idem_store.get_put [OF insertPending_Inr, of k h e d d' k]
  by (simp add: held_def) (simp add: pending_row_def)

lemma reserve_held:
  "reserve k h ttl now race race2 d = (d', Inr ReservedKey) \<Longrightarrow> held (now + ttl * 1000) h k d'"
  by (auto simp: reserve_def Let_def intro: insert_held split: idem_lookup.splits sum.splits if_splits)

lemma reserve_while_held:
  assumes h: "held T h k d" and now: "now < T"
    and race: "\<And>x. (store_step T)\<^sup>*\<^sup>* x (race x)" "\<And>x. (store_step T)\<^sup>*\<^sup>* x (race2 x)"
    and run: "reserve k h' ttl now race race2 d = (d', out)"
  shows "out \<noteq> Inr ReservedKey" "h' \<noteq> h \<Longrightarrow> out = Inl (IdempotencyConflictError (fst k) (snd k))"
proof -
  define d1 where "d1 = race (fst (purgeExpired now d))"
  have h1: "held T h k d1"
    unfolding d1_def by (rule held_run [OF race(1) held_purge [OF now h]])
  then have h2: "held T h k (race2 d1)"
    by (rule held_run [OF race(2)])
  obtain e where e: "insertPending k h' (now + ttl * 1000) d1 = Inl e"
    using held_insert_refused [OF h1] by blast
  show "out \<noteq> Inr ReservedKey"
    using run h2 now unfolding reserve_def Let_def d1_def [symmetric] e
    by (auto simp: held_def split: idem_lookup.splits if_splits option.splits)
  have "lookup None k h' now d = Conflict h" if "h' \<noteq> h"
    using h now that by (auto simp: lookup_def held_def split: option.splits)
  then show "out = Inl (IdempotencyConflictError (fst k) (snd k))" if "h' \<noteq> h"
    using run that by (simp add: reserve_def)
qed

text \<open>
  C32. Once a request has reserved an idempotency key, no other request reserves it before it expires,
  whatever requests insert, complete, fail or purge in between and while the second one runs; a
  request with another payload is answered with a conflict.
\<close>

theorem key_reserved_once:
  assumes "reserve k h ttl now race race2 d = (d1, Inr ReservedKey)"
    and "(store_step (now + ttl * 1000))\<^sup>*\<^sup>* d1 d2" "now' < now + ttl * 1000"
    and "\<And>x. (store_step (now + ttl * 1000))\<^sup>*\<^sup>* x (race' x)"
      "\<And>x. (store_step (now + ttl * 1000))\<^sup>*\<^sup>* x (race2' x)"
    and "reserve k h' ttl' now' race' race2' d2 = (d3, out)"
  shows "out \<noteq> Inr ReservedKey \<and>
    (h' \<noteq> h \<longrightarrow> out = Inl (IdempotencyConflictError (fst k) (snd k)))"
  using reserve_while_held [OF held_run [OF assms(2) reserve_held [OF assms(1)]] assms(3-6)] by blast

theorem key_reserved_once_witness:
  "snd (reserve (''s'', ''k'') ''h2'' 60 5000 (\<lambda>x. x) (\<lambda>x. x)
     (fst (reserve (''s'', ''k'') ''h1'' 60 0 (\<lambda>x. x) (\<lambda>x. x) empty_db)))
   = Inl (IdempotencyConflictError ''s'' ''k'')"
proof -
  obtain d1 out where run: "reserve (''s'', ''k'') ''h1'' 60 0 (\<lambda>x. x) (\<lambda>x. x) empty_db = (d1, out)"
    by fastforce
  have "snd (reserve (''s'', ''k'') ''h1'' 60 0 (\<lambda>x. x) (\<lambda>x. x) empty_db) = Inr ReservedKey"
    by code_simp
  with run have out: "out = Inr ReservedKey" by simp
  obtain d3 out' where run2: "reserve (''s'', ''k'') ''h2'' 60 5000 (\<lambda>x. x) (\<lambda>x. x) d1 = (d3, out')"
    by fastforce
  from key_reserved_once [OF run [unfolded out] rtranclp.rtrancl_refl _ rtranclp.rtrancl_refl
      rtranclp.rtrancl_refl run2]
  show ?thesis unfolding run using run2 by simp
qed

text \<open>
  A completed request is replayed: until its key expires the same payload finds the reservation
  it created and reserves nothing, another payload is a conflict, and no other key is affected.
\<close>

lemma completed_request_is_replayed:
  assumes "held T h k d" "now < T" "rid \<noteq> []" "complete k rid d = Inr d'"
  shows "lookup None k h now d' = Hit rid
    \<and> reserve k h ttl now race race2 d' = (d', Inr ReusedKey)
    \<and> (h' \<noteq> h \<longrightarrow> lookup None k h' now d' = Conflict h)
    \<and> (k' \<noteq> k \<longrightarrow> lookup None k' h' now d' = lookup None k' h' now d)"
proof -
  obtain r where r: "store_get (idem d) k = Some r" "i_expiresAt r = T" "i_payloadHash r = h"
    using assms(1) by (auto simp: held_def split: option.splits)
  have get: "store_get (idem d') k'' = (if k'' = k
      then Some (r\<lparr>i_status := completed, i_reservationId := Some rid\<rparr>) else store_get (idem d) k'')" for k''
    using assms(4) r store_get_key [OF r(1)] store_get_key [of "idem d" k'']
    by (cases "store_get (idem d) k''"; cases "k'' = k")
      (auto simp: complete_def markCompleted_def store_get_upd)
  have hit: "lookup None k h now d' = Hit rid"
    using r assms(2,3) by (simp add: lookup_def get)
  then show ?thesis
    using r assms(2) by (simp add: reserve_def) (simp add: lookup_def get)
qed

lemma completed_request_is_replayed_witness:
  "lookup None (''s'', ''k'') ''h'' 7
     (case complete (''s'', ''k'') ''res'' (fst (reserve (''s'', ''k'') ''h'' 60 0 (\<lambda>x. x) (\<lambda>x. x) empty_db)) of
        Inl _ \<Rightarrow> empty_db | Inr d' \<Rightarrow> d') = Hit ''res''"
proof -
  define d where "d = fst (reserve (''s'', ''k'') ''h'' 60 0 (\<lambda>x. x) (\<lambda>x. x) empty_db)"
  have h: "held 60000 ''h'' (''s'', ''k'') d" unfolding d_def by code_simp
  have "\<not> isl (complete (''s'', ''k'') ''res'' d)" unfolding d_def by code_simp
  then obtain d' where d': "complete (''s'', ''k'') ''res'' d = Inr d'"
    by (cases "complete (''s'', ''k'') ''res'' d") auto
  from completed_request_is_replayed [OF h _ _ d', of 7] show ?thesis
    unfolding d_def [symmetric] d' by simp
qed

text \<open>
  After a creation that failed, a retry with the very same payload is refused with the conflict
  error, whose message says that the payload is different.
\<close>

lemma failed_request_retry_is_a_conflict:
  assumes "held T h k d" "now < T" "store_get (idem (fail_key k now d)) k = Some r"
    "\<not> truthy (i_reservationId r)"
  shows "snd (reserve k h ttl now (\<lambda>x. x) (\<lambda>x. x) (fail_key k now d))
    = Inl (IdempotencyConflictError (fst k) (snd k))"
proof -
  define d1 where "d1 = fst (purgeExpired now (fail_key k now d))"
  have h0: "held T h k (fail_key k now d)"
    using assms(1) held_markFailed by (simp add: fail_key_def)
  then have r: "i_expiresAt r = T" "i_payloadHash r = h"
    using assms(3) by (auto simp: held_def)
  have st: "i_status r = failed"
    using assms(1,3) by (auto simp: held_def fail_key_def markFailed_def store_get_upd
        dest!: store_get_key split: option.splits if_splits)
  have g: "store_get (idem d1) k = Some r"
    using assms(2,3) r unfolding d1_def
    by (auto simp: purgeExpired_def store_get_def intro: find_filter_same)
  have "lookup None k h now (fail_key k now d) = Miss"
    using assms(2-4) r by (simp add: lookup_def)
  moreover have "insertPending k h (now + ttl * 1000) d1 = Inl (DbError P2002)"
    using g by (simp add: insertPending_def store_insert_def)
  ultimately show ?thesis
    using g r st assms(2) by (simp add: reserve_def d1_def [symmetric])
qed

end
