(* ===== verification/Booking.thy ===== *)
theory Booking
  imports Lifecycle Holds Idempotency
begin

text \<open>
  \<open>ReservationService\<close> of \<open>modules/agentic-reservations/core/reservation.service.ts\<close>: the creation of a
  reservation under an idempotency key (policy, hold, customer, placement, insert, confirmation,
  audit). The environment of a call gives its clock, the ids and tokens it draws, the customer the CRM answers, and what other requests commit at the points where
  the code can be overtaken: inside the reservation of the key, before the transaction, and between two
  polls of a request in progress. Inside the transaction the advisory lock of the restaurant
  serialises the writers of capacity. The projections that run after the commit and swallow their
  errors (CRM timeline, marketing attribution, gift card) and the metrics are not modelled, nor are
  the JSON snapshots and consents of the row.
\<close>

section \<open>Input and environment\<close>

record create_input =
  ci_restaurantId :: id
  ci_partySize :: int
  ci_startsAt :: instant
  ci_endsAt :: instant
  ci_customerName :: string
  ci_customerPhone :: string
  ci_customerEmail :: "string option"
  ci_channel :: channel
  ci_policy :: policy_snapshot
  ci_actor :: string
  ci_holdToken :: "string option"
  ci_specialRequests :: "string option"
  ci_allowOverbook :: bool
  ci_tableId :: "id option"
  ci_isTest :: bool

record idem_args =
  ia_scope :: string
  ia_key :: string
  ia_payloadHash :: string
  ia_ttlSeconds :: int

record booking_env =
  be_now :: instant
  be_dbNow :: instant
  be_race :: "db \<Rightarrow> db"
  be_race2 :: "db \<Rightarrow> db"
  be_others :: "db \<Rightarrow> db"
  be_poll :: "nat \<Rightarrow> db \<Rightarrow> db"
  be_customerId :: "id option"
  be_reservationId :: id
  be_holdId :: id
  be_holdToken :: string
  be_eventIds :: "id \<times> id"
  be_beforeCreate :: "db \<Rightarrow> err + db"

record create_result =
  cr_reservationId :: id
  cr_state :: reservation_state
  cr_reused :: bool

abbreviation ia_pair :: "idem_args \<Rightarrow> idem_key" where
  "ia_pair ia \<equiv> (ia_scope ia, ia_key ia)"

definition slot_unavailable :: "create_input \<Rightarrow> err" where
  "slot_unavailable i = ReservationSlotUnavailableError (ci_restaurantId i) (ci_startsAt i) (ci_partySize i)"

section \<open>Waiting for a request in progress\<close>

definition IDEMPOTENCY_POLL_INTERVAL_MS :: int where "IDEMPOTENCY_POLL_INTERVAL_MS = 50"
definition IDEMPOTENCY_MAX_WAIT_ATTEMPTS :: nat where "IDEMPOTENCY_MAX_WAIT_ATTEMPTS = 20"

fun wait_loop ::
    "(nat \<Rightarrow> db \<Rightarrow> db) \<Rightarrow> idem_key \<Rightarrow> string \<Rightarrow> instant \<Rightarrow> nat \<Rightarrow> nat \<Rightarrow> db \<Rightarrow>
     db \<times> (err + create_result option)" where
  "wait_loop poll k h now attempt 0 d = (d, Inr None)"
| "wait_loop poll k h now attempt (Suc n) d =
    (let sleep = wait_loop poll k h (now + IDEMPOTENCY_POLL_INTERVAL_MS) (Suc attempt) n (poll attempt d) in
     case lookup None k h now d of
       Conflict _ \<Rightarrow> (d, Inl (ReservationAlreadyExistsError (snd k)))
     | Hit rid \<Rightarrow>
         (case findReservation d rid of
            Some r \<Rightarrow> (d, Inr (Some \<lparr>cr_reservationId = r_id r, cr_state = r_state r, cr_reused = True\<rparr>))
          | None \<Rightarrow> sleep)
     | Miss \<Rightarrow> sleep)"

definition waitForCompletedIdempotency ::
    "booking_env \<Rightarrow> idem_args \<Rightarrow> db \<Rightarrow> db \<times> (err + create_result option)" where
  "waitForCompletedIdempotency e ia d =
     wait_loop (be_poll e) (ia_pair ia) (ia_payloadHash ia) (be_now e) 0 IDEMPOTENCY_MAX_WAIT_ATTEMPTS d"

definition replay :: "booking_env \<Rightarrow> idem_args \<Rightarrow> db \<Rightarrow> db \<times> (err + create_result)" where
  "replay e ia d =
    (case waitForCompletedIdempotency e ia d of
       (d', Inl err) \<Rightarrow> (d', Inl err)
     | (d', Inr (Some existing)) \<Rightarrow> (d', Inr existing)
     | (d', Inr None) \<Rightarrow> (d', Inl (IdempotencyPendingError (ia_scope ia) (ia_key ia))))"

section \<open>The transaction of a creation\<close>

definition hold_fits :: "create_input \<Rightarrow> hold_row \<Rightarrow> bool" where
  "hold_fits i h \<longleftrightarrow>
     h_restaurantId h = ci_restaurantId i \<and> h_partySize h = ci_partySize i \<and>
     h_slotStart h = ci_startsAt i \<and> h_slotEnd h = ci_endsAt i"

definition findBlockingReservation ::
    "db \<Rightarrow> id \<Rightarrow> instant \<Rightarrow> instant \<Rightarrow> id option \<Rightarrow> reservation_row option" where
  "findBlockingReservation d restaurantId startsAt endsAt excludeReservationId =
     find (\<lambda>r. r_restaurantId r = restaurantId \<and> \<not> r_isTest r \<and>
        (truthy excludeReservationId \<longrightarrow> Some (r_id r) \<noteq> excludeReservationId) \<and>
        reservationOverlapWhere startsAt endsAt (service_duration d restaurantId)
          (r_startsAt r) (r_endsAt r) (r_reservedAt r) \<and>
        r_state r \<in> {PENDING, CONFIRMED, SEATED}) (reservations d)"

definition expireOverdueHoldForSlotTx :: "id \<Rightarrow> int \<Rightarrow> instant \<Rightarrow> instant \<Rightarrow> db \<Rightarrow> db" where
  "expireOverdueHoldForSlotTx restaurantId partySize slotStart now d =
     fst (expire_rows (\<lambda>h. hold_audit ''hold_expired'' (h_id h) None ''system:reservation-service'') now
       (filter (\<lambda>h. h_restaurantId h = restaurantId \<and> h_partySize h = partySize \<and>
                    h_slotStart h = slotStart \<and> h_type h = HOLD \<and> overdue now h) (holds d)) d)"

definition lockActiveHold :: "id \<Rightarrow> instant \<Rightarrow> db \<Rightarrow> err + unit" where
  "lockActiveHold holdId now d =
    (if list_ex (\<lambda>h. h_id h = holdId \<and> h_status h = H_ACTIVE \<and> h_type h = HOLD \<and> now < h_expiresAt h) (holds d)
     then Inr () else Inl (HoldAlreadyConsumedError holdId))"

text \<open>The verdict of placement; with \<open>allowOverbook\<close> it is not asked.\<close>

definition placement :: "runtime \<Rightarrow> create_input \<Rightarrow> booking_env \<Rightarrow> id option \<Rightarrow> id option \<Rightarrow> db \<Rightarrow> seating_verdict option" where
  "placement rt i e tableId holdId d =
    (if ci_allowOverbook i then None
     else Some (findUnassignedSeatingConflict rt d
       \<lparr>sq_restaurantId = ci_restaurantId i, sq_partySize = ci_partySize i,
        sq_startsAt = ci_startsAt i, sq_endsAt = ci_endsAt i, sq_tableId = tableId,
        sq_now = be_now e, sq_excludeReservationId = None, sq_excludeHoldId = holdId\<rparr>))"

definition create_alloc :: "create_input \<Rightarrow> alloc_input" where
  "create_alloc i =
     \<lparr>ai_restaurantId = ci_restaurantId i, ai_partySize = ci_partySize i, ai_startsAt = ci_startsAt i,
      ai_endsAt = ci_endsAt i, ai_preferredSectionId = None, ai_excludeTableIds = [],
      ai_excludeReservationId = None\<rparr>"

definition has_active_table :: "db \<Rightarrow> id \<Rightarrow> bool" where
  "has_active_table d restaurantId =
     list_ex (\<lambda>t. t_isActive t \<and>
       (case floorPlan_of d t of None \<Rightarrow> False
        | Some p \<Rightarrow> fp_restaurantId p = restaurantId \<and> fp_isActive p)) (tables d)"

text \<open>The staff of a restaurant with tables books on a table of its own.\<close>

definition staff_table :: "runtime \<Rightarrow> create_input \<Rightarrow> booking_env \<Rightarrow> id option \<Rightarrow> db \<Rightarrow> err + id option" where
  "staff_table rt i e tableId d =
    (if ci_channel i = ADMIN \<and> take 6 (ci_actor i) = ''staff:'' \<and> \<not> ci_allowOverbook i then
       if has_active_table d (ci_restaurantId i) then
         (case allocate rt d (create_alloc i) False (be_now e) (be_dbNow e) of
            None \<Rightarrow> Inl (slot_unavailable i)
          | Some t \<Rightarrow> Inr (Some (t_id t)))
       else Inr tableId
     else Inr tableId)"

definition take_hold :: "instant \<Rightarrow> hold_row \<Rightarrow> hold_row" where
  "take_hold now h = h\<lparr>h_status := H_CONSUMED, h_consumedAt := Some now\<rparr>"

text \<open>
  The hold of the creation: the caller's, consumed at once, or one made for the occasion, to be
  consumed after the insert. The result is the id of the hold and whether it remains to consume.
\<close>

definition existing_hold :: "create_input \<Rightarrow> booking_env \<Rightarrow> id \<Rightarrow> db \<Rightarrow> err + db \<times> id option \<times> bool" where
  "existing_hold i e holdId d =
    (case findHold d holdId of
       None \<Rightarrow> Inl HoldNotFoundError
     | Some hold \<Rightarrow>
         if h_type hold \<noteq> HOLD then Inl HoldNotFoundError
         else if h_status hold = H_CONSUMED then Inl (HoldAlreadyConsumedError (h_id hold))
         else if h_status hold \<noteq> H_ACTIVE \<or> h_expiresAt hold \<le> be_now e \<or> \<not> hold_fits i hold
         then Inl HoldNotFoundError
         else
           ebind (lockActiveHold (h_id hold) (be_now e) d) (\<lambda>_.
             let p = (\<lambda>h. h_id h = h_id hold \<and> h_type h = HOLD \<and> h_status h = H_ACTIVE \<and>
                          be_now e < h_expiresAt h) in
             if count_where p (holds d) \<noteq> 1 then Inl (HoldAlreadyConsumedError (h_id hold))
             else Inr (d\<lparr>holds := upd_where p (take_hold (be_now e)) (holds d)\<rparr>, Some (h_id hold), False)))"

definition synthetic_hold :: "create_input \<Rightarrow> booking_env \<Rightarrow> hold_row" where
  "synthetic_hold i e =
     \<lparr>h_id = be_holdId e, h_restaurantId = ci_restaurantId i, h_type = HOLD, h_partySize = ci_partySize i,
      h_slotStart = ci_startsAt i, h_slotEnd = ci_endsAt i, h_channel = ci_channel i,
      h_quoteToken = None, h_holdToken = Some (be_holdToken e),
      h_expiresAt = be_now e + ps_holdTtlSeconds (ci_policy i) * 1000, h_consumedAt = None,
      h_status = H_ACTIVE, h_policyVersion = ps_policyVersion (ci_policy i), h_reservationId = None,
      h_createdAt = be_now e, h_tableId = None\<rparr>"

definition hold_phase :: "create_input \<Rightarrow> booking_env \<Rightarrow> id option \<Rightarrow> db \<Rightarrow> err + db \<times> id option \<times> bool" where
  "hold_phase i e holdId d =
    (if truthy holdId then existing_hold i e (the holdId) d
     else if \<not> ci_allowOverbook i then
       let d1 = expireOverdueHoldForSlotTx (ci_restaurantId i) (ci_partySize i) (ci_startsAt i) (be_now e) d in
       (case insertHoldRow (synthetic_hold i e) d1 of
          Inl err \<Rightarrow>
            Inl (if err = DbError P2002
                 then HoldConflictError (ci_restaurantId i) (ci_startsAt i) (ci_partySize i) else err)
        | Inr d2 \<Rightarrow> Inr (d2, Some (be_holdId e), True))
     else Inr (d, None, False))"

text \<open>The table known beforehand must still be free.\<close>

definition table_phase :: "create_input \<Rightarrow> booking_env \<Rightarrow> id option \<Rightarrow> id option \<Rightarrow> db \<Rightarrow> err + unit" where
  "table_phase i e tableId consumedHoldId d =
    (if \<not> truthy tableId then Inr ()
     else
       let belongs = list_ex (\<lambda>t. Some (t_id t) = tableId \<and> t_isActive t \<and>
             ci_partySize i \<le> t_capacity t \<and> t_minCapacity t \<le> ci_partySize i \<and>
             (case floorPlan_of d t of None \<Rightarrow> False
              | Some p \<Rightarrow> fp_restaurantId p = ci_restaurantId i \<and> fp_isActive p)) (tables d);
           locked = lockTable d (the tableId);
           stillAvailable = isTableAvailable d (be_dbNow e)
             \<lparr>tc_tableId = the tableId, tc_startsAt = ci_startsAt i, tc_endsAt = ci_endsAt i,
              tc_excludeReservationId = None, tc_excludeHoldId = consumedHoldId\<rparr>
       in if \<not> belongs \<or> \<not> locked \<or> \<not> stillAvailable then Inl (slot_unavailable i) else Inr ())"

text \<open>Without a floor plan any reservation or hold over the window blocks it.\<close>

definition blocking_phase ::
    "create_input \<Rightarrow> booking_env \<Rightarrow> id option \<Rightarrow> seating_verdict option \<Rightarrow> id option \<Rightarrow> db \<Rightarrow> err + unit" where
  "blocking_phase i e tableId seating consumedHoldId d =
    (if ci_allowOverbook i \<or> truthy tableId \<or> (case seating of None \<Rightarrow> False | Some v \<Rightarrow> hasTables v)
     then Inr ()
     else if findBlockingReservation d (ci_restaurantId i) (ci_startsAt i) (ci_endsAt i) None \<noteq> None
     then Inl (slot_unavailable i)
     else if list_ex (\<lambda>h. h_restaurantId h = ci_restaurantId i \<and> h_type h = HOLD \<and>
               h_status h = H_ACTIVE \<and> be_now e < h_expiresAt h \<and>
               (truthy consumedHoldId \<longrightarrow> Some (h_id h) \<noteq> consumedHoldId) \<and>
               h_slotStart h < ci_endsAt i \<and> ci_startsAt i < h_slotEnd h) (holds d)
     then Inl (slot_unavailable i)
     else Inr ())"

definition initialState :: "create_input \<Rightarrow> reservation_state" where
  "initialState i =
    (if ps_requireManualValidation (ci_policy i) \<and> \<not> ci_isTest i then PENDING else CONFIRMED)"

definition created_row :: "create_input \<Rightarrow> idem_args \<Rightarrow> booking_env \<Rightarrow> id option \<Rightarrow> id option \<Rightarrow> reservation_row" where
  "created_row i ia e tableId consumedHoldId =
     \<lparr>r_id = be_reservationId e, r_restaurantId = ci_restaurantId i,
      r_customerId = (if \<not> ci_isTest i \<and> truthy (be_customerId e) then be_customerId e else None),
      r_customerName = ci_customerName i, r_customerPhone = Some (ci_customerPhone i),
      r_customerEmail = ci_customerEmail i, r_partySize = ci_partySize i,
      r_reservedAt = ci_startsAt i, r_startsAt = Some (ci_startsAt i), r_endsAt = Some (ci_endsAt i),
      r_tableId = tableId, r_state = fst (creationProjection (initialState i)),
      r_status = snd (creationProjection (initialState i)), r_channel = ci_channel i,
      r_isTest = ci_isTest i, r_source = None, r_createdByClient = Some (ci_actor i),
      r_specialRequests = ci_specialRequests i, r_idempotencyScope = Some (ia_scope ia),
      r_idempotencyKey = Some (ia_key ia), r_consumedHoldId = consumedHoldId, r_createdAt = be_now e,
      r_giftCardSnap = None, r_giftCardComplementAmount = None\<rparr>"

definition link_hold :: "create_input \<Rightarrow> booking_env \<Rightarrow> id option \<Rightarrow> bool \<Rightarrow> db \<Rightarrow> err + db" where
  "link_hold i e consumedHoldId consumeNow d =
    (if \<not> truthy consumedHoldId then Inr d
     else
       let hid = the consumedHoldId;
           log = log_audit (hold_audit ''hold_consumed'' hid (Some (be_reservationId e)) (ci_actor i))
       in if consumeNow then
            ebind (lockActiveHold hid (be_now e) d) (\<lambda>_.
              let p = (\<lambda>h. h_id h = hid \<and> h_status h = H_ACTIVE) in
              if count_where p (holds d) \<noteq> 1 then Inl (HoldAlreadyConsumedError hid)
              else Inr (log (d\<lparr>holds := upd_where p
                     (\<lambda>h. (take_hold (be_now e) h)\<lparr>h_reservationId := Some (be_reservationId e)\<rparr>) (holds d)\<rparr>)))
          else if findHold d hid = None then Inl (DbError P2025)
          else Inr (log (d\<lparr>holds := upd_where (\<lambda>h. h_id h = hid)
                  (\<lambda>h. h\<lparr>h_reservationId := Some (be_reservationId e)\<rparr>) (holds d)\<rparr>)))"

definition insert_phase ::
    "runtime \<Rightarrow> create_input \<Rightarrow> idem_args \<Rightarrow> booking_env \<Rightarrow> id option \<Rightarrow> id option \<Rightarrow> bool \<Rightarrow> db \<Rightarrow> err + db" where
  "insert_phase rt i ia e tableId consumedHoldId consumeNow d =
     ebind (be_beforeCreate e d) (\<lambda>d1.
     ebind (insertReservation (created_row i ia e tableId consumedHoldId) d1) (\<lambda>d2.
     ebind (enqueueReservationConfirmation rt (created_row i ia e tableId consumedHoldId)
              (be_eventIds e) (be_now e) d2) (\<lambda>(d3, confirmationRequested).
     ebind (link_hold i e consumedHoldId consumeNow d3) (\<lambda>d4.
       Inr (log_audit
         \<lparr>a_event = ''reservation_created'', a_reservationId = Some (be_reservationId e),
          a_holdId = consumedHoldId, a_actor = ci_actor i, a_fromState = None,
          a_toState = Some (initialState i)\<rparr> d4)))))"

definition create_tx ::
    "runtime \<Rightarrow> create_input \<Rightarrow> idem_args \<Rightarrow> booking_env \<Rightarrow> id option \<Rightarrow> id option \<Rightarrow> db \<Rightarrow> err + db \<times> id" where
  "create_tx rt i ia e tableId0 holdId d =
    (let seating = placement rt i e tableId0 holdId d in
     if (case seating of None \<Rightarrow> False | Some v \<Rightarrow> conflict v) then Inl (slot_unavailable i)
     else
       ebind (staff_table rt i e tableId0 d) (\<lambda>tableId.
       ebind (hold_phase i e holdId d) (\<lambda>(d1, consumedHoldId, consumeNow).
       ebind (table_phase i e tableId consumedHoldId d1) (\<lambda>_.
       ebind (blocking_phase i e tableId seating consumedHoldId d1) (\<lambda>_.
       ebind (insert_phase rt i ia e tableId consumedHoldId consumeNow d1) (\<lambda>d2.
         Inr (d2, be_reservationId e)))))))"

section \<open>The creation\<close>

text \<open>Step 2: the hold named by the token, and the table known before the transaction.\<close>

definition input_hold :: "create_input \<Rightarrow> booking_env \<Rightarrow> db \<Rightarrow> err + id option \<times> id option" where
  "input_hold i e d =
    (let tableId = (if ci_allowOverbook i then None else ci_tableId i) in
     if \<not> truthy (ci_holdToken i) then Inr (None, tableId)
     else
       (case findActiveByToken (the (ci_holdToken i)) (be_now e) d of
          None \<Rightarrow> Inl HoldNotFoundError
        | Some hold \<Rightarrow>
            if \<not> hold_fits i hold \<or> h_type hold \<noteq> HOLD then Inl HoldNotFoundError
            else Inr (Some (h_id hold), orElse_opt tableId (h_tableId hold))))"

text \<open>Steps 3 to 5.\<close>

definition create_keyed ::
    "runtime \<Rightarrow> create_input \<Rightarrow> idem_args \<Rightarrow> booking_env \<Rightarrow> id option \<Rightarrow> id option \<Rightarrow> db \<Rightarrow>
     db \<times> (err + create_result)" where
  "create_keyed rt i ia e holdId tableId d =
    (case reserve (ia_pair ia) (ia_payloadHash ia) (ia_ttlSeconds ia) (be_now e) (be_race e) (be_race2 e) d of
       (d1, Inl err) \<Rightarrow> (d1, Inl err)
     | (d1, Inr ReusedKey) \<Rightarrow> replay e ia d1
     | (d1, Inr ReservedKey) \<Rightarrow>
         (case in_tx (create_tx rt i ia e tableId holdId) (be_others e d1) of
            (d2, Inl err) \<Rightarrow> (fail_key (ia_pair ia) (be_now e) d2, Inl err)
          | (d2, Inr reservationId) \<Rightarrow>
              (case complete (ia_pair ia) reservationId d2 of
                 Inl err \<Rightarrow> (d2, Inl err)
               | Inr d3 \<Rightarrow>
                   (d3, Inr \<lparr>cr_reservationId = reservationId,
                             cr_state = orElse (map_option r_state (findReservation d3 reservationId)) CONFIRMED,
                             cr_reused = False\<rparr>))))"

definition createReservation ::
    "runtime \<Rightarrow> create_input \<Rightarrow> idem_args \<Rightarrow> booking_env \<Rightarrow> db \<Rightarrow> db \<times> (err + create_result)" where
  "createReservation rt i ia e d =
    (let first = (if truthy (ci_holdToken i)
                  then lookup None (ia_pair ia) (ia_payloadHash ia) (be_now e) d else Miss) in
     case first of
       Conflict _ \<Rightarrow> (d, Inl (IdempotencyConflictError (ia_scope ia) (ia_key ia)))
     | Hit _ \<Rightarrow> replay e ia d
     | Miss \<Rightarrow>
         (case validateReservationAgainstPolicy (ci_policy i) (ci_partySize i) (ci_startsAt i) (be_now e) of
            Inl err \<Rightarrow> (d, Inl err)
          | Inr _ \<Rightarrow>
              (case input_hold i e d of
                 Inl err \<Rightarrow> (d, Inl err)
               | Inr (holdId, tableId) \<Rightarrow> create_keyed rt i ia e holdId tableId d)))"

section \<open>What a creation does\<close>

lemma expire_rows_frame:
  "expire_rows entry now hs d = (d', swept) \<Longrightarrow>
   reservations d' = reservations d \<and> idem d' = idem d \<and> tables d' = tables d \<and>
   floorPlans d' = floorPlans d \<and> settings d' = settings d \<and> waiting d' = waiting d"
proof (induction hs arbitrary: d swept)
  case (Cons h hs)
  then show ?case by (auto simp: Let_def split: if_splits prod.splits)
qed simp

lemma expireOverdueHoldForSlotTx_frame [simp]:
  "reservations (expireOverdueHoldForSlotTx rid ps st now d) = reservations d"
  "idem (expireOverdueHoldForSlotTx rid ps st now d) = idem d"
  "waiting (expireOverdueHoldForSlotTx rid ps st now d) = waiting d"
  "tables (expireOverdueHoldForSlotTx rid ps st now d) = tables d"
  unfolding expireOverdueHoldForSlotTx_def using expire_rows_frame [OF prod.collapse [symmetric]] by simp_all

lemma hold_le_expireOverdueHoldForSlotTx: "hold_le d (expireOverdueHoldForSlotTx rid ps st now d)"
  unfolding expireOverdueHoldForSlotTx_def by (rule hold_le_expire_rows [OF prod.collapse [symmetric]])

lemma hold_phase_ok:
  assumes "hold_phase i e holdId d = Inr (d1, c, consumeNow)"
  shows "reservations d1 = reservations d \<and> idem d1 = idem d \<and> waiting d1 = waiting d \<and>
    tables d1 = tables d \<and> hold_le d d1 \<and> (\<not> ci_allowOverbook i \<longrightarrow> c \<noteq> None)"
proof (cases "truthy holdId")
  case True
  then obtain hold where h: "findHold d (the holdId) = Some hold" "h_status hold = H_ACTIVE"
      "c = Some (h_id hold)" "\<not> consumeNow"
      "d1 = d\<lparr>holds := upd_where (\<lambda>h. h_id h = h_id hold \<and> h_type h = HOLD \<and> h_status h = H_ACTIVE \<and>
        be_now e < h_expiresAt h) (take_hold (be_now e)) (holds d)\<rparr>"
    using assms by (auto simp: hold_phase_def existing_hold_def Let_def
        split: option.splits if_splits elim!: ebind_InrE)
  have "hold_le d d1"
    unfolding h(5)
    by (rule hold_le_update [where f = "take_hold (be_now e)" and
          p = "\<lambda>h. h_id h = h_id hold \<and> h_type h = HOLD \<and> h_status h = H_ACTIVE \<and> be_now e < h_expiresAt h"])
      (auto simp: take_hold_def)
  then show ?thesis by (simp add: h)
next
  case False
  show ?thesis
  proof (cases "ci_allowOverbook i")
    case True
    then show ?thesis using assms False by (simp add: hold_phase_def)
  next
    case no: False
    let ?d = "expireOverdueHoldForSlotTx (ci_restaurantId i) (ci_partySize i) (ci_startsAt i) (be_now e) d"
    have ins: "insertHoldRow (synthetic_hold i e) ?d = Inr d1" "c = Some (be_holdId e)"
      using assms False no by (auto simp: hold_phase_def Let_def split: sum.splits)
    have "hold_le d d1"
      by (rule hold_le_trans [OF hold_le_expireOverdueHoldForSlotTx hold_le_insert [OF ins(1)]])
    moreover have "reservations d1 = reservations d" "idem d1 = idem d" "waiting d1 = waiting d"
      "tables d1 = tables d"
      using ins(1) by (simp_all add: insertHoldRow_ok)
    ultimately show ?thesis using ins(2) by simp
  qed
qed

lemma hold_le_relabel:
  assumes "holds d' = upd_where p (\<lambda>h. h\<lparr>h_reservationId := v\<rparr>) (holds d)"
  shows "hold_le d d'"
proof -
  have "holds_ok (holds d) \<Longrightarrow> holds_ok (holds d')"
    unfolding assms by (rule hold_table.frame_ok)
      (auto simp: hold_index_conflict_def active_hold_def split: option.splits)
  moreover have "hold_status_of d' i = hold_status_of d i" for i
    unfolding hold_status_of_def assms
    by (subst find_upd_where [where key = h_id]) (auto simp: option.map_comp comp_def if_distrib
        cong: option.map_cong intro!: option.map_cong)
  ultimately show ?thesis by (simp add: hold_le_def)
qed

lemma link_hold_ok:
  assumes "link_hold i e c consumeNow d = Inr d'"
  shows "reservations d' = reservations d \<and> idem d' = idem d \<and> waiting d' = waiting d \<and>
    outbox d' = outbox d \<and> hold_le d d'"
proof (cases "truthy c \<and> consumeNow")
  case True
  define f where "f = (\<lambda>h. (take_hold (be_now e) h)\<lparr>h_reservationId := Some (be_reservationId e)\<rparr>)"
  have d': "d' = log_audit (hold_audit ''hold_consumed'' (the c) (Some (be_reservationId e)) (ci_actor i))
      (d\<lparr>holds := upd_where (\<lambda>h. h_id h = the c \<and> h_status h = H_ACTIVE) f (holds d)\<rparr>)"
    using True assms unfolding f_def by (auto simp: link_hold_def Let_def split: if_splits elim!: ebind_InrE)
  have "hold_le d (d\<lparr>holds := upd_where (\<lambda>h. h_id h = the c \<and> h_status h = H_ACTIVE) f (holds d)\<rparr>)"
    by (rule hold_le_update [where p = "\<lambda>h. h_id h = the c \<and> h_status h = H_ACTIVE" and f = f])
      (auto simp: take_hold_def f_def)
  then show ?thesis by (simp add: d')
next
  case False
  show ?thesis
  proof (cases "truthy c")
    case True
    then have d': "d' = log_audit (hold_audit ''hold_consumed'' (the c) (Some (be_reservationId e)) (ci_actor i))
      (d\<lparr>holds := upd_where (\<lambda>h. h_id h = the c) (\<lambda>h. h\<lparr>h_reservationId := Some (be_reservationId e)\<rparr>) (holds d)\<rparr>)"
      using False assms by (auto simp: link_hold_def Let_def split: if_splits)
    have "hold_le d (d\<lparr>holds := upd_where (\<lambda>h. h_id h = the c)
        (\<lambda>h. h\<lparr>h_reservationId := Some (be_reservationId e)\<rparr>) (holds d)\<rparr>)"
      by (rule hold_le_relabel) simp
    then show ?thesis by (simp add: d')
  next
    case no: False
    then show ?thesis using assms by (simp add: link_hold_def)
  qed
qed

text \<open>The callback of the adapter reads, and may write other tables.\<close>

definition callback_frame :: "booking_env \<Rightarrow> bool" where
  "callback_frame e \<longleftrightarrow> (\<forall>d d'. be_beforeCreate e d = Inr d' \<longrightarrow>
     reservations d' = reservations d \<and> holds d' = holds d \<and> idem d' = idem d \<and> waiting d' = waiting d)"

lemma hold_le_cong: "holds d1 = holds d1' \<Longrightarrow> holds d2 = holds d2' \<Longrightarrow> hold_le d1 d2 \<longleftrightarrow> hold_le d1' d2'"
  by (simp add: hold_le_def hold_status_of_def)

lemma create_tx_ok:
  assumes "callback_frame e" "create_tx rt i ia e tableId0 holdId d = Inr (d', rid)"
  obtains r where "rid = be_reservationId e" "r_id r = rid"
    "r_restaurantId r = ci_restaurantId i" "r_partySize r = ci_partySize i"
    "r_startsAt r = Some (ci_startsAt i)" "r_endsAt r = Some (ci_endsAt i)" "r_state r = initialState i"
    "r_status r = snd (creationProjection (initialState i))"
    "r_idempotencyKey r = Some (ia_key ia)"
    "\<not> ci_allowOverbook i \<Longrightarrow> r_consumedHoldId r \<noteq> None"
    "\<not> ci_allowOverbook i \<Longrightarrow> \<exists>v. placement rt i e tableId0 holdId d = Some v \<and> \<not> conflict v"
    "truthy (r_tableId r) \<Longrightarrow> \<exists>t \<in> set (tables d). Some (t_id t) = r_tableId r \<and> ci_partySize i \<le> t_capacity t"
    "\<forall>x \<in> set (reservations d). \<not> exclusion_conflict r x \<and> r_id x \<noteq> r_id r"
    "reservations d' = reservations d @ [r]" "idem d' = idem d" "waiting d' = waiting d"
    "hold_le d d'" "\<exists>pre. audit d' = pre @ [\<lparr>a_event = ''reservation_created'', a_reservationId = Some rid,
       a_holdId = r_consumedHoldId r, a_actor = ci_actor i, a_fromState = None, a_toState = Some (r_state r)\<rparr>]"
proof -
  have seat: "\<not> (case placement rt i e tableId0 holdId d of None \<Rightarrow> False | Some v \<Rightarrow> conflict v)"
    using assms(2) by (auto simp: create_tx_def Let_def)
  obtain tableId d1 c cn d2 where
    hp: "hold_phase i e holdId d = Inr (d1, c, cn)" and tp: "table_phase i e tableId c d1 = Inr ()"
    and ip: "insert_phase rt i ia e tableId c cn d1 = Inr d2" and fin: "d' = d2" "rid = be_reservationId e"
    using assms(2) seat unfolding create_tx_def Let_def
    by (auto elim!: ebind_InrE split: if_splits)
  define r where "r = created_row i ia e tableId c"
  obtain d3 d4 d5 b d6 where b1: "be_beforeCreate e d1 = Inr d3" and b2: "insertReservation r d3 = Inr d4"
    and b3: "enqueueReservationConfirmation rt r (be_eventIds e) (be_now e) d4 = Inr (d5, b)"
    and b4: "link_hold i e c cn d5 = Inr d6"
    and b5: "d2 = log_audit \<lparr>a_event = ''reservation_created'', a_reservationId = Some (be_reservationId e),
          a_holdId = c, a_actor = ci_actor i, a_fromState = None, a_toState = Some (initialState i)\<rparr> d6"
    using ip unfolding insert_phase_def r_def by (auto elim!: ebind_InrE)
  note fr1 = assms(1) [unfolded callback_frame_def, rule_format, OF b1]
  note fr3 = appends_events_frame [OF confirmation_frame [OF b3]]
  note fr4 = link_hold_ok [OF b4] and fr0 = hold_phase_ok [OF hp]
  have d4: "d4 = d3\<lparr>reservations := reservations d3 @ [r]\<rparr>"
    "\<forall>x \<in> set (reservations d3). \<not> reservation_unique_conflict r x \<and> \<not> exclusion_conflict r x"
    using b2 by (simp_all add: insertReservation_ok)
  have "hold_le d1 d6"
    using fr4 hold_le_cong [of d1 d5 d6 d6] fr1 fr3(2) d4(1) by simp
  then have hl: "hold_le d d'"
    using fr0 fin b5 by (auto intro: hold_le_trans)
  have tab: "\<exists>t \<in> set (tables d). Some (t_id t) = r_tableId r \<and> ci_partySize i \<le> t_capacity t"
    if "truthy (r_tableId r)"
    using tp that fr0 by (auto simp: table_phase_def Let_def r_def created_row_def list_ex_iff split: if_splits)
  have free: "\<forall>x \<in> set (reservations d). \<not> exclusion_conflict r x \<and> r_id x \<noteq> r_id r"
    using d4(2) fr0 fr1 by (auto simp: reservation_unique_conflict_def)
  show thesis
    by (rule that [OF fin(2) _ _ _ _ _ _ _ _ _ _ tab free _ _ _ hl])
      (use seat fin b5 fr0 fr1 fr3 fr4 d4(1) in \<open>auto simp: r_def created_row_def placement_def
        creationProjection_def\<close>)
qed

text \<open>A live hold of somebody else is still there when the table is checked, so the check sees it.\<close>

lemma expire_rows_keeps:
  "expire_rows entry now hs d = (d', swept) \<Longrightarrow> h \<in> set (holds d) \<Longrightarrow> now \<le> h_expiresAt h \<Longrightarrow> h \<in> set (holds d')"
proof (induction hs arbitrary: d swept)
  case (Cons x hs)
  let ?d1 = "d\<lparr>holds := upd_where (\<lambda>y. h_id y = h_id x \<and> overdue now y) expire_row (holds d)\<rparr>"
  have h: "h \<in> set (holds ?d1)"
    using Cons.prems(2,3) by (force simp: set_upd_where overdue_def image_iff)
  have "\<exists>d2 s2. (d2 = ?d1 \<or> d2 = log_audit (entry x) ?d1) \<and> expire_rows entry now hs d2 = (d', s2)"
    using Cons.prems(1) by (auto simp: Let_def split: if_splits prod.splits)
  then obtain d2 s2 where d2: "d2 = ?d1 \<or> d2 = log_audit (entry x) ?d1" "expire_rows entry now hs d2 = (d', s2)"
    by blast
  show ?case by (rule Cons.IH [OF d2(2) _ Cons.prems(3)]) (use h d2(1) in auto)
qed simp

lemma hold_phase_keeps:
  assumes "hold_phase i e holdId d = Inr (d1, c, consumeNow)"
    and "h \<in> set (holds d)" "be_now e < h_expiresAt h" "Some (h_id h) \<noteq> c"
  shows "h \<in> set (holds d1)"
proof (cases "truthy holdId")
  case True
  then show ?thesis
    using assms by (force simp: hold_phase_def existing_hold_def Let_def set_upd_where image_iff
        split: option.splits if_splits elim!: ebind_InrE)
next
  case False
  have "h \<in> set (holds (expireOverdueHoldForSlotTx (ci_restaurantId i) (ci_partySize i) (ci_startsAt i) (be_now e) d))"
    unfolding expireOverdueHoldForSlotTx_def
    by (rule expire_rows_keeps [OF prod.collapse [symmetric]]) (use assms(2,3) in auto)
  then show ?thesis
    using assms False by (auto simp: hold_phase_def Let_def insertHoldRow_ok split: if_splits sum.splits)
qed

lemma create_tx_no_hold_conflict:
  assumes "callback_frame e" "create_tx rt i ia e tableId0 holdId d = Inr (d', rid)"
    and "reservations d' = reservations d @ [r]" "truthy (r_tableId r)"
    and "h \<in> set (holds d)" "h_tableId h = r_tableId r" "h_status h = H_ACTIVE"
      "be_now e < h_expiresAt h" "be_dbNow e < h_expiresAt h" "Some (h_id h) \<noteq> r_consumedHoldId r"
  shows "\<not> tsrange_overlap (h_slotStart h) (h_slotEnd h) (ci_startsAt i) (ci_endsAt i)"
proof -
  obtain tableId d1 c cn d2 where
    hp: "hold_phase i e holdId d = Inr (d1, c, cn)" and tp: "table_phase i e tableId c d1 = Inr ()"
    and ip: "insert_phase rt i ia e tableId c cn d1 = Inr d2" and fin: "d' = d2"
    using assms(2) unfolding create_tx_def Let_def by (auto elim!: ebind_InrE split: if_splits)
  have "r = created_row i ia e tableId c"
  proof -
    obtain d3 d4 d5 b d6 where b1: "be_beforeCreate e d1 = Inr d3"
      and b2: "insertReservation (created_row i ia e tableId c) d3 = Inr d4"
      and b3: "enqueueReservationConfirmation rt (created_row i ia e tableId c) (be_eventIds e) (be_now e) d4 = Inr (d5, b)"
      and b4: "link_hold i e c cn d5 = Inr d6" and b5: "reservations d2 = reservations d6"
      using ip unfolding insert_phase_def by (auto elim!: ebind_InrE)
    have "reservations d2 = reservations d @ [created_row i ia e tableId c]"
      using b2 b5 link_hold_ok [OF b4] appends_events_frame [OF confirmation_frame [OF b3]] hold_phase_ok [OF hp]
        assms(1) [unfolded callback_frame_def, rule_format, OF b1] by (simp add: insertReservation_ok)
    then show ?thesis using assms(3) fin by simp
  qed
  then have rt: "r_tableId r = tableId" "r_consumedHoldId r = c" by (simp_all add: created_row_def)
  have "h \<in> set (holds d1)" using hold_phase_keeps [OF hp assms(5,8)] assms(10) rt by simp
  moreover have "\<not> hasConflictingHold d1 (be_dbNow e) \<lparr>tc_tableId = the tableId, tc_startsAt = ci_startsAt i,
      tc_endsAt = ci_endsAt i, tc_excludeReservationId = None, tc_excludeHoldId = c\<rparr>"
    using tp assms(4) rt by (auto simp: table_phase_def Let_def isTableAvailable_def split: if_splits)
  ultimately show ?thesis
    using assms(4,6,7,9,10) rt by (auto simp: hasConflictingHold_def list_ex_iff elim!: truthyE)
qed

lemma status_after_claim:
  assumes "holds_ok (holds d)" "count_where p (holds d) = 1" "\<And>h. p h \<Longrightarrow> h_id h = i"
    "\<And>h. h_id (f h) = h_id h \<and> h_status (f h) = s" "holds d' = upd_where p f (holds d)"
  shows "hold_status_of d' i = Some s"
proof -
  obtain h where h: "h \<in> set (holds d)" "p h" using assms(2) count_where_pos [of p "holds d" 0] by auto
  then have "find (\<lambda>x. h_id x = i) (holds d) = Some h"
    using table_ok_find [OF assms(1) h(1)] assms(3) by simp
  then show ?thesis
    unfolding hold_status_of_def assms(5)
    by (subst find_upd_where [where key = h_id]) (use h assms(4) in auto)
qed

lemma hold_consumed_final:
  assumes "hold_le d d'" "hold_status_of d i = Some H_CONSUMED"
  shows "hold_status_of d' i = Some H_CONSUMED"
proof -
  obtain s where s: "hold_status_of d' i = Some s" "hold_edge\<^sup>*\<^sup>* H_CONSUMED s"
    using assms unfolding hold_le_def by blast
  from s(2) have "s = H_CONSUMED" by (rule converse_rtranclpE) auto
  with s(1) show ?thesis by simp
qed

lemma hold_phase_consumed:
  assumes "holds_ok (holds d)" "hold_phase i e holdId d = Inr (d1, c, False)" "truthy holdId"
  shows "hold_status_of d1 (the c) = Some H_CONSUMED \<and> c = holdId"
proof -
  obtain hold where h: "findHold d (the holdId) = Some hold" "c = Some (h_id hold)"
    and cnt: "count_where (\<lambda>h. h_id h = h_id hold \<and> h_type h = HOLD \<and> h_status h = H_ACTIVE \<and>
        be_now e < h_expiresAt h) (holds d) = 1"
    and d1: "d1 = d\<lparr>holds := upd_where (\<lambda>h. h_id h = h_id hold \<and> h_type h = HOLD \<and> h_status h = H_ACTIVE \<and>
        be_now e < h_expiresAt h) (take_hold (be_now e)) (holds d)\<rparr>"
    using assms(2,3) by (auto simp: hold_phase_def existing_hold_def Let_def
        split: option.splits if_splits elim!: ebind_InrE)
  have "hold_status_of d1 (h_id hold) = Some H_CONSUMED"
    by (rule status_after_claim [OF assms(1) cnt, where f = "take_hold (be_now e)"])
      (auto simp: take_hold_def d1)
  moreover have "holdId = Some (h_id hold)"
    using h(1) assms(3) find_Some_D by (cases holdId) (fastforce simp: findHold_def)+
  ultimately show ?thesis using h(2) by simp
qed

lemma link_hold_consumed:
  assumes "holds_ok (holds d)" "link_hold i e c True d = Inr d'" "truthy c"
  shows "hold_status_of d' (the c) = Some H_CONSUMED"
proof -
  define f where "f = (\<lambda>h. (take_hold (be_now e) h)\<lparr>h_reservationId := Some (be_reservationId e)\<rparr>)"
  have cnt: "count_where (\<lambda>h. h_id h = the c \<and> h_status h = H_ACTIVE) (holds d) = 1"
    and d': "holds d' = upd_where (\<lambda>h. h_id h = the c \<and> h_status h = H_ACTIVE) f (holds d)"
    using assms(2,3) unfolding f_def
    by (auto simp: link_hold_def Let_def split: if_splits elim!: ebind_InrE)
  show ?thesis
    by (rule status_after_claim [OF assms(1) cnt _ _ d']) (auto simp: f_def take_hold_def)
qed

lemma holds_ok_le: "hold_le d d' \<Longrightarrow> holds_ok (holds d) \<Longrightarrow> holds_ok (holds d')"
  by (simp add: hold_le_def)

text \<open>A committed creation leaves the hold it used consumed.\<close>

lemma create_tx_consumes:
  assumes cb: "callback_frame e" and ok: "holds_ok (holds d)"
    and run: "create_tx rt i ia e tableId0 holdId d = Inr (d', rid)"
    and hold: "\<not> ci_allowOverbook i \<or> truthy holdId" "be_holdId e \<noteq> []"
  shows "hold_status_of d' (if truthy holdId then the holdId else be_holdId e) = Some H_CONSUMED"
proof -
  have seat: "\<not> (case placement rt i e tableId0 holdId d of None \<Rightarrow> False | Some v \<Rightarrow> conflict v)"
    using run by (auto simp: create_tx_def Let_def)
  obtain tableId d1 c cn d2 where hp: "hold_phase i e holdId d = Inr (d1, c, cn)"
    and ip: "insert_phase rt i ia e tableId c cn d1 = Inr d2" and fin: "d' = d2"
    using run seat unfolding create_tx_def Let_def by (auto elim!: ebind_InrE split: if_splits)
  obtain d3 d4 d5 b d6 where b1: "be_beforeCreate e d1 = Inr d3"
    and b2: "insertReservation (created_row i ia e tableId c) d3 = Inr d4"
    and b3: "enqueueReservationConfirmation rt (created_row i ia e tableId c) (be_eventIds e) (be_now e) d4 = Inr (d5, b)"
    and b4: "link_hold i e c cn d5 = Inr d6" and b5: "holds d2 = holds d6"
    using ip unfolding insert_phase_def by (auto elim!: ebind_InrE)
  have same: "holds d5 = holds d1"
    using cb [unfolded callback_frame_def, rule_format, OF b1] b2
      appends_events_frame(2) [OF confirmation_frame [OF b3]] by (simp add: insertReservation_ok)
  have ok1: "holds_ok (holds d5)"
    using holds_ok_le [OF _ ok, of d1] hold_phase_ok [OF hp] same by simp
  have st: "hold_status_of d' x = hold_status_of d6 x" for x
    by (simp add: hold_status_of_def fin b5)
  show ?thesis
  proof (cases "truthy holdId")
    case True
    then have "\<not> cn" using hp by (auto simp: hold_phase_def existing_hold_def Let_def
        split: option.splits if_splits elim!: ebind_InrE)
    then have c: "hold_status_of d1 (the c) = Some H_CONSUMED" "c = holdId"
      using hold_phase_consumed [OF ok _ True] hp by simp_all
    then have "hold_status_of d5 (the holdId) = Some H_CONSUMED"
      by (simp add: hold_status_of_def same)
    with link_hold_ok [OF b4] True st show ?thesis by (auto dest: hold_consumed_final)
  next
    case False
    then have "cn" "c = Some (be_holdId e)"
      using hp hold(1) by (auto simp: hold_phase_def Let_def split: sum.splits)
    then show ?thesis
      using link_hold_consumed [OF ok1, of i e c d6] b4 hold(2) False st by simp
  qed
qed

section \<open>What a request does\<close>

lemma wait_loop_reused:
  "wait_loop poll k h now a n d = (d', Inr (Some res)) \<Longrightarrow> cr_reused res"
proof (induction n arbitrary: a d now)
  case (Suc n)
  then show ?case
    by (auto simp: Let_def split: idem_lookup.splits option.splits)
qed simp

lemma replay_reused: "replay e ia d = (d', Inr res) \<Longrightarrow> cr_reused res"
  by (auto simp: replay_def waitForCompletedIdempotency_def dest: wait_loop_reused
      split: sum.splits option.splits prod.splits)

lemma create_freshE:
  assumes "createReservation rt i ia e d = (d', Inr res)" "\<not> cr_reused res"
  obtains d1 d2 holdId tableId where
    "validateReservationAgainstPolicy (ci_policy i) (ci_partySize i) (ci_startsAt i) (be_now e) = Inr ()"
    "input_hold i e d = Inr (holdId, tableId)"
    "reserve (ia_pair ia) (ia_payloadHash ia) (ia_ttlSeconds ia) (be_now e) (be_race e) (be_race2 e) d
       = (d1, Inr ReservedKey)"
    "create_tx rt i ia e tableId holdId (be_others e d1) = Inr (d2, cr_reservationId res)"
    "complete (ia_pair ia) (cr_reservationId res) d2 = Inr d'"
    "cr_state res = orElse (map_option r_state (findReservation d' (cr_reservationId res))) CONFIRMED"
proof -
  have fresh: "replay e ia x \<noteq> (d', Inr res)" for x
    using assms(2) replay_reused by blast
  obtain holdId tableId where v:
    "validateReservationAgainstPolicy (ci_policy i) (ci_partySize i) (ci_startsAt i) (be_now e) = Inr ()"
    "input_hold i e d = Inr (holdId, tableId)" "create_keyed rt i ia e holdId tableId d = (d', Inr res)"
    using assms(1) fresh by (auto simp: createReservation_def Let_def split: idem_lookup.splits sum.splits if_splits)
  from v(3) fresh obtain d1 where r:
    "reserve (ia_pair ia) (ia_payloadHash ia) (ia_ttlSeconds ia) (be_now e) (be_race e) (be_race2 e) d
       = (d1, Inr ReservedKey)"
    by (auto simp: create_keyed_def split: prod.splits sum.splits reserve_outcome.splits)
  from v(3) r obtain d2 rid where t: "in_tx (create_tx rt i ia e tableId holdId) (be_others e d1) = (d2, Inr rid)"
      "complete (ia_pair ia) rid d2 = Inr d'"
      "res = \<lparr>cr_reservationId = rid,
         cr_state = orElse (map_option r_state (findReservation d' rid)) CONFIRMED, cr_reused = False\<rparr>"
    by (auto simp: create_keyed_def split: prod.splits sum.splits)
  show thesis
    by (rule that [OF v(1,2) r]) (use t in \<open>simp_all add: in_tx_ok\<close>)
qed

section \<open>Properties of a creation\<close>

lemma complete_frame:
  "complete k rid d = Inr d' \<Longrightarrow> reservations d' = reservations d \<and> holds d' = holds d \<and>
     waiting d' = waiting d \<and> audit d' = audit d"
  by (auto simp: complete_def markCompleted_def split: option.splits)


definition ask_booking :: create_input where
  "ask_booking = \<lparr>ci_restaurantId = ''r'', ci_partySize = 2, ci_startsAt = 7200000, ci_endsAt = 14400000,
     ci_customerName = ''Ada'', ci_customerPhone = ''+33600000001'', ci_customerEmail = None,
     ci_channel = ADMIN, ci_policy = default_policy, ci_actor = ''staff:1'', ci_holdToken = None,
     ci_specialRequests = None, ci_allowOverbook = False, ci_tableId = None, ci_isTest = False\<rparr>"

definition ask_key :: idem_args where
  "ask_key = \<lparr>ia_scope = ''s'', ia_key = ''k'', ia_payloadHash = ''h'', ia_ttlSeconds = 86400\<rparr>"

definition quiet_booking :: booking_env where
  "quiet_booking = \<lparr>be_now = 0, be_dbNow = 0, be_race = (\<lambda>d. d), be_race2 = (\<lambda>d. d), be_others = (\<lambda>d. d),
     be_poll = (\<lambda>_ d. d), be_customerId = None, be_reservationId = ''b1'', be_holdId = ''h1'',
     be_holdToken = ''tok'', be_eventIds = (''e1'', ''e2''), be_beforeCreate = Inr\<rparr>"

lemma callback_quiet [simp]: "callback_frame quiet_booking"
  by (simp add: callback_frame_def quiet_booking_def)

lemma booked_one:
  obtains d' where "createReservation utc_runtime ask_booking ask_key quiet_booking plan_of_one_table
      = (d', Inr \<lparr>cr_reservationId = ''b1'', cr_state = CONFIRMED, cr_reused = False\<rparr>)"
proof -
  have "snd (createReservation utc_runtime ask_booking ask_key quiet_booking plan_of_one_table)
    = Inr \<lparr>cr_reservationId = ''b1'', cr_state = CONFIRMED, cr_reused = False\<rparr>"
    by code_simp
  then show thesis using that by (metis prod.collapse)
qed




text \<open>Undisturbed calls: nobody commits at the points where they can be overtaken.\<close>

definition alone :: "booking_env \<Rightarrow> bool" where
  "alone e \<longleftrightarrow> (\<forall>d k. be_race e d = d \<and> be_race2 e d = d \<and> be_others e d = d \<and> be_poll e k d = d)"

definition only_idem :: "db \<Rightarrow> db \<Rightarrow> bool" where
  "only_idem d d' \<longleftrightarrow> (\<exists>rows. d' = d\<lparr>idem := rows\<rparr>)"

lemma only_idemI: "d' = d\<lparr>idem := rows\<rparr> \<Longrightarrow> only_idem d d'"
  unfolding only_idem_def by blast

lemma only_idem_refl [simp]: "only_idem d d"
  by (rule only_idemI [where rows = "idem d"]) simp

lemma only_idem_trans: "only_idem d d1 \<Longrightarrow> only_idem d1 d2 \<Longrightarrow> only_idem d d2"
  unfolding only_idem_def by force

lemma only_idem_store:
  "only_idem d (fst (purgeExpired now d))" "only_idem d (fail_key k now d)"
  "insertPending k h e d = Inr d' \<Longrightarrow> only_idem d d'"
  by (auto intro: only_idemI simp: purgeExpired_def fail_key_def markFailed_def insertPending_def
      split: option.splits)

lemma reserve_only_idem:
  assumes "\<And>x. race x = x" "\<And>x. race2 x = x" "reserve k h ttl now race race2 d = (d', out)"
  shows "only_idem d d'"
  using assms(3) unfolding reserve_def Let_def assms(1,2)
  by (auto split: idem_lookup.splits sum.splits if_splits
      intro: only_idem_store(1) only_idem_trans [OF only_idem_store(1) only_idem_store(3)]
        only_idem_trans [OF only_idem_store(1) only_idem_store(1)]
        only_idem_trans [OF only_idem_trans [OF only_idem_store(1) only_idem_store(1)] only_idem_store(3)])

lemma wait_loop_alone:
  "(\<And>k x. poll k x = x) \<Longrightarrow> wait_loop poll k h now a n d = (d', out) \<Longrightarrow> d' = d"
  by (induction n arbitrary: a now d) (auto simp: Let_def split: idem_lookup.splits option.splits)

lemma replay_alone: "alone e \<Longrightarrow> replay e ia d = (d', out) \<Longrightarrow> d' = d"
  unfolding replay_def waitForCompletedIdempotency_def alone_def
  by (auto split: prod.splits sum.splits option.splits dest!: wait_loop_alone [rotated])

lemma create_keyed_error:
  assumes "alone e" "callback_frame e" "create_keyed rt i ia e holdId tableId d = (d', Inl err)"
  shows "only_idem d d'"
proof -
  obtain d1 o1 where r1: "reserve (ia_pair ia) (ia_payloadHash ia) (ia_ttlSeconds ia) (be_now e)
      (be_race e) (be_race2 e) d = (d1, o1)" by fastforce
  have d1: "only_idem d d1"
    by (rule reserve_only_idem [OF _ _ r1]) (use assms(1) in \<open>simp_all add: alone_def\<close>)
  show ?thesis
  proof (cases "o1 = Inr ReservedKey")
    case True
    have same: "be_others e d1 = d1" using assms(1) by (simp add: alone_def)
    show ?thesis
    proof (cases "create_tx rt i ia e tableId holdId d1")
      case (Inl x)
      then have "d' = fail_key (ia_pair ia) (be_now e) d1"
        using assms(3) r1 True same by (simp add: create_keyed_def)
      then show ?thesis using only_idem_trans [OF d1 only_idem_store(2)] by simp
    next
      case (Inr p)
      obtain d2 rid where p: "p = (d2, rid)" by fastforce
      have "idem d2 = idem d1" using assms(2) Inr unfolding p by (elim create_tx_ok) simp
      then have "\<exists>d3. complete (ia_pair ia) rid d2 = Inr d3"
        using reserve_held [OF r1 [unfolded True]]
        by (auto simp: held_def complete_def markCompleted_def split: option.splits)
      then show ?thesis using assms(3) r1 True same Inr p by (auto simp: create_keyed_def)
    qed
  next
    case False
    then show ?thesis
      using assms(1,3) r1 d1 by (auto simp: create_keyed_def split: sum.splits reserve_outcome.splits
          dest: replay_alone)
  qed
qed



end
