(* ===== verification/Booking_Changes.thy ===== *)
theory Booking_Changes
  imports Booking
begin

text \<open>
  The other writers of \<open>ReservationService\<close> (\<open>core/reservation.service.ts\<close>): the modification of a
  reservation under the lock of its creation, the transition to another state and the cancellation,
  which both delegate to the lifecycle service. The CRM and marketing projections after the commit
  are not modelled.
\<close>

section \<open>Modification\<close>

text \<open>\<open>specialRequests\<close> distinguishes absent (\<open>None\<close>), \<open>null\<close> (\<open>Some None\<close>) and a text.\<close>

record modify_args =
  ma_reservationId :: id
  ma_restaurantId :: id
  ma_actor :: string
  ma_publicClient :: bool
  ma_customerPhone :: "string option"
  ma_partySize :: "int option"
  ma_startsAt :: "instant option"
  ma_endsAt :: "instant option"
  ma_customerName :: "string option"
  ma_specialRequests :: "string option option"
  ma_preserveDuration :: bool
  ma_beforeModify :: "db \<Rightarrow> reservation_row \<Rightarrow> err + db"

record modify_result =
  mr_reservation :: reservation_row
  mr_changed :: bool
  mr_capacityChanged :: bool

definition may_modify :: "modify_args \<Rightarrow> reservation_row \<Rightarrow> bool" where
  "may_modify a current \<longleftrightarrow>
     \<not> (ma_publicClient a \<and>
        (r_createdByClient current \<noteq> Some (ma_actor a) \<or> \<not> truthy (ma_customerPhone a) \<or>
         r_customerPhone current \<noteq> ma_customerPhone a))"

definition current_start :: "reservation_row \<Rightarrow> instant" where
  "current_start r = orElse (r_startsAt r) (r_reservedAt r)"

definition new_start :: "modify_args \<Rightarrow> reservation_row \<Rightarrow> instant" where
  "new_start a current = orElse (ma_startsAt a) (current_start current)"

definition new_end :: "modify_args \<Rightarrow> reservation_row \<Rightarrow> instant option" where
  "new_end a current =
    (case (ma_preserveDuration a, ma_startsAt a, r_endsAt current) of
       (True, Some s, Some e) \<Rightarrow> Some (s + e - current_start current)
     | _ \<Rightarrow> orElse_opt (ma_endsAt a) (r_endsAt current))"

definition window_refused :: "modify_args \<Rightarrow> reservation_row \<Rightarrow> instant \<Rightarrow> bool" where
  "window_refused a current now \<longleftrightarrow>
     (take 6 (ma_actor a) \<noteq> ''staff:'' \<or> ma_publicClient a \<or> ma_startsAt a \<noteq> None \<or> ma_partySize a \<noteq> None) \<and>
     (case new_end a current of
        None \<Rightarrow> True
      | Some e \<Rightarrow> e \<le> new_start a current \<or> new_start a current \<le> now)"

definition capacity_changed :: "modify_args \<Rightarrow> reservation_row \<Rightarrow> bool" where
  "capacity_changed a current \<longleftrightarrow>
     new_start a current \<noteq> current_start current \<or> new_end a current \<noteq> r_endsAt current \<or>
     orElse (ma_partySize a) (r_partySize current) \<noteq> r_partySize current"

definition name_changed :: "modify_args \<Rightarrow> reservation_row \<Rightarrow> bool" where
  "name_changed a current \<longleftrightarrow> ma_customerName a \<noteq> None \<and> ma_customerName a \<noteq> Some (r_customerName current)"

definition notes_changed :: "modify_args \<Rightarrow> reservation_row \<Rightarrow> bool" where
  "notes_changed a current \<longleftrightarrow>
     ma_specialRequests a \<noteq> None \<and> ma_specialRequests a \<noteq> Some (r_specialRequests current)"

text \<open>The table of the new window, or the refusal of the slot.\<close>

definition modify_table ::
    "runtime \<Rightarrow> modify_args \<Rightarrow> reservation_row \<Rightarrow> instant \<Rightarrow> instant \<Rightarrow> int \<Rightarrow> instant \<Rightarrow> instant \<Rightarrow> db \<Rightarrow>
     err + id option" where
  "modify_table rt a current startsAt endsAt partySize now dbNow d =
    (let rid = ma_restaurantId a;
         refused = ReservationSlotUnavailableError rid startsAt partySize;
         seating = findUnassignedSeatingConflict rt d
           \<lparr>sq_restaurantId = rid, sq_partySize = partySize, sq_startsAt = startsAt,
            sq_endsAt = endsAt, sq_tableId = r_tableId current, sq_now = now,
            sq_excludeReservationId = Some (r_id current), sq_excludeHoldId = None\<rparr>
     in if conflict seating then Inl refused
        else if truthy (r_tableId current) then
          (case allocate rt d
             \<lparr>ai_restaurantId = rid, ai_partySize = partySize, ai_startsAt = startsAt,
              ai_endsAt = endsAt, ai_preferredSectionId = None, ai_excludeTableIds = [],
              ai_excludeReservationId = Some (r_id current)\<rparr> False now dbNow of
             None \<Rightarrow> Inl refused
           | Some t \<Rightarrow> Inr (Some (t_id t)))
        else if \<not> hasTables seating then
          let otherReservation = list_ex (\<lambda>r. r_restaurantId r = rid \<and> \<not> r_isTest r \<and>
                r_id r \<noteq> r_id current \<and> r_state r \<in> set ACTIVE_RESERVATION_STATES \<and>
                (case (r_startsAt r, r_endsAt r) of
                   (Some s, Some e) \<Rightarrow> s < endsAt \<and> startsAt < e | _ \<Rightarrow> False)) (reservations d);
              otherHold = list_ex (\<lambda>h. h_restaurantId h = rid \<and> h_type h = HOLD \<and>
                h_status h = H_ACTIVE \<and> now < h_expiresAt h \<and> h_slotStart h < endsAt \<and>
                startsAt < h_slotEnd h) (holds d)
          in if otherReservation \<or> otherHold then Inl refused
             else if findBlockingReservation d rid startsAt endsAt (Some (r_id current)) \<noteq> None
             then Inl refused
             else Inr (r_tableId current)
        else Inr (r_tableId current))"

definition modified_row ::
    "modify_args \<Rightarrow> reservation_row \<Rightarrow> id option \<Rightarrow> reservation_row \<Rightarrow> reservation_row" where
  "modified_row a current tableId r =
    (let r1 = (if capacity_changed a current then
                 r\<lparr>r_partySize := orElse (ma_partySize a) (r_partySize current),
                   r_reservedAt := new_start a current, r_startsAt := Some (new_start a current),
                   r_endsAt := new_end a current, r_tableId := tableId\<rparr> else r);
         r2 = (if name_changed a current then r1\<lparr>r_customerName := the (ma_customerName a)\<rparr> else r1)
     in if notes_changed a current then r2\<lparr>r_specialRequests := the (ma_specialRequests a)\<rparr> else r2)"

definition modify_tx ::
    "runtime \<Rightarrow> modify_args \<Rightarrow> instant \<Rightarrow> instant \<Rightarrow> db \<Rightarrow> err + db \<times> modify_result" where
  "modify_tx rt a now dbNow d =
    (case findTenantReservation d (ma_reservationId a) (ma_restaurantId a) of
       None \<Rightarrow> Inl (ReservationNotFoundError (ma_reservationId a))
     | Some current \<Rightarrow>
         if \<not> may_modify a current then Inl (ReservationNotFoundError (ma_reservationId a))
         else if r_state current \<noteq> PENDING \<and> r_state current \<noteq> CONFIRMED
         then Inl ReservationModificationNotAllowedError
         else
           ebind (ma_beforeModify a d current) (\<lambda>d1.
             if window_refused a current now then Inl ReservationModificationNotAllowedError
             else if \<not> capacity_changed a current \<and> \<not> name_changed a current \<and> \<not> notes_changed a current
             then Inr (d1, \<lparr>mr_reservation = current, mr_changed = False, mr_capacityChanged = False\<rparr>)
             else
               ebind (if capacity_changed a current then
                        (case new_end a current of
                           None \<Rightarrow> Inl ReservationModificationNotAllowedError
                         | Some endsAt \<Rightarrow>
                             modify_table rt a current (new_start a current) endsAt
                               (orElse (ma_partySize a) (r_partySize current)) now dbNow d1)
                      else Inr (r_tableId current)) (\<lambda>tableId.
               ebind (updateReservation (r_id current) (ma_restaurantId a)
                        (modified_row a current tableId) d1) (\<lambda>(d2, reservation).
                 Inr (log_audit
                        \<lparr>a_event = ''reservation_fields_changed'', a_reservationId = Some (r_id current),
                         a_holdId = None, a_actor = ma_actor a, a_fromState = Some (r_state current),
                         a_toState = Some (r_state current)\<rparr> d2,
                      \<lparr>mr_reservation = reservation, mr_changed = True,
                       mr_capacityChanged = capacity_changed a current\<rparr>)))))"

definition modifyReservation ::
    "runtime \<Rightarrow> modify_args \<Rightarrow> instant \<Rightarrow> instant \<Rightarrow> db \<Rightarrow> db \<times> (err + modify_result)" where
  "modifyReservation rt a now dbNow d =
    (case in_tx (modify_tx rt a now dbNow) d of
       (d', Inr res) \<Rightarrow>
         (if mr_capacityChanged res then invalidateAvailability (ma_restaurantId a) d' else d', Inr res)
     | (d', Inl e) \<Rightarrow> (d', Inl e))"

section \<open>Transition and cancellation\<close>

definition plain_transition ::
    "id \<Rightarrow> id \<Rightarrow> reservation_state \<Rightarrow> string \<Rightarrow> bool \<Rightarrow> lifecycle_args" where
  "plain_transition reservationId restaurantId toState actor auditHold =
     \<lparr>la_reservationId = reservationId, la_restaurantId = restaurantId, la_toState = toState,
      la_actor = actor, la_changedFields = [], la_auditEvent = None, la_additionalData = None,
      la_allowAlreadyInTarget = False, la_onlyIfFromState = None,
      la_auditConsumedHoldRelease = auditHold\<rparr>"

definition transitionState ::
    "runtime \<Rightarrow> id \<Rightarrow> id \<Rightarrow> reservation_state \<Rightarrow> string \<Rightarrow> id \<times> id \<Rightarrow> instant \<Rightarrow> instant \<Rightarrow> db \<Rightarrow>
     db \<times> (err + unit)" where
  "transitionState rt reservationId restaurantId toState actor newIds now dbNow d =
    (case transition rt (plain_transition reservationId restaurantId toState actor False) newIds now dbNow d of
       (d', Inl e) \<Rightarrow> (d', Inl e)
     | (d', Inr _) \<Rightarrow> (d', Inr ()))"

definition cancelReservation ::
    "runtime \<Rightarrow> id \<Rightarrow> id option \<Rightarrow> string \<Rightarrow> id \<times> id \<Rightarrow> instant \<Rightarrow> instant \<Rightarrow> db \<Rightarrow> db \<times> (err + unit)" where
  "cancelReservation rt reservationId restaurantId actor newIds now dbNow d =
    (let snapshot = (if truthy restaurantId then None else findReservation d reservationId);
         rid = orElse_opt restaurantId (map_option r_restaurantId snapshot)
     in if \<not> truthy restaurantId \<and> snapshot = None then (d, Inl (ReservationNotFoundError reservationId))
        else if \<not> truthy rid then (d, Inl (ReservationNotFoundError reservationId))
        else
          (case transition rt (plain_transition reservationId (the rid) CANCELLED actor True) newIds now dbNow d of
             (d', Inl e) \<Rightarrow> (d', Inl e)
           | (d', Inr _) \<Rightarrow> (d', Inr ())))"

section \<open>Properties of a modification\<close>

text \<open>The authorisation callback writes no reservation, hold or entry.\<close>

definition modify_frame :: "modify_args \<Rightarrow> bool" where
  "modify_frame a \<longleftrightarrow> (\<forall>d r. case ma_beforeModify a d r of
     Inl e \<Rightarrow> e \<noteq> DbError EXCLUSION
   | Inr d' \<Rightarrow> reservations d' = reservations d \<and> holds d' = holds d \<and> waiting d' = waiting d)"

lemma modify_frameD:
  "modify_frame a \<Longrightarrow> ma_beforeModify a d r = Inr d' \<Longrightarrow>
   reservations d' = reservations d \<and> holds d' = holds d \<and> waiting d' = waiting d"
  "modify_frame a \<Longrightarrow> ma_beforeModify a d r = Inl e \<Longrightarrow> e \<noteq> DbError EXCLUSION"
  unfolding modify_frame_def by (drule spec [of _ d], drule spec [of _ r], simp)+

lemma modified_row_cols [simp]:
  "r_id (modified_row a c t r) = r_id r" "r_restaurantId (modified_row a c t r) = r_restaurantId r"
  "r_state (modified_row a c t r) = r_state r" "r_status (modified_row a c t r) = r_status r"
  "r_isTest (modified_row a c t r) = r_isTest r"
  by (simp_all add: modified_row_def Let_def)

lemma modified_row_window:
  "r_startsAt (modified_row a c t r) = (if capacity_changed a c then Some (new_start a c) else r_startsAt r)"
  "r_endsAt (modified_row a c t r) = (if capacity_changed a c then new_end a c else r_endsAt r)"
  "r_tableId (modified_row a c t r) = (if capacity_changed a c then t else r_tableId r)"
  by (simp_all add: modified_row_def Let_def)

lemma modified_row_same_window:
  "\<not> capacity_changed a c \<Longrightarrow> exclusion_conflict (modified_row a c t r) x = exclusion_conflict r x"
  by (simp only: exclusion_conflict_def seats_table_def modified_row_cols modified_row_window if_False)

lemma findTenant_in:
  "findTenantReservation d i rid = Some r \<Longrightarrow>
   r \<in> set (reservations d) \<and> r_id r = i \<and> r_restaurantId r = rid"
  unfolding findTenantReservation_def by (auto dest: find_Some_D)

text \<open>The table of the new window is free for every other reservation.\<close>

lemma modify_table_free:
  assumes "modify_table rt a c s e n now dbNow d = Inr tableId" "r_tableId c \<noteq> Some []"
    and "x \<in> set (reservations d)" "r_id x \<noteq> r_id c" "r_id c \<noteq> []"
    and "r_tableId y = tableId" "r_startsAt y = Some s" "r_endsAt y = Some e"
  shows "\<not> exclusion_conflict y x"
proof (cases "truthy (r_tableId c)")
  case True
  define inp where "inp = \<lparr>ai_restaurantId = ma_restaurantId a, ai_partySize = n, ai_startsAt = s,
    ai_endsAt = e, ai_preferredSectionId = None, ai_excludeTableIds = [],
    ai_excludeReservationId = Some (r_id c)\<rparr>"
  obtain t where al: "allocate rt d inp False now dbNow = Some t" and t: "tableId = Some (t_id t)"
    using assms(1) True unfolding modify_table_def Let_def inp_def [symmetric]
    by (auto split: if_splits option.splits)
  note av = allocate_SomeD [OF al, THEN conjunct2]
  show ?thesis
    by (rule available_no_exclusion [OF av assms(3)])
      (use assms t in \<open>auto simp: input_check_def inp_def\<close>)
next
  case False
  then have "r_tableId c = None" using assms(2) by (cases "r_tableId c") auto
  then have "tableId = None"
    using assms(1) unfolding modify_table_def Let_def by (auto split: if_splits)
  then show ?thesis using assms(6) by (simp add: exclusion_conflict_def same_some_def)
qed

lemma modify_txE:
  assumes "modify_tx rt a now dbNow d = Inr (d', res)"
  obtains c d1 where "findTenantReservation d (ma_reservationId a) (ma_restaurantId a) = Some c"
    "may_modify a c" "r_state c = PENDING \<or> r_state c = CONFIRMED" "\<not> window_refused a c now"
    "ma_beforeModify a d c = Inr d1"
    "\<not> mr_changed res \<Longrightarrow> d' = d1 \<and> mr_reservation res = c \<and> \<not> mr_capacityChanged res"
    "mr_changed res \<Longrightarrow> \<exists>tableId d2. updateReservation (r_id c) (ma_restaurantId a)
         (modified_row a c tableId) d1 = Inr (d2, mr_reservation res) \<and>
       reservations d' = reservations d2 \<and> holds d' = holds d2 \<and> waiting d' = waiting d2 \<and>
       mr_capacityChanged res = capacity_changed a c \<and>
       (if capacity_changed a c
        then \<exists>e. new_end a c = Some e \<and> modify_table rt a c (new_start a c) e
          (orElse (ma_partySize a) (r_partySize c)) now dbNow d1 = Inr tableId
        else tableId = r_tableId c)"
proof -
  obtain c where c: "findTenantReservation d (ma_reservationId a) (ma_restaurantId a) = Some c"
    using assms by (auto simp: modify_tx_def split: option.splits)
  have g: "may_modify a c" "r_state c = PENDING \<or> r_state c = CONFIRMED"
    using assms c by (auto simp: modify_tx_def split: if_splits)
  then obtain d1 where d1: "ma_beforeModify a d c = Inr d1" "\<not> window_refused a c now"
    using assms c by (auto simp: modify_tx_def elim!: ebind_InrE split: if_splits)
  show thesis
    by (rule that [OF c g d1(2,1)])
      (use assms c g d1 in \<open>auto simp: modify_tx_def elim!: ebind_InrE split: if_splits option.splits\<close>)
qed

text \<open>Whatever the branch, the update of the row meets no conflict.\<close>

lemma modify_update:
  assumes ok: "reservations_ok (reservations d)" and c: "c \<in> set (reservations d)"
    and ids: "r_id c \<noteq> []" "r_tableId c \<noteq> Some []" and d1: "reservations d1 = reservations d"
    and t: "if capacity_changed a c
        then \<exists>e. new_end a c = Some e \<and> modify_table rt a c (new_start a c) e n now dbNow d1 = Inr tableId
        else tableId = r_tableId c"
  shows "updateReservation (r_id c) (r_restaurantId c) (modified_row a c tableId) d1
    = Inr (d1\<lparr>reservations := upd_where (\<lambda>x. r_id x = r_id c \<and> r_restaurantId x = r_restaurantId c)
             (modified_row a c tableId) (reservations d1)\<rparr>, modified_row a c tableId c)"
proof (rule updateReservation_succeeds)
  show "find (\<lambda>x. r_id x = r_id c \<and> r_restaurantId x = r_restaurantId c) (reservations d1) = Some c"
    unfolding d1 by (rule find_by_id_and_tenant [OF ok c])
  fix x
  assume x: "x \<in> set (reservations d1)" "r_id x \<noteq> r_id c"
  show "\<not> exclusion_conflict (modified_row a c tableId c) x"
  proof (cases "capacity_changed a c")
    case True
    then obtain e where e: "new_end a c = Some e"
      "modify_table rt a c (new_start a c) e n now dbNow d1 = Inr tableId" using t by auto
    show ?thesis
      by (rule modify_table_free [OF e(2) ids(2) x ids(1)]) (simp_all add: modified_row_window True e(1))
  next
    case False
    then show ?thesis
      using x c ok d1 unfolding modified_row_same_window [OF False] table_ok_def by auto
  qed
qed

lemma modify_table_error: "modify_table rt a c s e n now dbNow d = Inl x \<Longrightarrow> x \<noteq> DbError EXCLUSION"
  by (auto simp: modify_table_def Let_def split: if_splits option.splits)

lemma modify_txL:
  assumes ok: "reservations_ok (reservations d)" and cb: "modify_frame a"
    and ids: "\<And>r. r \<in> set (reservations d) \<Longrightarrow> r_id r \<noteq> [] \<and> r_tableId r \<noteq> Some []"
  shows "modify_tx rt a now dbNow d \<noteq> Inl (DbError EXCLUSION)"
proof
  assume run: "modify_tx rt a now dbNow d = Inl (DbError EXCLUSION)"
  obtain c where c: "findTenantReservation d (ma_reservationId a) (ma_restaurantId a) = Some c"
    "may_modify a c" "r_state c = PENDING \<or> r_state c = CONFIRMED"
    using run by (auto simp: modify_tx_def split: option.splits if_splits)
  note ci = findTenant_in [OF c(1)]
  obtain d1 where d1: "ma_beforeModify a d c = Inr d1"
  proof (cases "ma_beforeModify a d c")
    case (Inl e)
    then have "e = DbError EXCLUSION" using run c by (auto simp: modify_tx_def)
    with modify_frameD(2) [OF cb Inl] show thesis by simp
  qed
  have same: "reservations d1 = reservations d"
    using modify_frameD(1) [OF cb d1] by simp
  have idc: "r_id c \<noteq> []" "r_tableId c \<noteq> Some []" using ids ci by auto
  note upd = modify_update [OF ok conjunct1 [OF ci] idc same]
  define n where "n = orElse (ma_partySize a) (r_partySize c)"
  show False
  proof (cases "capacity_changed a c")
    case True
    obtain e where e: "new_end a c = Some e"
      using run c d1 True by (cases "new_end a c") (auto simp: modify_tx_def split: if_splits)
    show False
    proof (cases "modify_table rt a c (new_start a c) e n now dbNow d1")
      case (Inl x)
      then show False
        using run c d1 True e modify_table_error [OF Inl]
        by (auto simp: modify_tx_def n_def [symmetric] split: if_splits)
    next
      case (Inr t)
      then show False
        using run c d1 True e upd [where n = n] ci
        by (auto simp: modify_tx_def n_def [symmetric] split: if_splits)
    qed
  next
    case False
    then show False
      using run c d1 upd [where n = n] ci by (auto simp: modify_tx_def split: if_splits)
  qed
qed

text \<open>
  C4. A modification is refused without a write, never by the overlap constraint, or applies to a pending
  or confirmed reservation of the tenant (for a public client: its own, proved by its phone) and keeps
  its identity and state. What changed is one row, no two reservations overlap on a table afterwards,
  and a request that names a new time or party, or comes from outside the staff, ends with a window
  that is not empty and starts in the future.
\<close>

theorem modification_exact:
  assumes run: "modifyReservation rt a now dbNow d = (d', out)"
    and ok: "reservations_ok (reservations d)" and cb: "modify_frame a"
    and ids: "\<And>r. r \<in> set (reservations d) \<Longrightarrow> r_id r \<noteq> [] \<and> r_tableId r \<noteq> Some []"
  shows "case out of
      Inl e \<Rightarrow> d' = d \<and> e \<noteq> DbError EXCLUSION
    | Inr res \<Rightarrow> \<exists>c \<in> set (reservations d). \<exists>f.
        r_id c = ma_reservationId a \<and> r_restaurantId c = ma_restaurantId a \<and> may_modify a c \<and>
        r_state c \<in> {PENDING, CONFIRMED} \<and>
        reservations d' = upd_where (\<lambda>x. r_id x = r_id c) f (reservations d) \<and>
        f c = mr_reservation res \<and> r_id (f c) = r_id c \<and> r_state (f c) = r_state c \<and> r_status (f c) = r_status c \<and>
        (\<not> mr_changed res \<longrightarrow> f c = c) \<and> reservations_ok (reservations d') \<and>
        (take 6 (ma_actor a) \<noteq> ''staff:'' \<or> ma_publicClient a \<or> ma_startsAt a \<noteq> None \<or> ma_partySize a \<noteq> None \<longrightarrow>
           (\<exists>e. new_end a c = Some e \<and> new_start a c < e \<and> now < new_start a c))"
proof (cases "modify_tx rt a now dbNow d")
  case (Inl e)
  then have "out = Inl e" "d' = d" using run by (simp_all add: modifyReservation_def in_tx_def)
  moreover have "e \<noteq> DbError EXCLUSION"
    using Inl modify_txL [OF ok cb ids] by blast
  ultimately show ?thesis by simp
next
  case (Inr p)
  obtain d2 res where p: "p = (d2, res)" by fastforce
  have out: "out = Inr res" "reservations d' = reservations d2"
    using run Inr p by (auto simp: modifyReservation_def in_tx_def)
  have tx: "modify_tx rt a now dbNow d = Inr (d2, res)" using Inr p by simp
  obtain c d1 where c: "findTenantReservation d (ma_reservationId a) (ma_restaurantId a) = Some c"
    "may_modify a c" "r_state c = PENDING \<or> r_state c = CONFIRMED" "\<not> window_refused a c now"
    and d1: "ma_beforeModify a d c = Inr d1"
    and no: "\<not> mr_changed res \<Longrightarrow> d2 = d1 \<and> mr_reservation res = c \<and> \<not> mr_capacityChanged res"
    and yes: "mr_changed res \<Longrightarrow> \<exists>tableId d3. updateReservation (r_id c) (ma_restaurantId a)
         (modified_row a c tableId) d1 = Inr (d3, mr_reservation res) \<and> reservations d2 = reservations d3"
    using tx by (rule modify_txE) blast
  note ci = findTenant_in [OF c(1)]
  have same: "reservations d1 = reservations d"
    using modify_frameD(1) [OF cb d1] by simp
  have win: "take 6 (ma_actor a) \<noteq> ''staff:'' \<or> ma_publicClient a \<or> ma_startsAt a \<noteq> None \<or> ma_partySize a \<noteq> None \<Longrightarrow>
      \<exists>e. new_end a c = Some e \<and> new_start a c < e \<and> now < new_start a c"
    using c(4) by (auto simp: window_refused_def split: option.splits)
  have uniq: "upd_where (\<lambda>x. r_id x = r_id c \<and> r_restaurantId x = r_restaurantId c) f (reservations d)
      = upd_where (\<lambda>x. r_id x = r_id c) f (reservations d)" for f
    unfolding upd_where_def using table_ok_unique [OF ok _ conjunct1 [OF ci]] by (intro map_cong) auto
  have "\<exists>f. reservations d' = upd_where (\<lambda>x. r_id x = r_id c) f (reservations d) \<and>
      f c = mr_reservation res \<and> r_id (f c) = r_id c \<and> r_state (f c) = r_state c \<and> r_status (f c) = r_status c \<and>
      (\<not> mr_changed res \<longrightarrow> f c = c) \<and> reservations_ok (reservations d')"
  proof (cases "mr_changed res")
    case True
    then obtain tableId d3 where u: "updateReservation (r_id c) (ma_restaurantId a)
         (modified_row a c tableId) d1 = Inr (d3, mr_reservation res)" "reservations d2 = reservations d3"
      using yes by blast
    have ok3: "reservations_ok (reservations d3)"
      by (rule reservations_ok_update [OF _ u(1)]) (use ok same in simp_all)
    obtain r where r: "r \<in> set (reservations d1)" "r_id r = r_id c" "mr_reservation res = modified_row a c tableId r"
      "d3 = d1\<lparr>reservations := upd_where (\<lambda>x. r_id x = r_id c \<and> r_restaurantId x = ma_restaurantId a)
         (modified_row a c tableId) (reservations d1)\<rparr>"
      using u(1) by (rule updateReservation_okE) blast
    have "r = c" using table_ok_unique [OF ok, of r c] r(1,2) same ci by simp
    then show ?thesis
      using r u ok3 same out uniq ci True by (intro exI [of _ "modified_row a c tableId"]) simp
  next
    case False
    then show ?thesis
      using no out same ok by (intro exI [of _ "\<lambda>x. x"]) (simp add: upd_where_def)
  qed
  then show ?thesis
    using out c ci win by (auto intro!: bexI [of _ c])
qed

definition later_please :: modify_args where
  "later_please = \<lparr>ma_reservationId = ''b1'', ma_restaurantId = ''r'', ma_actor = ''customer:personal-link'',
     ma_publicClient = False, ma_customerPhone = None, ma_partySize = None, ma_startsAt = Some 10800000,
     ma_endsAt = None, ma_customerName = None, ma_specialRequests = None, ma_preserveDuration = True,
     ma_beforeModify = (\<lambda>d r. Inr d)\<rparr>"

definition seated_db :: db where
  "seated_db = plan_of_one_table\<lparr>reservations := [sample_reservation\<lparr>r_tableId := Some ''t''\<rparr>]\<rparr>"

theorem modification_exact_witness:
  "\<exists>d' res. modifyReservation utc_runtime later_please 0 0 seated_db = (d', Inr res) \<and>
     r_startsAt (mr_reservation res) = Some 10800000 \<and> reservations_ok (reservations d')"
proof -
  obtain d' out where run: "modifyReservation utc_runtime later_please 0 0 seated_db = (d', out)" by fastforce
  have "case snd (modifyReservation utc_runtime later_please 0 0 seated_db) of Inl _ \<Rightarrow> False
    | Inr res \<Rightarrow> r_startsAt (mr_reservation res) = Some 10800000"
    by code_simp
  then obtain res where res: "out = Inr res" "r_startsAt (mr_reservation res) = Some 10800000"
    unfolding run by (auto split: sum.splits)
  have rows: "reservations seated_db = [sample_reservation\<lparr>r_tableId := Some ''t''\<rparr>]"
    by (simp add: seated_db_def)
  have ok: "reservations_ok (reservations seated_db)" by (simp add: rows table_ok_def)
  have cb: "modify_frame later_please" by (simp add: modify_frame_def later_please_def)
  have ids: "r_id r \<noteq> [] \<and> r_tableId r \<noteq> Some []" if "r \<in> set (reservations seated_db)" for r
    using that by (simp add: rows sample_reservation_def)
  from modification_exact [OF run ok cb ids] have "reservations_ok (reservations d')"
    by (auto simp: res(1))
  with run res show ?thesis by blast
qed

section \<open>The shortcuts of the modification\<close>

text \<open>A request that names nothing new writes nothing.\<close>

lemma empty_modification:
  assumes "ma_partySize a = None" "ma_startsAt a = None" "ma_endsAt a = None"
    "ma_customerName a = None" "ma_specialRequests a = None"
  shows "\<not> capacity_changed a c \<and> \<not> name_changed a c \<and> \<not> notes_changed a c"
  using assms by (cases "ma_preserveDuration a"; cases "r_endsAt c")
    (simp_all add: capacity_changed_def name_changed_def notes_changed_def new_start_def new_end_def)

text \<open>Keeping the duration keeps it, whatever the new start.\<close>

lemma preserved_duration:
  "ma_preserveDuration a \<Longrightarrow> ma_startsAt a = Some s \<Longrightarrow> r_endsAt c = Some e \<Longrightarrow>
   \<exists>e'. new_end a c = Some e' \<and> e' - new_start a c = e - current_start c"
  by (simp add: new_end_def new_start_def)

text \<open>A cancellation is the lifecycle's transition, and answers its error.\<close>

lemma cancelReservation_transition:
  "truthy restaurantId \<Longrightarrow>
   cancelReservation rt i restaurantId actor newIds now dbNow d
     = (case transition rt (plain_transition i (the restaurantId) CANCELLED actor True) newIds now dbNow d of
          (d', Inl e) \<Rightarrow> (d', Inl e) | (d', Inr _) \<Rightarrow> (d', Inr ()))"
  by (cases restaurantId) (auto simp: cancelReservation_def Let_def)

end
