(* ===== verification/Consistency.thy ===== *)
theory Consistency
  imports Waiting_List Booking_Changes
begin

text \<open>
  What the database keeps true whatever the services do: no two reservations overlap on a table, no
  two active holds share their slot, no phone waits twice. \<open>system_step\<close> is one operation of any
  modelled service on reservations, holds and the waiting list, run against whatever other
  transactions commit at the points where it can be overtaken, as long as they keep the constraints
  too. One lemma per operation, then the step relation and its invariant.
\<close>

definition consistent :: "db \<Rightarrow> bool" where
  "consistent d \<longleftrightarrow> reservations_ok (reservations d) \<and> holds_ok (holds d) \<and> waiting_ok (waiting d)"

definition keeps :: "(db \<Rightarrow> db) \<Rightarrow> bool" where
  "keeps f \<longleftrightarrow> (\<forall>d. consistent d \<longrightarrow> consistent (f d))"

lemma keepsD: "keeps f \<Longrightarrow> consistent d \<Longrightarrow> consistent (f d)"
  by (simp add: keeps_def)

lemma keeps_id [simp]: "keeps (\<lambda>d. d)"
  by (simp add: keeps_def)

lemma consistent_cong:
  "reservations d' = reservations d \<Longrightarrow> holds d' = holds d \<Longrightarrow> waiting d' = waiting d \<Longrightarrow>
   consistent d' = consistent d"
  by (simp add: consistent_def)

text \<open>A step that only moves holds along their life keeps everything.\<close>

lemma consistent_holds:
  "consistent d \<Longrightarrow> hold_le d d' \<Longrightarrow> reservations d' = reservations d \<Longrightarrow> waiting d' = waiting d \<Longrightarrow>
   consistent d'"
  by (auto simp: consistent_def hold_le_def)

lemma consistent_frame [simp, tbl]:
  "consistent (log_audit a d) = consistent d" "consistent (add_job j d) = consistent d"
  "consistent (invalidateAvailability r d) = consistent d"
  by (simp_all add: consistent_def)

lemma consistent_only_idem: "only_idem d d' \<Longrightarrow> consistent d' = consistent d"
  by (auto simp: only_idem_def consistent_def)

section \<open>Reservations\<close>

lemma consistent_update:
  assumes "consistent d" "updateReservation i rid f d = Inr (d', r)" "\<And>x. r_id (f x) = r_id x"
  shows "consistent d'"
proof -
  have "reservations_ok (reservations d')"
    by (rule reservations_ok_update [OF _ assms(2,3)]) (use assms(1) in \<open>simp add: consistent_def\<close>)
  moreover have "holds d' = holds d" "waiting d' = waiting d"
    using assms(2) by (auto simp: updateReservation_def split: option.splits if_splits)
  ultimately show ?thesis using assms(1) by (simp add: consistent_def)
qed

lemma consistent_reserve:
  assumes "keeps race" "keeps race2" "consistent d" "reserve k h ttl now race race2 d = (d', out)"
  shows "consistent d'"
proof -
  have p: "consistent (fst (purgeExpired now x)) = consistent x" for x
    by (simp add: purgeExpired_def consistent_def)
  have i: "insertPending k h t x = Inr y \<Longrightarrow> consistent y = consistent x" for t x y
    by (auto simp: insertPending_def consistent_def split: option.splits)
  define d1 where "d1 = race (fst (purgeExpired now d))"
  have d1: "consistent d1" "consistent (race2 d1)"
    using assms(1-3) by (simp_all add: d1_def keeps_def p)
  show ?thesis
    using assms(3,4) d1 p i unfolding reserve_def Let_def d1_def [symmetric]
    by (auto split: idem_lookup.splits sum.splits if_splits)
qed

lemma consistent_wait:
  assumes "\<And>k. keeps (poll k)"
  shows "consistent d \<Longrightarrow> wait_loop poll k h now a n d = (d', out) \<Longrightarrow> consistent d'"
proof (induction n arbitrary: a now d)
  case (Suc n)
  note again = Suc.IH [OF keepsD [OF assms Suc.prems(1)]]
  show ?case
    using Suc.prems by (auto simp: Let_def split: idem_lookup.splits option.splits dest: again)
qed simp

definition calm_booking :: "booking_env \<Rightarrow> bool" where
  "calm_booking e \<longleftrightarrow> callback_frame e \<and> keeps (be_race e) \<and> keeps (be_race2 e) \<and> keeps (be_others e) \<and>
     (\<forall>k. keeps (be_poll e k))"

lemma consistent_replay:
  "calm_booking e \<Longrightarrow> consistent d \<Longrightarrow> replay e ia d = (d', out) \<Longrightarrow> consistent d'"
  unfolding replay_def waitForCompletedIdempotency_def calm_booking_def
  by (auto split: prod.splits sum.splits option.splits dest!: consistent_wait [rotated 2])

lemma consistent_create_tx:
  assumes "callback_frame e" "consistent d" "create_tx rt i ia e t h d = Inr (d', rid)"
  shows "consistent d'"
  using assms(1,3)
proof (rule create_tx_ok)
  fix r
  assume r: "\<forall>x \<in> set (reservations d). \<not> exclusion_conflict r x \<and> r_id x \<noteq> r_id r"
    and d': "reservations d' = reservations d @ [r]" "waiting d' = waiting d" "hold_le d d'"
  have "reservations_ok (reservations d')"
    unfolding d'(1) by (rule reservation_table.insert_ok) (use assms(2) r in \<open>auto simp: consistent_def\<close>)
  with d' assms(2) show ?thesis by (auto simp: consistent_def hold_le_def)
qed

lemma consistent_fail_key: "consistent (fail_key k now d) = consistent d"
  by (rule consistent_only_idem) (rule only_idem_store)

lemma consistent_complete: "complete k rid d = Inr d' \<Longrightarrow> consistent d' = consistent d"
  by (rule consistent_cong) (simp_all add: complete_frame)

lemma consistent_createReservation:
  assumes e: "calm_booking e" and d: "consistent d" and run: "createReservation rt i ia e d = (d', out)"
  shows "consistent d'"
proof -
  have keyed: "consistent d2" if "create_keyed rt i ia e h t d = (d2, o2)" for h t d2 o2
  proof -
    obtain d1 o1 where r: "reserve (ia_pair ia) (ia_payloadHash ia) (ia_ttlSeconds ia) (be_now e)
        (be_race e) (be_race2 e) d = (d1, o1)" by fastforce
    have c1: "consistent d1" "consistent (be_others e d1)"
      using consistent_reserve [OF _ _ d r] e by (simp_all add: calm_booking_def keeps_def)
    have tx: "create_tx rt i ia e t h (be_others e d1) = Inr (x, rid) \<Longrightarrow> consistent x" for x rid
      using consistent_create_tx [OF _ c1(2)] e unfolding calm_booking_def by blast
    show ?thesis
      using that r c1 consistent_replay [OF e c1(1)] tx
      by (auto simp: create_keyed_def in_tx_def consistent_fail_key
          dest: consistent_complete split: sum.splits reserve_outcome.splits prod.splits)
  qed
  show ?thesis
    using run d keyed consistent_replay [OF e d]
    by (auto simp: createReservation_def Let_def split: idem_lookup.splits sum.splits if_splits prod.splits)
qed

lemma consistent_modify:
  assumes "modify_frame a" "consistent d" "modifyReservation rt a now dbNow d = (d', out)"
  shows "consistent d'"
proof (cases "modify_tx rt a now dbNow d")
  case (Inl e)
  then show ?thesis using assms by (simp add: modifyReservation_def in_tx_def)
next
  case (Inr p)
  obtain d2 res where p: "p = (d2, res)" by fastforce
  obtain c d1 where cb: "ma_beforeModify a d c = Inr d1"
    and no: "\<not> mr_changed res \<Longrightarrow> d2 = d1"
    and yes: "mr_changed res \<Longrightarrow> \<exists>t d3. updateReservation (r_id c) (ma_restaurantId a)
         (modified_row a c t) d1 = Inr (d3, mr_reservation res) \<and>
       reservations d2 = reservations d3 \<and> holds d2 = holds d3 \<and> waiting d2 = waiting d3"
    using Inr [unfolded p] by (rule modify_txE) blast
  have d1: "consistent d1"
    using modify_frameD(1) [OF assms(1) cb] assms(2) by (simp add: consistent_def)
  have "consistent d2"
  proof (cases "mr_changed res")
    case True
    then obtain t d3 where u: "updateReservation (r_id c) (ma_restaurantId a) (modified_row a c t) d1
        = Inr (d3, mr_reservation res)" "reservations d2 = reservations d3" "holds d2 = holds d3"
      "waiting d2 = waiting d3" using yes by blast
    have "consistent d3" by (rule consistent_update [OF d1 u(1)]) simp
    then show ?thesis using u by (simp add: consistent_def)
  qed (use no d1 in simp)
  then show ?thesis using assms(3) Inr p by (auto simp: modifyReservation_def in_tx_def)
qed

lemma updateReservation_waiting: "updateReservation i rid f d = Inr (d', r) \<Longrightarrow> waiting d' = waiting d"
  by (auto simp: updateReservation_def split: option.splits if_splits)

lemma transition_waiting:
  "transitionInTransaction rt a newIds now dbNow d = Inr (d', res) \<Longrightarrow> waiting d' = waiting d"
  by (auto simp: transitionInTransaction_def Let_def
      split: option.splits if_splits sum.splits
      dest!: updateReservation_waiting transition_events_frame appends_events_frame(4))

lemma consistent_transition:
  assumes "keeps_identity a" "consistent d" "transition rt a newIds now dbNow d = (d', out)"
  shows "consistent d'"
proof (cases out)
  case (Inl e)
  then show ?thesis using assms transition_Inl by blast
next
  case (Inr res)
  then obtain d1 where d1: "transitionInTransaction rt a newIds now dbNow d = Inr (d1, res)"
    "d' = finalizeTransition a res d1" using assms(3) transition_InrE by blast
  have "consistent d1"
  proof (cases "lr_mutated res")
    case True
    from d1(1) True obtain previous d2 where
      "updateReservation (la_reservationId a) (la_restaurantId a) (transition_update a previous) d
         = Inr (d2, lr_reservation res)"
      "reservations d1 = reservations d2" "holds d1 = holds d"
      by (rule transition_mutatedE) blast
    then show ?thesis
      using reservations_ok_update [of d _ _ "transition_update a previous" d2] assms(1,2)
        transition_waiting [OF d1(1)] transition_update_id by (auto simp: consistent_def)
  next
    case False
    then show ?thesis using unmutated_same [OF d1(1)] assms(2) by simp
  qed
  then show ?thesis by (simp add: d1(2) finalizeTransition_def)
qed

lemma keeps_identity_plain [simp]: "keeps_identity (plain_transition i rid s actor h)"
  by (simp add: keeps_identity_def plain_transition_def)

lemma consistent_transitionState:
  assumes "consistent d" "transitionState rt i rid s actor newIds now dbNow d = (d', out)"
  shows "consistent d'"
proof -
  obtain d1 o1 where t: "transition rt (plain_transition i rid s actor False) newIds now dbNow d = (d1, o1)"
    by fastforce
  from consistent_transition [OF keeps_identity_plain assms(1) t] assms(2) t show ?thesis
    by (auto simp: transitionState_def split: sum.splits)
qed

lemma consistent_cancelReservation:
  assumes "consistent d" "cancelReservation rt i rid actor newIds now dbNow d = (d', out)"
  shows "consistent d'"
proof -
  define sn where "sn = (if truthy rid then None else findReservation d i)"
  define x where "x = orElse_opt rid (map_option r_restaurantId sn)"
  have eq: "cancelReservation rt i rid actor newIds now dbNow d =
      (if \<not> truthy rid \<and> sn = None \<or> \<not> truthy x then (d, Inl (ReservationNotFoundError i))
       else (case transition rt (plain_transition i (the x) CANCELLED actor True) newIds now dbNow d of
               (d', Inl e) \<Rightarrow> (d', Inl e) | (d', Inr _) \<Rightarrow> (d', Inr ())))"
    unfolding cancelReservation_def Let_def sn_def [symmetric] x_def [symmetric] by simp
  obtain d1 o1 where t: "transition rt (plain_transition i (the x) CANCELLED actor True) newIds now dbNow d = (d1, o1)"
    by fastforce
  have "d' = d \<or> d' = d1"
    using assms(2) unfolding eq t by (simp split: if_splits sum.splits)
  then show ?thesis
    using consistent_transition [OF keeps_identity_plain assms(1) t] assms(1) by blast
qed

lemma consistent_reallocate:
  assumes "consistent d" "reallocate rt rid i t now dbNow seen d = (d', out)"
  shows "consistent d'"
proof -
  have upd: "consistent d1" if "updateReservation j x (\<lambda>x. x\<lparr>r_tableId := Some t\<rparr>) d = Inr (d1, r)" for j x d1 r
    using consistent_update [OF assms(1) that] by simp
  have "consistent d1" if "reallocate_tx rt r t s e now dbNow d = Inr (d1, r')" for r s e d1 r'
    using that upd by (auto simp: reallocate_tx_def Let_def split: if_splits sum.splits)
  then show ?thesis
    using assms by (auto simp: reallocate_def Let_def in_tx_def split: option.splits if_splits sum.splits)
qed

lemma consistent_releaseTable:
  assumes "consistent d" "releaseTable i d = (d', out)"
  shows "consistent d'"
proof -
  have "consistent d1" if "updateReservation j rid (\<lambda>x. x\<lparr>r_tableId := None\<rparr>) d = Inr (d1, r)" for j rid d1 r
    using consistent_update [OF assms(1) that] by simp
  then show ?thesis
    using assms by (auto simp: releaseTable_def in_tx_def split: option.splits if_splits sum.splits)
qed

section \<open>Holds\<close>

definition calm_attempt :: "attempt_env \<Rightarrow> bool" where
  "calm_attempt e \<longleftrightarrow> keeps (ae_others e) \<and> keeps (ae_race e)"

lemma consistent_insertHold:
  assumes "consistent d" "insertHoldRow h d = Inr d'"
  shows "consistent d'"
  by (rule consistent_holds [OF assms(1) hold_le_insert [OF assms(2)]])
    (use assms(2) in \<open>simp_all add: insertHoldRow_ok\<close>)

lemma consistent_expire_rows:
  "consistent d \<Longrightarrow> expire_rows entry now hs d = (d', swept) \<Longrightarrow> consistent d'"
  using consistent_holds [OF _ hold_le_expire_rows] expire_rows_frame by blast

lemma consistent_sweep: "consistent d \<Longrightarrow> consistent (expireOverdueForSlot rid st now d)"
  unfolding expireOverdueForSlot_def by (rule consistent_expire_rows [OF _ prod.collapse [symmetric]])

lemma consistent_hold_tx:
  assumes "calm_attempt e" "consistent d" "hold_tx rt a e x d = (d', out, att)"
  shows "consistent d'"
proof -
  have race: "consistent (ae_race e d)"
    using assms(1,2) keepsD unfolding calm_attempt_def by blast
  have ins: "insertHoldRow h (ae_race e d) = Inr d2 \<Longrightarrow> consistent d2" for h d2
    by (rule consistent_insertHold [OF race])
  show ?thesis
    using assms(2,3) race ins unfolding hold_tx_def Let_def
    by (auto split: option.splits sum.splits if_splits)
qed

lemma consistent_createHold_loop:
  assumes "\<And>k. calm_attempt (env k)"
  shows "consistent d \<Longrightarrow> createHold_loop rt a x env k n att d = (d', out) \<Longrightarrow> consistent d'"
proof (induction n arbitrary: k att d)
  case (Suc n)
  obtain d1 res at' where tx: "hold_tx rt a (env k) x (ae_others (env k) d) = (d1, res, at')"
    by (metis prod_cases3)
  have "consistent (ae_others (env k) d)" using assms Suc.prems(1) by (simp add: calm_attempt_def keeps_def)
  then have d1: "consistent d1" using consistent_hold_tx [OF assms _ tx] by blast
  note again = Suc.IH [OF d1] and swept = Suc.IH [OF consistent_sweep [OF d1]]
  show ?case
  proof (cases res)
    case (Inr h)
    then show ?thesis using Suc.prems tx d1 by (auto simp: Let_def)
  next
    case (Inl err)
    then show ?thesis
      using Suc.prems tx d1 by (auto simp: Let_def split: if_splits dest: again swept)
  qed
qed simp

lemma consistent_createQuote:
  "consistent d \<Longrightarrow> createQuote a newId token now d = (d', out) \<Longrightarrow> consistent d'"
  by (auto simp: createQuote_def Let_def in_tx_def split: sum.splits prod.splits
      dest: consistent_insertHold)

lemma invalidate_frame [simp]:
  "consistent (fold invalidateAvailability rs d) = consistent d"
  by (induction rs arbitrary: d) simp_all

lemma consistent_expireOverdue: "consistent d \<Longrightarrow> expireOverdue now d = (d', n) \<Longrightarrow> consistent d'"
  by (auto simp: expireOverdue_def Let_def split: prod.splits dest: consistent_expire_rows)

lemma consistent_expireOne: "consistent d \<Longrightarrow> expireOne i ty now actor d = (d', b) \<Longrightarrow> consistent d'"
  by (auto simp: expireOne_def Let_def simp del: expire_rows.simps
      split: option.splits if_splits prod.splits dest: consistent_expire_rows)

lemma consistent_consume:
  assumes "keeps race" "consistent d" "consumeHold c race d = (d', out)"
  shows "consistent d'"
proof -
  have r: "consistent (race d)" using assms by (simp add: keeps_def)
  have "hold_le (race d) ((race d)\<lparr>holds := upd_where (consumable c) (consume_row c) (holds (race d))\<rparr>)"
    by (rule hold_le_update [where p = "consumable c" and f = "consume_row c"])
      (auto simp: consumable_def consume_row_def)
  then have "consistent ((race d)\<lparr>holds := upd_where (consumable c) (consume_row c) (holds (race d))\<rparr>)"
    by (rule consistent_holds [OF r]) simp_all
  with r assms(2,3) show ?thesis
    by (auto simp: consumeHold_def Let_def in_tx_def write_then_throw_def split: option.splits if_splits)
qed

lemma consistent_releaseHold: "consistent d \<Longrightarrow> consistent (releaseHold i actor d)"
  by (rule consistent_holds [OF _ hold_le_release]) (auto simp: releaseHold_def split: option.splits)

section \<open>The waiting list\<close>

lemma cancel_frame:
  assumes "cancelByToken rt i token rid now d = (d', out) \<or> cancelByStaff i rid now d = (d', out)"
  shows "reservations d' = reservations d \<and> holds d' = holds d"
  using assms
  by (auto simp: cancelByToken_def cancelByStaff_def in_tx_def entry_or_throw_def
      split: option.splits if_splits)

lemma join_frame:
  "join_list rt a newId token now d = (d', out) \<Longrightarrow> reservations d' = reservations d \<and> holds d' = holds d"
  by (auto simp: join_list_def in_tx_def join_tx_def Let_def insertEntry_ok
      scheduleWaitingListExpiration_def split: if_splits sum.splits prod.splits)

lemma promote_holds: "promoteEntry rt i newId now dbNow d = (d', out) \<Longrightarrow> holds d' = holds d"
  by (auto simp: promoteEntry_def in_tx_def doPromote_def Let_def insertReservation_ok
      scheduleWaitingListPromotionNotification_def
      split: option.splits if_splits sum.splits prod.splits)

lemma consistent_promote:
  assumes "consistent d" "promoteEntry rt i newId now dbNow d = (d', out)"
  shows "consistent d'"
proof -
  have w: "waiting_ok (waiting d')" "holds_ok (holds d')"
    using waiting_write_le [OF ww_promote [OF assms(2)]] promote_holds [OF assms(2)] assms(1)
    by (auto simp: waiting_le_def consistent_def)
  have "reservations_ok (reservations d')"
    using assms(2)
  proof (cases rule: promoteEntry_cases)
    case (promoted w t)
    have "reservations_ok (reservations (d\<lparr>reservations := reservations d @ [promoted_reservation w t newId now]\<rparr>))"
      by (rule reservations_ok_insert [OF _ promoted(6)]) (use assms(1) in \<open>simp add: consistent_def\<close>)
    then show ?thesis by (simp add: promoted(7))
  next
    case (replayed w r)
    then show ?thesis using assms(1)
      by (simp add: consistent_def scheduleWaitingListPromotionNotification_def)
  qed (use assms(1) in \<open>simp_all add: consistent_def\<close>)
  with w show ?thesis by (simp add: consistent_def)
qed

lemma consistent_waiting: "waiting_write d d' \<Longrightarrow> consistent d \<Longrightarrow> consistent d'"
proof (induction rule: waiting_write.induct)
  case (ww_promote rt i newId now dbNow d d' out'')
  then show ?case by (rule consistent_promote [rotated])
next
  case (ww_join rt a newId token now d d' out)
  then show ?case
    using join_frame waiting_write_le [OF waiting_write.ww_join [OF ww_join(1)]]
    by (auto simp: waiting_le_def consistent_def)
next
  case (ww_token rt i token rid now d d' out')
  then show ?case
    using cancel_frame [of rt i token rid now d d' out'] waiting_write_le [OF waiting_write.ww_token [OF ww_token(1)]]
    by (auto simp: waiting_le_def consistent_def)
next
  case (ww_staff i rid now d d' out')
  then show ?case
    using cancel_frame [of undefined i undefined rid now d d' out'] waiting_write_le [OF waiting_write.ww_staff [OF ww_staff(1)]]
    by (auto simp: waiting_le_def consistent_def)
next
  case (ww_expire d i now)
  then show ?case
    using waiting_write_le [OF waiting_write.ww_expire [of d i now]]
    by (auto simp: waiting_le_def consistent_def expireEntry_def)
next
  case (ww_cleanup now d d' n)
  then show ?case
    using waiting_write_le [OF waiting_write.ww_cleanup [OF ww_cleanup(1)]]
    by (auto simp: waiting_le_def consistent_def cleanupExpired_def Let_def)
qed

section \<open>Any operation of any service\<close>

inductive system_step :: "db \<Rightarrow> db \<Rightarrow> bool" where
  sy_create: "createReservation rt i ia e d = (d', o1) \<Longrightarrow> calm_booking e \<Longrightarrow> system_step d d'"
| sy_modify: "modifyReservation rt a now dbNow d = (d', o2) \<Longrightarrow> modify_frame a \<Longrightarrow> system_step d d'"
| sy_transition: "transition rt la ids now dbNow d = (d', o3) \<Longrightarrow> keeps_identity la \<Longrightarrow> system_step d d'"
| sy_state: "transitionState rt i rid s actor ids now dbNow d = (d', o4) \<Longrightarrow> system_step d d'"
| sy_cancel: "cancelReservation rt i orid actor ids now dbNow d = (d', o4) \<Longrightarrow> system_step d d'"
| sy_reallocate: "reallocate rt rid i t now dbNow seen d = (d', o5) \<Longrightarrow> system_step d d'"
| sy_release: "releaseTable i d = (d', o4) \<Longrightarrow> system_step d d'"
| sy_quote: "createQuote ha newId token now d = (d', o6) \<Longrightarrow> system_step d d'"
| sy_hold: "createHold rt ha env now d = (d', o6) \<Longrightarrow> (\<And>k. calm_attempt (env k)) \<Longrightarrow> system_step d d'"
| sy_consume: "consumeHold c race d = (d', o6) \<Longrightarrow> keeps race \<Longrightarrow> system_step d d'"
| sy_release_hold: "system_step d (releaseHold i actor d)"
| sy_sweep: "expireOverdue now d = (d', n) \<Longrightarrow> system_step d d'"
| sy_expire: "expireOne i ty now oactor d = (d', b) \<Longrightarrow> system_step d d'"
| sy_waiting: "waiting_write d d' \<Longrightarrow> system_step d d'"
| sy_other: "reservations d' = reservations d \<Longrightarrow> holds d' = holds d \<Longrightarrow> waiting d' = waiting d \<Longrightarrow>
    system_step d d'"

lemmas consistent_ops =
  consistent_createReservation consistent_modify consistent_transition consistent_transitionState
  consistent_cancelReservation consistent_reallocate consistent_releaseTable consistent_createQuote
  consistent_consume consistent_releaseHold consistent_expireOverdue consistent_expireOne
  consistent_waiting

lemma consistent_step: "system_step d d' \<Longrightarrow> consistent d \<Longrightarrow> consistent d'"
proof (induction rule: system_step.induct)
  case (sy_hold rt ha env now d d' o6)
  then show ?case unfolding createHold_def using consistent_createHold_loop by blast
next
  case (sy_other d' d)
  then show ?case by (simp add: consistent_def)
qed (blast intro: consistent_ops)+

lemma consistent_run: "system_step\<^sup>*\<^sup>* d d' \<Longrightarrow> consistent d \<Longrightarrow> consistent d'"
  by (induction rule: rtranclp_induct) (auto intro: consistent_step)

text \<open>The constraint in terms of the intervals of two reservations.\<close>

lemma consistent_no_overlap:
  assumes "consistent d" "r \<in> set (reservations d)" "r' \<in> set (reservations d)" "r_id r \<noteq> r_id r'"
    and "seats_table r" "seats_table r'" "r_tableId r = Some t" "r_tableId r' = Some t"
    and "r_startsAt r = Some a" "r_endsAt r = Some b" "a < b"
    and "r_startsAt r' = Some a'" "r_endsAt r' = Some b'" "a' < b'"
  shows "\<not> intervalsOverlap a b a' b'"
proof -
  have "\<not> exclusion_conflict r r'"
    using assms(1-4) by (auto simp: consistent_def table_ok_def)
  then show ?thesis
    using assms(5-14) by (simp add: exclusion_conflict_def same_some_def tsrange_overlap_iff)
qed

end
