(* ===== verification/Resilience.thy ===== *)
theory Resilience
  imports Prelude
begin

text \<open>
  Calls to providers (\<open>shared/resilience\<close>): the circuit breaker, the bounded retry and the time limits.
  \<open>CircuitBreaker.execute\<close> awaits the provider between its two halves, so they are two operations,
  \<open>execute_begin\<close> and \<open>execute_end\<close>, and other calls can run in between: \<open>breaker_step\<close> is the step
  relation of a breaker with any number of calls in flight. Times are milliseconds, \<open>Math.random\<close> is the
  numerator of a multiple of \<open>2 ^ -53\<close> and the rounding of floating point products is not modelled.
\<close>

section \<open>The circuit breaker\<close>

datatype circuit_state = Closed | Open | HalfOpen

record breaker =
  cb_name :: string
  failureThreshold :: int
  cooldownMs :: int
  failures :: int
  openedAt :: "int option"
  halfOpenInFlight :: bool

definition newBreaker :: "string \<Rightarrow> int option \<Rightarrow> int option \<Rightarrow> breaker" where
  "newBreaker name threshold cooldown =
     \<lparr>cb_name = name, failureThreshold = max 1 (orElse threshold 3),
      cooldownMs = max 0 (orElse cooldown 30000), failures = 0, openedAt = None, halfOpenInFlight = False\<rparr>"

definition circuitState :: "breaker \<Rightarrow> int \<Rightarrow> circuit_state" where
  "circuitState b now = (case openedAt b of None \<Rightarrow> Closed
     | Some o' \<Rightarrow> if now - o' \<ge> cooldownMs b then HalfOpen else Open)"

text \<open>The second component is what \<open>onStateChange\<close> is told.\<close>

definition reset :: "breaker \<Rightarrow> breaker \<times> circuit_state list" where
  "reset b = (b\<lparr>failures := 0, openedAt := None, halfOpenInFlight := False\<rparr>, [Closed])"

definition recordSuccess :: "breaker \<Rightarrow> breaker \<times> circuit_state list" where
  "recordSuccess b = (b\<lparr>failures := 0, openedAt := None, halfOpenInFlight := False\<rparr>,
     if openedAt b \<noteq> None then [Closed] else [])"

definition recordFailure :: "breaker \<Rightarrow> int \<Rightarrow> breaker \<times> circuit_state list" where
  "recordFailure b now =
     (let b1 = b\<lparr>halfOpenInFlight := False, failures := failures b + 1\<rparr> in
      if openedAt b1 \<noteq> None \<or> failures b1 \<ge> failureThreshold b1
      then (b1\<lparr>openedAt := Some now\<rparr>, [Open]) else (b1, []))"

datatype circuit_open = CircuitOpenError string int

definition execute_begin :: "breaker \<Rightarrow> int \<Rightarrow> circuit_open + breaker" where
  "execute_begin b now =
     (let refused = Inl (CircuitOpenError (cb_name b) (cooldownMs b)) in
      case circuitState b now of
        Open \<Rightarrow> refused
      | HalfOpen \<Rightarrow> if halfOpenInFlight b then refused else Inr (b\<lparr>halfOpenInFlight := True\<rparr>)
      | Closed \<Rightarrow> Inr b)"

definition execute_end :: "breaker \<Rightarrow> int \<Rightarrow> 'e + 'a \<Rightarrow> breaker \<times> circuit_state list" where
  "execute_end b now r = (case r of Inl _ \<Rightarrow> recordFailure b now | Inr _ \<Rightarrow> recordSuccess b)"

text \<open>A whole call: \<open>others\<close> is what the calls running meanwhile do to the breaker, \<open>r\<close> how the operation
  ends, at time \<open>fin\<close>.\<close>

definition execute :: "breaker \<Rightarrow> int \<Rightarrow> (breaker \<Rightarrow> breaker) \<Rightarrow> int \<Rightarrow> 'e + 'a \<Rightarrow>
    breaker \<times> (circuit_open + ('e + 'a))" where
  "execute b now others fin r = (case execute_begin b now of
       Inl e \<Rightarrow> (b, Inl e)
     | Inr b1 \<Rightarrow> (fst (execute_end (others b1) fin r), Inr r))"

lemma circuitState_simps [simp]:
  "circuitState b now = Closed \<longleftrightarrow> openedAt b = None"
  "circuitState b now = Open \<longleftrightarrow> (\<exists>t. openedAt b = Some t \<and> now < t + cooldownMs b)"
  "circuitState b now = HalfOpen \<longleftrightarrow> (\<exists>t. openedAt b = Some t \<and> t + cooldownMs b \<le> now)"
  by (auto simp: circuitState_def split: option.splits)

lemma execute_begin_cases:
  obtains (closed) "openedAt b = None" "execute_begin b now = Inr b"
  | (refused) t where "openedAt b = Some t" "now < t + cooldownMs b \<or> halfOpenInFlight b"
      "execute_begin b now = Inl (CircuitOpenError (cb_name b) (cooldownMs b))"
  | (probe) t where "openedAt b = Some t" "t + cooldownMs b \<le> now" "\<not> halfOpenInFlight b"
      "execute_begin b now = Inr (b\<lparr>halfOpenInFlight := True\<rparr>)"
  unfolding execute_begin_def circuitState_def Let_def by (cases "openedAt b") (force split: if_splits)+

lemma recordFailure_simps [simp]:
  "failureThreshold (fst (recordFailure b now)) = failureThreshold b"
  "cooldownMs (fst (recordFailure b now)) = cooldownMs b"
  "cb_name (fst (recordFailure b now)) = cb_name b"
  "halfOpenInFlight (fst (recordFailure b now)) = False"
  "failures (fst (recordFailure b now)) = failures b + 1"
  "openedAt (fst (recordFailure b now)) =
     (if openedAt b \<noteq> None \<or> failures b + 1 \<ge> failureThreshold b then Some now else None)"
  by (auto simp: recordFailure_def Let_def)

lemma recordSuccess_simps [simp]:
  "fst (recordSuccess b) = b\<lparr>failures := 0, openedAt := None, halfOpenInFlight := False\<rparr>"
  by (simp add: recordSuccess_def)

lemma execute_end_simps [simp]:
  "execute_end b now (Inl e) = recordFailure b now" "execute_end b now (Inr v) = recordSuccess b"
  by (simp_all add: execute_end_def)

subsection \<open>Calls one after the other\<close>

text \<open>A call starts at \<open>fst c\<close>; when it reaches the provider it ends at \<open>fst (snd c)\<close> with \<open>snd (snd c)\<close>.
  The answers tell which calls reached the provider.\<close>

fun calls :: "breaker \<Rightarrow> (int \<times> int \<times> ('e + 'a)) list \<Rightarrow> bool list" where
  "calls b [] = []"
| "calls b ((now, fin, r) # cs) = (case execute b now (\<lambda>b. b) fin r of
     (b', Inl _) \<Rightarrow> False # calls b' cs | (b', Inr _) \<Rightarrow> True # calls b' cs)"

fun one_by_one :: "int \<Rightarrow> (int \<times> int \<times> ('e + 'a)) list \<Rightarrow> bool" where
  "one_by_one t [] = True"
| "one_by_one t ((now, fin, r) # cs) \<longleftrightarrow> t \<le> now \<and> now \<le> fin \<and> (\<exists>e. r = Inl e) \<and> one_by_one fin cs"

text \<open>How many more calls a breaker lets through to a provider that is down, until \<open>T\<close>.\<close>

definition allowance :: "breaker \<Rightarrow> int \<Rightarrow> int \<Rightarrow> int" where
  "allowance b t T = (case openedAt b of
       None \<Rightarrow> failureThreshold b - failures b + (T - t) div cooldownMs b
     | Some opened \<Rightarrow> max 0 ((T - opened) div cooldownMs b))"

lemma admitted_failing_calls:
  assumes "one_by_one t cs" "\<forall>c \<in> set cs. fst (snd c) \<le> T" "t \<le> T" "0 < cooldownMs b" "\<not> halfOpenInFlight b"
    and "openedAt b = None \<longrightarrow> failures b < failureThreshold b"
  shows "int (length (filter (\<lambda>x. x) (calls b cs))) \<le> allowance b t T"
  using assms
proof (induction cs arbitrary: b t)
  case Nil
  then show ?case by (auto simp: allowance_def pos_imp_zdiv_nonneg_iff split: option.splits)
next
  case (Cons c cs)
  obtain now fin e where c: "c = (now, fin, Inl e)" "t \<le> now" "now \<le> fin" "fin \<le> T" and rest: "one_by_one fin cs"
    using Cons.prems(1,2) by (cases c) auto
  let ?b = "fst (recordFailure b fin)" and ?p = "fst (recordFailure (b\<lparr>halfOpenInFlight := True\<rparr>) fin)"
  have later: "one_by_one t cs" using rest c by (cases cs) auto
  show ?case
  proof (cases rule: execute_begin_cases [of b now])
    case closed
    have "int (length (filter (\<lambda>x. x) (calls ?b cs))) \<le> allowance ?b fin T"
      using Cons.prems c by (intro Cons.IH rest) auto
    moreover have "(T - fin) div cooldownMs b \<le> (T - t) div cooldownMs b"
      using c Cons.prems(4) by (intro zdiv_mono1) auto
    moreover have "0 \<le> (T - fin) div cooldownMs b"
      using c Cons.prems(4) by (simp add: pos_imp_zdiv_nonneg_iff)
    ultimately show ?thesis
      using closed Cons.prems(6) c by (auto simp: execute_def allowance_def split: if_splits)
  next
    case (refused u)
    have "int (length (filter (\<lambda>x. x) (calls b cs))) \<le> allowance b t T"
      using Cons.prems by (intro Cons.IH later) auto
    then show ?thesis using refused c by (simp add: execute_def)
  next
    case (probe u)
    have "int (length (filter (\<lambda>x. x) (calls ?p cs))) \<le> allowance ?p fin T"
      using Cons.prems c probe by (intro Cons.IH rest) auto
    moreover have "(T - fin) div cooldownMs b + 1 \<le> (T - u) div cooldownMs b"
    proof -
      have "(T - fin + cooldownMs b) div cooldownMs b \<le> (T - u) div cooldownMs b"
        using probe(2) c Cons.prems(4) by (intro zdiv_mono1) auto
      then show ?thesis using Cons.prems(4) div_add_self2 [of "cooldownMs b" "T - fin"] by simp
    qed
    moreover have "0 \<le> (T - fin) div cooldownMs b"
      using c Cons.prems(4) by (simp add: pos_imp_zdiv_nonneg_iff)
    ultimately show ?thesis using probe c by (simp add: execute_def allowance_def)
  qed
qed



subsection \<open>Calls in flight at the same time\<close>

text \<open>The breaker, the time, and when each operation in flight started. No operation lasts \<open>L\<close> or
  more: that is what the time limit of the provider calls gives.\<close>

type_synonym load = "breaker \<times> int \<times> int list"

inductive breaker_step :: "int \<Rightarrow> load \<Rightarrow> load \<Rightarrow> bool" for L where
  bs_tick: "t \<le> t' \<Longrightarrow> \<forall>s \<in> set ops. t' < s + L \<Longrightarrow> breaker_step L (b, t, ops) (b, t', ops)"
| bs_begin: "execute_begin b t = Inr b' \<Longrightarrow> 0 < L \<Longrightarrow> breaker_step L (b, t, ops) (b', t, t # ops)"
| bs_refuse: "execute_begin b t = Inl e \<Longrightarrow> breaker_step L (b, t, ops) (b, t, ops)"
| bs_end: "s \<in> set ops \<Longrightarrow> execute_end b t (r :: unit + unit) = (b', told) \<Longrightarrow>
    breaker_step L (b, t, ops) (b', t, remove1 s ops)"
| bs_reset: "reset b = (b', told) \<Longrightarrow> breaker_step L (b, t, ops) (b', t, ops)"

definition load_ok :: "int \<Rightarrow> load \<Rightarrow> bool" where
  "load_ok L = (\<lambda>(b, t, ops). (\<forall>s \<in> set ops. s \<le> t \<and> t < s + L) \<and> L \<le> cooldownMs b \<and>
     (openedAt b = None \<longrightarrow> \<not> halfOpenInFlight b) \<and> (halfOpenInFlight b \<longrightarrow> length ops = 1) \<and>
     (\<forall>u. openedAt b = Some u \<longrightarrow> u \<le> t \<and> (\<not> halfOpenInFlight b \<longrightarrow> (\<forall>s \<in> set ops. s \<le> u))))"

lemma load_ok_begin:
  assumes "load_ok L (b, t, ops)" "execute_begin b t = Inr b'" "0 < L"
  shows "load_ok L (b', t, t # ops)"
proof (cases rule: execute_begin_cases [of b t])
  case closed
  with assms show ?thesis by (auto simp: load_ok_def)
next
  case (refused u)
  with assms show ?thesis by simp
next
  case (probe u)
  have "ops = []"
  proof (rule ccontr)
    assume "ops \<noteq> []"
    then obtain s where "s \<in> set ops" by (cases ops) auto
    with assms(1) probe show False by (fastforce simp: load_ok_def)
  qed
  with assms probe show ?thesis by (auto simp: load_ok_def)
qed

lemma load_ok_end:
  assumes "load_ok L (b, t, ops)" "s \<in> set ops" "execute_end b t r = (b', told)"
  shows "load_ok L (b', t, remove1 s ops)"
proof -
  have sub: "set (remove1 s ops) \<subseteq> set ops" by (rule set_remove1_subset)
  have b': "b' = fst (execute_end b t r)" using assms(3) by simp
  show ?thesis
    using assms(1) sub unfolding b' by (cases r) (auto simp: load_ok_def)
qed

lemma load_ok_step: "breaker_step L x y \<Longrightarrow> load_ok L x \<Longrightarrow> load_ok L y"
proof (induction rule: breaker_step.induct)
  case (bs_tick t t' ops b)
  then show ?case by (force simp: load_ok_def)
next
  case (bs_begin b t b' ops)
  then show ?case by (blast intro: load_ok_begin)
next
  case (bs_end s ops b t r b' told)
  then show ?case by (blast intro: load_ok_end)
next
  case (bs_reset b b' told t ops)
  then show ?case by (auto simp: reset_def load_ok_def)
qed

lemma load_ok_run: "(breaker_step L)\<^sup>*\<^sup>* x y \<Longrightarrow> load_ok L x \<Longrightarrow> load_ok L y"
  by (induction rule: rtranclp_induct) (auto intro: load_ok_step)

lemma load_ok_new: "L \<le> max 0 (orElse cooldown 30000) \<Longrightarrow> load_ok L (newBreaker name threshold cooldown, t, [])"
  by (simp add: load_ok_def newBreaker_def)

lemma step_keeps_cooldown: "breaker_step L x y \<Longrightarrow> cooldownMs (fst y) = cooldownMs (fst x)"
proof (induction rule: breaker_step.induct)
  case (bs_begin b t b' ops)
  then show ?case by (cases rule: execute_begin_cases [of b t]) auto
next
  case (bs_end s ops b t r b' told)
  then have "b' = fst (execute_end b t r)" by simp
  then show ?case by (cases r) simp_all
qed (auto simp: reset_def)

lemma run_keeps_cooldown: "(breaker_step L)\<^sup>*\<^sup>* x y \<Longrightarrow> cooldownMs (fst y) = cooldownMs (fst x)"
  by (induction rule: rtranclp_induct) (auto dest: step_keeps_cooldown)

text \<open>
  C37. With calls that are shorter than the cooldown, and any number of them at once, a breaker that
  has been open is only ever probed by a single call; and it never gets stuck: once the calls in
  flight are over and the cooldown has passed, the next call goes through, its success closes the
  breaker, and its failure keeps it closed to callers for a whole cooldown.
\<close>

theorem breaker_probes_once_and_recovers:
  assumes run: "(breaker_step L)\<^sup>*\<^sup>* (newBreaker name threshold cooldown, t0, []) (b, t, ops)"
    and short: "L \<le> max 0 (orElse cooldown 30000)"
  shows "(circuitState b t = HalfOpen \<longrightarrow> length ops \<le> 1) \<and>
    (openedAt b = Some u \<and> ops = [] \<and> u + cooldownMs b \<le> now \<and> now \<le> fin \<longrightarrow>
      (\<exists>b1. execute_begin b now = Inr b1 \<and>
        openedAt (fst (execute_end b1 fin (Inr v))) = None \<and> failures (fst (execute_end b1 fin (Inr v))) = 0 \<and>
        (\<forall>later. fin \<le> later \<and> later < fin + cooldownMs b \<longrightarrow>
          execute_begin (fst (execute_end b1 fin (Inl e))) later = Inl (CircuitOpenError (cb_name b) (cooldownMs b)))))"
proof (intro conjI impI)
  have ok: "load_ok L (b, t, ops)" by (rule load_ok_run [OF run load_ok_new [OF short]])
  show "length ops \<le> 1" if "circuitState b t = HalfOpen"
  proof (cases "halfOpenInFlight b")
    case False
    have "ops = []"
    proof (rule ccontr)
      assume "ops \<noteq> []"
      then obtain s where "s \<in> set ops" by (cases ops) auto
      with ok that False show False by (fastforce simp: load_ok_def)
    qed
    then show ?thesis by simp
  qed (use ok in \<open>simp add: load_ok_def\<close>)
  assume h: "openedAt b = Some u \<and> ops = [] \<and> u + cooldownMs b \<le> now \<and> now \<le> fin"
  then obtain u where u: "openedAt b = Some u" "u + cooldownMs b \<le> now" "\<not> halfOpenInFlight b"
    using ok by (auto simp: load_ok_def)
  then have b1: "execute_begin b now = Inr (b\<lparr>halfOpenInFlight := True\<rparr>)"
    by (cases rule: execute_begin_cases [of b now]) auto
  show "\<exists>b1. execute_begin b now = Inr b1 \<and>
        openedAt (fst (execute_end b1 fin (Inr v))) = None \<and> failures (fst (execute_end b1 fin (Inr v))) = 0 \<and>
        (\<forall>later. fin \<le> later \<and> later < fin + cooldownMs b \<longrightarrow>
          execute_begin (fst (execute_end b1 fin (Inl e))) later = Inl (CircuitOpenError (cb_name b) (cooldownMs b)))"
    using b1 u by (auto simp: execute_begin_def circuitState_def Let_def)
qed

theorem breaker_probes_once_and_recovers_witness:
  "\<exists>b. (breaker_step 9)\<^sup>*\<^sup>* (newBreaker ''p'' (Some 1) (Some 10), 0, []) (b, 5, []) \<and>
     openedAt b = Some 5 \<and> execute_begin b 14 = Inl (CircuitOpenError ''p'' 10) \<and>
     (\<exists>b1. execute_begin b 15 = Inr b1 \<and> openedAt (fst (execute_end b1 20 (Inr () :: unit + unit))) = None)"
proof -
  let ?b0 = "newBreaker ''p'' (Some 1) (Some 10)"
  define b where "b = fst (execute_end ?b0 5 (Inl () :: unit + unit))"
  have "breaker_step 9 (?b0, 0, []) (?b0, 0, [0])"
    by (rule bs_begin) (simp_all add: execute_begin_def circuitState_def newBreaker_def)
  moreover have "breaker_step 9 (?b0, 0, [0]) (?b0, 5, [0])" by (rule bs_tick) simp_all
  moreover have "breaker_step 9 (?b0, 5, [0]) (b, 5, remove1 0 [0])"
    using bs_end [of 0 "[0]" ?b0 5 "Inl ()" b _ 9] unfolding b_def by (metis list.set_intros(1) prod.collapse)
  ultimately have run: "(breaker_step 9)\<^sup>*\<^sup>* (?b0, 0, []) (b, 5, [])"
    by (auto intro: converse_rtranclp_into_rtranclp)
  have b: "openedAt b = Some 5" "cooldownMs b = 10"
    "execute_begin b 14 = Inl (CircuitOpenError ''p'' 10)"
    unfolding b_def by (code_simp, code_simp, code_simp)
  from breaker_probes_once_and_recovers [OF run, of 5 15 20 "()" "()"] run b show ?thesis by auto
qed

text \<open>The same without a bound on the calls: an operation that started before the circuit opened ends
  during the probe and frees its slot, and two probes run at once.\<close>

lemma stale_failure_admits_a_second_probe:
  "let b0 = newBreaker ''p'' (Some 1) (Some 10);
       b1 = fst (execute_end b0 0 (Inl () :: unit + unit));
       b2 = (case execute_begin b1 10 of Inr b \<Rightarrow> b | Inl _ \<Rightarrow> b1);
       b3 = fst (execute_end b2 11 (Inl () :: unit + unit))
   in circuitState b1 10 = HalfOpen \<and> halfOpenInFlight b2 \<and>
      execute_begin b2 11 = Inl (CircuitOpenError ''p'' 10) \<and>
      execute_begin b3 21 = Inr (b3\<lparr>halfOpenInFlight := True\<rparr>)"
  by code_simp

section \<open>Time limits\<close>

text \<open>An awaited promise: when it settles, in ms from now, and how; \<open>None\<close> when it never does. A
  settlement and a timer due at the same millisecond run in an order the source does not fix: \<open>tie\<close> tells
  whether the promise comes first.\<close>

record provider_error =
  pe_is_timeout :: bool
  pe_code :: "string option"
  pe_status :: "int option"
  pe_statusCode :: "int option"
  pe_message :: "string option"

definition ProviderTimeoutError :: "string \<Rightarrow> int \<Rightarrow> provider_error" where
  "ProviderTimeoutError label timeoutMs =
     \<lparr>pe_is_timeout = True, pe_code = None, pe_status = None, pe_statusCode = None,
      pe_message = Some (label @ '' a d'' @ [CHR 0xE9] @ ''pass'' @ [CHR 0xE9, CHR '' ''] @ nat_str (nat timeoutMs) @ '' ms'')\<rparr>"

type_synonym 'a awaited = "(int \<times> (provider_error + 'a)) option"

definition first_of :: "bool \<Rightarrow> int \<Rightarrow> int \<Rightarrow> bool" where
  "first_of tie t at \<longleftrightarrow> t < at \<or> t = at \<and> tie"

definition withTimeout :: "bool \<Rightarrow> 'a awaited \<Rightarrow> int \<Rightarrow> string \<Rightarrow> int \<times> (provider_error + 'a)" where
  "withTimeout tie promise timeoutMs label = (case promise of
       Some (t, r) \<Rightarrow> if first_of tie t timeoutMs then (t, r)
                     else (timeoutMs, Inl (ProviderTimeoutError label timeoutMs))
     | None \<Rightarrow> (timeoutMs, Inl (ProviderTimeoutError label timeoutMs)))"

text \<open>\<open>fetch\<close> with the signal of the caller or else that of the timer: an aborted fetch rejects at once.
  The caller's signal is given by when it aborts, if it does. \<open>fetched\<close> is how the fetch settles,
  \<open>controller.signal.aborted\<close> is whether the timer has fired by then.\<close>

definition abort_at :: "bool \<Rightarrow> int \<Rightarrow> provider_error \<Rightarrow> 'a awaited \<Rightarrow> 'a awaited" where
  "abort_at tie at err response = (case response of
       Some (t, r) \<Rightarrow> if first_of tie t at then Some (t, r) else Some (at, Inl err)
     | None \<Rightarrow> Some (at, Inl err))"

definition fetchWithTimeout :: "bool \<Rightarrow> provider_error \<Rightarrow> string \<Rightarrow> int option option \<Rightarrow> int \<Rightarrow>
    'a awaited \<Rightarrow> 'a awaited" where
  "fetchWithTimeout tie AbortError url sig timeoutMs response =
     (let fetched = (case sig of
            Some (Some t) \<Rightarrow> abort_at tie t AbortError response
          | Some None \<Rightarrow> response
          | None \<Rightarrow> abort_at tie timeoutMs AbortError response);
          own = (sig = None \<and> (case response of None \<Rightarrow> True | Some (t, _) \<Rightarrow> \<not> first_of tie t timeoutMs))
      in case fetched of
           Some (t, Inl e) \<Rightarrow>
             if own \<or> \<not> first_of tie t timeoutMs
             then Some (t, Inl (ProviderTimeoutError url timeoutMs)) else Some (t, Inl e)
         | _ \<Rightarrow> fetched)"

text \<open>Without a signal of the caller every call ends within the limit; with one, only the caller ends it.\<close>

lemma withTimeout_bounded: "0 \<le> timeoutMs \<Longrightarrow> fst (withTimeout tie p timeoutMs label) \<le> timeoutMs"
  by (auto simp: withTimeout_def first_of_def split: option.splits)

lemma fetch_bounded_without_signal:
  "\<exists>t r. fetchWithTimeout tie ab url None timeoutMs response = Some (t, r) \<and> t \<le> timeoutMs"
  by (auto simp: fetchWithTimeout_def abort_at_def first_of_def Let_def split: option.splits sum.splits)

lemma fetch_unbounded_with_signal:
  "fetchWithTimeout tie ab url (Some None) timeoutMs None = None"
  by (simp add: fetchWithTimeout_def)

section \<open>Bounded retry\<close>

definition NETWORK_ERROR_CODES :: "string list" where
  "NETWORK_ERROR_CODES = [''ECONNRESET'', ''ECONNREFUSED'', ''ETIMEDOUT'', ''EPIPE'', ''EAI_AGAIN'',
     ''UND_ERR_CONNECT_TIMEOUT'', ''UND_ERR_SOCKET'']"

definition isRetryableProviderError :: "provider_error \<Rightarrow> bool" where
  "isRetryableProviderError e =
     (if pe_is_timeout e then True
      else if (case pe_code e of Some c \<Rightarrow> c \<in> set NETWORK_ERROR_CODES | None \<Rightarrow> False) then True
      else if (case orElse_opt (pe_status e) (pe_statusCode e) of
                 Some st \<Rightarrow> st \<ge> 500 \<or> st = 429 | None \<Rightarrow> False) then True
      else case pe_message e of
             Some m \<Rightarrow> list_ex (\<lambda>w. contains w (map lower_char m))
                       [''fetch failed'', ''socket hang up'', ''network'', ''timeout'']
           | None \<Rightarrow> False)"

record retry_options =
  ro_attempts :: int
  ro_baseDelayMs :: int
  ro_maxDelayMs :: int
  ro_isRetryable :: "provider_error \<Rightarrow> bool"

definition retryOptions :: "int option \<Rightarrow> int option \<Rightarrow> int option \<Rightarrow> (provider_error \<Rightarrow> bool) option \<Rightarrow>
    retry_options" where
  "retryOptions attempts baseDelayMs maxDelayMs isRetryable =
     \<lparr>ro_attempts = max 1 (orElse attempts 3), ro_baseDelayMs = orElse baseDelayMs 200,
      ro_maxDelayMs = orElse maxDelayMs 2000, ro_isRetryable = orElse isRetryable isRetryableProviderError\<rparr>"

text \<open>\<open>random k\<close> is the draw of attempt \<open>k\<close>, times \<open>2 ^ 53\<close>.\<close>

definition backoff :: "retry_options \<Rightarrow> int \<Rightarrow> int" where
  "backoff ro attempt = min (ro_maxDelayMs ro) (ro_baseDelayMs ro * 2 ^ nat (attempt - 1))"

definition retryDelay :: "retry_options \<Rightarrow> (int \<Rightarrow> int) \<Rightarrow> int \<Rightarrow> int" where
  "retryDelay ro random attempt =
     round_div (backoff ro attempt * (8 * 2 ^ 53 + 4 * random attempt)) (10 * 2 ^ 53)"

text \<open>The loop answers the outcome and the retries \<open>(attempt, delayMs, error)\<close> it slept for. \<open>op k\<close> is
  how the \<open>k\<close>-th execution of the operation ends; \<open>lastError\<close> is \<open>None\<close> while undefined.\<close>

function retry_loop :: "retry_options \<Rightarrow> (int \<Rightarrow> int) \<Rightarrow> (int \<Rightarrow> provider_error + 'a) \<Rightarrow> int \<Rightarrow>
    provider_error option \<Rightarrow> (provider_error option + 'a) \<times> (int \<times> int \<times> provider_error) list" where
  "retry_loop ro random op attempt lastError =
     (if attempt \<le> ro_attempts ro then
        (case op attempt of
           Inr v \<Rightarrow> (Inr v, [])
         | Inl e \<Rightarrow>
             if attempt = ro_attempts ro \<or> \<not> ro_isRetryable ro e then (Inl (Some e), [])
             else let (res, slept) = retry_loop ro random op (attempt + 1) (Some e)
                  in (res, (attempt, retryDelay ro random attempt, e) # slept))
      else (Inl lastError, []))"
  by pat_completeness auto
termination
  by (relation "measure (\<lambda>(ro, random, op, attempt, lastError). nat (ro_attempts ro + 1 - attempt))") auto

declare retry_loop.simps [simp del]

definition retry :: "retry_options \<Rightarrow> (int \<Rightarrow> int) \<Rightarrow> (int \<Rightarrow> provider_error + 'a) \<Rightarrow>
    (provider_error option + 'a) \<times> (int \<times> int \<times> provider_error) list" where
  "retry ro random op = retry_loop ro random op 1 None"

definition gives_up :: "retry_options \<Rightarrow> (int \<Rightarrow> provider_error + 'a) \<Rightarrow> int \<Rightarrow> bool" where
  "gives_up ro op k \<longleftrightarrow> (case op k of Inr _ \<Rightarrow> True | Inl e \<Rightarrow> k = ro_attempts ro \<or> \<not> ro_isRetryable ro e)"

definition outcome_of :: "provider_error + 'a \<Rightarrow> provider_error option + 'a" where
  "outcome_of r = (case r of Inl e \<Rightarrow> Inl (Some e) | Inr v \<Rightarrow> Inr v)"

lemma retry_loop_exact:
  assumes "1 \<le> attempt" "attempt \<le> ro_attempts ro"
  shows "\<exists>k. attempt \<le> k \<and> k \<le> ro_attempts ro \<and> gives_up ro op k \<and> (\<forall>i. attempt \<le> i \<and> i < k \<longrightarrow> \<not> gives_up ro op i) \<and>
    fst (retry_loop ro random op attempt l) = outcome_of (op k) \<and>
    map fst (snd (retry_loop ro random op attempt l)) = [attempt .. k - 1] \<and>
    (\<forall>(i, d, e) \<in> set (snd (retry_loop ro random op attempt l)). op i = Inl e \<and> d = retryDelay ro random i)"
  using assms
proof (induction ro random op attempt l rule: retry_loop.induct)
  case (1 ro random op attempt l)
  show ?case
  proof (cases "gives_up ro op attempt")
    case True
    then show ?thesis using 1(3)
      by (intro exI [of _ attempt]) (auto simp: retry_loop.simps [of ro random op attempt l] gives_up_def outcome_of_def split: sum.splits)
  next
    case False
    then obtain e where e: "op attempt = Inl e" "attempt \<noteq> ro_attempts ro" "ro_isRetryable ro e"
      by (auto simp: gives_up_def split: sum.splits)
    let ?s = "retry_loop ro random op (attempt + 1) (Some e)"
    have step: "retry_loop ro random op attempt l = (fst ?s, (attempt, retryDelay ro random attempt, e) # snd ?s)"
      using e 1(3) by (simp add: retry_loop.simps [of ro random op attempt l] split: prod.splits)
    from 1(1) [OF 1(3) e(1)] e 1(2,3) obtain k where k: "attempt + 1 \<le> k" "k \<le> ro_attempts ro" "gives_up ro op k"
      "\<forall>i. attempt + 1 \<le> i \<and> i < k \<longrightarrow> \<not> gives_up ro op i" "fst ?s = outcome_of (op k)"
      "map fst (snd ?s) = [attempt + 1 .. k - 1]"
      "\<forall>(i, d, e) \<in> set (snd ?s). op i = Inl e \<and> d = retryDelay ro random i" by force
    have "\<forall>i. attempt \<le> i \<and> i < k \<longrightarrow> \<not> gives_up ro op i"
      using k(4) False by (metis add1_zle_eq order_le_less)
    moreover have "attempt # [attempt + 1 .. k - 1] = [attempt .. k - 1]"
      using k(1) by (simp add: upto_rec1)
    ultimately show ?thesis unfolding step using k e by (intro exI [of _ k]) auto
  qed
qed

lemma retryDelay_bounds:
  assumes "0 \<le> ro_baseDelayMs ro" "0 \<le> ro_maxDelayMs ro" "0 \<le> random i" "random i < 2 ^ 53"
  shows "round_div (8 * backoff ro i) 10 \<le> retryDelay ro random i"
    "retryDelay ro random i \<le> round_div (12 * backoff ro i) 10"
proof -
  have scale: "round_div (a * b) (10 * b) = round_div a 10" if "0 < b" for a b
  proof -
    have "(2 * (a * b) + 10 * b) div (2 * (10 * b)) = ((2 * a + 10) * b) div ((2 * 10) * b)"
      by (simp only: distrib_right mult.assoc)
    also have "\<dots> = (2 * a + 10) div (2 * 10)" using that by (intro div_mult_mult2) simp
    finally show ?thesis unfolding round_div_def .
  qed
  have pos: "0 \<le> backoff ro i" using assms by (simp add: backoff_def)
  have "round_div (8 * backoff ro i * 2 ^ 53) (10 * 2 ^ 53) \<le> retryDelay ro random i"
    unfolding retryDelay_def using pos assms(3) by (intro round_div_mono) (simp_all add: algebra_simps)
  then show "round_div (8 * backoff ro i) 10 \<le> retryDelay ro random i"
    using scale [of "2 ^ 53" "8 * backoff ro i"] by simp
  have "backoff ro i * (8 * 2 ^ 53 + 4 * random i) \<le> backoff ro i * (12 * 2 ^ 53)"
    using pos assms(4) by (intro mult_left_mono) auto
  then have "retryDelay ro random i \<le> round_div (12 * backoff ro i * 2 ^ 53) (10 * 2 ^ 53)"
    unfolding retryDelay_def by (intro round_div_mono) (simp_all add: algebra_simps)
  then show "retryDelay ro random i \<le> round_div (12 * backoff ro i) 10"
    using scale [of "2 ^ 53" "12 * backoff ro i"] by simp
qed

text \<open>
  C40. A retried operation runs a bounded number of times and its outcome is that of the last execution:
  the first that succeeds, fails for good, or is the last allowed one. Every execution before it failed
  with a retryable error and was followed by one sleep of the capped exponential delay, within a fifth of it.
\<close>

theorem retry_exact:
  assumes ro: "ro = retryOptions attempts baseDelayMs maxDelayMs isRetryable"
    and "0 \<le> ro_baseDelayMs ro" "0 \<le> ro_maxDelayMs ro" "\<forall>i. 0 \<le> random i \<and> random i < 2 ^ 53"
    and run: "retry ro random op = (res, slept)"
  shows "\<exists>k. 1 \<le> k \<and> k \<le> max 1 (orElse attempts 3) \<and> gives_up ro op k \<and> (\<forall>i. 1 \<le> i \<and> i < k \<longrightarrow> \<not> gives_up ro op i) \<and>
    res = outcome_of (op k) \<and> map fst slept = [1 .. k - 1] \<and>
    (\<forall>(i, d, e) \<in> set slept. op i = Inl e \<and> ro_isRetryable ro e \<and>
       round_div (8 * backoff ro i) 10 \<le> d \<and> d \<le> round_div (12 * backoff ro i) 10)"
proof -
  have n: "ro_attempts ro = max 1 (orElse attempts 3)" by (simp add: ro retryOptions_def)
  from retry_loop_exact [of 1 ro op random None] n run obtain k where k: "1 \<le> k" "k \<le> ro_attempts ro"
    "gives_up ro op k" "\<forall>i. 1 \<le> i \<and> i < k \<longrightarrow> \<not> gives_up ro op i" "res = outcome_of (op k)" "map fst slept = [1 .. k - 1]"
    "\<forall>(i, d, e) \<in> set slept. op i = Inl e \<and> d = retryDelay ro random i"
    by (auto simp: retry_def)
  have "ro_isRetryable ro e \<and> round_div (8 * backoff ro i) 10 \<le> d \<and> d \<le> round_div (12 * backoff ro i) 10"
    if x: "(i, d, e) \<in> set slept" for i d e
  proof -
    have "i \<in> set (map fst slept)" using x by force
    then have "\<not> gives_up ro op i" using k(4,6) by auto
    moreover have "op i = Inl e" "d = retryDelay ro random i" using k(7) x by auto
    ultimately show ?thesis using retryDelay_bounds [of ro random i] assms(2-4) by (auto simp: gives_up_def)
  qed
  then show ?thesis using k n by (intro exI [of _ k]) auto
qed

theorem retry_exact_witness:
  "let op = (\<lambda>i. if i < 3 then Inl ((ProviderTimeoutError ''x'' 10)\<lparr>pe_is_timeout := False, pe_status := Some 503\<rparr>)
             else Inr i);
       ro = retryOptions None None None None
   in \<exists>k slept. retry ro (\<lambda>_. 0) op = (Inr 3, slept) \<and> map (\<lambda>x. fst (snd x)) slept = [160, 320] \<and>
        map fst slept = [1 .. k - 1] \<and> k \<le> 3"
proof -
  define op :: "int \<Rightarrow> provider_error + int" where
    "op = (\<lambda>i. if i < 3 then Inl ((ProviderTimeoutError ''x'' 10)\<lparr>pe_is_timeout := False, pe_status := Some 503\<rparr>)
           else Inr i)"
  obtain res slept where run: "retry (retryOptions None None None None) (\<lambda>_. 0) op = (res, slept)" by fastforce
  have "fst (retry (retryOptions None None None None) (\<lambda>_. 0) op) = Inr 3 \<and>
      map (\<lambda>x. fst (snd x)) (snd (retry (retryOptions None None None None) (\<lambda>_. 0) op)) = [160, 320]"
    unfolding op_def by code_simp
  then have "res = Inr 3" "map (\<lambda>x. fst (snd x)) slept = [160, 320]" unfolding run by simp_all
  moreover have "0 \<le> ro_baseDelayMs (retryOptions None None None None)"
    "0 \<le> ro_maxDelayMs (retryOptions None None None None)" by (simp_all add: retryOptions_def)
  ultimately show ?thesis
    using retry_exact [OF refl _ _ _ run] run unfolding Let_def op_def by auto
qed

text \<open>The jitter is added after the cap: a delay can exceed \<open>maxDelayMs\<close> by a fifth.\<close>

lemma jitter_exceeds_maxDelayMs:
  "retryDelay (retryOptions None None None None) (\<lambda>_. 2 ^ 53 - 1) 5 = 2400"
  by (simp add: retryDelay_def backoff_def retryOptions_def round_div_def)

end
