(* ===== verification/Redis.thy ===== *)
theory Redis
  imports Prelude
begin

text \<open>
  What the services use of Redis: string values with an expiry, \<open>GET\<close>, \<open>SET .. EX\<close>, \<open>SET .. EX .. NX\<close>,
  \<open>DEL\<close>. A command can run and answer, not run, or run and lose its answer; the client throws in the last
  two cases. An instant beyond the expiry of a key finds it absent.
\<close>

datatype reply = Answered | NotRun | AnswerLost

type_synonym redis = "string \<Rightarrow> (string \<times> instant) option"

definition redis_get :: "instant \<Rightarrow> string \<Rightarrow> redis \<Rightarrow> string option" where
  "redis_get now key rd = (case rd key of Some (v, expiresAt) \<Rightarrow> if now < expiresAt then Some v else None | None \<Rightarrow> None)"

definition redis_set :: "instant \<Rightarrow> string \<Rightarrow> string \<Rightarrow> int \<Rightarrow> redis \<Rightarrow> redis" where
  "redis_set now key v seconds rd = rd(key \<mapsto> (v, now + seconds * 1000))"

definition redis_set_nx :: "instant \<Rightarrow> string \<Rightarrow> string \<Rightarrow> int \<Rightarrow> redis \<Rightarrow> redis \<times> bool" where
  "redis_set_nx now key v seconds rd =
    (if redis_get now key rd = None then (redis_set now key v seconds rd, True) else (rd, False))"

definition redis_del :: "string \<Rightarrow> redis \<Rightarrow> redis" where
  "redis_del key rd = rd(key := None)"

end
