(* ===== verification/Rate_Limit.thy ===== *)
theory Rate_Limit
  imports Redis
begin

text \<open>
  Rate limits on Redis. The token bucket of the MCP server (\<open>mcp/rate-limit.ts\<close>, a Lua script), the
  fixed windows of payments and Suppernote Connect (\<open>shared/redis/rate-limit.ts\<close>,
  \<open>connect/connect-rate-limit.ts\<close>, with their fallback in memory) and the spacing of the calls to
  Resend (\<open>shared/email/rate-limit.ts\<close>). Keys are those of the source, times milliseconds; a Redis
  command can run and answer, not run, or run and lose its answer. Capacities and refill rates are
  whole numbers, so a bucket counts thousandths of a token exactly.
\<close>

section \<open>The token bucket\<close>

record bucket_config =
  bc_capacity :: int
  bc_refillPerSecond :: int

definition DEFAULT_RATE_LIMIT :: bucket_config where
  "DEFAULT_RATE_LIMIT = \<lparr>bc_capacity = 60, bc_refillPerSecond = 1\<rparr>"

text \<open>A hash of the script: thousandths of tokens, the time of the last call, and when Redis expires it.\<close>

record bucket =
  bu_tokens :: int
  bu_last :: int
  bu_expiresAt :: int

type_synonym buckets = "string \<Rightarrow> bucket option"

definition ceil_div :: "int \<Rightarrow> int \<Rightarrow> int" where
  "ceil_div a b = - ((- a) div b)"

definition live_bucket :: "int \<Rightarrow> bucket option \<Rightarrow> bucket option" where
  "live_bucket redisNow x = (case x of Some b \<Rightarrow> if redisNow < bu_expiresAt b then Some b else None | None \<Rightarrow> None)"

definition lua_script :: "bucket_config \<Rightarrow> string \<Rightarrow> int \<Rightarrow> int \<Rightarrow> buckets \<Rightarrow> buckets \<times> int \<times> int \<times> int" where
  "lua_script c key now redisNow rd =
     (let (tokens0, last) = (case live_bucket redisNow (rd key) of
              None \<Rightarrow> (bc_capacity c * 1000, now) | Some b \<Rightarrow> (bu_tokens b, bu_last b));
          tokens = min (bc_capacity c * 1000) (tokens0 + max 0 (now - last) * bc_refillPerSecond c);
          expiresAt = redisNow + ceil_div (bc_capacity c * 1000) (bc_refillPerSecond c) + 1000
      in if tokens < 1000
         then (rd(key \<mapsto> \<lparr>bu_tokens = tokens, bu_last = now, bu_expiresAt = expiresAt\<rparr>), 0, tokens div 1000, 0)
         else (rd(key \<mapsto> \<lparr>bu_tokens = tokens - 1000, bu_last = now, bu_expiresAt = expiresAt\<rparr>),
               1, (tokens - 1000) div 1000, ceil_div (1000 - (tokens - 1000)) (bc_refillPerSecond c)))"

record rate_limit_result =
  rl_allowed :: bool
  rl_remaining :: int
  rl_resetMs :: int
  rl_reason :: "string option"

definition RATE_LIMIT_FALLBACK_RESET_MS :: int where
  "RATE_LIMIT_FALLBACK_RESET_MS = 5000"

definition redis_down :: rate_limit_result where
  "redis_down = \<lparr>rl_allowed = False, rl_remaining = 0, rl_resetMs = RATE_LIMIT_FALLBACK_RESET_MS,
     rl_reason = Some ''redis_down''\<rparr>"

definition result_of :: "int \<times> int \<times> int \<Rightarrow> rate_limit_result" where
  "result_of x = \<lparr>rl_allowed = fst x = 1, rl_remaining = fst (snd x), rl_resetMs = snd (snd x),
     rl_reason = if fst x = 1 then None else Some ''over_capacity''\<rparr>"

text \<open>What the two commands of the limiter answer: \<open>script LOAD\<close> (the digest, or a failure) and
  \<open>evalsha\<close>, which can also find the scripts flushed. Each is sent twice at most.\<close>

datatype eval_reply = Evaluated reply | NOSCRIPT

record mcp_env =
  me_load :: "nat \<Rightarrow> string option"
  me_eval :: "nat \<Rightarrow> eval_reply"

definition evalsha :: "eval_reply \<Rightarrow> bucket_config \<Rightarrow> string \<Rightarrow> int \<Rightarrow> int \<Rightarrow> buckets \<Rightarrow>
    buckets \<times> rate_limit_result option" where
  "evalsha r c key now redisNow rd =
     (let (rd', x) = lua_script c key now redisNow rd in
      case r of Evaluated Answered \<Rightarrow> (rd', Some (result_of x))
              | Evaluated AnswerLost \<Rightarrow> (rd', None)
              | _ \<Rightarrow> (rd, None))"

text \<open>\<open>McpRateLimiter.check\<close>: the remembered digest, the buckets and the answer.\<close>

definition bucketKey :: "string \<Rightarrow> string \<Rightarrow> string" where
  "bucketKey clientId toolName = ''sokar:mcp:ratelimit:'' @ clientId @ '':'' @ toolName"

definition mcp_check :: "mcp_env \<Rightarrow> bucket_config \<Rightarrow> string \<Rightarrow> string \<Rightarrow> int \<Rightarrow> int \<Rightarrow> string option \<Rightarrow> buckets \<Rightarrow>
    string option \<times> buckets \<times> rate_limit_result" where
  "mcp_check e c clientId toolName now redisNow sha rd =
     (let key = bucketKey clientId toolName;
          sha1 = (if truthy sha then sha else me_load e 0)
      in if \<not> truthy sha \<and> me_load e 0 = None then (None, rd, redis_down)
         else case me_eval e 0 of
           NOSCRIPT \<Rightarrow>
             (case me_load e 1 of
                None \<Rightarrow> (None, rd, redis_down)
              | Some s \<Rightarrow> (case evalsha (me_eval e 1) c key now redisNow rd of
                    (rd', Some res) \<Rightarrow> (Some s, rd', res)
                  | (rd', None) \<Rightarrow> (None, rd', redis_down)))
         | r \<Rightarrow> (case evalsha r c key now redisNow rd of
                 (rd', Some res) \<Rightarrow> (sha1, rd', res)
               | (rd', None) \<Rightarrow> (None, rd', redis_down)))"

subsection \<open>The bucket is the ideal one\<close>

text \<open>An ideal bucket starts full, refills continuously and is never forgotten.\<close>

definition level_at :: "bucket_config \<Rightarrow> int \<times> int \<Rightarrow> int \<Rightarrow> int" where
  "level_at c s now = min (bc_capacity c * 1000) (fst s + (now - snd s) * bc_refillPerSecond c)"

definition ideal_take :: "bucket_config \<Rightarrow> int \<Rightarrow> int \<times> int \<Rightarrow> (int \<times> int) \<times> bool" where
  "ideal_take c now s = (let l = level_at c s now in
     if l < 1000 then ((l, now), False) else ((l - 1000, now), True))"

fun ideal_run :: "bucket_config \<Rightarrow> int \<times> int \<Rightarrow> int list \<Rightarrow> bool list" where
  "ideal_run c s [] = []"
| "ideal_run c s (t # ts) = (let (s', ok) = ideal_take c t s in ok # ideal_run c s' ts)"

fun script_run :: "bucket_config \<Rightarrow> string \<Rightarrow> buckets \<Rightarrow> int list \<Rightarrow> bool list" where
  "script_run c key rd [] = []"
| "script_run c key rd (t # ts) =
     (let (rd', x) = lua_script c key t t rd in (fst x = 1) # script_run c key rd' ts)"

text \<open>The hash in Redis stands for the ideal bucket: alive, it is it; gone, the ideal one is full again.\<close>

definition stands_for :: "bucket_config \<Rightarrow> bucket option \<Rightarrow> int \<times> int \<Rightarrow> int \<Rightarrow> bool" where
  "stands_for c x s t \<longleftrightarrow> 0 \<le> fst s \<and> snd s \<le> t \<and>
     (case x of None \<Rightarrow> \<forall>now \<ge> t. level_at c s now = bc_capacity c * 1000
      | Some b \<Rightarrow> s = (bu_tokens b, bu_last b) \<and>
          bu_expiresAt b = bu_last b + ceil_div (bc_capacity c * 1000) (bc_refillPerSecond c) + 1000)"

lemma ceil_div_mult: "0 < b \<Longrightarrow> a \<le> ceil_div a b * b"
proof -
  assume "0 < b"
  then have "(- a) div b * b \<le> - a"
    using minus_mod_eq_div_mult [of "- a" b, symmetric] pos_mod_sign [of b "- a"] by simp
  then show ?thesis by (simp add: ceil_div_def)
qed

lemma expired_is_full:
  assumes "stands_for c x s t" "0 < bc_refillPerSecond c" "t \<le> now" "live_bucket now x = None"
  shows "level_at c s now = bc_capacity c * 1000"
proof (cases x)
  case None
  then show ?thesis using assms(1,3) by (simp add: stands_for_def)
next
  case (Some b)
  let ?w = "ceil_div (bc_capacity c * 1000) (bc_refillPerSecond c)"
  have b: "s = (bu_tokens b, bu_last b)" "0 \<le> bu_tokens b" "bu_last b + ?w + 1000 \<le> now"
    using assms Some by (auto simp: stands_for_def live_bucket_def split: if_splits)
  have "bc_capacity c * 1000 \<le> ?w * bc_refillPerSecond c" by (rule ceil_div_mult [OF assms(2)])
  also have "\<dots> \<le> (now - bu_last b) * bc_refillPerSecond c"
    using b(3) assms(2) by (intro mult_right_mono) auto
  finally show ?thesis using b by (simp add: level_at_def)
qed

lemma script_is_ideal_step:
  assumes "stands_for c (rd key) s t" "0 < bc_refillPerSecond c" "0 \<le> bc_capacity c" "t \<le> now"
    and "lua_script c key now now rd = (rd', x)" "ideal_take c now s = (s', ok)"
  shows "(fst x = 1) = ok" "stands_for c (rd' key) s' now"
proof -
  have last: "snd s \<le> now" using assms(1,4) by (simp add: stands_for_def)
  let ?t = "case live_bucket now (rd key) of None \<Rightarrow> (bc_capacity c * 1000, now) | Some b \<Rightarrow> (bu_tokens b, bu_last b)"
  have l: "min (bc_capacity c * 1000) (fst ?t + max 0 (now - snd ?t) * bc_refillPerSecond c) = level_at c s now"
  proof (cases "live_bucket now (rd key)")
    case None
    then show ?thesis using expired_is_full [OF assms(1,2,4) None] by simp
  next
    case (Some b)
    then have "rd key = Some b" by (auto simp: live_bucket_def split: option.splits if_splits)
    then have "s = (bu_tokens b, bu_last b)" using assms(1) by (simp add: stands_for_def)
    then show ?thesis using Some last by (simp add: level_at_def max_def)
  qed
  have nonneg: "0 \<le> level_at c s now"
    using assms(1-4) last by (auto simp: level_at_def stands_for_def)
  show "(fst x = 1) = ok" "stands_for c (rd' key) s' now"
    using assms(5,6) l nonneg unfolding lua_script_def ideal_take_def Let_def
    by (auto simp: stands_for_def split: if_splits prod.splits)
qed

lemma script_run_is_ideal:
  assumes "stands_for c (rd key) s t" "0 < bc_refillPerSecond c" "0 \<le> bc_capacity c" "sorted (t # ts)"
  shows "script_run c key rd ts = ideal_run c s ts"
  using assms
proof (induction ts arbitrary: rd s t)
  case (Cons now ts)
  obtain rd' x where sc: "lua_script c key now now rd = (rd', x)" by (metis surj_pair)
  obtain s' ok where id: "ideal_take c now s = (s', ok)" by fastforce
  have "t \<le> now" using Cons.prems(4) by simp
  note step = script_is_ideal_step [OF Cons.prems(1-3) this sc id]
  from Cons.IH [where rd = rd', OF step(2) Cons.prems(2,3)] Cons.prems(4) step(1) show ?case by (simp add: sc id)
qed simp

lemma ideal_run_bound:
  assumes "0 \<le> fst s" "snd s \<le> t" "0 < bc_refillPerSecond c" "0 \<le> bc_capacity c" "sorted (t # ts)" "\<forall>x \<in> set ts. x \<le> T" "t \<le> T"
  shows "1000 * int (length (filter (\<lambda>x. x) (ideal_run c s ts))) \<le> fst s + (T - snd s) * bc_refillPerSecond c"
  using assms
proof (induction ts arbitrary: s t)
  case Nil
  then show ?case by simp
next
  case (Cons now ts)
  obtain s' ok where id: "ideal_take c now s = (s', ok)" by fastforce
  have lo: "0 \<le> level_at c s now" using Cons.prems by (auto simp: level_at_def)
  have s': "snd s' = now" "fst s' = level_at c s now - (if ok then 1000 else 0)" "0 \<le> fst s'"
    using id lo by (auto simp: ideal_take_def Let_def split: if_splits)
  have "level_at c s now \<le> fst s + (now - snd s) * bc_refillPerSecond c" by (simp add: level_at_def)
  moreover have "1000 * int (length (filter (\<lambda>x. x) (ideal_run c s' ts))) \<le> fst s' + (T - snd s') * bc_refillPerSecond c"
    using Cons.prems s' by (intro Cons.IH [of s' now]) auto
  ultimately show ?case using id s' by (auto simp: algebra_simps)
qed



text \<open>The script trusts the clock of its caller: two servers whose clocks differ by ten seconds refill
  the bucket again and again, without any time going by.\<close>

lemma skewed_clocks_refill:
  "let c = \<lparr>bc_capacity = 1, bc_refillPerSecond = 1\<rparr> in
   script_run c ''k'' (\<lambda>_. None) [10000, 10000] = [True, False] \<and>
   (let (rd1, x1) = lua_script c ''k'' 10000 10000 (\<lambda>_. None);
        (rd2, x2) = lua_script c ''k'' 0 10000 rd1;
        (rd3, x3) = lua_script c ''k'' 10000 10000 rd2
    in fst x1 = 1 \<and> fst x2 = 0 \<and> fst x3 = 1)"
  by code_simp

subsection \<open>The limiter fails closed\<close>

text \<open>
  The MCP limiter fails closed: it lets a call through only when Redis ran the script and the bucket
  of that client and tool gave a token. When Redis does not answer (down, answer lost, scripts flushed
  and not reloaded) the call is refused and the remembered script forgotten; no other bucket is touched.
\<close>

lemma mcp_check_fails_closed:
  assumes "mcp_check e c clientId toolName now redisNow sha rd = (sha', rd', res)"
  shows "(\<forall>k. k \<noteq> bucketKey clientId toolName \<longrightarrow> rd' k = rd k) \<and>
    (rl_allowed res \<longrightarrow> (\<exists>remaining resetMs.
       lua_script c (bucketKey clientId toolName) now redisNow rd = (rd', 1, remaining, resetMs) \<and>
       rl_remaining res = remaining \<and> rl_resetMs res = resetMs \<and> rl_reason res = None)) \<and>
    (\<not> rl_allowed res \<longrightarrow> res = redis_down \<and> sha' = None \<or>
       rl_reason res = Some ''over_capacity'' \<and>
       (\<exists>x. lua_script c (bucketKey clientId toolName) now redisNow rd = (rd', x) \<and> fst x = 0))"
proof -
  let ?k = "bucketKey clientId toolName"
  obtain rd1 x where sc: "lua_script c ?k now redisNow rd = (rd1, x)" by (metis surj_pair)
  have x: "fst x = 0 \<or> fst x = 1" and frame: "\<forall>k. k \<noteq> ?k \<longrightarrow> rd1 k = rd k"
    using sc by (auto simp: lua_script_def Let_def split: if_splits prod.splits)
  obtain a r t where x3: "x = (a, r, t)" by (cases x)
  have ev: "evalsha y c ?k now redisNow rd = (rd1, Some (result_of x)) \<or>
      evalsha y c ?k now redisNow rd = (rd1, None) \<or> evalsha y c ?k now redisNow rd = (rd, None)" for y
    by (cases y; cases "case y of Evaluated z \<Rightarrow> z | _ \<Rightarrow> NotRun") (auto simp: evalsha_def sc)
  have "(rd' = rd \<or> rd' = rd1) \<and> (res = redis_down \<and> sha' = None \<or> rd' = rd1 \<and> res = result_of x)"
    using assms ev [of "me_eval e 0"] ev [of "me_eval e 1"] unfolding mcp_check_def Let_def
    by (auto split: if_splits option.splits prod.splits eval_reply.splits)
  then show ?thesis
    using x frame sc x3 by (auto simp: result_of_def redis_down_def)
qed

lemma mcp_check_fails_closed_witness:
  "\<exists>sha' rd' res. mcp_check \<lparr>me_load = (\<lambda>n. if n = 0 then Some ''sha'' else None), me_eval = (\<lambda>_. NOSCRIPT)\<rparr>
       DEFAULT_RATE_LIMIT ''agent'' ''book'' 0 0 None (\<lambda>_. None) = (sha', rd', res) \<and>
     res = redis_down \<and> sha' = None \<and> rd' ''other'' = None"
proof -
  let ?e = "\<lparr>me_load = (\<lambda>n :: nat. if n = 0 then Some ''sha'' else None), me_eval = (\<lambda>_ :: nat. NOSCRIPT)\<rparr>"
  obtain sha' rd' res where run: "mcp_check ?e DEFAULT_RATE_LIMIT ''agent'' ''book'' 0 0 None (\<lambda>_. None) = (sha', rd', res)"
    by (metis prod_cases3)
  have "\<not> rl_allowed (snd (snd (mcp_check ?e DEFAULT_RATE_LIMIT ''agent'' ''book'' 0 0 None (\<lambda>_. None))))"
    "rl_reason (snd (snd (mcp_check ?e DEFAULT_RATE_LIMIT ''agent'' ''book'' 0 0 None (\<lambda>_. None)))) = Some ''redis_down''"
    by (code_simp, code_simp)
  then have res: "\<not> rl_allowed res" "rl_reason res = Some ''redis_down''" unfolding run by simp_all
  have "bucketKey ''agent'' ''book'' \<noteq> ''other''" by (simp add: bucketKey_def)
  with mcp_check_fails_closed [OF run] res run show ?thesis by auto
qed

text \<open>The \<open>resetMs\<close> of an allowed call is negative once two tokens are left, and 0 for a refused one.\<close>

lemma resetMs_is_not_a_delay:
  "snd (lua_script DEFAULT_RATE_LIMIT ''k'' 0 0 (\<lambda>_. None)) = (1, 59, - 58000) \<and>
   snd (lua_script DEFAULT_RATE_LIMIT ''k'' 0 0 (\<lambda>_. Some \<lparr>bu_tokens = 0, bu_last = 0, bu_expiresAt = 61000\<rparr>)) = (0, 0, 0)"
  by (simp add: lua_script_def DEFAULT_RATE_LIMIT_def live_bucket_def ceil_div_def)

section \<open>Fixed windows\<close>

text \<open>The Redis of the counters: a value and when it expires, if it does. Every command of a call has
  its reply; a failing command throws.\<close>

type_synonym counters = "string \<Rightarrow> (int \<times> int option) option"

definition alive :: "counters \<Rightarrow> int \<Rightarrow> string \<Rightarrow> (int \<times> int option) option" where
  "alive rd now key = (case rd key of
       Some (v, Some x) \<Rightarrow> if now < x then Some (v, Some x) else None
     | y \<Rightarrow> y)"

definition redis_incr :: "counters \<Rightarrow> int \<Rightarrow> string \<Rightarrow> counters \<times> int" where
  "redis_incr rd now key = (case alive rd now key of
       None \<Rightarrow> (rd(key \<mapsto> (1, None)), 1)
     | Some (v, x) \<Rightarrow> (rd(key \<mapsto> (v + 1, x)), v + 1))"

definition redis_expire :: "counters \<Rightarrow> int \<Rightarrow> string \<Rightarrow> int \<Rightarrow> counters" where
  "redis_expire rd now key seconds = (case alive rd now key of
       None \<Rightarrow> rd
     | Some (v, _) \<Rightarrow> rd(key \<mapsto> (v, Some (now + seconds * 1000))))"

text \<open>A command that changes the counters: what is left, and whether it answered.\<close>

definition command :: "reply \<Rightarrow> 'c \<Rightarrow> 'c \<Rightarrow> 'c \<times> bool" where
  "command r old new = (case r of Answered \<Rightarrow> (new, True) | NotRun \<Rightarrow> (old, False) | AnswerLost \<Rightarrow> (new, False))"

text \<open>\<open>incr\<close> then \<open>expire\<close> on the first hit, the sequence every fixed window shares: the cnt, or
  \<open>None\<close> when one of the two commands fails.\<close>

definition incr_window :: "(nat \<Rightarrow> reply) \<Rightarrow> string \<Rightarrow> int \<Rightarrow> int \<Rightarrow> counters \<Rightarrow> counters \<times> int option" where
  "incr_window rep key seconds now rd =
     (let (new, cnt) = redis_incr rd now key;
          (rd1, ok1) = command (rep 0) rd new
      in if \<not> ok1 then (rd1, None)
         else if cnt = 1
         then (let (rd2, ok2) = command (rep 1) rd1 (redis_expire rd1 now key seconds)
               in (rd2, if ok2 then Some cnt else None))
         else (rd1, Some cnt))"

definition checkRateLimit :: "(nat \<Rightarrow> reply) \<Rightarrow> string \<Rightarrow> int \<Rightarrow> int \<Rightarrow> int \<Rightarrow> counters \<Rightarrow> counters \<times> bool" where
  "checkRateLimit rep key limit windowSeconds now rd =
     (case incr_window rep key windowSeconds now rd of
        (rd', Some cnt) \<Rightarrow> (rd', cnt \<le> limit)
      | (rd', None) \<Rightarrow> (rd', True))"

subsection \<open>Suppernote Connect\<close>

definition HOLD_DAILY_LIMIT :: int where "HOLD_DAILY_LIMIT = 20"
definition CONFIRM_HOURLY_LIMIT :: int where "CONFIRM_HOURLY_LIMIT = 5"
definition FAILED_CONFIRM_THRESHOLD :: int where "FAILED_CONFIRM_THRESHOLD = 3"
definition FALLBACK_HOLD_DAILY_LIMIT :: int where "FALLBACK_HOLD_DAILY_LIMIT = 5"
definition FALLBACK_CONFIRM_HOURLY_LIMIT :: int where "FALLBACK_CONFIRM_HOURLY_LIMIT = 2"
definition FALLBACK_FAILED_THRESHOLD :: int where "FALLBACK_FAILED_THRESHOLD = 2"
definition DAY_SECONDS :: int where "DAY_SECONDS = 86400"
definition HOUR_SECONDS :: int where "HOUR_SECONDS = 3600"

text \<open>The map of the process, used while Redis does not answer: counts and expiries.\<close>

type_synonym fallback = "string \<Rightarrow> (int \<times> int) option"

definition fallbackGet :: "string \<Rightarrow> int \<Rightarrow> fallback \<Rightarrow> fallback \<times> int" where
  "fallbackGet key now fb = (case fb key of
       None \<Rightarrow> (fb, 0)
     | Some (cnt, expiresAt) \<Rightarrow> if now > expiresAt then (fb(key := None), 0) else (fb, cnt))"

definition fallbackIncr :: "string \<Rightarrow> int \<Rightarrow> int \<Rightarrow> fallback \<Rightarrow> fallback \<times> int" where
  "fallbackIncr key ttlMs now fb = (case fb key of
       Some (cnt, expiresAt) \<Rightarrow>
         if now > expiresAt then (fb(key \<mapsto> (1, now + ttlMs)), 1) else (fb(key \<mapsto> (cnt + 1, expiresAt)), cnt + 1)
     | None \<Rightarrow> (fb(key \<mapsto> (1, now + ttlMs)), 1))"

definition fallbackSet :: "string \<Rightarrow> int \<Rightarrow> int \<Rightarrow> int \<Rightarrow> fallback \<Rightarrow> fallback" where
  "fallbackSet key v ttlMs now fb = fb(key \<mapsto> (v, now + ttlMs))"

definition holdKey :: "string \<Rightarrow> string" where "holdKey phoneHash = ''connect:rl:hold:'' @ phoneHash"
definition confirmKey :: "string \<Rightarrow> string" where "confirmKey phoneHash = ''connect:rl:confirm:'' @ phoneHash"
definition failedConfirmKey :: "string \<Rightarrow> string" where
  "failedConfirmKey phoneHash = ''connect:rl:failed:'' @ phoneHash"
definition blockedKey :: "string \<Rightarrow> string" where "blockedKey phoneHash = ''connect:rl:blocked:'' @ phoneHash"

type_synonym limits = "counters \<times> fallback"

definition canCreateHold :: "(nat \<Rightarrow> reply) \<Rightarrow> string \<Rightarrow> int \<Rightarrow> limits \<Rightarrow> limits \<times> bool" where
  "canCreateHold rep phoneHash now s =
     (case incr_window rep (holdKey phoneHash) DAY_SECONDS now (fst s) of
        (rd, Some cnt) \<Rightarrow> ((rd, snd s), cnt \<le> HOLD_DAILY_LIMIT)
      | (rd, None) \<Rightarrow>
          (let (fb, cnt) = fallbackIncr (holdKey phoneHash) (DAY_SECONDS * 1000) now (snd s)
           in ((rd, fb), cnt \<le> FALLBACK_HOLD_DAILY_LIMIT)))"

text \<open>The blocked key holds the string 1, here the number: only its presence is read. The reply of
  its \<open>get\<close> is the first argument, those of the window the second.\<close>

definition canConfirm :: "reply \<Rightarrow> (nat \<Rightarrow> reply) \<Rightarrow> string \<Rightarrow> int \<Rightarrow> limits \<Rightarrow> limits \<times> bool" where
  "canConfirm got rep phoneHash now s =
     (let inMemory = (\<lambda>rd.
            let (fb, blocked) = fallbackGet (blockedKey phoneHash) now (snd s) in
            if blocked > 0 then ((rd, fb), False)
            else let (fb', cnt) = fallbackIncr (confirmKey phoneHash) (HOUR_SECONDS * 1000) now fb
                 in ((rd, fb'), cnt \<le> FALLBACK_CONFIRM_HOURLY_LIMIT))
      in if got \<noteq> Answered then inMemory (fst s)
         else if alive (fst s) now (blockedKey phoneHash) \<noteq> None then (s, False)
         else case incr_window rep (confirmKey phoneHash) HOUR_SECONDS now (fst s) of
                (rd, Some cnt) \<Rightarrow> ((rd, snd s), cnt \<le> CONFIRM_HOURLY_LIMIT)
              | (rd, None) \<Rightarrow> inMemory rd)"

definition recordFailedConfirm :: "(nat \<Rightarrow> reply) \<Rightarrow> string \<Rightarrow> int \<Rightarrow> limits \<Rightarrow> limits" where
  "recordFailedConfirm rep phoneHash now s =
     (let inMemory = (\<lambda>rd.
            let (fb, cnt) = fallbackIncr (failedConfirmKey phoneHash) (HOUR_SECONDS * 1000) now (snd s) in
            (rd, if cnt \<ge> FALLBACK_FAILED_THRESHOLD
                 then fallbackSet (blockedKey phoneHash) 1 (DAY_SECONDS * 1000) now fb else fb))
      in case incr_window rep (failedConfirmKey phoneHash) HOUR_SECONDS now (fst s) of
           (rd, None) \<Rightarrow> inMemory rd
         | (rd, Some cnt) \<Rightarrow>
             if cnt \<ge> FAILED_CONFIRM_THRESHOLD
             then (let (rd', ok) = command (rep 2) rd (rd(blockedKey phoneHash \<mapsto> (1, Some (now + DAY_SECONDS * 1000))))
                   in if ok then (rd', snd s) else inMemory rd')
             else (rd, snd s))"

subsection \<open>How much a window lets through\<close>

fun window_run :: "string \<Rightarrow> int \<Rightarrow> int \<Rightarrow> counters \<Rightarrow> int list \<Rightarrow> bool list" where
  "window_run key limit seconds rd [] = []"
| "window_run key limit seconds rd (t # ts) =
     (let (rd', ok) = checkRateLimit (\<lambda>_. Answered) key limit seconds t rd
      in ok # window_run key limit seconds rd' ts)"

text \<open>What can still be let through until \<open>T\<close>: the rest of the window, and the windows that can start
  after it.\<close>

definition windows_left :: "int \<Rightarrow> int \<Rightarrow> int \<Rightarrow> int" where
  "windows_left w t T = (if T < t then 0 else (T - t) div w + 1)"

definition window_rest :: "int \<Rightarrow> int \<Rightarrow> (int \<times> int option) option \<Rightarrow> int \<Rightarrow> int \<Rightarrow> int" where
  "window_rest limit w x t T = (case x of
       None \<Rightarrow> limit * windows_left w t T
     | Some (v, e) \<Rightarrow> max 0 (limit - v) + (case e of None \<Rightarrow> 0 | Some e \<Rightarrow> limit * windows_left w e T))"

lemma windows_left_nonneg [simp]: "0 < w \<Longrightarrow> 0 \<le> windows_left w t T"
  by (simp add: windows_left_def pos_imp_zdiv_nonneg_iff)

lemma windows_left_step: "0 < w \<Longrightarrow> t \<le> T \<Longrightarrow> windows_left w t T = 1 + windows_left w (t + w) T"
proof -
  assume w: "0 < w" and t: "t \<le> T"
  have "(T - t) div w = (T - (t + w)) div w + 1"
    using w div_add_self2 [of w "T - (t + w)"] by (simp add: algebra_simps)
  moreover have "(T - t) div w = 0" if "T < t + w" using that w t by (simp add: div_pos_pos_trivial)
  ultimately show ?thesis using t by (auto simp: windows_left_def)
qed

lemma windows_left_mono: "0 < w \<Longrightarrow> t \<le> t' \<Longrightarrow> windows_left w t' T \<le> windows_left w t T"
  by (auto simp: windows_left_def pos_imp_zdiv_nonneg_iff intro: zdiv_mono1)

lemma checkRateLimit_up:
  assumes "\<forall>v e. rd key = Some (v, e) \<longrightarrow> 1 \<le> v"
  shows "checkRateLimit (\<lambda>_. Answered) key limit seconds now rd = (case alive rd now key of
     None \<Rightarrow> (rd(key \<mapsto> (1, Some (now + seconds * 1000))), 1 \<le> limit)
   | Some (v, e) \<Rightarrow> (rd(key \<mapsto> (v + 1, e)), v + 1 \<le> limit))"
proof -
  have "v \<noteq> 0" if "alive rd now key = Some (v, e)" for v e
    using that assms by (auto simp: alive_def split: option.splits if_splits)
  then show ?thesis
    by (auto simp: checkRateLimit_def incr_window_def redis_incr_def redis_expire_def command_def alive_def Let_def
        split: option.splits)
qed

lemma window_run_bound:
  assumes "sorted (t # ts)" "\<forall>x \<in> set ts. x \<le> T" "0 \<le> limit" "0 < seconds"
    and "\<forall>v e. rd key = Some (v, e) \<longrightarrow> 1 \<le> v"
  shows "int (length (filter (\<lambda>x. x) (window_run key limit seconds rd ts)))
    \<le> window_rest limit (seconds * 1000) (rd key) t T"
  using assms
proof (induction ts arbitrary: rd t)
  case Nil
  then show ?case by (auto simp: window_rest_def split: option.splits)
next
  case (Cons now ts)
  let ?w = "seconds * 1000"
  have now: "t \<le> now" "now \<le> T" and w: "0 < ?w" using Cons.prems by auto
  note up = checkRateLimit_up [where rd = rd and key = key, OF Cons.prems(5), of limit seconds now]
  have IH: "int (length (filter (\<lambda>x. x) (window_run key limit seconds rd' ts))) \<le> window_rest limit ?w (rd' key) now T"
    if "\<forall>v e. rd' key = Some (v, e) \<longrightarrow> 1 \<le> v" for rd'
    using Cons.IH [where rd = rd' and t = now, OF _ _ Cons.prems(3,4) that] Cons.prems(1,2) by simp
  show ?case
  proof (cases "alive rd now key")
    case None
    let ?r = "rd(key \<mapsto> (1, Some (now + ?w)))"
    have "limit * windows_left ?w now T \<le> window_rest limit ?w (rd key) t T"
    proof (cases "rd key")
      case None
      then show ?thesis using windows_left_mono [OF w now(1)] Cons.prems(3)
        by (simp add: window_rest_def mult_left_mono)
    next
      case (Some p)
      with \<open>alive rd now key = None\<close> obtain v e where "rd key = Some (v, Some e)" "e \<le> now"
        by (cases p) (auto simp: alive_def split: option.splits if_splits)
      then show ?thesis using mult_left_mono [OF windows_left_mono [OF w, of e now T] Cons.prems(3)]
        by (simp add: window_rest_def)
    qed
    moreover have "limit * windows_left ?w now T = limit + limit * windows_left ?w (now + ?w) T"
      using windows_left_step [OF w now(2)] by (simp add: algebra_simps)
    ultimately show ?thesis
      using IH [of ?r] None up Cons.prems(3) by (auto simp: window_rest_def split: if_splits)
  next
    case (Some p)
    obtain v e where p: "p = (v, e)" by fastforce
    have rk: "rd key = Some (v, e)" using Some p by (auto simp: alive_def split: option.splits if_splits)
    then show ?thesis
      using IH [of "rd(key \<mapsto> (v + 1, e))"] Some p up Cons.prems(5) by (auto simp: window_rest_def)
  qed
qed

text \<open>
  A fixed window lets through at most its limit per window: while Redis answers, whatever calls are made
  on a key over a period \<open>t .. T\<close>, at most \<open>limit\<close> are allowed for each window length begun in it.
\<close>

lemma fixed_window_bound:
  assumes "sorted (t # ts)" "\<forall>x \<in> set ts. x \<le> T" "t \<le> T" "0 \<le> limit" "0 < seconds"
  shows "int (length (filter (\<lambda>x. x) (window_run key limit seconds (\<lambda>_. None) ts)))
    \<le> limit * ((T - t) div (seconds * 1000) + 1)"
  using window_run_bound [OF assms(1,2,4,5), of "\<lambda>_. None" key] assms(3)
  by (simp add: window_rest_def windows_left_def)

lemma fixed_window_bound_witness:
  "window_run ''k'' 2 60 (\<lambda>_. None) [0, 59000, 59500, 60000, 60500, 61000] = [True, True, False, True, True, False] \<and>
   int (length (filter (\<lambda>x. x) (window_run ''k'' 2 60 (\<lambda>_. None) [0, 59000, 59500, 60000, 60500, 61000])))
     \<le> 2 * ((61000 - 0) div (60 * 1000) + 1)"
proof
  show "window_run ''k'' 2 60 (\<lambda>_. None) [0, 59000, 59500, 60000, 60500, 61000] = [True, True, False, True, True, False]"
    by code_simp
qed (rule fixed_window_bound; simp)

subsection \<open>Blocked phones\<close>

text \<open>A run of Connect's limits: any of the three functions for any phone, whatever Redis replies, at
  times that do not go back.\<close>

inductive limit_step :: "int \<times> limits \<Rightarrow> int \<times> limits \<Rightarrow> bool" where
  ls_hold: "canCreateHold rep ph now s = (s', ok) \<Longrightarrow> t \<le> now \<Longrightarrow> limit_step (t, s) (now, s')"
| ls_confirm: "canConfirm got rep ph now s = (s', ok) \<Longrightarrow> t \<le> now \<Longrightarrow> limit_step (t, s) (now, s')"
| ls_failed: "recordFailedConfirm rep ph now s = s' \<Longrightarrow> t \<le> now \<Longrightarrow> limit_step (t, s) (now, s')"

definition blocked_until :: "string \<Rightarrow> int \<Rightarrow> limits \<Rightarrow> bool" where
  "blocked_until ph T s \<longleftrightarrow> (\<exists>v e. fst s (blockedKey ph) = Some (v, Some e) \<and> T \<le> e)"

lemma key_kinds [simp]:
  "holdKey a \<noteq> blockedKey b" "confirmKey a \<noteq> blockedKey b" "failedConfirmKey a \<noteq> blockedKey b"
  "blockedKey b \<noteq> holdKey a" "blockedKey b \<noteq> confirmKey a" "blockedKey b \<noteq> failedConfirmKey a"
  "blockedKey a = blockedKey b \<longleftrightarrow> a = b"
  by (auto simp: holdKey_def confirmKey_def failedConfirmKey_def blockedKey_def)

lemma incr_window_frame: "incr_window rep key w now rd = (rd', x) \<Longrightarrow> k \<noteq> key \<Longrightarrow> rd' k = rd k"
  by (auto simp: incr_window_def redis_incr_def redis_expire_def command_def Let_def
      split: option.splits reply.splits if_splits prod.splits)

lemma blocked_step:
  assumes "limit_step x y" "blocked_until ph T (snd x)" "T \<le> fst x + DAY_SECONDS * 1000"
  shows "blocked_until ph T (snd y) \<and> fst x \<le> fst y"
  using assms
proof (induction rule: limit_step.induct)
  case (ls_hold rep ph' now s s' ok t)
  then have "fst s' (blockedKey ph) = fst s (blockedKey ph)"
    by (auto simp: canCreateHold_def Let_def incr_window_frame split: prod.splits option.splits)
  with ls_hold show ?case by (simp add: blocked_until_def)
next
  case (ls_confirm got rep ph' now s s' ok t)
  then have "fst s' (blockedKey ph) = fst s (blockedKey ph)"
    by (auto simp: canConfirm_def Let_def incr_window_frame split: prod.splits option.splits if_splits)
  with ls_confirm show ?case by (simp add: blocked_until_def)
next
  case (ls_failed rep ph' now s s' t)
  have "fst s' (blockedKey ph) = fst s (blockedKey ph) \<or>
      fst s' (blockedKey ph) = Some (1, Some (now + DAY_SECONDS * 1000))"
    using ls_failed(1) by (auto simp: recordFailedConfirm_def Let_def command_def incr_window_frame
        split: prod.splits option.splits if_splits reply.splits)
  with ls_failed show ?case by (auto simp: blocked_until_def)
qed

lemma blocked_run:
  "limit_step\<^sup>*\<^sup>* x y \<Longrightarrow> blocked_until ph T (snd x) \<Longrightarrow> T \<le> fst x + DAY_SECONDS * 1000 \<Longrightarrow>
   blocked_until ph T (snd y) \<and> fst x \<le> fst y"
proof (induction rule: rtranclp_induct)
  case (step y z)
  then show ?case using blocked_step [OF step(2), of ph T] by force
qed simp

lemma third_failure_sets_block:
  assumes "recordFailedConfirm (\<lambda>_. Answered) ph now s = s'"
    and "alive (fst s) now (failedConfirmKey ph) = Some (v, e)" "2 \<le> v"
  shows "blocked_until ph (now + DAY_SECONDS * 1000) s'"
  using assms by (auto simp: recordFailedConfirm_def incr_window_def redis_incr_def command_def Let_def
      FAILED_CONFIRM_THRESHOLD_def blocked_until_def)

text \<open>
  The third failed confirmation of a window blocks the phone for a day: whatever the limiter is asked
  meanwhile, for this phone or another and whatever Redis replies, no confirmation of that phone is let
  through before the day is over, as long as Redis answers whether it is blocked; and being refused
  changes nothing.
\<close>

lemma third_failure_blocks_for_a_day:
  assumes "recordFailedConfirm (\<lambda>_. Answered) ph now s = s1"
    and "alive (fst s) now (failedConfirmKey ph) = Some (v, e)" "2 \<le> v"
    and "limit_step\<^sup>*\<^sup>* (now, s1) (t, s2)" "t \<le> later" "later < now + DAY_SECONDS * 1000"
  shows "canConfirm Answered rep ph later s2 = (s2, False)"
proof -
  have "blocked_until ph (now + DAY_SECONDS * 1000) s2"
    using blocked_run [OF assms(4)] third_failure_sets_block [OF assms(1-3)] by simp
  then have "alive (fst s2) later (blockedKey ph) \<noteq> None"
    using assms(6) by (auto simp: blocked_until_def alive_def)
  then show ?thesis by (simp add: canConfirm_def Let_def)
qed

definition no_limits :: limits where
  "no_limits = (\<lambda>_. None, \<lambda>_. None)"

lemma third_failure_blocks_for_a_day_witness:
  "canConfirm Answered (\<lambda>_. Answered) ''p'' 86400000
     (recordFailedConfirm (\<lambda>_. Answered) ''p'' 3
       (recordFailedConfirm (\<lambda>_. Answered) ''p'' 2 (recordFailedConfirm (\<lambda>_. Answered) ''p'' 1 no_limits)))
   = (recordFailedConfirm (\<lambda>_. Answered) ''p'' 3
       (recordFailedConfirm (\<lambda>_. Answered) ''p'' 2 (recordFailedConfirm (\<lambda>_. Answered) ''p'' 1 no_limits)), False)"
proof -
  have "alive (fst (recordFailedConfirm (\<lambda>_. Answered) ''p'' 2 (recordFailedConfirm (\<lambda>_. Answered) ''p'' 1 no_limits)))
      3 (failedConfirmKey ''p'') = Some (2, Some 3600001)"
    by code_simp
  then show ?thesis
    by (rule third_failure_blocks_for_a_day [OF refl _ _ rtranclp.rtrancl_refl]) (simp_all add: DAY_SECONDS_def)
qed

text \<open>Three failures within an hour do not always block: the windows are fixed, and one that started
  earlier ends between them.\<close>

lemma three_failures_in_an_hour_may_not_block:
  "let up = (\<lambda>_ :: nat. Answered);
       s = fold (\<lambda>t. recordFailedConfirm up ''p'' t) [0, 3500000, 3600000, 7000000] no_limits
   in snd (canConfirm Answered up ''p'' 7000001 s)"
  by code_simp

text \<open>A counter whose \<open>EXPIRE\<close> failed never expires: once it has passed its limit the phone is refused for
  ever, at any later time.\<close>

lemma lost_expire_refuses_for_ever:
  assumes "fst s (holdKey ph) = Some (v, None)" "HOLD_DAILY_LIMIT \<le> v"
  shows "\<exists>s'. canCreateHold (\<lambda>_. Answered) ph now s = (s', False) \<and> fst s' (holdKey ph) = Some (v + 1, None)"
  using assms by (auto simp: canCreateHold_def incr_window_def redis_incr_def alive_def command_def Let_def
      HOLD_DAILY_LIMIT_def)

lemma lost_expire_is_reachable:
  "fst (fst (canCreateHold (\<lambda>n. if n = 1 then NotRun else Answered) ''p'' 0 no_limits)) (holdKey ''p'') = Some (1, None)"
  by code_simp

section \<open>Spacing the calls to Resend\<close>

definition SPACING_MS :: int where "SPACING_MS = 150"
definition MAX_WAIT_MS :: int where "MAX_WAIT_MS = 5000"

text \<open>The script, on the clock of Redis: the last grant and when its key expires.\<close>

definition resend_slot :: "int \<Rightarrow> (int \<times> int) option \<Rightarrow> (int \<times> int) option \<times> int" where
  "resend_slot now key =
     (let previous = (case key of Some (v, expiresAt) \<Rightarrow> if now < expiresAt then v else 0 | None \<Rightarrow> 0);
          delay = previous + SPACING_MS - now
      in if delay > 0 then (key, delay) else (Some (now, now + SPACING_MS), 0))"

text \<open>The loop of \<open>waitForResendSlot\<close>: the \<open>k\<close>-th grant takes \<open>fst (grant k)\<close> ms and answers a number of ms,
  or something else (\<open>None\<close>: an error, a value that is not a finite number). \<open>Inr t\<close> is the return at \<open>t\<close>,
  \<open>Inl ()\<close> the \<open>NotificationProviderRefusedError\<close>. The clock can be read twice in a row: it only moves
  while something is awaited.\<close>

function wait_slot :: "(nat \<Rightarrow> nat \<times> int option) \<Rightarrow> nat \<Rightarrow> int \<Rightarrow> int \<Rightarrow> unit + int" where
  "wait_slot grant k now deadline =
     (if now < deadline then
        (let now1 = now + int (fst (grant k)) in
         case snd (grant k) of
           None \<Rightarrow> Inl ()
         | Some delay \<Rightarrow>
             if delay < 0 then Inl ()
             else if now1 \<ge> deadline then Inl ()
             else if delay = 0 then Inr now1
             else if now1 + delay \<ge> deadline then Inl ()
             else wait_slot grant (k + 1) (now1 + delay) deadline)
      else Inl ())"
  by pat_completeness auto
termination by (relation "measure (\<lambda>(_, _, now, deadline). nat (deadline - now))") auto

declare wait_slot.simps [simp del]

definition waitForResendSlot :: "(nat \<Rightarrow> nat \<times> int option) \<Rightarrow> int \<Rightarrow> unit + int" where
  "waitForResendSlot grant now = wait_slot grant 0 now (now + MAX_WAIT_MS)"

fun slot_grants :: "(int \<times> int) option \<Rightarrow> int list \<Rightarrow> int list" where
  "slot_grants key [] = []"
| "slot_grants key (t # ts) = (let (key', delay) = resend_slot t key in
     (if delay = 0 then [t] else []) @ slot_grants key' ts)"

definition spaced :: "int list \<Rightarrow> bool" where
  "spaced ts \<longleftrightarrow> sorted_wrt (\<lambda>a b. a + SPACING_MS \<le> b) ts"

lemma slot_grants_spaced:
  assumes "sorted ts" "\<forall>t \<in> set ts. lo \<le> t" "\<forall>v e. key = Some (v, e) \<longrightarrow> e = v + SPACING_MS \<and> v \<le> lo"
  shows "spaced (slot_grants key ts) \<and> (\<forall>g \<in> set (slot_grants key ts). lo \<le> g \<and> (\<forall>v e. key = Some (v, e) \<longrightarrow> v + SPACING_MS \<le> g))"
  using assms
proof (induction ts arbitrary: key lo)
  case (Cons t ts)
  obtain key' delay where sl: "resend_slot t key = (key', delay)" by fastforce
  show ?case
  proof (cases "delay = 0")
    case True
    have k: "key' = Some (t, t + SPACING_MS)" "\<forall>v e. key = Some (v, e) \<longrightarrow> v + SPACING_MS \<le> t"
      using sl True Cons.prems(3) by (auto simp: resend_slot_def Let_def split: if_splits option.splits)
    have "spaced (slot_grants key' ts) \<and> (\<forall>g \<in> set (slot_grants key' ts). t \<le> g \<and> (\<forall>v e. key' = Some (v, e) \<longrightarrow> v + SPACING_MS \<le> g))"
      using Cons.prems by (intro Cons.IH) (auto simp: k)
    with sl True k Cons.prems show ?thesis by (force simp: spaced_def)
  next
    case False
    have k: "key' = key" using sl False by (auto simp: resend_slot_def Let_def split: if_splits)
    have "spaced (slot_grants key ts) \<and> (\<forall>g \<in> set (slot_grants key ts). lo \<le> g \<and> (\<forall>v e. key = Some (v, e) \<longrightarrow> v + SPACING_MS \<le> g))"
      using Cons.prems by (intro Cons.IH) auto
    with sl False k show ?thesis by simp
  qed
qed (simp add: spaced_def)

lemma wait_slot_returns:
  "wait_slot grant k now deadline = Inr t \<Longrightarrow>
   now \<le> t \<and> t < deadline \<and> (\<exists>j \<ge> k. snd (grant j) = Some 0)"
proof (induction grant k now deadline rule: wait_slot.induct)
  case (1 grant k now deadline)
  then show ?case
    by (auto simp: wait_slot.simps [of grant k now deadline] Let_def split: if_splits option.splits)
      (force | metis Suc_leD le_refl)+
qed

text \<open>
  Emails are spaced and nobody waits for ever: the grants of the script are at least 150 ms apart,
  whoever asks and however often; and a wait always ends, within its five seconds when it returns, and
  only after a grant.
\<close>

lemma resend_slots_are_spaced:
  assumes "sorted ts"
  shows "spaced (slot_grants None ts) \<and>
    (waitForResendSlot grant now = Inr t \<longrightarrow>
       now \<le> t \<and> t < now + MAX_WAIT_MS \<and> (\<exists>j. snd (grant j) = Some 0))"
proof -
  have "spaced (slot_grants None ts)"
    using slot_grants_spaced [OF assms, of "hd ts" None] assms by (cases ts) (auto simp: spaced_def)
  then show ?thesis using wait_slot_returns unfolding waitForResendSlot_def by blast
qed

lemma resend_slots_are_spaced_witness:
  "let ts = [1000, 1000, 1149, 1150, 1200, 1300]; grant = (\<lambda>k. (10, Some (if k = 0 then 100 else 0))) in
   slot_grants None ts = [1000, 1150, 1300] \<and> spaced (slot_grants None ts) \<and>
   waitForResendSlot grant 0 = Inr 120 \<and> (120 :: int) < 0 + MAX_WAIT_MS \<and> (\<exists>j. snd (grant j) = Some 0)"
proof -
  define ts :: "int list" where "ts = [1000, 1000, 1149, 1150, 1200, 1300]"
  define grant :: "nat \<Rightarrow> nat \<times> int option" where "grant = (\<lambda>k. (10, Some (if k = 0 then 100 else 0)))"
  have w: "slot_grants None ts = [1000, 1150, 1300]" "waitForResendSlot grant 0 = Inr 120" "sorted ts"
    unfolding ts_def grant_def by (code_simp, code_simp, simp)
  from resend_slots_are_spaced [OF w(3), of grant 0 120] w show ?thesis
    unfolding Let_def ts_def [symmetric] grant_def [symmetric] by simp
qed

end
