(* ===== verification/Gift_Cards.thy ===== *)
theory Gift_Cards
  imports Db
begin

text \<open>
  Gift cards (\<open>modules/gift-cards\<close>): issue, validation, association to a reservation, debit by a
  reservation (\<open>gift-card.service.ts\<close>) or by a ticket (\<open>gift-card-operations.service.ts\<close>). Amounts are
  exact decimals, here rationals of euros. The contact, message and template columns of a card, the
  timelines written after the commit and the metadata of audit rows are not modelled; payments,
  refunds and crowdfunding belong to other services. Row and advisory locks make a transaction one
  step; \<open>race\<close> is what others commit between the reads of a call and its transaction.
\<close>

section \<open>Rows\<close>

datatype card_status = G_ACTIVE | G_REDEEMED | G_EXPIRED | G_CANCELLED | G_CLOSED | G_REFUND_PENDING
  | G_REFUND_FAILED | G_REFUND_REVIEW | G_PAYMENT_REVIEW

datatype card_type = SINGLE | CROWDFUNDED

record card_row =
  gc_id :: id
  gc_restaurantId :: id
  gc_code :: string
  gc_shortCode :: "string option"
  gc_amount :: rat
  gc_remainingAmount :: rat
  gc_currency :: string
  gc_status :: card_status
  gc_expiresAt :: "instant option"
  gc_validityMonths :: int
  gc_packId :: "id option"
  gc_type :: card_type
  gc_closedAt :: "instant option"
  gc_stripePaymentIntentId :: "string option"
  gc_stripePaymentStatus :: "string option"

record pack_row =
  pk_id :: id
  pk_restaurantId :: id
  pk_amount :: rat

record redemption_row =
  rd_id :: id
  rd_giftCardId :: id
  rd_reservationId :: "id option"
  rd_amount :: rat
  rd_redeemedAt :: instant
  rd_operationKey :: "string option"
  rd_restaurantId :: "id option"
  rd_ticketReference :: "string option"
  rd_billAmount :: "rat option"
  rd_balanceAfter :: "rat option"
  rd_complementAmount :: "rat option"
  rd_actor :: "string option"

record gift_db =
  g_db :: db
  g_cards :: "card_row list"
  g_packs :: "pack_row list"
  g_redemptions :: "redemption_row list"

datatype validation_error = NOT_FOUND | EXPIRED | V_CANCELLED | FULLY_REDEEMED | WRONG_RESTAURANT

datatype gift_error =
  InvalidAmount
| PackNotFound | PackAmountMismatch | AmountRequired | AmountNotPositive
| NoShortCode | NoUniqueShortCode
| InvalidCard validation_error
| CannotBeAssociated | ReservationNotFound | OtherCardAssociated | ReservationAlreadyDebited
| CardNotFound | DebitRecordedDifferently
| InvalidTicketReference | OperationRecordedDifferently | CardNotDebitable | ReservationClosed
| GiftDbError err | TypeError

section \<open>Amounts and short codes\<close>

definition giftCardAmountCents :: "rat \<Rightarrow> gift_error + int" where
  "giftCardAmountCents amount =
     (let cents = amount * 100 in
      if of_int \<lfloor>cents\<rfloor> \<noteq> cents \<or> cents \<le> 0 \<or> cents > 99999999 then Inl InvalidAmount
      else Inr \<lfloor>cents\<rfloor>)"

text \<open>A column \<open>Decimal(10, 2)\<close> rounds halves away from zero and refuses ten digits and more.\<close>

definition decimal_10_2 :: "rat \<Rightarrow> rat option" where
  "decimal_10_2 x =
     (let c = (if x \<ge> 0 then \<lfloor>x * 100 + 1 / 2\<rfloor> else - \<lfloor>- x * 100 + 1 / 2\<rfloor>) in
      if \<bar>c\<bar> \<ge> 10 ^ 10 then None else Some (of_int c / 100))"

definition ALPHABET :: string where
  "ALPHABET = ''ABCDEFGHJKMNPQRSTUVWXYZ23456789''"

text \<open>\<open>rnd i\<close> is the \<open>i\<close>-th \<open>randomInt\<close> of the call.\<close>

definition generateShortCode :: "(nat \<Rightarrow> nat) \<Rightarrow> string" where
  "generateShortCode rnd =
     (let part = (\<lambda>from len. map (\<lambda>i. ALPHABET ! (rnd i mod length ALPHABET)) [from ..< from + len])
      in ''SKR-'' @ part 0 4 @ ''-'' @ part 4 2)"

definition findByShortCode :: "gift_db \<Rightarrow> string \<Rightarrow> card_row option" where
  "findByShortCode g c = find (\<lambda>x. gc_shortCode x = Some c) (g_cards g)"

text \<open>At most ten draws, \<open>n\<close> left; \<open>rnd k\<close> gives the randomness of draw \<open>k\<close>.\<close>

fun unique_code_loop :: "(nat \<Rightarrow> nat \<Rightarrow> nat) \<Rightarrow> gift_db \<Rightarrow> nat \<Rightarrow> nat \<Rightarrow> gift_error + string" where
  "unique_code_loop rnd g k 0 = Inl NoUniqueShortCode"
| "unique_code_loop rnd g k (Suc n) =
     (let code = generateShortCode (rnd k) in
      if findByShortCode g code = None then Inr code else unique_code_loop rnd g (k + 1) n)"

definition generateUniqueShortCode :: "(nat \<Rightarrow> nat \<Rightarrow> nat) \<Rightarrow> gift_db \<Rightarrow> gift_error + string" where
  "generateUniqueShortCode rnd g = unique_code_loop rnd g 0 10"

section \<open>Issue\<close>

record create_card =
  cc_restaurantId :: id
  cc_amount :: "rat option"
  cc_currency :: "string option"
  cc_expiresAt :: "instant option"
  cc_validityMonths :: "int option"
  cc_packId :: "id option"
  cc_verifiedAmount :: "rat option"
  cc_type :: "card_type option"
  cc_stripePaymentIntentId :: "string option"
  cc_stripePaymentStatus :: "string option"

definition card_amount :: "gift_db \<Rightarrow> create_card \<Rightarrow> gift_error + rat" where
  "card_amount g i =
     (if cc_type i = Some CROWDFUNDED then Inr (orElse (cc_amount i) 0)
      else case cc_verifiedAmount i of Some v \<Rightarrow> Inr v
      | None \<Rightarrow>
        if truthy (cc_packId i) then
          (case find (\<lambda>p. Some (pk_id p) = cc_packId i \<and> pk_restaurantId p = cc_restaurantId i) (g_packs g) of
             None \<Rightarrow> Inl PackNotFound
           | Some p \<Rightarrow> if cc_amount i \<notin> {None, Some 0, Some (pk_amount p)} then Inl PackAmountMismatch
                       else Inr (pk_amount p))
        else case cc_amount i of
               None \<Rightarrow> Inl AmountRequired
             | Some a \<Rightarrow> if a \<le> 0 then Inl AmountNotPositive else Inr a)"

text \<open>What a call draws: the clock, the calendar of the server (\<open>Date.setMonth\<close> works in its time zone),
  and for each of the three attempts the ids, the randomness and what others commit between the look-up
  of the code and the insertion.\<close>

record issue_env =
  ie_now :: instant
  ie_addMonths :: "instant \<Rightarrow> int \<Rightarrow> instant"
  ie_id :: "nat \<Rightarrow> id"
  ie_code :: "nat \<Rightarrow> string"
  ie_rnd :: "nat \<Rightarrow> nat \<Rightarrow> nat \<Rightarrow> nat"
  ie_race :: "nat \<Rightarrow> gift_db \<Rightarrow> gift_db"

definition new_card :: "issue_env \<Rightarrow> create_card \<Rightarrow> rat \<Rightarrow> string \<Rightarrow> nat \<Rightarrow> card_row" where
  "new_card e i amount shortCode k =
     \<lparr>gc_id = ie_id e k, gc_restaurantId = cc_restaurantId i, gc_code = ie_code e k,
      gc_shortCode = Some shortCode, gc_amount = amount, gc_remainingAmount = amount,
      gc_currency = orElse (cc_currency i) ''EUR'', gc_status = G_ACTIVE,
      gc_expiresAt = Some (orElse (cc_expiresAt i) (ie_addMonths e (ie_now e) (orElse (cc_validityMonths i) 12))),
      gc_validityMonths = orElse (cc_validityMonths i) 12, gc_packId = cc_packId i,
      gc_type = orElse (cc_type i) SINGLE, gc_closedAt = None,
      gc_stripePaymentIntentId = cc_stripePaymentIntentId i,
      gc_stripePaymentStatus = Some (orElse (cc_stripePaymentStatus i) ''pending'')\<rparr>"

definition card_conflict :: "card_row \<Rightarrow> card_row \<Rightarrow> bool" where
  "card_conflict c c' \<longleftrightarrow> gc_id c = gc_id c' \<or> gc_code c = gc_code c' \<or>
     same_some (gc_shortCode c) (gc_shortCode c')"

definition insertCard :: "card_row \<Rightarrow> gift_db \<Rightarrow> db_error + gift_db" where
  "insertCard c g =
     (case (decimal_10_2 (gc_amount c), decimal_10_2 (gc_remainingAmount c)) of
        (Some a, Some r) \<Rightarrow>
          if \<exists>c' \<in> set (g_cards g). card_conflict c c' then Inl P2002
          else Inr (g\<lparr>g_cards := g_cards g @ [c\<lparr>gc_amount := a, gc_remainingAmount := r\<rparr>]\<rparr>)
      | _ \<Rightarrow> Inl OTHER_DB_ERROR)"

fun create_loop :: "issue_env \<Rightarrow> create_card \<Rightarrow> rat \<Rightarrow> nat \<Rightarrow> nat \<Rightarrow> gift_db \<Rightarrow>
    gift_db \<times> (gift_error + card_row)" where
  "create_loop e i amount k 0 g = (g, Inl NoShortCode)"
| "create_loop e i amount k (Suc n) g =
     (case generateUniqueShortCode (ie_rnd e k) g of
        Inl err \<Rightarrow> (g, Inl err)
      | Inr shortCode \<Rightarrow>
          (let g1 = ie_race e k g in
           case insertCard (new_card e i amount shortCode k) g1 of
             Inr g2 \<Rightarrow> (g2, Inr (last (g_cards g2)))
           | Inl P2002 \<Rightarrow> create_loop e i amount (k + 1) n g1
           | Inl x \<Rightarrow> (g1, Inl (GiftDbError (DbError x)))))"

definition createCard :: "issue_env \<Rightarrow> create_card \<Rightarrow> gift_db \<Rightarrow> gift_db \<times> (gift_error + card_row)" where
  "createCard e i g = (case card_amount g i of
       Inl err \<Rightarrow> (g, Inl err)
     | Inr amount \<Rightarrow> create_loop e i amount 0 3 g)"

section \<open>Validation\<close>

definition findByCodeOrShortCode :: "gift_db \<Rightarrow> string \<Rightarrow> card_row option" where
  "findByCodeOrShortCode g c =
     (let short = (if take 4 c = ''SKR-'' then findByShortCode g c else None)
      in orElse_opt short (find (\<lambda>x. gc_code x = c) (g_cards g)))"

definition paid_for :: "card_row \<Rightarrow> bool" where
  "paid_for c \<longleftrightarrow> truthy (gc_stripePaymentIntentId c) \<longrightarrow>
     orElse (gc_stripePaymentStatus c) '''' \<in> {''succeeded'', ''partially_refunded''}"

definition validateCode :: "gift_db \<Rightarrow> string \<Rightarrow> id option \<Rightarrow> instant \<Rightarrow> validation_error + card_row" where
  "validateCode g c restaurantId now =
     (case findByCodeOrShortCode g c of
        None \<Rightarrow> Inl NOT_FOUND
      | Some crd \<Rightarrow>
          if truthy restaurantId \<and> restaurantId \<noteq> Some (gc_restaurantId crd) then Inl WRONG_RESTAURANT
          else if gc_status crd \<noteq> G_ACTIVE \<or> \<not> paid_for crd then
            Inl (case gc_status crd of G_EXPIRED \<Rightarrow> EXPIRED | G_REDEEMED \<Rightarrow> FULLY_REDEEMED | _ \<Rightarrow> V_CANCELLED)
          else if gc_remainingAmount crd \<le> 0 then Inl FULLY_REDEEMED
          else if (case gc_expiresAt crd of None \<Rightarrow> False | Some x \<Rightarrow> x < now) then Inl EXPIRED
          else Inr crd)"

section \<open>Reservations and cards\<close>

definition findBooking :: "gift_db \<Rightarrow> id \<Rightarrow> id \<Rightarrow> reservation_row option" where
  "findBooking g i restaurantId =
     find (\<lambda>r. r_id r = i \<and> r_restaurantId r = restaurantId) (reservations (g_db g))"

definition findCard :: "gift_db \<Rightarrow> id \<Rightarrow> card_row option" where
  "findCard g i = find (\<lambda>c. gc_id c = i) (g_cards g)"

definition writeBooking :: "id \<Rightarrow> id \<Rightarrow> (reservation_row \<Rightarrow> reservation_row) \<Rightarrow> gift_db \<Rightarrow> gift_error + gift_db" where
  "writeBooking i restaurantId f g = (case updateReservation i restaurantId f (g_db g) of
       Inl e \<Rightarrow> Inl (GiftDbError e) | Inr (d, _) \<Rightarrow> Inr (g\<lparr>g_db := d\<rparr>))"

definition writeCard :: "id \<Rightarrow> id \<Rightarrow> rat \<Rightarrow> card_status \<Rightarrow> gift_db \<Rightarrow> gift_error + gift_db" where
  "writeCard i restaurantId rest st g =
     (if \<exists>c \<in> set (g_cards g). gc_id c = i \<and> gc_restaurantId c = restaurantId
      then Inr (g\<lparr>g_cards := upd_where (\<lambda>c. gc_id c = i \<and> gc_restaurantId c = restaurantId)
                  (\<lambda>c. c\<lparr>gc_remainingAmount := rest, gc_status := st\<rparr>) (g_cards g)\<rparr>)
      else Inl (GiftDbError (DbError P2025)))"

definition redemption_conflict :: "redemption_row \<Rightarrow> redemption_row \<Rightarrow> bool" where
  "redemption_conflict x y \<longleftrightarrow> rd_id x = rd_id y \<or> same_some (rd_operationKey x) (rd_operationKey y) \<or>
     same_some (rd_restaurantId x) (rd_restaurantId y) \<and> same_some (rd_ticketReference x) (rd_ticketReference y)"

definition insertRedemption :: "redemption_row \<Rightarrow> gift_db \<Rightarrow> gift_error + gift_db" where
  "insertRedemption x g =
     (if \<exists>y \<in> set (g_redemptions g). redemption_conflict x y then Inl (GiftDbError (DbError P2002))
      else Inr (g\<lparr>g_redemptions := g_redemptions g @ [x]\<rparr>))"

definition payment_status_of :: "rat \<Rightarrow> rat \<Rightarrow> payment_status" where
  "payment_status_of complementAmount rest =
     (if complementAmount > 0 then COMPLEMENT_REQUIRED else if rest > 0 then PARTIAL else FULLY_COVERED)"

definition status_of_balance :: "rat \<Rightarrow> card_status" where
  "status_of_balance rest = (if rest > 0 then G_ACTIVE else G_REDEEMED)"

record apply_card =
  ap_code :: string
  ap_restaurantId :: id
  ap_reservationId :: id
  ap_reservationAmount :: rat
  ap_actor :: "string option"

definition associate_tx :: "apply_card \<Rightarrow> id \<Rightarrow> instant \<Rightarrow> gift_db \<Rightarrow> gift_error + gift_db \<times> gift_snap" where
  "associate_tx i cardId now g =
     (case find (\<lambda>c. gc_id c = cardId \<and> gc_restaurantId c = ap_restaurantId i) (g_cards g) of
        None \<Rightarrow> Inl (GiftDbError (DbError P2025))
      | Some crd \<Rightarrow>
          if gc_status crd \<noteq> G_ACTIVE \<or> gc_remainingAmount crd \<le> 0 \<or> (case gc_expiresAt crd of None \<Rightarrow> False | Some x \<Rightarrow> x < now)
          then Inl CannotBeAssociated
          else case findBooking g (ap_reservationId i) (ap_restaurantId i) of
            None \<Rightarrow> Inl ReservationNotFound
          | Some r \<Rightarrow>
              ebind (case r_giftCardSnap r of
                 Some s \<Rightarrow> if gs_giftCardId s \<noteq> [] \<and> gs_giftCardId s \<noteq> gc_id crd then Inl OtherCardAssociated
                            else if gs_appliedAmount s > 0 then Inl ReservationAlreadyDebited else Inr ()
               | None \<Rightarrow> Inr ())
              (\<lambda>_. let result = \<lparr>gs_giftCardId = gc_id crd, gs_reservationId = ap_reservationId i,
                       gs_appliedAmount = 0, gs_remainingAmount = gc_remainingAmount crd,
                       gs_paymentStatus = ASSOCIATED, gs_complementAmount = 0, gs_requestedAmount = None\<rparr>
                 in ebind (writeBooking (r_id r) (ap_restaurantId i) (\<lambda>r. r\<lparr>r_giftCardSnap := Some result\<rparr>) g)
                    (\<lambda>g'. Inr (g', result))))"

definition associateToReservation :: "apply_card \<Rightarrow> instant \<Rightarrow> (gift_db \<Rightarrow> gift_db) \<Rightarrow> gift_db \<Rightarrow>
    gift_db \<times> (gift_error + gift_snap)" where
  "associateToReservation i now race g =
     (case validateCode g (ap_code i) (Some (ap_restaurantId i)) now of
        Inl reason \<Rightarrow> (g, Inl (InvalidCard reason))
      | Inr crd \<Rightarrow> in_tx (associate_tx i (gc_id crd) now) (race g))"

text \<open>The writes of a debit: the redemption, the balance, the reservation, the audit row.\<close>

definition apply_write :: "apply_card \<Rightarrow> id \<Rightarrow> rat \<Rightarrow> id \<Rightarrow> instant \<Rightarrow> gift_db \<Rightarrow> gift_error + gift_db \<times> gift_snap" where
  "apply_write i cardId lockedRemaining newId now g =
     (let applied = min lockedRemaining (ap_reservationAmount i);
          rest = lockedRemaining - applied;
          complement = ap_reservationAmount i - applied;
          st = payment_status_of complement rest;
          snap = \<lparr>gs_giftCardId = cardId, gs_reservationId = ap_reservationId i, gs_appliedAmount = applied,
            gs_remainingAmount = rest, gs_paymentStatus = st, gs_complementAmount = complement,
            gs_requestedAmount = Some (ap_reservationAmount i)\<rparr>
      in ebind (insertRedemption \<lparr>rd_id = newId, rd_giftCardId = cardId, rd_reservationId = Some (ap_reservationId i),
           rd_amount = applied, rd_redeemedAt = now, rd_operationKey = None,
           rd_restaurantId = Some (ap_restaurantId i), rd_ticketReference = None, rd_billAmount = None,
           rd_balanceAfter = None, rd_complementAmount = None, rd_actor = None\<rparr> g) (\<lambda>g1.
         ebind (writeCard cardId (ap_restaurantId i) rest (status_of_balance rest) g1) (\<lambda>g2.
         ebind (writeBooking (ap_reservationId i) (ap_restaurantId i)
           (\<lambda>r. r\<lparr>r_giftCardComplementAmount := Some complement, r_giftCardSnap := Some snap\<rparr>) g2) (\<lambda>g3.
         ebind (giftCardAmountCents applied) (\<lambda>_.
         Inr (g3\<lparr>g_db := log_audit \<lparr>a_event = ''gift_card_redeemed'', a_reservationId = Some (ap_reservationId i),
                a_holdId = None, a_actor = orElse (ap_actor i) ''gift-card:system'', a_fromState = None,
                a_toState = None\<rparr> (g_db g3)\<rparr>,
              snap\<lparr>gs_requestedAmount := None\<rparr>))))))"

text \<open>The debit itself, under the locks of the card and of the reservation. \<open>card0\<close> is the card as it was
  validated before the transaction: only its identity is used.\<close>

definition apply_tx :: "apply_card \<Rightarrow> card_row \<Rightarrow> id \<Rightarrow> instant \<Rightarrow> gift_db \<Rightarrow> gift_error + gift_db \<times> gift_snap" where
  "apply_tx i card0 newId now g =
     (let cardId = gc_id card0; locked = findCard g cardId in
      case findBooking g (ap_reservationId i) (ap_restaurantId i) of
        None \<Rightarrow> Inl ReservationNotFound
      | Some r \<Rightarrow>
        ebind (case r_giftCardSnap r of
           Some s \<Rightarrow> guard (gs_giftCardId s = [] \<or> gs_giftCardId s = cardId) OtherCardAssociated
         | None \<Rightarrow> Inr ()) (\<lambda>_.
        if \<exists>x \<in> set (g_redemptions g). rd_giftCardId x = cardId \<and> rd_reservationId x = Some (ap_reservationId i) \<and>
             rd_restaurantId x = Some (ap_restaurantId i)
        then (case r_giftCardSnap r of
            None \<Rightarrow> Inl DebitRecordedDifferently
          | Some s \<Rightarrow>
              if gs_giftCardId s \<noteq> cardId \<or> gs_requestedAmount s \<noteq> Some (ap_reservationAmount i)
              then Inl DebitRecordedDifferently
              else case locked of None \<Rightarrow> Inl TypeError
                | Some c \<Rightarrow> Inr (g, \<lparr>gs_giftCardId = cardId, gs_reservationId = ap_reservationId i,
                    gs_appliedAmount = gs_appliedAmount s, gs_remainingAmount = gc_remainingAmount c,
                    gs_paymentStatus = gs_paymentStatus s, gs_complementAmount = gs_complementAmount s,
                    gs_requestedAmount = None\<rparr>))
        else case locked of
          None \<Rightarrow> Inl (InvalidCard FULLY_REDEEMED)
        | Some c \<Rightarrow>
          if gc_status c \<noteq> G_ACTIVE \<or> gc_remainingAmount c \<le> 0 \<or> (case gc_expiresAt c of None \<Rightarrow> False | Some x \<Rightarrow> x < now)
          then Inl (InvalidCard FULLY_REDEEMED)
          else apply_write i cardId (gc_remainingAmount c) newId now g))"

definition applyToReservation :: "apply_card \<Rightarrow> id \<Rightarrow> instant \<Rightarrow> (gift_db \<Rightarrow> gift_db) \<Rightarrow> gift_db \<Rightarrow>
    gift_db \<times> (gift_error + gift_snap)" where
  "applyToReservation i newId now race g =
     (case giftCardAmountCents (ap_reservationAmount i) of
        Inl e \<Rightarrow> (g, Inl e)
      | Inr _ \<Rightarrow>
        (case findByCodeOrShortCode g (ap_code i) of
           None \<Rightarrow> (g, Inl CardNotFound)
         | Some candidate \<Rightarrow>
           if gc_restaurantId candidate \<noteq> ap_restaurantId i then (g, Inl CardNotFound)
           else
             let replay = (case findBooking g (ap_reservationId i) (ap_restaurantId i) of
                   Some r \<Rightarrow> (case r_giftCardSnap r of
                       Some s \<Rightarrow> if gs_giftCardId s = gc_id candidate \<and>
                                    gs_requestedAmount s = Some (ap_reservationAmount i) then Some s else None
                     | None \<Rightarrow> None)
                 | None \<Rightarrow> None)
             in case replay of
                  Some s \<Rightarrow> (g, Inr s)
                | None \<Rightarrow>
                    (case validateCode g (ap_code i) (Some (ap_restaurantId i)) now of
                       Inl reason \<Rightarrow> (g, Inl (InvalidCard reason))
                     | Inr crd \<Rightarrow> in_tx (apply_tx i crd newId now) (race g))))"

section \<open>Debit by ticket\<close>

record debit_input =
  de_restaurantId :: id
  de_giftCardId :: id
  de_billAmount :: rat
  de_ticketReference :: string
  de_reservationId :: "id option"
  de_idempotencyKey :: string
  de_actor :: string

record receipt =
  rc_id :: id
  rc_giftCardId :: id
  rc_reservationId :: "id option"
  rc_ticketReference :: "string option"
  rc_billAmount :: rat
  rc_appliedAmount :: rat
  rc_remainingAmount :: rat
  rc_complementAmount :: rat
  rc_redeemedAt :: instant

text \<open>The three amounts of the row are asserted to be there: reading a missing one throws.\<close>

definition receipt_of :: "redemption_row \<Rightarrow> gift_error + receipt" where
  "receipt_of x = (case (rd_billAmount x, rd_balanceAfter x, rd_complementAmount x) of
       (Some bill, Some balance, Some complement) \<Rightarrow>
         Inr \<lparr>rc_id = rd_id x, rc_giftCardId = rd_giftCardId x, rc_reservationId = rd_reservationId x,
              rc_ticketReference = rd_ticketReference x, rc_billAmount = bill, rc_appliedAmount = rd_amount x,
              rc_remainingAmount = balance, rc_complementAmount = complement, rc_redeemedAt = rd_redeemedAt x\<rparr>
     | _ \<Rightarrow> Inl TypeError)"

definition ticketOf :: "debit_input \<Rightarrow> string" where
  "ticketOf i = map upper_char (js_trim (de_ticketReference i))"

definition operationKey :: "debit_input \<Rightarrow> string" where
  "operationKey i = ''gift-card-debit:'' @ de_restaurantId i @ '':'' @ de_idempotencyKey i"

definition same_operation :: "debit_input \<Rightarrow> redemption_row \<Rightarrow> bool" where
  "same_operation i x \<longleftrightarrow> rd_operationKey x = Some (operationKey i) \<or>
     rd_restaurantId x = Some (de_restaurantId i) \<and> rd_ticketReference x = Some (ticketOf i)"

definition debitable :: "card_row \<Rightarrow> instant \<Rightarrow> bool" where
  "debitable c now \<longleftrightarrow> map upper_char (gc_currency c) = ''EUR'' \<and> gc_status c = G_ACTIVE \<and>
     gc_remainingAmount c > 0 \<and> \<not> (case gc_expiresAt c of None \<Rightarrow> False | Some x \<Rightarrow> x \<le> now) \<and>
     \<not> (gc_type c = CROWDFUNDED \<and> gc_closedAt c = None) \<and> paid_for c"

text \<open>The checks of the reservation named by a debit, if there is one.\<close>

definition booking_check :: "debit_input \<Rightarrow> card_row \<Rightarrow> gift_db \<Rightarrow> gift_error + unit" where
  "booking_check i crd g = (case de_reservationId i of
       None \<Rightarrow> Inr ()
     | Some rid \<Rightarrow> if rid = [] then Inr () else
         (case findBooking g rid (de_restaurantId i) of
            None \<Rightarrow> Inl ReservationNotFound
          | Some r \<Rightarrow>
              ebind (guard (r_status r \<in> {St_CONFIRMED, St_SEATED}) ReservationClosed) (\<lambda>_.
              ebind (guard (case r_giftCardSnap r of None \<Rightarrow> True
                     | Some s \<Rightarrow> gs_giftCardId s = [] \<or> gs_giftCardId s = gc_id crd) OtherCardAssociated) (\<lambda>_.
              guard (\<not> (\<exists>x \<in> set (g_redemptions g). rd_reservationId x = Some (r_id r) \<and>
                        rd_restaurantId x = Some (de_restaurantId i))) ReservationAlreadyDebited))))"

definition debit_write :: "debit_input \<Rightarrow> id \<Rightarrow> rat \<Rightarrow> rat \<Rightarrow> id \<Rightarrow> instant \<Rightarrow> gift_db \<Rightarrow> gift_error + gift_db \<times> receipt" where
  "debit_write i cardId remaining bill newId now g =
     (let amount = min remaining bill;
          balance = remaining - amount;
          complement = bill - amount;
          row = \<lparr>rd_id = newId, rd_giftCardId = cardId, rd_reservationId = de_reservationId i,
            rd_amount = amount, rd_redeemedAt = now, rd_operationKey = Some (operationKey i),
            rd_restaurantId = Some (de_restaurantId i), rd_ticketReference = Some (ticketOf i),
            rd_billAmount = Some bill, rd_balanceAfter = Some balance, rd_complementAmount = Some complement,
            rd_actor = Some (de_actor i)\<rparr>
      in ebind (insertRedemption row g) (\<lambda>g1.
         ebind (writeCard cardId (de_restaurantId i) balance (status_of_balance balance) g1) (\<lambda>g2.
         ebind (if truthy (de_reservationId i)
            then writeBooking (the (de_reservationId i)) (de_restaurantId i)
              (\<lambda>r. r\<lparr>r_giftCardComplementAmount := Some complement,
                r_giftCardSnap := Some \<lparr>gs_giftCardId = cardId, gs_reservationId = the (de_reservationId i),
                  gs_appliedAmount = amount, gs_remainingAmount = balance,
                  gs_paymentStatus = payment_status_of complement balance, gs_complementAmount = complement,
                  gs_requestedAmount = Some (de_billAmount i)\<rparr>\<rparr>) g2
            else Inr g2) (\<lambda>g3.
         let g4 = g3\<lparr>g_db := log_audit \<lparr>a_event = ''gift_card_redeemed'', a_reservationId = de_reservationId i,
               a_holdId = None, a_actor = de_actor i, a_fromState = None, a_toState = None\<rparr> (g_db g3)\<rparr>
         in ebind (receipt_of row) (\<lambda>rc. Inr (g4, rc))))))"

definition debit_tx :: "debit_input \<Rightarrow> int \<Rightarrow> id \<Rightarrow> instant \<Rightarrow> gift_db \<Rightarrow> gift_error + gift_db \<times> receipt" where
  "debit_tx i cents newId now g =
     (case find (same_operation i) (g_redemptions g) of
        Some x \<Rightarrow>
          if rd_giftCardId x \<noteq> de_giftCardId i \<or> rd_billAmount x \<noteq> Some (de_billAmount i) \<or>
             rd_reservationId x \<noteq> de_reservationId i \<or> rd_ticketReference x \<noteq> Some (ticketOf i)
          then Inl OperationRecordedDifferently
          else ebind (receipt_of x) (\<lambda>rc. Inr (g, rc))
      | None \<Rightarrow>
        (case find (\<lambda>c. gc_id c = de_giftCardId i \<and> gc_restaurantId c = de_restaurantId i) (g_cards g) of
           None \<Rightarrow> Inl CardNotFound
         | Some crd \<Rightarrow>
           if \<not> debitable crd now then Inl CardNotDebitable
           else ebind (booking_check i crd g) (\<lambda>_.
             debit_write i (gc_id crd) (gc_remainingAmount crd) (of_int cents / 100) newId now g)))"

definition debit :: "debit_input \<Rightarrow> id \<Rightarrow> instant \<Rightarrow> gift_db \<Rightarrow> gift_db \<times> (gift_error + receipt)" where
  "debit i newId now g =
     (if ticketOf i = [] \<or> length (ticketOf i) > 64 then (g, Inl InvalidTicketReference)
      else case giftCardAmountCents (de_billAmount i) of
             Inl e \<Rightarrow> (g, Inl e)
           | Inr cents \<Rightarrow> in_tx (debit_tx i cents newId now) g)"

section \<open>Statistics\<close>

record card_stats =
  st_totalSoldAmount :: rat
  st_totalRemainingAmount :: rat
  st_redeemedCount :: nat
  st_activeCount :: nat
  st_totalCount :: nat
  st_averageAmount :: rat
  st_packCount :: nat
  st_freeAmountCount :: int

definition getStats :: "id \<Rightarrow> gift_db \<Rightarrow> card_stats" where
  "getStats restaurantId g =
     (let cs = filter (\<lambda>c. gc_restaurantId c = restaurantId) (g_cards g);
          sold = sum_list (map gc_amount cs)
      in \<lparr>st_totalSoldAmount = sold, st_totalRemainingAmount = sum_list (map gc_remainingAmount cs),
          st_redeemedCount = length (filter (\<lambda>c. gc_status c = G_REDEEMED) cs),
          st_activeCount = length (filter (\<lambda>c. gc_status c = G_ACTIVE) cs),
          st_totalCount = length cs,
          st_averageAmount = (if cs \<noteq> [] then sold / of_nat (length cs) else 0),
          st_packCount = length (filter (\<lambda>c. gc_packId c \<noteq> None) cs),
          st_freeAmountCount = int (length cs) - int (length (filter (\<lambda>c. gc_packId c \<noteq> None) cs))\<rparr>)"

section \<open>Conservation\<close>

definition redeemed :: "gift_db \<Rightarrow> id \<Rightarrow> rat" where
  "redeemed g i = sum_list (map rd_amount (filter (\<lambda>x. rd_giftCardId x = i) (g_redemptions g)))"

definition snap_of :: "gift_db \<Rightarrow> id \<Rightarrow> id \<Rightarrow> gift_snap option" where
  "snap_of g i restaurantId = (case findBooking g i restaurantId of None \<Rightarrow> None | Some r \<Rightarrow> r_giftCardSnap r)"

text \<open>A redemption counts for a reservation, and its snapshot shows it.\<close>

definition redeems :: "redemption_row \<Rightarrow> id \<Rightarrow> id \<Rightarrow> bool" where
  "redeems x i restaurantId \<longleftrightarrow> i \<noteq> [] \<and> rd_reservationId x = Some i \<and> rd_restaurantId x = Some restaurantId"

definition shown :: "gift_db \<Rightarrow> redemption_row \<Rightarrow> id \<Rightarrow> id \<Rightarrow> bool" where
  "shown g x i restaurantId \<longleftrightarrow> (\<exists>s. snap_of g i restaurantId = Some s \<and>
     gs_giftCardId s = rd_giftCardId x \<and> gs_appliedAmount s > 0)"

definition cards_ok :: "gift_db \<Rightarrow> bool" where
  "cards_ok g \<longleftrightarrow> distinct (map gc_id (g_cards g)) \<and>
     (\<forall>c \<in> set (g_cards g). gc_id c \<noteq> [] \<and> 0 \<le> gc_remainingAmount c \<and>
        gc_amount c = gc_remainingAmount c + redeemed g (gc_id c))"

definition redemptions_ok :: "gift_db \<Rightarrow> bool" where
  "redemptions_ok g \<longleftrightarrow> table_ok rd_id redemption_conflict (g_redemptions g) \<and>
     (\<forall>x \<in> set (g_redemptions g). 0 < rd_amount x \<and> rd_giftCardId x \<in> gc_id ` set (g_cards g) \<and>
        (\<forall>i rs. redeems x i rs \<longrightarrow> shown g x i rs \<and> (\<forall>y \<in> set (g_redemptions g). redeems y i rs \<longrightarrow> y = x)))"

definition gift_ok :: "gift_db \<Rightarrow> bool" where
  "gift_ok g \<longleftrightarrow> cards_ok g \<and> redemptions_ok g"

interpretation redemption_table: constrained_table rd_id redemption_conflict
  by unfold_locales (simp add: redemption_conflict_def same_some_def; metis)

text \<open>What others may commit while a call runs: they keep the invariant and drop no redemption.\<close>

definition calm_gift :: "(gift_db \<Rightarrow> gift_db) \<Rightarrow> bool" where
  "calm_gift f \<longleftrightarrow> (\<forall>g. (gift_ok g \<longrightarrow> gift_ok (f g)) \<and> (\<exists>ys. g_redemptions (f g) = g_redemptions g @ ys))"

lemma calm_giftD: "calm_gift f \<Longrightarrow> gift_ok g \<Longrightarrow> gift_ok (f g)"
  by (simp add: calm_gift_def)

lemma calm_gift_id [simp]: "calm_gift (\<lambda>g. g)"
  by (simp add: calm_gift_def)

subsection \<open>Writes\<close>

lemma findCard_in: "findCard g i = Some c \<Longrightarrow> c \<in> set (g_cards g) \<and> gc_id c = i"
  by (auto simp: findCard_def dest: find_Some_D)

lemma writeBooking_frame:
  assumes "writeBooking i rs f g = Inr g'" "\<And>x. r_id (f x) = r_id x \<and> r_restaurantId (f x) = r_restaurantId x"
    and "\<And>x. r_giftCardSnap (f x) = Some s"
  shows "g_cards g' = g_cards g" "g_redemptions g' = g_redemptions g"
    "snap_of g' a b = (if a = i \<and> b = rs then Some s else snap_of g a b)"
proof -
  let ?k = "\<lambda>r. (r_id r, r_restaurantId r)" and ?p = "\<lambda>x. r_id x = i \<and> r_restaurantId x = rs"
  let ?d = "(g_db g)\<lparr>reservations := upd_where ?p f (reservations (g_db g))\<rparr>"
  obtain r where r: "find ?p (reservations (g_db g)) = Some r" and u: "g' = g\<lparr>g_db := ?d\<rparr>"
    using assms(1) by (auto simp: writeBooking_def updateReservation_def split: option.splits if_splits)
  show "g_cards g' = g_cards g" "g_redemptions g' = g_redemptions g" by (simp_all add: u)
  have "find (\<lambda>x. ?k x = (a, b)) (upd_where ?p f (reservations (g_db g))) =
      map_option (\<lambda>x. if ?p x then f x else x) (find (\<lambda>x. ?k x = (a, b)) (reservations (g_db g)))"
    by (rule find_upd_where) (use assms(2) in auto)
  then have new: "findBooking g' a b = map_option (\<lambda>x. if ?p x then f x else x) (findBooking g a b)"
    by (simp add: findBooking_def u)
  show "snap_of g' a b = (if a = i \<and> b = rs then Some s else snap_of g a b)"
  proof (cases "a = i \<and> b = rs")
    case True
    then have "findBooking g a b = Some r" using r by (simp add: findBooking_def)
    then have "findBooking g' a b = Some (f r)" unfolding new using find_Some_D [OF r] by simp
    then show ?thesis using True assms(3) by (simp add: snap_of_def)
  next
    case False
    have "r_id x = a \<and> r_restaurantId x = b" if "findBooking g a b = Some x" for x
      using find_Some_D [OF that [unfolded findBooking_def]] by simp
    then show ?thesis using False by (cases "findBooking g a b") (auto simp: snap_of_def new)
  qed
qed

lemma redeemed_append:
  "g_redemptions g' = g_redemptions g @ [x] \<Longrightarrow>
   redeemed g' i = redeemed g i + (if rd_giftCardId x = i then rd_amount x else 0)"
  by (simp add: redeemed_def)

text \<open>A debit: one redemption more, its amount off the balance of its card, its reservation marked.\<close>

lemma gift_ok_debit:
  assumes ok: "gift_ok g" and c: "c \<in> set (g_cards g)" "gc_id c = rd_giftCardId x" "gc_restaurantId c = rs"
    and x: "0 < rd_amount x" "rd_amount x \<le> gc_remainingAmount c" "\<forall>y \<in> set (g_redemptions g). \<not> redemption_conflict x y"
      "rd_restaurantId x = Some rs"
    and g': "g_redemptions g' = g_redemptions g @ [x]"
      "g_cards g' = upd_where (\<lambda>c. gc_id c = rd_giftCardId x \<and> gc_restaurantId c = rs)
         (\<lambda>k. k\<lparr>gc_remainingAmount := gc_remainingAmount c - rd_amount x, gc_status := st\<rparr>) (g_cards g)"
    and snap: "\<And>a b. snap_of g' a b = (if redeems x a b then Some s else snap_of g a b)"
      "gs_giftCardId s = rd_giftCardId x" "gs_appliedAmount s = rd_amount x"
    and first: "\<And>y i. y \<in> set (g_redemptions g) \<Longrightarrow> redeems x i rs \<Longrightarrow> \<not> redeems y i rs"
  shows "gift_ok g'"
proof -
  let ?p = "\<lambda>k. gc_id k = rd_giftCardId x \<and> gc_restaurantId k = rs"
  let ?u = "\<lambda>k. k\<lparr>gc_remainingAmount := gc_remainingAmount c - rd_amount x, gc_status := st\<rparr>"
  have ids: "map gc_id (g_cards g') = map gc_id (g_cards g)"
    unfolding g'(2) by (rule map_upd_where_same) simp
  have same: "k = c" if "k \<in> set (g_cards g)" "gc_id k = rd_giftCardId x" for k
    using ok c that unfolding gift_ok_def cards_ok_def by (metis distinct_map inj_on_def)
  have "gc_id k \<noteq> [] \<and> 0 \<le> gc_remainingAmount k \<and> gc_amount k = gc_remainingAmount k + redeemed g' (gc_id k)"
    if k: "k \<in> set (g_cards g')" for k
  proof -
    obtain k0 where k0: "k0 \<in> set (g_cards g)" "k = (if ?p k0 then ?u k0 else k0)"
      using k unfolding g'(2) set_upd_where by blast
    have base: "gc_id k0 \<noteq> []" "0 \<le> gc_remainingAmount k0" "gc_amount k0 = gc_remainingAmount k0 + redeemed g (gc_id k0)"
      using ok k0(1) by (auto simp: gift_ok_def cards_ok_def)
    show ?thesis
    proof (cases "gc_id k0 = rd_giftCardId x")
      case True
      then have "k0 = c" using same k0(1) by blast
      then show ?thesis using base x(2) c k0(2) by (simp add: redeemed_append [OF g'(1)])
    next
      case False
      then show ?thesis using base k0(2) by (auto simp: redeemed_append [OF g'(1)])
    qed
  qed
  then have "cards_ok g'" using ok ids by (simp add: gift_ok_def cards_ok_def)
  moreover have "redemptions_ok g'"
    unfolding redemptions_ok_def
  proof (intro conjI ballI allI impI)
    show "table_ok rd_id redemption_conflict (g_redemptions g')"
      unfolding g'(1) by (rule redemption_table.insert_ok)
        (use ok x(3) in \<open>auto simp: gift_ok_def redemptions_ok_def redemption_conflict_def\<close>)
    fix y assume y: "y \<in> set (g_redemptions g')"
    have cards: "gc_id ` set (g_cards g') = gc_id ` set (g_cards g)" using ids by (metis list.set_map)
    show "0 < rd_amount y" "rd_giftCardId y \<in> gc_id ` set (g_cards g')"
      using y ok x(1) imageI [OF c(1), of gc_id] c(2) by (auto simp: g'(1) cards gift_ok_def redemptions_ok_def)
    fix i b assume r: "redeems y i b"
    show "shown g' y i b"
    proof (cases "redeems x i b")
      case True
      then have "y = x" using first y r x(4) by (auto simp: g'(1) redeems_def)
      then show ?thesis using True snap x(1) by (auto simp: shown_def)
    next
      case False
      then have "y \<in> set (g_redemptions g)" using y r by (auto simp: g'(1))
      then have "shown g y i b" using ok r by (auto simp: gift_ok_def redemptions_ok_def)
      then show ?thesis using False snap(1) by (auto simp: shown_def)
    qed
    fix z assume z: "z \<in> set (g_redemptions g')" "redeems z i b"
    show "z = y"
    proof (cases "redeems x i b")
      case True
      then show ?thesis using first y z r x(4) by (auto simp: g'(1) redeems_def)
    next
      case False
      then show ?thesis using y z r ok by (auto simp: g'(1) gift_ok_def redemptions_ok_def)
    qed
  qed
  ultimately show ?thesis by (simp add: gift_ok_def)
qed

text \<open>Steps that touch neither cards nor redemptions, and leave the snapshot of every debited
  reservation.\<close>

lemma gift_ok_frame:
  assumes "gift_ok g" "g_cards g' = g_cards g" "g_redemptions g' = g_redemptions g"
    and "\<And>i rs x. x \<in> set (g_redemptions g) \<Longrightarrow> redeems x i rs \<Longrightarrow> snap_of g' i rs = snap_of g i rs"
  shows "gift_ok g'"
proof -
  have "redeemed g' = redeemed g" by (simp add: redeemed_def assms(3) fun_eq_iff)
  then show ?thesis
    using assms by (auto simp: gift_ok_def cards_ok_def redemptions_ok_def shown_def)
qed

lemma insertRedemption_ok:
  "insertRedemption x g = Inr g' \<longleftrightarrow>
     (\<forall>y \<in> set (g_redemptions g). \<not> redemption_conflict x y) \<and> g' = g\<lparr>g_redemptions := g_redemptions g @ [x]\<rparr>"
  by (auto simp: insertRedemption_def)

lemma writeCard_ok:
  "writeCard i rs rest st g = Inr g' \<longleftrightarrow>
     (\<exists>c \<in> set (g_cards g). gc_id c = i \<and> gc_restaurantId c = rs) \<and>
     g' = g\<lparr>g_cards := upd_where (\<lambda>c. gc_id c = i \<and> gc_restaurantId c = rs)
       (\<lambda>c. c\<lparr>gc_remainingAmount := rest, gc_status := st\<rparr>) (g_cards g)\<rparr>"
  by (auto simp: writeCard_def)

lemma snap_of_db [simp]:
  "snap_of (g\<lparr>g_db := log_audit a (g_db g)\<rparr>) = snap_of g" "snap_of (g\<lparr>g_cards := cs\<rparr>) = snap_of g"
  "snap_of (g\<lparr>g_redemptions := xs\<rparr>) = snap_of g"
  by (simp_all add: snap_of_def findBooking_def fun_eq_iff)

text \<open>What the writes of a debit do, whichever service makes them.\<close>

definition debited :: "gift_db \<Rightarrow> id \<Rightarrow> id \<Rightarrow> rat \<Rightarrow> redemption_row \<Rightarrow> gift_snap \<Rightarrow> gift_db \<Rightarrow> bool" where
  "debited g cardId rs remaining x s g' \<longleftrightarrow>
     (\<exists>c \<in> set (g_cards g). gc_id c = cardId \<and> gc_restaurantId c = rs) \<and>
     (\<forall>y \<in> set (g_redemptions g). \<not> redemption_conflict x y) \<and>
     rd_giftCardId x = cardId \<and> rd_restaurantId x = Some rs \<and>
     g_redemptions g' = g_redemptions g @ [x] \<and>
     g_cards g' = upd_where (\<lambda>c. gc_id c = cardId \<and> gc_restaurantId c = rs)
       (\<lambda>k. k\<lparr>gc_remainingAmount := remaining - rd_amount x, gc_status := status_of_balance (remaining - rd_amount x)\<rparr>)
       (g_cards g) \<and>
     (\<forall>a b. snap_of g' a b = (if redeems x a b then Some s else snap_of g a b)) \<and>
     gs_giftCardId s = cardId \<and> gs_appliedAmount s = rd_amount x"

lemma apply_write_debited:
  assumes "apply_write i cardId remaining newId now g = Inr (g', res)" "ap_reservationId i \<noteq> []"
  shows "\<exists>x s. debited g cardId (ap_restaurantId i) remaining x s g' \<and>
    rd_amount x = min remaining (ap_reservationAmount i) \<and> rd_reservationId x = Some (ap_reservationId i)"
proof -
  let ?t = "min remaining (ap_reservationAmount i)"
  let ?x = "\<lparr>rd_id = newId, rd_giftCardId = cardId, rd_reservationId = Some (ap_reservationId i),
           rd_amount = ?t, rd_redeemedAt = now, rd_operationKey = None,
           rd_restaurantId = Some (ap_restaurantId i), rd_ticketReference = None, rd_billAmount = None,
           rd_balanceAfter = None, rd_complementAmount = None, rd_actor = None\<rparr>"
  obtain s g1 g2 g3 a where w: "insertRedemption ?x g = Inr g1"
    "writeCard cardId (ap_restaurantId i) (remaining - ?t) (status_of_balance (remaining - ?t)) g1 = Inr g2"
    "writeBooking (ap_reservationId i) (ap_restaurantId i)
       (\<lambda>r. r\<lparr>r_giftCardComplementAmount := Some (ap_reservationAmount i - ?t), r_giftCardSnap := Some s\<rparr>) g2 = Inr g3"
    "g' = g3\<lparr>g_db := log_audit a (g_db g3)\<rparr>" "gs_giftCardId s = cardId" "gs_appliedAmount s = ?t"
    using assms(1) by (fastforce simp: apply_write_def Let_def elim!: ebind_InrE)
  note f = writeBooking_frame [OF w(3), of s, simplified]
  have "debited g cardId (ap_restaurantId i) remaining ?x s g'"
    using w f assms(2) by (auto simp: debited_def insertRedemption_ok writeCard_ok redeems_def)
  then show ?thesis by (intro exI [of _ ?x] exI [of _ s]) simp
qed

lemma debit_write_debited:
  assumes "debit_write i cardId remaining bill newId now g = Inr (g', rc)"
  shows "\<exists>x s. debited g cardId (de_restaurantId i) remaining x s g' \<and>
    rd_amount x = min remaining bill \<and> rd_reservationId x = de_reservationId i \<and> receipt_of x = Inr rc \<and>
    rd_operationKey x = Some (operationKey i) \<and> rd_ticketReference x = Some (ticketOf i) \<and>
    rd_billAmount x = Some bill"
proof -
  let ?t = "min remaining bill" and ?r = "de_reservationId i"
  let ?x = "\<lparr>rd_id = newId, rd_giftCardId = cardId, rd_reservationId = ?r, rd_amount = ?t, rd_redeemedAt = now,
      rd_operationKey = Some (operationKey i), rd_restaurantId = Some (de_restaurantId i),
      rd_ticketReference = Some (ticketOf i), rd_billAmount = Some bill, rd_balanceAfter = Some (remaining - ?t),
      rd_complementAmount = Some (bill - ?t), rd_actor = Some (de_actor i)\<rparr>"
  let ?s = "\<lparr>gs_giftCardId = cardId, gs_reservationId = the ?r, gs_appliedAmount = ?t,
      gs_remainingAmount = remaining - ?t, gs_paymentStatus = payment_status_of (bill - ?t) (remaining - ?t),
      gs_complementAmount = bill - ?t, gs_requestedAmount = Some (de_billAmount i)\<rparr>"
  let ?f = "\<lambda>r. r\<lparr>r_giftCardComplementAmount := Some (bill - ?t), r_giftCardSnap := Some ?s\<rparr>"
  obtain g1 g2 g3 a where w: "insertRedemption ?x g = Inr g1"
    "writeCard cardId (de_restaurantId i) (remaining - ?t) (status_of_balance (remaining - ?t)) g1 = Inr g2"
    "(if truthy ?r then writeBooking (the ?r) (de_restaurantId i) ?f g2 else Inr g2) = Inr g3"
    "g' = g3\<lparr>g_db := log_audit a (g_db g3)\<rparr>" and rc: "receipt_of ?x = Inr rc"
    using assms(1) unfolding debit_write_def Let_def by (elim ebind_InrE) fastforce
  have "debited g cardId (de_restaurantId i) remaining ?x ?s g'"
  proof (cases "truthy ?r")
    case True
    then have b: "writeBooking (the ?r) (de_restaurantId i) ?f g2 = Inr g3" using w(3) by simp
    note f = writeBooking_frame [OF b, of ?s, simplified]
    have "redeems ?x a b \<longleftrightarrow> a = the ?r \<and> b = de_restaurantId i" for a b
      using True by (auto simp: redeems_def elim: truthyE)
    with w(1,2,4) f show ?thesis by (simp add: debited_def insertRedemption_ok writeCard_ok)
  next
    case False
    then have "\<not> redeems ?x a b" for a b by (auto simp: redeems_def truthy_def)
    then show ?thesis using w False by (auto simp: debited_def insertRedemption_ok writeCard_ok)
  qed
  then show ?thesis using rc by (intro exI [of _ ?x] exI [of _ ?s]) simp
qed

lemma gift_ok_debited:
  assumes ok: "gift_ok g" and d: "debited g cardId rs (gc_remainingAmount c) x s g'"
    and c: "c \<in> set (g_cards g)" "gc_id c = cardId"
    and x: "0 < rd_amount x" "rd_amount x \<le> gc_remainingAmount c"
    and first: "\<And>y i. y \<in> set (g_redemptions g) \<Longrightarrow> redeems x i rs \<Longrightarrow> \<not> redeems y i rs"
  shows "gift_ok g'"
proof -
  have d': "\<exists>c \<in> set (g_cards g). gc_id c = cardId \<and> gc_restaurantId c = rs"
    "\<forall>y \<in> set (g_redemptions g). \<not> redemption_conflict x y" "rd_giftCardId x = cardId"
    "rd_restaurantId x = Some rs" "g_redemptions g' = g_redemptions g @ [x]"
    "g_cards g' = upd_where (\<lambda>c. gc_id c = cardId \<and> gc_restaurantId c = rs)
       (\<lambda>k. k\<lparr>gc_remainingAmount := gc_remainingAmount c - rd_amount x,
             gc_status := status_of_balance (gc_remainingAmount c - rd_amount x)\<rparr>) (g_cards g)"
    "\<And>a b. snap_of g' a b = (if redeems x a b then Some s else snap_of g a b)"
    "gs_giftCardId s = cardId" "gs_appliedAmount s = rd_amount x"
    using d by (simp_all add: debited_def)
  have rs: "gc_restaurantId c = rs"
    using ok c d'(1) unfolding gift_ok_def cards_ok_def by (metis distinct_map inj_on_def)
  show ?thesis
    by (rule gift_ok_debit [OF ok c(1) _ rs x d'(2,4,5) _ d'(7) _ d'(9) first])
      (use c(2) d'(3,6,8) in simp_all)
qed

lemma gift_ok_apply_tx:
  assumes ok: "gift_ok g" and run: "apply_tx i card0 newId now g = Inr (g', res)"
    and pos: "0 < ap_reservationAmount i" and id: "ap_reservationId i \<noteq> []"
  shows "gift_ok g' \<and> (\<exists>ys. g_redemptions g' = g_redemptions g @ ys)"
proof -
  let ?cid = "gc_id card0"
  obtain r where r: "findBooking g (ap_reservationId i) (ap_restaurantId i) = Some r"
    using run by (auto simp: apply_tx_def Let_def split: option.splits)
  have assoc: "case r_giftCardSnap r of None \<Rightarrow> True | Some s0 \<Rightarrow> gs_giftCardId s0 = [] \<or> gs_giftCardId s0 = ?cid"
    using run r by (auto simp: apply_tx_def Let_def split: option.splits elim!: ebind_InrE)
  consider "g' = g"
    | c where "\<forall>x \<in> set (g_redemptions g). \<not> (rd_giftCardId x = ?cid \<and>
          rd_reservationId x = Some (ap_reservationId i) \<and> rd_restaurantId x = Some (ap_restaurantId i))"
        "findCard g ?cid = Some c" "0 < gc_remainingAmount c"
        "apply_write i ?cid (gc_remainingAmount c) newId now g = Inr (g', res)"
    using run r by (auto simp: apply_tx_def Let_def split: option.splits if_splits elim!: ebind_InrE)
  then show ?thesis
  proof cases
    case 1
    then show ?thesis using ok by simp
  next
    case (2 c)
    obtain x s where d: "debited g ?cid (ap_restaurantId i) (gc_remainingAmount c) x s g'"
      and x: "rd_amount x = min (gc_remainingAmount c) (ap_reservationAmount i)"
        "rd_reservationId x = Some (ap_reservationId i)"
      using apply_write_debited [OF 2(4) id] by blast
    have first: "\<not> redeems y k (ap_restaurantId i)"
      if y: "y \<in> set (g_redemptions g)" and k: "redeems x k (ap_restaurantId i)" for y k
    proof
      assume y2: "redeems y k (ap_restaurantId i)"
      have k': "k = ap_reservationId i" using k x(2) by (simp add: redeems_def)
      have "shown g y k (ap_restaurantId i)" "rd_giftCardId y \<in> gc_id ` set (g_cards g)"
        using ok y y2 by (auto simp: gift_ok_def redemptions_ok_def)
      then have "rd_giftCardId y = ?cid"
        using assoc r ok k' by (fastforce simp: shown_def snap_of_def gift_ok_def cards_ok_def)
      with 2(1) y y2 k' show False by (auto simp: redeems_def)
    qed
    have c: "c \<in> set (g_cards g)" "gc_id c = ?cid" using findCard_in [OF 2(2)] by auto
    have "gift_ok g'"
      by (rule gift_ok_debited [OF ok d c]) (use first x(1) 2(3) pos in auto)
    then show ?thesis using d by (auto simp: debited_def)
  qed
qed

lemma gift_ok_debit_tx:
  assumes ok: "gift_ok g" and run: "debit_tx i cents newId now g = Inr (g', rc)" and pos: "0 < cents"
  shows "gift_ok g' \<and> (\<exists>ys. g_redemptions g' = g_redemptions g @ ys)"
proof (cases "find (same_operation i) (g_redemptions g)")
  case (Some x)
  then have "g' = g" using run by (auto simp: debit_tx_def split: if_splits elim!: ebind_InrE)
  then show ?thesis using ok by simp
next
  case None
  obtain c where c: "find (\<lambda>c. gc_id c = de_giftCardId i \<and> gc_restaurantId c = de_restaurantId i) (g_cards g) = Some c"
    "debitable c now" "booking_check i c g = Inr ()"
    "debit_write i (gc_id c) (gc_remainingAmount c) (of_int cents / 100) newId now g = Inr (g', rc)"
    using run None by (auto simp: debit_tx_def split: option.splits if_splits elim!: ebind_InrE)
  obtain x s where d: "debited g (gc_id c) (de_restaurantId i) (gc_remainingAmount c) x s g'"
    and x: "rd_amount x = min (gc_remainingAmount c) (of_int cents / 100)" "rd_reservationId x = de_reservationId i"
    using debit_write_debited [OF c(4)] by blast
  have first: "\<not> redeems y k (de_restaurantId i)"
    if "y \<in> set (g_redemptions g)" "redeems x k (de_restaurantId i)" for y k
    using that c(3) x(2) by (auto simp: booking_check_def redeems_def findBooking_def
        split: option.splits if_splits elim!: ebind_InrE dest!: find_Some_D)
  have "gift_ok g'"
    by (rule gift_ok_debited [OF ok d _ refl])
      (use first x(1) c(1,2) pos find_Some_D [OF c(1)] in \<open>auto simp: debitable_def\<close>)
  then show ?thesis using d by (auto simp: debited_def)
qed

subsection \<open>Issue and association\<close>

lemma decimal_10_2_nonneg: "decimal_10_2 x = Some y \<Longrightarrow> 0 \<le> x \<Longrightarrow> 0 \<le> y"
proof -
  assume x: "decimal_10_2 x = Some y" "0 \<le> x"
  define n where "n = \<lfloor>x * 100 + 1 / 2\<rfloor>"
  have "y = of_int n / 100" using x by (simp add: decimal_10_2_def Let_def n_def split: if_splits)
  moreover have "0 \<le> n" using x(2) by (simp add: n_def)
  ultimately show ?thesis by simp
qed

lemma gift_ok_insertCard:
  assumes "gift_ok g" "insertCard c g = Inr g'" "gc_id c \<noteq> []" "0 \<le> gc_amount c" "gc_remainingAmount c = gc_amount c"
  shows "gift_ok g'"
proof -
  obtain a where a: "decimal_10_2 (gc_amount c) = Some a" "\<forall>c' \<in> set (g_cards g). \<not> card_conflict c c'"
    "g' = g\<lparr>g_cards := g_cards g @ [c\<lparr>gc_amount := a, gc_remainingAmount := a\<rparr>]\<rparr>"
    using assms(2,5) by (auto simp: insertCard_def split: option.splits if_splits)
  have new: "gc_id c \<notin> gc_id ` set (g_cards g)" using a(2) by (auto simp: card_conflict_def)
  moreover have "\<forall>x \<in> set (g_redemptions g). rd_giftCardId x \<in> gc_id ` set (g_cards g)"
    using assms(1) by (simp add: gift_ok_def redemptions_ok_def)
  ultimately have "filter (\<lambda>x. rd_giftCardId x = gc_id c) (g_redemptions g) = []"
    unfolding filter_empty_conv by metis
  then have "redeemed g (gc_id c) = 0" by (simp add: redeemed_def)
  moreover have "redeemed g' = redeemed g" by (simp add: a(3) redeemed_def fun_eq_iff)
  ultimately have "cards_ok g'"
    using assms(1,3) new decimal_10_2_nonneg [OF a(1) assms(4)] by (auto simp: a(3) gift_ok_def cards_ok_def)
  moreover have "redemptions_ok g'"
    using assms(1) by (auto simp: a(3) gift_ok_def redemptions_ok_def shown_def)
  ultimately show ?thesis by (simp add: gift_ok_def)
qed

lemma gift_ok_create_loop:
  assumes "\<And>k. calm_gift (ie_race e k)" "\<And>k. ie_id e k \<noteq> []" "0 \<le> amount"
  shows "gift_ok g \<Longrightarrow> create_loop e i amount k n g = (g', out) \<Longrightarrow>
    gift_ok g' \<and> (\<exists>ys. g_redemptions g' = g_redemptions g @ ys)"
proof (induction n arbitrary: k g)
  case (Suc n)
  have race: "gift_ok (ie_race e k g)" "\<exists>ys. g_redemptions (ie_race e k g) = g_redemptions g @ ys"
    using assms(1) Suc.prems(1) by (auto simp: calm_gift_def)
  show ?case
  proof (cases "generateUniqueShortCode (ie_rnd e k) g")
    case (Inr sc)
    let ?c = "new_card e i amount sc k"
    show ?thesis
    proof (cases "insertCard ?c (ie_race e k g)")
      case (Inr g2)
      have "gift_ok g2"
        by (rule gift_ok_insertCard [OF race(1) Inr]) (simp_all add: new_card_def assms(2,3))
      moreover have "g_redemptions g2 = g_redemptions (ie_race e k g)"
        using Inr by (auto simp: insertCard_def split: option.splits if_splits)
      ultimately show ?thesis using Suc.prems(2) race Inr \<open>generateUniqueShortCode _ g = _\<close> by auto
    next
      case (Inl x)
      show ?thesis
      proof (cases "x = P2002")
        case True
        then have "create_loop e i amount (k + 1) n (ie_race e k g) = (g', out)"
          using Suc.prems(2) Inl \<open>generateUniqueShortCode _ g = _\<close> by simp
        from Suc.IH [OF race(1) this] race(2) show ?thesis by auto
      next
        case False
        then show ?thesis
          using Suc.prems(2) race Inl \<open>generateUniqueShortCode _ g = _\<close> by (cases x) auto
      qed
    qed
  qed (use Suc.prems in auto)
qed auto

lemma gift_ok_associate_tx:
  assumes ok: "gift_ok g" and run: "associate_tx i cardId now g = Inr (g', res)"
  shows "gift_ok g' \<and> g_redemptions g' = g_redemptions g"
proof -
  obtain c r s where r: "c \<in> set (g_cards g)" "findBooking g (ap_reservationId i) (ap_restaurantId i) = Some r"
    "case r_giftCardSnap r of None \<Rightarrow> True | Some s0 \<Rightarrow> gs_appliedAmount s0 \<le> 0"
    "writeBooking (r_id r) (ap_restaurantId i) (\<lambda>r. r\<lparr>r_giftCardSnap := Some s\<rparr>) g = Inr g'"
    using run by (auto simp: associate_tx_def Let_def split: option.splits if_splits elim!: ebind_InrE dest: find_Some_D)
  have id: "r_id r = ap_reservationId i" using find_Some_D [OF r(2) [unfolded findBooking_def]] by simp
  note f = writeBooking_frame [OF r(4), of s, simplified]
  have "gift_ok g'"
  proof (rule gift_ok_frame [OF ok f(1,2)])
    fix k rs x assume x: "x \<in> set (g_redemptions g)" "redeems x k rs"
    then have "shown g x k rs" using ok by (auto simp: gift_ok_def redemptions_ok_def)
    then have "\<not> (k = ap_reservationId i \<and> rs = ap_restaurantId i)" using r(2,3) by (auto simp: shown_def snap_of_def)
    then show "snap_of g' k rs = snap_of g k rs" using f(3) [of k rs] id by (auto split: if_splits)
  qed
  then show ?thesis using f(2) by simp
qed

section \<open>Runs\<close>

text \<open>Any operation on cards, and anything else that leaves cards, redemptions and the snapshots of
  debited reservations alone. Ids are not empty and nothing of a negative amount is issued.\<close>

inductive gift_step :: "gift_db \<Rightarrow> gift_db \<Rightarrow> bool" where
  gs_create: "createCard e i g = (g', out) \<Longrightarrow> \<forall>k. calm_gift (ie_race e k) \<and> ie_id e k \<noteq> [] \<Longrightarrow>
    \<forall>a. card_amount g i = Inr a \<longrightarrow> 0 \<le> a \<Longrightarrow> gift_step g g'"
| gs_associate: "associateToReservation ai now race g = (g', out2) \<Longrightarrow> calm_gift race \<Longrightarrow> gift_step g g'"
| gs_apply: "applyToReservation ai newId now race g = (g', out2) \<Longrightarrow> calm_gift race \<Longrightarrow>
    ap_reservationId ai \<noteq> [] \<Longrightarrow> gift_step g g'"
| gs_debit: "debit di newId now g = (g', out3) \<Longrightarrow> gift_step g g'"
| gs_other: "g_cards g' = g_cards g \<Longrightarrow> g_redemptions g' = g_redemptions g \<Longrightarrow>
    \<forall>x \<in> set (g_redemptions g). \<forall>i rs. redeems x i rs \<longrightarrow> snap_of g' i rs = snap_of g i rs \<Longrightarrow> gift_step g g'"

lemma giftCardAmountCents_ok: "giftCardAmountCents a = Inr cents \<Longrightarrow> of_int cents = a * 100 \<and> 0 < a"
  by (auto simp: giftCardAmountCents_def Let_def split: if_splits)

lemma gift_ok_step:
  assumes "gift_step g g'" "gift_ok g"
  shows "gift_ok g' \<and> (\<exists>ys. g_redemptions g' = g_redemptions g @ ys)"
  using assms
proof (induction rule: gift_step.induct)
  case (gs_create e i g g' out)
  show ?case
  proof (cases "card_amount g i")
    case (Inr a)
    have "create_loop e i a 0 3 g = (g', out)" using gs_create(1) Inr by (simp add: createCard_def)
    from gift_ok_create_loop [OF _ _ _ gs_create(4) this] gs_create(2,3) Inr show ?thesis by blast
  qed (use gs_create in \<open>simp add: createCard_def\<close>)
next
  case (gs_associate ai now race g g' out2)
  have r: "gift_ok (race g)" "\<exists>ys. g_redemptions (race g) = g_redemptions g @ ys"
    using gs_associate(2,3) by (auto simp: calm_gift_def)
  from gs_associate(1) gift_ok_associate_tx [OF r(1)] r gs_associate(3) show ?case
    by (auto simp: associateToReservation_def in_tx_def split: sum.splits)
next
  case (gs_apply ai newId now race g g' out2)
  have r: "gift_ok (race g)" "\<exists>ys. g_redemptions (race g) = g_redemptions g @ ys"
    using gs_apply(2,4) by (auto simp: calm_gift_def)
  consider "g' = g" | c where "in_tx (apply_tx ai c newId now) (race g) = (g', out2)" "0 < ap_reservationAmount ai"
    using gs_apply(1) giftCardAmountCents_ok
    unfolding applyToReservation_def Let_def by (auto split: sum.splits option.splits if_splits)
  then show ?case
  proof cases
    case 1
    then show ?thesis using gs_apply(4) by simp
  next
    case (2 c)
    show ?thesis
    proof (cases "apply_tx ai c newId now (race g)")
      case (Inl err)
      then show ?thesis using 2 r by (simp add: in_tx_def)
    next
      case (Inr p)
      then obtain res where "apply_tx ai c newId now (race g) = Inr (g', res)" using 2 by (auto simp: in_tx_def split: prod.splits)
      from gift_ok_apply_tx [OF r(1) this 2(2) gs_apply(3)] r(2) show ?thesis by auto
    qed
  qed
next
  case (gs_debit di newId now g g' out3)
  then show ?case using gift_ok_debit_tx giftCardAmountCents_ok
    unfolding debit_def in_tx_def by (fastforce split: if_splits sum.splits)
next
  case (gs_other g' g)
  then show ?case using gift_ok_frame by auto
qed

lemma gift_ok_run:
  "gift_step\<^sup>*\<^sup>* g g' \<Longrightarrow> gift_ok g \<Longrightarrow> gift_ok g' \<and> (\<exists>ys. g_redemptions g' = g_redemptions g @ ys)"
proof (induction rule: rtranclp_induct)
  case (step y z)
  then show ?case using gift_ok_step [OF step(2)] by auto
qed simp


definition sample_card :: card_row where
  "sample_card = \<lparr>gc_id = ''c1'', gc_restaurantId = ''r'', gc_code = ''code'', gc_shortCode = Some ''SKR-AAAA-AA'',
     gc_amount = 50, gc_remainingAmount = 50, gc_currency = ''EUR'', gc_status = G_ACTIVE, gc_expiresAt = None,
     gc_validityMonths = 12, gc_packId = None, gc_type = SINGLE, gc_closedAt = None,
     gc_stripePaymentIntentId = None, gc_stripePaymentStatus = None\<rparr>"

definition gift_sample :: gift_db where
  "gift_sample = \<lparr>g_db = empty_db\<lparr>reservations := [sample_reservation]\<rparr>, g_cards = [sample_card], g_packs = [],
     g_redemptions = []\<rparr>"

definition sample_debit :: debit_input where
  "sample_debit = \<lparr>de_restaurantId = ''r'', de_giftCardId = ''c1'', de_billAmount = 30 + 1 / 2,
     de_ticketReference = '' t-1 '', de_reservationId = Some (r_id sample_reservation), de_idempotencyKey = ''k'',
     de_actor = ''pos''\<rparr>"

lemma gift_ok_sample: "gift_ok gift_sample"
  by (simp add: gift_ok_def cards_ok_def redemptions_ok_def gift_sample_def sample_card_def redeemed_def table_ok_def)

lemma debit_sample:
  obtains g1 rc where "debit sample_debit ''x1'' 0 gift_sample = (g1, Inr rc)"
    "rc_appliedAmount rc = 30 + 1 / 2" "rc_remainingAmount rc = 19 + 1 / 2" "length (g_redemptions g1) = 1"
proof -
  obtain g1 out where run: "debit sample_debit ''x1'' 0 gift_sample = (g1, out)" by fastforce
  have "case snd (debit sample_debit ''x1'' 0 gift_sample) of Inl _ \<Rightarrow> False
      | Inr rc \<Rightarrow> rc_appliedAmount rc = 30 + 1 / 2 \<and> rc_remainingAmount rc = 19 + 1 / 2"
    "length (g_redemptions (fst (debit sample_debit ''x1'' 0 gift_sample))) = 1"
    by (code_simp, code_simp)
  then show thesis using run that by (auto split: sum.splits)
qed


text \<open>The debit a request finds again, and what it takes to be replayed.\<close>

definition recorded :: "debit_input \<Rightarrow> receipt \<Rightarrow> gift_db \<Rightarrow> bool" where
  "recorded i rc g \<longleftrightarrow> (\<exists>x. find (same_operation i) (g_redemptions g) = Some x \<and>
     rd_giftCardId x = de_giftCardId i \<and> rd_billAmount x = Some (de_billAmount i) \<and>
     rd_reservationId x = de_reservationId i \<and> rd_ticketReference x = Some (ticketOf i) \<and> receipt_of x = Inr rc)"

lemma recorded_later:
  assumes "recorded i rc g" "g_redemptions g' = g_redemptions g @ ys"
  shows "recorded i rc g'"
  using assms by (auto simp: recorded_def find_append)

lemma recorded_replay:
  assumes "recorded i rc g" "giftCardAmountCents (de_billAmount i) = Inr cents"
    "ticketOf i \<noteq> []" "length (ticketOf i) \<le> 64"
  shows "debit i newId now g = (g, Inr rc)"
  using assms by (auto simp: recorded_def debit_def debit_tx_def in_tx_def)

lemma debit_okE:
  assumes "debit i newId now g = (g', Inr rc)"
  obtains cents where "giftCardAmountCents (de_billAmount i) = Inr cents" "ticketOf i \<noteq> []" "length (ticketOf i) \<le> 64"
    "debit_tx i cents newId now g = Inr (g', rc)"
  using assms by (auto simp: debit_def in_tx_def split: if_splits sum.splits prod.splits)

lemma debit_tx_recorded:
  assumes run: "debit_tx i cents newId now g = Inr (g1, rc)" and bill: "of_int cents = de_billAmount i * 100"
  shows "recorded i rc g1 \<and> (g1 = g \<or> (\<exists>c x. c \<in> set (g_cards g) \<and> gc_id c = de_giftCardId i \<and> debitable c now \<and>
       g_redemptions g1 = g_redemptions g @ [x] \<and> receipt_of x = Inr rc \<and>
       rd_amount x = min (gc_remainingAmount c) (de_billAmount i) \<and> rd_billAmount x = Some (de_billAmount i) \<and>
       rc_remainingAmount rc = gc_remainingAmount c - rd_amount x \<and> rc_complementAmount rc = de_billAmount i - rd_amount x))"
proof (cases "find (same_operation i) (g_redemptions g)")
  case (Some x)
  then show ?thesis using run
    by (auto simp: debit_tx_def recorded_def split: if_splits elim!: ebind_InrE)
next
  case None
  obtain c where c: "find (\<lambda>c. gc_id c = de_giftCardId i \<and> gc_restaurantId c = de_restaurantId i) (g_cards g) = Some c"
    "debitable c now" "debit_write i (gc_id c) (gc_remainingAmount c) (of_int cents / 100) newId now g = Inr (g1, rc)"
    using run None by (auto simp: debit_tx_def split: option.splits if_splits elim!: ebind_InrE)
  have in_c: "c \<in> set (g_cards g)" "gc_id c = de_giftCardId i" using find_Some_D [OF c(1)] by auto
  have bill': "of_int cents / 100 = de_billAmount i" using bill by simp
  obtain x s where x: "debited g (gc_id c) (de_restaurantId i) (gc_remainingAmount c) x s g1"
    "rd_amount x = min (gc_remainingAmount c) (de_billAmount i)" "rd_reservationId x = de_reservationId i"
    "receipt_of x = Inr rc" "rd_operationKey x = Some (operationKey i)" "rd_ticketReference x = Some (ticketOf i)"
    "rd_billAmount x = Some (de_billAmount i)"
    using debit_write_debited [OF c(3)] unfolding bill' by blast
  have red: "g_redemptions g1 = g_redemptions g @ [x]" "rd_giftCardId x = gc_id c" using x(1) by (simp_all add: debited_def)
  have "recorded i rc g1"
    using None x in_c(2) by (auto simp: recorded_def red find_append same_operation_def)
  moreover have "rc_remainingAmount rc = gc_remainingAmount c - rd_amount x \<and> rc_complementAmount rc = de_billAmount i - rd_amount x"
    using c(3) x(2) unfolding bill' by (auto simp: debit_write_def receipt_of_def Let_def elim!: ebind_InrE)
  ultimately show ?thesis using in_c c(2) red x by blast
qed

text \<open>
  A ticket is debited once: a debit that succeeds took the smaller of the bill and the balance from an
  active card, or answered the debit already recorded for that key and ticket without a write; and the
  same request sent again, at any later time and after whatever other operations, answers the same
  receipt and changes nothing.
\<close>

lemma one_ticket_one_debit:
  assumes "debit i newId now g = (g1, Inr rc)" "gift_ok g" "gift_step\<^sup>*\<^sup>* g1 g2"
  shows "debit i newId' now' g2 = (g2, Inr rc) \<and>
    (g1 = g \<or> (\<exists>c x. c \<in> set (g_cards g) \<and> gc_id c = de_giftCardId i \<and> debitable c now \<and>
       g_redemptions g1 = g_redemptions g @ [x] \<and> receipt_of x = Inr rc \<and>
       rc_appliedAmount rc = min (gc_remainingAmount c) (de_billAmount i) \<and>
       rc_remainingAmount rc = gc_remainingAmount c - rc_appliedAmount rc \<and>
       rc_complementAmount rc = de_billAmount i - rc_appliedAmount rc))"
proof -
  obtain cents where c: "giftCardAmountCents (de_billAmount i) = Inr cents" "ticketOf i \<noteq> []"
    "length (ticketOf i) \<le> 64" "debit_tx i cents newId now g = Inr (g1, rc)"
    using debit_okE [OF assms(1)] by blast
  note r = debit_tx_recorded [OF c(4) conjunct1 [OF giftCardAmountCents_ok [OF c(1)]]]
  have "gift_ok g1" using gift_ok_step [OF gs_debit [OF assms(1)] assms(2)] by blast
  then obtain ys where "g_redemptions g2 = g_redemptions g1 @ ys" using gift_ok_run [OF assms(3)] by blast
  then have "recorded i rc g2" using recorded_later r by blast
  from recorded_replay [OF this c(1-3)] r show ?thesis
    by (fastforce simp: receipt_of_def split: option.splits)
qed

lemma one_ticket_one_debit_witness:
  "\<exists>g1 rc. debit sample_debit ''x1'' 0 gift_sample = (g1, Inr rc) \<and> g1 \<noteq> gift_sample \<and>
     rc_remainingAmount rc = 19 + 1 / 2 \<and> debit sample_debit ''x2'' 5 g1 = (g1, Inr rc)"
proof -
  obtain g1 rc where run: "debit sample_debit ''x1'' 0 gift_sample = (g1, Inr rc)"
    "rc_remainingAmount rc = 19 + 1 / 2" "length (g_redemptions g1) = 1"
    by (rule debit_sample) blast
  moreover have "g1 \<noteq> gift_sample" using run(3) by (auto simp: gift_sample_def)
  ultimately show ?thesis
    using one_ticket_one_debit [OF run(1) gift_ok_sample rtranclp.rtrancl_refl, of "''x2''" 5] by blast
qed

text \<open>\<open>giftCardAmountCents\<close> accepts whole cents up to
  999 999.99 and nothing else.\<close>

lemma amounts_accepted:
  "giftCardAmountCents (1 / 100) = Inr 1" "giftCardAmountCents (99999999 / 100) = Inr 99999999"
  "giftCardAmountCents (1 / 200) = Inl InvalidAmount" "giftCardAmountCents 0 = Inl InvalidAmount"
  "giftCardAmountCents 1000000 = Inl InvalidAmount"
  by (code_simp, code_simp, code_simp, code_simp, code_simp)

text \<open>The debit of a reservation does not look at its status: a cancelled one is debited, which the debit
  by ticket refuses.\<close>

lemma cancelled_reservation_can_be_debited:
  "let g = gift_sample\<lparr>g_db := empty_db\<lparr>reservations := [sample_reservation\<lparr>r_state := CANCELLED,
         r_status := St_CANCELLED\<rparr>]\<rparr>\<rparr>;
       i = \<lparr>ap_code = ''code'', ap_restaurantId = ''r'', ap_reservationId = ''b1'', ap_reservationAmount = 20, ap_actor = None\<rparr>
   in map_sum id gs_appliedAmount (snd (applyToReservation i ''x'' 0 (\<lambda>g. g) g)) = Inr 20 \<and>
      snd (debit sample_debit ''x'' 0 g) = Inl ReservationClosed"
  by code_simp

end
