(* ===== verification/Customer_Lifecycle.thy ===== *)
theory Customer_Lifecycle
  imports Db
begin

text \<open>
  The visits of a customer and the status computed from them
  (\<open>modules/customers/customer-lifecycle.ts\<close>), with the cache in Redis that keeps a computed value
  under the revision of the customer (\<open>customer_visit_cache_revisions\<close>, written by a trigger). Dates are
  milliseconds; the median interval is the exact quotient, where the code rounds to a double. The
  French explanation of a status is the datatype \<open>reason\<close>, one constructor per sentence.
\<close>

section \<open>Visits\<close>

text \<open>\<open>LIFECYCLE_THRESHOLDS\<close>.\<close>

abbreviation (input) regularWindowDays :: int where "regularWindowDays \<equiv> 90"
abbreviation (input) regularMinVisits :: nat where "regularMinVisits \<equiv> 3"
abbreviation (input) rhythmMinVisits :: nat where "rhythmMinVisits \<equiv> 3"
abbreviation (input) atRiskIntervalMultiplier :: rat where "atRiskIntervalMultiplier \<equiv> 2"
abbreviation (input) atRiskMinGapDays :: int where "atRiskMinGapDays \<equiv> 45"
abbreviation (input) dormantAfterDays :: int where "dormantAfterDays \<equiv> 180"
abbreviation (input) newMaxVisits :: nat where "newMaxVisits \<equiv> 1"
abbreviation (input) noShowWindowDays :: int where "noShowWindowDays \<equiv> 365"

record lifecycle_reservation =
  lr_state :: reservation_state
  lr_status :: "reservation_status option"
  lr_startsAt :: "instant option"
  lr_reservedAt :: instant

record visit_stats =
  vs_visitDates :: "instant list"
  vs_noShows365d :: nat

definition lr_date :: "lifecycle_reservation \<Rightarrow> instant" where
  "lr_date r = orElse (lr_startsAt r) (lr_reservedAt r)"

definition isPastVisitState :: "reservation_state \<Rightarrow> bool" where
  "isPastVisitState s \<longleftrightarrow> s \<in> {HONORED, SEATED, CONFIRMED}"

fun summarize_loop :: "instant \<Rightarrow> instant \<Rightarrow> instant list \<Rightarrow> nat \<Rightarrow> lifecycle_reservation list \<Rightarrow> instant list \<times> nat" where
  "summarize_loop now since dates n [] = (dates, n)"
| "summarize_loop now since dates n (r # rs) =
     (if lr_date r \<ge> now then summarize_loop now since dates n rs
      else if lr_state r = NO_SHOW \<or> lr_status r = Some St_NO_SHOW then
        summarize_loop now since dates (if lr_date r \<ge> since then n + 1 else n) rs
      else if lr_status r \<in> {Some St_CANCELLED, Some St_NO_SHOW} then summarize_loop now since dates n rs
      else if isPastVisitState (lr_state r) then summarize_loop now since (dates @ [lr_date r]) n rs
      else summarize_loop now since dates n rs)"

definition summarizeLifecycleReservations :: "lifecycle_reservation list \<Rightarrow> instant \<Rightarrow> visit_stats" where
  "summarizeLifecycleReservations rs now =
     (case summarize_loop now (now - noShowWindowDays * DAY_MS) [] 0 rs of
        (dates, n) \<Rightarrow> \<lparr>vs_visitDates = js_sort (\<lambda>a b. a - b) dates, vs_noShows365d = n\<rparr>)"

record visit_summary =
  sm_visits :: nat
  sm_visits365d :: nat
  sm_noShows365d :: nat
  sm_lastVisitAt :: "instant option"

definition last_opt :: "'a list \<Rightarrow> 'a option" where
  "last_opt xs = (if xs = [] then None else Some (last xs))"

definition summarizeVisits :: "visit_stats \<Rightarrow> instant \<Rightarrow> visit_summary" where
  "summarizeVisits stats now =
     (let since365 = now - noShowWindowDays * DAY_MS
      in \<lparr>sm_visits = length (vs_visitDates stats),
          sm_visits365d = length (filter (\<lambda>date. date \<ge> since365) (vs_visitDates stats)),
          sm_noShows365d = vs_noShows365d stats,
          sm_lastVisitAt = last_opt (vs_visitDates stats)\<rparr>)"

section \<open>The status of a customer\<close>

datatype lifecycle_status = L_NEW | L_ACTIVE | L_REGULAR | L_AT_RISK | L_DORMANT

datatype elapsed = LessThanOneDay | Days int | Weeks int | Months int
datatype rhythm = EveryWeek | EveryTwoWeeks | EveryMonth | EveryMonths int

datatype reason =
  NoVisitYet
| LastVisitAgo elapsed "rhythm option"
| VisitsInWindow nat
| FirstVisitAgo elapsed
| VisitsLastAgo nat elapsed

record customer_lifecycle =
  cl_status :: lifecycle_status
  cl_reason :: reason

definition elapsedLabel :: "int \<Rightarrow> elapsed" where
  "elapsedLabel days =
     (if days < 1 then LessThanOneDay else if days < 14 then Days days
      else if days < 60 then Weeks (days div 7) else Months (days div 30))"

definition rhythmLabel :: "rat \<Rightarrow> rhythm" where
  "rhythmLabel intervalDays =
     (if intervalDays \<le> 10 then EveryWeek else if intervalDays \<le> 20 then EveryTwoWeeks
      else if intervalDays \<le> 45 then EveryMonth else EveryMonths \<lfloor>intervalDays / 30 + 1 / 2\<rfloor>)"

definition rat_cmp :: "rat \<Rightarrow> rat \<Rightarrow> int" where
  "rat_cmp a b = (if a < b then -1 else if a = b then 0 else 1)"

definition medianIntervalDays :: "instant list \<Rightarrow> rat" where
  "medianIntervalDays visits =
     (let gaps = js_sort rat_cmp (map2 (\<lambda>a b. of_int (b - a) / of_int DAY_MS) visits (tl visits));
          middle = length gaps div 2
      in if length gaps mod 2 = 1 then gaps ! middle else (gaps ! (middle - 1) + gaps ! middle) / 2)"

definition computeCustomerLifecycle :: "instant list \<Rightarrow> instant \<Rightarrow> customer_lifecycle" where
  "computeCustomerLifecycle visitDates now =
     (let visits = js_sort (\<lambda>a b. a - b) (filter (\<lambda>date. date < now) visitDates) in
      if visits = [] then \<lparr>cl_status = L_NEW, cl_reason = NoVisitYet\<rparr>
      else
        let daysSinceLast = (now - last visits) div DAY_MS;
            interval = (if length visits \<ge> rhythmMinVisits then Some (medianIntervalDays visits) else None);
            habit = map_option rhythmLabel interval;
            recentVisits = length (filter (\<lambda>date. date \<ge> now - regularWindowDays * DAY_MS) visits)
        in if daysSinceLast > dormantAfterDays then
             \<lparr>cl_status = L_DORMANT, cl_reason = LastVisitAgo (elapsedLabel daysSinceLast) habit\<rparr>
           else if (case interval of None \<Rightarrow> False
                    | Some x \<Rightarrow> daysSinceLast > atRiskMinGapDays \<and>
                        of_int daysSinceLast > x * atRiskIntervalMultiplier) then
             \<lparr>cl_status = L_AT_RISK, cl_reason = LastVisitAgo (elapsedLabel daysSinceLast) habit\<rparr>
           else if recentVisits \<ge> regularMinVisits then
             \<lparr>cl_status = L_REGULAR, cl_reason = VisitsInWindow recentVisits\<rparr>
           else if length visits \<le> newMaxVisits then
             \<lparr>cl_status = L_NEW, cl_reason = FirstVisitAgo (elapsedLabel daysSinceLast)\<rparr>
           else \<lparr>cl_status = L_ACTIVE, cl_reason = VisitsLastAgo (length visits) (elapsedLabel daysSinceLast)\<rparr>)"

text \<open>A customer who never comes back ends dormant, and stays so.\<close>

lemma no_return_ends_dormant:
  assumes "ds \<noteq> []" "\<forall>d \<in> set ds. d + 181 * DAY_MS \<le> now"
  shows "cl_status (computeCustomerLifecycle ds now) = L_DORMANT"
proof -
  define vs where "vs = js_sort (\<lambda>a b. a - b) (filter (\<lambda>d. d < now) ds)"
  have "filter (\<lambda>d. d < now) ds = ds" using assms(2) by (auto simp: filter_id_conv)
  then have vs: "set vs = set ds" by (simp add: vs_def)
  with assms(1) have ne: "vs \<noteq> []" by auto
  with vs have "last vs + 181 * DAY_MS \<le> now" using assms(2) last_in_set by blast
  then have "181 * DAY_MS div DAY_MS \<le> (now - last vs) div DAY_MS" by (intro zdiv_mono1) auto
  then have "(now - last vs) div DAY_MS > dormantAfterDays" by simp
  with ne show ?thesis
    unfolding computeCustomerLifecycle_def Let_def vs_def [symmetric] by simp
qed

section \<open>What the voice agent knows\<close>

text \<open>\<open>summarizeVisitHistory\<close> (\<open>customer-voice-profile.ts\<close>): the same visits, read for a caller.\<close>

record history_row =
  hr_state :: reservation_state
  hr_startsAt :: "instant option"
  hr_reservedAt :: instant
  hr_partySize :: int

record visit_history =
  vh_pastVisits :: nat
  vh_lastVisitAt :: "instant option"
  vh_upcoming :: "(instant \<times> int) option"
  vh_typicalPartySize :: "int option"

definition party_median :: "int list \<Rightarrow> int option" where
  "party_median values =
     (let sorted = js_sort (\<lambda>a b. a - b) (filter (\<lambda>v. v > 0) values); middle = length sorted div 2 in
      if sorted = [] then None
      else Some (if length sorted mod 2 = 1 then sorted ! middle
                 else round_div (sorted ! (middle - 1) + sorted ! middle) 2))"

definition hr_date :: "history_row \<Rightarrow> instant" where
  "hr_date r = orElse (hr_startsAt r) (hr_reservedAt r)"

definition later :: "instant option \<Rightarrow> instant \<Rightarrow> instant option" where
  "later prev date = (case prev of None \<Rightarrow> Some date | Some l \<Rightarrow> if date > l then Some date else Some l)"

fun history_loop :: "instant \<Rightarrow> int list \<Rightarrow> instant option \<Rightarrow> (instant \<times> int) option \<Rightarrow> history_row list \<Rightarrow>
    int list \<times> instant option \<times> (instant \<times> int) option" where
  "history_loop now sizes prev up [] = (sizes, prev, up)"
| "history_loop now sizes prev up (r # rs) =
     (if hr_date r < now then
        if \<not> isPastVisitState (hr_state r) then history_loop now sizes prev up rs
        else history_loop now (sizes @ [hr_partySize r]) (later prev (hr_date r)) up rs
      else if hr_state r \<in> {PENDING, CONFIRMED} \<and> (case up of None \<Rightarrow> True | Some (u, _) \<Rightarrow> hr_date r < u)
      then history_loop now sizes prev (Some (hr_date r, hr_partySize r)) rs
      else history_loop now sizes prev up rs)"

definition summarizeVisitHistory :: "history_row list \<Rightarrow> instant \<Rightarrow> visit_history" where
  "summarizeVisitHistory rows now =
     (case history_loop now [] None None rows of (sizes, prev, up) \<Rightarrow>
        \<lparr>vh_pastVisits = length sizes, vh_lastVisitAt = prev, vh_upcoming = up,
         vh_typicalPartySize = party_median sizes\<rparr>)"

section \<open>Reading the reservations\<close>

text \<open>
  The rows of a customer in a restaurant. Bulk reads of reservations leave test reservations out
  (\<open>shared/db/test-reservation-scope.ts\<close>), and an empty customer id is skipped.
\<close>

definition lifecycle_rows :: "db \<Rightarrow> id \<Rightarrow> id \<Rightarrow> lifecycle_reservation list" where
  "lifecycle_rows d restaurantId customerId =
     map (\<lambda>r. \<lparr>lr_state = r_state r, lr_status = Some (r_status r), lr_startsAt = r_startsAt r,
               lr_reservedAt = r_reservedAt r\<rparr>)
       (filter (\<lambda>r. r_restaurantId r = restaurantId \<and> r_customerId r = Some customerId \<and> customerId \<noteq> [] \<and>
                    \<not> r_isTest r) (reservations d))"

definition loadCustomerVisitStats :: "id \<Rightarrow> id list \<Rightarrow> instant \<Rightarrow> db \<Rightarrow> id \<rightharpoonup> visit_stats" where
  "loadCustomerVisitStats restaurantId ids now d =
     (\<lambda>c. if c \<in> set ids then Some (summarizeLifecycleReservations (lifecycle_rows d restaurantId c) now)
          else None)"

record computed_visits =
  cv_lifecycle :: customer_lifecycle
  cv_summary :: visit_summary

definition computed :: "lifecycle_reservation list \<Rightarrow> instant \<Rightarrow> computed_visits" where
  "computed rows now =
     (let stats = summarizeLifecycleReservations rows now
      in \<lparr>cv_lifecycle = computeCustomerLifecycle (vs_visitDates stats) now,
          cv_summary = summarizeVisits stats now\<rparr>)"

section \<open>The cache\<close>

text \<open>
  The time up to which a value computed at \<open>current\<close> may be served: five minutes, or the next moment at
  which one of the thresholds can change it.
\<close>

definition consider_time :: "instant \<Rightarrow> instant \<Rightarrow> instant \<Rightarrow> instant" where
  "consider_time current validUntil time = (if time > current then min validUntil time else validUntil)"

definition consider_row :: "instant \<Rightarrow> instant \<Rightarrow> lifecycle_reservation \<Rightarrow> instant" where
  "consider_row current validUntil r =
     (let time = lr_date r in
      consider_time current
        (consider_time current (consider_time current validUntil (time + 1))
          (time + regularWindowDays * DAY_MS + 1))
        (time + noShowWindowDays * DAY_MS + 1))"

definition valid_until :: "lifecycle_reservation list \<Rightarrow> instant \<Rightarrow> instant" where
  "valid_until rows current =
     (let v = foldl (consider_row current) (current + 300000) rows
      in case last_opt (vs_visitDates (summarizeLifecycleReservations rows current)) of
           None \<Rightarrow> v
         | Some l \<Rightarrow> consider_time current v (l + ((current - l) div DAY_MS + 1) * DAY_MS))"

text \<open>A cached string is an entry of the expected shape or one that does not parse as such.\<close>

record visit_entry =
  ve_value :: computed_visits
  ve_computedAt :: instant
  ve_validUntil :: instant

datatype cached_visits = Malformed | Entry visit_entry

text \<open>
  The state: the reservations, the restaurant of each customer, the revision of each customer (0 when
  there is no row), the values the sequence has handed out, the cache by restaurant, customer and
  revision.
\<close>

record visit_state =
  vz_db :: db
  vz_home :: "id \<Rightarrow> id option"
  vz_version :: "id \<Rightarrow> nat"
  vz_used :: "nat list"
  vz_cache :: "id \<times> id \<times> nat \<Rightarrow> cached_visits option"

definition revision :: "visit_state \<Rightarrow> id \<Rightarrow> id \<Rightarrow> nat" where
  "revision s restaurantId c = (if vz_home s c = Some restaurantId then vz_version s c else 0)"

definition cached_value :: "instant \<Rightarrow> cached_visits option \<Rightarrow> computed_visits option" where
  "cached_value now v = (case v of
       Some (Entry e) \<Rightarrow> if ve_computedAt e > now \<or> ve_validUntil e \<le> now then None else Some (ve_value e)
     | _ \<Rightarrow> None)"

text \<open>
  What happens around a call: whether the revisions or the cache can be read, which entries the
  pipeline stores, and what others commit before the cache is read, before the reservations are read
  and before the entries are stored (evictions included).
\<close>

record visit_env =
  le_revisionsRead :: bool
  le_mgetAnswers :: bool
  le_stored :: "id \<Rightarrow> bool"
  le_race1 :: "visit_state \<Rightarrow> visit_state"
  le_race2 :: "visit_state \<Rightarrow> visit_state"
  le_race3 :: "visit_state \<Rightarrow> visit_state"

definition put_entries :: "id \<Rightarrow> (id \<Rightarrow> nat) \<Rightarrow> (id \<Rightarrow> lifecycle_reservation list) \<Rightarrow> instant \<Rightarrow> id list \<Rightarrow>
    visit_state \<Rightarrow> visit_state" where
  "put_entries restaurantId ver rows now cs s =
     foldl (\<lambda>s c. s\<lparr>vz_cache := (vz_cache s)((restaurantId, c, ver c) \<mapsto>
         Entry \<lparr>ve_value = computed (rows c) now, ve_computedAt = now, ve_validUntil = valid_until (rows c) now\<rparr>)\<rparr>)
       s cs"

definition loadComputedCustomerVisits :: "visit_env \<Rightarrow> id \<Rightarrow> id list \<Rightarrow> instant \<Rightarrow> visit_state \<Rightarrow>
    visit_state \<times> (id \<rightharpoonup> computed_visits)" where
  "loadComputedCustomerVisits e restaurantId ids now s =
     (if ids = [] then (s, Map.empty)
      else
        let ver = revision s restaurantId;
            s1 = le_race1 e s;
            cached = (\<lambda>c. vz_cache s1 (restaurantId, c, ver c));
            usable = (le_revisionsRead e \<and> le_mgetAnswers e \<and> (\<forall>c \<in> set ids. cached c \<noteq> Some Malformed));
            hits = (\<lambda>c. if usable \<and> c \<in> set ids then cached_value now (cached c) else None);
            missing = filter (\<lambda>c. hits c = None) (remdups ids)
        in if missing = [] then (s1, hits)
           else
             let s2 = le_race2 e s1;
                 rows = lifecycle_rows (vz_db s2) restaurantId;
                 s3 = le_race3 e s2
             in (if usable then put_entries restaurantId ver rows now (filter (le_stored e) missing) s3 else s3,
                 (\<lambda>c. if c \<in> set missing then Some (computed (rows c) now) else hits c)))"

section \<open>The trigger and the writers\<close>

text \<open>
  The customers whose revision a written row moves: those of the old and of the new row, unless the row
  is a test, or no column the visits depend on changed.
\<close>

definition visit_columns :: "reservation_row \<Rightarrow> id option \<times> id \<times> reservation_state \<times> reservation_status \<times>
    instant option \<times> instant \<times> bool" where
  "visit_columns r = (r_customerId r, r_restaurantId r, r_state r, r_status r, r_startsAt r, r_reservedAt r, r_isTest r)"

definition affected_ids :: "reservation_row option \<Rightarrow> reservation_row option \<Rightarrow> id list" where
  "affected_ids old new =
     (let live = (\<lambda>v. case v of None \<Rightarrow> []
            | Some r \<Rightarrow> (case r_customerId r of Some c \<Rightarrow> if r_isTest r then [] else [c] | None \<Rightarrow> []))
      in if old \<noteq> None \<and> new \<noteq> None \<and> map_option visit_columns old = map_option visit_columns new then []
         else live old @ live new)"

definition invalidate_customer_visit_cache :: "(id \<Rightarrow> nat) \<Rightarrow> reservation_row option \<Rightarrow> reservation_row option \<Rightarrow>
    visit_state \<Rightarrow> visit_state" where
  "invalidate_customer_visit_cache nextval old new s =
     (let cs = affected_ids old new
      in s\<lparr>vz_version := (\<lambda>c. if c \<in> set cs then nextval c else vz_version s c),
           vz_used := map nextval cs @ vz_used s\<rparr>)"

text \<open>A row replaced, added or removed with its trigger: one transaction.\<close>

definition replace_row :: "(id \<Rightarrow> nat) \<Rightarrow> reservation_row list \<Rightarrow> reservation_row option \<Rightarrow> reservation_row option \<Rightarrow>
    reservation_row list \<Rightarrow> visit_state \<Rightarrow> visit_state" where
  "replace_row nextval xs old new ys s =
     invalidate_customer_visit_cache nextval old new
       (s\<lparr>vz_db := (vz_db s)\<lparr>reservations := xs @ (case new of None \<Rightarrow> [] | Some r \<Rightarrow> [r]) @ ys\<rparr>\<rparr>)"

text \<open>The sequence hands out each value once; a customer books in the restaurant it belongs to.\<close>

definition at_home :: "visit_state \<Rightarrow> reservation_row \<Rightarrow> bool" where
  "at_home s r \<longleftrightarrow> (\<forall>c. r_customerId r = Some c \<longrightarrow> vz_home s c = Some (r_restaurantId r))"

definition new_values :: "(id \<Rightarrow> nat) \<Rightarrow> id list \<Rightarrow> visit_state \<Rightarrow> bool" where
  "new_values nextval cs s \<longleftrightarrow> (\<forall>c \<in> set cs. nextval c \<noteq> 0 \<and> nextval c \<notin> set (vz_used s))"

text \<open>One state can become another while revisions and rows agree: where the revision is still the
  same so are the rows, and a changed revision is a value never used before.\<close>

definition rows_of :: "visit_state \<Rightarrow> id \<Rightarrow> id \<Rightarrow> lifecycle_reservation list" where
  "rows_of s rid c = lifecycle_rows (vz_db s) rid c"

definition known_value :: "visit_state \<Rightarrow> nat \<Rightarrow> bool" where
  "known_value s v \<longleftrightarrow> v = 0 \<or> v \<in> set (vz_used s)"

definition evolves :: "visit_state \<Rightarrow> visit_state \<Rightarrow> bool" where
  "evolves s t \<longleftrightarrow> set (vz_used s) \<subseteq> set (vz_used t) \<and>
     (\<forall>rid c. revision t rid c = revision s rid c \<and> rows_of t rid c = rows_of s rid c \<or>
              \<not> known_value s (revision t rid c))"

definition entry_ok :: "visit_state \<Rightarrow> id \<Rightarrow> id \<Rightarrow> nat \<Rightarrow> visit_entry \<Rightarrow> bool" where
  "entry_ok s rid c v e \<longleftrightarrow> known_value s v \<and>
     (v = revision s rid c \<longrightarrow>
       (\<forall>now. ve_computedAt e \<le> now \<and> now < ve_validUntil e \<longrightarrow> ve_value e = computed (rows_of s rid c) now))"

definition visits_ok :: "visit_state \<Rightarrow> bool" where
  "visits_ok s \<longleftrightarrow> (\<forall>r \<in> set (reservations (vz_db s)). at_home s r) \<and>
     (\<forall>c. known_value s (vz_version s c)) \<and>
     (\<forall>rid c v e. vz_cache s (rid, c, v) = Some (Entry e) \<longrightarrow> entry_ok s rid c v e)"

lemma evolves_refl [simp, intro]: "evolves s s"
  by (simp add: evolves_def)

lemma evolvesD:
  "evolves s t \<Longrightarrow> revision t rid c = revision s rid c \<and> rows_of t rid c = rows_of s rid c \<or>
     \<not> known_value s (revision t rid c)"
  by (simp add: evolves_def)

lemma evolves_known: "evolves s t \<Longrightarrow> known_value s v \<Longrightarrow> known_value t v"
  by (auto simp: evolves_def known_value_def)

lemma evolves_trans: "evolves s t \<Longrightarrow> evolves t u \<Longrightarrow> evolves s u"
  unfolding evolves_def known_value_def by (metis subset_iff)

lemma revision_known: "visits_ok s \<Longrightarrow> known_value s (revision s rid c)"
  by (auto simp: visits_ok_def revision_def known_value_def)

lemma entry_ok_evolves:
  assumes "entry_ok s rid c v e" "evolves s t"
  shows "entry_ok t rid c v e"
  using assms evolvesD [OF assms(2), of rid c] evolves_known [OF assms(2)]
  unfolding entry_ok_def by metis

section \<open>A served value is the computed one\<close>

lemma consider_time_le: "consider_time current v t \<le> v" "current < v \<Longrightarrow> current < consider_time current v t"
  "current < t \<Longrightarrow> consider_time current v t \<le> t"
  by (auto simp: consider_time_def)

lemma consider_row_le:
  "consider_row current v r \<le> v"
  "current < lr_date r + 1 \<Longrightarrow> consider_row current v r \<le> lr_date r + 1"
  "current < lr_date r + regularWindowDays * DAY_MS + 1 \<Longrightarrow>
     consider_row current v r \<le> lr_date r + regularWindowDays * DAY_MS + 1"
  "current < lr_date r + noShowWindowDays * DAY_MS + 1 \<Longrightarrow>
     consider_row current v r \<le> lr_date r + noShowWindowDays * DAY_MS + 1"
  by (auto simp: consider_row_def consider_time_def Let_def)

lemma consider_rows_le: "foldl (consider_row current) v rows \<le> v"
  by (induction rows arbitrary: v) (auto intro: order_trans consider_row_le(1))

lemma consider_rows_bound:
  assumes "r \<in> set rows" "\<And>v. consider_row current v r \<le> b"
  shows "foldl (consider_row current) v rows \<le> b"
  using assms by (induction rows arbitrary: v) (auto intro: order_trans [OF consider_rows_le])

lemma valid_until_le_rows: "valid_until rows current \<le> foldl (consider_row current) (current + 300000) rows"
  by (auto simp: valid_until_def Let_def consider_time_def split: option.splits)

text \<open>Between the computation and the end of validity no date crosses a threshold.\<close>

definition same_side :: "instant \<Rightarrow> instant \<Rightarrow> instant \<Rightarrow> bool" where
  "same_side current now date \<longleftrightarrow>
     (date < current \<longleftrightarrow> date < now) \<and>
     (date \<ge> current - regularWindowDays * DAY_MS \<longleftrightarrow> date \<ge> now - regularWindowDays * DAY_MS) \<and>
     (date \<ge> current - noShowWindowDays * DAY_MS \<longleftrightarrow> date \<ge> now - noShowWindowDays * DAY_MS)"

lemma valid_until_same_side:
  assumes "r \<in> set rows" "current \<le> now" "now < valid_until rows current"
  shows "same_side current now (lr_date r)"
proof -
  have below: "now < b" if "\<And>v. consider_row current v r \<le> b" for b
    using consider_rows_bound [OF assms(1) that] valid_until_le_rows [of rows current] assms(3)
    by (meson le_less_trans less_le_trans not_le)
  have "current < lr_date r + 1 \<Longrightarrow> now < lr_date r + 1"
    by (rule below) (rule consider_row_le(2))
  moreover have "current < lr_date r + regularWindowDays * DAY_MS + 1 \<Longrightarrow> now < lr_date r + regularWindowDays * DAY_MS + 1"
    by (rule below) (rule consider_row_le(3))
  moreover have "current < lr_date r + noShowWindowDays * DAY_MS + 1 \<Longrightarrow> now < lr_date r + noShowWindowDays * DAY_MS + 1"
    by (rule below) (rule consider_row_le(4))
  ultimately show ?thesis using assms(2) unfolding same_side_def by linarith
qed

lemma summarize_loop_same:
  assumes "\<forall>r \<in> set rows. same_side current now (lr_date r)"
  shows "summarize_loop now (now - noShowWindowDays * DAY_MS) ds n rows =
         summarize_loop current (current - noShowWindowDays * DAY_MS) ds n rows"
  using assms
proof (induction rows arbitrary: ds n)
  case (Cons r rows)
  have "lr_date r \<ge> now \<longleftrightarrow> lr_date r \<ge> current" using Cons.prems by (auto simp: same_side_def)
  then show ?case using Cons by (simp add: same_side_def)
qed simp

lemma summarize_loop_dates:
  "set (fst (summarize_loop now since ds n rows)) \<subseteq>
     set ds \<union> {lr_date r |r. r \<in> set rows \<and> lr_date r < now}"
proof (induction rows arbitrary: ds n)
  case (Cons r rows)
  have "set (fst (summarize_loop now since ds' n' rows)) \<subseteq>
      set ds \<union> {lr_date q |q. q \<in> set (r # rows) \<and> lr_date q < now}"
    if "set ds' \<subseteq> set ds \<union> {lr_date q |q. q \<in> set (r # rows) \<and> lr_date q < now}" for ds' n'
    using Cons.IH [of ds' n'] that by auto
  note keep = this
  have "set (fst (summarize_loop now since ds n' rows)) \<subseteq>
      set ds \<union> {lr_date q |q. q \<in> set (r # rows) \<and> lr_date q < now}" for n'
    by (rule keep) blast
  moreover have "lr_date r < now \<Longrightarrow> set (fst (summarize_loop now since (ds @ [lr_date r]) n rows)) \<subseteq>
      set ds \<union> {lr_date q |q. q \<in> set (r # rows) \<and> lr_date q < now}"
    by (rule keep) auto
  ultimately show ?case by (simp add: not_le)
qed simp

lemma visitDates_past:
  "d \<in> set (vs_visitDates (summarizeLifecycleReservations rows now)) \<Longrightarrow>
   d < now \<and> (\<exists>r \<in> set rows. lr_date r = d)"
  using summarize_loop_dates [of now "now - noShowWindowDays * DAY_MS" "[]" 0 rows]
  by (auto simp: summarizeLifecycleReservations_def split: prod.splits)

lemma summarize_same:
  "\<forall>r \<in> set rows. same_side current now (lr_date r) \<Longrightarrow>
   summarizeLifecycleReservations rows now = summarizeLifecycleReservations rows current"
  using summarize_loop_same [of rows current now "[]" 0] by (simp add: summarizeLifecycleReservations_def)

text \<open>The sort by dates.\<close>

lemma date_order: "refines_key (\<lambda>a b :: int. a - b) (\<lambda>x. x)"
  by (simp add: refines_key_def)

lemma js_sort_dates: "js_sort (\<lambda>a b :: int. a - b) xs = sort xs"
  using sorted_js_sort [OF date_order, of xs] by (intro properties_for_sort [symmetric]) auto

text \<open>
  The voice agent and the lists count the same visits, with the same last one, as long as no past row in
  a visit state carries a cancelled or no-show status: the voice agent does not read the status.
\<close>

definition voice_row :: "int \<Rightarrow> lifecycle_reservation \<Rightarrow> history_row" where
  "voice_row k r = \<lparr>hr_state = lr_state r, hr_startsAt = lr_startsAt r, hr_reservedAt = lr_reservedAt r,
     hr_partySize = k\<rparr>"

definition status_agrees :: "lifecycle_reservation \<Rightarrow> bool" where
  "status_agrees r \<longleftrightarrow> isPastVisitState (lr_state r) \<longrightarrow> lr_status r \<notin> {Some St_CANCELLED, Some St_NO_SHOW}"

definition max_opt :: "instant list \<Rightarrow> instant option" where
  "max_opt xs = (if xs = [] then None else Some (Max (set xs)))"

lemma later_max_opt: "later (max_opt xs) d = max_opt (xs @ [d])"
proof (cases "xs = []")
  case False
  then have "Max (set (xs @ [d])) = max d (Max (set xs))" by simp
  with False show ?thesis by (simp add: later_def max_opt_def max_def del: Max_less_iff)
qed (simp add: later_def max_opt_def)

lemma history_loop_visits:
  assumes "\<forall>r \<in> set rows. status_agrees r" "length sizes = length ds" "prev = max_opt ds"
  shows "case history_loop now sizes prev up (map (voice_row k) rows) of (sizes', prev', up') \<Rightarrow>
           length sizes' = length (fst (summarize_loop now since ds n rows)) \<and>
           prev' = max_opt (fst (summarize_loop now since ds n rows))"
  using assms
proof (induction rows arbitrary: sizes ds prev up n)
  case (Cons r rows)
  have "hr_date (voice_row k r) = lr_date r" "hr_state (voice_row k r) = lr_state r"
    by (simp_all add: hr_date_def lr_date_def voice_row_def)
  moreover have "lr_state r = NO_SHOW \<Longrightarrow> \<not> isPastVisitState (lr_state r)" by (simp add: isPastVisitState_def)
  ultimately show ?case
    using Cons.prems Cons.IH by (auto simp: later_max_opt status_agrees_def not_less)
qed simp

lemma last_sort_Max: "xs \<noteq> [] \<Longrightarrow> last (sort xs) = Max (set xs)" for xs :: "instant list"
proof -
  assume "xs \<noteq> []"
  then obtain ys y where s: "sort xs = ys @ [y]" by (metis rev_exhaust set_empty set_sort)
  then have "sorted (ys @ [y])" by (metis sorted_sort)
  then have "Max (set (ys @ [y])) = y" by (intro Max_eqI) (auto simp: sorted_append)
  then show ?thesis by (metis s last_snoc set_sort)
qed

lemma voice_counts_the_same_visits:
  assumes "\<forall>r \<in> set rows. status_agrees r"
  shows "vh_pastVisits (summarizeVisitHistory (map (voice_row k) rows) now) =
           length (vs_visitDates (summarizeLifecycleReservations rows now))"
    and "vh_lastVisitAt (summarizeVisitHistory (map (voice_row k) rows) now) =
           last_opt (vs_visitDates (summarizeLifecycleReservations rows now))"
proof -
  let ?l = "summarize_loop now (now - noShowWindowDays * DAY_MS) [] 0 rows"
  have dates: "vs_visitDates (summarizeLifecycleReservations rows now) = sort (fst ?l)"
    by (simp add: summarizeLifecycleReservations_def js_sort_dates split: prod.splits)
  have "last_opt (sort ds) = max_opt ds" for ds :: "instant list"
    using last_sort_Max [of ds] by (cases "ds = []") (auto simp: last_opt_def max_opt_def simp flip: set_empty)
  note same = this
  note loop = history_loop_visits [OF assms, where sizes = "[]" and ds = "[]" and prev = None and now = now
      and up = None and k = k and since = "now - noShowWindowDays * DAY_MS" and n = 0]
  show "vh_pastVisits (summarizeVisitHistory (map (voice_row k) rows) now) =
      length (vs_visitDates (summarizeLifecycleReservations rows now))"
    using loop by (auto simp: dates summarizeVisitHistory_def max_opt_def split: prod.splits)
  show "vh_lastVisitAt (summarizeVisitHistory (map (voice_row k) rows) now) =
      last_opt (vs_visitDates (summarizeLifecycleReservations rows now))"
    using loop unfolding dates same by (auto simp: summarizeVisitHistory_def max_opt_def split: prod.splits)
qed

lemma voice_counts_a_cancelled_visit:
  "let r = \<lparr>lr_state = CONFIRMED, lr_status = Some St_CANCELLED, lr_startsAt = None, lr_reservedAt = 10\<rparr> in
   vh_pastVisits (summarizeVisitHistory [voice_row 2 r] 20) = 1 \<and>
   vs_visitDates (summarizeLifecycleReservations [r] 20) = []"
  by code_simp

lemma visitDates_sorted: "sorted (vs_visitDates (summarizeLifecycleReservations rows now))"
  by (simp add: summarizeLifecycleReservations_def js_sort_dates split: prod.splits)

lemma div_window:
  fixes x k :: int
  assumes "0 < k"
  shows "x div k * k \<le> x" "x < (x div k + 1) * k"
    "x \<le> y \<Longrightarrow> y < (x div k + 1) * k \<Longrightarrow> y div k = x div k"
proof -
  have x: "x div k * k + x mod k = x" "0 \<le> x mod k" "x mod k < k" using assms by simp_all
  then show lo: "x div k * k \<le> x" by linarith
  from x have "x < x div k * k + k" by linarith
  then show "x < (x div k + 1) * k" by (simp add: distrib_right)
  assume y: "x \<le> y" "y < (x div k + 1) * k"
  then have "y - k * (x div k) < k" "0 \<le> y - k * (x div k)"
    using lo by (simp_all add: algebra_simps)
  then show "y div k = x div k" by (intro int_div_pos_eq [where r = "y - k * (x div k)"]) simp_all
qed

lemma valid_until_same_day:
  assumes "last_opt (vs_visitDates (summarizeLifecycleReservations rows current)) = Some l"
    and "current \<le> now" "now < valid_until rows current"
  shows "(now - l) div DAY_MS = (current - l) div DAY_MS"
proof (rule div_window(3))
  let ?m = "((current - l) div DAY_MS + 1) * DAY_MS"
  have "current - l < ?m" by (rule div_window(2)) simp
  then have "current < l + ?m" by simp
  from consider_time_le(3) [OF this] have "valid_until rows current \<le> l + ?m"
    by (simp add: valid_until_def Let_def assms(1))
  then show "now - l < ?m" using assms(3) by linarith
qed (use assms(2) in simp_all)

lemma last_opt_sort_filter:
  "sorted ds \<Longrightarrow> \<forall>d \<in> set ds. d < now \<Longrightarrow> js_sort (\<lambda>a b :: int. a - b) (filter (\<lambda>d. d < now) ds) = ds"
  by (simp add: js_sort_dates sorted_sort_id)

text \<open>The value computed at one moment is the value at every later moment before the end of its validity.\<close>

lemma computed_until:
  assumes "current \<le> now" "now < valid_until rows current"
  shows "computed rows now = computed rows current"
proof -
  let ?s = "summarizeLifecycleReservations rows current" let ?ds = "vs_visitDates ?s"
  have side: "\<forall>r \<in> set rows. same_side current now (lr_date r)"
    using valid_until_same_side assms by blast
  have sides: "\<forall>d \<in> set ?ds. same_side current now d"
    using side visitDates_past by blast
  have past: "\<forall>d \<in> set ?ds. d < current" "\<forall>d \<in> set ?ds. d < now"
    using visitDates_past sides by (blast, auto simp: same_side_def)
  have visits: "js_sort (\<lambda>a b. a - b) (filter (\<lambda>d. d < t) ?ds) = ?ds" if "t \<in> {current, now}" for t
    using that past by (auto intro: last_opt_sort_filter visitDates_sorted)
  have windows: "filter (\<lambda>d. d \<ge> now - regularWindowDays * DAY_MS) ?ds =
        filter (\<lambda>d. d \<ge> current - regularWindowDays * DAY_MS) ?ds"
      "filter (\<lambda>d. d \<ge> now - noShowWindowDays * DAY_MS) ?ds =
        filter (\<lambda>d. d \<ge> current - noShowWindowDays * DAY_MS) ?ds"
    using sides by (auto simp: same_side_def intro!: filter_cong)
  have days: "?ds \<noteq> [] \<Longrightarrow> (now - last ?ds) div DAY_MS = (current - last ?ds) div DAY_MS"
    by (rule valid_until_same_day [OF _ assms]) (simp add: last_opt_def)
  have "computeCustomerLifecycle ?ds now = computeCustomerLifecycle ?ds current"
  proof (cases "?ds = []")
    case False
    have v: "js_sort (\<lambda>a b. a - b) (filter (\<lambda>d. d < now) ?ds) = ?ds"
        "js_sort (\<lambda>a b. a - b) (filter (\<lambda>d. d < current) ?ds) = ?ds"
      by (rule visits; simp)+
    show ?thesis unfolding computeCustomerLifecycle_def Let_def v days [OF False] windows(1) by (rule refl)
  qed (simp add: computeCustomerLifecycle_def)
  moreover have "summarizeVisits ?s now = summarizeVisits ?s current"
    using windows(2) by (simp only: summarizeVisits_def Let_def)
  ultimately show ?thesis by (simp add: computed_def Let_def summarize_same [OF side])
qed

section \<open>The cache is always right\<close>

text \<open>What others commit at one moment: the cache stays right and revisions move only with rows.\<close>

definition calm_visits :: "(visit_state \<Rightarrow> visit_state) \<Rightarrow> visit_state \<Rightarrow> bool" where
  "calm_visits f s \<longleftrightarrow> visits_ok (f s) \<and> evolves s (f s)"

text \<open>An entry computed from rows read after its revision may be stored at any later moment.\<close>

lemma put_entry_ok:
  assumes ok: "visits_ok s0" "visits_ok s" and path: "evolves s0 t" "evolves t s" "evolves s0 s"
    and v: "v = revision s0 rid c"
    and s': "s' = s\<lparr>vz_cache := (vz_cache s)((rid, c, v) \<mapsto>
      Entry \<lparr>ve_value = computed (rows_of t rid c) now, ve_computedAt = now,
             ve_validUntil = valid_until (rows_of t rid c) now\<rparr>)\<rparr>"
  shows "visits_ok s'" "evolves s s'"
proof -
  have same: "revision s' = revision s" "rows_of s' = rows_of s" "known_value s' = known_value s"
    by (auto simp: s' revision_def rows_of_def known_value_def fun_eq_iff)
  show "evolves s s'" by (simp add: evolves_def same) (simp add: s')
  have rows: "rows_of s rid c = rows_of t rid c" if "v = revision s rid c"
  proof -
    have "known_value t (revision s rid c)"
      using that v evolves_known [OF path(1) revision_known [OF ok(1), of rid c]] by simp
    then show ?thesis using evolvesD [OF path(2)] by blast
  qed
  have entry: "entry_ok s rid c v \<lparr>ve_value = computed (rows_of t rid c) now, ve_computedAt = now,
      ve_validUntil = valid_until (rows_of t rid c) now\<rparr>"
    unfolding entry_ok_def
  proof (intro conjI impI allI)
    show "known_value s v" using evolves_known [OF path(3) revision_known [OF ok(1)]] v by simp
  qed (use rows computed_until in auto)
  have "entry_ok s rid' c' v' en" if "vz_cache s' (rid', c', v') = Some (Entry en)" for rid' c' v' en
    using that entry ok(2) by (cases "(rid', c', v') = (rid, c, v)") (auto simp: s' visits_ok_def)
  moreover have "entry_ok s' = entry_ok s" by (simp add: entry_ok_def same fun_eq_iff)
  ultimately show "visits_ok s'"
    using ok(2) by (simp add: visits_ok_def same) (simp add: s' at_home_def)
qed

lemma put_entries_ok:
  assumes "visits_ok s0" "visits_ok s" "evolves s0 t" "evolves t s"
  shows "visits_ok (put_entries rid (revision s0 rid) (rows_of t rid) now cs s) \<and>
         evolves s (put_entries rid (revision s0 rid) (rows_of t rid) now cs s)"
  using assms(2,4)
proof (induction cs arbitrary: s)
  case Nil
  then show ?case by (simp add: put_entries_def)
next
  case (Cons c cs)
  let ?s = "s\<lparr>vz_cache := (vz_cache s)((rid, c, revision s0 rid c) \<mapsto>
      Entry \<lparr>ve_value = computed (rows_of t rid c) now, ve_computedAt = now,
             ve_validUntil = valid_until (rows_of t rid c) now\<rparr>)\<rparr>"
  have one: "visits_ok ?s" "evolves s ?s"
    using put_entry_ok [OF assms(1) Cons.prems(1) assms(3) Cons.prems(2) evolves_trans [OF assms(3) Cons.prems(2)] refl refl]
    by blast+
  have "put_entries rid (revision s0 rid) (rows_of t rid) now (c # cs) s =
      put_entries rid (revision s0 rid) (rows_of t rid) now cs ?s"
    by (simp add: put_entries_def)
  then show ?case
    using Cons.IH [OF one(1) evolves_trans [OF Cons.prems(2) one(2)]] evolves_trans [OF one(2)] by simp
qed

lemma cached_value_ok:
  assumes "visits_ok s" "cached_value now (vz_cache s (rid, c, revision s rid c)) = Some x"
  shows "x = computed (rows_of s rid c) now"
  using assms by (auto simp: cached_value_def visits_ok_def entry_ok_def
      split: option.splits cached_visits.splits if_splits)

text \<open>A hit is read under the revision seen first; an entry there is right for the rows of that moment,
  even when the customer has moved on since.\<close>

lemma cached_value_evolves:
  assumes "visits_ok s0" "visits_ok s" "evolves s0 s" "revision s rid c = revision s0 rid c"
    and "cached_value now (vz_cache s (rid, c, revision s0 rid c)) = Some x"
  shows "x = computed (rows_of s0 rid c) now"
proof -
  have "x = computed (rows_of s rid c) now"
    using cached_value_ok [OF assms(2), of now rid c] assms(4,5) by simp
  moreover have "rows_of s rid c = rows_of s0 rid c"
    using evolvesD [OF assms(3), of rid c] revision_known [OF assms(1), of rid c] assms(4) by metis
  ultimately show ?thesis by simp
qed

lemma put_entries_fold:
  "lifecycle_rows (vz_db t) rid = rows_of t rid" by (simp add: rows_of_def fun_eq_iff)

text \<open>One call among calm others.\<close>

lemma load_visits_ok:
  assumes run: "loadComputedCustomerVisits e rid ids now s = (s', res)" and ok: "visits_ok s"
    and calm: "calm_visits (le_race1 e) s" "calm_visits (le_race2 e) (le_race1 e s)"
      "calm_visits (le_race3 e) (le_race2 e (le_race1 e s))"
  shows "visits_ok s' \<and> evolves s s' \<and> dom res = set ids \<and>
    (\<forall>c \<in> set ids.
       res c = Some (computed (rows_of (le_race2 e (le_race1 e s)) rid c) now) \<or>
       (revision (le_race1 e s) rid c = revision s rid c \<longrightarrow> res c = Some (computed (rows_of s rid c) now)))"
proof -
  let ?s1 = "le_race1 e s" let ?s2 = "le_race2 e ?s1" let ?s3 = "le_race3 e ?s2"
  let ?v = "revision s rid"
  define usable where "usable \<longleftrightarrow> le_revisionsRead e \<and> le_mgetAnswers e \<and>
      (\<forall>c \<in> set ids. vz_cache ?s1 (rid, c, ?v c) \<noteq> Some Malformed)"
  define hits where "hits = (\<lambda>c. if usable \<and> c \<in> set ids then cached_value now (vz_cache ?s1 (rid, c, ?v c)) else None)"
  define missing where "missing = filter (\<lambda>c. hits c = None) (remdups ids)"
  have s1: "visits_ok ?s1" "evolves s ?s1" and s2: "visits_ok ?s2" "evolves s ?s2"
    and s3: "visits_ok ?s3" "evolves s ?s3" "evolves ?s2 ?s3"
    using calm by (auto simp: calm_visits_def intro: evolves_trans)
  have hit: "x = computed (rows_of s rid c) now" if "hits c = Some x" "revision ?s1 rid c = ?v c" for c x
    using cached_value_evolves [OF ok s1 that(2)] that(1) by (auto simp: hits_def split: if_splits)
  have dom: "hits c \<noteq> None \<Longrightarrow> c \<in> set ids" for c by (auto simp: hits_def split: if_splits)
  have unfolded: "ids \<noteq> [] \<Longrightarrow> loadComputedCustomerVisits e rid ids now s =
      (if missing = [] then (?s1, hits)
       else (if usable then put_entries rid ?v (rows_of ?s2 rid) now (filter (le_stored e) missing) ?s3 else ?s3,
             \<lambda>c. if c \<in> set missing then Some (computed (rows_of ?s2 rid c) now) else hits c))"
    unfolding loadComputedCustomerVisits_def Let_def put_entries_fold missing_def hits_def usable_def by simp
  have state: "visits_ok s' \<and> evolves s s'"
    using run unfolded s1 s3 ok put_entries_ok [OF ok s3(1) s2(2) s3(3), of rid now "filter (le_stored e) missing"]
    by (cases "ids = []") (auto simp: loadComputedCustomerVisits_def split: if_splits intro: evolves_trans)
  have res: "ids \<noteq> [] \<Longrightarrow> res c = (if c \<in> set missing then Some (computed (rows_of ?s2 rid c) now) else hits c)" for c
    using run unfolded by (auto split: if_splits)
  have miss: "c \<in> set missing \<longleftrightarrow> c \<in> set ids \<and> hits c = None" for c by (auto simp: missing_def)
  have "dom res = set ids"
    using res miss dom run by (cases "ids = []") (auto simp: loadComputedCustomerVisits_def dom_def)
  with state show ?thesis using res miss hit by (cases "ids = []") auto
qed

text \<open>Writers of reservations and evictions are such others.\<close>

definition opt_list :: "'a option \<Rightarrow> 'a list" where
  "opt_list v = (case v of None \<Rightarrow> [] | Some x \<Rightarrow> [x])"

lemma lifecycle_rows_split:
  "reservations d = xs @ ys \<Longrightarrow> reservations d1 = xs \<Longrightarrow> reservations d2 = ys \<Longrightarrow>
   lifecycle_rows d rid c = lifecycle_rows d1 rid c @ lifecycle_rows d2 rid c"
  by (simp add: lifecycle_rows_def)

lemma lifecycle_rows_unaffected:
  assumes "c \<notin> set (affected_ids old new)"
    and "reservations d = xs @ opt_list old @ ys" "reservations d' = xs @ opt_list new @ ys"
  shows "lifecycle_rows d' rid c = lifecycle_rows d rid c"
proof -
  let ?p = "\<lambda>r. r_restaurantId r = rid \<and> r_customerId r = Some c \<and> c \<noteq> [] \<and> \<not> r_isTest r"
  let ?f = "\<lambda>r. \<lparr>lr_state = r_state r, lr_status = Some (r_status r), lr_startsAt = r_startsAt r,
    lr_reservedAt = r_reservedAt r\<rparr>"
  have "map ?f (filter ?p (opt_list old)) = map ?f (filter ?p (opt_list new))"
    using assms(1) by (auto simp: affected_ids_def Let_def opt_list_def visit_columns_def split: option.splits if_splits)
  then show ?thesis using assms(2,3) by (simp add: lifecycle_rows_def)
qed

lemma rows_elsewhere:
  assumes "\<forall>r \<in> set (reservations (vz_db s)). at_home s r" "vz_home s c \<noteq> Some rid"
  shows "rows_of s rid c = []"
  using assms by (auto simp: rows_of_def lifecycle_rows_def at_home_def filter_empty_conv)

lemma replace_row_calm:
  assumes ok: "visits_ok s" and old: "reservations (vz_db s) = xs @ opt_list old @ ys"
    and new: "\<And>r. new = Some r \<Longrightarrow> at_home s r" and fresh: "new_values nextval (affected_ids old new) s"
  shows "calm_visits (replace_row nextval xs old new ys) s"
proof -
  let ?t = "replace_row nextval xs old new ys s" let ?cs = "set (affected_ids old new)"
  have t: "vz_home ?t = vz_home s" "vz_cache ?t = vz_cache s"
    "vz_version ?t c = (if c \<in> ?cs then nextval c else vz_version s c)"
    "set (vz_used ?t) = nextval ` ?cs \<union> set (vz_used s)"
    "reservations (vz_db ?t) = xs @ opt_list new @ ys" for c
    by (simp_all add: replace_row_def invalidate_customer_visit_cache_def Let_def opt_list_def)
  have home: "\<forall>r \<in> set (reservations (vz_db ?t)). at_home ?t r"
    using ok old new by (auto simp: visits_ok_def at_home_def t opt_list_def split: option.splits)
  have "evolves s ?t"
    unfolding evolves_def
  proof (intro conjI allI)
    fix rid c
    show "revision ?t rid c = revision s rid c \<and> rows_of ?t rid c = rows_of s rid c \<or> \<not> known_value s (revision ?t rid c)"
    proof (cases "vz_home s c = Some rid \<and> c \<in> ?cs")
      case True
      then show ?thesis using fresh by (auto simp: revision_def known_value_def new_values_def t)
    next
      case False
      then have "revision ?t rid c = revision s rid c" by (auto simp: revision_def t)
      moreover have "rows_of ?t rid c = rows_of s rid c"
      proof (cases "c \<in> ?cs")
        case True
        then show ?thesis
          using False rows_elsewhere [OF home, of c rid] rows_elsewhere [of s c rid] ok by (simp add: visits_ok_def t)
      next
        case False
        then show ?thesis unfolding rows_of_def by (rule lifecycle_rows_unaffected [OF _ old t(5)])
      qed
      ultimately show ?thesis by simp
    qed
  qed (simp add: t)
  moreover have "known_value ?t (vz_version ?t c)" for c
  proof -
    have "known_value s (vz_version s c)" using ok by (simp add: visits_ok_def)
    then show ?thesis by (auto simp: t known_value_def)
  qed
  moreover have "entry_ok ?t rid c v e" if "vz_cache ?t (rid, c, v) = Some (Entry e)" for rid c v e
    using that ok entry_ok_evolves [OF _ calculation(1)] by (simp add: t visits_ok_def)
  ultimately have "evolves s ?t" "visits_ok ?t"
    using home by (simp_all add: visits_ok_def)
  then show ?thesis by (simp add: calm_visits_def)
qed

definition evict :: "id \<times> id \<times> nat \<Rightarrow> visit_state \<Rightarrow> visit_state" where
  "evict k s = s\<lparr>vz_cache := (vz_cache s)(k := None)\<rparr>"

lemma evict_calm: "visits_ok s \<Longrightarrow> calm_visits (evict k) s"
  by (auto simp: calm_visits_def visits_ok_def evolves_def evict_def at_home_def entry_ok_def known_value_def
      revision_def rows_of_def)

lemma calm_visits_id [simp]: "calm_visits (\<lambda>s. s) s \<longleftrightarrow> visits_ok s"
  by (simp add: calm_visits_def)

section \<open>Lists of customers\<close>

datatype visit_sort = SortVisits365d | SortLastVisit

record visit_filters =
  vf_lifecycle :: "lifecycle_status option"
  vf_minHonored365d :: "int option"
  vf_sort :: "visit_sort option"

text \<open>\<open>stats.get (id)!\<close> of a customer without a value throws a \<open>TypeError\<close>.\<close>

definition matches_filters :: "visit_filters \<Rightarrow> computed_visits \<Rightarrow> bool" where
  "matches_filters f v \<longleftrightarrow>
     \<not> (case vf_minHonored365d f of None \<Rightarrow> False | Some n \<Rightarrow> int (sm_visits365d (cv_summary v)) < n) \<and>
     (case vf_lifecycle f of None \<Rightarrow> True | Some l \<Rightarrow> cl_status (cv_lifecycle v) = l)"

definition sort_key :: "visit_sort \<Rightarrow> computed_visits \<Rightarrow> int" where
  "sort_key k v = (case k of SortVisits365d \<Rightarrow> int (sm_visits365d (cv_summary v))
     | SortLastVisit \<Rightarrow> orElse (sm_lastVisitAt (cv_summary v)) (-1))"

definition filterCustomerIdsByVisits :: "id list \<Rightarrow> visit_filters \<Rightarrow> (id \<rightharpoonup> computed_visits) \<Rightarrow> unit + id list" where
  "filterCustomerIdsByVisits ids f stats =
     (if \<exists>c \<in> set ids. stats c = None then Inl ()
      else
        let kept = filter (\<lambda>c. matches_filters f (the (stats c))) ids
        in Inr (case vf_sort f of None \<Rightarrow> kept
             | Some k \<Rightarrow> js_sort (\<lambda>a b. sort_key k (the (stats b)) - sort_key k (the (stats a))) kept))"

definition countCustomersByLifecycle :: "id list \<Rightarrow> (id \<rightharpoonup> computed_visits) \<Rightarrow> unit + (lifecycle_status \<Rightarrow> nat)" where
  "countCustomersByLifecycle ids stats =
     (if \<exists>c \<in> set ids. stats c = None then Inl ()
      else Inr (\<lambda>l. length (filter (\<lambda>c. cl_status (cv_lifecycle (the (stats c))) = l) ids)))"

text \<open>Best effort: when the load throws, no customer has a status.\<close>

definition withCustomerLifecycles :: "id list \<Rightarrow> (id \<rightharpoonup> computed_visits) option \<Rightarrow>
    (id \<times> customer_lifecycle option \<times> visit_summary option) list" where
  "withCustomerLifecycles customers stats =
     map (\<lambda>c. (c, map_option cv_lifecycle (Option.bind stats (\<lambda>m. m c)),
               map_option cv_summary (Option.bind stats (\<lambda>m. m c)))) customers"

section \<open>Runs\<close>

text \<open>
  The steps of the system: a row is written with its trigger, an entry is evicted, a list is loaded while
  other steps run around its reads and writes.
\<close>

inductive visits_step :: "visit_state \<Rightarrow> visit_state \<Rightarrow> bool" where
  vt_write: "reservations (vz_db s) = xs @ opt_list old @ ys \<Longrightarrow> \<forall>r. new = Some r \<longrightarrow> at_home s r \<Longrightarrow>
     new_values nextval (affected_ids old new) s \<Longrightarrow> visits_step s (replace_row nextval xs old new ys s)"
| vt_evict: "visits_step s (evict k s)"
| vt_load: "loadComputedCustomerVisits e rid ids now s = (s', res) \<Longrightarrow>
     visits_step\<^sup>*\<^sup>* s (le_race1 e s) \<Longrightarrow> visits_step\<^sup>*\<^sup>* (le_race1 e s) (le_race2 e (le_race1 e s)) \<Longrightarrow>
     visits_step\<^sup>*\<^sup>* (le_race2 e (le_race1 e s)) (le_race3 e (le_race2 e (le_race1 e s))) \<Longrightarrow> visits_step s s'"

lemma visits_step_ok: "visits_step s t \<Longrightarrow> visits_ok s \<Longrightarrow> visits_ok t \<and> evolves s t"
proof (induction rule: visits_step.induct)
  case (vt_write s xs old ys new nextval)
  then show ?case using replace_row_calm [of s xs old ys new nextval] by (simp add: calm_visits_def)
next
  case (vt_evict s k)
  then show ?case using evict_calm [of s k] by (simp add: calm_visits_def)
next
  case (vt_load e rid ids now s s' res)
  have run: "visits_ok a \<Longrightarrow> (\<lambda>x y. visits_step x y \<and> (visits_ok x \<longrightarrow> visits_ok y \<and> evolves x y))\<^sup>*\<^sup>* a b \<Longrightarrow>
      visits_ok b \<and> evolves a b" for a b
    by (rotate_tac 1, induction rule: rtranclp_induct) (auto intro: evolves_trans)
  note r1 = run [OF vt_load.prems vt_load.IH(1)] note r2 = run [OF conjunct1 [OF r1] vt_load.IH(2)]
  note r3 = run [OF conjunct1 [OF r2] vt_load.IH(3)]
  show ?case
    using load_visits_ok [OF vt_load.hyps(1) vt_load.prems] r1 r2 r3 by (simp add: calm_visits_def)
qed

lemma visits_run_ok: "visits_step\<^sup>*\<^sup>* s t \<Longrightarrow> visits_ok s \<Longrightarrow> visits_ok t \<and> evolves s t"
  by (induction rule: rtranclp_induct) (auto dest: visits_step_ok intro: evolves_trans)

text \<open>
  C33. The cache never changes what the lists show. Over any run of writers, evictions and other loads,
  whatever others do and whatever fails around a call, a value comes back for every customer asked for,
  equal to the one computed at this very moment from the reservations: those found when the database is
  read, or, for a customer served from the cache and not written since its revision was read, those of
  the start of the call.
\<close>

theorem cached_visits_equal_computed_ones:
  assumes "visits_step\<^sup>*\<^sup>* s0 s" "visits_ok s0"
    and run: "loadComputedCustomerVisits e rid ids now s = (s', res)"
    and others: "visits_step\<^sup>*\<^sup>* s (le_race1 e s)" "visits_step\<^sup>*\<^sup>* (le_race1 e s) (le_race2 e (le_race1 e s))"
      "visits_step\<^sup>*\<^sup>* (le_race2 e (le_race1 e s)) (le_race3 e (le_race2 e (le_race1 e s)))"
  shows "dom res = set ids \<and>
    (\<forall>c \<in> set ids.
       res c = Some (computed (rows_of (le_race2 e (le_race1 e s)) rid c) now) \<or>
       (revision (le_race1 e s) rid c = revision s rid c \<longrightarrow> res c = Some (computed (rows_of s rid c) now)))"
proof -
  have ok: "visits_ok s" using visits_run_ok [OF assms(1,2)] by blast
  note r1 = visits_run_ok [OF others(1) ok]
  note r2 = visits_run_ok [OF others(2) conjunct1 [OF r1]]
  note r3 = visits_run_ok [OF others(3) conjunct1 [OF r2]]
  show ?thesis using load_visits_ok [OF run ok] r1 r2 r3 by (simp add: calm_visits_def)
qed

text \<open>A customer who came once, looked up twice: the second answer is the stored one.\<close>

definition quiet_visits :: visit_env where
  "quiet_visits = \<lparr>le_revisionsRead = True, le_mgetAnswers = True, le_stored = (\<lambda>_. True),
     le_race1 = (\<lambda>s. s), le_race2 = (\<lambda>s. s), le_race3 = (\<lambda>s. s)\<rparr>"

definition guest_visits :: visit_state where
  "guest_visits = \<lparr>vz_db = empty_db, vz_home = (\<lambda>c. if c = ''c'' then Some ''r'' else None), vz_version = (\<lambda>_. 0),
     vz_used = [], vz_cache = (\<lambda>_. None)\<rparr>"

definition guest_booking :: reservation_row where
  "guest_booking = sample_reservation\<lparr>r_id := ''b'', r_restaurantId := ''r'', r_customerId := Some ''c'',
     r_state := HONORED, r_status := St_CONFIRMED, r_reservedAt := 1000, r_startsAt := Some 1000\<rparr>"

definition visited_once :: visit_state where
  "visited_once = replace_row (\<lambda>_. 7) [] None (Some guest_booking) [] guest_visits"

definition looked_up :: visit_state where
  "looked_up = fst (loadComputedCustomerVisits quiet_visits ''r'' [''c''] 5000 visited_once)"

theorem cached_visits_equal_computed_ones_witness:
  "revision looked_up ''r'' ''c'' = 7 \<and> vz_cache looked_up (''r'', ''c'', 7) \<noteq> None \<and>
   snd (loadComputedCustomerVisits quiet_visits ''r'' [''c''] 6000 looked_up) ''c'' =
     Some (computed (rows_of looked_up ''r'' ''c'') 6000) \<and>
   sm_visits (cv_summary (computed (rows_of looked_up ''r'' ''c'') 6000)) = 1"
proof -
  have "visits_step guest_visits visited_once"
    unfolding visited_once_def
    by (rule vt_write) (simp_all add: guest_visits_def guest_booking_def empty_db_def opt_list_def at_home_def
        new_values_def sample_reservation_def)
  moreover have "visits_step visited_once looked_up"
    by (rule vt_load [where e = quiet_visits and rid = "''r''" and ids = "[''c'']" and now = 5000])
      (simp_all add: looked_up_def quiet_visits_def prod_eq_iff)
  ultimately have run: "visits_step\<^sup>*\<^sup>* guest_visits looked_up" by (meson rtranclp.simps)
  have start: "visits_ok guest_visits"
    by (simp add: visits_ok_def guest_visits_def empty_db_def known_value_def)
  obtain s' res where load: "loadComputedCustomerVisits quiet_visits ''r'' [''c''] 6000 looked_up = (s', res)"
    by (metis surj_pair)
  have "revision looked_up ''r'' ''c'' = 7 \<and> vz_cache looked_up (''r'', ''c'', 7) \<noteq> None \<and>
      sm_visits (cv_summary (computed (rows_of looked_up ''r'' ''c'') 6000)) = 1"
    by code_simp
  moreover have "res ''c'' = Some (computed (rows_of looked_up ''r'' ''c'') 6000)"
    using cached_visits_equal_computed_ones [OF run start load] by (simp add: quiet_visits_def)
  ultimately show ?thesis using load by simp
qed

end
