(* ===== verification/Loyalty.thy ===== *)
theory Loyalty
  imports Customer_Lifecycle Js_Text
begin

text \<open>
  Loyalty benefits and their grants (\<open>modules/loyalty/loyalty.service.ts\<close>): a benefit is a rule with a
  limit per customer, a grant is one issue of it, redeemed once with a code of which only the hash is
  stored. Numbers given by a caller are rationals (NaN and the infinities are not), strings are Latin-1.
  The \<open>CHECK\<close> constraints of the migration are kept with their three-valued logic. Foreign keys, the
  masked phone of a view and the list of benefits are not modelled.
\<close>

section \<open>Rows\<close>

datatype benefit_rule = R_ANY | R_VIP | R_MIN_VISITS | R_BIRTHDAY_MONTH | R_MIN_ESTIMATED_SPEND
datatype benefit_status = B_ACTIVE | B_INACTIVE
datatype grant_status = LG_ISSUED | LG_REDEEMED | LG_VOID | LG_EXPIRED

record benefit_row =
  lb_id :: id
  lb_restaurantId :: id
  lb_key :: string
  lb_name :: string
  lb_description :: "string option"
  lb_rule :: benefit_rule
  lb_ruleValue :: "int option"
  lb_costCents :: "int option"
  lb_currency :: string
  lb_validityDays :: int
  lb_maxUsesPerCustomer :: int
  lb_status :: benefit_status
  lb_createdByHash :: string

record grant_row =
  lg_id :: id
  lg_restaurantId :: id
  lg_benefitId :: id
  lg_customerId :: id
  lg_reservationId :: "id option"
  lg_idempotencyKey :: "string option"
  lg_codeHash :: string
  lg_status :: grant_status
  lg_issuedAt :: instant
  lg_expiresAt :: instant
  lg_redeemedAt :: "instant option"
  lg_voidedAt :: "instant option"
  lg_issuedByHash :: string
  lg_redeemedByHash :: "string option"
  lg_redemptionNote :: "string option"

record loyalty_customer =
  lk_id :: id
  lk_restaurantId :: id
  lk_archivedAt :: "instant option"
  lk_mergedIntoId :: "id option"
  lk_isVip :: bool
  lk_birthMonth :: "int option"
  lk_estimatedSpend365d :: "rat option"

record loyalty_db =
  ly_db :: db
  ly_siteStatus :: "id \<Rightarrow> string option"
  ly_customers :: "loyalty_customer list"
  ly_benefits :: "benefit_row list"
  ly_grants :: "grant_row list"

section \<open>Errors\<close>

datatype loyalty_input_code =
  BENEFIT_KEY_INVALID | BENEFIT_NAME_INVALID | BENEFIT_DESCRIPTION_INVALID
| BENEFIT_RULE_VALUE_INVALID | BENEFIT_COST_INVALID | BENEFIT_CURRENCY_INVALID | BENEFIT_VALIDITY_INVALID
| BENEFIT_MAX_USES_INVALID | GRANT_CODE_INVALID | GRANT_NOTE_INVALID | LOYALTY_IDEMPOTENCY_INVALID

datatype loyalty_conflict_code = BENEFIT_KEY_CONFLICT | GRANT_LIMIT_REACHED | RESERVATION_INVALID

datatype not_eligible = VIP_REQUIRED | MIN_VISITS_NOT_REACHED | BIRTHDAY_MONTH_MISMATCH | MIN_ESTIMATED_SPEND_NOT_REACHED

datatype grant_state_code = GRANT_ALREADY_REDEEMED | GRANT_VOID | GRANT_EXPIRED | GRANT_REDEMPTION_CONFLICT

datatype loyalty_error =
  LoyaltyInputError loyalty_input_code
| LoyaltyBenefitNotFoundError
| LoyaltyCustomerNotFoundError
| LoyaltyGrantNotFoundError
| LoyaltyGrantConflictError loyalty_conflict_code
| LoyaltyNotEligibleError not_eligible
| LoyaltyGrantStateError grant_state_code
| LoyaltyDbError db_error

section \<open>Hashes and codes\<close>

definition hashActor :: "runtime \<Rightarrow> string \<Rightarrow> string" where
  "hashActor rt actor = sha256 rt (''sokar:loyalty-actor:'' @ actor)"

definition hashCode :: "runtime \<Rightarrow> string \<Rightarrow> string" where
  "hashCode rt code = sha256 rt (''sokar:loyalty-code:'' @ code)"

definition hashIdempotencyKey :: "runtime \<Rightarrow> id \<Rightarrow> string \<Rightarrow> string" where
  "hashIdempotencyKey rt restaurantId key =
     sha256 rt (''sokar:loyalty-idempotency:'' @ restaurantId @ '':'' @ key)"

text \<open>Six random bytes in hexadecimal, upper case.\<close>

definition hex_char :: "nat \<Rightarrow> char" where
  "hex_char n = (if n < 10 then char_of (48 + n) else char_of (87 + n))"

definition generateCode :: "nat list \<Rightarrow> string" where
  "generateCode bytes = map upper_char (concat (map (\<lambda>b. [hex_char (b div 16), hex_char (b mod 16)]) bytes))"

section \<open>Normalisation\<close>

definition normalizeIdempotencyKey :: "string option \<Rightarrow> loyalty_error + string option" where
  "normalizeIdempotencyKey v = (case v of
       None \<Rightarrow> Inr None
     | Some x \<Rightarrow> (let key = js_trim x in
         if length key < 8 \<or> length key > 200 \<or> list_ex control_char key
         then Inl (LoyaltyInputError LOYALTY_IDEMPOTENCY_INVALID) else Inr (Some key)))"

text \<open>\<open>BENEFIT_KEY_PATTERN\<close> and \<open>CODE_PATTERN\<close>.\<close>

definition benefit_key_pattern :: "string \<Rightarrow> bool" where
  "benefit_key_pattern k = (case k of [] \<Rightarrow> False
     | c # cs \<Rightarrow> between CHR ''a'' CHR ''z'' c \<and> 1 \<le> length cs \<and> length cs \<le> 47 \<and>
         list_all (\<lambda>d. between CHR ''a'' CHR ''z'' d \<or> between CHR ''0'' CHR ''9'' d \<or> d \<in> set ''_.-'') cs)"

definition code_pattern :: "string \<Rightarrow> bool" where
  "code_pattern s \<longleftrightarrow> length s = 12 \<and> list_all (\<lambda>c. between CHR ''A'' CHR ''F'' c \<or> between CHR ''0'' CHR ''9'' c) s"

definition normalizeKey :: "string \<Rightarrow> loyalty_error + string" where
  "normalizeKey v = (let key = map lower_char (js_trim v) in
     if benefit_key_pattern key then Inr key else Inl (LoyaltyInputError BENEFIT_KEY_INVALID))"

definition normalizeName :: "string \<Rightarrow> loyalty_error + string" where
  "normalizeName v = (let name = collapse_spaces (js_trim v) in
     if name = [] \<or> length name > 120 \<or> list_ex control_char name
     then Inl (LoyaltyInputError BENEFIT_NAME_INVALID) else Inr name)"

text \<open>A text that may be \<open>undefined\<close> (\<open>None\<close>) or \<open>null\<close> (\<open>Some None\<close>), at most 1000 characters long.\<close>

definition normalize_text :: "loyalty_input_code \<Rightarrow> string option option \<Rightarrow> loyalty_error + string option option" where
  "normalize_text code v = (case v of
       None \<Rightarrow> Inr None
     | Some None \<Rightarrow> Inr (Some None)
     | Some (Some x) \<Rightarrow> (let t = collapse_spaces (js_trim x) in
         if length t > 1000 \<or> list_ex control_char t then Inl (LoyaltyInputError code)
         else Inr (Some (if t = [] then None else Some t))))"

definition normalizeDescription :: "string option option \<Rightarrow> loyalty_error + string option option" where
  "normalizeDescription v = normalize_text BENEFIT_DESCRIPTION_INVALID v"

definition normalizeNote :: "string option option \<Rightarrow> loyalty_error + string option option" where
  "normalizeNote v = normalize_text GRANT_NOTE_INVALID v"

definition normalizeRuleValue :: "benefit_rule \<Rightarrow> rat option \<Rightarrow> loyalty_error + int option" where
  "normalizeRuleValue rule v = (case v of
       None \<Rightarrow> if rule \<in> {R_MIN_VISITS, R_MIN_ESTIMATED_SPEND}
               then Inl (LoyaltyInputError BENEFIT_RULE_VALUE_INVALID) else Inr None
     | Some x \<Rightarrow>
         if \<not> isInteger x \<or> x < 1 \<or> (rule = R_MIN_VISITS \<and> x > 1000) \<or>
            (rule = R_MIN_ESTIMATED_SPEND \<and> x > 5000000) \<or>
            (rule \<noteq> R_MIN_VISITS \<and> rule \<noteq> R_MIN_ESTIMATED_SPEND)
         then Inl (LoyaltyInputError BENEFIT_RULE_VALUE_INVALID) else Inr (Some \<lfloor>x\<rfloor>))"

definition normalizeCostCents :: "rat option \<Rightarrow> loyalty_error + int option" where
  "normalizeCostCents v = (case v of None \<Rightarrow> Inr None
     | Some x \<Rightarrow> if \<not> isInteger x \<or> x < 0 \<or> x > 1000000 then Inl (LoyaltyInputError BENEFIT_COST_INVALID)
                else Inr (Some \<lfloor>x\<rfloor>))"

definition normalizeCurrency :: "string option \<Rightarrow> loyalty_error + string" where
  "normalizeCurrency v = (let currency = map upper_char (js_trim (orElse v ''EUR'')) in
     if currency \<noteq> ''EUR'' then Inl (LoyaltyInputError BENEFIT_CURRENCY_INVALID) else Inr currency)"

definition normalizeValidityDays :: "rat option \<Rightarrow> loyalty_error + int" where
  "normalizeValidityDays v = (let days = orElse v 30 in
     if \<not> isInteger days \<or> days < 1 \<or> days > 365 then Inl (LoyaltyInputError BENEFIT_VALIDITY_INVALID)
     else Inr \<lfloor>days\<rfloor>)"

definition normalizeMaxUses :: "rat option \<Rightarrow> loyalty_error + int" where
  "normalizeMaxUses v = (let maxUses = orElse v 1 in
     if \<not> isInteger maxUses \<or> maxUses < 1 \<or> maxUses > 100 then Inl (LoyaltyInputError BENEFIT_MAX_USES_INVALID)
     else Inr \<lfloor>maxUses\<rfloor>)"

definition normalizeCode :: "string \<Rightarrow> loyalty_error + string" where
  "normalizeCode v = (let code = map upper_char (strip_spaces (js_trim v)) in
     if code_pattern code then Inr code else Inl (LoyaltyInputError GRANT_CODE_INVALID))"

section \<open>Benefits\<close>

text \<open>The constraint \<open>loyalty_benefits_rule_value_check\<close>.\<close>

definition rule_value_check :: "benefit_row \<Rightarrow> bool option" where
  "rule_value_check b =
     sql_or (sql_or (sql_and (Some (lb_rule b \<in> {R_ANY, R_VIP, R_BIRTHDAY_MONTH})) (Some (lb_ruleValue b = None)))
         (sql_and (Some (lb_rule b = R_MIN_VISITS)) (sql_between (lb_ruleValue b) 1 1000)))
       (sql_and (Some (lb_rule b = R_MIN_ESTIMATED_SPEND)) (sql_between (lb_ruleValue b) 1 5000000))"

definition benefit_checks :: "benefit_row \<Rightarrow> bool" where
  "benefit_checks b \<longleftrightarrow> sql_between (lb_costCents b) 0 1000000 \<noteq> Some False \<and>
     1 \<le> lb_validityDays b \<and> lb_validityDays b \<le> 365 \<and>
     1 \<le> lb_maxUsesPerCustomer b \<and> lb_maxUsesPerCustomer b \<le> 100 \<and> lb_currency b = ''EUR'' \<and>
     rule_value_check b \<noteq> Some False"

definition benefit_conflict :: "benefit_row \<Rightarrow> benefit_row \<Rightarrow> bool" where
  "benefit_conflict b b' \<longleftrightarrow> lb_id b = lb_id b' \<or> lb_restaurantId b = lb_restaurantId b' \<and> lb_key b = lb_key b'"

definition assertRestaurantActive :: "loyalty_db \<Rightarrow> id \<Rightarrow> loyalty_error + unit" where
  "assertRestaurantActive g restaurantId =
     guard (case ly_siteStatus g restaurantId of None \<Rightarrow> False | Some st \<Rightarrow> st \<notin> {''ARCHIVED'', ''SUSPENDED''})
       LoyaltyBenefitNotFoundError"

record create_benefit =
  cb_restaurantId :: id
  cb_key :: string
  cb_name :: string
  cb_description :: "string option option"
  cb_rule :: "benefit_rule option"
  cb_ruleValue :: "rat option"
  cb_costCents :: "rat option"
  cb_currency :: "string option"
  cb_validityDays :: "rat option"
  cb_maxUsesPerCustomer :: "rat option"
  cb_actor :: string

definition new_benefit :: "runtime \<Rightarrow> create_benefit \<Rightarrow> id \<Rightarrow> loyalty_error + benefit_row" where
  "new_benefit rt i newId =
     ebind (normalizeKey (cb_key i)) (\<lambda>key.
     ebind (normalizeName (cb_name i)) (\<lambda>name.
     ebind (normalizeDescription (cb_description i)) (\<lambda>description.
     let rule = orElse (cb_rule i) R_ANY in
     ebind (normalizeRuleValue rule (cb_ruleValue i)) (\<lambda>ruleValue.
     ebind (normalizeCostCents (cb_costCents i)) (\<lambda>costCents.
     ebind (normalizeCurrency (cb_currency i)) (\<lambda>currency.
     ebind (normalizeValidityDays (cb_validityDays i)) (\<lambda>validityDays.
     ebind (normalizeMaxUses (cb_maxUsesPerCustomer i)) (\<lambda>maxUses.
     Inr \<lparr>lb_id = newId, lb_restaurantId = cb_restaurantId i, lb_key = key, lb_name = name,
          lb_description = orElse description None, lb_rule = rule, lb_ruleValue = ruleValue,
          lb_costCents = costCents, lb_currency = currency, lb_validityDays = validityDays,
          lb_maxUsesPerCustomer = maxUses, lb_status = B_ACTIVE,
          lb_createdByHash = hashActor rt (cb_actor i)\<rparr>))))))))"

definition createLoyaltyBenefit :: "runtime \<Rightarrow> create_benefit \<Rightarrow> id \<Rightarrow> (loyalty_db \<Rightarrow> loyalty_db) \<Rightarrow> loyalty_db \<Rightarrow>
    loyalty_db \<times> (loyalty_error + benefit_row)" where
  "createLoyaltyBenefit rt i newId race g =
     (case ebind (assertRestaurantActive g (cb_restaurantId i)) (\<lambda>_. new_benefit rt i newId) of
        Inl e \<Rightarrow> (g, Inl e)
      | Inr b \<Rightarrow>
          (let g1 = race g in
           if \<exists>b' \<in> set (ly_benefits g1). benefit_conflict b b'
           then (g1, Inl (LoyaltyGrantConflictError BENEFIT_KEY_CONFLICT))
           else if \<not> benefit_checks b then (g1, Inl (LoyaltyDbError OTHER_DB_ERROR))
           else (g1\<lparr>ly_benefits := ly_benefits g1 @ [b]\<rparr>, Inr b)))"

record update_benefit =
  ub_restaurantId :: id
  ub_benefitId :: id
  ub_name :: "string option"
  ub_description :: "string option option"
  ub_rule :: "benefit_rule option"
  ub_ruleValue :: "rat option option"
  ub_costCents :: "rat option option"
  ub_currency :: "string option"
  ub_validityDays :: "rat option"
  ub_maxUsesPerCustomer :: "rat option"
  ub_status :: "benefit_status option"

text \<open>The columns an update writes: \<open>None\<close> leaves the column as it is.\<close>

record benefit_data =
  bd_name :: "string option"
  bd_description :: "string option option"
  bd_rule :: "benefit_rule option"
  bd_ruleValue :: "int option option"
  bd_costCents :: "int option option"
  bd_currency :: "string option"
  bd_validityDays :: "int option"
  bd_maxUsesPerCustomer :: "int option"
  bd_status :: "benefit_status option"

definition update_data :: "update_benefit \<Rightarrow> benefit_row \<Rightarrow> loyalty_error + benefit_data" where
  "update_data i current =
     (let rule = orElse (ub_rule i) (lb_rule current) in
      ebind (when_given (ub_name i) normalizeName) (\<lambda>name.
      ebind (when_given (ub_description i) (\<lambda>d. ebind (normalizeDescription (Some d)) (\<lambda>x. Inr (orElse x None)))) (\<lambda>description.
      ebind (if ub_ruleValue i \<noteq> None \<or> ub_rule i \<noteq> None then
               ebind (normalizeRuleValue rule
                 (orElse_opt (orElse (ub_ruleValue i) None)
                   (if ub_rule i \<noteq> None then None else map_option of_int (lb_ruleValue current))))
                 (\<lambda>x. Inr (Some x))
             else Inr None) (\<lambda>ruleValue.
      ebind (when_given (ub_costCents i) normalizeCostCents) (\<lambda>costCents.
      ebind (when_given (ub_currency i) (\<lambda>c. normalizeCurrency (Some c))) (\<lambda>currency.
      ebind (when_given (ub_validityDays i) (\<lambda>d. normalizeValidityDays (Some d))) (\<lambda>validityDays.
      ebind (when_given (ub_maxUsesPerCustomer i) (\<lambda>d. normalizeMaxUses (Some d))) (\<lambda>maxUses.
      Inr \<lparr>bd_name = name, bd_description = description, bd_rule = ub_rule i, bd_ruleValue = ruleValue,
           bd_costCents = costCents, bd_currency = currency, bd_validityDays = validityDays,
           bd_maxUsesPerCustomer = maxUses, bd_status = ub_status i\<rparr>))))))))"

definition apply_data :: "benefit_data \<Rightarrow> benefit_row \<Rightarrow> benefit_row" where
  "apply_data d b = b\<lparr>lb_name := orElse (bd_name d) (lb_name b),
     lb_description := orElse (bd_description d) (lb_description b),
     lb_rule := orElse (bd_rule d) (lb_rule b), lb_ruleValue := orElse (bd_ruleValue d) (lb_ruleValue b),
     lb_costCents := orElse (bd_costCents d) (lb_costCents b), lb_currency := orElse (bd_currency d) (lb_currency b),
     lb_validityDays := orElse (bd_validityDays d) (lb_validityDays b),
     lb_maxUsesPerCustomer := orElse (bd_maxUsesPerCustomer d) (lb_maxUsesPerCustomer b),
     lb_status := orElse (bd_status d) (lb_status b)\<rparr>"

definition updateLoyaltyBenefit :: "update_benefit \<Rightarrow> (loyalty_db \<Rightarrow> loyalty_db) \<Rightarrow> loyalty_db \<Rightarrow>
    loyalty_db \<times> (loyalty_error + benefit_row)" where
  "updateLoyaltyBenefit i race g =
     (case find (\<lambda>b. lb_id b = ub_benefitId i \<and> lb_restaurantId b = ub_restaurantId i) (ly_benefits g) of
        None \<Rightarrow> (g, Inl LoyaltyBenefitNotFoundError)
      | Some current \<Rightarrow>
        (case update_data i current of
           Inl e \<Rightarrow> (g, Inl e)
         | Inr d \<Rightarrow>
             if d = \<lparr>bd_name = None, bd_description = None, bd_rule = None, bd_ruleValue = None, bd_costCents = None,
                    bd_currency = None, bd_validityDays = None, bd_maxUsesPerCustomer = None, bd_status = None\<rparr>
             then (g, Inr current)
             else
               let g1 = race g in
               case find (\<lambda>b. lb_id b = lb_id current) (ly_benefits g1) of
                 None \<Rightarrow> (g1, Inl (LoyaltyDbError P2025))
               | Some b \<Rightarrow>
                   if \<not> benefit_checks (apply_data d b) then (g1, Inl (LoyaltyDbError OTHER_DB_ERROR))
                   else (g1\<lparr>ly_benefits := upd_where (\<lambda>b. lb_id b = lb_id current) (apply_data d) (ly_benefits g1)\<rparr>,
                         Inr (apply_data d b))))"

section \<open>Eligibility\<close>

text \<open>\<open>Date.getUTCMonth\<close>: the month, from 0, of a day counted since the epoch.\<close>

definition utc_month :: "instant \<Rightarrow> int" where
  "utc_month t =
     (let z = t div DAY_MS + 719468;
          doe = z mod 146097;
          yoe = (doe - doe div 1460 + doe div 36524 - doe div 146096) div 365;
          doy = doe - (365 * yoe + yoe div 4 - yoe div 100);
          mp = (5 * doy + 2) div 153
      in if mp < 10 then mp + 2 else mp - 10)"

definition spendInCents :: "rat option \<Rightarrow> int" where
  "spendInCents v = (case v of None \<Rightarrow> 0 | Some amount \<Rightarrow> max 0 \<lfloor>amount * 100 + 1 / 2\<rfloor>)"

definition countHonoredVisits :: "id \<Rightarrow> id \<Rightarrow> instant \<Rightarrow> db \<Rightarrow> nat" where
  "countHonoredVisits restaurantId customerId now d =
     (case loadCustomerVisitStats restaurantId [customerId] now d customerId of
        None \<Rightarrow> 0 | Some stats \<Rightarrow> length (vs_visitDates stats))"

abbreviation (input) MAX_SAFE_INTEGER :: int where "MAX_SAFE_INTEGER \<equiv> 9007199254740991"

text \<open>The customer is read in \<open>g\<close>, the visits, when the rule needs them, in \<open>g'\<close>.\<close>

definition assertCustomerEligible :: "id \<Rightarrow> id \<Rightarrow> benefit_row \<Rightarrow> instant \<Rightarrow> loyalty_db \<Rightarrow> loyalty_db \<Rightarrow> loyalty_error + unit" where
  "assertCustomerEligible restaurantId customerId benefit now g g' =
     (case find (\<lambda>c. lk_id c = customerId \<and> lk_restaurantId c = restaurantId \<and> lk_archivedAt c = None \<and>
                    lk_mergedIntoId c = None) (ly_customers g) of
        None \<Rightarrow> Inl LoyaltyCustomerNotFoundError
      | Some c \<Rightarrow>
        (case lb_rule benefit of
           R_ANY \<Rightarrow> Inr ()
         | R_VIP \<Rightarrow> guard (lk_isVip c) (LoyaltyNotEligibleError VIP_REQUIRED)
         | R_MIN_VISITS \<Rightarrow>
             guard (int (countHonoredVisits restaurantId (lk_id c) now (ly_db g')) \<ge> orElse (lb_ruleValue benefit) MAX_SAFE_INTEGER)
               (LoyaltyNotEligibleError MIN_VISITS_NOT_REACHED)
         | R_BIRTHDAY_MONTH \<Rightarrow>
             guard (lk_birthMonth c = Some (utc_month now + 1)) (LoyaltyNotEligibleError BIRTHDAY_MONTH_MISMATCH)
         | R_MIN_ESTIMATED_SPEND \<Rightarrow>
             guard (spendInCents (lk_estimatedSpend365d c) \<ge> orElse (lb_ruleValue benefit) MAX_SAFE_INTEGER)
               (LoyaltyNotEligibleError MIN_ESTIMATED_SPEND_NOT_REACHED)))"

definition assertReservationForCustomer :: "id \<Rightarrow> id \<Rightarrow> id option \<Rightarrow> loyalty_db \<Rightarrow> loyalty_error + unit" where
  "assertReservationForCustomer restaurantId customerId reservationId g =
     guard (\<not> truthy reservationId \<or>
       list_ex (\<lambda>r. Some (r_id r) = reservationId \<and> r_restaurantId r = restaurantId \<and>
           r_customerId r = Some customerId \<and> r_state r \<notin> {CANCELLED, NO_SHOW}) (reservations (ly_db g)))
       (LoyaltyGrantConflictError RESERVATION_INVALID)"

section \<open>Grants\<close>

record grant_result =
  gr_row :: grant_row
  gr_code :: "string option"
  gr_replayed :: bool

definition replayed_grant :: "grant_row \<Rightarrow> grant_result" where
  "replayed_grant r = \<lparr>gr_row = r, gr_code = None, gr_replayed = True\<rparr>"

definition grant_conflict :: "grant_row \<Rightarrow> grant_row \<Rightarrow> bool" where
  "grant_conflict x y \<longleftrightarrow> lg_id x = lg_id y \<or> same_some (lg_idempotencyKey x) (lg_idempotencyKey y) \<or>
     lg_codeHash x = lg_codeHash y"

definition insertGrant :: "grant_row \<Rightarrow> loyalty_db \<Rightarrow> loyalty_error + loyalty_db" where
  "insertGrant x g =
     (if \<exists>y \<in> set (ly_grants g). grant_conflict x y then Inl (LoyaltyDbError P2002)
      else Inr (g\<lparr>ly_grants := ly_grants g @ [x]\<rparr>))"

definition findGrantByIdempotency :: "string option \<Rightarrow> loyalty_db \<Rightarrow> grant_row option" where
  "findGrantByIdempotency key g =
     (if \<not> truthy key then None else find (\<lambda>x. lg_idempotencyKey x = key) (ly_grants g))"

record issue_input =
  ii_restaurantId :: id
  ii_benefitId :: id
  ii_customerId :: id
  ii_reservationId :: "id option"
  ii_idempotencyKey :: "string option"
  ii_actor :: string

text \<open>The clock, the random bytes, the new id, and what others commit before the \<open>k\<close>-th next access.\<close>

record grant_env =
  ge_now :: instant
  ge_bytes :: "nat list"
  ge_id :: id
  ge_race :: "nat \<Rightarrow> loyalty_db \<Rightarrow> loyalty_db"

text \<open>A grant that counts against the limit of a benefit.\<close>

definition live_grant :: "id \<Rightarrow> id \<Rightarrow> id \<Rightarrow> grant_row \<Rightarrow> bool" where
  "live_grant restaurantId benefitId customerId x \<longleftrightarrow> lg_restaurantId x = restaurantId \<and>
     lg_benefitId x = benefitId \<and> lg_customerId x = customerId \<and> lg_status x \<in> {LG_ISSUED, LG_REDEEMED}"

definition issue_tx :: "benefit_row \<Rightarrow> grant_row \<Rightarrow> loyalty_db \<Rightarrow> loyalty_error + loyalty_db \<times> grant_row" where
  "issue_tx benefit row g =
     (let used = count_where (live_grant (lg_restaurantId row) (lb_id benefit) (lg_customerId row)) (ly_grants g) in
      if int used \<ge> lb_maxUsesPerCustomer benefit then Inl (LoyaltyGrantConflictError GRANT_LIMIT_REACHED)
      else ebind (insertGrant row g) (\<lambda>g'. Inr (g', row)))"

definition new_grant :: "runtime \<Rightarrow> grant_env \<Rightarrow> issue_input \<Rightarrow> benefit_row \<Rightarrow> string option \<Rightarrow> grant_row" where
  "new_grant rt e i benefit key =
     \<lparr>lg_id = ge_id e, lg_restaurantId = ii_restaurantId i, lg_benefitId = lb_id benefit,
      lg_customerId = ii_customerId i, lg_reservationId = ii_reservationId i, lg_idempotencyKey = key,
      lg_codeHash = hashCode rt (generateCode (ge_bytes e)), lg_status = LG_ISSUED, lg_issuedAt = ge_now e,
      lg_expiresAt = ge_now e + lb_validityDays benefit * 24 * 60 * 60 * 1000, lg_redeemedAt = None,
      lg_voidedAt = None, lg_issuedByHash = hashActor rt (ii_actor i), lg_redeemedByHash = None,
      lg_redemptionNote = None\<rparr>"

text \<open>The transaction of an issue, and the look-up that a unique violation leads to.\<close>

definition issue_write :: "runtime \<Rightarrow> grant_env \<Rightarrow> issue_input \<Rightarrow> benefit_row \<Rightarrow> string option \<Rightarrow> loyalty_db \<Rightarrow>
    loyalty_db \<times> (loyalty_error + grant_result)" where
  "issue_write rt e i benefit key g =
     (case in_tx (issue_tx benefit (new_grant rt e i benefit key)) g of
        (g', Inr row) \<Rightarrow> (g', Inr \<lparr>gr_row = row, gr_code = Some (generateCode (ge_bytes e)), gr_replayed = False\<rparr>)
      | (g', Inl err) \<Rightarrow>
          if err = LoyaltyDbError P2002 \<and> truthy key then
            (let g6 = ge_race e 6 g' in
             case findGrantByIdempotency key g6 of
               Some raced \<Rightarrow> (g6, Inr (replayed_grant raced))
             | None \<Rightarrow> (g6, Inl err))
          else (g', Inl err))"

definition issueLoyaltyGrant :: "runtime \<Rightarrow> grant_env \<Rightarrow> issue_input \<Rightarrow> loyalty_db \<Rightarrow>
    loyalty_db \<times> (loyalty_error + grant_result)" where
  "issueLoyaltyGrant rt e i g =
     (case normalizeIdempotencyKey (ii_idempotencyKey i) of
        Inl err \<Rightarrow> (g, Inl err)
      | Inr raw \<Rightarrow>
        (let key = map_option (hashIdempotencyKey rt (ii_restaurantId i)) raw in
         case findGrantByIdempotency key g of
           Some x \<Rightarrow> (g, Inr (replayed_grant x))
         | None \<Rightarrow>
           (let g1 = ge_race e 1 g in
            case find (\<lambda>b. lb_id b = ii_benefitId i \<and> lb_restaurantId b = ii_restaurantId i \<and>
                         lb_status b = B_ACTIVE) (ly_benefits g1) of
              None \<Rightarrow> (g1, Inl LoyaltyBenefitNotFoundError)
            | Some benefit \<Rightarrow>
              (let g2 = ge_race e 2 g1; g3 = ge_race e 3 g2; g4 = ge_race e 4 g3 in
               case assertCustomerEligible (ii_restaurantId i) (ii_customerId i) benefit (ge_now e) g2 g3 of
                 Inl err \<Rightarrow> (g3, Inl err)
               | Inr _ \<Rightarrow>
                 (case assertReservationForCustomer (ii_restaurantId i) (ii_customerId i) (ii_reservationId i) g4 of
                    Inl err \<Rightarrow> (g4, Inl err)
                  | Inr _ \<Rightarrow> issue_write rt e i benefit key (ge_race e 5 g4))))))"

section \<open>Redemption\<close>

record redeem_input =
  ri_restaurantId :: id
  ri_grantId :: id
  ri_code :: string
  ri_reservationId :: "id option"
  ri_actor :: string
  ri_note :: "string option option"

definition find_grant :: "id \<Rightarrow> id \<Rightarrow> loyalty_db \<Rightarrow> grant_row option" where
  "find_grant restaurantId grantId g =
     find (\<lambda>x. lg_id x = grantId \<and> lg_restaurantId x = restaurantId) (ly_grants g)"

definition redeemable :: "id \<Rightarrow> grant_row \<Rightarrow> instant \<Rightarrow> grant_row \<Rightarrow> bool" where
  "redeemable restaurantId current now x \<longleftrightarrow> lg_id x = lg_id current \<and> lg_restaurantId x = restaurantId \<and>
     lg_status x = LG_ISSUED \<and> lg_expiresAt x > now \<and> lg_codeHash x = lg_codeHash current"

definition redeemed_row :: "runtime \<Rightarrow> redeem_input \<Rightarrow> string option option \<Rightarrow> instant \<Rightarrow> grant_row \<Rightarrow> grant_row" where
  "redeemed_row rt i note now x =
     x\<lparr>lg_status := LG_REDEEMED, lg_redeemedAt := Some now, lg_redeemedByHash := Some (hashActor rt (ri_actor i)),
       lg_reservationId := orElse_opt (ri_reservationId i) (lg_reservationId x),
       lg_redemptionNote := orElse note (lg_redemptionNote x)\<rparr>"

definition expire_ids :: "id list \<Rightarrow> loyalty_db \<Rightarrow> loyalty_db" where
  "expire_ids ids g = g\<lparr>ly_grants := upd_where (\<lambda>x. lg_id x \<in> set ids \<and> lg_status x = LG_ISSUED)
     (\<lambda>x. x\<lparr>lg_status := LG_EXPIRED\<rparr>) (ly_grants g)\<rparr>"

text \<open>The part of a redemption after the checks: the conditional update and what it found.\<close>

definition redeem_write :: "runtime \<Rightarrow> grant_env \<Rightarrow> redeem_input \<Rightarrow> string option option \<Rightarrow> grant_row \<Rightarrow> loyalty_db \<Rightarrow>
    loyalty_db \<times> (loyalty_error + grant_result)" where
  "redeem_write rt e i note current g2 =
     (let p = redeemable (ri_restaurantId i) current (ge_now e);
          g2' = g2\<lparr>ly_grants := upd_where p (redeemed_row rt i note (ge_now e)) (ly_grants g2)\<rparr>;
          g3 = ge_race e 3 g2'
      in if count_where p (ly_grants g2) \<noteq> 1 then
           (case find_grant (ri_restaurantId i) (lg_id current) g3 of
              Some latest \<Rightarrow> if lg_status latest = LG_REDEEMED then (g3, Inr (replayed_grant latest))
                            else (g3, Inl (LoyaltyGrantStateError GRANT_REDEMPTION_CONFLICT))
            | None \<Rightarrow> (g3, Inl (LoyaltyGrantStateError GRANT_REDEMPTION_CONFLICT)))
         else
           (case find_grant (ri_restaurantId i) (lg_id current) g3 of
              None \<Rightarrow> (g3, Inl LoyaltyGrantNotFoundError)
            | Some row \<Rightarrow> (g3, Inr \<lparr>gr_row = row, gr_code = None, gr_replayed = False\<rparr>)))"

definition redeemLoyaltyGrant :: "runtime \<Rightarrow> grant_env \<Rightarrow> redeem_input \<Rightarrow> loyalty_db \<Rightarrow>
    loyalty_db \<times> (loyalty_error + grant_result)" where
  "redeemLoyaltyGrant rt e i g =
     (case normalizeCode (ri_code i) of Inl err \<Rightarrow> (g, Inl err) | Inr code \<Rightarrow>
     (case normalizeNote (ri_note i) of Inl err \<Rightarrow> (g, Inl err) | Inr note \<Rightarrow>
     (case find_grant (ri_restaurantId i) (ri_grantId i) g of
        None \<Rightarrow> (g, Inl LoyaltyGrantNotFoundError)
      | Some current \<Rightarrow>
        if lg_codeHash current \<noteq> hashCode rt code then (g, Inl (LoyaltyInputError GRANT_CODE_INVALID))
        else
          (let g1 = ge_race e 1 g in
           case (if ri_reservationId i = None then Inr ()
                 else assertReservationForCustomer (ri_restaurantId i) (lg_customerId current) (ri_reservationId i) g1) of
             Inl err \<Rightarrow> (g1, Inl err)
           | Inr _ \<Rightarrow>
               if lg_status current = LG_REDEEMED then (g1, Inr (replayed_grant current))
               else if lg_status current = LG_VOID then (g1, Inl (LoyaltyGrantStateError GRANT_VOID))
               else
                 (let g2 = ge_race e 2 g1 in
                  if lg_status current = LG_EXPIRED \<or> lg_expiresAt current \<le> ge_now e then
                    (g2\<lparr>ly_grants := upd_where (\<lambda>x. lg_id x = lg_id current \<and>
                          lg_restaurantId x = ri_restaurantId i \<and> lg_status x = LG_ISSUED)
                          (\<lambda>x. x\<lparr>lg_status := LG_EXPIRED\<rparr>) (ly_grants g2)\<rparr>,
                     Inl (LoyaltyGrantStateError GRANT_EXPIRED))
                  else redeem_write rt e i note current g2)))))"

section \<open>Cancellation and expiry\<close>

record void_input =
  vi_restaurantId :: id
  vi_grantId :: id
  vi_actor :: string
  vi_note :: "string option option"

definition voided_row :: "runtime \<Rightarrow> void_input \<Rightarrow> string option option \<Rightarrow> instant \<Rightarrow> grant_row \<Rightarrow> grant_row" where
  "voided_row rt i note now x =
     x\<lparr>lg_status := LG_VOID, lg_voidedAt := Some now, lg_redemptionNote := orElse note (lg_redemptionNote x),
       lg_redeemedByHash := Some (hashActor rt (vi_actor i))\<rparr>"

definition voidLoyaltyGrant :: "runtime \<Rightarrow> grant_env \<Rightarrow> void_input \<Rightarrow> loyalty_db \<Rightarrow>
    loyalty_db \<times> (loyalty_error + grant_row)" where
  "voidLoyaltyGrant rt e i g =
     (case normalizeNote (vi_note i) of Inl err \<Rightarrow> (g, Inl err) | Inr note \<Rightarrow>
       (let p = (\<lambda>x. lg_id x = vi_grantId i \<and> lg_restaurantId x = vi_restaurantId i \<and> lg_status x = LG_ISSUED);
            g' = g\<lparr>ly_grants := upd_where p (voided_row rt i note (ge_now e)) (ly_grants g)\<rparr>;
            g1 = ge_race e 1 g'
        in case find_grant (vi_restaurantId i) (vi_grantId i) g1 of
             None \<Rightarrow> (g1, Inl LoyaltyGrantNotFoundError)
           | Some current \<Rightarrow>
               if count_where p (ly_grants g) = 1 then (g1, Inr current)
               else (case lg_status current of
                       LG_REDEEMED \<Rightarrow> (g1, Inl (LoyaltyGrantStateError GRANT_ALREADY_REDEEMED))
                     | LG_VOID \<Rightarrow> (g1, Inr current)
                     | LG_EXPIRED \<Rightarrow> (g1, Inl (LoyaltyGrantStateError GRANT_EXPIRED))
                     | LG_ISSUED \<Rightarrow> (g1, Inl (LoyaltyGrantStateError GRANT_REDEMPTION_CONFLICT)))))"

abbreviation (input) MAX_EXPIRY_SCAN :: int where "MAX_EXPIRY_SCAN \<equiv> 1000"

definition expireLoyaltyGrants :: "instant \<Rightarrow> int option \<Rightarrow> (loyalty_db \<Rightarrow> loyalty_db) \<Rightarrow> loyalty_db \<Rightarrow> loyalty_db \<times> nat" where
  "expireLoyaltyGrants now limit race g =
     (let n = min (max (orElse limit MAX_EXPIRY_SCAN) 1) MAX_EXPIRY_SCAN;
          due = filter (\<lambda>x. lg_status x = LG_ISSUED \<and> lg_expiresAt x \<le> now) (ly_grants g);
          rows = take (nat n) (js_sort (\<lambda>x y. lg_expiresAt x - lg_expiresAt y) due);
          g1 = race g
      in if rows = [] then (g, 0)
         else (expire_ids (map lg_id rows) g1,
               count_where (\<lambda>x. lg_id x \<in> set (map lg_id rows) \<and> lg_status x = LG_ISSUED) (ly_grants g1)))"

text \<open>\<open>listLoyaltyGrants\<close>: by status, in the order of the enumeration, then the latest issue first.\<close>

definition status_rank :: "grant_status \<Rightarrow> int" where
  "status_rank st = (case st of LG_ISSUED \<Rightarrow> 0 | LG_REDEEMED \<Rightarrow> 1 | LG_VOID \<Rightarrow> 2 | LG_EXPIRED \<Rightarrow> 3)"

definition listLoyaltyGrants :: "id \<Rightarrow> id option \<Rightarrow> grant_status option \<Rightarrow> int option \<Rightarrow> loyalty_db \<Rightarrow> grant_row list" where
  "listLoyaltyGrants restaurantId customerId status limit g =
     take (nat (min (max (orElse limit 100) 1) 100))
       (js_sort (\<lambda>x y. cmp_or (status_rank (lg_status x) - status_rank (lg_status y)) (lg_issuedAt y - lg_issuedAt x))
         (filter (\<lambda>x. lg_restaurantId x = restaurantId \<and> (truthy customerId \<longrightarrow> Some (lg_customerId x) = customerId) \<and>
            (status \<noteq> None \<longrightarrow> Some (lg_status x) = status)) (ly_grants g)))"

section \<open>Commits\<close>

text \<open>
  What one commit can do to the grants: issue one under the limit read, redeem, void or expire issued
  ones; everything else leaves the grants alone. \<open>M\<close> bounds the limits of the benefits.
\<close>

definition benefits_below :: "(id \<Rightarrow> nat) \<Rightarrow> loyalty_db \<Rightarrow> bool" where
  "benefits_below M g \<longleftrightarrow> (\<forall>b \<in> set (ly_benefits g). lb_maxUsesPerCustomer b \<le> int (M (lb_id b)))"

inductive grant_commit :: "(id \<Rightarrow> nat) \<Rightarrow> loyalty_db \<Rightarrow> loyalty_db \<Rightarrow> bool" for M where
  gc_issue: "issue_tx b row g = Inr (g', row') \<Longrightarrow> lb_maxUsesPerCustomer b \<le> int (M (lb_id b)) \<Longrightarrow>
     lg_benefitId row = lb_id b \<Longrightarrow> grant_commit M g g'"
| gc_redeem: "grant_commit M g (g\<lparr>ly_grants := upd_where (redeemable rid cur now) (redeemed_row rt i note now) (ly_grants g)\<rparr>)"
| gc_void: "grant_commit M g (g\<lparr>ly_grants := upd_where (\<lambda>x. lg_id x = gid \<and> lg_restaurantId x = rid \<and> lg_status x = LG_ISSUED)
     (voided_row rt v note now) (ly_grants g)\<rparr>)"
| gc_expire: "(\<And>x. p x \<Longrightarrow> lg_status x = LG_ISSUED) \<Longrightarrow>
     grant_commit M g (g\<lparr>ly_grants := upd_where p (\<lambda>x. x\<lparr>lg_status := LG_EXPIRED\<rparr>) (ly_grants g)\<rparr>)"
| gc_other: "ly_grants g' = ly_grants g \<Longrightarrow> benefits_below M g' \<Longrightarrow> grant_commit M g g'"

inductive_cases grant_commitE: "grant_commit M g g'"

interpretation grant_table: constrained_table lg_id grant_conflict
  by unfold_locales (simp add: grant_conflict_def same_some_def; metis)

text \<open>The invariant: constraints of the table, limits of the benefits, live grants within the limits.\<close>

definition loyalty_ok :: "(id \<Rightarrow> nat) \<Rightarrow> loyalty_db \<Rightarrow> bool" where
  "loyalty_ok M g \<longleftrightarrow> table_ok lg_id grant_conflict (ly_grants g) \<and> benefits_below M g \<and>
     (\<forall>rid bid cid. count_where (live_grant rid bid cid) (ly_grants g) \<le> M bid)"

text \<open>A write that moves issued rows out of \<open>ISSUED\<close> and keeps what identifies them.\<close>

definition same_grant :: "grant_row \<Rightarrow> grant_row \<Rightarrow> bool" where
  "same_grant x y \<longleftrightarrow> lg_id y = lg_id x \<and> lg_restaurantId y = lg_restaurantId x \<and> lg_benefitId y = lg_benefitId x \<and>
     lg_customerId y = lg_customerId x \<and> lg_idempotencyKey y = lg_idempotencyKey x \<and> lg_codeHash y = lg_codeHash x \<and>
     lg_issuedAt y = lg_issuedAt x \<and> lg_expiresAt y = lg_expiresAt x"

definition closes :: "(grant_row \<Rightarrow> bool) \<Rightarrow> (grant_row \<Rightarrow> grant_row) \<Rightarrow> bool" where
  "closes p f \<longleftrightarrow> (\<forall>x. same_grant x (f x)) \<and> (\<forall>x. p x \<longrightarrow> lg_status x = LG_ISSUED)"

lemma closes_redeem: "closes (redeemable rid cur now) (redeemed_row rt i note now)"
  by (simp add: closes_def same_grant_def redeemable_def redeemed_row_def)

lemma closes_void: "closes (\<lambda>x. lg_id x = gid \<and> lg_restaurantId x = rid \<and> lg_status x = LG_ISSUED) (voided_row rt v note now)"
  by (simp add: closes_def same_grant_def voided_row_def)

lemma closes_expire: "(\<And>x. p x \<Longrightarrow> lg_status x = LG_ISSUED) \<Longrightarrow> closes p (\<lambda>x. x\<lparr>lg_status := LG_EXPIRED\<rparr>)"
  by (simp add: closes_def same_grant_def)

lemmas closing = closes_redeem closes_void closes_expire

lemma count_where_upd_le:
  assumes "\<And>x. p x \<Longrightarrow> q (f x) \<Longrightarrow> q x"
  shows "count_where q (upd_where p f xs) \<le> count_where q xs"
  using assms by (induction xs) auto

lemma closes_ok:
  assumes ok: "loyalty_ok M g" and c: "closes p f"
  shows "loyalty_ok M (g\<lparr>ly_grants := upd_where p f (ly_grants g)\<rparr>)"
proof -
  have same: "same_grant x (f x)" and issued: "p x \<Longrightarrow> lg_status x = LG_ISSUED" for x
    using c by (auto simp: closes_def)
  have "table_ok lg_id grant_conflict (upd_where p f (ly_grants g))"
    using ok same by (intro grant_table.frame_ok) (auto simp: loyalty_ok_def same_grant_def grant_conflict_def)
  moreover have "count_where (live_grant rid bid cid) (upd_where p f (ly_grants g)) \<le> M bid" for rid bid cid
    using ok by (intro order_trans [OF count_where_upd_le])
      (use same issued in \<open>auto simp: live_grant_def same_grant_def loyalty_ok_def\<close>)
  ultimately show ?thesis using ok by (simp add: loyalty_ok_def benefits_below_def)
qed

lemma issue_tx_InrE:
  assumes "issue_tx b row g = Inr (g', row')"
  obtains "row' = row" "g' = g\<lparr>ly_grants := ly_grants g @ [row]\<rparr>"
    "int (count_where (live_grant (lg_restaurantId row) (lb_id b) (lg_customerId row)) (ly_grants g)) < lb_maxUsesPerCustomer b"
    "\<forall>y \<in> set (ly_grants g). \<not> grant_conflict row y"
  using assms by (auto simp: issue_tx_def Let_def insertGrant_def split: if_splits elim!: ebind_InrE)

lemma grant_commit_ok: "grant_commit M g g' \<Longrightarrow> loyalty_ok M g \<Longrightarrow> loyalty_ok M g'"
proof (induction rule: grant_commit.induct)
  case (gc_issue b row g g' row')
  show ?case
  proof (rule issue_tx_InrE [OF gc_issue.hyps(1)])
    assume g': "g' = g\<lparr>ly_grants := ly_grants g @ [row]\<rparr>"
      and free: "int (count_where (live_grant (lg_restaurantId row) (lb_id b) (lg_customerId row)) (ly_grants g)) < lb_maxUsesPerCustomer b"
      and new: "\<forall>y \<in> set (ly_grants g). \<not> grant_conflict row y"
    have "table_ok lg_id grant_conflict (ly_grants g')"
    proof -
      have "table_ok lg_id grant_conflict (ly_grants g @ [row])"
      proof (rule grant_table.insert_ok)
        fix y assume "y \<in> set (ly_grants g)"
        then have "\<not> grant_conflict row y" using new by blast
        then show "lg_id row \<noteq> lg_id y \<and> \<not> grant_conflict row y" by (simp add: grant_conflict_def)
      qed (use gc_issue.prems in \<open>simp add: loyalty_ok_def\<close>)
      then show ?thesis by (simp add: g')
    qed
    moreover have "count_where (live_grant rid bid cid) (ly_grants g') \<le> M bid" for rid bid cid
    proof -
      have "count_where (live_grant rid bid cid) (ly_grants g) \<le> M bid" using gc_issue.prems by (simp add: loyalty_ok_def)
      then show ?thesis using free gc_issue.hyps(2,3) by (auto simp: g' live_grant_def)
    qed
    ultimately show ?thesis using gc_issue.prems by (simp add: loyalty_ok_def benefits_below_def g')
  qed
next
  case (gc_other g' g)
  then show ?case by (simp add: loyalty_ok_def)
qed (rule closes_ok, assumption, rule closing, assumption?)+

lemma grant_commits_ok: "(grant_commit M)\<^sup>*\<^sup>* g g' \<Longrightarrow> loyalty_ok M g \<Longrightarrow> loyalty_ok M g'"
  by (induction rule: rtranclp_induct) (auto dest: grant_commit_ok)

text \<open>A grant that has left \<open>ISSUED\<close> never changes again; one that has not keeps what identifies it.\<close>

definition grants_kept :: "loyalty_db \<Rightarrow> loyalty_db \<Rightarrow> bool" where
  "grants_kept g h \<longleftrightarrow> (\<forall>x \<in> set (ly_grants g). \<exists>y \<in> set (ly_grants h). same_grant x y \<and>
     (lg_status x \<noteq> LG_ISSUED \<longrightarrow> y = x))"

lemma grants_kept_refl [simp]: "grants_kept g g"
  by (auto simp: grants_kept_def same_grant_def)

lemma grants_kept_trans: "grants_kept g h \<Longrightarrow> grants_kept h k \<Longrightarrow> grants_kept g k"
  unfolding grants_kept_def same_grant_def by metis

lemma closes_kept: "closes p f \<Longrightarrow> grants_kept g (g\<lparr>ly_grants := upd_where p f (ly_grants g)\<rparr>)"
  unfolding grants_kept_def
proof (intro ballI)
  fix x assume c: "closes p f" and x: "x \<in> set (ly_grants g)"
  have "(if p x then f x else x) \<in> set (upd_where p f (ly_grants g))" using x by (auto simp: set_upd_where)
  then show "\<exists>y \<in> set (ly_grants (g\<lparr>ly_grants := upd_where p f (ly_grants g)\<rparr>)). same_grant x y \<and> (lg_status x \<noteq> LG_ISSUED \<longrightarrow> y = x)"
    using c by (intro bexI [where x = "if p x then f x else x"]) (auto simp: closes_def same_grant_def)
qed

lemma grant_commit_kept: "grant_commit M g g' \<Longrightarrow> grants_kept g g'"
proof (induction rule: grant_commit.induct)
  case (gc_issue b row g g' row')
  then show ?case by (auto simp: grants_kept_def same_grant_def elim!: issue_tx_InrE)
next
  case (gc_other g' g)
  then show ?case by (auto simp: grants_kept_def same_grant_def)
qed (auto intro: closes_kept closing)

lemma grant_commits_kept: "(grant_commit M)\<^sup>*\<^sup>* g g' \<Longrightarrow> grants_kept g g'"
  by (induction rule: rtranclp_induct) (auto dest: grant_commit_kept intro: grants_kept_trans)

section \<open>The operations as runs of commits\<close>

text \<open>
  What others commit during an operation: runs of commits, whatever the state they start from. Each
  operation is then a run itself, so operations interleave freely.
\<close>

definition runs :: "(id \<Rightarrow> nat) \<Rightarrow> (loyalty_db \<Rightarrow> loyalty_db) \<Rightarrow> bool" where
  "runs M f \<longleftrightarrow> (\<forall>h. (grant_commit M)\<^sup>*\<^sup>* h (f h))"

lemma runsD: "runs M f \<Longrightarrow> (grant_commit M)\<^sup>*\<^sup>* h (f h)"
  by (simp add: runs_def)

lemma runs_id [simp]: "runs M (\<lambda>h. h)"
  by (simp add: runs_def)

lemma race_after:
  "(grant_commit M)\<^sup>*\<^sup>* g h \<Longrightarrow> runs M (ge_race e k) \<Longrightarrow> (grant_commit M)\<^sup>*\<^sup>* g (ge_race e k h)"
  using runsD [of M "ge_race e k" h] by (meson rtranclp_trans)

lemma commit_after: "(grant_commit M)\<^sup>*\<^sup>* g h \<Longrightarrow> grant_commit M h k \<Longrightarrow> (grant_commit M)\<^sup>*\<^sup>* g k"
  by (rule rtranclp.rtrancl_into_rtrancl)

lemmas running = rtranclp.rtrancl_refl race_after commit_after [OF _ gc_redeem] commit_after [OF _ gc_void]
  commit_after [OF _ gc_expire]

lemma benefits_below_run: "(grant_commit M)\<^sup>*\<^sup>* g h \<Longrightarrow> benefits_below M g \<Longrightarrow> benefits_below M h"
proof (induction rule: rtranclp_induct)
  case (step h k)
  from step.hyps(2) step.IH [OF step.prems] show ?case
    by (cases rule: grant_commit.cases) (auto simp: benefits_below_def elim!: issue_tx_InrE)
qed simp

lemma issue_write_run:
  assumes "issue_write rt e i b key g = (g', r)" "runs M (ge_race e 6)"
    and "lb_maxUsesPerCustomer b \<le> int (M (lb_id b))"
  shows "(grant_commit M)\<^sup>*\<^sup>* g g'"
proof (cases "issue_tx b (new_grant rt e i b key) g")
  case (Inr x)
  then have "grant_commit M g g'"
    using assms(1) gc_issue [where b = b and row = "new_grant rt e i b key" and g = g and M = M] assms(3)
    by (cases x) (auto simp: issue_write_def in_tx_def new_grant_def)
  then show ?thesis by blast
next
  case (Inl err)
  then have "g' = g \<or> g' = ge_race e 6 g"
    using assms(1) by (auto simp: issue_write_def in_tx_def Let_def split: if_splits option.splits)
  then show ?thesis using runsD [OF assms(2)] by auto
qed

lemma issue_run:
  assumes run: "issueLoyaltyGrant rt e i g = (g', r)" and others: "\<And>k. runs M (ge_race e k)"
    and below: "benefits_below M g"
  shows "(grant_commit M)\<^sup>*\<^sup>* g g'"
proof -
  let ?g1 = "ge_race e 1 g" let ?g3 = "ge_race e 3 (ge_race e 2 ?g1)" let ?g4 = "ge_race e 4 ?g3"
  have path: "(grant_commit M)\<^sup>*\<^sup>* g ?g1" "(grant_commit M)\<^sup>*\<^sup>* g ?g3" "(grant_commit M)\<^sup>*\<^sup>* g ?g4"
      "(grant_commit M)\<^sup>*\<^sup>* g (ge_race e 5 ?g4)"
    by (intro running others)+
  have max: "lb_maxUsesPerCustomer b \<le> int (M (lb_id b))" if "find p (ly_benefits ?g1) = Some b" for p b
    using benefits_below_run [OF path(1) below] find_Some_D [OF that] by (simp add: benefits_below_def)
  show ?thesis
    using run path issue_write_run [OF _ others max] rtranclp_trans [OF path(4)]
    by (auto simp: issueLoyaltyGrant_def Let_def split: sum.splits option.splits)
qed

lemma redeem_run:
  assumes "redeemLoyaltyGrant rt e i g = (g', r)" "\<And>k. runs M (ge_race e k)"
  shows "(grant_commit M)\<^sup>*\<^sup>* g g'"
proof -
  let ?g2 = "ge_race e 2 (ge_race e 1 g)"
  have "(grant_commit M)\<^sup>*\<^sup>* g (ge_race e 1 g)" "(grant_commit M)\<^sup>*\<^sup>* g ?g2"
    by (intro running assms(2))+
  moreover have "(grant_commit M)\<^sup>*\<^sup>* g (?g2\<lparr>ly_grants := upd_where (\<lambda>x. lg_id x = gid \<and> lg_restaurantId x = rid \<and>
      lg_status x = LG_ISSUED) (\<lambda>x. x\<lparr>lg_status := LG_EXPIRED\<rparr>) (ly_grants ?g2)\<rparr>)" for gid rid
    by (intro running assms(2)) simp
  moreover have "(grant_commit M)\<^sup>*\<^sup>* g k" if "redeem_write rt e i nt cur ?g2 = (k, x)" for nt cur k x
  proof -
    have "(grant_commit M)\<^sup>*\<^sup>* g (ge_race e 3 (?g2\<lparr>ly_grants := upd_where (redeemable (ri_restaurantId i) cur (ge_now e))
        (redeemed_row rt i nt (ge_now e)) (ly_grants ?g2)\<rparr>))"
      by (intro running assms(2))
    then show ?thesis using that by (auto simp: redeem_write_def Let_def split: if_splits option.splits)
  qed
  ultimately show ?thesis
    using assms(1) by (auto simp: redeemLoyaltyGrant_def Let_def split: sum.splits option.splits if_splits)
qed

lemma void_run:
  assumes "voidLoyaltyGrant rt e i g = (g', r)" "\<And>k. runs M (ge_race e k)"
  shows "(grant_commit M)\<^sup>*\<^sup>* g g'"
proof -
  have "(grant_commit M)\<^sup>*\<^sup>* g (ge_race e 1 (g\<lparr>ly_grants := upd_where (\<lambda>x. lg_id x = vi_grantId i \<and>
      lg_restaurantId x = vi_restaurantId i \<and> lg_status x = LG_ISSUED) (voided_row rt i nt (ge_now e)) (ly_grants g)\<rparr>))" for nt
    by (intro running assms(2))
  then show ?thesis
    using assms(1) by (auto simp: voidLoyaltyGrant_def Let_def split: sum.splits option.splits if_splits grant_status.splits)
qed

lemma expire_run:
  assumes "expireLoyaltyGrants now limit race g = (g', n)" "runs M race"
  shows "(grant_commit M)\<^sup>*\<^sup>* g g'"
proof -
  have "grant_commit M (race g) (expire_ids ids (race g))" for ids
    unfolding expire_ids_def by (rule gc_expire) simp
  then have "(grant_commit M)\<^sup>*\<^sup>* g (expire_ids ids (race g))" for ids
    by (rule commit_after [OF runsD [OF assms(2)]])
  then show ?thesis using assms(1) by (auto simp: expireLoyaltyGrants_def Let_def split: if_splits)
qed

section \<open>Benefits are well formed\<close>

definition benefit_ok :: "benefit_row \<Rightarrow> bool" where
  "benefit_ok b \<longleftrightarrow> benefit_checks b \<and> rule_value_check b = Some True \<and> lb_name b \<noteq> [] \<and> length (lb_name b) \<le> 120"

lemma normalizeRuleValue_check:
  assumes "normalizeRuleValue rule v = Inr w" "lb_rule b = rule" "lb_ruleValue b = w"
  shows "rule_value_check b = Some True"
proof -
  have "(Some n = lb_ruleValue b) = (lb_ruleValue b = Some n)" for n by auto
  then show ?thesis
    using assms by (cases rule; cases v)
      (auto simp: normalizeRuleValue_def rule_value_check_def sql_or_def sql_and_def sql_between_def isInteger_def
        split: if_splits)
qed

lemma normalize_bounds:
  "normalizeCostCents v = Inr c \<Longrightarrow> sql_between c 0 1000000 \<noteq> Some False"
  "normalizeCurrency u = Inr cur \<Longrightarrow> cur = ''EUR''"
  "normalizeValidityDays x = Inr d \<Longrightarrow> 1 \<le> d \<and> d \<le> 365"
  "normalizeMaxUses y = Inr m \<Longrightarrow> 1 \<le> m \<and> m \<le> 100"
  "normalizeName n = Inr nm \<Longrightarrow> nm \<noteq> [] \<and> length nm \<le> 120"
  by (auto simp: normalizeCostCents_def normalizeCurrency_def normalizeValidityDays_def normalizeMaxUses_def
      normalizeName_def sql_between_def Let_def floor_le_iff le_floor_iff isInteger_def split: option.splits if_splits)

lemma new_benefit_ok: "new_benefit rt i newId = Inr b \<Longrightarrow> benefit_ok b"
proof -
  assume new: "new_benefit rt i newId = Inr b"
  then have "rule_value_check b = Some True"
    by (auto simp: new_benefit_def Let_def elim!: ebind_InrE intro!: normalizeRuleValue_check)
  then show ?thesis
    using new by (auto simp: new_benefit_def Let_def benefit_ok_def benefit_checks_def elim!: ebind_InrE dest: normalize_bounds)
qed

text \<open>An update applied to the row it read keeps it well formed.\<close>

lemma update_data_ok:
  assumes "update_data i b = Inr d" "benefit_ok b"
  shows "benefit_ok (apply_data d b)"
proof -
  obtain name desc rv cost cur days mx where n: "when_given (ub_name i) normalizeName = Inr name"
    and rv: "(if ub_ruleValue i \<noteq> None \<or> ub_rule i \<noteq> None then
               ebind (normalizeRuleValue (orElse (ub_rule i) (lb_rule b))
                 (orElse_opt (orElse (ub_ruleValue i) None)
                   (if ub_rule i \<noteq> None then None else map_option of_int (lb_ruleValue b))))
                 (\<lambda>x. Inr (Some x))
             else Inr None) = (Inr rv :: loyalty_error + int option option)"
    and c: "when_given (ub_costCents i) normalizeCostCents = Inr cost"
    and u: "when_given (ub_currency i) (\<lambda>c. normalizeCurrency (Some c)) = Inr cur"
    and dy: "when_given (ub_validityDays i) (\<lambda>d. normalizeValidityDays (Some d)) = Inr days"
    and m: "when_given (ub_maxUsesPerCustomer i) (\<lambda>d. normalizeMaxUses (Some d)) = Inr mx"
    and d: "d = \<lparr>bd_name = name, bd_description = desc, bd_rule = ub_rule i, bd_ruleValue = rv,
      bd_costCents = cost, bd_currency = cur, bd_validityDays = days, bd_maxUsesPerCustomer = mx, bd_status = ub_status i\<rparr>"
    using assms(1) unfolding update_data_def Let_def by (elim ebind_InrE) (simp, blast)
  have b: "benefit_checks b" "rule_value_check b = Some True" "lb_name b \<noteq> [] \<and> length (lb_name b) \<le> 120"
    using assms(2) by (auto simp: benefit_ok_def)
  have "rule_value_check (apply_data d b) = Some True"
  proof (cases "ub_ruleValue i \<noteq> None \<or> ub_rule i \<noteq> None")
    case True
    then show ?thesis using rv
      by (auto simp: apply_data_def d elim!: ebind_InrE intro!: normalizeRuleValue_check)
  next
    case False
    then show ?thesis using rv b(2) by (auto simp: apply_data_def d rule_value_check_def)
  qed
  moreover have "sql_between (lb_costCents (apply_data d b)) 0 1000000 \<noteq> Some False"
    using when_given_ok [OF c, of "\<lambda>x. sql_between x 0 1000000 \<noteq> Some False"] normalize_bounds(1) b(1)
    by (simp add: apply_data_def d benefit_checks_def)
  moreover have "lb_currency (apply_data d b) = ''EUR''"
    using when_given_ok [OF u, of "\<lambda>x. x = ''EUR''"] normalize_bounds(2) b(1)
    by (simp add: apply_data_def d benefit_checks_def)
  moreover have "1 \<le> lb_validityDays (apply_data d b) \<and> lb_validityDays (apply_data d b) \<le> 365"
    using when_given_ok [OF dy, of "\<lambda>x. 1 \<le> x \<and> x \<le> 365"] normalize_bounds(3) b(1)
    by (simp add: apply_data_def d benefit_checks_def)
  moreover have "1 \<le> lb_maxUsesPerCustomer (apply_data d b) \<and> lb_maxUsesPerCustomer (apply_data d b) \<le> 100"
    using when_given_ok [OF m, of "\<lambda>x. 1 \<le> x \<and> x \<le> 100"] normalize_bounds(4) b(1)
    by (simp add: apply_data_def d benefit_checks_def)
  moreover have "lb_name (apply_data d b) \<noteq> [] \<and> length (lb_name (apply_data d b)) \<le> 120"
    using when_given_ok [OF n, of "\<lambda>x. x \<noteq> [] \<and> length x \<le> 120"] normalize_bounds(5) b(3)
    by (simp add: apply_data_def d)
  ultimately show ?thesis by (simp add: benefit_ok_def benefit_checks_def)
qed

text \<open>
  An update reads the row first and writes only the columns it was given. Two of them at the same time
  can leave a benefit for a number of visits without the number, and the constraint lets it pass: its
  comparison is unknown, not false. Nobody is eligible then.
\<close>

definition plain_update :: update_benefit where
  "plain_update = \<lparr>ub_restaurantId = ''r'', ub_benefitId = ''b'', ub_name = None, ub_description = None, ub_rule = None,
     ub_ruleValue = None, ub_costCents = None, ub_currency = None, ub_validityDays = None,
     ub_maxUsesPerCustomer = None, ub_status = None\<rparr>"

definition coffee :: benefit_row where
  "coffee = \<lparr>lb_id = ''b'', lb_restaurantId = ''r'', lb_key = ''coffee'', lb_name = ''Coffee'', lb_description = None,
     lb_rule = R_ANY, lb_ruleValue = None, lb_costCents = Some 150, lb_currency = ''EUR'', lb_validityDays = 30,
     lb_maxUsesPerCustomer = 1, lb_status = B_ACTIVE, lb_createdByHash = ''h''\<rparr>"

definition loyal_guest :: loyalty_db where
  "loyal_guest = \<lparr>ly_db = empty_db, ly_siteStatus = (\<lambda>_. Some ''ACTIVE''),
     ly_customers = [\<lparr>lk_id = ''c'', lk_restaurantId = ''r'', lk_archivedAt = None, lk_mergedIntoId = None,
       lk_isVip = False, lk_birthMonth = None, lk_estimatedSpend365d = None\<rparr>],
     ly_benefits = [coffee], ly_grants = []\<rparr>"

lemma concurrent_updates_lose_the_rule_value:
  "let race = (\<lambda>g. fst (updateLoyaltyBenefit (plain_update\<lparr>ub_rule := Some R_MIN_VISITS, ub_ruleValue := Some (Some 3)\<rparr>) (\<lambda>g. g) g)) in
   case updateLoyaltyBenefit (plain_update\<lparr>ub_ruleValue := Some None\<rparr>) race loyal_guest of
     (g', Inr b) \<Rightarrow> ly_benefits g' = [b] \<and> lb_rule b = R_MIN_VISITS \<and> lb_ruleValue b = None \<and> rule_value_check b = None
   | _ \<Rightarrow> False"
  by code_simp

section \<open>Runs of the service\<close>

inductive loyalty_step :: "runtime \<Rightarrow> (id \<Rightarrow> nat) \<Rightarrow> loyalty_db \<Rightarrow> loyalty_db \<Rightarrow> bool" for rt M where
  ls_create: "createLoyaltyBenefit rt i newId race g = (g', r) \<Longrightarrow> runs M race \<Longrightarrow> benefits_below M g' \<Longrightarrow>
     loyalty_step rt M g g'"
| ls_update: "updateLoyaltyBenefit u race g = (g', r) \<Longrightarrow> runs M race \<Longrightarrow> benefits_below M g' \<Longrightarrow> loyalty_step rt M g g'"
| ls_issue: "issueLoyaltyGrant rt e j g = (g', r') \<Longrightarrow> \<forall>k. runs M (ge_race e k) \<Longrightarrow> loyalty_step rt M g g'"
| ls_redeem: "redeemLoyaltyGrant rt e k g = (g', r') \<Longrightarrow> \<forall>k. runs M (ge_race e k) \<Longrightarrow> loyalty_step rt M g g'"
| ls_void: "voidLoyaltyGrant rt e v g = (g', r'') \<Longrightarrow> \<forall>k. runs M (ge_race e k) \<Longrightarrow> loyalty_step rt M g g'"
| ls_expire: "expireLoyaltyGrants now limit race g = (g', n) \<Longrightarrow> runs M race \<Longrightarrow> loyalty_step rt M g g'"

lemma create_run:
  "createLoyaltyBenefit rt i newId race g = (g', r) \<Longrightarrow> runs M race \<Longrightarrow> benefits_below M g' \<Longrightarrow> (grant_commit M)\<^sup>*\<^sup>* g g'"
  using runsD [of M race g] gc_other [of g' "race g" M]
  by (auto simp: createLoyaltyBenefit_def Let_def split: sum.splits if_splits intro: rtranclp.rtrancl_into_rtrancl)

lemma update_run:
  "updateLoyaltyBenefit i race g = (g', r) \<Longrightarrow> runs M race \<Longrightarrow> benefits_below M g' \<Longrightarrow> (grant_commit M)\<^sup>*\<^sup>* g g'"
  using runsD [of M race g] gc_other [of g' "race g" M]
  by (auto simp: updateLoyaltyBenefit_def Let_def split: sum.splits if_splits option.splits intro: rtranclp.rtrancl_into_rtrancl)

lemma loyalty_step_run: "loyalty_step rt M g g' \<Longrightarrow> benefits_below M g \<Longrightarrow> (grant_commit M)\<^sup>*\<^sup>* g g'"
  by (induction rule: loyalty_step.induct)
    (auto intro: create_run update_run issue_run redeem_run void_run expire_run)

lemma loyalty_steps_run: "(loyalty_step rt M)\<^sup>*\<^sup>* g g' \<Longrightarrow> benefits_below M g \<Longrightarrow> (grant_commit M)\<^sup>*\<^sup>* g g'"
proof (induction rule: rtranclp_induct)
  case (step h k)
  note run = step.IH [OF step.prems]
  show ?case
    using rtranclp_trans [OF run loyalty_step_run [OF step.hyps(2) benefits_below_run [OF run step.prems]]] .
qed simp

definition grant_edge :: "grant_status \<Rightarrow> grant_status \<Rightarrow> bool" where
  "grant_edge a b \<longleftrightarrow> a = LG_ISSUED \<and> b \<noteq> LG_ISSUED"

definition grant_status_of :: "loyalty_db \<Rightarrow> id \<Rightarrow> grant_status option" where
  "grant_status_of g k = map_option lg_status (find (\<lambda>x. lg_id x = k) (ly_grants g))"

lemma grant_status_after:
  assumes "closes p f" "\<And>x. lg_status (f x) \<noteq> LG_ISSUED" "grant_status_of g k = Some s"
  shows "\<exists>s'. grant_status_of (g\<lparr>ly_grants := upd_where p f (ly_grants g)\<rparr>) k = Some s' \<and> grant_edge\<^sup>*\<^sup>* s s'"
proof -
  have "\<exists>s'. map_option lg_status (find (\<lambda>x. lg_id x = k) (upd_where p f (ly_grants g))) = Some s' \<and> grant_edge\<^sup>*\<^sup>* s s'"
    using assms by (intro status_after_update [where key = lg_id])
      (auto simp: closes_def same_grant_def grant_edge_def grant_status_of_def)
  then show ?thesis by (simp add: grant_status_of_def)
qed

lemma grant_commit_edge:
  assumes "grant_commit M g g'" "grant_status_of g k = Some s"
  shows "\<exists>s'. grant_status_of g' k = Some s' \<and> grant_edge\<^sup>*\<^sup>* s s'"
  using assms
proof (induction rule: grant_commit.induct)
  case (gc_issue b row g g' row')
  then have "grant_status_of g' k = Some s"
    by (auto simp: grant_status_of_def find_append elim!: issue_tx_InrE)
  then show ?case by blast
next
  case (gc_other g' g)
  then have "grant_status_of g' k = Some s" by (simp add: grant_status_of_def)
  then show ?case by blast
qed (rule grant_status_after, rule closing, assumption?, simp add: redeemed_row_def voided_row_def, assumption)+

interpretation grant_machine: status_machine grant_edge grant_status_of "grant_commit M" for M
  by unfold_locales (rule grant_commit_edge)

text \<open>
  Over any run of the service (benefits created and changed, grants issued, redeemed, voided and
  expired, each interleaved in any way with the commits of others): a customer never has more live grants
  of a benefit than the largest limit the benefit had, no two grants share a code, and a grant that was
  redeemed, voided or expired never changes again, so none is redeemed twice.
\<close>

lemma grants_limited_and_final:
  assumes "(loyalty_step rt M)\<^sup>*\<^sup>* g h" "loyalty_ok M g"
  shows "(\<forall>rid bid cid. count_where (live_grant rid bid cid) (ly_grants h) \<le> M bid) \<and>
    (\<forall>x \<in> set (ly_grants h). \<forall>y \<in> set (ly_grants h). lg_codeHash x = lg_codeHash y \<longrightarrow> x = y) \<and>
    (\<forall>x \<in> set (ly_grants g). lg_status x \<noteq> LG_ISSUED \<longrightarrow> x \<in> set (ly_grants h) \<and>
       find_grant (lg_restaurantId x) (lg_id x) h = Some x)"
proof -
  have run: "(grant_commit M)\<^sup>*\<^sup>* g h"
    using loyalty_steps_run [OF assms(1)] assms(2) by (simp add: loyalty_ok_def)
  have ok: "loyalty_ok M h" by (rule grant_commits_ok [OF run assms(2)])
  then have tbl: "table_ok lg_id grant_conflict (ly_grants h)" by (simp add: loyalty_ok_def)
  have "x = y" if "x \<in> set (ly_grants h)" "y \<in> set (ly_grants h)" "lg_codeHash x = lg_codeHash y" for x y
    using tbl table_ok_unique [OF tbl that(1,2)] that by (auto simp: table_ok_def grant_conflict_def)
  moreover have "x \<in> set (ly_grants h)" if "x \<in> set (ly_grants g)" "lg_status x \<noteq> LG_ISSUED" for x
    using grant_commits_kept [OF run] that by (auto simp: grants_kept_def)
  moreover have "find_grant (lg_restaurantId x) (lg_id x) h = Some x" if "x \<in> set (ly_grants h)" for x
    unfolding find_grant_def using tbl that find_distinct_key [of "\<lambda>x. (lg_id x, lg_restaurantId x)" "ly_grants h" x]
    by (auto simp: table_ok_def distinct_map inj_on_def)
  ultimately show ?thesis using ok by (auto simp: loyalty_ok_def)
qed

definition quiet_grants :: grant_env where
  "quiet_grants = \<lparr>ge_now = 1000, ge_bytes = [1, 35, 69, 103, 137, 171], ge_id = ''g'', ge_race = (\<lambda>_ h. h)\<rparr>"

definition ask_coffee :: issue_input where
  "ask_coffee = \<lparr>ii_restaurantId = ''r'', ii_benefitId = ''b'', ii_customerId = ''c'', ii_reservationId = None,
     ii_idempotencyKey = Some ''issue-0001'', ii_actor = ''staff''\<rparr>"

definition drink_coffee :: redeem_input where
  "drink_coffee = \<lparr>ri_restaurantId = ''r'', ri_grantId = ''g'', ri_code = '' 0123 4567 89ab '', ri_reservationId = None,
     ri_actor = ''staff'', ri_note = None\<rparr>"

definition after_issue :: loyalty_db where
  "after_issue = fst (issueLoyaltyGrant utc_runtime quiet_grants ask_coffee loyal_guest)"

definition after_redeem :: loyalty_db where
  "after_redeem = fst (redeemLoyaltyGrant utc_runtime quiet_grants drink_coffee after_issue)"

lemma coffee_ok: "loyalty_ok (\<lambda>_. 1) loyal_guest"
  by (simp add: loyalty_ok_def loyal_guest_def benefits_below_def coffee_def table_ok_def)

lemma coffee_steps:
  "loyalty_step utc_runtime (\<lambda>_. 1) loyal_guest after_issue"
  "loyalty_step utc_runtime (\<lambda>_. 1) after_issue after_redeem"
proof -
  show "loyalty_step utc_runtime (\<lambda>_. 1) loyal_guest after_issue"
    by (rule ls_issue [where e = quiet_grants and j = ask_coffee]) (simp_all add: after_issue_def prod_eq_iff quiet_grants_def)
  show "loyalty_step utc_runtime (\<lambda>_. 1) after_issue after_redeem"
    by (rule ls_redeem [where e = quiet_grants and k = drink_coffee]) (simp_all add: after_redeem_def prod_eq_iff quiet_grants_def)
qed

lemma grants_limited_and_final_witness:
  "map lg_status (ly_grants after_redeem) = [LG_REDEEMED] \<and>
   count_where (live_grant ''r'' ''b'' ''c'') (ly_grants after_redeem) \<le> 1 \<and>
   snd (issueLoyaltyGrant utc_runtime quiet_grants (ask_coffee\<lparr>ii_idempotencyKey := None\<rparr>) after_redeem) =
     Inl (LoyaltyGrantConflictError GRANT_LIMIT_REACHED)"
proof -
  have "map lg_status (ly_grants after_redeem) = [LG_REDEEMED] \<and>
    snd (issueLoyaltyGrant utc_runtime quiet_grants (ask_coffee\<lparr>ii_idempotencyKey := None\<rparr>) after_redeem) =
      Inl (LoyaltyGrantConflictError GRANT_LIMIT_REACHED)"
    by code_simp
  moreover have "(loyalty_step utc_runtime (\<lambda>_. 1))\<^sup>*\<^sup>* loyal_guest after_redeem"
    using coffee_steps by (meson rtranclp.simps)
  ultimately show ?thesis using grants_limited_and_final [OF _ coffee_ok] by blast
qed

lemma closed_grant_stays_closed:
  "(grant_commit M)\<^sup>*\<^sup>* g h \<Longrightarrow> grant_status_of g k = Some s \<Longrightarrow> s \<noteq> LG_ISSUED \<Longrightarrow> grant_status_of h k = Some s"
  by (rule grant_machine.terminal_absorbing) (auto simp: grant_edge_def)

section \<open>Codes\<close>

text \<open>An issued code is in the form that the redemption accepts, as it is printed or spaced, in any case.\<close>

definition code_char :: "char \<Rightarrow> bool" where
  "code_char c \<longleftrightarrow> (between CHR ''A'' CHR ''F'' c \<or> between CHR ''0'' CHR ''9'' c) \<and> \<not> js_space c \<and> upper_char c = c"

lemma hex_upper: "n < 16 \<Longrightarrow> code_char (upper_char (hex_char n))"
  by (auto simp: code_char_def upper_char_def hex_char_def between_def js_space_def Let_def)

lemma js_trim_id: "list_all (\<lambda>c. \<not> js_space c) s \<Longrightarrow> js_trim s = s"
proof -
  assume s: "list_all (\<lambda>c. \<not> js_space c) s"
  have "dropWhile js_space t = t" if "list_all (\<lambda>c. \<not> js_space c) t" for t
    using that by (cases t) auto
  then show ?thesis using s by (simp add: js_trim_def list_all_rev)
qed

lemma generated_code_accepted:
  assumes "length bytes = 6" "\<forall>b \<in> set bytes. b < 256"
  shows "normalizeCode (generateCode bytes) = Inr (generateCode bytes)"
proof -
  have good: "list_all code_char (generateCode bs)" if "\<forall>b \<in> set bs. b < 256" for bs
    using that by (induction bs) (auto simp: generateCode_def intro!: hex_upper less_mult_imp_div_less)
  have len: "length (generateCode bs) = 2 * length bs" for bs
    by (induction bs) (auto simp: generateCode_def)
  let ?c = "generateCode bytes"
  have c: "list_all code_char ?c" "length ?c = 12" using good [OF assms(2)] len [of bytes] assms(1) by simp_all
  have "js_trim ?c = ?c" by (rule js_trim_id) (use c(1) in \<open>auto simp: list_all_iff code_char_def\<close>)
  moreover have "strip_spaces ?c = ?c" using c(1) by (auto simp: strip_spaces_def list_all_iff filter_id_conv code_char_def)
  moreover have "map upper_char ?c = ?c" using c(1) by (auto simp: list_all_iff code_char_def intro: map_idI)
  ultimately show ?thesis using c by (auto simp: normalizeCode_def Let_def code_pattern_def list_all_iff code_char_def)
qed

lemma fresh_write:
  "issue_write rt e i b key g5 = (g', Inr res) \<Longrightarrow> gr_code res = Some c \<Longrightarrow>
   gr_row res = new_grant rt e i b key \<and> c = generateCode (ge_bytes e) \<and>
   g' = g5\<lparr>ly_grants := ly_grants g5 @ [gr_row res]\<rparr>"
  by (auto simp: issue_write_def in_tx_def Let_def replayed_grant_def
      split: sum.splits if_splits option.splits elim!: issue_tx_InrE)

lemma fresh_issue:
  assumes "issueLoyaltyGrant rt e i g = (g', Inr res)" "gr_code res = Some c"
  shows "\<exists>b key g5. gr_row res = new_grant rt e i b key \<and> c = generateCode (ge_bytes e) \<and>
    g' = g5\<lparr>ly_grants := ly_grants g5 @ [gr_row res]\<rparr>"
proof -
  have "\<exists>b key g5. issue_write rt e i b key g5 = (g', Inr res)"
    using assms by (auto simp: issueLoyaltyGrant_def Let_def replayed_grant_def split: sum.splits option.splits)
  then show ?thesis using fresh_write [OF _ assms(2)] by blast
qed

lemma find_grant_in:
  assumes "table_ok lg_id grant_conflict (ly_grants h)" "x \<in> set (ly_grants h)" "lg_restaurantId x = rid" "lg_id x = k"
  shows "find_grant rid k h = Some x"
  using assms find_distinct_key [of "\<lambda>x. (lg_id x, lg_restaurantId x)" "ly_grants h" x]
  by (auto simp: find_grant_def table_ok_def distinct_map inj_on_def)

lemma redeem_alone:
  assumes tbl: "table_ok lg_id grant_conflict (ly_grants h)" and x: "x \<in> set (ly_grants h)" "lg_status x = LG_ISSUED"
    and r: "ri_restaurantId r = lg_restaurantId x" "ri_grantId r = lg_id x" "ri_reservationId r = None"
    and c: "normalizeCode (ri_code r) = Inr c" "lg_codeHash x = hashCode rt c" "normalizeNote (ri_note r) = Inr nt"
    and quiet: "\<And>k s. ge_race e k s = s" "ge_now e < lg_expiresAt x"
    and y: "y = redeemed_row rt r nt (ge_now e) x"
  shows "\<exists>h'. redeemLoyaltyGrant rt e r h = (h', Inr \<lparr>gr_row = y, gr_code = None, gr_replayed = False\<rparr>) \<and>
    table_ok lg_id grant_conflict (ly_grants h') \<and> y \<in> set (ly_grants h')"
proof -
  let ?p = "redeemable (lg_restaurantId x) x (ge_now e)" let ?f = "redeemed_row rt r nt (ge_now e)"
  let ?h = "h\<lparr>ly_grants := upd_where ?p ?f (ly_grants h)\<rparr>"
  have p: "?p x" using x quiet(2) by (simp add: redeemable_def)
  have "?p = (\<lambda>z. lg_id z = lg_id x \<and> ?p z)" by (auto simp: redeemable_def fun_eq_iff)
  moreover have "count_where (\<lambda>z. lg_id z = lg_id x \<and> ?p z) (ly_grants h) = 1"
    by (rule count_where_key) (use tbl x(1) p in \<open>simp_all add: table_ok_def\<close>)
  ultimately have one: "count_where ?p (ly_grants h) = 1" by simp
  have ok: "table_ok lg_id grant_conflict (ly_grants ?h)"
    using tbl by (auto intro!: grant_table.frame_ok simp: redeemed_row_def grant_conflict_def)
  have y_in: "y \<in> set (ly_grants ?h)" using x(1) p by (auto simp: set_upd_where y)
  have "find_grant (lg_restaurantId x) (lg_id x) h = Some x" by (rule find_grant_in [OF tbl x(1) refl refl])
  moreover have "find_grant (lg_restaurantId x) (lg_id x) ?h = Some y"
    by (rule find_grant_in [OF ok y_in]) (simp_all add: y redeemed_row_def)
  ultimately have "redeemLoyaltyGrant rt e r h = (?h, Inr \<lparr>gr_row = y, gr_code = None, gr_replayed = False\<rparr>)"
    using c r x(2) quiet one by (simp add: redeemLoyaltyGrant_def redeem_write_def Let_def)
  with ok y_in show ?thesis by blast
qed

lemma redeem_again:
  assumes "table_ok lg_id grant_conflict (ly_grants h)" "y \<in> set (ly_grants h)" "lg_status y = LG_REDEEMED"
    and "ri_restaurantId r = lg_restaurantId y" "ri_grantId r = lg_id y" "ri_reservationId r = None"
    and "normalizeCode (ri_code r) = Inr c" "lg_codeHash y = hashCode rt c" "normalizeNote (ri_note r) = Inr nt"
    and "\<And>k s. ge_race e k s = s"
  shows "redeemLoyaltyGrant rt e r h = (h, Inr (replayed_grant y))"
  using find_grant_in [OF assms(1,2) refl refl] assms by (simp add: redeemLoyaltyGrant_def Let_def)

text \<open>
  C34. The code of a grant is good once. Whatever happens between the issue and the redemption, as long as
  the grant is still issued and not expired, the code returned by the issue redeems it: the row found is
  the one issued, it becomes redeemed now, and presenting the code again, at any time, changes nothing
  and returns the same row as a replay.
\<close>

theorem issued_code_redeems_once:
  assumes issue: "issueLoyaltyGrant rt e i g = (g', Inr res)" "gr_code res = Some c"
    and bytes: "length (ge_bytes e) = 6" "\<forall>b \<in> set (ge_bytes e). b < 256"
    and start: "loyalty_ok M g" "\<forall>k. runs M (ge_race e k)" and later: "(loyalty_step rt M)\<^sup>*\<^sup>* g' h"
    and open_grant: "grant_status_of h (lg_id (gr_row res)) = Some LG_ISSUED" "ge_now e' < lg_expiresAt (gr_row res)"
    and r: "ri_restaurantId r = ii_restaurantId i" "ri_grantId r = lg_id (gr_row res)" "ri_code r = c"
      "ri_reservationId r = None" "normalizeNote (ri_note r) = Inr nt"
    and alone: "\<forall>k s. ge_race e' k s = s" "\<forall>k s. ge_race e'' k s = s"
  shows "\<exists>x h'. find_grant (ii_restaurantId i) (lg_id (gr_row res)) h = Some x \<and> same_grant (gr_row res) x \<and>
    redeemLoyaltyGrant rt e' r h =
      (h', Inr \<lparr>gr_row = redeemed_row rt r nt (ge_now e') x, gr_code = None, gr_replayed = False\<rparr>) \<and>
    redeemLoyaltyGrant rt e'' r h' = (h', Inr (replayed_grant (redeemed_row rt r nt (ge_now e') x)))"
proof -
  obtain b key g5 where row: "gr_row res = new_grant rt e i b key" and c: "c = generateCode (ge_bytes e)"
    and g': "g' = g5\<lparr>ly_grants := ly_grants g5 @ [gr_row res]\<rparr>"
    using fresh_issue [OF issue] by blast
  have run: "(grant_commit M)\<^sup>*\<^sup>* g g'" using issue_run [OF issue(1)] start by (simp add: loyalty_ok_def)
  then have ok': "loyalty_ok M g'" by (rule grant_commits_ok [OF _ start(1)])
  then have run': "(grant_commit M)\<^sup>*\<^sup>* g' h" using loyalty_steps_run [OF later] by (simp add: loyalty_ok_def)
  have tbl: "table_ok lg_id grant_conflict (ly_grants h)"
    using grant_commits_ok [OF run' ok'] by (simp add: loyalty_ok_def)
  obtain x where x: "x \<in> set (ly_grants h)" "same_grant (gr_row res) x"
    using grant_commits_kept [OF run'] by (auto simp: grants_kept_def g')
  have "find (\<lambda>z. lg_id z = lg_id (gr_row res)) (ly_grants h) = Some x"
    using table_ok_find [OF tbl x(1)] x(2) by (simp add: same_grant_def)
  then have issued: "lg_status x = LG_ISSUED" using open_grant(1) by (simp add: grant_status_of_def)
  have same: "lg_restaurantId x = ii_restaurantId i" "lg_id x = lg_id (gr_row res)" "lg_codeHash x = hashCode rt c"
    "lg_expiresAt x = lg_expiresAt (gr_row res)"
    using x(2) by (simp_all add: same_grant_def row new_grant_def c)
  have code: "normalizeCode (ri_code r) = Inr c" using generated_code_accepted [OF bytes] r(3) c by simp
  let ?y = "redeemed_row rt r nt (ge_now e') x"
  obtain h' where h': "redeemLoyaltyGrant rt e' r h = (h', Inr \<lparr>gr_row = ?y, gr_code = None, gr_replayed = False\<rparr>)"
      "table_ok lg_id grant_conflict (ly_grants h')" "?y \<in> set (ly_grants h')"
    using redeem_alone [OF tbl x(1) issued _ _ r(4) code same(3) r(5) _ _ refl, of e'] same r alone open_grant(2) by auto
  have "redeemLoyaltyGrant rt e'' r h' = (h', Inr (replayed_grant ?y))"
    by (rule redeem_again [OF h'(2,3) _ _ _ r(4) code _ r(5)]) (use same r alone in \<open>simp_all add: redeemed_row_def\<close>)
  with h'(1) x find_grant_in [OF tbl x(1) same(1,2)] show ?thesis by blast
qed

theorem issued_code_redeems_once_witness:
  "\<exists>h' x. redeemLoyaltyGrant utc_runtime (quiet_grants\<lparr>ge_now := 5000\<rparr>) (drink_coffee\<lparr>ri_code := ''0123456789AB''\<rparr>) after_issue =
      (h', Inr \<lparr>gr_row = redeemed_row utc_runtime (drink_coffee\<lparr>ri_code := ''0123456789AB''\<rparr>) None 5000 x, gr_code = None,
        gr_replayed = False\<rparr>)"
proof -
  let ?i = "issueLoyaltyGrant utc_runtime quiet_grants ask_coffee loyal_guest"
  obtain res where res: "snd ?i = Inr res"
    "gr_code res = Some ''0123456789AB'' \<and> lg_id (gr_row res) = ''g'' \<and> 5000 < lg_expiresAt (gr_row res) \<and>
     grant_status_of after_issue ''g'' = Some LG_ISSUED"
  proof -
    have "case snd ?i of Inr res \<Rightarrow> gr_code res = Some ''0123456789AB'' \<and> lg_id (gr_row res) = ''g'' \<and>
        5000 < lg_expiresAt (gr_row res) \<and> grant_status_of after_issue ''g'' = Some LG_ISSUED | Inl _ \<Rightarrow> False"
      by code_simp
    then show ?thesis using that by (cases "snd ?i") auto
  qed
  then have run: "?i = (after_issue, Inr res)" by (simp add: after_issue_def prod_eq_iff)
  have note_ok: "normalizeNote (ri_note (drink_coffee\<lparr>ri_code := ''0123456789AB''\<rparr>)) = Inr None"
    by (simp add: drink_coffee_def normalizeNote_def normalize_text_def)
  show ?thesis
    using issued_code_redeems_once [where e' = "quiet_grants\<lparr>ge_now := 5000\<rparr>" and e'' = quiet_grants,
        OF run conjunct1 [OF res(2)] _ _ coffee_ok _ rtranclp.rtrancl_refl _ _ _ _ _ _ note_ok]
      res(2) by (auto simp: quiet_grants_def drink_coffee_def ask_coffee_def)
qed

text \<open>A repeated key is answered from the key alone: another benefit or customer in the request is not seen.\<close>

lemma replay_ignores_the_request:
  assumes "normalizeIdempotencyKey (ii_idempotencyKey i) = Inr (Some key)"
    and "findGrantByIdempotency (Some (hashIdempotencyKey rt (ii_restaurantId i) key)) g = Some x"
  shows "issueLoyaltyGrant rt e (i\<lparr>ii_benefitId := b, ii_customerId := c, ii_reservationId := r\<rparr>) g =
    (g, Inr (replayed_grant x))"
  using assms by (simp add: issueLoyaltyGrant_def Let_def)

end
