(* ===== verification/Experiences.thy ===== *)
theory Experiences
  imports Db Js_Text
begin

text \<open>
  Experiences sold by quantity (\<open>modules/experiences/experience.service.ts\<close>): an experience has dated
  sessions, a session has a capacity, and seats of a session are taken by confirmed reservations and held by
  open online checkouts. The transactions that take seats hold an advisory lock on the session, so each of
  them is one step. Dates given as text are arguments (\<open>None\<close> for an invalid date); the views (counts, masked
  phones) are not modelled.
\<close>

section \<open>Rows\<close>

datatype experience_status = X_DRAFT | X_ACTIVE | X_ARCHIVED
datatype session_status = XS_OPEN | XS_CLOSED | XS_CANCELLED
datatype booking_status = XB_CONFIRMED | XB_CANCELLED
datatype checkout_status =
  XC_OPEN | XC_PAID | XC_FREE | XC_EXPIRED | XC_REFUND_PENDING | XC_REFUNDED | XC_REFUND_FAILED

text \<open>The database orders an enumeration by its declaration.\<close>

fun experience_rank :: "experience_status \<Rightarrow> nat" where
  "experience_rank X_DRAFT = 0"
| "experience_rank X_ACTIVE = 1"
| "experience_rank X_ARCHIVED = 2"

instantiation experience_status :: linorder
begin

definition less_eq_experience_status :: "experience_status \<Rightarrow> experience_status \<Rightarrow> bool" where
  "less_eq_experience_status s t \<longleftrightarrow> experience_rank s \<le> experience_rank t"

definition less_experience_status :: "experience_status \<Rightarrow> experience_status \<Rightarrow> bool" where
  "less_experience_status s t \<longleftrightarrow> experience_rank s < experience_rank t"

instance
proof
  fix s t :: experience_status
  show "s \<le> t \<Longrightarrow> t \<le> s \<Longrightarrow> s = t"
    by (cases s; cases t) (simp_all add: less_eq_experience_status_def)
qed (auto simp: less_eq_experience_status_def less_experience_status_def)

end

record experience_row =
  xp_id :: id
  xp_restaurantId :: id
  xp_key :: string
  xp_name :: string
  xp_description :: "string option"
  xp_durationMinutes :: int
  xp_priceCents :: int
  xp_currency :: string
  xp_capacity :: int
  xp_status :: experience_status
  xp_createdByHash :: string
  xp_updatedAt :: instant

record session_row =
  xs_id :: id
  xs_restaurantId :: id
  xs_experienceId :: id
  xs_startsAt :: instant
  xs_endsAt :: instant
  xs_capacityOverride :: "int option"
  xs_status :: session_status

record booking_row =
  xb_id :: id
  xb_restaurantId :: id
  xb_experienceId :: id
  xb_sessionId :: id
  xb_customerId :: "id option"
  xb_customerName :: "string option"
  xb_customerEmail :: "string option"
  xb_customerPhone :: "string option"
  xb_reservationId :: "id option"
  xb_idempotencyKey :: "string option"
  xb_quantity :: int
  xb_unitPriceCents :: int
  xb_totalPriceCents :: int
  xb_currency :: string
  xb_status :: booking_status
  xb_createdByHash :: string
  xb_cancelledByHash :: "string option"
  xb_cancelledAt :: "instant option"
  xb_createdAt :: instant

record checkout_row =
  xc_id :: id
  xc_restaurantId :: id
  xc_experienceId :: id
  xc_sessionId :: id
  xc_reservationId :: "id option"
  xc_quantity :: int
  xc_unitPriceCents :: int
  xc_totalPriceCents :: int
  xc_sokarFeeCents :: int
  xc_currency :: string
  xc_status :: checkout_status
  xc_stripeAccountId :: string
  xc_stripeCheckoutSessionId :: "string option"
  xc_stripePaymentIntentId :: "string option"
  xc_stripeRefundId :: "string option"
  xc_idempotencyKey :: string
  xc_expiresAt :: instant
  xc_refundedAt :: "instant option"

record payment_event_row =
  xe_restaurantId :: id
  xe_checkoutId :: id
  xe_providerEventId :: string
  xe_eventType :: string
  xe_payloadHash :: string
  xe_occurredAt :: instant

record experience_customer =
  xk_id :: id
  xk_restaurantId :: id
  xk_phone :: string
  xk_name :: "string option"
  xk_emailNormalized :: "string option"
  xk_archivedAt :: "instant option"
  xk_mergedIntoId :: "id option"

text \<open>\<open>xr_connectPublished\<close> is \<open>None\<close> when the restaurant has no exposure settings.\<close>

record experience_restaurant =
  xr_id :: id
  xr_slug :: "string option"
  xr_siteStatus :: string
  xr_publishedAt :: "instant option"
  xr_connectPublished :: "bool option"
  xr_experienceStripeAccountId :: "string option"
  xr_giftCardStripeAccountId :: "string option"
  xr_experienceCommissionRate :: "rat option"

record xdb =
  xd_db :: db
  xd_restaurants :: "experience_restaurant list"
  xd_customers :: "experience_customer list"
  xd_experiences :: "experience_row list"
  xd_sessions :: "session_row list"
  xd_bookings :: "booking_row list"
  xd_checkouts :: "checkout_row list"
  xd_events :: "payment_event_row list"

section \<open>Errors\<close>

datatype experience_input_code =
  EXPERIENCE_KEY_INVALID | EXPERIENCE_NAME_INVALID | EXPERIENCE_DESCRIPTION_INVALID
| EXPERIENCE_DURATION_INVALID | EXPERIENCE_PRICE_INVALID | EXPERIENCE_CURRENCY_INVALID
| EXPERIENCE_CAPACITY_INVALID | EXPERIENCE_SESSION_TIME_INVALID | EXPERIENCE_SESSION_CAPACITY_INVALID
| EXPERIENCE_QUANTITY_INVALID | EXPERIENCE_IDEMPOTENCY_INVALID

datatype experience_conflict_code =
  EXPERIENCE_DELETE_NOT_ALLOWED | EXPERIENCE_DELETE_CONFLICT | EXPERIENCE_KEY_CONFLICT
| EXPERIENCE_SESSION_CONFLICT | EXPERIENCE_CAPACITY_EXCEEDED | EXPERIENCE_SESSION_CLOSED
| EXPERIENCE_SESSION_IN_PAST | EXPERIENCE_NOT_ACTIVE | EXPERIENCE_IDEMPOTENCY_CONFLICT
| EXPERIENCE_RESERVATION_INVALID

datatype checkout_error_code =
  CO_EXPERIENCE_NOT_FOUND | CO_SESSION_NOT_FOUND | CO_CAPACITY_EXCEEDED | CO_IDEMPOTENCY_CONFLICT
| CO_PAYMENT_NOT_CONFIGURED | CO_STRIPE_NOT_READY | CO_NOT_FOUND | CO_REFUND_FAILED | CO_EVENT_INVALID

text \<open>The last three are not classes of these modules: the database, the provider, a missing configuration.\<close>

datatype experience_error =
  ExperienceInputError experience_input_code
| ExperienceNotFoundError
| ExperienceSessionNotFoundError
| ExperienceReservationNotFoundError
| ExperienceCustomerNotFoundError
| ExperienceConflictError experience_conflict_code
| ExperienceReservationStateError
| ExperienceCheckoutError checkout_error_code int
| ExperienceDbError db_error
| StripeError string
| UrlRequiredError

section \<open>Hashes\<close>

definition hashActor :: "runtime \<Rightarrow> string \<Rightarrow> string" where
  "hashActor rt actor = sha256 rt (''sokar:experience-actor:'' @ actor)"

definition hashIdempotencyKey :: "runtime \<Rightarrow> id \<Rightarrow> string \<Rightarrow> string" where
  "hashIdempotencyKey rt restaurantId key =
     sha256 rt (''sokar:experience-idempotency:'' @ restaurantId @ '':'' @ key)"

section \<open>Normalisation\<close>

definition normalizeIdempotencyKey :: "string option \<Rightarrow> experience_error + string option" where
  "normalizeIdempotencyKey v = (case v of
       None \<Rightarrow> Inr None
     | Some x \<Rightarrow> (let key = js_trim x in
         if length key < 8 \<or> length key > 200 \<or> list_ex control_char key
         then Inl (ExperienceInputError EXPERIENCE_IDEMPOTENCY_INVALID) else Inr (Some key)))"

definition experience_key_pattern :: "string \<Rightarrow> bool" where
  "experience_key_pattern k = (case k of [] \<Rightarrow> False
     | c # cs \<Rightarrow> between CHR ''a'' CHR ''z'' c \<and> 1 \<le> length cs \<and> length cs \<le> 63 \<and>
         list_all (\<lambda>d. between CHR ''a'' CHR ''z'' d \<or> between CHR ''0'' CHR ''9'' d \<or> d \<in> set ''_.-'') cs)"

definition normalizeKey :: "string \<Rightarrow> experience_error + string" where
  "normalizeKey v = (let key = map lower_char (js_trim v) in
     if experience_key_pattern key then Inr key else Inl (ExperienceInputError EXPERIENCE_KEY_INVALID))"

definition normalizeSafeText :: "experience_input_code \<Rightarrow> nat \<Rightarrow> string \<Rightarrow> experience_error + string" where
  "normalizeSafeText code maxLength v = (let t = collapse_spaces (js_trim v) in
     if t = [] \<or> length t > maxLength \<or> list_ex control_char t then Inl (ExperienceInputError code) else Inr t)"

definition normalizeName :: "string \<Rightarrow> experience_error + string" where
  "normalizeName v = normalizeSafeText EXPERIENCE_NAME_INVALID 120 v"

text \<open>\<open>undefined\<close> is \<open>None\<close> and \<open>null\<close> is \<open>Some None\<close>.\<close>

definition normalizeDescription :: "string option option \<Rightarrow> experience_error + string option option" where
  "normalizeDescription v = (case v of
       None \<Rightarrow> Inr None
     | Some None \<Rightarrow> Inr (Some None)
     | Some (Some x) \<Rightarrow> ebind (normalizeSafeText EXPERIENCE_DESCRIPTION_INVALID 1000 x) (\<lambda>t. Inr (Some (Some t))))"

text \<open>An integer between two bounds, or the input error.\<close>

definition int_between :: "int \<Rightarrow> int \<Rightarrow> experience_input_code \<Rightarrow> rat \<Rightarrow> experience_error + int" where
  "int_between a b code x =
     (if \<not> isInteger x \<or> x < of_int a \<or> x > of_int b then Inl (ExperienceInputError code) else Inr \<lfloor>x\<rfloor>)"

definition normalizeDuration :: "rat \<Rightarrow> experience_error + int" where
  "normalizeDuration x = int_between 15 1440 EXPERIENCE_DURATION_INVALID x"

definition normalizePrice :: "rat \<Rightarrow> experience_error + int" where
  "normalizePrice x = int_between 0 1000000 EXPERIENCE_PRICE_INVALID x"

definition normalizeCurrency :: "string option \<Rightarrow> experience_error + string" where
  "normalizeCurrency v = (let currency = map upper_char (js_trim (orElse v ''EUR'')) in
     if currency \<noteq> ''EUR'' then Inl (ExperienceInputError EXPERIENCE_CURRENCY_INVALID) else Inr currency)"

definition normalizeCapacity :: "experience_input_code \<Rightarrow> rat \<Rightarrow> experience_error + int" where
  "normalizeCapacity code x = int_between 1 1000 code x"

definition normalizeSessionCapacity :: "rat option option \<Rightarrow> experience_error + int option option" where
  "normalizeSessionCapacity v = (case v of
       None \<Rightarrow> Inr None
     | Some None \<Rightarrow> Inr (Some None)
     | Some (Some x) \<Rightarrow> ebind (normalizeCapacity EXPERIENCE_SESSION_CAPACITY_INVALID x) (\<lambda>n. Inr (Some (Some n))))"

definition normalizeQuantity :: "rat \<Rightarrow> experience_error + int" where
  "normalizeQuantity x = int_between 1 1000 EXPERIENCE_QUANTITY_INVALID x"

definition normalizeDate :: "instant option \<Rightarrow> experience_error + instant" where
  "normalizeDate v = (case v of None \<Rightarrow> Inl (ExperienceInputError EXPERIENCE_SESSION_TIME_INVALID) | Some t \<Rightarrow> Inr t)"

lemma int_between_Inr: "int_between a b code x = Inr n \<Longrightarrow> a \<le> n \<and> n \<le> b \<and> of_int n = x"
  by (auto simp: int_between_def isInteger_def le_floor_iff floor_le_iff split: if_splits)

section \<open>Constraints of the tables\<close>

definition experience_checks :: "experience_row \<Rightarrow> bool" where
  "experience_checks x \<longleftrightarrow> experience_key_pattern (xp_key x) \<and>
     1 \<le> length (xp_name x) \<and> length (xp_name x) \<le> 120 \<and>
     (case xp_description x of None \<Rightarrow> True | Some t \<Rightarrow> length t \<le> 1000) \<and>
     15 \<le> xp_durationMinutes x \<and> xp_durationMinutes x \<le> 1440 \<and>
     0 \<le> xp_priceCents x \<and> xp_priceCents x \<le> 1000000 \<and> xp_currency x = ''EUR'' \<and>
     1 \<le> xp_capacity x \<and> xp_capacity x \<le> 1000"

definition session_checks :: "session_row \<Rightarrow> bool" where
  "session_checks s \<longleftrightarrow> xs_startsAt s < xs_endsAt s \<and>
     (case xs_capacityOverride s of None \<Rightarrow> True | Some n \<Rightarrow> 1 \<le> n \<and> n \<le> 1000)"

definition booking_checks :: "booking_row \<Rightarrow> bool" where
  "booking_checks b \<longleftrightarrow> (case xb_idempotencyKey b of None \<Rightarrow> True | Some k \<Rightarrow> length k = 64) \<and>
     1 \<le> xb_quantity b \<and> xb_quantity b \<le> 1000 \<and>
     0 \<le> xb_unitPriceCents b \<and> xb_unitPriceCents b \<le> 1000000 \<and>
     0 \<le> xb_totalPriceCents b \<and> xb_totalPriceCents b \<le> 1000000000 \<and> xb_currency b = ''EUR''"

definition experience_conflict :: "experience_row \<Rightarrow> experience_row \<Rightarrow> bool" where
  "experience_conflict x y \<longleftrightarrow>
     xp_id x = xp_id y \<or> xp_restaurantId x = xp_restaurantId y \<and> xp_key x = xp_key y"

definition session_conflict :: "session_row \<Rightarrow> session_row \<Rightarrow> bool" where
  "session_conflict s t \<longleftrightarrow>
     xs_id s = xs_id t \<or> xs_experienceId s = xs_experienceId t \<and> xs_startsAt s = xs_startsAt t"

definition booking_conflict :: "booking_row \<Rightarrow> booking_row \<Rightarrow> bool" where
  "booking_conflict b c \<longleftrightarrow> xb_id b = xb_id c \<or> same_some (xb_idempotencyKey b) (xb_idempotencyKey c)"

interpretation experience_table: constrained_table xp_id experience_conflict
  by unfold_locales (auto simp: experience_conflict_def)

interpretation session_table: constrained_table xs_id session_conflict
  by unfold_locales (auto simp: session_conflict_def)

interpretation booking_table: constrained_table xb_id booking_conflict
  by unfold_locales (simp add: booking_conflict_def same_some_def; metis)

section \<open>Experiences\<close>

definition assertRestaurantActive :: "id \<Rightarrow> xdb \<Rightarrow> experience_error + unit" where
  "assertRestaurantActive restaurantId g =
     guard (list_ex (\<lambda>r. xr_id r = restaurantId \<and> xr_siteStatus r \<notin> {''ARCHIVED'', ''SUSPENDED''}) (xd_restaurants g))
       ExperienceNotFoundError"

record create_experience =
  ce_restaurantId :: id
  ce_key :: string
  ce_name :: string
  ce_description :: "string option option"
  ce_durationMinutes :: rat
  ce_priceCents :: rat
  ce_currency :: "string option"
  ce_capacity :: rat
  ce_status :: "experience_status option"
  ce_actor :: string

text \<open>The clock of the call, the id of the new row, what others commit before the \<open>k\<close>-th next access.\<close>

record xenv =
  xv_now :: instant
  xv_id :: id
  xv_race :: "nat \<Rightarrow> xdb \<Rightarrow> xdb"

definition new_experience :: "runtime \<Rightarrow> xenv \<Rightarrow> create_experience \<Rightarrow> experience_error + experience_row" where
  "new_experience rt e i =
     ebind (normalizeKey (ce_key i)) (\<lambda>key.
     ebind (normalizeName (ce_name i)) (\<lambda>name.
     ebind (normalizeDescription (ce_description i)) (\<lambda>description.
     ebind (normalizeDuration (ce_durationMinutes i)) (\<lambda>durationMinutes.
     ebind (normalizePrice (ce_priceCents i)) (\<lambda>priceCents.
     ebind (normalizeCurrency (ce_currency i)) (\<lambda>currency.
     ebind (normalizeCapacity EXPERIENCE_CAPACITY_INVALID (ce_capacity i)) (\<lambda>capacity.
     Inr \<lparr>xp_id = xv_id e, xp_restaurantId = ce_restaurantId i, xp_key = key, xp_name = name,
          xp_description = orElse description None, xp_durationMinutes = durationMinutes,
          xp_priceCents = priceCents, xp_currency = currency, xp_capacity = capacity,
          xp_status = orElse (ce_status i) X_DRAFT, xp_createdByHash = hashActor rt (ce_actor i),
          xp_updatedAt = xv_now e\<rparr>)))))))"

definition insertExperience :: "experience_row \<Rightarrow> xdb \<Rightarrow> experience_error + xdb" where
  "insertExperience x g =
     (if \<not> experience_checks x then Inl (ExperienceDbError OTHER_DB_ERROR)
      else if \<exists>y \<in> set (xd_experiences g). experience_conflict x y then Inl (ExperienceDbError P2002)
      else Inr (g\<lparr>xd_experiences := xd_experiences g @ [x]\<rparr>))"

definition createExperience :: "runtime \<Rightarrow> xenv \<Rightarrow> create_experience \<Rightarrow> xdb \<Rightarrow> xdb \<times> (experience_error + experience_row)" where
  "createExperience rt e i g =
     (case ebind (assertRestaurantActive (ce_restaurantId i) g) (\<lambda>_. new_experience rt e i) of
        Inl err \<Rightarrow> (g, Inl err)
      | Inr x \<Rightarrow>
          (let g1 = xv_race e 1 g in
           case insertExperience x g1 of
             Inr g2 \<Rightarrow> (g2, Inr x)
           | Inl err \<Rightarrow>
               (g1, Inl (if err = ExperienceDbError P2002 then ExperienceConflictError EXPERIENCE_KEY_CONFLICT else err))))"

text \<open>\<open>listExperiences\<close>: by status, in the order of the enumeration, then the latest update first.\<close>

definition page_size :: "int \<Rightarrow> int option \<Rightarrow> nat" where
  "page_size most limit = nat (min (max (orElse limit most) 1) most)"

definition by_status_then_latest :: "experience_row \<Rightarrow> experience_row \<Rightarrow> int" where
  "by_status_then_latest x y =
     (if xp_status x < xp_status y then -1 else if xp_status y < xp_status x then 1
      else xp_updatedAt y - xp_updatedAt x)"

definition listExperiences :: "id \<Rightarrow> experience_status option \<Rightarrow> int option \<Rightarrow> xdb \<Rightarrow> experience_row list" where
  "listExperiences restaurantId status limit g =
     take (page_size 100 limit) (js_sort by_status_then_latest
       (filter (\<lambda>x. xp_restaurantId x = restaurantId \<and> (status \<noteq> None \<longrightarrow> status = Some (xp_status x)))
         (xd_experiences g)))"

record update_experience =
  ue_restaurantId :: id
  ue_experienceId :: id
  ue_name :: "string option"
  ue_description :: "string option option"
  ue_durationMinutes :: "rat option"
  ue_priceCents :: "rat option"
  ue_currency :: "string option"
  ue_capacity :: "rat option"
  ue_status :: "experience_status option"

text \<open>The columns an update writes: \<open>None\<close> leaves the column as it is.\<close>

record experience_data =
  xa_name :: "string option"
  xa_description :: "string option option"
  xa_durationMinutes :: "int option"
  xa_priceCents :: "int option"
  xa_currency :: "string option"
  xa_capacity :: "int option"
  xa_status :: "experience_status option"

definition no_data :: experience_data where
  "no_data = \<lparr>xa_name = None, xa_description = None, xa_durationMinutes = None, xa_priceCents = None,
     xa_currency = None, xa_capacity = None, xa_status = None\<rparr>"

definition update_data :: "update_experience \<Rightarrow> experience_error + experience_data" where
  "update_data i =
     ebind (when_given (ue_name i) normalizeName) (\<lambda>name.
     ebind (normalizeDescription (ue_description i)) (\<lambda>description.
     ebind (when_given (ue_durationMinutes i) normalizeDuration) (\<lambda>durationMinutes.
     ebind (when_given (ue_priceCents i) normalizePrice) (\<lambda>priceCents.
     ebind (when_given (ue_currency i) (\<lambda>c. normalizeCurrency (Some c))) (\<lambda>currency.
     ebind (when_given (ue_capacity i) (normalizeCapacity EXPERIENCE_CAPACITY_INVALID)) (\<lambda>capacity.
     Inr \<lparr>xa_name = name, xa_description = description, xa_durationMinutes = durationMinutes,
          xa_priceCents = priceCents, xa_currency = currency, xa_capacity = capacity,
          xa_status = ue_status i\<rparr>))))))"

definition apply_data :: "experience_data \<Rightarrow> instant \<Rightarrow> experience_row \<Rightarrow> experience_row" where
  "apply_data d now x = x\<lparr>xp_name := orElse (xa_name d) (xp_name x),
     xp_description := orElse (xa_description d) (xp_description x),
     xp_durationMinutes := orElse (xa_durationMinutes d) (xp_durationMinutes x),
     xp_priceCents := orElse (xa_priceCents d) (xp_priceCents x),
     xp_currency := orElse (xa_currency d) (xp_currency x),
     xp_capacity := orElse (xa_capacity d) (xp_capacity x),
     xp_status := orElse (xa_status d) (xp_status x), xp_updatedAt := now\<rparr>"

definition updateExperience :: "xenv \<Rightarrow> update_experience \<Rightarrow> xdb \<Rightarrow> xdb \<times> (experience_error + experience_row)" where
  "updateExperience e i g =
     (case find (\<lambda>x. xp_id x = ue_experienceId i \<and> xp_restaurantId x = ue_restaurantId i) (xd_experiences g) of
        None \<Rightarrow> (g, Inl ExperienceNotFoundError)
      | Some current \<Rightarrow>
        (case update_data i of
           Inl err \<Rightarrow> (g, Inl err)
         | Inr d \<Rightarrow>
             if d = no_data then (g, Inr current)
             else
               let g1 = xv_race e 1 g in
               case find (\<lambda>x. xp_id x = xp_id current) (xd_experiences g1) of
                 None \<Rightarrow> (g1, Inl (ExperienceDbError P2025))
               | Some x \<Rightarrow>
                   if \<not> experience_checks (apply_data d (xv_now e) x) then (g1, Inl (ExperienceDbError OTHER_DB_ERROR))
                   else (g1\<lparr>xd_experiences := upd_where (\<lambda>x. xp_id x = xp_id current) (apply_data d (xv_now e))
                              (xd_experiences g1)\<rparr>, Inr (apply_data d (xv_now e) x))))"

section \<open>Sessions\<close>

record create_session =
  cs_restaurantId :: id
  cs_experienceId :: id
  cs_startsAt :: "instant option"
  cs_endsAt :: "instant option"
  cs_capacityOverride :: "rat option option"

definition new_session :: "id \<Rightarrow> create_session \<Rightarrow> experience_error + session_row" where
  "new_session newId i =
     ebind (normalizeDate (cs_startsAt i)) (\<lambda>startsAt.
     ebind (normalizeDate (cs_endsAt i)) (\<lambda>endsAt.
     ebind (guard (startsAt < endsAt) (ExperienceInputError EXPERIENCE_SESSION_TIME_INVALID)) (\<lambda>_.
     ebind (normalizeSessionCapacity (cs_capacityOverride i)) (\<lambda>capacityOverride.
     Inr \<lparr>xs_id = newId, xs_restaurantId = cs_restaurantId i, xs_experienceId = cs_experienceId i,
          xs_startsAt = startsAt, xs_endsAt = endsAt, xs_capacityOverride = orElse capacityOverride None,
          xs_status = XS_OPEN\<rparr>))))"

text \<open>The foreign key of a session is its experience.\<close>

definition insertSession :: "session_row \<Rightarrow> xdb \<Rightarrow> experience_error + xdb" where
  "insertSession s g =
     (if \<not> session_checks s then Inl (ExperienceDbError OTHER_DB_ERROR)
      else if \<exists>t \<in> set (xd_sessions g). session_conflict s t then Inl (ExperienceDbError P2002)
      else if \<not> list_ex (\<lambda>x. xp_id x = xs_experienceId s) (xd_experiences g) then Inl (ExperienceDbError OTHER_DB_ERROR)
      else Inr (g\<lparr>xd_sessions := xd_sessions g @ [s]\<rparr>))"

definition session_error :: "experience_error \<Rightarrow> experience_error" where
  "session_error err =
     (if err = ExperienceDbError P2002 then ExperienceConflictError EXPERIENCE_SESSION_CONFLICT else err)"

definition createExperienceSession :: "xenv \<Rightarrow> create_session \<Rightarrow> xdb \<Rightarrow> xdb \<times> (experience_error + session_row)" where
  "createExperienceSession e i g =
     (if \<not> list_ex (\<lambda>x. xp_id x = cs_experienceId i \<and> xp_restaurantId x = cs_restaurantId i \<and> xp_status x \<noteq> X_ARCHIVED)
           (xd_experiences g)
      then (g, Inl ExperienceNotFoundError)
      else case new_session (xv_id e) i of
        Inl err \<Rightarrow> (g, Inl err)
      | Inr s \<Rightarrow>
          (let g1 = xv_race e 1 g in
           case insertSession s g1 of
             Inl err \<Rightarrow> (g1, Inl (session_error err))
           | Inr g2 \<Rightarrow> (g2, Inr s)))"

text \<open>\<open>listExperienceSessions\<close>: a filter left out is \<open>None\<close>.\<close>

definition listExperienceSessions :: "id \<Rightarrow> id option \<Rightarrow> session_status option \<Rightarrow> instant option \<Rightarrow> instant option \<Rightarrow>
    int option \<Rightarrow> xdb \<Rightarrow> session_row list" where
  "listExperienceSessions restaurantId experienceId status from till limit g =
     take (page_size 100 limit) (js_sort (\<lambda>s t. xs_startsAt s - xs_startsAt t)
       (filter (\<lambda>s. xs_restaurantId s = restaurantId \<and>
            (truthy experienceId \<longrightarrow> experienceId = Some (xs_experienceId s)) \<and>
            (status \<noteq> None \<longrightarrow> status = Some (xs_status s)) \<and>
            (case from of None \<Rightarrow> True | Some a \<Rightarrow> a \<le> xs_startsAt s) \<and>
            (case till of None \<Rightarrow> True | Some b \<Rightarrow> xs_startsAt s < b))
         (xd_sessions g)))"

text \<open>\<open>us_startsAt\<close> is \<open>None\<close> when not given and \<open>Some None\<close> when given and invalid.\<close>

record update_session =
  us_restaurantId :: id
  us_experienceId :: "id option"
  us_sessionId :: id
  us_startsAt :: "instant option option"
  us_endsAt :: "instant option option"
  us_capacityOverride :: "rat option option"
  us_status :: "session_status option"

record session_data =
  xt_startsAt :: "instant option"
  xt_endsAt :: "instant option"
  xt_capacityOverride :: "int option option"
  xt_status :: "session_status option"

definition no_session_data :: session_data where
  "no_session_data = \<lparr>xt_startsAt = None, xt_endsAt = None, xt_capacityOverride = None, xt_status = None\<rparr>"

definition session_update_data :: "update_session \<Rightarrow> session_row \<Rightarrow> experience_error + session_data" where
  "session_update_data i current =
     ebind (when_given (us_startsAt i) normalizeDate) (\<lambda>startsAt.
     ebind (when_given (us_endsAt i) normalizeDate) (\<lambda>endsAt.
     ebind (guard (orElse startsAt (xs_startsAt current) < orElse endsAt (xs_endsAt current))
              (ExperienceInputError EXPERIENCE_SESSION_TIME_INVALID)) (\<lambda>_.
     ebind (normalizeSessionCapacity (us_capacityOverride i)) (\<lambda>capacityOverride.
     Inr \<lparr>xt_startsAt = startsAt, xt_endsAt = endsAt, xt_capacityOverride = capacityOverride,
          xt_status = us_status i\<rparr>))))"

definition apply_session_data :: "session_data \<Rightarrow> session_row \<Rightarrow> session_row" where
  "apply_session_data d s = s\<lparr>xs_startsAt := orElse (xt_startsAt d) (xs_startsAt s),
     xs_endsAt := orElse (xt_endsAt d) (xs_endsAt s),
     xs_capacityOverride := orElse (xt_capacityOverride d) (xs_capacityOverride s),
     xs_status := orElse (xt_status d) (xs_status s)\<rparr>"

definition updateExperienceSession :: "xenv \<Rightarrow> update_session \<Rightarrow> xdb \<Rightarrow> xdb \<times> (experience_error + session_row)" where
  "updateExperienceSession e i g =
     (case find (\<lambda>s. xs_id s = us_sessionId i \<and> xs_restaurantId s = us_restaurantId i \<and>
              (truthy (us_experienceId i) \<longrightarrow> us_experienceId i = Some (xs_experienceId s))) (xd_sessions g) of
        None \<Rightarrow> (g, Inl ExperienceSessionNotFoundError)
      | Some current \<Rightarrow>
        (case session_update_data i current of
           Inl err \<Rightarrow> (g, Inl err)
         | Inr d \<Rightarrow>
             if d = no_session_data then (g, Inr current)
             else
               let g1 = xv_race e 1 g in
               case find (\<lambda>s. xs_id s = xs_id current) (xd_sessions g1) of
                 None \<Rightarrow> (g1, Inl (ExperienceDbError P2025))
               | Some s \<Rightarrow>
                   let s' = apply_session_data d s in
                   if \<not> session_checks s' then (g1, Inl (ExperienceDbError OTHER_DB_ERROR))
                   else if \<exists>t \<in> set (xd_sessions g1). xs_id t \<noteq> xs_id s \<and> session_conflict s' t
                   then (g1, Inl (ExperienceConflictError EXPERIENCE_SESSION_CONFLICT))
                   else (g1\<lparr>xd_sessions := upd_where (\<lambda>s. xs_id s = xs_id current) (apply_session_data d)
                              (xd_sessions g1)\<rparr>, Inr s')))"

definition expireExperienceSessions :: "instant \<Rightarrow> int option \<Rightarrow> (xdb \<Rightarrow> xdb) \<Rightarrow> xdb \<Rightarrow> xdb \<times> nat" where
  "expireExperienceSessions now limit race g =
     (let rows = take (page_size 1000 limit) (js_sort (\<lambda>s t. xs_endsAt s - xs_endsAt t)
                   (filter (\<lambda>s. xs_status s = XS_OPEN \<and> xs_endsAt s \<le> now) (xd_sessions g)));
          due = (\<lambda>s. xs_id s \<in> set (map xs_id rows) \<and> xs_status s = XS_OPEN);
          g1 = race g
      in if rows = [] then (g, 0)
         else (g1\<lparr>xd_sessions := upd_where due (\<lambda>s. s\<lparr>xs_status := XS_CLOSED\<rparr>) (xd_sessions g1)\<rparr>,
               count_where due (xd_sessions g1)))"

section \<open>Seats\<close>

text \<open>A session with its experience, which the foreign key says exists.\<close>

definition find_session :: "id \<Rightarrow> id \<Rightarrow> id \<Rightarrow> xdb \<Rightarrow> (session_row \<times> experience_row) option" where
  "find_session restaurantId experienceId sessionId g =
     (case find (\<lambda>s. xs_id s = sessionId \<and> xs_restaurantId s = restaurantId \<and> xs_experienceId s = experienceId)
             (xd_sessions g) of
        None \<Rightarrow> None
      | Some s \<Rightarrow> map_option (\<lambda>x. (s, x)) (find (\<lambda>x. xp_id x = xs_experienceId s) (xd_experiences g)))"

definition effectiveCapacity :: "session_row \<Rightarrow> experience_row \<Rightarrow> int" where
  "effectiveCapacity s x = orElse (xs_capacityOverride s) (xp_capacity x)"

definition taken_seat :: "id \<Rightarrow> id \<Rightarrow> booking_row \<Rightarrow> bool" where
  "taken_seat restaurantId sessionId b \<longleftrightarrow>
     xb_sessionId b = sessionId \<and> xb_restaurantId b = restaurantId \<and> xb_status b = XB_CONFIRMED"

definition held_seat :: "id \<Rightarrow> id \<Rightarrow> instant \<Rightarrow> checkout_row \<Rightarrow> bool" where
  "held_seat restaurantId sessionId now c \<longleftrightarrow>
     xc_sessionId c = sessionId \<and> xc_restaurantId c = restaurantId \<and> xc_status c = XC_OPEN \<and> now < xc_expiresAt c"

definition booked :: "id \<Rightarrow> id \<Rightarrow> xdb \<Rightarrow> int" where
  "booked restaurantId sessionId g = sum_list (map xb_quantity (filter (taken_seat restaurantId sessionId) (xd_bookings g)))"

definition held :: "id \<Rightarrow> id \<Rightarrow> instant \<Rightarrow> xdb \<Rightarrow> int" where
  "held restaurantId sessionId now g =
     sum_list (map xc_quantity (filter (held_seat restaurantId sessionId now) (xd_checkouts g)))"

text \<open>The foreign keys of a booking that this development keeps: the customer and the reservation it names.\<close>

definition insertBooking :: "booking_row \<Rightarrow> xdb \<Rightarrow> experience_error + xdb" where
  "insertBooking b g =
     (if \<not> booking_checks b then Inl (ExperienceDbError OTHER_DB_ERROR)
      else if \<exists>c \<in> set (xd_bookings g). booking_conflict b c then Inl (ExperienceDbError P2002)
      else if \<not> (case xb_customerId b of None \<Rightarrow> True | Some k \<Rightarrow> list_ex (\<lambda>c. xk_id c = k) (xd_customers g)) \<or>
              \<not> (case xb_reservationId b of None \<Rightarrow> True | Some k \<Rightarrow> list_ex (\<lambda>r. r_id r = k) (reservations (xd_db g)))
      then Inl (ExperienceDbError OTHER_DB_ERROR)
      else Inr (g\<lparr>xd_bookings := xd_bookings g @ [b]\<rparr>))"

definition findReservationByIdempotency :: "string option \<Rightarrow> xdb \<Rightarrow> booking_row option" where
  "findReservationByIdempotency key g =
     (if \<not> truthy key then None else find (\<lambda>b. xb_idempotencyKey b = key) (xd_bookings g))"

definition assertCustomer :: "id \<Rightarrow> id \<Rightarrow> xdb \<Rightarrow> experience_error + unit" where
  "assertCustomer restaurantId customerId g =
     guard (list_ex (\<lambda>c. xk_id c = customerId \<and> xk_restaurantId c = restaurantId \<and> xk_archivedAt c = None \<and>
              xk_mergedIntoId c = None) (xd_customers g)) ExperienceCustomerNotFoundError"

definition assertReservation :: "id \<Rightarrow> id option \<Rightarrow> id option \<Rightarrow> xdb \<Rightarrow> experience_error + unit" where
  "assertReservation restaurantId customerId reservationId g =
     guard (\<not> truthy reservationId \<or>
       list_ex (\<lambda>r. Some (r_id r) = reservationId \<and> r_restaurantId r = restaurantId \<and>
           (truthy customerId \<longrightarrow> r_customerId r = customerId) \<and> r_state r \<notin> {CANCELLED, NO_SHOW})
         (reservations (xd_db g)))
       (ExperienceConflictError EXPERIENCE_RESERVATION_INVALID)"

record reserve_input =
  rs_restaurantId :: id
  rs_experienceId :: id
  rs_sessionId :: id
  rs_customerId :: "id option"
  rs_reservationId :: "id option"
  rs_quantity :: rat
  rs_idempotencyKey :: "string option"
  rs_actor :: string

definition assertReplayMatches :: "booking_row \<Rightarrow> reserve_input \<Rightarrow> experience_error + unit" where
  "assertReplayMatches b i =
     guard (xb_experienceId b = rs_experienceId i \<and> xb_sessionId b = rs_sessionId i \<and>
            of_int (xb_quantity b) = rs_quantity i)
       (ExperienceConflictError EXPERIENCE_IDEMPOTENCY_CONFLICT)"

text \<open>The transaction of a reservation: the row it inserts, or what it throws.\<close>

definition reserve_tx :: "runtime \<Rightarrow> xenv \<Rightarrow> reserve_input \<Rightarrow> int \<Rightarrow> string option \<Rightarrow> xdb \<Rightarrow>
    experience_error + xdb \<times> booking_row" where
  "reserve_tx rt e i quantity key g =
     (case find_session (rs_restaurantId i) (rs_experienceId i) (rs_sessionId i) g of
        None \<Rightarrow> Inl ExperienceSessionNotFoundError
      | Some (s, x) \<Rightarrow>
          ebind (guard (xs_status s = XS_OPEN) (ExperienceConflictError EXPERIENCE_SESSION_CLOSED)) (\<lambda>_.
          ebind (guard (xp_status x = X_ACTIVE) (ExperienceConflictError EXPERIENCE_NOT_ACTIVE)) (\<lambda>_.
          ebind (guard (xv_now e < xs_startsAt s) (ExperienceConflictError EXPERIENCE_SESSION_IN_PAST)) (\<lambda>_.
          let used = booked (rs_restaurantId i) (rs_sessionId i) g +
                     held (rs_restaurantId i) (rs_sessionId i) (xv_now e) g in
          ebind (guard (used + quantity \<le> effectiveCapacity s x) (ExperienceConflictError EXPERIENCE_CAPACITY_EXCEEDED)) (\<lambda>_.
          let b = \<lparr>xb_id = xv_id e, xb_restaurantId = rs_restaurantId i, xb_experienceId = rs_experienceId i,
                   xb_sessionId = rs_sessionId i, xb_customerId = rs_customerId i, xb_customerName = None,
                   xb_customerEmail = None, xb_customerPhone = None, xb_reservationId = rs_reservationId i,
                   xb_idempotencyKey = key, xb_quantity = quantity, xb_unitPriceCents = xp_priceCents x,
                   xb_totalPriceCents = xp_priceCents x * quantity, xb_currency = xp_currency x,
                   xb_status = XB_CONFIRMED, xb_createdByHash = hashActor rt (rs_actor i),
                   xb_cancelledByHash = None, xb_cancelledAt = None, xb_createdAt = xv_now e\<rparr> in
          ebind (insertBooking b g) (\<lambda>g'. Inr (g', b)))))))"

text \<open>The checks made before the transaction, each on the state its query sees.\<close>

definition reserve_checks :: "xenv \<Rightarrow> reserve_input \<Rightarrow> xdb \<Rightarrow> xdb \<times> (experience_error + unit)" where
  "reserve_checks e i g1 =
     (case find_session (rs_restaurantId i) (rs_experienceId i) (rs_sessionId i) g1 of
        None \<Rightarrow> (g1, Inl ExperienceSessionNotFoundError)
      | Some (s, x) \<Rightarrow>
          if xs_status s \<noteq> XS_OPEN then (g1, Inl (ExperienceConflictError EXPERIENCE_SESSION_CLOSED))
          else if xs_startsAt s \<le> xv_now e then (g1, Inl (ExperienceConflictError EXPERIENCE_SESSION_IN_PAST))
          else
            let g2 = (if truthy (rs_customerId i) then xv_race e 2 g1 else g1);
                g3 = (if truthy (rs_reservationId i) then xv_race e 3 g2 else g2)
            in case (if truthy (rs_customerId i) then assertCustomer (rs_restaurantId i) (the (rs_customerId i)) g2
                     else Inr ()) of
                 Inl err \<Rightarrow> (g2, Inl err)
               | Inr _ \<Rightarrow>
                 (case assertReservation (rs_restaurantId i) (rs_customerId i) (rs_reservationId i) g3 of
                    Inl err \<Rightarrow> (g3, Inl err)
                  | Inr _ \<Rightarrow> (g3, guard (xp_status x = X_ACTIVE) (ExperienceConflictError EXPERIENCE_NOT_ACTIVE))))"

text \<open>The second component of an answer is \<open>replayed\<close>.\<close>

definition reserve_write :: "runtime \<Rightarrow> xenv \<Rightarrow> reserve_input \<Rightarrow> int \<Rightarrow> string option \<Rightarrow> xdb \<Rightarrow>
    xdb \<times> (experience_error + booking_row \<times> bool)" where
  "reserve_write rt e i quantity key g =
     (case in_tx (reserve_tx rt e i quantity key) g of
        (g', Inr b) \<Rightarrow> (g', Inr (b, False))
      | (_, Inl err) \<Rightarrow>
          if err = ExperienceDbError P2002 \<and> truthy key then
            (let g' = xv_race e 5 g in
             case findReservationByIdempotency key g' of
               None \<Rightarrow> (g', Inl err)
             | Some raced \<Rightarrow> (g', ebind (assertReplayMatches raced i) (\<lambda>_. Inr (raced, True))))
          else (g, Inl err))"

definition reserveExperience :: "runtime \<Rightarrow> xenv \<Rightarrow> reserve_input \<Rightarrow> xdb \<Rightarrow>
    xdb \<times> (experience_error + booking_row \<times> bool)" where
  "reserveExperience rt e i g =
     (case normalizeQuantity (rs_quantity i) of Inl err \<Rightarrow> (g, Inl err) | Inr quantity \<Rightarrow>
     (case normalizeIdempotencyKey (rs_idempotencyKey i) of Inl err \<Rightarrow> (g, Inl err) | Inr rawKey \<Rightarrow>
     (let key = map_option (hashIdempotencyKey rt (rs_restaurantId i)) rawKey in
      case findReservationByIdempotency key g of
        Some replay \<Rightarrow> (g, ebind (assertReplayMatches replay i) (\<lambda>_. Inr (replay, True)))
      | None \<Rightarrow>
          (case reserve_checks e i (xv_race e 1 g) of
             (g3, Inl err) \<Rightarrow> (g3, Inl err)
           | (g3, Inr _) \<Rightarrow> reserve_write rt e i quantity key (xv_race e 4 g3)))))"

definition listExperienceReservations :: "id \<Rightarrow> id option \<Rightarrow> id option \<Rightarrow> id option \<Rightarrow> booking_status option \<Rightarrow>
    int option \<Rightarrow> xdb \<Rightarrow> booking_row list" where
  "listExperienceReservations restaurantId experienceId sessionId customerId status limit g =
     take (page_size 100 limit) (js_sort (\<lambda>b c. xb_createdAt c - xb_createdAt b)
       (filter (\<lambda>b. xb_restaurantId b = restaurantId \<and>
            (truthy experienceId \<longrightarrow> experienceId = Some (xb_experienceId b)) \<and>
            (truthy sessionId \<longrightarrow> sessionId = Some (xb_sessionId b)) \<and>
            (truthy customerId \<longrightarrow> customerId = xb_customerId b) \<and>
            (status \<noteq> None \<longrightarrow> status = Some (xb_status b)))
         (xd_bookings g)))"

section \<open>Deletion\<close>

text \<open>What the foreign keys delete with an experience.\<close>

definition cascade_experience :: "id \<Rightarrow> xdb \<Rightarrow> xdb" where
  "cascade_experience experienceId g =
     (let sessions = map xs_id (filter (\<lambda>s. xs_experienceId s = experienceId) (xd_sessions g));
          gone = (\<lambda>c. xc_experienceId c = experienceId \<or> xc_sessionId c \<in> set sessions);
          checkouts = map xc_id (filter gone (xd_checkouts g))
      in g\<lparr>xd_experiences := filter (\<lambda>x. xp_id x \<noteq> experienceId) (xd_experiences g),
           xd_sessions := filter (\<lambda>s. xs_experienceId s \<noteq> experienceId) (xd_sessions g),
           xd_bookings := filter (\<lambda>b. xb_experienceId b \<noteq> experienceId \<and> xb_sessionId b \<notin> set sessions) (xd_bookings g),
           xd_checkouts := filter (\<lambda>c. \<not> gone c) (xd_checkouts g),
           xd_events := filter (\<lambda>v. xe_checkoutId v \<notin> set checkouts) (xd_events g)\<rparr>)"

definition deletable :: "id \<Rightarrow> instant \<Rightarrow> xdb \<Rightarrow> experience_row \<Rightarrow> bool" where
  "deletable restaurantId now g x \<longleftrightarrow> xp_restaurantId x = restaurantId \<and> xp_status x = X_DRAFT \<and>
     \<not> list_ex (\<lambda>b. xb_experienceId b = xp_id x) (xd_bookings g) \<and>
     \<not> list_ex (\<lambda>c. xc_experienceId c = xp_id x \<and> xc_status c = XC_OPEN \<and> now < xc_expiresAt c) (xd_checkouts g) \<and>
     \<not> list_ex (\<lambda>s. xs_experienceId s = xp_id x \<and> (xs_startsAt s \<le> now \<or> xs_status s \<noteq> XS_OPEN)) (xd_sessions g)"

text \<open>\<open>aborted\<close>: PostgreSQL gives up the transaction because of a write conflict (\<open>P2034\<close>).\<close>

definition deleteExperience :: "id \<Rightarrow> id \<Rightarrow> instant \<Rightarrow> bool \<Rightarrow> xdb \<Rightarrow> xdb \<times> (experience_error + unit)" where
  "deleteExperience restaurantId experienceId now aborted g =
     (if aborted then (g, Inl (ExperienceConflictError EXPERIENCE_DELETE_CONFLICT))
      else case find (\<lambda>x. xp_id x = experienceId \<and> xp_restaurantId x = restaurantId) (xd_experiences g) of
        None \<Rightarrow> (g, Inl ExperienceNotFoundError)
      | Some x \<Rightarrow>
          if deletable restaurantId now g x then (cascade_experience experienceId g, Inr ())
          else (g, Inl (ExperienceConflictError EXPERIENCE_DELETE_NOT_ALLOWED)))"

end
