(* ===== verification/Experience_Payments.thy ===== *)
theory Experience_Payments
  imports Experiences
begin

text \<open>
  Online payment of experiences (\<open>modules/experiences/experience-payment.service.ts\<close>) and the cancellation
  of a reservation, which refunds it. A checkout holds seats for 35 minutes; Stripe then reports the payment,
  and the transaction that receives the report takes the seats or asks for a refund. What Stripe answers is
  an argument (the record \<open>stripe\<close>); the wrappers of \<open>gift-cards/stripe.service.ts\<close> are modelled over it. The
  commission is an exact rational, its product is not rounded to a double.
\<close>

section \<open>The provider\<close>

datatype intent_ref = NoIntent | IntentId string | IntentObject string

record stripe_account =
  ac_chargesEnabled :: bool
  ac_payoutsEnabled :: bool

record stripe_session =
  ss_id :: string
  ss_url :: "string option"
  ss_payment_intent :: intent_ref
  ss_status :: "string option"

record stripe_refund =
  rf_id :: string
  rf_status :: "string option"

record session_request =
  sq_quantity :: int
  sq_currency :: string
  sq_unitAmount :: rat
  sq_name :: string
  sq_startsAt :: instant
  sq_restaurantId :: id
  sq_checkoutId :: id
  sq_applicationFee :: "int option"
  sq_expiresAt :: int
  sq_successUrl :: string
  sq_cancelUrl :: string
  sq_idempotencyKey :: string
  sq_account :: string

record refund_request =
  rq_paymentIntent :: string
  rq_refundApplicationFee :: bool
  rq_idempotencyKey :: string
  rq_account :: string

text \<open>A call answers a value or throws a message.\<close>

record stripe =
  sp_retrieveAccount :: "string \<Rightarrow> string + stripe_account"
  sp_createSession :: "session_request \<Rightarrow> string + stripe_session"
  sp_retrieveSession :: "string \<Rightarrow> string \<Rightarrow> string + stripe_session"
  sp_expireSession :: "string \<Rightarrow> string \<Rightarrow> string + stripe_session"
  sp_applicationFee :: "string \<Rightarrow> string \<Rightarrow> string + int option"
  sp_createRefund :: "refund_request \<Rightarrow> string + stripe_refund"

text \<open>What a call to Stripe throws reaches the caller as it is.\<close>

definition ask_stripe :: "string + 'a \<Rightarrow> experience_error + 'a" where
  "ask_stripe r = (case r of Inl m \<Rightarrow> Inl (StripeError m) | Inr a \<Rightarrow> Inr a)"

definition retrieveConnectedAccount :: "stripe \<Rightarrow> string \<Rightarrow> experience_error + stripe_account" where
  "retrieveConnectedAccount sp accountId = ask_stripe (sp_retrieveAccount sp accountId)"

text \<open>Only a textual reference to the payment intent is kept.\<close>

definition intent_text :: "intent_ref \<Rightarrow> string option" where
  "intent_text r = (case r of IntentId k \<Rightarrow> Some k | _ \<Rightarrow> None)"

definition intent_id :: "intent_ref \<Rightarrow> string option" where
  "intent_id r = (case r of NoIntent \<Rightarrow> None | IntentId k \<Rightarrow> Some k | IntentObject k \<Rightarrow> Some k)"

record link =
  ln_id :: string
  ln_url :: string
  ln_paymentIntentId :: "string option"

definition session_link :: "string \<Rightarrow> stripe_session \<Rightarrow> experience_error + link" where
  "session_link message s =
     (if \<not> truthy (ss_url s) then Inl (StripeError message)
      else Inr \<lparr>ln_id = ss_id s, ln_url = the (ss_url s), ln_paymentIntentId = intent_text (ss_payment_intent s)\<rparr>)"

definition createExperienceCheckoutSession :: "stripe \<Rightarrow> session_request \<Rightarrow> experience_error + link" where
  "createExperienceCheckoutSession sp q =
     ebind (ask_stripe (sp_createSession sp q)) (session_link ''no payment link'')"

definition retrieveExperienceCheckoutSession :: "stripe \<Rightarrow> string \<Rightarrow> string \<Rightarrow> experience_error + link" where
  "retrieveExperienceCheckoutSession sp sessionId account =
     ebind (ask_stripe (sp_retrieveSession sp sessionId account)) (session_link ''link gone'')"

definition expireExperienceCheckoutSession :: "stripe \<Rightarrow> string \<Rightarrow> string \<Rightarrow> experience_error + stripe_session" where
  "expireExperienceCheckoutSession sp sessionId account =
     (case sp_expireSession sp sessionId account of
        Inr s \<Rightarrow> Inr s
      | Inl m \<Rightarrow>
          ebind (ask_stripe (sp_retrieveSession sp sessionId account)) (\<lambda>current.
            if ss_status current = Some ''expired'' \<or> ss_status current = Some ''complete'' then Inr current
            else Inl (StripeError m)))"

text \<open>The status of a refund that has none is pending.\<close>

record refund =
  rd_id :: string
  rd_status :: string

definition createRefund :: "stripe \<Rightarrow> string \<Rightarrow> string \<Rightarrow> string \<Rightarrow> experience_error + refund" where
  "createRefund sp paymentIntentId idempotencyKey account =
     ebind (if account = [] then Inr None else ask_stripe (sp_applicationFee sp paymentIntentId account)) (\<lambda>fee.
     ebind (ask_stripe (sp_createRefund sp
              \<lparr>rq_paymentIntent = paymentIntentId, rq_refundApplicationFee = (account \<noteq> [] \<and> orElse fee 0 > 0),
               rq_idempotencyKey = idempotencyKey, rq_account = account\<rparr>)) (\<lambda>r.
     Inr \<lparr>rd_id = rf_id r, rd_status = orElse (rf_status r) ''pending''\<rparr>))"

section \<open>Hashes and addresses\<close>

definition hashIdempotencyKey :: "runtime \<Rightarrow> id \<Rightarrow> string \<Rightarrow> string" where
  "hashIdempotencyKey rt restaurantId key = sha256 rt (''experience-checkout:'' @ restaurantId @ '':'' @ key)"

definition hashActor :: "runtime \<Rightarrow> string \<Rightarrow> string" where
  "hashActor rt v = sha256 rt (''experience-public:'' @ v)"

text \<open>\<open>encodeURIComponent\<close> on Latin-1: what is not unreserved becomes the bytes of its UTF-8 encoding.\<close>

definition percent :: "nat \<Rightarrow> string" where
  "percent n = (let hex = (\<lambda>k. if k < 10 then char_of (48 + k) else char_of (55 + k)) in
     [CHR ''%'', hex (n div 16), hex (n mod 16)])"

definition encode_char :: "char \<Rightarrow> string" where
  "encode_char c =
     (let n = of_char c :: nat in
      if between CHR ''A'' CHR ''Z'' c \<or> between CHR ''a'' CHR ''z'' c \<or> between CHR ''0'' CHR ''9'' c \<or>
         c \<in> set ''-_.!~*()'' \<or> n = 39 then [c]
      else if n < 128 then percent n
      else percent (192 + n div 64) @ percent (128 + n mod 64))"

definition encodeURIComponent :: "string \<Rightarrow> string" where
  "encodeURIComponent s = concat (map encode_char s)"

text \<open>\<open>origin\<close> is \<open>CONNECT_URL ?? SITE_URL ?? ''\<close>; one final slash is dropped.\<close>

definition slugUrl :: "string \<Rightarrow> string \<Rightarrow> string \<Rightarrow> experience_error + string" where
  "slugUrl origin slug query =
     (let base = (if origin \<noteq> [] \<and> last origin = CHR ''/'' then butlast origin else origin) in
      if base = [] then Inl UrlRequiredError
      else Inr (base @ ''/restaurant/'' @ encodeURIComponent slug @ ''/experiences'' @ query))"

section \<open>The restaurant\<close>

definition experienceRestaurantBySlug :: "string \<Rightarrow> xdb \<Rightarrow> experience_restaurant option" where
  "experienceRestaurantBySlug slug g = find (\<lambda>r. xr_slug r = Some slug) (xd_restaurants g)"

definition publicRestaurant :: "string \<Rightarrow> xdb \<Rightarrow> experience_restaurant option" where
  "publicRestaurant slug g =
     (case experienceRestaurantBySlug slug g of
        None \<Rightarrow> None
      | Some r \<Rightarrow> if xr_publishedAt r = None \<or> xr_connectPublished r \<noteq> Some True then None else Some r)"

definition stripe_account_of :: "experience_restaurant \<Rightarrow> string option" where
  "stripe_account_of r = orElse_opt (xr_experienceStripeAccountId r) (xr_giftCardStripeAccountId r)"

datatype stripe_readiness = NotConfigured | NotReady | Ready | Unavailable

datatype blocker =
  PilotClosed | RestaurantUnpublished | StripeNotConfigured | StripeUnavailable | StripeNotReady
| CommissionNotConfigured

record readiness =
  ry_canBook :: bool
  ry_bookingEnabled :: bool
  ry_restaurantPublished :: bool
  ry_stripeStatus :: stripe_readiness
  ry_chargesEnabled :: bool
  ry_payoutsEnabled :: bool
  ry_commissionRate :: "rat option"
  ry_blocker :: "blocker option"

text \<open>\<open>enabled\<close>: both switches of the environment are \<open>true\<close>.\<close>

definition getExperiencePaymentReadiness :: "stripe \<Rightarrow> bool \<Rightarrow> id \<Rightarrow> xdb \<Rightarrow> experience_error + readiness" where
  "getExperiencePaymentReadiness sp enabled restaurantId g =
     (case find (\<lambda>r. xr_id r = restaurantId) (xd_restaurants g) of
        None \<Rightarrow> Inl (ExperienceCheckoutError CO_EXPERIENCE_NOT_FOUND 404)
      | Some r \<Rightarrow>
        (let account = (if truthy (stripe_account_of r)
                        then Some (retrieveConnectedAccount sp (the (stripe_account_of r))) else None);
             charges = (case account of Some (Inr a) \<Rightarrow> ac_chargesEnabled a | _ \<Rightarrow> False);
             payouts = (case account of Some (Inr a) \<Rightarrow> ac_payoutsEnabled a | _ \<Rightarrow> False);
             status = (case account of None \<Rightarrow> NotConfigured | Some (Inl _) \<Rightarrow> Unavailable
                       | Some (Inr _) \<Rightarrow> if charges \<and> payouts then Ready else NotReady);
             rate = xr_experienceCommissionRate r;
             published = (truthy (xr_slug r) \<and> xr_publishedAt r \<noteq> None \<and> xr_connectPublished r = Some True);
             canBook = (enabled \<and> published \<and> status = Ready \<and> rate \<noteq> None)
         in Inr \<lparr>ry_canBook = canBook, ry_bookingEnabled = enabled, ry_restaurantPublished = published,
              ry_stripeStatus = status, ry_chargesEnabled = charges, ry_payoutsEnabled = payouts,
              ry_commissionRate = rate,
              ry_blocker = (if canBook then None else if \<not> enabled then Some PilotClosed
                else if \<not> published then Some RestaurantUnpublished
                else if status = NotConfigured then Some StripeNotConfigured
                else if status = Unavailable then Some StripeUnavailable
                else if status = NotReady then Some StripeNotReady
                else Some CommissionNotConfigured)\<rparr>))"

section \<open>The public list\<close>

record public_session =
  pv_id :: id
  pv_startsAt :: instant
  pv_endsAt :: instant
  pv_capacity :: int
  pv_remaining :: int

text \<open>The relations of a session are read by its identifier alone.\<close>

definition session_used :: "id \<Rightarrow> instant \<Rightarrow> xdb \<Rightarrow> int" where
  "session_used sessionId now g =
     sum_list (map xb_quantity (filter (\<lambda>b. xb_sessionId b = sessionId \<and> xb_status b = XB_CONFIRMED) (xd_bookings g))) +
     sum_list (map xc_quantity (filter (\<lambda>c. xc_sessionId c = sessionId \<and> xc_status c = XC_OPEN \<and> now < xc_expiresAt c)
       (xd_checkouts g)))"

definition public_session_of :: "instant \<Rightarrow> xdb \<Rightarrow> experience_row \<Rightarrow> session_row \<Rightarrow> public_session" where
  "public_session_of now g x s =
     \<lparr>pv_id = xs_id s, pv_startsAt = xs_startsAt s, pv_endsAt = xs_endsAt s, pv_capacity = effectiveCapacity s x,
      pv_remaining = max (effectiveCapacity s x - session_used (xs_id s) now g) 0\<rparr>"

definition upcoming :: "instant \<Rightarrow> experience_row \<Rightarrow> session_row \<Rightarrow> bool" where
  "upcoming now x s \<longleftrightarrow> xs_experienceId s = xp_id x \<and> xs_status s = XS_OPEN \<and> now < xs_startsAt s"

definition listPublicExperiences :: "runtime \<Rightarrow> string \<Rightarrow> instant \<Rightarrow> xdb \<Rightarrow>
    experience_error + (experience_row \<times> public_session list) list" where
  "listPublicExperiences rt slug now g =
     (case publicRestaurant slug g of
        None \<Rightarrow> Inl (ExperienceCheckoutError CO_EXPERIENCE_NOT_FOUND 404)
      | Some r \<Rightarrow>
          Inr (map (\<lambda>x. (x, map (public_session_of now g x)
                     (take 100 (js_sort (\<lambda>s t. xs_startsAt s - xs_startsAt t) (filter (upcoming now x) (xd_sessions g))))))
            (take 100 (js_sort (\<lambda>x y. dbCollate rt (xp_name x) (xp_name y))
              (filter (\<lambda>x. xp_restaurantId x = xr_id r \<and> xp_status x = X_ACTIVE \<and> list_ex (upcoming now x) (xd_sessions g))
                (xd_experiences g))))))"

section \<open>The table of checkouts\<close>

definition checkout_checks :: "checkout_row \<Rightarrow> bool" where
  "checkout_checks c \<longleftrightarrow> 1 \<le> xc_quantity c \<and> xc_quantity c \<le> 1000 \<and>
     0 \<le> xc_unitPriceCents c \<and> xc_unitPriceCents c \<le> 1000000 \<and>
     xc_totalPriceCents c = xc_unitPriceCents c * xc_quantity c \<and>
     0 \<le> xc_sokarFeeCents c \<and> xc_sokarFeeCents c \<le> xc_totalPriceCents c \<and> xc_currency c = ''EUR''"

definition checkout_conflict :: "checkout_row \<Rightarrow> checkout_row \<Rightarrow> bool" where
  "checkout_conflict c d \<longleftrightarrow> xc_id c = xc_id d \<or> same_some (xc_reservationId c) (xc_reservationId d) \<or>
     same_some (xc_stripeCheckoutSessionId c) (xc_stripeCheckoutSessionId d) \<or>
     same_some (xc_stripePaymentIntentId c) (xc_stripePaymentIntentId d) \<or>
     same_some (xc_stripeRefundId c) (xc_stripeRefundId d) \<or> xc_idempotencyKey c = xc_idempotencyKey d"

interpretation checkout_table: constrained_table xc_id checkout_conflict
  by unfold_locales (simp add: checkout_conflict_def same_some_def; metis)

definition insertCheckout :: "checkout_row \<Rightarrow> xdb \<Rightarrow> experience_error + xdb" where
  "insertCheckout c g =
     (if \<not> checkout_checks c then Inl (ExperienceDbError OTHER_DB_ERROR)
      else if \<exists>d \<in> set (xd_checkouts g). checkout_conflict c d then Inl (ExperienceDbError P2002)
      else Inr (g\<lparr>xd_checkouts := xd_checkouts g @ [c]\<rparr>))"

text \<open>An update of the rows that match, refused when two rows come to share a unique column.\<close>

definition no_conflicts :: "checkout_row list \<Rightarrow> bool" where
  "no_conflicts rows \<longleftrightarrow> (\<forall>c \<in> set rows. \<forall>d \<in> set rows. xc_id c \<noteq> xc_id d \<longrightarrow> \<not> checkout_conflict c d)"

definition updateCheckouts :: "(checkout_row \<Rightarrow> bool) \<Rightarrow> (checkout_row \<Rightarrow> checkout_row) \<Rightarrow> xdb \<Rightarrow> experience_error + xdb" where
  "updateCheckouts p f g =
     (let rows = upd_where p f (xd_checkouts g) in
      if no_conflicts rows then Inr (g\<lparr>xd_checkouts := rows\<rparr>) else Inl (ExperienceDbError P2002))"

text \<open>\<open>update\<close> by the identifier and the restaurant: the row must be there.\<close>

definition this_checkout :: "id \<Rightarrow> id \<Rightarrow> checkout_row \<Rightarrow> bool" where
  "this_checkout checkoutId restaurantId c \<longleftrightarrow> xc_id c = checkoutId \<and> xc_restaurantId c = restaurantId"

definition updateCheckout :: "id \<Rightarrow> id \<Rightarrow> (checkout_row \<Rightarrow> checkout_row) \<Rightarrow> xdb \<Rightarrow> experience_error + xdb" where
  "updateCheckout checkoutId restaurantId f g =
     ebind (guard (list_ex (this_checkout checkoutId restaurantId) (xd_checkouts g)) (ExperienceDbError P2025)) (\<lambda>_.
       updateCheckouts (this_checkout checkoutId restaurantId) f g)"

section \<open>A public checkout\<close>

abbreviation (input) CHECKOUT_HOLD_MS :: int where "CHECKOUT_HOLD_MS \<equiv> 2100000"

record checkout_input =
  ci_slug :: string
  ci_experienceId :: id
  ci_sessionId :: id
  ci_quantity :: int
  ci_idempotencyKey :: string

definition new_checkout :: "xenv \<Rightarrow> checkout_input \<Rightarrow> id \<Rightarrow> string \<Rightarrow> rat \<Rightarrow> string \<Rightarrow> experience_row \<Rightarrow> checkout_row" where
  "new_checkout e i restaurantId account commissionRate key x =
     (let total = xp_priceCents x * ci_quantity i in
      \<lparr>xc_id = xv_id e, xc_restaurantId = restaurantId, xc_experienceId = ci_experienceId i,
       xc_sessionId = ci_sessionId i, xc_reservationId = None, xc_quantity = ci_quantity i,
       xc_unitPriceCents = xp_priceCents x, xc_totalPriceCents = total,
       xc_sokarFeeCents = \<lfloor>of_int total * commissionRate + 1 / 2\<rfloor>, xc_currency = xp_currency x,
       xc_status = XC_OPEN, xc_stripeAccountId = account, xc_stripeCheckoutSessionId = None,
       xc_stripePaymentIntentId = None, xc_stripeRefundId = None, xc_idempotencyKey = key,
       xc_expiresAt = xv_now e + CHECKOUT_HOLD_MS, xc_refundedAt = None\<rparr>)"

definition checkout_tx :: "xenv \<Rightarrow> checkout_input \<Rightarrow> id \<Rightarrow> string \<Rightarrow> rat \<Rightarrow> string \<Rightarrow> xdb \<Rightarrow>
    experience_error + xdb \<times> checkout_row \<times> session_row \<times> experience_row" where
  "checkout_tx e i restaurantId account commissionRate key g =
     (case find_session restaurantId (ci_experienceId i) (ci_sessionId i) g of
        None \<Rightarrow> Inl (ExperienceCheckoutError CO_SESSION_NOT_FOUND 404)
      | Some (s, x) \<Rightarrow>
          ebind (guard (xs_status s = XS_OPEN \<and> xv_now e < xs_startsAt s \<and> xp_status x = X_ACTIVE)
                   (ExperienceCheckoutError CO_SESSION_NOT_FOUND 404)) (\<lambda>_.
          let used = booked restaurantId (xs_id s) g + held restaurantId (xs_id s) (xv_now e) g in
          ebind (guard (used + ci_quantity i \<le> effectiveCapacity s x) (ExperienceCheckoutError CO_CAPACITY_EXCEEDED 409)) (\<lambda>_.
          let c = new_checkout e i restaurantId account commissionRate key x in
          ebind (insertCheckout c g) (\<lambda>g'. Inr (g', c, s, x)))))"

text \<open>The checkout of this key, found or created, with its session when that one is found.\<close>

definition obtain_checkout :: "xenv \<Rightarrow> checkout_input \<Rightarrow> id \<Rightarrow> string \<Rightarrow> rat \<Rightarrow> string \<Rightarrow> xdb \<Rightarrow>
    xdb \<times> (experience_error + checkout_row \<times> (session_row \<times> experience_row) option)" where
  "obtain_checkout e i restaurantId account commissionRate key g =
     (case find (\<lambda>c. xc_idempotencyKey c = key \<and> xc_restaurantId c = restaurantId) (xd_checkouts g) of
        Some c \<Rightarrow>
          if xc_experienceId c \<noteq> ci_experienceId i \<or> xc_sessionId c \<noteq> ci_sessionId i \<or> xc_quantity c \<noteq> ci_quantity i
          then (g, Inl (ExperienceCheckoutError CO_IDEMPOTENCY_CONFLICT 409))
          else if xc_status c \<noteq> XC_OPEN \<or> xc_expiresAt c \<le> xv_now e
          then (g, Inl (ExperienceCheckoutError CO_IDEMPOTENCY_CONFLICT 410))
          else let g' = xv_race e 2 g in
            (g', Inr (c, case find (\<lambda>s. xs_id s = xc_sessionId c \<and> xs_restaurantId s = restaurantId) (xd_sessions g') of
               None \<Rightarrow> None
             | Some s \<Rightarrow> map_option (\<lambda>x. (s, x)) (find (\<lambda>x. xp_id x = xs_experienceId s) (xd_experiences g'))))
      | None \<Rightarrow>
          (case in_tx (checkout_tx e i restaurantId account commissionRate key) (xv_race e 2 g) of
             (g', Inl err) \<Rightarrow> (g', Inl err)
           | (g', Inr (c, s, x)) \<Rightarrow> (g', Inr (c, Some (s, x)))))"

definition session_request_of :: "string \<Rightarrow> id \<Rightarrow> checkout_row \<Rightarrow> session_row \<Rightarrow> experience_row \<Rightarrow> session_request" where
  "session_request_of base restaurantId c s x =
     \<lparr>sq_quantity = xc_quantity c, sq_currency = map lower_char (xc_currency c),
      sq_unitAmount = of_int (xc_totalPriceCents c) / of_int (xc_quantity c), sq_name = xp_name x,
      sq_startsAt = xs_startsAt s, sq_restaurantId = restaurantId, sq_checkoutId = xc_id c,
      sq_applicationFee = (if xc_totalPriceCents c > 0 \<and> xc_sokarFeeCents c > 0 then Some (xc_sokarFeeCents c) else None),
      sq_expiresAt = xc_expiresAt c div 1000,
      sq_successUrl = base @ ''?checkout=success&checkout_id='' @ xc_id c @ ''&session_id={CHECKOUT_SESSION_ID}'',
      sq_cancelUrl = base @ ''?checkout=cancelled&checkout_id='' @ xc_id c @ ''&session_id={CHECKOUT_SESSION_ID}'',
      sq_idempotencyKey = ''experience-checkout:'' @ xc_id c, sq_account = xc_stripeAccountId c\<rparr>"

record checkout_answer =
  ca_checkoutId :: id
  ca_url :: string
  ca_expiresAt :: instant

text \<open>The call to Stripe and the write of the identifiers it answers.\<close>

definition link_checkout :: "stripe \<Rightarrow> string \<Rightarrow> xenv \<Rightarrow> checkout_input \<Rightarrow> id \<Rightarrow> checkout_row \<Rightarrow> session_row \<Rightarrow>
    experience_row \<Rightarrow> xdb \<Rightarrow> xdb \<times> (experience_error + checkout_answer)" where
  "link_checkout sp origin e i restaurantId c s x g =
     (case ebind (slugUrl origin (ci_slug i) []) (\<lambda>base.
             if truthy (xc_stripeCheckoutSessionId c)
             then retrieveExperienceCheckoutSession sp (the (xc_stripeCheckoutSessionId c)) (xc_stripeAccountId c)
             else createExperienceCheckoutSession sp (session_request_of base restaurantId c s x)) of
        Inl err \<Rightarrow> (g, Inl err)
      | Inr l \<Rightarrow>
          (let g' = xv_race e 3 g in
           case updateCheckout (xc_id c) restaurantId (\<lambda>c. c\<lparr>xc_stripeCheckoutSessionId := Some (ln_id l),
                  xc_stripePaymentIntentId := ln_paymentIntentId l\<rparr>) g' of
             Inl err \<Rightarrow> (g', Inl err)
           | Inr g'' \<Rightarrow> (g'', Inr \<lparr>ca_checkoutId = xc_id c, ca_url = ln_url l, ca_expiresAt = xc_expiresAt c\<rparr>)))"

definition payment_setup :: "stripe \<Rightarrow> experience_restaurant \<Rightarrow> experience_error + string \<times> rat" where
  "payment_setup sp r =
     (case (stripe_account_of r, xr_experienceCommissionRate r) of
        (Some account, Some rate) \<Rightarrow>
          if account = [] \<or> rate < 0 \<or> rate > 1 then Inl (ExperienceCheckoutError CO_PAYMENT_NOT_CONFIGURED 503)
          else ebind (retrieveConnectedAccount sp account) (\<lambda>a.
            if \<not> ac_chargesEnabled a \<or> \<not> ac_payoutsEnabled a
            then Inl (ExperienceCheckoutError CO_STRIPE_NOT_READY 503) else Inr (account, rate))
      | _ \<Rightarrow> Inl (ExperienceCheckoutError CO_PAYMENT_NOT_CONFIGURED 503))"

definition createPublicExperienceCheckout :: "runtime \<Rightarrow> stripe \<Rightarrow> string \<Rightarrow> xenv \<Rightarrow> checkout_input \<Rightarrow> xdb \<Rightarrow>
    xdb \<times> (experience_error + checkout_answer)" where
  "createPublicExperienceCheckout rt sp origin e i g =
     (case publicRestaurant (ci_slug i) g of
        None \<Rightarrow> (g, Inl (ExperienceCheckoutError CO_EXPERIENCE_NOT_FOUND 404))
      | Some r \<Rightarrow>
        (case payment_setup sp r of
           Inl err \<Rightarrow> (g, Inl err)
         | Inr (account, rate) \<Rightarrow>
           (case obtain_checkout e i (xr_id r) account rate (hashIdempotencyKey rt (xr_id r) (ci_idempotencyKey i))
                   (xv_race e 1 g) of
              (g', Inl err) \<Rightarrow> (g', Inl err)
            | (g', Inr (c, None)) \<Rightarrow> (g', Inl (ExperienceCheckoutError CO_SESSION_NOT_FOUND 404))
            | (g', Inr (c, Some (s, x))) \<Rightarrow> link_checkout sp origin e i (xr_id r) c s x g')))"

record checkout_query =
  cq_slug :: string
  cq_checkoutId :: id
  cq_stripeSessionId :: string

definition find_public_checkout :: "checkout_query \<Rightarrow> xdb \<Rightarrow> checkout_row option" where
  "find_public_checkout i g =
     (case experienceRestaurantBySlug (cq_slug i) g of
        None \<Rightarrow> None
      | Some r \<Rightarrow> find (\<lambda>c. xc_id c = cq_checkoutId i \<and> xc_restaurantId c = xr_id r \<and>
                   xc_stripeCheckoutSessionId c = Some (cq_stripeSessionId i)) (xd_checkouts g))"

text \<open>The status shown, the booking of the checkout and its quantity.\<close>

definition getPublicExperienceCheckout :: "checkout_query \<Rightarrow> instant \<Rightarrow> xdb \<Rightarrow>
    experience_error + checkout_status \<times> booking_row option \<times> int" where
  "getPublicExperienceCheckout i now g =
     (case find_public_checkout i g of
        None \<Rightarrow> Inl (ExperienceCheckoutError CO_NOT_FOUND 404)
      | Some c \<Rightarrow>
          Inr (if xc_status c = XC_OPEN \<and> xc_expiresAt c \<le> now then XC_EXPIRED else xc_status c,
               case xc_reservationId c of None \<Rightarrow> None | Some k \<Rightarrow> find (\<lambda>b. xb_id b = k) (xd_bookings g),
               xc_quantity c))"

definition expire_open :: "id \<Rightarrow> id \<Rightarrow> xdb \<Rightarrow> experience_error + xdb" where
  "expire_open checkoutId restaurantId g =
     updateCheckouts (\<lambda>c. this_checkout checkoutId restaurantId c \<and> xc_status c = XC_OPEN)
       (\<lambda>c. c\<lparr>xc_status := XC_EXPIRED\<rparr>) g"

definition cancelPublicExperienceCheckout :: "stripe \<Rightarrow> xenv \<Rightarrow> checkout_query \<Rightarrow> xdb \<Rightarrow>
    xdb \<times> (experience_error + checkout_status)" where
  "cancelPublicExperienceCheckout sp e i g =
     (case find_public_checkout i g of
        None \<Rightarrow> (g, Inl (ExperienceCheckoutError CO_NOT_FOUND 404))
      | Some c \<Rightarrow>
          if xc_status c \<noteq> XC_OPEN then (g, Inr (xc_status c))
          else case expireExperienceCheckoutSession sp (cq_stripeSessionId i) (xc_stripeAccountId c) of
            Inl err \<Rightarrow> (g, Inl err)
          | Inr s \<Rightarrow>
              if ss_status s = Some ''expired'' then
                (let g' = xv_race e 1 g in
                 case expire_open (xc_id c) (xc_restaurantId c) g' of
                   Inl err \<Rightarrow> (g', Inl err)
                 | Inr g'' \<Rightarrow> (g'', Inr XC_EXPIRED))
              else (g, Inr (xc_status c)))"

definition expireExperienceCheckouts :: "instant \<Rightarrow> int option \<Rightarrow> (xdb \<Rightarrow> xdb) \<Rightarrow> xdb \<Rightarrow> xdb \<times> (experience_error + nat)" where
  "expireExperienceCheckouts now limit race g =
     (let n = nat (min (max (orElse limit 500) 1) 1000);
          rows = take n (js_sort (\<lambda>c d. xc_expiresAt c - xc_expiresAt d)
                   (filter (\<lambda>c. xc_status c = XC_OPEN \<and> xc_expiresAt c \<le> now) (xd_checkouts g)));
          due = (\<lambda>c. list_ex (\<lambda>r. this_checkout (xc_id r) (xc_restaurantId r) c) rows \<and> xc_status c = XC_OPEN);
          g1 = race g
      in if rows = [] then (g, Inr 0)
         else case updateCheckouts due (\<lambda>c. c\<lparr>xc_status := XC_EXPIRED\<rparr>) g1 of
           Inl err \<Rightarrow> (g1, Inl err)
         | Inr g2 \<Rightarrow> (g2, Inr (count_where due (xd_checkouts g1))))"

section \<open>Refunds\<close>

definition refund_outcome :: "string \<Rightarrow> checkout_status" where
  "refund_outcome status =
     (if status = ''succeeded'' then XC_REFUNDED
      else if status = ''failed'' \<or> status = ''canceled'' then XC_REFUND_FAILED
      else XC_REFUND_PENDING)"

abbreviation (input) refund_settled :: "checkout_status \<Rightarrow> bool" where
  "refund_settled s \<equiv> s \<in> {XC_REFUNDED, XC_REFUND_FAILED}"

text \<open>The conditional update every refund ends with: a settled refund is never rewritten.\<close>

definition write_refund :: "id \<Rightarrow> id \<Rightarrow> checkout_status \<Rightarrow> string \<Rightarrow> instant \<Rightarrow>
    (checkout_row \<Rightarrow> checkout_row) \<Rightarrow> xdb \<Rightarrow> experience_error + xdb" where
  "write_refund checkoutId restaurantId st refundId occurredAt extra g =
     updateCheckouts (\<lambda>c. this_checkout checkoutId restaurantId c \<and> \<not> refund_settled (xc_status c))
       (\<lambda>c. extra (c\<lparr>xc_status := st, xc_stripeRefundId := Some refundId,
          xc_refundedAt := (if st = XC_REFUNDED then Some occurredAt else None)\<rparr>)) g"

text \<open>The update, and the status read back.\<close>

definition persistExperienceRefund :: "id \<Rightarrow> id \<Rightarrow> refund \<Rightarrow> instant \<Rightarrow> (xdb \<Rightarrow> xdb) \<Rightarrow> xdb \<Rightarrow>
    xdb \<times> (experience_error + checkout_status)" where
  "persistExperienceRefund checkoutId restaurantId r now race g =
     (case write_refund checkoutId restaurantId (refund_outcome (rd_status r)) (rd_id r) now (\<lambda>c. c) g of
        Inl err \<Rightarrow> (g, Inl err)
      | Inr g' \<Rightarrow>
          (let g1 = race g' in
           case find (this_checkout checkoutId restaurantId) (xd_checkouts g1) of
             None \<Rightarrow> (g1, Inl (ExperienceDbError P2025))
           | Some c \<Rightarrow> (g1, Inr (xc_status c))))"

datatype refund_answer = Refund_not_required | Refund_pending | Refund_refunded

definition refundPaidExperienceReservation :: "stripe \<Rightarrow> xenv \<Rightarrow> id \<Rightarrow> id \<Rightarrow> xdb \<Rightarrow>
    xdb \<times> (experience_error + refund_answer)" where
  "refundPaidExperienceReservation sp e restaurantId reservationId g =
     (case find (\<lambda>c. xc_restaurantId c = restaurantId \<and> xc_reservationId c = Some reservationId) (xd_checkouts g) of
        None \<Rightarrow> (g, Inr Refund_not_required)
      | Some c \<Rightarrow>
          if xc_status c = XC_EXPIRED then (g, Inr Refund_not_required)
          else if xc_status c = XC_REFUNDED then (g, Inr Refund_refunded)
          else if xc_status c = XC_REFUND_FAILED then (g, Inl (ExperienceCheckoutError CO_REFUND_FAILED 409))
          else if xc_status c \<noteq> XC_PAID \<and> xc_status c \<noteq> XC_REFUND_PENDING then (g, Inr Refund_not_required)
          else if \<not> truthy (xc_stripePaymentIntentId c) then (g, Inl (ExperienceCheckoutError CO_REFUND_FAILED 409))
          else case createRefund sp (the (xc_stripePaymentIntentId c)) (''experience-cancel-refund:'' @ xc_id c)
                      (xc_stripeAccountId c) of
            Inl err \<Rightarrow> (g, Inl err)
          | Inr r \<Rightarrow>
             (case persistExperienceRefund (xc_id c) (xc_restaurantId c) r (xv_now e) (xv_race e 2) (xv_race e 1 g) of
                (g', Inl err) \<Rightarrow> (g', Inl err)
              | (g', Inr st) \<Rightarrow>
                  (g', if st = XC_REFUND_FAILED then Inl (ExperienceCheckoutError CO_REFUND_FAILED 409)
                       else Inr (if st = XC_REFUNDED then Refund_refunded else Refund_pending))))"

text \<open>\<open>cancelExperienceReservation\<close> of \<open>experience.service.ts\<close>: the refund first, then the reservation.\<close>

definition cancelled_booking :: "string \<Rightarrow> instant \<Rightarrow> booking_row \<Rightarrow> booking_row" where
  "cancelled_booking byHash now b =
     b\<lparr>xb_status := XB_CANCELLED, xb_cancelledAt := Some now, xb_cancelledByHash := Some byHash\<rparr>"

definition confirmed_booking :: "id \<Rightarrow> id \<Rightarrow> booking_row \<Rightarrow> bool" where
  "confirmed_booking restaurantId reservationId b \<longleftrightarrow>
     xb_id b = reservationId \<and> xb_restaurantId b = restaurantId \<and> xb_status b = XB_CONFIRMED"

text \<open>An answer: the row, whether it is a replay, and what became of the payment.\<close>

definition cancelExperienceReservation :: "runtime \<Rightarrow> stripe \<Rightarrow> xenv \<Rightarrow> id \<Rightarrow> id \<Rightarrow> string \<Rightarrow> xdb \<Rightarrow>
    xdb \<times> (experience_error + booking_row \<times> bool \<times> refund_answer)" where
  "cancelExperienceReservation rt sp e restaurantId reservationId actor g =
     (case refundPaidExperienceReservation sp e restaurantId reservationId g of
        (g1, Inl err) \<Rightarrow> (g1, Inl err)
      | (g1, Inr refundStatus) \<Rightarrow>
          (let g2 = xv_race e 3 g1;
               p = confirmed_booking restaurantId reservationId;
               g3 = g2\<lparr>xd_bookings := upd_where p (cancelled_booking (Experiences.hashActor rt actor) (xv_now e))
                        (xd_bookings g2)\<rparr>;
               g4 = xv_race e 4 g3
           in case find (\<lambda>b. xb_id b = reservationId \<and> xb_restaurantId b = restaurantId) (xd_bookings g4) of
                None \<Rightarrow> (g4, Inl ExperienceReservationNotFoundError)
              | Some b \<Rightarrow>
                  (g4, if count_where p (xd_bookings g2) = 1 then Inr (b, False, refundStatus)
                       else if xb_status b = XB_CANCELLED then Inr (b, True, refundStatus)
                       else Inl ExperienceReservationStateError)))"

section \<open>Reports of the provider\<close>

text \<open>What a handler answers; the last two are \<open>bookingUnavailable\<close> and the internal \<open>refundRequired\<close>.\<close>

datatype handled =
  NotHandled | Handled bool | HandledRefunded | HandledBooked id | HandledUnavailable | RefundRequired

record stripe_event =
  ev_id :: string
  ev_type :: string
  ev_occurredAt :: instant
  ev_payloadHash :: string
  ev_accountId :: "string option"

definition event_seen :: "stripe_event \<Rightarrow> id \<Rightarrow> xdb \<Rightarrow> bool" where
  "event_seen v restaurantId g =
     list_ex (\<lambda>x. xe_providerEventId x = ev_id v \<and> xe_restaurantId x = restaurantId) (xd_events g)"

text \<open>The unique index is on the identifier of the event alone; the foreign key is the checkout.\<close>

definition record_event :: "stripe_event \<Rightarrow> id \<Rightarrow> id \<Rightarrow> xdb \<Rightarrow> experience_error + xdb" where
  "record_event v restaurantId checkoutId g =
     (if list_ex (\<lambda>x. xe_providerEventId x = ev_id v) (xd_events g) then Inl (ExperienceDbError P2002)
      else if \<not> list_ex (\<lambda>c. xc_id c = checkoutId) (xd_checkouts g) then Inl (ExperienceDbError OTHER_DB_ERROR)
      else Inr (g\<lparr>xd_events := xd_events g @
             [\<lparr>xe_restaurantId = restaurantId, xe_checkoutId = checkoutId, xe_providerEventId = ev_id v,
               xe_eventType = ev_type v, xe_payloadHash = ev_payloadHash v, xe_occurredAt = ev_occurredAt v\<rparr>]\<rparr>))"

text \<open>A transaction that does nothing when the event was recorded, and else ends by recording it.\<close>

definition once :: "stripe_event \<Rightarrow> id \<Rightarrow> id \<Rightarrow> (xdb \<Rightarrow> experience_error + xdb \<times> handled) \<Rightarrow> xdb \<Rightarrow>
    xdb \<times> (experience_error + handled)" where
  "once v restaurantId checkoutId body g =
     in_tx (\<lambda>g. if event_seen v restaurantId g then Inr (g, Handled True)
                else ebind (body g) (\<lambda>(g', a). ebind (record_event v restaurantId checkoutId g') (\<lambda>g''. Inr (g'', a)))) g"

definition handleExperienceRefundStripeEvent :: "xenv \<Rightarrow> stripe_event \<Rightarrow> stripe_refund \<Rightarrow> intent_ref \<Rightarrow> xdb \<Rightarrow>
    xdb \<times> (experience_error + handled)" where
  "handleExperienceRefundStripeEvent e v r intent g =
     (if \<not> truthy (intent_id intent) then (g, Inr NotHandled)
      else case find (\<lambda>c. xc_stripePaymentIntentId c = intent_id intent) (xd_checkouts g) of
        None \<Rightarrow> (g, Inr NotHandled)
      | Some c \<Rightarrow>
          if Some (xc_stripeAccountId c) \<noteq> ev_accountId v then (g, Inl (ExperienceCheckoutError CO_EVENT_INVALID 400))
          else once v (xc_restaurantId c) (xc_id c) (\<lambda>g'.
            ebind (if refund_settled (xc_status c) then Inr g'
                   else write_refund (xc_id c) (xc_restaurantId c) (refund_outcome (orElse (rf_status r) ''''))
                     (rf_id r) (ev_occurredAt v) (\<lambda>c. c) g') (\<lambda>g''. Inr (g'', Handled False)))
            (xv_race e 1 g))"

record reported_session =
  rp_id :: string
  rp_type :: "string option"
  rp_restaurantId :: "id option"
  rp_checkoutId :: "id option"
  rp_payment_intent :: intent_ref
  rp_payment_status :: string
  rp_amount_total :: "int option"
  rp_currency :: "string option"
  rp_phone :: "string option"
  rp_email :: "string option"
  rp_name :: "string option"
  rp_guest_name :: "string option"

text \<open>
  \<open>rp_guest_name\<close> is the value of the first custom field \<open>guest_name\<close> when it is a text. An empty string is
  falsy and becomes \<open>null\<close>.
\<close>

definition not_empty :: "string \<Rightarrow> string option" where
  "not_empty s = (if s = [] then None else Some s)"

definition guest_phone :: "reported_session \<Rightarrow> string option" where
  "guest_phone rp = (if truthy (rp_phone rp) then normalizeCustomerPhone (the (rp_phone rp)) else None)"

definition guest_email :: "reported_session \<Rightarrow> string option" where
  "guest_email rp = (case rp_email rp of None \<Rightarrow> None | Some s \<Rightarrow> not_empty (map lower_char (js_trim s)))"

definition guest_name :: "reported_session \<Rightarrow> string option" where
  "guest_name rp =
     (let clean = (\<lambda>v. case v of None \<Rightarrow> None | Some s \<Rightarrow> not_empty (js_trim s)) in
      orElse_opt (clean (rp_name rp)) (clean (rp_guest_name rp)))"

text \<open>The checkout with its session and its experience.\<close>

definition checkout_context :: "id \<Rightarrow> id \<Rightarrow> xdb \<Rightarrow> (checkout_row \<times> session_row \<times> experience_row) option" where
  "checkout_context checkoutId restaurantId g =
     (case find (this_checkout checkoutId restaurantId) (xd_checkouts g) of
        None \<Rightarrow> None
      | Some c \<Rightarrow>
         (case (find (\<lambda>s. xs_id s = xc_sessionId c) (xd_sessions g), find (\<lambda>x. xp_id x = xc_experienceId c) (xd_experiences g)) of
            (Some s, Some x) \<Rightarrow> Some (c, s, x)
          | _ \<Rightarrow> None))"

definition too_late :: "checkout_row \<Rightarrow> session_row \<Rightarrow> experience_row \<Rightarrow> instant \<Rightarrow> bool" where
  "too_late c s x occurredAt \<longleftrightarrow> xc_status c \<noteq> XC_OPEN \<or> xc_expiresAt c \<le> occurredAt \<or> xs_status s \<noteq> XS_OPEN \<or>
     xs_startsAt s \<le> occurredAt \<or> xp_status x \<noteq> X_ACTIVE"

text \<open>The customer of a phone, created or completed.\<close>

definition upsertCustomer :: "id \<Rightarrow> string \<Rightarrow> string option \<Rightarrow> string option \<Rightarrow> id \<Rightarrow> xdb \<Rightarrow> xdb \<times> id" where
  "upsertCustomer restaurantId phone name email newId g =
     (case find (\<lambda>k. xk_restaurantId k = restaurantId \<and> xk_phone k = phone) (xd_customers g) of
        Some k \<Rightarrow>
          (g\<lparr>xd_customers := upd_where (\<lambda>k'. xk_id k' = xk_id k)
               (\<lambda>k'. k'\<lparr>xk_name := orElse_opt name (xk_name k'), xk_emailNormalized := orElse_opt email (xk_emailNormalized k')\<rparr>)
               (xd_customers g)\<rparr>, xk_id k)
      | None \<Rightarrow>
          (g\<lparr>xd_customers := xd_customers g @
               [\<lparr>xk_id = newId, xk_restaurantId = restaurantId, xk_phone = phone, xk_name = name,
                 xk_emailNormalized = email, xk_archivedAt = None, xk_mergedIntoId = None\<rparr>]\<rparr>, newId))"

text \<open>The rows the booking of a payment is made from: the new identifiers and the clock of the transaction.\<close>

record booking_env =
  be_id :: id
  be_customerId :: id
  be_now :: instant

definition paid_booking :: "runtime \<Rightarrow> booking_env \<Rightarrow> reported_session \<Rightarrow> checkout_row \<Rightarrow> id option \<Rightarrow> booking_row" where
  "paid_booking rt be rp c customerId =
     \<lparr>xb_id = be_id be, xb_restaurantId = xc_restaurantId c, xb_experienceId = xc_experienceId c,
      xb_sessionId = xc_sessionId c, xb_customerId = customerId, xb_customerName = guest_name rp,
      xb_customerEmail = guest_email rp, xb_customerPhone = guest_phone rp, xb_reservationId = None,
      xb_idempotencyKey = Some (''stripe-experience:'' @ xc_id c), xb_quantity = xc_quantity c,
      xb_unitPriceCents = xc_unitPriceCents c, xb_totalPriceCents = xc_totalPriceCents c,
      xb_currency = xc_currency c, xb_status = XB_CONFIRMED, xb_createdByHash = hashActor rt (xc_id c),
      xb_cancelledByHash = None, xb_cancelledAt = None, xb_createdAt = be_now be\<rparr>"

text \<open>No seat can be given: a free checkout expires, a paid one waits for its refund.\<close>

definition decline :: "checkout_row \<Rightarrow> string option \<Rightarrow> xdb \<Rightarrow> experience_error + xdb \<times> handled" where
  "decline c intent g =
     ebind (updateCheckout (xc_id c) (xc_restaurantId c)
        (\<lambda>c'. c'\<lparr>xc_status := (if xc_totalPriceCents c = 0 then XC_EXPIRED else XC_REFUND_PENDING),
                 xc_stripePaymentIntentId := orElse_opt intent (xc_stripePaymentIntentId c')\<rparr>) g) (\<lambda>g'.
     Inr (g', if xc_totalPriceCents c = 0 then Handled False else RefundRequired))"

text \<open>Seats held by the other checkouts of the session.\<close>

definition held_by_others :: "checkout_row \<Rightarrow> instant \<Rightarrow> xdb \<Rightarrow> int" where
  "held_by_others c now g =
     sum_list (map xc_quantity (filter (\<lambda>d. held_seat (xc_restaurantId c) (xc_sessionId c) now d \<and> xc_id d \<noteq> xc_id c)
       (xd_checkouts g)))"

text \<open>The checkout whose payment was taken; it points to its booking.\<close>

definition settle :: "reported_session \<Rightarrow> id \<Rightarrow> checkout_status \<Rightarrow> checkout_row \<Rightarrow> checkout_row" where
  "settle rp bid st c' = c'\<lparr>xc_status := st,
     xc_stripePaymentIntentId := (if truthy (intent_id (rp_payment_intent rp)) then intent_id (rp_payment_intent rp)
                                  else xc_stripePaymentIntentId c'),
     xc_reservationId := Some bid\<rparr>"

definition take_seats :: "runtime \<Rightarrow> booking_env \<Rightarrow> reported_session \<Rightarrow> checkout_row \<Rightarrow> xdb \<Rightarrow>
    experience_error + xdb \<times> handled" where
  "take_seats rt be rp c g =
     (let (g1, customerId) = (case guest_phone rp of None \<Rightarrow> (g, None)
            | Some phone \<Rightarrow> (case upsertCustomer (xc_restaurantId c) phone (guest_name rp) (guest_email rp)
                                (be_customerId be) g of (g1, k) \<Rightarrow> (g1, Some k)));
          b = paid_booking rt be rp c customerId in
      ebind (insertBooking b g1) (\<lambda>g2.
      ebind (updateCheckout (xc_id c) (xc_restaurantId c)
         (settle rp (be_id be) (if xc_totalPriceCents c = 0 then XC_FREE else XC_PAID)) g2) (\<lambda>g3.
      Inr (g3, HandledBooked (be_id be)))))"

text \<open>The transaction that receives a completed payment, once the event is known to be new.\<close>

definition confirm_body :: "runtime \<Rightarrow> booking_env \<Rightarrow> instant \<Rightarrow> reported_session \<Rightarrow> id \<Rightarrow> id \<Rightarrow> xdb \<Rightarrow>
    experience_error + xdb \<times> handled" where
  "confirm_body rt be occurredAt rp checkoutId restaurantId g =
     (case checkout_context checkoutId restaurantId g of
        None \<Rightarrow> Inl (ExperienceCheckoutError CO_NOT_FOUND 404)
      | Some (c, s, x) \<Rightarrow>
          if xc_status c = XC_PAID then Inr (g, Handled True)
          else if too_late c s x occurredAt then decline c (intent_id (rp_payment_intent rp)) g
          else if booked restaurantId (xc_sessionId c) g + held_by_others c (be_now be) g + xc_quantity c > effectiveCapacity s x
          then decline c (intent_id (rp_payment_intent rp)) g
          else take_seats rt be rp c g)"

text \<open>A status that a completed payment no longer changes.\<close>

definition payment_settled :: "checkout_row \<Rightarrow> bool" where
  "payment_settled c \<longleftrightarrow> xc_status c \<in> {XC_PAID, XC_FREE, XC_REFUNDED, XC_REFUND_FAILED} \<or>
     xc_status c = XC_REFUND_PENDING \<and> truthy (xc_stripeRefundId c)"

definition payment_reported :: "reported_session \<Rightarrow> checkout_row \<Rightarrow> bool" where
  "payment_reported rp c \<longleftrightarrow>
     (rp_payment_status rp = ''paid'' \<or> xc_totalPriceCents c = 0 \<and> rp_payment_status rp = ''no_payment_required'') \<and>
     \<not> (xc_totalPriceCents c > 0 \<and> \<not> truthy (intent_id (rp_payment_intent rp))) \<and>
     rp_amount_total rp = Some (xc_totalPriceCents c) \<and>
     map_option (map upper_char) (rp_currency rp) = Some (xc_currency c)"

text \<open>The refund of a payment that came too late, and its record.\<close>

definition refund_late :: "stripe \<Rightarrow> xenv \<Rightarrow> stripe_event \<Rightarrow> string option \<Rightarrow> checkout_row \<Rightarrow> xdb \<Rightarrow>
    xdb \<times> (experience_error + handled)" where
  "refund_late sp e v intent c g =
     (if \<not> truthy intent then (g, Inl (ExperienceCheckoutError CO_EVENT_INVALID 400))
      else case createRefund sp (the intent) (''experience-late-payment-refund:'' @ xc_id c) (xc_stripeAccountId c) of
        Inl err \<Rightarrow> (g, Inl err)
      | Inr r \<Rightarrow>
          once v (xc_restaurantId c) (xc_id c) (\<lambda>g'.
            ebind (write_refund (xc_id c) (xc_restaurantId c) (refund_outcome (rd_status r)) (rd_id r) (xv_now e)
                     (\<lambda>c'. c'\<lparr>xc_stripePaymentIntentId := intent\<rparr>) g') (\<lambda>g''. Inr (g'', HandledRefunded)))
            (xv_race e 1 g))"

text \<open>The transaction that takes the seats, and the refund after it when there are none.\<close>

definition confirm_payment :: "runtime \<Rightarrow> stripe \<Rightarrow> xenv \<Rightarrow> booking_env \<Rightarrow> stripe_event \<Rightarrow> reported_session \<Rightarrow>
    checkout_row \<Rightarrow> xdb \<Rightarrow> xdb \<times> (experience_error + handled)" where
  "confirm_payment rt sp e be v rp c g =
     (case once v (xc_restaurantId c) (xc_id c)
             (confirm_body rt be (ev_occurredAt v) rp (xc_id c) (xc_restaurantId c)) (xv_race e 1 g) of
        (g', Inr RefundRequired) \<Rightarrow>
          if \<not> truthy (intent_id (rp_payment_intent rp)) then (g', Inl (ExperienceCheckoutError CO_EVENT_INVALID 400))
          else (case createRefund sp (the (intent_id (rp_payment_intent rp)))
                       (''experience-late-payment-refund:'' @ xc_id c) (xc_stripeAccountId c) of
             Inl err \<Rightarrow> (g', Inl err)
           | Inr r \<Rightarrow>
              (case persistExperienceRefund (xc_id c) (xc_restaurantId c) r (xv_now e) (xv_race e 3) (xv_race e 2 g') of
                 (g'', Inl err) \<Rightarrow> (g'', Inl err)
               | (g'', Inr _) \<Rightarrow> (g'', Inr HandledRefunded)))
      | other \<Rightarrow> other)"

definition handleExperienceCheckoutStripeEvent :: "runtime \<Rightarrow> stripe \<Rightarrow> xenv \<Rightarrow> booking_env \<Rightarrow> stripe_event \<Rightarrow>
    reported_session \<Rightarrow> xdb \<Rightarrow> xdb \<times> (experience_error + handled)" where
  "handleExperienceCheckoutStripeEvent rt sp e be v rp g =
     (let invalid = (g, Inl (ExperienceCheckoutError CO_EVENT_INVALID 400)) in
      if rp_type rp \<noteq> Some ''experience_checkout'' then (g, Inr NotHandled)
      else if \<not> truthy (rp_restaurantId rp) \<or> \<not> truthy (rp_checkoutId rp) then invalid
      else case checkout_context (the (rp_checkoutId rp)) (the (rp_restaurantId rp)) g of
        None \<Rightarrow> invalid
      | Some (c, s, x) \<Rightarrow>
          if Some (xc_stripeAccountId c) \<noteq> ev_accountId v \<or>
             truthy (xc_stripeCheckoutSessionId c) \<and> xc_stripeCheckoutSessionId c \<noteq> Some (rp_id rp) then invalid
          else if ev_type v = ''checkout.session.expired'' then
            once v (xc_restaurantId c) (xc_id c)
              (\<lambda>g'. ebind (expire_open (xc_id c) (xc_restaurantId c) g') (\<lambda>g''. Inr (g'', Handled False))) (xv_race e 1 g)
          else if ev_type v \<notin> {''checkout.session.completed'', ''checkout.session.async_payment_succeeded''}
          then (g, Inr NotHandled)
          else if \<not> payment_reported rp c then invalid
          else if payment_settled c then
            once v (xc_restaurantId c) (xc_id c) (\<lambda>g'. Inr (g', Handled True)) (xv_race e 1 g)
          else if too_late c s x (ev_occurredAt v) then
            (if xc_totalPriceCents c = 0 then
               once v (xc_restaurantId c) (xc_id c)
                 (\<lambda>g'. ebind (updateCheckout (xc_id c) (xc_restaurantId c) (\<lambda>c'. c'\<lparr>xc_status := XC_EXPIRED\<rparr>) g')
                         (\<lambda>g''. Inr (g'', HandledUnavailable))) (xv_race e 1 g)
             else refund_late sp e v (intent_id (rp_payment_intent rp)) c g)
          else confirm_payment rt sp e be v rp c g)"

end
