(* ===== verification/Experience_Seats.thy ===== *)
theory Experience_Seats
  imports Experience_Payments
begin

text \<open>
  The seats of an experience session over any run of the service. A commit is one transaction, or one
  statement outside of a transaction; an operation is a run of commits, its own and those of others in
  between. The invariant is that the seats confirmed and those still held by a checkout never exceed the
  capacity of the session.
\<close>

section \<open>Sums over rows\<close>

lemma sum_filter_le:
  assumes "\<And>x. x \<in> set xs \<Longrightarrow> 0 \<le> q x" "\<And>x. x \<in> set xs \<Longrightarrow> P x \<Longrightarrow> R x"
  shows "sum_list (map q (filter P xs)) \<le> (sum_list (map q (filter R xs)) :: int)"
  using assms
proof (induction xs)
  case (Cons x xs)
  then show ?case using Cons.IH Cons.prems(1) [of x] Cons.prems(2) [of x] by fastforce
qed simp

lemma sum_upd_where_le:
  assumes "\<And>x. x \<in> set xs \<Longrightarrow> 0 \<le> q x"
    and "\<And>x. x \<in> set xs \<Longrightarrow> p x \<Longrightarrow> P (f x) \<Longrightarrow> R x \<and> q (f x) = q x"
    and "\<And>x. x \<in> set xs \<Longrightarrow> \<not> p x \<Longrightarrow> P x \<Longrightarrow> R x"
  shows "sum_list (map q (filter P (upd_where p f xs))) \<le> (sum_list (map q (filter R xs)) :: int)"
  using assms
proof (induction xs)
  case (Cons x xs)
  have "sum_list (map q (filter P (upd_where p f xs))) \<le> sum_list (map q (filter R xs))"
    using Cons by auto
  then show ?case using Cons.prems(1) [of x] Cons.prems(2) [of x] Cons.prems(3) [of x]
    by (cases "p x"; cases "P (f x)"; cases "P x"; cases "R x") auto
qed simp

lemma sum_filter_filter_le:
  assumes "\<And>x. x \<in> set xs \<Longrightarrow> 0 \<le> q x"
  shows "sum_list (map q (filter P (filter R xs))) \<le> (sum_list (map q (filter P xs)) :: int)"
  unfolding filter_filter by (rule sum_filter_le) (use assms in auto)

section \<open>The invariant\<close>

text \<open>\<open>C\<close> bounds the capacities a session is ever given, \<open>T\<close> is not before any clock read.\<close>

definition caps_below :: "(id \<Rightarrow> nat) \<Rightarrow> xdb \<Rightarrow> bool" where
  "caps_below C g \<longleftrightarrow> (\<forall>s \<in> set (xd_sessions g). \<forall>x \<in> set (xd_experiences g).
     xs_experienceId s = xp_id x \<longrightarrow> effectiveCapacity s x \<le> int (C (xs_id s)))"

text \<open>The foreign keys to a session, and the restaurant and experience its rows share with it.\<close>

definition linked :: "xdb \<Rightarrow> bool" where
  "linked g \<longleftrightarrow> distinct (map xs_id (xd_sessions g)) \<and>
     (\<forall>c \<in> set (xd_checkouts g). \<exists>s \<in> set (xd_sessions g). xs_id s = xc_sessionId c \<and>
        xs_experienceId s = xc_experienceId c \<and> xs_restaurantId s = xc_restaurantId c) \<and>
     (\<forall>b \<in> set (xd_bookings g). \<exists>s \<in> set (xd_sessions g). xs_id s = xb_sessionId b \<and>
        xs_experienceId s = xb_experienceId b \<and> xs_restaurantId s = xb_restaurantId b)"

definition rows_ok :: "xdb \<Rightarrow> bool" where
  "rows_ok g \<longleftrightarrow> table_ok xb_id booking_conflict (xd_bookings g) \<and> table_ok xc_id checkout_conflict (xd_checkouts g) \<and>
     (\<forall>b \<in> set (xd_bookings g). 1 \<le> xb_quantity b) \<and> (\<forall>c \<in> set (xd_checkouts g). 1 \<le> xc_quantity c)"

definition seats_ok :: "(id \<Rightarrow> nat) \<Rightarrow> instant \<Rightarrow> xdb \<Rightarrow> bool" where
  "seats_ok C T g \<longleftrightarrow> caps_below C g \<and> linked g \<and> rows_ok g \<and>
     (\<forall>rid sid. booked rid sid g + held rid sid T g \<le> int (C sid))"

lemma seats_okI:
  assumes "caps_below C g" "linked g" "rows_ok g" "\<And>rid sid. booked rid sid g + held rid sid T g \<le> int (C sid)"
  shows "seats_ok C T g"
  using assms by (simp add: seats_ok_def)

text \<open>An update of checkouts that keeps what identifies them and opens none.\<close>

definition frees :: "(checkout_row \<Rightarrow> checkout_row) \<Rightarrow> bool" where
  "frees f \<longleftrightarrow> (\<forall>c. xc_id (f c) = xc_id c \<and> xc_restaurantId (f c) = xc_restaurantId c \<and>
     xc_experienceId (f c) = xc_experienceId c \<and> xc_sessionId (f c) = xc_sessionId c \<and>
     xc_quantity (f c) = xc_quantity c \<and> xc_expiresAt (f c) = xc_expiresAt c \<and>
     (xc_status (f c) = XC_OPEN \<longrightarrow> xc_status c = XC_OPEN))"

definition same_session :: "(session_row \<Rightarrow> session_row) \<Rightarrow> bool" where
  "same_session f \<longleftrightarrow> (\<forall>s. xs_id (f s) = xs_id s \<and> xs_experienceId (f s) = xs_experienceId s \<and>
     xs_restaurantId (f s) = xs_restaurantId s)"

section \<open>Commits\<close>

inductive seat_commit :: "(id \<Rightarrow> nat) \<Rightarrow> instant \<Rightarrow> xdb \<Rightarrow> xdb \<Rightarrow> bool" for C T where
  sc_reserve: "reserve_tx rt e i q key g = Inr (g', b) \<Longrightarrow> xv_now e \<le> T \<Longrightarrow> seat_commit C T g g'"
| sc_checkout: "checkout_tx e j rid account rate key g = Inr (g', r) \<Longrightarrow> xv_now e \<le> T \<Longrightarrow> seat_commit C T g g'"
| sc_book: "checkout_context k rid g = Some (c, s, x) \<Longrightarrow>
     booked rid (xc_sessionId c) g + held_by_others c (be_now be) g + xc_quantity c \<le> effectiveCapacity s x \<Longrightarrow>
     be_now be \<le> T \<Longrightarrow> take_seats rt be rp c g = Inr (g', a) \<Longrightarrow> seat_commit C T g g'"
| sc_cancel: "seat_commit C T g (g\<lparr>xd_bookings := upd_where (confirmed_booking rid k) (cancelled_booking h now) (xd_bookings g)\<rparr>)"
| sc_checkouts: "updateCheckouts p f g = Inr g' \<Longrightarrow> frees f \<Longrightarrow> seat_commit C T g g'"
| sc_experiences: "caps_below C (g\<lparr>xd_experiences := xs\<rparr>) \<Longrightarrow> seat_commit C T g (g\<lparr>xd_experiences := xs\<rparr>)"
| sc_session: "insertSession s g = Inr g' \<Longrightarrow> caps_below C g' \<Longrightarrow> seat_commit C T g g'"
| sc_sessions: "same_session f \<Longrightarrow> caps_below C (g\<lparr>xd_sessions := upd_where p f (xd_sessions g)\<rparr>) \<Longrightarrow>
     seat_commit C T g (g\<lparr>xd_sessions := upd_where p f (xd_sessions g)\<rparr>)"
| sc_delete: "deletable rid now g x \<Longrightarrow> xp_id x = k \<Longrightarrow> seat_commit C T g (cascade_experience k g)"
| sc_event: "record_event v rid cid g = Inr g' \<Longrightarrow> seat_commit C T g g'"
| sc_other: "xd_sessions g' = xd_sessions g \<Longrightarrow> xd_experiences g' = xd_experiences g \<Longrightarrow>
     xd_bookings g' = xd_bookings g \<Longrightarrow> xd_checkouts g' = xd_checkouts g \<Longrightarrow> seat_commit C T g g'"

section \<open>Each commit keeps the invariant\<close>

lemma held_antimono:
  assumes "rows_ok g" "now \<le> T"
  shows "held rid sid T g \<le> held rid sid now g"
  unfolding held_def
  by (rule sum_filter_le) (use assms in \<open>force simp: rows_ok_def held_seat_def\<close>)+

lemma find_sessionD:
  assumes "find_session rid eid sid g = Some (s, x)"
  shows "s \<in> set (xd_sessions g) \<and> x \<in> set (xd_experiences g) \<and> xs_id s = sid \<and> xs_experienceId s = eid \<and>
    xs_restaurantId s = rid \<and> xp_id x = eid"
  using assms by (auto simp: find_session_def split: option.splits dest!: find_Some_D)

lemma insertBookingD:
  assumes "insertBooking b g = Inr g'"
  shows "g' = g\<lparr>xd_bookings := xd_bookings g @ [b]\<rparr> \<and> booking_checks b \<and>
    (\<forall>c \<in> set (xd_bookings g). \<not> booking_conflict b c)"
  using assms by (auto simp: insertBooking_def split: if_splits)

lemma insertCheckoutD:
  assumes "insertCheckout c g = Inr g'"
  shows "g' = g\<lparr>xd_checkouts := xd_checkouts g @ [c]\<rparr> \<and> checkout_checks c \<and>
    (\<forall>d \<in> set (xd_checkouts g). \<not> checkout_conflict c d)"
  using assms by (auto simp: insertCheckout_def split: if_splits)

lemma booking_insert_ok:
  assumes "table_ok xb_id booking_conflict bs" "\<forall>c \<in> set bs. \<not> booking_conflict b c"
  shows "table_ok xb_id booking_conflict (bs @ [b])"
  using assms by (intro booking_table.insert_ok) (auto simp: booking_conflict_def)

lemma checkout_insert_ok:
  assumes "table_ok xc_id checkout_conflict cs" "\<forall>d \<in> set cs. \<not> checkout_conflict c d"
  shows "table_ok xc_id checkout_conflict (cs @ [c])"
  using assms by (intro checkout_table.insert_ok) (auto simp: checkout_conflict_def)

lemma reserve_txD:
  assumes "reserve_tx rt e i q key g = Inr (g', b)"
  shows "\<exists>s x. find_session (rs_restaurantId i) (rs_experienceId i) (rs_sessionId i) g = Some (s, x) \<and>
    booked (rs_restaurantId i) (rs_sessionId i) g + held (rs_restaurantId i) (rs_sessionId i) (xv_now e) g + q
      \<le> effectiveCapacity s x \<and> insertBooking b g = Inr g' \<and> xb_restaurantId b = rs_restaurantId i \<and>
    xb_sessionId b = rs_sessionId i \<and> xb_experienceId b = rs_experienceId i \<and> xb_quantity b = q \<and>
    xb_status b = XB_CONFIRMED \<and> xb_idempotencyKey b = key"
  using assms by (auto simp: reserve_tx_def Let_def split: option.splits elim!: ebind_InrE)

lemma checkout_txD:
  assumes "checkout_tx e j rid account rate key g = Inr (g', r)"
  shows "\<exists>s x c. r = (c, s, x) \<and> find_session rid (ci_experienceId j) (ci_sessionId j) g = Some (s, x) \<and>
    booked rid (xs_id s) g + held rid (xs_id s) (xv_now e) g + ci_quantity j \<le> effectiveCapacity s x \<and>
    c = new_checkout e j rid account rate key x \<and> insertCheckout c g = Inr g'"
  using assms by (auto simp: checkout_tx_def Let_def split: option.splits elim!: ebind_InrE)

lemma seats_ok_reserve:
  assumes tx: "reserve_tx rt e i q key g = Inr (g', b)" and now: "xv_now e \<le> T" and ok: "seats_ok C T g"
  shows "seats_ok C T g'"
proof -
  obtain s x where s: "find_session (rs_restaurantId i) (rs_experienceId i) (rs_sessionId i) g = Some (s, x)"
    and cap: "booked (rs_restaurantId i) (rs_sessionId i) g + held (rs_restaurantId i) (rs_sessionId i) (xv_now e) g + q
      \<le> effectiveCapacity s x"
    and ins: "insertBooking b g = Inr g'"
    and b: "xb_restaurantId b = rs_restaurantId i" "xb_sessionId b = rs_sessionId i" "xb_quantity b = q"
      "xb_status b = XB_CONFIRMED" "xb_experienceId b = rs_experienceId i"
    using reserve_txD [OF tx] by blast
  have rows: "rows_ok g" using ok by (simp add: seats_ok_def)
  have g': "g' = g\<lparr>xd_bookings := xd_bookings g @ [b]\<rparr>" and new: "booking_checks b"
    "\<forall>c \<in> set (xd_bookings g). \<not> booking_conflict b c" using insertBookingD [OF ins] by auto
  have "effectiveCapacity s x \<le> int (C (rs_sessionId i))"
    using ok find_sessionD [OF s] by (auto simp: seats_ok_def caps_below_def)
  then have free: "booked (rs_restaurantId i) (rs_sessionId i) g + held (rs_restaurantId i) (rs_sessionId i) T g + q
      \<le> int (C (rs_sessionId i))"
    using cap held_antimono [OF rows now, of "rs_restaurantId i" "rs_sessionId i"] by linarith
  show ?thesis
  proof (rule seats_okI)
    show "caps_below C g'" using ok by (simp add: seats_ok_def caps_below_def g')
    show "linked g'" using ok find_sessionD [OF s] b by (auto simp: seats_ok_def linked_def g')
    show "rows_ok g'" using rows new booking_insert_ok by (auto simp: rows_ok_def g' booking_checks_def)
    show "booked rid sid g' + held rid sid T g' \<le> int (C sid)" for rid sid
      using ok free b by (auto simp: seats_ok_def g' booked_def held_def taken_seat_def)
  qed
qed

lemma seats_ok_checkout:
  assumes tx: "checkout_tx e j rid account rate key g = Inr (g', r)" and now: "xv_now e \<le> T" and ok: "seats_ok C T g"
  shows "seats_ok C T g'"
proof -
  obtain s x c where s: "find_session rid (ci_experienceId j) (ci_sessionId j) g = Some (s, x)"
    and cap: "booked rid (xs_id s) g + held rid (xs_id s) (xv_now e) g + ci_quantity j \<le> effectiveCapacity s x"
    and c: "c = new_checkout e j rid account rate key x" and ins: "insertCheckout c g = Inr g'"
    using checkout_txD [OF tx] by blast
  have rows: "rows_ok g" using ok by (simp add: seats_ok_def)
  have g': "g' = g\<lparr>xd_checkouts := xd_checkouts g @ [c]\<rparr>" and new: "checkout_checks c"
    "\<forall>d \<in> set (xd_checkouts g). \<not> checkout_conflict c d" using insertCheckoutD [OF ins] by auto
  have s': "s \<in> set (xd_sessions g)" "x \<in> set (xd_experiences g)" "xs_id s = ci_sessionId j"
    "xs_experienceId s = ci_experienceId j" "xp_id x = ci_experienceId j" "xs_restaurantId s = rid" using find_sessionD [OF s] by auto
  have row: "xc_restaurantId c = rid" "xc_sessionId c = ci_sessionId j" "xc_quantity c = ci_quantity j"
    "xc_experienceId c = ci_experienceId j" by (simp_all add: c new_checkout_def Let_def)
  have "effectiveCapacity s x \<le> int (C (ci_sessionId j))" using ok s' by (auto simp: seats_ok_def caps_below_def)
  then have free: "booked rid (ci_sessionId j) g + held rid (ci_sessionId j) T g + ci_quantity j \<le> int (C (ci_sessionId j))"
    using cap held_antimono [OF rows now, of rid "ci_sessionId j"] s'(3) by simp
  show ?thesis
  proof (rule seats_okI)
    show "caps_below C g'" "linked g'" using ok s' row by (auto simp: seats_ok_def caps_below_def linked_def g')
    show "rows_ok g'" using rows new checkout_insert_ok by (auto simp: rows_ok_def g' checkout_checks_def)
    show "booked r s g' + held r s T g' \<le> int (C s)" for r s
      using ok free row by (auto simp: seats_ok_def g' booked_def held_def held_seat_def)
  qed
qed

lemma updateCheckoutsD:
  assumes "updateCheckouts p f g = Inr g'"
  shows "g' = g\<lparr>xd_checkouts := upd_where p f (xd_checkouts g)\<rparr> \<and> no_conflicts (upd_where p f (xd_checkouts g))"
  using assms by (auto simp: updateCheckouts_def Let_def split: if_splits)

lemma updateCheckoutD:
  assumes "updateCheckout k rid f g = Inr g'"
  shows "updateCheckouts (this_checkout k rid) f g = Inr g'"
  using assms by (auto simp: updateCheckout_def elim!: ebind_InrE)

lemma checkouts_update_ok:
  assumes "table_ok xc_id checkout_conflict cs" "\<And>c. xc_id (f c) = xc_id c" "no_conflicts (upd_where p f cs)"
  shows "table_ok xc_id checkout_conflict (upd_where p f cs)"
  using assms map_upd_where_same [of p xc_id f cs] by (auto simp: table_ok_def no_conflicts_def)

lemma held_frees:
  assumes "rows_ok g" "frees f"
  shows "held rid sid T (g\<lparr>xd_checkouts := upd_where p f (xd_checkouts g)\<rparr>) \<le> held rid sid T g"
  unfolding held_def
  by (simp, rule sum_upd_where_le) (use assms in \<open>force simp: rows_ok_def frees_def held_seat_def\<close>)+

lemma linked_frees: "linked g \<Longrightarrow> frees f \<Longrightarrow> linked (g\<lparr>xd_checkouts := upd_where p f (xd_checkouts g)\<rparr>)"
  by (auto simp: linked_def frees_def set_upd_where)

lemma rows_ok_frees:
  assumes "rows_ok g" "frees f" "no_conflicts (upd_where p f (xd_checkouts g))"
  shows "rows_ok (g\<lparr>xd_checkouts := upd_where p f (xd_checkouts g)\<rparr>)"
  using assms by (auto simp: rows_ok_def frees_def set_upd_where intro!: checkouts_update_ok)

lemma seats_ok_checkouts:
  assumes "updateCheckouts p f g = Inr g'" "frees f" and ok: "seats_ok C T g"
  shows "seats_ok C T g'"
proof -
  have g': "g' = g\<lparr>xd_checkouts := upd_where p f (xd_checkouts g)\<rparr>" and nc: "no_conflicts (upd_where p f (xd_checkouts g))"
    using updateCheckoutsD [OF assms(1)] by auto
  have rows: "rows_ok g" using ok by (simp add: seats_ok_def)
  show ?thesis
  proof (rule seats_okI)
    show "caps_below C g'" using ok by (simp add: seats_ok_def caps_below_def g')
    show "linked g'" using ok linked_frees [OF _ assms(2)] by (simp add: seats_ok_def g')
    show "rows_ok g'" using rows_ok_frees [OF rows assms(2) nc] by (simp add: g')
    show "booked rid sid g' + held rid sid T g' \<le> int (C sid)" for rid sid
      using ok held_frees [OF rows assms(2), of rid sid T p]
      by (simp add: seats_ok_def g' booked_def) (smt (verit))
  qed
qed

lemma checkout_contextD:
  assumes "checkout_context k rid g = Some (c, s, x)"
  shows "c \<in> set (xd_checkouts g) \<and> s \<in> set (xd_sessions g) \<and> x \<in> set (xd_experiences g) \<and> xc_id c = k \<and>
    xc_restaurantId c = rid \<and> xs_id s = xc_sessionId c \<and> xp_id x = xc_experienceId c"
  using assms by (auto simp: checkout_context_def this_checkout_def split: option.splits dest!: find_Some_D)

lemma linked_session:
  assumes "linked g" "c \<in> set (xd_checkouts g)" "s \<in> set (xd_sessions g)" "xs_id s = xc_sessionId c"
  shows "xs_experienceId s = xc_experienceId c \<and> xs_restaurantId s = xc_restaurantId c"
proof -
  obtain s' where s': "s' \<in> set (xd_sessions g)" "xs_id s' = xc_sessionId c"
      "xs_experienceId s' = xc_experienceId c \<and> xs_restaurantId s' = xc_restaurantId c"
    using assms(1,2) by (auto simp: linked_def)
  have "s = s'" using assms(1,3,4) s'(1,2) by (auto simp: linked_def distinct_map inj_on_def)
  with s'(3) show ?thesis by simp
qed

definition with_customer :: "xdb \<Rightarrow> xdb \<Rightarrow> bool" where
  "with_customer g g1 \<longleftrightarrow> xd_db g1 = xd_db g \<and> xd_restaurants g1 = xd_restaurants g \<and> xd_sessions g1 = xd_sessions g \<and>
     xd_experiences g1 = xd_experiences g \<and> xd_bookings g1 = xd_bookings g \<and> xd_checkouts g1 = xd_checkouts g \<and>
     xd_events g1 = xd_events g"

lemma upsertCustomer_with: "upsertCustomer rid ph nm em k g = (g1, j) \<Longrightarrow> with_customer g g1"
  by (auto simp: upsertCustomer_def with_customer_def split: option.splits)

lemma take_seatsD:
  assumes "take_seats rt be rp c g = Inr (g', a)"
  shows "\<exists>g1 cust. let b = paid_booking rt be rp c cust; st = (if xc_totalPriceCents c = 0 then XC_FREE else XC_PAID);
      cs = upd_where (this_checkout (xc_id c) (xc_restaurantId c)) (settle rp (be_id be) st) (xd_checkouts g) in
    with_customer g g1 \<and> booking_checks b \<and> (\<forall>d \<in> set (xd_bookings g). \<not> booking_conflict b d) \<and>
    g' = g1\<lparr>xd_bookings := xd_bookings g @ [b], xd_checkouts := cs\<rparr> \<and> no_conflicts cs \<and> a = HandledBooked (be_id be)"
proof -
  obtain g1 cust where g1: "with_customer g g1" and
    run: "ebind (insertBooking (paid_booking rt be rp c cust) g1) (\<lambda>g2. ebind (updateCheckout (xc_id c) (xc_restaurantId c)
      (settle rp (be_id be) (if xc_totalPriceCents c = 0 then XC_FREE else XC_PAID)) g2)
      (\<lambda>g3. Inr (g3, HandledBooked (be_id be)))) = Inr (g', a)"
  proof (cases "guest_phone rp")
    case None
    then show thesis using assms that [of g None] by (simp add: take_seats_def with_customer_def)
  next
    case (Some ph)
    obtain h k where hk: "upsertCustomer (xc_restaurantId c) ph (guest_name rp) (guest_email rp) (be_customerId be) g = (h, k)"
      by (metis surj_pair)
    then show thesis using assms Some that [OF upsertCustomer_with [OF hk], of "Some k"]
      by (simp add: take_seats_def)
  qed
  from run g1 show ?thesis
    by (auto simp: Let_def with_customer_def elim!: ebind_InrE dest!: insertBookingD updateCheckoutD updateCheckoutsD
        intro!: exI [of _ g1] exI [of _ cust])
qed

lemma frees_settle: "st \<noteq> XC_OPEN \<Longrightarrow> frees (settle rp bid st)"
  by (simp add: frees_def settle_def)

lemma seats_ok_book:
  assumes ctx: "checkout_context k rid g = Some (c, s, x)"
    and cap: "booked rid (xc_sessionId c) g + held_by_others c (be_now be) g + xc_quantity c \<le> effectiveCapacity s x"
    and now: "be_now be \<le> T" and tx: "take_seats rt be rp c g = Inr (g', a)" and ok: "seats_ok C T g"
  shows "seats_ok C T g'"
proof -
  define st where "st = (if xc_totalPriceCents c = 0 then XC_FREE else XC_PAID)"
  define p where "p = this_checkout (xc_id c) (xc_restaurantId c)"
  define cs where "cs = upd_where p (settle rp (be_id be) st) (xd_checkouts g)"
  obtain g1 cust where g1: "with_customer g g1" and new: "booking_checks (paid_booking rt be rp c cust)"
      "\<forall>d \<in> set (xd_bookings g). \<not> booking_conflict (paid_booking rt be rp c cust) d"
    and g': "g' = g1\<lparr>xd_bookings := xd_bookings g @ [paid_booking rt be rp c cust], xd_checkouts := cs\<rparr>"
    and nc: "no_conflicts cs"
    using take_seatsD [OF tx] unfolding Let_def cs_def p_def st_def by blast
  let ?b = "paid_booking rt be rp c cust"
  have st: "st \<noteq> XC_OPEN" by (simp add: st_def)
  have rows: "rows_ok g" using ok by (simp add: seats_ok_def)
  have c: "c \<in> set (xd_checkouts g)" "s \<in> set (xd_sessions g)" "x \<in> set (xd_experiences g)" "xc_restaurantId c = rid"
    "xs_id s = xc_sessionId c" "xp_id x = xc_experienceId c" using checkout_contextD [OF ctx] by auto
  have ses: "xs_experienceId s = xc_experienceId c \<and> xs_restaurantId s = xc_restaurantId c"
    by (rule linked_session) (use ok c in \<open>auto simp: seats_ok_def\<close>)
  then have capC: "effectiveCapacity s x \<le> int (C (xc_sessionId c))"
    using ok c by (auto simp: seats_ok_def caps_below_def)
  let ?h = "g\<lparr>xd_checkouts := cs\<rparr>"
  have fewer: "held r t T ?h \<le> held r t T g" for r t
    using held_frees [OF rows frees_settle [OF st]] by (simp add: cs_def)
  have own: "held rid (xc_sessionId c) T ?h \<le> held_by_others c (be_now be) g"
    unfolding held_def held_by_others_def cs_def
    by (simp, rule sum_upd_where_le)
      (use rows now st c(4) in \<open>force simp: rows_ok_def settle_def held_seat_def p_def this_checkout_def\<close>)+
  have same: "held r t T g' = held r t T ?h" for r t by (simp add: held_def g')
  have b: "xb_restaurantId ?b = rid" "xb_sessionId ?b = xc_sessionId c" "xb_quantity ?b = xc_quantity c"
    "xb_status ?b = XB_CONFIRMED" "xb_experienceId ?b = xc_experienceId c" by (simp_all add: paid_booking_def c)
  have bk: "booked r t g' = booked r t g + (if r = rid \<and> t = xc_sessionId c then xc_quantity c else 0)" for r t
    using b by (auto simp: booked_def g' taken_seat_def)
  show ?thesis
  proof (rule seats_okI)
    show "caps_below C g'" using ok g1 by (simp add: seats_ok_def caps_below_def g' with_customer_def)
    have "linked ?h" using ok linked_frees [OF _ frees_settle [OF st]] by (simp add: seats_ok_def cs_def)
    then show "linked g'" using g1 c ses b by (auto simp: linked_def g' with_customer_def)
    have "rows_ok ?h" using rows_ok_frees [OF rows frees_settle [OF st]] nc by (simp add: cs_def)
    then show "rows_ok g'" using new booking_insert_ok by (auto simp: rows_ok_def g' booking_checks_def)
    show "booked r t g' + held r t T g' \<le> int (C t)" for r t
    proof (cases "r = rid \<and> t = xc_sessionId c")
      case True
      then show ?thesis using cap capC own by (simp add: bk same)
    next
      case False
      have "booked r t g + held r t T g \<le> int (C t)" using ok by (simp add: seats_ok_def)
      moreover have "booked r t g' = booked r t g" using False by (auto simp: bk)
      ultimately show ?thesis using fewer [of r t] by (simp add: same)
    qed
  qed
qed

lemma seats_ok_cancel:
  assumes ok: "seats_ok C T g"
  shows "seats_ok C T (g\<lparr>xd_bookings := upd_where p (cancelled_booking h now) (xd_bookings g)\<rparr>)"
proof -
  let ?f = "cancelled_booking h now" let ?g' = "g\<lparr>xd_bookings := upd_where p ?f (xd_bookings g)\<rparr>"
  have rows: "rows_ok g" using ok by (simp add: seats_ok_def)
  have "table_ok xb_id booking_conflict (upd_where p ?f (xd_bookings g))"
    using rows by (intro booking_table.frame_ok) (auto simp: rows_ok_def cancelled_booking_def booking_conflict_def)
  then have "rows_ok ?g'" using rows by (auto simp: rows_ok_def set_upd_where cancelled_booking_def)
  moreover have "booked r t ?g' \<le> booked r t g" for r t
    unfolding booked_def
    by (simp, rule sum_upd_where_le) (use rows in \<open>force simp: rows_ok_def cancelled_booking_def taken_seat_def\<close>)+
  then have "booked r t ?g' + held r t T ?g' \<le> int (C t)" for r t
    using ok by (simp add: seats_ok_def held_def) (smt (verit))
  moreover have "linked ?g'" using ok by (auto simp: seats_ok_def linked_def set_upd_where cancelled_booking_def)
  ultimately show ?thesis using ok by (intro seats_okI) (auto simp: seats_ok_def caps_below_def)
qed

lemma insertSessionD:
  assumes "insertSession s g = Inr g'"
  shows "g' = g\<lparr>xd_sessions := xd_sessions g @ [s]\<rparr> \<and> (\<forall>t \<in> set (xd_sessions g). \<not> session_conflict s t)"
  using assms by (auto simp: insertSession_def split: if_splits)

lemma linked_sessions:
  assumes l: "linked g" and f: "same_session f"
  shows "linked (g\<lparr>xd_sessions := upd_where p f (xd_sessions g)\<rparr>)"
proof -
  have keep: "(\<exists>s \<in> set (upd_where p f (xd_sessions g)). P (xs_id s) (xs_experienceId s) (xs_restaurantId s))"
    if ex: "\<exists>s \<in> set (xd_sessions g). P (xs_id s) (xs_experienceId s) (xs_restaurantId s)" for P
  proof -
    obtain s where s: "s \<in> set (xd_sessions g)" "P (xs_id s) (xs_experienceId s) (xs_restaurantId s)" using ex by blast
    then have "(if p s then f s else s) \<in> set (upd_where p f (xd_sessions g))"
      unfolding set_upd_where by (intro imageI)
    with s f show ?thesis by (intro bexI [where x = "if p s then f s else s"]) (simp_all add: same_session_def)
  qed
  have "map xs_id (upd_where p f (xd_sessions g)) = map xs_id (xd_sessions g)"
    by (rule map_upd_where_same) (use f in \<open>simp add: same_session_def\<close>)
  moreover have "\<exists>s \<in> set (upd_where p f (xd_sessions g)). xs_id s = xc_sessionId c \<and>
      xs_experienceId s = xc_experienceId c \<and> xs_restaurantId s = xc_restaurantId c" if "c \<in> set (xd_checkouts g)" for c
    by (rule keep [of "\<lambda>k x r. k = xc_sessionId c \<and> x = xc_experienceId c \<and> r = xc_restaurantId c"])
      (use l that in \<open>simp add: linked_def\<close>)
  moreover have "\<exists>s \<in> set (upd_where p f (xd_sessions g)). xs_id s = xb_sessionId b \<and>
      xs_experienceId s = xb_experienceId b \<and> xs_restaurantId s = xb_restaurantId b" if "b \<in> set (xd_bookings g)" for b
    by (rule keep [of "\<lambda>k x r. k = xb_sessionId b \<and> x = xb_experienceId b \<and> r = xb_restaurantId b"]) (use l that in \<open>simp add: linked_def\<close>)
  ultimately show ?thesis using l by (simp add: linked_def)
qed

lemma booked_filter:
  "rows_ok g \<Longrightarrow> xd_bookings g' = filter P (xd_bookings g) \<Longrightarrow> booked r t g' \<le> booked r t g"
  unfolding booked_def by (simp only:, rule sum_filter_filter_le) (force simp: rows_ok_def)

lemma held_filter:
  "rows_ok g \<Longrightarrow> xd_checkouts g' = filter P (xd_checkouts g) \<Longrightarrow> held r t T g' \<le> held r t T g"
  unfolding held_def by (simp only:, rule sum_filter_filter_le) (force simp: rows_ok_def)

lemma linked_delete:
  assumes "linked g"
  shows "linked (cascade_experience k g)"
  unfolding linked_def
proof (intro conjI ballI)
  let ?g = "cascade_experience k g"
  show "distinct (map xs_id (xd_sessions ?g))"
    using assms by (simp add: linked_def cascade_experience_def Let_def distinct_map_filter)
  fix c assume c: "c \<in> set (xd_checkouts ?g)"
  then have "c \<in> set (xd_checkouts g)" by (simp add: cascade_experience_def Let_def)
  then obtain s where s: "s \<in> set (xd_sessions g)" "xs_id s = xc_sessionId c"
      "xs_experienceId s = xc_experienceId c \<and> xs_restaurantId s = xc_restaurantId c"
    using assms by (auto simp: linked_def)
  then show "\<exists>s \<in> set (xd_sessions ?g). xs_id s = xc_sessionId c \<and> xs_experienceId s = xc_experienceId c \<and>
      xs_restaurantId s = xc_restaurantId c"
    using c by (intro bexI [of _ s]) (auto simp: cascade_experience_def Let_def)
next
  let ?g = "cascade_experience k g"
  fix b assume b: "b \<in> set (xd_bookings ?g)"
  then have "b \<in> set (xd_bookings g)" by (simp add: cascade_experience_def Let_def)
  then obtain s where s: "s \<in> set (xd_sessions g)" "xs_id s = xb_sessionId b"
      "xs_experienceId s = xb_experienceId b \<and> xs_restaurantId s = xb_restaurantId b"
    using assms by (auto simp: linked_def)
  moreover have "xs_experienceId s \<noteq> k"
    using b s(1,2) by (auto simp: cascade_experience_def Let_def image_iff)
  ultimately show "\<exists>s \<in> set (xd_sessions ?g). xs_id s = xb_sessionId b \<and> xs_experienceId s = xb_experienceId b \<and>
      xs_restaurantId s = xb_restaurantId b"
    by (intro bexI [of _ s]) (auto simp: cascade_experience_def Let_def)
qed

text \<open>What a deletion leaves was there, and a checkout that stays keeps its session.\<close>

lemma seats_ok_delete:
  assumes ok: "seats_ok C T g"
  shows "seats_ok C T (cascade_experience k g)"
proof -
  let ?g' = "cascade_experience k g"
  have rows: "rows_ok g" and lk: "linked g" using ok by (simp_all add: seats_ok_def)
  have tables: "table_ok key conflict rows \<Longrightarrow> table_ok key conflict (filter P rows)"
    for key :: "'r \<Rightarrow> 'k" and conflict rows P
    by (auto simp: table_ok_def distinct_map_filter)
  have "caps_below C ?g'" using ok by (auto simp: seats_ok_def caps_below_def cascade_experience_def Let_def)
  moreover have "linked ?g'"
    using linked_delete [OF lk] .
  moreover have "rows_ok ?g'" using rows by (auto simp: rows_ok_def cascade_experience_def Let_def intro: tables)
  moreover have "booked r t ?g' \<le> booked r t g" "held r t T ?g' \<le> held r t T g" for r t
    by (rule booked_filter [OF rows], simp add: cascade_experience_def Let_def)
      (rule held_filter [OF rows], simp add: cascade_experience_def Let_def)
  then have "booked r t ?g' + held r t T ?g' \<le> int (C t)" for r t
    using ok by (simp add: seats_ok_def) (smt (verit))
  ultimately show ?thesis by (rule seats_okI)
qed

lemma seats_ok_frame:
  assumes "seats_ok C T g" "caps_below C g'" "linked g'" "xd_bookings g' = xd_bookings g" "xd_checkouts g' = xd_checkouts g"
  shows "seats_ok C T g'"
  using assms by (auto intro!: seats_okI simp: seats_ok_def rows_ok_def booked_def held_def)

lemma record_eventD:
  "record_event v rid cid g = Inr g' \<Longrightarrow> \<exists>row. g' = g\<lparr>xd_events := xd_events g @ [row]\<rparr> \<and> xe_providerEventId row = ev_id v \<and>
     xe_restaurantId row = rid \<and> xe_checkoutId row = cid"
  by (auto simp: record_event_def split: if_splits)

lemma seat_commit_ok: "seat_commit C T g g' \<Longrightarrow> seats_ok C T g \<Longrightarrow> seats_ok C T g'"
proof (induction rule: seat_commit.induct)
  case (sc_session s g g')
  from insertSessionD [OF sc_session.hyps(1)] show ?case
    using sc_session.prems sc_session.hyps(2)
    by (intro seats_ok_frame [OF sc_session.prems]) (auto simp: seats_ok_def linked_def session_conflict_def)
next
  case (sc_event v rid cid g g')
  from record_eventD [OF sc_event.hyps] obtain row where "g' = g\<lparr>xd_events := xd_events g @ [row]\<rparr>" by blast
  then show ?case using sc_event.prems
    by (intro seats_ok_frame [OF sc_event.prems]) (auto simp: seats_ok_def caps_below_def linked_def)
next
  case (sc_sessions f g p)
  then show ?case by (intro seats_ok_frame [OF sc_sessions.prems]) (auto simp: seats_ok_def linked_sessions)
next
  case (sc_experiences g xs)
  then show ?case by (intro seats_ok_frame [OF sc_experiences.prems]) (auto simp: seats_ok_def linked_def)
next
  case (sc_other g' g)
  then show ?case by (intro seats_ok_frame [OF sc_other.prems]) (auto simp: seats_ok_def caps_below_def linked_def)
qed (erule (1) seats_ok_reserve seats_ok_checkout seats_ok_checkouts seats_ok_cancel seats_ok_delete, assumption |
     rule seats_ok_cancel seats_ok_delete, assumption | erule (3) seats_ok_book, assumption)+

lemma seat_commits_ok: "(seat_commit C T)\<^sup>*\<^sup>* g g' \<Longrightarrow> seats_ok C T g \<Longrightarrow> seats_ok C T g'"
  by (induction rule: rtranclp_induct) (auto dest: seat_commit_ok)

section \<open>The operations as runs of commits\<close>

text \<open>What others commit during an operation is a run, whatever state it starts from.\<close>

definition runs :: "(id \<Rightarrow> nat) \<Rightarrow> instant \<Rightarrow> (xdb \<Rightarrow> xdb) \<Rightarrow> bool" where
  "runs C T f \<longleftrightarrow> (\<forall>h. (seat_commit C T)\<^sup>*\<^sup>* h (f h))"

definition others :: "(id \<Rightarrow> nat) \<Rightarrow> instant \<Rightarrow> xenv \<Rightarrow> bool" where
  "others C T e \<longleftrightarrow> (\<forall>k. runs C T (xv_race e k))"

lemma seat_runs_id [simp]: "runs C T (\<lambda>h. h)"
  by (simp add: runs_def)

lemma race_run: "others C T e \<Longrightarrow> (seat_commit C T)\<^sup>*\<^sup>* h (xv_race e k h)"
  by (simp add: others_def runs_def)

lemma seat_race_after:
  "others C T e \<Longrightarrow> (seat_commit C T)\<^sup>*\<^sup>* g h \<Longrightarrow> (seat_commit C T)\<^sup>*\<^sup>* g (xv_race e k h)"
  using race_run [of C T e h k] by (meson rtranclp_trans)

lemma seat_commit_after: "(seat_commit C T)\<^sup>*\<^sup>* g h \<Longrightarrow> seat_commit C T h k \<Longrightarrow> (seat_commit C T)\<^sup>*\<^sup>* g k"
  by (rule rtranclp.rtrancl_into_rtrancl)

lemma commit_run: "seat_commit C T g h \<Longrightarrow> (seat_commit C T)\<^sup>*\<^sup>* g h"
  by (rule r_into_rtranclp)

lemma frees_simps [simp]:
  "frees (\<lambda>c. c)"
  "frees (\<lambda>c. c\<lparr>xc_status := XC_EXPIRED\<rparr>)"
  "frees (\<lambda>c. c\<lparr>xc_stripePaymentIntentId := v\<rparr>)"
  "frees (\<lambda>c. c\<lparr>xc_stripeCheckoutSessionId := u, xc_stripePaymentIntentId := v\<rparr>)"
  "st \<noteq> XC_OPEN \<Longrightarrow> frees (\<lambda>c. c\<lparr>xc_status := st, xc_stripePaymentIntentId := w c\<rparr>)"
  by (simp_all add: frees_def)

lemma refund_outcome_closed [simp]: "refund_outcome z \<noteq> XC_OPEN"
  by (simp add: refund_outcome_def)

lemma write_refund_commit:
  "write_refund k rid (refund_outcome z) rf now extra g = Inr g' \<Longrightarrow> frees extra \<Longrightarrow> seat_commit C T g g'"
  unfolding write_refund_def
  by (erule sc_checkouts) (use refund_outcome_closed in \<open>force simp: frees_def\<close>)

lemma once_run:
  assumes "once v rid cid body g = (g', r)" "\<And>g1 a. body g = Inr (g1, a) \<Longrightarrow> (seat_commit C T)\<^sup>*\<^sup>* g g1"
  shows "(seat_commit C T)\<^sup>*\<^sup>* g g'"
proof (cases r)
  case (Inl err)
  then show ?thesis using assms(1) by (auto simp: once_def dest: in_tx_error)
next
  case (Inr a)
  show ?thesis
  proof (cases "event_seen v rid g")
    case True
    then show ?thesis using assms(1) Inr by (simp add: once_def in_tx_ok)
  next
    case False
    then obtain g1 where "body g = Inr (g1, a)" "record_event v rid cid g1 = Inr g'"
      using assms(1) Inr by (auto simp: once_def in_tx_ok elim!: ebind_InrE)
    then show ?thesis using assms(2) sc_event by (blast intro: seat_commit_after)
  qed
qed

lemma reserve_checks_run:
  assumes "reserve_checks e i g = (g', r)" "others C T e"
  shows "(seat_commit C T)\<^sup>*\<^sup>* g g'"
  using assms(1) race_run [OF assms(2)] seat_race_after [OF assms(2) race_run [OF assms(2)]]
  by (auto simp: reserve_checks_def Let_def split: option.splits sum.splits if_splits)

lemma reserve_write_run:
  assumes "reserve_write rt e i q key g = (g', r)" "others C T e" "xv_now e \<le> T"
  shows "(seat_commit C T)\<^sup>*\<^sup>* g g'"
proof (cases "reserve_tx rt e i q key g")
  case (Inr x)
  then show ?thesis using assms(1,3) sc_reserve [where T = T] by (cases x) (auto simp: reserve_write_def in_tx_def)
next
  case (Inl err)
  then show ?thesis using assms(1) race_run [OF assms(2)]
    by (auto simp: reserve_write_def in_tx_def Let_def split: if_splits option.splits)
qed

lemma reserve_run:
  assumes run: "reserveExperience rt e i g = (g', r)" and e: "others C T e" "xv_now e \<le> T"
  shows "(seat_commit C T)\<^sup>*\<^sup>* g g'"
proof -
  obtain g3 y where g3: "reserve_checks e i (xv_race e 1 g) = (g3, y)" by (metis surj_pair)
  have r3: "(seat_commit C T)\<^sup>*\<^sup>* g g3"
    using reserve_checks_run [OF g3 e(1)] race_run [OF e(1)] by (meson rtranclp_trans)
  then have r4: "(seat_commit C T)\<^sup>*\<^sup>* g (xv_race e 4 g3)" by (rule seat_race_after [OF e(1)])
  show ?thesis
    using run g3 r3 reserve_write_run [OF _ e] rtranclp_trans [OF r4]
    by (auto simp: reserveExperience_def Let_def split: sum.splits option.splits)
qed

lemma persist_run:
  assumes "persistExperienceRefund j rid rf now race h = (h', x)" "runs C T race"
  shows "(seat_commit C T)\<^sup>*\<^sup>* h h'"
proof (cases "write_refund j rid (refund_outcome (rd_status rf)) (rd_id rf) now (\<lambda>c. c) h")
  case (Inl err)
  then show ?thesis using assms(1) by (simp add: persistExperienceRefund_def)
next
  case (Inr h1)
  have "seat_commit C T h h1" by (rule write_refund_commit [OF Inr]) simp
  then have "(seat_commit C T)\<^sup>*\<^sup>* h (race h1)" using assms(2) unfolding runs_def
    by (meson converse_rtranclp_into_rtranclp)
  then show ?thesis using assms(1) Inr by (auto simp: persistExperienceRefund_def Let_def split: option.splits)
qed

lemma persist_after:
  assumes "persistExperienceRefund j rid rf now (xv_race e n) (xv_race e k g) = (g', x)" "others C T e"
  shows "(seat_commit C T)\<^sup>*\<^sup>* g g'"
  using persist_run [OF assms(1), of C T] race_run [OF assms(2), of g k] assms(2) unfolding others_def
  by (meson rtranclp_trans)

lemma refund_paid_run:
  assumes run: "refundPaidExperienceReservation sp e rid k g = (g', r)" and e: "others C T e"
  shows "(seat_commit C T)\<^sup>*\<^sup>* g g'"
  using run unfolding refundPaidExperienceReservation_def
  by (auto split: option.splits if_splits sum.splits prod.splits intro: persist_after [OF _ e])

lemma cancel_run:
  assumes run: "cancelExperienceReservation rt sp e rid k actor g = (g', r)" and e: "others C T e"
  shows "(seat_commit C T)\<^sup>*\<^sup>* g g'"
proof -
  obtain g1 y where g1: "refundPaidExperienceReservation sp e rid k g = (g1, y)" by (metis surj_pair)
  have r1: "(seat_commit C T)\<^sup>*\<^sup>* g g1" by (rule refund_paid_run [OF g1 e])
  have "(seat_commit C T)\<^sup>*\<^sup>* g (xv_race e 4 ((xv_race e 3 g1)\<lparr>xd_bookings := upd_where (confirmed_booking rid k)
      (cancelled_booking (Experiences.hashActor rt actor) (xv_now e)) (xd_bookings (xv_race e 3 g1))\<rparr>))"
    by (rule seat_race_after [OF e seat_commit_after [OF seat_race_after [OF e r1, of 3] sc_cancel]])
  then show ?thesis using run g1 r1
    by (auto simp: cancelExperienceReservation_def Let_def split: sum.splits option.splits)
qed

lemma checkouts_after:
  "(seat_commit C T)\<^sup>*\<^sup>* g h \<Longrightarrow> updateCheckouts p f h = Inr h' \<Longrightarrow> frees f \<Longrightarrow> (seat_commit C T)\<^sup>*\<^sup>* g h'"
  by (erule seat_commit_after, erule (1) sc_checkouts)

lemma obtain_checkout_run:
  assumes "obtain_checkout e i rid account rate key g = (g', r)" "others C T e" "xv_now e \<le> T"
  shows "(seat_commit C T)\<^sup>*\<^sup>* g g'"
proof -
  have "(seat_commit C T)\<^sup>*\<^sup>* g h" if "checkout_tx e i rid account rate key (xv_race e 2 g) = Inr (h, x)" for h x
    by (rule seat_commit_after [OF race_run [OF assms(2)] sc_checkout [OF that assms(3)]])
  then show ?thesis using assms(1) race_run [OF assms(2)]
    by (auto simp: obtain_checkout_def in_tx_def Let_def split: option.splits if_splits sum.splits)
qed

lemma link_run:
  assumes "link_checkout sp origin e i rid c s x g = (g', r)" "others C T e"
  shows "(seat_commit C T)\<^sup>*\<^sup>* g g'"
  using assms(1) checkouts_after [OF race_run [OF assms(2)]] race_run [OF assms(2)]
  by (auto simp: link_checkout_def Let_def split: sum.splits dest!: updateCheckoutD)

lemma checkout_run:
  assumes run: "createPublicExperienceCheckout rt sp origin e i g = (g', r)" and e: "others C T e" "xv_now e \<le> T"
  shows "(seat_commit C T)\<^sup>*\<^sup>* g g'"
proof (cases "publicRestaurant (ci_slug i) g")
  case None
  then show ?thesis using run by (simp add: createPublicExperienceCheckout_def)
next
  case (Some rs)
  show ?thesis
  proof (cases "payment_setup sp rs")
    case (Inl err)
    then show ?thesis using run Some by (simp add: createPublicExperienceCheckout_def)
  next
    case (Inr ar)
    obtain g1 y where g1: "obtain_checkout e i (xr_id rs) (fst ar) (snd ar)
        (Experience_Payments.hashIdempotencyKey rt (xr_id rs) (ci_idempotencyKey i)) (xv_race e 1 g) = (g1, y)"
      by (metis surj_pair)
    have "(seat_commit C T)\<^sup>*\<^sup>* g g1"
      using race_run [OF e(1)] obtain_checkout_run [OF g1 e] by (meson rtranclp_trans)
    moreover from this have "(seat_commit C T)\<^sup>*\<^sup>* g h" if "link_checkout sp origin e i rid c s x g1 = (h, z)" for rid c s x h z
      using link_run [OF that e(1)] by (rule rtranclp_trans)
    ultimately show ?thesis using run Some Inr g1
      by (cases ar) (auto simp: createPublicExperienceCheckout_def split: sum.splits option.splits)
  qed
qed

lemma cancel_checkout_run:
  assumes "cancelPublicExperienceCheckout sp e i g = (g', r)" "others C T e"
  shows "(seat_commit C T)\<^sup>*\<^sup>* g g'"
  using assms(1) checkouts_after [OF race_run [OF assms(2)]] race_run [OF assms(2)]
  by (auto simp: cancelPublicExperienceCheckout_def expire_open_def Let_def split: sum.splits option.splits if_splits)

lemma expire_checkouts_run:
  assumes "expireExperienceCheckouts now limit race g = (g', r)" "runs C T race"
  shows "(seat_commit C T)\<^sup>*\<^sup>* g g'"
proof -
  have "(seat_commit C T)\<^sup>*\<^sup>* g (race g)" using assms(2) by (simp add: runs_def)
  then show ?thesis using assms(1) checkouts_after
    by (auto simp: expireExperienceCheckouts_def Let_def split: sum.splits if_splits)
qed

lemma once_after:
  assumes "once v rid cid body (xv_race e k g) = (h, x)" "others C T e"
    and "\<And>g1 a. body (xv_race e k g) = Inr (g1, a) \<Longrightarrow> (seat_commit C T)\<^sup>*\<^sup>* (xv_race e k g) g1"
  shows "(seat_commit C T)\<^sup>*\<^sup>* g h"
  using once_run [OF assms(1,3)] race_run [OF assms(2)] by (meson rtranclp_trans)

lemma refund_event_run:
  assumes "handleExperienceRefundStripeEvent e v rf intent g = (g', r)" "others C T e"
  shows "(seat_commit C T)\<^sup>*\<^sup>* g g'"
  using assms(1) unfolding handleExperienceRefundStripeEvent_def
  by (auto split: option.splits if_splits elim!: once_after [OF _ assms(2)] ebind_InrE
      intro: commit_run [OF write_refund_commit [OF _ frees_simps(1)]])

lemma decline_run:
  assumes "decline c intent g = Inr (g', a)"
  shows "(seat_commit C T)\<^sup>*\<^sup>* g g'"
proof -
  have "updateCheckout (xc_id c) (xc_restaurantId c)
      (\<lambda>c'. c'\<lparr>xc_status := (if xc_totalPriceCents c = 0 then XC_EXPIRED else XC_REFUND_PENDING),
         xc_stripePaymentIntentId := orElse_opt intent (xc_stripePaymentIntentId c')\<rparr>) g = Inr g'"
    using assms unfolding decline_def by (elim ebind_InrE) simp
  from updateCheckoutD [OF this] have "seat_commit C T g g'" by (rule sc_checkouts) simp
  then show ?thesis by (rule commit_run)
qed

lemma confirm_body_run:
  assumes "confirm_body rt be t rp k rid g = Inr (g', a)" "be_now be \<le> T"
  shows "(seat_commit C T)\<^sup>*\<^sup>* g g'"
  using assms
  by (auto simp: confirm_body_def not_less split: option.splits if_splits
      dest: decline_run [of _ _ _ _ _ C T] intro: commit_run [OF sc_book])

lemma confirm_payment_run:
  assumes run: "confirm_payment rt sp e be v rp c g = (g', r)" and e: "others C T e" "be_now be \<le> T"
  shows "(seat_commit C T)\<^sup>*\<^sup>* g g'"
proof -
  obtain g1 y where g1: "once v (xc_restaurantId c) (xc_id c)
      (confirm_body rt be (ev_occurredAt v) rp (xc_id c) (xc_restaurantId c)) (xv_race e 1 g) = (g1, y)" by (metis surj_pair)
  have r1: "(seat_commit C T)\<^sup>*\<^sup>* g g1" by (rule once_after [OF g1 e(1) confirm_body_run [OF _ e(2)]])
  have "(seat_commit C T)\<^sup>*\<^sup>* g h"
    if "persistExperienceRefund j rid rf now (xv_race e n) (xv_race e k g1) = (h, z)" for j rid rf now n k h z
    using r1 persist_after [OF that e(1)] by (rule rtranclp_trans)
  with r1 show ?thesis using run g1
    by (auto simp: confirm_payment_def split: sum.splits handled.splits if_splits prod.splits)
qed

lemma refund_late_run:
  assumes "refund_late sp e v intent c g = (g', r)" "others C T e"
  shows "(seat_commit C T)\<^sup>*\<^sup>* g g'"
  using assms(1) unfolding refund_late_def
  by (auto split: sum.splits if_splits elim!: once_after [OF _ assms(2)] ebind_InrE
      intro: commit_run [OF write_refund_commit])

lemma checkout_event_run:
  assumes run: "handleExperienceCheckoutStripeEvent rt sp e be v rp g = (g', r)" and e: "others C T e" "be_now be \<le> T"
  shows "(seat_commit C T)\<^sup>*\<^sup>* g g'"
  using run unfolding handleExperienceCheckoutStripeEvent_def Let_def
  by (auto split: option.splits if_splits prod.splits elim!: once_after [OF _ e(1)] ebind_InrE
      intro: confirm_payment_run [OF _ e] refund_late_run [OF _ e(1)]
      simp: expire_open_def dest!: updateCheckoutD elim: checkouts_after [OF rtranclp.rtrancl_refl])

lemma expire_sessions_run:
  assumes run: "expireExperienceSessions now limit race g = (g', n)" and others: "runs C T race" and ok: "seats_ok C T g"
  shows "(seat_commit C T)\<^sup>*\<^sup>* g g'"
proof -
  have r1: "(seat_commit C T)\<^sup>*\<^sup>* g (race g)" using others by (simp add: runs_def)
  then have "caps_below C (race g)" using seat_commits_ok [OF _ ok] by (simp add: seats_ok_def)
  then have "seat_commit C T (race g) ((race g)\<lparr>xd_sessions := upd_where p (\<lambda>s. s\<lparr>xs_status := XS_CLOSED\<rparr>) (xd_sessions (race g))\<rparr>)" for p
    by (intro sc_sessions) (auto simp: same_session_def caps_below_def set_upd_where effectiveCapacity_def)
  then show ?thesis using run r1 seat_commit_after [OF r1]
    by (auto simp: expireExperienceSessions_def Let_def split: if_splits)
qed

section \<open>Runs of the service\<close>

inductive experience_step :: "runtime \<Rightarrow> (id \<Rightarrow> nat) \<Rightarrow> instant \<Rightarrow> xdb \<Rightarrow> xdb \<Rightarrow> bool" for rt C T where
  es_create: "createExperience rt e ic g = (g', r1) \<Longrightarrow> others C T e \<Longrightarrow> caps_below C g' \<Longrightarrow> experience_step rt C T g g'"
| es_update: "updateExperience e iu g = (g', r2) \<Longrightarrow> others C T e \<Longrightarrow> caps_below C g' \<Longrightarrow> experience_step rt C T g g'"
| es_create_session: "createExperienceSession e ics g = (g', r3) \<Longrightarrow> others C T e \<Longrightarrow> caps_below C g' \<Longrightarrow>
     experience_step rt C T g g'"
| es_update_session: "updateExperienceSession e ius g = (g', r4) \<Longrightarrow> others C T e \<Longrightarrow> caps_below C g' \<Longrightarrow>
     experience_step rt C T g g'"
| es_expire_sessions: "expireExperienceSessions now limit race g = (g', n) \<Longrightarrow> runs C T race \<Longrightarrow> experience_step rt C T g g'"
| es_delete: "deleteExperience rid k now aborted g = (g', r5) \<Longrightarrow> experience_step rt C T g g'"
| es_reserve: "reserveExperience rt e ir g = (g', r6) \<Longrightarrow> others C T e \<Longrightarrow> xv_now e \<le> T \<Longrightarrow> experience_step rt C T g g'"
| es_cancel: "cancelExperienceReservation rt sp e rid k actor g = (g', r7) \<Longrightarrow> others C T e \<Longrightarrow> experience_step rt C T g g'"
| es_checkout: "createPublicExperienceCheckout rt sp origin e ih g = (g', r8) \<Longrightarrow> others C T e \<Longrightarrow> xv_now e \<le> T \<Longrightarrow>
     experience_step rt C T g g'"
| es_cancel_checkout: "cancelPublicExperienceCheckout sp e q g = (g', r9) \<Longrightarrow> others C T e \<Longrightarrow> experience_step rt C T g g'"
| es_expire_checkouts: "expireExperienceCheckouts now limit race g = (g', r10) \<Longrightarrow> runs C T race \<Longrightarrow>
     experience_step rt C T g g'"
| es_refund_event: "handleExperienceRefundStripeEvent e v rf intent g = (g', r11) \<Longrightarrow> others C T e \<Longrightarrow>
     experience_step rt C T g g'"
| es_event: "handleExperienceCheckoutStripeEvent rt sp e be v rp g = (g', r12) \<Longrightarrow> others C T e \<Longrightarrow> be_now be \<le> T \<Longrightarrow>
     experience_step rt C T g g'"

lemma create_experience_run:
  assumes "createExperience rt e i g = (g', r)" "others C T e" "caps_below C g'"
  shows "(seat_commit C T)\<^sup>*\<^sup>* g g'"
proof -
  have "(seat_commit C T)\<^sup>*\<^sup>* g g'" if "insertExperience x (xv_race e 1 g) = Inr g'" for x
    by (rule seat_commit_after [OF race_run [OF assms(2), of g 1]])
      (use that assms(3) in \<open>auto simp: insertExperience_def intro!: sc_experiences split: if_splits\<close>)
  then show ?thesis using assms(1) race_run [OF assms(2)]
    by (auto simp: createExperience_def Let_def split: sum.splits)
qed

lemma update_experience_run:
  assumes "updateExperience e i g = (g', r)" "others C T e" "caps_below C g'"
  shows "(seat_commit C T)\<^sup>*\<^sup>* g g'"
proof -
  have "(seat_commit C T)\<^sup>*\<^sup>* g g'" if "g' = (xv_race e 1 g)\<lparr>xd_experiences := xs\<rparr>" for xs
    by (rule seat_commit_after [OF race_run [OF assms(2), of g 1]]) (use that assms(3) in \<open>auto intro!: sc_experiences\<close>)
  then show ?thesis using assms(1) race_run [OF assms(2)]
    by (auto simp: updateExperience_def Let_def split: sum.splits option.splits if_splits)
qed

lemma create_session_run:
  assumes "createExperienceSession e i g = (g', r)" "others C T e" "caps_below C g'"
  shows "(seat_commit C T)\<^sup>*\<^sup>* g g'"
proof -
  have "(seat_commit C T)\<^sup>*\<^sup>* g g'" if "insertSession s (xv_race e 1 g) = Inr g'" for s
    by (rule seat_commit_after [OF race_run [OF assms(2), of g 1] sc_session [OF that assms(3)]])
  then show ?thesis using assms(1) race_run [OF assms(2)]
    by (auto simp: createExperienceSession_def Let_def split: sum.splits if_splits)
qed

lemma update_session_run:
  assumes "updateExperienceSession e i g = (g', r)" "others C T e" "caps_below C g'"
  shows "(seat_commit C T)\<^sup>*\<^sup>* g g'"
proof -
  have "(seat_commit C T)\<^sup>*\<^sup>* g g'"
    if "g' = (xv_race e 1 g)\<lparr>xd_sessions := upd_where p (apply_session_data d) (xd_sessions (xv_race e 1 g))\<rparr>" for p d
    by (rule seat_commit_after [OF race_run [OF assms(2), of g 1]])
      (use that assms(3) in \<open>auto intro!: sc_sessions simp: same_session_def apply_session_data_def\<close>)
  then show ?thesis using assms(1) race_run [OF assms(2)]
    by (auto simp: updateExperienceSession_def Let_def split: sum.splits option.splits if_splits)
qed

lemma delete_run:
  assumes "deleteExperience rid k now aborted g = (g', r)"
  shows "(seat_commit C T)\<^sup>*\<^sup>* g g'"
  using assms by (auto simp: deleteExperience_def split: if_splits option.splits dest!: find_Some_D intro: commit_run [OF sc_delete])

lemma experience_step_run:
  assumes "experience_step rt C T g h" "seats_ok C T g"
  shows "(seat_commit C T)\<^sup>*\<^sup>* g h"
  using assms(1)
proof cases
  case (es_expire_sessions now limit race n)
  then show ?thesis by (intro expire_sessions_run [OF _ _ assms(2)])
qed (auto intro: create_experience_run update_experience_run create_session_run update_session_run delete_run reserve_run cancel_run
       checkout_run cancel_checkout_run expire_checkouts_run refund_event_run checkout_event_run)

lemma experience_steps_run:
  assumes "(experience_step rt C T)\<^sup>*\<^sup>* g h" "seats_ok C T g"
  shows "(seat_commit C T)\<^sup>*\<^sup>* g h \<and> seats_ok C T h"
  using assms
proof (induction rule: rtranclp_induct)
  case (step h k)
  then show ?case using experience_step_run seat_commits_ok by (meson rtranclp_trans)
qed simp

text \<open>
  C28. A session is never oversold. Whatever operations the service runs, each against whatever commits it
  is overtaken by, the seats of the confirmed reservations and those still held by an open checkout at a time
  not before any clock read never exceed the largest capacity the session was ever given. In
  particular the confirmed reservations alone never do.
\<close>

theorem session_never_oversold:
  assumes "(experience_step rt C T)\<^sup>*\<^sup>* g h" "seats_ok C T g" "T \<le> now"
  shows "seats_ok C T h \<and> (\<forall>rid sid. booked rid sid h + held rid sid now h \<le> int (C sid)) \<and>
    (\<forall>rid sid. booked rid sid h \<le> int (C sid))"
proof -
  have ok: "seats_ok C T h" using experience_steps_run [OF assms(1,2)] by blast
  then have rows: "rows_ok h" by (simp add: seats_ok_def)
  have le: "booked rid sid h + held rid sid now h \<le> int (C sid)" for rid sid
    using ok held_antimono [OF rows assms(3), of rid sid] by (simp add: seats_ok_def) (smt (verit))
  have "0 \<le> held rid sid now h" for rid sid
    unfolding held_def by (rule sum_list_nonneg) (use rows in \<open>force simp: rows_ok_def\<close>)
  with le have "booked rid sid h \<le> int (C sid)" for rid sid by (smt (verit))
  with ok le show ?thesis by blast
qed

section \<open>Reservations are never lost\<close>

text \<open>A reservation stays as it was made, or is cancelled once.\<close>

definition kept_or_cancelled :: "booking_row \<Rightarrow> booking_row \<Rightarrow> bool" where
  "kept_or_cancelled b b' \<longleftrightarrow> b' = b \<or> xb_status b = XB_CONFIRMED \<and> (\<exists>h now. b' = cancelled_booking h now b)"

definition bookings_kept :: "xdb \<Rightarrow> xdb \<Rightarrow> bool" where
  "bookings_kept g h \<longleftrightarrow> (\<forall>b \<in> set (xd_bookings g). \<exists>b' \<in> set (xd_bookings h). kept_or_cancelled b b')"

lemma kept_refl [simp]: "kept_or_cancelled b b"
  by (simp add: kept_or_cancelled_def)

lemma kept_trans: "kept_or_cancelled b c \<Longrightarrow> kept_or_cancelled c d \<Longrightarrow> kept_or_cancelled b d"
  by (auto simp: kept_or_cancelled_def cancelled_booking_def)

lemma bookings_kept_subset: "set (xd_bookings g) \<subseteq> set (xd_bookings h) \<Longrightarrow> bookings_kept g h"
  unfolding bookings_kept_def by (meson kept_refl subsetD)

lemma bookings_kept_trans: "bookings_kept g h \<Longrightarrow> bookings_kept h k \<Longrightarrow> bookings_kept g k"
  unfolding bookings_kept_def by (meson kept_trans)

text \<open>The experience of a reservation cannot be deleted.\<close>

lemma delete_keeps_bookings:
  assumes "deletable rid now g x" "xp_id x = k" "linked g"
  shows "xd_bookings (cascade_experience k g) = xd_bookings g"
proof -
  have none: "xb_experienceId b \<noteq> k" if "b \<in> set (xd_bookings g)" for b
    using assms(1,2) that by (auto simp: deletable_def list_ex_iff)
  have "xb_sessionId b \<notin> xs_id ` {s \<in> set (xd_sessions g). xs_experienceId s = k}" if b: "b \<in> set (xd_bookings g)" for b
  proof
    assume "xb_sessionId b \<in> xs_id ` {s \<in> set (xd_sessions g). xs_experienceId s = k}"
    then obtain s where s: "s \<in> set (xd_sessions g)" "xs_experienceId s = k" "xs_id s = xb_sessionId b" by auto
    obtain s' where s': "s' \<in> set (xd_sessions g)" "xs_id s' = xb_sessionId b" "xs_experienceId s' = xb_experienceId b"
      using assms(3) b by (auto simp: linked_def)
    have "s = s'" using assms(3) s s' by (auto simp: linked_def distinct_map inj_on_def)
    with s s' none [OF b] show False by simp
  qed
  with none show ?thesis by (auto simp: cascade_experience_def Let_def filter_id_conv)
qed

lemma seat_commit_kept:
  assumes "seat_commit C T g g'" "seats_ok C T g"
  shows "bookings_kept g g'"
  using assms(1)
proof cases
  case (sc_reserve rt e i q key b)
  then show ?thesis by (intro bookings_kept_subset) (auto dest!: reserve_txD insertBookingD)
next
  case (sc_checkout e j rid account rate key r)
  then show ?thesis by (intro bookings_kept_subset) (auto dest!: checkout_txD insertCheckoutD)
next
  case (sc_book k rid c s x be rt rp a)
  from take_seatsD [OF sc_book(4)] show ?thesis by (intro bookings_kept_subset) (auto simp: Let_def)
next
  case (sc_cancel rid k h now)
  show ?thesis unfolding bookings_kept_def
  proof
    fix b assume "b \<in> set (xd_bookings g)"
    then have "(if confirmed_booking rid k b then cancelled_booking h now b else b) \<in> set (xd_bookings g')"
      unfolding sc_cancel by (auto simp: set_upd_where)
    then show "\<exists>b' \<in> set (xd_bookings g'). kept_or_cancelled b b'"
      by (rule bexI [rotated]) (auto simp: kept_or_cancelled_def confirmed_booking_def)
  qed
next
  case (sc_checkouts p f)
  then show ?thesis by (intro bookings_kept_subset) (auto dest!: updateCheckoutsD)
next
  case (sc_session s)
  then show ?thesis by (intro bookings_kept_subset) (auto dest!: insertSessionD)
next
  case (sc_delete rid now x k)
  then show ?thesis using assms(2)
    by (intro bookings_kept_subset) (simp add: delete_keeps_bookings seats_ok_def)
next
  case (sc_event v rid cid)
  then show ?thesis by (intro bookings_kept_subset) (auto dest!: record_eventD)
qed (auto intro!: bookings_kept_subset)

lemma seat_commits_kept:
  assumes "(seat_commit C T)\<^sup>*\<^sup>* g h" "seats_ok C T g"
  shows "bookings_kept g h"
  using assms
proof (induction rule: rtranclp_induct)
  case (step h k)
  then have "seats_ok C T h" using seat_commits_ok by blast
  from bookings_kept_trans [OF step.IH [OF step.prems] seat_commit_kept [OF step.hyps(2) this]] show ?case .
qed (simp add: bookings_kept_subset)

text \<open>
  A reservation of an experience is never lost. Over any run of the service every reservation stays in the
  table as it was made, or is cancelled, once, and then never changes: no deletion of an experience
  carries it away.
\<close>

lemma experience_booking_never_lost:
  assumes "(experience_step rt C T)\<^sup>*\<^sup>* g h" "seats_ok C T g" "b \<in> set (xd_bookings g)"
  shows "\<exists>b' \<in> set (xd_bookings h). kept_or_cancelled b b' \<and> (xb_status b = XB_CANCELLED \<longrightarrow> b' = b) \<and>
    find (\<lambda>x. xb_id x = xb_id b) (xd_bookings h) = Some b'"
proof -
  have run: "(seat_commit C T)\<^sup>*\<^sup>* g h" "seats_ok C T h" using experience_steps_run [OF assms(1,2)] by auto
  obtain b' where b': "b' \<in> set (xd_bookings h)" "kept_or_cancelled b b'"
    using seat_commits_kept [OF run(1) assms(2)] assms(3) by (auto simp: bookings_kept_def)
  have "xb_id b' = xb_id b" using b'(2) by (auto simp: kept_or_cancelled_def cancelled_booking_def)
  then have "find (\<lambda>x. xb_id x = xb_id b) (xd_bookings h) = Some b'"
    using table_ok_find [OF _ b'(1), of xb_id booking_conflict] run(2) by (simp add: seats_ok_def rows_ok_def)
  with b' show ?thesis by (auto simp: kept_or_cancelled_def)
qed

text \<open>What a successful request with a key leaves behind.\<close>

lemma reserve_write_success:
  assumes "reserve_write rt e i q (Some key) g = (g', Inr (b, rep))" "of_int q = rs_quantity i"
  shows "b \<in> set (xd_bookings g') \<and> xb_idempotencyKey b = Some key \<and> xb_experienceId b = rs_experienceId i \<and>
    xb_sessionId b = rs_sessionId i \<and> of_int (xb_quantity b) = rs_quantity i \<and> key \<noteq> []"
proof (cases "reserve_tx rt e i q (Some key) g")
  case (Inr x)
  then have tx: "reserve_tx rt e i q (Some key) g = Inr (g', b)"
    using assms(1) by (cases x) (simp add: reserve_write_def in_tx_def)
  from reserve_txD [OF tx] show ?thesis using assms(2)
    by (auto simp: booking_checks_def dest!: insertBookingD)
next
  case (Inl err)
  then show ?thesis using assms
    by (auto simp: reserve_write_def in_tx_def Let_def findReservationByIdempotency_def assertReplayMatches_def
        split: if_splits option.splits elim!: ebind_InrE dest!: find_Some_D)
qed

lemma reserve_success:
  assumes run: "reserveExperience rt e i g = (g', Inr (b, rep))"
    and k: "normalizeIdempotencyKey (rs_idempotencyKey i) = Inr (Some raw)" "key = Experiences.hashIdempotencyKey rt (rs_restaurantId i) raw"
  shows "b \<in> set (xd_bookings g') \<and> xb_idempotencyKey b = Some key \<and> xb_experienceId b = rs_experienceId i \<and>
    xb_sessionId b = rs_sessionId i \<and> of_int (xb_quantity b) = rs_quantity i \<and> key \<noteq> [] \<and>
    (\<exists>q. normalizeQuantity (rs_quantity i) = Inr q)"
proof -
  obtain q where q: "normalizeQuantity (rs_quantity i) = Inr q"
    using run by (auto simp: reserveExperience_def split: sum.splits)
  then have int: "of_int q = rs_quantity i" using int_between_Inr by (auto simp: normalizeQuantity_def)
  show ?thesis
  proof (cases "findReservationByIdempotency (Some key) g")
    case (Some replay)
    then show ?thesis using run q k
      by (auto simp: reserveExperience_def Let_def findReservationByIdempotency_def assertReplayMatches_def
          split: if_splits elim!: ebind_InrE dest!: find_Some_D)
  next
    case None
    then obtain g3 where "reserve_write rt e i q (Some key) (xv_race e 4 g3) = (g', Inr (b, rep))"
      using run q k by (auto simp: reserveExperience_def Let_def split: prod.splits sum.splits)
    from reserve_write_success [OF this int] q show ?thesis by blast
  qed
qed

lemma find_by_key:
  assumes "table_ok xb_id booking_conflict bs" "b \<in> set bs" "xb_idempotencyKey b = Some key"
  shows "find (\<lambda>x. xb_idempotencyKey x = Some key) bs = Some b"
proof -
  obtain c where c: "find (\<lambda>x. xb_idempotencyKey x = Some key) bs = Some c"
    using assms(2,3) by (cases "find (\<lambda>x. xb_idempotencyKey x = Some key) bs") (auto dest: find_None_D)
  from find_Some_D [OF c] assms have "xb_id c = xb_id b"
    unfolding table_ok_def booking_conflict_def same_some_def by (metis option.distinct(1))
  with find_Some_D [OF c] assms(1,2) c show ?thesis using table_ok_unique [OF assms(1)] by blast
qed

text \<open>
  A reservation asked for with a key is made once. After a success, whatever the service has run in between,
  the same request (whoever sends it, and whatever has become of the session) is answered with the
  reservation already made, cancelled or not, and writes nothing.
\<close>

lemma experience_retry_replays:
  assumes first: "reserveExperience rt e i g = (g', Inr (b, rep))" "others C T e" "xv_now e \<le> T" "seats_ok C T g"
    and key: "normalizeIdempotencyKey (rs_idempotencyKey i) = Inr (Some raw)"
    and later: "(experience_step rt C T)\<^sup>*\<^sup>* g' h"
    and same: "rs_restaurantId j = rs_restaurantId i" "rs_experienceId j = rs_experienceId i"
      "rs_sessionId j = rs_sessionId i" "rs_quantity j = rs_quantity i" "rs_idempotencyKey j = rs_idempotencyKey i"
  shows "\<exists>b'. reserveExperience rt e' j h = (h, Inr (b', True)) \<and> kept_or_cancelled b b'"
proof -
  let ?key = "Experiences.hashIdempotencyKey rt (rs_restaurantId i) raw"
  have run: "(seat_commit C T)\<^sup>*\<^sup>* g g'" by (rule reserve_run [OF first(1-3)])
  then have ok': "seats_ok C T g'" using seat_commits_ok first(4) by blast
  note b = reserve_success [OF first(1) key refl]
  have later': "(seat_commit C T)\<^sup>*\<^sup>* g' h" "seats_ok C T h" using experience_steps_run [OF later ok'] by auto
  obtain b' where b': "b' \<in> set (xd_bookings h)" "kept_or_cancelled b b'"
    using seat_commits_kept [OF later'(1) ok'] b by (auto simp: bookings_kept_def)
  have f: "xb_idempotencyKey b' = Some ?key" "xb_experienceId b' = rs_experienceId i" "xb_sessionId b' = rs_sessionId i"
    "of_int (xb_quantity b') = rs_quantity i"
    using b'(2) b by (auto simp: kept_or_cancelled_def cancelled_booking_def)
  have "find (\<lambda>x. xb_idempotencyKey x = Some ?key) (xd_bookings h) = Some b'"
    by (rule find_by_key [OF _ b'(1) f(1)]) (use later'(2) in \<open>simp add: seats_ok_def rows_ok_def\<close>)
  then have "reserveExperience rt e' j h = (h, Inr (b', True))"
    using b key f same
    by (auto simp: reserveExperience_def Let_def findReservationByIdempotency_def assertReplayMatches_def guard_def)
  with b'(2) show ?thesis by blast
qed

section \<open>A concrete session\<close>

text \<open>Digests have 64 characters, as the constraint on keys asks.\<close>

definition padded_runtime :: runtime where
  "padded_runtime = utc_runtime\<lparr>sha256 := (\<lambda>s. take 64 (s @ replicate 64 CHR ''0''))\<rparr>"

definition wine_tasting :: xdb where
  "wine_tasting = \<lparr>xd_db = empty_db,
     xd_restaurants = [\<lparr>xr_id = ''r'', xr_slug = Some ''bistro'', xr_siteStatus = ''ACTIVE'', xr_publishedAt = Some 0,
       xr_connectPublished = Some True, xr_experienceStripeAccountId = Some ''acct'', xr_giftCardStripeAccountId = None,
       xr_experienceCommissionRate = Some (1 / 10)\<rparr>],
     xd_customers = [],
     xd_experiences = [\<lparr>xp_id = ''x'', xp_restaurantId = ''r'', xp_key = ''wine'', xp_name = ''Wine'', xp_description = None,
       xp_durationMinutes = 90, xp_priceCents = 4000, xp_currency = ''EUR'', xp_capacity = 6, xp_status = X_ACTIVE,
       xp_createdByHash = ''h'', xp_updatedAt = 0\<rparr>],
     xd_sessions = [\<lparr>xs_id = ''s'', xs_restaurantId = ''r'', xs_experienceId = ''x'', xs_startsAt = 10000000,
       xs_endsAt = 20000000, xs_capacityOverride = Some 4, xs_status = XS_OPEN\<rparr>],
     xd_bookings = [], xd_checkouts = [], xd_events = []\<rparr>"

definition quiet_env :: "instant \<Rightarrow> id \<Rightarrow> xenv" where
  "quiet_env now newId = \<lparr>xv_now = now, xv_id = newId, xv_race = (\<lambda>_ h. h)\<rparr>"

definition good_stripe :: stripe where
  "good_stripe = \<lparr>sp_retrieveAccount = (\<lambda>_. Inr \<lparr>ac_chargesEnabled = True, ac_payoutsEnabled = True\<rparr>),
     sp_createSession = (\<lambda>_. Inr \<lparr>ss_id = ''cs1'', ss_url = Some ''url'', ss_payment_intent = NoIntent, ss_status = Some ''open''\<rparr>),
     sp_retrieveSession = (\<lambda>_ _. Inr \<lparr>ss_id = ''cs1'', ss_url = Some ''url'', ss_payment_intent = NoIntent, ss_status = Some ''open''\<rparr>),
     sp_expireSession = (\<lambda>_ _. Inl ''late''), sp_applicationFee = (\<lambda>_ _. Inr None),
     sp_createRefund = (\<lambda>_. Inr \<lparr>rf_id = ''re1'', rf_status = Some ''succeeded''\<rparr>)\<rparr>"

definition ask_three :: reserve_input where
  "ask_three = \<lparr>rs_restaurantId = ''r'', rs_experienceId = ''x'', rs_sessionId = ''s'', rs_customerId = None,
     rs_reservationId = None, rs_quantity = 3, rs_idempotencyKey = Some ''booking-1'', rs_actor = ''staff''\<rparr>"

definition hold_one :: checkout_input where
  "hold_one = \<lparr>ci_slug = ''bistro'', ci_experienceId = ''x'', ci_sessionId = ''s'', ci_quantity = 1, ci_idempotencyKey = ''web-1''\<rparr>"

text \<open>Three seats are booked, the fourth is held by a checkout, a fifth is refused.\<close>

definition after_booking :: xdb where
  "after_booking = fst (reserveExperience padded_runtime (quiet_env 1000 ''b1'') ask_three wine_tasting)"

definition after_hold :: xdb where
  "after_hold = fst (createPublicExperienceCheckout padded_runtime good_stripe ''https://sokar.example/''
     (quiet_env 2000 ''11111111-1111-1111-1111-111111111111'') hold_one after_booking)"

lemma quiet_env_simps [simp]: "xv_now (quiet_env now k) = now" "xv_race (quiet_env now k) j h = h"
  by (simp_all add: quiet_env_def)

lemma quiet_others [simp]: "others C T (quiet_env now k)"
  by (simp add: others_def quiet_env_def)

lemma wine_ok: "seats_ok (\<lambda>_. 4) T wine_tasting"
  by (simp add: seats_ok_def caps_below_def linked_def rows_ok_def table_ok_def booked_def held_def
      wine_tasting_def effectiveCapacity_def)

lemma wine_steps:
  "experience_step padded_runtime (\<lambda>_. 4) 3000 wine_tasting after_booking"
  "experience_step padded_runtime (\<lambda>_. 4) 3000 after_booking after_hold"
proof -
  show "experience_step padded_runtime (\<lambda>_. 4) 3000 wine_tasting after_booking"
    by (rule es_reserve [where e = "quiet_env 1000 ''b1''" and ir = ask_three])
      (simp_all add: after_booking_def prod_eq_iff)
  show "experience_step padded_runtime (\<lambda>_. 4) 3000 after_booking after_hold"
    by (rule es_checkout [where e = "quiet_env 2000 ''11111111-1111-1111-1111-111111111111''" and ih = hold_one])
      (simp_all add: after_hold_def prod_eq_iff)
qed

lemma wine_run: "(experience_step padded_runtime (\<lambda>_. 4) 3000)\<^sup>*\<^sup>* wine_tasting after_hold"
  by (rule converse_rtranclp_into_rtranclp [OF wine_steps(1) r_into_rtranclp [where r = "experience_step padded_runtime (\<lambda>_. 4) 3000", OF wine_steps(2)]])

theorem session_never_oversold_witness:
  "booked ''r'' ''s'' after_hold = 3 \<and> held ''r'' ''s'' 3000 after_hold = 1 \<and>
   booked ''r'' ''s'' after_hold + held ''r'' ''s'' 3000 after_hold \<le> 4 \<and>
   snd (reserveExperience padded_runtime (quiet_env 3000 ''b2'') (ask_three\<lparr>rs_quantity := 1, rs_idempotencyKey := None\<rparr>) after_hold)
     = Inl (ExperienceConflictError EXPERIENCE_CAPACITY_EXCEEDED)"
proof -
  have "booked ''r'' ''s'' after_hold = 3 \<and> held ''r'' ''s'' 3000 after_hold = 1 \<and>
    snd (reserveExperience padded_runtime (quiet_env 3000 ''b2'') (ask_three\<lparr>rs_quantity := 1, rs_idempotencyKey := None\<rparr>) after_hold)
      = Inl (ExperienceConflictError EXPERIENCE_CAPACITY_EXCEEDED)"
    by code_simp
  with session_never_oversold [OF wine_run wine_ok, of 3000] show ?thesis by simp
qed

definition after_cancel :: xdb where
  "after_cancel = fst (cancelExperienceReservation padded_runtime good_stripe (quiet_env 3000 []) ''r'' ''b1'' ''staff'' after_booking)"

lemma cancel_step: "experience_step padded_runtime (\<lambda>_. 4) 3000 after_booking after_cancel"
  by (rule es_cancel [where e = "quiet_env 3000 []" and sp = good_stripe and rid = "''r''" and k = "''b1''" and actor = "''staff''"])
    (simp_all add: after_cancel_def prod_eq_iff)

lemma first_booking:
  "\<exists>b. reserveExperience padded_runtime (quiet_env 1000 ''b1'') ask_three wine_tasting = (after_booking, Inr (b, False)) \<and>
     xd_bookings after_booking = [b] \<and> xb_status b = XB_CONFIRMED \<and> xb_id b = ''b1''"
proof -
  let ?r = "reserveExperience padded_runtime (quiet_env 1000 ''b1'') ask_three wine_tasting"
  have "case snd ?r of Inr (b, rep) \<Rightarrow> \<not> rep \<and> xd_bookings after_booking = [b] \<and> xb_status b = XB_CONFIRMED \<and> xb_id b = ''b1''
      | Inl _ \<Rightarrow> False"
    by code_simp
  then obtain b where "snd ?r = Inr (b, False)" "xd_bookings after_booking = [b]" "xb_status b = XB_CONFIRMED" "xb_id b = ''b1''"
    by (auto split: sum.splits prod.splits)
  then show ?thesis by (intro exI [of _ b]) (simp add: after_booking_def prod_eq_iff)
qed

lemma booking_ok: "seats_ok (\<lambda>_. 4) 3000 after_booking"
  using experience_steps_run [OF r_into_rtranclp [where r = "experience_step padded_runtime (\<lambda>_. 4) 3000", OF wine_steps(1)] wine_ok]
  by blast

lemma experience_booking_never_lost_witness:
  "\<exists>b b'. xd_bookings after_booking = [b] \<and> find (\<lambda>x. xb_id x = xb_id b) (xd_bookings after_cancel) = Some b' \<and>
     kept_or_cancelled b b' \<and> list_all (\<lambda>x. xb_status x = XB_CANCELLED) (xd_bookings after_cancel)"
proof -
  obtain b where b: "xd_bookings after_booking = [b]" using first_booking by blast
  have "list_all (\<lambda>x. xb_status x = XB_CANCELLED) (xd_bookings after_cancel)" by code_simp
  with b experience_booking_never_lost [where b = b,
      OF r_into_rtranclp [where r = "experience_step padded_runtime (\<lambda>_. 4) 3000", OF cancel_step] booking_ok]
  show ?thesis by auto
qed

lemma experience_retry_replays_witness:
  "\<exists>b b'. xd_bookings after_booking = [b] \<and> kept_or_cancelled b b' \<and>
     reserveExperience padded_runtime (quiet_env 9000000 ''b9'') (ask_three\<lparr>rs_actor := ''other''\<rparr>) after_cancel =
       (after_cancel, Inr (b', True))"
proof -
  obtain b where b: "reserveExperience padded_runtime (quiet_env 1000 ''b1'') ask_three wine_tasting = (after_booking, Inr (b, False))"
    "xd_bookings after_booking = [b]" using first_booking by blast
  have key: "normalizeIdempotencyKey (rs_idempotencyKey ask_three) = Inr (Some ''booking-1'')"
    by code_simp
  show ?thesis
    using experience_retry_replays [where j = "ask_three\<lparr>rs_actor := ''other''\<rparr>" and e' = "quiet_env 9000000 ''b9''",
        OF b(1) _ _ wine_ok key r_into_rtranclp [where r = "experience_step padded_runtime (\<lambda>_. 4) 3000", OF cancel_step]]
      b(2) by auto
qed

end
