(* ===== verification/Experience_Events.thy ===== *)
theory Experience_Events
  imports Experience_Seats
begin

text \<open>
  What the reports of the provider do: an event is applied at most once, and a payment for a checkout whose
  identifier is a UUID is never turned into a reservation, because the key given to the reservation does not
  have the length that the database asks for. And what the public list of sessions promises: exactly the
  number of seats that can be held.
\<close>

section \<open>An event is applied once\<close>

definition quiet :: "xenv \<Rightarrow> bool" where
  "quiet e \<longleftrightarrow> xv_race e = (\<lambda>_ h. h)"

lemma quiet_simp [simp]: "quiet e \<Longrightarrow> xv_race e k = (\<lambda>h. h)"
  by (simp add: quiet_def)

lemma once_seen: "event_seen v rid g \<Longrightarrow> once v rid cid body g = (g, Inr (Handled True))"
  by (simp add: once_def)

lemma record_event_seen: "record_event v rid cid g = Inr g' \<Longrightarrow> event_seen v rid g'"
  by (auto dest!: record_eventD simp: event_seen_def)

lemma once_records: "once v rid cid body g = (g', Inr a) \<Longrightarrow> event_seen v rid g'"
  by (auto simp: once_def in_tx_ok split: if_splits elim!: ebind_InrE dest: record_event_seen)

lemma persist_keeps_events:
  "persistExperienceRefund k rid rf now (\<lambda>h. h) g = (g', r) \<Longrightarrow> xd_events g' = xd_events g"
  by (auto simp: persistExperienceRefund_def write_refund_def Let_def split: sum.splits option.splits
      dest!: updateCheckoutsD)

lemma refund_late_records:
  "refund_late sp e v intent c g = (g', Inr a) \<Longrightarrow> quiet e \<Longrightarrow> event_seen v (xc_restaurantId c) g'"
  by (auto simp: refund_late_def split: if_splits sum.splits dest: once_records)

lemma confirm_payment_records:
  assumes "confirm_payment rt sp e be v rp c g = (g', Inr a)" "quiet e"
  shows "event_seen v (xc_restaurantId c) g'"
proof -
  obtain g1 y where o: "once v (xc_restaurantId c) (xc_id c)
      (confirm_body rt be (ev_occurredAt v) rp (xc_id c) (xc_restaurantId c)) g = (g1, y)" by (metis surj_pair)
  show ?thesis
  proof (cases "y = Inr RefundRequired")
    case True
    then have seen: "event_seen v (xc_restaurantId c) g1" using once_records o by blast
    obtain rf z where "persistExperienceRefund (xc_id c) (xc_restaurantId c) rf (xv_now e) (\<lambda>h. h) g1 = (g', z)"
      using assms o True by (auto simp: confirm_payment_def split: if_splits sum.splits prod.splits)
    from persist_keeps_events [OF this] seen show ?thesis by (simp add: event_seen_def)
  next
    case False
    then have "(g', Inr a) = (g1, y)"
      using assms o by (auto simp: confirm_payment_def split: if_splits sum.splits prod.splits handled.splits)
    with o show ?thesis by (auto dest: once_records)
  qed
qed

text \<open>Every answer but \<open>NotHandled\<close> comes with the record of the event.\<close>

lemma handled_records:
  assumes "handleExperienceCheckoutStripeEvent rt sp e be v rp g = (g', Inr a)" "a \<noteq> NotHandled" "quiet e"
  shows "event_seen v (the (rp_restaurantId rp)) g'"
  using assms unfolding handleExperienceCheckoutStripeEvent_def Let_def
  by (auto split: option.splits if_splits prod.splits dest!: checkout_contextD
      dest: once_records refund_late_records confirm_payment_records)

lemma confirm_payment_seen:
  assumes "event_seen v (xc_restaurantId c) g" "quiet e"
  shows "confirm_payment rt sp e be v rp c g = (g, Inr (Handled True))"
  using assms by (simp add: confirm_payment_def once_seen)

lemma refund_late_seen:
  assumes "event_seen v (xc_restaurantId c) g" "quiet e"
  shows "refund_late sp e v intent c g = (g, Inr (Handled True)) \<or> (\<exists>err. refund_late sp e v intent c g = (g, Inl err))"
  using assms by (auto simp: refund_late_def once_seen split: sum.splits)

lemma handled_seen:
  assumes seen: "event_seen v (the (rp_restaurantId rp)) g" and e: "quiet e"
  shows "\<exists>r. handleExperienceCheckoutStripeEvent rt sp e be v rp g = (g, r) \<and>
    (r = Inr NotHandled \<or> r = Inr (Handled True) \<or> (\<exists>err. r = Inl err))"
proof (cases "rp_type rp = Some ''experience_checkout'' \<and> truthy (rp_restaurantId rp) \<and> truthy (rp_checkoutId rp)")
  case False
  then show ?thesis by (auto simp: handleExperienceCheckoutStripeEvent_def Let_def)
next
  case True
  show ?thesis
  proof (cases "checkout_context (the (rp_checkoutId rp)) (the (rp_restaurantId rp)) g")
    case None
    with True show ?thesis by (simp add: handleExperienceCheckoutStripeEvent_def Let_def)
  next
    case (Some y)
    obtain c s x where y: "y = (c, s, x)" by (metis surj_pair)
    have "xc_restaurantId c = the (rp_restaurantId rp)" using checkout_contextD [OF Some [unfolded y]] by simp
    then have c: "event_seen v (xc_restaurantId c) g" using seen by simp
    from True Some y show ?thesis
      using confirm_payment_seen [OF c e, of rt sp be rp] refund_late_seen [OF c e, of sp "intent_id (rp_payment_intent rp)"]
        once_seen [OF c] e
      by (auto simp: handleExperienceCheckoutStripeEvent_def Let_def)
  qed
qed

text \<open>
  A report of the provider is applied at most once. When a report about a checkout has been handled it
  is recorded, and as long as it stays recorded a later delivery of the same event, whatever the
  database has become, writes nothing: it is answered as a replay or refused.
\<close>

lemma experience_event_applied_once:
  assumes "handleExperienceCheckoutStripeEvent rt sp e be v rp g = (g', Inr a)" "a \<noteq> NotHandled" "quiet e"
    and "set (xd_events g') \<subseteq> set (xd_events h)" "quiet e'"
  shows "\<exists>r. handleExperienceCheckoutStripeEvent rt sp' e' be' v rp h = (h, r) \<and>
    (r = Inr (Handled True) \<or> (\<exists>err. r = Inl err) \<or> r = Inr NotHandled)"
proof -
  have "event_seen v (the (rp_restaurantId rp)) h"
    using handled_records [OF assms(1-3)] assms(4) by (auto simp: event_seen_def list_ex_iff)
  from handled_seen [OF this assms(5)] show ?thesis by blast
qed

section \<open>A payment is never turned into a reservation\<close>

text \<open>
  The key of the reservation is \<open>stripe-experience:\<close> and the identifier of the checkout, 54 characters for
  a UUID; the constraint \<open>experience_reservations_idempotency_key_check\<close> asks for 64.
\<close>

lemma short_key_refused:
  assumes "length (xc_id c) \<noteq> 46"
  shows "take_seats rt be rp c g = Inl (ExperienceDbError OTHER_DB_ERROR)"
proof -
  have "\<not> booking_checks (paid_booking rt be rp c k)" for k
    using assms by (simp add: booking_checks_def paid_booking_def)
  then show ?thesis by (simp add: take_seats_def insertBooking_def split: option.splits prod.splits)
qed

lemma confirm_body_not_booked:
  assumes "length k \<noteq> 46"
  shows "confirm_body rt be t rp k rid g \<noteq> Inr (g', HandledBooked b)"
  using short_key_refused [of _ rt be rp g] assms
  by (auto simp: confirm_body_def decline_def split: option.splits if_splits elim!: ebind_InrE dest!: checkout_contextD)

lemma once_not_booked:
  assumes "\<And>h h' b. body h \<noteq> Inr (h', HandledBooked b)"
  shows "once v rid cid body g \<noteq> (g', Inr (HandledBooked b))"
  using assms by (auto simp: once_def in_tx_ok split: if_splits elim!: ebind_InrE)

lemma confirm_payment_not_booked:
  assumes "length (xc_id c) \<noteq> 46"
  shows "confirm_payment rt sp e be v rp c g \<noteq> (g', Inr (HandledBooked b))"
  using once_not_booked [where body = "confirm_body rt be (ev_occurredAt v) rp (xc_id c) (xc_restaurantId c)",
      OF confirm_body_not_booked [OF assms]]
  by (auto simp: confirm_payment_def split: prod.splits sum.splits handled.splits if_splits)

lemma refund_late_not_booked: "refund_late sp e v intent c g \<noteq> (g', Inr (HandledBooked b))"
  by (auto simp: refund_late_def split: sum.splits if_splits dest!: once_not_booked [THEN notE, rotated]
      elim!: ebind_InrE)

lemma event_not_booked:
  assumes "rp_checkoutId rp = Some k" "length k \<noteq> 46"
  shows "handleExperienceCheckoutStripeEvent rt sp e be v rp g \<noteq> (g', Inr (HandledBooked b))"
proof
  assume "handleExperienceCheckoutStripeEvent rt sp e be v rp g = (g', Inr (HandledBooked b))"
  then show False
    using assms confirm_payment_not_booked refund_late_not_booked
    unfolding handleExperienceCheckoutStripeEvent_def Let_def
    by (auto split: option.splits if_splits prod.splits dest!: checkout_contextD once_not_booked [THEN notE, rotated]
        elim!: ebind_InrE)
qed

lemma timely_payment_fails:
  assumes ctx: "checkout_context k rid g = Some (c, s, x)" and k: "length k \<noteq> 46" "k \<noteq> []"
    and rp: "rp_checkoutId rp = Some k" "rp_restaurantId rp = Some rid" "rid \<noteq> []" "rp_type rp = Some ''experience_checkout''"
      "ev_accountId v = Some (xc_stripeAccountId c)" "xc_stripeCheckoutSessionId c = Some (rp_id rp)"
      "ev_type v = ''checkout.session.completed''" "payment_reported rp c" "\<not> too_late c s x (ev_occurredAt v)"
    and e: "quiet e" "\<not> event_seen v rid g"
    and free: "booked rid (xc_sessionId c) g + held_by_others c (be_now be) g + xc_quantity c \<le> effectiveCapacity s x"
  shows "handleExperienceCheckoutStripeEvent rt sp e be v rp g = (g, Inl (ExperienceDbError OTHER_DB_ERROR))"
proof -
  have c: "xc_id c = k" "xc_restaurantId c = rid" using checkout_contextD [OF ctx] by auto
  have open_c: "xc_status c = XC_OPEN" using rp(9) by (simp add: too_late_def)
  then have not_settled: "\<not> payment_settled c" by (simp add: payment_settled_def)
  have "confirm_body rt be (ev_occurredAt v) rp k rid g = Inl (ExperienceDbError OTHER_DB_ERROR)"
    using ctx rp(9) free short_key_refused [of c] k(1) c open_c by (simp add: confirm_body_def)
  then have "confirm_payment rt sp e be v rp c g = (g, Inl (ExperienceDbError OTHER_DB_ERROR))"
    using e by (simp add: confirm_payment_def once_def c)
  then show ?thesis using ctx rp k(2) not_settled by (simp add: handleExperienceCheckoutStripeEvent_def Let_def)
qed

text \<open>
  C29. A paid experience is never booked. Checkouts have UUIDs as identifiers, of 36 characters. Whatever the
  provider reports about such a checkout, however often, and whatever else happens, the handler never
  answers with a reservation. When the report is a payment made in time, for a checkout still open whose seats
  are free, the transaction fails on the constraint of the key and nothing is written: the money stays with
  the restaurant, with neither a reservation nor a refund.
\<close>

theorem paid_experience_is_never_booked:
  assumes "rp_checkoutId rp = Some k" "length k = 36"
  shows "snd (handleExperienceCheckoutStripeEvent rt sp e be v rp g) \<noteq> Inr (HandledBooked b) \<and>
    (checkout_context k rid g = Some (c, s, x) \<and> rp_restaurantId rp = Some rid \<and> rid \<noteq> [] \<and>
       rp_type rp = Some ''experience_checkout'' \<and> ev_accountId v = Some (xc_stripeAccountId c) \<and>
       xc_stripeCheckoutSessionId c = Some (rp_id rp) \<and> ev_type v = ''checkout.session.completed'' \<and>
       payment_reported rp c \<and> \<not> too_late c s x (ev_occurredAt v) \<and> quiet e \<and> \<not> event_seen v rid g \<and>
       booked rid (xc_sessionId c) g + held_by_others c (be_now be) g + xc_quantity c \<le> effectiveCapacity s x \<longrightarrow>
       handleExperienceCheckoutStripeEvent rt sp e be v rp g = (g, Inl (ExperienceDbError OTHER_DB_ERROR)))"
proof (intro conjI impI)
  show "snd (handleExperienceCheckoutStripeEvent rt sp e be v rp g) \<noteq> Inr (HandledBooked b)"
    using event_not_booked [OF assms(1), of rt sp e be v g _ b] assms(2) by (auto simp: prod_eq_iff)
  assume "checkout_context k rid g = Some (c, s, x) \<and> rp_restaurantId rp = Some rid \<and> rid \<noteq> [] \<and>
       rp_type rp = Some ''experience_checkout'' \<and> ev_accountId v = Some (xc_stripeAccountId c) \<and>
       xc_stripeCheckoutSessionId c = Some (rp_id rp) \<and> ev_type v = ''checkout.session.completed'' \<and>
       payment_reported rp c \<and> \<not> too_late c s x (ev_occurredAt v) \<and> quiet e \<and> \<not> event_seen v rid g \<and>
       booked rid (xc_sessionId c) g + held_by_others c (be_now be) g + xc_quantity c \<le> effectiveCapacity s x"
  then show "handleExperienceCheckoutStripeEvent rt sp e be v rp g = (g, Inl (ExperienceDbError OTHER_DB_ERROR))"
    using assms by (intro timely_payment_fails [where k = k and c = c and s = s and x = x and rid = rid]) auto
qed

text \<open>The checkout of the concrete session is paid at once, and the report fails.\<close>

definition paid_report :: reported_session where
  "paid_report = \<lparr>rp_id = ''cs1'', rp_type = Some ''experience_checkout'', rp_restaurantId = Some ''r'',
     rp_checkoutId = Some ''11111111-1111-1111-1111-111111111111'', rp_payment_intent = IntentId ''pi1'',
     rp_payment_status = ''paid'', rp_amount_total = Some 4000, rp_currency = Some ''eur'', rp_phone = None,
     rp_email = Some ''ada@example.org'', rp_name = Some ''Ada'', rp_guest_name = None\<rparr>"

definition paid_event :: stripe_event where
  "paid_event = \<lparr>ev_id = ''evt1'', ev_type = ''checkout.session.completed'', ev_occurredAt = 3000, ev_payloadHash = ''p'',
     ev_accountId = Some ''acct''\<rparr>"

definition booking_env1 :: booking_env where
  "booking_env1 = \<lparr>be_id = ''b2'', be_customerId = ''k1'', be_now = 3000\<rparr>"

lemma quiet_env_quiet [simp]: "quiet (quiet_env now k)"
  by (simp add: quiet_def quiet_env_def)

theorem paid_experience_is_never_booked_witness:
  "handleExperienceCheckoutStripeEvent padded_runtime good_stripe (quiet_env 3000 []) booking_env1 paid_event paid_report
     after_hold = (after_hold, Inl (ExperienceDbError OTHER_DB_ERROR))"
proof -
  have "case checkout_context ''11111111-1111-1111-1111-111111111111'' ''r'' after_hold of
      Some (c, s, x) \<Rightarrow> ev_accountId paid_event = Some (xc_stripeAccountId c) \<and>
        xc_stripeCheckoutSessionId c = Some (rp_id paid_report) \<and> payment_reported paid_report c \<and>
        \<not> too_late c s x (ev_occurredAt paid_event) \<and> \<not> event_seen paid_event ''r'' after_hold \<and>
        booked ''r'' (xc_sessionId c) after_hold + held_by_others c (be_now booking_env1) after_hold + xc_quantity c
          \<le> effectiveCapacity s x
    | None \<Rightarrow> False"
    by code_simp
  then obtain c s x where ctx: "checkout_context ''11111111-1111-1111-1111-111111111111'' ''r'' after_hold = Some (c, s, x)"
    and "ev_accountId paid_event = Some (xc_stripeAccountId c) \<and>
        xc_stripeCheckoutSessionId c = Some (rp_id paid_report) \<and> payment_reported paid_report c \<and>
        \<not> too_late c s x (ev_occurredAt paid_event) \<and> \<not> event_seen paid_event ''r'' after_hold \<and>
        booked ''r'' (xc_sessionId c) after_hold + held_by_others c (be_now booking_env1) after_hold + xc_quantity c
          \<le> effectiveCapacity s x"
    by (auto split: option.splits)
  moreover have "rp_restaurantId paid_report = Some ''r''" "rp_type paid_report = Some ''experience_checkout''"
    "ev_type paid_event = ''checkout.session.completed''"
    "rp_checkoutId paid_report = Some ''11111111-1111-1111-1111-111111111111''"
    by (simp_all add: paid_report_def paid_event_def)
  ultimately show ?thesis
    using paid_experience_is_never_booked [where k = "''11111111-1111-1111-1111-111111111111''" and rp = paid_report
        and rid = "''r''" and c = c and s = s and x = x and e = "quiet_env 3000 []" and v = paid_event and be = booking_env1
        and g = after_hold and rt = padded_runtime and sp = good_stripe] by auto
qed

text \<open>A late payment is refunded once; the second delivery of its report changes nothing.\<close>

definition late_event :: stripe_event where
  "late_event = paid_event\<lparr>ev_occurredAt := 9000000\<rparr>"

definition after_late :: xdb where
  "after_late = fst (handleExperienceCheckoutStripeEvent padded_runtime good_stripe (quiet_env 9000000 []) booking_env1
     late_event paid_report after_hold)"

lemma experience_event_applied_once_witness:
  "map xc_status (xd_checkouts after_late) = [XC_REFUNDED] \<and>
   fst (handleExperienceCheckoutStripeEvent padded_runtime good_stripe (quiet_env 9000001 []) booking_env1 late_event
     paid_report after_late) = after_late"
proof -
  let ?r = "handleExperienceCheckoutStripeEvent padded_runtime good_stripe (quiet_env 9000000 []) booking_env1
     late_event paid_report after_hold"
  have obs: "map xc_status (xd_checkouts after_late) = [XC_REFUNDED] \<and> snd ?r = Inr HandledRefunded"
    by code_simp
  then have run: "?r = (after_late, Inr HandledRefunded)" by (simp add: after_late_def prod_eq_iff)
  from experience_event_applied_once [OF run, of after_late "quiet_env 9000001 []" good_stripe booking_env1] obs
  show ?thesis by auto
qed

text \<open>
  When the call for a refund fails after the transaction has recorded the event, the next delivery does refund the
  payment, but finds the event recorded and stores nothing: the checkout stays \<open>REFUND_PENDING\<close> without
  the identifier of its refund.
\<close>

definition no_refund_stripe :: stripe where
  "no_refund_stripe = good_stripe\<lparr>sp_createRefund := (\<lambda>_. Inl ''down'')\<rparr>"

definition close_session :: "nat \<Rightarrow> xdb \<Rightarrow> xdb" where
  "close_session k h = (if k = 1 then h\<lparr>xd_sessions := map (\<lambda>s. s\<lparr>xs_status := XS_CLOSED\<rparr>) (xd_sessions h)\<rparr> else h)"

lemma refund_of_failed_attempt_is_not_stored:
  "let first = handleExperienceCheckoutStripeEvent padded_runtime no_refund_stripe
       ((quiet_env 3000 [])\<lparr>xv_race := close_session\<rparr>) booking_env1 paid_event paid_report after_hold;
     second = handleExperienceCheckoutStripeEvent padded_runtime good_stripe (quiet_env 4000 []) booking_env1 paid_event
       paid_report (fst first)
   in snd first = Inl (StripeError ''down'') \<and> snd second = Inr (Handled True) \<and>
      map xc_status (xd_checkouts (fst second)) = [XC_REFUND_PENDING] \<and>
      map xc_stripeRefundId (xd_checkouts (fst second)) = [None]"
  by code_simp

section \<open>What the public list promises\<close>

text \<open>The seats used, counted by session, are those the transactions count by session and restaurant.\<close>

lemma session_used_eq:
  assumes l: "linked g" and s: "s \<in> set (xd_sessions g)" "xs_restaurantId s = rid"
  shows "session_used (xs_id s) now g = booked rid (xs_id s) g + held rid (xs_id s) now g"
proof -
  have "xb_restaurantId b = rid" if "b \<in> set (xd_bookings g)" "xb_sessionId b = xs_id s" for b
    using l s that by (auto simp: linked_def distinct_map inj_on_def) metis
  moreover have "xc_restaurantId c = rid" if "c \<in> set (xd_checkouts g)" "xc_sessionId c = xs_id s" for c
    using linked_session [OF l that(1) s(1)] that(2) s(2) by simp
  ultimately have "filter (\<lambda>b. xb_sessionId b = xs_id s \<and> xb_status b = XB_CONFIRMED) (xd_bookings g) =
      filter (taken_seat rid (xs_id s)) (xd_bookings g)"
    "filter (\<lambda>c. xc_sessionId c = xs_id s \<and> xc_status c = XC_OPEN \<and> now < xc_expiresAt c) (xd_checkouts g) =
      filter (held_seat rid (xs_id s) now) (xd_checkouts g)"
    by (auto intro!: filter_cong simp: taken_seat_def held_seat_def)
  then show ?thesis by (simp add: session_used_def booked_def held_def)
qed

lemma find_unique:
  "distinct (map key rows) \<Longrightarrow> r \<in> set rows \<Longrightarrow> P r \<Longrightarrow> (\<And>x. P x \<Longrightarrow> key x = key r) \<Longrightarrow> find P rows = Some r"
proof (induction rows)
  case (Cons y rows)
  show ?case
  proof (cases "P y")
    case True
    then have "key y = key r" using Cons.prems(4) by blast
    then have "y = r" using Cons.prems(1,2) by (auto simp: image_iff)
    with True show ?thesis by simp
  next
    case False
    then have "y \<noteq> r" using Cons.prems(3) by blast
    then have "r \<in> set rows" using Cons.prems(2) by simp
    with Cons.IH [OF _ this Cons.prems(3,4)] Cons.prems(1) False show ?thesis by simp
  qed
qed simp

lemma fee_bounds:
  assumes "0 \<le> rate" "rate \<le> 1" "0 \<le> (price :: int)"
  shows "0 \<le> \<lfloor>of_int price * rate + 1 / 2 :: rat\<rfloor> \<and> \<lfloor>of_int price * rate + 1 / 2 :: rat\<rfloor> \<le> price"
proof -
  have "of_int price * rate \<le> of_int price" using assms by (simp add: mult_left_le)
  moreover have "0 \<le> of_int price * rate" using assms by simp
  ultimately show ?thesis by (simp add: floor_le_iff le_floor_iff)
qed

text \<open>The row a checkout inserts passes the constraints.\<close>

lemma new_checkout_checks:
  assumes "experience_checks x" "1 \<le> ci_quantity i" "ci_quantity i \<le> 1000" "0 \<le> rate" "rate \<le> 1"
  shows "checkout_checks (new_checkout e i rid account rate key x)"
proof -
  have "0 \<le> xp_priceCents x * ci_quantity i" using assms by (simp add: experience_checks_def)
  from fee_bounds [OF assms(4,5) this] show ?thesis
    using assms by (simp add: checkout_checks_def new_checkout_def Let_def experience_checks_def)
qed

lemma listed_session:
  assumes "listPublicExperiences rt slug now g = Inr xs" "(x, vs) \<in> set xs" "v \<in> set vs" "publicRestaurant slug g = Some r"
  shows "x \<in> set (xd_experiences g) \<and> xp_status x = X_ACTIVE \<and> xp_restaurantId x = xr_id r \<and>
    (\<exists>s \<in> set (xd_sessions g). upcoming now x s \<and> v = public_session_of now g x s)"
  using assms by (auto simp: listPublicExperiences_def dest!: in_set_takeD) blast

text \<open>
  The public list shows exactly what can be bought. For every session it lists, at the same instant, a checkout
  for \<open>n\<close> seats (with a new key) is accepted when \<open>n\<close> is at most the number of seats shown as
  remaining, and is refused for lack of capacity when it is more.
\<close>

lemma listed_seats_are_exactly_those_held:
  assumes listed: "listPublicExperiences rt (ci_slug i) now g = Inr xs" "(x, vs) \<in> set xs" "v \<in> set vs"
      "publicRestaurant (ci_slug i) g = Some r"
    and ok: "seats_ok C T g" "table_ok xp_id experience_conflict (xd_experiences g)" "\<forall>x \<in> set (xd_experiences g). experience_checks x"
      "\<forall>s \<in> set (xd_sessions g). \<forall>x \<in> set (xd_experiences g). xs_experienceId s = xp_id x \<longrightarrow> xs_restaurantId s = xp_restaurantId x"
    and ask: "ci_experienceId i = xp_id x" "ci_sessionId i = pv_id v" "xv_now e = now" "1 \<le> ci_quantity i" "ci_quantity i \<le> 1000"
      "0 \<le> rate" "rate \<le> 1" "\<forall>c \<in> set (xd_checkouts g). xc_id c \<noteq> xv_id e \<and> xc_idempotencyKey c \<noteq> key"
  shows "if ci_quantity i \<le> pv_remaining v
    then \<exists>g' c s. checkout_tx e i (xr_id r) account rate key g = Inr (g', c, s, x) \<and> xc_quantity c = ci_quantity i \<and>
           xc_sessionId c = pv_id v \<and> xd_checkouts g' = xd_checkouts g @ [c]
    else checkout_tx e i (xr_id r) account rate key g = Inl (ExperienceCheckoutError CO_CAPACITY_EXCEEDED 409)"
proof -
  obtain s where x: "x \<in> set (xd_experiences g)" "xp_status x = X_ACTIVE" "xp_restaurantId x = xr_id r"
    and s: "s \<in> set (xd_sessions g)" "upcoming now x s" "v = public_session_of now g x s"
    using listed_session [OF listed] by blast
  have l: "linked g" using ok(1) by (simp add: seats_ok_def)
  have rid: "xs_restaurantId s = xr_id r" using ok(4) s x by (auto simp: upcoming_def)
  have "find (\<lambda>s. xs_id s = pv_id v \<and> xs_restaurantId s = xr_id r \<and> xs_experienceId s = xp_id x) (xd_sessions g) = Some s"
    by (rule find_unique [where key = xs_id]) (use l s rid in \<open>auto simp: linked_def upcoming_def public_session_of_def\<close>)
  moreover have "find (\<lambda>y. xp_id y = xp_id x) (xd_experiences g) = Some x" by (rule table_ok_find [OF ok(2) x(1)])
  ultimately have f: "find_session (xr_id r) (xp_id x) (pv_id v) g = Some (s, x)"
    using s(2) by (simp add: find_session_def upcoming_def)
  have used: "booked (xr_id r) (xs_id s) g + held (xr_id r) (xs_id s) now g = session_used (xs_id s) now g"
    using session_used_eq [OF l s(1) rid] by simp
  have free: "ci_quantity i \<le> pv_remaining v \<longleftrightarrow> session_used (xs_id s) now g + ci_quantity i \<le> effectiveCapacity s x"
    using ask(4) by (auto simp: s(3) public_session_of_def)
  have up: "xs_status s = XS_OPEN" "now < xs_startsAt s" using s(2) by (simp_all add: upcoming_def)
  let ?c = "new_checkout e i (xr_id r) account rate key x"
  have "checkout_checks ?c" using new_checkout_checks ok(3) x(1) ask by blast
  moreover have "\<not> checkout_conflict ?c d" if "d \<in> set (xd_checkouts g)" for d
    using that ask(8) by (auto simp: checkout_conflict_def new_checkout_def Let_def same_some_def)
  ultimately have ins: "insertCheckout ?c g = Inr (g\<lparr>xd_checkouts := xd_checkouts g @ [?c]\<rparr>)"
    by (simp add: insertCheckout_def)
  have row: "xc_quantity ?c = ci_quantity i" "xc_sessionId ?c = pv_id v" by (simp_all add: new_checkout_def Let_def ask)
  show ?thesis
    using f used free up x(2) ins row ask(1-3) by (simp add: checkout_tx_def Let_def guard_def)
qed

text \<open>After the booking of three seats the list shows one; one more can be held, two cannot.\<close>

lemma listed_seats_are_exactly_those_held_witness:
  "\<exists>g' c s x. checkout_tx (quiet_env 2000 ''c1'') hold_one ''r'' ''acct'' (1 / 10) ''key'' after_booking = Inr (g', c, s, x) \<and>
     xc_quantity c = 1"
proof -
  have obs: "case listPublicExperiences padded_runtime ''bistro'' 2000 after_booking of
      Inr xs \<Rightarrow> map (\<lambda>(x, vs). (xp_id x, map (\<lambda>v. (pv_id v, pv_remaining v)) vs)) xs = [(''x'', [(''s'', 1)])]
    | Inl _ \<Rightarrow> False"
    "case publicRestaurant ''bistro'' after_booking of Some r \<Rightarrow> xr_id r = ''r'' | None \<Rightarrow> False"
    "list_all experience_checks (xd_experiences after_booking) \<and> distinct (map xp_id (xd_experiences after_booking)) \<and>
     list_all (\<lambda>x. list_all (\<lambda>y. xp_id x = xp_id y) (xd_experiences after_booking)) (xd_experiences after_booking) \<and>
     list_all (\<lambda>s. list_all (\<lambda>x. xs_restaurantId s = xp_restaurantId x) (xd_experiences after_booking)) (xd_sessions after_booking) \<and>
     xd_checkouts after_booking = []"
    by code_simp+
  have slug: "ci_slug hold_one = ''bistro''" by (simp add: hold_one_def)
  obtain ys where ys: "listPublicExperiences padded_runtime ''bistro'' 2000 after_booking = Inr ys"
    "map (\<lambda>(x, vs). (xp_id x, map (\<lambda>v. (pv_id v, pv_remaining v)) vs)) ys = [(''x'', [(''s'', 1)])]"
    using obs(1) by (auto split: sum.splits)
  then obtain x v where v: "ys = [(x, [v])]" "pv_remaining v = 1" "pv_id v = ''s''" "xp_id x = ''x''"
    by (auto simp: map_eq_Cons_conv)
  have xs: "listPublicExperiences padded_runtime (ci_slug hold_one) 2000 after_booking = Inr [(x, [v])]"
    using ys(1) by (simp add: slug v(1))
  obtain r where r: "publicRestaurant (ci_slug hold_one) after_booking = Some r" "xr_id r = ''r''"
    unfolding slug using obs(2) by (auto split: option.splits)
  have tbl: "table_ok xp_id experience_conflict (xd_experiences after_booking)"
    unfolding table_ok_def using obs(3) unfolding list_all_iff by blast
  have checks: "\<forall>x \<in> set (xd_experiences after_booking). experience_checks x"
    and tenant: "\<forall>s \<in> set (xd_sessions after_booking). \<forall>x \<in> set (xd_experiences after_booking).
      xs_experienceId s = xp_id x \<longrightarrow> xs_restaurantId s = xp_restaurantId x"
    using obs(3) unfolding list_all_iff by blast+
  have ask: "ci_experienceId hold_one = xp_id x" "ci_sessionId hold_one = pv_id v" "xv_now (quiet_env 2000 ''c1'') = 2000"
    "1 \<le> ci_quantity hold_one" "ci_quantity hold_one \<le> 1000" "0 \<le> (1 / 10 :: rat)" "(1 / 10 :: rat) \<le> 1"
    "\<forall>c \<in> set (xd_checkouts after_booking). xc_id c \<noteq> xv_id (quiet_env 2000 ''c1'') \<and> xc_idempotencyKey c \<noteq> ''key''"
    using v obs(3) by (simp_all add: hold_one_def)
  have one: "ci_quantity hold_one = 1" by (simp add: hold_one_def)
  from listed_seats_are_exactly_those_held [OF xs _ _ r(1) booking_ok tbl checks tenant ask, of "[v]" "''acct''"]
  show ?thesis using v(2) one r(2) by auto
qed

end
