(* ===== verification/Json_Text.thy ===== *)
theory Json_Text
  imports Idempotency
begin

text \<open>
  \<open>JSON.parse\<close> and the text that \<open>JSON.stringify\<close> gives for a flat object. The parser follows the
  grammar of ECMA-404 on Latin-1 text; a \<open>\u\<close> escape of another character is outside the alphabet of the
  model and is refused. Numbers are exact. The Lua scripts of the program search such texts for a field; here it
  is shown that the search finds the field and nothing else.
\<close>

section \<open>Values\<close>

datatype jval =
  VNull | VBool bool | VNum rat | VStr string | VArr "jval list" | VObj "(string \<times> jval) list"

text \<open>\<open>value.k\<close>: of two members with one name the later counts; \<open>None\<close> is \<open>undefined\<close>.\<close>

fun jmember :: "jval \<Rightarrow> string \<Rightarrow> jval option" where
  "jmember (VObj fs) k = map_of (rev fs) k"
| "jmember v k = None"

fun text_of :: "jval option \<Rightarrow> string option" where
  "text_of (Some (VStr s)) = Some s"
| "text_of v = None"

section \<open>\<open>JSON.parse\<close>\<close>

abbreviation QUOTE :: char where "QUOTE \<equiv> CHR 0x22"
abbreviation BACKSLASH :: char where "BACKSLASH \<equiv> CHR 0x5C"

definition json_space :: "char \<Rightarrow> bool" where
  "json_space c \<longleftrightarrow> c \<in> {CHR 0x20, CHR 0x09, CHR 0x0A, CHR 0x0D}"

abbreviation skip_space :: "string \<Rightarrow> string" where
  "skip_space s \<equiv> dropWhile json_space s"

definition is_digit :: "char \<Rightarrow> bool" where
  "is_digit c \<longleftrightarrow> 48 \<le> (of_char c :: nat) \<and> of_char c \<le> (57 :: nat)"

definition hex_value :: "char \<Rightarrow> nat option" where
  "hex_value c =
    (let n = of_char c in
     if 48 \<le> n \<and> n \<le> 57 then Some (n - 48)
     else if 65 \<le> n \<and> n \<le> 70 then Some (n - 55)
     else if 97 \<le> n \<and> n \<le> 102 then Some (n - 87) else None)"

text \<open>The four digits after \<open>\u\<close>.\<close>

definition unicode_escape :: "char \<Rightarrow> char \<Rightarrow> char \<Rightarrow> char \<Rightarrow> char option" where
  "unicode_escape a b x y =
    (case (hex_value a, hex_value b, hex_value x, hex_value y) of
       (Some 0, Some 0, Some m, Some n) \<Rightarrow> Some (char_of (16 * m + n)) | _ \<Rightarrow> None)"

definition simple_escape :: "char \<Rightarrow> char option" where
  "simple_escape c =
    (if c \<in> {QUOTE, BACKSLASH, CHR ''/''} then Some c
     else if c = CHR ''b'' then Some (CHR 0x08)
     else if c = CHR ''f'' then Some (CHR 0x0C)
     else if c = CHR ''n'' then Some (CHR 0x0A)
     else if c = CHR ''r'' then Some (CHR 0x0D)
     else if c = CHR ''t'' then Some (CHR 0x09) else None)"

definition cons_to :: "'c \<Rightarrow> ('c list \<times> 's) option \<Rightarrow> ('c list \<times> 's) option" where
  "cons_to c r = map_option (\<lambda>(s, rest). (c # s, rest)) r"

text \<open>The inside of a string, up to its closing quote.\<close>

fun read_string :: "string \<Rightarrow> (string \<times> string) option" where
  "read_string [] = None"
| "read_string (c # cs) =
    (if c = QUOTE then Some ([], cs)
     else if c = BACKSLASH then
       (case cs of
          [] \<Rightarrow> None
        | e # ds \<Rightarrow>
            if e = CHR ''u'' then
              (case ds of
                 a # b # x # y # rest \<Rightarrow>
                   (case unicode_escape a b x y of None \<Rightarrow> None | Some ch \<Rightarrow> cons_to ch (read_string rest))
               | _ \<Rightarrow> None)
            else (case simple_escape e of None \<Rightarrow> None | Some ch \<Rightarrow> cons_to ch (read_string ds)))
     else if (of_char c :: nat) < 32 then None
     else cons_to c (read_string cs))"

definition digits_value :: "string \<Rightarrow> int" where
  "digits_value ds = foldl (\<lambda>n c. 10 * n + (of_char c - 48)) 0 ds"

definition read_fraction :: "string \<Rightarrow> (rat \<times> string) option" where
  "read_fraction s =
    (case s of
       CHR ''.'' # cs \<Rightarrow>
         (let ds = takeWhile is_digit cs in
          if ds = [] then None
          else Some (of_int (digits_value ds) / 10 ^ length ds, dropWhile is_digit cs))
     | _ \<Rightarrow> Some (0, s))"

definition read_exponent :: "string \<Rightarrow> (rat \<times> string) option" where
  "read_exponent s =
    (case s of
       c # cs \<Rightarrow>
         if c \<in> {CHR ''e'', CHR ''E''} then
           (let down = (take 1 cs = ''-'');
                rest = (if take 1 cs \<in> {''-'', ''+''} then drop 1 cs else cs);
                ds = takeWhile is_digit rest;
                p = 10 ^ nat (digits_value ds)
            in if ds = [] then None else Some (if down then 1 / p else p, dropWhile is_digit rest))
         else Some (1, s)
     | [] \<Rightarrow> Some (1, s))"

definition read_number :: "string \<Rightarrow> (rat \<times> string) option" where
  "read_number s =
    (let sign = (if take 1 s = ''-'' then -1 else 1);
         rest = (if take 1 s = ''-'' then drop 1 s else s);
         ds = takeWhile is_digit rest
     in if ds = [] \<or> (take 1 ds = ''0'' \<and> 1 < length ds) then None
        else case read_fraction (dropWhile is_digit rest) of
          None \<Rightarrow> None
        | Some (f, r1) \<Rightarrow>
            (case read_exponent r1 of
               None \<Rightarrow> None
             | Some (e, r2) \<Rightarrow> Some (sign * (of_int (digits_value ds) + f) * e, r2)))"

definition read_word :: "string \<Rightarrow> jval \<Rightarrow> string \<Rightarrow> (jval \<times> string) option" where
  "read_word w v s = (if take (length w) s = w then Some (v, drop (length w) s) else None)"

text \<open>
  The fuel bounds the depth of the calls. Each of them has read a character more than its caller, so
  the length of the text is enough.
\<close>

fun read_value :: "nat \<Rightarrow> string \<Rightarrow> (jval \<times> string) option"
  and read_items :: "nat \<Rightarrow> string \<Rightarrow> (jval list \<times> string) option"
  and read_members :: "nat \<Rightarrow> string \<Rightarrow> ((string \<times> jval) list \<times> string) option"
  where
  "read_value 0 s = None"
| "read_value (Suc n) s =
    (case skip_space s of
       [] \<Rightarrow> None
     | c # cs \<Rightarrow>
         if c = QUOTE then map_option (map_prod VStr id) (read_string cs)
         else if c = CHR ''{'' then
           (if take 1 (skip_space cs) = ''}'' then Some (VObj [], drop 1 (skip_space cs))
            else map_option (map_prod VObj id) (read_members n cs))
         else if c = CHR ''['' then
           (if take 1 (skip_space cs) = '']'' then Some (VArr [], drop 1 (skip_space cs))
            else map_option (map_prod VArr id) (read_items n cs))
         else if c = CHR ''t'' then read_word ''true'' (VBool True) (c # cs)
         else if c = CHR ''f'' then read_word ''false'' (VBool False) (c # cs)
         else if c = CHR ''n'' then read_word ''null'' VNull (c # cs)
         else map_option (map_prod VNum id) (read_number (c # cs)))"
| "read_items 0 s = None"
| "read_items (Suc n) s =
    (case read_value n s of
       None \<Rightarrow> None
     | Some (v, r) \<Rightarrow>
         (case skip_space r of
            CHR '','' # r' \<Rightarrow> cons_to v (read_items n r')
          | CHR '']'' # r' \<Rightarrow> Some ([v], r')
          | _ \<Rightarrow> None))"
| "read_members 0 s = None"
| "read_members (Suc n) s =
    (case skip_space s of
       [] \<Rightarrow> None
     | c # cs \<Rightarrow>
         if c \<noteq> QUOTE then None
         else case read_string cs of
           None \<Rightarrow> None
         | Some (k, r) \<Rightarrow>
             if take 1 (skip_space r) \<noteq> '':'' then None
             else case read_value n (drop 1 (skip_space r)) of
               None \<Rightarrow> None
             | Some (v, r1) \<Rightarrow>
                 (case skip_space r1 of
                    CHR '','' # r2 \<Rightarrow> cons_to (k, v) (read_members n r2)
                  | CHR ''}'' # r2 \<Rightarrow> Some ([(k, v)], r2)
                  | _ \<Rightarrow> None))"

declare read_value.simps [simp del] read_items.simps [simp del] read_members.simps [simp del]

definition json_parse :: "string \<Rightarrow> jval option" where
  "json_parse s = (case read_value (Suc (Suc (length s))) s of
     Some (v, r) \<Rightarrow> if skip_space r = [] then Some v else None | None \<Rightarrow> None)"

section \<open>Flat objects as text\<close>

text \<open>\<open>JSON.stringify\<close> of an object whose values are rendered already, in the order of its members.\<close>

definition member_text :: "string \<times> string \<Rightarrow> string" where
  "member_text m = json_quote (fst m) @ '':'' @ snd m"

lemma member_text_pair: "member_text (k, v) = json_quote k @ '':'' @ v"
  by (simp add: member_text_def)

definition flat_object :: "(string \<times> string) list \<Rightarrow> string" where
  "flat_object ms = ''{'' @ join '','' (map member_text ms) @ ''}''"

lemma hex_value_digit: "n < 16 \<Longrightarrow> hex_value (hex_digit n) = Some n"
  by (auto simp: hex_value_def hex_digit_def Let_def)

lemma of_char_cong: "of_char c = (n :: nat) \<Longrightarrow> c = char_of n"
  by auto

lemma named_chars:
  "char_of (34 :: nat) = QUOTE" "char_of (92 :: nat) = BACKSLASH" "char_of (8 :: nat) = CHR 0x08"
  "char_of (9 :: nat) = CHR 0x09" "char_of (10 :: nat) = CHR 0x0A" "char_of (12 :: nat) = CHR 0x0C"
  "char_of (13 :: nat) = CHR 0x0D"
  by code_simp+

lemma read_escape: "read_string (json_escape c @ rest) = cons_to c (read_string rest)"
proof -
  consider "of_char c \<in> {34, 92, 8, 9, 10, 12, 13 :: nat}"
    | (unicode) "of_char c \<notin> {34, 92, 8, 9, 10, 12, 13 :: nat}" "(of_char c :: nat) < 32"
    | (plain) "of_char c \<noteq> (34 :: nat)" "of_char c \<noteq> (92 :: nat)" "\<not> (of_char c :: nat) < 32" by fastforce
  then show ?thesis
  proof cases
    case 1
    then show ?thesis by (auto dest!: of_char_cong simp: json_escape_def simple_escape_def named_chars)
  next
    case unicode
    then have "unicode_escape CHR ''0'' CHR ''0'' (hex_digit (of_char c div 16)) (hex_digit (of_char c mod 16)) = Some c"
      by (simp add: unicode_escape_def hex_value_digit) (simp add: hex_value_def)
    with unicode show ?thesis by (simp add: json_escape_def Let_def)
  next
    case plain
    then show ?thesis by (auto simp: json_escape_def)
  qed
qed

lemma read_escaped: "read_string (concat (map json_escape s) @ QUOTE # rest) = Some (s, rest)"
  by (induction s) (simp_all add: read_escape cons_to_def)

lemma read_quoted: "read_value (Suc n) (json_quote s @ rest) = Some (VStr s, rest)"
  by (simp add: read_value.simps json_quote_def read_escaped json_space_def)

text \<open>A rendered value that the parser reads back whole, whatever member or brace follows.\<close>

definition reads :: "string \<Rightarrow> jval \<Rightarrow> bool" where
  "reads v x \<longleftrightarrow>
    (\<forall>n c rest. c \<in> {CHR '','', CHR ''}''} \<longrightarrow> read_value (Suc n) (v @ c # rest) = Some (x, c # rest))"

lemma reads_quoted: "reads (json_quote s) (VStr s)"
  unfolding reads_def using read_quoted by blast

lemma reads_one: "reads ''1'' (VNum 1)"
  by (auto simp: reads_def read_value.simps json_space_def read_number_def is_digit_def read_fraction_def
      read_exponent_def digits_value_def Let_def)

lemma join_cons: "join sep (x # xs) = x @ (if xs = [] then [] else sep @ join sep xs)"
  by (cases xs) simp_all

lemma read_flat_members:
  assumes "list_all2 (\<lambda>m f. fst m = fst f \<and> reads (snd m) (snd f)) ms fs" "ms \<noteq> []" "length ms < n"
  shows "read_members n (join '','' (map member_text ms) @ ''}'' @ rest) = Some (fs, rest)"
  using assms
proof (induction ms fs arbitrary: n rule: list_all2_induct)
  case (Cons m ms f fs)
  obtain n' where n: "n = Suc (Suc n')" using Cons.prems by (cases n; cases "n - 1") auto
  obtain k v where m: "m = (k, v)" by force
  obtain k' x where f: "f = (k', x)" by force
  have keyed: "read_members n (json_quote k @ '':'' @ v @ c # r) =
      (case skip_space (c # r) of
         CHR '','' # r2 \<Rightarrow> cons_to (k, x) (read_members (Suc n') r2)
       | CHR ''}'' # r2 \<Rightarrow> Some ([(k, x)], r2) | _ \<Rightarrow> None)" if "c \<in> {CHR '','', CHR ''}''}" for c r
  proof -
    have "read_value (Suc n') (v @ c # r) = Some (x, c # r)"
      using Cons.hyps(1) m f that unfolding reads_def by (metis fst_conv snd_conv)
    then show ?thesis by (simp add: n read_members.simps json_quote_def read_escaped json_space_def)
  qed
  show ?case
  proof (cases "ms = []")
    case True
    then show ?thesis using keyed [of "CHR ''}''" rest] Cons.hyps m f
      by (simp add: member_text_def json_space_def)
  next
    case False
    have "read_members (Suc n') (join '','' (map member_text ms) @ ''}'' @ rest) = Some (fs, rest)"
      using Cons.IH [OF False, of "Suc n'"] Cons.prems n by simp
    then show ?thesis
      using keyed [of "CHR '',''" "join '','' (map member_text ms) @ ''}'' @ rest"] False Cons.hyps m f
      by (simp add: member_text_pair join_cons json_space_def cons_to_def)
  qed
qed simp

lemma parse_flat_object:
  assumes "list_all2 (\<lambda>m f. fst m = fst f \<and> reads (snd m) (snd f)) ms fs" "ms \<noteq> []"
  shows "json_parse (flat_object ms) = Some (VObj fs)"
proof -
  have len: "length ms \<le> length (join '','' (map member_text ms))" for ms
    by (induction ms) (auto simp: join_cons member_text_def json_quote_def)
  define body where "body = join '','' (map member_text ms) @ ''}''"
  have members: "read_members (Suc (Suc (length body))) body = Some (fs, [])"
    using read_flat_members [OF assms, of "Suc (Suc (length body))" "[]"] len [of ms] by (simp add: body_def)
  obtain t where "body = QUOTE # t"
    using assms(2) by (cases ms) (auto simp: body_def join_cons member_text_def json_quote_def)
  then have "read_value (Suc (Suc (Suc (length body)))) (''{'' @ body) = Some (VObj fs, [])"
    using members by (simp add: read_value.simps json_space_def)
  then show ?thesis
    by (simp add: json_parse_def flat_object_def flip: body_def)
qed

section \<open>Searching such a text\<close>

text \<open>
  A script that looks for \<open>"k":"u"\<close> in the text finds it exactly when the object has that member, as long
  as \<open>k\<close> is a word and \<open>u\<close> needs no escape. To see it, the text is cut at every quote.
\<close>

definition field_pattern :: "string \<Rightarrow> string \<Rightarrow> string" where
  "field_pattern k u = QUOTE # k @ [QUOTE, CHR '':'', QUOTE] @ u @ [QUOTE]"

definition letters :: "string \<Rightarrow> bool" where
  "letters s \<longleftrightarrow> s \<noteq> [] \<and> list_all (\<lambda>c. c \<notin> set [QUOTE, BACKSLASH, CHR '':'', CHR '','', CHR ''{'', CHR ''}'']) s"

definition unescaped :: "string \<Rightarrow> bool" where
  "unescaped s \<longleftrightarrow> s \<noteq> [] \<and> concat (map json_escape s) = s"

fun pieces :: "string \<Rightarrow> string list" where
  "pieces [] = [[]]"
| "pieces (c # cs) = (if c = QUOTE then [] # pieces cs else (c # hd (pieces cs)) # tl (pieces cs))"

lemma pieces_nonempty [simp]: "pieces s \<noteq> []"
  by (induction s) auto

lemma pieces_cut: "pieces (a @ QUOTE # b) = pieces a @ pieces b"
  by (induction a) auto

lemma pieces_colon: "pieces (CHR '':'' # QUOTE # b) = '':'' # pieces b"
  using pieces_cut [of "'':''" b] by simp

lemma pieces_whole: "QUOTE \<notin> set s \<Longrightarrow> pieces s = [s]"
  by (induction s) auto

fun has_field :: "string \<Rightarrow> string \<Rightarrow> string list \<Rightarrow> bool" where
  "has_field k u (a # b # c # ps) \<longleftrightarrow> (a = k \<and> b = '':'' \<and> c = u) \<or> has_field k u (b # c # ps)"
| "has_field k u ps \<longleftrightarrow> False"

lemma has_field_middle: "has_field k u (xs @ k # '':'' # u # ys)"
proof (induction xs)
  case (Cons x xs)
  then show ?case by (cases xs; cases "tl xs") auto
qed simp

lemma has_field_skip:
  "k \<notin> set bs \<Longrightarrow> y \<noteq> '':'' \<Longrightarrow> has_field k u (bs @ p # y # ps) \<longleftrightarrow> has_field k u (y # ps)"
proof (induction bs)
  case Nil
  then show ?case by (cases ps) auto
next
  case (Cons b bs)
  then show ?case by (cases bs; cases "tl bs") auto
qed

lemma contains_iff: "contains sub s \<longleftrightarrow> (\<exists>a b. s = a @ sub @ b)"
proof (induction s)
  case Nil
  show ?case by (subst contains.simps) auto
next
  case (Cons c cs)
  have "contains sub (c # cs) \<longleftrightarrow> (\<exists>b. c # cs = sub @ b) \<or> (\<exists>a b. cs = a @ sub @ b)"
    using Cons by (subst contains.simps) (metis append_take_drop_id append_eq_conv_conj list.simps(5))
  also have "\<dots> \<longleftrightarrow> (\<exists>a b. c # cs = a @ sub @ b)"
    by (metis append_Cons append_Nil list.exhaust list.inject)
  finally show ?case .
qed

lemma hex_digit_plain: "n < 16 \<Longrightarrow> QUOTE \<noteq> hex_digit n"
  using hex_value_digit [of n] by (auto simp: hex_value_def dest!: sym [of QUOTE])

lemma pieces_escape:
  "\<exists>bs p. pieces (concat (map json_escape s)) = bs @ [p] \<and> (\<forall>b \<in> set bs. b \<noteq> [] \<and> List.last b = BACKSLASH)"
  (is "?P s")
proof (induction s)
  case (Cons c s)
  then obtain bs p where IH: "pieces (concat (map json_escape s)) = bs @ [p]"
    "\<forall>b \<in> set bs. b \<noteq> [] \<and> List.last b = BACKSLASH" by blast
  show ?case
  proof (cases "c = QUOTE")
    case True
    then have "pieces (concat (map json_escape (c # s))) = ([BACKSLASH] # bs) @ [p]"
      using IH by (simp add: json_escape_def)
    then show ?thesis using IH(2) by (metis list.set_cases set_ConsD List.last.simps list.discI)
  next
    case False
    have one: "\<exists>bs p. pieces (x # t) = bs @ [p] \<and> (\<forall>b \<in> set bs. b \<noteq> [] \<and> List.last b = BACKSLASH)"
      if "x \<noteq> QUOTE" "pieces t = cs @ [q]" "\<forall>b \<in> set cs. b \<noteq> [] \<and> List.last b = BACKSLASH" for x t cs q
    proof (cases cs)
      case Nil
      then show ?thesis using that by auto
    next
      case (Cons d ds)
      then have "pieces (x # t) = ((x # d) # ds) @ [q]" using that by simp
      then show ?thesis using that(3) Cons by (metis list.discI set_ConsD List.last_ConsR list.set_intros)
    qed
    have many: "\<exists>bs p. pieces (e @ t) = bs @ [p] \<and> (\<forall>b \<in> set bs. b \<noteq> [] \<and> List.last b = BACKSLASH)"
      if "QUOTE \<notin> set e" "pieces t = cs @ [q]" "\<forall>b \<in> set cs. b \<noteq> [] \<and> List.last b = BACKSLASH" for e t cs q
      using that
    proof (induction e)
      case (Cons x e)
      then show ?case using one [of x "e @ t"] by fastforce
    qed auto
    have "QUOTE \<notin> set (json_escape c)"
      using False hex_digit_plain by (auto simp: json_escape_def Let_def named_chars split: if_splits dest!: of_char_cong)
    then show ?thesis using many [OF _ IH] by simp
  qed
qed simp

text \<open>The pieces of the members that follow a text \<open>x\<close> without quotes.\<close>

definition members_after :: "string \<Rightarrow> (string \<times> string) list \<Rightarrow> string list" where
  "members_after x ms = pieces (x @ join '','' (map member_text ms) @ ''}'')"

definition simple_member :: "string \<times> string \<Rightarrow> bool" where
  "simple_member m \<longleftrightarrow> letters (fst m) \<and> concat (map json_escape (fst m)) = fst m \<and>
     ((\<exists>v. snd m = json_quote v) \<or> snd m = ''1'')"

definition separator :: "(string \<times> string) list \<Rightarrow> string" where
  "separator ms = (if ms = [] then [] else '','')"

lemma letters_no_quote: "letters k \<Longrightarrow> QUOTE \<notin> set k" "letters k \<Longrightarrow> BACKSLASH \<notin> set k"
  by (auto simp: letters_def list_all_iff)

lemma members_after_quoted:
  assumes "letters key" "concat (map json_escape key) = key" "QUOTE \<notin> set x"
  shows "members_after x ((key, json_quote v) # ms) =
    x # key # '':'' # pieces (concat (map json_escape v)) @ members_after (separator ms) ms"
proof -
  have "x @ join '','' (map member_text ((key, json_quote v) # ms)) @ ''}'' =
    x @ QUOTE # key @ QUOTE # '':'' @ QUOTE # concat (map json_escape v) @ QUOTE #
      (separator ms @ join '','' (map member_text ms) @ ''}'')"
    using assms(2) by (simp add: join_cons member_text_pair json_quote_def separator_def)
  then show ?thesis
    using assms(3) letters_no_quote(1) [OF assms(1)]
    by (simp add: members_after_def pieces_cut pieces_colon pieces_whole del: pieces.simps)
qed

lemma members_after_one:
  assumes "letters key" "concat (map json_escape key) = key" "QUOTE \<notin> set x"
  shows "members_after x ((key, ''1'') # ms) = x # key # members_after ('':1'' @ separator ms) ms"
proof -
  have "x @ join '','' (map member_text ((key, ''1'') # ms)) @ ''}'' =
    x @ QUOTE # key @ QUOTE # ('':1'' @ separator ms @ join '','' (map member_text ms) @ ''}'')"
    using assms(2) by (simp add: join_cons member_text_pair json_quote_def separator_def)
  then show ?thesis
    using assms(3) letters_no_quote(1) [OF assms(1)]
    by (simp add: members_after_def pieces_cut pieces_colon pieces_whole del: pieces.simps)
qed

lemma members_after_head:
  "list_all simple_member ms \<Longrightarrow> QUOTE \<notin> set x \<Longrightarrow>
   \<exists>ps. members_after x ms = (if ms = [] then x @ ''}'' else x) # ps"
proof (cases ms)
  case Nil
  assume "QUOTE \<notin> set x"
  then show ?thesis by (simp add: Nil members_after_def pieces_whole)
next
  case (Cons m ms')
  assume "list_all simple_member ms" "QUOTE \<notin> set x"
  then show ?thesis using members_after_quoted members_after_one Cons
    by (cases m) (fastforce simp: simple_member_def)
qed

lemma unescaped_piece:
  assumes "unescaped u" "pieces (concat (map json_escape v)) = [u]"
  shows "v = u"
proof -
  have whole: "\<exists>p. pieces t = [p] \<Longrightarrow> pieces t = [t]" for t
  proof (induction t)
    case (Cons c t)
    then obtain p where p: "pieces (c # t) = [p]" by blast
    then have "c \<noteq> QUOTE" "tl (pieces t) = []" by (auto split: if_splits)
    moreover obtain q qs where "pieces t = q # qs" using pieces_nonempty by (cases "pieces t") blast+
    ultimately show ?case using Cons.IH by simp
  qed simp
  from whole [OF exI, OF assms(2)] assms(2) have v: "concat (map json_escape v) = u"
    by (metis list.inject)
  have "Some (v, []) = read_string (concat (map json_escape v) @ QUOTE # [])"
    by (rule sym [OF read_escaped])
  also have "\<dots> = read_string (concat (map json_escape u) @ QUOTE # [])"
    using assms(1) by (simp only: v unescaped_def)
  also have "\<dots> = Some (u, [])" by (rule read_escaped)
  finally show ?thesis by simp
qed

lemma unescaped_plain: "unescaped u \<Longrightarrow> QUOTE \<notin> set u \<and> BACKSLASH \<notin> set u"
proof -
  assume u: "unescaped u"
  have le: "length s \<le> length (concat (map json_escape s))" for s
    by (induction s) (auto simp: json_escape_def Let_def)
  have "c \<notin> set u" if "c \<in> {QUOTE, BACKSLASH}" for c
  proof
    assume "c \<in> set u"
    then obtain a b where ab: "u = a @ c # b" by (meson split_list)
    have "length (concat (map json_escape u)) = length u" using u by (simp add: unescaped_def)
    moreover have "length (json_escape c) = 2" using that by (auto simp: json_escape_def)
    ultimately show False using le [of a] le [of b] unfolding ab by simp
  qed
  then show ?thesis by blast
qed

lemma json_quote_inj: "json_quote u = json_quote v \<longleftrightarrow> u = v"
proof
  assume eq: "json_quote u = json_quote v"
  have "Some (VStr u, []) = read_value (Suc 0) (json_quote u @ [])" by (rule sym [OF read_quoted])
  also have "\<dots> = read_value (Suc 0) (json_quote v @ [])" by (simp only: eq)
  also have "\<dots> = Some (VStr v, [])" by (rule read_quoted)
  finally show "u = v" by simp
qed simp

lemma has_field_members:
  assumes "letters k" "unescaped u" "list_all simple_member ms" "QUOTE \<notin> set x" "x \<noteq> k" "x @ ''}'' \<noteq> k"
  shows "has_field k u (members_after x ms) \<longleftrightarrow> (k, json_quote u) \<in> set ms"
  using assms(3-)
proof (induction ms arbitrary: x)
  case Nil
  then show ?case by (simp add: members_after_def pieces_whole)
next
  case (Cons m ms)
  have not_k: "'':'' \<noteq> k" "'':1'' @ s \<noteq> k" "'','' \<noteq> k" "'',}'' \<noteq> k" "[] \<noteq> k" "''}'' \<noteq> k" for s
    using assms(1) by (auto simp: letters_def)
  obtain key val where m: "m = (key, val)" by force
  have key: "letters key" "concat (map json_escape key) = key" using Cons.prems m by (auto simp: simple_member_def)
  have rest: "list_all simple_member ms" using Cons.prems by simp
  show ?case
  proof (cases "\<exists>v. val = json_quote v")
    case True
    then obtain v where v: "val = json_quote v" by blast
    obtain bs p where cut: "pieces (concat (map json_escape v)) = bs @ [p]"
      "\<forall>b \<in> set bs. b \<noteq> [] \<and> List.last b = BACKSLASH" using pieces_escape by blast
    obtain ps y where y: "members_after (separator ms) ms = y # ps" "y \<noteq> '':''"
      using members_after_head [OF rest, of "separator ms"] by (cases ms) (auto simp: separator_def)
    have bs: "k \<notin> set ('':'' # bs)"
      using cut(2) not_k letters_no_quote(2) [OF assms(1)] by (metis last_in_set set_ConsD)
    have "has_field k u (members_after x (m # ms)) \<longleftrightarrow>
        (key = k \<and> hd (bs @ [p]) = u) \<or> has_field k u (('':'' # bs) @ p # y # ps)"
      using Cons.prems(2,3) members_after_quoted [OF key Cons.prems(2), of v ms] cut(1) y(1)
      by (cases bs) (auto simp: m v)
    also have "\<dots> \<longleftrightarrow> (key = k \<and> hd (bs @ [p]) = u) \<or> (k, json_quote u) \<in> set ms"
      using has_field_skip [OF bs y(2)] Cons.IH [OF rest, of "separator ms"] not_k y(1)
      by (simp add: separator_def split: if_splits)
    also have "hd (bs @ [p]) = u \<longleftrightarrow> v = u"
    proof
      assume u: "hd (bs @ [p]) = u"
      then have "bs = []" using cut(2) unescaped_plain [OF assms(2)] by (cases bs) (auto dest: last_in_set)
      then show "v = u" using unescaped_piece [OF assms(2)] cut(1) u by simp
    next
      assume "v = u"
      then have "pieces (concat (map json_escape v)) = [u]"
        using assms(2) unescaped_plain [OF assms(2)] pieces_whole [of u] by (simp add: unescaped_def)
      then show "hd (bs @ [p]) = u" using cut(1) by (cases bs) auto
    qed
    finally show ?thesis using m v by (auto simp: json_quote_inj)
  next
    case False
    then have one: "val = ''1''" using Cons.prems m by (auto simp: simple_member_def)
    obtain ps y where y: "members_after ('':1'' @ separator ms) ms = y # ps" "y \<noteq> '':''"
      using members_after_head [OF rest, of "'':1'' @ separator ms"] by (cases ms) (auto simp: separator_def)
    have "has_field k u (members_after x (m # ms)) \<longleftrightarrow> has_field k u (y # ps)"
      using Cons.prems(2,3) members_after_one [OF key Cons.prems(2), of ms] y
        has_field_skip [of k "[x]" y key u ps] letters_def by (cases ps) (auto simp: m one)
    then show ?thesis
      using Cons.IH [OF rest, of "'':1'' @ separator ms"] not_k y(1) m one
      by (auto simp: separator_def json_quote_def)
  qed
qed

lemma join_member: "x \<in> set xs \<Longrightarrow> \<exists>a b. join sep xs = a @ x @ b"
proof (induction xs)
  case (Cons y ys)
  show ?case
  proof (cases "x = y")
    case True
    then show ?thesis by (metis append_Nil join_cons)
  next
    case False
    then have "x \<in> set ys" using Cons.prems by simp
    then obtain a b where "join sep ys = a @ x @ b" "ys \<noteq> []" using Cons.IH by (metis empty_iff empty_set)
    then have "join sep (y # ys) = (y @ sep @ a) @ x @ b" by (simp add: join_cons)
    then show ?thesis by blast
  qed
qed simp

lemma search_flat_object:
  assumes k: "letters k" "concat (map json_escape k) = k" and u: "unescaped u" and ms: "list_all simple_member ms"
  shows "contains (field_pattern k u) (flat_object ms) \<longleftrightarrow> (k, json_quote u) \<in> set ms"
proof
  assume "contains (field_pattern k u) (flat_object ms)"
  then obtain a b where "flat_object ms = a @ QUOTE # k @ QUOTE # '':'' @ QUOTE # u @ QUOTE # b"
    by (auto simp: contains_iff field_pattern_def)
  then have "pieces (flat_object ms) = pieces a @ k # '':'' # u # pieces b"
    using letters_no_quote(1) [OF k(1)] unescaped_plain [OF u]
    by (simp add: pieces_cut pieces_colon pieces_whole del: pieces.simps)
  then have "has_field k u (members_after ''{'' ms)"
    using has_field_middle by (simp add: members_after_def flat_object_def)
  moreover have "''{'' \<noteq> k" "''{'' @ ''}'' \<noteq> k" using k(1) by (auto simp: letters_def)
  ultimately show "(k, json_quote u) \<in> set ms" using has_field_members [OF k(1) u ms] by simp
next
  assume "(k, json_quote u) \<in> set ms"
  then have "member_text (k, json_quote u) \<in> set (map member_text ms)" by (metis image_eqI set_map)
  then obtain a b where "join '','' (map member_text ms) = a @ member_text (k, json_quote u) @ b"
    using join_member by blast
  moreover have "member_text (k, json_quote u) = field_pattern k u"
    using k(2) u by (simp add: member_text_pair json_quote_def field_pattern_def unescaped_def)
  ultimately have "flat_object ms = (''{'' @ a) @ field_pattern k u @ (b @ ''}'')"
    by (simp add: flat_object_def)
  then show "contains (field_pattern k u) (flat_object ms)" unfolding contains_iff by blast
qed

end
