(* ===== verification/Iso_Date.thy ===== *)
theory Iso_Date
  imports Js_Text
begin

text \<open>
  \<open>Date.prototype.toISOString\<close> and \<open>Date.parse\<close> on the texts it writes, in the proleptic Gregorian
  calendar: a day number since the epoch to a civil date and back, by the 400 year cycle that starts in
  March. Texts in other formats, which a runtime may accept too, are read as invalid.
\<close>

definition civil_of_days :: "int \<Rightarrow> int \<times> int \<times> int" where
  "civil_of_days z =
    (let shifted = z + 719468;
         era = shifted div 146097;
         doe = shifted mod 146097;
         yoe = (doe - doe div 1460 + doe div 36524 - doe div 146096) div 365;
         doy = doe - (365 * yoe + yoe div 4 - yoe div 100);
         mp = (5 * doy + 2) div 153;
         d = doy - (153 * mp + 2) div 5 + 1;
         m = (if mp < 10 then mp + 3 else mp - 9);
         y = yoe + era * 400
     in (if m \<le> 2 then y + 1 else y, m, d))"

definition days_of_civil :: "int \<Rightarrow> int \<Rightarrow> int \<Rightarrow> int" where
  "days_of_civil y m d =
    (let y' = (if m \<le> 2 then y - 1 else y);
         era = y' div 400;
         yoe = y' mod 400;
         doy = (153 * (if 2 < m then m - 3 else m + 9) + 2) div 5 + d - 1;
         doe = yoe * 365 + yoe div 4 - yoe div 100 + doy
     in era * 146097 + doe - 719468)"

definition pad_zero :: "nat \<Rightarrow> int \<Rightarrow> string" where
  "pad_zero w n = (let s = nat_str (nat n) in replicate (w - length s) (CHR ''0'') @ s)"

definition iso_year :: "int \<Rightarrow> string" where
  "iso_year y = (if 0 \<le> y \<and> y \<le> 9999 then pad_zero 4 y
     else if 0 \<le> y then ''+'' @ pad_zero 6 y else ''-'' @ pad_zero 6 (- y))"

definition toISOString :: "instant \<Rightarrow> string" where
  "toISOString t =
    (let (y, m, d) = civil_of_days (t div 86400000); ms = t mod 86400000
     in iso_year y @ ''-'' @ pad_zero 2 m @ ''-'' @ pad_zero 2 d @ ''T'' @ pad_zero 2 (ms div 3600000) @ '':'' @
        pad_zero 2 (ms div 60000 mod 60) @ '':'' @ pad_zero 2 (ms div 1000 mod 60) @ ''.'' @
        pad_zero 3 (ms mod 1000) @ ''Z'')"

definition number_at :: "nat \<Rightarrow> nat \<Rightarrow> string \<Rightarrow> int option" where
  "number_at i w s =
    (let ds = take w (drop i s) in
     if length ds = w \<and> list_all (between CHR ''0'' CHR ''9'') ds
     then Some (foldl (\<lambda>n c. 10 * n + (of_char c - 48)) 0 ds) else None)"

definition punctuation :: "string \<Rightarrow> string" where
  "punctuation s = map (\<lambda>i. s ! i) [4, 7, 10, 13, 16, 19, 23]"

definition date_parse :: "string \<Rightarrow> instant option" where
  "date_parse s =
    (if length s \<noteq> 24 \<or> punctuation s \<noteq> ''--T::.Z'' then None
     else case (number_at 0 4 s, number_at 5 2 s, number_at 8 2 s, number_at 11 2 s, number_at 14 2 s,
                number_at 17 2 s, number_at 20 3 s) of
       (Some y, Some m, Some d, Some h, Some mi, Some sec, Some ms) \<Rightarrow>
         if 1 \<le> m \<and> m \<le> 12 \<and> 1 \<le> d \<and> d \<le> 31 \<and> h \<le> 23 \<and> mi \<le> 59 \<and> sec \<le> 59
         then Some (days_of_civil y m d * 86400000 + h * 3600000 + mi * 60000 + sec * 1000 + ms) else None
     | _ \<Rightarrow> None)"

end
