(* ===== verification/Actions.thy ===== *)
theory Actions
  imports Prelude
begin

text \<open>
  Code that awaits one step after another against a shared state, and may throw: an action takes the state and
  answers the next one with an error or a value.
\<close>

type_synonym ('s, 'e, 'a) act = "'s \<Rightarrow> 's \<times> ('e + 'a)"

definition give :: "'a \<Rightarrow> ('s, 'e, 'a) act" where
  "give a s = (s, Inr a)"

definition throw :: "'e \<Rightarrow> ('s, 'e, 'a) act" where
  "throw err s = (s, Inl err)"

definition next_do :: "('s, 'e, 'a) act \<Rightarrow> ('a \<Rightarrow> ('s, 'e, 'b) act) \<Rightarrow> ('s, 'e, 'b) act" where
  "next_do m f s = (case m s of (s', Inl err) \<Rightarrow> (s', Inl err) | (s', Inr a) \<Rightarrow> f a s')"

definition catch :: "('s, 'e, 'a) act \<Rightarrow> ('e \<Rightarrow> ('s, 'e, 'a) act) \<Rightarrow> ('s, 'e, 'a) act" where
  "catch m h s = (case m s of (s', Inl err) \<Rightarrow> h err s' | (s', Inr a) \<Rightarrow> (s', Inr a))"

end
