(* ===== verification/Notification_Claims.thy ===== *)
theory Notification_Claims
  imports Json_Text Redis Iso_Date Actions
begin

text \<open>
  The claims that keep a notification from being sent twice: \<open>shared/queue/notification-idempotency.ts\<close>. A claim
  is a JSON text in Redis under a business key. Its owner wrote it with \<open>SET NX\<close> and a random token; every later
  write is a Lua script that looks for the token (and a status) in the text. Metrics and logs are left out, and so
  is the path for stores without \<open>EVAL\<close>, which only test doubles take.
\<close>

section \<open>Providers, channels, outcomes\<close>

datatype provider = telnyx | resend | meta
datatype notif_channel = sms | whatsapp | email
datatype outcome = success | failure_certain | unknown
datatype claim_status = CS_in_progress | CS_unknown | CS_success

fun provider_name :: "provider \<Rightarrow> string" where
  "provider_name telnyx = ''telnyx''" | "provider_name resend = ''resend''" | "provider_name meta = ''meta''"

fun notif_channel_name :: "notif_channel \<Rightarrow> string" where
  "notif_channel_name sms = ''sms''" | "notif_channel_name whatsapp = ''whatsapp''" | "notif_channel_name email = ''email''"

fun claim_status_name :: "claim_status \<Rightarrow> string" where
  "claim_status_name CS_in_progress = ''in_progress''"
| "claim_status_name CS_unknown = ''unknown''"
| "claim_status_name CS_success = ''success''"

fun outcome_name :: "outcome \<Rightarrow> string" where
  "outcome_name success = ''success''"
| "outcome_name failure_certain = ''failure_certain''"
| "outcome_name unknown = ''unknown''"

definition of_name :: "('a \<Rightarrow> string) \<Rightarrow> 'a list \<Rightarrow> string option \<Rightarrow> 'a option" where
  "of_name f xs v = (case v of None \<Rightarrow> None | Some s \<Rightarrow> find (\<lambda>x. f x = s) xs)"

definition isProvider :: "string option \<Rightarrow> provider option" where
  "isProvider = of_name provider_name [telnyx, resend, meta]"

definition isChannel :: "string option \<Rightarrow> notif_channel option" where
  "isChannel = of_name notif_channel_name [sms, whatsapp, email]"

definition isClaimStatus :: "string option \<Rightarrow> claim_status option" where
  "isClaimStatus = of_name claim_status_name [CS_in_progress, CS_unknown, CS_success]"

text \<open>
  What is thrown: the refusal that the workers raise themselves, known by its class, and any other value, as the
  object that the classification looks into.
\<close>

datatype thrown = NotificationProviderRefusedError provider notif_channel | Thrown jval

definition error_object :: "string \<Rightarrow> jval" where
  "error_object message = VObj [(''name'', VStr ''Error''), (''message'', VStr message)]"

fun thrown_value :: "thrown \<Rightarrow> jval" where
  "thrown_value (NotificationProviderRefusedError p c) =
     VObj [(''notificationResult'', VStr ''failure_certain''), (''provider'', VStr (provider_name p)),
           (''channel'', VStr (notif_channel_name c)), (''name'', VStr ''NotificationProviderRefusedError''),
           (''message'', VStr (provider_name p @ '' '' @ notif_channel_name c @ '' provider refused the notification''))]"
| "thrown_value (Thrown v) = v"

section \<open>Claims as text\<close>

record claim_metadata =
  cm_provider :: "provider option"
  cm_channel :: "notif_channel option"
  cm_messageId :: "string option"

record claim =
  nc_status :: claim_status
  nc_token :: "string option"
  nc_provider :: "provider option"
  nc_channel :: "notif_channel option"
  nc_messageId :: "string option"
  nc_updatedAt :: string

definition sanitizeJobId :: "string \<Rightarrow> string" where
  "sanitizeJobId s = map (\<lambda>c. if c = CHR '':'' then CHR ''_'' else c) s"

definition buildNotificationClaimKey :: "string \<Rightarrow> string \<Rightarrow> string" where
  "buildNotificationClaimKey kind businessKey = ''notification:'' @ sanitizeJobId kind @ '':'' @ sanitizeJobId businessKey"

definition buildNotificationReconciliationJobId :: "string \<Rightarrow> string" where
  "buildNotificationReconciliationJobId claimKey = sanitizeJobId (''notification-reconciliation_'' @ claimKey)"

definition optional_member :: "string \<Rightarrow> string option \<Rightarrow> (string \<times> string) list" where
  "optional_member k v = (case v of None \<Rightarrow> [] | Some s \<Rightarrow> [(k, json_quote s)])"

definition claim_members :: "claim \<Rightarrow> (string \<times> string) list" where
  "claim_members r =
    [(''version'', ''1''), (''status'', json_quote (claim_status_name (nc_status r)))] @
    optional_member ''token'' (nc_token r) @
    optional_member ''provider'' (map_option provider_name (nc_provider r)) @
    optional_member ''channel'' (map_option notif_channel_name (nc_channel r)) @
    optional_member ''providerMessageId'' (nc_messageId r) @
    [(''updatedAt'', json_quote (nc_updatedAt r))]"

definition serializeClaim :: "claim \<Rightarrow> string" where
  "serializeClaim r = flat_object (claim_members r)"

definition parseNotificationClaim :: "string option \<Rightarrow> claim option" where
  "parseNotificationClaim raw =
    (if \<not> truthy raw then None
     else if raw = Some ''claimed'' then
       Some \<lparr>nc_status = CS_in_progress, nc_token = None, nc_provider = None, nc_channel = None,
         nc_messageId = None, nc_updatedAt = []\<rparr>
     else case json_parse (the raw) of
       None \<Rightarrow> None
     | Some v \<Rightarrow>
         (case isClaimStatus (text_of (jmember v ''status'')) of
            None \<Rightarrow> None
          | Some st \<Rightarrow>
              if jmember v ''version'' \<noteq> Some (VNum 1) then None
              else Some \<lparr>nc_status = st, nc_token = text_of (jmember v ''token''),
                nc_provider = isProvider (text_of (jmember v ''provider'')),
                nc_channel = isChannel (text_of (jmember v ''channel'')),
                nc_messageId = text_of (jmember v ''providerMessageId''),
                nc_updatedAt = orElse (text_of (jmember v ''updatedAt'')) []\<rparr>))"

abbreviation (input) NOTIFICATION_CLAIM_TTL_SECONDS :: int where
  "NOTIFICATION_CLAIM_TTL_SECONDS \<equiv> 604800"

abbreviation (input) NOTIFICATION_CLAIM_LEASE_SECONDS :: int where
  "NOTIFICATION_CLAIM_LEASE_SECONDS \<equiv> 900"

definition isNotificationClaimOrphaned :: "claim \<Rightarrow> instant \<Rightarrow> int \<Rightarrow> bool" where
  "isNotificationClaimOrphaned r now leaseSeconds =
    (if nc_status r \<noteq> CS_in_progress then False
     else if nc_updatedAt r = [] then True
     else case date_parse (nc_updatedAt r) of
       None \<Rightarrow> True
     | Some updatedAt \<Rightarrow> leaseSeconds * 1000 \<le> now - updatedAt)"

section \<open>The scripts\<close>

text \<open>\<open>ARGV\<close> is the token (and the expected status), the new text or \<open>__DELETE__\<close>, and the seconds to live.\<close>

definition replace_claim :: "instant \<Rightarrow> string \<Rightarrow> claim option \<Rightarrow> redis \<Rightarrow> redis" where
  "replace_claim now key next_claim rd =
    (case next_claim of
       None \<Rightarrow> redis_del key rd
     | Some r \<Rightarrow> redis_set now key (serializeClaim r) NOTIFICATION_CLAIM_TTL_SECONDS rd)"

definition compare_script :: "instant \<Rightarrow> string \<Rightarrow> string \<Rightarrow> claim option \<Rightarrow> redis \<Rightarrow> redis \<times> bool" where
  "compare_script now key token next_claim rd =
    (case redis_get now key rd of
       None \<Rightarrow> (rd, False)
     | Some current \<Rightarrow>
         if \<not> contains (field_pattern ''token'' token) current then (rd, False)
         else (replace_claim now key next_claim rd, True))"

definition compare_status_script :: "instant \<Rightarrow> string \<Rightarrow> string \<Rightarrow> claim_status \<Rightarrow> claim option \<Rightarrow> redis \<Rightarrow> redis \<times> bool" where
  "compare_status_script now key token status next_claim rd =
    (case redis_get now key rd of
       None \<Rightarrow> (rd, False)
     | Some current \<Rightarrow>
         if \<not> contains (field_pattern ''token'' token) current then (rd, False)
         else if \<not> contains (field_pattern ''status'' (claim_status_name status)) current then (rd, False)
         else (replace_claim now key next_claim rd, True))"

section \<open>A claim is read back as it was written\<close>

definition optional_field :: "string \<Rightarrow> string option \<Rightarrow> (string \<times> jval) list" where
  "optional_field k v = (case v of None \<Rightarrow> [] | Some s \<Rightarrow> [(k, VStr s)])"

definition claim_fields :: "claim \<Rightarrow> (string \<times> jval) list" where
  "claim_fields r =
    [(''version'', VNum 1), (''status'', VStr (claim_status_name (nc_status r)))] @
    optional_field ''token'' (nc_token r) @
    optional_field ''provider'' (map_option provider_name (nc_provider r)) @
    optional_field ''channel'' (map_option notif_channel_name (nc_channel r)) @
    optional_field ''providerMessageId'' (nc_messageId r) @
    [(''updatedAt'', VStr (nc_updatedAt r))]"

lemma json_serialized: "json_parse (serializeClaim r) = Some (VObj (claim_fields r))"
proof -
  have opt: "list_all2 (\<lambda>m f. fst m = fst f \<and> reads (snd m) (snd f)) (optional_member k v) (optional_field k v)" for k v
    by (cases v) (simp_all add: optional_member_def optional_field_def reads_quoted)
  have "list_all2 (\<lambda>m f. fst m = fst f \<and> reads (snd m) (snd f)) (claim_members r) (claim_fields r)"
    unfolding claim_members_def claim_fields_def
    by (intro list_all2_appendI opt) (simp_all add: reads_quoted reads_one)
  then show ?thesis unfolding serializeClaim_def by (rule parse_flat_object) (simp add: claim_members_def)
qed

lemma names_read [simp]:
  "isProvider (map_option provider_name p) = p" "isChannel (map_option notif_channel_name c) = c"
  "isClaimStatus (Some (claim_status_name st)) = Some st"
proof -
  show "isProvider (map_option provider_name p) = p"
    by (cases p; cases "the p") (auto simp: isProvider_def of_name_def)
  show "isChannel (map_option notif_channel_name c) = c"
    by (cases c; cases "the c") (auto simp: isChannel_def of_name_def)
  show "isClaimStatus (Some (claim_status_name st)) = Some st"
    by (cases st) (auto simp: isClaimStatus_def of_name_def)
qed

lemma claim_field_values:
  "jmember (VObj (claim_fields r)) ''version'' = Some (VNum 1)"
  "text_of (jmember (VObj (claim_fields r)) ''status'') = Some (claim_status_name (nc_status r))"
  "text_of (jmember (VObj (claim_fields r)) ''token'') = nc_token r"
  "text_of (jmember (VObj (claim_fields r)) ''provider'') = map_option provider_name (nc_provider r)"
  "text_of (jmember (VObj (claim_fields r)) ''channel'') = map_option notif_channel_name (nc_channel r)"
  "text_of (jmember (VObj (claim_fields r)) ''providerMessageId'') = nc_messageId r"
  "text_of (jmember (VObj (claim_fields r)) ''updatedAt'') = Some (nc_updatedAt r)"
  by (simp_all add: claim_fields_def optional_field_def split: option.splits)

lemma serialized_claim_shape: "\<exists>t. serializeClaim r = CHR ''{'' # t"
  by (simp add: serializeClaim_def flat_object_def)

lemma parse_serialized: "parseNotificationClaim (Some (serializeClaim r)) = Some r"
proof -
  have "serializeClaim r \<noteq> []" "serializeClaim r \<noteq> ''claimed''" using serialized_claim_shape [of r] by auto
  then show ?thesis
    by (simp add: parseNotificationClaim_def json_serialized claim_field_values del: jmember.simps)
qed

section \<open>The scripts compare what they mean to compare\<close>

text \<open>\<open>randomUUID\<close> writes hexadecimal digits and dashes.\<close>

definition uuid_text :: "string \<Rightarrow> bool" where
  "uuid_text t \<longleftrightarrow> t \<noteq> [] \<and> list_all (\<lambda>c. c \<in> set ''0123456789abcdef-'') t"

lemma uuid_unescaped: "uuid_text t \<Longrightarrow> unescaped t"
proof -
  have "list_all (\<lambda>c. json_escape c = [c]) ''0123456789abcdef-''" by code_simp
  then have "concat (map json_escape t) = t" if "list_all (\<lambda>c. c \<in> set ''0123456789abcdef-'') t" for t
    using that by (induction t) (auto simp: list_all_iff)
  then show "uuid_text t \<Longrightarrow> unescaped t" by (simp add: uuid_text_def unescaped_def)
qed

lemma claim_members_simple: "list_all simple_member (claim_members r)"
proof -
  have keys: "list_all (\<lambda>k. letters k \<and> concat (map json_escape k) = k)
      [''version'', ''status'', ''token'', ''provider'', ''channel'', ''providerMessageId'', ''updatedAt'']"
    by code_simp
  then have opt: "list_all simple_member (optional_member k v)"
    if "k \<in> set [''token'', ''provider'', ''channel'', ''providerMessageId'']" for k v
    using that by (auto simp: optional_member_def simple_member_def split: option.splits)
  show ?thesis unfolding claim_members_def using keys opt by (auto simp: simple_member_def)
qed

lemma search_claim:
  assumes "unescaped u"
  shows "contains (field_pattern ''token'' u) (serializeClaim r) \<longleftrightarrow> nc_token r = Some u"
    and "contains (field_pattern ''status'' (claim_status_name st)) (serializeClaim r) \<longleftrightarrow> nc_status r = st"
proof -
  have words: "letters ''token''" "concat (map json_escape ''token'') = ''token''"
    "letters ''status''" "concat (map json_escape ''status'') = ''status''" by code_simp+
  have st: "unescaped (claim_status_name st)" by (cases st; simp; code_simp)
  show "contains (field_pattern ''token'' u) (serializeClaim r) \<longleftrightarrow> nc_token r = Some u"
    unfolding serializeClaim_def search_flat_object [OF words(1,2) assms claim_members_simple]
    by (auto simp: claim_members_def optional_member_def json_quote_inj split: option.splits)
  have "claim_status_name (nc_status r) = claim_status_name st \<longleftrightarrow> nc_status r = st"
    by (cases st; cases "nc_status r") auto
  then show "contains (field_pattern ''status'' (claim_status_name st)) (serializeClaim r) \<longleftrightarrow> nc_status r = st"
    unfolding serializeClaim_def search_flat_object [OF words(3,4) st claim_members_simple]
    by (auto simp: claim_members_def optional_member_def json_quote_inj split: option.splits)
qed

section \<open>State, environment and actions\<close>

text \<open>
  The state: the claims in Redis, the jobs of the reconciliation queue (a job id that the queue still knows is not
  added again), the reviews asked of a human, and the calls that reached a provider: the claim (its key and token) under
  which the call was made, the recipient, the message id it answered, and whether the attempt is known to have been
  refused. That last list is a history, no code reads it. \<open>ns_rows\<close> is
  whatever the database holds.
\<close>

record reconcile_job =
  rj_claimKey :: string
  rj_provider :: provider
  rj_channel :: notif_channel
  rj_messageId :: "string option"

datatype review_reason =
  provider_status_unavailable | provider_message_id_missing | local_repair_failed | claim_metadata_missing

record sent_call =
  sc_claim :: "(string \<times> string) option"
  sc_to :: "string option"
  sc_messageId :: "string option"
  sc_refused :: bool

record 'd nstate =
  ns_claims :: redis
  ns_jobs :: "reconcile_job list"
  ns_reviews :: "(reconcile_job \<times> review_reason) list"
  ns_sent :: "sent_call list"
  ns_rows :: 'd

text \<open>
  What the surroundings decide for one run of an operation, by the number of the step in its text: the time and the
  answer of each Redis command, whether an addition to a queue is accepted, whether a read or write of the database fails, and what other
  processes commit before the step.
\<close>

record 'd nenv =
  ne_now :: "nat \<Rightarrow> instant"
  ne_reply :: "nat \<Rightarrow> reply"
  ne_queue :: "nat \<Rightarrow> thrown option"
  ne_db :: "nat \<Rightarrow> thrown option"
  ne_uuid :: string
  ne_redisError :: thrown
  ne_race :: "nat \<Rightarrow> 'd nstate \<Rightarrow> 'd nstate"

type_synonym ('d, 'a) action = "('d nstate, thrown, 'a) act"

text \<open>One step against the outside: others go first, then it fails or has its effect.\<close>

definition redis_step :: "'d nenv \<Rightarrow> nat \<Rightarrow> (instant \<Rightarrow> redis \<Rightarrow> redis \<times> 'a) \<Rightarrow> ('d, 'a) action" where
  "redis_step e k f s =
    (let s1 = ne_race e k s; (rd, a) = f (ne_now e k) (ns_claims s1)
     in case ne_reply e k of
          Answered \<Rightarrow> (s1\<lparr>ns_claims := rd\<rparr>, Inr a)
        | NotRun \<Rightarrow> (s1, Inl (ne_redisError e))
        | AnswerLost \<Rightarrow> (s1\<lparr>ns_claims := rd\<rparr>, Inl (ne_redisError e)))"

definition queue_step :: "'d nenv \<Rightarrow> nat \<Rightarrow> ('d nstate \<Rightarrow> 'd nstate) \<Rightarrow> ('d, unit) action" where
  "queue_step e k f s =
    (let s1 = ne_race e k s in
     case ne_queue e k of None \<Rightarrow> (f s1, Inr ()) | Some err \<Rightarrow> (s1, Inl err))"

definition rows_step :: "'d nenv \<Rightarrow> nat \<Rightarrow> ('d \<Rightarrow> 'd \<times> 'a) \<Rightarrow> ('d, 'a) action" where
  "rows_step e k f s =
    (let s1 = ne_race e k s; (rows, a) = f (ns_rows s1)
     in case ne_db e k of None \<Rightarrow> (s1\<lparr>ns_rows := rows\<rparr>, Inr a) | Some err \<Rightarrow> (s1, Inl err))"

section \<open>Operations on claims\<close>

definition getNotificationClaim :: "'d nenv \<Rightarrow> nat \<Rightarrow> string \<Rightarrow> ('d, claim option) action" where
  "getNotificationClaim e k key =
     redis_step e k (\<lambda>now rd. (rd, parseNotificationClaim (redis_get now key rd)))"

record claim_attempt =
  ca_acquired :: bool
  ca_token :: "string option"
  ca_record :: "claim option"

definition kept_text :: "string option \<Rightarrow> string option" where
  "kept_text v = (if truthy v then v else None)"

text \<open>Steps \<open>k\<close> and \<open>k + 1\<close>.\<close>

definition acquireNotificationClaim :: "'d nenv \<Rightarrow> nat \<Rightarrow> string \<Rightarrow> claim_metadata \<Rightarrow> ('d, claim_attempt) action" where
  "acquireNotificationClaim e k key metadata =
    (let token = ne_uuid e;
         r = \<lparr>nc_status = CS_in_progress, nc_token = Some token, nc_provider = cm_provider metadata,
              nc_channel = cm_channel metadata, nc_messageId = kept_text (cm_messageId metadata),
              nc_updatedAt = toISOString (ne_now e k)\<rparr>
     in next_do (redis_step e k (\<lambda>now. redis_set_nx now key (serializeClaim r) NOTIFICATION_CLAIM_TTL_SECONDS))
        (\<lambda>ok. if ok then give \<lparr>ca_acquired = True, ca_token = Some token, ca_record = Some r\<rparr>
          else next_do (getNotificationClaim e (k + 1) key)
            (\<lambda>existing. give \<lparr>ca_acquired = False, ca_token = None, ca_record = existing\<rparr>)))"

definition claimNotification :: "'d nenv \<Rightarrow> nat \<Rightarrow> string \<Rightarrow> claim_metadata \<Rightarrow> ('d, bool) action" where
  "claimNotification e k key metadata =
     next_do (acquireNotificationClaim e k key metadata) (\<lambda>attempt. give (ca_acquired attempt))"

definition compareAndReplaceClaim :: "'d nenv \<Rightarrow> nat \<Rightarrow> string \<Rightarrow> string \<Rightarrow> claim option \<Rightarrow> ('d, bool) action" where
  "compareAndReplaceClaim e k key token next_claim =
     redis_step e k (\<lambda>now. compare_script now key token next_claim)"

definition compareAndReplaceClaimIfStatus :: "'d nenv \<Rightarrow> nat \<Rightarrow> string \<Rightarrow> string \<Rightarrow> claim_status \<Rightarrow> claim option \<Rightarrow>
    ('d, bool) action" where
  "compareAndReplaceClaimIfStatus e k key token expectedStatus next_claim =
     redis_step e k (\<lambda>now. compare_status_script now key token expectedStatus next_claim)"

text \<open>Steps \<open>k\<close> to \<open>k + 2\<close>.\<close>

definition acquireNotificationReconciliationLease :: "'d nenv \<Rightarrow> nat \<Rightarrow> string \<Rightarrow> ('d, claim_attempt) action" where
  "acquireNotificationReconciliationLease e k key =
     next_do (getNotificationClaim e k key) (\<lambda>current.
       case current of
         None \<Rightarrow> give \<lparr>ca_acquired = False, ca_token = None, ca_record = None\<rparr>
       | Some r \<Rightarrow>
           if nc_status r \<noteq> CS_unknown \<or> \<not> truthy (nc_token r)
           then give \<lparr>ca_acquired = False, ca_token = None, ca_record = Some r\<rparr>
           else (let nxt = r\<lparr>nc_status := CS_in_progress, nc_updatedAt := toISOString (ne_now e k)\<rparr>
             in next_do (compareAndReplaceClaimIfStatus e (k + 1) key (the (nc_token r)) CS_unknown (Some nxt))
               (\<lambda>transitioned.
                  if transitioned then give \<lparr>ca_acquired = True, ca_token = nc_token r, ca_record = Some nxt\<rparr>
                  else next_do (getNotificationClaim e (k + 2) key)
                    (\<lambda>latest. give \<lparr>ca_acquired = False, ca_token = None, ca_record = latest\<rparr>))))"

datatype recovery_status = RS_active | RS_not_found | RS_not_orphaned | RS_recovered | RS_manual | RS_raced

text \<open>Steps \<open>k\<close> to \<open>k + 2\<close>.\<close>

definition recoverNotificationClaim :: "'d nenv \<Rightarrow> nat \<Rightarrow> string \<Rightarrow> ('d, recovery_status \<times> claim option) action" where
  "recoverNotificationClaim e k key =
     next_do (getNotificationClaim e k key) (\<lambda>current.
       case current of
         None \<Rightarrow> give (RS_not_found, None)
       | Some r \<Rightarrow>
           if nc_status r \<noteq> CS_in_progress then give (RS_not_orphaned, Some r)
           else if \<not> isNotificationClaimOrphaned r (ne_now e k) NOTIFICATION_CLAIM_LEASE_SECONDS
           then give (RS_active, Some r)
           else if \<not> truthy (nc_token r) \<or> nc_provider r = None \<or> nc_channel r = None
           then give (RS_manual, Some r)
           else next_do (compareAndReplaceClaimIfStatus e (k + 1) key (the (nc_token r)) CS_in_progress
               (Some (r\<lparr>nc_status := CS_unknown, nc_updatedAt := toISOString (ne_now e (k + 1))\<rparr>)))
             (\<lambda>transitioned. next_do (getNotificationClaim e (k + 2) key) (\<lambda>latest.
                give (if transitioned then (RS_recovered, latest)
                      else case latest of None \<Rightarrow> (RS_not_found, None) | Some r' \<Rightarrow> (RS_raced, Some r')))))"

definition recordNotificationResult :: "'d nenv \<Rightarrow> nat \<Rightarrow> string \<Rightarrow> string \<Rightarrow> outcome \<Rightarrow> claim_metadata \<Rightarrow>
    ('d, bool) action" where
  "recordNotificationResult e k key token res metadata =
    (if res = failure_certain then compareAndReplaceClaim e k key token None
     else compareAndReplaceClaim e k key token
       (Some \<lparr>nc_status = (if res = success then CS_success else CS_unknown), nc_token = Some token,
          nc_provider = cm_provider metadata, nc_channel = cm_channel metadata,
          nc_messageId = kept_text (cm_messageId metadata), nc_updatedAt = toISOString (ne_now e k)\<rparr>))"

definition releaseNotificationClaim :: "'d nenv \<Rightarrow> nat \<Rightarrow> string \<Rightarrow> string option \<Rightarrow> ('d, unit) action" where
  "releaseNotificationClaim e k key token =
    (if truthy token
     then next_do (compareAndReplaceClaim e k key (the token) None) (\<lambda>_. give ())
     else redis_step e k (\<lambda>now rd. (redis_del key rd, ())))"

definition add_job :: "(reconcile_job \<Rightarrow> bool) \<Rightarrow> reconcile_job \<Rightarrow> 'd nstate \<Rightarrow> 'd nstate" where
  "add_job known j s = (if known j then s else s\<lparr>ns_jobs := ns_jobs s @ [j]\<rparr>)"

definition enqueueNotificationReconciliation :: "'d nenv \<Rightarrow> nat \<Rightarrow> (reconcile_job \<Rightarrow> bool) \<Rightarrow> reconcile_job \<Rightarrow>
    ('d, unit) action" where
  "enqueueNotificationReconciliation e k known request = queue_step e k (add_job known request)"

section \<open>Answers and errors of a provider\<close>

record send_result =
  sr_outcome :: outcome
  sr_provider :: "provider option"
  sr_channel :: "notif_channel option"
  sr_messageId :: "string option"
  sr_reason :: "string option"

definition normalizeNotificationSendResult :: "send_result option \<Rightarrow> provider \<Rightarrow> notif_channel \<Rightarrow> send_result" where
  "normalizeNotificationSendResult v p c =
    (case v of
       None \<Rightarrow> \<lparr>sr_outcome = success, sr_provider = Some p, sr_channel = Some c, sr_messageId = None, sr_reason = None\<rparr>
     | Some x \<Rightarrow> \<lparr>sr_outcome = sr_outcome x, sr_provider = Some (orElse (sr_provider x) p),
         sr_channel = Some (orElse (sr_channel x) c), sr_messageId = kept_text (sr_messageId x),
         sr_reason = kept_text (sr_reason x)\<rparr>)"

definition asRecord :: "jval option \<Rightarrow> jval option" where
  "asRecord v = (case v of Some (VObj fs) \<Rightarrow> Some (VObj fs) | Some (VArr vs) \<Rightarrow> Some (VArr vs) | _ \<Rightarrow> None)"

text \<open>\<open>a ?? b\<close> on members.\<close>

definition nullish_or :: "jval option \<Rightarrow> jval option \<Rightarrow> jval option" where
  "nullish_or a b = (if a = None \<or> a = Some VNull then b else a)"

definition first_text :: "jval \<Rightarrow> string list \<Rightarrow> string option" where
  "first_text r ks = (case find (\<lambda>k. truthy (text_of (jmember r k))) ks of None \<Rightarrow> None | Some k \<Rightarrow> text_of (jmember r k))"

fun message_id_loop :: "nat \<Rightarrow> jval option \<Rightarrow> string option" where
  "message_id_loop 0 v = None"
| "message_id_loop (Suc n) v =
    (case asRecord v of
       None \<Rightarrow> None
     | Some r \<Rightarrow>
         (case first_text r [''providerMessageId'', ''messageId'', ''id''] of
            Some s \<Rightarrow> Some s
          | None \<Rightarrow> message_id_loop n
              (nullish_or (nullish_or (jmember r ''data'') (jmember r ''response'')) (jmember r ''cause''))))"

definition extractProviderMessageId :: "jval \<Rightarrow> string option" where
  "extractProviderMessageId v = message_id_loop 3 (Some v)"

definition status_of :: "jval option \<Rightarrow> rat option" where
  "status_of v = (case v of
     Some (VNum n) \<Rightarrow> Some n
   | Some (VStr s) \<Rightarrow> if length s = 3 \<and> list_all is_digit s then Some (of_int (digits_value s)) else None
   | _ \<Rightarrow> None)"

fun status_loop :: "nat \<Rightarrow> jval option \<Rightarrow> rat option" where
  "status_loop 0 v = None"
| "status_loop (Suc n) v =
    (case asRecord v of
       None \<Rightarrow> None
     | Some r \<Rightarrow>
         (case find (\<lambda>k. status_of (jmember r k) \<noteq> None) [''status'', ''statusCode'', ''status_code''] of
            Some k \<Rightarrow> status_of (jmember r k)
          | None \<Rightarrow> status_loop n (nullish_or (jmember r ''response'') (jmember r ''cause''))))"

definition extractStatusCode :: "jval \<Rightarrow> rat option" where
  "extractStatusCode v = status_loop 3 (Some v)"

definition outcome_of_name :: "string option \<Rightarrow> outcome option" where
  "outcome_of_name = of_name outcome_name [success, failure_certain, unknown]"

definition network_codes :: "string list" where
  "network_codes = [''ABORT_ERR'', ''ECONNRESET'', ''ECONNREFUSED'', ''ETIMEDOUT'', ''EPIPE'', ''UND_ERR_CONNECT_TIMEOUT'']"

definition refusal_words :: "string list" where
  "refusal_words = [''required'', ''not set'', ''not configured'', ''invalid phone'', ''invalid email'',
     ''invalid recipient'', ''invalid sender'', ''validation'']"

definition classifyNotificationError :: "thrown \<Rightarrow> outcome" where
  "classifyNotificationError err =
    (let v = thrown_value err;
         part = (\<lambda>k. case asRecord (Some v) of None \<Rightarrow> None | Some r \<Rightarrow> jmember r k);
         tail_part = (let name = text_of (part ''name''); code = text_of (part ''code''); message = text_of (part ''message'') in
           if name = Some ''AbortError'' \<or> (case code of Some c \<Rightarrow> c \<in> set network_codes | None \<Rightarrow> False) then unknown
           else case message of
             Some m \<Rightarrow> if list_ex (\<lambda>w. contains w (map lower_char m)) refusal_words then failure_certain else unknown
           | None \<Rightarrow> unknown)
     in case outcome_of_name (text_of (part ''notificationResult'')) of
          Some x \<Rightarrow> x
        | None \<Rightarrow>
            (case extractStatusCode v of
               Some code \<Rightarrow>
                 if 500 \<le> code \<or> code = 408 then unknown
                 else if 400 \<le> code \<and> code < 500 then failure_certain else tail_part
             | None \<Rightarrow> tail_part))"

definition getNotificationErrorProviderMessageId :: "thrown \<Rightarrow> string option" where
  "getNotificationErrorProviderMessageId err = extractProviderMessageId (thrown_value err)"

text \<open>
  What a sending function of the program answers: it resolves, perhaps to nothing, or it throws. The call is
  remembered with the claim under which it was made.
\<close>

datatype provider_answer = Resolved "send_result option" | Rejected thrown

fun answer_refused :: "provider_answer \<Rightarrow> bool" where
  "answer_refused (Resolved None) = False"
| "answer_refused (Resolved (Some x)) = (sr_outcome x = failure_certain)"
| "answer_refused (Rejected err) = (classifyNotificationError err = failure_certain)"

fun answer_messageId :: "provider_answer \<Rightarrow> string option" where
  "answer_messageId (Resolved None) = None"
| "answer_messageId (Resolved (Some x)) = kept_text (sr_messageId x)"
| "answer_messageId (Rejected err) = getNotificationErrorProviderMessageId err"

definition send_step :: "'d nenv \<Rightarrow> nat \<Rightarrow> (string \<times> string) option \<Rightarrow> string option \<Rightarrow> provider_answer \<Rightarrow>
    ('d, send_result option) action" where
  "send_step e k owner recipient answer s =
    (let s1 = ne_race e k s;
         s2 = s1\<lparr>ns_sent := ns_sent s1 @ [\<lparr>sc_claim = owner, sc_to = recipient,
            sc_messageId = answer_messageId answer, sc_refused = answer_refused answer\<rparr>]\<rparr>
     in case answer of Resolved v \<Rightarrow> (s2, Inr v) | Rejected err \<Rightarrow> (s2, Inl err))"

text \<open>History: the provider says that the message of this claim was not delivered.\<close>

definition refusal_known :: "string \<times> string \<Rightarrow> ('d, unit) action" where
  "refusal_known owner s =
     (s\<lparr>ns_sent := upd_where (\<lambda>c. sc_claim c = Some owner) (\<lambda>c. c\<lparr>sc_refused := True\<rparr>) (ns_sent s)\<rparr>, Inr ())"

definition metadata_of :: "send_result \<Rightarrow> claim_metadata" where
  "metadata_of n = \<lparr>cm_provider = sr_provider n, cm_channel = sr_channel n, cm_messageId = sr_messageId n\<rparr>"

definition quietly :: "('d, unit) action \<Rightarrow> ('d, unit) action" where
  "quietly m = catch m (\<lambda>_. give ())"

definition only_if :: "bool \<Rightarrow> ('d, unit) action \<Rightarrow> ('d, unit) action" where
  "only_if b m = (if b then m else give ())"

end
