(* ===== verification/Notification_Workers.thy ===== *)
theory Notification_Workers
  imports Notification_Claims Db
begin

text \<open>
  The workers that send under a claim: alerts to a manager (\<open>workers/sms-confirmation.worker.ts\<close>), confirmations
  (\<open>outbound-confirm.worker.ts\<close>), follow-ups to lost calls (\<open>call-recovery.worker.ts\<close>) and reminders
  (\<open>confirmation-sms.worker.ts\<close> over \<open>shared/messaging/sender.ts\<close>). The number in each step is its place in the
  operation. What a provider answers is an argument; the texts sent, the usage records and the analytics
  are left out.
\<close>

section \<open>Rows\<close>

datatype confirmation_status = CF_NOT_REQUIRED | CF_PENDING | CF_CONFIRMED | CF_CANCELLED | CF_NO_REPLY

record notified_row = reservation_row +
  r_consents :: jval
  r_confirmationStatus :: confirmation_status
  r_confirmationSentAt :: "instant option"
  r_callId :: "id option"

record notify_restaurant =
  nt_id :: id
  nt_timezone :: string
  nt_managerPhone :: "string option"
  nt_smsConfirmEnabled :: bool

text \<open>
  The rows read and written, the keys of the session Redis that limit the alerts, and the reminder jobs
  that a failed scan leaves for a retry.
\<close>

record notify_rows =
  nw_reservations :: "notified_row list"
  nw_restaurants :: "notify_restaurant list"
  nw_audits :: "(id \<times> string) list"
  nw_giftReminders :: "(id \<times> instant option) list"
  nw_limits :: redis
  nw_reminderJobs :: "id list"

type_synonym nenv_rows = "notify_rows nenv"

definition find_reservation :: "id \<Rightarrow> notify_rows \<Rightarrow> notified_row option" where
  "find_reservation i w = find (\<lambda>r. r_id r = i) (nw_reservations w)"

definition restaurant_of :: "id \<Rightarrow> notify_rows \<Rightarrow> notify_restaurant option" where
  "restaurant_of i w = find (\<lambda>r. nt_id r = i) (nw_restaurants w)"

definition read_rows :: "nenv_rows \<Rightarrow> nat \<Rightarrow> (notify_rows \<Rightarrow> 'a) \<Rightarrow> (notify_rows, 'a) action" where
  "read_rows e k f = rows_step e k (\<lambda>w. (w, f w))"

definition telnyx_sms :: claim_metadata where
  "telnyx_sms = \<lparr>cm_provider = Some telnyx, cm_channel = Some sms, cm_messageId = None\<rparr>"

definition sms_job :: "string \<Rightarrow> string option \<Rightarrow> reconcile_job" where
  "sms_job claimKey messageId =
     \<lparr>rj_claimKey = claimKey, rj_provider = telnyx, rj_channel = sms, rj_messageId = kept_text messageId\<rparr>"

section \<open>Alerts to a manager\<close>

record manager_job =
  mj_id :: "string option"
  mj_name :: string
  mj_restaurantId :: id
  mj_reservationId :: id
  mj_phoneNumber :: "string option"

text \<open>One alert per restaurant and window; the job that took the window may be retried in it.\<close>

definition manager_allowed :: "nenv_rows \<Rightarrow> int \<Rightarrow> manager_job \<Rightarrow> string \<Rightarrow> (notify_rows, bool) action" where
  "manager_allowed e limitSeconds job jobId =
    (let rateKey = ''sms:manager:'' @ mj_restaurantId job in
     if mj_name job = ''reply-cancellation'' then give True
     else next_do (rows_step e 0 (\<lambda>w. let (rd, ok) = redis_set_nx (ne_now e 0) rateKey jobId limitSeconds (nw_limits w)
            in (w\<lparr>nw_limits := rd\<rparr>, ok)))
       (\<lambda>allowed. if allowed then give True
          else read_rows e 1 (\<lambda>w. redis_get (ne_now e 1) rateKey (nw_limits w) = Some jobId)))"

text \<open>The recipient: \<open>None\<close> when the job returns without one.\<close>

definition manager_phone :: "nenv_rows \<Rightarrow> manager_job \<Rightarrow> (notify_rows, string option option) action" where
  "manager_phone e job =
    (if mj_name job = ''reply-cancellation''
     then read_rows e 2 (\<lambda>w.
       case find (\<lambda>r. r_id r = mj_reservationId job \<and> r_restaurantId r = mj_restaurantId job) (nw_reservations w) of
         None \<Rightarrow> None
       | Some r \<Rightarrow>
           (case restaurant_of (r_restaurantId r) w of
              Some t \<Rightarrow> if truthy (nt_managerPhone t) then Some (nt_managerPhone t) else None
            | None \<Rightarrow> None))
     else case mj_phoneNumber job of
       Some p \<Rightarrow> give (Some (Some p))
     | None \<Rightarrow>
         next_do (read_rows e 3 (restaurant_of (mj_restaurantId job))) (\<lambda>t.
           case t of None \<Rightarrow> throw (Thrown (error_object ''P2025'')) | Some t' \<Rightarrow> give (Some (nt_managerPhone t'))))"

definition manager_send :: "nenv_rows \<Rightarrow> (reconcile_job \<Rightarrow> bool) \<Rightarrow> provider_answer \<Rightarrow> string \<Rightarrow> string \<Rightarrow> string option \<Rightarrow>
    (notify_rows, unit) action" where
  "manager_send e known answer claimKey token recipient =
     next_do
       (catch
         (next_do (send_step e 6 (Some (claimKey, token)) recipient answer) (\<lambda>v.
            let result = normalizeNotificationSendResult v telnyx sms in
            next_do (recordNotificationResult e 7 claimKey token (sr_outcome result) (metadata_of result))
              (\<lambda>_. give (Some result))))
         (\<lambda>err. case err of
            NotificationProviderRefusedError p c \<Rightarrow> throw err
          | _ \<Rightarrow>
              (let res = classifyNotificationError err; messageId = getNotificationErrorProviderMessageId err in
               next_do (recordNotificationResult e 9 claimKey token res (telnyx_sms\<lparr>cm_messageId := messageId\<rparr>))
                 (\<lambda>transitioned.
                    if res = failure_certain then throw err
                    else next_do (only_if transitioned
                        (enqueueNotificationReconciliation e 10 known (sms_job claimKey messageId)))
                      (\<lambda>_. give None)))))
       (\<lambda>recorded. case recorded of
          None \<Rightarrow> give ()
        | Some result \<Rightarrow>
            (case sr_outcome result of
               failure_certain \<Rightarrow> throw (NotificationProviderRefusedError telnyx sms)
             | unknown \<Rightarrow> enqueueNotificationReconciliation e 8 known (sms_job claimKey (sr_messageId result))
             | success \<Rightarrow> give ()))"

definition processManagerSmsJob :: "nenv_rows \<Rightarrow> int \<Rightarrow> (reconcile_job \<Rightarrow> bool) \<Rightarrow> provider_answer \<Rightarrow> manager_job \<Rightarrow>
    (notify_rows, unit) action" where
  "processManagerSmsJob e limitSeconds known answer job =
    (if \<not> truthy (mj_id job) then throw (Thrown (error_object ''manager SMS job id required''))
     else next_do (manager_allowed e limitSeconds job (the (mj_id job))) (\<lambda>allowed.
       if \<not> allowed then give ()
       else next_do (manager_phone e job) (\<lambda>phone. case phone of None \<Rightarrow> give () | Some recipient \<Rightarrow>
         (let claimKey = buildNotificationClaimKey ''manager-alert-sms'' (the (mj_id job)) in
          next_do (acquireNotificationClaim e 4 claimKey telnyx_sms) (\<lambda>attempt.
            case ca_token attempt of
              Some token \<Rightarrow> manager_send e known answer claimKey token recipient
            | None \<Rightarrow>
                (case ca_record attempt of
                   Some r \<Rightarrow> only_if (nc_status r = CS_unknown)
                     (enqueueNotificationReconciliation e 6 known (sms_job claimKey (nc_messageId r)))
                 | None \<Rightarrow> give ()))))))"

section \<open>Confirmations\<close>

definition own_message_id :: "thrown \<Rightarrow> string option" where
  "own_message_id err = text_of (jmember (thrown_value err) ''providerMessageId'')"

definition requeueUnknownConfirmation :: "nenv_rows \<Rightarrow> nat \<Rightarrow> (reconcile_job \<Rightarrow> bool) \<Rightarrow> string \<Rightarrow> string option \<Rightarrow>
    (notify_rows, unit) action" where
  "requeueUnknownConfirmation e k known claimKey messageId =
     enqueueNotificationReconciliation e k known (sms_job claimKey messageId)"

definition CONFIRMATION_SMS_SENT_EVENT :: string where
  "CONFIRMATION_SMS_SENT_EVENT = ''reservation_confirmation_sms_sent''"

definition add_audit :: "id \<Rightarrow> string \<Rightarrow> notify_rows \<Rightarrow> notify_rows" where
  "add_audit i event w = w\<lparr>nw_audits := nw_audits w @ [(i, event)]\<rparr>"

definition confirmation_eligible :: "instant \<Rightarrow> notified_row \<Rightarrow> notify_rows \<Rightarrow> bool" where
  "confirmation_eligible now r w =
    (r_status r = St_CONFIRMED \<and> r_state r = CONFIRMED \<and> truthy (r_customerPhone r) \<and>
     (case restaurant_of (r_restaurantId r) w of Some t \<Rightarrow> nt_smsConfirmEnabled t | None \<Rightarrow> False) \<and>
     \<not> isSlotStartPast (orElse (r_startsAt r) (r_reservedAt r)) now)"

definition confirmation_send :: "nenv_rows \<Rightarrow> (reconcile_job \<Rightarrow> bool) \<Rightarrow> provider_answer \<Rightarrow> id \<Rightarrow> string \<Rightarrow> string \<Rightarrow>
    string option \<Rightarrow> (notify_rows, unit) action" where
  "confirmation_send e known answer reservationId claimKey token recipient =
     catch
       (next_do (send_step e 5 (Some (claimKey, token)) recipient answer) (\<lambda>v.
          let result = normalizeNotificationSendResult v telnyx sms in
          next_do (recordNotificationResult e 6 claimKey token (sr_outcome result) (metadata_of result)) (\<lambda>transitioned.
            case sr_outcome result of
              failure_certain \<Rightarrow>
                throw (NotificationProviderRefusedError (the (sr_provider result)) (the (sr_channel result)))
            | unknown \<Rightarrow> only_if transitioned
                (quietly (requeueUnknownConfirmation e 7 known claimKey (sr_messageId result)))
            | success \<Rightarrow> quietly (rows_step e 8 (\<lambda>w. (add_audit reservationId CONFIRMATION_SMS_SENT_EVENT w, ()))))))
       (\<lambda>err. case err of
          NotificationProviderRefusedError p c \<Rightarrow> throw err
        | _ \<Rightarrow>
            (let res = classifyNotificationError err; messageId = own_message_id err in
             next_do (recordNotificationResult e 9 claimKey token res (telnyx_sms\<lparr>cm_messageId := messageId\<rparr>))
               (\<lambda>transitioned.
                  if res = unknown
                  then only_if transitioned (quietly (requeueUnknownConfirmation e 10 known claimKey messageId))
                  else throw err)))"

definition processOutboundConfirmJob :: "nenv_rows \<Rightarrow> (reconcile_job \<Rightarrow> bool) \<Rightarrow> provider_answer \<Rightarrow> id \<Rightarrow>
    (notify_rows, unit) action" where
  "processOutboundConfirmJob e known answer reservationId =
     next_do (read_rows e 0 (\<lambda>w. case find_reservation reservationId w of
         Some r \<Rightarrow> if confirmation_eligible (ne_now e 0) r w then Some r else None | None \<Rightarrow> None))
       (\<lambda>reservation. case reservation of None \<Rightarrow> give () | Some r \<Rightarrow>
       next_do (read_rows e 1 (\<lambda>w. (reservationId, CONFIRMATION_SMS_SENT_EVENT) \<in> set (nw_audits w)))
         (\<lambda>alreadyAudited. if alreadyAudited then give () else
         (let claimKey = buildNotificationClaimKey ''reservation-confirmation-sms'' reservationId in
          next_do (acquireNotificationClaim e 2 claimKey telnyx_sms) (\<lambda>attempt.
            case ca_token attempt of
              Some token \<Rightarrow> confirmation_send e known answer reservationId claimKey token (r_customerPhone r)
            | None \<Rightarrow>
                (case ca_record attempt of
                   Some c \<Rightarrow> only_if (nc_status c = CS_unknown)
                     (quietly (requeueUnknownConfirmation e 4 known claimKey (nc_messageId c)))
                 | None \<Rightarrow> give ())))))"

section \<open>Follow-ups to lost calls\<close>

definition hasReservationForCall :: "id \<Rightarrow> notify_rows \<Rightarrow> bool" where
  "hasReservationForCall callId w = list_ex (\<lambda>r. r_callId r = Some callId) (nw_reservations w)"

definition requeueUnknownRecovery :: "nenv_rows \<Rightarrow> nat \<Rightarrow> (reconcile_job \<Rightarrow> bool) \<Rightarrow> string \<Rightarrow> string option \<Rightarrow>
    (notify_rows, unit) action" where
  "requeueUnknownRecovery e k known claimKey messageId =
     enqueueNotificationReconciliation e k known (sms_job claimKey messageId)"

definition recovery_send :: "nenv_rows \<Rightarrow> (reconcile_job \<Rightarrow> bool) \<Rightarrow> provider_answer \<Rightarrow> string \<Rightarrow> string \<Rightarrow> string option \<Rightarrow>
    (notify_rows, unit) action" where
  "recovery_send e known answer claimKey token recipient =
     catch
       (next_do (send_step e 4 (Some (claimKey, token)) recipient answer) (\<lambda>v.
          let result = normalizeNotificationSendResult v telnyx sms in
          next_do (recordNotificationResult e 5 claimKey token (sr_outcome result) (metadata_of result)) (\<lambda>transitioned.
            case sr_outcome result of
              unknown \<Rightarrow> only_if transitioned
                (quietly (requeueUnknownRecovery e 6 known claimKey (sr_messageId result)))
            | failure_certain \<Rightarrow>
                throw (NotificationProviderRefusedError (the (sr_provider result)) (the (sr_channel result)))
            | success \<Rightarrow> give ())))
       (\<lambda>err. case err of
          NotificationProviderRefusedError p c \<Rightarrow> throw err
        | _ \<Rightarrow>
            (let res = classifyNotificationError err; messageId = own_message_id err in
             next_do (recordNotificationResult e 7 claimKey token res (telnyx_sms\<lparr>cm_messageId := messageId\<rparr>))
               (\<lambda>transitioned.
                  if res = unknown
                  then only_if transitioned (quietly (requeueUnknownRecovery e 8 known claimKey messageId))
                  else throw err)))"

text \<open>A failed lookup of the reservation does not hold the message back.\<close>

definition processCallRecoveryJob :: "nenv_rows \<Rightarrow> (reconcile_job \<Rightarrow> bool) \<Rightarrow> provider_answer \<Rightarrow> id \<Rightarrow> string \<Rightarrow>
    (notify_rows, unit) action" where
  "processCallRecoveryJob e known answer callId customerPhone =
     next_do (catch (read_rows e 0 (hasReservationForCall callId)) (\<lambda>_. give False)) (\<lambda>booked.
       if booked then give ()
       else (let claimKey = buildNotificationClaimKey ''call-recovery-sms'' callId in
         next_do (acquireNotificationClaim e 1 claimKey telnyx_sms) (\<lambda>attempt.
           case ca_token attempt of
             Some token \<Rightarrow> recovery_send e known answer claimKey token (Some customerPhone)
           | None \<Rightarrow>
               (case ca_record attempt of
                  Some c \<Rightarrow> only_if (nc_status c = CS_unknown)
                    (quietly (requeueUnknownRecovery e 3 known claimKey (nc_messageId c)))
                | None \<Rightarrow> give ()))))"

section \<open>Reminders: the sender\<close>

datatype skipped = non_web_booking | no_whatsapp_consent | whatsapp_unavailable | outside_reminder_window | missing_recipient

record reminder_result =
  sd_channel :: notif_channel
  sd_success :: bool
  sd_outcome :: "outcome option"
  sd_provider :: "provider option"
  sd_messageId :: "string option"
  sd_skipped :: "skipped option"

definition skipped_result :: "skipped \<Rightarrow> reminder_result" where
  "skipped_result why = \<lparr>sd_channel = whatsapp, sd_success = False, sd_outcome = None, sd_provider = None,
     sd_messageId = None, sd_skipped = Some why\<rparr>"

definition unknown_result :: "notif_channel \<Rightarrow> provider \<Rightarrow> reminder_result" where
  "unknown_result c p = \<lparr>sd_channel = c, sd_success = False, sd_outcome = Some unknown, sd_provider = Some p,
     sd_messageId = None, sd_skipped = None\<rparr>"

record whatsapp_config =
  wc_provider :: provider
  wc_configured :: bool

record reminder_params =
  rm_to :: string
  rm_reservationId :: "id option"
  rm_channel :: "channel option"
  rm_whatsappOptIn :: bool

definition asSendResult :: "send_result option \<Rightarrow> provider \<Rightarrow> notif_channel \<Rightarrow> reminder_result" where
  "asSendResult v p c =
    (let n = normalizeNotificationSendResult v p c
     in \<lparr>sd_channel = c, sd_success = (sr_outcome n = success), sd_outcome = Some (sr_outcome n),
         sd_provider = sr_provider n, sd_messageId = kept_text (sr_messageId n), sd_skipped = None\<rparr>)"

definition asErrorResult :: "thrown \<Rightarrow> provider \<Rightarrow> notif_channel \<Rightarrow> reminder_result" where
  "asErrorResult err p c =
     \<lparr>sd_channel = c, sd_success = False, sd_outcome = Some (classifyNotificationError err), sd_provider = Some p,
      sd_messageId = kept_text (getNotificationErrorProviderMessageId err), sd_skipped = None\<rparr>"

definition result_metadata :: "reminder_result \<Rightarrow> claim_metadata" where
  "result_metadata r = \<lparr>cm_provider = sd_provider r, cm_channel = Some (sd_channel r), cm_messageId = sd_messageId r\<rparr>"

text \<open>Steps \<open>k\<close> and \<open>k + 1\<close>. The reconciliation queue is given whenever the store is.\<close>

definition retainClaimResult :: "nenv_rows \<Rightarrow> nat \<Rightarrow> (reconcile_job \<Rightarrow> bool) \<Rightarrow> (string \<times> string) option \<Rightarrow> reminder_result \<Rightarrow>
    (notify_rows, unit) action" where
  "retainClaimResult e k known claim result =
    (case (claim, sd_outcome result, sd_provider result) of
       (Some (key, token), Some res, Some p) \<Rightarrow>
         quietly (next_do (recordNotificationResult e k key token res (result_metadata result)) (\<lambda>transitioned.
           only_if (res = unknown \<and> transitioned) (enqueueNotificationReconciliation e (k + 1) known
             \<lparr>rj_claimKey = key, rj_provider = p, rj_channel = sd_channel result, rj_messageId = sd_messageId result\<rparr>)))
     | _ \<Rightarrow> give ())"

text \<open>Step \<open>k\<close>.\<close>

definition resultForExistingClaim :: "nenv_rows \<Rightarrow> nat \<Rightarrow> (reconcile_job \<Rightarrow> bool) \<Rightarrow> claim \<Rightarrow> string \<Rightarrow> provider \<Rightarrow>
    notif_channel \<Rightarrow> (notify_rows, reminder_result) action" where
  "resultForExistingClaim e k known r claimKey fallbackProvider fallbackChannel =
    (let p = orElse (nc_provider r) fallbackProvider;
         c = (if nc_channel r = Some sms \<or> nc_channel r = Some whatsapp then the (nc_channel r) else fallbackChannel)
     in next_do
       (case (nc_provider r, nc_channel r) of
          (Some p', Some c') \<Rightarrow> only_if (nc_status r = CS_unknown) (quietly (enqueueNotificationReconciliation e k known
            \<lparr>rj_claimKey = claimKey, rj_provider = p', rj_channel = c', rj_messageId = kept_text (nc_messageId r)\<rparr>))
        | _ \<Rightarrow> give ())
       (\<lambda>_. give (if nc_status r = CS_success
          then \<lparr>sd_channel = c, sd_success = True, sd_outcome = Some success, sd_provider = Some p,
                sd_messageId = kept_text (nc_messageId r), sd_skipped = None\<rparr>
          else unknown_result c p)))"

definition reminder_key :: "notif_channel \<Rightarrow> id \<Rightarrow> string" where
  "reminder_key c i = buildNotificationClaimKey (''reservation-reminder-'' @ notif_channel_name c) i"

text \<open>The claims of both channels, in this order; an unfinished one wins over a later success. Steps \<open>k\<close> and on.\<close>

fun existing_loop :: "nenv_rows \<Rightarrow> nat \<Rightarrow> (reconcile_job \<Rightarrow> bool) \<Rightarrow> id \<Rightarrow> (notif_channel \<times> provider) list \<Rightarrow>
    reminder_result option \<Rightarrow> (notify_rows, reminder_result option) action" where
  "existing_loop e k known i [] found = give found"
| "existing_loop e k known i ((c, p) # cs) found =
     next_do (getNotificationClaim e k (reminder_key c i)) (\<lambda>record. case record of
         None \<Rightarrow> existing_loop e (k + 2) known i cs found
       | Some r \<Rightarrow>
           next_do (resultForExistingClaim e (k + 1) known r (reminder_key c i) p c) (\<lambda>res.
             if nc_status r \<noteq> CS_success then give (Some res)
             else existing_loop e (k + 2) known i cs (Some res)))"

definition findExistingReminderClaim :: "nenv_rows \<Rightarrow> nat \<Rightarrow> (reconcile_job \<Rightarrow> bool) \<Rightarrow> whatsapp_config \<Rightarrow> bool \<Rightarrow>
    reminder_params \<Rightarrow> (notify_rows, reminder_result option) action" where
  "findExistingReminderClaim e k known cfg managed params =
    (if \<not> managed \<or> \<not> truthy (rm_reservationId params) then give None
     else existing_loop e k known (the (rm_reservationId params)) [(whatsapp, wc_provider cfg), (sms, telnyx)] None)"

datatype reminder_claim = RC_none | RC_handle string string | RC_result reminder_result

text \<open>Steps \<open>k\<close> to \<open>k + 2\<close>.\<close>

definition acquireReminderChannelClaim :: "nenv_rows \<Rightarrow> nat \<Rightarrow> (reconcile_job \<Rightarrow> bool) \<Rightarrow> whatsapp_config \<Rightarrow> bool \<Rightarrow>
    reminder_params \<Rightarrow> notif_channel \<Rightarrow> (notify_rows, reminder_claim) action" where
  "acquireReminderChannelClaim e k known cfg managed params c =
    (if \<not> managed \<or> \<not> truthy (rm_reservationId params) then give RC_none
     else let key = reminder_key c (the (rm_reservationId params));
              p = (if c = whatsapp then wc_provider cfg else telnyx)
       in next_do (acquireNotificationClaim e k key \<lparr>cm_provider = Some p, cm_channel = Some c, cm_messageId = None\<rparr>)
         (\<lambda>attempt. case ca_token attempt of
             Some token \<Rightarrow> give (RC_handle key token)
           | None \<Rightarrow>
               (case ca_record attempt of
                  Some r \<Rightarrow> next_do (resultForExistingClaim e (k + 2) known r key p c) (\<lambda>res. give (RC_result res))
                | None \<Rightarrow> give (RC_result (unknown_result c p)))))"

text \<open>\<open>caller\<close> is the claim that the caller holds when it manages claims itself.\<close>

definition sendReminder :: "nenv_rows \<Rightarrow> (reconcile_job \<Rightarrow> bool) \<Rightarrow> whatsapp_config \<Rightarrow> provider_answer \<Rightarrow> bool \<Rightarrow>
    (string \<times> string) option \<Rightarrow> reminder_params \<Rightarrow> (notify_rows, reminder_result) action" where
  "sendReminder e known cfg answer managed caller params =
     next_do (findExistingReminderClaim e 3 known cfg managed params) (\<lambda>existing. case existing of
         Some res \<Rightarrow> give res
       | None \<Rightarrow>
         if rm_channel params \<noteq> Some WEB then give (skipped_result non_web_booking)
         else if \<not> rm_whatsappOptIn params then give (skipped_result no_whatsapp_consent)
         else if \<not> wc_configured cfg then give (skipped_result whatsapp_unavailable)
         else next_do (acquireReminderChannelClaim e 7 known cfg managed params whatsapp) (\<lambda>claim. case claim of
             RC_result res \<Rightarrow> give res
           | _ \<Rightarrow>
             (let held = (case claim of RC_handle key token \<Rightarrow> Some (key, token) | _ \<Rightarrow> None) in
              next_do (catch
                  (next_do (send_step e 10 (orElse_opt held caller) (Some (rm_to params)) answer)
                    (\<lambda>v. give (asSendResult v (wc_provider cfg) whatsapp)))
                  (\<lambda>err. give (asErrorResult err (wc_provider cfg) whatsapp)))
                (\<lambda>res. next_do (retainClaimResult e 11 known held res) (\<lambda>_. give res)))))"

section \<open>Reminders: the worker\<close>

text \<open>Tomorrow is the restaurant's local date; dates are day numbers.\<close>

definition isReminderDue :: "zone \<Rightarrow> instant \<Rightarrow> instant \<Rightarrow> bool" where
  "isReminderDue off date now =
     (now < date \<and> fst (utcToZonedParts off date) = fst (utcToZonedParts off now) + 1)"

definition isReminderEligible :: "notified_row \<Rightarrow> bool" where
  "isReminderEligible r =
     (isConfirmedReservation (Some (r_status r)) (Some (r_state r)) \<and> r_confirmationSentAt r = None)"

definition getResultOutcome :: "reminder_result \<Rightarrow> outcome" where
  "getResultOutcome r = orElse (sd_outcome r) (if sd_success r then success else failure_certain)"

definition requeueUnknownClaim :: "nenv_rows \<Rightarrow> nat \<Rightarrow> (reconcile_job \<Rightarrow> bool) \<Rightarrow> string \<Rightarrow> claim_metadata \<Rightarrow>
    (notify_rows, unit) action" where
  "requeueUnknownClaim e k known claimKey m =
    (case (cm_provider m, cm_channel m) of
       (Some p, Some c) \<Rightarrow> enqueueNotificationReconciliation e k known
         \<lparr>rj_claimKey = claimKey, rj_provider = p, rj_channel = c, rj_messageId = kept_text (cm_messageId m)\<rparr>
     | _ \<Rightarrow> give ())"

text \<open>Steps \<open>k\<close> and \<open>k + 1\<close>.\<close>

definition recordWorkerResult :: "nenv_rows \<Rightarrow> nat \<Rightarrow> (reconcile_job \<Rightarrow> bool) \<Rightarrow> string \<Rightarrow> string \<Rightarrow> reminder_result \<Rightarrow>
    (notify_rows, unit) action" where
  "recordWorkerResult e k known claimKey token result =
    (let m = (result_metadata result)\<lparr>cm_provider := Some (orElse (sd_provider result) telnyx)\<rparr> in
     next_do (recordNotificationResult e k claimKey token (getResultOutcome result) m) (\<lambda>transitioned.
       only_if (getResultOutcome result = unknown \<and> transitioned) (requeueUnknownClaim e (k + 1) known claimKey m)))"

definition error_result :: "outcome \<Rightarrow> reminder_result" where
  "error_result res = \<lparr>sd_channel = sms, sd_success = False, sd_outcome = Some res, sd_provider = Some telnyx,
     sd_messageId = None, sd_skipped = None\<rparr>"

text \<open>The path of a worker that holds the claim itself and calls a sender without one.\<close>

definition unmanaged_reminder :: "nenv_rows \<Rightarrow> (reconcile_job \<Rightarrow> bool) \<Rightarrow> whatsapp_config \<Rightarrow> provider_answer \<Rightarrow> id \<Rightarrow>
    reminder_params \<Rightarrow> (notify_rows, reminder_result) action" where
  "unmanaged_reminder e known cfg answer i params =
    (let claimKey = buildNotificationClaimKey ''reservation-reminder'' i in
     next_do (acquireNotificationClaim e 1 claimKey telnyx_sms) (\<lambda>attempt. case ca_token attempt of
         None \<Rightarrow>
           next_do (case ca_record attempt of
               Some r \<Rightarrow> only_if (nc_status r = CS_unknown) (quietly (requeueUnknownClaim e 3 known claimKey
                 \<lparr>cm_provider = nc_provider r, cm_channel = nc_channel r, cm_messageId = nc_messageId r\<rparr>))
             | None \<Rightarrow> give ())
             (\<lambda>_. give (unknown_result sms telnyx))
       | Some token \<Rightarrow>
           catch
             (next_do (sendReminder e known cfg answer False (Some (claimKey, token)) params) (\<lambda>res.
                next_do (if sd_skipped res \<noteq> None
                    then next_do (recordNotificationResult e 13 claimKey token failure_certain
                      \<lparr>cm_provider = None, cm_channel = None, cm_messageId = None\<rparr>) (\<lambda>_. give ())
                    else recordWorkerResult e 14 known claimKey token res)
                  (\<lambda>_. give res)))
             (\<lambda>err. let res = classifyNotificationError err in
                next_do (recordWorkerResult e 16 known claimKey token (error_result res)) (\<lambda>_.
                  if res = failure_certain then throw err else give (error_result res)))))"

definition whatsapp_opt_in :: "jval \<Rightarrow> bool" where
  "whatsapp_opt_in v = (jmember v ''transactionalWhatsapp'' = Some (VBool True))"

definition processReminderForReservation :: "nenv_rows \<Rightarrow> (reconcile_job \<Rightarrow> bool) \<Rightarrow> whatsapp_config \<Rightarrow> zone \<Rightarrow>
    provider_answer \<Rightarrow> bool \<Rightarrow> notified_row \<Rightarrow> (notify_rows, reminder_result) action" where
  "processReminderForReservation e known cfg off answer manageReminderClaims r =
    (let instant = orElse (r_startsAt r) (r_reservedAt r); optIn = whatsapp_opt_in (r_consents r);
         params = \<lparr>rm_to = orElse (r_customerPhone r) [], rm_reservationId = Some (r_id r), rm_channel = Some (r_channel r),
           rm_whatsappOptIn = optIn\<rparr>
     in if \<not> isReminderDue off instant (ne_now e 0) then give (skipped_result outside_reminder_window)
        else if \<not> truthy (r_customerPhone r) then give (skipped_result missing_recipient)
        else if r_channel r \<noteq> WEB then give (skipped_result non_web_booking)
        else if \<not> optIn then give (skipped_result no_whatsapp_consent)
        else if manageReminderClaims then sendReminder e known cfg answer True None params
        else unmanaged_reminder e known cfg answer (r_id r) params)"

definition restaurant_zone :: "runtime \<Rightarrow> notified_row \<Rightarrow> notify_rows \<Rightarrow> zone" where
  "restaurant_zone rt r w = (case restaurant_of (r_restaurantId r) w of
     Some t \<Rightarrow> tzdb rt (nt_timezone t) | None \<Rightarrow> tzdb rt [])"

definition mark_reminded :: "id \<Rightarrow> instant \<Rightarrow> notify_rows \<Rightarrow> notify_rows" where
  "mark_reminded i now w = w\<lparr>nw_reservations := upd_where (\<lambda>r. r_id r = i)
     (\<lambda>r. r\<lparr>r_confirmationStatus := CF_PENDING, r_confirmationSentAt := Some now\<rparr>) (nw_reservations w)\<rparr>"

text \<open>The send and what follows from its outcome; the answer is the channel of a message sent.\<close>

definition remind :: "runtime \<Rightarrow> nenv_rows \<Rightarrow> (reconcile_job \<Rightarrow> bool) \<Rightarrow> whatsapp_config \<Rightarrow> provider_answer \<Rightarrow> bool \<Rightarrow>
    notified_row \<times> zone \<Rightarrow> (notify_rows, notif_channel option) action" where
  "remind rt e known cfg answer manage row =
     next_do (processReminderForReservation e known cfg (snd row) answer manage (fst row)) (\<lambda>res.
       if sd_skipped res \<noteq> None then give None
       else case getResultOutcome res of
         success \<Rightarrow>
           next_do (rows_step e 20 (\<lambda>w. (mark_reminded (r_id (fst row)) (ne_now e 20) w,
               find_reservation (r_id (fst row)) w \<noteq> None)))
             (\<lambda>ok. if ok then give (Some (sd_channel res)) else throw (Thrown (error_object ''P2025'')))
       | failure_certain \<Rightarrow>
           throw (NotificationProviderRefusedError (orElse (sd_provider res) telnyx) (sd_channel res))
       | unknown \<Rightarrow> give None)"

definition due_rows :: "instant \<Rightarrow> notify_rows \<Rightarrow> notified_row list" where
  "due_rows now w =
    (let horizon = now + 72 * 3600000 in
     filter (\<lambda>r. r_channel r = WEB \<and> r_status r = St_CONFIRMED \<and>
       (let t = orElse (r_startsAt r) (r_reservedAt r) in now < t \<and> t < horizon) \<and> r_customerPhone r \<noteq> None \<and>
       r_confirmationStatus r \<in> {CF_NOT_REQUIRED, CF_PENDING} \<and> r_confirmationSentAt r = None) (nw_reservations w))"

record scan_result =
  sn_sent :: nat
  sn_whatsapp :: nat
  sn_sms :: nat
  sn_total :: nat

text \<open>The environment of the reservation at place \<open>i\<close> of the scan is \<open>es i\<close>.\<close>

definition scan_one :: "runtime \<Rightarrow> nenv_rows \<Rightarrow> (reconcile_job \<Rightarrow> bool) \<Rightarrow> whatsapp_config \<Rightarrow> provider_answer \<Rightarrow> bool \<Rightarrow>
    id \<Rightarrow> (notify_rows, bool \<times> notif_channel option) action" where
  "scan_one rt e known cfg answer manage i =
     catch
       (next_do (read_rows e 0 (\<lambda>w. map_option (\<lambda>r. (r, restaurant_zone rt r w)) (find_reservation i w))) (\<lambda>latest.
          case latest of
            None \<Rightarrow> give (False, None)
          | Some row \<Rightarrow>
              if \<not> isReminderEligible (fst row) then give (False, None)
              else next_do (remind rt e known cfg answer manage row) (\<lambda>c. give (False, c))))
       (\<lambda>err. catch
          (next_do (queue_step e 21 (\<lambda>s. s\<lparr>ns_rows := (ns_rows s)\<lparr>nw_reminderJobs := nw_reminderJobs (ns_rows s) @ [i]\<rparr>\<rparr>))
            (\<lambda>_. give (False, None)))
          (\<lambda>_. give (True, None)))"

fun scan_loop :: "runtime \<Rightarrow> (nat \<Rightarrow> nenv_rows) \<Rightarrow> (reconcile_job \<Rightarrow> bool) \<Rightarrow> whatsapp_config \<Rightarrow> (nat \<Rightarrow> provider_answer) \<Rightarrow>
    bool \<Rightarrow> nat \<Rightarrow> notified_row list \<Rightarrow> scan_result \<times> bool \<Rightarrow> (notify_rows, scan_result \<times> bool) action" where
  "scan_loop rt es known cfg answers manage i [] acc = give acc"
| "scan_loop rt es known cfg answers manage i (r # rows) acc =
     (if \<not> truthy (r_customerPhone r) then scan_loop rt es known cfg answers manage (Suc i) rows acc
      else next_do (scan_one rt (es i) known cfg (answers i) manage (r_id r)) (\<lambda>(queueFailed, c).
        let t = fst acc; t' = (case c of None \<Rightarrow> t
              | Some whatsapp \<Rightarrow> t\<lparr>sn_sent := Suc (sn_sent t), sn_whatsapp := Suc (sn_whatsapp t)\<rparr>
              | Some _ \<Rightarrow> t\<lparr>sn_sent := Suc (sn_sent t), sn_sms := Suc (sn_sms t)\<rparr>)
        in scan_loop rt es known cfg answers manage (Suc i) rows (t', snd acc \<or> queueFailed)))"

datatype reminder_job = Scan | Send "id option"

definition processConfirmationSmsJob :: "runtime \<Rightarrow> (nat \<Rightarrow> nenv_rows) \<Rightarrow> (reconcile_job \<Rightarrow> bool) \<Rightarrow> whatsapp_config \<Rightarrow>
    (nat \<Rightarrow> provider_answer) \<Rightarrow> bool \<Rightarrow> reminder_job \<Rightarrow> (notify_rows, scan_result option) action" where
  "processConfirmationSmsJob rt es known cfg answers manage job =
    (case job of
       Scan \<Rightarrow>
         next_do (read_rows (es 0) 0 (due_rows (ne_now (es 0) 0))) (\<lambda>rows.
           next_do (scan_loop rt (\<lambda>i. es (Suc i)) known cfg answers manage 0 rows
               (\<lparr>sn_sent = 0, sn_whatsapp = 0, sn_sms = 0, sn_total = length rows\<rparr>, False))
             (\<lambda>(t, queueFailed).
                if queueFailed then throw (Thrown (error_object ''failed to queue one or more reminder retries''))
                else give (Some t)))
     | Send reservationId \<Rightarrow>
         if \<not> truthy reservationId then give None
         else next_do (read_rows (es 0) 0 (\<lambda>w. map_option (\<lambda>r. (r, restaurant_zone rt r w))
             (find_reservation (the reservationId) w))) (\<lambda>latest.
           case latest of
             None \<Rightarrow> throw (Thrown (error_object ''P2025''))
           | Some row \<Rightarrow>
               if \<not> truthy (r_customerPhone (fst row)) \<or> \<not> isReminderEligible (fst row) then give None
               else next_do (remind rt (es 0) known cfg (answers 0) manage row) (\<lambda>_. give None)))"

end
