(* ===== verification/Notification_Reconciliation.thy ===== *)
theory Notification_Reconciliation
  imports Notification_Workers
begin

text \<open>
  What becomes of a claim whose outcome is unknown: the job that asks the provider
  (\<open>processNotificationReconciliation\<close>) and the daily sweep (\<open>sweepNotificationClaims\<close>) of
  \<open>workers/reconciliation.worker.ts\<close>, and the repair of what the original worker would have written
  (\<open>shared/queue/notification-repair.ts\<close>). The other jobs of that worker finalise calls and purge rows.
\<close>

section \<open>Local repair\<close>

datatype repair_status = repaired | not_required | manual

datatype repair_reference =
  outbound_confirmation id | email_confirmation id | reservation_reminder id | waiting_list_promotion id |
  call_recovery id | gift_card_reminder id

definition starts_with :: "string \<Rightarrow> string \<Rightarrow> bool" where
  "starts_with p s = (take (length p) s = p)"

definition parseNotificationRepairReference :: "string \<Rightarrow> repair_reference option" where
  "parseNotificationRepairReference claimKey =
    (if \<not> starts_with ''notification:'' claimKey then None
     else let remainder = drop (length ''notification:'') claimKey;
              operation = takeWhile (\<lambda>c. c \<noteq> CHR '':'') remainder;
              i = drop (Suc (length operation)) remainder
       in if operation = [] \<or> operation = remainder \<or> i = [] then None
          else if operation = ''reservation-confirmation-sms'' then Some (outbound_confirmation i)
          else if operation = ''reservation-confirmation-email'' then Some (email_confirmation i)
          else if operation \<in> {''reservation-reminder-sms'', ''reservation-reminder-whatsapp''}
          then Some (reservation_reminder i)
          else if operation \<in> {''waiting-list-promotion-sms'', ''waiting-list-promotion-email''}
          then Some (waiting_list_promotion i)
          else if operation = ''call-recovery-sms'' then Some (call_recovery i)
          else if operation = ''gift-card-expiration-reminder'' then Some (gift_card_reminder i)
          else None)"

text \<open>Steps \<open>k\<close> to \<open>k + 2\<close>.\<close>

definition repairOutboundConfirmation :: "nenv_rows \<Rightarrow> nat \<Rightarrow> id \<Rightarrow> notif_channel \<Rightarrow> (notify_rows, repair_status) action" where
  "repairOutboundConfirmation e k i c =
    (let event = (if c = sms then CONFIRMATION_SMS_SENT_EVENT else ''CONFIRMATION_EMAIL_SENT'') in
     next_do (read_rows e k (find_reservation i)) (\<lambda>r. case r of
         None \<Rightarrow> give manual
       | Some _ \<Rightarrow>
           next_do (read_rows e (k + 1) (\<lambda>w. (i, event) \<in> set (nw_audits w))) (\<lambda>existing.
             if existing then give not_required
             else next_do (rows_step e (k + 2) (\<lambda>w. (add_audit i event w, ()))) (\<lambda>_. give repaired))))"

definition unreminded :: "id \<Rightarrow> notified_row \<Rightarrow> bool" where
  "unreminded i r = (r_id r = i \<and> r_status r = St_CONFIRMED \<and> r_state r = CONFIRMED \<and> r_confirmationSentAt r = None)"

definition repairReservationReminder :: "nenv_rows \<Rightarrow> nat \<Rightarrow> id \<Rightarrow> instant \<Rightarrow> (notify_rows, repair_status) action" where
  "repairReservationReminder e k i now =
     next_do (read_rows e k (find_reservation i)) (\<lambda>found. case found of
         None \<Rightarrow> give manual
       | Some r \<Rightarrow>
           if r_confirmationSentAt r \<noteq> None then give not_required
           else if \<not> isConfirmedReservation (Some (r_status r)) (Some (r_state r)) then give manual
           else next_do (rows_step e (k + 1) (\<lambda>w.
               (w\<lparr>nw_reservations := upd_where (unreminded i)
                   (\<lambda>r. r\<lparr>r_confirmationStatus := CF_PENDING, r_confirmationSentAt := Some now\<rparr>) (nw_reservations w)\<rparr>,
                count_where (unreminded i) (nw_reservations w))))
             (\<lambda>n. if 0 < n then give repaired
                else next_do (read_rows e (k + 2) (find_reservation i)) (\<lambda>latest.
                  give (case latest of
                      Some r' \<Rightarrow> if r_confirmationSentAt r' \<noteq> None then not_required else manual
                    | None \<Rightarrow> manual))))"

definition find_gift :: "id \<Rightarrow> notify_rows \<Rightarrow> (id \<times> instant option) option" where
  "find_gift i w = find (\<lambda>g. fst g = i) (nw_giftReminders w)"

definition repairGiftCardReminder :: "nenv_rows \<Rightarrow> nat \<Rightarrow> id \<Rightarrow> instant \<Rightarrow> (notify_rows, repair_status) action" where
  "repairGiftCardReminder e k i now =
     next_do (read_rows e k (find_gift i)) (\<lambda>found. case found of
         None \<Rightarrow> give manual
       | Some g \<Rightarrow>
           if snd g \<noteq> None then give not_required
           else next_do (rows_step e (k + 1) (\<lambda>w.
               (w\<lparr>nw_giftReminders := upd_where (\<lambda>g. g = (i, None)) (\<lambda>g. (i, Some now)) (nw_giftReminders w)\<rparr>,
                count_where (\<lambda>g. g = (i, None)) (nw_giftReminders w))))
             (\<lambda>n. if 0 < n then give repaired
                else next_do (read_rows e (k + 2) (find_gift i)) (\<lambda>latest.
                  give (case latest of Some (_, Some _) \<Rightarrow> not_required | _ \<Rightarrow> manual))))"

definition repairNotificationAfterProviderSuccess :: "nenv_rows \<Rightarrow> nat \<Rightarrow> string \<Rightarrow> instant \<Rightarrow>
    (notify_rows, repair_status) action" where
  "repairNotificationAfterProviderSuccess e k claimKey now =
    (case parseNotificationRepairReference claimKey of
       None \<Rightarrow> give manual
     | Some (outbound_confirmation i) \<Rightarrow> repairOutboundConfirmation e k i sms
     | Some (email_confirmation i) \<Rightarrow> repairOutboundConfirmation e k i email
     | Some (reservation_reminder i) \<Rightarrow> repairReservationReminder e k i now
     | Some (gift_card_reminder i) \<Rightarrow> repairGiftCardReminder e k i now
     | Some (waiting_list_promotion i) \<Rightarrow> give not_required
     | Some (call_recovery i) \<Rightarrow> give not_required)"

section \<open>The reconciliation job\<close>

text \<open>The job id of a review is a function of the claim's key; \<open>known\<close> says which ids the queue still has.\<close>

definition enqueueManualReview :: "nenv_rows \<Rightarrow> nat \<Rightarrow> (reconcile_job \<Rightarrow> bool) \<Rightarrow> reconcile_job \<Rightarrow> review_reason \<Rightarrow>
    (notify_rows, unit) action" where
  "enqueueManualReview e k known j why =
     queue_step e k (\<lambda>s. if known j then s else s\<lparr>ns_reviews := ns_reviews s @ [(j, why)]\<rparr>)"

text \<open>Put the claim back to unknown and ask a human. Steps \<open>k\<close> and \<open>k + 1\<close>.\<close>

definition leave_unknown :: "nenv_rows \<Rightarrow> nat \<Rightarrow> (reconcile_job \<Rightarrow> bool) \<Rightarrow> string \<Rightarrow> reconcile_job \<Rightarrow> review_reason \<Rightarrow>
    (notify_rows, unit) action" where
  "leave_unknown e k known token j why =
     next_do (recordNotificationResult e k (rj_claimKey j) token unknown
         \<lparr>cm_provider = Some (rj_provider j), cm_channel = Some (rj_channel j), cm_messageId = rj_messageId j\<rparr>)
       (\<lambda>_. quietly (enqueueManualReview e (k + 1) known j why))"

text \<open>\<open>verdict_of\<close> is the provider's answer on a message id: a verdict, or a failure to answer.\<close>

definition reconcile_leased :: "nenv_rows \<Rightarrow> (reconcile_job \<Rightarrow> bool) \<Rightarrow> (string \<Rightarrow> outcome option) \<Rightarrow> string \<Rightarrow>
    reconcile_job \<Rightarrow> (notify_rows, unit) action" where
  "reconcile_leased e known verdict_of token j =
    (if \<not> truthy (rj_messageId j) then leave_unknown e 4 known token j provider_message_id_missing
     else case orElse (verdict_of (the (rj_messageId j))) unknown of
       unknown \<Rightarrow> leave_unknown e 4 known token j provider_status_unavailable
     | res \<Rightarrow>
         next_do (if res = success
             then catch (repairNotificationAfterProviderSuccess e 6 (rj_claimKey j) (ne_now e 6)) (\<lambda>_. give manual)
             else next_do (refusal_known (rj_claimKey j, token)) (\<lambda>_. give not_required))
           (\<lambda>repair_status.
              if repair_status = manual then leave_unknown e 4 known token j local_repair_failed
              else next_do (recordNotificationResult e 9 (rj_claimKey j) token res
                  \<lparr>cm_provider = Some (rj_provider j), cm_channel = Some (rj_channel j), cm_messageId = rj_messageId j\<rparr>)
                (\<lambda>_. give ())))"

text \<open>The lease: its token, and the job completed by what the claim says.\<close>

definition reconcile_lease :: "nenv_rows \<Rightarrow> reconcile_job \<Rightarrow> (notify_rows, (string \<times> reconcile_job) option) action" where
  "reconcile_lease e j =
     next_do (getNotificationClaim e 0 (rj_claimKey j)) (\<lambda>claim. case claim of
         None \<Rightarrow> give None
       | Some c \<Rightarrow>
           if nc_status c \<noteq> CS_unknown then give None
           else next_do (acquireNotificationReconciliationLease e 1 (rj_claimKey j)) (\<lambda>lease.
             case ca_token lease of
               None \<Rightarrow> give None
             | Some token \<Rightarrow>
                 let leased = orElse (ca_record lease) c in
                 give (Some (token,
                   \<lparr>rj_claimKey = rj_claimKey j, rj_provider = orElse (nc_provider leased) (rj_provider j),
                    rj_channel = orElse (nc_channel leased) (rj_channel j),
                    rj_messageId = kept_text (orElse_opt (nc_messageId leased) (rj_messageId j))\<rparr>))))"

definition processNotificationReconciliation :: "nenv_rows \<Rightarrow> (reconcile_job \<Rightarrow> bool) \<Rightarrow> (string \<Rightarrow> outcome option) \<Rightarrow>
    reconcile_job \<Rightarrow> (notify_rows, unit) action" where
  "processNotificationReconciliation e known verdict_of j =
     next_do (reconcile_lease e j) (\<lambda>leased. case leased of
         None \<Rightarrow> give ()
       | Some (token, j') \<Rightarrow> reconcile_leased e known verdict_of token j')"

section \<open>The daily sweep\<close>

text \<open>The replies of \<open>SCAN\<close>, up to the one that brings the cursor back to \<open>0\<close>; \<open>None\<close> when none does.\<close>

fun scanNotificationClaimKeys :: "(string \<times> string list) list \<Rightarrow> string list option" where
  "scanNotificationClaimKeys [] = None"
| "scanNotificationClaimKeys ((cursor, batch) # replies) =
     (if cursor = ''0'' then Some batch else map_option (\<lambda>ks. batch @ ks) (scanNotificationClaimKeys replies))"

definition is_confirmation_key :: "string \<Rightarrow> bool" where
  "is_confirmation_key k = (starts_with ''notification:reservation-confirmation-sms:'' k \<or>
     starts_with ''notification:reservation-confirmation-email:'' k)"

text \<open>\<open>Date.now () - Date.parse (updatedAt) >= 15 * 60 * 1000\<close>, false on an invalid date.\<close>

definition settled_long_ago :: "claim \<Rightarrow> instant \<Rightarrow> bool" where
  "settled_long_ago r now = (case date_parse (nc_updatedAt r) of Some t \<Rightarrow> 900000 \<le> now - t | None \<Rightarrow> False)"

definition repair_audit :: "nenv_rows \<Rightarrow> string \<Rightarrow> claim \<Rightarrow> (notify_rows, unit) action" where
  "repair_audit e claimKey r =
     only_if (is_confirmation_key claimKey \<and> settled_long_ago r (ne_now e 4))
       (quietly (next_do (redis_step e 4 (\<lambda>now. redis_set_nx now (''audit-repair:'' @ claimKey) ''1'' 60)) (\<lambda>acquired.
          if \<not> acquired then give ()
          else next_do (repairNotificationAfterProviderSuccess e 5 claimKey (ne_now e 5)) (\<lambda>_. give ()))))"

definition sweep_requeue :: "nenv_rows \<Rightarrow> (reconcile_job \<Rightarrow> bool) \<Rightarrow> (reconcile_job \<Rightarrow> bool) \<Rightarrow> string \<Rightarrow> claim \<Rightarrow>
    (notify_rows, unit) action" where
  "sweep_requeue e known knownReview claimKey r =
    (case (nc_provider r, nc_channel r) of
       (Some p, Some c) \<Rightarrow> quietly (enqueueNotificationReconciliation e 4 known
         \<lparr>rj_claimKey = claimKey, rj_provider = p, rj_channel = c, rj_messageId = kept_text (nc_messageId r)\<rparr>)
     | _ \<Rightarrow> quietly (enqueueManualReview e 4 knownReview (sms_job claimKey None) claim_metadata_missing))"

text \<open>One key of the sweep; \<open>recovered\<close> is \<open>None\<close> when the recovery threw.\<close>

definition sweep_one :: "nenv_rows \<Rightarrow> (reconcile_job \<Rightarrow> bool) \<Rightarrow> (reconcile_job \<Rightarrow> bool) \<Rightarrow> string \<Rightarrow>
    (notify_rows, unit) action" where
  "sweep_one e known knownReview claimKey =
     next_do (catch (next_do (recoverNotificationClaim e 0 claimKey) (\<lambda>x. give (Some x))) (\<lambda>_. give None)) (\<lambda>recovered.
       case recovered of
         None \<Rightarrow> give ()
       | Some (st, found) \<Rightarrow>
           next_do (case found of Some r \<Rightarrow> give (Some r) | None \<Rightarrow> getNotificationClaim e 3 claimKey) (\<lambda>record.
             case record of
               None \<Rightarrow> give ()
             | Some r \<Rightarrow>
                 if nc_status r = CS_success then repair_audit e claimKey r
                 else if st = RS_active then give ()
                 else sweep_requeue e known knownReview claimKey r))"

fun sweep_loop :: "(nat \<Rightarrow> nenv_rows) \<Rightarrow> (reconcile_job \<Rightarrow> bool) \<Rightarrow> (reconcile_job \<Rightarrow> bool) \<Rightarrow> nat \<Rightarrow> string list \<Rightarrow>
    (notify_rows, unit) action" where
  "sweep_loop es known knownReview i [] = give ()"
| "sweep_loop es known knownReview i (k # ks) =
     next_do (sweep_one (es i) known knownReview k) (\<lambda>_. sweep_loop es known knownReview (Suc i) ks)"

text \<open>A failed scan ends the sweep without an error.\<close>

definition sweepNotificationClaims :: "(nat \<Rightarrow> nenv_rows) \<Rightarrow> (reconcile_job \<Rightarrow> bool) \<Rightarrow> (reconcile_job \<Rightarrow> bool) \<Rightarrow>
    (string \<times> string list) list \<Rightarrow> (notify_rows, unit) action" where
  "sweepNotificationClaims es known knownReview replies =
    (case scanNotificationClaimKeys replies of None \<Rightarrow> give () | Some ks \<Rightarrow> sweep_loop es known knownReview 0 ks)"

end
