(* ===== verification/Notification_Safety.thy ===== *)
theory Notification_Safety
  imports Notification_Reconciliation
begin

text \<open>
  A notification goes out once. Every operation on claims is a run of commits, each of which respects the
  claims of others; along such runs the calls to providers under one key that are not known to be refused are
  at most one. A claim lives for seven days, so the statements are about a window that ends at the instant \<open>H\<close>, no more
  than seven days after it began.
\<close>

section \<open>The invariant\<close>

definition holds_claim :: "instant \<Rightarrow> redis \<Rightarrow> string \<Rightarrow> string \<Rightarrow> bool" where
  "holds_claim H rd k t \<longleftrightarrow> (case rd k of
     Some (raw, expiresAt) \<Rightarrow> H \<le> expiresAt \<and> unescaped t \<and> (\<exists>r. raw = serializeClaim r \<and> nc_token r = Some t)
   | None \<Rightarrow> False)"

text \<open>Of the claims found in Redis, those with a token have one that a script can search for.\<close>

definition clean_text :: "string \<Rightarrow> bool" where
  "clean_text raw \<longleftrightarrow> (case parseNotificationClaim (Some raw) of
     Some r \<Rightarrow> truthy (nc_token r) \<longrightarrow> unescaped (the (nc_token r)) | None \<Rightarrow> True)"

definition open_call :: "string \<Rightarrow> sent_call \<Rightarrow> bool" where
  "open_call k c \<longleftrightarrow> \<not> sc_refused c \<and> (case sc_claim c of Some (k', t) \<Rightarrow> k' = k | None \<Rightarrow> False)"

definition open_calls :: "string \<Rightarrow> 'd nstate \<Rightarrow> sent_call list" where
  "open_calls k s = filter (open_call k) (ns_sent s)"

definition claims_ok :: "instant \<Rightarrow> 'd nstate \<Rightarrow> bool" where
  "claims_ok H s \<longleftrightarrow>
     (\<forall>k raw x. ns_claims s k = Some (raw, x) \<longrightarrow> clean_text raw) \<and>
     (\<forall>k. length (open_calls k s) \<le> 1) \<and>
     (\<forall>c \<in> set (ns_sent s). \<forall>k t. sc_claim c = Some (k, t) \<and> \<not> sc_refused c \<longrightarrow> holds_claim H (ns_claims s) k t)"

lemma held_unique: "holds_claim H rd k t \<Longrightarrow> holds_claim H rd k t' \<Longrightarrow> t = t'"
  by (auto simp: holds_claim_def split: option.splits) (metis option.inject parse_serialized)

lemma clean_serialized: "(truthy (nc_token r) \<Longrightarrow> unescaped (the (nc_token r))) \<Longrightarrow> clean_text (serializeClaim r)"
  by (simp add: clean_text_def parse_serialized)

lemma no_open_unheld:
  assumes "claims_ok H s" "\<And>t. \<not> holds_claim H (ns_claims s) k t"
  shows "open_calls k s = []"
proof -
  have "\<not> open_call k c" if "c \<in> set (ns_sent s)" for c
    using assms that by (auto simp: claims_ok_def open_call_def split: option.splits)
  then show ?thesis by (simp add: open_calls_def filter_empty_conv)
qed

section \<open>Commits\<close>

text \<open>
  One write to the shared state, by a process that may send under the tokens in \<open>T\<close>: anything that leaves claims and calls alone; a
  text where no claim is held; a claim written over one with the same token; a claim dropped because its
  attempt was refused, or by the process that holds it before it sends; a call to a provider, once per claim
  and only while holding it; and the news that a call was refused.
\<close>

inductive claim_commit :: "instant \<Rightarrow> string set \<Rightarrow> 'd nstate \<Rightarrow> 'd nstate \<Rightarrow> bool" for H T where
  cc_frame: "ns_claims s' = ns_claims s \<Longrightarrow> ns_sent s' = ns_sent s \<Longrightarrow> claim_commit H T s s'"
| cc_put: "(\<And>t. \<not> holds_claim H (ns_claims s) k t) \<Longrightarrow> clean_text raw \<Longrightarrow>
    claim_commit H T s (s\<lparr>ns_claims := (ns_claims s)(k \<mapsto> (raw, x))\<rparr>)"
| cc_write: "(\<And>t'. holds_claim H (ns_claims s) k t' \<Longrightarrow> t' = t) \<Longrightarrow> unescaped t \<Longrightarrow> nc_token r = Some t \<Longrightarrow> H \<le> x \<Longrightarrow>
    claim_commit H T s (s\<lparr>ns_claims := (ns_claims s)(k \<mapsto> (serializeClaim r, x))\<rparr>)"
| cc_drop: "(\<And>t'. holds_claim H (ns_claims s) k t' \<Longrightarrow> t' = t) \<Longrightarrow>
    (\<And>c. c \<in> set (ns_sent s) \<Longrightarrow> sc_claim c = Some (k, t) \<Longrightarrow> sc_refused c) \<Longrightarrow>
    t \<in> T \<or> Some (k, t) \<in> sc_claim ` set (ns_sent s) \<Longrightarrow>
    claim_commit H T s (s\<lparr>ns_claims := (ns_claims s)(k := None)\<rparr>)"
| cc_send: "t \<in> T \<Longrightarrow> holds_claim H (ns_claims s) k t \<Longrightarrow> open_calls k s = [] \<Longrightarrow>
    Some (k, t) \<notin> sc_claim ` set (ns_sent s) \<Longrightarrow> sc_claim c = Some (k, t) \<Longrightarrow>
    claim_commit H T s (s\<lparr>ns_sent := ns_sent s @ [c]\<rparr>)"
| cc_unclaimed: "sc_claim c = None \<Longrightarrow> claim_commit H T s (s\<lparr>ns_sent := ns_sent s @ [c]\<rparr>)"
| cc_refused: "claim_commit H T s (s\<lparr>ns_sent := upd_where (\<lambda>c. sc_claim c = Some owner) (\<lambda>c. c\<lparr>sc_refused := True\<rparr>) (ns_sent s)\<rparr>)"

lemma claim_commit_mono: "claim_commit H T s s' \<Longrightarrow> T \<subseteq> T' \<Longrightarrow> claim_commit H T' s s'"
  by (induction rule: claim_commit.induct) (auto intro: claim_commit.intros)

lemma held_other: "k \<noteq> k' \<Longrightarrow> holds_claim H (rd(k := v)) k' t \<longleftrightarrow> holds_claim H rd k' t"
  by (simp add: holds_claim_def)

lemma held_written: "unescaped t \<Longrightarrow> nc_token r = Some t \<Longrightarrow> H \<le> x \<Longrightarrow> holds_claim H (rd(k \<mapsto> (serializeClaim r, x))) k t"
  by (auto simp: holds_claim_def)

lemma open_call_other: "sc_claim c = Some (k', t) \<Longrightarrow> k' \<noteq> k \<Longrightarrow> \<not> open_call k c"
  by (simp add: open_call_def)

lemma refused_shape: "sc_claim (if sc_claim c = v then c\<lparr>sc_refused := True\<rparr> else c) = sc_claim c"
  by simp

lemma claims_ok_commit: "claim_commit H T s s' \<Longrightarrow> claims_ok H s \<Longrightarrow> claims_ok H s'"
proof (induction rule: claim_commit.induct)
  case (cc_frame s' s)
  then show ?case by (simp add: claims_ok_def open_calls_def)
next
  case (cc_put s k raw x)
  then show ?case unfolding claims_ok_def open_calls_def by (simp add: held_other) (metis held_other)
next
  case (cc_write s k t r x)
  have "clean_text (serializeClaim r)" using cc_write by (intro clean_serialized) simp
  moreover have "holds_claim H (ns_claims s) k' t' \<Longrightarrow> holds_claim H ((ns_claims s)(k \<mapsto> (serializeClaim r, x))) k' t'" for k' t'
    using held_other [of k k'] held_written [OF cc_write.hyps(2-4)] cc_write.hyps(1) by metis
  ultimately show ?case using cc_write.prems unfolding claims_ok_def open_calls_def by simp
next
  case (cc_drop s k t)
  have "holds_claim H ((ns_claims s)(k := None)) k' t'"
    if "c \<in> set (ns_sent s)" "sc_claim c = Some (k', t')" "\<not> sc_refused c" for c k' t'
  proof -
    have "holds_claim H (ns_claims s) k' t'" using cc_drop.prems that by (auto simp: claims_ok_def)
    then show ?thesis using cc_drop.hyps(1,2) that held_other [of k k'] by metis
  qed
  then show ?case using cc_drop.prems unfolding claims_ok_def open_calls_def by simp
next
  case (cc_send t s k c)
  have "length (filter (open_call k') (ns_sent s @ [c])) \<le> 1" for k'
    using cc_send open_call_other [OF cc_send.hyps(5), of k']
    by (cases "k' = k") (auto simp: claims_ok_def open_calls_def)
  then show ?case using cc_send unfolding claims_ok_def open_calls_def by auto
next
  case (cc_unclaimed c s)
  then show ?case unfolding claims_ok_def open_calls_def by (simp add: open_call_def)
next
  case (cc_refused s owner)
  have le: "length (filter (open_call k) (upd_where (\<lambda>c. sc_claim c = Some owner) (\<lambda>c. c\<lparr>sc_refused := True\<rparr>) cs))
      \<le> length (filter (open_call k) cs)" for k cs
    by (induction cs) (auto simp: upd_where_def open_call_def)
  have "length (filter (open_call k) (upd_where (\<lambda>c. sc_claim c = Some owner) (\<lambda>c. c\<lparr>sc_refused := True\<rparr>) (ns_sent s)))
      \<le> 1" for k
    using cc_refused order_trans [OF le] unfolding claims_ok_def open_calls_def by blast
  then show ?case using cc_refused unfolding claims_ok_def open_calls_def by (auto simp: upd_where_def)
qed

lemma claims_ok_commits: "(claim_commit H T)\<^sup>*\<^sup>* s s' \<Longrightarrow> claims_ok H s \<Longrightarrow> claims_ok H s'"
  by (induction rule: rtranclp_induct) (auto dest: claims_ok_commit)

section \<open>Operations as runs of commits\<close>

text \<open>
  The surroundings of an operation under the token \<open>u\<close>: others commit under other tokens, the clock stays in the
  window, the token is a UUID, and a failure of Redis or of a queue does not look like a refusal of the provider.
\<close>

definition fair :: "instant \<Rightarrow> string set \<Rightarrow> 'd nenv \<Rightarrow> bool" where
  "fair H T e \<longleftrightarrow>
     (\<forall>k s. (claim_commit H T)\<^sup>*\<^sup>* s (ne_race e k s)) \<and>
     (\<forall>k. ne_now e k < H \<and> H \<le> ne_now e k + NOTIFICATION_CLAIM_TTL_SECONDS * 1000) \<and>
     unescaped (ne_uuid e) \<and> ne_uuid e \<notin> T \<and>
     classifyNotificationError (ne_redisError e) \<noteq> failure_certain \<and>
     (\<forall>k err. ne_queue e k = Some err \<longrightarrow> classifyNotificationError err \<noteq> failure_certain)"

text \<open>
  \<open>goes H T u P m Q\<close>: from a state with \<open>P\<close>, the operation \<open>m\<close> is a run of commits under \<open>T\<close> and \<open>u\<close> that ends with
  \<open>Q\<close>.
\<close>

definition goes :: "instant \<Rightarrow> string set \<Rightarrow> string \<Rightarrow> ('d nstate \<Rightarrow> bool) \<Rightarrow> ('d, 'a) action \<Rightarrow>
    (thrown + 'a \<Rightarrow> 'd nstate \<Rightarrow> bool) \<Rightarrow> bool" where
  "goes H T u P m Q \<longleftrightarrow>
     (\<forall>s s' x. m s = (s', x) \<and> P s \<longrightarrow> (claim_commit H (insert u T))\<^sup>*\<^sup>* s s' \<and> Q x s')"

definition stable :: "instant \<Rightarrow> string set \<Rightarrow> ('d nstate \<Rightarrow> bool) \<Rightarrow> bool" where
  "stable H T P \<longleftrightarrow> (\<forall>s s'. P s \<longrightarrow> claim_commit H T s s' \<longrightarrow> P s')"

lemma stable_run: "stable H T P \<Longrightarrow> (claim_commit H T)\<^sup>*\<^sup>* s s' \<Longrightarrow> P s \<Longrightarrow> P s'"
  by (rotate_tac 1, induction rule: rtranclp_induct) (auto simp: stable_def)

lemma goesI: "(\<And>s s' x. m s = (s', x) \<Longrightarrow> P s \<Longrightarrow> (claim_commit H (insert u T))\<^sup>*\<^sup>* s s' \<and> Q x s') \<Longrightarrow> goes H T u P m Q"
  unfolding goes_def by blast

lemma goesD: "goes H T u P m Q \<Longrightarrow> m s = (s', x) \<Longrightarrow> P s \<Longrightarrow> (claim_commit H (insert u T))\<^sup>*\<^sup>* s s' \<and> Q x s'"
  by (simp add: goes_def)

lemma goes_give: "(\<And>s. P s \<Longrightarrow> Q (Inr a) s) \<Longrightarrow> goes H T u P (give a) Q"
  by (auto simp: goes_def give_def)

lemma goes_throw: "(\<And>s. P s \<Longrightarrow> Q (Inl err) s) \<Longrightarrow> goes H T u P (throw err) Q"
  by (auto simp: goes_def throw_def)

lemma goes_weaken: "goes H T u P m Q \<Longrightarrow> (\<And>s. P' s \<Longrightarrow> P s) \<Longrightarrow> (\<And>x s. Q x s \<Longrightarrow> Q' x s) \<Longrightarrow> goes H T u P' m Q'"
  unfolding goes_def by blast

lemma goes_pure: "(A \<Longrightarrow> goes H T u P m Q) \<Longrightarrow> goes H T u (\<lambda>s. P s \<and> A) m Q"
  unfolding goes_def by blast

lemma goes_next:
  assumes "goes H T u P m Q" "\<And>a. goes H T u (Q (Inr a)) (f a) R" "\<And>err s. Q (Inl err) s \<Longrightarrow> R (Inl err) s"
  shows "goes H T u P (next_do m f) R"
proof (rule goesI)
  fix s s' x
  assume run: "next_do m f s = (s', x)" and P: "P s"
  obtain s1 y where m: "m s = (s1, y)" by force
  from goesD [OF assms(1) m P] have s1: "(claim_commit H (insert u T))\<^sup>*\<^sup>* s s1" "Q y s1" by auto
  show "(claim_commit H (insert u T))\<^sup>*\<^sup>* s s' \<and> R x s'"
  proof (cases y)
    case (Inl err)
    then show ?thesis using run m s1 assms(3) by (auto simp: next_do_def)
  next
    case (Inr a)
    then have "f a s1 = (s', x)" using run m by (simp add: next_do_def)
    from goesD [OF assms(2) this] s1 Inr show ?thesis by (meson rtranclp_trans)
  qed
qed

lemma goes_catch:
  assumes "goes H T u P m Q" "\<And>err. goes H T u (Q (Inl err)) (h err) R" "\<And>a s. Q (Inr a) s \<Longrightarrow> R (Inr a) s"
  shows "goes H T u P (catch m h) R"
proof (rule goesI)
  fix s s' x
  assume run: "catch m h s = (s', x)" and P: "P s"
  obtain s1 y where m: "m s = (s1, y)" by force
  from goesD [OF assms(1) m P] have s1: "(claim_commit H (insert u T))\<^sup>*\<^sup>* s s1" "Q y s1" by auto
  show "(claim_commit H (insert u T))\<^sup>*\<^sup>* s s' \<and> R x s'"
  proof (cases y)
    case (Inr a)
    then show ?thesis using run m s1 assms(3) by (auto simp: catch_def)
  next
    case (Inl err)
    then have "h err s1 = (s', x)" using run m by (simp add: catch_def)
    from goesD [OF assms(2) this] s1 Inl show ?thesis by (meson rtranclp_trans)
  qed
qed

lemma goes_if: "goes H T u P m Q \<Longrightarrow> goes H T u P m' Q \<Longrightarrow> goes H T u P (if b then m else m') Q"
  by simp

lemma more_tokens: "(claim_commit H T)\<^sup>*\<^sup>* s s' \<Longrightarrow> (claim_commit H (insert u T))\<^sup>*\<^sup>* s s'"
  by (induction rule: rtranclp_induct)
    (auto intro: rtranclp.rtrancl_into_rtrancl claim_commit_mono [where T' = "insert u T"])

text \<open>A step whose effect, once others have gone first, is a commit that anyone could make.\<close>

lemma after_race:
  assumes "fair H T e" "stable H T P" "P s"
  shows "(claim_commit H (insert u T))\<^sup>*\<^sup>* s (ne_race e k s) \<and> P (ne_race e k s)"
  using assms more_tokens stable_run unfolding fair_def by blast

lemma goes_redis:
  assumes e: "fair H T e" "stable H T P"
    and step: "\<And>s rd a. P s \<Longrightarrow> f (ne_now e k) (ns_claims s) = (rd, a) \<Longrightarrow>
      claim_commit H (insert u T) s (s\<lparr>ns_claims := rd\<rparr>) \<and> Q (Inr a) (s\<lparr>ns_claims := rd\<rparr>) \<and>
      Q (Inl (ne_redisError e)) (s\<lparr>ns_claims := rd\<rparr>)"
    and lost: "\<And>s. P s \<Longrightarrow> Q (Inl (ne_redisError e)) s"
  shows "goes H T u P (redis_step e k f) Q"
proof (rule goesI)
  fix s s' x
  assume run: "redis_step e k f s = (s', x)" and "P s"
  then have race: "(claim_commit H (insert u T))\<^sup>*\<^sup>* s (ne_race e k s)" "P (ne_race e k s)"
    using after_race [OF e] by blast+
  obtain rd a where f: "f (ne_now e k) (ns_claims (ne_race e k s)) = (rd, a)" by force
  note go = step [OF race(2) f]
  then have "(claim_commit H (insert u T))\<^sup>*\<^sup>* s ((ne_race e k s)\<lparr>ns_claims := rd\<rparr>)"
    using race(1) by (meson rtranclp.rtrancl_into_rtrancl)
  then show "(claim_commit H (insert u T))\<^sup>*\<^sup>* s s' \<and> Q x s'"
    using run f go lost race by (cases "ne_reply e k") (auto simp: redis_step_def Let_def)
qed

lemma goes_rows:
  assumes "fair H T e" "stable H T P"
  shows "goes H T u P (rows_step e k f) (\<lambda>_. P)"
proof (rule goesI)
  fix s s' x
  assume run: "rows_step e k f s = (s', x)" and "P s"
  then have race: "(claim_commit H (insert u T))\<^sup>*\<^sup>* s (ne_race e k s)" "P (ne_race e k s)"
    using after_race [OF assms] by blast+
  have frame: "claim_commit H T' (ne_race e k s) ((ne_race e k s)\<lparr>ns_rows := w\<rparr>)" for T' w by (rule cc_frame) simp_all
  then have "P ((ne_race e k s)\<lparr>ns_rows := w\<rparr>)" for w using assms(2) race(2) unfolding stable_def by blast
  then show "(claim_commit H (insert u T))\<^sup>*\<^sup>* s s' \<and> P s'"
    using run race frame rtranclp.rtrancl_into_rtrancl [OF race(1) frame]
    by (auto simp: rows_step_def Let_def split: prod.splits option.splits)
qed

lemma goes_queue:
  assumes "fair H T e" "stable H T P" "\<And>s. ns_claims (f s) = ns_claims s" "\<And>s. ns_sent (f s) = ns_sent s"
  shows "goes H T u P (queue_step e k f)
    (\<lambda>x s. P s \<and> (\<forall>err. x = Inl err \<longrightarrow> classifyNotificationError err \<noteq> failure_certain))"
proof (rule goesI)
  fix s s' x
  assume run: "queue_step e k f s = (s', x)" and "P s"
  then have race: "(claim_commit H (insert u T))\<^sup>*\<^sup>* s (ne_race e k s)" "P (ne_race e k s)"
    using after_race [OF assms(1,2)] by blast+
  have frame: "claim_commit H T' (ne_race e k s) (f (ne_race e k s))" for T' by (rule cc_frame) (simp_all add: assms)
  then have "P (f (ne_race e k s))" using assms(2) race(2) unfolding stable_def by blast
  then show "(claim_commit H (insert u T))\<^sup>*\<^sup>* s s' \<and> P s' \<and>
      (\<forall>err. x = Inl err \<longrightarrow> classifyNotificationError err \<noteq> failure_certain)"
    using run race frame rtranclp.rtrancl_into_rtrancl [OF race(1) frame] assms(1)
    by (auto simp: queue_step_def fair_def Let_def split: option.splits)
qed

section \<open>What the owner of a token knows\<close>

text \<open>Before it has a claim, while it holds one it has not used, and once its calls are known to be refused.\<close>

definition idle :: "instant \<Rightarrow> string \<Rightarrow> 'd nstate \<Rightarrow> bool" where
  "idle H u s \<longleftrightarrow> claims_ok H s \<and> (\<forall>k. Some (k, u) \<notin> sc_claim ` set (ns_sent s))"

definition owns :: "instant \<Rightarrow> string \<Rightarrow> string \<Rightarrow> 'd nstate \<Rightarrow> bool" where
  "owns H u k s \<longleftrightarrow> idle H u s \<and> holds_claim H (ns_claims s) k u \<and> open_calls k s = []"

definition settled :: "instant \<Rightarrow> string \<Rightarrow> string \<Rightarrow> 'd nstate \<Rightarrow> bool" where
  "settled H u k s \<longleftrightarrow> claims_ok H s \<and> (\<forall>c \<in> set (ns_sent s). sc_claim c = Some (k, u) \<longrightarrow> sc_refused c)"

lemma owns_idle: "owns H u k s \<Longrightarrow> idle H u s"
  by (simp add: owns_def)

lemma idle_settled: "idle H u s \<Longrightarrow> settled H u k s"
  unfolding idle_def settled_def by (metis image_eqI)

lemma settled_ok: "settled H u k s \<Longrightarrow> claims_ok H s"
  by (simp add: settled_def)

lemma idle_ok: "idle H u s \<Longrightarrow> claims_ok H s"
  by (simp add: idle_def)

lemma stable_ok: "stable H T (claims_ok H)"
  unfolding stable_def using claims_ok_commit by blast

lemma claims_of_refused [simp]:
  "sc_claim ` set (upd_where p (sc_refused_update f) cs) = sc_claim ` set cs"
  by (induction cs) (auto simp: upd_where_def)

lemma stable_idle:
  assumes "u \<notin> T"
  shows "stable H T (idle H u)"
proof -
  have "Some (k, u) \<notin> sc_claim ` set (ns_sent s')"
    if "claim_commit H T s s'" "\<forall>k. Some (k, u) \<notin> sc_claim ` set (ns_sent s)" for k s and s' :: "'a nstate"
    using that assms by cases auto
  then show ?thesis using claims_ok_commit unfolding stable_def idle_def by blast
qed

lemma stable_owns:
  assumes "u \<notin> T"
  shows "stable H T (owns H u k)"
proof -
  have "holds_claim H (ns_claims s') k u \<and> open_calls k s' = []"
    if step: "claim_commit H T s s'" and o: "owns H u k s" for s s' :: "'a nstate"
    using step
  proof cases
    case (cc_write k' t r x)
    then show ?thesis using o held_other [of k' k] held_written [of t r H x]
      by (cases "k' = k") (auto simp: owns_def open_calls_def)
  next
    case (cc_drop k' t)
    have "k' \<noteq> k" using cc_drop(2,4) o assms by (auto simp: owns_def idle_def)
    then show ?thesis using cc_drop(1) o held_other [of k' k] by (simp add: owns_def open_calls_def)
  next
    case (cc_send t k' c)
    have "k' \<noteq> k" using cc_send(2,3) o assms held_unique [of H "ns_claims s" k' t u] by (auto simp: owns_def)
    then show ?thesis using cc_send(1,6) o open_call_other [of c k' t k] by (simp add: owns_def open_calls_def)
  next
    case (cc_put k' raw x)
    then show ?thesis using o held_other [of k' k] by (cases "k' = k") (auto simp: owns_def open_calls_def)
  next
    case (cc_refused owner)
    then show ?thesis using o by (auto simp: owns_def open_calls_def filter_empty_conv upd_where_def open_call_def)
  qed (use o in \<open>auto simp: owns_def open_calls_def open_call_def\<close>)
  then show ?thesis using stable_idle [OF assms] unfolding stable_def owns_def by blast
qed

lemma stable_settled:
  assumes "u \<notin> T"
  shows "stable H T (settled H u k)"
proof -
  have "\<forall>c \<in> set (ns_sent s'). sc_claim c = Some (k, u) \<longrightarrow> sc_refused c"
    if "claim_commit H T s s'" "\<forall>c \<in> set (ns_sent s). sc_claim c = Some (k, u) \<longrightarrow> sc_refused c" for s s' :: "'a nstate"
    using that assms by cases (auto simp: upd_where_def)
  then show ?thesis using claims_ok_commit unfolding stable_def settled_def by blast
qed

text \<open>What a reconciler knows of a refused call: there was one, and no more will be made under its claim.\<close>

definition refused_call :: "instant \<Rightarrow> string \<Rightarrow> string \<Rightarrow> 'd nstate \<Rightarrow> bool" where
  "refused_call H k t s \<longleftrightarrow> settled H t k s \<and> Some (k, t) \<in> sc_claim ` set (ns_sent s)"

lemma stable_refused: "stable H T (refused_call H k t)"
proof -
  have "refused_call H k t s'" if "claim_commit H T s s'" "refused_call H k t s" for s s' :: "'a nstate"
    using that(1)
  proof cases
    case (cc_send t' k' c)
    then show ?thesis using that claims_ok_commit [OF that(1)] by (auto simp: refused_call_def settled_def)
  qed (use that claims_ok_commit [OF that(1)] in \<open>auto simp: refused_call_def settled_def upd_where_def rev_image_eqI\<close>)
  then show ?thesis unfolding stable_def by blast
qed

definition called :: "instant \<Rightarrow> string \<Rightarrow> string \<Rightarrow> 'd nstate \<Rightarrow> bool" where
  "called H k t s \<longleftrightarrow> claims_ok H s \<and> Some (k, t) \<in> sc_claim ` set (ns_sent s)"

lemma stable_called: "stable H T (called H k t)"
proof -
  have "Some (k, t) \<in> sc_claim ` set (ns_sent s')"
    if "claim_commit H T s s'" "Some (k, t) \<in> sc_claim ` set (ns_sent s)" for s s' :: "'a nstate"
    using that by cases auto
  then show ?thesis using claims_ok_commit unfolding stable_def called_def by blast
qed

section \<open>The steps on claims\<close>

lemma frame_claims: "claim_commit H T s (s\<lparr>ns_claims := ns_claims s\<rparr>)"
  by (rule cc_frame) simp_all

lemma live_claim:
  "holds_claim H rd k t \<Longrightarrow> now < H \<Longrightarrow> \<exists>r. redis_get now k rd = Some (serializeClaim r) \<and> nc_token r = Some t"
  by (auto simp: holds_claim_def redis_get_def split: option.splits)

lemma found_token_is_held:
  assumes "redis_get now k rd = Some raw" "contains (field_pattern ''token'' t) raw" "unescaped t" "now < H"
    "holds_claim H rd k t'"
  shows "t' = t"
  using live_claim [OF assms(5,4)] assms(1-3) search_claim(1) by force

lemma clean_read:
  assumes "claims_ok H s" "parseNotificationClaim (redis_get now k (ns_claims s)) = Some r" "truthy (nc_token r)"
  shows "unescaped (the (nc_token r))"
proof -
  obtain raw where raw: "redis_get now k (ns_claims s) = Some raw"
    using assms(2) by (cases "redis_get now k (ns_claims s)") (auto simp: parseNotificationClaim_def)
  then obtain x where "ns_claims s k = Some (raw, x)"
    by (auto simp: redis_get_def split: option.splits if_splits)
  then have "clean_text raw" using assms(1) unfolding claims_ok_def by blast
  then show ?thesis using assms(2,3) raw by (simp add: clean_text_def)
qed

text \<open>What is left by a step that keeps \<open>P\<close> and fails at most by a failure of Redis or a queue.\<close>

definition kept :: "('d nstate \<Rightarrow> bool) \<Rightarrow> thrown + 'a \<Rightarrow> 'd nstate \<Rightarrow> bool" where
  "kept P x s \<longleftrightarrow> P s \<and> (\<forall>err. x = Inl err \<longrightarrow> classifyNotificationError err \<noteq> failure_certain)"

lemma kept_simps [simp]:
  "kept P (Inr a) s \<longleftrightarrow> P s"
  "kept P (Inl err) s \<longleftrightarrow> P s \<and> classifyNotificationError err \<noteq> failure_certain"
  by (simp_all add: kept_def)

lemma kept_Inr [simp]: "kept P (Inr a) = P"
  by (rule ext) simp

lemma keptD: "kept P x s \<Longrightarrow> P s"
  by (simp add: kept_def)

lemma fair_error: "fair H T e \<Longrightarrow> classifyNotificationError (ne_redisError e) \<noteq> failure_certain"
  by (simp add: fair_def)

lemma fair_now: "fair H T e \<Longrightarrow> ne_now e k < H" "fair H T e \<Longrightarrow> H \<le> ne_now e k + 604800000"
  by (simp_all add: fair_def)

lemma goes_get:
  assumes e: "fair H T e" "stable H T P" and ok: "\<And>s. P s \<Longrightarrow> claims_ok H s"
  shows "goes H T u P (getNotificationClaim e k key)
    (\<lambda>x s. kept P x s \<and> (\<forall>r. x = Inr (Some r) \<longrightarrow> truthy (nc_token r) \<longrightarrow> unescaped (the (nc_token r))))"
  unfolding getNotificationClaim_def
proof (rule goes_redis [OF e])
  fix s rd a
  assume "P s" "(ns_claims s, parseNotificationClaim (redis_get (ne_now e k) key (ns_claims s))) = (rd, a)"
  moreover have "s\<lparr>ns_claims := ns_claims s\<rparr> = s" by simp
  ultimately show "claim_commit H (insert u T) s (s\<lparr>ns_claims := rd\<rparr>) \<and>
      (kept P (Inr a) (s\<lparr>ns_claims := rd\<rparr>) \<and> (\<forall>r. Inr a = (Inr (Some r) :: thrown + claim option) \<longrightarrow> truthy (nc_token r) \<longrightarrow>
        unescaped (the (nc_token r)))) \<and>
      (kept P (Inl (ne_redisError e)) (s\<lparr>ns_claims := rd\<rparr>) \<and> (\<forall>r. Inl (ne_redisError e) = Inr (Some r) \<longrightarrow>
        truthy (nc_token r) \<longrightarrow> unescaped (the (nc_token r))))"
    using clean_read [OF ok] by (auto simp: fair_error [OF e(1)] intro: cc_frame)
qed (simp add: fair_error [OF e(1)])

text \<open>A script that replaces a claim by one with the same token writes no other.\<close>

lemma script_write:
  assumes "rd' = ns_claims s \<or> (\<exists>raw. redis_get now k (ns_claims s) = Some raw \<and>
      contains (field_pattern ''token'' t) raw \<and> rd' = replace_claim now k (Some r) (ns_claims s))"
    and "unescaped t" "nc_token r = Some t" "now < H" "H \<le> now + 604800000"
  shows "claim_commit H T s (s\<lparr>ns_claims := rd'\<rparr>)"
proof (cases "rd' = ns_claims s")
  case True
  show ?thesis by (subst True) (rule frame_claims)
next
  case False
  then obtain raw where "redis_get now k (ns_claims s) = Some raw" "contains (field_pattern ''token'' t) raw"
    "rd' = (ns_claims s)(k \<mapsto> (serializeClaim r, now + 604800000))"
    using assms(1) by (auto simp: replace_claim_def redis_set_def)
  then show ?thesis
    using cc_write [of H s k t r "now + 604800000" T] found_token_is_held assms(2-5) by blast
qed

lemma script_drop:
  assumes "compare_script now k t None (ns_claims s) = (rd', a)" "unescaped t" "now < H"
    "\<forall>c \<in> set (ns_sent s). sc_claim c = Some (k, t) \<longrightarrow> sc_refused c"
    "t \<in> T \<or> Some (k, t) \<in> sc_claim ` set (ns_sent s)"
  shows "claim_commit H T s (s\<lparr>ns_claims := rd'\<rparr>)"
proof (cases "rd' = ns_claims s")
  case True
  show ?thesis by (subst True) (rule frame_claims)
next
  case False
  then obtain raw where "redis_get now k (ns_claims s) = Some raw" "contains (field_pattern ''token'' t) raw"
    "rd' = (ns_claims s)(k := None)"
    using assms(1) by (auto simp: compare_script_def replace_claim_def redis_del_def split: option.splits if_splits)
  then show ?thesis using cc_drop [of H s k t T] found_token_is_held assms(2-5) by blast
qed

lemma compare_script_cases:
  "compare_script now k t (Some r) rd = (rd', a) \<Longrightarrow> rd' = rd \<or> (\<exists>raw. redis_get now k rd = Some raw \<and>
     contains (field_pattern ''token'' t) raw \<and> rd' = replace_claim now k (Some r) rd)"
  by (auto simp: compare_script_def split: option.splits if_splits)

lemma compare_status_script_cases:
  "compare_status_script now k t st (Some r) rd = (rd', a) \<Longrightarrow> rd' = rd \<or> (\<exists>raw. redis_get now k rd = Some raw \<and>
     contains (field_pattern ''token'' t) raw \<and> rd' = replace_claim now k (Some r) rd)"
  by (auto simp: compare_status_script_def split: option.splits if_splits)

lemma goes_write:
  fixes e :: "'d nenv" and P :: "'d nstate \<Rightarrow> bool"
  assumes e: "fair H T e" "stable H T P"
    and step: "\<And>T' (s :: 'd nstate) rd a. f (ne_now e k) (ns_claims s) = (rd, a) \<Longrightarrow> claim_commit H T' s (s\<lparr>ns_claims := rd\<rparr>)"
  shows "goes H T u P (redis_step e k f) (kept P)"
proof (rule goes_redis [OF e])
  fix s rd a
  assume P: "P s" and f: "f (ne_now e k) (ns_claims s) = (rd, a)"
  have "P (s\<lparr>ns_claims := rd\<rparr>)" using step [OF f] e(2) P unfolding stable_def by blast
  then show "claim_commit H (insert u T) s (s\<lparr>ns_claims := rd\<rparr>) \<and> kept P (Inr a) (s\<lparr>ns_claims := rd\<rparr>) \<and>
      kept P (Inl (ne_redisError e)) (s\<lparr>ns_claims := rd\<rparr>)"
    using step [OF f] by (simp add: fair_error [OF e(1)])
qed (simp add: fair_error [OF e(1)])

lemma goes_compare_status:
  assumes e: "fair H T e" "stable H T P" and t: "unescaped t" "nc_token r = Some t"
  shows "goes H T u P (compareAndReplaceClaimIfStatus e k key t st (Some r)) (kept P)"
  unfolding compareAndReplaceClaimIfStatus_def
  by (rule goes_write [OF e], rule script_write [OF _ t fair_now [OF e(1)]], erule compare_status_script_cases)

lemma goes_compare:
  assumes e: "fair H T e" "stable H T P" and t: "unescaped t" "nc_token r = Some t"
  shows "goes H T u P (compareAndReplaceClaim e k key t (Some r)) (kept P)"
  unfolding compareAndReplaceClaim_def
  by (rule goes_write [OF e], rule script_write [OF _ t fair_now [OF e(1)]], erule compare_script_cases)

lemma goes_record:
  assumes e: "fair H T e" "stable H T P" and t: "unescaped t" "res \<noteq> failure_certain"
  shows "goes H T u P (recordNotificationResult e k key t res m) (kept P)"
  using t(2) unfolding recordNotificationResult_def by (auto intro: goes_compare [OF e t(1)])

text \<open>A refusal drops the claim: of the owner, or of the call that the provider says it refused.\<close>

lemma goes_release:
  assumes e: "fair H T e" "stable H T P" and t: "unescaped t"
    and P: "\<And>s. P s \<Longrightarrow> settled H t key s" "\<And>s. P s \<Longrightarrow> t = u \<or> Some (key, t) \<in> sc_claim ` set (ns_sent s)"
  shows "goes H T u P (recordNotificationResult e k key t failure_certain m) (kept (claims_ok H))"
proof -
  have drop: "claim_commit H (insert u T) s (s\<lparr>ns_claims := rd\<rparr>)"
    if "compare_script (ne_now e k) key t None (ns_claims s) = (rd, a)" "P s" for s rd a
    using script_drop [OF that(1) t fair_now(1) [OF e(1)], of "insert u T"] P [OF that(2)] by (auto simp: settled_def)
  have ok: "claims_ok H s" if "P s" for s using P(1) [OF that] by (rule settled_ok)
  have after: "claims_ok H (s\<lparr>ns_claims := rd\<rparr>)"
    if "compare_script (ne_now e k) key t None (ns_claims s) = (rd, a)" "P s" for s rd a
    by (rule claims_ok_commit [OF drop [OF that] ok [OF that(2)]])
  show ?thesis unfolding recordNotificationResult_def compareAndReplaceClaim_def
    by (simp, rule goes_redis [OF e]) (auto simp: fair_error [OF e(1)] intro: drop after ok)
qed

section \<open>The operations on claims\<close>

lemma fair_uuid: "fair H T e \<Longrightarrow> unescaped (ne_uuid e)" "fair H T e \<Longrightarrow> ne_uuid e \<notin> T"
  by (simp_all add: fair_def)

lemma goes_keep: "goes H T u P m (kept P) \<Longrightarrow> goes H T u P m (\<lambda>_. P)"
  by (erule goes_weaken) (auto dest: keptD)

lemma goes_quietly: "goes H T u P m (\<lambda>_. P) \<Longrightarrow> goes H T u P (quietly m) (kept P)"
  unfolding quietly_def by (rule goes_catch) (auto intro: goes_give)

lemma goes_only_if: "(b \<Longrightarrow> goes H T u P m (kept P)) \<Longrightarrow> goes H T u P (only_if b m) (kept P)"
  unfolding only_if_def by (auto intro: goes_give)

lemma goes_enqueue:
  assumes "fair H T e" "stable H T P"
  shows "goes H T u P (enqueueNotificationReconciliation e k known j) (kept P)"
  unfolding enqueueNotificationReconciliation_def
  by (rule goes_weaken [OF goes_queue [OF assms]]) (auto simp: add_job_def kept_def)

definition acquired :: "instant \<Rightarrow> string \<Rightarrow> string \<Rightarrow> thrown + claim_attempt \<Rightarrow> 'd nstate \<Rightarrow> bool" where
  "acquired H u key x s \<longleftrightarrow> kept (idle H u) x s \<and>
     (\<forall>attempt t. x = Inr attempt \<longrightarrow> ca_token attempt = Some t \<longrightarrow> t = u \<and> owns H u key s)"

lemma goes_acquire:
  fixes e :: "'d nenv"
  assumes e: "fair H T e" and u: "u = ne_uuid e"
  shows "goes H T u (idle H u) (acquireNotificationClaim e k key m) (acquired H u key)"
proof -
  define r where "r = \<lparr>nc_status = CS_in_progress, nc_token = Some u, nc_provider = cm_provider m,
    nc_channel = cm_channel m, nc_messageId = kept_text (cm_messageId m), nc_updatedAt = toISOString (ne_now e k)\<rparr>"
  have r: "nc_token r = Some u" "unescaped u" "u \<notin> T" using fair_uuid [OF e] by (simp_all add: r_def u)
  note stable = stable_idle [OF r(3)]
  have set_claim: "goes H T u (idle H u)
      (redis_step e k (\<lambda>now. redis_set_nx now key (serializeClaim r) NOTIFICATION_CLAIM_TTL_SECONDS))
      (\<lambda>x s. kept (idle H u) x s \<and> (x = Inr True \<longrightarrow> owns H u key s))"
  proof (rule goes_redis [OF e stable])
    fix s :: "'d nstate" and rd ok
    assume P: "idle H u s" and f: "redis_set_nx (ne_now e k) key (serializeClaim r) 604800 (ns_claims s) = (rd, ok)"
    have put: "claim_commit H T s (s\<lparr>ns_claims := rd\<rparr>) \<and> (ok \<longrightarrow> owns H u key (s\<lparr>ns_claims := rd\<rparr>))"
    proof (cases ok)
      case False
      then have "rd = ns_claims s" using f by (simp add: redis_set_nx_def split: if_splits)
      then show ?thesis using False by (simp add: cc_frame)
    next
      case True
      then have rd: "redis_get (ne_now e k) key (ns_claims s) = None"
        "rd = (ns_claims s)(key \<mapsto> (serializeClaim r, ne_now e k + 604800000))"
        using f by (auto simp: redis_set_nx_def redis_set_def split: if_splits)
      have absent: "\<not> holds_claim H (ns_claims s) key t" for t
        using live_claim [OF _ fair_now(1) [OF e, of k]] rd(1) by fastforce
      have commit: "claim_commit H T s (s\<lparr>ns_claims := rd\<rparr>)"
        unfolding rd(2) by (rule cc_put [OF absent clean_serialized]) (simp add: r)
      then have "idle H u (s\<lparr>ns_claims := rd\<rparr>)" using stable P unfolding stable_def by blast
      moreover have "holds_claim H rd key u"
        unfolding rd(2) by (rule held_written [OF r(2,1) fair_now(2) [OF e]])
      moreover have "open_calls key s = []" using no_open_unheld [OF _ absent] P by (simp add: idle_def)
      ultimately show ?thesis using commit by (simp add: owns_def open_calls_def)
    qed
    have commit: "claim_commit H T s (s\<lparr>ns_claims := rd\<rparr>)" and own: "ok \<longrightarrow> owns H u key (s\<lparr>ns_claims := rd\<rparr>)"
      using put by auto
    moreover have "idle H u (s\<lparr>ns_claims := rd\<rparr>)" using commit stable P unfolding stable_def by blast
    moreover have "claim_commit H (insert u T) s (s\<lparr>ns_claims := rd\<rparr>)"
      by (rule claim_commit_mono [OF commit]) blast
    ultimately show "claim_commit H (insert u T) s (s\<lparr>ns_claims := rd\<rparr>) \<and>
        (kept (idle H u) (Inr ok) (s\<lparr>ns_claims := rd\<rparr>) \<and> (Inr ok = (Inr True :: thrown + bool) \<longrightarrow> owns H u key (s\<lparr>ns_claims := rd\<rparr>))) \<and>
        (kept (idle H u) (Inl (ne_redisError e)) (s\<lparr>ns_claims := rd\<rparr>) \<and>
          (Inl (ne_redisError e) = (Inr True :: thrown + bool) \<longrightarrow> owns H u key (s\<lparr>ns_claims := rd\<rparr>)))"
      by (simp add: fair_error [OF e])
  qed (simp add: fair_error [OF e])
  have "goes H T u (\<lambda>s. idle H u s \<and> (ok \<longrightarrow> owns H u key s))
      (if ok then give \<lparr>ca_acquired = True, ca_token = Some u, ca_record = Some r\<rparr>
       else next_do (getNotificationClaim e (k + 1) key)
         (\<lambda>existing. give \<lparr>ca_acquired = False, ca_token = None, ca_record = existing\<rparr>)) (acquired H u key)" for ok
  proof (cases ok)
    case True
    then show ?thesis by (auto simp: acquired_def intro: goes_give)
  next
    case False
    have "goes H T u (idle H u) (next_do (getNotificationClaim e (k + 1) key)
        (\<lambda>existing. give \<lparr>ca_acquired = False, ca_token = None, ca_record = existing\<rparr>)) (acquired H u key)"
      by (rule goes_next [OF goes_get [OF e stable idle_ok]]) (auto simp: acquired_def intro: goes_give)
    then show ?thesis using False by (auto elim: goes_weaken)
  qed
  then show ?thesis unfolding acquireNotificationClaim_def Let_def u [symmetric] r_def [symmetric]
    by (intro goes_next [OF set_claim]) (auto simp: acquired_def elim: goes_weaken)
qed

text \<open>A call to the provider by the owner of an unused claim.\<close>

definition answered :: "instant \<Rightarrow> string \<Rightarrow> string \<Rightarrow> provider_answer \<Rightarrow> thrown + send_result option \<Rightarrow> 'd nstate \<Rightarrow> bool" where
  "answered H u key a x s \<longleftrightarrow> claims_ok H s \<and> (answer_refused a \<longrightarrow> settled H u key s) \<and>
     (\<forall>v. x = Inr v \<longrightarrow> a = Resolved v) \<and> (\<forall>err. x = Inl err \<longrightarrow> a = Rejected err)"

lemma goes_send:
  assumes e: "fair H T e" and u: "u \<notin> T"
  shows "goes H T u (owns H u key) (send_step e k (Some (key, u)) recipient a) (answered H u key a)"
proof (rule goesI)
  fix s s' x
  assume run: "send_step e k (Some (key, u)) recipient a s = (s', x)" and "owns H u key s"
  then have race: "(claim_commit H (insert u T))\<^sup>*\<^sup>* s (ne_race e k s)" "owns H u key (ne_race e k s)"
    using after_race [OF e stable_owns [OF u]] by blast+
  define s1 where "s1 = ne_race e k s"
  define c where "c = \<lparr>sc_claim = Some (key, u), sc_to = recipient, sc_messageId = answer_messageId a, sc_refused = answer_refused a\<rparr>"
  have own: "claims_ok H s1" "holds_claim H (ns_claims s1) key u" "open_calls key s1 = []"
    "Some (key, u) \<notin> sc_claim ` set (ns_sent s1)"
    using race(2) by (auto simp: s1_def owns_def idle_def)
  have s': "s' = s1\<lparr>ns_sent := ns_sent s1 @ [c]\<rparr>" and x: "x = (case a of Resolved v \<Rightarrow> Inr v | Rejected err \<Rightarrow> Inl err)"
    using run by (auto simp: send_step_def Let_def s1_def c_def split: provider_answer.splits)
  have send: "claim_commit H (insert u T) s1 s'"
    unfolding s' by (rule cc_send [OF _ own(2-4)]) (simp_all add: c_def)
  have "settled H u key s'" if "answer_refused a"
    using that claims_ok_commit [OF send own(1)] own(4) unfolding settled_def s' by (auto simp: c_def rev_image_eqI)
  then have "answered H u key a x s'"
    using claims_ok_commit [OF send own(1)] by (auto simp: answered_def x split: provider_answer.splits)
  then show "(claim_commit H (insert u T))\<^sup>*\<^sup>* s s' \<and> answered H u key a x s'"
    using rtranclp.rtrancl_into_rtrancl [OF race(1) [folded s1_def] send] by blast
qed

text \<open>The owner records the outcome of its call.\<close>

lemma goes_own_record:
  assumes e: "fair H T e" and u: "u = ne_uuid e"
  shows "goes H T u (\<lambda>s. claims_ok H s \<and> (res = failure_certain \<longrightarrow> settled H u key s))
    (recordNotificationResult e k key u res m) (kept (claims_ok H))"
proof (cases "res = failure_certain")
  case True
  have "goes H T u (settled H u key) (recordNotificationResult e k key u failure_certain m) (kept (claims_ok H))"
    by (rule goes_release [OF e stable_settled]) (use fair_uuid [OF e] u in auto)
  then show ?thesis unfolding True by (rule goes_weaken) auto
next
  case False
  then show ?thesis using goes_record [OF e stable_ok _ False, where t = u] fair_uuid [OF e] u
    by (auto elim: goes_weaken)
qed

lemma goes_own_record_refused:
  "fair H T e \<Longrightarrow> u = ne_uuid e \<Longrightarrow>
   goes H T u (settled H u key) (recordNotificationResult e k key u res m) (kept (claims_ok H))"
  by (rule goes_weaken [OF goes_own_record]) (auto dest: settled_ok)

lemma outcome_refused: "sr_outcome (normalizeNotificationSendResult v p c) = failure_certain \<longleftrightarrow> answer_refused (Resolved v)"
  by (cases v) (simp_all add: normalizeNotificationSendResult_def)

lemma goes_rows_keep: "fair H T e \<Longrightarrow> stable H T P \<Longrightarrow> goes H T u P (read_rows e k f) (\<lambda>_. P)"
  unfolding read_rows_def by (rule goes_rows)

section \<open>The workers\<close>

abbreviation run_ok :: "instant \<Rightarrow> thrown + 'a \<Rightarrow> 'd nstate \<Rightarrow> bool" where
  "run_ok H \<equiv> (\<lambda>_. claims_ok H)"

lemma goes_ok_give: "goes H T u (claims_ok H) (give a) (run_ok H)"
  by (rule goes_give)

lemma goes_ok_enqueue: "fair H T e \<Longrightarrow> goes H T u (claims_ok H) (enqueueNotificationReconciliation e k known j) (kept (claims_ok H))"
  by (rule goes_enqueue [OF _ stable_ok])

text \<open>
  What a handler of a failed call may assume: the claim may be dropped if the failure is a certain refusal. The
  refusal that the workers raise themselves comes after the claim was dropped and is passed on.
\<close>

definition failing :: "instant \<Rightarrow> string \<Rightarrow> string \<Rightarrow> thrown + 'a \<Rightarrow> 'd nstate \<Rightarrow> bool" where
  "failing H u key x s \<longleftrightarrow> claims_ok H s \<and>
     (\<forall>v. x = Inl (Thrown v) \<longrightarrow> classifyNotificationError (Thrown v) = failure_certain \<longrightarrow> settled H u key s)"

lemma answered_failing: "answered H u key a (Inl err) s \<Longrightarrow> failing H u key (Inl err) s"
  by (auto simp: answered_def failing_def)

lemma kept_failing: "kept (claims_ok H) x s \<Longrightarrow> failing H u key x s"
  by (auto simp: failing_def kept_def)

lemma failing_Inr [simp]: "failing H u key (Inr a) s \<longleftrightarrow> claims_ok H s"
  by (simp add: failing_def)

lemma goes_answer_record:
  assumes e: "fair H T e" and u: "u = ne_uuid e"
  shows "goes H T u (answered H u key a (Inr v))
    (recordNotificationResult e k key u (sr_outcome (normalizeNotificationSendResult v p c)) m) (kept (claims_ok H))"
  by (rule goes_weaken [OF goes_own_record [OF e u]]) (auto simp: answered_def outcome_refused)

lemma failing_refused [simp]: "failing H u key (Inl (NotificationProviderRefusedError p c)) s \<longleftrightarrow> claims_ok H s"
  by (simp add: failing_def)

lemma goes_handler:
  assumes e: "fair H T e" and u: "u = ne_uuid e" and f: "\<And>b. goes H T u (claims_ok H) (f b) (run_ok H)"
  shows "goes H T u (failing H u key (Inl err))
    (case err of NotificationProviderRefusedError p c \<Rightarrow> throw err
     | Thrown v \<Rightarrow> next_do (recordNotificationResult e k key u (classifyNotificationError err) m) f) (run_ok H)"
proof (cases err)
  case (NotificationProviderRefusedError p c)
  then show ?thesis by (auto intro: goes_throw)
next
  case (Thrown v)
  have "goes H T u (failing H u key (Inl err)) (recordNotificationResult e k key u (classifyNotificationError err) m)
      (kept (claims_ok H))"
    by (rule goes_weaken [OF goes_own_record [OF e u]]) (auto simp: failing_def Thrown)
  then show ?thesis unfolding Thrown thrown.case by (rule goes_next) (simp_all add: f)
qed

lemmas goes_ok_requeue = goes_quietly [OF goes_keep [OF goes_ok_enqueue]]

text \<open>The shape of a protected call: send, record the outcome, act on it; a failure is recorded too.\<close>

lemma goes_protected_call:
  assumes e: "fair H T e" and u: "u = ne_uuid e"
    and act: "\<And>v b. goes H T u (claims_ok H) (act v b) (failing H u key)"
  shows "goes H T u (owns H u key)
    (next_do (send_step e k (Some (key, u)) to a) (\<lambda>v.
       next_do (recordNotificationResult e k' key u (sr_outcome (normalizeNotificationSendResult v p c)) (m v)) (act v)))
    (failing H u key)"
proof (rule goes_next [OF goes_send [OF e]])
  show "u \<notin> T" using fair_uuid(2) [OF e] u by simp
  show "goes H T u (answered H u key a (Inr v))
      (next_do (recordNotificationResult e k' key u (sr_outcome (normalizeNotificationSendResult v p c)) (m v)) (act v))
      (failing H u key)" for v
    by (rule goes_next [OF goes_answer_record [OF e u]]) (simp_all add: act kept_failing)
qed (rule answered_failing)

lemma goes_manager_send:
  assumes e: "fair H T e" and u: "u = ne_uuid e"
  shows "goes H T u (owns H u key) (manager_send e known a key u to) (run_ok H)"
  unfolding manager_send_def Let_def
proof (rule goes_next [where Q = "run_ok H", OF goes_catch [where Q = "failing H u key"]])
  show "goes H T u (owns H u key)
      (next_do (send_step e 6 (Some (key, u)) to a) (\<lambda>v. next_do
         (recordNotificationResult e 7 key u (sr_outcome (normalizeNotificationSendResult v telnyx sms))
           (metadata_of (normalizeNotificationSendResult v telnyx sms)))
         (\<lambda>_. give (Some (normalizeNotificationSendResult v telnyx sms)))))
      (failing H u key)"
    by (rule goes_protected_call [OF e u]) (auto intro: goes_give)
qed (auto intro!: goes_handler [OF e u] goes_give goes_throw goes_next [OF goes_only_if [OF goes_ok_enqueue [OF e]]]
      goes_keep [OF goes_ok_enqueue [OF e]] split: option.split outcome.split)

lemma goes_act_enqueue:
  "fair H T e \<Longrightarrow> goes H T u (claims_ok H) (only_if b (quietly (enqueueNotificationReconciliation e k known j))) (failing H u key)"
  by (rule goes_weaken [OF goes_only_if [OF goes_ok_requeue]]) (auto intro: kept_failing)

lemma goes_confirmation_send:
  assumes e: "fair H T e" and u: "u = ne_uuid e"
  shows "goes H T u (owns H u key) (confirmation_send e known a i key u to) (run_ok H)"
  unfolding confirmation_send_def Let_def requeueUnknownConfirmation_def
proof (rule goes_catch [OF goes_protected_call [OF e u]])
  have audit: "goes H T u (claims_ok H) (quietly (rows_step e 8 f)) (failing H u key)" for f
    by (rule goes_weaken [OF goes_quietly [OF goes_rows [OF e stable_ok]]]) (auto intro: kept_failing)
  show "goes H T u (claims_ok H)
      (case sr_outcome (normalizeNotificationSendResult v telnyx sms) of
         success \<Rightarrow> quietly (rows_step e 8 (\<lambda>w. (add_audit i CONFIRMATION_SMS_SENT_EVENT w, ())))
       | failure_certain \<Rightarrow> throw (NotificationProviderRefusedError
           (the (sr_provider (normalizeNotificationSendResult v telnyx sms)))
           (the (sr_channel (normalizeNotificationSendResult v telnyx sms))))
       | unknown \<Rightarrow> only_if b (quietly (enqueueNotificationReconciliation e 7 known
           (sms_job key (sr_messageId (normalizeNotificationSendResult v telnyx sms))))))
      (failing H u key)" for v b
    by (auto split: outcome.split intro: audit goes_throw goes_act_enqueue [OF e])
qed (auto intro!: goes_handler [OF e u] goes_throw goes_keep [OF goes_only_if [OF goes_ok_requeue [OF e]]])

lemma goes_recovery_send:
  assumes e: "fair H T e" and u: "u = ne_uuid e"
  shows "goes H T u (owns H u key) (recovery_send e known a key u to) (run_ok H)"
  unfolding recovery_send_def Let_def requeueUnknownRecovery_def
proof (rule goes_catch [OF goes_protected_call [OF e u]])
  show "goes H T u (claims_ok H)
      (case sr_outcome (normalizeNotificationSendResult v telnyx sms) of
         success \<Rightarrow> give ()
       | failure_certain \<Rightarrow> throw (NotificationProviderRefusedError
           (the (sr_provider (normalizeNotificationSendResult v telnyx sms)))
           (the (sr_channel (normalizeNotificationSendResult v telnyx sms))))
       | unknown \<Rightarrow> only_if b (quietly (enqueueNotificationReconciliation e 6 known
           (sms_job key (sr_messageId (normalizeNotificationSendResult v telnyx sms))))))
      (failing H u key)" for v b
    by (auto split: outcome.split intro: goes_give goes_throw goes_act_enqueue [OF e])
qed (auto intro!: goes_handler [OF e u] goes_throw goes_keep [OF goes_only_if [OF goes_ok_requeue [OF e]]])

lemma goes_claimed:
  assumes e: "fair H T e" and u: "u = ne_uuid e"
    and A: "goes H T u (owns H u key) (A u) (run_ok H)" and B: "\<And>attempt. goes H T u (claims_ok H) (B attempt) (run_ok H)"
  shows "goes H T u (idle H u)
    (next_do (acquireNotificationClaim e k key m) (\<lambda>attempt. case ca_token attempt of Some t \<Rightarrow> A t | None \<Rightarrow> B attempt))
    (run_ok H)"
proof (rule goes_next [OF goes_acquire [OF e u]])
  show "goes H T u (acquired H u key (Inr attempt)) (case ca_token attempt of Some t \<Rightarrow> A t | None \<Rightarrow> B attempt) (run_ok H)" for attempt
  proof (cases "ca_token attempt")
    case None
    then show ?thesis by (auto intro!: goes_weaken [OF B] simp: acquired_def idle_ok)
  next
    case (Some t)
    show ?thesis
    proof (cases "t = u")
      case True
      then show ?thesis using Some by (auto intro!: goes_weaken [OF A] simp: acquired_def)
    next
      case False
      then show ?thesis using Some by (auto intro!: goesI simp: acquired_def)
    qed
  qed
qed (auto simp: acquired_def idle_ok)

lemma goes_ok_idle: "goes H T u (claims_ok H) m Q \<Longrightarrow> goes H T u (idle H u) m Q"
  by (erule goes_weaken) (auto simp: idle_ok)

lemma goes_idle_give: "goes H T u (idle H u) (give a) (run_ok H)"
  by (rule goes_ok_idle [OF goes_ok_give])

lemmas goes_idle_read = goes_rows_keep [OF _ stable_idle]
lemmas goes_idle_rows = goes_rows [OF _ stable_idle]

lemma goes_manager_job:
  assumes e: "fair H T e" and u: "u = ne_uuid e"
  shows "goes H T u (idle H u) (processManagerSmsJob e limit known a job) (run_ok H)"
proof -
  have T: "u \<notin> T" using fair_uuid(2) [OF e] u by simp
  have allowed: "goes H T u (idle H u) (manager_allowed e limit job i) (\<lambda>_. idle H u)" for i
    unfolding manager_allowed_def Let_def
    by (auto intro!: goes_give goes_next [OF goes_idle_rows [OF e T]] goes_idle_read [OF e T])
  have phone: "goes H T u (idle H u) (manager_phone e job) (\<lambda>_. idle H u)"
    unfolding manager_phone_def Let_def
    by (auto intro!: goes_give goes_throw goes_next [OF goes_idle_read [OF e T]] goes_idle_read [OF e T]
        split: option.split)
  show ?thesis unfolding processManagerSmsJob_def Let_def
    by (auto intro!: goes_throw goes_idle_give goes_next [OF allowed] goes_next [OF phone] goes_claimed [OF e u]
        goes_manager_send [OF e u] goes_keep [OF goes_only_if [OF goes_ok_enqueue [OF e]]] goes_ok_give
        simp: idle_ok split: option.split)
qed

lemma goes_confirmation_job:
  assumes e: "fair H T e" and u: "u = ne_uuid e"
  shows "goes H T u (idle H u) (processOutboundConfirmJob e known a i) (run_ok H)"
proof -
  have T: "u \<notin> T" using fair_uuid(2) [OF e] u by simp
  show ?thesis unfolding processOutboundConfirmJob_def Let_def requeueUnknownConfirmation_def
    by (auto intro!: goes_idle_give goes_next [OF goes_idle_read [OF e T]] goes_claimed [OF e u]
        goes_confirmation_send [OF e u] goes_keep [OF goes_only_if [OF goes_ok_requeue [OF e]]] goes_ok_give
        simp: idle_ok split: option.split)
qed

lemma goes_recovery_job:
  assumes e: "fair H T e" and u: "u = ne_uuid e"
  shows "goes H T u (idle H u) (processCallRecoveryJob e known a i phone) (run_ok H)"
proof -
  have T: "u \<notin> T" using fair_uuid(2) [OF e] u by simp
  have booked: "goes H T u (idle H u) (catch (read_rows e 0 f) (\<lambda>_. give False)) (\<lambda>_. idle H u)" for f
    by (rule goes_catch [OF goes_idle_read [OF e T]]) (auto intro: goes_give)
  show ?thesis unfolding processCallRecoveryJob_def Let_def requeueUnknownRecovery_def
    by (auto intro!: goes_idle_give goes_next [OF booked] goes_claimed [OF e u]
        goes_recovery_send [OF e u] goes_keep [OF goes_only_if [OF goes_ok_requeue [OF e]]] goes_ok_give
        simp: idle_ok split: option.split)
qed

section \<open>Reminders\<close>

lemma next_give [simp]: "next_do (give a) f = f a"
  by (rule ext) (simp add: next_do_def give_def)

lemma goes_retain:
  assumes e: "fair H T e" and u: "u = ne_uuid e"
  shows "goes H T u (\<lambda>s. claims_ok H s \<and> (sd_outcome res = Some failure_certain \<longrightarrow> settled H u key s))
    (retainClaimResult e k known (Some (key, u)) res) (run_ok H)"
proof (cases "sd_outcome res")
  case None
  then show ?thesis by (simp add: retainClaimResult_def goes_give)
next
  case (Some x)
  have "goes H T u (\<lambda>s. claims_ok H s \<and> (x = failure_certain \<longrightarrow> settled H u key s))
      (next_do (recordNotificationResult e k key u x m) (\<lambda>transitioned. only_if (x = unknown \<and> transitioned)
        (enqueueNotificationReconciliation e (k + 1) known j))) (run_ok H)" for m j
    by (rule goes_next [OF goes_own_record [OF e u]])
      (auto intro!: goes_keep [OF goes_only_if [OF goes_ok_enqueue [OF e]]])
  then have "goes H T u (\<lambda>s. claims_ok H s \<and> (x = failure_certain \<longrightarrow> settled H u key s))
      (quietly (next_do (recordNotificationResult e k key u x m) (\<lambda>transitioned. only_if (x = unknown \<and> transitioned)
        (enqueueNotificationReconciliation e (k + 1) known j)))) (run_ok H)" for m j
    unfolding quietly_def by (rule goes_catch) (auto intro: goes_ok_give)
  then show ?thesis using Some
    by (auto simp: retainClaimResult_def split: option.split intro: goes_give)
qed

lemma goes_existing_result:
  assumes e: "fair H T e" and P: "stable H T P"
  shows "goes H T u P (resultForExistingClaim e k known r key p c) (\<lambda>_. P)"
  unfolding resultForExistingClaim_def Let_def
  by (rule goes_next [where Q = "kept P"])
    (auto intro!: goes_give goes_only_if goes_quietly goes_keep [OF goes_enqueue [OF e P]] split: option.split)

lemma goes_read_claim:
  assumes "fair H T e" "stable H T P" "\<And>s. P s \<Longrightarrow> claims_ok H s"
  shows "goes H T u P (getNotificationClaim e k key) (\<lambda>_. P)"
  by (rule goes_weaken [OF goes_get [OF assms]]) (auto dest: keptD)

lemma goes_existing_loop:
  assumes e: "fair H T e" and P: "stable H T P" "\<And>s. P s \<Longrightarrow> claims_ok H s"
  shows "goes H T u P (existing_loop e k known i cs found) (\<lambda>_. P)"
proof (induction cs arbitrary: k found)
  case Nil
  then show ?case by (auto intro: goes_give)
next
  case (Cons pc cs)
  obtain c p where pc: "pc = (c, p)" by force
  show ?case unfolding pc existing_loop.simps
    by (rule goes_next [OF goes_read_claim [OF e P]])
      (auto intro!: Cons.IH goes_next [OF goes_existing_result [OF e P(1)]] goes_give split: option.split)
qed

lemma goes_managed_reminder:
  assumes e: "fair H T e" and u: "u = ne_uuid e" and r: "truthy (rm_reservationId params)"
  shows "goes H T u (idle H u) (sendReminder e known cfg a True None params) (run_ok H)"
proof -
  have T: "u \<notin> T" using fair_uuid(2) [OF e] u by simp
  define key where "key = reminder_key whatsapp (the (rm_reservationId params))"
  have find: "goes H T u (idle H u) (findExistingReminderClaim e 3 known cfg True params) (\<lambda>_. idle H u)"
    unfolding findExistingReminderClaim_def
    by (auto intro!: goes_give goes_existing_loop [OF e stable_idle [OF T]] simp: idle_ok simp del: existing_loop.simps)
  have acquire: "goes H T u (idle H u) (acquireReminderChannelClaim e 7 known cfg True params whatsapp)
      (\<lambda>x s. claims_ok H s \<and> (\<forall>k t. x = Inr (RC_handle k t) \<longrightarrow> k = key \<and> t = u \<and> owns H u key s) \<and> x \<noteq> Inr RC_none)"
    (is "goes H T u _ _ ?got")
  proof -
    have "goes H T u (acquired H u key (Inr attempt))
        (case ca_token attempt of Some token \<Rightarrow> give (RC_handle key token)
         | None \<Rightarrow> (case ca_record attempt of
             Some c \<Rightarrow> next_do (resultForExistingClaim e k known c key p whatsapp) (\<lambda>res. give (RC_result res))
           | None \<Rightarrow> give (RC_result (unknown_result whatsapp p)))) ?got" for attempt p k
    proof (cases "ca_token attempt")
      case (Some t)
      then show ?thesis by (auto intro!: goes_give simp: acquired_def idle_ok)
    next
      case None
      have "goes H T u (claims_ok H) (case ca_record attempt of
             Some c \<Rightarrow> next_do (resultForExistingClaim e k known c key p whatsapp) (\<lambda>res. give (RC_result res))
           | None \<Rightarrow> give (RC_result (unknown_result whatsapp p))) ?got"
        by (auto intro!: goes_next [OF goes_existing_result [OF e stable_ok]] goes_give split: option.split)
      then show ?thesis using None by (auto elim!: goes_weaken simp: acquired_def idle_ok)
    qed
    then show ?thesis using r unfolding acquireReminderChannelClaim_def Let_def key_def [symmetric]
      by simp (rule goes_next [OF goes_acquire [OF e u]], auto simp: acquired_def idle_ok)
  qed
  have call: "goes H T u (owns H u key)
      (catch (next_do (send_step e 10 (Some (key, u)) to a) (\<lambda>v. give (asSendResult v p whatsapp)))
        (\<lambda>err. give (asErrorResult err p whatsapp)))
      (\<lambda>x s. claims_ok H s \<and> (\<forall>res. x = Inr res \<longrightarrow> sd_outcome res = Some failure_certain \<longrightarrow> settled H u key s))" for to p
    by (rule goes_catch [where Q = "\<lambda>x s. claims_ok H s \<and>
          (\<forall>res. x = Inr res \<longrightarrow> sd_outcome res = Some failure_certain \<longrightarrow> settled H u key s) \<and>
          (\<forall>err. x = Inl err \<longrightarrow> classifyNotificationError err = failure_certain \<longrightarrow> settled H u key s)",
        OF goes_next [OF goes_send [OF e T]]])
      (auto intro!: goes_give simp: answered_def asSendResult_def asErrorResult_def outcome_refused Let_def)
  have rest: "goes H T u (\<lambda>s. claims_ok H s \<and>
        (\<forall>k t. claim = RC_handle k t \<longrightarrow> k = key \<and> t = u \<and> owns H u key s) \<and> claim \<noteq> RC_none)
      (case claim of RC_result res \<Rightarrow> give res
       | _ \<Rightarrow> (let held = (case claim of RC_handle key token \<Rightarrow> Some (key, token) | _ \<Rightarrow> None) in
           next_do (catch (next_do (send_step e 10 (orElse_opt held None) (Some (rm_to params)) a)
               (\<lambda>v. give (asSendResult v (wc_provider cfg) whatsapp)))
             (\<lambda>err. give (asErrorResult err (wc_provider cfg) whatsapp)))
           (\<lambda>res. next_do (retainClaimResult e 11 known held res) (\<lambda>_. give res))))
      (run_ok H)" for claim
  proof (cases claim)
    case (RC_handle k t)
    have "goes H T u (owns H u key)
        (next_do (catch (next_do (send_step e 10 (Some (key, u)) (Some (rm_to params)) a)
               (\<lambda>v. give (asSendResult v (wc_provider cfg) whatsapp)))
             (\<lambda>err. give (asErrorResult err (wc_provider cfg) whatsapp)))
           (\<lambda>res. next_do (retainClaimResult e 11 known (Some (key, u)) res) (\<lambda>_. give res))) (run_ok H)"
      by (rule goes_next [OF call]) (auto intro!: goes_next [OF goes_weaken [OF goes_retain [OF e u]]] goes_ok_give)
    then show ?thesis unfolding RC_handle
      by (cases "k = key \<and> t = u") (auto elim!: goes_weaken intro: goesI simp: Let_def)
  qed (auto intro: goes_give goesI)
  note whole = goes_next [OF acquire goes_weaken [OF rest]]
  show ?thesis unfolding sendReminder_def
    by (auto intro!: goes_next [OF find] goes_idle_give whole simp: idle_ok split: option.split)
qed

text \<open>When an action fails after a refusal, or ends in one, the claim of the caller may be dropped.\<close>

definition refusal_settled :: "instant \<Rightarrow> string \<Rightarrow> string \<Rightarrow> ('a \<Rightarrow> bool) \<Rightarrow> thrown + 'a \<Rightarrow> 'd nstate \<Rightarrow> bool" where
  "refusal_settled H u key refused x s \<longleftrightarrow> claims_ok H s \<and> (\<forall>a. x = Inr a \<longrightarrow> refused a \<longrightarrow> settled H u key s) \<and>
     (\<forall>err. x = Inl err \<longrightarrow> classifyNotificationError err = failure_certain \<longrightarrow> settled H u key s)"

lemma kept_refusal_settled: "kept (claims_ok H) x s \<Longrightarrow> (\<And>a. x = Inr a \<Longrightarrow> \<not> refused a) \<Longrightarrow> refusal_settled H u key refused x s"
  by (auto simp: refusal_settled_def kept_def)

definition drops_claim :: "reminder_result \<Rightarrow> bool" where
  "drops_claim res \<longleftrightarrow> sd_skipped res \<noteq> None \<or> getResultOutcome res = failure_certain"

lemma goes_unmanaged_send:
  assumes e: "fair H T e" and u: "u = ne_uuid e"
  shows "goes H T u (owns H u key) (sendReminder e known cfg a False (Some (key, u)) params) (refusal_settled H u key drops_claim)"
proof -
  have T: "u \<notin> T" using fair_uuid(2) [OF e] u by simp
  have skip: "goes H T u (owns H u key) (give (skipped_result why) :: (notify_rows, reminder_result) action) (refusal_settled H u key drops_claim)" for why
    by (rule goes_give) (auto simp: refusal_settled_def intro: idle_ok [OF owns_idle] idle_settled [OF owns_idle])
  have call: "goes H T u (owns H u key)
      (next_do (catch (next_do (send_step e 10 (Some (key, u)) to a) (\<lambda>v. give (asSendResult v p whatsapp)))
          (\<lambda>err. give (asErrorResult err p whatsapp))) give)
      (refusal_settled H u key drops_claim)" for to p
    by (rule goes_next [where Q = "refusal_settled H u key drops_claim", OF goes_catch [where Q =
          "refusal_settled H u key drops_claim", OF goes_next [OF goes_send [OF e T]]]])
      (auto intro!: goes_give simp: refusal_settled_def answered_def asSendResult_def asErrorResult_def outcome_refused
        drops_claim_def getResultOutcome_def Let_def)
  show ?thesis
    unfolding sendReminder_def findExistingReminderClaim_def acquireReminderChannelClaim_def
    using skip call by (simp add: retainClaimResult_def Let_def)
qed

lemma goes_worker_record:
  assumes e: "fair H T e" and u: "u = ne_uuid e"
  shows "goes H T u (\<lambda>s. claims_ok H s \<and> (getResultOutcome res = failure_certain \<longrightarrow> settled H u key s))
    (recordWorkerResult e k known key u res) (kept (claims_ok H))"
  unfolding recordWorkerResult_def Let_def requeueUnknownClaim_def
  by (rule goes_next [OF goes_own_record [OF e u]])
    (auto intro!: goes_only_if goes_ok_enqueue [OF e] goes_give split: option.split)

lemma goes_unmanaged_reminder:
  assumes e: "fair H T e" and u: "u = ne_uuid e"
  shows "goes H T u (idle H u) (unmanaged_reminder e known cfg a i params) (run_ok H)"
proof -
  define key where "key = buildNotificationClaimKey ''reservation-reminder'' i"
  have recorded: "goes H T u (\<lambda>s. claims_ok H s \<and> (drops_claim res \<longrightarrow> settled H u key s))
      (next_do (if sd_skipped res \<noteq> None
          then next_do (recordNotificationResult e 13 key u failure_certain m) (\<lambda>_. give ())
          else recordWorkerResult e 14 known key u res) (\<lambda>_. give res))
      (refusal_settled H u key (\<lambda>_. False))" for res m
  proof -
    have "goes H T u (\<lambda>s. claims_ok H s \<and> (drops_claim res \<longrightarrow> settled H u key s))
        (if sd_skipped res \<noteq> None then next_do (recordNotificationResult e 13 key u failure_certain m) (\<lambda>_. give ())
         else recordWorkerResult e 14 known key u res) (kept (claims_ok H))"
    proof (cases "sd_skipped res = None")
      case True
      then show ?thesis by (auto intro: goes_weaken [OF goes_worker_record [OF e u]] simp: drops_claim_def)
    next
      case False
      have "goes H T u (settled H u key) (next_do (recordNotificationResult e 13 key u failure_certain m) (\<lambda>_. give ()))
          (kept (claims_ok H))"
        by (rule goes_next [OF goes_own_record_refused [OF e u]]) (auto intro: goes_give)
      then show ?thesis using False by (auto elim: goes_weaken simp: drops_claim_def)
    qed
    then show ?thesis by (rule goes_next) (auto intro!: goes_give kept_refusal_settled)
  qed
  have send: "goes H T u (owns H u key)
      (next_do (sendReminder e known cfg a False (Some (key, u)) params) (\<lambda>res.
         next_do (if sd_skipped res \<noteq> None
            then next_do (recordNotificationResult e 13 key u failure_certain m) (\<lambda>_. give ())
            else recordWorkerResult e 14 known key u res) (\<lambda>_. give res)))
      (refusal_settled H u key (\<lambda>_. False))" for m
    by (rule goes_next [OF goes_unmanaged_send [OF e u] goes_weaken [OF recorded]])
      (auto simp: refusal_settled_def)
  have handler: "goes H T u (refusal_settled H u key (\<lambda>_. False) (Inl err))
      (let res = classifyNotificationError err in
       next_do (recordWorkerResult e 16 known key u (error_result res)) (\<lambda>_.
         if res = failure_certain then throw err else give (error_result res))) (run_ok H)" for err
    unfolding Let_def
    by (rule goes_next [OF goes_weaken [OF goes_worker_record [OF e u]]])
      (auto intro: goes_throw goes_give simp: refusal_settled_def getResultOutcome_def error_result_def kept_def)
  show ?thesis unfolding unmanaged_reminder_def Let_def key_def [symmetric]
  proof (rule goes_claimed [OF e u])
    show "goes H T u (owns H u key)
        (catch (next_do (sendReminder e known cfg a False (Some (key, u)) params) (\<lambda>res.
           next_do (if sd_skipped res \<noteq> None
              then next_do (recordNotificationResult e 13 key u failure_certain
                \<lparr>cm_provider = None, cm_channel = None, cm_messageId = None\<rparr>) (\<lambda>_. give ())
              else recordWorkerResult e 14 known key u res) (\<lambda>_. give res)))
          (\<lambda>err. next_do (recordWorkerResult e 16 known key u (error_result (classifyNotificationError err))) (\<lambda>_.
             if classifyNotificationError err = failure_certain then throw err
             else give (error_result (classifyNotificationError err))))) (run_ok H)"
      by (rule goes_catch [OF send handler [unfolded Let_def]]) (auto simp: refusal_settled_def)
  qed (auto intro!: goes_next [OF goes_only_if [OF goes_quietly]] goes_keep goes_ok_give goes_ok_enqueue [OF e] goes_give
      simp: kept_def requeueUnknownClaim_def split: option.split)
qed

section \<open>Reconciliation\<close>

lemma stable_true_ok: "goes H T u (claims_ok H) m (kept (claims_ok H)) \<Longrightarrow> goes H T u (claims_ok H) m (run_ok H)"
  by (rule goes_keep)

lemma goes_lease:
  assumes e: "fair H T e"
  shows "goes H T u (claims_ok H) (acquireNotificationReconciliationLease e k key)
    (\<lambda>x s. claims_ok H s \<and> (\<forall>lease t. x = Inr lease \<longrightarrow> ca_token lease = Some t \<longrightarrow> unescaped t))"
  (is "goes H T u _ _ ?Q")
proof -
  have "goes H T u (claims_ok H)
      (let nxt = r\<lparr>nc_status := CS_in_progress, nc_updatedAt := toISOString (ne_now e k)\<rparr>
       in next_do (compareAndReplaceClaimIfStatus e (k + 1) key (the (nc_token r)) CS_unknown (Some nxt))
         (\<lambda>transitioned.
            if transitioned then give \<lparr>ca_acquired = True, ca_token = nc_token r, ca_record = Some nxt\<rparr>
            else next_do (getNotificationClaim e (k + 2) key)
              (\<lambda>latest. give \<lparr>ca_acquired = False, ca_token = None, ca_record = latest\<rparr>))) ?Q"
    if "truthy (nc_token r)" "unescaped (the (nc_token r))" for r
    unfolding Let_def
    by (rule goes_next [OF goes_compare_status [OF e stable_ok that(2)]])
      (use that in \<open>auto simp: kept_def intro!: goes_give goes_next [OF goes_read_claim [OF e stable_ok]]\<close>)
  then show ?thesis unfolding acquireNotificationReconciliationLease_def
    by (intro goes_next [OF goes_get [OF e stable_ok]])
      (auto intro!: goes_pure goes_give split: option.split)
qed

lemma goes_reconcile_lease:
  assumes e: "fair H T e"
  shows "goes H T u (claims_ok H) (reconcile_lease e j)
    (\<lambda>x s. claims_ok H s \<and> (\<forall>t j'. x = Inr (Some (t, j')) \<longrightarrow> unescaped t \<and> rj_claimKey j' = rj_claimKey j))"
  unfolding reconcile_lease_def Let_def
  by (rule goes_next [OF goes_read_claim [OF e stable_ok]])
    (auto intro!: goes_give goes_next [OF goes_lease [OF e]] split: option.split)

lemma goes_ok_rows: "fair H T e \<Longrightarrow> goes H T u (claims_ok H) (rows_step e k f) (run_ok H)"
  by (rule goes_rows [OF _ stable_ok])

lemma goes_ok_read: "fair H T e \<Longrightarrow> goes H T u (claims_ok H) (read_rows e k f) (run_ok H)"
  by (rule goes_rows_keep [OF _ stable_ok])

lemma goes_repair:
  assumes e: "fair H T e"
  shows "goes H T u (claims_ok H) (repairNotificationAfterProviderSuccess e k key now) (run_ok H)"
  unfolding repairNotificationAfterProviderSuccess_def repairOutboundConfirmation_def repairReservationReminder_def
    repairGiftCardReminder_def Let_def
  by (auto intro!: goes_ok_give goes_next [OF goes_ok_read [OF e]] goes_next [OF goes_ok_rows [OF e]]
      split: option.split repair_reference.split)

lemma goes_review:
  assumes e: "fair H T e"
  shows "goes H T u (claims_ok H) (enqueueManualReview e k known j why) (run_ok H)"
  unfolding enqueueManualReview_def
  by (rule goes_weaken [OF goes_queue [OF e stable_ok]]) auto

lemma goes_leave_unknown:
  assumes e: "fair H T e" and t: "unescaped t"
  shows "goes H T u (claims_ok H) (leave_unknown e k known t j why) (run_ok H)"
  unfolding leave_unknown_def
  by (rule goes_next [OF goes_record [OF e stable_ok t]])
    (auto intro!: goes_keep goes_quietly goes_review [OF e] simp: kept_def)

lemma goes_refusal_known: "goes H T u (called H k t) (refusal_known (k, t)) (\<lambda>_. refused_call H k t)"
proof (rule goesI)
  fix s s' x
  assume run: "refusal_known (k, t) s = (s', x)" and P: "called H k t s"
  have commit: "claim_commit H T' s s'" for T' using run cc_refused by (auto simp: refusal_known_def)
  have "settled H t k s'"
    using claims_ok_commit [OF commit] P run by (auto simp: settled_def called_def refusal_known_def upd_where_def)
  then show "(claim_commit H (insert u T))\<^sup>*\<^sup>* s s' \<and> refused_call H k t s'"
    using commit P run by (auto simp: refused_call_def called_def refusal_known_def)
qed

lemma goes_leased:
  assumes e: "fair H T e" and t: "unescaped t"
  shows "goes H T u (\<lambda>s. claims_ok H s \<and> (\<forall>m. rj_messageId j = Some m \<longrightarrow> verdict_of m = Some failure_certain \<longrightarrow>
      called H (rj_claimKey j) t s))
    (reconcile_leased e known verdict_of t j) (run_ok H)"
proof (cases "truthy (rj_messageId j)")
  case False
  then show ?thesis by (auto simp: reconcile_leased_def intro: goes_weaken [OF goes_leave_unknown [OF e t]])
next
  case True
  define res where "res = orElse (verdict_of (the (rj_messageId j))) unknown"
  have fail: "goes H T u (called H (rj_claimKey j) t)
      (next_do (next_do (refusal_known (rj_claimKey j, t)) (\<lambda>_. give not_required)) (\<lambda>repair_status.
         if repair_status = manual then leave_unknown e 4 known t j local_repair_failed
         else next_do (recordNotificationResult e 9 (rj_claimKey j) t failure_certain m) (\<lambda>_. give ()))) (run_ok H)" for m
  proof (rule goes_next [where Q = "\<lambda>x s. refused_call H (rj_claimKey j) t s \<and> (\<forall>r. x = Inr r \<longrightarrow> r = not_required)"])
    show "goes H T u (called H (rj_claimKey j) t) (next_do (refusal_known (rj_claimKey j, t)) (\<lambda>_. give not_required))
        (\<lambda>x s. refused_call H (rj_claimKey j) t s \<and> (\<forall>r. x = Inr r \<longrightarrow> r = not_required))"
      by (rule goes_next [OF goes_refusal_known]) (auto intro: goes_give simp: refusal_known_def)
    show "goes H T u (\<lambda>s. refused_call H (rj_claimKey j) t s \<and> (\<forall>r. Inr a = (Inr r :: thrown + repair_status) \<longrightarrow> r = not_required))
        (if a = manual then leave_unknown e 4 known t j local_repair_failed
         else next_do (recordNotificationResult e 9 (rj_claimKey j) t failure_certain m) (\<lambda>_. give ())) (run_ok H)" for a
    proof (rule goes_pure)
      assume "\<forall>r. Inr a = (Inr r :: thrown + repair_status) \<longrightarrow> r = not_required"
      then have a: "a = not_required" by simp
      have "goes H T u (refused_call H (rj_claimKey j) t)
          (next_do (recordNotificationResult e 9 (rj_claimKey j) t failure_certain m) (\<lambda>_. give ())) (run_ok H)"
        by (rule goes_next [OF goes_release [OF e stable_refused t]])
          (auto intro: goes_give simp: refused_call_def kept_def)
      then show "goes H T u (refused_call H (rj_claimKey j) t)
          (if a = manual then leave_unknown e 4 known t j local_repair_failed
           else next_do (recordNotificationResult e 9 (rj_claimKey j) t failure_certain m) (\<lambda>_. give ())) (run_ok H)"
        by (simp add: a)
    qed
  qed (auto simp: refused_call_def settled_ok)
  have delivered: "goes H T u (claims_ok H)
      (next_do (catch (repairNotificationAfterProviderSuccess e 6 (rj_claimKey j) now) (\<lambda>_. give manual)) (\<lambda>repair_status.
         if repair_status = manual then leave_unknown e 4 known t j local_repair_failed
         else next_do (recordNotificationResult e 9 (rj_claimKey j) t success m) (\<lambda>_. give ()))) (run_ok H)" for now m
    by (rule goes_next [OF goes_catch [OF goes_repair [OF e]]])
      (auto intro!: goes_ok_give goes_leave_unknown [OF e t] goes_next [OF goes_record [OF e stable_ok t]] simp: kept_def)
  show ?thesis
  proof (cases res)
    case failure_certain
    then have "verdict_of (the (rj_messageId j)) = Some failure_certain"
      by (auto simp: res_def orElse_def split: option.splits)
    moreover obtain m where "rj_messageId j = Some m" using True by (rule truthyE)
    ultimately show ?thesis using True failure_certain unfolding reconcile_leased_def res_def [symmetric]
      by (auto intro!: goes_weaken [OF fail])
  next
    case success
    then show ?thesis using True unfolding reconcile_leased_def res_def [symmetric]
      by (auto intro!: goes_weaken [OF delivered])
  next
    case unknown
    then show ?thesis using True unfolding reconcile_leased_def res_def [symmetric]
      by (auto intro: goes_weaken [OF goes_leave_unknown [OF e t]])
  qed
qed

text \<open>
  The verdict of the provider is about the call made under the leased claim: that is what the message id of the
  claim or of the job has to be for.
\<close>

definition verdict_concerns_claim :: "nenv_rows \<Rightarrow> (string \<Rightarrow> outcome option) \<Rightarrow> reconcile_job \<Rightarrow> notify_rows nstate \<Rightarrow> bool" where
  "verdict_concerns_claim e verdict_of j s \<longleftrightarrow>
     (case reconcile_lease e j s of
        (s1, Inr (Some (t, j'))) \<Rightarrow>
          (case rj_messageId j' of
             Some m \<Rightarrow> verdict_of m = Some failure_certain \<longrightarrow>
               list_ex (\<lambda>c. sc_claim c = Some (rj_claimKey j, t) \<and> sc_messageId c = Some m) (ns_sent s1)
           | None \<Rightarrow> True)
      | _ \<Rightarrow> True)"

lemma reconciliation_run:
  assumes e: "fair H T e" and run: "processNotificationReconciliation e known verdict_of j s = (s', x)"
    and ok: "claims_ok H s" and verdict: "verdict_concerns_claim e verdict_of j s"
  shows "(claim_commit H (insert u T))\<^sup>*\<^sup>* s s' \<and> claims_ok H s'"
proof -
  obtain s1 y where lease: "reconcile_lease e j s = (s1, y)" by force
  note leased = goesD [OF goes_reconcile_lease [OF e, of u] lease ok]
  show ?thesis
  proof (cases "\<exists>t j'. y = Inr (Some (t, j'))")
    case False
    then have "s' = s1" using run lease
      by (auto simp: processNotificationReconciliation_def next_do_def give_def split: sum.splits option.splits)
    then show ?thesis using leased by simp
  next
    case True
    then obtain t j' where y: "y = Inr (Some (t, j'))" by blast
    have go: "reconcile_leased e known verdict_of t j' s1 = (s', x)"
      using run lease y by (simp add: processNotificationReconciliation_def next_do_def)
    have t: "unescaped t" and key: "rj_claimKey j' = rj_claimKey j" and ok1: "claims_ok H s1" using leased y by auto
    have "called H (rj_claimKey j') t s1" if "rj_messageId j' = Some m" "verdict_of m = Some failure_certain" for m
      using verdict lease y that ok1 key
      by (auto simp: verdict_concerns_claim_def called_def list_ex_iff intro: rev_image_eqI)
    then have "(claim_commit H (insert u T))\<^sup>*\<^sup>* s1 s' \<and> claims_ok H s'"
      using goesD [OF goes_leased [OF e t] go] ok1 by blast
    then show ?thesis using leased by (meson rtranclp_trans)
  qed
qed

lemma goes_recover:
  assumes e: "fair H T e"
  shows "goes H T u (claims_ok H) (recoverNotificationClaim e k key) (run_ok H)"
proof -
  have "goes H T u (claims_ok H)
      (next_do (compareAndReplaceClaimIfStatus e (k + 1) key (the (nc_token r)) CS_in_progress
          (Some (r\<lparr>nc_status := CS_unknown, nc_updatedAt := toISOString (ne_now e (k + 1))\<rparr>)))
        (\<lambda>transitioned. next_do (getNotificationClaim e (k + 2) key) (\<lambda>latest. give (f transitioned latest)))) (run_ok H)"
    if "truthy (nc_token r)" "unescaped (the (nc_token r))" for r and f :: "bool \<Rightarrow> claim option \<Rightarrow> recovery_status \<times> claim option"
    by (rule goes_next [OF goes_compare_status [OF e stable_ok that(2)]])
      (use that in \<open>auto simp: kept_def intro!: goes_give goes_next [OF goes_read_claim [OF e stable_ok]]\<close>)
  then show ?thesis unfolding recoverNotificationClaim_def
    by (intro goes_next [OF goes_get [OF e stable_ok]])
      (auto intro!: goes_pure goes_give simp: kept_def split: option.split)
qed

lemma goes_repair_audit:
  assumes e: "fair H T e"
  shows "goes H T u (claims_ok H) (repair_audit e key r) (run_ok H)"
proof -
  have "clean_text ''1''" by code_simp
  then have "claim_commit H T' s (s\<lparr>ns_claims := rd\<rparr>)"
    if "redis_set_nx (ne_now e 4) k ''1'' 60 (ns_claims s) = (rd, ok)" for T' s k rd ok
  proof (cases ok)
    case False
    then have "rd = ns_claims s" using that by (simp add: redis_set_nx_def split: if_splits)
    then show ?thesis by (simp add: cc_frame)
  next
    case True
    then have rd: "redis_get (ne_now e 4) k (ns_claims s) = None" "rd = (ns_claims s)(k \<mapsto> (''1'', ne_now e 4 + 60000))"
      using that by (auto simp: redis_set_nx_def redis_set_def split: if_splits)
    show ?thesis unfolding rd(2) using live_claim [OF _ fair_now(1) [OF e, of 4]] rd(1) \<open>clean_text ''1''\<close>
      by (intro cc_put) fastforce+
  qed
  then have set_nx: "goes H T u (claims_ok H) (redis_step e 4 (\<lambda>now. redis_set_nx now k ''1'' 60)) (kept (claims_ok H))" for k
    by (intro goes_write [OF e stable_ok])
  show ?thesis unfolding repair_audit_def
    by (intro goes_keep [OF goes_only_if [OF goes_quietly [OF goes_next]]])
      (auto intro!: goes_ok_give goes_keep [OF set_nx] goes_next [OF goes_repair [OF e]] simp: kept_def)
qed

lemma goes_sweep_one:
  assumes e: "fair H T e"
  shows "goes H T u (claims_ok H) (sweep_one e known knownReview key) (run_ok H)"
proof -
  have requeue: "goes H T u (claims_ok H) (sweep_requeue e known knownReview key r) (run_ok H)" for r
    unfolding sweep_requeue_def
    by (auto intro!: goes_keep [OF goes_quietly] goes_keep [OF goes_ok_enqueue [OF e]] goes_review [OF e] split: option.split)
  have "goes H T u (claims_ok H)
      (next_do (case found of Some r \<Rightarrow> give (Some r) | None \<Rightarrow> getNotificationClaim e 3 key) (\<lambda>record.
         case record of None \<Rightarrow> give ()
         | Some r \<Rightarrow> if nc_status r = CS_success then repair_audit e key r
             else if st = RS_active then give () else sweep_requeue e known knownReview key r)) (run_ok H)" for st found
    by (rule goes_next [where Q = "run_ok H"])
      (auto intro!: goes_ok_give goes_read_claim [OF e stable_ok] goes_repair_audit [OF e] requeue split: option.split)
  then show ?thesis unfolding sweep_one_def
    by (intro goes_next [OF goes_catch [OF goes_next [OF goes_recover [OF e]]]])
      (auto intro!: goes_ok_give split: option.split)
qed

section \<open>The reminder worker\<close>

lemma goes_unclaimed_send:
  assumes e: "fair H T e"
  shows "goes H T u (claims_ok H) (send_step e k None recipient a) (run_ok H)"
proof (rule goesI)
  fix s s' x
  assume run: "send_step e k None recipient a s = (s', x)" and "claims_ok H s"
  then have race: "(claim_commit H (insert u T))\<^sup>*\<^sup>* s (ne_race e k s)" "claims_ok H (ne_race e k s)"
    using after_race [OF e stable_ok] by blast+
  have "s' = (ne_race e k s)\<lparr>ns_sent := ns_sent (ne_race e k s) @
      [\<lparr>sc_claim = None, sc_to = recipient, sc_messageId = answer_messageId a, sc_refused = answer_refused a\<rparr>]\<rparr>"
    using run by (auto simp: send_step_def Let_def split: provider_answer.splits)
  then have "claim_commit H (insert u T) (ne_race e k s) s'" by (simp add: cc_unclaimed)
  then show "(claim_commit H (insert u T))\<^sup>*\<^sup>* s s' \<and> claims_ok H s'"
    using race claims_ok_commit by (meson rtranclp.rtrancl_into_rtrancl)
qed

lemma goes_send_reminder:
  assumes e: "fair H T e" and u: "u = ne_uuid e"
  shows "goes H T u (idle H u) (sendReminder e known cfg a True None params) (run_ok H)"
proof (cases "truthy (rm_reservationId params)")
  case True
  then show ?thesis by (rule goes_managed_reminder [OF e u])
next
  case False
  have "goes H T u (claims_ok H) (next_do (catch (next_do (send_step e 10 None to a) (\<lambda>v. give (f v))) (\<lambda>err. give (g err))) give)
      (run_ok H)" for to and f :: "send_result option \<Rightarrow> reminder_result" and g
    by (rule goes_next [OF goes_catch [OF goes_next [OF goes_unclaimed_send [OF e]]]]) (auto intro!: goes_ok_give)
  then show ?thesis using False
    by (auto simp: sendReminder_def findExistingReminderClaim_def acquireReminderChannelClaim_def retainClaimResult_def Let_def
        intro!: goes_idle_give goes_ok_idle)
qed

lemma goes_process_reminder:
  assumes e: "fair H T e" and u: "u = ne_uuid e"
  shows "goes H T u (idle H u) (processReminderForReservation e known cfg off a manage r) (run_ok H)"
  unfolding processReminderForReservation_def Let_def
  by (auto intro!: goes_idle_give goes_send_reminder [OF e u] goes_unmanaged_reminder [OF e u])

lemma goes_remind:
  assumes e: "fair H T e" and u: "u = ne_uuid e"
  shows "goes H T u (idle H u) (remind rt e known cfg a manage row) (run_ok H)"
  unfolding remind_def
  by (rule goes_next [OF goes_process_reminder [OF e u]])
    (auto intro!: goes_ok_give goes_throw goes_next [OF goes_ok_rows [OF e]] split: outcome.split)

lemma goes_scan_one:
  assumes e: "fair H T e" and u: "u = ne_uuid e"
  shows "goes H T u (idle H u) (scan_one rt e known cfg a manage i) (run_ok H)"
proof -
  have T: "u \<notin> T" using fair_uuid(2) [OF e] u by simp
  have job: "goes H T u (claims_ok H) (queue_step e 21 (\<lambda>s. s\<lparr>ns_rows := f s\<rparr>)) (run_ok H)" for f
    by (rule goes_weaken [OF goes_queue [OF e stable_ok]]) auto
  have body: "goes H T u (idle H u)
      (next_do (read_rows e 0 f) (\<lambda>latest. case latest of
          None \<Rightarrow> give (False, None)
        | Some row \<Rightarrow> if \<not> isReminderEligible (fst row) then give (False, None)
            else next_do (remind rt e known cfg a manage row) (\<lambda>c. give (False, c)))) (run_ok H)" for f
    by (rule goes_next [OF goes_idle_read [OF e T]])
      (auto intro!: goes_idle_give goes_ok_give goes_next [OF goes_remind [OF e u]] simp: idle_ok split: option.split)
  show ?thesis unfolding scan_one_def
    by (rule goes_catch [OF body])
      (auto intro!: goes_ok_give goes_catch [OF goes_next [OF job]])
qed

lemma scan_loop_run:
  assumes e: "\<And>k. fair H T (es k)" and u: "inj (\<lambda>k. ne_uuid (es k))" and T': "T \<union> range (\<lambda>k. ne_uuid (es k)) \<subseteq> T'"
  shows "scan_loop rt es known cfg answers manage i rows acc s = (s', x) \<Longrightarrow> (\<And>k. i \<le> k \<Longrightarrow> idle H (ne_uuid (es k)) s) \<Longrightarrow>
    (claim_commit H T')\<^sup>*\<^sup>* s s' \<and> claims_ok H s'"
proof (induction rows arbitrary: i acc s)
  case Nil
  then show ?case using idle_ok [OF Nil.prems(2) [OF order_refl]] by (simp add: give_def)
next
  case (Cons r rows)
  show ?case
  proof (cases "truthy (r_customerPhone r)")
    case False
    then have "scan_loop rt es known cfg answers manage (Suc i) rows acc s = (s', x)" using Cons.prems(1) by simp
    then show ?thesis by (rule Cons.IH) (simp add: Cons.prems(2))
  next
    case True
    let ?u = "ne_uuid (es i)"
    obtain s1 y where one: "scan_one rt (es i) known cfg (answers i) manage (r_id r) s = (s1, y)" by force
    note step = goesD [OF goes_scan_one [OF e refl] one Cons.prems(2) [OF order_refl]]
    have later: "idle H (ne_uuid (es k)) s1" if "Suc i \<le> k" for k
    proof (rule stable_run [OF stable_idle])
      show "(claim_commit H (insert ?u T))\<^sup>*\<^sup>* s s1" using step by blast
      show "ne_uuid (es k) \<notin> insert ?u T" using fair_uuid(2) [OF e, of k] injD [OF u, of k i] that by auto
      show "idle H (ne_uuid (es k)) s" using Cons.prems(2) that by simp
    qed
    have more: "(claim_commit H T')\<^sup>*\<^sup>* s s1"
    proof -
      have "insert ?u T \<subseteq> T'" using T' by auto
      then show ?thesis using step claim_commit_mono by (metis mono_rtranclp)
    qed
    show ?thesis
    proof (cases y)
      case (Inl err)
      then show ?thesis using Cons.prems(1) one True more step by (auto simp: next_do_def)
    next
      case (Inr a)
      then obtain acc' where "scan_loop rt es known cfg answers manage (Suc i) rows acc' s1 = (s', x)"
        using Cons.prems(1) one True by (auto simp: next_do_def Let_def split: prod.splits)
      from Cons.IH [OF this later] more show ?thesis by (meson rtranclp_trans)
    qed
  qed
qed

end
