(* ===== verification/Notifications.thy ===== *)
theory Notifications
  imports Notification_Safety
begin

text \<open>
  What holds of notifications as a whole: the text of a claim, the runs of the workers and of reconciliation, and what
  the runs show where the surroundings are less kind than assumed.
\<close>

text \<open>
  The text of a claim is read back as it was written, whatever its fields hold.
\<close>

lemma notification_claim_roundtrip: "parseNotificationClaim (Some (serializeClaim r)) = Some r"
  by (rule parse_serialized)

text \<open>
  The scripts search the stored text for the token and the status; on a stored claim that is the comparison
  of the fields they mean, so that the claim is replaced exactly when its token is the given one and its status
  the expected one. The token is a UUID.
\<close>

lemma claim_script_compares_fields:
  assumes "uuid_text t" "redis_get now k rd = Some (serializeClaim r)"
  shows "compare_status_script now k t st next_claim rd =
      (if nc_token r = Some t \<and> nc_status r = st then (replace_claim now k next_claim rd, True) else (rd, False)) \<and>
    compare_script now k t next_claim rd =
      (if nc_token r = Some t then (replace_claim now k next_claim rd, True) else (rd, False))"
  using assms search_claim [OF uuid_unescaped [OF assms(1)]]
  by (simp add: compare_status_script_def compare_script_def)

text \<open>A claim whose other fields hold what looks like another token.\<close>

definition sample_claim :: claim where
  "sample_claim = \<lparr>nc_status = CS_unknown, nc_token = Some ''0a-1'', nc_provider = Some telnyx, nc_channel = Some sms,
     nc_messageId = Some (field_pattern ''token'' ''0b-2''), nc_updatedAt = ''2026-01-05T12:00:00.000Z''\<rparr>"

lemma claim_script_compares_fields_witness:
  "snd (compare_script 0 ''k'' ''0b-2'' None (\<lambda>_. Some (serializeClaim sample_claim, 10))) = False \<and>
   snd (compare_status_script 0 ''k'' ''0a-1'' CS_unknown None (\<lambda>_. Some (serializeClaim sample_claim, 10)))"
proof -
  have stored: "redis_get 0 k (\<lambda>_. Some (serializeClaim sample_claim, 10)) = Some (serializeClaim sample_claim)" for k
    by (simp add: redis_get_def)
  have uuids: "uuid_text ''0b-2''" "uuid_text ''0a-1''" by code_simp+
  show ?thesis
    using claim_script_compares_fields [OF uuids(1) stored] claim_script_compares_fields [OF uuids(2) stored]
    by (simp add: sample_claim_def)
qed

section \<open>Runs\<close>

text \<open>A random token was never used before.\<close>

definition fresh_token :: "string \<Rightarrow> 'd nstate \<Rightarrow> bool" where
  "fresh_token u s \<longleftrightarrow> list_all (\<lambda>c. case sc_claim c of Some (k, t) \<Rightarrow> t \<noteq> u | None \<Rightarrow> True) (ns_sent s)"

lemma fresh_idle: "claims_ok H s \<Longrightarrow> fresh_token u s \<Longrightarrow> idle H u s"
proof -
  assume "claims_ok H s" and fresh: "fresh_token u s"
  have "sc_claim c \<noteq> Some (k, u)" if "c \<in> set (ns_sent s)" for c k
    using fresh that by (auto simp: fresh_token_def list_all_iff split: option.splits)
  then show "idle H u s" using \<open>claims_ok H s\<close> unfolding idle_def by (metis imageE)
qed

text \<open>
  One run of a job, in the window that ends at \<open>H\<close>: the surroundings are fair, and a verdict that a message was not
  delivered is about the message sent under the claim.
\<close>

inductive notification_step :: "instant \<Rightarrow> notify_rows nstate \<Rightarrow> notify_rows nstate \<Rightarrow> bool" for H where
  nt_manager: "processManagerSmsJob e limitSeconds known answer job s = (s', x) \<Longrightarrow> fair H T e \<Longrightarrow>
    fresh_token (ne_uuid e) s \<Longrightarrow> notification_step H s s'"
| nt_confirm: "processOutboundConfirmJob e known answer i s = (s', x) \<Longrightarrow> fair H T e \<Longrightarrow>
    fresh_token (ne_uuid e) s \<Longrightarrow> notification_step H s s'"
| nt_recovery: "processCallRecoveryJob e known answer i phone s = (s', x) \<Longrightarrow> fair H T e \<Longrightarrow>
    fresh_token (ne_uuid e) s \<Longrightarrow> notification_step H s s'"
| nt_reminders: "processConfirmationSmsJob rt es known cfg answers manage job s = (s', y) \<Longrightarrow> (\<And>i. fair H T (es i)) \<Longrightarrow>
    inj (\<lambda>i. ne_uuid (es i)) \<Longrightarrow> (\<And>i. fresh_token (ne_uuid (es i)) s) \<Longrightarrow> notification_step H s s'"
| nt_reconcile: "processNotificationReconciliation e known verdict_of j s = (s', x) \<Longrightarrow> fair H T e \<Longrightarrow>
    verdict_concerns_claim e verdict_of j s \<Longrightarrow> notification_step H s s'"
| nt_sweep: "sweepNotificationClaims es known knownReview replies s = (s', x) \<Longrightarrow> (\<And>i. fair H T (es i)) \<Longrightarrow>
    notification_step H s s'"

lemma reminders_run:
  assumes run: "processConfirmationSmsJob rt es known cfg answers manage job s = (s', y)"
    and e: "\<And>i. fair H T (es i)" and u: "inj (\<lambda>i. ne_uuid (es i))" and fresh: "\<And>i. idle H (ne_uuid (es i)) s"
  shows "claims_ok H s'"
proof (cases job)
  case (Send i)
  have T: "ne_uuid (es 0) \<notin> T" using fair_uuid(2) [OF e] .
  have "goes H T (ne_uuid (es 0)) (idle H (ne_uuid (es 0)))
      (processConfirmationSmsJob rt es known cfg answers manage (Send i)) (run_ok H)"
    unfolding processConfirmationSmsJob_def
    by (auto intro!: goes_idle_give goes_ok_give goes_throw goes_next [OF goes_idle_read [OF e T]]
        goes_next [OF goes_remind [OF e refl]] simp: idle_ok split: option.split)
  from goesD [OF this run [unfolded Send] fresh] show ?thesis by blast
next
  case Scan
  have later: "idle H (ne_uuid (es i)) s1" if "(claim_commit H T)\<^sup>*\<^sup>* s s1" for i s1
    using stable_run [OF stable_idle [OF fair_uuid(2) [OF e]] that fresh] .
  obtain s1 rows where first: "read_rows (es 0) 0 (due_rows (ne_now (es 0) 0)) s = (s1, rows)" by force
  have s1: "(claim_commit H T)\<^sup>*\<^sup>* s s1"
  proof -
    have "(claim_commit H T)\<^sup>*\<^sup>* s (ne_race (es 0) 0 s)" using e [of 0] by (simp add: fair_def)
    moreover have "claim_commit H T (ne_race (es 0) 0 s) s1"
      using first by (intro cc_frame) (auto simp: read_rows_def rows_step_def Let_def split: option.splits)
    ultimately show ?thesis by (rule rtranclp.rtrancl_into_rtrancl)
  qed
  show ?thesis
  proof (cases rows)
    case (Inl err)
    then show ?thesis using run first later [OF s1] idle_ok
      by (auto simp: Scan processConfirmationSmsJob_def next_do_def)
  next
    case (Inr ys)
    obtain s2 z where loop: "scan_loop rt (\<lambda>i. es (Suc i)) known cfg answers manage 0 ys
        (\<lparr>sn_sent = 0, sn_whatsapp = 0, sn_sms = 0, sn_total = length ys\<rparr>, False) s1 = (s2, z)" by force
    have "inj (\<lambda>i. ne_uuid (es (Suc i)))" using u by (auto simp: inj_def)
    from scan_loop_run [OF e this order_refl loop later [OF s1]] have "claims_ok H s2" by blast
    then show ?thesis using run first Inr loop
      by (auto simp: Scan processConfirmationSmsJob_def next_do_def throw_def give_def split: sum.splits prod.splits if_splits)
  qed
qed

lemma sweep_run:
  assumes e: "\<And>i. fair H T (es i)"
  shows "goes H T u (claims_ok H) (sweepNotificationClaims es known knownReview replies) (run_ok H)"
proof -
  have "goes H T u (claims_ok H) (sweep_loop es known knownReview i ks) (run_ok H)" for i ks
    by (induction ks arbitrary: i) (auto intro!: goes_ok_give goes_next [OF goes_sweep_one [OF e]])
  then show ?thesis by (auto simp: sweepNotificationClaims_def intro: goes_ok_give split: option.split)
qed

lemma notification_step_ok: "notification_step H s s' \<Longrightarrow> claims_ok H s \<Longrightarrow> claims_ok H s'"
proof (induction rule: notification_step.induct)
  case (nt_manager e limitSeconds known answer job s s' x T)
  then show ?case using goesD [OF goes_manager_job [OF _ refl]] fresh_idle by blast
next
  case (nt_confirm e known answer i s s' x T)
  then show ?case using goesD [OF goes_confirmation_job [OF _ refl]] fresh_idle by blast
next
  case (nt_recovery e known answer i phone s s' x T)
  then show ?case using goesD [OF goes_recovery_job [OF _ refl]] fresh_idle by blast
next
  case (nt_reminders rt es known cfg answers manage job s s' y T)
  then show ?case using reminders_run fresh_idle by blast
next
  case (nt_reconcile e known verdict_of j s s' x T)
  then show ?case using reconciliation_run by blast
next
  case (nt_sweep es known knownReview replies s s' x T)
  then show ?case using goesD [OF sweep_run] by blast
qed

lemma notification_steps_ok: "(notification_step H)\<^sup>*\<^sup>* s s' \<Longrightarrow> claims_ok H s \<Longrightarrow> claims_ok H s'"
  by (induction rule: rtranclp_induct) (auto dest: notification_step_ok)



section \<open>A run\<close>

definition quiet_notify :: "instant \<Rightarrow> string \<Rightarrow> nenv_rows" where
  "quiet_notify now u = \<lparr>ne_now = (\<lambda>_. now), ne_reply = (\<lambda>_. Answered), ne_queue = (\<lambda>_. None), ne_db = (\<lambda>_. None),
     ne_uuid = u, ne_redisError = Thrown (error_object ''Connection is closed.''), ne_race = (\<lambda>_ s. s)\<rparr>"

lemma quiet_fair:
  assumes "0 \<le> now" "now < 604800000" "unescaped u"
  shows "fair 604800000 {} (quiet_notify now u)"
proof -
  have "classifyNotificationError (Thrown (error_object ''Connection is closed.'')) \<noteq> failure_certain" by code_simp
  then show ?thesis using assms by (simp add: fair_def quiet_notify_def)
qed

definition diner :: notified_row where
  "diner = \<lparr>r_id = ''b1'', r_restaurantId = ''r1'', r_customerId = None, r_customerName = ''Ada'',
     r_customerPhone = Some ''+33600000000'', r_customerEmail = None, r_partySize = 2, r_reservedAt = 90000000,
     r_startsAt = Some 90000000, r_endsAt = None, r_tableId = None, r_state = CONFIRMED, r_status = St_CONFIRMED,
     r_channel = WEB, r_isTest = False, r_source = None, r_createdByClient = None, r_specialRequests = None,
     r_idempotencyScope = None, r_idempotencyKey = None, r_consumedHoldId = None, r_createdAt = 0,
     r_giftCardSnap = None, r_giftCardComplementAmount = None,
     r_consents = VObj [(''transactionalWhatsapp'', VBool True)], r_confirmationStatus = CF_NOT_REQUIRED,
     r_confirmationSentAt = None, r_callId = None\<rparr>"

definition bistro :: notify_restaurant where
  "bistro = \<lparr>nt_id = ''r1'', nt_timezone = ''UTC'', nt_managerPhone = None, nt_smsConfirmEnabled = True\<rparr>"

definition before_notices :: "notify_rows nstate" where
  "before_notices = \<lparr>ns_claims = (\<lambda>_. None), ns_jobs = [], ns_reviews = [], ns_sent = [],
     ns_rows = \<lparr>nw_reservations = [diner], nw_restaurants = [bistro], nw_audits = [], nw_giftReminders = [],
       nw_limits = (\<lambda>_. None), nw_reminderJobs = []\<rparr>\<rparr>"

definition timeout_error :: thrown where
  "timeout_error = Thrown (VObj [(''name'', VStr ''Error''), (''code'', VStr ''ETIMEDOUT'')])"

text \<open>The first run times out; BullMQ or a second scheduler runs the job again.\<close>

definition first_run :: "notify_rows nstate" where
  "first_run = fst (processOutboundConfirmJob (quiet_notify 1000 ''0a-1'') (\<lambda>_. False) (Rejected timeout_error) ''b1'' before_notices)"

definition second_run :: "notify_rows nstate" where
  "second_run = fst (processOutboundConfirmJob (quiet_notify 2000 ''0b-2'') (\<lambda>_. False) (Resolved None) ''b1'' first_run)"


section \<open>Undisturbed jobs\<close>

text \<open>Nothing fails and nobody interferes; the clock stands at \<open>now\<close>.\<close>

definition calm_notify :: "'d nenv \<Rightarrow> instant \<Rightarrow> bool" where
  "calm_notify e now \<longleftrightarrow> ne_now e = (\<lambda>_. now) \<and> ne_reply e = (\<lambda>_. Answered) \<and> ne_queue e = (\<lambda>_. None) \<and>
     ne_db e = (\<lambda>_. None) \<and> ne_race e = (\<lambda>_ s. s)"

lemma calm_steps:
  assumes "calm_notify e now"
  shows "redis_step e k f s = (s\<lparr>ns_claims := fst (f now (ns_claims s))\<rparr>, Inr (snd (f now (ns_claims s))))"
    and "rows_step e k g s = (s\<lparr>ns_rows := fst (g (ns_rows s))\<rparr>, Inr (snd (g (ns_rows s))))"
    and "queue_step e k h s = (h s, Inr ())"
    and "ne_now e k = now"
  using assms by (simp_all add: calm_notify_def redis_step_def rows_step_def queue_step_def split_beta)

lemma calm_read:
  "calm_notify e now \<Longrightarrow> getNotificationClaim e k key s = (s, Inr (parseNotificationClaim (redis_get now key (ns_claims s))))"
  by (simp add: getNotificationClaim_def calm_steps)

lemma calm_read_rows: "calm_notify e now \<Longrightarrow> read_rows e k f s = (s, Inr (f (ns_rows s)))"
  by (simp add: read_rows_def calm_steps)

lemma next_simps [simp]:
  "m s = (s', Inr a) \<Longrightarrow> next_do m f s = f a s'"
  "m s = (s', Inl err) \<Longrightarrow> next_do m f s = (s', Inl err)"
  by (simp_all add: next_do_def)

lemma stored_claim:
  "redis_get now k (rd(k \<mapsto> (serializeClaim r, x))) = (if now < x then Some (serializeClaim r) else None)"
  by (simp add: redis_get_def)

text \<open>
  An abandoned attempt is taken up: the sweep turns a claim that has been in progress for a quarter of an hour
  into one of unknown outcome under the same token and asks for its reconciliation, and calls no provider.
\<close>

lemma abandoned_attempt_is_reconciled:
  assumes e: "calm_notify e now" and r: "nc_status r = CS_in_progress" "nc_token r = Some t" "nc_provider r = Some p"
      "nc_channel r = Some c" and t: "uuid_text t"
    and stored: "ns_claims s key = Some (serializeClaim r, x)" "now < x"
    and orphan: "isNotificationClaimOrphaned r now NOTIFICATION_CLAIM_LEASE_SECONDS"
    and run: "sweep_one e known knownReview key s = (s', res)"
  shows "res = Inr () \<and> ns_sent s' = ns_sent s \<and>
    parseNotificationClaim (redis_get now key (ns_claims s')) =
      Some (r\<lparr>nc_status := CS_unknown, nc_updatedAt := toISOString now\<rparr>) \<and>
    (let job = \<lparr>rj_claimKey = key, rj_provider = p, rj_channel = c, rj_messageId = kept_text (nc_messageId r)\<rparr>
     in ns_jobs s' = ns_jobs s @ (if known job then [] else [job]))"
proof -
  define r' where "r' = r\<lparr>nc_status := CS_unknown, nc_updatedAt := toISOString now\<rparr>"
  define s1 where "s1 = s\<lparr>ns_claims := (ns_claims s)(key \<mapsto> (serializeClaim r', now + 604800000))\<rparr>"
  have t': "truthy (Some t)" "unescaped t" using t uuid_unescaped by (auto simp: uuid_text_def)
  have get: "redis_get now key (ns_claims s) = Some (serializeClaim r)" using stored by (simp add: redis_get_def)
  have "compare_status_script now key t CS_in_progress (Some r') (ns_claims s) = (ns_claims s1, True)"
    using get search_claim [OF t'(2)] r
    by (simp add: compare_status_script_def replace_claim_def redis_set_def s1_def del: claim_status_name.simps)
  then have recover: "recoverNotificationClaim e 0 key s = (s1, Inr (RS_recovered, Some r'))"
    using get orphan r t' unfolding recoverNotificationClaim_def
    by (simp add: calm_read [OF e] calm_steps [OF e] compareAndReplaceClaimIfStatus_def parse_serialized give_def
        r'_def [symmetric] s1_def stored_claim)
  have "sweep_requeue e known knownReview key r' s1 = (add_job known
      \<lparr>rj_claimKey = key, rj_provider = p, rj_channel = c, rj_messageId = kept_text (nc_messageId r)\<rparr> s1, Inr ())"
    using r by (simp add: sweep_requeue_def quietly_def catch_def enqueueNotificationReconciliation_def calm_steps [OF e] r'_def)
  then have "(s', res) = (add_job known
      \<lparr>rj_claimKey = key, rj_provider = p, rj_channel = c, rj_messageId = kept_text (nc_messageId r)\<rparr> s1, Inr ())"
    using run recover by (simp add: sweep_one_def catch_def give_def r'_def)
  then show ?thesis
    by (auto simp: add_job_def s1_def stored_claim parse_serialized r'_def Let_def)
qed

definition abandoned_claim :: claim where
  "abandoned_claim = sample_claim\<lparr>nc_status := CS_in_progress\<rparr>"

definition abandoned_state :: "notify_rows nstate" where
  "abandoned_state = before_notices\<lparr>ns_claims := (\<lambda>_. None)(''notification:k:1'' \<mapsto> (serializeClaim abandoned_claim, 1767700000000))\<rparr>"

lemma abandoned_attempt_is_reconciled_witness:
  "length (ns_jobs (fst (sweep_one (quiet_notify 1767616200000 ''0b-2'') (\<lambda>_. False) (\<lambda>_. False) ''notification:k:1''
     abandoned_state))) = 1"
proof -
  obtain s' res where run: "sweep_one (quiet_notify 1767616200000 ''0b-2'') (\<lambda>_. False) (\<lambda>_. False) ''notification:k:1''
      abandoned_state = (s', res)" by force
  have e: "calm_notify (quiet_notify 1767616200000 ''0b-2'') 1767616200000"
    by (simp add: calm_notify_def quiet_notify_def)
  have r: "nc_status abandoned_claim = CS_in_progress" "nc_token abandoned_claim = Some ''0a-1''"
    "nc_provider abandoned_claim = Some telnyx" "nc_channel abandoned_claim = Some sms"
    by (simp_all add: abandoned_claim_def sample_claim_def)
  have t: "uuid_text ''0a-1''" by code_simp
  have stored: "ns_claims abandoned_state ''notification:k:1'' = Some (serializeClaim abandoned_claim, 1767700000000)"
    by (simp add: abandoned_state_def)
  have orphan: "isNotificationClaimOrphaned abandoned_claim 1767616200000 900" by code_simp
  from abandoned_attempt_is_reconciled [OF e r t stored _ orphan run]
  show ?thesis using run by (simp add: abandoned_state_def before_notices_def Let_def)
qed


definition accepted_answer :: "send_result option" where
  "accepted_answer = Some \<lparr>sr_outcome = success, sr_provider = Some telnyx, sr_channel = Some sms, sr_messageId = Some ''m1'', sr_reason = None\<rparr>"


section \<open>Where the surroundings are less kind\<close>

text \<open>
  A reconciler that has taken the lease writes its own verdict under the same token, so that a success which the
  original worker records in the meantime is overwritten.
\<close>

definition late_worker :: nenv_rows where
  "late_worker = (quiet_notify 1767616200000 ''0b-2'')\<lparr>ne_race := (\<lambda>k s. if k = 4
     then fst (recordNotificationResult (quiet_notify 1767616200000 ''0a-1'') 0 ''notification:k:1'' ''0a-1'' success
       \<lparr>cm_provider = Some telnyx, cm_channel = Some sms, cm_messageId = Some ''m1''\<rparr> s) else s)\<rparr>"

definition unknown_state :: "notify_rows nstate" where
  "unknown_state = before_notices\<lparr>ns_claims := (\<lambda>_. None)(''notification:k:1'' \<mapsto> (serializeClaim sample_claim, 1767700000000))\<rparr>"

definition status_at :: "instant \<Rightarrow> string \<Rightarrow> 'd nstate \<Rightarrow> claim_status option" where
  "status_at now key s = map_option nc_status (parseNotificationClaim (redis_get now key (ns_claims s)))"

lemma late_success_is_overwritten:
  "status_at 1767616200000 ''notification:k:1'' (ne_race late_worker 4 unknown_state) = Some CS_success \<and>
   status_at 1767616200000 ''notification:k:1'' (fst (processNotificationReconciliation late_worker (\<lambda>_. False)
     (\<lambda>_. None) (sms_job ''notification:k:1'' None) unknown_state)) = Some CS_unknown"
  by (rule conjI; code_simp)

text \<open>
  The message was accepted, but Redis refuses the command that records it, with a text that reads like a refusal of
  the provider: the claim is dropped, the job fails, and its retry sends the confirmation a second time.
\<close>

definition locked_redis :: nenv_rows where
  "locked_redis = (quiet_notify 1000 ''0a-1'')\<lparr>ne_reply := (\<lambda>k. if k = 6 then NotRun else Answered),
     ne_redisError := Thrown (error_object ''NOAUTH Authentication required.'')\<rparr>"

lemma redis_error_read_as_refusal:
  "let s1 = fst (processOutboundConfirmJob locked_redis (\<lambda>_. False) (Resolved accepted_answer) ''b1'' before_notices);
       s2 = fst (processOutboundConfirmJob (quiet_notify 2000 ''0b-2'') (\<lambda>_. False) (Resolved accepted_answer) ''b1'' s1)
   in map sc_refused (ns_sent s2) = [False, False] \<and> map sc_to (ns_sent s2) = [Some ''+33600000000'', Some ''+33600000000'']"
  by code_simp

text \<open>
  A job that was queued for an earlier attempt brings its message id to a later claim that has none; the provider's
  verdict on the earlier message then drops the later claim, although its own message may have arrived.
\<close>

lemma stale_message_id_drops_claim:
  "let s = unknown_state\<lparr>ns_claims := (\<lambda>_. None)(''notification:k:1'' \<mapsto>
         (serializeClaim (sample_claim\<lparr>nc_token := Some ''0b-2'', nc_messageId := None\<rparr>), 1767700000000))\<rparr>
   in status_at 1767616200000 ''notification:k:1'' (fst (processNotificationReconciliation
        (quiet_notify 1767616200000 ''0c-3'') (\<lambda>_. False) (\<lambda>m. if m = ''m1'' then Some failure_certain else None)
        (sms_job ''notification:k:1'' (Some ''m1'')) s)) = None"
  by code_simp

end
