(* ===== verification/Telnyx_Codec.thy ===== *)
theory Telnyx_Codec
  imports Js_Text "HOL-Library.Word"
begin

text \<open>
  The audio formats of a call (\<open>voice/stream/telnyx-codec.ts\<close>): A-law, mu-law and 16 bit samples, in bytes. Operators on
  JavaScript numbers that work on bits are those of 32 bit words.
\<close>

unbundle bit_operations_syntax

type_synonym byte = "8 word"

section \<open>Profiles\<close>

datatype telnyx_codec = PCMA | PCMU | L16

datatype cartesia_encoding = pcm_alaw | pcm_mulaw | pcm_s16le

record codec_profile =
  tp_codec :: telnyx_codec
  tp_sampleRate :: nat
  tp_bytesPerSample :: nat
  tp_cartesiaEncoding :: cartesia_encoding
  tp_label :: string
  tp_idleByte :: "byte option"
  tp_wideband :: bool

fun telnyxCodecProfile :: "telnyx_codec \<Rightarrow> codec_profile" where
  "telnyxCodecProfile PCMA = \<lparr>tp_codec = PCMA, tp_sampleRate = 8000, tp_bytesPerSample = 1,
     tp_cartesiaEncoding = pcm_alaw, tp_label = ''alaw8k'', tp_idleByte = Some 0xd5, tp_wideband = False\<rparr>"
| "telnyxCodecProfile PCMU = \<lparr>tp_codec = PCMU, tp_sampleRate = 8000, tp_bytesPerSample = 1,
     tp_cartesiaEncoding = pcm_mulaw, tp_label = ''mulaw8k'', tp_idleByte = Some 0xff, tp_wideband = False\<rparr>"
| "telnyxCodecProfile L16 = \<lparr>tp_codec = L16, tp_sampleRate = 16000, tp_bytesPerSample = 2,
     tp_cartesiaEncoding = pcm_s16le, tp_label = ''pcm16k'', tp_idleByte = None, tp_wideband = True\<rparr>"

definition TELNYX_FRAME_DURATION_MS :: nat where
  "TELNYX_FRAME_DURATION_MS = 100"

text \<open>Every quotient here is exact.\<close>

definition telnyxFrameBytes :: "telnyx_codec \<Rightarrow> nat" where
  "telnyxFrameBytes codec =
    (let p = telnyxCodecProfile codec in TELNYX_FRAME_DURATION_MS * tp_sampleRate p * tp_bytesPerSample p div 1000)"

definition telnyxBytesPerMs :: "telnyx_codec \<Rightarrow> nat" where
  "telnyxBytesPerMs codec =
    (let p = telnyxCodecProfile codec in tp_sampleRate p * tp_bytesPerSample p div 1000)"

text \<open>The two variables of the environment are arguments.\<close>

definition getTelnyxCodec :: "string option \<Rightarrow> string option \<Rightarrow> string option \<Rightarrow> telnyx_codec" where
  "getTelnyxCodec VOICE_TELNYX_CODEC VOICE_TELNYX_CODEC_RESTAURANT_IDS restaurantId =
    (if map_option (\<lambda>v. map upper_char (js_trim v)) VOICE_TELNYX_CODEC \<noteq> Some ''L16'' then PCMA
     else let restaurantIds = filter (\<lambda>i. i \<noteq> []) (map js_trim
               (js_split CHR '','' (orElse VOICE_TELNYX_CODEC_RESTAURANT_IDS [])))
       in if \<not> truthy restaurantId \<or> the restaurantId \<notin> set restaurantIds then PCMA else L16)"

record stream_config =
  sf_stream_url :: string
  sf_bidirectional_codec :: telnyx_codec
  sf_stream_codec :: "telnyx_codec option"
  sf_bidirectional_sampling_rate :: "nat option"

definition buildTelnyxStreamConfig :: "string \<Rightarrow> telnyx_codec \<Rightarrow> stream_config" where
  "buildTelnyxStreamConfig streamUrl codec =
    (let base = \<lparr>sf_stream_url = streamUrl, sf_bidirectional_codec = codec, sf_stream_codec = None,
           sf_bidirectional_sampling_rate = None\<rparr>
     in if codec \<noteq> L16 then base
        else base\<lparr>sf_stream_codec := Some L16, sf_bidirectional_sampling_rate := Some 16000\<rparr>)"

section \<open>Samples\<close>

datatype buffer_error = RangeError

fun swapBytes16 :: "byte list \<Rightarrow> byte list" where
  "swapBytes16 (first # second # rest) = second # first # swapBytes16 rest"
| "swapBytes16 rest = rest"

text \<open>\<open>Buffer.writeInt16LE\<close> refuses what does not fit.\<close>

definition writeInt16LE :: "32 word \<Rightarrow> buffer_error + byte list" where
  "writeInt16LE v =
    (if - 32768 \<le> sint v \<and> sint v \<le> 32767 then Inr [ucast v, ucast (drop_bit 8 v)] else Inl RangeError)"

definition alaw_sample :: "byte \<Rightarrow> 32 word" where
  "alaw_sample b =
    (let alaw = ucast b XOR 0x55;
         sample = push_bit 4 (alaw AND 0x0f);
         segment = drop_bit 4 (alaw AND 0x70);
         sample' = (if segment = 0 then sample + 8
           else if segment = 1 then sample + 0x108
           else push_bit (unat (segment - 1)) (sample + 0x108))
     in if alaw AND 0x80 \<noteq> 0 then sample' else - sample')"

fun alawToPcm16 :: "byte list \<Rightarrow> buffer_error + byte list" where
  "alawToPcm16 [] = Inr []"
| "alawToPcm16 (b # bs) =
     ebind (writeInt16LE (alaw_sample b)) (\<lambda>pcm. ebind (alawToPcm16 bs) (\<lambda>rest. Inr (pcm @ rest)))"

abbreviation (input) TELNYX_L16_BIG_ENDIAN :: bool where
  "TELNYX_L16_BIG_ENDIAN \<equiv> True"

definition decodeTelnyxToPcm16 :: "telnyx_codec \<Rightarrow> byte list \<Rightarrow> buffer_error + byte list" where
  "decodeTelnyxToPcm16 codec input =
    (if codec = PCMA then alawToPcm16 input
     else if codec = L16 then Inr (if TELNYX_L16_BIG_ENDIAN then swapBytes16 input else input)
     else Inr input)"

definition encodeTelnyxFromPcm16 :: "telnyx_codec \<Rightarrow> byte list \<Rightarrow> byte list" where
  "encodeTelnyxFromPcm16 codec pcmLe =
    (if codec \<noteq> L16 then pcmLe else if TELNYX_L16_BIG_ENDIAN then swapBytes16 pcmLe else pcmLe)"

text \<open>\<open>Buffer.alloc\<close> refuses a negative size.\<close>

definition padTelnyxFrame :: "telnyx_codec \<Rightarrow> byte list \<Rightarrow> nat \<Rightarrow> buffer_error + byte list" where
  "padTelnyxFrame codec frame bytes =
    (if length frame = bytes then Inr frame
     else if bytes < length frame then Inl RangeError
     else Inr (frame @ replicate (bytes - length frame) (orElse (tp_idleByte (telnyxCodecProfile codec)) 0)))"

section \<open>A-law\<close>

text \<open>
  The expansion of ITU-T G.711, as arithmetic on the sign, the exponent and the mantissa of a code, in 16 bit
  samples; and what a pair of bytes, the low one first, stands for.
\<close>

definition g711_expand :: "byte \<Rightarrow> int" where
  "g711_expand b =
    (let code = uint (b XOR 0x55); e = nat (code div 16 mod 8); m = code mod 16;
         magnitude = (if e = 0 then 8 * (2 * m + 1) else 8 * (2 * m + 33) * 2 ^ (e - 1))
     in if 128 \<le> code then magnitude else - magnitude)"

definition le_sample :: "byte \<Rightarrow> byte \<Rightarrow> int" where
  "le_sample low high = sint (word_cat high low :: 16 word)"

fun le_samples :: "byte list \<Rightarrow> int list" where
  "le_samples (low # high # rest) = le_sample low high # le_samples rest"
| "le_samples rest = []"

text \<open>A property of every byte is a property of 256 of them.\<close>

lemma all_bytes: "list_all P (map of_nat [0..<256]) \<Longrightarrow> P (b :: byte)"
proof -
  assume *: "list_all P (map of_nat [0..<256])"
  have "unat b \<in> {0..<256}" using unsigned_less [where w = b] by simp
  moreover have "\<forall>n \<in> {0..<256}. P (of_nat n)" using * by (simp add: list_all_iff)
  ultimately have "P (of_nat (unat b))" by blast
  then show "P b" by simp
qed

definition byte_agrees :: "byte \<Rightarrow> bool" where
  "byte_agrees b = (case writeInt16LE (alaw_sample b) of
     Inr [low, high] \<Rightarrow> le_sample low high = g711_expand b | _ \<Rightarrow> False)"

lemma byte_agrees: "byte_agrees b"
  by (rule all_bytes) code_simp

lemma alaw_write:
  "\<exists>low high. writeInt16LE (alaw_sample b) = Inr [low, high] \<and> le_sample low high = g711_expand b"
  using byte_agrees [of b] by (auto simp: byte_agrees_def split: sum.splits list.splits)

text \<open>
  C26. Decoding A-law never fails and is the expansion of the recommendation: every byte of a call becomes two
  bytes, the sample that G.711 gives for it.
\<close>

theorem alaw_decodes_g711:
  "\<exists>pcm. alawToPcm16 input = Inr pcm \<and> length pcm = 2 * length input \<and> le_samples pcm = map g711_expand input"
proof (induction input)
  case (Cons b bs)
  obtain low high where "writeInt16LE (alaw_sample b) = Inr [low, high]" "le_sample low high = g711_expand b"
    using alaw_write by blast
  with Cons show ?case by auto
qed simp

text \<open>
  The code is a sign, an exponent and a mantissa: greater codes of a sign are greater magnitudes, and the two
  codes that differ in the sign alone are opposite samples.
\<close>

definition code_orders :: "byte \<Rightarrow> bool" where
  "code_orders b =
    (let c = b XOR 0x55 in
     g711_expand (b XOR 0x80) = - g711_expand b \<and>
     (c = 255 \<or> c < 128 \<or> g711_expand b < g711_expand ((c + 1) XOR 0x55)))"

lemma alaw_codes_ordered: "code_orders b"
  by (rule all_bytes) code_simp

lemma swap_twice: "swapBytes16 (swapBytes16 bs) = bs" and swap_length: "length (swapBytes16 bs) = length bs"
  by (induction bs rule: swapBytes16.induct) simp_all

text \<open>
  On a 16 bit call what is sent is read back as it was: encoding then decoding gives the same bytes, in both
  orders and for any length, and neither changes the length; the formats of the telephone network pass outwards
  as they are.
\<close>

lemma pcm_frames_roundtrip:
  "decodeTelnyxToPcm16 L16 (encodeTelnyxFromPcm16 L16 pcm) = Inr pcm \<and>
   (case decodeTelnyxToPcm16 L16 input of Inr pcm' \<Rightarrow> encodeTelnyxFromPcm16 L16 pcm' = input | Inl _ \<Rightarrow> False) \<and>
   length (encodeTelnyxFromPcm16 codec pcm) = length pcm \<and>
   decodeTelnyxToPcm16 PCMU input = Inr input \<and> encodeTelnyxFromPcm16 PCMA pcm = pcm"
  by (simp add: decodeTelnyxToPcm16_def encodeTelnyxFromPcm16_def swap_twice swap_length)

text \<open>
  A frame is filled up to a tenth of a second, whatever the format, with a byte that the listener hears as
  silence: at most eight steps of 32768 on A-law; a longer one is refused.
\<close>

lemma frames_are_filled_with_silence:
  "case padTelnyxFrame codec frame (telnyxFrameBytes codec) of
     Inl _ \<Rightarrow> telnyxFrameBytes codec < length frame
   | Inr padded \<Rightarrow> length padded = 100 * telnyxBytesPerMs codec \<and> take (length frame) padded = frame \<and>
       list_all (\<lambda>b. case codec of PCMA \<Rightarrow> \<bar>g711_expand b\<bar> \<le> 8 | PCMU \<Rightarrow> b = 0xff | L16 \<Rightarrow> b = 0)
         (drop (length frame) padded)"
proof -
  have "g711_expand 0xd5 = 8" by code_simp
  then show ?thesis
    by (cases codec) (auto simp: padTelnyxFrame_def telnyxFrameBytes_def telnyxBytesPerMs_def
        TELNYX_FRAME_DURATION_MS_def list_all_iff)
qed

end
