(* ===== verification/OAuth.thy ===== *)
theory OAuth
  imports Actions Redis Js_Text Json_Text
begin

text \<open>
  The authorization server of the MCP connector (\<open>agentic-reservations/mcp/oauth.ts\<close>): registration of clients,
  consent, exchange of codes and refresh tokens, revocation and validation. Its state is in Redis: a table of
  expiring values per prefix of the keys, the objects that are stored as JSON being the values. Values written here
  have one order of their fields, so that equal texts are equal objects. Hashes, base64, the parser of
  URLs and random UUIDs are arguments, as are the rows of the database.
\<close>

section \<open>State\<close>

datatype auth_method = client_secret_basic | client_secret_post | no_secret

record registered_client =
  rg_clientId :: string
  rg_clientSecretHash :: "string option"
  rg_redirectUris :: "string list"
  rg_clientName :: string
  rg_tokenEndpointAuthMethod :: auth_method
  rg_grantTypes :: "string list"
  rg_responseTypes :: "string list"

text \<open>What a consent page remembers under its token.\<close>

record consent =
  cs_clientId :: string
  cs_redirectUri :: string
  cs_state :: string
  cs_scopes :: "string list"
  cs_codeChallenge :: "string option"
  cs_codeChallengeMethod :: "string option"
  cs_restaurantId :: "string option"
  cs_restaurantName :: "string option"
  cs_resource :: "string option"

record auth_code =
  ac_clientId :: string
  ac_restaurantId :: "string option"
  ac_restaurantName :: "string option"
  ac_scopes :: "string list"
  ac_redirectUri :: string
  ac_resource :: "string option"
  ac_codeChallenge :: "string option"
  ac_codeChallengeMethod :: "string option"

record stored_token =
  tk_clientId :: string
  tk_restaurantId :: "string option"
  tk_restaurantName :: "string option"
  tk_scopes :: "string list"
  tk_resource :: "string option"
  tk_accessToken :: string
  tk_refreshToken :: string

text \<open>A key that \<open>exchangeToken\<close> consumes, and the value that it must still hold.\<close>

datatype grant_source = By_code string | By_refresh string

datatype original = Code_original auth_code | Token_original stored_token

text \<open>History: an exchange that took place, and the code its tokens descend from.\<close>

record grant =
  gr_source :: grant_source
  gr_token :: stored_token
  gr_code :: string

type_synonym 'v expiring = "string \<Rightarrow> ('v \<times> instant) option"

text \<open>
  The tables, and a history that no code reads: the consents shown under each token, the codes issued and the
  exchanges made.
\<close>

record oauth_state =
  os_clients :: "registered_client expiring"
  os_csrf :: "consent expiring"
  os_codes :: "auth_code expiring"
  os_tokens :: "stored_token expiring"
  os_refresh :: "stored_token expiring"
  os_rates :: "int expiring"
  os_shown :: "(string \<times> consent) list"
  os_approved :: "(string \<times> auth_code) list"
  os_issued :: "grant list"

definition alive :: "instant \<Rightarrow> 'v expiring \<Rightarrow> string \<Rightarrow> 'v option" where
  "alive now m k = (case m k of Some (v, x) \<Rightarrow> if now < x then Some v else None | None \<Rightarrow> None)"

definition put_for :: "instant \<Rightarrow> int \<Rightarrow> string \<Rightarrow> 'v \<Rightarrow> 'v expiring \<Rightarrow> 'v expiring" where
  "put_for now seconds k v m = m(k \<mapsto> (v, now + seconds * 1000))"

definition forget :: "string \<Rightarrow> 'v expiring \<Rightarrow> 'v expiring" where
  "forget k m = m(k := None)"

definition TTL_CLIENT :: int where "TTL_CLIENT = 60 * 60 * 24 * 365"

definition TTL_CODE :: int where "TTL_CODE = 60 * 10"

definition TTL_TOKEN :: int where "TTL_TOKEN = 60 * 60 * 24 * 30"

definition TTL_REFRESH :: int where "TTL_REFRESH = 60 * 60 * 24 * 90"

section \<open>Environment\<close>

record web_url =
  wu_protocol :: string
  wu_username :: string
  wu_password :: string
  wu_hostname :: string
  wu_port :: string
  wu_hash :: string

record mcp_restaurant =
  mr_id :: string
  mr_name :: string
  mr_agenticOptIn :: bool
  mr_mcpEnabled :: bool

text \<open>
  By the number of the step in its handler: the time, the fate of each Redis command and what other requests commit
  before it; the UUIDs drawn; and the functions of the runtime.
\<close>

record oauth_env =
  oe_now :: "nat \<Rightarrow> instant"
  oe_reply :: "nat \<Rightarrow> reply"
  oe_race :: "nat \<Rightarrow> oauth_state \<Rightarrow> oauth_state"
  oe_uuid :: "nat \<Rightarrow> string"
  oe_issuer :: string
  oe_sha256_hex :: "string \<Rightarrow> string"
  oe_sha256_base64url :: "string \<Rightarrow> string"
  oe_base64_text :: "string \<Rightarrow> string"
  oe_url :: "string \<Rightarrow> web_url option"
  oe_restaurants :: "mcp_restaurant list"

text \<open>A failed command of Redis answers the request with status 500.\<close>

type_synonym 'a oauth = "(oauth_state, unit, 'a) act"

definition oauth_step :: "oauth_env \<Rightarrow> nat \<Rightarrow> (instant \<Rightarrow> oauth_state \<Rightarrow> oauth_state \<times> 'a) \<Rightarrow> 'a oauth" where
  "oauth_step e k f s =
    (let s1 = oe_race e k s; (s2, a) = f (oe_now e k) s1
     in case oe_reply e k of Answered \<Rightarrow> (s2, Inr a) | NotRun \<Rightarrow> (s1, Inl ()) | AnswerLost \<Rightarrow> (s2, Inl ()))"

definition getJson :: "oauth_env \<Rightarrow> nat \<Rightarrow> (oauth_state \<Rightarrow> 'v expiring) \<Rightarrow> string \<Rightarrow> 'v option oauth" where
  "getJson e k table key = oauth_step e k (\<lambda>now s. (s, alive now (table s) key))"

section \<open>Clients\<close>

text \<open>A regular expression of the shape \<open>^pre[class]+suf$\<close>.\<close>

definition shaped :: "string \<Rightarrow> (char \<Rightarrow> bool) \<Rightarrow> string \<Rightarrow> string \<Rightarrow> bool" where
  "shaped pre class suf s =
    (let n = length s - length pre - length suf in
     length pre + length suf < length s \<and> take (length pre) s = pre \<and> drop (length pre + n) s = suf \<and>
     list_all class (take n (drop (length pre) s)))"

definition slug_char :: "char \<Rightarrow> bool" where
  "slug_char c = (between CHR ''a'' CHR ''z'' c \<or> between CHR ''A'' CHR ''Z'' c \<or> between CHR ''0'' CHR ''9'' c \<or>
     c = CHR ''_'' \<or> c = CHR ''-'')"

definition KNOWN_REDIRECT_PATTERNS :: "((string \<Rightarrow> bool) \<times> string) list" where
  "KNOWN_REDIRECT_PATTERNS =
     [((\<lambda>s. s = ''https://claude.ai/api/mcp/auth_callback''), ''Claude''),
      (shaped ''https://claude.ai/api/mcp/auth_callback/'' slug_char [], ''Claude''),
      (shaped ''https://chatgpt.com/backend-api/mcp/'' slug_char ''/callback'', ''ChatGPT''),
      (shaped ''https://chatgpt.com/connector/oauth/'' slug_char [], ''ChatGPT''),
      ((\<lambda>s. s = ''https://chatgpt.com/connector_platform_oauth_redirect''), ''ChatGPT''),
      (shaped ''https://chat.mistral.ai/'' slug_char ''/callback'', ''Mistral''),
      (shaped ''http://localhost:'' (between CHR ''0'' CHR ''9'') ''/callback'', ''Claude Code''),
      (shaped ''http://127.0.0.1:'' (between CHR ''0'' CHR ''9'') ''/callback'', ''Claude Code'')]"

definition matchKnownRedirect :: "string \<Rightarrow> string option" where
  "matchKnownRedirect uri = map_option snd (find (\<lambda>entry. fst entry uri) KNOWN_REDIRECT_PATTERNS)"

definition parseTokenEndpointAuthMethod :: "jval option \<Rightarrow> auth_method option" where
  "parseTokenEndpointAuthMethod v =
    (if v = None \<or> v = Some (VStr ''client_secret_basic'') then Some client_secret_basic
     else if v = Some (VStr ''client_secret_post'') then Some client_secret_post
     else if v = Some (VStr ''none'') then Some no_secret else None)"

definition normalizeGrantTypes :: "jval option \<Rightarrow> string list option" where
  "normalizeGrantTypes v =
    (case v of
       None \<Rightarrow> Some [''authorization_code'', ''refresh_token'']
     | Some (VArr xs) \<Rightarrow>
         if xs = [] \<or> 2 < length xs then None
         else if VStr ''authorization_code'' \<notin> set xs \<or>
           list_ex (\<lambda>x. x \<notin> {VStr ''authorization_code'', VStr ''refresh_token''}) xs then None
         else Some (map (\<lambda>x. the (text_of (Some x))) (js_set xs))
     | Some _ \<Rightarrow> None)"

definition normalizeResponseTypes :: "jval option \<Rightarrow> string list option" where
  "normalizeResponseTypes v =
    (case v of
       None \<Rightarrow> Some [''code'']
     | Some x \<Rightarrow> if x = VArr [VStr ''code''] then Some [''code''] else None)"

definition validateRedirectUri :: "(string \<Rightarrow> web_url option) \<Rightarrow> jval \<Rightarrow> bool" where
  "validateRedirectUri url v =
    (case v of
       VStr s \<Rightarrow>
         if s = [] \<or> 2048 < length s then False
         else (case url s of
           None \<Rightarrow> False
         | Some uri \<Rightarrow>
             if wu_hash uri \<noteq> [] \<or> wu_username uri \<noteq> [] \<or> wu_password uri \<noteq> [] then False
             else if wu_protocol uri = ''https:'' then True
             else if wu_protocol uri \<noteq> ''http:'' \<or> wu_port uri = [] then False
             else wu_hostname uri \<in> {''localhost'', ''127.0.0.1'', ''[::1]''})
     | _ \<Rightarrow> False)"

definition normalizeRedirectUris :: "(string \<Rightarrow> web_url option) \<Rightarrow> jval option \<Rightarrow> string list option" where
  "normalizeRedirectUris url v =
    (case v of
       Some (VArr xs) \<Rightarrow>
         if xs = [] \<or> 10 < length xs then None
         else if \<not> list_all (validateRedirectUri url) xs then None
         else Some (map (\<lambda>x. the (text_of (Some x))) (js_set xs))
     | _ \<Rightarrow> None)"

datatype secret_source = basic_source | body_source

record credentials =
  cr_clientId :: "string option"
  cr_clientSecret :: "string option"
  cr_source :: "secret_source option"

fun cut_colon :: "string \<Rightarrow> (string \<times> string) option" where
  "cut_colon [] = None"
| "cut_colon (c # cs) =
     (if c = CHR '':'' then Some ([], cs) else map_option (\<lambda>(a, b). (c # a, b)) (cut_colon cs))"

definition extractClientCredentials :: "(string \<Rightarrow> string) \<Rightarrow> string option \<Rightarrow> string option \<Rightarrow> string option \<Rightarrow>
    credentials" where
  "extractClientCredentials base64_text authorization client_id client_secret =
    (let body = \<lparr>cr_clientId = client_id, cr_clientSecret = client_secret,
           cr_source = (if truthy client_secret then Some body_source else None)\<rparr>
     in case authorization of
          Some h \<Rightarrow>
            if take 6 h \<noteq> ''Basic '' then body
            else (case cut_colon (base64_text (drop 6 h)) of
              None \<Rightarrow> body
            | Some (i, secret) \<Rightarrow> \<lparr>cr_clientId = Some i, cr_clientSecret = Some secret, cr_source = Some basic_source\<rparr>)
        | None \<Rightarrow> body)"

definition isValidClientAuthentication :: "(string \<Rightarrow> string) \<Rightarrow> registered_client option \<Rightarrow> credentials \<Rightarrow> bool" where
  "isValidClientAuthentication sha256_hex client cr =
    (case client of
       None \<Rightarrow> True
     | Some c \<Rightarrow>
         if rg_tokenEndpointAuthMethod c = no_secret then \<not> truthy (cr_clientSecret cr)
         else if rg_tokenEndpointAuthMethod c = client_secret_basic \<and> cr_source cr \<noteq> Some basic_source then False
         else if rg_tokenEndpointAuthMethod c = client_secret_post \<and> cr_source cr \<noteq> Some body_source then False
         else if \<not> truthy (rg_clientSecretHash c) \<or> \<not> truthy (cr_clientSecret cr) then False
         else rg_clientSecretHash c = Some (sha256_hex (the (cr_clientSecret cr))))"

definition verifyPkce :: "(string \<Rightarrow> string) \<Rightarrow> string \<Rightarrow> string option \<Rightarrow> string option \<Rightarrow> bool" where
  "verifyPkce sha256_base64url codeVerifier codeChallenge challenge_method =
    (if \<not> truthy codeChallenge then True
     else if challenge_method = Some ''S256'' then Some (sha256_base64url codeVerifier) = codeChallenge
     else False)"

section \<open>Answers\<close>

datatype oauth_error = too_many_requests | invalid_client_metadata | invalid_client | invalid_request |
  invalid_grant | invalid_target | unsupported_grant_type

datatype page_error = bad_scope | bad_restaurant | bad_resource | missing_parameters | bad_response_type |
  pkce_required | unknown_client | bad_redirect | missing_state | no_mcp_restaurant | restaurant_unavailable |
  csrf_missing | csrf_invalid | csrf_mismatch | redirect_missing | client_missing

record token_view =
  tv_access_token :: string
  tv_expires_in :: int
  tv_refresh_token :: "string option"
  tv_scopes :: "string list"

datatype oauth_answer = Refused nat oauth_error | Error_page nat page_error | Consent_page string consent string |
  Redirect_to string "(string \<times> string) list" | Registered registered_client "string option" | Tokens token_view | Revoked

text \<open>The fixed window of \<open>checkOauthRate\<close>.\<close>

definition oauth_rate_script :: "string \<Rightarrow> int \<Rightarrow> instant \<Rightarrow> oauth_state \<Rightarrow> oauth_state \<times> int" where
  "oauth_rate_script key windowMs now s =
    (case os_rates s key of
       Some (n, x) \<Rightarrow> if now < x then (s\<lparr>os_rates := (os_rates s)(key \<mapsto> (n + 1, x))\<rparr>, n + 1)
         else (s\<lparr>os_rates := (os_rates s)(key \<mapsto> (1, now + windowMs))\<rparr>, 1)
     | None \<Rightarrow> (s\<lparr>os_rates := (os_rates s)(key \<mapsto> (1, now + windowMs))\<rparr>, 1))"

record oauth_rate =
  or_max :: int
  or_windowMs :: int
  or_key :: string

definition OAUTH_RATE_TOKEN :: oauth_rate where
  "OAUTH_RATE_TOKEN = \<lparr>or_max = 10, or_windowMs = 60000, or_key = ''token''\<rparr>"

definition OAUTH_RATE_REGISTER :: oauth_rate where
  "OAUTH_RATE_REGISTER = \<lparr>or_max = 5, or_windowMs = 60000, or_key = ''register''\<rparr>"

definition OAUTH_RATE_REVOKE :: oauth_rate where
  "OAUTH_RATE_REVOKE = \<lparr>or_max = 20, or_windowMs = 60000, or_key = ''revoke''\<rparr>"

definition checkOauthRate :: "oauth_env \<Rightarrow> nat \<Rightarrow> string \<Rightarrow> oauth_rate \<Rightarrow> bool oauth" where
  "checkOauthRate e k ip config =
     next_do (oauth_step e k (oauth_rate_script (''sokar:oauth:rate:'' @ or_key config @ '':'' @ ip) (or_windowMs config)))
       (\<lambda>n. give (n \<le> or_max config))"

section \<open>Registration\<close>

definition new_client :: "oauth_env \<Rightarrow> jval \<Rightarrow> (registered_client \<times> string option) option" where
  "new_client e body =
    (case (normalizeRedirectUris (oe_url e) (jmember body ''redirect_uris''),
           parseTokenEndpointAuthMethod (jmember body ''token_endpoint_auth_method''),
           normalizeGrantTypes (jmember body ''grant_types''), normalizeResponseTypes (jmember body ''response_types'')) of
       (Some redirectUris, Some m, Some grantTypes, Some responseTypes) \<Rightarrow>
         (let name = jmember body ''client_name'' in
          if name \<noteq> None \<and> (case text_of name of None \<Rightarrow> True | Some s \<Rightarrow> s = [] \<or> 200 < length s) then None
          else let clientSecret = (if m = no_secret then None else Some (oe_uuid e 1 @ oe_uuid e 2)) in
            Some (\<lparr>rg_clientId = oe_uuid e 0, rg_clientSecretHash = map_option (oe_sha256_hex e) clientSecret,
              rg_redirectUris = redirectUris, rg_clientName = orElse (text_of name) ''mcp-client'',
              rg_tokenEndpointAuthMethod = m, rg_grantTypes = grantTypes, rg_responseTypes = responseTypes\<rparr>,
              clientSecret))
     | _ \<Rightarrow> None)"

definition oauth_register :: "oauth_env \<Rightarrow> string \<Rightarrow> jval \<Rightarrow> oauth_answer oauth" where
  "oauth_register e ip body =
     next_do (checkOauthRate e 0 ip OAUTH_RATE_REGISTER) (\<lambda>ok.
       if \<not> ok then give (Refused 429 too_many_requests)
       else case new_client e body of
         None \<Rightarrow> give (Refused 400 invalid_client_metadata)
       | Some (client, clientSecret) \<Rightarrow>
           next_do (oauth_step e 1 (\<lambda>now s.
               (s\<lparr>os_clients := put_for now TTL_CLIENT (rg_clientId client) client (os_clients s)\<rparr>, ())))
             (\<lambda>_. give (Registered client clientSecret)))"

section \<open>Consent\<close>

record authorize_query =
  aq_client_id :: "string option"
  aq_redirect_uri :: "string option"
  aq_response_type :: "string option"
  aq_state :: "string option"
  aq_scope :: "string option"
  aq_restaurant_id :: "string option"
  aq_resource :: "string option"
  aq_code_challenge :: "string option"
  aq_code_challenge_method :: "string option"

definition MCP_SCOPES :: "string list" where
  "MCP_SCOPES = [''mcp:read'', ''mcp:reserve'', ''mcp:cancel'']"

definition requested_scopes :: "string option \<Rightarrow> string list" where
  "requested_scopes scope =
    (if truthy scope then filter (\<lambda>w. w \<noteq> []) (js_split CHR '' '' (the scope)) else [''mcp:read''])"

definition hex_or_dash :: "char \<Rightarrow> bool" where
  "hex_or_dash c = (between CHR ''0'' CHR ''9'' c \<or> between CHR ''a'' CHR ''f'' c \<or> between CHR ''A'' CHR ''F'' c \<or>
     c = CHR ''-'')"

definition valid_challenge :: "string option \<Rightarrow> string option \<Rightarrow> bool" where
  "valid_challenge challenge_method challenge =
    (challenge_method = Some ''S256'' \<and>
     (case challenge of Some c \<Rightarrow> 43 \<le> length c \<and> length c \<le> 128 \<and> list_all slug_char c | None \<Rightarrow> False))"

text \<open>What is looked at before the first read.\<close>

definition query_error :: "oauth_env \<Rightarrow> authorize_query \<Rightarrow> page_error option" where
  "query_error e q =
    (let scopes = requested_scopes (aq_scope q) in
     if scopes = [] \<or> list_ex (\<lambda>s. s \<notin> set MCP_SCOPES) scopes then Some bad_scope
     else if truthy (aq_restaurant_id q) \<and>
       \<not> (length (the (aq_restaurant_id q)) = 36 \<and> list_all hex_or_dash (the (aq_restaurant_id q)))
     then Some bad_restaurant
     else if aq_resource q \<noteq> None \<and> aq_resource q \<noteq> Some (oe_issuer e) then Some bad_resource
     else if \<not> truthy (aq_client_id q) \<or> \<not> truthy (aq_redirect_uri q) then Some missing_parameters
     else if aq_response_type q \<noteq> Some ''code'' then Some bad_response_type
     else if \<not> valid_challenge (aq_code_challenge_method q) (aq_code_challenge q) then Some pkce_required
     else None)"

text \<open>Whether a client may be answered at this address.\<close>

definition redirect_error :: "registered_client option \<Rightarrow> string \<Rightarrow> string option \<Rightarrow> page_error option" where
  "redirect_error client uri state =
    (let known = matchKnownRedirect uri in
     case client of
       None \<Rightarrow> if known = None then Some unknown_client else if \<not> truthy state then Some missing_state else None
     | Some c \<Rightarrow>
         if uri \<notin> set (rg_redirectUris c) then Some bad_redirect
         else if known \<noteq> None \<and> \<not> truthy state then Some missing_state else None)"

definition restaurant_error :: "oauth_env \<Rightarrow> string option \<Rightarrow> page_error option" where
  "restaurant_error e restaurant_id =
    (if truthy restaurant_id
     then (case find (\<lambda>r. mr_id r = the restaurant_id) (oe_restaurants e) of
        None \<Rightarrow> Some no_mcp_restaurant
      | Some r \<Rightarrow> if \<not> mr_mcpEnabled r then Some no_mcp_restaurant
          else if \<not> mr_agenticOptIn r then Some restaurant_unavailable else None)
     else if list_ex mr_mcpEnabled (oe_restaurants e) then None else Some no_mcp_restaurant)"

definition consent_of :: "oauth_env \<Rightarrow> authorize_query \<Rightarrow> consent" where
  "consent_of e q =
     \<lparr>cs_clientId = orElse (aq_client_id q) [], cs_redirectUri = orElse (aq_redirect_uri q) [],
      cs_state = orElse (aq_state q) [], cs_scopes = requested_scopes (aq_scope q),
      cs_codeChallenge = (if truthy (aq_code_challenge q) then aq_code_challenge q else None),
      cs_codeChallengeMethod = (if truthy (aq_code_challenge_method q) then aq_code_challenge_method q else None),
      cs_restaurantId = (if truthy (aq_restaurant_id q) then aq_restaurant_id q else None),
      cs_restaurantName = (if truthy (aq_restaurant_id q)
        then map_option mr_name (find (\<lambda>r. mr_id r = the (aq_restaurant_id q)) (oe_restaurants e)) else None),
      cs_resource = aq_resource q\<rparr>"

definition authorize_page :: "oauth_env \<Rightarrow> authorize_query \<Rightarrow> oauth_answer oauth" where
  "authorize_page e q =
    (case query_error e q of
       Some err \<Rightarrow> give (Error_page 400 err)
     | None \<Rightarrow>
         next_do (getJson e 0 os_clients (orElse (aq_client_id q) [])) (\<lambda>client.
           case redirect_error client (orElse (aq_redirect_uri q) []) (aq_state q) of
             Some err \<Rightarrow> give (Error_page 400 err)
           | None \<Rightarrow>
               (case restaurant_error e (aq_restaurant_id q) of
                  Some err \<Rightarrow> give (Error_page 400 err)
                | None \<Rightarrow>
                    next_do (oauth_step e 1 (\<lambda>now s.
                        (s\<lparr>os_csrf := put_for now TTL_CODE (oe_uuid e 0) (consent_of e q) (os_csrf s),
                           os_shown := os_shown s @ [(oe_uuid e 0, consent_of e q)]\<rparr>, ())))
                      (\<lambda>_. give (Consent_page (oe_uuid e 0) (consent_of e q) (case client of
                         Some c \<Rightarrow> rg_clientName c
                       | None \<Rightarrow> orElse (matchKnownRedirect (orElse (aq_redirect_uri q) [])) []))))))"

record authorize_form =
  af_client_id :: "string option"
  af_redirect_uri :: "string option"
  af_state :: "string option"
  af_scope :: "string option"
  af_restaurant_id :: "string option"
  af_resource :: "string option"
  af_code_challenge :: "string option"
  af_code_challenge_method :: "string option"
  af_action :: "string option"
  af_csrf_token :: "string option"

fun join_spaces :: "string list \<Rightarrow> string" where
  "join_spaces [] = []"
| "join_spaces [w] = w"
| "join_spaces (w # ws) = w @ CHR '' '' # join_spaces ws"

text \<open>\<open>v && v !== w\<close>.\<close>

definition given_other :: "string option \<Rightarrow> string option \<Rightarrow> bool" where
  "given_other v w = (truthy v \<and> v \<noteq> w)"

definition form_mismatch :: "authorize_form \<Rightarrow> consent \<Rightarrow> bool" where
  "form_mismatch f c =
    (given_other (af_client_id f) (Some (cs_clientId c)) \<or> given_other (af_redirect_uri f) (Some (cs_redirectUri c)) \<or>
     given_other (af_state f) (Some (cs_state c)) \<or> given_other (af_scope f) (Some (join_spaces (cs_scopes c))) \<or>
     given_other (af_restaurant_id f) (cs_restaurantId c) \<or> (af_resource f \<noteq> None \<and> af_resource f \<noteq> cs_resource c) \<or>
     given_other (af_code_challenge f) (cs_codeChallenge c) \<or>
     given_other (af_code_challenge_method f) (cs_codeChallengeMethod c))"

definition buildAuthorizationRedirect :: "oauth_env \<Rightarrow> string \<Rightarrow> (string \<times> string) list \<Rightarrow> oauth_answer" where
  "buildAuthorizationRedirect e redirectUri parameters =
     Redirect_to redirectUri (parameters @ [(''iss'', oe_issuer e)])"

definition state_parameter :: "string \<Rightarrow> (string \<times> string) list" where
  "state_parameter st = (if st = [] then [] else [(''state'', st)])"

definition code_of :: "consent \<Rightarrow> auth_code" where
  "code_of c = \<lparr>ac_clientId = cs_clientId c, ac_restaurantId = cs_restaurantId c,
     ac_restaurantName = cs_restaurantName c, ac_scopes = cs_scopes c, ac_redirectUri = cs_redirectUri c,
     ac_resource = cs_resource c, ac_codeChallenge = cs_codeChallenge c, ac_codeChallengeMethod = cs_codeChallengeMethod c\<rparr>"

text \<open>After the consent has been found, taken and compared with the form.\<close>

definition decide_consent :: "oauth_env \<Rightarrow> authorize_form \<Rightarrow> consent \<Rightarrow> oauth_answer oauth" where
  "decide_consent e f c =
     next_do (getJson e 2 os_clients (cs_clientId c)) (\<lambda>client.
       case redirect_error client (cs_redirectUri c) (Some (cs_state c)) of
         Some err \<Rightarrow> give (Error_page 400 err)
       | None \<Rightarrow>
         if af_action f = Some ''deny''
         then (if cs_redirectUri c = [] then give (Error_page 400 redirect_missing)
           else give (buildAuthorizationRedirect e (cs_redirectUri c)
             ([(''error'', ''access_denied''), (''error_description'', ''User denied access'')] @
              state_parameter (cs_state c))))
         else if cs_clientId c = [] then give (Error_page 400 client_missing)
         else next_do (oauth_step e 3 (\<lambda>now s.
               (s\<lparr>os_codes := put_for now TTL_CODE (oe_uuid e 0) (code_of c) (os_codes s),
                  os_approved := os_approved s @ [(oe_uuid e 0, code_of c)]\<rparr>, ())))
           (\<lambda>_. if cs_redirectUri c = [] then give (Error_page 400 redirect_missing)
             else give (buildAuthorizationRedirect e (cs_redirectUri c)
               ((''code'', oe_uuid e 0) # state_parameter (cs_state c)))))"

definition authorize_decision :: "oauth_env \<Rightarrow> authorize_form \<Rightarrow> oauth_answer oauth" where
  "authorize_decision e f =
    (if \<not> truthy (af_csrf_token f) then give (Error_page 403 csrf_missing)
     else next_do (getJson e 0 os_csrf (the (af_csrf_token f))) (\<lambda>found. case found of
         None \<Rightarrow> give (Error_page 403 csrf_invalid)
       | Some c \<Rightarrow>
           next_do (oauth_step e 1 (\<lambda>now s. (s\<lparr>os_csrf := forget (the (af_csrf_token f)) (os_csrf s)\<rparr>, ()))) (\<lambda>_.
             if form_mismatch f c then give (Error_page 403 csrf_mismatch) else decide_consent e f c)))"

section \<open>Tokens\<close>

definition source_value :: "instant \<Rightarrow> grant_source \<Rightarrow> oauth_state \<Rightarrow> original option" where
  "source_value now src s =
    (case src of
       By_code c \<Rightarrow> map_option Code_original (alive now (os_codes s) c)
     | By_refresh r \<Rightarrow> map_option Token_original (alive now (os_refresh s) r))"

text \<open>History: the code at the root of an exchange.\<close>

definition root_of :: "grant_source \<Rightarrow> oauth_state \<Rightarrow> string" where
  "root_of src s =
    (case src of
       By_code c \<Rightarrow> c
     | By_refresh r \<Rightarrow> (case find (\<lambda>g. tk_refreshToken (gr_token g) = r) (os_issued s) of Some g \<Rightarrow> gr_code g | None \<Rightarrow> []))"

definition delete_source :: "grant_source \<Rightarrow> oauth_state \<Rightarrow> oauth_state" where
  "delete_source src s =
    (case src of
       By_code c \<Rightarrow> s\<lparr>os_codes := forget c (os_codes s)\<rparr>
     | By_refresh r \<Rightarrow> s\<lparr>os_refresh := forget r (os_refresh s)\<rparr>)"

definition delete_access :: "string option \<Rightarrow> oauth_state \<Rightarrow> oauth_state" where
  "delete_access previous s =
    (if truthy previous then s\<lparr>os_tokens := forget (the previous) (os_tokens s)\<rparr> else s)"

text \<open>\<open>EXCHANGE_TOKEN_SCRIPT\<close>, one atomic step.\<close>

definition exchange_script :: "grant_source \<Rightarrow> original \<Rightarrow> stored_token \<Rightarrow> string option \<Rightarrow> instant \<Rightarrow> oauth_state \<Rightarrow>
    oauth_state \<times> bool" where
  "exchange_script src original nxt previous now s =
    (if source_value now src s \<noteq> Some original then (s, False)
     else let s1 = s\<lparr>os_tokens := put_for now TTL_TOKEN (tk_accessToken nxt) nxt (os_tokens s),
            os_issued := os_issued s @ [\<lparr>gr_source = src, gr_token = nxt, gr_code = root_of src s\<rparr>]\<rparr>;
            s2 = (if tk_refreshToken nxt \<noteq> []
              then s1\<lparr>os_refresh := put_for now TTL_REFRESH (tk_refreshToken nxt) nxt (os_refresh s1)\<rparr> else s1)
       in (delete_access previous (delete_source src s2), True))"

definition exchangeToken :: "oauth_env \<Rightarrow> nat \<Rightarrow> grant_source \<Rightarrow> original \<Rightarrow> stored_token \<Rightarrow> string option \<Rightarrow>
    bool oauth" where
  "exchangeToken e k src original nxt previous = oauth_step e k (exchange_script src original nxt previous)"

record token_request =
  tr_authorization :: "string option"
  tr_grant_type :: "string option"
  tr_code :: "string option"
  tr_redirect_uri :: "string option"
  tr_client_id :: "string option"
  tr_client_secret :: "string option"
  tr_code_verifier :: "string option"
  tr_refresh_token :: "string option"
  tr_resource :: "string option"

definition supports_refresh :: "registered_client option \<Rightarrow> bool" where
  "supports_refresh client = (case client of None \<Rightarrow> True | Some c \<Rightarrow> ''refresh_token'' \<in> set (rg_grantTypes c))"

definition code_error :: "oauth_env \<Rightarrow> token_request \<Rightarrow> string \<Rightarrow> auth_code \<Rightarrow> oauth_error option" where
  "code_error e q clientId a =
    (if ac_clientId a \<noteq> clientId then Some invalid_grant
     else if tr_resource q \<noteq> ac_resource a then Some invalid_target
     else if \<not> truthy (tr_redirect_uri q) \<or> tr_redirect_uri q \<noteq> Some (ac_redirectUri a) then Some invalid_grant
     else if truthy (ac_codeChallenge a) \<and> (\<not> truthy (tr_code_verifier q) \<or>
       \<not> verifyPkce (oe_sha256_base64url e) (the (tr_code_verifier q)) (ac_codeChallenge a) (ac_codeChallengeMethod a))
     then Some invalid_grant
     else None)"

definition token_of_code :: "oauth_env \<Rightarrow> string \<Rightarrow> registered_client option \<Rightarrow> auth_code \<Rightarrow> stored_token" where
  "token_of_code e clientId client a =
     \<lparr>tk_clientId = clientId, tk_restaurantId = ac_restaurantId a, tk_restaurantName = ac_restaurantName a,
      tk_scopes = ac_scopes a, tk_resource = Some (orElse (ac_resource a) (oe_issuer e)), tk_accessToken = oe_uuid e 0,
      tk_refreshToken = (if supports_refresh client then oe_uuid e 1 else [])\<rparr>"

definition grant_code :: "oauth_env \<Rightarrow> token_request \<Rightarrow> string \<Rightarrow> registered_client option \<Rightarrow> oauth_answer oauth" where
  "grant_code e q clientId client =
    (if \<not> truthy (tr_code q) then give (Refused 400 invalid_request)
     else next_do (getJson e 2 os_codes (the (tr_code q))) (\<lambda>found. case found of
         None \<Rightarrow> give (Refused 400 invalid_grant)
       | Some a \<Rightarrow>
           (case code_error e q clientId a of
              Some err \<Rightarrow> give (Refused 400 err)
            | None \<Rightarrow>
                (let t = token_of_code e clientId client a in
                 next_do (exchangeToken e 3 (By_code (the (tr_code q))) (Code_original a) t None) (\<lambda>ok.
                   if \<not> ok then give (Refused 400 invalid_grant)
                   else give (Tokens \<lparr>tv_access_token = tk_accessToken t, tv_expires_in = TTL_TOKEN,
                     tv_refresh_token = (if supports_refresh client then Some (tk_refreshToken t) else None),
                     tv_scopes = ac_scopes a\<rparr>))))))"

definition refresh_error :: "oauth_env \<Rightarrow> token_request \<Rightarrow> string \<Rightarrow> stored_token \<Rightarrow> oauth_error option" where
  "refresh_error e q clientId t =
    (if tk_clientId t \<noteq> clientId then Some invalid_grant
     else if tr_resource q \<noteq> None \<and> tr_resource q \<noteq> Some (orElse (tk_resource t) (oe_issuer e)) then Some invalid_target
     else None)"

definition token_of_refresh :: "oauth_env \<Rightarrow> stored_token \<Rightarrow> stored_token" where
  "token_of_refresh e t =
     t\<lparr>tk_resource := Some (orElse (tk_resource t) (oe_issuer e)), tk_accessToken := oe_uuid e 0,
       tk_refreshToken := oe_uuid e 1\<rparr>"

definition grant_refresh :: "oauth_env \<Rightarrow> token_request \<Rightarrow> string \<Rightarrow> registered_client option \<Rightarrow> oauth_answer oauth" where
  "grant_refresh e q clientId client =
    (if \<not> supports_refresh client then give (Refused 400 unsupported_grant_type)
     else if \<not> truthy (tr_refresh_token q) then give (Refused 400 invalid_request)
     else next_do (getJson e 2 os_refresh (the (tr_refresh_token q))) (\<lambda>found. case found of
         None \<Rightarrow> give (Refused 400 invalid_grant)
       | Some old \<Rightarrow>
           (case refresh_error e q clientId old of
              Some err \<Rightarrow> give (Refused 400 err)
            | None \<Rightarrow>
                (let t = token_of_refresh e old in
                 next_do (exchangeToken e 3 (By_refresh (the (tr_refresh_token q))) (Token_original old) t
                     (Some (tk_accessToken old))) (\<lambda>ok.
                   if \<not> ok then give (Refused 400 invalid_grant)
                   else give (Tokens \<lparr>tv_access_token = tk_accessToken t, tv_expires_in = TTL_TOKEN,
                     tv_refresh_token = Some (tk_refreshToken t), tv_scopes = tk_scopes old\<rparr>))))))"

text \<open>The caller of an endpoint that asks for a client, once its window and its secret have been looked at.\<close>

definition with_client :: "oauth_env \<Rightarrow> string \<Rightarrow> oauth_rate \<Rightarrow> credentials \<Rightarrow>
    (string \<Rightarrow> registered_client option \<Rightarrow> oauth_answer oauth) \<Rightarrow> oauth_answer oauth" where
  "with_client e ip config cr f =
     next_do (checkOauthRate e 0 ip config) (\<lambda>ok.
       if \<not> ok then give (Refused 429 too_many_requests)
       else if \<not> truthy (cr_clientId cr) then give (Refused 401 invalid_client)
       else next_do (getJson e 1 os_clients (the (cr_clientId cr))) (\<lambda>client.
         if \<not> isValidClientAuthentication (oe_sha256_hex e) client cr then give (Refused 401 invalid_client)
         else f (the (cr_clientId cr)) client))"

definition oauth_token :: "oauth_env \<Rightarrow> string \<Rightarrow> token_request \<Rightarrow> oauth_answer oauth" where
  "oauth_token e ip q =
     with_client e ip OAUTH_RATE_TOKEN
       (extractClientCredentials (oe_base64_text e) (tr_authorization q) (tr_client_id q) (tr_client_secret q))
       (\<lambda>clientId client.
          if tr_grant_type q = Some ''authorization_code'' then grant_code e q clientId client
          else if tr_grant_type q = Some ''refresh_token'' then grant_refresh e q clientId client
          else give (Refused 400 unsupported_grant_type))"

section \<open>Revocation and validation\<close>

definition deleteStoredTokenPair :: "oauth_env \<Rightarrow> nat \<Rightarrow> stored_token \<Rightarrow> unit oauth" where
  "deleteStoredTokenPair e k t =
     oauth_step e k (\<lambda>now s. (s\<lparr>os_tokens := forget (tk_accessToken t) (os_tokens s),
       os_refresh := forget (tk_refreshToken t) (os_refresh s)\<rparr>, ()))"

record revoke_request =
  rv_authorization :: "string option"
  rv_client_id :: "string option"
  rv_client_secret :: "string option"
  rv_token :: "string option"

definition revoke_found :: "oauth_env \<Rightarrow> string \<Rightarrow> string \<Rightarrow> stored_token \<Rightarrow> unit oauth" where
  "revoke_found e token clientId t =
    (if tk_clientId t \<noteq> clientId then give ()
     else if tk_accessToken t \<noteq> [] \<and> tk_refreshToken t \<noteq> [] then deleteStoredTokenPair e 4 t
     else next_do (oauth_step e 4 (\<lambda>now s. (s\<lparr>os_tokens := forget token (os_tokens s)\<rparr>, ()))) (\<lambda>_.
       oauth_step e 5 (\<lambda>now s. (s\<lparr>os_refresh := forget token (os_refresh s)\<rparr>, ()))))"

definition oauth_revoke :: "oauth_env \<Rightarrow> string \<Rightarrow> revoke_request \<Rightarrow> oauth_answer oauth" where
  "oauth_revoke e ip q =
     with_client e ip OAUTH_RATE_REVOKE
       (extractClientCredentials (oe_base64_text e) (rv_authorization q) (rv_client_id q) (rv_client_secret q))
       (\<lambda>clientId _.
          if \<not> truthy (rv_token q) then give Revoked
          else next_do (getJson e 2 os_tokens (the (rv_token q))) (\<lambda>access.
            next_do (case access of Some t \<Rightarrow> give (Some t) | None \<Rightarrow> getJson e 3 os_refresh (the (rv_token q))) (\<lambda>found.
              next_do (case found of None \<Rightarrow> give () | Some t \<Rightarrow> revoke_found e (the (rv_token q)) clientId t)
                (\<lambda>_. give Revoked))))"

record oauth_context =
  ox_clientId :: string
  ox_restaurantId :: "string option"
  ox_scopes :: "string list"

definition token_context :: "string \<Rightarrow> stored_token option \<Rightarrow> oauth_context option" where
  "token_context issuer found =
    (case found of
       None \<Rightarrow> None
     | Some t \<Rightarrow>
         if tk_resource t \<noteq> None \<and> tk_resource t \<noteq> Some issuer then None
         else Some \<lparr>ox_clientId = tk_clientId t, ox_restaurantId = tk_restaurantId t, ox_scopes = tk_scopes t\<rparr>)"

definition validateOAuthToken :: "oauth_env \<Rightarrow> string \<Rightarrow> oauth_context option oauth" where
  "validateOAuthToken e token =
     next_do (getJson e 0 os_tokens token) (\<lambda>found. give (token_context (oe_issuer e) found))"

section \<open>Text in pages\<close>

text \<open>\<open>replace (/c/g, entity)\<close>.\<close>

definition replace_char :: "char \<Rightarrow> string \<Rightarrow> string \<Rightarrow> string" where
  "replace_char c entity s = concat (map (\<lambda>d. if d = c then entity else [d]) s)"

abbreviation (input) APOSTROPHE :: char where "APOSTROPHE \<equiv> CHR 0x27"

definition escapeHtml :: "string \<Rightarrow> string" where
  "escapeHtml s = replace_char APOSTROPHE ''&#39;'' (replace_char QUOTE ''&quot;'' (replace_char CHR ''>'' ''&gt;''
     (replace_char CHR ''<'' ''&lt;'' (replace_char CHR ''&'' ''&amp;'' s))))"

definition escapeAttr :: "string \<Rightarrow> string" where
  "escapeAttr s = replace_char APOSTROPHE ''&#39;'' (replace_char QUOTE ''&quot;'' (replace_char CHR ''&'' ''&amp;'' s))"

end
