(* ===== verification/OAuth_Safety.thy ===== *)
theory OAuth_Safety
  imports OAuth
begin

text \<open>
  Runs of the authorization server: what requests commit, the invariant of the tables and their history, and that every handler
  keeps it when it is overtaken by the commits of others.
\<close>

section \<open>Commits\<close>

definition used_values :: "oauth_state \<Rightarrow> string set" where
  "used_values s = fst ` set (os_approved s) \<union> (tk_accessToken \<circ> gr_token) ` set (os_issued s) \<union>
     (tk_refreshToken \<circ> gr_token) ` set (os_issued s)"

definition sources :: "oauth_state \<Rightarrow> grant_source set" where
  "sources s = gr_source ` set (os_issued s)"

text \<open>A consent that a page may show.\<close>

definition consent_ok :: "consent \<Rightarrow> bool" where
  "consent_ok c \<longleftrightarrow> cs_scopes c \<noteq> [] \<and> set (cs_scopes c) \<subseteq> set MCP_SCOPES \<and> truthy (cs_codeChallenge c) \<and>
     cs_codeChallengeMethod c = Some ''S256''"

text \<open>A token pair that a code, or an earlier pair, stands for.\<close>

definition same_access :: "stored_token \<Rightarrow> auth_code \<Rightarrow> bool" where
  "same_access t a \<longleftrightarrow> tk_clientId t = ac_clientId a \<and> tk_restaurantId t = ac_restaurantId a \<and>
     tk_scopes t = ac_scopes a"

definition new_pair :: "string set \<Rightarrow> stored_token \<Rightarrow> oauth_state \<Rightarrow> bool" where
  "new_pair T t s \<longleftrightarrow> tk_accessToken t \<in> T - used_values s \<and> tk_accessToken t \<noteq> [] \<and>
     (tk_refreshToken t = [] \<or> tk_refreshToken t \<in> T - used_values s)"

definition shrinks :: "oauth_state \<Rightarrow> oauth_state \<Rightarrow> bool" where
  "shrinks s s' \<longleftrightarrow> os_csrf s' \<subseteq>\<^sub>m os_csrf s \<and> os_codes s' \<subseteq>\<^sub>m os_codes s \<and> os_tokens s' \<subseteq>\<^sub>m os_tokens s \<and>
     os_refresh s' \<subseteq>\<^sub>m os_refresh s \<and> os_shown s' = os_shown s \<and> os_approved s' = os_approved s \<and>
     os_issued s' = os_issued s"

text \<open>
  What one command of a request may do. Random values come from \<open>T\<close>; \<open>sha\<close> is SHA-256. Registrations and
  windows change freely, entries expire or are deleted.
\<close>

inductive oauth_commit :: "string set \<Rightarrow> (string \<Rightarrow> string) \<Rightarrow> oauth_state \<Rightarrow> oauth_state \<Rightarrow> bool" for T sha where
  oc_shrink: "shrinks s s' \<Longrightarrow> oauth_commit T sha s s'"
| oc_shown: "consent_ok c \<Longrightarrow> oauth_commit T sha s
    (s\<lparr>os_csrf := put_for now TTL_CODE u c (os_csrf s), os_shown := os_shown s @ [(u, c)]\<rparr>)"
| oc_approved: "u \<in> T - used_values s \<Longrightarrow> c \<in> snd ` set (os_shown s) \<Longrightarrow> oauth_commit T sha s
    (s\<lparr>os_codes := put_for now TTL_CODE u (code_of c) (os_codes s), os_approved := os_approved s @ [(u, code_of c)]\<rparr>)"
| oc_code: "new_pair T t s \<Longrightarrow> same_access t a \<Longrightarrow> truthy (ac_codeChallenge a) \<longrightarrow> ac_codeChallenge a = Some (sha v) \<Longrightarrow>
    oauth_commit T sha s (fst (exchange_script (By_code c) (Code_original a) t None now s))"
| oc_refresh: "new_pair T t s \<Longrightarrow> tk_refreshToken t \<noteq> [] \<Longrightarrow> tk_clientId t = tk_clientId old \<Longrightarrow>
    tk_restaurantId t = tk_restaurantId old \<Longrightarrow> tk_scopes t = tk_scopes old \<Longrightarrow>
    oauth_commit T sha s (fst (exchange_script (By_refresh r) (Token_original old) t (Some (tk_accessToken old)) now s))"

section \<open>The invariant\<close>

text \<open>A pair that has not been refreshed.\<close>

definition unrefreshed :: "oauth_state \<Rightarrow> stored_token \<Rightarrow> bool" where
  "unrefreshed s t \<longleftrightarrow> By_refresh (tk_refreshToken t) \<notin> sources s"

definition consents_ok :: "oauth_state \<Rightarrow> bool" where
  "consents_ok s \<longleftrightarrow> (\<forall>c \<in> snd ` set (os_shown s). consent_ok c) \<and>
     (\<forall>u c x. os_csrf s u = Some (c, x) \<longrightarrow> (u, c) \<in> set (os_shown s))"

definition codes_ok :: "oauth_state \<Rightarrow> bool" where
  "codes_ok s \<longleftrightarrow> distinct (map fst (os_approved s)) \<and>
     (\<forall>a \<in> snd ` set (os_approved s). \<exists>c \<in> snd ` set (os_shown s). a = code_of c) \<and>
     (\<forall>u a x. os_codes s u = Some (a, x) \<longrightarrow> (u, a) \<in> set (os_approved s) \<and> By_code u \<notin> sources s)"

definition grant_ok :: "(string \<Rightarrow> string) \<Rightarrow> oauth_state \<Rightarrow> grant \<Rightarrow> bool" where
  "grant_ok sha s g \<longleftrightarrow> tk_accessToken (gr_token g) \<noteq> [] \<and> By_code (gr_code g) \<in> sources s \<and>
     (\<exists>a v. (gr_code g, a) \<in> set (os_approved s) \<and> same_access (gr_token g) a \<and> ac_codeChallenge a = Some (sha v)) \<and>
     (\<forall>c. gr_source g = By_code c \<longrightarrow> gr_code g = c) \<and>
     (\<forall>r. gr_source g = By_refresh r \<longrightarrow> r \<noteq> [] \<and> r \<in> (tk_refreshToken \<circ> gr_token) ` set (os_issued s))"

text \<open>Values are of one grant, and of the grants of a code at most one is not refreshed.\<close>

definition apart :: "oauth_state \<Rightarrow> grant \<Rightarrow> grant \<Rightarrow> bool" where
  "apart s g g' \<longleftrightarrow> (tk_accessToken (gr_token g) = tk_accessToken (gr_token g') \<longrightarrow> g = g') \<and>
     (tk_refreshToken (gr_token g) = tk_refreshToken (gr_token g') \<longrightarrow> tk_refreshToken (gr_token g) \<noteq> [] \<longrightarrow> g = g') \<and>
     (gr_code g = gr_code g' \<longrightarrow> unrefreshed s (gr_token g) \<longrightarrow> unrefreshed s (gr_token g') \<longrightarrow> g = g')"

lemma apart_sym: "apart s g g' \<Longrightarrow> apart s g' g"
  unfolding apart_def by metis

definition grants_ok :: "(string \<Rightarrow> string) \<Rightarrow> oauth_state \<Rightarrow> bool" where
  "grants_ok sha s \<longleftrightarrow> distinct (map gr_source (os_issued s)) \<and> (\<forall>g \<in> set (os_issued s). grant_ok sha s g) \<and>
     (\<forall>g \<in> set (os_issued s). \<forall>g' \<in> set (os_issued s). apart s g g')"

definition tables_ok :: "oauth_state \<Rightarrow> bool" where
  "tables_ok s \<longleftrightarrow>
     (\<forall>u t x. os_tokens s u = Some (t, x) \<longrightarrow> u = tk_accessToken t \<and> t \<in> gr_token ` set (os_issued s) \<and> unrefreshed s t) \<and>
     (\<forall>r t x. os_refresh s r = Some (t, x) \<longrightarrow> r = tk_refreshToken t \<and> r \<noteq> [] \<and> t \<in> gr_token ` set (os_issued s) \<and>
        unrefreshed s t)"

definition oauth_ok :: "(string \<Rightarrow> string) \<Rightarrow> oauth_state \<Rightarrow> bool" where
  "oauth_ok sha s \<longleftrightarrow> consents_ok s \<and> codes_ok s \<and> grants_ok sha s \<and> tables_ok s"

lemma map_leD: "m \<subseteq>\<^sub>m m' \<Longrightarrow> m k = Some v \<Longrightarrow> m' k = Some v"
  by (auto simp: map_le_def dom_def)

lemma sources_same: "os_issued s' = os_issued s \<Longrightarrow> sources s' = sources s"
  by (simp add: sources_def)

lemma grants_same:
  assumes "grants_ok sha s" "os_issued s' = os_issued s" "set (os_approved s) \<subseteq> set (os_approved s')"
  shows "grants_ok sha s'"
proof -
  have "grant_ok sha s g \<Longrightarrow> grant_ok sha s' g" for g
    using assms(3) unfolding grant_ok_def sources_same [OF assms(2)] assms(2) by blast
  then show ?thesis
    using assms(1) unfolding grants_ok_def apart_def unrefreshed_def sources_same [OF assms(2)] assms(2) by blast
qed

lemma tables_same:
  assumes "tables_ok s" "os_issued s' = os_issued s" "os_tokens s' \<subseteq>\<^sub>m os_tokens s" "os_refresh s' \<subseteq>\<^sub>m os_refresh s"
  shows "tables_ok s'"
  using assms(1) map_leD [OF assms(3)] map_leD [OF assms(4)]
  unfolding tables_ok_def unrefreshed_def sources_same [OF assms(2)] assms(2) by blast

lemma codes_same:
  assumes "codes_ok s" "os_issued s' = os_issued s" "os_approved s' = os_approved s" "os_codes s' \<subseteq>\<^sub>m os_codes s"
    "set (os_shown s) \<subseteq> set (os_shown s')"
  shows "codes_ok s'"
  using assms(1,5) map_leD [OF assms(4)] unfolding codes_ok_def sources_same [OF assms(2)] assms(3) by blast

lemma ok_shrinks:
  assumes "shrinks s s'" "oauth_ok sha s"
  shows "oauth_ok sha s'"
proof -
  have ok: "consents_ok s" "codes_ok s" "grants_ok sha s" "tables_ok s" using assms(2) by (simp_all add: oauth_ok_def)
  have same: "os_shown s' = os_shown s" "os_approved s' = os_approved s" "os_issued s' = os_issued s"
    and less: "os_csrf s' \<subseteq>\<^sub>m os_csrf s" "os_codes s' \<subseteq>\<^sub>m os_codes s" "os_tokens s' \<subseteq>\<^sub>m os_tokens s" "os_refresh s' \<subseteq>\<^sub>m os_refresh s"
    using assms(1) by (simp_all add: shrinks_def)
  have "consents_ok s'" using ok(1) map_leD [OF less(1)] unfolding consents_ok_def same by blast
  then show ?thesis
    using codes_same [OF ok(2) same(3,2) less(2)] grants_same [OF ok(3) same(3)] tables_same [OF ok(4) same(3) less(3,4)]
    by (simp add: oauth_ok_def same)
qed

lemma ok_shown:
  assumes "consent_ok c" "oauth_ok sha s"
  shows "oauth_ok sha (s\<lparr>os_csrf := put_for now TTL_CODE u c (os_csrf s), os_shown := os_shown s @ [(u, c)]\<rparr>)"
    (is "oauth_ok sha ?s'")
proof -
  have ok: "consents_ok s" "codes_ok s" "grants_ok sha s" "tables_ok s" using assms(2) by (simp_all add: oauth_ok_def)
  have "consents_ok ?s'" using ok(1) assms(1) by (auto simp: consents_ok_def put_for_def)
  moreover have "codes_ok ?s'" using ok(2) by (rule codes_same) auto
  moreover have "grants_ok sha ?s'" using ok(3) by (rule grants_same) auto
  moreover have "tables_ok ?s'" using ok(4) by (rule tables_same) auto
  ultimately show ?thesis by (simp add: oauth_ok_def)
qed

lemma grants_okD:
  assumes "grants_ok sha s" "g \<in> set (os_issued s)"
  obtains a v where "(gr_code g, a) \<in> set (os_approved s)" "same_access (gr_token g) a" "ac_codeChallenge a = Some (sha v)"
    "By_code (gr_code g) \<in> sources s" "\<And>c. gr_source g = By_code c \<Longrightarrow> gr_code g = c"
proof -
  have "grant_ok sha s g" using assms by (simp add: grants_ok_def)
  then show thesis using that unfolding grant_ok_def by blast
qed

text \<open>The codes that were exchanged had been approved.\<close>

lemma source_approved:
  assumes "grants_ok sha s" "By_code u \<in> sources s"
  shows "u \<in> fst ` set (os_approved s)"
proof -
  obtain g where g: "g \<in> set (os_issued s)" "gr_source g = By_code u" using assms(2) by (auto simp: sources_def)
  obtain a where "(gr_code g, a) \<in> set (os_approved s)" "gr_code g = u"
    using grants_okD [OF assms(1) g(1)] g(2) by blast
  then show ?thesis by force
qed

lemma ok_approved:
  assumes "u \<notin> used_values s" "c \<in> snd ` set (os_shown s)" "oauth_ok sha s"
  shows "oauth_ok sha (s\<lparr>os_codes := put_for now TTL_CODE u (code_of c) (os_codes s),
    os_approved := os_approved s @ [(u, code_of c)]\<rparr>)"
    (is "oauth_ok sha ?s'")
proof -
  have fresh: "u \<notin> fst ` set (os_approved s)" "By_code u \<notin> sources s"
    using assms(1,3) source_approved [of sha s u] by (auto simp: used_values_def oauth_ok_def)
  have ok: "consents_ok s" "codes_ok s" "grants_ok sha s" "tables_ok s" using assms(3) by (simp_all add: oauth_ok_def)
  have "consents_ok ?s'" using ok(1) by (simp add: consents_ok_def)
  moreover have "codes_ok ?s'"
    using ok(2) assms(2) fresh unfolding codes_ok_def sources_same [of ?s' s, simplified]
    by (auto simp: put_for_def split: if_splits)
  moreover have "grants_ok sha ?s'" using ok(3) by (rule grants_same) auto
  moreover have "tables_ok ?s'" using ok(4) by (rule tables_same) auto
  ultimately show ?thesis by (simp add: oauth_ok_def)
qed

section \<open>Exchanges\<close>

lemma sources_more: "os_issued s' = os_issued s @ [g] \<Longrightarrow> sources s' = insert (gr_source g) (sources s)"
  by (auto simp: sources_def)

lemma grant_ok_more:
  assumes "grant_ok sha s h" "os_issued s' = os_issued s @ [g]" "os_approved s' = os_approved s"
  shows "grant_ok sha s' h"
  using assms(1) unfolding grant_ok_def sources_more [OF assms(2)] assms(2,3) by auto

text \<open>One more grant: from a new source, with new values, and the only one of its code that is not refreshed.\<close>

lemma grants_extend:
  assumes old: "grants_ok sha s" and issued: "os_issued s' = os_issued s @ [g]" and approved: "os_approved s' = os_approved s"
    and src: "gr_source g \<notin> sources s" and g: "grant_ok sha s' g"
    and access: "tk_accessToken (gr_token g) \<notin> used_values s"
    and refresh: "tk_refreshToken (gr_token g) = [] \<or> tk_refreshToken (gr_token g) \<notin> used_values s"
    and root: "\<And>h. h \<in> set (os_issued s) \<Longrightarrow> gr_code h = gr_code g \<Longrightarrow> \<not> unrefreshed s' (gr_token h)"
  shows "grants_ok sha s'"
proof -
  have less: "unrefreshed s' t \<Longrightarrow> unrefreshed s t" for t by (simp add: unrefreshed_def sources_more [OF issued])
  have distinct: "distinct (map gr_source (os_issued s'))"
    using old src by (auto simp: grants_ok_def issued sources_def)
  have each: "grant_ok sha s' h" if "h \<in> set (os_issued s')" for h
    using that g grant_ok_more [OF _ issued approved] old by (auto simp: issued grants_ok_def)
  have pair: "apart s' h k" if "h \<in> set (os_issued s)" "k \<in> set (os_issued s)" for h k
    using that old less unfolding grants_ok_def apart_def by blast
  have new: "apart s' h g" if "h \<in> set (os_issued s)" for h
    using that access refresh root [OF that] by (auto simp: apart_def used_values_def image_iff)
  have "apart s' h k" if "h \<in> set (os_issued s')" "k \<in> set (os_issued s')" for h k
    using that pair new apart_sym [OF new] by (auto simp: issued) (simp add: apart_def)
  with distinct each show ?thesis by (simp add: grants_ok_def)
qed

text \<open>What a successful exchange leaves.\<close>

lemma exchange_done:
  fixes s :: oauth_state
  assumes "source_value now src s = Some original" and s': "s' = fst (exchange_script src original t previous now s)"
  shows "os_issued s' = os_issued s @ [\<lparr>gr_source = src, gr_token = t, gr_code = root_of src s\<rparr>]"
    and "os_approved s' = os_approved s" and "os_shown s' = os_shown s" and "os_csrf s' = os_csrf s"
    and "os_codes s' = (case src of By_code c \<Rightarrow> forget c (os_codes s) | By_refresh r \<Rightarrow> os_codes s)"
    and "os_tokens s' = (if truthy previous then forget (the previous) else id)
      (put_for now TTL_TOKEN (tk_accessToken t) t (os_tokens s))"
    and "os_refresh s' = (case src of By_code c \<Rightarrow> id | By_refresh r \<Rightarrow> forget r)
      (if tk_refreshToken t \<noteq> [] then put_for now TTL_REFRESH (tk_refreshToken t) t (os_refresh s) else os_refresh s)"
  using assms(1) unfolding s' exchange_script_def Let_def
  by (simp_all add: delete_access_def delete_source_def split: grant_source.split)

lemma exchange_refused: "source_value now src s \<noteq> Some original \<Longrightarrow> fst (exchange_script src original t previous now s) = s"
  by (simp add: exchange_script_def)

lemma tables_okD:
  assumes "tables_ok s"
  shows "os_tokens s u = Some (t, x) \<Longrightarrow> u = tk_accessToken t \<and> t \<in> gr_token ` set (os_issued s) \<and> unrefreshed s t"
    and "os_refresh s r = Some (t, x) \<Longrightarrow> r = tk_refreshToken t \<and> r \<noteq> [] \<and> t \<in> gr_token ` set (os_issued s) \<and>
      unrefreshed s t"
  using assms unfolding tables_ok_def by blast+

lemma used_tokens:
  "g \<in> set (os_issued s) \<Longrightarrow> tk_accessToken (gr_token g) \<in> used_values s"
  "g \<in> set (os_issued s) \<Longrightarrow> tk_refreshToken (gr_token g) \<in> used_values s"
  "(u, a) \<in> set (os_approved s) \<Longrightarrow> u \<in> used_values s"
  by (force simp: used_values_def)+

lemma fresh_not_refreshed:
  assumes "grants_ok sha s" "tk_refreshToken t = [] \<or> tk_refreshToken t \<notin> used_values s"
  shows "unrefreshed s t"
proof -
  have False if g: "g \<in> set (os_issued s)" "gr_source g = By_refresh (tk_refreshToken t)" for g
  proof -
    have "grant_ok sha s g" using assms(1) g(1) by (simp add: grants_ok_def)
    with g(2) obtain h where "tk_refreshToken t \<noteq> []" "h \<in> set (os_issued s)" "tk_refreshToken (gr_token h) = tk_refreshToken t"
      by (auto simp: grant_ok_def)
    with assms(2) used_tokens(2) show False by metis
  qed
  then show ?thesis unfolding unrefreshed_def sources_def by (metis imageE)
qed

lemma ok_code_exchange:
  assumes ok: "oauth_ok sha s" and t: "new_pair T t s" "same_access t a" and v: "truthy (ac_codeChallenge a) \<longrightarrow> ac_codeChallenge a = Some (sha v)"
  shows "oauth_ok sha (fst (exchange_script (By_code c) (Code_original a) t None now s))"
    (is "oauth_ok sha ?s'")
proof (cases "source_value now (By_code c) s = Some (Code_original a)")
  case True
  note eff = exchange_done [OF True refl, of t None, simplified]
  have parts: "consents_ok s" "codes_ok s" "grants_ok sha s" "tables_ok s" using ok by (simp_all add: oauth_ok_def)
  have stored: "(c, a) \<in> set (os_approved s)" "By_code c \<notin> sources s"
    using True parts(2) by (auto simp: source_value_def alive_def codes_ok_def split: option.splits if_splits)
  have challenge: "ac_codeChallenge a = Some (sha v)"
  proof -
    obtain d where "d \<in> snd ` set (os_shown s)" "a = code_of d" using parts(2) stored(1) unfolding codes_ok_def by force
    then have "truthy (ac_codeChallenge a)" using parts(1) by (auto simp: consents_ok_def consent_ok_def code_of_def)
    with v show ?thesis by blast
  qed
  have root: "root_of (By_code c) s = c" by (simp add: root_of_def)
  have sources: "sources ?s' = insert (By_code c) (sources s)" using sources_more [OF eff(1)] by simp
  have fresh: "tk_accessToken t \<notin> used_values s" "tk_accessToken t \<noteq> []" "tk_refreshToken t = [] \<or> tk_refreshToken t \<notin> used_values s"
    using t(1) by (auto simp: new_pair_def)
  have unref: "unrefreshed ?s' u = unrefreshed s u" for u by (simp add: unrefreshed_def sources)
  have "consents_ok ?s'" using parts(1) by (simp add: consents_ok_def eff)
  moreover have "codes_ok ?s'"
    using parts(2) unfolding codes_ok_def eff(2,3,5) sources by (auto simp: forget_def)
  moreover have "grants_ok sha ?s'"
  proof (rule grants_extend [OF parts(3) eff(1,2)])
    show "\<not> unrefreshed ?s' (gr_token h)" if "h \<in> set (os_issued s)" "gr_code h = gr_code \<lparr>gr_source = By_code c, gr_token = t,
        gr_code = root_of (By_code c) s\<rparr>" for h
      using grants_okD [OF parts(3) that(1)] that(2) stored(2) by (auto simp: root)
    show "grant_ok sha ?s' \<lparr>gr_source = By_code c, gr_token = t, gr_code = root_of (By_code c) s\<rparr>"
      using fresh(2) stored(1) t(2) challenge by (auto simp: grant_ok_def root sources eff(2))
  qed (use stored(2) fresh in simp_all)
  moreover have "tables_ok ?s'"
  proof -
    have "unrefreshed s t" by (rule fresh_not_refreshed [OF parts(3) fresh(3)])
    moreover have "os_refresh s [] = None" using tables_okD(2) [OF parts(4)] by (metis option.exhaust prod.exhaust)
    ultimately show ?thesis
      using tables_okD [OF parts(4)] unfolding tables_ok_def unref eff(1,6,7)
      by (auto simp: put_for_def split: if_splits)
  qed
  ultimately show ?thesis by (simp add: oauth_ok_def)
qed (simp add: exchange_refused ok)

lemma ok_refresh_exchange:
  assumes ok: "oauth_ok sha s" and t: "new_pair T t s" "tk_refreshToken t \<noteq> []"
    and same: "tk_clientId t = tk_clientId old" "tk_restaurantId t = tk_restaurantId old" "tk_scopes t = tk_scopes old"
  shows "oauth_ok sha (fst (exchange_script (By_refresh r) (Token_original old) t (Some (tk_accessToken old)) now s))"
    (is "oauth_ok sha ?s'")
proof (cases "source_value now (By_refresh r) s = Some (Token_original old)")
  case True
  have parts: "consents_ok s" "codes_ok s" "grants_ok sha s" "tables_ok s" using ok by (simp_all add: oauth_ok_def)
  obtain x where "os_refresh s r = Some (old, x)"
    using True by (auto simp: source_value_def alive_def split: option.splits if_splits)
  from tables_okD(2) [OF parts(4) this] have stored: "tk_refreshToken old = r" "r \<noteq> []" "unrefreshed s old"
    and "old \<in> gr_token ` set (os_issued s)" by auto
  then obtain g where g: "g \<in> set (os_issued s)" "gr_token g = old" by auto
  have apart: "apart s h g" if "h \<in> set (os_issued s)" for h using parts(3) that g(1) by (simp add: grants_ok_def)
  have root: "root_of (By_refresh r) s = gr_code g"
  proof -
    let ?P = "\<lambda>h. tk_refreshToken (gr_token h) = r"
    obtain h where h: "find ?P (os_issued s) = Some h" using g stored(1) by (cases "find ?P (os_issued s)") (auto simp: find_None_iff)
    then have "h \<in> set (os_issued s)" "tk_refreshToken (gr_token h) = r" by (auto simp: find_Some_iff)
    then have "h = g" using apart g stored(1,2) by (simp add: apart_def)
    with h show ?thesis by (simp add: root_of_def)
  qed
  have access: "tk_accessToken old \<noteq> []" using parts(3) g by (auto simp: grants_ok_def grant_ok_def)
  note eff = exchange_done [OF True refl, of t "Some (tk_accessToken old)", simplified]
  define n where "n = \<lparr>gr_source = By_refresh r, gr_token = t, gr_code = root_of (By_refresh r) s\<rparr>"
  have sources: "sources ?s' = insert (By_refresh r) (sources s)" using sources_more [OF eff(1)] by simp
  have fresh: "tk_accessToken t \<notin> used_values s" "tk_accessToken t \<noteq> []" "tk_refreshToken t \<notin> used_values s"
    using t by (auto simp: new_pair_def)
  have src: "By_refresh r \<notin> sources s" using stored by (simp add: unrefreshed_def)
  have "consents_ok ?s'" using parts(1) by (simp add: consents_ok_def eff)
  moreover have "codes_ok ?s'" using parts(2) unfolding codes_ok_def eff(2,3,5) sources by simp
  moreover have "grants_ok sha ?s'"
  proof (rule grants_extend [OF parts(3) eff(1,2), folded n_def])
    show "\<not> unrefreshed ?s' (gr_token h)" if "h \<in> set (os_issued s)" "gr_code h = gr_code n" for h
    proof
      assume "unrefreshed ?s' (gr_token h)"
      then have h: "unrefreshed s (gr_token h)" "tk_refreshToken (gr_token h) \<noteq> r" by (auto simp: unrefreshed_def sources)
      have "gr_code h = gr_code g" "unrefreshed s (gr_token g)" using that(2) stored(3) g(2) by (simp_all add: n_def root)
      with apart [OF that(1)] h(1) have "h = g" unfolding apart_def by blast
      with h(2) g(2) stored(1) show False by simp
    qed
    show "grant_ok sha ?s' n"
    proof -
      obtain a v where a: "(gr_code g, a) \<in> set (os_approved s)" "same_access (gr_token g) a" "ac_codeChallenge a = Some (sha v)"
        "By_code (gr_code g) \<in> sources s" using grants_okD [OF parts(3) g(1)] by blast
      have "r \<in> (tk_refreshToken \<circ> gr_token) ` set (os_issued s)" using g stored(1) by force
      then show ?thesis
        unfolding grant_ok_def sources eff(1,2) using a fresh(2) same stored(2) g(2)
        by (auto simp: n_def root same_access_def)
    qed
  qed (use src fresh in \<open>simp_all add: n_def\<close>)
  moreover have "tables_ok ?s'"
  proof -
    have used: "tk_refreshToken t \<noteq> r" "tk_accessToken t \<noteq> tk_accessToken old"
      using used_tokens(1,2) [OF g(1)] fresh g(2) stored(1) by auto
    have other: "u = old" if pair: "u \<in> gr_token ` set (os_issued s)" "tk_refreshToken u = r" for u
    proof -
      obtain h where h: "h \<in> set (os_issued s)" "u = gr_token h" using pair(1) by auto
      then have "h = g" using apart [OF h(1)] pair(2) g(2) stored(1,2) by (simp add: apart_def)
      then show ?thesis using h(2) g(2) by simp
    qed
    have unref: "unrefreshed ?s' u \<longleftrightarrow> unrefreshed s u \<and> tk_refreshToken u \<noteq> r" for u
      by (auto simp: unrefreshed_def sources)
    have t_new: "unrefreshed ?s' t" using fresh_not_refreshed [OF parts(3), of t] fresh(3) used by (simp add: unref)
    have access_entry: "u = tk_accessToken t' \<and> t' \<in> gr_token ` set (os_issued ?s') \<and> unrefreshed ?s' t'"
      if "os_tokens ?s' u = Some (t', x)" for u t' x
      using that tables_okD(1) [OF parts(4), of u t' x] t_new other
      by (auto simp: eff access put_for_def forget_def n_def unref split: if_splits)
    have refresh_entry: "u = tk_refreshToken t' \<and> u \<noteq> [] \<and> t' \<in> gr_token ` set (os_issued ?s') \<and> unrefreshed ?s' t'"
      if "os_refresh ?s' u = Some (t', x)" for u t' x
      using that tables_okD(2) [OF parts(4), of u t' x] t_new other
      by (auto simp: eff put_for_def forget_def n_def unref split: if_splits)
    show ?thesis unfolding tables_ok_def using access_entry refresh_entry by blast
  qed
  ultimately show ?thesis by (simp add: oauth_ok_def)
qed (simp add: exchange_refused ok)

lemma ok_commit: "oauth_commit T sha s s' \<Longrightarrow> oauth_ok sha s \<Longrightarrow> oauth_ok sha s'"
  by (induction rule: oauth_commit.induct)
    (auto intro: ok_shrinks ok_shown ok_approved ok_code_exchange ok_refresh_exchange)

section \<open>Handlers\<close>

definition own_fresh :: "oauth_env \<Rightarrow> oauth_state \<Rightarrow> bool" where
  "own_fresh e s \<longleftrightarrow> (\<forall>k. oe_uuid e k \<notin> used_values s)"

text \<open>Others draw their values from \<open>T\<close>, the request its own from outside; the hash is SHA-256.\<close>

definition fair_oauth :: "string set \<Rightarrow> (string \<Rightarrow> string) \<Rightarrow> oauth_env \<Rightarrow> bool" where
  "fair_oauth T sha e \<longleftrightarrow> (\<forall>k s. (oauth_commit T sha)\<^sup>*\<^sup>* s (oe_race e k s)) \<and> oe_sha256_base64url e = sha \<and>
     (\<forall>k. oe_uuid e k \<notin> T \<and> oe_uuid e k \<noteq> [])"

lemma used_commit: "oauth_commit T sha s s' \<Longrightarrow> used_values s' \<subseteq> used_values s \<union> T \<union> {[]}"
proof (induction rule: oauth_commit.induct)
  case (oc_code t s a v c now)
  show ?case
  proof (cases "source_value now (By_code c) s = Some (Code_original a)")
    case True
    show ?thesis using oc_code(1) exchange_done(1,2) [OF True refl, of t None]
      by (auto simp: used_values_def new_pair_def)
  qed (auto simp: exchange_refused)
next
  case (oc_refresh t s old r now)
  show ?case
  proof (cases "source_value now (By_refresh r) s = Some (Token_original old)")
    case True
    show ?thesis using oc_refresh(1) exchange_done(1,2) [OF True refl, of t "Some (tk_accessToken old)"]
      by (auto simp: used_values_def new_pair_def)
  qed (auto simp: exchange_refused)
qed (auto simp: used_values_def shrinks_def)

lemma shown_commit: "oauth_commit T sha s s' \<Longrightarrow> set (os_shown s) \<subseteq> set (os_shown s')"
proof (induction rule: oauth_commit.induct)
  case (oc_code t s a v c now)
  show ?case using exchange_done(3) [OF _ refl] exchange_refused by (metis order_refl)
next
  case (oc_refresh t s old r now)
  show ?case using exchange_done(3) [OF _ refl] exchange_refused by (metis order_refl)
qed (auto simp: shrinks_def)

definition stable :: "string set \<Rightarrow> (string \<Rightarrow> string) \<Rightarrow> (oauth_state \<Rightarrow> bool) \<Rightarrow> bool" where
  "stable T sha P \<longleftrightarrow> (\<forall>s s'. oauth_commit T sha s s' \<longrightarrow> P s \<longrightarrow> P s')"

lemma stable_fresh: "fair_oauth T sha e \<Longrightarrow> stable T sha (own_fresh e)"
  unfolding stable_def own_fresh_def fair_oauth_def using used_commit by blast

lemma stable_shown: "stable T sha (\<lambda>s. c \<in> snd ` set (os_shown s))"
  unfolding stable_def using shown_commit by blast

lemma stable_and: "stable T sha P \<Longrightarrow> stable T sha Q \<Longrightarrow> stable T sha (\<lambda>s. P s \<and> Q s)"
  unfolding stable_def by blast

lemma oauth_stable_run:
  assumes "(oauth_commit T sha)\<^sup>*\<^sup>* s s'" "stable T sha P" "oauth_ok sha s" "P s"
  shows "oauth_ok sha s' \<and> P s'"
  using assms by (induction rule: rtranclp_induct) (auto simp: stable_def intro: ok_commit)

definition goes_on :: "(string \<Rightarrow> string) \<Rightarrow> (oauth_state \<Rightarrow> bool) \<Rightarrow> 'a oauth \<Rightarrow> ('a \<Rightarrow> oauth_state \<Rightarrow> bool) \<Rightarrow> bool" where
  "goes_on sha P m Q \<longleftrightarrow> (\<forall>s s' x. oauth_ok sha s \<longrightarrow> P s \<longrightarrow> m s = (s', x) \<longrightarrow>
     oauth_ok sha s' \<and> (case x of Inr a \<Rightarrow> Q a s' | Inl _ \<Rightarrow> True))"

lemma on_give [intro]: "(\<And>s. P s \<Longrightarrow> Q a s) \<Longrightarrow> goes_on sha P (give a) Q"
  by (auto simp: goes_on_def give_def)

lemma on_next:
  assumes "goes_on sha P m R" "\<And>a. goes_on sha (R a) (f a) Q"
  shows "goes_on sha P (next_do m f) Q"
  unfolding goes_on_def
proof (intro allI impI)
  fix s s' x
  assume s: "oauth_ok sha s" "P s" "next_do m f s = (s', x)"
  obtain s1 y where m: "m s = (s1, y)" by force
  then have one: "oauth_ok sha s1 \<and> (case y of Inr a \<Rightarrow> R a s1 | Inl _ \<Rightarrow> True)"
    using assms(1) s(1,2) unfolding goes_on_def by blast
  show "oauth_ok sha s' \<and> (case x of Inr a \<Rightarrow> Q a s' | Inl _ \<Rightarrow> True)"
  proof (cases y)
    case (Inr a)
    then show ?thesis using one m s(3) assms(2) [of a] unfolding goes_on_def by (auto simp: next_do_def)
  qed (use one m s(3) in \<open>auto simp: next_do_def\<close>)
qed

lemma on_step:
  assumes e: "fair_oauth T sha e" and P: "stable T sha P"
    and f: "\<And>s now. oauth_ok sha s \<Longrightarrow> P s \<Longrightarrow>
      oauth_commit UNIV sha s (fst (f now s)) \<and> Q (snd (f now s)) (fst (f now s))"
  shows "goes_on sha P (oauth_step e k f) Q"
proof -
  have run: "oauth_ok sha (oe_race e k s) \<and> P (oe_race e k s)" if "oauth_ok sha s" "P s" for s
    using oauth_stable_run [OF _ P that] e by (simp add: fair_oauth_def)
  have "oauth_ok sha (fst (f now (oe_race e k s))) \<and> Q (snd (f now (oe_race e k s))) (fst (f now (oe_race e k s)))"
    if "oauth_ok sha s" "P s" for s now
    using run [OF that] f ok_commit by blast
  then show ?thesis
    using run unfolding goes_on_def oauth_step_def Let_def split_beta by (auto split: reply.splits)
qed

abbreviation (input) anything :: "'a \<Rightarrow> oauth_state \<Rightarrow> bool" where
  "anything \<equiv> \<lambda>_ _. True"

text \<open>A read of a table, and a command that only lets entries go.\<close>

lemma on_get:
  assumes "fair_oauth T sha e" "stable T sha P"
    and "\<And>s now. oauth_ok sha s \<Longrightarrow> P s \<Longrightarrow> Q (alive now (tab s) key) s"
  shows "goes_on sha P (getJson e k tab key) Q"
  unfolding getJson_def by (rule on_step [OF assms(1,2)]) (use assms(3) in \<open>auto intro: oc_shrink simp: shrinks_def\<close>)

lemma on_read: "fair_oauth T sha e \<Longrightarrow> stable T sha P \<Longrightarrow> goes_on sha P (getJson e k tab key) (\<lambda>_. P)"
  by (rule on_get)

lemma on_shrink:
  assumes "fair_oauth T sha e" "stable T sha P" "\<And>s now. shrinks s (fst (f now s))"
    and "\<And>s s'. P s \<Longrightarrow> shrinks s s' \<Longrightarrow> P s'"
  shows "goes_on sha P (oauth_step e k f) (\<lambda>_. P)"
  by (rule on_step [OF assms(1,2)]) (use assms(3,4) in \<open>blast intro: oc_shrink\<close>)

lemma fresh_shrinks: "own_fresh e s \<Longrightarrow> shrinks s s' \<Longrightarrow> own_fresh e s'"
  by (simp add: own_fresh_def shrinks_def used_values_def)

lemma on_rate:
  assumes "fair_oauth T sha e"
  shows "goes_on sha (own_fresh e) (checkOauthRate e k ip config) (\<lambda>_. own_fresh e)"
  unfolding checkOauthRate_def
  by (rule on_next [OF on_shrink [OF assms stable_fresh [OF assms]]])
    (auto simp: oauth_rate_script_def shrinks_def split: option.splits prod.splits intro: fresh_shrinks)

lemma goes_register:
  assumes e: "fair_oauth T sha e"
  shows "goes_on sha (own_fresh e) (oauth_register e ip body) anything"
  unfolding oauth_register_def
proof (rule on_next [OF on_rate [OF e]], goal_cases)
  case (1 ok)
  have "goes_on sha (own_fresh e) (oauth_step e k (\<lambda>now s. (s\<lparr>os_clients := put_for now TTL_CLIENT i c (os_clients s)\<rparr>, ())))
      (\<lambda>_. own_fresh e)" for i c k
    by (rule on_shrink [OF e stable_fresh [OF e]]) (auto simp: shrinks_def intro: fresh_shrinks)
  then show ?case by (auto intro!: on_give on_next split: option.split)
qed

lemma query_consent: "query_error e q = None \<Longrightarrow> consent_ok (consent_of e q)"
  by (auto simp: query_error_def consent_ok_def consent_of_def valid_challenge_def Let_def list_ex_iff
      split: if_splits option.splits)

lemma goes_page:
  assumes e: "fair_oauth T sha e"
  shows "goes_on sha (own_fresh e) (authorize_page e q) anything"
proof (cases "query_error e q")
  case None
  have shown: "goes_on sha (own_fresh e) (oauth_step e k (\<lambda>now s.
      (s\<lparr>os_csrf := put_for now TTL_CODE (oe_uuid e 0) (consent_of e q) (os_csrf s),
         os_shown := os_shown s @ [(oe_uuid e 0, consent_of e q)]\<rparr>, ()))) (\<lambda>_. own_fresh e)" for k
    by (rule on_step [OF e stable_fresh [OF e]])
      (auto simp: own_fresh_def used_values_def intro: oc_shown query_consent [OF None])
  show ?thesis
    unfolding authorize_page_def None
    by (auto intro!: on_give on_next [OF on_read [OF e stable_fresh [OF e]]] on_next [OF shown] split: option.split)
qed (auto simp: authorize_page_def)

lemma goes_decide:
  assumes e: "fair_oauth T sha e"
  shows "goes_on sha (\<lambda>s. own_fresh e s \<and> c \<in> snd ` set (os_shown s)) (decide_consent e f c) anything"
proof -
  note st = stable_and [OF stable_fresh [OF e] stable_shown, of c]
  have approve: "goes_on sha (\<lambda>s. own_fresh e s \<and> c \<in> snd ` set (os_shown s)) (oauth_step e k (\<lambda>now s.
      (s\<lparr>os_codes := put_for now TTL_CODE (oe_uuid e 0) (code_of c) (os_codes s),
         os_approved := os_approved s @ [(oe_uuid e 0, code_of c)]\<rparr>, ()))) anything" for k
    by (rule on_step [OF e st]) (auto simp: own_fresh_def intro!: oc_approved)
  show ?thesis
    unfolding decide_consent_def
    by (auto intro!: on_give on_next [OF on_read [OF e st]] on_next [OF approve] split: option.split)
qed

lemma goes_decision:
  assumes e: "fair_oauth T sha e"
  shows "goes_on sha (own_fresh e) (authorize_decision e f) anything"
proof -
  have found: "goes_on sha (own_fresh e) (getJson e 0 os_csrf u) (\<lambda>found s. own_fresh e s \<and>
      (case found of Some c \<Rightarrow> c \<in> snd ` set (os_shown s) | None \<Rightarrow> True))" for u
    by (rule on_get [OF e stable_fresh [OF e]])
      (force simp: alive_def oauth_ok_def consents_ok_def split: option.splits)
  have taken: "goes_on sha (\<lambda>s. own_fresh e s \<and> c \<in> snd ` set (os_shown s))
      (oauth_step e k (\<lambda>now s. (s\<lparr>os_csrf := forget u (os_csrf s)\<rparr>, ())))
      (\<lambda>_ s. own_fresh e s \<and> c \<in> snd ` set (os_shown s))" for u c k
    by (rule on_shrink [OF e stable_and [OF stable_fresh [OF e] stable_shown]])
      (auto simp: shrinks_def forget_def map_le_def own_fresh_def used_values_def)
  show ?thesis
    unfolding authorize_decision_def
    by (auto intro!: on_give on_next [OF found] on_next [OF taken] goes_decide [OF e] split: option.split)
qed

lemma own_pair:
  assumes "fair_oauth T sha e" "own_fresh e s"
  shows "new_pair UNIV (token_of_code e i client a) s" and "new_pair UNIV (token_of_refresh e old) s"
  using assms by (auto simp: fair_oauth_def own_fresh_def new_pair_def token_of_code_def token_of_refresh_def)

lemma pair_fields:
  "ac_clientId a = i \<Longrightarrow> same_access (token_of_code e i client a) a"
  "tk_clientId (token_of_refresh e old) = tk_clientId old" "tk_restaurantId (token_of_refresh e old) = tk_restaurantId old"
  "tk_scopes (token_of_refresh e old) = tk_scopes old" "tk_refreshToken (token_of_refresh e old) = oe_uuid e 1"
  by (simp_all add: same_access_def token_of_code_def token_of_refresh_def)

lemma no_code_error:
  assumes "fair_oauth T sha e" "code_error e q i a = None"
  shows "ac_clientId a = i" and "truthy (ac_codeChallenge a) \<longrightarrow> ac_codeChallenge a = Some (sha (the (tr_code_verifier q)))"
proof -
  show "ac_clientId a = i" using assms(2) by (auto simp: code_error_def split: if_splits)
  have "truthy (ac_codeChallenge a) \<Longrightarrow>
      verifyPkce sha (the (tr_code_verifier q)) (ac_codeChallenge a) (ac_codeChallengeMethod a)"
    using assms by (auto simp: code_error_def fair_oauth_def split: if_splits)
  then show "truthy (ac_codeChallenge a) \<longrightarrow> ac_codeChallenge a = Some (sha (the (tr_code_verifier q)))"
    by (auto simp: verifyPkce_def split: if_splits)
qed

lemma goes_grant_code:
  assumes e: "fair_oauth T sha e"
  shows "goes_on sha (own_fresh e) (grant_code e q i client) anything"
proof -
  have exchange: "goes_on sha (own_fresh e)
      (exchangeToken e k (By_code c) (Code_original a) (token_of_code e i client a) None) anything"
    if ok: "code_error e q i a = None" for a c k
    unfolding exchangeToken_def
    by (rule on_step [OF e stable_fresh [OF e]])
      (use own_pair(1) [OF e] no_code_error [OF e ok] in \<open>auto intro!: oc_code pair_fields(1)\<close>)
  show ?thesis
    unfolding grant_code_def Let_def
    by (auto intro!: on_give on_next [OF on_read [OF e stable_fresh [OF e]]] on_next [OF exchange] split: option.split)
qed

lemma goes_grant_refresh:
  assumes e: "fair_oauth T sha e"
  shows "goes_on sha (own_fresh e) (grant_refresh e q i client) anything"
proof -
  have exchange: "goes_on sha (own_fresh e) (exchangeToken e k (By_refresh r) (Token_original old)
      (token_of_refresh e old) (Some (tk_accessToken old))) anything" for old r k
    unfolding exchangeToken_def
    by (rule on_step [OF e stable_fresh [OF e]])
      (use own_pair(2) [OF e] e in \<open>auto intro!: oc_refresh simp: pair_fields fair_oauth_def\<close>)
  show ?thesis
    unfolding grant_refresh_def Let_def
    by (auto intro!: on_give on_next [OF on_read [OF e stable_fresh [OF e]]] on_next [OF exchange] split: option.split)
qed

lemma goes_with_client:
  assumes e: "fair_oauth T sha e" and f: "\<And>i client. goes_on sha (own_fresh e) (f i client) Q" and Q: "\<And>a s. Q a s"
  shows "goes_on sha (own_fresh e) (with_client e ip config cr f) Q"
  unfolding with_client_def
  by (auto intro!: on_give on_next [OF on_rate [OF e]] on_next [OF on_read [OF e stable_fresh [OF e]]] f Q)

lemma goes_token:
  assumes e: "fair_oauth T sha e"
  shows "goes_on sha (own_fresh e) (oauth_token e ip q) anything"
  unfolding oauth_token_def
  by (rule goes_with_client [OF e]) (auto intro!: on_give goes_grant_code [OF e] goes_grant_refresh [OF e])

lemma goes_revoke:
  assumes e: "fair_oauth T sha e"
  shows "goes_on sha (own_fresh e) (oauth_revoke e ip q) anything"
proof -
  have drop_access: "goes_on sha (own_fresh e) (oauth_step e k (\<lambda>now s. (s\<lparr>os_tokens := forget u (os_tokens s)\<rparr>, ())))
      (\<lambda>_. own_fresh e)" for u k
    by (rule on_shrink [OF e stable_fresh [OF e] _ fresh_shrinks]) (auto simp: shrinks_def forget_def map_le_def)
  have drop_refresh: "goes_on sha (own_fresh e) (oauth_step e k (\<lambda>now s. (s\<lparr>os_refresh := forget u (os_refresh s)\<rparr>, ())))
      (\<lambda>_. own_fresh e)" for u k
    by (rule on_shrink [OF e stable_fresh [OF e] _ fresh_shrinks]) (auto simp: shrinks_def forget_def map_le_def)
  have drop_pair: "goes_on sha (own_fresh e) (deleteStoredTokenPair e k t) (\<lambda>_. own_fresh e)" for k t
    unfolding deleteStoredTokenPair_def
    by (rule on_shrink [OF e stable_fresh [OF e] _ fresh_shrinks]) (auto simp: shrinks_def forget_def map_le_def)
  have revoked: "goes_on sha (own_fresh e) (revoke_found e u i t) (\<lambda>_. own_fresh e)" for u i t
    unfolding revoke_found_def by (auto intro!: on_give drop_pair drop_refresh on_next [OF drop_access])
  have found: "goes_on sha (own_fresh e) (case access of Some t \<Rightarrow> give (Some t) | None \<Rightarrow> getJson e k os_refresh u)
      (\<lambda>_. own_fresh e)" for access k u
    by (auto intro!: on_give on_read [OF e stable_fresh [OF e]] split: option.split)
  have last_step: "goes_on sha (own_fresh e) (case found of None \<Rightarrow> give () | Some t \<Rightarrow> revoke_found e u i t) (\<lambda>_. own_fresh e)"
    for found u i by (auto intro!: on_give revoked split: option.split)
  show ?thesis
    unfolding oauth_revoke_def
    by (rule goes_with_client [OF e])
      (auto intro!: on_give on_next [OF on_read [OF e stable_fresh [OF e]]] on_next [OF found] on_next [OF last_step])
qed

section \<open>Runs\<close>

text \<open>One request, overtaken by the commits of others, and the passing of time between requests.\<close>

inductive oauth_request :: "(string \<Rightarrow> string) \<Rightarrow> oauth_state \<Rightarrow> oauth_state \<Rightarrow> bool" for sha where
  rq_register: "oauth_register e ip body s = (s', x) \<Longrightarrow> fair_oauth T sha e \<Longrightarrow> own_fresh e s \<Longrightarrow> oauth_request sha s s'"
| rq_page: "authorize_page e q s = (s', x) \<Longrightarrow> fair_oauth T sha e \<Longrightarrow> own_fresh e s \<Longrightarrow> oauth_request sha s s'"
| rq_decision: "authorize_decision e f s = (s', x) \<Longrightarrow> fair_oauth T sha e \<Longrightarrow> own_fresh e s \<Longrightarrow> oauth_request sha s s'"
| rq_token: "oauth_token e ip r s = (s', x) \<Longrightarrow> fair_oauth T sha e \<Longrightarrow> own_fresh e s \<Longrightarrow> oauth_request sha s s'"
| rq_revoke: "oauth_revoke e ip v s = (s', x) \<Longrightarrow> fair_oauth T sha e \<Longrightarrow> own_fresh e s \<Longrightarrow> oauth_request sha s s'"
| rq_expire: "shrinks s s' \<Longrightarrow> oauth_request sha s s'"

lemma goes_onD: "goes_on sha P m Q \<Longrightarrow> m s = (s', x) \<Longrightarrow> oauth_ok sha s \<Longrightarrow> P s \<Longrightarrow> oauth_ok sha s'"
  unfolding goes_on_def by blast

lemma ok_request: "oauth_request sha s s' \<Longrightarrow> oauth_ok sha s \<Longrightarrow> oauth_ok sha s'"
  by (induction rule: oauth_request.induct)
    (blast intro: goes_onD [OF goes_register] goes_onD [OF goes_page] goes_onD [OF goes_decision] goes_onD [OF goes_token]
      goes_onD [OF goes_revoke] ok_shrinks)+

definition oauth_start :: oauth_state where
  "oauth_start = \<lparr>os_clients = (\<lambda>_. None), os_csrf = (\<lambda>_. None), os_codes = (\<lambda>_. None), os_tokens = (\<lambda>_. None),
     os_refresh = (\<lambda>_. None), os_rates = (\<lambda>_. None), os_shown = [], os_approved = [], os_issued = []\<rparr>"

lemma ok_start: "oauth_ok sha oauth_start"
  by (simp add: oauth_ok_def oauth_start_def consents_ok_def codes_ok_def grants_ok_def tables_ok_def)

lemma ok_requests: "(oauth_request sha)\<^sup>*\<^sup>* oauth_start s \<Longrightarrow> oauth_ok sha s"
  by (induction rule: rtranclp_induct) (auto intro: ok_start ok_request)

end
