(* ===== verification/OAuth_Grants.thy ===== *)
theory OAuth_Grants
  imports OAuth_Safety
begin

text \<open>
  What holds of the authorization server as a whole: where a token comes from, how often a code or a refresh token is
  exchanged, what a request changes when nobody interferes, and runs that show where it is less strict than it says.
\<close>

section \<open>Over any run\<close>

text \<open>
  C22. No code and no refresh token is ever exchanged twice, however requests interleave and whatever answers
  of Redis are lost; one that is still stored has not been exchanged.
\<close>

theorem grants_are_exchanged_once:
  assumes "(oauth_request sha)\<^sup>*\<^sup>* oauth_start s"
  shows "distinct (map gr_source (os_issued s)) \<and>
    (\<forall>g \<in> set (os_issued s). case gr_source g of By_code c \<Rightarrow> os_codes s c = None | By_refresh r \<Rightarrow> os_refresh s r = None)"
proof -
  have ok: "codes_ok s" "grants_ok sha s" "tables_ok s" using ok_requests [OF assms] by (simp_all add: oauth_ok_def)
  have "case gr_source g of By_code c \<Rightarrow> os_codes s c = None | By_refresh r \<Rightarrow> os_refresh s r = None"
    if g: "g \<in> set (os_issued s)" for g
  proof (cases "gr_source g")
    case (By_code c)
    then have "By_code c \<in> sources s" using g by (force simp: sources_def)
    then have "os_codes s c = None" using ok(1) unfolding codes_ok_def by (metis not_None_eq surj_pair)
    with By_code show ?thesis by simp
  next
    case (By_refresh r)
    then have "By_refresh r \<in> sources s" using g by (force simp: sources_def)
    then have "os_refresh s r = None"
      using tables_okD(2) [OF ok(3)] unfolding unrefreshed_def by (metis not_None_eq surj_pair)
    with By_refresh show ?thesis by simp
  qed
  then show ?thesis using ok(2) by (simp add: grants_ok_def)
qed

text \<open>
  C21. A token that the server accepts goes back to a consent: a page was shown for that client, those scopes, all of
  them known, and that restaurant; a code for it was approved and exchanged, at its root, by someone who knew a
  text that hashes to the challenge shown with the consent. Refreshing never widens what was granted.
\<close>

theorem access_descends_from_consent:
  assumes "(oauth_request sha)\<^sup>*\<^sup>* oauth_start s"
    and "token_context issuer (alive now (os_tokens s) token) = Some ctx"
  shows "\<exists>c \<in> snd ` set (os_shown s). \<exists>code verifier. (code, code_of c) \<in> set (os_approved s) \<and>
    (\<exists>g \<in> set (os_issued s). gr_source g = By_code code) \<and> cs_codeChallenge c = Some (sha verifier) \<and>
    ox_clientId ctx = cs_clientId c \<and> ox_restaurantId ctx = cs_restaurantId c \<and> ox_scopes ctx = cs_scopes c \<and>
    set (cs_scopes c) \<subseteq> set MCP_SCOPES"
proof -
  have ok: "consents_ok s" "codes_ok s" "grants_ok sha s" "tables_ok s"
    using ok_requests [OF assms(1)] by (simp_all add: oauth_ok_def)
  obtain t x where t: "os_tokens s token = Some (t, x)"
    and ctx: "ctx = \<lparr>ox_clientId = tk_clientId t, ox_restaurantId = tk_restaurantId t, ox_scopes = tk_scopes t\<rparr>"
    using assms(2) by (auto simp: token_context_def alive_def split: option.splits if_splits)
  obtain g where g: "g \<in> set (os_issued s)" "gr_token g = t" using tables_okD(1) [OF ok(4) t] by auto
  obtain a v where a: "(gr_code g, a) \<in> set (os_approved s)" "same_access t a" "ac_codeChallenge a = Some (sha v)"
    "By_code (gr_code g) \<in> sources s"
    using grants_okD [OF ok(3) g(1)] g(2) by blast
  obtain c where c: "c \<in> snd ` set (os_shown s)" "a = code_of c" using ok(2) a(1) unfolding codes_ok_def by force
  have "consent_ok c" using ok(1) c(1) unfolding consents_ok_def by blast
  with a c show ?thesis
    by (intro bexI [OF _ c(1)] exI [of _ "gr_code g"] exI [of _ v])
      (auto simp: ctx same_access_def code_of_def consent_ok_def sources_def)
qed

text \<open>
  C23. A consent gives one pair of tokens at a time: of two access tokens that descend from one code at most one
  is stored, and so of two refresh tokens; refreshing ends the pair it replaces.
\<close>

theorem one_live_pair_per_code:
  assumes "(oauth_request sha)\<^sup>*\<^sup>* oauth_start s" "g \<in> set (os_issued s)" "h \<in> set (os_issued s)" "gr_code g = gr_code h"
    and "os_tokens s (tk_accessToken (gr_token g)) \<noteq> None \<or> os_refresh s (tk_refreshToken (gr_token g)) \<noteq> None"
    and "os_tokens s (tk_accessToken (gr_token h)) \<noteq> None \<or> os_refresh s (tk_refreshToken (gr_token h)) \<noteq> None"
  shows "g = h"
proof -
  have ok: "grants_ok sha s" "tables_ok s" using ok_requests [OF assms(1)] by (simp_all add: oauth_ok_def)
  have live: "unrefreshed s (gr_token k)"
    if k: "k \<in> set (os_issued s)" "os_tokens s (tk_accessToken (gr_token k)) \<noteq> None \<or> os_refresh s (tk_refreshToken (gr_token k)) \<noteq> None"
    for k
    using k(2)
  proof
    assume "os_tokens s (tk_accessToken (gr_token k)) \<noteq> None"
    then obtain t x where t: "os_tokens s (tk_accessToken (gr_token k)) = Some (t, x)" by force
    obtain l where l: "l \<in> set (os_issued s)" "gr_token l = t" "tk_accessToken t = tk_accessToken (gr_token k)" "unrefreshed s t"
      using tables_okD(1) [OF ok(2) t] by auto
    then have "l = k" using ok(1) k(1) unfolding grants_ok_def apart_def by blast
    with l show ?thesis by simp
  next
    assume "os_refresh s (tk_refreshToken (gr_token k)) \<noteq> None"
    then obtain t x where "os_refresh s (tk_refreshToken (gr_token k)) = Some (t, x)" by force
    then show ?thesis using tables_okD(2) [OF ok(2)] by (fastforce simp: unrefreshed_def)
  qed
  have "apart s g h" using ok(1) assms(2,3) by (simp add: grants_ok_def)
  then show ?thesis using live [OF assms(2,5)] live [OF assms(3,6)] assms(4) by (simp add: apart_def)
qed

section \<open>A run\<close>

definition quiet_oauth :: "instant \<Rightarrow> (nat \<Rightarrow> string) \<Rightarrow> oauth_env" where
  "quiet_oauth now uuid = \<lparr>oe_now = (\<lambda>_. now), oe_reply = (\<lambda>_. Answered), oe_race = (\<lambda>_ s. s), oe_uuid = uuid,
     oe_issuer = ''https://api.suppernote.com'', oe_sha256_hex = (\<lambda>v. ''h'' @ v), oe_sha256_base64url = (\<lambda>v. v),
     oe_base64_text = (\<lambda>v. v), oe_url = (\<lambda>_. None),
     oe_restaurants = [\<lparr>mr_id = ''r1'', mr_name = ''Bistro'', mr_agenticOptIn = True, mr_mcpEnabled = True\<rparr>]\<rparr>"

lemma quiet_fair_oauth: "(\<And>k. uuid k \<noteq> []) \<Longrightarrow> fair_oauth {} (\<lambda>v. v) (quiet_oauth now uuid)"
  by (simp add: fair_oauth_def quiet_oauth_def)

definition claude_callback :: string where
  "claude_callback = ''https://claude.ai/api/mcp/auth_callback''"

definition sample_challenge :: string where
  "sample_challenge = replicate 43 (CHR ''a'')"

definition sample_query :: authorize_query where
  "sample_query = \<lparr>aq_client_id = Some ''claude'', aq_redirect_uri = Some claude_callback, aq_response_type = Some ''code'',
     aq_state = Some ''st'', aq_scope = Some ''mcp:read mcp:reserve'', aq_restaurant_id = None, aq_resource = None,
     aq_code_challenge = Some sample_challenge, aq_code_challenge_method = Some ''S256''\<rparr>"

definition sample_form :: authorize_form where
  "sample_form = \<lparr>af_client_id = None, af_redirect_uri = None, af_state = None, af_scope = None, af_restaurant_id = None,
     af_resource = None, af_code_challenge = None, af_code_challenge_method = None, af_action = Some ''approve'',
     af_csrf_token = Some ''u1''\<rparr>"

definition sample_exchange :: token_request where
  "sample_exchange = \<lparr>tr_authorization = None, tr_grant_type = Some ''authorization_code'', tr_code = Some ''u2'',
     tr_redirect_uri = Some claude_callback, tr_client_id = Some ''claude'', tr_client_secret = None,
     tr_code_verifier = Some sample_challenge, tr_refresh_token = None, tr_resource = None\<rparr>"

definition sample_refresh :: token_request where
  "sample_refresh = sample_exchange\<lparr>tr_grant_type := Some ''refresh_token'', tr_refresh_token := Some ''u31''\<rparr>"

definition numbered :: "string \<Rightarrow> nat \<Rightarrow> string" where
  "numbered u k = (if k = 0 then u else u @ nat_str k)"

definition oauth_shown :: oauth_state where
  "oauth_shown = fst (authorize_page (quiet_oauth 1000 (numbered ''u1'')) sample_query oauth_start)"

definition oauth_decided :: oauth_state where
  "oauth_decided = fst (authorize_decision (quiet_oauth 2000 (numbered ''u2'')) sample_form oauth_shown)"

definition oauth_granted :: oauth_state where
  "oauth_granted = fst (oauth_token (quiet_oauth 3000 (numbered ''u3'')) ''ip'' sample_exchange oauth_decided)"

definition oauth_refreshed :: oauth_state where
  "oauth_refreshed = fst (oauth_token (quiet_oauth 4000 (numbered ''u4'')) ''ip'' sample_refresh oauth_granted)"

lemma numbered_nonempty: "u \<noteq> [] \<Longrightarrow> numbered u k \<noteq> []"
  by (simp add: numbered_def)

definition unused_prefix :: "string \<Rightarrow> oauth_state \<Rightarrow> bool" where
  "unused_prefix u s = list_all (\<lambda>v. take (length u) v \<noteq> u) (map fst (os_approved s) @
     map (tk_accessToken \<circ> gr_token) (os_issued s) @ map (tk_refreshToken \<circ> gr_token) (os_issued s))"

lemma unused_fresh: "unused_prefix u s \<Longrightarrow> own_fresh (quiet_oauth now (numbered u)) s"
proof -
  assume *: "unused_prefix u s"
  have "take (length u) (numbered u k) = u" for k by (simp add: numbered_def)
  with * show ?thesis by (force simp: unused_prefix_def own_fresh_def used_values_def quiet_oauth_def list_all_iff)
qed

lemma sample_run: "(oauth_request (\<lambda>v. v))\<^sup>*\<^sup>* oauth_start oauth_refreshed"
proof -
  have fair: "fair_oauth {} (\<lambda>v. v) (quiet_oauth now (numbered u))" if "u \<noteq> []" for now u
    using quiet_fair_oauth [of "numbered u"] numbered_nonempty [OF that] by blast
  have f: "fair_oauth {} (\<lambda>v. v) (quiet_oauth 1000 (numbered ''u1''))" "fair_oauth {} (\<lambda>v. v) (quiet_oauth 2000 (numbered ''u2''))"
    "fair_oauth {} (\<lambda>v. v) (quiet_oauth 3000 (numbered ''u3''))" "fair_oauth {} (\<lambda>v. v) (quiet_oauth 4000 (numbered ''u4''))"
    by (simp_all add: fair)
  have u: "unused_prefix ''u1'' oauth_start" "unused_prefix ''u2'' oauth_shown" "unused_prefix ''u3'' oauth_decided"
    "unused_prefix ''u4'' oauth_granted" by code_simp+
  have s: "oauth_request (\<lambda>v. v) oauth_start oauth_shown" "oauth_request (\<lambda>v. v) oauth_shown oauth_decided"
    "oauth_request (\<lambda>v. v) oauth_decided oauth_granted" "oauth_request (\<lambda>v. v) oauth_granted oauth_refreshed"
    unfolding oauth_shown_def oauth_decided_def oauth_granted_def oauth_refreshed_def
    by (rule rq_page [OF prod.collapse [symmetric] f(1) unused_fresh [OF u(1)]]
        rq_decision [OF prod.collapse [symmetric] f(2) unused_fresh [OF u(2), unfolded oauth_shown_def]]
        rq_token [OF prod.collapse [symmetric] f(3) unused_fresh [OF u(3), unfolded oauth_decided_def oauth_shown_def]]
        rq_token [OF prod.collapse [symmetric] f(4) unused_fresh [OF u(4), unfolded oauth_granted_def oauth_decided_def oauth_shown_def]])+
  then show ?thesis by (meson rtranclp.rtrancl_into_rtrancl rtranclp.rtrancl_refl)
qed

theorem grants_are_exchanged_once_witness:
  "map gr_source (os_issued oauth_refreshed) = [By_code ''u2'', By_refresh ''u31''] \<and>
   distinct (map gr_source (os_issued oauth_refreshed))"
proof -
  have "map gr_source (os_issued oauth_refreshed) = [By_code ''u2'', By_refresh ''u31'']" by code_simp
  then show ?thesis using grants_are_exchanged_once [OF sample_run] by blast
qed

theorem access_descends_from_consent_witness:
  "\<exists>c \<in> snd ` set (os_shown oauth_refreshed). cs_clientId c = ''claude'' \<and> cs_scopes c = [''mcp:read'', ''mcp:reserve'']"
proof -
  have "token_context ''https://api.suppernote.com'' (alive 5000 (os_tokens oauth_refreshed) ''u4'') =
    Some \<lparr>ox_clientId = ''claude'', ox_restaurantId = None, ox_scopes = [''mcp:read'', ''mcp:reserve'']\<rparr>" by code_simp
  from access_descends_from_consent [OF sample_run this]
  obtain c where "c \<in> snd ` set (os_shown oauth_refreshed)" "cs_clientId c = ''claude''"
    "cs_scopes c = [''mcp:read'', ''mcp:reserve'']" by (metis oauth_context.select_convs(1,3))
  then show ?thesis by blast
qed

theorem one_live_pair_per_code_witness:
  "find (\<lambda>g. tk_accessToken (gr_token g) = ''u4'') (os_issued oauth_refreshed) =
   find (\<lambda>g. tk_refreshToken (gr_token g) = ''u41'') (os_issued oauth_refreshed)"
proof -
  obtain g h where g: "find (\<lambda>g. tk_accessToken (gr_token g) = ''u4'') (os_issued oauth_refreshed) = Some g"
    and h: "find (\<lambda>g. tk_refreshToken (gr_token g) = ''u41'') (os_issued oauth_refreshed) = Some h"
    and code: "gr_code g = gr_code h"
  proof -
    have "case (find (\<lambda>g. tk_accessToken (gr_token g) = ''u4'') (os_issued oauth_refreshed),
        find (\<lambda>g. tk_refreshToken (gr_token g) = ''u41'') (os_issued oauth_refreshed)) of
      (Some g, Some h) \<Rightarrow> gr_code g = gr_code h | _ \<Rightarrow> False" by code_simp
    then show thesis using that by (auto split: option.splits)
  qed
  have "g \<in> set (os_issued oauth_refreshed)" "h \<in> set (os_issued oauth_refreshed)" "tk_accessToken (gr_token g) = ''u4''"
    "tk_refreshToken (gr_token h) = ''u41''" using g h by (auto simp: find_Some_iff)
  moreover have "os_tokens oauth_refreshed ''u4'' \<noteq> None" "os_refresh oauth_refreshed ''u41'' \<noteq> None" by code_simp+
  ultimately have "g = h" using one_live_pair_per_code [OF sample_run _ _ code] by metis
  with g h show ?thesis by simp
qed

section \<open>Undisturbed requests\<close>

definition calm_oauth :: "oauth_env \<Rightarrow> instant \<Rightarrow> bool" where
  "calm_oauth e now \<longleftrightarrow> oe_now e = (\<lambda>_. now) \<and> oe_reply e = (\<lambda>_. Answered) \<and> oe_race e = (\<lambda>_ s. s)"

lemma calm_oauth_steps:
  assumes "calm_oauth e now"
  shows "oauth_step e k f s = (fst (f now s), Inr (snd (f now s)))"
    and "getJson e k tab key s = (s, Inr (alive now (tab s) key))"
    and "exchangeToken e k src original t previous s = (fst (exchange_script src original t previous now s),
      Inr (snd (exchange_script src original t previous now s)))"
  using assms by (simp_all add: calm_oauth_def oauth_step_def getJson_def exchangeToken_def split_beta)

definition rate_key :: "string \<Rightarrow> oauth_rate \<Rightarrow> string" where
  "rate_key ip config = ''sokar:oauth:rate:'' @ or_key config @ '':'' @ ip"

definition counted :: "oauth_rate \<Rightarrow> string \<Rightarrow> instant \<Rightarrow> oauth_state \<Rightarrow> oauth_state" where
  "counted config ip now s = fst (oauth_rate_script (rate_key ip config) (or_windowMs config) now s)"

definition within_rate :: "oauth_rate \<Rightarrow> string \<Rightarrow> instant \<Rightarrow> oauth_state \<Rightarrow> bool" where
  "within_rate config ip now s \<longleftrightarrow> snd (oauth_rate_script (rate_key ip config) (or_windowMs config) now s) \<le> or_max config"

lemma counted_frame: "\<exists>r. counted config ip now s = s\<lparr>os_rates := r\<rparr>"
  by (auto simp: counted_def oauth_rate_script_def split: option.split)

lemma do_steps [simp]:
  "m s = (s', Inr a) \<Longrightarrow> next_do m f s = f a s'"
  "m s = (s', Inl err) \<Longrightarrow> next_do m f s = (s', Inl err)"
  "give a s = (s, Inr a)"
  by (simp_all add: next_do_def give_def)

lemma calm_client:
  assumes "calm_oauth e now" "within_rate config ip now s" "cr_clientId cr = Some i" "i \<noteq> []"
    and "isValidClientAuthentication (oe_sha256_hex e) (alive now (os_clients s) i) cr"
  shows "with_client e ip config cr f s = f i (alive now (os_clients s) i) (counted config ip now s)"
proof -
  obtain r where r: "counted config ip now s = s\<lparr>os_rates := r\<rparr>" using counted_frame by blast
  have "checkOauthRate e 0 ip config s = (counted config ip now s, Inr True)"
    using assms(2) by (simp add: checkOauthRate_def calm_oauth_steps [OF assms(1)] counted_def rate_key_def within_rate_def)
  then show ?thesis using assms(3-5) by (simp add: with_client_def calm_oauth_steps [OF assms(1)] r)
qed

text \<open>
  C24. An exchange by an authenticated client is all or nothing. A request that does not match the code, in its
  client, resource, address or verifier, is refused and the code stays as it was, so that the right request can still use it;
  a request that matches gets the pair, the pair is stored for its time and the code is gone. Nothing else changes
  but the count of the window.
\<close>

theorem code_exchange_exact:
  assumes e: "calm_oauth e now" and rate: "within_rate OAUTH_RATE_TOKEN ip now s"
    and q: "tr_grant_type q = Some ''authorization_code''" "tr_code q = Some c" "c \<noteq> []"
    and cr: "cr = extractClientCredentials (oe_base64_text e) (tr_authorization q) (tr_client_id q) (tr_client_secret q)"
      "cr_clientId cr = Some i" "i \<noteq> []"
    and client: "client = alive now (os_clients s) i" "isValidClientAuthentication (oe_sha256_hex e) client cr"
    and code: "alive now (os_codes s) c = Some a"
    and run: "oauth_token e ip q s = (s', answer)"
  shows "case code_error e q i a of
      Some err \<Rightarrow> answer = Inr (Refused 400 err) \<and> s' = s\<lparr>os_rates := os_rates s'\<rparr>
    | None \<Rightarrow>
        (let t = token_of_code e i client a in
         answer = Inr (Tokens \<lparr>tv_access_token = tk_accessToken t, tv_expires_in = TTL_TOKEN,
           tv_refresh_token = (if supports_refresh client then Some (tk_refreshToken t) else None), tv_scopes = ac_scopes a\<rparr>) \<and>
         os_codes s' = (os_codes s)(c := None) \<and> os_tokens s' = (os_tokens s)(tk_accessToken t \<mapsto> (t, now + TTL_TOKEN * 1000)) \<and>
         os_refresh s' = (if tk_refreshToken t = [] then os_refresh s
           else (os_refresh s)(tk_refreshToken t \<mapsto> (t, now + TTL_REFRESH * 1000))) \<and>
         os_clients s' = os_clients s \<and> os_csrf s' = os_csrf s)"
proof -
  obtain r where r: "counted OAUTH_RATE_TOKEN ip now s = s\<lparr>os_rates := r\<rparr>" using counted_frame by blast
  have go: "grant_code e q i client (s\<lparr>os_rates := r\<rparr>) = (s', answer)"
    using run calm_client [OF e rate, of cr i] cr client q(1) by (simp add: oauth_token_def r)
  have found: "getJson e 2 os_codes c (s\<lparr>os_rates := r\<rparr>) = (s\<lparr>os_rates := r\<rparr>, Inr (Some a))"
    using code by (simp add: calm_oauth_steps [OF e])
  show ?thesis
  proof (cases "code_error e q i a")
    case (Some err)
    then have "s' = s\<lparr>os_rates := r\<rparr> \<and> answer = Inr (Refused 400 err)"
      using go q(2,3) found by (auto simp: grant_code_def)
    with Some show ?thesis by simp
  next
    case None
    define t where "t = token_of_code e i client a"
    have there: "source_value now (By_code c) (s\<lparr>os_rates := r\<rparr>) = Some (Code_original a)"
      using code by (simp add: source_value_def)
    have "snd (exchange_script (By_code c) (Code_original a) t None now (s\<lparr>os_rates := r\<rparr>))"
      using there by (simp add: exchange_script_def Let_def)
    then have "s' = fst (exchange_script (By_code c) (Code_original a) t None now (s\<lparr>os_rates := r\<rparr>)) \<and>
      answer = Inr (Tokens \<lparr>tv_access_token = tk_accessToken t, tv_expires_in = TTL_TOKEN,
        tv_refresh_token = (if supports_refresh client then Some (tk_refreshToken t) else None), tv_scopes = ac_scopes a\<rparr>)"
      using go q(2,3) found None by (auto simp: grant_code_def t_def [symmetric] Let_def calm_oauth_steps [OF e])
    moreover have "os_clients (fst (exchange_script (By_code c) (Code_original a) t None now (s\<lparr>os_rates := r\<rparr>))) = os_clients s"
      by (simp add: exchange_script_def Let_def delete_source_def delete_access_def)
    ultimately show ?thesis
      using None exchange_done [OF there refl, of t None] by (simp add: t_def [symmetric] Let_def put_for_def forget_def)
  qed
qed

theorem code_exchange_exact_witness:
  "os_codes (fst (oauth_token (quiet_oauth 3000 (numbered ''u3'')) ''ip'' (sample_exchange\<lparr>tr_code_verifier := Some ''guess''\<rparr>)
     oauth_decided)) ''u2'' = os_codes oauth_decided ''u2'' \<and>
   os_codes (fst (oauth_token (quiet_oauth 3000 (numbered ''u3'')) ''ip'' sample_exchange oauth_decided)) ''u2'' = None"
proof -
  let ?e = "quiet_oauth 3000 (numbered ''u3'')"
  obtain a where a: "alive 3000 (os_codes oauth_decided) ''u2'' = Some a" "code_error ?e sample_exchange ''claude'' a = None"
    "code_error ?e (sample_exchange\<lparr>tr_code_verifier := Some ''guess''\<rparr>) ''claude'' a = Some invalid_grant"
  proof -
    have "case alive 3000 (os_codes oauth_decided) ''u2'' of Some a \<Rightarrow> code_error ?e sample_exchange ''claude'' a = None \<and>
      code_error ?e (sample_exchange\<lparr>tr_code_verifier := Some ''guess''\<rparr>) ''claude'' a = Some invalid_grant | None \<Rightarrow> False"
      by code_simp
    then show thesis using that by (auto split: option.splits)
  qed
  have e: "calm_oauth ?e 3000" by (simp add: calm_oauth_def quiet_oauth_def)
  have rate: "within_rate OAUTH_RATE_TOKEN ''ip'' 3000 oauth_decided" by code_simp
  have client: "alive 3000 (os_clients oauth_decided) ''claude'' = None" by code_simp
  have known: "isValidClientAuthentication h None cr" for h cr by (simp add: isValidClientAuthentication_def)
  obtain s1 x1 s2 x2 where run: "oauth_token ?e ''ip'' sample_exchange oauth_decided = (s1, x1)"
    "oauth_token ?e ''ip'' (sample_exchange\<lparr>tr_code_verifier := Some ''guess''\<rparr>) oauth_decided = (s2, x2)" by fastforce
  have "os_codes s1 ''u2'' = None"
    using code_exchange_exact [OF e rate _ _ _ refl _ _ client [symmetric] known a(1) run(1)] a(2)
    by (simp add: sample_exchange_def extractClientCredentials_def quiet_oauth_def Let_def)
  moreover have "s2 = oauth_decided\<lparr>os_rates := os_rates s2\<rparr>"
    using code_exchange_exact [OF e rate _ _ _ refl _ _ client [symmetric] known a(1) run(2)] a(3)
    by (simp add: sample_exchange_def extractClientCredentials_def quiet_oauth_def Let_def)
  then have "os_codes s2 = os_codes oauth_decided" by (metis (no_types) oauth_state.select_convs(3) oauth_state.surjective oauth_state.update_convs(6))
  ultimately show ?thesis using run by simp
qed

text \<open>
  Revocation ends the pair. When an authenticated client gives one of its tokens, the access token or the refresh token,
  both are gone afterwards and every other token is as before; a token of another client, or an unknown one,
  changes nothing, and the answer is the same.
\<close>

lemma revocation_ends_the_pair:
  assumes "(oauth_request sha)\<^sup>*\<^sup>* oauth_start s" and e: "calm_oauth e now" and rate: "within_rate OAUTH_RATE_REVOKE ip now s"
    and q: "rv_token q = Some u" "u \<noteq> []"
    and cr: "cr = extractClientCredentials (oe_base64_text e) (rv_authorization q) (rv_client_id q) (rv_client_secret q)"
      "cr_clientId cr = Some i" "i \<noteq> []"
    and client: "isValidClientAuthentication (oe_sha256_hex e) (alive now (os_clients s) i) cr"
    and found: "found = orElse_opt (alive now (os_tokens s) u) (alive now (os_refresh s) u)"
    and pair: "case found of Some t \<Rightarrow> tk_refreshToken t \<noteq> [] | None \<Rightarrow> True"
    and run: "oauth_revoke e ip q s = (s', answer)"
  shows "answer = Inr Revoked \<and>
    (case found of
       Some t \<Rightarrow> if tk_clientId t = i
         then (u = tk_accessToken t \<or> u = tk_refreshToken t) \<and>
           os_tokens s' = (os_tokens s)(tk_accessToken t := None) \<and> os_refresh s' = (os_refresh s)(tk_refreshToken t := None)
         else s' = s\<lparr>os_rates := os_rates s'\<rparr>
     | None \<Rightarrow> s' = s\<lparr>os_rates := os_rates s'\<rparr>)"
proof -
  have ok: "grants_ok sha s" "tables_ok s" using ok_requests [OF assms(1)] by (simp_all add: oauth_ok_def)
  obtain r where r: "counted OAUTH_RATE_REVOKE ip now s = s\<lparr>os_rates := r\<rparr>" using counted_frame by blast
  define s1 where "s1 = s\<lparr>os_rates := r\<rparr>"
  have same: "os_tokens s1 = os_tokens s" "os_refresh s1 = os_refresh s" by (simp_all add: s1_def)
  have go: "next_do (getJson e 2 os_tokens u) (\<lambda>access. next_do
      (case access of Some t \<Rightarrow> give (Some t) | None \<Rightarrow> getJson e 3 os_refresh u) (\<lambda>found.
         next_do (case found of None \<Rightarrow> give () | Some t \<Rightarrow> revoke_found e u i t) (\<lambda>_. give Revoked))) s1 = (s', answer)"
    using run calm_client [OF e rate cr(2,3) client] q cr(1)
    by (simp add: oauth_revoke_def r s1_def cong: option.case_cong)
  have "next_do (case found of None \<Rightarrow> give () | Some t \<Rightarrow> revoke_found e u i t) (\<lambda>_. give Revoked) s1 = (s', answer)"
    using go unfolding found by (cases "alive now (os_tokens s) u") (simp_all add: calm_oauth_steps [OF e] same orElse_opt_def)
  then have last_part: "next_do (case found of None \<Rightarrow> give () | Some t \<Rightarrow> revoke_found e u i t) (\<lambda>_. give Revoked) s1 = (s', answer)" .
  show ?thesis
  proof (cases found)
    case None
    with last_part have "s' = s1 \<and> answer = Inr Revoked" by simp
    with None show ?thesis by (simp add: s1_def)
  next
    case (Some t)
    have stored: "(\<exists>x. os_tokens s u = Some (t, x)) \<or> (\<exists>x. os_refresh s u = Some (t, x))"
      using found Some by (auto simp: alive_def orElse_opt_def split: option.splits if_splits)
    then have key: "u = tk_accessToken t \<or> u = tk_refreshToken t" and "t \<in> gr_token ` set (os_issued s)"
      using tables_okD [OF ok(2)] by blast+
    then have access: "tk_accessToken t \<noteq> []" using ok(1) by (auto simp: grants_ok_def grant_ok_def)
    show ?thesis
    proof (cases "tk_clientId t = i")
      case True
      then have "revoke_found e u i t s1 = (s1\<lparr>os_tokens := forget (tk_accessToken t) (os_tokens s1),
          os_refresh := forget (tk_refreshToken t) (os_refresh s1)\<rparr>, Inr ())"
        using pair Some access by (simp add: revoke_found_def deleteStoredTokenPair_def calm_oauth_steps [OF e])
      then show ?thesis using last_part Some True key by (auto simp: s1_def forget_def)
    next
      case False
      then have "s' = s1 \<and> answer = Inr Revoked" using last_part Some by (simp add: revoke_found_def)
      with Some False show ?thesis by (simp add: s1_def)
    qed
  qed
qed

lemma revocation_ends_the_pair_witness:
  "os_tokens (fst (oauth_revoke (quiet_oauth 5000 (numbered ''u5'')) ''ip'' \<lparr>rv_authorization = None,
     rv_client_id = Some ''claude'', rv_client_secret = None, rv_token = Some ''u41''\<rparr> oauth_refreshed)) ''u4'' = None \<and>
   os_tokens oauth_refreshed ''u4'' \<noteq> None"
proof -
  let ?e = "quiet_oauth 5000 (numbered ''u5'')"
  let ?q = "\<lparr>rv_authorization = None, rv_client_id = Some ''claude'', rv_client_secret = None, rv_token = Some ''u41''\<rparr>"
  obtain t where t: "alive 5000 (os_refresh oauth_refreshed) ''u41'' = Some t" "tk_refreshToken t = ''u41''"
    "tk_clientId t = ''claude''" "tk_accessToken t = ''u4''"
  proof -
    have "case alive 5000 (os_refresh oauth_refreshed) ''u41'' of Some t \<Rightarrow>
        tk_refreshToken t = ''u41'' \<and> tk_clientId t = ''claude'' \<and> tk_accessToken t = ''u4'' | None \<Rightarrow> False" by code_simp
    then show thesis using that by (auto split: option.splits)
  qed
  have e: "calm_oauth ?e 5000" by (simp add: calm_oauth_def quiet_oauth_def)
  have rate: "within_rate OAUTH_RATE_REVOKE ''ip'' 5000 oauth_refreshed" by code_simp
  have client: "alive 5000 (os_clients oauth_refreshed) ''claude'' = None"
    and other: "alive 5000 (os_tokens oauth_refreshed) ''u41'' = None" by code_simp+
  have known: "isValidClientAuthentication h (alive 5000 (os_clients oauth_refreshed) ''claude'') cr" for h cr
    by (simp add: isValidClientAuthentication_def client)
  obtain s' x where run: "oauth_revoke ?e ''ip'' ?q oauth_refreshed = (s', x)" by force
  have live: "os_tokens oauth_refreshed ''u4'' \<noteq> None" by code_simp
  from revocation_ends_the_pair [OF sample_run e rate _ _ refl _ _ known refl _ run] t other live run show ?thesis
    by (simp add: extractClientCredentials_def orElse_opt_def)
qed

section \<open>Registration\<close>

lemma js_set_length: "length (js_set xs) \<le> length xs"
  using length_remdups_leq [of "rev xs"] by (simp add: js_set_def)

lemma js_set_texts:
  assumes "\<And>x. x \<in> set xs \<Longrightarrow> \<exists>u. x = VStr u"
  shows "distinct (map (\<lambda>x. the (text_of (Some x))) (js_set xs))"
    and "set (map (\<lambda>x. the (text_of (Some x))) (js_set xs)) = {u. VStr u \<in> set xs}"
proof -
  have inj: "inj_on (\<lambda>x. the (text_of (Some x))) (set (js_set xs))"
    using assms by (intro inj_onI) (metis set_js_set option.sel text_of.simps(1))
  then show "distinct (map (\<lambda>x. the (text_of (Some x))) (js_set xs))" by (simp add: distinct_map)
  show "set (map (\<lambda>x. the (text_of (Some x))) (js_set xs)) = {u. VStr u \<in> set xs}"
    using assms by force
qed

lemma valid_address_is_text: "validateRedirectUri url x \<Longrightarrow> \<exists>u. x = VStr u"
  by (cases x) (simp_all add: validateRedirectUri_def)

lemma normalized_addresses:
  assumes "normalizeRedirectUris url v = Some us"
  shows "us \<noteq> []" "length us \<le> 10" "distinct us" "list_all (\<lambda>u. validateRedirectUri url (VStr u)) us"
proof -
  obtain xs where v: "v = Some (VArr xs)" "xs \<noteq> []" "length xs \<le> 10" "list_all (validateRedirectUri url) xs"
    "us = map (\<lambda>x. the (text_of (Some x))) (js_set xs)"
    using assms by (auto simp: normalizeRedirectUris_def split: option.splits jval.splits if_splits)
  have str: "\<exists>u. x = VStr u" if "x \<in> set xs" for x
    using that v(4) valid_address_is_text by (auto simp: list_all_iff)
  show "us \<noteq> []" using v(2,5) set_js_set [of xs] by (metis Nil_is_map_conv set_empty)
  show "length us \<le> 10" using v(3,5) js_set_length [of xs] by simp
  show "distinct us" using js_set_texts(1) [of xs] str v(5) by blast
  show "list_all (\<lambda>u. validateRedirectUri url (VStr u)) us"
    using js_set_texts(2) [of xs] str v(4,5) by (auto simp: list_all_iff)
qed

lemma normalized_grants: "normalizeGrantTypes v = Some gs \<Longrightarrow> ''authorization_code'' \<in> set gs"
proof -
  assume *: "normalizeGrantTypes v = Some gs"
  show ?thesis
  proof (cases v)
    case (Some x)
    then obtain xs where xs: "x = VArr xs" "VStr ''authorization_code'' \<in> set xs"
      "\<not> list_ex (\<lambda>x. x \<notin> {VStr ''authorization_code'', VStr ''refresh_token''}) xs"
      "gs = map (\<lambda>x. the (text_of (Some x))) (js_set xs)"
      using * by (auto simp: normalizeGrantTypes_def split: jval.splits if_splits)
    have "\<exists>u. y = VStr u" if "y \<in> set xs" for y using that xs(3) by (auto simp: list_ex_iff)
    then show ?thesis using js_set_texts(2) [of xs] xs(2,4) by blast
  qed (use * in \<open>auto simp: normalizeGrantTypes_def\<close>)
qed

text \<open>
  C25. What registration answers is a client that can be used: it is stored for a year, its addresses are valid,
  distinct and at most ten, it may exchange codes, and it authenticates exactly when it presents, in the place it
  announced, a secret with the hash of the one it was given; without a secret only by presenting none.
\<close>

theorem registered_client_is_usable:
  assumes "oauth_register e ip body s = (s', Inr (Registered c secret))"
    and "\<forall>v. oe_sha256_hex e v \<noteq> []" "\<forall>k. oe_uuid e k \<noteq> []"
  shows "os_clients s' (rg_clientId c) = Some (c, oe_now e 1 + 31536000000) \<and>
    rg_redirectUris c \<noteq> [] \<and> length (rg_redirectUris c) \<le> 10 \<and> distinct (rg_redirectUris c) \<and>
    list_all (\<lambda>u. validateRedirectUri (oe_url e) (VStr u)) (rg_redirectUris c) \<and>
    ''authorization_code'' \<in> set (rg_grantTypes c) \<and> rg_responseTypes c = [''code''] \<and>
    (isValidClientAuthentication (oe_sha256_hex e) (Some c) cr =
      (case secret of
         None \<Rightarrow> rg_tokenEndpointAuthMethod c = no_secret \<and> \<not> truthy (cr_clientSecret cr)
       | Some v \<Rightarrow> truthy (cr_clientSecret cr) \<and> oe_sha256_hex e (the (cr_clientSecret cr)) = oe_sha256_hex e v \<and>
           cr_source cr = Some (if rg_tokenEndpointAuthMethod c = client_secret_basic then basic_source else body_source)))"
proof -
  have made: "new_client e body = Some (c, secret)" and stored: "os_clients s' (rg_clientId c) = Some (c, oe_now e 1 + 31536000000)"
    using assms(1)
    by (auto simp: oauth_register_def checkOauthRate_def oauth_step_def next_do_def give_def put_for_def TTL_CLIENT_def
      Let_def split: prod.splits sum.splits reply.splits if_splits option.splits)
  obtain m us gs rs where parts: "normalizeRedirectUris (oe_url e) (jmember body ''redirect_uris'') = Some us"
    "normalizeGrantTypes (jmember body ''grant_types'') = Some gs"
    "normalizeResponseTypes (jmember body ''response_types'') = Some rs"
    "rg_redirectUris c = us" "rg_grantTypes c = gs" "rg_responseTypes c = rs" "rg_tokenEndpointAuthMethod c = m"
    "secret = (if m = no_secret then None else Some (oe_uuid e 1 @ oe_uuid e 2))"
    "rg_clientSecretHash c = map_option (oe_sha256_hex e) secret"
    using made by (auto simp: new_client_def Let_def split: option.splits if_splits)
  have "rs = [''code'']" using parts(3) by (auto simp: normalizeResponseTypes_def split: option.splits if_splits)
  moreover have "isValidClientAuthentication (oe_sha256_hex e) (Some c) cr =
      (case secret of
         None \<Rightarrow> m = no_secret \<and> \<not> truthy (cr_clientSecret cr)
       | Some v \<Rightarrow> truthy (cr_clientSecret cr) \<and> oe_sha256_hex e (the (cr_clientSecret cr)) = oe_sha256_hex e v \<and>
           cr_source cr = Some (if m = client_secret_basic then basic_source else body_source))"
    using parts(7-9) assms(2,3) by (cases m) (auto simp: isValidClientAuthentication_def truthy_def split: option.splits)
  ultimately show ?thesis
    using stored normalized_addresses [OF parts(1)] normalized_grants [OF parts(2)] parts(4-7)
    by (simp cong: option.case_cong)
qed

theorem registered_client_is_usable_witness:
  "let e = (quiet_oauth 1000 (numbered ''u1''))\<lparr>oe_url := \<lambda>_. Some \<lparr>wu_protocol = ''https:'', wu_username = [],
        wu_password = [], wu_hostname = ''app.example'', wu_port = [], wu_hash = []\<rparr>\<rparr>;
       body = VObj [(''redirect_uris'', VArr [VStr ''https://app.example/cb'', VStr ''https://app.example/cb''])]
   in case snd (oauth_register e ''ip'' body oauth_start) of
        Inr (Registered c secret) \<Rightarrow> rg_redirectUris c = [''https://app.example/cb''] \<and>
          isValidClientAuthentication (oe_sha256_hex e) (Some c)
            \<lparr>cr_clientId = Some (rg_clientId c), cr_clientSecret = secret, cr_source = Some basic_source\<rparr>
      | _ \<Rightarrow> False"
proof -
  define e where "e = (quiet_oauth 1000 (numbered ''u1''))\<lparr>oe_url := \<lambda>_. Some \<lparr>wu_protocol = ''https:'', wu_username = [],
        wu_password = [], wu_hostname = ''app.example'', wu_port = [], wu_hash = []\<rparr>\<rparr>"
  define body where "body = VObj [(''redirect_uris'', VArr [VStr ''https://app.example/cb'', VStr ''https://app.example/cb''])]"
  obtain s' x where run: "oauth_register e ''ip'' body oauth_start = (s', x)" by force
  have "case snd (oauth_register e ''ip'' body oauth_start) of
        Inr (Registered c secret) \<Rightarrow> rg_redirectUris c = [''https://app.example/cb''] \<and>
          rg_tokenEndpointAuthMethod c = client_secret_basic \<and> truthy secret | _ \<Rightarrow> False"
    unfolding e_def body_def by code_simp
  then obtain c v where x: "x = Inr (Registered c (Some v))" "rg_redirectUris c = [''https://app.example/cb'']"
    "rg_tokenEndpointAuthMethod c = client_secret_basic" "truthy (Some v)"
    using run by (auto split: sum.splits oauth_answer.splits option.splits simp: truthy_def)
  have "isValidClientAuthentication (oe_sha256_hex e) (Some c)
      \<lparr>cr_clientId = Some (rg_clientId c), cr_clientSecret = Some v, cr_source = Some basic_source\<rparr>"
    using registered_client_is_usable [OF run [unfolded x(1)], of
      "\<lparr>cr_clientId = Some (rg_clientId c), cr_clientSecret = Some v, cr_source = Some basic_source\<rparr>"] x(3,4)
    by (simp add: e_def quiet_oauth_def numbered_def)
  then show ?thesis using run x(1,2) by (simp add: Let_def flip: e_def body_def)
qed

section \<open>Text in pages\<close>

text \<open>What a reader of a page makes of an entity the server writes.\<close>

fun shown_text :: "string \<Rightarrow> string" where
  "shown_text [] = []"
| "shown_text (c # cs) =
     (if c \<noteq> CHR ''&'' then c # shown_text cs
      else if take 4 cs = ''amp;'' then CHR ''&'' # shown_text (drop 4 cs)
      else if take 3 cs = ''lt;'' then CHR ''<'' # shown_text (drop 3 cs)
      else if take 3 cs = ''gt;'' then CHR ''>'' # shown_text (drop 3 cs)
      else if take 5 cs = ''quot;'' then QUOTE # shown_text (drop 5 cs)
      else if take 4 cs = ''#39;'' then APOSTROPHE # shown_text (drop 4 cs)
      else c # shown_text cs)"

definition html_entity :: "char \<Rightarrow> string" where
  "html_entity c = (if c = CHR ''&'' then ''&amp;'' else if c = CHR ''<'' then ''&lt;'' else if c = CHR ''>'' then ''&gt;''
     else if c = QUOTE then ''&quot;'' else if c = APOSTROPHE then ''&#39;'' else [c])"

lemma replace_char_simps [simp]:
  "replace_char c entity [] = []" "replace_char c entity (d # s) = (if d = c then entity else [d]) @ replace_char c entity s"
  "replace_char c entity (s @ t) = replace_char c entity s @ replace_char c entity t"
  by (simp_all add: replace_char_def)

lemma escapeHtml_entities: "escapeHtml s = concat (map html_entity s)"
  by (induction s) (simp_all add: escapeHtml_def html_entity_def)

lemma shown_entity: "shown_text (html_entity c @ s) = c # shown_text s"
  by (simp add: html_entity_def)

text \<open>
  A text that a page quotes is shown as it is and can neither open a tag nor close an attribute: read back, the
  escaped text is the text, and it has no angle bracket and no quote of either kind.
\<close>

lemma escaped_text_is_inert:
  "shown_text (escapeHtml s) = s \<and> set (escapeHtml s) \<inter> {CHR ''<'', CHR ''>'', QUOTE, APOSTROPHE} = {}"
proof
  show "shown_text (escapeHtml s) = s"
    unfolding escapeHtml_entities by (induction s) (simp_all add: shown_entity)
  show "set (escapeHtml s) \<inter> {CHR ''<'', CHR ''>'', QUOTE, APOSTROPHE} = {}"
    unfolding escapeHtml_entities by (auto simp: html_entity_def split: if_splits)
qed

section \<open>Where the server is less strict than it says\<close>

text \<open>
  The token of a consent form is read with one command and deleted with another, so two answers to one form that
  meet are both taken: the page was shown once and two codes come from it.
\<close>

lemma consent_form_answered_twice:
  "let answer_other = (\<lambda>s. fst (authorize_decision (quiet_oauth 2000 (numbered ''u9'')) sample_form s));
       s = fst (authorize_decision ((quiet_oauth 2000 (numbered ''u2''))\<lparr>oe_race := \<lambda>k s. if k = 1 then answer_other s else s\<rparr>)
         sample_form oauth_shown)
   in length (os_shown s) = 1 \<and> length (os_approved s) = 2 \<and>
     alive 2001 (os_codes s) ''u2'' \<noteq> None \<and> alive 2001 (os_codes s) ''u9'' \<noteq> None"
  by code_simp

text \<open>
  A client that registered with a secret is forgotten after a year, and a client the server does not know is taken
  for a public one: the refresh token it still holds then works without the secret.
\<close>

definition secret_client :: registered_client where
  "secret_client = \<lparr>rg_clientId = ''c1'', rg_clientSecretHash = Some ''hs3cret'', rg_redirectUris = [''https://app.example/cb''],
     rg_clientName = ''app'', rg_tokenEndpointAuthMethod = client_secret_post,
     rg_grantTypes = [''authorization_code'', ''refresh_token''], rg_responseTypes = [''code'']\<rparr>"

definition secret_client_state :: oauth_state where
  "secret_client_state = oauth_start\<lparr>os_clients := put_for 0 TTL_CLIENT ''c1'' secret_client Map.empty,
     os_refresh := put_for 31000000000 TTL_REFRESH ''r1'' \<lparr>tk_clientId = ''c1'', tk_restaurantId = None,
       tk_restaurantName = None, tk_scopes = [''mcp:read''], tk_resource = None, tk_accessToken = ''a1'',
       tk_refreshToken = ''r1''\<rparr> Map.empty\<rparr>"

lemma expired_client_needs_no_secret:
  "let q = sample_refresh\<lparr>tr_client_id := Some ''c1'', tr_client_secret := None, tr_refresh_token := Some ''r1''\<rparr>;
       answer = (\<lambda>now. snd (oauth_token (quiet_oauth now (numbered ''u7'')) ''ip'' q secret_client_state))
   in answer 31535999000 = Inr (Refused 401 invalid_client) \<and>
     (case answer 31536000000 of Inr (Tokens v) \<Rightarrow> tv_refresh_token v \<noteq> None | _ \<Rightarrow> False)"
  by code_simp

text \<open>
  Revocation looks its token up and deletes the pair in separate commands, so a refresh in between leaves a new pair
  behind an answer that says the token is revoked.
\<close>

lemma revoked_token_refreshed_in_between:
  "let refresh = (\<lambda>s. fst (oauth_token (quiet_oauth 5000 (numbered ''u8'')) ''ip''
         (sample_refresh\<lparr>tr_refresh_token := Some ''u41''\<rparr>) s));
       (s, answer) = oauth_revoke ((quiet_oauth 5000 (numbered ''u5''))\<lparr>oe_race := \<lambda>k s. if k = 4 then refresh s else s\<rparr>) ''ip''
         \<lparr>rv_authorization = None, rv_client_id = Some ''claude'', rv_client_secret = None, rv_token = Some ''u41''\<rparr> oauth_refreshed
   in answer = Inr Revoked \<and> alive 5001 (os_tokens s) ''u8'' \<noteq> None \<and> alive 5001 (os_refresh s) ''u81'' \<noteq> None"
  by code_simp

end
