(* ===== verification/Reservation_Payments.thy ===== *)
theory Reservation_Payments
  imports Lifecycle Json_Text Js_Text Iso_Date
begin

text \<open>
  \<open>reservation-payments/reservation-payment.service.ts\<close> and the report of Stripe in its routes: the policies of a
  restaurant, the payments that protect a reservation, and the events of the provider that move them and confirm
  the reservation. The reservations are those of \<open>Lifecycle\<close>. Amounts are rationals with two decimals, a text where
  the code makes one. A number given where the code takes a number or a text is taken as \<open>String\<close> writes it.
\<close>

section \<open>Rows\<close>

datatype pay_status =
  PS_REQUIRES_PAYMENT_METHOD | PS_REQUIRES_ACTION | PS_AUTHORIZED | PS_CAPTURED | PS_PARTIALLY_REFUNDED |
  PS_REFUNDED | PS_FAILED | PS_CANCELLED | PS_EXPIRED

datatype pay_type = CARD_GUARANTEE | DEPOSIT | PREPAYMENT

datatype amount_mode = FIXED | PER_PERSON

record pay_policy =
  py_id :: id
  py_restaurantId :: id
  py_version :: int
  py_type :: pay_type
  py_amountMode :: amount_mode
  py_amount :: rat
  py_minPartySize :: "int option"
  py_cancellationHours :: int
  py_rules :: jval
  py_activeFrom :: instant
  py_activeUntil :: "instant option"
  py_createdAt :: instant

text \<open>The JSON copy of its policy that a payment keeps.\<close>

record policy_snap =
  sn_id :: id
  sn_version :: int
  sn_type :: pay_type
  sn_amountMode :: amount_mode
  sn_amount :: string
  sn_minPartySize :: "int option"
  sn_cancellationHours :: int
  sn_rules :: jval
  sn_activeFrom :: string
  sn_activeUntil :: "string option"

record pay_row =
  pm_id :: id
  pm_restaurantId :: id
  pm_reservationId :: id
  pm_policyId :: id
  pm_status :: pay_status
  pm_amount :: rat
  pm_currency :: string
  pm_stripeAccountId :: "string option"
  pm_stripeSetupIntentId :: "string option"
  pm_stripePaymentIntentId :: "string option"
  pm_idempotencyKey :: string
  pm_policySnapshot :: policy_snap
  pm_expiresAt :: "instant option"
  pm_failureCode :: "string option"
  pm_lastProviderEventAt :: "instant option"
  pm_createdAt :: instant

record pay_event =
  pv_id :: id
  pv_restaurantId :: id
  pv_paymentId :: id
  pv_providerEventId :: string
  pv_eventType :: string
  pv_resultingStatus :: "pay_status option"
  pv_payloadHash :: string
  pv_occurredAt :: instant

record pay_db =
  pb_core :: db
  pb_policies :: "pay_policy list"
  pb_payments :: "pay_row list"
  pb_events :: "pay_event list"

datatype pay_input_code =
  PAYMENT_POLICY_INVALID | PAYMENT_AMOUNT_INVALID | PAYMENT_IDEMPOTENCY_INVALID | PAYMENT_EXPIRY_INVALID |
  PAYMENT_EVENT_INVALID | PAYMENT_PROVIDER_MISMATCH | PAYMENT_CURRENCY_MISMATCH | PAYMENT_AMOUNT_MISMATCH

datatype pay_state_code =
  PAYMENT_TRANSITION_INVALID | PAYMENT_IDEMPOTENCY_CONFLICT | PAYMENT_POLICY_VERSION_CONFLICT

datatype pay_error =
  ReservationPaymentInputError pay_input_code
| ReservationPaymentNotFoundError
| ReservationPaymentPolicyNotFoundError
| ReservationPaymentReservationNotFoundError
| ReservationPaymentStateError pay_state_code
| PayDbError db_error
| PayLifecycleError err

section \<open>Statuses\<close>

fun PAYMENT_STATUS_TRANSITIONS :: "pay_status \<Rightarrow> pay_status list" where
  "PAYMENT_STATUS_TRANSITIONS PS_REQUIRES_PAYMENT_METHOD =
     [PS_REQUIRES_ACTION, PS_AUTHORIZED, PS_CAPTURED, PS_FAILED, PS_CANCELLED, PS_EXPIRED]"
| "PAYMENT_STATUS_TRANSITIONS PS_REQUIRES_ACTION = [PS_AUTHORIZED, PS_CAPTURED, PS_FAILED, PS_CANCELLED, PS_EXPIRED]"
| "PAYMENT_STATUS_TRANSITIONS PS_AUTHORIZED = [PS_CAPTURED, PS_PARTIALLY_REFUNDED, PS_REFUNDED, PS_CANCELLED]"
| "PAYMENT_STATUS_TRANSITIONS PS_CAPTURED = [PS_PARTIALLY_REFUNDED, PS_REFUNDED]"
| "PAYMENT_STATUS_TRANSITIONS PS_PARTIALLY_REFUNDED = [PS_REFUNDED]"
| "PAYMENT_STATUS_TRANSITIONS PS_REFUNDED = []"
| "PAYMENT_STATUS_TRANSITIONS PS_FAILED = [PS_REQUIRES_PAYMENT_METHOD, PS_CANCELLED]"
| "PAYMENT_STATUS_TRANSITIONS PS_CANCELLED = []"
| "PAYMENT_STATUS_TRANSITIONS PS_EXPIRED = []"

definition canTransitionReservationPayment :: "pay_status \<Rightarrow> pay_status \<Rightarrow> bool" where
  "canTransitionReservationPayment from to \<longleftrightarrow> from = to \<or> to \<in> set (PAYMENT_STATUS_TRANSITIONS from)"

definition reservationPaymentStatusForProviderEvent :: "string \<Rightarrow> pay_status option" where
  "reservationPaymentStatusForProviderEvent eventType =
    (if eventType = ''setup_intent.succeeded'' then Some PS_AUTHORIZED
     else if eventType = ''payment_intent.requires_action'' then Some PS_REQUIRES_ACTION
     else if eventType = ''payment_intent.succeeded'' then Some PS_CAPTURED
     else if eventType = ''payment_intent.payment_failed'' then Some PS_FAILED
     else if eventType = ''payment_intent.canceled'' then Some PS_CANCELLED
     else if eventType = ''payment_intent.expired'' then Some PS_EXPIRED
     else if eventType = ''charge.refunded'' then Some PS_REFUNDED
     else None)"

section \<open>Checked input\<close>

datatype money_input = Money_text string | Money_number rat

text \<open>\<open>/^\d+(?:\.\d{1,2})?$/\<close>, and the number it denotes.\<close>

definition money_of_text :: "string \<Rightarrow> rat option" where
  "money_of_text s =
    (let whole = takeWhile is_digit s; rest = dropWhile is_digit s in
     if whole = [] then None
     else case rest of
       [] \<Rightarrow> Some (of_int (digits_value whole))
     | c # ds \<Rightarrow>
         if c = CHR ''.'' \<and> ds \<noteq> [] \<and> length ds \<le> 2 \<and> list_all is_digit ds
         then Some (of_int (digits_value whole) + of_int (digits_value ds) / 10 ^ length ds) else None)"

definition money_of :: "money_input \<Rightarrow> rat option" where
  "money_of v =
    (case v of
       Money_text s \<Rightarrow> money_of_text (js_trim s)
     | Money_number x \<Rightarrow> if 0 \<le> x \<and> isInteger (100 * x) \<and> x < 10 ^ 21 then Some x else None)"

definition in_money_range :: "rat \<Rightarrow> bool" where
  "in_money_range a \<longleftrightarrow> 0 < a \<and> a < 100000"

definition normalizeMoney :: "money_input \<Rightarrow> pay_error + rat" where
  "normalizeMoney v =
    (case money_of v of
       None \<Rightarrow> Inl (ReservationPaymentInputError PAYMENT_AMOUNT_INVALID)
     | Some amount \<Rightarrow>
         if \<not> in_money_range amount then Inl (ReservationPaymentInputError PAYMENT_AMOUNT_INVALID) else Inr amount)"

definition pay_normalizeIdempotencyKey :: "string \<Rightarrow> pay_error + string" where
  "pay_normalizeIdempotencyKey v =
    (let key = js_trim v in
     if length key < 8 \<or> 200 < length key \<or> list_ex control_char key
     then Inl (ReservationPaymentInputError PAYMENT_IDEMPOTENCY_INVALID) else Inr key)"

definition pay_normalizeCurrency :: "string option \<Rightarrow> pay_error + string" where
  "pay_normalizeCurrency v =
    (let currency = map upper_char (js_trim (orElse v ''EUR'')) in
     if length currency = 3 \<and> list_all (between CHR ''A'' CHR ''Z'') currency then Inr currency
     else Inl (ReservationPaymentInputError PAYMENT_POLICY_INVALID))"

definition normalizeProviderId :: "string \<Rightarrow> pay_error + string" where
  "normalizeProviderId v =
    (let i = js_trim v in
     if i = [] \<or> 256 < length i \<or> list_ex control_char i
     then Inl (ReservationPaymentInputError PAYMENT_EVENT_INVALID) else Inr i)"

definition normalizePayloadHash :: "string \<Rightarrow> pay_error + string" where
  "normalizePayloadHash v =
    (let hash = map lower_char (js_trim v) in
     if length hash = 64 \<and> list_all (\<lambda>c. between CHR ''a'' CHR ''f'' c \<or> between CHR ''0'' CHR ''9'' c) hash
     then Inr hash else Inl (ReservationPaymentInputError PAYMENT_EVENT_INVALID))"

text \<open>\<open>JSON.stringify\<close> is an argument; what it writes is read back as the value itself.\<close>

definition normalizeRules :: "(jval \<Rightarrow> string) \<Rightarrow> jval option \<Rightarrow> pay_error + jval" where
  "normalizeRules stringify v =
    (case orElse v (VObj []) of
       VObj fs \<Rightarrow>
         if 8192 < length (stringify (VObj fs)) then Inl (ReservationPaymentInputError PAYMENT_POLICY_INVALID)
         else Inr (VObj fs)
     | _ \<Rightarrow> Inl (ReservationPaymentInputError PAYMENT_POLICY_INVALID))"

text \<open>\<open>toFixed(2)\<close> of an amount of the tables.\<close>

definition money_text :: "rat \<Rightarrow> string" where
  "money_text a =
    (let cents = nat \<lfloor>100 * a\<rfloor>; low = nat_str (cents mod 100) in
     nat_str (cents div 100) @ ''.'' @ (if length low = 1 then CHR ''0'' # low else low))"

definition computeReservationPaymentAmount :: "pay_policy \<Rightarrow> int \<Rightarrow> pay_error + rat" where
  "computeReservationPaymentAmount policy partySize =
    (if partySize < 1 \<or> 100 < partySize then Inl (ReservationPaymentInputError PAYMENT_POLICY_INVALID)
     else let amount = (if py_amountMode policy = PER_PERSON then py_amount policy * of_int partySize else py_amount policy) in
       if \<not> in_money_range amount then Inl (ReservationPaymentInputError PAYMENT_AMOUNT_INVALID) else Inr amount)"

section \<open>Tables\<close>

definition policy_conflict :: "pay_policy \<Rightarrow> pay_policy \<Rightarrow> bool" where
  "policy_conflict p q \<longleftrightarrow> py_restaurantId p = py_restaurantId q \<and> py_version p = py_version q"

definition payment_conflict :: "pay_row \<Rightarrow> pay_row \<Rightarrow> bool" where
  "payment_conflict p q \<longleftrightarrow> pm_idempotencyKey p = pm_idempotencyKey q \<or>
     same_some (pm_stripeSetupIntentId p) (pm_stripeSetupIntentId q) \<or>
     same_some (pm_stripePaymentIntentId p) (pm_stripePaymentIntentId q)"

definition pay_event_conflict :: "pay_event \<Rightarrow> pay_event \<Rightarrow> bool" where
  "pay_event_conflict v w \<longleftrightarrow> pv_providerEventId v = pv_providerEventId w"

text \<open>The \<open>CHECK\<close> constraints of the migration; a comparison with a missing value does not refuse.\<close>

definition policy_checks :: "pay_policy \<Rightarrow> bool" where
  "policy_checks p \<longleftrightarrow> in_money_range (py_amount p) \<and>
     (case py_minPartySize p of None \<Rightarrow> True | Some n \<Rightarrow> 1 \<le> n \<and> n \<le> 100) \<and>
     0 \<le> py_cancellationHours p \<and> py_cancellationHours p \<le> 720 \<and>
     (case py_activeUntil p of None \<Rightarrow> True | Some u \<Rightarrow> py_activeFrom p < u)"

definition payment_checks :: "pay_row \<Rightarrow> bool" where
  "payment_checks p \<longleftrightarrow> in_money_range (pm_amount p) \<and> length (pm_currency p) = 3 \<and>
     list_all (between CHR ''A'' CHR ''Z'') (pm_currency p)"

text \<open>\<open>create\<close>: a row the checks refuse, a row in conflict with another, or a new row.\<close>

definition insert_into :: "('r \<Rightarrow> bool) \<Rightarrow> ('r \<Rightarrow> id) \<Rightarrow> ('r \<Rightarrow> 'r \<Rightarrow> bool) \<Rightarrow> 'r \<Rightarrow> 'r list \<Rightarrow> pay_error + 'r list" where
  "insert_into checks key clash r rows =
    (if \<not> checks r then Inl (PayDbError OTHER_DB_ERROR)
     else if list_ex (\<lambda>x. key x = key r \<or> clash r x) rows then Inl (PayDbError P2002)
     else Inr (rows @ [r]))"

definition insertPolicy :: "pay_policy \<Rightarrow> pay_db \<Rightarrow> pay_error + pay_db" where
  "insertPolicy p d = ebind (insert_into policy_checks py_id policy_conflict p (pb_policies d)) (\<lambda>rows.
     Inr (d\<lparr>pb_policies := rows\<rparr>))"

definition insertPayment :: "pay_row \<Rightarrow> pay_db \<Rightarrow> pay_error + pay_db" where
  "insertPayment p d = ebind (insert_into payment_checks pm_id payment_conflict p (pb_payments d)) (\<lambda>rows.
     Inr (d\<lparr>pb_payments := rows\<rparr>))"

definition insertPayEvent :: "pay_event \<Rightarrow> pay_db \<Rightarrow> pay_error + pay_db" where
  "insertPayEvent v d = ebind (insert_into (\<lambda>_. True) pv_id pay_event_conflict v (pb_events d)) (\<lambda>rows.
     Inr (d\<lparr>pb_events := rows\<rparr>))"

definition findPayment :: "id \<Rightarrow> id \<Rightarrow> pay_db \<Rightarrow> pay_row option" where
  "findPayment paymentId restaurantId d =
     find (\<lambda>p. pm_id p = paymentId \<and> pm_restaurantId p = restaurantId) (pb_payments d)"

definition findPaymentByKey :: "string \<Rightarrow> pay_db \<Rightarrow> pay_row option" where
  "findPaymentByKey key d = find (\<lambda>p. pm_idempotencyKey p = key) (pb_payments d)"

definition findPayEvent :: "string \<Rightarrow> pay_db \<Rightarrow> pay_event option" where
  "findPayEvent providerEventId d = find (\<lambda>v. pv_providerEventId v = providerEventId) (pb_events d)"

definition updatePayment :: "id \<Rightarrow> (pay_row \<Rightarrow> pay_row) \<Rightarrow> pay_db \<Rightarrow> pay_db" where
  "updatePayment paymentId f d = d\<lparr>pb_payments := upd_where (\<lambda>p. pm_id p = paymentId) f (pb_payments d)\<rparr>"

section \<open>Policies\<close>

text \<open>An input that is none of the values of its type is \<open>None\<close>; so is a \<open>Date\<close> that is invalid.\<close>

record policy_input =
  pi_restaurantId :: id
  pi_type :: "pay_type option"
  pi_amountMode :: "amount_mode option"
  pi_amount :: money_input
  pi_minPartySize :: "rat option"
  pi_cancellationHours :: "rat option"
  pi_rules :: "jval option"
  pi_activeFrom :: "instant option option"
  pi_activeUntil :: "instant option option"
  pi_version :: "rat option"

definition between_ints :: "rat \<Rightarrow> int \<Rightarrow> int \<Rightarrow> bool" where
  "between_ints x a b \<longleftrightarrow> isInteger x \<and> of_int a \<le> x \<and> x \<le> of_int b"

abbreviation (input) policy_refused :: "pay_error + 'a" where
  "policy_refused \<equiv> Inl (ReservationPaymentInputError PAYMENT_POLICY_INVALID)"

definition assertPolicyInput :: "(jval \<Rightarrow> string) \<Rightarrow> policy_input \<Rightarrow> instant \<Rightarrow>
    pay_error + rat \<times> jval \<times> instant \<times> instant option" where
  "assertPolicyInput stringify i now =
    (if pi_type i = None then policy_refused
     else if pi_amountMode i = None then policy_refused
     else ebind (normalizeMoney (pi_amount i)) (\<lambda>amount.
       if (case pi_minPartySize i of None \<Rightarrow> False | Some n \<Rightarrow> \<not> between_ints n 1 100) then policy_refused
       else if \<not> between_ints (orElse (pi_cancellationHours i) 24) 0 720 then policy_refused
       else case orElse (pi_activeFrom i) (Some now) of
         None \<Rightarrow> policy_refused
       | Some activeFrom \<Rightarrow>
           (case pi_activeUntil i of
              Some None \<Rightarrow> policy_refused
            | Some (Some u) \<Rightarrow>
                if u \<le> activeFrom then policy_refused
                else ebind (normalizeRules stringify (pi_rules i)) (\<lambda>rules. Inr (amount, rules, activeFrom, Some u))
            | None \<Rightarrow> ebind (normalizeRules stringify (pi_rules i)) (\<lambda>rules. Inr (amount, rules, activeFrom, None)))))"

text \<open>\<open>orderBy: version desc\<close>.\<close>

definition by_version :: "pay_policy list \<Rightarrow> pay_policy list" where
  "by_version = js_sort (\<lambda>p q. py_version q - py_version p)"

definition listReservationPaymentPolicies :: "id \<Rightarrow> pay_db \<Rightarrow> pay_policy list" where
  "listReservationPaymentPolicies restaurantId d = by_version (filter (\<lambda>p. py_restaurantId p = restaurantId) (pb_policies d))"

definition next_version :: "policy_input \<Rightarrow> pay_db \<Rightarrow> rat" where
  "next_version i d =
    (case pi_version i of
       Some v \<Rightarrow> v
     | None \<Rightarrow>
         (case listReservationPaymentPolicies (pi_restaurantId i) d of [] \<Rightarrow> 1 | p # _ \<Rightarrow> of_int (py_version p) + 1))"

definition new_policy :: "policy_input \<Rightarrow> rat \<times> jval \<times> instant \<times> instant option \<Rightarrow> int \<Rightarrow> id \<Rightarrow> instant \<Rightarrow> pay_policy" where
  "new_policy i checked version newId now =
    (let (amount, rules, activeFrom, activeUntil) = checked in
     \<lparr>py_id = newId, py_restaurantId = pi_restaurantId i, py_version = version, py_type = the (pi_type i),
      py_amountMode = the (pi_amountMode i), py_amount = amount, py_minPartySize = map_option floor (pi_minPartySize i),
      py_cancellationHours = \<lfloor>orElse (pi_cancellationHours i) 24\<rfloor>, py_rules = rules, py_activeFrom = activeFrom,
      py_activeUntil = activeUntil, py_createdAt = now\<rparr>)"

text \<open>The view of a policy is its row; \<open>race\<close> is what others commit between the look-up of the last version and the insert.\<close>

definition createReservationPaymentPolicy :: "(jval \<Rightarrow> string) \<Rightarrow> policy_input \<Rightarrow> id \<Rightarrow> instant \<Rightarrow> (pay_db \<Rightarrow> pay_db) \<Rightarrow>
    pay_db \<Rightarrow> pay_db \<times> (pay_error + pay_policy)" where
  "createReservationPaymentPolicy stringify i newId now race d =
    (case assertPolicyInput stringify i now of
       Inl err \<Rightarrow> (d, Inl err)
     | Inr checked \<Rightarrow>
         (let version = next_version i d in
          if \<not> between_ints version 1 10000 then (d, policy_refused)
          else let row = new_policy i checked \<lfloor>version\<rfloor> newId now in
            case insertPolicy row (race d) of
              Inr d' \<Rightarrow> (d', Inr row)
            | Inl err \<Rightarrow>
                (race d, Inl (if err = PayDbError P2002
                   then ReservationPaymentStateError PAYMENT_POLICY_VERSION_CONFLICT else err))))"

definition findPolicy :: "id \<Rightarrow> id option \<Rightarrow> instant \<Rightarrow> pay_db \<Rightarrow> pay_error + pay_policy" where
  "findPolicy restaurantId policyId instant d =
    (case (if truthy policyId
           then find (\<lambda>p. py_id p = the policyId \<and> py_restaurantId p = restaurantId) (pb_policies d)
           else find (\<lambda>p. py_activeFrom p \<le> instant \<and> (case py_activeUntil p of None \<Rightarrow> True | Some u \<Rightarrow> instant < u))
             (listReservationPaymentPolicies restaurantId d)) of
       None \<Rightarrow> Inl ReservationPaymentPolicyNotFoundError
     | Some p \<Rightarrow> Inr p)"

section \<open>Preparation\<close>

definition policySnapshot :: "(jval \<Rightarrow> string) \<Rightarrow> pay_policy \<Rightarrow> pay_error + policy_snap" where
  "policySnapshot stringify p =
     ebind (normalizeRules stringify (Some (py_rules p))) (\<lambda>rules.
       Inr \<lparr>sn_id = py_id p, sn_version = py_version p, sn_type = py_type p, sn_amountMode = py_amountMode p,
         sn_amount = money_text (py_amount p), sn_minPartySize = py_minPartySize p,
         sn_cancellationHours = py_cancellationHours p, sn_rules = rules, sn_activeFrom = toISOString (py_activeFrom p),
         sn_activeUntil = map_option toISOString (py_activeUntil p)\<rparr>)"

record pay_view =
  vw_id :: id
  vw_restaurantId :: id
  vw_reservationId :: id
  vw_policyId :: id
  vw_status :: pay_status
  vw_amount :: string
  vw_currency :: string
  vw_hasStripeAccount :: bool
  vw_hasSetupIntent :: bool
  vw_hasPaymentIntent :: bool
  vw_idempotencyKey :: string
  vw_expiresAt :: "instant option"
  vw_failureCode :: "string option"
  vw_lastProviderEventAt :: "instant option"
  vw_createdAt :: instant

definition serializePayment :: "pay_row \<Rightarrow> pay_view" where
  "serializePayment p =
     \<lparr>vw_id = pm_id p, vw_restaurantId = pm_restaurantId p, vw_reservationId = pm_reservationId p,
      vw_policyId = pm_policyId p, vw_status = pm_status p, vw_amount = money_text (pm_amount p),
      vw_currency = pm_currency p, vw_hasStripeAccount = truthy (pm_stripeAccountId p),
      vw_hasSetupIntent = truthy (pm_stripeSetupIntentId p), vw_hasPaymentIntent = truthy (pm_stripePaymentIntentId p),
      vw_idempotencyKey = pm_idempotencyKey p, vw_expiresAt = pm_expiresAt p, vw_failureCode = pm_failureCode p,
      vw_lastProviderEventAt = pm_lastProviderEventAt p, vw_createdAt = pm_createdAt p\<rparr>"

record pay_preparation =
  pp_reservationId :: id
  pp_policyId :: id
  pp_type :: pay_type
  pp_amount :: string
  pp_currency :: string
  pp_idempotencyKey :: string
  pp_expiresAt :: instant

datatype prepared = Dry_run pay_preparation | Payment_view pay_view

record prepare_input =
  pr_restaurantId :: id
  pr_reservationId :: id
  pr_policyId :: "id option"
  pr_idempotencyKey :: string
  pr_currency :: "string option"
  pr_expiresAt :: "instant option option"
  pr_now :: instant
  pr_dryRun :: "bool option"

text \<open>What is asked for, once everything before the first write has been looked at.\<close>

record wanted_payment =
  wp_reservation :: reservation_row
  wp_policy :: pay_policy
  wp_amount :: rat
  wp_currency :: string
  wp_key :: string
  wp_expiresAt :: instant

definition wanted :: "prepare_input \<Rightarrow> pay_db \<Rightarrow> pay_error + wanted_payment" where
  "wanted i d =
     ebind (pay_normalizeIdempotencyKey (pr_idempotencyKey i)) (\<lambda>key.
       case findTenantReservation (pb_core d) (pr_reservationId i) (pr_restaurantId i) of
         None \<Rightarrow> Inl ReservationPaymentReservationNotFoundError
       | Some r \<Rightarrow>
           if r_status r = St_CANCELLED \<or> r_status r = St_NO_SHOW
           then Inl (ReservationPaymentStateError PAYMENT_TRANSITION_INVALID)
           else ebind (findPolicy (pr_restaurantId i) (pr_policyId i) (pr_now i) d) (\<lambda>policy.
             if (case py_minPartySize policy of None \<Rightarrow> False | Some n \<Rightarrow> r_partySize r < n)
             then Inl (ReservationPaymentStateError PAYMENT_TRANSITION_INVALID)
             else ebind (computeReservationPaymentAmount policy (r_partySize r)) (\<lambda>amount.
               ebind (pay_normalizeCurrency (pr_currency i)) (\<lambda>currency.
                 case orElse (pr_expiresAt i) (Some (pr_now i + 30 * 60 * 1000)) of
                   None \<Rightarrow> Inl (ReservationPaymentInputError PAYMENT_EXPIRY_INVALID)
                 | Some x \<Rightarrow>
                     if x \<le> pr_now i \<or> pr_now i + 24 * 60 * 60 * 1000 < x
                     then Inl (ReservationPaymentInputError PAYMENT_EXPIRY_INVALID)
                     else Inr \<lparr>wp_reservation = r, wp_policy = policy, wp_amount = amount, wp_currency = currency,
                       wp_key = key, wp_expiresAt = x\<rparr>))))"

definition replay_payment :: "prepare_input \<Rightarrow> wanted_payment \<Rightarrow> pay_row \<Rightarrow> pay_error + prepared" where
  "replay_payment i w p =
    (if pm_restaurantId p \<noteq> pr_restaurantId i \<or> pm_reservationId p \<noteq> r_id (wp_reservation w) \<or>
       pm_policyId p \<noteq> py_id (wp_policy w) \<or> pm_amount p \<noteq> wp_amount w \<or> pm_currency p \<noteq> wp_currency w
     then Inl (ReservationPaymentStateError PAYMENT_IDEMPOTENCY_CONFLICT)
     else Inr (Payment_view (serializePayment p)))"

definition new_payment :: "prepare_input \<Rightarrow> wanted_payment \<Rightarrow> policy_snap \<Rightarrow> id \<Rightarrow> pay_row" where
  "new_payment i w snap newId =
     \<lparr>pm_id = newId, pm_restaurantId = pr_restaurantId i, pm_reservationId = r_id (wp_reservation w),
      pm_policyId = py_id (wp_policy w), pm_status = PS_REQUIRES_PAYMENT_METHOD, pm_amount = wp_amount w,
      pm_currency = wp_currency w, pm_stripeAccountId = None, pm_stripeSetupIntentId = None,
      pm_stripePaymentIntentId = None, pm_idempotencyKey = wp_key w, pm_policySnapshot = snap,
      pm_expiresAt = Some (wp_expiresAt w), pm_failureCode = None, pm_lastProviderEventAt = None,
      pm_createdAt = pr_now i\<rparr>"

definition dry_run :: "wanted_payment \<Rightarrow> pay_preparation" where
  "dry_run w = \<lparr>pp_reservationId = r_id (wp_reservation w), pp_policyId = py_id (wp_policy w),
     pp_type = py_type (wp_policy w), pp_amount = money_text (wp_amount w), pp_currency = wp_currency w,
     pp_idempotencyKey = wp_key w, pp_expiresAt = wp_expiresAt w\<rparr>"

text \<open>\<open>race\<close>: what others commit before the look-up of the key, before the insert, before the second look-up.\<close>

definition prepareReservationPayment :: "(jval \<Rightarrow> string) \<Rightarrow> prepare_input \<Rightarrow> id \<Rightarrow> (nat \<Rightarrow> pay_db \<Rightarrow> pay_db) \<Rightarrow>
    pay_db \<Rightarrow> pay_db \<times> (pay_error + prepared)" where
  "prepareReservationPayment stringify i newId race d =
    (case wanted i d of
       Inl err \<Rightarrow> (d, Inl err)
     | Inr w \<Rightarrow>
         if pr_dryRun i \<noteq> Some False then (d, Inr (Dry_run (dry_run w)))
         else let d1 = race 0 d in
           case findPaymentByKey (wp_key w) d1 of
             Some p \<Rightarrow> (d1, replay_payment i w p)
           | None \<Rightarrow>
               (case policySnapshot stringify (wp_policy w) of
                  Inl err \<Rightarrow> (d1, Inl err)
                | Inr snap \<Rightarrow>
                    let d2 = race 1 d1; row = new_payment i w snap newId in
                    case insertPayment row d2 of
                      Inr d' \<Rightarrow> (d', Inr (Payment_view (serializePayment row)))
                    | Inl err \<Rightarrow>
                        if err \<noteq> PayDbError P2002 then (d2, Inl err)
                        else let d3 = race 2 d2 in
                          case findPaymentByKey (wp_key w) d3 of
                            None \<Rightarrow> (d3, Inl err)
                          | Some p \<Rightarrow> (d3, replay_payment i w p)))"

text \<open>Of two payments with one date the later row is taken; the database leaves that open.\<close>

definition getReservationPayment :: "id \<Rightarrow> id \<Rightarrow> pay_db \<Rightarrow> pay_view option" where
  "getReservationPayment restaurantId reservationId d =
    (case js_sort (\<lambda>p q. pm_createdAt q - pm_createdAt p)
       (filter (\<lambda>p. pm_restaurantId p = restaurantId \<and> pm_reservationId p = reservationId) (rev (pb_payments d))) of
       [] \<Rightarrow> None | p # _ \<Rightarrow> Some (serializePayment p))"

section \<open>Transitions\<close>

definition transitionReservationPayment :: "id \<Rightarrow> id \<Rightarrow> pay_status \<Rightarrow> string option \<Rightarrow> (pay_db \<Rightarrow> pay_db) \<Rightarrow> pay_db \<Rightarrow>
    pay_db \<times> (pay_error + pay_view)" where
  "transitionReservationPayment restaurantId paymentId to failureCode race d =
    (case findPayment paymentId restaurantId d of
       None \<Rightarrow> (d, Inl ReservationPaymentNotFoundError)
     | Some current \<Rightarrow>
         if \<not> canTransitionReservationPayment (pm_status current) to
         then (d, Inl (ReservationPaymentStateError PAYMENT_TRANSITION_INVALID))
         else if pm_status current = to then (d, Inr (serializePayment current))
         else let d1 = updatePayment (pm_id current) (\<lambda>p. p\<lparr>pm_status := to, pm_failureCode := failureCode\<rparr>) (race d) in
           case find (\<lambda>p. pm_id p = pm_id current) (pb_payments d1) of
             None \<Rightarrow> (d1, Inl (PayDbError P2025))
           | Some row \<Rightarrow> (d1, Inr (serializePayment row)))"

definition expire_payment :: "id \<Rightarrow> id \<Rightarrow> (pay_db \<Rightarrow> pay_db) \<Rightarrow> pay_db \<Rightarrow> pay_db \<times> (pay_error + pay_view)" where
  "expire_payment restaurantId reservationId race d =
    (case getReservationPayment restaurantId reservationId d of
       None \<Rightarrow> (d, Inl ReservationPaymentNotFoundError)
     | Some current \<Rightarrow> transitionReservationPayment restaurantId (vw_id current) PS_EXPIRED None race d)"

definition expirable :: "instant \<Rightarrow> pay_row \<Rightarrow> bool" where
  "expirable now p \<longleftrightarrow> pm_status p \<in> {PS_REQUIRES_PAYMENT_METHOD, PS_REQUIRES_ACTION} \<and>
     (case pm_expiresAt p of None \<Rightarrow> False | Some x \<Rightarrow> x \<le> now)"

definition expireReservationPayments :: "instant \<Rightarrow> pay_db \<Rightarrow> pay_db \<times> nat" where
  "expireReservationPayments now d =
    (d\<lparr>pb_payments := upd_where (expirable now) (\<lambda>p. p\<lparr>pm_status := PS_EXPIRED\<rparr>) (pb_payments d)\<rparr>,
     count_where (expirable now) (pb_payments d))"

section \<open>Events of the provider\<close>

record provider_event =
  pe_restaurantId :: id
  pe_paymentId :: id
  pe_providerEventId :: string
  pe_eventType :: string
  pe_occurredAt :: instant
  pe_payloadHash :: string
  pe_amount :: "money_input option"
  pe_currency :: "string option"
  pe_stripeSetupIntentId :: "string option"
  pe_stripePaymentIntentId :: "string option"
  pe_stripeAccountId :: "string option"
  pe_refundedAmount :: "money_input option"
  pe_failureCode :: "string option"

datatype ignored_reason = UNSUPPORTED_EVENT | STALE_EVENT

record event_result =
  er_eventId :: id
  er_paymentId :: id
  er_resultingStatus :: "pay_status option"
  er_changed :: bool
  er_duplicate :: bool
  er_stale :: bool
  er_reservationConfirmed :: bool
  er_ignoredReason :: "ignored_reason option"

definition starts_with :: "string \<Rightarrow> string \<Rightarrow> bool" where
  "starts_with s pre \<longleftrightarrow> take (length pre) s = pre"

definition provider_mismatch :: "provider_event \<Rightarrow> string \<Rightarrow> pay_row \<Rightarrow> bool" where
  "provider_mismatch e eventType p \<longleftrightarrow>
     pe_stripeAccountId e \<noteq> pm_stripeAccountId p \<or>
     ((starts_with eventType ''payment_intent.'' \<or> eventType = ''charge.refunded'') \<and>
      (\<not> truthy (pe_stripePaymentIntentId e) \<or> pe_stripePaymentIntentId e \<noteq> pm_stripePaymentIntentId p)) \<or>
     (starts_with eventType ''setup_intent.'' \<and>
      (\<not> truthy (pe_stripeSetupIntentId e) \<or> pe_stripeSetupIntentId e \<noteq> pm_stripeSetupIntentId p))"

text \<open>The status an event asks for; a refund of less than the amount is a partial one.\<close>

definition refund_status :: "provider_event \<Rightarrow> pay_row \<Rightarrow> pay_error + pay_status" where
  "refund_status e p =
    (case pe_refundedAmount e of
       None \<Rightarrow> Inl (ReservationPaymentInputError PAYMENT_EVENT_INVALID)
     | Some v \<Rightarrow>
         ebind (normalizeMoney v) (\<lambda>refunded.
           if refunded \<le> 0 \<or> pm_amount p < refunded then Inl (ReservationPaymentInputError PAYMENT_AMOUNT_MISMATCH)
           else Inr (if refunded = pm_amount p then PS_REFUNDED else PS_PARTIALLY_REFUNDED)))"

definition asked_status :: "provider_event \<Rightarrow> string \<Rightarrow> pay_row \<Rightarrow> pay_error + pay_status option" where
  "asked_status e eventType p =
    (if eventType = ''charge.refunded'' then ebind (refund_status e p) (\<lambda>st. Inr (Some st))
     else Inr (reservationPaymentStatusForProviderEvent eventType))"

definition same_currency :: "provider_event \<Rightarrow> pay_row \<Rightarrow> pay_error + unit" where
  "same_currency e p =
    (if \<not> truthy (pe_currency e) then Inr ()
     else ebind (pay_normalizeCurrency (pe_currency e)) (\<lambda>c.
       guard (c = pm_currency p) (ReservationPaymentInputError PAYMENT_CURRENCY_MISMATCH)))"

definition same_amount :: "provider_event \<Rightarrow> pay_row \<Rightarrow> pay_error + unit" where
  "same_amount e p =
    (case pe_amount e of
       None \<Rightarrow> Inr ()
     | Some v \<Rightarrow> ebind (normalizeMoney v) (\<lambda>a.
         guard (a = pm_amount p) (ReservationPaymentInputError PAYMENT_AMOUNT_MISMATCH)))"

definition event_verdict :: "provider_event \<Rightarrow> string \<Rightarrow> pay_row \<Rightarrow> pay_error + pay_status option" where
  "event_verdict e eventType p =
    (if provider_mismatch e eventType p then Inl (ReservationPaymentInputError PAYMENT_PROVIDER_MISMATCH)
     else ebind (asked_status e eventType p) (\<lambda>st.
       if st = None then Inr None
       else ebind (same_currency e p) (\<lambda>_. ebind (same_amount e p) (\<lambda>_. Inr st))))"

definition payment_confirmation :: "id \<Rightarrow> pay_row \<Rightarrow> lifecycle_args" where
  "payment_confirmation restaurantId p =
     \<lparr>la_reservationId = pm_reservationId p, la_restaurantId = restaurantId, la_toState = CONFIRMED,
      la_actor = ''payment:provider-webhook'', la_changedFields = [], la_auditEvent = Some ''reservation_confirmed'',
      la_additionalData = None, la_allowAlreadyInTarget = False, la_onlyIfFromState = Some PENDING,
      la_auditConsumedHoldRelease = False\<rparr>"

text \<open>The identifiers and clocks of one call, and what others commit between its reads and its writes.\<close>

record event_env =
  ee_eventId :: id
  ee_outboxIds :: "id \<times> id"
  ee_now :: instant
  ee_dbNow :: instant
  ee_race :: "pay_db \<Rightarrow> pay_db"

definition event_row :: "event_env \<Rightarrow> provider_event \<Rightarrow> string \<Rightarrow> string \<Rightarrow> string \<Rightarrow> pay_row \<Rightarrow> pay_status option \<Rightarrow> pay_event" where
  "event_row v e providerEventId eventType payloadHash p st =
     \<lparr>pv_id = ee_eventId v, pv_restaurantId = pe_restaurantId e, pv_paymentId = pm_id p,
      pv_providerEventId = providerEventId, pv_eventType = eventType, pv_resultingStatus = st,
      pv_payloadHash = payloadHash, pv_occurredAt = pe_occurredAt e\<rparr>"

definition moved_payment :: "provider_event \<Rightarrow> pay_status \<Rightarrow> pay_row \<Rightarrow> pay_row" where
  "moved_payment e st p =
     p\<lparr>pm_status := st, pm_lastProviderEventAt := Some (pe_occurredAt e),
       pm_failureCode := (if truthy (pe_failureCode e) then Some (take 120 (the (pe_failureCode e))) else pm_failureCode p)\<rparr>"

definition stale_event :: "provider_event \<Rightarrow> pay_row \<Rightarrow> bool" where
  "stale_event e p \<longleftrightarrow> (case pm_lastProviderEventAt p of None \<Rightarrow> False | Some t \<Rightarrow> pe_occurredAt e < t)"

text \<open>The writes, after the checks: the payment, the event, the reservation.\<close>

definition apply_status :: "runtime \<Rightarrow> event_env \<Rightarrow> provider_event \<Rightarrow> pay_event \<Rightarrow> pay_row \<Rightarrow> pay_status \<Rightarrow> pay_db \<Rightarrow>
    pay_error + pay_db \<times> event_result \<times> lifecycle_result option" where
  "apply_status rt v e row p st d =
     ebind (insertPayEvent row (updatePayment (pm_id p) (moved_payment e st) d)) (\<lambda>d2.
       let result = \<lparr>er_eventId = pv_id row, er_paymentId = pm_id p, er_resultingStatus = Some st,
             er_changed = (pm_status p \<noteq> st), er_duplicate = False, er_stale = False,
             er_reservationConfirmed = False, er_ignoredReason = None\<rparr>
       in if st = PS_AUTHORIZED \<or> st = PS_CAPTURED then
            (case transitionInTransaction rt (payment_confirmation (pe_restaurantId e) p) (ee_outboxIds v) (ee_now v)
               (ee_dbNow v) (pb_core d2) of
               Inl err \<Rightarrow> Inl (PayLifecycleError err)
             | Inr (core, res) \<Rightarrow>
                 Inr (d2\<lparr>pb_core := core\<rparr>, result\<lparr>er_reservationConfirmed := lr_mutated res\<rparr>, Some res))
          else Inr (d2, result, None))"

definition apply_tx :: "runtime \<Rightarrow> event_env \<Rightarrow> provider_event \<Rightarrow> string \<Rightarrow> string \<Rightarrow> string \<Rightarrow> pay_row \<Rightarrow> pay_status option \<Rightarrow>
    pay_db \<Rightarrow> pay_error + pay_db \<times> event_result \<times> lifecycle_result option" where
  "apply_tx rt v e providerEventId eventType payloadHash p asked d =
    (case asked of
       Some st \<Rightarrow>
         if stale_event e p then
           ebind (insertPayEvent (event_row v e providerEventId eventType payloadHash p (Some (pm_status p))) d) (\<lambda>d'.
             Inr (d', \<lparr>er_eventId = ee_eventId v, er_paymentId = pm_id p, er_resultingStatus = Some (pm_status p),
               er_changed = False, er_duplicate = False, er_stale = True, er_reservationConfirmed = False,
               er_ignoredReason = Some STALE_EVENT\<rparr>, None))
         else if \<not> canTransitionReservationPayment (pm_status p) st
         then Inl (ReservationPaymentStateError PAYMENT_TRANSITION_INVALID)
         else apply_status rt v e (event_row v e providerEventId eventType payloadHash p (Some st)) p st d
     | None \<Rightarrow>
         ebind (insertPayEvent (event_row v e providerEventId eventType payloadHash p None) d) (\<lambda>d'.
           Inr (d', \<lparr>er_eventId = ee_eventId v, er_paymentId = pm_id p, er_resultingStatus = None,
             er_changed = False, er_duplicate = False, er_stale = False, er_reservationConfirmed = False,
             er_ignoredReason = Some UNSUPPORTED_EVENT\<rparr>, None)))"

definition duplicate_event :: "pay_event \<Rightarrow> event_result" where
  "duplicate_event w =
     \<lparr>er_eventId = pv_id w, er_paymentId = pv_paymentId w, er_resultingStatus = pv_resultingStatus w,
      er_changed = False, er_duplicate = True, er_stale = False, er_reservationConfirmed = False, er_ignoredReason = None\<rparr>"

definition checked_event :: "provider_event \<Rightarrow> pay_error + string \<times> string \<times> string" where
  "checked_event e =
     ebind (normalizeProviderId (pe_providerEventId e)) (\<lambda>i. ebind (normalizeProviderId (pe_eventType e)) (\<lambda>t.
       ebind (normalizePayloadHash (pe_payloadHash e)) (\<lambda>h. Inr (i, t, h))))"

text \<open>
  One transaction, which locks the row of the payment first: what others commit meanwhile leaves that row alone, and
  comes before the writes of this call.
\<close>

definition applyReservationPaymentProviderEvent :: "runtime \<Rightarrow> event_env \<Rightarrow> provider_event \<Rightarrow> pay_db \<Rightarrow>
    pay_db \<times> (pay_error + event_result)" where
  "applyReservationPaymentProviderEvent rt v e d =
    (case checked_event e of
       Inl err \<Rightarrow> (d, Inl err)
     | Inr (providerEventId, eventType, payloadHash) \<Rightarrow>
         (case findPayEvent providerEventId d of
            Some w \<Rightarrow> (d, Inr (duplicate_event w))
          | None \<Rightarrow>
              (case findPayment (pe_paymentId e) (pe_restaurantId e) d of
                 None \<Rightarrow> (d, Inl ReservationPaymentNotFoundError)
               | Some p \<Rightarrow>
                   (case event_verdict e eventType p of
                      Inl err \<Rightarrow> (d, Inl err)
                    | Inr asked \<Rightarrow>
                        (case in_tx (apply_tx rt v e providerEventId eventType payloadHash p asked) (ee_race v d) of
                           (d', Inl err) \<Rightarrow> (d', Inl err)
                         | (d', Inr (result, None)) \<Rightarrow> (d', Inr result)
                         | (d', Inr (result, Some res)) \<Rightarrow>
                             (d'\<lparr>pb_core := finalizeTransition (payment_confirmation (pe_restaurantId e) p) res (pb_core d')\<rparr>,
                              Inr result))))))"

section \<open>The report of Stripe\<close>

record stripe_report =
  sr_id :: string
  sr_type :: string
  sr_created :: int
  sr_account :: "string option"
  sr_object :: jval

definition stringValue :: "jval option \<Rightarrow> string option" where
  "stringValue v = (case text_of v of Some s \<Rightarrow> if js_trim s = [] then None else Some (js_trim s) | None \<Rightarrow> None)"

fun numberValue :: "jval option \<Rightarrow> rat option" where
  "numberValue (Some (VNum x)) = Some x"
| "numberValue v = None"

text \<open>\<open>z.string().trim().min(1).max(128)\<close>.\<close>

definition short_text :: "jval option \<Rightarrow> string option" where
  "short_text v =
    (case text_of v of
       None \<Rightarrow> None
     | Some s \<Rightarrow> if js_trim s = [] \<or> 128 < length (js_trim s) then None else Some (js_trim s))"

definition webhook_metadata :: "jval \<Rightarrow> (string \<times> string) option" where
  "webhook_metadata obj =
    (case jmember obj ''metadata'' of
       None \<Rightarrow> None
     | Some m \<Rightarrow>
         (case (short_text (jmember m ''restaurantId''), short_text (jmember m ''reservationPaymentId'')) of
            (Some r, Some p) \<Rightarrow> Some (r, p)
          | _ \<Rightarrow> None))"

definition report_intent :: "stripe_report \<Rightarrow> string option" where
  "report_intent v =
    (if sr_type v = ''charge.refunded''
     then orElse_opt (stringValue (jmember (sr_object v) ''payment_intent''))
       (case jmember (sr_object v) ''payment_intent'' of None \<Rightarrow> None | Some x \<Rightarrow> stringValue (jmember x ''id''))
     else stringValue (jmember (sr_object v) ''id''))"

definition report_amount :: "stripe_report \<Rightarrow> rat option" where
  "report_amount v =
    (if sr_type v = ''payment_intent.succeeded''
     then orElse_opt (numberValue (jmember (sr_object v) ''amount_received'')) (numberValue (jmember (sr_object v) ''amount''))
     else numberValue (jmember (sr_object v) ''amount''))"

definition event_of_report :: "stripe_report \<Rightarrow> string \<times> string \<Rightarrow> string \<Rightarrow> provider_event" where
  "event_of_report v metadata hash =
     \<lparr>pe_restaurantId = fst metadata, pe_paymentId = snd metadata, pe_providerEventId = sr_id v, pe_eventType = sr_type v,
      pe_occurredAt = sr_created v * 1000, pe_payloadHash = hash,
      pe_amount = map_option (\<lambda>x. Money_number (x / 100)) (report_amount v),
      pe_currency = map_option (map upper_char) (stringValue (jmember (sr_object v) ''currency'')),
      pe_stripeSetupIntentId =
        (if starts_with (sr_type v) ''setup_intent.'' then stringValue (jmember (sr_object v) ''id'') else None),
      pe_stripePaymentIntentId =
        (if starts_with (sr_type v) ''payment_intent.'' \<or> sr_type v = ''charge.refunded'' then report_intent v else None),
      pe_stripeAccountId = sr_account v,
      pe_refundedAmount = map_option (\<lambda>x. Money_number (x / 100)) (numberValue (jmember (sr_object v) ''amount_refunded'')),
      pe_failureCode =
        (if sr_type v = ''payment_intent.payment_failed''
         then Some (orElse (stringValue (jmember (sr_object v) ''last_payment_error'')) ''PAYMENT_FAILED'') else None)\<rparr>"

datatype webhook_refusal = RESERVATION_PAYMENTS_DISABLED | RATE_LIMITED | MISSING_STRIPE_SIGNATURE | RAW_BODY_REQUIRED |
  INVALID_STRIPE_SIGNATURE | PAYMENT_METADATA_REQUIRED | PAYMENT_TENANT_MISMATCH

datatype webhook_answer = Refused_report nat webhook_refusal | Failed_report nat pay_error | Received event_result

text \<open>An error that \<open>sendPaymentError\<close> does not know is thrown on, which the server answers with 500.\<close>

definition pay_error_status :: "pay_error \<Rightarrow> nat" where
  "pay_error_status err =
    (case err of
       ReservationPaymentInputError _ \<Rightarrow> 400
     | ReservationPaymentStateError _ \<Rightarrow> 409
     | PayDbError _ \<Rightarrow> 500
     | PayLifecycleError _ \<Rightarrow> 500
     | _ \<Rightarrow> 404)"

record webhook_request =
  wr_enabled :: bool
  wr_rateAllowed :: bool
  wr_signature :: "string option"
  wr_rawBody :: "string option"
  wr_restaurantHeader :: "string option"

definition stripe_webhook :: "runtime \<Rightarrow> (string \<Rightarrow> string \<Rightarrow> stripe_report option) \<Rightarrow> event_env \<Rightarrow> webhook_request \<Rightarrow> pay_db \<Rightarrow>
    pay_db \<times> webhook_answer" where
  "stripe_webhook rt constructWebhookEvent v q d =
    (if \<not> wr_enabled q then (d, Refused_report 503 RESERVATION_PAYMENTS_DISABLED)
     else if \<not> wr_rateAllowed q then (d, Refused_report 429 RATE_LIMITED)
     else if \<not> truthy (wr_signature q) then (d, Refused_report 400 MISSING_STRIPE_SIGNATURE)
     else case wr_rawBody q of
       None \<Rightarrow> (d, Refused_report 400 RAW_BODY_REQUIRED)
     | Some raw \<Rightarrow>
         (case constructWebhookEvent raw (the (wr_signature q)) of
            None \<Rightarrow> (d, Refused_report 400 INVALID_STRIPE_SIGNATURE)
          | Some report \<Rightarrow>
              (case webhook_metadata (sr_object report) of
                 None \<Rightarrow> (d, Refused_report 400 PAYMENT_METADATA_REQUIRED)
               | Some metadata \<Rightarrow>
                   if wr_restaurantHeader q \<noteq> Some (fst metadata) \<and> truthy (wr_restaurantHeader q)
                   then (d, Refused_report 403 PAYMENT_TENANT_MISMATCH)
                   else (case applyReservationPaymentProviderEvent rt v
                           (event_of_report report metadata (sha256 rt raw)) d of
                      (d', Inl err) \<Rightarrow> (d', Failed_report (pay_error_status err) err)
                    | (d', Inr result) \<Rightarrow> (d', Received result)))))"

end
