(* ===== verification/Payment_Safety.thy ===== *)
theory Payment_Safety
  imports Reservation_Payments
begin

text \<open>
  What holds of the payments of reservations over any run: each service keeps the constraints of its tables and moves a
  payment only along the table of statuses, whatever others that do the same commit in between. An event of the
  provider counts once; and runs that show what is lost.
\<close>

section \<open>Constraints\<close>

interpretation policy_table: constrained_table py_id policy_conflict
  by unfold_locales (auto simp: policy_conflict_def)

interpretation payment_table: constrained_table pm_id payment_conflict
  by unfold_locales (use same_some_sym in \<open>auto simp: payment_conflict_def\<close>)

interpretation pay_event_table: constrained_table pv_id pay_event_conflict
  by unfold_locales (auto simp: pay_event_conflict_def)

definition pay_ok :: "pay_db \<Rightarrow> bool" where
  "pay_ok d \<longleftrightarrow> table_ok py_id policy_conflict (pb_policies d) \<and> table_ok pm_id payment_conflict (pb_payments d) \<and>
     table_ok pv_id pay_event_conflict (pb_events d) \<and> list_all policy_checks (pb_policies d) \<and>
     list_all payment_checks (pb_payments d)"

lemma insert_intoD:
  assumes "insert_into checks key clash r rows = Inr rows'"
  shows "rows' = rows @ [r]" "checks r" "\<And>x. x \<in> set rows \<Longrightarrow> key r \<noteq> key x \<and> \<not> clash r x"
  using assms by (auto simp: insert_into_def list_ex_iff split: if_splits)

lemma insertPolicyD:
  assumes "insertPolicy p d = Inr d'"
  shows "d' = d\<lparr>pb_policies := pb_policies d @ [p]\<rparr>" "pay_ok d \<Longrightarrow> pay_ok d'"
proof -
  obtain rows where rows: "insert_into policy_checks py_id policy_conflict p (pb_policies d) = Inr rows" "d' = d\<lparr>pb_policies := rows\<rparr>"
    using assms by (auto simp: insertPolicy_def elim!: ebind_InrE)
  note ins = insert_intoD [OF rows(1)]
  then show "d' = d\<lparr>pb_policies := pb_policies d @ [p]\<rparr>" using rows(2) by simp
  show "pay_ok d'" if "pay_ok d"
    using that rows(2) ins policy_table.insert_ok [of "pb_policies d" p] by (simp add: pay_ok_def)
qed

lemma insertPaymentD:
  assumes "insertPayment p d = Inr d'"
  shows "d' = d\<lparr>pb_payments := pb_payments d @ [p]\<rparr>" "pay_ok d \<Longrightarrow> pay_ok d'" "pm_id p \<notin> pm_id ` set (pb_payments d)"
proof -
  obtain rows where rows: "insert_into payment_checks pm_id payment_conflict p (pb_payments d) = Inr rows" "d' = d\<lparr>pb_payments := rows\<rparr>"
    using assms by (auto simp: insertPayment_def elim!: ebind_InrE)
  note ins = insert_intoD [OF rows(1)]
  then show "d' = d\<lparr>pb_payments := pb_payments d @ [p]\<rparr>" using rows(2) by simp
  show "pay_ok d'" if "pay_ok d"
    using that rows(2) ins payment_table.insert_ok [of "pb_payments d" p] by (simp add: pay_ok_def)
  show "pm_id p \<notin> pm_id ` set (pb_payments d)" using ins(3) by force
qed

lemma insertPayEventD:
  assumes "insertPayEvent v d = Inr d'"
  shows "d' = d\<lparr>pb_events := pb_events d @ [v]\<rparr>" "pay_ok d \<Longrightarrow> pay_ok d'" "findPayEvent (pv_providerEventId v) d = None"
proof -
  obtain rows where rows: "insert_into (\<lambda>_. True) pv_id pay_event_conflict v (pb_events d) = Inr rows" "d' = d\<lparr>pb_events := rows\<rparr>"
    using assms by (auto simp: insertPayEvent_def elim!: ebind_InrE)
  note ins = insert_intoD [OF rows(1)]
  then show "d' = d\<lparr>pb_events := pb_events d @ [v]\<rparr>" using rows(2) by simp
  show "pay_ok d'" if "pay_ok d"
    using that rows(2) ins pay_event_table.insert_ok [of "pb_events d" v] by (simp add: pay_ok_def)
  show "findPayEvent (pv_providerEventId v) d = None"
    unfolding findPayEvent_def find_None_iff using ins(3) by (metis pay_event_conflict_def)
qed

section \<open>What is kept\<close>

definition pay_edge :: "pay_status \<Rightarrow> pay_status \<Rightarrow> bool" where
  "pay_edge s t \<longleftrightarrow> t \<in> set (PAYMENT_STATUS_TRANSITIONS s)"

definition payment_of :: "pay_db \<Rightarrow> id \<Rightarrow> pay_row option" where
  "payment_of d k = find (\<lambda>p. pm_id p = k) (pb_payments d)"

definition pay_status_of :: "pay_db \<Rightarrow> id \<Rightarrow> pay_status option" where
  "pay_status_of d k = map_option pm_status (payment_of d k)"

text \<open>What a payment is for never changes; its status follows the table, and the date of its last event does not go back.\<close>

definition same_purpose :: "pay_row \<Rightarrow> pay_row \<Rightarrow> bool" where
  "same_purpose p p' \<longleftrightarrow> pm_id p' = pm_id p \<and> pm_restaurantId p' = pm_restaurantId p \<and>
     pm_reservationId p' = pm_reservationId p \<and> pm_policyId p' = pm_policyId p \<and> pm_amount p' = pm_amount p \<and>
     pm_currency p' = pm_currency p \<and> pm_idempotencyKey p' = pm_idempotencyKey p \<and>
     pm_stripeAccountId p' = pm_stripeAccountId p \<and> pm_stripeSetupIntentId p' = pm_stripeSetupIntentId p \<and>
     pm_stripePaymentIntentId p' = pm_stripePaymentIntentId p \<and> pm_policySnapshot p' = pm_policySnapshot p"

definition not_before :: "instant option \<Rightarrow> instant option \<Rightarrow> bool" where
  "not_before a b \<longleftrightarrow> (case a of None \<Rightarrow> True | Some t \<Rightarrow> (case b of None \<Rightarrow> False | Some u \<Rightarrow> t \<le> u))"

definition advances :: "pay_row \<Rightarrow> pay_row \<Rightarrow> bool" where
  "advances p p' \<longleftrightarrow> same_purpose p p' \<and> pay_edge\<^sup>*\<^sup>* (pm_status p) (pm_status p') \<and>
     not_before (pm_lastProviderEventAt p) (pm_lastProviderEventAt p')"

lemma advances_refl [simp]: "advances p p"
  by (auto simp: advances_def same_purpose_def not_before_def split: option.split)

lemma advances_trans: "advances p q \<Longrightarrow> advances q r \<Longrightarrow> advances p r"
  by (auto simp: advances_def same_purpose_def not_before_def split: option.splits intro: rtranclp_trans)

definition pay_kept :: "pay_db \<Rightarrow> pay_db \<Rightarrow> bool" where
  "pay_kept d d' \<longleftrightarrow> (\<forall>k p. payment_of d k = Some p \<longrightarrow> (\<exists>p'. payment_of d' k = Some p' \<and> advances p p')) \<and>
     (\<forall>i w. findPayEvent i d = Some w \<longrightarrow> findPayEvent i d' = Some w)"

definition pay_commit :: "pay_db \<Rightarrow> pay_db \<Rightarrow> bool" where
  "pay_commit d d' \<longleftrightarrow> (pay_ok d \<longrightarrow> pay_ok d' \<and> pay_kept d d')"

definition fair_race :: "(pay_db \<Rightarrow> pay_db) \<Rightarrow> bool" where
  "fair_race race \<longleftrightarrow> (\<forall>d. pay_commit d (race d))"

lemma pay_keptD:
  "pay_kept d d' \<Longrightarrow> payment_of d k = Some p \<Longrightarrow> \<exists>p'. payment_of d' k = Some p' \<and> advances p p'"
  "pay_kept d d' \<Longrightarrow> findPayEvent i d = Some w \<Longrightarrow> findPayEvent i d' = Some w"
  by (simp_all add: pay_kept_def)

lemma pay_kept_refl [simp]: "pay_kept d d"
  by (auto simp: pay_kept_def)

lemma pay_commit_refl [simp]: "pay_commit d d"
  by (simp add: pay_commit_def)

lemma pay_kept_trans: "pay_kept d d1 \<Longrightarrow> pay_kept d1 d2 \<Longrightarrow> pay_kept d d2"
  unfolding pay_kept_def by (meson advances_trans)

lemma pay_commit_trans: "pay_commit d d1 \<Longrightarrow> pay_commit d1 d2 \<Longrightarrow> pay_commit d d2"
  unfolding pay_commit_def using pay_kept_trans by blast

lemma fair_raceD: "fair_race race \<Longrightarrow> pay_commit d (race d)"
  by (simp add: fair_race_def)

lemma core_commit [simp]: "pay_commit d (d\<lparr>pb_core := c\<rparr>)"
  by (auto simp: pay_commit_def pay_ok_def pay_kept_def payment_of_def findPayEvent_def)

lemma policy_commit: "insertPolicy p d = Inr d' \<Longrightarrow> pay_commit d d'"
  by (auto simp: pay_commit_def pay_kept_def payment_of_def findPayEvent_def dest: insertPolicyD)

lemma payment_commit: "insertPayment p d = Inr d' \<Longrightarrow> pay_commit d d'"
  using insertPaymentD [of p d d']
  by (auto simp: pay_commit_def pay_kept_def payment_of_def findPayEvent_def find_append split: option.split)

lemma event_commit: "insertPayEvent v d = Inr d' \<Longrightarrow> pay_commit d d'"
  using insertPayEventD [of v d d']
  by (auto simp: pay_commit_def pay_kept_def payment_of_def findPayEvent_def find_append split: option.split)

text \<open>Rows that are rewritten so that each advances.\<close>

lemma rewrite_commit:
  assumes "\<And>p. p \<in> set (pb_payments d) \<Longrightarrow> q p \<Longrightarrow> advances p (f p)"
  shows "pay_commit d (d\<lparr>pb_payments := upd_where q f (pb_payments d)\<rparr>)"
proof -
  define g where "g p = (if q p then f p else p)" for p
  have adv: "advances p (g p)" if "p \<in> set (pb_payments d)" for p using assms that by (simp add: g_def)
  then have same: "same_purpose p (g p)" if "p \<in> set (pb_payments d)" for p using that by (simp add: advances_def)
  have rows: "upd_where q f (pb_payments d) = map g (pb_payments d)" by (simp add: upd_where_def g_def)
  have key: "pm_id (g p) = pm_id p" if "p \<in> set (pb_payments d)" for p using same [OF that] by (simp add: same_purpose_def)
  have "table_ok pm_id payment_conflict (map g (pb_payments d))" if "table_ok pm_id payment_conflict (pb_payments d)"
  proof -
    have "map pm_id (map g (pb_payments d)) = map pm_id (pb_payments d)" using key by simp
    then have dist: "distinct (map pm_id (map g (pb_payments d)))" using that unfolding table_ok_def by metis
    have "\<not> payment_conflict (g x) (g y)" if "x \<in> set (pb_payments d)" "y \<in> set (pb_payments d)" "pm_id (g x) \<noteq> pm_id (g y)" for x y
      using \<open>table_ok pm_id payment_conflict (pb_payments d)\<close> that same [OF that(1)] same [OF that(2)]
      by (auto simp: table_ok_def same_purpose_def payment_conflict_def)
    then show ?thesis using dist by (auto simp: table_ok_def)
  qed
  moreover have "list_all payment_checks (map g (pb_payments d))" if "list_all payment_checks (pb_payments d)"
    using that same by (auto simp: list_all_iff payment_checks_def same_purpose_def)
  moreover have "find (\<lambda>p. pm_id p = k) (map g rows) = map_option g (find (\<lambda>p. pm_id p = k) rows)"
    if "set rows \<subseteq> set (pb_payments d)" for rows k
    using that key by (induction rows) auto
  then have "payment_of (d\<lparr>pb_payments := map g (pb_payments d)\<rparr>) k = map_option g (payment_of d k)" for k
    by (simp add: payment_of_def)
  moreover have "p \<in> set (pb_payments d)" if "payment_of d k = Some p" for k p
    using that by (auto simp: payment_of_def dest: find_Some_D)
  ultimately show ?thesis
    using adv by (auto simp: rows pay_commit_def pay_ok_def pay_kept_def findPayEvent_def)
qed

section \<open>Each operation keeps it\<close>

lemma commit_when_ok: "(pay_ok d \<Longrightarrow> pay_commit d d') \<Longrightarrow> pay_commit d d'"
  by (simp add: pay_commit_def)

lemma allowed_edges: "canTransitionReservationPayment s t \<Longrightarrow> pay_edge\<^sup>*\<^sup>* s t"
  by (auto simp: canTransitionReservationPayment_def pay_edge_def)

lemma findPayment_row:
  assumes "findPayment k r d = Some p"
  shows "p \<in> set (pb_payments d)" "pm_id p = k" "pm_restaurantId p = r"
  using find_Some_D [OF assms [unfolded findPayment_def]] by auto

lemma findPayment_of:
  assumes "findPayment k r d = Some p" "pay_ok d"
  shows "payment_of d k = Some p"
  using findPayment_row [OF assms(1)] assms(2) table_ok_find [of pm_id payment_conflict "pb_payments d" p]
  by (auto simp: pay_ok_def payment_of_def)

lemma payment_of_row: "payment_of d k = Some p \<Longrightarrow> p \<in> set (pb_payments d) \<and> pm_id p = k"
  unfolding payment_of_def by (drule find_Some_D) auto

lemma payment_of_unique:
  "pay_ok d \<Longrightarrow> payment_of d k = Some p \<Longrightarrow> q \<in> set (pb_payments d) \<Longrightarrow> pm_id q = k \<Longrightarrow> q = p"
  using table_ok_find [of pm_id payment_conflict "pb_payments d" q] by (auto simp: pay_ok_def payment_of_def)

lemma update_commit:
  assumes "payment_of d k = Some p" "advances p (f p)"
  shows "pay_commit d (updatePayment k f d)"
  unfolding updatePayment_def
  by (rule commit_when_ok, rule rewrite_commit) (use assms payment_of_unique in blast)

lemma createPolicy_commit:
  assumes "createReservationPaymentPolicy st i newId now race d = (d', r)" "fair_race race"
  shows "pay_commit d d'"
  using assms fair_raceD [OF assms(2), of d]
  by (auto simp: createReservationPaymentPolicy_def Let_def split: sum.splits if_splits
      intro: pay_commit_trans dest!: policy_commit)

lemma prepare_commit:
  assumes run: "prepareReservationPayment st i newId race d = (d', r)" and fair: "\<And>k. fair_race (race k)"
  shows "pay_commit d d'"
proof -
  have c: "pay_commit d (race 0 d)" "pay_commit d (race 1 (race 0 d))" "pay_commit d (race 2 (race 1 (race 0 d)))"
    using fair_raceD [OF fair] pay_commit_trans by blast+
  show ?thesis
    using run c
    by (auto simp: prepareReservationPayment_def Let_def split: sum.splits if_splits option.splits
        intro: pay_commit_trans dest!: payment_commit)
qed

text \<open>A transition between whose read and write nobody moves the payment.\<close>

definition leaves_status :: "id \<Rightarrow> (pay_db \<Rightarrow> pay_db) \<Rightarrow> pay_db \<Rightarrow> bool" where
  "leaves_status k race d \<longleftrightarrow> pay_status_of (race d) k = pay_status_of d k"

lemma transition_commit:
  assumes run: "transitionReservationPayment rid k to fc race d = (d', r)" and fair: "fair_race race"
    and calm: "leaves_status k race d"
  shows "pay_commit d d'"
proof (rule commit_when_ok)
  assume ok: "pay_ok d"
  show "pay_commit d d'"
  proof (cases "d' = d")
    case False
    then obtain p where p: "findPayment k rid d = Some p" "canTransitionReservationPayment (pm_status p) to"
      and d': "d' = updatePayment (pm_id p) (\<lambda>p. p\<lparr>pm_status := to, pm_failureCode := fc\<rparr>) (race d)"
      using run by (auto simp: transitionReservationPayment_def Let_def split: option.splits if_splits)
    have k: "pm_id p = k" "payment_of d k = Some p" using findPayment_row [OF p(1)] findPayment_of [OF p(1) ok] by simp_all
    then obtain p1 where p1: "payment_of (race d) k = Some p1" "pm_status p1 = pm_status p"
      using calm by (auto simp: leaves_status_def pay_status_of_def)
    have "pay_commit (race d) d'"
      unfolding d' k(1) by (rule update_commit [OF p1(1)])
        (use allowed_edges [OF p(2)] p1(2) in \<open>auto simp: advances_def same_purpose_def not_before_def split: option.split\<close>)
    then show ?thesis using fair_raceD [OF fair] pay_commit_trans by blast
  qed simp
qed

lemma expirable_advances: "expirable now p \<Longrightarrow> advances p (p\<lparr>pm_status := PS_EXPIRED\<rparr>)"
proof -
  assume "expirable now p"
  then have "pay_edge (pm_status p) PS_EXPIRED" by (auto simp: expirable_def pay_edge_def)
  then show ?thesis by (auto simp: advances_def same_purpose_def not_before_def split: option.split)
qed

lemma expireAll_commit: "expireReservationPayments now d = (d', n) \<Longrightarrow> pay_commit d d'"
  unfolding expireReservationPayments_def by (auto intro!: rewrite_commit expirable_advances)

lemma apply_status_commit:
  assumes run: "apply_status rt v e row p st d = Inr (d', out)" and p: "payment_of d (pm_id p) = Some p"
    and edge: "canTransitionReservationPayment (pm_status p) st" and fresh: "\<not> stale_event e p"
  shows "pay_commit d d'"
proof -
  have adv: "advances p (moved_payment e st p)"
    using allowed_edges [OF edge] fresh
    by (auto simp: advances_def same_purpose_def moved_payment_def not_before_def stale_event_def split: option.splits)
  obtain d2 where d2: "insertPayEvent row (updatePayment (pm_id p) (moved_payment e st) d) = Inr d2"
    and d': "\<exists>core. d' = d2\<lparr>pb_core := core\<rparr>"
  proof -
    obtain d2 where d2: "insertPayEvent row (updatePayment (pm_id p) (moved_payment e st) d) = Inr d2"
      using run unfolding apply_status_def by (elim ebind_InrE) blast
    have "d' = d2 \<or> (\<exists>core. d' = d2\<lparr>pb_core := core\<rparr>)"
      using run d2 by (auto simp: apply_status_def Let_def split: if_splits sum.splits)
    moreover have "d2 = d2\<lparr>pb_core := pb_core d2\<rparr>" by simp
    ultimately show thesis using that [OF d2] by metis
  qed
  have "pay_commit d d2"
    using pay_commit_trans [OF update_commit [where f = "moved_payment e st", OF p adv] event_commit [OF d2]] .
  then show ?thesis using d' core_commit pay_commit_trans by blast
qed

lemma apply_tx_commit:
  assumes run: "apply_tx rt v e i t h p asked d = Inr (d', out)" and p: "payment_of d (pm_id p) = Some p"
  shows "pay_commit d d'"
  using run p
  by (auto simp: apply_tx_def split: option.splits if_splits elim!: ebind_InrE
      dest: event_commit intro: apply_status_commit)

text \<open>The row of the payment is locked while the event is applied.\<close>

definition keeps_locked :: "provider_event \<Rightarrow> (pay_db \<Rightarrow> pay_db) \<Rightarrow> pay_db \<Rightarrow> bool" where
  "keeps_locked e race d \<longleftrightarrow> payment_of (race d) (pe_paymentId e) = payment_of d (pe_paymentId e)"

lemma event_applyE:
  assumes run: "applyReservationPaymentProviderEvent rt v e d = (d', out)"
  obtains (Unchanged) "d' = d"
    "(\<exists>err. out = Inl err) \<or> (\<exists>i t h w. checked_event e = Inr (i, t, h) \<and> findPayEvent i d = Some w \<and> out = Inr (duplicate_event w))"
  | (Aborted) err where "d' = ee_race v d" "out = Inl err"
  | (Applied) i t h p asked d1 res lc core where "checked_event e = Inr (i, t, h)" "findPayEvent i d = None"
      "findPayment (pe_paymentId e) (pe_restaurantId e) d = Some p" "event_verdict e t p = Inr asked"
      "apply_tx rt v e i t h p asked (ee_race v d) = Inr (d1, res, lc)" "d' = d1\<lparr>pb_core := core\<rparr>" "out = Inr res"
      "core = (case lc of None \<Rightarrow> pb_core d1
         | Some r \<Rightarrow> finalizeTransition (payment_confirmation (pe_restaurantId e) p) r (pb_core d1))"
  using run that
  by (auto simp: applyReservationPaymentProviderEvent_def in_tx_def split: sum.splits prod.splits option.splits)

lemma event_apply_commit:
  assumes run: "applyReservationPaymentProviderEvent rt v e d = (d', out)" and fair: "fair_race (ee_race v)"
    and locked: "keeps_locked e (ee_race v) d"
  shows "pay_commit d d'"
proof (rule commit_when_ok)
  assume ok: "pay_ok d"
  show "pay_commit d d'" using run
  proof (cases rule: event_applyE)
    case (Applied i t h p asked d1 res lc core)
    have "payment_of d (pe_paymentId e) = Some p" "pm_id p = pe_paymentId e"
      using findPayment_of [OF Applied(3) ok] findPayment_row [OF Applied(3)] by simp_all
    then have "payment_of (ee_race v d) (pm_id p) = Some p" using locked by (simp add: keeps_locked_def)
    from apply_tx_commit [OF Applied(5) this] show ?thesis
      using Applied(6) fair_raceD [OF fair] core_commit pay_commit_trans by blast
  qed (use fair_raceD [OF fair] in auto)
qed

section \<open>Runs\<close>

inductive pay_step :: "pay_db \<Rightarrow> pay_db \<Rightarrow> bool" where
  ps_policy: "createReservationPaymentPolicy st i newId now race d = (d', r) \<Longrightarrow> fair_race race \<Longrightarrow> pay_step d d'"
| ps_prepare: "prepareReservationPayment st q newId races d = (d', r') \<Longrightarrow> (\<And>k. fair_race (races k)) \<Longrightarrow> pay_step d d'"
| ps_transition: "transitionReservationPayment rid k to fc race d = (d', r'') \<Longrightarrow> fair_race race \<Longrightarrow>
    leaves_status k race d \<Longrightarrow> pay_step d d'"
| ps_expire: "expireReservationPayments now d = (d', n) \<Longrightarrow> pay_step d d'"
| ps_event: "applyReservationPaymentProviderEvent rt v e d = (d', out) \<Longrightarrow> fair_race (ee_race v) \<Longrightarrow>
    keeps_locked e (ee_race v) d \<Longrightarrow> pay_step d d'"
| ps_core: "pay_step d (d\<lparr>pb_core := c\<rparr>)"

inductive_cases pay_stepE: "pay_step d d'"

lemma pay_step_commit: "pay_step d d' \<Longrightarrow> pay_commit d d'"
  by (induction rule: pay_step.induct)
    (auto intro: createPolicy_commit prepare_commit transition_commit expireAll_commit event_apply_commit)

definition ok_step :: "pay_db \<Rightarrow> pay_db \<Rightarrow> bool" where
  "ok_step d d' \<longleftrightarrow> pay_ok d \<and> pay_step d d'"

lemma ok_run: "pay_step\<^sup>*\<^sup>* d d' \<Longrightarrow> pay_ok d \<Longrightarrow> pay_ok d' \<and> pay_kept d d' \<and> ok_step\<^sup>*\<^sup>* d d'"
proof (induction rule: rtranclp_induct)
  case (step d1 d2)
  then have "pay_commit d1 d2" by (simp add: pay_step_commit)
  with step show ?case
    unfolding pay_commit_def by (meson ok_step_def pay_kept_trans rtranclp.rtrancl_into_rtrancl)
qed simp

lemma ok_step_edge:
  assumes "ok_step d d'" "pay_status_of d k = Some s"
  shows "\<exists>s'. pay_status_of d' k = Some s' \<and> pay_edge\<^sup>*\<^sup>* s s'"
proof -
  obtain p where p: "payment_of d k = Some p" "pm_status p = s" using assms(2) by (auto simp: pay_status_of_def)
  have "pay_kept d d'" using assms(1) pay_step_commit by (auto simp: ok_step_def pay_commit_def)
  then obtain p' where "payment_of d' k = Some p'" "advances p p'" using p(1) pay_keptD(1) by blast
  with p(2) show ?thesis by (auto simp: pay_status_of_def advances_def)
qed

interpretation pay_machine: status_machine pay_edge pay_status_of ok_step
  by unfold_locales (rule ok_step_edge)

text \<open>What a captured payment can become.\<close>

lemma after_capture: "pay_edge\<^sup>*\<^sup>* s t \<Longrightarrow> s \<in> {PS_CAPTURED, PS_PARTIALLY_REFUNDED, PS_REFUNDED} \<Longrightarrow>
    t \<in> {PS_CAPTURED, PS_PARTIALLY_REFUNDED, PS_REFUNDED}"
  by (induction rule: rtranclp_induct) (auto simp: pay_edge_def)


section \<open>An event counts once\<close>

lemma find_inserted_event:
  "insertPayEvent v d = Inr d' \<Longrightarrow> findPayEvent (pv_providerEventId v) d' = Some v"
  using insertPayEventD [of v d d'] by (auto simp: findPayEvent_def find_append)

lemma apply_tx_records:
  assumes "apply_tx rt v e i t h p asked d = Inr (d', res, lc)"
  shows "findPayEvent i d' = Some (event_row v e i t h p (er_resultingStatus res))"
    "er_paymentId res = pm_id p" "\<not> er_duplicate res"
proof -
  have row: "pv_providerEventId (event_row v e i t h p st) = i" for st by (simp add: event_row_def)
  have core: "findPayEvent k (x\<lparr>pb_core := c\<rparr>) = findPayEvent k x" for k x c by (simp add: findPayEvent_def)
  show "findPayEvent i d' = Some (event_row v e i t h p (er_resultingStatus res))"
    using assms find_inserted_event [where v = "event_row v e i t h p _", unfolded row]
    by (auto simp: apply_tx_def apply_status_def Let_def core split: option.splits if_splits sum.splits elim!: ebind_InrE)
  show "er_paymentId res = pm_id p" "\<not> er_duplicate res"
    using assms
    by (auto simp: apply_tx_def apply_status_def Let_def split: option.splits if_splits sum.splits elim!: ebind_InrE)
qed

text \<open>
  C11. An event of the provider counts once. After it has been answered without an error, it finds, at any later time
  and whatever the second delivery claims to be about, the answer it got: a duplicate with the same payment and status, and
  nothing is written.
\<close>

theorem provider_event_counts_once:
  assumes ok: "pay_ok d" and run: "applyReservationPaymentProviderEvent rt v e d = (d', Inr r)"
    and fair: "fair_race (ee_race v)" "keeps_locked e (ee_race v) d"
    and first: "checked_event e = Inr (i, t, h)" and later: "pay_step\<^sup>*\<^sup>* d' d''"
    and second: "checked_event e2 = Inr (i, t2, h2)"
  shows "\<exists>r2. applyReservationPaymentProviderEvent rt2 v2 e2 d'' = (d'', Inr r2) \<and> er_duplicate r2 \<and> \<not> er_changed r2 \<and>
    er_resultingStatus r2 = er_resultingStatus r \<and> er_paymentId r2 = er_paymentId r"
proof -
  have "\<exists>w. findPayEvent i d' = Some w \<and> pv_resultingStatus w = er_resultingStatus r \<and> pv_paymentId w = er_paymentId r"
    using run
  proof (cases rule: event_applyE)
    case Unchanged
    with first show ?thesis by (auto simp: duplicate_event_def)
  next
    case (Applied i' t' h' p asked d1 res lc core)
    then have same: "i' = i" "r = res" "findPayEvent i d' = findPayEvent i d1" using first by (simp_all add: findPayEvent_def)
    show ?thesis using apply_tx_records [OF Applied(5)] same by (simp add: event_row_def)
  qed simp
  then obtain w where w: "findPayEvent i d' = Some w" "pv_resultingStatus w = er_resultingStatus r" "pv_paymentId w = er_paymentId r"
    by blast
  have "pay_ok d'" using event_apply_commit [OF run fair] ok by (simp add: pay_commit_def)
  then have "findPayEvent i d'' = Some w" using ok_run [OF later] w(1) pay_keptD(2) by blast
  then show ?thesis
    using second w(2,3) by (simp add: applyReservationPaymentProviderEvent_def duplicate_event_def)
qed

section \<open>What an event does\<close>

lemma find_upd_same:
  "(\<And>r. q r \<Longrightarrow> q (f r)) \<Longrightarrow> find q (upd_where q f rows) = map_option f (find q rows)"
  by (induction rows) auto

text \<open>The reservation of a payment that was authorised or captured: confirmed when it was pending, otherwise left alone.\<close>

lemma confirmation_effect:
  assumes run: "transitionInTransaction rt (payment_confirmation rid p) ids now dbNow c = Inr (c', res)"
    and b: "findTenantReservation c (pm_reservationId p) rid = Some b"
  shows "if r_state b = PENDING
    then lr_mutated res \<and> (\<exists>b'. findTenantReservation c' (pm_reservationId p) rid = Some b' \<and> r_state b' = CONFIRMED) \<and>
      lr_capacity res = Unchanged
    else c' = c \<and> \<not> lr_mutated res \<and> lr_capacity res = Unchanged"
proof (cases "r_state b = PENDING")
  case False
  then show ?thesis
    using run b by (auto simp: transitionInTransaction_def payment_confirmation_def unmutated_def)
next
  case True
  have mut: "lr_mutated res"
    using run b True
    by (auto simp: transitionInTransaction_def payment_confirmation_def Let_def split: sum.splits if_splits)
  obtain c1 where c1: "lr_capacity res = reservationCapacityEffect (Some (r_state b)) (Some CONFIRMED)"
    "updateReservation (pm_reservationId p) rid (transition_update (payment_confirmation rid p) b) c = Inr (c1, lr_reservation res)"
    "reservations c' = reservations c1"
    using transition_mutatedE [OF run mut] b by (auto simp: payment_confirmation_def)
  let ?q = "\<lambda>r. r_id r = pm_reservationId p \<and> r_restaurantId r = rid"
  let ?f = "transition_update (payment_confirmation rid p) b"
  have "?q r \<Longrightarrow> ?q (?f r)" for r by (simp add: transition_update_def payment_confirmation_def transitionProjection_def)
  moreover have "reservations c1 = upd_where ?q ?f (reservations c)" using c1(2) by (elim updateReservation_okE) simp
  ultimately have "findTenantReservation c' (pm_reservationId p) rid = Some (?f b)"
    using b c1(3) by (simp add: findTenantReservation_def find_upd_same)
  moreover have "r_state (?f b) = CONFIRMED" by (simp add: payment_confirmation_def)
  moreover have "lr_capacity res = Unchanged" using c1(1) True by (simp add: reservationCapacityEffect_def)
  ultimately show ?thesis using True mut by simp
qed

lemma verdictD:
  assumes "event_verdict e t p = Inr asked"
  shows "\<not> provider_mismatch e t p" "asked_status e t p = Inr asked"
    "asked \<noteq> None \<Longrightarrow> same_currency e p = Inr () \<and> same_amount e p = Inr ()"
  using assms by (auto simp: event_verdict_def split: if_splits elim!: ebind_InrE)

lemma apply_status_exact:
  assumes run: "apply_status rt v e row p st d = Inr (d', res, lc)"
    and b: "findTenantReservation (pb_core d) (pm_reservationId p) (pe_restaurantId e) = Some b"
  shows "pb_events d' = pb_events d @ [row]" "pb_policies d' = pb_policies d"
    "pb_payments d' = upd_where (\<lambda>q. pm_id q = pm_id p) (moved_payment e st) (pb_payments d)"
    "er_resultingStatus res = Some st" "er_ignoredReason res = None"
    "er_reservationConfirmed res \<longleftrightarrow> (st = PS_AUTHORIZED \<or> st = PS_CAPTURED) \<and> r_state b = PENDING"
    "if er_reservationConfirmed res
     then \<exists>b'. findTenantReservation (pb_core d') (pm_reservationId p) (pe_restaurantId e) = Some b' \<and> r_state b' = CONFIRMED
     else pb_core d' = pb_core d"
    "case lc of None \<Rightarrow> True | Some r \<Rightarrow> lr_capacity r = Unchanged"
proof -
  obtain d2 where d2: "insertPayEvent row (updatePayment (pm_id p) (moved_payment e st) d) = Inr d2"
    using run unfolding apply_status_def by (elim ebind_InrE) blast
  have rows: "d2 = d\<lparr>pb_payments := upd_where (\<lambda>q. pm_id q = pm_id p) (moved_payment e st) (pb_payments d),
      pb_events := pb_events d @ [row]\<rparr>"
    using insertPayEventD(1) [OF d2] by (simp add: updatePayment_def)
  show "er_resultingStatus res = Some st" "er_ignoredReason res = None"
    "pb_events d' = pb_events d @ [row]" "pb_policies d' = pb_policies d"
    "pb_payments d' = upd_where (\<lambda>q. pm_id q = pm_id p) (moved_payment e st) (pb_payments d)"
    using run d2 by (auto simp: apply_status_def Let_def rows split: if_splits sum.splits)
  define confirmed where "confirmed \<longleftrightarrow> (er_reservationConfirmed res \<longleftrightarrow> (st = PS_AUTHORIZED \<or> st = PS_CAPTURED) \<and> r_state b = PENDING) \<and>
    (if er_reservationConfirmed res
     then \<exists>b'. findTenantReservation (pb_core d') (pm_reservationId p) (pe_restaurantId e) = Some b' \<and> r_state b' = CONFIRMED
     else pb_core d' = pb_core d) \<and> (case lc of None \<Rightarrow> True | Some r \<Rightarrow> lr_capacity r = Unchanged)"
  have confirmed
  proof (cases "st = PS_AUTHORIZED \<or> st = PS_CAPTURED")
    case True
    then obtain c' lr where lr: "transitionInTransaction rt (payment_confirmation (pe_restaurantId e) p) (ee_outboxIds v) (ee_now v)
        (ee_dbNow v) (pb_core d) = Inr (c', lr)" "d' = d2\<lparr>pb_core := c'\<rparr>" "lc = Some lr" "er_reservationConfirmed res = lr_mutated lr"
      using run d2 by (auto simp: apply_status_def Let_def rows split: sum.splits)
    from confirmation_effect [OF lr(1) b] lr(2-4) True show ?thesis by (auto simp: confirmed_def split: if_splits)
  next
    case False
    then have "d' = d2 \<and> \<not> er_reservationConfirmed res \<and> lc = None" using run d2 by (auto simp: apply_status_def Let_def)
    with False show ?thesis by (simp add: confirmed_def rows)
  qed
  then show "er_reservationConfirmed res \<longleftrightarrow> (st = PS_AUTHORIZED \<or> st = PS_CAPTURED) \<and> r_state b = PENDING"
    "if er_reservationConfirmed res
     then \<exists>b'. findTenantReservation (pb_core d') (pm_reservationId p) (pe_restaurantId e) = Some b' \<and> r_state b' = CONFIRMED
     else pb_core d' = pb_core d"
    "case lc of None \<Rightarrow> True | Some r \<Rightarrow> lr_capacity r = Unchanged"
    by (simp_all add: confirmed_def)
qed

text \<open>
  C10. What an event does when nobody interferes. It is believed only if its account and its intent are those of the
  payment, and its currency and amount too where it names them; it is recorded once; then it is ignored, as not supported or
  older than the last one, and nothing else changes, or the payment alone moves along the table, and the reservation is
  confirmed exactly when the payment is authorised or captured and it was pending. A refused event changes nothing.
\<close>

theorem provider_event_exact:
  assumes quiet: "ee_race v = (\<lambda>d. d)" and c: "checked_event e = Inr (i, t, h)" "findPayEvent i d = None"
    and p: "findPayment (pe_paymentId e) (pe_restaurantId e) d = Some p"
    and b: "findTenantReservation (pb_core d) (pm_reservationId p) (pe_restaurantId e) = Some b"
    and run: "applyReservationPaymentProviderEvent rt v e d = (d', out)"
  shows "case out of
      Inl err \<Rightarrow> d' = d
    | Inr r \<Rightarrow> \<not> provider_mismatch e t p \<and> pb_policies d' = pb_policies d \<and>
        pb_events d' = pb_events d @ [event_row v e i t h p (er_resultingStatus r)] \<and>
        (if er_ignoredReason r = None
         then (case er_resultingStatus r of None \<Rightarrow> False | Some st \<Rightarrow>
             asked_status e t p = Inr (Some st) \<and> same_currency e p = Inr () \<and> same_amount e p = Inr () \<and>
             \<not> stale_event e p \<and> canTransitionReservationPayment (pm_status p) st \<and>
             pb_payments d' = upd_where (\<lambda>q. pm_id q = pm_id p) (moved_payment e st) (pb_payments d) \<and>
             (er_reservationConfirmed r \<longleftrightarrow> (st = PS_AUTHORIZED \<or> st = PS_CAPTURED) \<and> r_state b = PENDING) \<and>
             (if er_reservationConfirmed r
              then \<exists>b'. findTenantReservation (pb_core d') (pm_reservationId p) (pe_restaurantId e) = Some b' \<and>
                r_state b' = CONFIRMED
              else pb_core d' = pb_core d))
         else pb_payments d' = pb_payments d \<and> pb_core d' = pb_core d)"
  using run
proof (cases rule: event_applyE)
  case Unchanged
  then show ?thesis using c by (auto split: sum.split)
next
  case (Aborted err)
  then show ?thesis by (simp add: quiet)
next
  case (Applied i' t' h' p' asked d1 res lc core)
  have same: "i' = i" "t' = t" "h' = h" "p' = p" using Applied(1,3) c(1) p by simp_all
  note vd = verdictD [OF Applied(4) [unfolded same]]
  note ap = Applied(5) [unfolded same quiet]
  note out = Applied(6-8) [unfolded same]
  have app: "\<exists>st. asked = Some st \<and> \<not> stale_event e p \<and> canTransitionReservationPayment (pm_status p) st \<and>
        apply_status rt v e (event_row v e i t h p (Some st)) p st d = Inr (d1, res, lc)"
    if "er_ignoredReason res = None"
    using ap that by (auto simp: apply_tx_def split: option.splits if_splits elim!: ebind_InrE)
  have ign: "\<exists>st. insertPayEvent (event_row v e i t h p st) d = Inr d1 \<and> er_resultingStatus res = st \<and> lc = None"
    if n: "er_ignoredReason res \<noteq> None"
  proof -
    have "\<not> (\<exists>st row. apply_status rt v e row p st d = Inr (d1, res, lc))"
      using n apply_status_exact(5) [OF _ b] by metis
    then show ?thesis using ap by (auto simp: apply_tx_def split: option.splits if_splits elim!: ebind_InrE)
  qed
  show ?thesis
  proof (cases "er_ignoredReason res = None")
    case True
    then obtain st where st: "asked = Some st" "\<not> stale_event e p" "canTransitionReservationPayment (pm_status p) st"
      "apply_status rt v e (event_row v e i t h p (Some st)) p st d = Inr (d1, res, lc)"
      using app by blast
    note ex = apply_status_exact [OF st(4) b]
    have "core = pb_core d1" using out(3) ex(8) by (auto simp: finalizeTransition_def split: option.splits)
    then show ?thesis using out(1,2) ex(1-7) vd st(1-3) True by simp
  next
    case False
    then obtain st where st: "insertPayEvent (event_row v e i t h p st) d = Inr d1" "er_resultingStatus res = st" "lc = None"
      using ign by blast
    then show ?thesis using out vd(1) False insertPayEventD(1) [OF st(1)] by auto
  qed
qed

section \<open>Preparation\<close>

lemma wantedD:
  assumes "wanted i d = Inr w"
  shows "wp_amount w = (if py_amountMode (wp_policy w) = PER_PERSON
      then py_amount (wp_policy w) * of_int (r_partySize (wp_reservation w)) else py_amount (wp_policy w))"
    "in_money_range (wp_amount w)" "pr_now i < wp_expiresAt w" "wp_expiresAt w \<le> pr_now i + 86400000"
  using assms
  by (auto simp: wanted_def computeReservationPaymentAmount_def Let_def split: option.splits if_splits elim!: ebind_InrE)

text \<open>A payment found under the key of a request, and for the same thing.\<close>

definition prepared_as :: "prepare_input \<Rightarrow> wanted_payment \<Rightarrow> pay_row \<Rightarrow> bool" where
  "prepared_as i w p \<longleftrightarrow> pm_idempotencyKey p = wp_key w \<and> pm_restaurantId p = pr_restaurantId i \<and>
     pm_reservationId p = r_id (wp_reservation w) \<and> pm_policyId p = py_id (wp_policy w) \<and> pm_amount p = wp_amount w \<and>
     pm_currency p = wp_currency w"

lemma findPaymentByKey_row: "findPaymentByKey key d = Some p \<Longrightarrow> p \<in> set (pb_payments d) \<and> pm_idempotencyKey p = key"
  unfolding findPaymentByKey_def by (drule find_Some_D) auto

lemma replayD: "findPaymentByKey (wp_key w) d = Some p \<Longrightarrow> replay_payment i w p = Inr (Payment_view x) \<Longrightarrow>
    prepared_as i w p \<and> x = serializePayment p"
  by (auto simp: replay_payment_def prepared_as_def split: if_splits dest: findPaymentByKey_row)

lemma prepare_finds:
  assumes run: "prepareReservationPayment st i newId races d = (d', Inr (Payment_view x))" and w: "wanted i d = Inr w"
  shows "\<exists>p \<in> set (pb_payments d'). prepared_as i w p \<and> x = serializePayment p"
proof -
  have found: "\<exists>p \<in> set (pb_payments c). prepared_as i w p \<and> x = serializePayment p"
    if "findPaymentByKey (wp_key w) c = Some p" "replay_payment i w p = Inr (Payment_view x)" for p c
    using that replayD findPaymentByKey_row by blast
  have made: "new_payment i w snap newId \<in> set (pb_payments c) \<and> prepared_as i w (new_payment i w snap newId)"
    if "insertPayment (new_payment i w snap newId) d2 = Inr c" for snap d2 c
    using insertPaymentD(1) [OF that] by (simp add: new_payment_def prepared_as_def)
  show ?thesis
    using run w by (auto simp: prepareReservationPayment_def Let_def split: sum.splits if_splits option.splits dest: found made)
qed

lemma found_by_key:
  assumes "pay_ok d" "p \<in> set (pb_payments d)"
  shows "findPaymentByKey (pm_idempotencyKey p) d = Some p"
proof -
  obtain q where q: "findPaymentByKey (pm_idempotencyKey p) d = Some q"
    using assms(2) unfolding findPaymentByKey_def by (metis (mono_tags, lifting) find_None_iff not_None_eq)
  then have "q \<in> set (pb_payments d)" "pm_idempotencyKey q = pm_idempotencyKey p" using findPaymentByKey_row by auto
  then have "q = p"
    using assms table_ok_unique [of pm_id payment_conflict "pb_payments d" q p]
    by (auto simp: pay_ok_def table_ok_def payment_conflict_def)
  with q show ?thesis by simp
qed


section \<open>What no event can reach\<close>


section \<open>A payment\<close>

definition sample_policy :: pay_policy where
  "sample_policy = \<lparr>py_id = ''y1'', py_restaurantId = ''r'', py_version = 1, py_type = DEPOSIT, py_amountMode = PER_PERSON,
     py_amount = 15, py_minPartySize = None, py_cancellationHours = 24, py_rules = VObj [], py_activeFrom = 0,
     py_activeUntil = None, py_createdAt = 0\<rparr>"

definition sample_payment :: pay_row where
  "sample_payment = \<lparr>pm_id = ''p1'', pm_restaurantId = ''r'', pm_reservationId = ''b1'', pm_policyId = ''y1'',
     pm_status = PS_REQUIRES_PAYMENT_METHOD, pm_amount = 30, pm_currency = ''EUR'', pm_stripeAccountId = Some ''acct'',
     pm_stripeSetupIntentId = None, pm_stripePaymentIntentId = Some ''pi_1'', pm_idempotencyKey = ''key-0001'',
     pm_policySnapshot = \<lparr>sn_id = ''y1'', sn_version = 1, sn_type = DEPOSIT, sn_amountMode = PER_PERSON, sn_amount = ''15.00'',
       sn_minPartySize = None, sn_cancellationHours = 24, sn_rules = VObj [], sn_activeFrom = toISOString 0,
       sn_activeUntil = None\<rparr>,
     pm_expiresAt = Some 1800000, pm_failureCode = None, pm_lastProviderEventAt = None, pm_createdAt = 0\<rparr>"

definition pay_start :: pay_db where
  "pay_start = \<lparr>pb_core = plan_of_one_table\<lparr>reservations := [sample_reservation\<lparr>r_state := PENDING\<rparr>]\<rparr>,
     pb_policies = [sample_policy], pb_payments = [], pb_events = []\<rparr>"

definition pay_open :: pay_db where
  "pay_open = pay_start\<lparr>pb_payments := [sample_payment]\<rparr>"

definition calm_event :: event_env where
  "calm_event = \<lparr>ee_eventId = ''v1'', ee_outboxIds = (''o1'', ''o2''), ee_now = 60000, ee_dbNow = 60000, ee_race = (\<lambda>d. d)\<rparr>"

definition intent_event :: "string \<Rightarrow> string \<Rightarrow> instant \<Rightarrow> provider_event" where
  "intent_event i t at_time = \<lparr>pe_restaurantId = ''r'', pe_paymentId = ''p1'', pe_providerEventId = i, pe_eventType = t,
     pe_occurredAt = at_time, pe_payloadHash = replicate 64 (CHR ''a''), pe_amount = Some (Money_number 30),
     pe_currency = Some ''eur'', pe_stripeSetupIntentId = None, pe_stripePaymentIntentId = Some ''pi_1'',
     pe_stripeAccountId = Some ''acct'', pe_refundedAmount = None, pe_failureCode = None\<rparr>"

definition sample_prepare :: prepare_input where
  "sample_prepare = \<lparr>pr_restaurantId = ''r'', pr_reservationId = ''b1'', pr_policyId = None,
     pr_idempotencyKey = '' key-0001 '', pr_currency = None, pr_expiresAt = None, pr_now = 1000, pr_dryRun = Some False\<rparr>"

lemma fair_same [simp]: "fair_race (\<lambda>d. d)"
  by (simp add: fair_race_def)

lemma keeps_locked_same [simp]: "keeps_locked e (\<lambda>d. d) d"
  by (simp add: keeps_locked_def)

lemma pay_start_ok: "pay_ok pay_start"
  by (simp add: pay_ok_def pay_start_def table_ok_def sample_policy_def policy_checks_def in_money_range_def)

lemma pay_open_ok: "pay_ok pay_open"
  by (simp add: pay_ok_def pay_open_def pay_start_def table_ok_def sample_policy_def sample_payment_def policy_checks_def
      payment_checks_def in_money_range_def between_def)

lemma paid_run:
  obtains d r where
    "applyReservationPaymentProviderEvent utc_runtime calm_event (intent_event ''evt_1'' ''payment_intent.succeeded'' 5000) pay_open
      = (d, Inr r)"
    "er_resultingStatus r = Some PS_CAPTURED" "er_ignoredReason r = None"
proof -
  let ?run = "applyReservationPaymentProviderEvent utc_runtime calm_event
    (intent_event ''evt_1'' ''payment_intent.succeeded'' 5000) pay_open"
  have "case snd ?run of Inl _ \<Rightarrow> False | Inr r \<Rightarrow> er_resultingStatus r = Some PS_CAPTURED \<and> er_ignoredReason r = None" by code_simp
  then show thesis using that by (cases "?run") (auto split: sum.splits)
qed

lemma paid_step:
  assumes "applyReservationPaymentProviderEvent rt calm_event e d = (d', out)"
  shows "pay_step\<^sup>*\<^sup>* d d'"
  using ps_event [OF assms] by (simp add: calm_event_def r_into_rtranclp)


theorem provider_event_counts_once_witness:
  "\<exists>d r2. applyReservationPaymentProviderEvent utc_runtime calm_event
     (intent_event ''evt_1'' ''charge.refunded'' 9000) d = (d, Inr r2) \<and> er_duplicate r2 \<and>
     er_resultingStatus r2 = Some PS_CAPTURED"
proof -
  obtain d r where run: "applyReservationPaymentProviderEvent utc_runtime calm_event
      (intent_event ''evt_1'' ''payment_intent.succeeded'' 5000) pay_open = (d, Inr r)" "er_resultingStatus r = Some PS_CAPTURED"
    by (rule paid_run)
  have c: "checked_event (intent_event ''evt_1'' ''payment_intent.succeeded'' 5000) =
      Inr (''evt_1'', ''payment_intent.succeeded'', replicate 64 (CHR ''a''))"
    "checked_event (intent_event ''evt_1'' ''charge.refunded'' 9000) =
      Inr (''evt_1'', ''charge.refunded'', replicate 64 (CHR ''a''))" by code_simp+
  have calm: "ee_race calm_event = (\<lambda>d. d)" by (simp add: calm_event_def)
  from provider_event_counts_once [OF pay_open_ok run(1) _ _ c(1) rtranclp.rtrancl_refl c(2), of utc_runtime calm_event] run(2)
  show ?thesis by (auto simp: calm)
qed

theorem provider_event_exact_witness:
  "\<exists>d r b'. applyReservationPaymentProviderEvent utc_runtime calm_event
     (intent_event ''evt_1'' ''payment_intent.succeeded'' 5000) pay_open = (d, Inr r) \<and> er_reservationConfirmed r \<and>
     findTenantReservation (pb_core d) ''b1'' ''r'' = Some b' \<and> r_state b' = CONFIRMED"
proof -
  let ?e = "intent_event ''evt_1'' ''payment_intent.succeeded'' 5000"
  obtain d r where run: "applyReservationPaymentProviderEvent utc_runtime calm_event ?e pay_open = (d, Inr r)"
    "er_resultingStatus r = Some PS_CAPTURED" "er_ignoredReason r = None" by (rule paid_run)
  have calm: "ee_race calm_event = (\<lambda>d. d)" by (simp add: calm_event_def)
  have c: "checked_event ?e = Inr (''evt_1'', ''payment_intent.succeeded'', replicate 64 (CHR ''a''))" by code_simp
  have none: "findPayEvent ''evt_1'' pay_open = None" by (simp add: findPayEvent_def pay_open_def pay_start_def)
  have e: "pe_paymentId ?e = ''p1''" "pe_restaurantId ?e = ''r''" by (simp_all add: intent_event_def)
  have p: "findPayment (pe_paymentId ?e) (pe_restaurantId ?e) pay_open = Some sample_payment"
    by (simp add: findPayment_def pay_open_def sample_payment_def e)
  have b: "findTenantReservation (pb_core pay_open) (pm_reservationId sample_payment) (pe_restaurantId ?e) =
      Some (sample_reservation\<lparr>r_state := PENDING\<rparr>)" by code_simp
  have "pm_reservationId sample_payment = ''b1''" by (simp add: sample_payment_def)
  with provider_event_exact [OF calm c none p b run(1)] run show ?thesis by (auto simp: e)
qed



section \<open>What is lost\<close>

text \<open>
  A customer whose first card is refused pays with a second one: the report of the success finds the payment failed and is
  refused each time, so the captured payment stays failed and the reservation is never confirmed. The same
  happens to a success that arrives after the payment has expired.
\<close>

lemma success_after_a_failure_is_refused:
  "let d = fst (applyReservationPaymentProviderEvent utc_runtime calm_event
         (intent_event ''evt_1'' ''payment_intent.payment_failed'' 5000) pay_open);
       late = fst (expireReservationPayments 1800000 pay_open);
       success = applyReservationPaymentProviderEvent utc_runtime (calm_event\<lparr>ee_eventId := ''v2''\<rparr>)
         (intent_event ''evt_2'' ''payment_intent.succeeded'' 9000)
   in snd (success d) = Inl (ReservationPaymentStateError PAYMENT_TRANSITION_INVALID) \<and> pay_status_of d ''p1'' = Some PS_FAILED \<and>
     snd (success late) = Inl (ReservationPaymentStateError PAYMENT_TRANSITION_INVALID)"
  by code_simp

text \<open>The expiry by hand reads the status and then writes by the identifier alone: a capture in between is overwritten.\<close>

lemma capture_overwritten_by_expiry:
  "let capture = (\<lambda>d. fst (applyReservationPaymentProviderEvent utc_runtime calm_event
         (intent_event ''evt_1'' ''payment_intent.succeeded'' 5000) d))
   in pay_status_of (capture pay_open) ''p1'' = Some PS_CAPTURED \<and>
     pay_status_of (fst (expire_payment ''r'' ''b1'' capture pay_open)) ''p1'' = Some PS_EXPIRED"
  by code_simp

text \<open>A success for a reservation cancelled meanwhile is recorded as captured; nothing confirms and nothing refunds it.\<close>

lemma capture_of_a_cancelled_reservation:
  "let d = pay_open\<lparr>pb_core := plan_of_one_table\<lparr>reservations := [sample_reservation\<lparr>r_state := CANCELLED, r_status := St_CANCELLED\<rparr>]\<rparr>\<rparr>;
       (d', out) = applyReservationPaymentProviderEvent utc_runtime calm_event
         (intent_event ''evt_1'' ''payment_intent.succeeded'' 5000) d
   in pay_status_of d' ''p1'' = Some PS_CAPTURED \<and> (case out of Inr r \<Rightarrow> \<not> er_reservationConfirmed r | Inl _ \<Rightarrow> False)"
  by code_simp

end
