(* ===== verification/Marketing_Consent.thy ===== *)
theory Marketing_Consent
  imports Actions Iso_Date Idempotency
begin

text \<open>
  Permissions to write to customers, and the register of those who refused
  (\<open>modules/marketing/marketing-permission.service.ts\<close>, \<open>marketing-opt-out.service.ts\<close>,
  \<open>marketing-consent.service.ts\<close>, \<open>marketing-retention-purge.ts\<close>), with what they call of
  \<open>customers/customer-crm.service.ts\<close> and the part of an erasure (\<open>rgpd/erasure.service.ts\<close>) that touches them.
  Texts are bytes, so that the texts hashed are as the program encodes them; SHA-256 and HMAC are arguments.
\<close>

section \<open>Rows\<close>

datatype channel = SMS | EMAIL | WHATSAPP

datatype permission_status = OPTED_IN | OPTED_OUT | UNKNOWN

datatype opposition_reason = UNSUBSCRIBE | COMPLAINT | MANUAL

datatype identity_type = PHONE_ID | EMAIL_ID | POS_CUSTOMER_ID

record customer_row =
  cu_id :: id
  cu_restaurantId :: id
  cu_name :: "string option"
  cu_phone :: string
  cu_emailNormalized :: "string option"
  cu_archivedAt :: "instant option"
  cu_mergedIntoId :: "id option"

record identity_row =
  ci_restaurantId :: id
  ci_customerId :: id
  ci_type :: identity_type
  ci_value :: string
  ci_normalizedValue :: string
  ci_source :: string

record permission_row =
  pm_id :: id
  pm_restaurantId :: id
  pm_customerId :: id
  pm_channel :: channel
  pm_status :: permission_status
  pm_source :: string
  pm_proofVersion :: "string option"
  pm_proofHash :: "string option"
  pm_consentedAt :: "instant option"
  pm_withdrawnAt :: "instant option"
  pm_createdAt :: instant

record permission_event =
  pe_restaurantId :: id
  pe_customerId :: id
  pe_permissionId :: "id option"
  pe_channel :: channel
  pe_status :: permission_status
  pe_source :: string
  pe_proofVersion :: "string option"
  pe_proofHash :: "string option"
  pe_proofText :: "string option"
  pe_actorUserId :: "string option"
  pe_occurredAt :: instant

record opt_out_row =
  oo_restaurantId :: id
  oo_channel :: channel
  oo_addressHash :: string
  oo_reason :: opposition_reason
  oo_source :: string
  oo_optedOutAt :: instant
  oo_retainUntil :: instant

record suppression_row =
  su_restaurantId :: id
  su_customerId :: id
  su_channel :: "channel option"
  su_reason :: string
  su_source :: string
  su_expiresAt :: "instant option"
  su_createdAt :: instant

record timeline_row =
  tl_restaurantId :: id
  tl_customerId :: id
  tl_eventType :: string
  tl_sourceType :: string
  tl_sourceId :: "string option"
  tl_dedupeKey :: string
  tl_occurredAt :: instant
  tl_summaryCode :: string

text \<open>Consents of the time before channels: the hash of a phone, and whether offers were accepted.\<close>

record legacy_consent =
  lc_restaurantId :: id
  lc_subjectHash :: string
  lc_marketingOptIn :: bool

record booked_row =
  bk_id :: id
  bk_restaurantId :: id
  bk_customerId :: "id option"
  bk_customerPhone :: "string option"
  bk_customerEmail :: "string option"
  bk_createdAt :: instant
  bk_isTest :: bool

record consent_db =
  md_customers :: "customer_row list"
  md_identities :: "identity_row list"
  md_permissions :: "permission_row list"
  md_events :: "permission_event list"
  md_optOuts :: "opt_out_row list"
  md_suppressions :: "suppression_row list"
  md_timeline :: "timeline_row list"
  md_consents :: "legacy_consent list"
  md_bookings :: "booked_row list"
  md_restaurants :: "(id \<times> string) list"

datatype consent_error = CUSTOMER_NOT_FOUND | REGISTER_UNAVAILABLE | OPPOSITION_REGISTERED | PROOF_REQUIRED |
  BAD_PROOF_HASH | TEXT_OUT_OF_BOUNDS | PROOF_VERSION_TOO_LONG | ACTOR_TOO_LONG | UNIQUE_VIOLATION |
  CRM_TENANT_MISMATCH | NOT_NORMALIZABLE | CUSTOMER_EMAIL_REQUIRED | RESTAURANT_NOT_FOUND | RESERVATION_NOT_FOUND

text \<open>
  What one transaction takes from outside: the key of the register as configured, the hash functions (of bytes, to
  bytes), the identifier a new row receives, the clock, and whether the write of the register fails.
\<close>

record tx_env =
  te_secret :: "string option"
  te_hmac :: "string \<Rightarrow> string \<Rightarrow> string"
  te_sha256 :: "string \<Rightarrow> string"
  te_uuid :: id
  te_now :: instant
  te_registerFails :: bool

section \<open>Addresses\<close>

definition hex_text :: "string \<Rightarrow> string" where
  "hex_text bytes = concat (map (\<lambda>c. let n = of_char c :: nat in [hex_digit (n div 16), hex_digit (n mod 16)]) bytes)"

definition safe_email_pattern :: "string \<Rightarrow> bool" where
  "safe_email_pattern s =
    (case js_split CHR ''@'' s of
       [local_part, domain] \<Rightarrow> \<not> list_ex js_space s \<and> local_part \<noteq> [] \<and>
         list_ex (\<lambda>i. domain ! i = CHR ''.'') [1..<length domain - 1]
     | _ \<Rightarrow> False)"

definition normalizeCustomerEmail :: "string \<Rightarrow> string option" where
  "normalizeCustomerEmail value =
    (let normalized = map lower_char (js_trim value) in
     if normalized \<noteq> [] \<and> safe_email_pattern normalized then Some normalized else None)"

definition normalizeText :: "nat \<Rightarrow> string \<Rightarrow> consent_error + string" where
  "normalizeText maxLength value =
    (let normalized = js_trim value in
     if normalized = [] \<or> maxLength < length normalized then Inl TEXT_OUT_OF_BOUNDS else Inr normalized)"

text \<open>The address a channel writes to.\<close>

definition address_of :: "channel \<Rightarrow> customer_row \<Rightarrow> string option" where
  "address_of ch c = (if ch = EMAIL then cu_emailNormalized c else Some (cu_phone c))"

section \<open>The register of oppositions\<close>

definition MIN_SECRET_LENGTH :: nat where "MIN_SECRET_LENGTH = 32"

definition marketingOptOutSecret :: "tx_env \<Rightarrow> string option" where
  "marketingOptOutSecret e =
    (case te_secret e of
       None \<Rightarrow> None
     | Some v \<Rightarrow> let secret = js_trim v in
         if secret \<noteq> [] \<and> MIN_SECRET_LENGTH \<le> length secret then Some secret else None)"

definition isMarketingOptOutRegisterConfigured :: "tx_env \<Rightarrow> bool" where
  "isMarketingOptOutRegisterConfigured e \<longleftrightarrow> marketingOptOutSecret e \<noteq> None"

definition normalizeAddress :: "channel \<Rightarrow> string \<Rightarrow> string option" where
  "normalizeAddress ch address = (if ch = EMAIL then normalizeCustomerEmail address else normalizeCustomerPhone address)"

fun channel_code :: "channel \<Rightarrow> string" where
  "channel_code SMS = ''SMS''"
| "channel_code EMAIL = ''EMAIL''"
| "channel_code WHATSAPP = ''WHATSAPP''"

definition marketingOptOutHash :: "tx_env \<Rightarrow> id \<Rightarrow> channel \<Rightarrow> string option \<Rightarrow> string option" where
  "marketingOptOutHash e restaurantId ch address =
    (case marketingOptOutSecret e of
       None \<Rightarrow> None
     | Some secret \<Rightarrow>
         if \<not> truthy address then None
         else (case normalizeAddress ch (the address) of
           None \<Rightarrow> None
         | Some normalized \<Rightarrow>
             let restaurantKey = te_hmac e secret (''marketing-opt-out:'' @ restaurantId)
             in Some (hex_text (te_hmac e restaurantKey (channel_code ch @ '':'' @ normalized)))))"

text \<open>\<open>setUTCFullYear\<close> on a shifted year: the 29th of February overflows into March.\<close>

definition shift_years :: "int \<Rightarrow> instant \<Rightarrow> instant" where
  "shift_years n t =
    (let (y, m, d) = civil_of_days (t div 86400000) in days_of_civil (y + n) m d * 86400000 + t mod 86400000)"

definition MARKETING_OPT_OUT_RETENTION_YEARS :: int where "MARKETING_OPT_OUT_RETENTION_YEARS = 3"

definition marketingOptOutRetainUntil :: "instant \<Rightarrow> instant" where
  "marketingOptOutRetainUntil optedOutAt = shift_years MARKETING_OPT_OUT_RETENTION_YEARS optedOutAt"

datatype register_result = REGISTERED | SKIPPED_NO_KEY | SKIPPED_NO_ADDRESS

definition on_entry :: "id \<Rightarrow> channel \<Rightarrow> string \<Rightarrow> opt_out_row \<Rightarrow> bool" where
  "on_entry r ch h x \<longleftrightarrow> oo_restaurantId x = r \<and> oo_channel x = ch \<and> oo_addressHash x = h"

text \<open>The \<open>upsert\<close> under the unique key of the table.\<close>

definition upsertOptOut :: "id \<Rightarrow> channel \<Rightarrow> string \<Rightarrow> opposition_reason \<Rightarrow> string \<Rightarrow> instant \<Rightarrow>
    opt_out_row list \<Rightarrow> opt_out_row list" where
  "upsertOptOut r ch h reason source since rows =
    (let keep = marketingOptOutRetainUntil since in
     if list_ex (on_entry r ch h) rows
     then upd_where (on_entry r ch h)
       (\<lambda>x. x\<lparr>oo_reason := reason, oo_source := source, oo_optedOutAt := since, oo_retainUntil := keep\<rparr>) rows
     else rows @ [\<lparr>oo_restaurantId = r, oo_channel = ch, oo_addressHash = h, oo_reason = reason, oo_source = source,
       oo_optedOutAt = since, oo_retainUntil = keep\<rparr>])"

definition registerMarketingOptOut :: "tx_env \<Rightarrow> id \<Rightarrow> channel \<Rightarrow> string option \<Rightarrow> opposition_reason \<Rightarrow> string \<Rightarrow>
    instant \<Rightarrow> consent_db \<Rightarrow> consent_error + consent_db \<times> register_result" where
  "registerMarketingOptOut e r ch address reason source occurredAt d =
    (if \<not> isMarketingOptOutRegisterConfigured e then Inr (d, SKIPPED_NO_KEY)
     else case marketingOptOutHash e r ch address of
       None \<Rightarrow> Inr (d, SKIPPED_NO_ADDRESS)
     | Some h \<Rightarrow>
         if te_registerFails e then Inl REGISTER_UNAVAILABLE
         else Inr (d\<lparr>md_optOuts := upsertOptOut r ch h reason source occurredAt (md_optOuts d)\<rparr>, REGISTERED))"

definition clearMarketingOptOut :: "tx_env \<Rightarrow> id \<Rightarrow> channel \<Rightarrow> string option \<Rightarrow> consent_db \<Rightarrow>
    consent_error + consent_db \<times> nat" where
  "clearMarketingOptOut e r ch address d =
    (case marketingOptOutHash e r ch address of
       None \<Rightarrow> Inr (d, 0)
     | Some h \<Rightarrow>
         if te_registerFails e then Inl REGISTER_UNAVAILABLE
         else Inr (d\<lparr>md_optOuts := filter (\<lambda>x. \<not> on_entry r ch h x) (md_optOuts d)\<rparr>,
           count_where (on_entry r ch h) (md_optOuts d)))"

definition findRegisteredOptOutHashes :: "id \<Rightarrow> channel \<Rightarrow> string list \<Rightarrow> consent_db \<Rightarrow> string set" where
  "findRegisteredOptOutHashes r ch hashes d =
    (if hashes = [] then {}
     else set (map oo_addressHash
       (filter (\<lambda>x. oo_restaurantId x = r \<and> oo_channel x = ch \<and> oo_addressHash x \<in> set hashes) (md_optOuts d))))"

definition isMarketingOptedOut :: "tx_env \<Rightarrow> id \<Rightarrow> channel \<Rightarrow> string option \<Rightarrow> consent_db \<Rightarrow> bool" where
  "isMarketingOptedOut e r ch address d =
    (case marketingOptOutHash e r ch address of
       None \<Rightarrow> False
     | Some h \<Rightarrow> h \<in> findRegisteredOptOutHashes r ch [h] d)"

definition purgeExpiredMarketingOptOuts :: "instant \<Rightarrow> consent_db \<Rightarrow> consent_db \<times> nat" where
  "purgeExpiredMarketingOptOuts now d =
    (d\<lparr>md_optOuts := filter (\<lambda>x. \<not> oo_retainUntil x < now) (md_optOuts d)\<rparr>,
     count_where (\<lambda>x. oo_retainUntil x < now) (md_optOuts d))"

text \<open>
  For a list of customers: whether the register could be consulted, and the identifiers whose address is on it. The
  \<open>Map\<close> keeps the last hash of an identifier given twice.
\<close>

definition hash_by_customer :: "tx_env \<Rightarrow> id \<Rightarrow> channel \<Rightarrow> customer_row list \<Rightarrow> (id \<Rightarrow> string option)" where
  "hash_by_customer e r ch customers =
     foldl (\<lambda>m c. case marketingOptOutHash e r ch (address_of ch c) of None \<Rightarrow> m | Some h \<Rightarrow> m(cu_id c \<mapsto> h))
       Map.empty customers"

definition loadOptedOutCustomerIds :: "tx_env \<Rightarrow> id \<Rightarrow> channel \<Rightarrow> customer_row list \<Rightarrow> consent_db \<Rightarrow> bool \<times> id list" where
  "loadOptedOutCustomerIds e r ch customers d =
    (if \<not> isMarketingOptOutRegisterConfigured e then (False, [])
     else let hashes = hash_by_customer e r ch customers;
              ids = js_set (map cu_id customers);
              registered = findRegisteredOptOutHashes r ch
                (js_set (map (\<lambda>i. the (hashes i)) (filter (\<lambda>i. hashes i \<noteq> None) ids))) d
          in (True, filter (\<lambda>i. case hashes i of None \<Rightarrow> False | Some h \<Rightarrow> h \<in> registered) ids))"

section \<open>Permissions\<close>

datatype resolution_source = CHANNEL_PERMISSION | LEGACY_CUSTOMER_CONSENT | NONE

datatype resolution_reason = R_OPTED_IN | R_OPTED_OUT | R_UNKNOWN | NO_LEGACY_CONSENT

record resolution =
  rs_allowed :: bool
  rs_status :: permission_status
  rs_source :: resolution_source
  rs_reason :: resolution_reason

definition resolveMarketingPermission :: "channel \<Rightarrow> permission_status option \<Rightarrow> bool \<Rightarrow> resolution" where
  "resolveMarketingPermission ch channelStatus legacyMarketingOptIn =
    (case channelStatus of
       Some st \<Rightarrow>
         if st = OPTED_IN then \<lparr>rs_allowed = True, rs_status = st, rs_source = CHANNEL_PERMISSION, rs_reason = R_OPTED_IN\<rparr>
         else \<lparr>rs_allowed = False, rs_status = st, rs_source = CHANNEL_PERMISSION,
           rs_reason = (if st = OPTED_OUT then R_OPTED_OUT else R_UNKNOWN)\<rparr>
     | None \<Rightarrow>
         if ch = SMS \<and> legacyMarketingOptIn
         then \<lparr>rs_allowed = True, rs_status = OPTED_IN, rs_source = LEGACY_CUSTOMER_CONSENT, rs_reason = R_OPTED_IN\<rparr>
         else \<lparr>rs_allowed = False, rs_status = UNKNOWN, rs_source = NONE, rs_reason = NO_LEGACY_CONSENT\<rparr>)"

record permission_input =
  pi_restaurantId :: id
  pi_customerId :: id
  pi_channel :: channel
  pi_status :: permission_status
  pi_source :: string
  pi_proofVersion :: "string option"
  pi_proof :: "string option"
  pi_proofHash :: "string option"
  pi_actorUserId :: "string option"
  pi_liftsOpposition :: bool
  pi_occurredAt :: "instant option"

definition hashProof :: "tx_env \<Rightarrow> string \<Rightarrow> string" where
  "hashProof e proof = hex_text (te_sha256 e (js_trim proof))"

definition SAFE_HASH :: "string \<Rightarrow> bool" where
  "SAFE_HASH s \<longleftrightarrow> length s = 64 \<and> list_all (\<lambda>c. between CHR ''0'' CHR ''9'' c \<or> between CHR ''a'' CHR ''f'' c) s"

text \<open>\<open>value?.trim() || null\<close>.\<close>

definition trimmed :: "string option \<Rightarrow> string option" where
  "trimmed v = (case v of None \<Rightarrow> None | Some s \<Rightarrow> if js_trim s = [] then None else Some (js_trim s))"

definition normalizeProofHash :: "tx_env \<Rightarrow> permission_input \<Rightarrow> consent_error + string option" where
  "normalizeProofHash e input =
    (case trimmed (pi_proofHash input) of
       Some h \<Rightarrow> let suppliedHash = map lower_char h in
         if SAFE_HASH suppliedHash then Inr (Some suppliedHash) else Inl BAD_PROOF_HASH
     | None \<Rightarrow> Inr (map_option (hashProof e) (trimmed (pi_proof input))))"

definition assertCustomerTenant :: "id \<Rightarrow> id \<Rightarrow> consent_db \<Rightarrow> consent_error + customer_row" where
  "assertCustomerTenant customerId restaurantId d =
    (case find (\<lambda>c. cu_id c = customerId \<and> cu_restaurantId c = restaurantId \<and> cu_archivedAt c = None) (md_customers d) of
       None \<Rightarrow> Inl CUSTOMER_NOT_FOUND
     | Some c \<Rightarrow> Inr c)"

definition optOutReasonFor :: "string \<Rightarrow> opposition_reason" where
  "optOutReasonFor source =
    (if source = ''UNSUBSCRIBE_LINK'' \<or> source = ''UNSUBSCRIBE'' \<or> source = ''SMS_STOP'' then UNSUBSCRIBE else MANUAL)"

text \<open>Every failure inside the \<open>try\<close> of the code becomes \<open>REGISTER_UNAVAILABLE\<close>.\<close>

definition syncOptOutRegister :: "tx_env \<Rightarrow> id \<Rightarrow> channel \<Rightarrow> permission_status \<Rightarrow> string \<Rightarrow> instant \<Rightarrow> bool \<Rightarrow>
    customer_row \<Rightarrow> consent_db \<Rightarrow> consent_error + consent_db" where
  "syncOptOutRegister e r ch status source occurredAt liftsOpposition contact d =
    (let address = address_of ch contact in
     case status of
       UNKNOWN \<Rightarrow> Inr d
     | OPTED_OUT \<Rightarrow>
         (case registerMarketingOptOut e r ch address (optOutReasonFor source) source occurredAt d of
            Inl err \<Rightarrow> Inl REGISTER_UNAVAILABLE
          | Inr (d', outcome) \<Rightarrow> if outcome = SKIPPED_NO_KEY then Inl REGISTER_UNAVAILABLE else Inr d')
     | OPTED_IN \<Rightarrow>
         if \<not> liftsOpposition
         then (if te_registerFails e \<and> marketingOptOutHash e r ch address \<noteq> None then Inl REGISTER_UNAVAILABLE
           else if isMarketingOptedOut e r ch address d then Inl OPPOSITION_REGISTERED else Inr d)
         else (case clearMarketingOptOut e r ch address d of
            Inl err \<Rightarrow> Inl REGISTER_UNAVAILABLE
          | Inr (d', n) \<Rightarrow> Inr d'))"

text \<open>The fields that the checks before the transaction yield.\<close>

record permission_data =
  pd_source :: string
  pd_occurredAt :: instant
  pd_proofVersion :: "string option"
  pd_proofHash :: "string option"
  pd_proofText :: "string option"
  pd_actorUserId :: "string option"

definition permission_data_of :: "tx_env \<Rightarrow> permission_input \<Rightarrow> consent_error + permission_data" where
  "permission_data_of e input =
     ebind (normalizeText 80 (pi_source input)) (\<lambda>source.
     let proofVersion = trimmed (pi_proofVersion input) in
     if proofVersion \<noteq> None \<and> 80 < length (the proofVersion) then Inl PROOF_VERSION_TOO_LONG
     else ebind (normalizeProofHash e input) (\<lambda>proofHash.
       let actorUserId = trimmed (pi_actorUserId input) in
       if actorUserId \<noteq> None \<and> 128 < length (the actorUserId) then Inl ACTOR_TOO_LONG
       else if pi_status input = OPTED_IN \<and> (proofVersion = None \<or> proofHash = None) then Inl PROOF_REQUIRED
       else Inr \<lparr>pd_source = source, pd_occurredAt = orElse (pi_occurredAt input) (te_now e),
         pd_proofVersion = proofVersion, pd_proofHash = proofHash, pd_proofText = trimmed (pi_proof input),
         pd_actorUserId = actorUserId\<rparr>))"

definition on_permission :: "id \<Rightarrow> channel \<Rightarrow> permission_row \<Rightarrow> bool" where
  "on_permission customerId ch p \<longleftrightarrow> pm_customerId p = customerId \<and> pm_channel p = ch"

definition written_permission :: "permission_status \<Rightarrow> permission_data \<Rightarrow> permission_row \<Rightarrow> permission_row" where
  "written_permission status pd p = p\<lparr>pm_status := status, pm_source := pd_source pd,
     pm_proofVersion := pd_proofVersion pd, pm_proofHash := pd_proofHash pd,
     pm_consentedAt := (if status = OPTED_IN then Some (pd_occurredAt pd) else None),
     pm_withdrawnAt := (if status = OPTED_OUT then Some (pd_occurredAt pd) else None)\<rparr>"

text \<open>
  The \<open>upsert\<close> by the key of a customer and a channel, restricted to the rows of a restaurant: a row of the same key in
  another restaurant makes the insertion fail.
\<close>

definition upsertPermission :: "tx_env \<Rightarrow> permission_input \<Rightarrow> permission_data \<Rightarrow> consent_db \<Rightarrow>
    consent_error + consent_db \<times> permission_row" where
  "upsertPermission e input pd d =
    (let c = pi_customerId input; ch = pi_channel input; r = pi_restaurantId input;
         here = (\<lambda>p. on_permission c ch p \<and> pm_restaurantId p = r)
     in case find here (md_permissions d) of
          Some p \<Rightarrow> Inr (d\<lparr>md_permissions := upd_where here (written_permission (pi_status input) pd) (md_permissions d)\<rparr>,
            written_permission (pi_status input) pd p)
        | None \<Rightarrow>
            if list_ex (on_permission c ch) (md_permissions d) then Inl UNIQUE_VIOLATION
            else let p = written_permission (pi_status input) pd
                   \<lparr>pm_id = te_uuid e, pm_restaurantId = r, pm_customerId = c, pm_channel = ch, pm_status = pi_status input,
                    pm_source = [], pm_proofVersion = None, pm_proofHash = None, pm_consentedAt = None,
                    pm_withdrawnAt = None, pm_createdAt = te_now e\<rparr>
                 in Inr (d\<lparr>md_permissions := md_permissions d @ [p]\<rparr>, p))"

definition event_of :: "permission_input \<Rightarrow> permission_data \<Rightarrow> permission_row \<Rightarrow> permission_event" where
  "event_of input pd p =
     \<lparr>pe_restaurantId = pi_restaurantId input, pe_customerId = pi_customerId input, pe_permissionId = Some (pm_id p),
      pe_channel = pi_channel input, pe_status = pi_status input, pe_source = pd_source pd,
      pe_proofVersion = pd_proofVersion pd, pe_proofHash = pd_proofHash pd, pe_proofText = pd_proofText pd,
      pe_actorUserId = pd_actorUserId pd, pe_occurredAt = pd_occurredAt pd\<rparr>"

text \<open>
  The transaction of \<open>upsertMarketingPermission\<close>: its row, its event and the register are written together. Of a
  withdrawal whose register cannot be written only the part after the savepoint is undone, and the flag is raised.
\<close>

definition permission_tx :: "tx_env \<Rightarrow> permission_input \<Rightarrow> permission_data \<Rightarrow> consent_db \<Rightarrow>
    consent_error + consent_db \<times> permission_row \<times> bool" where
  "permission_tx e input pd d =
     ebind (assertCustomerTenant (pi_customerId input) (pi_restaurantId input) d) (\<lambda>contact.
     ebind (upsertPermission e input pd d) (\<lambda>(d1, p).
     let d2 = d1\<lparr>md_events := md_events d1 @ [event_of input pd p]\<rparr> in
     case syncOptOutRegister e (pi_restaurantId input) (pi_channel input) (pi_status input) (pd_source pd)
         (pd_occurredAt pd) (pi_liftsOpposition input) contact d2 of
       Inr d3 \<Rightarrow> Inr (d3, p, False)
     | Inl err \<Rightarrow> if pi_status input \<noteq> OPTED_OUT then Inl err else Inr (d2, p, True)))"

section \<open>The timeline of a customer\<close>

definition buildCustomerTimelineDedupeKey :: "id \<Rightarrow> id \<Rightarrow> string \<Rightarrow> string \<Rightarrow> string option \<Rightarrow> consent_error + string" where
  "buildCustomerTimelineDedupeKey restaurantId customerId eventType sourceType sourceId =
     ebind (normalizeText 128 restaurantId) (\<lambda>r. ebind (normalizeText 128 customerId) (\<lambda>c.
     ebind (normalizeText 64 eventType) (\<lambda>t. ebind (normalizeText 64 sourceType) (\<lambda>st.
     ebind (if truthy sourceId then normalizeText 191 (the sourceId) else Inr ''none'') (\<lambda>si.
       Inr (''crm:'' @ r @ '':'' @ c @ '':'' @ t @ '':'' @ st @ '':'' @ si))))))"

text \<open>The metadata of the events written here have no forbidden key, and are left out.\<close>

definition appendCustomerTimelineEvent :: "timeline_row \<Rightarrow> consent_db \<Rightarrow> consent_error + consent_db \<times> bool" where
  "appendCustomerTimelineEvent input d =
     ebind (normalizeText 128 (tl_restaurantId input)) (\<lambda>r. ebind (normalizeText 128 (tl_customerId input)) (\<lambda>c.
     ebind (guard (\<not> list_ex (\<lambda>x. cu_id x = c \<and> cu_restaurantId x \<noteq> r) (md_customers d)) CRM_TENANT_MISMATCH) (\<lambda>_.
     ebind (normalizeText 64 (tl_eventType input)) (\<lambda>t. ebind (normalizeText 64 (tl_sourceType input)) (\<lambda>st.
     ebind (normalizeText 255 (tl_dedupeKey input)) (\<lambda>k. ebind (normalizeText 128 (tl_summaryCode input)) (\<lambda>sc.
     ebind (if truthy (tl_sourceId input) then ebind (normalizeText 191 (the (tl_sourceId input))) (\<lambda>x. Inr (Some x))
            else Inr None) (\<lambda>si.
       if list_ex (\<lambda>x. tl_dedupeKey x = k) (md_timeline d) then Inr (d, False)
       else Inr (d\<lparr>md_timeline := md_timeline d @ [\<lparr>tl_restaurantId = r, tl_customerId = c, tl_eventType = t,
           tl_sourceType = st, tl_sourceId = si, tl_dedupeKey = k, tl_occurredAt = tl_occurredAt input,
           tl_summaryCode = sc\<rparr>]\<rparr>, True)))))))))"

definition permission_timeline :: "permission_input \<Rightarrow> permission_data \<Rightarrow> permission_row \<Rightarrow> consent_error + timeline_row" where
  "permission_timeline input pd p =
    (let sourceId = pm_id p @ '':'' @ toISOString (pd_occurredAt pd) in
     ebind (buildCustomerTimelineDedupeKey (pi_restaurantId input) (pi_customerId input) ''MARKETING_PERMISSION_UPDATED''
         ''marketing_permission'' (Some sourceId)) (\<lambda>k.
       Inr \<lparr>tl_restaurantId = pi_restaurantId input, tl_customerId = pi_customerId input,
         tl_eventType = ''MARKETING_PERMISSION_UPDATED'', tl_sourceType = ''marketing_permission'',
         tl_sourceId = Some sourceId, tl_dedupeKey = k, tl_occurredAt = pd_occurredAt pd,
         tl_summaryCode = ''marketing.permission_updated''\<rparr>))"

section \<open>Retention\<close>

text \<open>
  \<open>purgeMarketingRetention\<close> selects rows first and deletes them by identifier later. The deletions are given here, by the
  identifiers selected; deleting a permission clears the reference of its events.
\<close>

definition prospect_cutoff :: "instant \<Rightarrow> instant" where "prospect_cutoff now = shift_years (- 3) now"

definition proof_cutoff :: "instant \<Rightarrow> instant" where "proof_cutoff now = shift_years (- 5) now"

definition max_time :: "instant option list \<Rightarrow> instant option" where
  "max_time ts = foldl (\<lambda>m t. case (m, t) of (None, _) \<Rightarrow> t | (Some _, None) \<Rightarrow> m | (Some a, Some b) \<Rightarrow> Some (max a b)) None ts"

definition lastCustomerContact :: "consent_db \<Rightarrow> permission_row \<Rightarrow> instant" where
  "lastCustomerContact d p =
    (let booked = max_time (map (\<lambda>b. Some (bk_createdAt b))
           (filter (\<lambda>b. bk_customerId b = Some (pm_customerId p) \<and> \<not> bk_isTest b) (md_bookings d)));
         acts = max_time (map (\<lambda>x. Some (pe_occurredAt x))
           (filter (\<lambda>x. pe_customerId x = pm_customerId p \<and> pe_channel x = pm_channel p \<and> pe_actorUserId x = None)
             (md_events d)))
     in orElse (max_time [booked, acts, pm_consentedAt p, Some (pm_createdAt p)]) (pm_createdAt p))"

definition expired_prospects :: "instant \<Rightarrow> consent_db \<Rightarrow> permission_row list \<Rightarrow> id list" where
  "expired_prospects now d page = map pm_id (filter (\<lambda>p. lastCustomerContact d p < prospect_cutoff now) page)"

definition prospect_page :: "instant \<Rightarrow> consent_db \<Rightarrow> permission_row list" where
  "prospect_page now d =
     filter (\<lambda>p. pm_status p \<noteq> OPTED_OUT \<and> pm_createdAt p < prospect_cutoff now) (md_permissions d)"

definition withdrawn_page :: "instant \<Rightarrow> consent_db \<Rightarrow> permission_row list" where
  "withdrawn_page now d = filter (\<lambda>p. pm_status p = OPTED_OUT \<and>
     (case pm_withdrawnAt p of None \<Rightarrow> False | Some t \<Rightarrow> t < proof_cutoff now)) (md_permissions d)"

text \<open>\<open>onDelete: SetNull\<close>.\<close>

definition unlinked :: "id set \<Rightarrow> permission_event \<Rightarrow> permission_event" where
  "unlinked gone x = (case pe_permissionId x of
     Some i \<Rightarrow> if i \<in> gone then x\<lparr>pe_permissionId := None\<rparr> else x | None \<Rightarrow> x)"

definition delete_permissions :: "(permission_row \<Rightarrow> bool) \<Rightarrow> consent_db \<Rightarrow> consent_db \<times> nat" where
  "delete_permissions q d =
    (let gone = set (map pm_id (filter q (md_permissions d))) in
     (d\<lparr>md_permissions := filter (\<lambda>p. \<not> q p) (md_permissions d),
        md_events := map (unlinked gone) (md_events d)\<rparr>,
      count_where q (md_permissions d)))"

definition purge_prospects :: "id list \<Rightarrow> consent_db \<Rightarrow> consent_db \<times> nat" where
  "purge_prospects expired d = delete_permissions (\<lambda>p. pm_id p \<in> set expired) d"

definition purge_withdrawn :: "id list \<Rightarrow> consent_db \<Rightarrow> consent_db \<times> nat" where
  "purge_withdrawn ids d =
     delete_permissions (\<lambda>p. pm_id p \<in> set ids \<and> pm_status p = OPTED_OUT)
       (d\<lparr>md_events := filter (\<lambda>x. case pe_permissionId x of Some i \<Rightarrow> i \<notin> set ids | None \<Rightarrow> True) (md_events d)\<rparr>)"

definition purge_orphans :: "instant \<Rightarrow> consent_db \<Rightarrow> consent_db \<times> nat" where
  "purge_orphans now d =
    (let old = (\<lambda>x. pe_permissionId x = None \<and> pe_occurredAt x < proof_cutoff now) in
     (d\<lparr>md_events := filter (\<lambda>x. \<not> old x) (md_events d)\<rparr>, count_where old (md_events d)))"

section \<open>Erasure\<close>

text \<open>
  Of the transaction of an erasure, the part on these tables: the oppositions of the customers are put on the
  register first, an address that is on it already being left as it is, and then their rows are removed.
\<close>

definition oppositions_of :: "instant \<Rightarrow> consent_db \<Rightarrow> customer_row \<Rightarrow> (channel option \<times> opposition_reason \<times> instant) list" where
  "oppositions_of erasedAt d c =
     map (\<lambda>x. (su_channel x, COMPLAINT, su_createdAt x))
       (filter (\<lambda>x. su_customerId x = cu_id c \<and> su_reason x = ''COMPLAINED'') (md_suppressions d)) @
     map (\<lambda>p. (Some (pm_channel p), MANUAL, orElse (pm_withdrawnAt p) erasedAt))
       (filter (\<lambda>p. pm_customerId p = cu_id c \<and> pm_status p = OPTED_OUT) (md_permissions d))"

definition keep_opposition :: "tx_env \<Rightarrow> customer_row \<Rightarrow> channel option \<times> opposition_reason \<times> instant \<Rightarrow> consent_db \<Rightarrow>
    consent_error + consent_db" where
  "keep_opposition e c o1 d =
    (case o1 of
       (None, _, _) \<Rightarrow> Inl REGISTER_UNAVAILABLE
     | (Some ch, reason, occurredAt) \<Rightarrow>
         if isMarketingOptedOut e (cu_restaurantId c) ch (address_of ch c) d then Inr d
         else ebind (registerMarketingOptOut e (cu_restaurantId c) ch (address_of ch c) reason ''RGPD_ERASURE'' occurredAt d)
           (\<lambda>(d', outcome).
             if outcome \<noteq> REGISTERED \<and> (outcome \<noteq> SKIPPED_NO_ADDRESS \<or> reason = COMPLAINT) then Inl REGISTER_UNAVAILABLE
             else Inr d'))"

fun keep_oppositions :: "tx_env \<Rightarrow> (customer_row \<times> channel option \<times> opposition_reason \<times> instant) list \<Rightarrow> consent_db \<Rightarrow>
    consent_error + consent_db" where
  "keep_oppositions e [] d = Inr d"
| "keep_oppositions e ((c, x) # xs) d = ebind (keep_opposition e c x d) (keep_oppositions e xs)"

definition erased_customers :: "string \<Rightarrow> consent_db \<Rightarrow> customer_row list" where
  "erased_customers subject d =
    (case normalizeCustomerPhone subject of
       Some n \<Rightarrow> filter (\<lambda>c. cu_phone c = subject \<or>
         list_ex (\<lambda>i. ci_customerId i = cu_id c \<and> ci_type i = PHONE_ID \<and> ci_normalizedValue i = n) (md_identities d))
         (md_customers d)
     | None \<Rightarrow> filter (\<lambda>c. cu_phone c = subject) (md_customers d))"

text \<open>\<open>slice (-16)\<close>.\<close>

definition last_16 :: "string \<Rightarrow> string" where
  "last_16 s = drop (length s - 16) s"

definition anonymous :: "tx_env \<Rightarrow> string \<Rightarrow> customer_row \<Rightarrow> customer_row" where
  "anonymous e subjectHash c = c\<lparr>cu_phone := ''erased:'' @ take 12 subjectHash @ '':'' @ last_16 (cu_id c),
     cu_emailNormalized := None, cu_name := Some ''ANON'', cu_archivedAt := Some (te_now e)\<rparr>"

text \<open>The customers are selected before the transaction; their rows are read again under a lock in it.\<close>

definition hashSubject :: "tx_env \<Rightarrow> string \<Rightarrow> string" where
  "hashSubject e subject = hex_text (te_sha256 e (js_trim (map lower_char subject)))"

definition erase_rows :: "tx_env \<Rightarrow> string \<Rightarrow> id list \<Rightarrow> consent_db \<Rightarrow> consent_db" where
  "erase_rows e subject ids d =
     d\<lparr>md_customers := upd_where (\<lambda>c. cu_id c \<in> set ids) (anonymous e (hashSubject e subject)) (md_customers d),
       md_identities := filter (\<lambda>i. ci_customerId i \<notin> set ids) (md_identities d),
       md_events := filter (\<lambda>x. pe_customerId x \<notin> set ids) (md_events d),
       md_permissions := filter (\<lambda>p. pm_customerId p \<notin> set ids) (md_permissions d),
       md_suppressions := filter (\<lambda>x. su_customerId x \<notin> set ids) (md_suppressions d),
       md_bookings := upd_where
         (\<lambda>b. bk_customerPhone b = Some subject \<or> (case bk_customerId b of Some c \<Rightarrow> c \<in> set ids | None \<Rightarrow> False))
         (\<lambda>b. b\<lparr>bk_customerId := None, bk_customerPhone := None, bk_customerEmail := None\<rparr>) (md_bookings d)\<rparr>"

definition kept_oppositions :: "tx_env \<Rightarrow> id list \<Rightarrow> consent_db \<Rightarrow>
    (customer_row \<times> channel option \<times> opposition_reason \<times> instant) list" where
  "kept_oppositions e ids d =
     concat (map (\<lambda>c. map (Pair c) (oppositions_of (te_now e) d c)) (filter (\<lambda>c. cu_id c \<in> set ids) (md_customers d)))"

definition erase_marketing :: "tx_env \<Rightarrow> string \<Rightarrow> id list \<Rightarrow> consent_db \<Rightarrow> consent_error + consent_db" where
  "erase_marketing e subject ids d =
     ebind (keep_oppositions e (kept_oppositions e ids d) d) (\<lambda>d1. Inr (erase_rows e subject ids d1))"

section \<open>Commits, and operations made of several\<close>

text \<open>
  A commit that any process may make on these tables. \<open>Identities_are\<close> and the like stand for what the rest of the program
  writes in the rows of customers, of bookings and of legacy consents.
\<close>

datatype commit = Permission_written tx_env permission_input permission_data |
  Opposition_written tx_env id channel "string option" opposition_reason string instant |
  Register_purged instant | Prospects_purged "id list" | Withdrawn_purged "id list" | Orphans_purged instant |
  Erased tx_env string "id list" | Timeline_written timeline_row | Suppression_written suppression_row |
  Customers_are "customer_row list" | Identities_are "identity_row list" | Bookings_are "booked_row list" |
  Consents_are "legacy_consent list"

text \<open>A suppression is written once for a customer, a channel and a reason.\<close>

definition upsert_suppression :: "suppression_row \<Rightarrow> consent_db \<Rightarrow> consent_db" where
  "upsert_suppression x d =
    (if list_ex (\<lambda>y. su_customerId y = su_customerId x \<and> su_channel y = su_channel x \<and> su_reason y = su_reason x)
        (md_suppressions d) then d
     else d\<lparr>md_suppressions := md_suppressions d @ [x]\<rparr>)"

definition committed :: "consent_db \<Rightarrow> consent_error + consent_db \<times> 'a \<Rightarrow> consent_db" where
  "committed d r = (case r of Inl _ \<Rightarrow> d | Inr (d', _) \<Rightarrow> d')"

fun apply_commit :: "commit \<Rightarrow> consent_db \<Rightarrow> consent_db" where
  "apply_commit (Permission_written e input pd) d = committed d (permission_tx e input pd d)"
| "apply_commit (Opposition_written e r ch address reason source occurredAt) d =
     committed d (registerMarketingOptOut e r ch address reason source occurredAt d)"
| "apply_commit (Register_purged now) d = fst (purgeExpiredMarketingOptOuts now d)"
| "apply_commit (Prospects_purged ids) d = fst (purge_prospects ids d)"
| "apply_commit (Withdrawn_purged ids) d = fst (purge_withdrawn ids d)"
| "apply_commit (Orphans_purged now) d = fst (purge_orphans now d)"
| "apply_commit (Erased e subject ids) d = (case erase_marketing e subject ids d of Inl _ \<Rightarrow> d | Inr d' \<Rightarrow> d')"
| "apply_commit (Timeline_written t) d = committed d (appendCustomerTimelineEvent t d)"
| "apply_commit (Suppression_written x) d = upsert_suppression x d"
| "apply_commit (Customers_are cs) d = d\<lparr>md_customers := cs\<rparr>"
| "apply_commit (Identities_are xs) d = d\<lparr>md_identities := xs\<rparr>"
| "apply_commit (Bookings_are bs) d = d\<lparr>md_bookings := bs\<rparr>"
| "apply_commit (Consents_are xs) d = d\<lparr>md_consents := xs\<rparr>"

fun apply_commits :: "commit list \<Rightarrow> consent_db \<Rightarrow> consent_db" where
  "apply_commits [] d = d"
| "apply_commits (c # cs) d = apply_commits cs (apply_commit c d)"

text \<open>
  By the number of a step in its operation: what the transaction of that step takes from outside, what other
  processes commit before it, and whether the database refuses it.
\<close>

record consent_env =
  ce_tx :: "nat \<Rightarrow> tx_env"
  ce_before :: "nat \<Rightarrow> commit list"
  ce_down :: "nat \<Rightarrow> bool"

datatype failure = Failure consent_error | Database_down

type_synonym 'a consent = "(consent_db, failure, 'a) act"

definition consent_step :: "consent_env \<Rightarrow> nat \<Rightarrow> (tx_env \<Rightarrow> consent_db \<Rightarrow> consent_error + consent_db \<times> 'a) \<Rightarrow> 'a consent" where
  "consent_step e k f d =
    (let d1 = apply_commits (ce_before e k) d in
     if ce_down e k then (d1, Inl Database_down)
     else case f (ce_tx e k) d1 of Inl err \<Rightarrow> (d1, Inl (Failure err)) | Inr (d2, a) \<Rightarrow> (d2, Inr a))"

definition consent_read :: "consent_env \<Rightarrow> nat \<Rightarrow> (tx_env \<Rightarrow> consent_db \<Rightarrow> 'a) \<Rightarrow> 'a consent" where
  "consent_read e k f = consent_step e k (\<lambda>t d. Inr (d, f t d))"

definition check :: "consent_error + 'a \<Rightarrow> 'a consent" where
  "check r = (case r of Inl err \<Rightarrow> throw (Failure err) | Inr a \<Rightarrow> give a)"

text \<open>Step \<open>k\<close> is the transaction, step \<open>k + 1\<close> the event of the timeline.\<close>

definition upsertMarketingPermission :: "consent_env \<Rightarrow> nat \<Rightarrow> permission_input \<Rightarrow> permission_row consent" where
  "upsertMarketingPermission e k input =
     next_do (check (permission_data_of (ce_tx e k) input)) (\<lambda>pd.
     next_do (consent_step e k (\<lambda>t. permission_tx t input pd)) (\<lambda>(p, registerFailed).
     if registerFailed then throw (Failure REGISTER_UNAVAILABLE)
     else next_do (check (permission_timeline input pd p)) (\<lambda>row.
       next_do (consent_step e (k + 1) (\<lambda>t. appendCustomerTimelineEvent row)) (\<lambda>_. give p))))"

definition withdrawMarketingPermission :: "consent_env \<Rightarrow> nat \<Rightarrow> id \<Rightarrow> id \<Rightarrow> channel \<Rightarrow> string option \<Rightarrow> string option \<Rightarrow>
    instant option \<Rightarrow> permission_row consent" where
  "withdrawMarketingPermission e k restaurantId customerId ch source actorUserId occurredAt =
     upsertMarketingPermission e k \<lparr>pi_restaurantId = restaurantId, pi_customerId = customerId, pi_channel = ch,
       pi_status = OPTED_OUT, pi_source = orElse source ''UNSUBSCRIBE'', pi_proofVersion = None, pi_proof = None,
       pi_proofHash = None, pi_actorUserId = actorUserId, pi_liftsOpposition = False, pi_occurredAt = occurredAt\<rparr>"

section \<open>Wording\<close>

definition MARKETING_CONSENT_VERSION :: string where
  "MARKETING_CONSENT_VERSION = ''marketing-consent-2026-10-28''"

fun CHANNEL_WORDING :: "channel \<Rightarrow> string" where
  "CHANNEL_WORDING SMS = ''par SMS''"
| "CHANNEL_WORDING EMAIL = ''par e-mail''"
| "CHANNEL_WORDING WHATSAPP = ''undefined''"

definition restaurantLabel :: "string \<Rightarrow> string" where
  "restaurantLabel restaurantName =
    (let name = js_trim restaurantName in if name \<noteq> [] then ''du restaurant '' @ name else ''de ce restaurant'')"

text \<open>The accent is its two bytes.\<close>

definition buildMarketingConsentLabel :: "channel \<Rightarrow> string \<Rightarrow> string" where
  "buildMarketingConsentLabel ch restaurantName =
     ''Recevoir les offres et actualit'' @ [CHR 0xC3, CHR 0xA9] @ ''s '' @ restaurantLabel restaurantName @ '' '' @ CHANNEL_WORDING ch"

definition buildMarketingConsentProof :: "channel \<Rightarrow> string \<Rightarrow> string" where
  "buildMarketingConsentProof ch restaurantName =
     MARKETING_CONSENT_VERSION @ ''|'' @ channel_code ch @ ''|'' @ buildMarketingConsentLabel ch restaurantName"

section \<open>Consent given with a booking\<close>

text \<open>\<open>row?.field\<close>.\<close>

definition opt_field :: "'a option \<Rightarrow> ('a \<Rightarrow> 'b option) \<Rightarrow> 'b option" where
  "opt_field v f = (case v of None \<Rightarrow> None | Some x \<Rightarrow> f x)"

datatype identity_result = Identity_created | Identity_updated | Identity_unchanged | Identity_conflict

definition on_identity :: "id \<Rightarrow> identity_type \<Rightarrow> string \<Rightarrow> identity_row \<Rightarrow> bool" where
  "on_identity r t v i \<longleftrightarrow> ci_restaurantId i = r \<and> ci_type i = t \<and> ci_normalizedValue i = v"

definition normalized_identity :: "identity_type \<Rightarrow> string \<Rightarrow> consent_error + string" where
  "normalized_identity t value =
    (case (case t of PHONE_ID \<Rightarrow> Inr (normalizeCustomerPhone value)
        | EMAIL_ID \<Rightarrow> Inr (normalizeCustomerEmail value)
        | POS_CUSTOMER_ID \<Rightarrow> ebind (normalizeText 320 value) (\<lambda>v. Inr (Some (map lower_char v)))) of
       Inl err \<Rightarrow> Inl err
     | Inr None \<Rightarrow> Inl NOT_NORMALIZABLE
     | Inr (Some v) \<Rightarrow> if v = [] then Inl NOT_NORMALIZABLE else Inr v)"

text \<open>The date of verification, which no caller here gives, is left out. Steps \<open>k\<close> to \<open>k + 3\<close>.\<close>

definition upsertCustomerIdentity :: "consent_env \<Rightarrow> nat \<Rightarrow> id \<Rightarrow> id \<Rightarrow> identity_type \<Rightarrow> string \<Rightarrow> string \<Rightarrow>
    identity_result consent" where
  "upsertCustomerIdentity e k restaurantId0 customerId0 t value0 source0 =
     next_do (check (ebind (normalizeText 128 restaurantId0) (\<lambda>r. ebind (normalizeText 128 customerId0) (\<lambda>c. Inr (r, c)))))
       (\<lambda>(r, c).
     next_do (consent_step e k (\<lambda>tx d.
       if list_ex (\<lambda>x. cu_id x = c \<and> cu_restaurantId x \<noteq> r) (md_customers d) then Inl CRM_TENANT_MISMATCH else Inr (d, ()))) (\<lambda>_.
     next_do (check (ebind (normalizeText 320 value0) (\<lambda>v. ebind (normalizeText 64 source0) (\<lambda>src.
       ebind (normalized_identity t v) (\<lambda>nv. Inr (v, src, nv)))))) (\<lambda>(value, source, normalizedValue).
     let here = on_identity r t normalizedValue;
         answer = (\<lambda>i. if ci_customerId i \<noteq> c then Identity_conflict else Identity_unchanged)
     in next_do (consent_read e (k + 1) (\<lambda>tx d. find here (md_identities d))) (\<lambda>existing.
       case existing of
         Some i \<Rightarrow>
           if ci_customerId i \<noteq> c then give Identity_conflict
           else if ci_value i = value \<and> ci_source i = source then give Identity_unchanged
           else next_do (consent_step e (k + 2) (\<lambda>tx d.
               Inr (d\<lparr>md_identities := upd_where here (\<lambda>x. x\<lparr>ci_value := value, ci_source := source\<rparr>) (md_identities d)\<rparr>, ())))
             (\<lambda>_. give Identity_updated)
       | None \<Rightarrow>
           next_do (consent_step e (k + 2) (\<lambda>tx d.
               if list_ex here (md_identities d) then Inr (d, False)
               else Inr (d\<lparr>md_identities := md_identities d @ [\<lparr>ci_restaurantId = r, ci_customerId = c, ci_type = t,
                 ci_value = value, ci_normalizedValue = normalizedValue, ci_source = source\<rparr>]\<rparr>, True)))
             (\<lambda>created.
               if created then give Identity_created
               else next_do (consent_step e (k + 3) (\<lambda>tx d. case find here (md_identities d) of
                     None \<Rightarrow> Inl UNIQUE_VIOLATION | Some i \<Rightarrow> Inr (d, i)))
                 (\<lambda>i. give (answer i)))))))"

datatype attached = A_OK | A_EMAIL_REQUIRED | A_EMAIL_MISMATCH

text \<open>Steps \<open>k\<close> to \<open>k + 6\<close>.\<close>

definition attachBookingEmail :: "consent_env \<Rightarrow> nat \<Rightarrow> id \<Rightarrow> id \<Rightarrow> string option \<Rightarrow> attached consent" where
  "attachBookingEmail e k restaurantId customerId email =
    (case (if truthy email then normalizeCustomerEmail (the email) else None) of
       None \<Rightarrow> give A_EMAIL_REQUIRED
     | Some normalized \<Rightarrow>
         next_do (consent_read e k (\<lambda>t d. find (\<lambda>c. cu_id c = customerId \<and> cu_restaurantId c = restaurantId \<and>
             cu_archivedAt c = None) (md_customers d))) (\<lambda>customer.
         case customer of
           None \<Rightarrow> give A_EMAIL_REQUIRED
         | Some c \<Rightarrow>
             if truthy (cu_emailNormalized c)
             then give (if cu_emailNormalized c = Some normalized then A_OK else A_EMAIL_MISMATCH)
             else next_do (upsertCustomerIdentity e (k + 1) restaurantId customerId EMAIL_ID (the email) ''BOOKING_CONSENT'') (\<lambda>identity.
               if identity = Identity_conflict then give A_EMAIL_MISMATCH
               else let empty = (\<lambda>x. cu_id x = customerId \<and> cu_restaurantId x = restaurantId \<and> cu_emailNormalized x = None) in
                 next_do (consent_step e (k + 5) (\<lambda>t d.
                   Inr (d\<lparr>md_customers := upd_where empty (\<lambda>x. x\<lparr>cu_emailNormalized := Some normalized\<rparr>) (md_customers d)\<rparr>,
                     count_where empty (md_customers d)))) (\<lambda>updated.
                 if updated = 1 then give A_OK
                 else next_do (consent_read e (k + 6) (\<lambda>t d. find (\<lambda>x. cu_id x = customerId \<and> cu_restaurantId x = restaurantId)
                     (md_customers d))) (\<lambda>raced.
                   give (if opt_field raced cu_emailNormalized = Some normalized then A_OK else A_EMAIL_MISMATCH))))))"

datatype granted = RECORDED | ALREADY_GRANTED

definition findPermission :: "id \<Rightarrow> id \<Rightarrow> channel \<Rightarrow> consent_db \<Rightarrow> permission_row option" where
  "findPermission restaurantId customerId ch d =
     find (\<lambda>p. pm_restaurantId p = restaurantId \<and> on_permission customerId ch p) (md_permissions d)"

definition booking_input :: "id \<Rightarrow> id \<Rightarrow> channel \<Rightarrow> string \<Rightarrow> string \<Rightarrow> instant \<Rightarrow> permission_input" where
  "booking_input restaurantId customerId ch restaurantName source occurredAt =
     \<lparr>pi_restaurantId = restaurantId, pi_customerId = customerId, pi_channel = ch, pi_status = OPTED_IN,
      pi_source = source, pi_proofVersion = Some MARKETING_CONSENT_VERSION,
      pi_proof = Some (buildMarketingConsentProof ch restaurantName), pi_proofHash = None, pi_actorUserId = None,
      pi_liftsOpposition = True, pi_occurredAt = Some occurredAt\<rparr>"

text \<open>Steps \<open>k\<close> to \<open>k + 2\<close>.\<close>

definition grantChannel :: "consent_env \<Rightarrow> nat \<Rightarrow> id \<Rightarrow> id \<Rightarrow> string \<Rightarrow> channel \<Rightarrow> string \<Rightarrow> instant \<Rightarrow> granted consent" where
  "grantChannel e k restaurantId customerId restaurantName ch source occurredAt =
     next_do (consent_read e k (\<lambda>t. findPermission restaurantId customerId ch)) (\<lambda>existing.
     if (case existing of None \<Rightarrow> False
         | Some p \<Rightarrow> pm_status p = OPTED_IN \<and> pm_proofVersion p = Some MARKETING_CONSENT_VERSION)
     then give ALREADY_GRANTED
     else next_do (upsertMarketingPermission e (k + 1)
         (booking_input restaurantId customerId ch restaurantName source occurredAt)) (\<lambda>_. give RECORDED))"

record booking_consent =
  bc_email :: "bool option"
  bc_sms :: "bool option"
  bc_version :: string

datatype consent_outcome = O_RECORDED | O_ALREADY_GRANTED | NOT_REQUESTED | VERSION_MISMATCH | EMAIL_REQUIRED |
  EMAIL_MISMATCH | FAILED

definition outcome_of :: "granted \<Rightarrow> consent_outcome" where
  "outcome_of g = (if g = RECORDED then O_RECORDED else O_ALREADY_GRANTED)"

text \<open>One channel inside the \<open>try\<close>: an address first, for e-mail. Steps \<open>k\<close> to \<open>k + 9\<close>.\<close>

definition record_channel :: "consent_env \<Rightarrow> nat \<Rightarrow> id \<Rightarrow> id \<Rightarrow> string \<Rightarrow> string \<Rightarrow> string option \<Rightarrow> instant \<Rightarrow> channel \<Rightarrow>
    consent_outcome consent" where
  "record_channel e k restaurantId customerId restaurantName source email occurredAt ch =
     catch
       (let grant = next_do (grantChannel e (k + 7) restaurantId customerId restaurantName ch source occurredAt)
              (\<lambda>g. give (outcome_of g))
        in if ch = EMAIL
           then next_do (attachBookingEmail e k restaurantId customerId email) (\<lambda>a.
             case a of A_OK \<Rightarrow> grant | A_EMAIL_REQUIRED \<Rightarrow> give EMAIL_REQUIRED | A_EMAIL_MISMATCH \<Rightarrow> give EMAIL_MISMATCH)
           else grant)
       (\<lambda>err. give FAILED)"

definition requested_channels :: "booking_consent option \<Rightarrow> channel list" where
  "requested_channels consent =
    (case consent of None \<Rightarrow> []
     | Some b \<Rightarrow> (if bc_email b = Some True then [EMAIL] else []) @ (if bc_sms b = Some True then [SMS] else []))"

definition same_outcome :: "consent_outcome \<Rightarrow> channel list \<Rightarrow> channel \<Rightarrow> consent_outcome" where
  "same_outcome o1 requested ch = (if ch \<in> set requested then o1 else NOT_REQUESTED)"

text \<open>The loop over the channels requested.\<close>

fun record_channels :: "consent_env \<Rightarrow> nat \<Rightarrow> id \<Rightarrow> id \<Rightarrow> string \<Rightarrow> string \<Rightarrow> string option \<Rightarrow> instant \<Rightarrow> channel list \<Rightarrow>
    (channel \<Rightarrow> consent_outcome) \<Rightarrow> (channel \<Rightarrow> consent_outcome) consent" where
  "record_channels e k restaurantId customerId restaurantName source email occurredAt [] result = give result"
| "record_channels e k restaurantId customerId restaurantName source email occurredAt (ch # chs) result =
     next_do (record_channel e k restaurantId customerId restaurantName source email occurredAt ch) (\<lambda>o1.
       record_channels e (k + 10) restaurantId customerId restaurantName source email occurredAt chs (result(ch := o1)))"

definition recordBookingMarketingConsent :: "consent_env \<Rightarrow> id \<Rightarrow> string \<Rightarrow> id option \<Rightarrow> string \<Rightarrow> booking_consent option \<Rightarrow>
    string option \<Rightarrow> instant option \<Rightarrow> (channel \<Rightarrow> consent_outcome) consent" where
  "recordBookingMarketingConsent e restaurantId restaurantName customerId source consent email occurredAt =
    (let requested = requested_channels consent in
     if requested = [] then give (\<lambda>ch. NOT_REQUESTED)
     else if bc_version (the consent) \<noteq> MARKETING_CONSENT_VERSION then give (same_outcome VERSION_MISMATCH requested)
     else if \<not> truthy customerId then give (same_outcome FAILED requested)
     else record_channels e 0 restaurantId (the customerId) restaurantName source email
       (orElse occurredAt (te_now (ce_tx e 0))) requested (\<lambda>ch. NOT_REQUESTED))"

section \<open>Consent given otherwise\<close>

datatype collection_method = IN_PERSON | PHONE | PAPER

fun method_code :: "collection_method \<Rightarrow> string" where
  "method_code IN_PERSON = ''IN_PERSON''"
| "method_code PHONE = ''PHONE''"
| "method_code PAPER = ''PAPER''"

definition restaurant_name :: "id \<Rightarrow> consent_db \<Rightarrow> string option" where
  "restaurant_name i d = map_option snd (find (\<lambda>r. fst r = i) (md_restaurants d))"

definition staff_input :: "id \<Rightarrow> id \<Rightarrow> channel \<Rightarrow> string \<Rightarrow> collection_method \<Rightarrow> string option \<Rightarrow> instant option \<Rightarrow> permission_input" where
  "staff_input restaurantId customerId ch name m actorUserId occurredAt =
     \<lparr>pi_restaurantId = restaurantId, pi_customerId = customerId, pi_channel = ch, pi_status = OPTED_IN,
      pi_source = ''DASHBOARD_'' @ method_code m, pi_proofVersion = Some MARKETING_CONSENT_VERSION,
      pi_proof = Some (buildMarketingConsentProof ch name @ ''|'' @ method_code m), pi_proofHash = None,
      pi_actorUserId = actorUserId, pi_liftsOpposition = False, pi_occurredAt = occurredAt\<rparr>"

definition recordStaffMarketingConsent :: "consent_env \<Rightarrow> id \<Rightarrow> id \<Rightarrow> channel \<Rightarrow> collection_method \<Rightarrow> string option \<Rightarrow>
    instant option \<Rightarrow> permission_row consent" where
  "recordStaffMarketingConsent e restaurantId customerId ch m actorUserId occurredAt =
     next_do (consent_step e 0 (\<lambda>t d. ebind (assertCustomerTenant customerId restaurantId d) (\<lambda>c.
       if ch = EMAIL \<and> \<not> truthy (cu_emailNormalized c) then Inl CUSTOMER_EMAIL_REQUIRED else Inr (d, ())))) (\<lambda>_.
     next_do (consent_step e 1 (\<lambda>t d. case restaurant_name restaurantId d of
       None \<Rightarrow> Inl RESTAURANT_NOT_FOUND | Some name \<Rightarrow> Inr (d, name))) (\<lambda>name.
     upsertMarketingPermission e 2 (staff_input restaurantId customerId ch name m actorUserId occurredAt)))"

datatype email_consent_status = OFFERABLE | ALREADY_OPTED_IN | UNAVAILABLE

text \<open>Steps \<open>k\<close> to \<open>k + 2\<close>.\<close>

definition marketingEmailConsentStatus :: "consent_env \<Rightarrow> nat \<Rightarrow> id \<Rightarrow> id \<Rightarrow> string option \<Rightarrow> email_consent_status consent" where
  "marketingEmailConsentStatus e k restaurantId customerId address =
    (if \<not> truthy address then give UNAVAILABLE
     else next_do (consent_read e k (\<lambda>t d. find (\<lambda>c. cu_id c = customerId \<and> cu_restaurantId c = restaurantId \<and>
         cu_archivedAt c = None) (md_customers d))) (\<lambda>customer.
       if (case customer of None \<Rightarrow> True | Some c \<Rightarrow> truthy (cu_emailNormalized c) \<and> cu_emailNormalized c \<noteq> address)
       then give UNAVAILABLE
       else next_do (consent_read e (k + 1) (\<lambda>t. findPermission restaurantId customerId EMAIL)) (\<lambda>permission.
         case map_option pm_status permission of
           Some OPTED_IN \<Rightarrow> give ALREADY_OPTED_IN
         | Some OPTED_OUT \<Rightarrow> give UNAVAILABLE
         | _ \<Rightarrow>
             if \<not> isMarketingOptOutRegisterConfigured (ce_tx e (k + 2)) then give UNAVAILABLE
             else next_do (consent_read e (k + 2) (\<lambda>t. isMarketingOptedOut t restaurantId EMAIL address)) (\<lambda>optedOut.
               give (if optedOut then UNAVAILABLE else OFFERABLE)))))"

datatype confirmation_result = C_RECORDED | C_ALREADY_GRANTED | NOT_RECORDED

definition recordConfirmationEmailConsent :: "consent_env \<Rightarrow> id \<Rightarrow> id \<Rightarrow> id \<Rightarrow> instant option \<Rightarrow> confirmation_result consent" where
  "recordConfirmationEmailConsent e restaurantId customerId reservationId occurredAt =
     next_do (consent_read e 0 (\<lambda>t. restaurant_name restaurantId)) (\<lambda>restaurantName.
     if \<not> truthy restaurantName then give NOT_RECORDED
     else next_do (consent_read e 1 (\<lambda>t d. find (\<lambda>b. bk_id b = reservationId \<and> bk_restaurantId b = restaurantId \<and>
         bk_customerId b = Some customerId) (md_bookings d))) (\<lambda>reservation.
       let email = opt_field reservation bk_customerEmail;
           address = (if truthy email then normalizeCustomerEmail (the email) else None)
       in next_do (marketingEmailConsentStatus e 2 restaurantId customerId address) (\<lambda>status.
         if \<not> truthy address \<or> status = UNAVAILABLE then give NOT_RECORDED
         else if status = ALREADY_OPTED_IN then give C_ALREADY_GRANTED
         else next_do (attachBookingEmail e 5 restaurantId customerId address) (\<lambda>a.
           if a \<noteq> A_OK then give NOT_RECORDED
           else next_do (grantChannel e 12 restaurantId customerId (the restaurantName) EMAIL ''CONFIRMATION_EMAIL''
               (orElse occurredAt (te_now (ce_tx e 12)))) (\<lambda>g.
             give (if g = RECORDED then C_RECORDED else C_ALREADY_GRANTED))))))"

section \<open>Purge and erasure, step by step\<close>

definition PURGE_BATCH_SIZE :: nat where "PURGE_BATCH_SIZE = 200"

text \<open>
  The pages of the prospects are an argument: what a cursor whose row the last page deleted gives is a matter of
  Prisma. Two steps by page, the contacts and the deletion.
\<close>

fun purge_prospect_pages :: "consent_env \<Rightarrow> nat \<Rightarrow> instant \<Rightarrow> permission_row list list \<Rightarrow> nat \<Rightarrow> nat consent" where
  "purge_prospect_pages e k now [] n = give n"
| "purge_prospect_pages e k now (page # pages) n =
     next_do (consent_read e k (\<lambda>t d. expired_prospects now d page)) (\<lambda>expired.
       if expired = [] then purge_prospect_pages e (k + 2) now pages n
       else next_do (consent_step e (k + 1) (\<lambda>t d. Inr (purge_prospects expired d))) (\<lambda>m.
         purge_prospect_pages e (k + 2) now pages (n + m)))"

text \<open>The loop over the withdrawn, which stops at a batch that deletes nothing; \<open>None\<close> when its fuel is used up.\<close>

fun purge_withdrawn_loop :: "consent_env \<Rightarrow> nat \<Rightarrow> nat \<Rightarrow> instant \<Rightarrow> nat \<Rightarrow> nat option consent" where
  "purge_withdrawn_loop e 0 k now n = give None"
| "purge_withdrawn_loop e (Suc fuel) k now n =
     next_do (consent_read e k (\<lambda>t d. map pm_id (take PURGE_BATCH_SIZE (withdrawn_page now d)))) (\<lambda>ids.
       if ids = [] then give (Some n)
       else next_do (consent_step e (k + 1) (\<lambda>t d. Inr (purge_withdrawn ids d))) (\<lambda>deleted.
         if deleted = 0 then give (Some n) else purge_withdrawn_loop e fuel (k + 2) now (n + deleted)))"

definition purgeMarketingRetention :: "consent_env \<Rightarrow> nat \<Rightarrow> instant \<Rightarrow> permission_row list list \<Rightarrow>
    (nat \<times> nat option \<times> nat) consent" where
  "purgeMarketingRetention e fuel now pages =
     next_do (purge_prospect_pages e 0 now pages 0) (\<lambda>prospectFiles.
     next_do (purge_withdrawn_loop e fuel (2 * length pages) now 0) (\<lambda>withdrawnPermissions.
     next_do (consent_step e (2 * length pages + 2 * fuel) (\<lambda>t d. Inr (purge_orphans now d))) (\<lambda>orphanEvents.
       give (prospectFiles, withdrawnPermissions, orphanEvents))))"

text \<open>The customers of the subject are looked for before the transaction.\<close>

definition erase_subject :: "consent_env \<Rightarrow> string \<Rightarrow> unit consent" where
  "erase_subject e subject =
     next_do (consent_read e 0 (\<lambda>t. erased_customers subject)) (\<lambda>customers.
       consent_step e 1 (\<lambda>t d. ebind (erase_marketing t subject (map cu_id customers) d) (\<lambda>d'. Inr (d', ()))))"

text \<open>Alone, the loop ends after as many rounds as there are permissions, and one more.\<close>

definition undisturbed :: "consent_env \<Rightarrow> bool" where
  "undisturbed e \<longleftrightarrow> (\<forall>k. ce_before e k = [] \<and> \<not> ce_down e k)"

lemma undisturbed_step:
  "undisturbed e \<Longrightarrow> consent_step e k f d = (case f (ce_tx e k) d of Inl err \<Rightarrow> (d, Inl (Failure err)) | Inr (d', a) \<Rightarrow> (d', Inr a))"
  by (simp add: consent_step_def undisturbed_def)

lemma undisturbed_read: "undisturbed e \<Longrightarrow> consent_read e k f d = (d, Inr (f (ce_tx e k) d))"
  by (simp add: consent_read_def undisturbed_step)

lemma purge_withdrawn_length:
  "length (md_permissions (fst (purge_withdrawn ids d))) + snd (purge_withdrawn ids d) = length (md_permissions d)"
  by (simp add: purge_withdrawn_def delete_permissions_def Let_def count_where_def)
    (metis (no_types, lifting) add.commute filter_cong sum_length_filter_compl)

lemma purge_withdrawn_loop_ends:
  "undisturbed e \<Longrightarrow> length (md_permissions d) < fuel \<Longrightarrow>
     \<exists>d' m. purge_withdrawn_loop e fuel k now n d = (d', Inr (Some m))"
proof (induction e fuel k now n arbitrary: d rule: purge_withdrawn_loop.induct)
  case (2 e fuel k now n)
  let ?ids = "map pm_id (take PURGE_BATCH_SIZE (withdrawn_page now d))"
  let ?d' = "fst (purge_withdrawn ?ids d)" and ?m = "snd (purge_withdrawn ?ids d)"
  show ?case
  proof (cases "?ids = [] \<or> ?m = 0")
    case True
    then show ?thesis
      using 2(2) by (auto simp: next_do_def undisturbed_read undisturbed_step give_def split: prod.splits)
  next
    case False
    then have "length (md_permissions ?d') < fuel"
      using 2(3) purge_withdrawn_length [of ?ids d] by simp
    then obtain d2 m2 where "purge_withdrawn_loop e fuel (k + 2) now (n + ?m) ?d' = (d2, Inr (Some m2))"
      using 2(1) [of ?ids ?m ?d'] 2(2) False by auto
    then show ?thesis
      using 2(2) False by (auto simp: next_do_def undisturbed_read undisturbed_step split: prod.splits)
  qed
qed simp

end
