(* ===== verification/Marketing_Register.thy ===== *)
theory Marketing_Register
  imports Marketing_Consent
begin

text \<open>
  What the register of oppositions and the ledger of permissions keep over any sequence of commits
  (\<open>Marketing_Consent\<close>): an opposition stands until the person lifts it, an erasure carries it over, a withdrawal
  always blocks, and each permission is what its last event says.
\<close>

section \<open>Entries of the register\<close>

definition on_register :: "id \<Rightarrow> channel \<Rightarrow> string \<Rightarrow> instant \<Rightarrow> consent_db \<Rightarrow> bool" where
  "on_register r ch h until d \<longleftrightarrow> (\<exists>x \<in> set (md_optOuts d). on_entry r ch h x \<and> until \<le> oo_retainUntil x)"

lemma on_register_weaker: "on_register r ch h u d \<Longrightarrow> u' \<le> u \<Longrightarrow> on_register r ch h u' d"
  by (auto simp: on_register_def)

lemma opted_out_iff:
  "marketingOptOutHash e r ch a = Some h \<Longrightarrow> isMarketingOptedOut e r ch a d \<longleftrightarrow> (\<exists>x \<in> set (md_optOuts d). on_entry r ch h x)"
  by (auto simp: isMarketingOptedOut_def findRegisteredOptOutHashes_def on_entry_def)

lemma hash_configured: "marketingOptOutHash e r ch a = Some h \<Longrightarrow> isMarketingOptOutRegisterConfigured e"
  by (auto simp: marketingOptOutHash_def isMarketingOptOutRegisterConfigured_def split: option.splits)

lemma loaded_iff:
  assumes "marketingOptOutHash e r ch (address_of ch c) = Some h"
  shows "loadOptedOutCustomerIds e r ch [c] d =
    (True, if \<exists>x \<in> set (md_optOuts d). on_entry r ch h x then [cu_id c] else [])"
  using assms hash_configured [OF assms]
  by (auto simp: loadOptedOutCustomerIds_def hash_by_customer_def findRegisteredOptOutHashes_def js_set_def on_entry_def Let_def)

definition refreshed :: "opposition_reason \<Rightarrow> string \<Rightarrow> instant \<Rightarrow> opt_out_row \<Rightarrow> opt_out_row" where
  "refreshed reason src t x = x\<lparr>oo_reason := reason, oo_source := src, oo_optedOutAt := t,
     oo_retainUntil := marketingOptOutRetainUntil t\<rparr>"

lemma refreshed_simps [simp]:
  "on_entry r ch h (refreshed reason src t x) \<longleftrightarrow> on_entry r ch h x"
  "oo_retainUntil (refreshed reason src t x) = marketingOptOutRetainUntil t"
  by (simp_all add: refreshed_def on_entry_def)

lemma upsertOptOut_row:
  assumes "x \<in> set rows"
  shows "(if on_entry r ch h x then refreshed reason src t x else x) \<in> set (upsertOptOut r ch h reason src t rows)"
proof (cases "list_ex (on_entry r ch h) rows")
  case True
  have "upsertOptOut r ch h reason src t rows = upd_where (on_entry r ch h) (refreshed reason src t) rows"
    using True by (simp add: upsertOptOut_def Let_def refreshed_def [abs_def])
  then show ?thesis
    using assms by (auto simp: set_upd_where)
next
  case False
  then show ?thesis
    using assms by (auto simp: upsertOptOut_def Let_def list_ex_iff)
qed

lemma upsertOptOut_keeps:
  assumes "\<exists>x \<in> set rows. on_entry r ch h x \<and> u \<le> oo_retainUntil x"
    and "on_entry r' ch' h' = on_entry r ch h \<Longrightarrow> u \<le> marketingOptOutRetainUntil t"
  shows "\<exists>x \<in> set (upsertOptOut r' ch' h' reason src t rows). on_entry r ch h x \<and> u \<le> oo_retainUntil x"
proof -
  obtain x where x: "x \<in> set rows" "on_entry r ch h x" "u \<le> oo_retainUntil x"
    using assms(1) by blast
  have "on_entry r' ch' h' x \<Longrightarrow> on_entry r' ch' h' = on_entry r ch h"
    using x(2) by (auto simp: on_entry_def fun_eq_iff)
  then show ?thesis
    using upsertOptOut_row [OF x(1), of r' ch' h' reason src t] x assms(2)
    by (intro bexI [of _ "if on_entry r' ch' h' x then refreshed reason src t x else x"]) auto
qed

lemma upsertOptOut_there: "\<exists>x \<in> set (upsertOptOut r ch h reason src t rows). on_entry r ch h x"
proof (cases "list_ex (on_entry r ch h) rows")
  case True
  then obtain x where "x \<in> set rows" "on_entry r ch h x"
    by (auto simp: list_ex_iff)
  then show ?thesis
    using upsertOptOut_row [of x rows r ch h reason src t] by (intro bexI [of _ "refreshed reason src t x"]) auto
next
  case False
  then show ?thesis
    by (auto simp: upsertOptOut_def Let_def on_entry_def)
qed

lemma upsertOptOut_mono:
  assumes "x \<in> set rows" "on_entry r ch h x"
  shows "\<exists>y \<in> set (upsertOptOut r' ch' h' reason src t rows). on_entry r ch h y"
  using upsertOptOut_row [OF assms(1), of r' ch' h' reason src t] assms(2)
  by (intro bexI [of _ "if on_entry r' ch' h' x then refreshed reason src t x else x"]) auto

section \<open>What leaves an entry in place\<close>

text \<open>The person's own gesture, on this address.\<close>

definition lifts :: "id \<Rightarrow> channel \<Rightarrow> string \<Rightarrow> commit \<Rightarrow> consent_db \<Rightarrow> bool" where
  "lifts r ch h c d =
    (case c of
       Permission_written e input pd \<Rightarrow>
         pi_status input = OPTED_IN \<and> pi_liftsOpposition input \<and> pi_restaurantId input = r \<and> pi_channel input = ch \<and>
         (case assertCustomerTenant (pi_customerId input) r d of
            Inl _ \<Rightarrow> False
          | Inr contact \<Rightarrow> marketingOptOutHash e r ch (address_of ch contact) = Some h)
     | _ \<Rightarrow> False)"

text \<open>
  No purge of the register runs after the instant \<open>until\<close>, and no later opposition has a shorter retention: a second
  opposition replaces the dates of the first.
\<close>

definition retains :: "instant \<Rightarrow> commit \<Rightarrow> bool" where
  "retains until c =
    (case c of
       Register_purged now \<Rightarrow> now \<le> until
     | Permission_written e input pd \<Rightarrow> pi_status input = OPTED_OUT \<longrightarrow> until \<le> marketingOptOutRetainUntil (pd_occurredAt pd)
     | Opposition_written e r ch address reason source t \<Rightarrow> until \<le> marketingOptOutRetainUntil t
     | _ \<Rightarrow> True)"

fun unlifted :: "id \<Rightarrow> channel \<Rightarrow> string \<Rightarrow> instant \<Rightarrow> commit list \<Rightarrow> consent_db \<Rightarrow> bool" where
  "unlifted r ch h until [] d = True"
| "unlifted r ch h until (c # cs) d \<longleftrightarrow>
     \<not> lifts r ch h c d \<and> retains until c \<and> unlifted r ch h until cs (apply_commit c d)"

lemma register_keeps:
  assumes "on_register r ch h u d" "u \<le> marketingOptOutRetainUntil t"
    and "registerMarketingOptOut e r' ch' a reason src t d = Inr (d', out)"
  shows "on_register r ch h u d'"
  using assms upsertOptOut_keeps [where t = t, of "md_optOuts d" r ch h u]
  by (auto simp: registerMarketingOptOut_def on_register_def split: if_splits option.splits)

lemma keep_opposition_keeps:
  assumes "on_register r ch h u d" "keep_opposition e c x d = Inr d'"
  shows "on_register r ch h u d'"
proof -
  obtain och reason t where x: "x = (och, reason, t)"
    by (cases x)
  show ?thesis
  proof (cases och)
    case None
    then show ?thesis
      using assms x by (simp add: keep_opposition_def)
  next
    case (Some och')
    show ?thesis
    proof (cases "marketingOptOutHash e (cu_restaurantId c) och' (address_of och' c)")
      case None
      then show ?thesis
        using assms x Some
        by (auto simp: keep_opposition_def registerMarketingOptOut_def isMarketingOptedOut_def split: if_splits elim!: ebind_InrE)
    next
      case (Some h')
      show ?thesis
      proof (cases "isMarketingOptedOut e (cu_restaurantId c) och' (address_of och' c) d")
        case True
        then show ?thesis
          using assms x \<open>och = Some och'\<close> by (simp add: keep_opposition_def)
      next
        case False
        then have "on_entry (cu_restaurantId c) och' h' \<noteq> on_entry r ch h"
          using assms(1) opted_out_iff [OF Some] by (auto simp: on_register_def)
        then have "on_register r ch h u (d\<lparr>md_optOuts := upsertOptOut (cu_restaurantId c) och' h' reason ''RGPD_ERASURE'' t (md_optOuts d)\<rparr>)"
          using assms(1) upsertOptOut_keeps [of "md_optOuts d" r ch h u "cu_restaurantId c" och' h' t]
          by (auto simp: on_register_def)
        then show ?thesis
          using assms x \<open>och = Some och'\<close> Some False hash_configured [OF Some]
          by (auto simp: keep_opposition_def registerMarketingOptOut_def split: if_splits elim!: ebind_InrE)
      qed
    qed
  qed
qed

lemma keep_oppositions_keeps:
  "on_register r ch h u d \<Longrightarrow> keep_oppositions e xs d = Inr d' \<Longrightarrow> on_register r ch h u d'"
  by (induction e xs d rule: keep_oppositions.induct) (auto elim!: ebind_InrE dest: keep_opposition_keeps)

lemma on_register_optOuts: "md_optOuts d' = md_optOuts d \<Longrightarrow> on_register r ch h u d' \<longleftrightarrow> on_register r ch h u d"
  by (simp add: on_register_def)

lemma erase_keeps:
  assumes "on_register r ch h u d" "erase_marketing e subject ids d = Inr d'"
  shows "on_register r ch h u d'"
proof -
  obtain d1 where "keep_oppositions e (kept_oppositions e ids d) d = Inr d1" "d' = erase_rows e subject ids d1"
    using assms(2) by (auto simp: erase_marketing_def elim!: ebind_InrE)
  then show ?thesis
    using keep_oppositions_keeps [OF assms(1)] on_register_optOuts [of d' d1] by (simp add: erase_rows_def)
qed

lemma sync_keeps:
  assumes "on_register r ch h u d" "syncOptOutRegister e r' ch' st src t lift contact d = Inr d'"
    and "st = OPTED_OUT \<Longrightarrow> u \<le> marketingOptOutRetainUntil t"
    and "\<not> (st = OPTED_IN \<and> lift \<and> r' = r \<and> ch' = ch \<and> marketingOptOutHash e r ch (address_of ch contact) = Some h)"
  shows "on_register r ch h u d'"
proof (cases st)
  case OPTED_OUT
  then obtain out where "registerMarketingOptOut e r' ch' (address_of ch' contact) (optOutReasonFor src) src t d = Inr (d', out)"
    using assms(2) by (auto simp: syncOptOutRegister_def Let_def split: sum.splits prod.splits if_splits)
  then show ?thesis
    using register_keeps [OF assms(1) assms(3)] OPTED_OUT by blast
next
  case OPTED_IN
  have "\<exists>x \<in> set (filter (\<lambda>x. \<not> on_entry r' ch' h' x) (md_optOuts d)). on_entry r ch h x \<and> u \<le> oo_retainUntil x"
    if "lift" "marketingOptOutHash e r' ch' (address_of ch' contact) = Some h'" for h'
    using assms(1,4) OPTED_IN that by (auto simp: on_register_def on_entry_def)
  then show ?thesis
    using assms(1,2) OPTED_IN
    by (auto simp: syncOptOutRegister_def Let_def clearMarketingOptOut_def on_register_def split: if_splits option.splits sum.splits)
next
  case UNKNOWN
  then show ?thesis
    using assms(1,2) by (simp add: syncOptOutRegister_def)
qed

lemma upsertPermission_optOuts:
  "upsertPermission e input pd d = Inr (d', p) \<Longrightarrow>
     md_optOuts d' = md_optOuts d \<and> md_customers d' = md_customers d \<and> md_events d' = md_events d"
  by (auto simp: upsertPermission_def Let_def split: option.splits if_splits)

lemma permission_txE:
  fixes flag :: bool
  assumes "permission_tx e input pd d = Inr (d', p, flag)"
  obtains contact d1 where
    "assertCustomerTenant (pi_customerId input) (pi_restaurantId input) d = Inr contact"
    "upsertPermission e input pd d = Inr (d1, p)"
    "if flag then pi_status input = OPTED_OUT \<and> d' = d1\<lparr>md_events := md_events d @ [event_of input pd p]\<rparr>
     else syncOptOutRegister e (pi_restaurantId input) (pi_channel input) (pi_status input) (pd_source pd) (pd_occurredAt pd)
       (pi_liftsOpposition input) contact (d1\<lparr>md_events := md_events d @ [event_of input pd p]\<rparr>) = Inr d'"
proof -
  from assms obtain contact d1 where *: "assertCustomerTenant (pi_customerId input) (pi_restaurantId input) d = Inr contact"
    "upsertPermission e input pd d = Inr (d1, p)"
    by (auto simp: permission_tx_def Let_def split: sum.splits if_splits elim!: ebind_InrE)
  then show thesis
    using assms upsertPermission_optOuts [OF *(2)]
    by (intro that [of contact d1]) (auto simp: permission_tx_def Let_def split: sum.splits if_splits)
qed

lemma permission_tx_keeps:
  assumes reg: "on_register r ch h u d" and tx: "permission_tx e input pd d = Inr (d', p, flag)"
    and "\<not> lifts r ch h (Permission_written e input pd) d" "retains u (Permission_written e input pd)"
  shows "on_register r ch h u d'"
  using tx
proof (rule permission_txE)
  fix contact d1
  assume who: "assertCustomerTenant (pi_customerId input) (pi_restaurantId input) d = Inr contact"
    and row: "upsertPermission e input pd d = Inr (d1, p)"
    and rest: "if flag then pi_status input = OPTED_OUT \<and> d' = d1\<lparr>md_events := md_events d @ [event_of input pd p]\<rparr>
     else syncOptOutRegister e (pi_restaurantId input) (pi_channel input) (pi_status input) (pd_source pd) (pd_occurredAt pd)
       (pi_liftsOpposition input) contact (d1\<lparr>md_events := md_events d @ [event_of input pd p]\<rparr>) = Inr d'"
  have "on_register r ch h u (d1\<lparr>md_events := md_events d @ [event_of input pd p]\<rparr>)"
    using reg upsertPermission_optOuts [OF row] by (simp add: on_register_def)
  then show ?thesis
    using rest assms(3,4) who
    by (cases flag) (auto simp: lifts_def retains_def intro: sync_keeps)
qed

lemma commit_keeps_opposition:
  assumes "on_register r ch h u d" "\<not> lifts r ch h c d" "retains u c"
  shows "on_register r ch h u (apply_commit c d)"
proof (cases c)
  case (Permission_written e input pd)
  then show ?thesis
    using assms permission_tx_keeps [of r ch h u d e input pd]
    by (auto simp: committed_def split: sum.splits prod.splits)
next
  case (Opposition_written e r' ch' address reason source t)
  then show ?thesis
    using assms register_keeps [of r ch h u d t]
    by (auto simp: committed_def retains_def split: sum.splits prod.splits)
next
  case (Erased e subject ids)
  then show ?thesis
    using assms erase_keeps [of r ch h u d] by (auto split: sum.splits)
next
  case (Register_purged now)
  then show ?thesis
    using assms by (force simp: on_register_def purgeExpiredMarketingOptOuts_def retains_def)
qed (use assms in \<open>auto simp: on_register_def purge_prospects_def purge_withdrawn_def delete_permissions_def purge_orphans_def
    Let_def upsert_suppression_def committed_def appendCustomerTimelineEvent_def split: sum.splits prod.splits if_splits
    elim!: ebind_InrE\<close>)

lemma unlifted_keeps:
  "on_register r ch h u d \<Longrightarrow> unlifted r ch h u cs d \<Longrightarrow> on_register r ch h u (apply_commits cs d)"
  by (induction cs arbitrary: d) (auto intro: commit_keeps_opposition)

section \<open>The ledger\<close>

definition on_event :: "id \<Rightarrow> channel \<Rightarrow> permission_event \<Rightarrow> bool" where
  "on_event c ch x \<longleftrightarrow> pe_customerId x = c \<and> pe_channel x = ch"

definition last_event :: "id \<Rightarrow> channel \<Rightarrow> permission_event list \<Rightarrow> permission_event option" where
  "last_event c ch xs = find (on_event c ch) (rev xs)"

definition says :: "permission_row \<Rightarrow> permission_event \<Rightarrow> bool" where
  "says p x \<longleftrightarrow> pe_permissionId x = Some (pm_id p) \<and> pe_status x = pm_status p \<and> pe_source x = pm_source p \<and>
     pe_proofVersion x = pm_proofVersion p \<and> pe_proofHash x = pm_proofHash p"

text \<open>
  The keys of the table; each row says what the last event of its customer and channel says; and an agreement has
  a proof.
\<close>

definition row_ok :: "permission_event list \<Rightarrow> permission_row \<Rightarrow> bool" where
  "row_ok xs p \<longleftrightarrow>
     (case last_event (pm_customerId p) (pm_channel p) xs of None \<Rightarrow> False | Some x \<Rightarrow> says p x) \<and>
     (pm_status p = OPTED_IN \<longrightarrow> pm_proofVersion p \<noteq> None \<and> pm_proofHash p \<noteq> None)"

definition ledger_ok :: "consent_db \<Rightarrow> bool" where
  "ledger_ok d \<longleftrightarrow> distinct (map pm_id (md_permissions d)) \<and>
     distinct (map (\<lambda>p. (pm_customerId p, pm_channel p)) (md_permissions d)) \<and>
     list_all (row_ok (md_events d)) (md_permissions d)"

text \<open>
  A new row has an identifier of its own, its data come from the checks, and the rows that a purge of withdrawn permissions
  selected are still withdrawn when it deletes them.
\<close>

definition sound_commit :: "commit \<Rightarrow> consent_db \<Rightarrow> bool" where
  "sound_commit c d \<longleftrightarrow>
    (case c of
       Permission_written e input pd \<Rightarrow>
         permission_data_of e input = Inr pd \<and> te_uuid e \<notin> set (map pm_id (md_permissions d))
     | Withdrawn_purged ids \<Rightarrow> list_all (\<lambda>p. pm_id p \<in> set ids \<longrightarrow> pm_status p = OPTED_OUT) (md_permissions d)
     | _ \<Rightarrow> True)"

fun sound_commits :: "commit list \<Rightarrow> consent_db \<Rightarrow> bool" where
  "sound_commits [] d = True"
| "sound_commits (c # cs) d \<longleftrightarrow> sound_commit c d \<and> sound_commits cs (apply_commit c d)"

lemma last_event_snoc [simp]:
  "last_event c ch (xs @ [x]) = (if on_event c ch x then Some x else last_event c ch xs)"
  by (simp add: last_event_def)

lemma last_event_filter:
  assumes "last_event c ch xs = Some x" "q x"
  shows "last_event c ch (filter q xs) = Some x"
  using assms by (induction xs rule: rev_induct) (auto split: if_splits)

lemma last_event_map:
  assumes "last_event c ch xs = Some x" "f x = x" "\<And>y. on_event c ch (f y) = on_event c ch y"
  shows "last_event c ch (map f xs) = Some x"
  using assms by (induction xs rule: rev_induct) (auto split: if_splits)

lemma last_event_on: "last_event c ch xs = Some x \<Longrightarrow> on_event c ch x"
  by (auto simp: last_event_def dest: find_Some_D)

lemma row_ok_filter: "row_ok xs p \<Longrightarrow> (\<And>x. on_event (pm_customerId p) (pm_channel p) x \<Longrightarrow> says p x \<Longrightarrow> q x) \<Longrightarrow> row_ok (filter q xs) p"
  by (auto simp: row_ok_def last_event_filter last_event_on split: option.splits)

lemma row_ok_map:
  assumes "row_ok xs p" "\<And>x. says p x \<Longrightarrow> f x = x" "\<And>y. on_event (pm_customerId p) (pm_channel p) (f y) = on_event (pm_customerId p) (pm_channel p) y"
  shows "row_ok (map f xs) p"
  using assms by (auto simp: row_ok_def last_event_map split: option.splits)

lemma row_ok_snoc:
  "row_ok (xs @ [x]) p \<longleftrightarrow>
     (if on_event (pm_customerId p) (pm_channel p) x
      then says p x \<and> (pm_status p = OPTED_IN \<longrightarrow> pm_proofVersion p \<noteq> None \<and> pm_proofHash p \<noteq> None) else row_ok xs p)"
  by (simp add: row_ok_def)

lemma ledger_ok_frame:
  "md_permissions d' = md_permissions d \<Longrightarrow> md_events d' = md_events d \<Longrightarrow> ledger_ok d' \<longleftrightarrow> ledger_ok d"
  by (simp add: ledger_ok_def)

lemma distinct_map_filter_rows: "distinct (map f xs) \<Longrightarrow> distinct (map f (filter q xs))"
  by (rule distinct_map_filter)

lemma ledger_ok_filter:
  assumes "ledger_ok d" "\<And>p. p \<in> set (md_permissions d) \<Longrightarrow> q p \<Longrightarrow> row_ok (md_events d) p \<Longrightarrow> row_ok xs p"
  shows "ledger_ok (d\<lparr>md_permissions := filter q (md_permissions d), md_events := xs\<rparr>)"
  using assms by (auto simp: ledger_ok_def distinct_map_filter list_all_iff)

lemma delete_permissions_ledger:
  assumes "ledger_ok d"
  shows "ledger_ok (fst (delete_permissions q d))"
proof -
  let ?gone = "set (map pm_id (filter q (md_permissions d)))"
  have ids: "distinct (map pm_id (md_permissions d))"
    using assms by (simp add: ledger_ok_def)
  have "row_ok (map (unlinked ?gone) (md_events d)) p"
    if p: "p \<in> set (md_permissions d)" "\<not> q p" "row_ok (md_events d) p" for p
  proof (rule row_ok_map [OF p(3)])
    have "pm_id p \<notin> ?gone"
      using ids p by (auto simp: distinct_map inj_on_def)
    then show "unlinked ?gone x = x" if "says p x" for x
      using that by (simp add: says_def unlinked_def)
  qed (simp add: on_event_def unlinked_def split: option.splits)
  then show ?thesis
    using ledger_ok_filter [OF assms, of "\<lambda>p. \<not> q p" "map (unlinked ?gone) (md_events d)"]
    by (simp add: delete_permissions_def Let_def del: set_map)
qed

lemma ledger_events_filter:
  assumes "ledger_ok d" "\<And>p x. p \<in> set (md_permissions d) \<Longrightarrow> says p x \<Longrightarrow> on_event (pm_customerId p) (pm_channel p) x \<Longrightarrow> q x"
  shows "ledger_ok (d\<lparr>md_events := filter q (md_events d)\<rparr>)"
  using assms by (auto simp: ledger_ok_def list_all_iff intro: row_ok_filter)

lemma purge_withdrawn_ledger:
  assumes ok: "ledger_ok d" and still: "list_all (\<lambda>p. pm_id p \<in> set ids \<longrightarrow> pm_status p = OPTED_OUT) (md_permissions d)"
  shows "ledger_ok (fst (purge_withdrawn ids d))"
proof -
  let ?keep = "\<lambda>x. case pe_permissionId x of Some i \<Rightarrow> i \<notin> set ids | None \<Rightarrow> True"
  let ?q = "\<lambda>p. pm_id p \<in> set ids \<and> pm_status p = OPTED_OUT"
  let ?d1 = "d\<lparr>md_permissions := filter (\<lambda>p. \<not> ?q p) (md_permissions d), md_events := filter ?keep (md_events d)\<rparr>"
  have ids: "distinct (map pm_id (md_permissions d))"
    using ok by (simp add: ledger_ok_def)
  have base: "ledger_ok ?d1"
  proof (rule ledger_ok_filter [OF ok])
    fix p
    assume p: "p \<in> set (md_permissions d)" "\<not> ?q p" "row_ok (md_events d) p"
    then have "pm_id p \<notin> set ids"
      using still by (auto simp: list_all_iff)
    then show "row_ok (filter ?keep (md_events d)) p"
      using p(3) by (auto intro!: row_ok_filter simp: says_def)
  qed
  let ?gone = "set (map pm_id (filter ?q (md_permissions d)))"
  have "map (unlinked ?gone) (filter ?keep (md_events d)) = filter ?keep (md_events d)"
    by (rule map_idI) (auto simp: unlinked_def split: option.splits)
  then have "fst (purge_withdrawn ids d) = ?d1"
    by (simp add: purge_withdrawn_def delete_permissions_def Let_def del: set_map)
  then show ?thesis
    using base by simp
qed

lemma purge_orphans_ledger: "ledger_ok d \<Longrightarrow> ledger_ok (fst (purge_orphans now d))"
  by (simp add: purge_orphans_def Let_def) (rule ledger_events_filter, auto simp: says_def)

lemma keep_oppositions_frame:
  "keep_oppositions e xs d = Inr d' \<Longrightarrow> md_permissions d' = md_permissions d \<and> md_events d' = md_events d \<and>
     md_customers d' = md_customers d \<and> md_suppressions d' = md_suppressions d"
proof (induction e xs d rule: keep_oppositions.induct)
  case (2 e c x xs d)
  then obtain d1 where d1: "keep_opposition e c x d = Inr d1" "keep_oppositions e xs d1 = Inr d'"
    by (auto elim!: ebind_InrE)
  have "md_permissions d1 = md_permissions d \<and> md_events d1 = md_events d \<and>
      md_customers d1 = md_customers d \<and> md_suppressions d1 = md_suppressions d"
    using d1(1) by (auto simp: keep_opposition_def registerMarketingOptOut_def split: prod.splits option.splits if_splits elim!: ebind_InrE)
  then show ?case
    using 2(1) [OF d1(2)] by simp
qed simp

lemma erase_ledger:
  assumes "ledger_ok d" "erase_marketing e subject ids d = Inr d'"
  shows "ledger_ok d'"
proof -
  obtain d1 where "keep_oppositions e (kept_oppositions e ids d) d = Inr d1" and d': "d' = erase_rows e subject ids d1"
    using assms(2) by (auto simp: erase_marketing_def elim!: ebind_InrE)
  then have d1: "md_permissions d1 = md_permissions d" "md_events d1 = md_events d"
    by (auto dest: keep_oppositions_frame)
  have "ledger_ok (d\<lparr>md_permissions := filter (\<lambda>p. pm_customerId p \<notin> set ids) (md_permissions d),
      md_events := filter (\<lambda>x. pe_customerId x \<notin> set ids) (md_events d)\<rparr>)"
    by (rule ledger_ok_filter [OF assms(1)]) (auto intro!: row_ok_filter simp: on_event_def)
  then show ?thesis
    using d1 d' by (simp add: ledger_ok_def erase_rows_def)
qed

lemma written_fields [simp]:
  "pm_id (written_permission st pd p) = pm_id p"
  "pm_customerId (written_permission st pd p) = pm_customerId p"
  "pm_channel (written_permission st pd p) = pm_channel p"
  "pm_restaurantId (written_permission st pd p) = pm_restaurantId p"
  "pm_status (written_permission st pd p) = st"
  "pm_source (written_permission st pd p) = pd_source pd"
  "pm_proofVersion (written_permission st pd p) = pd_proofVersion pd"
  "pm_proofHash (written_permission st pd p) = pd_proofHash pd"
  by (simp_all add: written_permission_def)

lemma data_has_proof:
  "permission_data_of e input = Inr pd \<Longrightarrow> pi_status input = OPTED_IN \<Longrightarrow> pd_proofVersion pd \<noteq> None \<and> pd_proofHash pd \<noteq> None"
  by (auto simp: permission_data_of_def Let_def split: if_splits elim!: ebind_InrE)

lemma upsertPermission_ledger:
  assumes ok: "ledger_ok d" and up: "upsertPermission e input pd d = Inr (d1, p)"
    and pd: "permission_data_of e input = Inr pd" and fresh: "te_uuid e \<notin> set (map pm_id (md_permissions d))"
  shows "ledger_ok (d1\<lparr>md_events := md_events d @ [event_of input pd p]\<rparr>)"
proof -
  let ?c = "pi_customerId input" and ?ch = "pi_channel input"
  let ?here = "\<lambda>p. on_permission ?c ?ch p \<and> pm_restaurantId p = pi_restaurantId input"
  let ?key = "\<lambda>p. (pm_customerId p, pm_channel p)"
  let ?w = "written_permission (pi_status input) pd"
  have keys: "distinct (map pm_id (md_permissions d))" "distinct (map ?key (md_permissions d))"
    and rows: "\<And>q. q \<in> set (md_permissions d) \<Longrightarrow> row_ok (md_events d) q"
    using ok by (auto simp: ledger_ok_def list_all_iff)
  have other: "row_ok (md_events d @ [event_of input pd p]) q"
    if "q \<in> set (md_permissions d)" "\<not> on_permission ?c ?ch q" for q
    using rows [OF that(1)] that(2) by (auto simp: row_ok_snoc on_event_def event_of_def on_permission_def)
  have own: "row_ok (md_events d @ [event_of input pd p]) p" if "p = ?w q" "on_permission ?c ?ch q" for q
    using that data_has_proof [OF pd]
    by (auto simp: row_ok_snoc on_event_def event_of_def on_permission_def says_def)
  show ?thesis
  proof (cases "find ?here (md_permissions d)")
    case (Some p0)
    have p0: "p0 \<in> set (md_permissions d)" "?here p0"
      using find_Some_D [OF Some] by auto
    have d1: "md_permissions d1 = upd_where ?here ?w (md_permissions d)" and p: "p = ?w p0"
      using up Some by (auto simp: upsertPermission_def Let_def)
    have only: "q = p0" if "q \<in> set (md_permissions d)" "on_permission ?c ?ch q" for q
      using inj_onD [OF distinct_map [THEN iffD1, OF keys(2), THEN conjunct2], of q p0] p0 that
      by (simp add: on_permission_def)
    have "row_ok (md_events d @ [event_of input pd p]) q" if mem: "q \<in> set (md_permissions d1)" for q
    proof -
      obtain q0 where q0: "q0 \<in> set (md_permissions d)" "q = (if ?here q0 then ?w q0 else q0)"
        using mem unfolding d1 set_upd_where by blast
      show ?thesis
      proof (cases "on_permission ?c ?ch q0")
        case True
        then have "q = p"
          using only [OF q0(1)] p0 q0(2) p by simp
        then show ?thesis
          using own [OF p] p0 by simp
      next
        case False
        then show ?thesis
          using other [OF q0(1)] q0(2) by simp
      qed
    qed
    moreover have "map pm_id (md_permissions d1) = map pm_id (md_permissions d)"
      "map ?key (md_permissions d1) = map ?key (md_permissions d)"
      unfolding d1 by (simp_all add: map_upd_where_same)
    ultimately show ?thesis
      using keys by (simp add: ledger_ok_def list_all_iff)
  next
    case None
    then have none: "\<not> list_ex (on_permission ?c ?ch) (md_permissions d)"
      and d1: "md_permissions d1 = md_permissions d @ [p]"
      using up by (auto simp: upsertPermission_def Let_def split: if_splits)
    obtain q where q: "p = ?w q" "pm_id q = te_uuid e" "on_permission ?c ?ch q"
      using up None by (auto simp: upsertPermission_def Let_def on_permission_def split: if_splits)
    have "row_ok (md_events d @ [event_of input pd p]) x" if "x \<in> set (md_permissions d1)" for x
      using that none other own [OF q(1,3)] unfolding d1 by (auto simp: list_ex_iff)
    moreover have "distinct (map pm_id (md_permissions d1))" "distinct (map ?key (md_permissions d1))"
      using keys fresh none q unfolding d1 by (auto simp: list_ex_iff on_permission_def)
    ultimately show ?thesis
      by (simp add: ledger_ok_def list_all_iff)
  qed
qed

lemma sync_frame:
  "syncOptOutRegister e r ch st src t lift contact d = Inr d' \<Longrightarrow>
     md_permissions d' = md_permissions d \<and> md_events d' = md_events d"
  by (auto simp: syncOptOutRegister_def Let_def registerMarketingOptOut_def clearMarketingOptOut_def
      split: permission_status.splits sum.splits option.splits if_splits)

lemma permission_tx_ledger:
  assumes "ledger_ok d" "permission_tx e input pd d = Inr (d', p, flag)"
    and "permission_data_of e input = Inr pd" "te_uuid e \<notin> set (map pm_id (md_permissions d))"
  shows "ledger_ok d'"
  using assms(2)
  by (rule permission_txE)
    (use upsertPermission_ledger [OF assms(1) _ assms(3,4)] in \<open>auto split: if_splits dest!: sync_frame simp: ledger_ok_def\<close>)

lemma commit_keeps_ledger:
  assumes "ledger_ok d" "sound_commit c d"
  shows "ledger_ok (apply_commit c d)"
proof (cases c)
  case (Permission_written e input pd)
  then show ?thesis
    using assms permission_tx_ledger [of d e input pd]
    by (auto simp: committed_def sound_commit_def split: sum.splits prod.splits)
next
  case (Opposition_written e r ch address reason source t)
  then show ?thesis
    using assms(1) by (auto simp: committed_def registerMarketingOptOut_def ledger_ok_def split: sum.splits option.splits if_splits)
next
  case (Erased e subject ids)
  then show ?thesis
    using assms erase_ledger [of d e subject ids] by (auto split: sum.splits)
next
  case (Timeline_written t)
  then show ?thesis
    using assms(1)
    by (auto simp: committed_def appendCustomerTimelineEvent_def ledger_ok_def split: sum.splits if_splits elim!: ebind_InrE)
next
  case (Prospects_purged ids)
  then show ?thesis
    using assms(1) by (simp add: purge_prospects_def delete_permissions_ledger)
next
  case (Withdrawn_purged ids)
  then show ?thesis
    using assms by (simp add: sound_commit_def purge_withdrawn_ledger)
next
  case (Orphans_purged now)
  then show ?thesis
    using assms(1) by (simp add: purge_orphans_ledger)
qed (use assms(1) in \<open>simp_all add: ledger_ok_def purgeExpiredMarketingOptOuts_def upsert_suppression_def\<close>)

lemma sound_commits_ledger: "ledger_ok d \<Longrightarrow> sound_commits cs d \<Longrightarrow> ledger_ok (apply_commits cs d)"
  by (induction cs arbitrary: d) (auto intro: commit_keeps_ledger)

section \<open>Erasure\<close>

lemma keep_opposition_there:
  assumes "keep_opposition e c (Some ch, reason, t) d = Inr d'"
    and h: "marketingOptOutHash e (cu_restaurantId c) ch (address_of ch c) = Some h"
  shows "\<exists>x \<in> set (md_optOuts d'). on_entry (cu_restaurantId c) ch h x"
proof (cases "isMarketingOptedOut e (cu_restaurantId c) ch (address_of ch c) d")
  case True
  then show ?thesis
    using assms(1) opted_out_iff [OF h, of d] by (simp add: keep_opposition_def)
next
  case False
  then have "md_optOuts d' = upsertOptOut (cu_restaurantId c) ch h reason ''RGPD_ERASURE'' t (md_optOuts d)"
    using assms(1) h hash_configured [OF h]
    by (auto simp: keep_opposition_def registerMarketingOptOut_def split: if_splits elim!: ebind_InrE)
  then show ?thesis
    using upsertOptOut_there by simp
qed

lemma keep_oppositions_there:
  "keep_oppositions e xs d = Inr d' \<Longrightarrow> (c, Some ch, reason, t) \<in> set xs \<Longrightarrow>
   marketingOptOutHash e (cu_restaurantId c) ch (address_of ch c) = Some h \<Longrightarrow>
   \<exists>x \<in> set (md_optOuts d'). on_entry (cu_restaurantId c) ch h x"
proof (induction e xs d rule: keep_oppositions.induct)
  case (2 e c0 x0 xs d)
  then obtain d1 where d1: "keep_opposition e c0 x0 d = Inr d1" "keep_oppositions e xs d1 = Inr d'"
    by (auto elim!: ebind_InrE)
  show ?case
  proof (cases "(c, Some ch, reason, t) \<in> set xs")
    case True
    then show ?thesis
      using 2(1) [OF d1(2) _ 2(4)] by blast
  next
    case False
    then obtain x where "x \<in> set (md_optOuts d1)" "on_entry (cu_restaurantId c) ch h x"
      using 2(3,4) d1(1) keep_opposition_there [of e c ch reason t d d1 h] by auto
    then show ?thesis
      using keep_oppositions_keeps [OF _ d1(2), of "cu_restaurantId c" ch h "oo_retainUntil x"]
      by (auto simp: on_register_def)
  qed
qed simp

section \<open>A restaurant with two customers\<close>

definition demo_tx :: tx_env where
  "demo_tx = \<lparr>te_secret = Some (replicate 32 CHR ''k''), te_hmac = (\<lambda>k m. m), te_sha256 = (\<lambda>m. m), te_uuid = ''p1'',
     te_now = 0, te_registerFails = False\<rparr>"

definition demo_guest :: customer_row where
  "demo_guest = \<lparr>cu_id = ''c1'', cu_restaurantId = ''r1'', cu_name = Some ''Ada'', cu_phone = ''+33612345678'',
     cu_emailNormalized = Some ''a@b.fr'', cu_archivedAt = None, cu_mergedIntoId = None\<rparr>"

definition demo_again :: customer_row where
  "demo_again = demo_guest\<lparr>cu_id := ''c2'', cu_phone := ''+33600000000''\<rparr>"

definition demo_db :: consent_db where
  "demo_db = \<lparr>md_customers = [demo_guest], md_identities = [], md_permissions = [], md_events = [], md_optOuts = [],
     md_suppressions = [], md_timeline = [], md_consents = [], md_bookings = [], md_restaurants = [(''r1'', ''Chez Ada'')]\<rparr>"

definition demo_withdrawal :: permission_input where
  "demo_withdrawal = \<lparr>pi_restaurantId = ''r1'', pi_customerId = ''c1'', pi_channel = EMAIL, pi_status = OPTED_OUT,
     pi_source = ''UNSUBSCRIBE_LINK'', pi_proofVersion = None, pi_proof = None, pi_proofHash = None, pi_actorUserId = None,
     pi_liftsOpposition = False, pi_occurredAt = Some 1000\<rparr>"

definition demo_agreement :: permission_input where
  "demo_agreement = staff_input ''r1'' ''c2'' EMAIL ''Chez Ada'' PHONE None (Some 2000)"

definition data_of :: "permission_input \<Rightarrow> permission_data" where
  "data_of input = (case permission_data_of demo_tx input of Inr pd \<Rightarrow> pd | Inl _ \<Rightarrow> undefined)"

definition demo_hash :: string where
  "demo_hash = (case marketingOptOutHash demo_tx ''r1'' EMAIL (Some ''a@b.fr'') of Some h \<Rightarrow> h | None \<Rightarrow> [])"

definition demo_withdrawn :: consent_db where
  "demo_withdrawn = apply_commit (Permission_written demo_tx demo_withdrawal (data_of demo_withdrawal)) demo_db"

text \<open>The customer is erased, and a record with the same e-mail appears.\<close>

definition demo_commits :: "commit list" where
  "demo_commits = [Register_purged 2000, Erased demo_tx ''+33612345678'' [''c1''], Customers_are [demo_again]]"

section \<open>Properties\<close>

text \<open>
  C15. An opposition stands. Once an address is on the register, whatever the processes commit, in any order (the
  campaigns' permissions, complaints, erasures of the customer, purges of the retention), until the person opts in herself or the
  retention is over: every customer record that carries the address, an erased one created again included, is
  counted as opted out before a sending, and an agreement entered by anyone but the person is refused.
\<close>

theorem opposition_stands:
  assumes "on_register r ch h until d" and "unlifted r ch h until cs d"
    and "marketingOptOutHash e r ch (address_of ch c) = Some h"
  shows "loadOptedOutCustomerIds e r ch [c] (apply_commits cs d) = (True, [cu_id c]) \<and>
    (pi_status input = OPTED_IN \<and> \<not> pi_liftsOpposition input \<and> pi_restaurantId input = r \<and> pi_channel input = ch \<and>
     assertCustomerTenant (pi_customerId input) r (apply_commits cs d) = Inr c \<longrightarrow>
     (\<exists>err. permission_tx e input pd (apply_commits cs d) = Inl err))"
proof -
  let ?d = "apply_commits cs d"
  have there: "\<exists>x \<in> set (md_optOuts ?d). on_entry r ch h x"
    using unlifted_keeps [OF assms(1,2)] by (auto simp: on_register_def)
  have "\<exists>err. permission_tx e input pd ?d = Inl err"
    if i: "pi_status input = OPTED_IN" "\<not> pi_liftsOpposition input" "pi_restaurantId input = r" "pi_channel input = ch"
      "assertCustomerTenant (pi_customerId input) r ?d = Inr c"
  proof (rule ccontr)
    assume "\<nexists>err. permission_tx e input pd ?d = Inl err"
    then obtain d' p flag where tx: "permission_tx e input pd ?d = Inr (d', p, flag)"
      by (metis prod_cases3 sumE)
    then obtain d1 where up: "upsertPermission e input pd ?d = Inr (d1, p)"
      and sync: "if flag then pi_status input = OPTED_OUT else
        syncOptOutRegister e r ch OPTED_IN (pd_source pd) (pd_occurredAt pd) False c
          (d1\<lparr>md_events := md_events ?d @ [event_of input pd p]\<rparr>) = Inr d'"
      using i by (elim permission_txE) (auto split: if_splits)
    have "isMarketingOptedOut e r ch (address_of ch c) (d1\<lparr>md_events := md_events ?d @ [event_of input pd p]\<rparr>)"
      using there upsertPermission_optOuts [OF up] by (simp add: opted_out_iff [OF assms(3)])
    then show False
      using sync i by (auto simp: syncOptOutRegister_def Let_def split: if_splits)
  qed
  then show ?thesis
    using there loaded_iff [OF assms(3)] by auto
qed

theorem opposition_stands_witness:
  "loadOptedOutCustomerIds demo_tx ''r1'' EMAIL [demo_again] (apply_commits demo_commits demo_withdrawn) = (True, [''c2'']) \<and>
   (\<exists>err. permission_tx demo_tx demo_agreement (data_of demo_agreement) (apply_commits demo_commits demo_withdrawn) = Inl err)"
proof -
  have on: "on_register ''r1'' EMAIL demo_hash 5000 demo_withdrawn"
    unfolding on_register_def by code_simp
  have run: "unlifted ''r1'' EMAIL demo_hash 5000 demo_commits demo_withdrawn"
    by code_simp
  have h: "marketingOptOutHash demo_tx ''r1'' EMAIL (address_of EMAIL demo_again) = Some demo_hash"
    by code_simp
  have who: "assertCustomerTenant (pi_customerId demo_agreement) ''r1'' (apply_commits demo_commits demo_withdrawn) = Inr demo_again"
    by code_simp
  have i: "pi_status demo_agreement = OPTED_IN" "\<not> pi_liftsOpposition demo_agreement" "pi_restaurantId demo_agreement = ''r1''"
    "pi_channel demo_agreement = EMAIL" "cu_id demo_again = ''c2''"
    by (simp_all add: demo_agreement_def staff_input_def demo_again_def)
  show ?thesis
    using opposition_stands [OF on run h, of demo_agreement "data_of demo_agreement"] who i by simp
qed

text \<open>
  C16. A withdrawal always blocks. For an existing customer the transaction of a withdrawal commits whether or not the register
  can be written: the permission is then withdrawn and its event is in the ledger. Without the flag of
  failure the address, if there is one, is on the register; with it the register is as it was.
\<close>

theorem withdrawal_always_blocks:
  assumes "assertCustomerTenant (pi_customerId input) (pi_restaurantId input) d = Inr contact"
    and "upsertPermission e input pd d = Inr (d1, p)" and "pi_status input = OPTED_OUT"
  shows "\<exists>d' flag. permission_tx e input pd d = Inr (d', p, flag) \<and> pm_status p = OPTED_OUT \<and> p \<in> set (md_permissions d') \<and>
    md_events d' = md_events d @ [event_of input pd p] \<and>
    (if flag then md_optOuts d' = md_optOuts d
     else \<forall>h. marketingOptOutHash e (pi_restaurantId input) (pi_channel input) (address_of (pi_channel input) contact) = Some h \<longrightarrow>
       (\<exists>x \<in> set (md_optOuts d'). on_entry (pi_restaurantId input) (pi_channel input) h x))"
proof -
  let ?d2 = "d1\<lparr>md_events := md_events d @ [event_of input pd p]\<rparr>"
  let ?sync = "syncOptOutRegister e (pi_restaurantId input) (pi_channel input) OPTED_OUT (pd_source pd) (pd_occurredAt pd)
    (pi_liftsOpposition input) contact ?d2"
  have frame: "md_events d1 = md_events d" "md_optOuts d1 = md_optOuts d"
    using upsertPermission_optOuts [OF assms(2)] by auto
  have tx: "permission_tx e input pd d = (case ?sync of Inr d3 \<Rightarrow> Inr (d3, p, False) | Inl err \<Rightarrow> Inr (?d2, p, True))"
    using assms frame by (cases ?sync) (simp_all add: permission_tx_def Let_def)
  have row: "p \<in> set (md_permissions d1)" "pm_status p = OPTED_OUT"
    using assms(2,3) find_Some_D
    by (fastforce simp: upsertPermission_def Let_def set_upd_where split: option.splits if_splits)+
  show ?thesis
  proof (cases ?sync)
    case (Inl err)
    then show ?thesis
      using tx row frame by auto
  next
    case (Inr d3)
    have "\<exists>x \<in> set (md_optOuts d3). on_entry (pi_restaurantId input) (pi_channel input) h x"
      if "marketingOptOutHash e (pi_restaurantId input) (pi_channel input) (address_of (pi_channel input) contact) = Some h" for h
      using Inr that hash_configured [OF that] upsertOptOut_there
      by (auto simp: syncOptOutRegister_def Let_def registerMarketingOptOut_def split: if_splits)
    then show ?thesis
      using tx row frame Inr sync_frame [OF Inr] by auto
  qed
qed

theorem withdrawal_always_blocks_witness:
  "\<exists>d' p flag. permission_tx demo_tx demo_withdrawal (data_of demo_withdrawal) demo_db = Inr (d', p, flag) \<and>
     pm_status p = OPTED_OUT \<and> p \<in> set (md_permissions d')"
proof -
  have who: "assertCustomerTenant (pi_customerId demo_withdrawal) (pi_restaurantId demo_withdrawal) demo_db = Inr demo_guest"
    by code_simp
  obtain d1 p where up: "upsertPermission demo_tx demo_withdrawal (data_of demo_withdrawal) demo_db = Inr (d1, p)"
    by (auto simp: upsertPermission_def demo_db_def Let_def)
  show ?thesis
    using withdrawal_always_blocks [OF who up] by (auto simp: demo_withdrawal_def)
qed



text \<open>
  C18. An erasure carries the oppositions over. When it succeeds, each channel that an erased customer had refused, or complained
  about, has the customer's address on the register, so that a record created later with the same address is
  opted out; and no permission of the customer remains.
\<close>

theorem erasure_keeps_oppositions:
  assumes "erase_marketing e subject ids d = Inr d'" and "c \<in> set (md_customers d)" and "cu_id c \<in> set ids"
    and "(Some ch, reason, t) \<in> set (oppositions_of (te_now e) d c)"
    and "marketingOptOutHash e (cu_restaurantId c) ch (address_of ch c) = Some h"
    and "marketingOptOutHash e (cu_restaurantId c) ch (address_of ch again) = Some h"
  shows "loadOptedOutCustomerIds e (cu_restaurantId c) ch [again] d' = (True, [cu_id again]) \<and>
    list_all (\<lambda>p. pm_customerId p \<noteq> cu_id c) (md_permissions d')"
proof -
  obtain d1 where d1: "keep_oppositions e (kept_oppositions e ids d) d = Inr d1" and d': "d' = erase_rows e subject ids d1"
    using assms(1) by (auto simp: erase_marketing_def elim!: ebind_InrE)
  have "(c, Some ch, reason, t) \<in> set (kept_oppositions e ids d)"
    using assms(2,3,4) by (auto simp: kept_oppositions_def)
  then have "\<exists>x \<in> set (md_optOuts d'). on_entry (cu_restaurantId c) ch h x"
    using keep_oppositions_there [OF d1 _ assms(5)] by (simp add: d' erase_rows_def)
  then show ?thesis
    using assms(3) loaded_iff [OF assms(6)] by (auto simp: d' erase_rows_def list_all_iff)
qed

theorem erasure_keeps_oppositions_witness:
  "\<exists>d'. erase_marketing demo_tx ''+33612345678'' [''c1''] demo_withdrawn = Inr d' \<and>
     loadOptedOutCustomerIds demo_tx ''r1'' EMAIL [demo_again] d' = (True, [''c2''])"
proof -
  have "case erase_marketing demo_tx ''+33612345678'' [''c1''] demo_withdrawn of Inr d' \<Rightarrow> True | Inl _ \<Rightarrow> False"
    by code_simp
  then obtain d' where d': "erase_marketing demo_tx ''+33612345678'' [''c1''] demo_withdrawn = Inr d'"
    by (auto split: sum.splits)
  have c: "demo_guest \<in> set (md_customers demo_withdrawn)" "cu_id demo_guest \<in> set [''c1'']"
    by code_simp+
  have o1: "(Some EMAIL, MANUAL, 1000) \<in> set (oppositions_of (te_now demo_tx) demo_withdrawn demo_guest)"
    by code_simp
  have h: "marketingOptOutHash demo_tx (cu_restaurantId demo_guest) EMAIL (address_of EMAIL demo_guest) = Some demo_hash"
    "marketingOptOutHash demo_tx (cu_restaurantId demo_guest) EMAIL (address_of EMAIL demo_again) = Some demo_hash"
    by code_simp+
  show ?thesis
    using d' erasure_keeps_oppositions [OF d' c o1 h] by (auto simp: demo_guest_def demo_again_def)
qed

section \<open>What the interleavings show\<close>

text \<open>
  A permission withdrawn long ago is selected by the purge, the customer agrees again on the booking page, and the transaction
  of the purge, which deletes the events by the identifiers selected without looking at the status, removes the
  proof of an agreement that stays in force.
\<close>

definition demo_new_agreement :: permission_input where
  "demo_new_agreement = booking_input ''r1'' ''c1'' EMAIL ''Chez Ada'' ''BOOK_PAGE'' 3000"

lemma late_purge_loses_the_proof:
  "(let cs = [Permission_written demo_tx demo_new_agreement (data_of demo_new_agreement), Withdrawn_purged [''p1'']];
        d = apply_commits cs demo_withdrawn
    in map pm_id (withdrawn_page (6 * 366 * 86400000) demo_withdrawn) = [''p1''] \<and>
       map pm_status (md_permissions d) = [OPTED_IN] \<and> md_events d = [])"
  by code_simp

text \<open>
  The entry that an erasure makes is dated from the withdrawal, not from the erasure: of a customer who withdrew more than three
  years ago, and is blocked by the permission that is kept for five, the entry is over when it is written, and the next
  purge removes it. The person can be written to again.
\<close>

lemma erasure_of_an_old_withdrawal_is_forgotten:
  "(let now = 4 * 366 * 86400000;
        cs = [Register_purged now, Erased (demo_tx\<lparr>te_now := now\<rparr>) ''+33612345678'' [''c1''], Register_purged now]
    in isMarketingOptedOut demo_tx ''r1'' EMAIL (Some ''a@b.fr'') (apply_commits cs demo_withdrawn)) = False \<and>
   withdrawn_page (4 * 366 * 86400000) demo_withdrawn = []"
  by code_simp

end
