(* ===== verification/Marketing_Links.thy ===== *)
theory Marketing_Links
  imports Marketing_Register Json_Text Restaurant_Time
begin

text \<open>
  The signed links of marketing messages (\<open>modules/marketing/marketing-unsubscribe.service.ts\<close>, and the tokens of
  \<open>marketing-attribution.service.ts\<close>): base64url, the payload as JSON, the signature and the checks of a token. A text is
  the bytes of its UTF-8 form; the HMAC (a key and a text to bytes) and the secrets are arguments.
\<close>

section \<open>base64url\<close>

definition digit64 :: "nat \<Rightarrow> char" where
  "digit64 n = (if n < 26 then char_of (65 + n) else if n < 52 then char_of (71 + n) else if n < 62 then char_of (n - 4)
     else if n = 62 then CHR ''-'' else CHR ''_'')"

text \<open>Both alphabets are read, other characters are skipped, and \<open>=\<close> ends the data.\<close>

definition value64 :: "char \<Rightarrow> nat option" where
  "value64 c = (let n = of_char c :: nat in
     if 65 \<le> n \<and> n \<le> 90 then Some (n - 65) else if 97 \<le> n \<and> n \<le> 122 then Some (n - 71)
     else if 48 \<le> n \<and> n \<le> 57 then Some (n + 4) else if c = CHR ''-'' \<or> c = CHR ''+'' then Some 62
     else if c = CHR ''_'' \<or> c = CHR ''/'' then Some 63 else None)"

fun sextets :: "nat list \<Rightarrow> nat list" where
  "sextets [] = []"
| "sextets [a] = [a div 4, a mod 4 * 16]"
| "sextets [a, b] = [a div 4, a mod 4 * 16 + b div 16, b mod 16 * 4]"
| "sextets (a # b # c # rest) = [a div 4, a mod 4 * 16 + b div 16, b mod 16 * 4 + c div 64, c mod 64] @ sextets rest"

fun octets :: "nat list \<Rightarrow> nat list" where
  "octets (p # q # r # s # rest) = [p * 4 + q div 16, q mod 16 * 16 + r div 4, r mod 4 * 64 + s] @ octets rest"
| "octets [p, q, r] = [p * 4 + q div 16, q mod 16 * 16 + r div 4]"
| "octets [p, q] = [p * 4 + q div 16]"
| "octets _ = []"

definition base64url :: "string \<Rightarrow> string" where
  "base64url s = map digit64 (sextets (map of_char s))"

definition base64_bytes :: "string \<Rightarrow> string" where
  "base64_bytes s = map char_of (octets (List.map_filter value64 (takeWhile (\<lambda>c. c \<noteq> CHR ''='') s)))"

lemma octets_sextets: "list_all (\<lambda>n. n < 256) xs \<Longrightarrow> octets (sextets xs) = xs"
proof (induction xs rule: sextets.induct)
  case (4 a b c rest)
  then have "a < 256" "b < 256" "c < 256"
    by auto
  then have "b div 16 < 16" "c div 64 < 4" "c mod 64 < 64"
    by auto
  then show ?case
    using 4 by simp
qed auto

lemma sextet_bound:
  "b < 256 \<Longrightarrow> a mod 4 * 16 + b div 16 < (64 :: nat)"
  "c < 256 \<Longrightarrow> b mod 16 * 4 + c div 64 < (64 :: nat)"
  using mod_less_divisor [of 4 a] mod_less_divisor [of 16 b] div_less_iff_less_mult [of 16 b 16] div_less_iff_less_mult [of 64 c 4]
  by linarith+

lemma sextets_bound: "list_all (\<lambda>n. n < 256) xs \<Longrightarrow> list_all (\<lambda>n. n < 64) (sextets xs)"
proof (induction xs rule: sextets.induct)
  case (4 a b c rest)
  then have "a div 4 < 64" "c mod 64 < 64"
    by auto
  then show ?case
    using 4 sextet_bound(1) [of b a] sextet_bound(2) [of c b] by simp
next
  case (3 a b)
  then have "a div 4 < 64"
    by auto
  then show ?case
    using 3 sextet_bound(1) [of b a] sextet_bound(2) [of 0 b] by simp
next
  case (2 a)
  then show ?case
    using sextet_bound(1) [of 0 a] by simp
qed simp

lemma code64:
  assumes "n < 64"
  shows "of_char (digit64 n) = (if n < 26 then 65 + n else if n < 52 then 71 + n else if n < 62 then n - 4
    else if n = 62 then 45 else (95 :: nat))"
  using assms by (simp add: digit64_def)

lemma digit64:
  assumes "n < 64"
  shows "value64 (digit64 n) = Some n" "digit64 n \<noteq> CHR ''=''" "digit64 n \<noteq> CHR ''.''" "\<not> js_space (digit64 n)"
proof -
  have chars: "digit64 62 = CHR ''-''" "digit64 63 = CHR ''_''"
    by (simp_all add: digit64_def)
  consider "n < 62" | "n = 62" | "n = 63"
    using assms by linarith
  then show "value64 (digit64 n) = Some n"
    using code64 [OF assms] by cases (auto simp: value64_def Let_def chars)
  have c: "of_char (digit64 n) \<notin> {61, 46, 9, 10, 11, 12, 13, 32, 160 :: nat}"
    using assms by (auto simp: code64)
  have "of_char (CHR ''='') = (61 :: nat)" "of_char (CHR ''.'') = (46 :: nat)"
    by simp_all
  then show "digit64 n \<noteq> CHR ''=''" "digit64 n \<noteq> CHR ''.''"
    using c by (metis insertCI)+
  show "\<not> js_space (digit64 n)"
    using c by (simp add: js_space_def)
qed

lemma byte_bound: "(of_char (c :: char) :: nat) < 256"
  by (metis mod_less_divisor of_char_mod_256 zero_less_numeral)

lemma bytes_bound: "list_all (\<lambda>n. n < (256 :: nat)) (map of_char (s :: string))"
  by (induction s) (simp_all add: byte_bound)

lemma base64_roundtrip: "base64_bytes (base64url s) = s"
proof -
  let ?ns = "sextets (map of_char s)"
  have bound: "list_all (\<lambda>n. n < 64) ?ns"
    by (rule sextets_bound [OF bytes_bound])
  have "takeWhile (\<lambda>c. c \<noteq> CHR ''='') (map digit64 ?ns) = map digit64 ?ns"
    using bound by (auto simp: takeWhile_eq_all_conv list_all_iff digit64(2))
  moreover have undone: "List.map_filter value64 (map digit64 ns) = ns" if "list_all (\<lambda>n. n < 64) ns" for ns
    using that by (induction ns) (simp_all add: map_filter_simps digit64(1))
  ultimately have "base64_bytes (base64url s) = map char_of (octets ?ns)"
    unfolding base64_bytes_def base64url_def using undone [OF bound] by presburger
  then show ?thesis
    by (simp add: octets_sextets [OF bytes_bound] comp_def)
qed

lemma base64url_chars:
  assumes "c \<in> set (base64url s)"
  shows "c \<noteq> CHR ''.''" "\<not> js_space c"
proof -
  obtain n where "c = digit64 n" "n < 64"
    using assms sextets_bound [OF bytes_bound, of s] by (auto simp: base64url_def list_all_iff)
  then show "c \<noteq> CHR ''.''" "\<not> js_space c"
    using digit64 by auto
qed

section \<open>Tokens\<close>

datatype link_error = SECRET_NOT_CONFIGURED | INVALID_TOKEN | TOKEN_EXPIRED | EXPIRY_OUT_OF_BOUNDS |
  NO_SUCH_CUSTOMER | NO_SUCH_RESERVATION

record link_env =
  le_unsubscribeSecret :: "string option"
  le_attributionSecret :: "string option"
  le_hmac :: "string \<Rightarrow> string \<Rightarrow> string"
  le_zone :: zone
  le_now :: instant

definition getSecret :: "link_env \<Rightarrow> link_error + string" where
  "getSecret e =
    (case orElse_opt (trimmed (le_unsubscribeSecret e)) (trimmed (le_attributionSecret e)) of
       None \<Rightarrow> Inl SECRET_NOT_CONFIGURED
     | Some secret \<Rightarrow> if length secret < 32 then Inl SECRET_NOT_CONFIGURED else Inr secret)"

definition sign :: "link_env \<Rightarrow> string \<Rightarrow> string \<Rightarrow> string" where
  "sign e secret value = base64url (le_hmac e secret value)"

definition TOKEN_VERSION :: string where "TOKEN_VERSION = ''v1''"

definition CONSENT_TOKEN_VERSION :: string where "CONSENT_TOKEN_VERSION = ''c1''"

record link_payload =
  lp_restaurantId :: id
  lp_customerId :: id
  lp_reservationId :: "jval option"
  lp_channel :: channel
  lp_exp :: int

text \<open>\<open>JSON.stringify\<close> of the payload, an undefined member left out.\<close>

definition payload_members :: "id \<Rightarrow> id \<Rightarrow> id option \<Rightarrow> channel \<Rightarrow> int \<Rightarrow> (string \<times> string) list" where
  "payload_members restaurantId customerId reservationId ch expires =
     [(''v'', ''1''), (''restaurantId'', json_quote restaurantId), (''customerId'', json_quote customerId)] @
     (case reservationId of None \<Rightarrow> [] | Some i \<Rightarrow> [(''reservationId'', json_quote i)]) @
     [(''channel'', json_quote (channel_code ch)), (''exp'', int_str expires)]"

definition issueToken :: "link_env \<Rightarrow> string \<Rightarrow> (string \<times> string) list \<Rightarrow> link_error + string" where
  "issueToken e version members =
     ebind (getSecret e) (\<lambda>secret.
       let encoded = base64url (flat_object members)
       in Inr (version @ ''.'' @ encoded @ ''.'' @ sign e secret (version @ ''.'' @ encoded)))"

text \<open>What is between the dots of a token whose version and signature are right.\<close>

definition signed_part :: "link_env \<Rightarrow> string \<Rightarrow> string \<Rightarrow> string \<Rightarrow> string option" where
  "signed_part e secret version token =
    (case js_split CHR ''.'' (js_trim token) of
       [v, payloadEncoded, signature] \<Rightarrow>
         if v = version \<and> signature = sign e secret (version @ ''.'' @ payloadEncoded) then Some payloadEncoded else None
     | _ \<Rightarrow> None)"

definition channel_named :: "string \<Rightarrow> channel option" where
  "channel_named s = (if s = ''SMS'' then Some SMS else if s = ''EMAIL'' then Some EMAIL
     else if s = ''WHATSAPP'' then Some WHATSAPP else None)"

definition integer_of :: "jval option \<Rightarrow> int option" where
  "integer_of v = (case v of Some (VNum q) \<Rightarrow> if isInteger q then Some \<lfloor>q\<rfloor> else None | _ \<Rightarrow> None)"

definition payload_of :: "jval \<Rightarrow> link_payload option" where
  "payload_of v =
    (if jmember v ''v'' \<noteq> Some (VNum 1) then None
     else case (jmember v ''restaurantId'', jmember v ''customerId'', jmember v ''channel'', integer_of (jmember v ''exp'')) of
       (Some (VStr r), Some (VStr c), Some (VStr ch), Some x) \<Rightarrow>
         (case channel_named ch of
            None \<Rightarrow> None
          | Some k \<Rightarrow> Some \<lparr>lp_restaurantId = r, lp_customerId = c, lp_reservationId = jmember v ''reservationId'',
              lp_channel = k, lp_exp = x\<rparr>)
     | _ \<Rightarrow> None)"

text \<open>\<open>parseToken\<close>: the version and the shape before the secret is needed, the signature, the JSON, its fields, the date.\<close>

definition parseToken :: "link_env \<Rightarrow> string \<Rightarrow> string \<Rightarrow> instant \<Rightarrow> link_error + link_payload" where
  "parseToken e version token now =
    (let parts = js_split CHR ''.'' (js_trim token) in
     if length parts \<noteq> 3 \<or> hd parts \<noteq> version then Inl INVALID_TOKEN
     else ebind (getSecret e) (\<lambda>secret.
       case signed_part e secret version token of
         None \<Rightarrow> Inl INVALID_TOKEN
       | Some payloadEncoded \<Rightarrow>
           (case json_parse (base64_bytes payloadEncoded) of
              None \<Rightarrow> Inl INVALID_TOKEN
            | Some v \<Rightarrow>
                (case payload_of v of
                   None \<Rightarrow> Inl INVALID_TOKEN
                 | Some p \<Rightarrow> if lp_exp p \<le> now div 1000 then Inl TOKEN_EXPIRED else Inr p))))"

section \<open>Issuing\<close>

text \<open>\<open>setDate (getDate () + n)\<close>: the same wall clock of the server, \<open>n\<close> days later.\<close>

definition local_days_later :: "zone \<Rightarrow> int \<Rightarrow> instant \<Rightarrow> instant" where
  "local_days_later off n t = (let wall = t + off t + n * 86400000 in wall - off (wall - off t))"

definition defaultUnsubscribeExpiry :: "link_env \<Rightarrow> instant \<Rightarrow> instant" where
  "defaultUnsubscribeExpiry e issuedAt = local_days_later (le_zone e) 365 issuedAt"

definition MAX_UNSUBSCRIBE_TTL_DAYS :: int where "MAX_UNSUBSCRIBE_TTL_DAYS = 730"

definition CONSENT_TOKEN_TTL_DAYS :: int where "CONSENT_TOKEN_TTL_DAYS = 30"

definition createMarketingUnsubscribeToken :: "link_env \<Rightarrow> id \<Rightarrow> id \<Rightarrow> channel \<Rightarrow> instant option \<Rightarrow> instant option \<Rightarrow>
    consent_db \<Rightarrow> link_error + string" where
  "createMarketingUnsubscribeToken e restaurantId customerId ch issuedAt0 expiresAt0 d =
    (let issuedAt = orElse issuedAt0 (le_now e);
         expiresAt = orElse expiresAt0 (defaultUnsubscribeExpiry e issuedAt)
     in if expiresAt \<le> issuedAt \<or> issuedAt + MAX_UNSUBSCRIBE_TTL_DAYS * 86400000 < expiresAt then Inl EXPIRY_OUT_OF_BOUNDS
        else if \<not> list_ex (\<lambda>c. cu_id c = customerId \<and> cu_restaurantId c = restaurantId \<and> cu_archivedAt c = None) (md_customers d)
        then Inl NO_SUCH_CUSTOMER
        else issueToken e TOKEN_VERSION (payload_members restaurantId customerId None ch (expiresAt div 1000)))"

definition createMarketingConsentToken :: "link_env \<Rightarrow> id \<Rightarrow> id \<Rightarrow> id \<Rightarrow> instant option \<Rightarrow> consent_db \<Rightarrow> link_error + string" where
  "createMarketingConsentToken e restaurantId customerId reservationId issuedAt0 d =
    (let issuedAt = orElse issuedAt0 (le_now e) in
     if \<not> list_ex (\<lambda>b. bk_id b = reservationId \<and> bk_restaurantId b = restaurantId \<and> bk_customerId b = Some customerId)
         (md_bookings d)
     then Inl NO_SUCH_RESERVATION
     else issueToken e CONSENT_TOKEN_VERSION (payload_members restaurantId customerId (Some reservationId) EMAIL
       ((issuedAt + CONSENT_TOKEN_TTL_DAYS * 86400000) div 1000)))"

definition verifyMarketingConsentToken :: "link_env \<Rightarrow> string \<Rightarrow> instant \<Rightarrow> link_error + id \<times> id \<times> id" where
  "verifyMarketingConsentToken e token now =
     ebind (parseToken e CONSENT_TOKEN_VERSION token now) (\<lambda>p.
       case lp_reservationId p of
         Some (VStr i) \<Rightarrow> Inr (lp_restaurantId p, lp_customerId p, i)
       | _ \<Rightarrow> Inl INVALID_TOKEN)"

text \<open>The link's answer, or the withdrawal of the permission.\<close>

definition consumeMarketingUnsubscribeToken :: "link_env \<Rightarrow> consent_env \<Rightarrow> string \<Rightarrow> instant option \<Rightarrow>
    (consent_db, link_error + failure, link_payload \<times> permission_row) act" where
  "consumeMarketingUnsubscribeToken e ce token now0 d =
    (let now = orElse now0 (le_now e) in
     case parseToken e TOKEN_VERSION token now of
       Inl err \<Rightarrow> (d, Inl (Inl err))
     | Inr p \<Rightarrow>
         (case withdrawMarketingPermission ce 0 (lp_restaurantId p) (lp_customerId p) (lp_channel p)
             (Some ''UNSUBSCRIBE_LINK'') None (Some now) d of
            (d', Inl err) \<Rightarrow> (d', Inl (Inr err))
          | (d', Inr perm) \<Rightarrow> (d', Inr (p, perm))))"

section \<open>Attribution\<close>

text \<open>The tokens that tell which campaign a booking comes from have the same version and, by default, the same key.\<close>

definition attributionSecret :: "link_env \<Rightarrow> link_error + string" where
  "attributionSecret e =
    (case trimmed (le_attributionSecret e) of
       None \<Rightarrow> Inl SECRET_NOT_CONFIGURED
     | Some secret \<Rightarrow> if length secret < 32 then Inl SECRET_NOT_CONFIGURED else Inr secret)"

definition attribution_members :: "id \<Rightarrow> id \<Rightarrow> id \<Rightarrow> int \<Rightarrow> (string \<times> string) list" where
  "attribution_members linkId restaurantId campaignId expires =
     [(''v'', ''1''), (''id'', json_quote linkId), (''restaurantId'', json_quote restaurantId),
      (''campaignId'', json_quote campaignId), (''exp'', int_str expires)]"

definition attribution_token :: "link_env \<Rightarrow> string \<Rightarrow> (string \<times> string) list \<Rightarrow> string" where
  "attribution_token e secret members =
    (let encoded = base64url (flat_object members)
     in TOKEN_VERSION @ ''.'' @ encoded @ ''.'' @ sign e secret (TOKEN_VERSION @ ''.'' @ encoded))"

record attribution_payload =
  ap_id :: id
  ap_restaurantId :: id
  ap_campaignId :: id
  ap_exp :: int

definition attribution_of :: "jval \<Rightarrow> attribution_payload option" where
  "attribution_of v =
    (if jmember v ''v'' \<noteq> Some (VNum 1) then None
     else case (jmember v ''id'', jmember v ''restaurantId'', jmember v ''campaignId'', integer_of (jmember v ''exp'')) of
       (Some (VStr i), Some (VStr r), Some (VStr c), Some x) \<Rightarrow>
         Some \<lparr>ap_id = i, ap_restaurantId = r, ap_campaignId = c, ap_exp = x\<rparr>
     | _ \<Rightarrow> None)"

definition parseAttributionToken :: "link_env \<Rightarrow> string \<Rightarrow> instant \<Rightarrow> link_error + attribution_payload" where
  "parseAttributionToken e token now =
    (let parts = js_split CHR ''.'' (js_trim token) in
     if length parts \<noteq> 3 \<or> hd parts \<noteq> TOKEN_VERSION then Inl INVALID_TOKEN
     else ebind (attributionSecret e) (\<lambda>secret.
       case signed_part e secret TOKEN_VERSION token of
         None \<Rightarrow> Inl INVALID_TOKEN
       | Some payloadEncoded \<Rightarrow>
           (case json_parse (base64_bytes payloadEncoded) of
              None \<Rightarrow> Inl INVALID_TOKEN
            | Some v \<Rightarrow>
                (case attribution_of v of
                   None \<Rightarrow> Inl INVALID_TOKEN
                 | Some p \<Rightarrow> if ap_exp p \<le> now div 1000 then Inl TOKEN_EXPIRED else Inr p))))"

section \<open>Reading what was issued\<close>

lemma js_split_plain: "x \<notin> set s \<Longrightarrow> js_split x s = [s]"
  by (induction s) auto

lemma js_split_nonempty: "js_split x s \<noteq> []"
  by (induction s) (auto split: list.splits)

lemma js_split_at: "x \<notin> set a \<Longrightarrow> js_split x (a @ x # s) = a # js_split x s"
proof (induction a)
  case Nil
  then show ?case
    using js_split_nonempty [of x s] by (cases "js_split x s") auto
qed auto

lemma js_trim_plain: "list_all (\<lambda>c. \<not> js_space c) s \<Longrightarrow> js_trim s = s"
proof -
  assume s: "list_all (\<lambda>c. \<not> js_space c) s"
  have same: "dropWhile js_space t = t" if "list_all (\<lambda>c. \<not> js_space c) t" for t
    using that by (cases t) auto
  have "list_all (\<lambda>c. \<not> js_space c) (rev s)"
    using s by (simp add: list_all_iff)
  then show ?thesis
    using s same by (simp add: js_trim_def)
qed

lemma token_parts:
  assumes "version \<in> {TOKEN_VERSION, CONSENT_TOKEN_VERSION}"
  shows "js_split CHR ''.'' (js_trim (version @ ''.'' @ base64url m @ ''.'' @ sign e secret t)) =
    [version, base64url m, sign e secret t]"
proof -
  have v: "CHR ''.'' \<notin> set version" "list_all (\<lambda>c. \<not> js_space c) version"
    using assms by (auto simp: TOKEN_VERSION_def CONSENT_TOKEN_VERSION_def js_space_def)
  have plain: "list_all (\<lambda>c. \<not> js_space c) (version @ ''.'' @ base64url m @ ''.'' @ sign e secret t)"
    using v(2) base64url_chars(2) by (auto simp: list_all_iff sign_def js_space_def)
  have dots: "CHR ''.'' \<notin> set (base64url m)" "CHR ''.'' \<notin> set (sign e secret t)"
    using base64url_chars(1) by (auto simp: sign_def)
  show ?thesis
    using v(1) dots js_split_at [of "CHR ''.''" version] js_split_at [of "CHR ''.''" "base64url m"]
    using js_trim_plain [OF plain] by (simp add: js_split_plain)
qed

lemma signed_own:
  assumes "version \<in> {TOKEN_VERSION, CONSENT_TOKEN_VERSION}"
  shows "signed_part e secret version' (version @ ''.'' @ base64url m @ ''.'' @ sign e secret (version @ ''.'' @ base64url m)) =
    (if version' = version then Some (base64url m) else None)"
  using token_parts [OF assms, of m e secret "version @ ''.'' @ base64url m"] by (simp add: signed_part_def)

lemma digits_value_snoc: "digits_value (ds @ [c]) = 10 * digits_value ds + (of_char c - 48)"
  by (simp add: digits_value_def)

lemma digit_value: "m < 10 \<Longrightarrow> of_char (char_of (48 + m) :: char) = 48 + int m"
  by (subst of_nat_of_char [symmetric]) simp

lemma nat_str_digits: "nat_str n \<noteq> [] \<and> list_all is_digit (nat_str n) \<and> digits_value (nat_str n) = int n \<and>
    (take 1 (nat_str n) = ''0'' \<longrightarrow> n = 0)"
proof (induction n rule: nat_str.induct)
  case (1 n)
  show ?case
  proof (cases "n < 10")
    case True
    then have n: "nat_str n = [char_of (48 + n)]"
      by (simp add: nat_str.simps)
    have code: "of_char (char_of (48 + n) :: char) = 48 + n"
      using True by simp
    have zero: "char_of (48 + n) = CHR ''0'' \<Longrightarrow> n = 0"
      using code by (auto dest: arg_cong [of _ _ "of_char :: char \<Rightarrow> nat"])
    show ?thesis
      using True code zero by (auto simp: n is_digit_def digits_value_def digit_value)
  next
    case False
    have "10 * int (n div 10) + int (n mod 10) = int n"
      by presburger
    with False show ?thesis
      using 1 digit_value [of "n mod 10"] by (auto simp: nat_str.simps [of n] digits_value_snoc is_digit_def take_Cons')
  qed
qed

lemma read_digits:
  assumes "list_all is_digit ds" "ds \<noteq> []" "c \<in> {CHR '','', CHR ''}''}"
  shows "takeWhile is_digit (ds @ c # rest) = ds" "dropWhile is_digit (ds @ c # rest) = c # rest"
proof -
  have "\<not> is_digit c"
    using assms(3) by (auto simp: is_digit_def)
  then show "takeWhile is_digit (ds @ c # rest) = ds" "dropWhile is_digit (ds @ c # rest) = c # rest"
    using assms(1) by (induction ds) auto
qed

lemma reads_nat: "reads (nat_str n) (VNum (of_nat n))"
proof (unfold reads_def, intro allI impI)
  fix k c rest
  assume c: "c \<in> {CHR '','', CHR ''}''}"
  obtain d ds where s: "nat_str n = d # ds"
    using nat_str_digits [of n] by (cases "nat_str n") auto
  have d: "is_digit d"
    using nat_str_digits [of n] s by simp
  have long: "take 1 (nat_str n) = ''0'' \<longrightarrow> length (nat_str n) = 1"
    using nat_str_digits [of n] by (auto simp: nat_str.simps [of 0])
  have digits: "takeWhile is_digit (nat_str n @ c # rest) = nat_str n" "dropWhile is_digit (nat_str n @ c # rest) = c # rest"
    using read_digits [of "nat_str n" c rest] nat_str_digits [of n] c by auto
  have plain: "take 1 (nat_str n @ c # rest) \<noteq> ''-''"
    using d by (auto simp: s is_digit_def)
  have tail: "read_fraction (c # rest) = Some (0, c # rest)" "read_exponent (c # rest) = Some (1, c # rest)"
    using c by (auto simp: read_fraction_def read_exponent_def)
  have num: "read_number (nat_str n @ c # rest) = Some (of_nat n, c # rest)"
    using nat_str_digits [of n] long plain by (simp add: read_number_def Let_def digits tail)
  show "read_value (Suc k) (nat_str n @ c # rest) = Some (VNum (of_nat n), c # rest)"
  proof -
    have other: "\<not> json_space d" "d \<noteq> QUOTE" "d \<noteq> CHR ''{''" "d \<noteq> CHR ''[''" "d \<noteq> CHR ''t''" "d \<noteq> CHR ''f''" "d \<noteq> CHR ''n''"
      using d by (auto simp: is_digit_def json_space_def)
    show ?thesis
      using num other by (simp add: s read_value.simps)
  qed
qed

lemma reads_int: "0 \<le> n \<Longrightarrow> reads (int_str n) (VNum (of_int n))"
  using reads_nat [of "nat n"] by (simp add: int_str_def)

definition payload_fields :: "id \<Rightarrow> id \<Rightarrow> id option \<Rightarrow> channel \<Rightarrow> int \<Rightarrow> (string \<times> jval) list" where
  "payload_fields r c i ch x = [(''v'', VNum 1), (''restaurantId'', VStr r), (''customerId'', VStr c)] @
     (case i of None \<Rightarrow> [] | Some j \<Rightarrow> [(''reservationId'', VStr j)]) @
     [(''channel'', VStr (channel_code ch)), (''exp'', VNum (of_int x))]"

lemma payload_read:
  assumes "0 \<le> x"
  shows "json_parse (flat_object (payload_members r c i ch x)) =
    Some (VObj (payload_fields r c i ch x))"
  by (rule parse_flat_object)
    (auto simp: payload_members_def payload_fields_def reads_one reads_quoted reads_int assms split: option.splits)

lemma attribution_read:
  assumes "0 \<le> x"
  shows "json_parse (flat_object (attribution_members i r c x)) =
    Some (VObj [(''v'', VNum 1), (''id'', VStr i), (''restaurantId'', VStr r), (''campaignId'', VStr c), (''exp'', VNum (of_int x))])"
  by (rule parse_flat_object) (auto simp: attribution_members_def reads_one reads_quoted reads_int assms)

lemma channel_named_code [simp]: "channel_named (channel_code ch) = Some ch"
  by (cases ch) (simp_all add: channel_named_def)

lemma isInteger_int [simp]: "isInteger (of_int n)"
  by (simp add: isInteger_def)

lemma payload_of_members:
  "payload_of (VObj (payload_fields r c i ch x)) =
    Some \<lparr>lp_restaurantId = r, lp_customerId = c, lp_reservationId = map_option VStr i, lp_channel = ch, lp_exp = x\<rparr>"
  by (cases i) (simp_all add: payload_of_def payload_fields_def integer_of_def)

lemma payload_of_attribution:
  "payload_of (VObj [(''v'', VNum 1), (''id'', VStr i), (''restaurantId'', VStr r), (''campaignId'', VStr c), (''exp'', VNum x)]) = None"
  by (simp add: payload_of_def)

lemma attribution_of_payload:
  "attribution_of (VObj (payload_fields r c i ch x)) = None"
  by (cases i) (simp_all add: attribution_of_def payload_fields_def)

lemma issued_token:
  assumes "issueToken e version members = Inr token" "version \<in> {TOKEN_VERSION, CONSENT_TOKEN_VERSION}"
  obtains secret where "getSecret e = Inr secret"
    "js_split CHR ''.'' (js_trim token) = [version, base64url (flat_object members),
       sign e secret (version @ ''.'' @ base64url (flat_object members))]"
proof -
  obtain secret where s: "getSecret e = Inr secret"
    and t: "token = version @ ''.'' @ base64url (flat_object members) @ ''.'' @
      sign e secret (version @ ''.'' @ base64url (flat_object members))"
    using assms(1) by (auto simp: issueToken_def Let_def elim!: ebind_InrE)
  show thesis
    using that [OF s] token_parts [OF assms(2)] unfolding t by blast
qed

lemma parse_own_token:
  assumes "issueToken e version (payload_members r c i ch x) = Inr token" "version \<in> {TOKEN_VERSION, CONSENT_TOKEN_VERSION}"
    and "0 \<le> x"
  shows "parseToken e version' token now =
    (if version' \<noteq> version then Inl INVALID_TOKEN
     else if x \<le> now div 1000 then Inl TOKEN_EXPIRED
     else Inr \<lparr>lp_restaurantId = r, lp_customerId = c, lp_reservationId = map_option VStr i, lp_channel = ch, lp_exp = x\<rparr>)"
  using assms(1,2)
proof (rule issued_token)
  fix secret
  assume s: "getSecret e = Inr secret"
    and parts: "js_split CHR ''.'' (js_trim token) = [version, base64url (flat_object (payload_members r c i ch x)),
      sign e secret (version @ ''.'' @ base64url (flat_object (payload_members r c i ch x)))]"
  show ?thesis
    using assms(3) by (simp add: parseToken_def Let_def parts s signed_part_def base64_roundtrip payload_read payload_of_members)
qed

section \<open>Properties\<close>

text \<open>
  C19. The link of an unsubscription holds what it was made for. Until its second of expiry it is read back as the restaurant, the
  customer and the channel it was issued for, whatever bytes their identifiers are made of, and from then on it is expired. It is
  never an agreement (its version is signed), and never tells a campaign.
\<close>

theorem unsubscribe_link_roundtrip:
  assumes "createMarketingUnsubscribeToken e r c ch issuedAt (Some expiresAt) d = Inr token" and "0 \<le> expiresAt"
  shows "parseToken e TOKEN_VERSION token now =
      (if expiresAt div 1000 \<le> now div 1000 then Inl TOKEN_EXPIRED
       else Inr \<lparr>lp_restaurantId = r, lp_customerId = c, lp_reservationId = None, lp_channel = ch, lp_exp = expiresAt div 1000\<rparr>) \<and>
    verifyMarketingConsentToken e token now = Inl INVALID_TOKEN \<and>
    (\<exists>err. parseAttributionToken e token now = Inl err)"
proof -
  have issued: "issueToken e TOKEN_VERSION (payload_members r c None ch (expiresAt div 1000)) = Inr token"
    using assms(1) by (auto simp: createMarketingUnsubscribeToken_def Let_def split: if_splits)
  have x: "0 \<le> expiresAt div 1000"
    using assms(2) by simp
  obtain secret where parts: "js_split CHR ''.'' (js_trim token) = [TOKEN_VERSION,
      base64url (flat_object (payload_members r c None ch (expiresAt div 1000))),
      sign e secret (TOKEN_VERSION @ ''.'' @ base64url (flat_object (payload_members r c None ch (expiresAt div 1000))))]"
    using issued_token [OF issued] by blast
  have "\<exists>err. parseAttributionToken e token now = Inl err"
    using attribution_of_payload [of r c None ch "expiresAt div 1000"] payload_read [OF x, of r c None ch]
    by (cases "attributionSecret e") (simp_all add: parseAttributionToken_def Let_def parts signed_part_def base64_roundtrip)
  then show ?thesis
    using parse_own_token [OF issued _ x] by (simp add: verifyMarketingConsentToken_def TOKEN_VERSION_def CONSENT_TOKEN_VERSION_def)
qed

definition demo_links :: link_env where
  "demo_links = \<lparr>le_unsubscribeSecret = Some (replicate 32 CHR ''u''), le_attributionSecret = None,
     le_hmac = (\<lambda>k m. take 3 k @ m), le_zone = (\<lambda>t. 0), le_now = 0\<rparr>"

theorem unsubscribe_link_roundtrip_witness:
  "\<exists>token. createMarketingUnsubscribeToken demo_links ''r1'' ''c1'' EMAIL (Some 0) (Some 86400000) demo_db = Inr token \<and>
     parseToken demo_links TOKEN_VERSION token 1000 = Inr \<lparr>lp_restaurantId = ''r1'', lp_customerId = ''c1'',
       lp_reservationId = None, lp_channel = EMAIL, lp_exp = 86400\<rparr>"
proof -
  obtain token where t: "createMarketingUnsubscribeToken demo_links ''r1'' ''c1'' EMAIL (Some 0) (Some 86400000) demo_db = Inr token"
    by (simp add: createMarketingUnsubscribeToken_def MAX_UNSUBSCRIBE_TTL_DAYS_def demo_db_def demo_guest_def issueToken_def
        getSecret_def trimmed_def demo_links_def js_trim_def js_space_def Let_def)
  show ?thesis
    using t unsubscribe_link_roundtrip [OF t, of 1000] by simp
qed

text \<open>
  C20. Only what was signed with the key of the links, for this use, is obeyed: a token that unsubscribes is, spaces around it
  apart, the version, the payload and the signature of both under the secret in force, it has not expired,
  and its payload is what is then applied. A token made for an attribution, with the same version and even with the
  same key, is refused, and so is a consent link.
\<close>

theorem only_signed_links_are_obeyed:
  assumes "parseToken e TOKEN_VERSION token now = Inr p"
  shows "(\<exists>secret encoded v. getSecret e = Inr secret \<and>
      js_split CHR ''.'' (js_trim token) = [TOKEN_VERSION, encoded, sign e secret (TOKEN_VERSION @ ''.'' @ encoded)] \<and>
      json_parse (base64_bytes encoded) = Some v \<and> payload_of v = Some p \<and> now div 1000 < lp_exp p) \<and>
    (\<forall>secret i r c x. 0 \<le> x \<longrightarrow> token \<noteq> attribution_token e secret (attribution_members i r c x)) \<and>
    (\<forall>r c i issuedAt d. createMarketingConsentToken e r c i issuedAt d \<noteq> Inr token)"
proof -
  have len: "length (js_split CHR ''.'' (js_trim token)) = 3"
    and v1: "hd (js_split CHR ''.'' (js_trim token)) = TOKEN_VERSION"
    using assms by (auto simp: parseToken_def Let_def split: if_splits)
  from assms obtain secret encoded v where s: "getSecret e = Inr secret"
    and part: "signed_part e secret TOKEN_VERSION token = Some encoded"
    and v: "json_parse (base64_bytes encoded) = Some v" "payload_of v = Some p" "now div 1000 < lp_exp p"
    by (auto simp: parseToken_def Let_def split: if_splits option.splits elim!: ebind_InrE)
  have parts: "js_split CHR ''.'' (js_trim token) = [TOKEN_VERSION, encoded, sign e secret (TOKEN_VERSION @ ''.'' @ encoded)]"
    using part by (auto simp: signed_part_def split: list.splits if_splits)
  have "token \<noteq> attribution_token e key (attribution_members i r c x)" if "0 \<le> x" for key i r c x
  proof
    assume "token = attribution_token e key (attribution_members i r c x)"
    then have "encoded = base64url (flat_object (attribution_members i r c x))"
      using parts token_parts [of TOKEN_VERSION "flat_object (attribution_members i r c x)" e key]
      by (simp add: attribution_token_def Let_def)
    then show False
      using v attribution_read [OF that, of i r c] payload_of_attribution [of i r c "of_int x"] by (simp add: base64_roundtrip)
  qed
  moreover have "createMarketingConsentToken e r c i issuedAt d \<noteq> Inr token" for r c i issuedAt d
  proof
    assume "createMarketingConsentToken e r c i issuedAt d = Inr token"
    then obtain ms where "issueToken e CONSENT_TOKEN_VERSION ms = Inr token"
      by (auto simp: createMarketingConsentToken_def Let_def split: if_splits)
    then show False
      using v1 by (elim issued_token) (auto simp: TOKEN_VERSION_def CONSENT_TOKEN_VERSION_def)
  qed
  ultimately show ?thesis
    using s parts v by blast
qed

theorem only_signed_links_are_obeyed_witness:
  "\<exists>token secret encoded. createMarketingUnsubscribeToken demo_links ''r1'' ''c1'' EMAIL (Some 0) (Some 86400000) demo_db = Inr token \<and>
     getSecret demo_links = Inr secret \<and>
     js_split CHR ''.'' (js_trim token) = [TOKEN_VERSION, encoded, sign demo_links secret (TOKEN_VERSION @ ''.'' @ encoded)]"
proof -
  obtain token where t: "createMarketingUnsubscribeToken demo_links ''r1'' ''c1'' EMAIL (Some 0) (Some 86400000) demo_db = Inr token"
    and issued: "issueToken demo_links TOKEN_VERSION (payload_members ''r1'' ''c1'' None EMAIL 86400) = Inr token"
    by (simp add: createMarketingUnsubscribeToken_def MAX_UNSUBSCRIBE_TTL_DAYS_def demo_db_def demo_guest_def issueToken_def
        getSecret_def trimmed_def demo_links_def js_trim_def js_space_def Let_def)
  have "parseToken demo_links TOKEN_VERSION token 1000 = Inr \<lparr>lp_restaurantId = ''r1'', lp_customerId = ''c1'',
      lp_reservationId = None, lp_channel = EMAIL, lp_exp = 86400\<rparr>"
    using parse_own_token [OF issued] by simp
  then show ?thesis
    using t only_signed_links_are_obeyed by blast
qed

end
