(* ===== verification/Spec2Isabelle.thy ===== *)
theory Spec2Isabelle
  imports Availability Consistency Resilience Rate_Limit Gift_Cards Loyalty Experience_Events Notifications Telnyx_Codec
    OAuth_Grants Payment_Safety Marketing_Links
begin

text \<open>
  Sokar: the reservation engine of a restaurant platform. The model follows the TypeScript services of
  \<open>apps/api/src\<close> (modules under \<open>modules/\<close>, infrastructure under \<open>shared/\<close>), which keep their state in
  PostgreSQL through Prisma, cache and limit with Redis, and hand delayed work to BullMQ.

  \<^bold>\<open>The program.\<close> A diner's request comes from an agent, a widget, the voice agent or the dashboard. It is
  validated against the restaurant's policies, a quote and then a hold can keep a table for a few
  minutes, and \<open>createReservation\<close> turns the hold (or the request) into a reservation under an idempotency
  key. The table allocation chooses a table that no reservation and no live hold occupies; the last word is
  that of the database, through partial unique indexes and an exclusion constraint. The reservation then
  moves through a state machine whose only writer is the lifecycle service, which audits every move and
  puts events in an outbox; a dispatcher hands them to the queues. A waiting list feeds freed slots back
  as holds. Around this core: the cached availability shown to callers, the counted visits of a
  customer, gift cards, loyalty grants, experiences sold by quantity, payments that protect a reservation, the
  authorization server of the agents, rate limits and the guards around calls to providers.

  \<^bold>\<open>The theories\<close>, in the order of their imports.
    \<^item> \<open>Prelude\<close>: JavaScript conventions (truthiness, stable sort, rounding), tables as lists of rows, sums
      as fallible results (\<open>ebind\<close>, \<open>guard\<close>), transactions (\<open>in_tx\<close>: an error undoes every write),
      overlapping intervals; and the three interfaces below.
    \<^item> \<open>Domain\<close>, \<open>Db\<close>: the enumerations and errors; one record per Prisma model with the columns the
      services read or write, and the constraints of the migrations as predicates that an insert or an
      update checks and answers with the code of the database (P2002, the exclusion violation).
    \<^item> \<open>Reservation_State\<close> (\<open>shared/reservations/*\<close>), \<open>Restaurant_Time\<close> (\<open>shared/timezone\<close>),
      \<open>Opening_Hours\<close> (\<open>packages/shared/src/utils/opening-hours.ts\<close>), \<open>Policies\<close>
      (\<open>policies.service.ts\<close>, \<open>cancellation-policy.ts\<close>): the pure modules.
    \<^item> \<open>Seating\<close> (\<open>unassigned-seating.ts\<close>), \<open>Table_Allocation\<close> (\<open>table-allocation.service.ts\<close>),
      \<open>Availability\<close> (\<open>availability-capacity-aware.service.ts\<close>): who sits where, and what is offered.
    \<^item> \<open>Outbox\<close> (\<open>outbox.service.ts\<close>, \<open>reservation-confirmation.ts\<close>, the dispatcher), \<open>Lifecycle\<close>
      (\<open>reservation-lifecycle.service.ts\<close>), \<open>Holds\<close> (\<open>hold.service.ts\<close>), \<open>Idempotency\<close>
      (\<open>idempotency.service.ts\<close>, \<open>prisma-store.ts\<close>), \<open>Waiting_List\<close> (\<open>waiting-list.service.ts\<close>).
    \<^item> \<open>Booking\<close> and \<open>Booking_Changes\<close> (\<open>reservation.service.ts\<close>): the composition, creation on the one
      hand, modification, transition and cancellation on the other.
    \<^item> \<open>Consistency\<close>: one step relation over every operation of the above, with the races each can lose.
    \<^item> \<open>Resilience\<close> (\<open>shared/resilience\<close>), \<open>Rate_Limit\<close> (the limiters of \<open>mcp\<close>, \<open>connect\<close>, \<open>shared\<close>).
    \<^item> \<open>Customer_Lifecycle\<close> (\<open>customer-lifecycle.ts\<close>), \<open>Loyalty\<close> (\<open>loyalty.service.ts\<close>), \<open>Gift_Cards\<close>
      (\<open>gift-card.service.ts\<close>, \<open>gift-card-operations.service.ts\<close> and their utilities).
    \<^item> \<open>Experiences\<close> (\<open>experience.service.ts\<close> and the session expiry), \<open>Experience_Payments\<close>
      (\<open>experience-payment.service.ts\<close>); \<open>Experience_Seats\<close> and \<open>Experience_Events\<close> hold what is proved of their runs and of
      the reports of Stripe.
    \<^item> \<open>Js_Text\<close>, \<open>Json_Text\<close>, \<open>Iso_Date\<close>, \<open>Redis\<close>: what the components use of JavaScript's strings, \<open>JSON\<close> and
      \<open>Date\<close>, and of Redis' expiring keys.
    \<^item> \<open>Notification_Claims\<close> (\<open>shared/queue/notification-idempotency.ts\<close>), \<open>Notification_Workers\<close> (the four workers that
      send, \<open>shared/messaging/sender.ts\<close>), \<open>Notification_Reconciliation\<close> (\<open>reconciliation.worker.ts\<close>,
      \<open>notification-repair.ts\<close>); \<open>Notification_Safety\<close> holds the invariant of their runs, \<open>Notifications\<close> what follows.
    \<^item> \<open>Reservation_Payments\<close> (\<open>reservation-payment.service.ts\<close> and the webhook of its routes), over the reservations of
      \<open>Lifecycle\<close>; \<open>Payment_Safety\<close> what holds of their runs.
    \<^item> \<open>OAuth\<close> (\<open>agentic-reservations/mcp/oauth.ts\<close>), \<open>OAuth_Safety\<close> the invariant of its runs, \<open>OAuth_Grants\<close> where a token
      comes from and what one request does; \<open>Actions\<close> sequences the commands of Redis here and in the workers.
    \<^item> \<open>Marketing_Consent\<close> (\<open>modules/marketing\<close>: \<open>marketing-permission\<close>, \<open>marketing-opt-out\<close>, \<open>marketing-consent\<close>,
      \<open>marketing-retention-purge\<close>, and of \<open>rgpd/erasure.service.ts\<close> what it does to their tables), \<open>Marketing_Register\<close> what their
      commits keep, \<open>Marketing_Links\<close> (\<open>marketing-unsubscribe.service.ts\<close>) their signed tokens.
    \<^item> \<open>Telnyx_Codec\<close> (\<open>voice/stream/telnyx-codec.ts\<close>): the audio of a call, on words of 8, 16 and 32 bits.

  \<^bold>\<open>Interfaces\<close> (locales, in \<open>Prelude\<close> and \<open>Idempotency\<close>). \<open>constrained_table\<close> is a table with a symmetric relation of
  conflict that inserts and updates refuse: it promises that accepted writes keep the table free of conflicts;
  it is interpreted for the reservations, the holds, the waiting list, the debits of gift cards, the
  grants, the sessions, bookings and checkouts of experiences, and the policies, payments and events of reservation
  payments. \<open>status_machine\<close> is a column moved only by guarded updates: it promises that runs follow the
  declared transitions and that final states are never left; it is interpreted for the
  reservations, the holds, the waiting list, the outbox events, the grants and the payments. \<open>exclusive_store\<close> is a keyed store with one writer per key; it is
  interpreted for the idempotency store.

  \<^bold>\<open>How code becomes definitions.\<close> A function of the source is a function over the state \<open>db\<close> (or over
  the tables of its component) that returns the new state and a result: \<open>Inl\<close> an error that the source
  throws, \<open>Inr\<close> a value. A service method is written as its sequence of reads, guards and writes.
  What other requests commit between two statements of a method is an argument of its definition (a
  function on the state, or the rows found), and the theorems quantify over it or ask that it be itself a run
  of the modelled operations. Clocks, fresh identifiers, random bytes, hashes, the zone database of the runtime
  and the answers of Redis, the queues and providers are arguments too; whatever a theorem needs of
  them is one of its hypotheses, and its witness instantiates them. Amounts that the code keeps in
  doubles or in \<open>Decimal\<close> columns are rationals, dates are integers of milliseconds, strings are over
  the 256 characters of Isabelle's \<open>char\<close>, which stand for the Latin-1 part of Unicode.

  \<^bold>\<open>What is proved.\<close> No run of the system double-books a table or breaks a constraint, and a
  created reservation is alone on its table, confirmed, audited and consumes its hold exactly once
  (\<open>Consistency\<close>, \<open>Booking\<close>, \<open>Holds\<close>). Retrying a creation gives the same reservation; refusals
  write nothing. The lifecycle refines the declared state machine: final states are final, and every move
  has its audit row and its events. Modification and promotion have exactly the stated effects.
  Allocation, seating and the availability shown to callers agree with the constraint; the planner of
  unassigned groups never overlaps two groups. The conversion between restaurant time and instants is a round trip
  exactly away from clock changes. Gift cards conserve money over every run, one till ticket is one debit, a
  grant stays within the limits of its benefit and its code redeems once, the cached count of visits
  equals the computed one. The Redis token bucket is the ideal bucket in thousandths, a failing provider
  is spared, and the breaker recovers by a single probe. A session of an experience is never oversold, a report of Stripe
  is applied once, the seats listed are exactly those that can be held; and a paid checkout with a UUID can never
  be booked, because the key it derives is too long. Within seven days at most one notification under a business key is not
  known to have been refused, whatever answers are lost; a confirmation follows the answer of its provider, and an
  abandoned attempt is reconciled without a second message. That result assumes that tokens are fresh, that an error of
  Redis or of a queue does not read like a refusal, and that a verdict is about the message of the claim; three lemmas of
  \<open>Notifications\<close> show runs outside these assumptions. An event about the payment of a reservation counts once and moves it
  along its table, and confirms the reservation exactly when it should; but a payment as the services prepare it has no
  identifiers, so every such event is refused today. A code or refresh token of the authorization server is exchanged at most
  once however requests interleave, and a token it accepts goes back to a consent shown for the same client, scopes and
  restaurant and to the knowledge of its verifier, if random identifiers are fresh. An address that refused marketing stays
  on the register over every run until its owner agrees again or three years have passed, a withdrawal blocks even when the register
  cannot be written, each permission is what the last event of its ledger says, an erasure carries the oppositions over, and
  only a token signed for that use unsubscribes; two lemmas of \<open>Marketing_Register\<close> show a purge that loses a proof and an erasure whose
  entry has expired already. Decoding A-law is the expansion of G.711.

  \<^bold>\<open>Bounds.\<close> Where the code loops a bounded number of times the model recurses on what is left of the same
  bound: four attempts to create a hold (two once a table was asked for), twenty polls of a
  concurrent idempotent request, ten draws of a gift card code, three of a grant code, the
  configured retries of a provider call; the loop over withdrawn permissions has fuel, and ends, alone, within one
  round more than there are permissions (\<open>purge_withdrawn_loop_ends\<close>); the answer after the last one is the one of the code. The slots of a
  service advance by a positive interval, so \<open>slot_loop\<close> terminates by the distance to closing time.
  Reading JSON nests no deeper than the text is long, which is the fuel of \<open>json_parse\<close>.

  \<^bold>\<open>Not modelled.\<close> The routes and protocol adapters (HTTP, MCP, OpenAI Reserve), which authorise and
  reshape; the voice agent but for its audio formats, the texts and adapters of messages, marketing campaigns, points of sale and billing, whose behaviour is that of
  providers and timing; listings, exports and statistics; metrics and logs; the user interfaces;
  foreign keys and PostgreSQL's locking, whose effect appears as the atomic steps of the model. The texts shown to
  people are not modelled where they are only shown.
\<close>

text \<open>
  C1. No double booking, over any run of the system: whatever bookings, modifications, transitions,
  cancellations, reassignments, holds and waiting list operations are executed, each against whatever
  commits of others it can be overtaken by, the constraints of the database stay true, and two
  different reservations that occupy the same table never overlap.
\<close>

theorem no_double_booking:
  assumes "system_step\<^sup>*\<^sup>* d d'" "consistent d"
  shows "consistent d' \<and>
    (\<forall>r \<in> set (reservations d'). \<forall>r' \<in> set (reservations d'). \<forall>t a b a' b'.
       r_id r \<noteq> r_id r' \<and> seats_table r \<and> seats_table r' \<and> r_tableId r = Some t \<and> r_tableId r' = Some t \<and>
       r_startsAt r = Some a \<and> r_endsAt r = Some b \<and> a < b \<and>
       r_startsAt r' = Some a' \<and> r_endsAt r' = Some b' \<and> a' < b' \<longrightarrow>
       \<not> intervalsOverlap a b a' b')"
  using consistent_run [OF assms] consistent_no_overlap [OF consistent_run [OF assms]] by blast

theorem no_double_booking_witness:
  "\<exists>d' r. system_step plan_of_one_table d' \<and> reservations d' = [r] \<and> seats_table r \<and> consistent d'"
proof -
  obtain d' where run: "createReservation utc_runtime ask_booking ask_key quiet_booking plan_of_one_table
      = (d', Inr \<lparr>cr_reservationId = ''b1'', cr_state = CONFIRMED, cr_reused = False\<rparr>)"
    by (rule booked_one)
  have calm: "calm_booking quiet_booking"
    unfolding calm_booking_def by (simp add: quiet_booking_def callback_quiet [unfolded quiet_booking_def])
  have step: "system_step plan_of_one_table d'" by (rule sy_create [OF run calm])
  have "consistent plan_of_one_table"
    by (simp add: consistent_def plan_of_one_table_def empty_db_def table_ok_def)
  from no_double_booking [OF r_into_rtranclp [where r = system_step, OF step] this] have "consistent d'" by blast
  moreover have "length (reservations (fst (createReservation utc_runtime ask_booking ask_key quiet_booking
      plan_of_one_table))) = 1 \<and> list_all seats_table (reservations (fst (createReservation utc_runtime
      ask_booking ask_key quiet_booking plan_of_one_table)))"
    by code_simp
  ultimately show ?thesis using step run by (auto simp: length_Suc_conv)
qed

end
